(* ===== verification/Prelude.thy ===== *)
theory Prelude
  imports Main "HOL-Library.Word"
begin

unbundle bit_operations_syntax

section \<open>Shared types, byte strings and generic lemmas\<close>

text \<open>
  What every component of the development uses: the fixed-width integer types of
  \<open>src/include/genavb/types.h\<close>, flag words (a C \<open>unsigned int\<close> tested and changed with
  \<open>&\<close>, \<open>|=\<close> and \<open>&= ~\<close>), per-port bit masks, the big-endian 16-bit fields of the network
  formats, byte buffers written at an offset, and generic lemmas on lists. The collections
  declared here carry the component proofs: \<open>flag_simps\<close> decides flag tests after flag
  updates, \<open>buf_simps\<close> the length and contents of a buffer after writes.
\<close>

named_theorems flag_simps \<open>tests of flag words and port masks after an update\<close>
named_theorems buf_simps \<open>length and contents of byte buffers after writes\<close>

type_synonym u8 = "8 word"
type_synonym u16 = "16 word"
type_synonym u32 = "32 word"
type_synonym u64 = "64 word"

text \<open>A MAC address is the six bytes of a C \<open>u8 addr[6]\<close>.\<close>

type_synonym mac_addr = "u8 list"

subsection \<open>Flag words and port masks\<close>

text \<open>\<open>x & (1 << n)\<close> used as a condition, \<open>x |= (1 << n)\<close> and \<open>x &= ~(1 << n)\<close>.\<close>

definition bit_test :: "'a::len word \<Rightarrow> nat \<Rightarrow> bool" where
  "bit_test x n \<longleftrightarrow> x AND push_bit n 1 \<noteq> 0"

definition bit_set :: "'a::len word \<Rightarrow> nat \<Rightarrow> 'a word" where
  "bit_set x n = x OR push_bit n 1"

definition bit_clear :: "'a::len word \<Rightarrow> nat \<Rightarrow> 'a word" where
  "bit_clear x n = x AND NOT (push_bit n 1)"

lemma bit_push_one:
  "bit (2 ^ n :: 'a::len word) m \<longleftrightarrow> m = n \<and> n < LENGTH('a)"
  by (auto simp: bit_exp_iff)

lemma word_nonzero_bit: "(x::'a::len word) \<noteq> 0 \<longleftrightarrow> (\<exists>m. bit x m)"
  by (metis bit_0_eq bot_apply bot_bool_def bit_eqI)

lemma bit_test_iff [flag_simps]: "bit_test (x::'a::len word) n \<longleftrightarrow> bit x n"
  by (auto simp: bit_test_def word_nonzero_bit bit_and_iff bit_push_one dest: bit_imp_le_length)

lemma bit_set_iff [flag_simps]:
  "bit (bit_set (x::'a::len word) n) m \<longleftrightarrow> bit x m \<or> m = n \<and> n < LENGTH('a)"
  by (auto simp: bit_set_def bit_or_iff bit_push_one)

lemma bit_clear_iff [flag_simps]:
  "bit (bit_clear (x::'a::len word) n) m \<longleftrightarrow> bit x m \<and> m \<noteq> n"
  by (auto simp: bit_clear_def bit_and_iff bit_not_iff_eq bit_push_one dest: bit_imp_le_length)

subsection \<open>Ranges of the fixed-width types\<close>

lemma unat_u8_less: "unat (x::u8) < 256"
  using unsigned_less [of x, where ?'a = nat] by simp

lemma unat_u16_less: "unat (x::u16) < 65536"
  using unsigned_less [of x, where ?'a = nat] by simp

lemma unat_u32_less: "unat (x::u32) < 4294967296"
  using unsigned_less [of x, where ?'a = nat] by simp

subsection \<open>Signed reading of 32-bit values\<close>

text \<open>A C \<open>int\<close> obtained from an \<open>unsigned int\<close> is negative exactly from \<open>2^31\<close> on.\<close>

lemma sint_nonneg_iff: "0 \<le> sint (x::u32) \<longleftrightarrow> unat x < 2 ^ 31"
proof -
  have b: "0 \<le> uint x" "uint x < 2 ^ 32" using uint_lt2p [of x] by simp_all
  have "sint x = (uint x + 2 ^ 31) mod 2 ^ 32 - 2 ^ 31"
    by (simp add: sint_uint signed_take_bit_eq_take_bit_shift take_bit_eq_mod)
  then have "0 \<le> sint x \<longleftrightarrow> uint x < 2 ^ 31"
    using b by (cases "uint x < 2 ^ 31") (auto simp: mod_pos_geq)
  then show ?thesis
    unfolding uint_nat [of x] by (metis of_nat_less_iff of_nat_numeral of_nat_power)
qed

lemma sint_eq_unat: "unat (x::u32) < 2 ^ 31 \<Longrightarrow> sint x = int (unat x)"
proof -
  assume "unat x < 2 ^ 31"
  then have "uint x < 2 ^ 31"
    unfolding uint_nat [of x] by (metis of_nat_less_iff of_nat_numeral of_nat_power)
  moreover have "0 \<le> uint x" by simp
  ultimately have "signed_take_bit 31 (uint x) = uint x"
    by (intro signed_take_bit_int_eq_self) linarith+
  then show ?thesis by (simp add: sint_uint)
qed

subsection \<open>Big-endian 16-bit fields\<close>

text \<open>
  \<open>htons(v)\<close> stored through a \<open>u16 *\<close>, and \<open>ntohs\<close> of a \<open>u16\<close> loaded from a buffer: the byte
  order on the wire does not depend on the host, so a field is its two bytes.
\<close>

definition be16 :: "u16 \<Rightarrow> u8 list" where
  "be16 v = [ucast (drop_bit 8 v), ucast v]"

definition from_be16 :: "u8 \<Rightarrow> u8 \<Rightarrow> u16" where
  "from_be16 hi lo = push_bit 8 (ucast hi) OR ucast lo"

lemma length_be16 [simp]: "length (be16 v) = 2"
  by (simp add: be16_def)

lemma from_be16_be16 [simp]: "from_be16 (be16 v ! 0) (be16 v ! Suc 0) = v"
  unfolding from_be16_def be16_def
  by (rule bit_word_eqI) (auto simp: bit_simps)

subsection \<open>Byte buffers\<close>

text \<open>
  A buffer is a byte list of fixed length. A write that would run past its end is a memory
  error of the program: it is the value \<open>None\<close>, never a silent no-op.
\<close>

definition buf_write :: "u8 list \<Rightarrow> nat \<Rightarrow> u8 list \<Rightarrow> u8 list option" where
  "buf_write buf off bs =
     (if off + length bs \<le> length buf
      then Some (take off buf @ bs @ drop (off + length bs) buf) else None)"

lemma buf_write_Some:
  "off + length bs \<le> length buf \<Longrightarrow> \<exists>buf'. buf_write buf off bs = Some buf'"
  by (simp add: buf_write_def)

lemma buf_write_length [buf_simps]:
  "buf_write buf off bs = Some buf' \<Longrightarrow> length buf' = length buf"
  by (auto simp: buf_write_def split: if_splits)

lemma buf_write_nth:
  assumes "buf_write buf off bs = Some buf'" and "i < length buf"
  shows "buf' ! i = (if off \<le> i \<and> i < off + length bs then bs ! (i - off) else buf ! i)"
  using assms by (auto simp: buf_write_def nth_append min_def split: if_splits)

lemma buf_write_take:
  "buf_write buf off bs = Some buf' \<Longrightarrow> n \<le> off \<Longrightarrow> take n buf' = take n buf"
  by (auto simp: buf_write_def split: if_splits)

lemma buf_write_slice:
  "buf_write buf off bs = Some buf' \<Longrightarrow> take (off + length bs) buf' = take off buf @ bs"
  by (auto simp: buf_write_def split: if_splits)

subsection \<open>Lists\<close>

lemma remove1_eq_filter: "distinct xs \<Longrightarrow> remove1 x xs = filter (\<lambda>y. y \<noteq> x) xs"
  by (induction xs) (auto intro: filter_True [symmetric])

lemma find_Some_in: "find P xs = Some x \<Longrightarrow> x \<in> set xs \<and> P x"
  by (auto simp: find_Some_iff)

end
