(* ===== verification/Ring_Queue.thy ===== *)
theory Ring_Queue
  imports Prelude
begin

section \<open>The lockless queue (\<open>src/common/os/queue_common.h\<close>)\<close>

text \<open>
  The single-reader/single-writer ring of pointers shared by the network and media threads.
  The record \<open>queue\<close> is \<open>struct queue\<close>; the indices are 32-bit words, so that the
  wrap-around of the C arithmetic is the one of the model. An access of \<open>entry[]\<close> outside
  the array is the value \<open>None\<close>. The first part models the sequential operations and proves
  that they refine a bounded list (the contract is the locale \<open>bounded_fifo\<close>); the last part
  interleaves the loads and stores of one producer and one consumer.
\<close>

subsection \<open>State and operations\<close>

record queue =
  q_size :: u32
  q_max_size :: u32
  q_read :: u32
  q_write :: u32
  q_entry :: "u64 list"

text \<open>
  \<open>QUEUE_ENTRIES_MAX\<close> is defined by the OS specific code: it is the parameter \<open>entries_max\<close>.
  The entry storage is whatever memory the caller allocated (\<open>mem\<close>); initialisation does not
  touch it.
\<close>

definition queue_init :: "u32 \<Rightarrow> u64 list \<Rightarrow> u32 \<Rightarrow> queue" where
  "queue_init entries_max mem extra =
     \<lparr>q_size = entries_max + extra, q_max_size = entries_max + extra,
      q_read = 0, q_write = 0, q_entry = mem\<rparr>"

definition queue_set_size :: "queue \<Rightarrow> u32 \<Rightarrow> int \<times> queue" where
  "queue_set_size q new_size =
     (if q_size q < 1 \<or> q_size q > q_max_size q then (-1, q)
      else (0, q\<lparr>q_size := new_size\<rparr>))"

definition queue_pending_at :: "queue \<Rightarrow> u32 \<Rightarrow> u32 \<Rightarrow> u32" where
  "queue_pending_at q read write =
     (if write \<ge> read then write - read else (write + q_max_size q) - read)"

definition queue_pending :: "queue \<Rightarrow> u32" where
  "queue_pending q = queue_pending_at q (q_read q) (q_write q)"

definition queue_available_at :: "queue \<Rightarrow> u32 \<Rightarrow> u32" where
  "queue_available_at q pending =
     (let available = q_size q - 1 - pending in if 0 \<le> sint available then available else 0)"

definition queue_available :: "queue \<Rightarrow> u32" where
  "queue_available q = queue_available_at q (queue_pending q)"

definition queue_full :: "queue \<Rightarrow> bool" where
  "queue_full q \<longleftrightarrow> queue_available q = 0"

definition queue_empty :: "queue \<Rightarrow> bool" where
  "queue_empty q \<longleftrightarrow> queue_pending q = 0"

definition queue_incr :: "queue \<Rightarrow> u32 \<Rightarrow> u32" where
  "queue_incr q index = (let i = index + 1 in if i \<ge> q_max_size q then 0 else i)"

definition queue_enqueue_next :: "queue \<Rightarrow> u32 \<Rightarrow> u64 \<Rightarrow> (queue \<times> u32) option" where
  "queue_enqueue_next q write entry =
     (if unat write < length (q_entry q)
      then Some (q\<lparr>q_entry := (q_entry q)[unat write := entry]\<rparr>, queue_incr q write)
      else None)"

definition queue_enqueue_done :: "queue \<Rightarrow> u32 \<Rightarrow> queue" where
  "queue_enqueue_done q write = q\<lparr>q_write := write\<rparr>"

definition queue_dequeue_next :: "queue \<Rightarrow> u32 \<Rightarrow> (u64 \<times> u32) option" where
  "queue_dequeue_next q read =
     (if unat read < length (q_entry q)
      then Some (q_entry q ! unat read, queue_incr q read) else None)"

definition queue_dequeue_done :: "queue \<Rightarrow> u32 \<Rightarrow> queue" where
  "queue_dequeue_done q read = q\<lparr>q_read := read\<rparr>"

definition queue_peek :: "queue \<Rightarrow> u64 option" where
  "queue_peek q =
     (if queue_empty q then Some (-1)
      else if unat (q_read q) < length (q_entry q) then Some (q_entry q ! unat (q_read q))
      else None)"

definition queue_enqueue :: "queue \<Rightarrow> u64 \<Rightarrow> (int \<times> queue) option" where
  "queue_enqueue q entry =
     (if queue_full q then Some (-1, q)
      else map_option (\<lambda>(q', write). (0, queue_enqueue_done q' write))
             (queue_enqueue_next q (q_write q) entry))"

definition queue_dequeue :: "queue \<Rightarrow> (u64 \<times> queue) option" where
  "queue_dequeue q =
     (if queue_empty q then Some (-1, q)
      else map_option (\<lambda>(entry, read). (entry, queue_dequeue_done q read))
             (queue_dequeue_next q (q_read q)))"

text \<open>
  \<open>queue_flush\<close> (\<open>src/common/os/queue_common.c\<close>): the entries given to \<open>entry_free\<close>, in
  order, and the final queue. The loop runs until the queue is empty; \<open>None\<close> is either an
  access outside \<open>entry[]\<close> or no fuel left.
\<close>

fun queue_flush :: "nat \<Rightarrow> queue \<Rightarrow> (u64 list \<times> queue) option" where
  "queue_flush 0 q = (if queue_empty q then Some ([], q) else None)"
| "queue_flush (Suc fuel) q =
     (if queue_empty q then Some ([], q)
      else case queue_dequeue q of
        None \<Rightarrow> None
      | Some (entry, q') \<Rightarrow>
          map_option (\<lambda>(freed, q''). (entry # freed, q'')) (queue_flush fuel q'))"

subsection \<open>Invariant and abstraction\<close>

definition queue_inv :: "queue \<Rightarrow> bool" where
  "queue_inv q \<longleftrightarrow>
     unat (q_max_size q) < 2 ^ 31 \<and>
     unat (q_read q) < unat (q_max_size q) \<and> unat (q_write q) < unat (q_max_size q) \<and>
     length (q_entry q) = unat (q_max_size q) \<and>
     0 < unat (q_size q) \<and> unat (q_size q) \<le> unat (q_max_size q)"

text \<open>Number of entries from index \<open>r\<close> up to index \<open>w\<close> in a ring of \<open>m\<close> entries.\<close>

definition ring_dist :: "nat \<Rightarrow> nat \<Rightarrow> nat \<Rightarrow> nat" where
  "ring_dist m r w = (if r \<le> w then w - r else w + m - r)"

definition ring_slice :: "'a list \<Rightarrow> nat \<Rightarrow> nat \<Rightarrow> 'a list" where
  "ring_slice es r n = map (\<lambda>i. es ! ((r + i) mod length es)) [0..<n]"

definition queue_list :: "queue \<Rightarrow> u64 list" where
  "queue_list q = ring_slice (q_entry q) (unat (q_read q))
     (ring_dist (unat (q_max_size q)) (unat (q_read q)) (unat (q_write q)))"

definition queue_capacity :: "queue \<Rightarrow> nat" where
  "queue_capacity q = unat (q_size q) - 1"

lemma length_ring_slice [simp]: "length (ring_slice es r n) = n"
  by (simp add: ring_slice_def)

lemma length_queue_list:
  "length (queue_list q) = ring_dist (unat (q_max_size q)) (unat (q_read q)) (unat (q_write q))"
  by (simp add: queue_list_def)

lemma ring_dist_less: "r < m \<Longrightarrow> w < m \<Longrightarrow> ring_dist m r w < m"
  by (auto simp: ring_dist_def)

lemma ring_dist_step_write:
  "r < m \<Longrightarrow> w < m \<Longrightarrow> Suc (ring_dist m r w) < m \<Longrightarrow>
   ring_dist m r (if Suc w = m then 0 else Suc w) = Suc (ring_dist m r w)"
  by (auto simp: ring_dist_def split: if_splits)

lemma ring_dist_step_read:
  "r < m \<Longrightarrow> w < m \<Longrightarrow> 0 < ring_dist m r w \<Longrightarrow>
   Suc (ring_dist m (if Suc r = m then 0 else Suc r) w) = ring_dist m r w"
  by (auto simp: ring_dist_def split: if_splits)

lemma ring_dist_zero: "r < m \<Longrightarrow> w < m \<Longrightarrow> ring_dist m r w = 0 \<longleftrightarrow> r = w"
  by (auto simp: ring_dist_def)

lemma ring_mod: "r < m \<Longrightarrow> i \<le> m \<Longrightarrow> (r + i) mod m = (if r + i < m then r + i else r + i - (m::nat))"
  by (simp add: mod_if [of "r + i" m])

lemma ring_dist_index:
  "r < m \<Longrightarrow> w < m \<Longrightarrow> (r + ring_dist m r w) mod m = w"
  by (auto simp: ring_dist_def)

lemma ring_slice_snoc:
  assumes r: "r < length es" and n: "n < length es" and w: "w = (r + n) mod length es"
  shows "ring_slice (es[w := x]) r (Suc n) = ring_slice es r n @ [x]"
proof -
  have "w \<noteq> (r + i) mod length es" if "i < n" for i
    using that r n w ring_mod [OF r, of i] ring_mod [OF r, of n] by (simp split: if_splits)
  moreover have "w < length es" using r w by (cases "length es") simp_all
  ultimately show ?thesis
    unfolding ring_slice_def by (simp add: w [symmetric])
qed

lemma ring_slice_Cons:
  assumes r: "r < length es"
  shows "ring_slice es r (Suc n)
    = es ! r # ring_slice es (if Suc r = length es then 0 else Suc r) n"
proof -
  have shift: "(r + Suc i) mod length es
      = ((if Suc r = length es then 0 else Suc r) + i) mod length es" for i
    using mod_add_self1 [of "length es" i] by (cases "Suc r = length es") (simp_all flip: add_Suc)
  have "ring_slice es r (Suc n)
      = es ! (r mod length es) # map (\<lambda>i. es ! ((r + Suc i) mod length es)) [0..<n]"
    unfolding ring_slice_def upt_conv_Cons [OF zero_less_Suc] map_Suc_upt [symmetric]
    by (simp add: o_def)
  then show ?thesis using r unfolding shift by (simp add: ring_slice_def)
qed

subsection \<open>The sequential operations refine a bounded list\<close>

lemma queue_pending_at_unat:
  assumes "unat (q_max_size q) < 2 ^ 31" and "unat r < unat (q_max_size q)"
    and "unat w < unat (q_max_size q)"
  shows "unat (queue_pending_at q r w) = ring_dist (unat (q_max_size q)) (unat r) (unat w)"
proof (cases "r \<le> w")
  case True
  then show ?thesis
    by (simp add: queue_pending_at_def ring_dist_def unat_sub word_le_nat_alt)
next
  case False
  have sum: "unat (w + q_max_size q) = unat w + unat (q_max_size q)"
    using assms by (subst unat_add_lem [THEN iffD1]) simp_all
  then have "r \<le> w + q_max_size q"
    using assms by (simp add: word_le_nat_alt)
  with sum False show ?thesis
    by (simp add: queue_pending_at_def ring_dist_def unat_sub word_le_nat_alt)
qed

lemma queue_pending_unat:
  "queue_inv q \<Longrightarrow> unat (queue_pending q) = length (queue_list q)"
  by (simp add: queue_pending_def queue_pending_at_unat length_queue_list queue_inv_def)

lemma queue_empty_iff: "queue_inv q \<Longrightarrow> queue_empty q \<longleftrightarrow> queue_list q = []"
  using queue_pending_unat [of q] by (auto simp: queue_empty_def unat_eq_zero)

lemma queue_available_at_unat:
  assumes inv: "queue_inv q" and p: "unat p < unat (q_max_size q)"
  shows "unat (queue_available_at q p) = queue_capacity q - unat p"
proof -
  let ?a = "q_size q - 1 - p"
  from inv have s: "0 < unat (q_size q)" and m: "unat (q_size q) \<le> unat (q_max_size q)"
      "unat (q_max_size q) < 2 ^ 31" by (auto simp: queue_inv_def)
  have s1: "unat (q_size q - 1) = unat (q_size q) - 1"
    using s by (simp add: unat_sub word_le_nat_alt Suc_leI)
  have a: "unat ?a = (if unat p \<le> unat (q_size q) - 1 then unat (q_size q) - 1 - unat p
      else unat (q_size q) - 1 + 2 ^ 32 - unat p)"
    unfolding unat_sub_if' [of "q_size q - 1" p] s1 by simp
  show ?thesis
    using a p m
    by (cases "unat p \<le> unat (q_size q) - 1")
      (simp_all add: queue_available_at_def queue_capacity_def sint_nonneg_iff Let_def)
qed

lemma queue_available_unat:
  assumes "queue_inv q"
  shows "unat (queue_available q) = queue_capacity q - length (queue_list q)"
proof -
  have "length (queue_list q) < unat (q_max_size q)"
    using assms by (simp add: length_queue_list queue_inv_def ring_dist_less)
  with assms show ?thesis
    by (simp add: queue_available_def queue_available_at_unat queue_pending_unat)
qed

lemma queue_full_iff:
  "queue_inv q \<Longrightarrow> queue_full q \<longleftrightarrow> queue_capacity q \<le> length (queue_list q)"
  using queue_available_unat [of q] by (auto simp: queue_full_def unat_eq_zero)

lemma queue_incr_unat:
  assumes "unat (q_max_size q) < 2 ^ 31" and "unat i < unat (q_max_size q)"
  shows "unat (queue_incr q i)
    = (if Suc (unat i) = unat (q_max_size q) then 0 else Suc (unat i))"
proof -
  have "unat (i + 1) = Suc (unat i)"
    using assms by (simp add: unat_word_ariths)
  then show ?thesis using assms by (auto simp: queue_incr_def word_le_nat_alt)
qed

text \<open>The two index updates, on the abstract contents.\<close>

lemma queue_enqueue_done_list:
  assumes inv: "queue_inv q" and room: "length (queue_list q) < queue_capacity q"
    and store: "q_entry q ! unat (q_write q) = x"
  shows "queue_list (queue_enqueue_done q (queue_incr q (q_write q))) = queue_list q @ [x]"
proof -
  let ?m = "unat (q_max_size q)" and ?r = "unat (q_read q)" and ?w = "unat (q_write q)"
  let ?n = "ring_dist ?m ?r ?w"
  from inv have b: "?m < 2 ^ 31" "?r < ?m" "?w < ?m" "length (q_entry q) = ?m"
    by (auto simp: queue_inv_def)
  have n: "Suc ?n < ?m"
    using room inv by (auto simp: length_queue_list queue_capacity_def queue_inv_def)
  have "ring_dist ?m ?r (unat (queue_incr q (q_write q))) = Suc ?n"
    using b n ring_dist_step_write [of ?r ?m ?w] by (simp add: queue_incr_unat)
  moreover have "ring_slice (q_entry q) ?r (Suc ?n) = ring_slice (q_entry q) ?r ?n @ [x]"
    using ring_slice_snoc [of ?r "q_entry q" ?n ?w x] b n store
    by (simp add: ring_dist_index list_update_same_conv [THEN iffD2])
  ultimately show ?thesis by (simp add: queue_list_def queue_enqueue_done_def)
qed

lemma queue_dequeue_done_list:
  assumes inv: "queue_inv q" and ne: "queue_list q \<noteq> []"
  shows "queue_list q = q_entry q ! unat (q_read q)
    # queue_list (queue_dequeue_done q (queue_incr q (q_read q)))"
proof -
  let ?m = "unat (q_max_size q)" and ?r = "unat (q_read q)" and ?w = "unat (q_write q)"
  from inv have b: "?m < 2 ^ 31" "?r < ?m" "?w < ?m" "length (q_entry q) = ?m"
    by (auto simp: queue_inv_def)
  have "0 < ring_dist ?m ?r ?w"
    using ne by (simp add: length_queue_list [symmetric])
  then obtain n where n: "ring_dist ?m ?r ?w = Suc n"
    by (auto dest: gr0_implies_Suc)
  have "ring_dist ?m (unat (queue_incr q (q_read q))) ?w = n"
    using b n ring_dist_step_read [of ?r ?m ?w] by (simp add: queue_incr_unat)
  then show ?thesis
    using b n ring_slice_Cons [of ?r "q_entry q" n]
    by (simp add: queue_list_def queue_dequeue_done_def queue_incr_unat)
qed

lemma queue_inv_enqueue_done:
  "queue_inv q \<Longrightarrow> queue_inv (queue_enqueue_done q (queue_incr q (q_write q)))"
  by (auto simp: queue_inv_def queue_enqueue_done_def queue_incr_unat)

lemma queue_inv_dequeue_done:
  "queue_inv q \<Longrightarrow> queue_inv (queue_dequeue_done q (queue_incr q (q_read q)))"
  by (auto simp: queue_inv_def queue_dequeue_done_def queue_incr_unat)

lemma queue_inv_store:
  "queue_inv q \<Longrightarrow> queue_inv (q\<lparr>q_entry := (q_entry q)[i := x]\<rparr>)"
  by (simp add: queue_inv_def)

text \<open>Storing at the write index does not touch the pending entries.\<close>

lemma queue_list_store:
  assumes inv: "queue_inv q"
  shows "queue_list (q\<lparr>q_entry := (q_entry q)[unat (q_write q) := x]\<rparr>) = queue_list q"
proof -
  let ?m = "unat (q_max_size q)" and ?r = "unat (q_read q)" and ?w = "unat (q_write q)"
  from inv have b: "?r < ?m" "?w < ?m" "length (q_entry q) = ?m"
    by (auto simp: queue_inv_def)
  have "ring_slice ((q_entry q)[?w := x]) ?r (Suc (ring_dist ?m ?r ?w))
      = ring_slice (q_entry q) ?r (ring_dist ?m ?r ?w) @ [x]"
    using b by (intro ring_slice_snoc) (simp_all add: ring_dist_less ring_dist_index)
  then have "butlast (ring_slice ((q_entry q)[?w := x]) ?r (Suc (ring_dist ?m ?r ?w)))
      = ring_slice (q_entry q) ?r (ring_dist ?m ?r ?w)" by simp
  then show ?thesis by (simp add: queue_list_def ring_slice_def)
qed

lemma queue_enqueue_refines:
  assumes inv: "queue_inv q"
  shows "\<exists>rc q'. queue_enqueue q x = Some (rc, q') \<and> queue_inv q' \<and>
    queue_capacity q' = queue_capacity q \<and>
    (if length (queue_list q) < queue_capacity q
     then rc = 0 \<and> queue_list q' = queue_list q @ [x] else rc = -1 \<and> q' = q)"
proof (cases "length (queue_list q) < queue_capacity q")
  case True
  let ?q1 = "q\<lparr>q_entry := (q_entry q)[unat (q_write q) := x]\<rparr>"
  have w: "unat (q_write q) < length (q_entry q)" using inv by (simp add: queue_inv_def)
  have inv1: "queue_inv ?q1" using inv by (rule queue_inv_store)
  have incr: "queue_incr ?q1 (q_write ?q1) = queue_incr q (q_write q)"
    by (simp add: queue_incr_def)
  have cap: "queue_capacity ?q1 = queue_capacity q" by (simp add: queue_capacity_def)
  let ?q2 = "queue_enqueue_done ?q1 (queue_incr q (q_write q))"
  have "queue_enqueue q x = Some (0, ?q2)"
    using True inv w by (simp add: queue_enqueue_def queue_full_iff queue_enqueue_next_def)
  moreover have "queue_inv ?q2" using queue_inv_enqueue_done [OF inv1] incr by simp
  moreover have "queue_list ?q2 = queue_list q @ [x]"
    using queue_enqueue_done_list [OF inv1, of x] True w queue_list_store [OF inv, of x] incr cap
    by simp
  moreover have "queue_capacity ?q2 = queue_capacity q"
    by (simp add: queue_capacity_def queue_enqueue_done_def)
  ultimately show ?thesis using True by simp
next
  case False
  then show ?thesis using inv by (simp add: queue_enqueue_def queue_full_iff)
qed

lemma queue_dequeue_refines:
  assumes inv: "queue_inv q"
  shows "\<exists>v q'. queue_dequeue q = Some (v, q') \<and> queue_inv q' \<and>
    queue_capacity q' = queue_capacity q \<and>
    (case queue_list q of [] \<Rightarrow> v = -1 \<and> q' = q | x # xs \<Rightarrow> v = x \<and> queue_list q' = xs)"
proof (cases "queue_list q = []")
  case True
  then show ?thesis using inv by (simp add: queue_dequeue_def queue_empty_iff)
next
  case False
  let ?q' = "queue_dequeue_done q (queue_incr q (q_read q))"
  have "unat (q_read q) < length (q_entry q)" using inv by (simp add: queue_inv_def)
  then have "queue_dequeue q = Some (q_entry q ! unat (q_read q), ?q')"
    using False inv by (simp add: queue_dequeue_def queue_empty_iff queue_dequeue_next_def)
  moreover have "queue_capacity ?q' = queue_capacity q"
    by (simp add: queue_capacity_def queue_dequeue_done_def)
  ultimately show ?thesis
    using queue_dequeue_done_list [OF inv False] queue_inv_dequeue_done [OF inv] by simp
qed

text \<open>
  The contract of the queue, as its users rely on it: a bounded first-in first-out list. An
  enqueue reports \<open>0\<close> and appends, or reports \<open>-1\<close> and changes nothing; a dequeue of a
  non-empty queue returns the oldest entry.
\<close>

locale bounded_fifo =
  fixes enqueue :: "'q \<Rightarrow> 'e \<Rightarrow> (int \<times> 'q) option"
    and dequeue :: "'q \<Rightarrow> ('e \<times> 'q) option"
    and contents :: "'q \<Rightarrow> 'e list"
    and capacity :: "'q \<Rightarrow> nat"
    and invar :: "'q \<Rightarrow> bool"
  assumes enqueue_spec: "invar q \<Longrightarrow> \<exists>rc q'. enqueue q x = Some (rc, q') \<and> invar q' \<and>
      capacity q' = capacity q \<and>
      (if length (contents q) < capacity q then rc = 0 \<and> contents q' = contents q @ [x]
       else rc = -1 \<and> q' = q)"
    and dequeue_spec: "invar q \<Longrightarrow> contents q = x # xs \<Longrightarrow>
      \<exists>q'. dequeue q = Some (x, q') \<and> invar q' \<and> capacity q' = capacity q \<and> contents q' = xs"
begin

lemma enqueue_cases:
  assumes "invar q"
  obtains (room) q' where "length (contents q) < capacity q" "enqueue q x = Some (0, q')"
      "invar q'" "capacity q' = capacity q" "contents q' = contents q @ [x]"
  | (full) "capacity q \<le> length (contents q)" "enqueue q x = Some (-1, q)"
  using enqueue_spec [OF assms, of x] by (fastforce split: if_splits)

text \<open>
  Any sequence of operations: \<open>Some x\<close> enqueues \<open>x\<close>, \<open>None\<close> dequeues (skipped on an empty
  queue, as the users test first). The result holds the accepted and the returned entries.
\<close>

fun run_ops :: "'e option list \<Rightarrow> 'q \<Rightarrow> ('e list \<times> 'e list \<times> 'q) option" where
  "run_ops [] q = Some ([], [], q)"
| "run_ops (Some x # ops) q =
     (case enqueue q x of
        None \<Rightarrow> None
      | Some (rc, q') \<Rightarrow>
          map_option (\<lambda>(acc, out, q''). (if rc = 0 then x # acc else acc, out, q''))
            (run_ops ops q'))"
| "run_ops (None # ops) q =
     (if contents q = [] then run_ops ops q
      else case dequeue q of
        None \<Rightarrow> None
      | Some (v, q') \<Rightarrow>
          map_option (\<lambda>(acc, out, q''). (acc, v # out, q'')) (run_ops ops q'))"

lemma run_ops_fifo:
  "invar q \<Longrightarrow> \<exists>acc out q'. run_ops ops q = Some (acc, out, q') \<and> invar q' \<and>
     contents q @ acc = out @ contents q'"
proof (induction ops arbitrary: q)
  case Nil
  then show ?case by simp
next
  case (Cons op ops)
  show ?case
  proof (cases op)
    case None
    show ?thesis
    proof (cases "contents q")
      case Nil
      with Cons.IH [OF Cons.prems] None show ?thesis by simp
    next
      case (Cons y ys)
      with dequeue_spec [OF Cons.prems] obtain q1
        where "dequeue q = Some (y, q1)" "invar q1" "contents q1 = ys" by blast
      with Cons.IH [of q1] None Cons show ?thesis by fastforce
    qed
  next
    case (Some x)
    from Cons.prems show ?thesis
    proof (cases rule: enqueue_cases [of q x])
      case (room q1)
      with Cons.IH [of q1] Some show ?thesis by fastforce
    next
      case full
      with Cons.IH [of q] Cons.prems Some show ?thesis by fastforce
    qed
  qed
qed

end

interpretation ring: bounded_fifo queue_enqueue queue_dequeue queue_list queue_capacity queue_inv
proof unfold_locales
  fix q x assume "queue_inv q"
  then show "\<exists>rc q'. queue_enqueue q x = Some (rc, q') \<and> queue_inv q' \<and>
    queue_capacity q' = queue_capacity q \<and>
    (if length (queue_list q) < queue_capacity q
     then rc = 0 \<and> queue_list q' = queue_list q @ [x] else rc = -1 \<and> q' = q)"
    by (rule queue_enqueue_refines)
next
  fix q x xs assume "queue_inv q" and "queue_list q = x # xs"
  then show "\<exists>q'. queue_dequeue q = Some (x, q') \<and> queue_inv q' \<and>
    queue_capacity q' = queue_capacity q \<and> queue_list q' = xs"
    using queue_dequeue_refines [of q] by auto
qed

subsection \<open>Interleaving of one producer and one consumer\<close>

text \<open>
  The queue is used without a lock by one writer and one reader. Each access of a shared
  location is one step. The producer (\<open>queue_enqueue\<close>) loads \<open>read\<close>, then loads its own
  \<open>write\<close> and decides whether there is room, then stores the entry, then publishes the new
  \<open>write\<close>; the consumer (\<open>queue_dequeue\<close>) loads its own \<open>read\<close> and the other side's
  \<open>write\<close> (\<open>queue_pending\<close> loads them in that order), then loads the entry, then publishes
  the new \<open>read\<close>. The write barrier before each publication keeps the stores in that order.
  What one side loaded may be stale when it is used.
\<close>

datatype producer =
    PIdle
  | PLoaded u64 u32
  | PStore u64 u32
  | PPublish u64 u32

datatype consumer =
    CIdle
  | CLoaded u32
  | CRead u32
  | CPublish u64 u32

record spsc =
  shared :: queue
  prod :: producer
  cons :: consumer
  accepted :: "u64 list"
  delivered :: "u64 list"

inductive spsc_step :: "spsc \<Rightarrow> spsc \<Rightarrow> bool" where
  p_load: "prod s = PIdle \<Longrightarrow>
     spsc_step s (s\<lparr>prod := PLoaded x (q_read (shared s))\<rparr>)"
| p_full: "prod s = PLoaded x r \<Longrightarrow>
     queue_available_at (shared s) (queue_pending_at (shared s) r (q_write (shared s))) = 0 \<Longrightarrow>
     spsc_step s (s\<lparr>prod := PIdle\<rparr>)"
| p_room: "prod s = PLoaded x r \<Longrightarrow>
     queue_available_at (shared s) (queue_pending_at (shared s) r (q_write (shared s))) \<noteq> 0 \<Longrightarrow>
     spsc_step s (s\<lparr>prod := PStore x (q_write (shared s))\<rparr>)"
| p_store: "prod s = PStore x w \<Longrightarrow>
     queue_enqueue_next (shared s) w x = Some (q', w') \<Longrightarrow>
     spsc_step s (s\<lparr>shared := q', prod := PPublish x w'\<rparr>)"
| p_publish: "prod s = PPublish x w \<Longrightarrow>
     spsc_step s (s\<lparr>shared := queue_enqueue_done (shared s) w, prod := PIdle,
                    accepted := accepted s @ [x]\<rparr>)"
| c_load: "cons s = CIdle \<Longrightarrow>
     spsc_step s (s\<lparr>cons := CLoaded (q_write (shared s))\<rparr>)"
| c_empty: "cons s = CLoaded w \<Longrightarrow> queue_pending_at (shared s) (q_read (shared s)) w = 0 \<Longrightarrow>
     spsc_step s (s\<lparr>cons := CIdle\<rparr>)"
| c_some: "cons s = CLoaded w \<Longrightarrow> queue_pending_at (shared s) (q_read (shared s)) w \<noteq> 0 \<Longrightarrow>
     spsc_step s (s\<lparr>cons := CRead (q_read (shared s))\<rparr>)"
| c_read: "cons s = CRead r \<Longrightarrow> queue_dequeue_next (shared s) r = Some (v, r') \<Longrightarrow>
     spsc_step s (s\<lparr>cons := CPublish v r'\<rparr>)"
| c_publish: "cons s = CPublish v r \<Longrightarrow>
     spsc_step s (s\<lparr>shared := queue_dequeue_done (shared s) r, cons := CIdle,
                    delivered := delivered s @ [v]\<rparr>)"

inductive spsc_reachable :: "queue \<Rightarrow> spsc \<Rightarrow> bool" for q0 where
  spsc_start: "spsc_reachable q0 \<lparr>shared = q0, prod = PIdle, cons = CIdle,
     accepted = queue_list q0, delivered = []\<rparr>"
| spsc_next: "spsc_reachable q0 s \<Longrightarrow> spsc_step s t \<Longrightarrow> spsc_reachable q0 t"

text \<open>What each side knows while it is between its loads and its publication.\<close>

definition queue_dist :: "queue \<Rightarrow> u32 \<Rightarrow> u32 \<Rightarrow> nat" where
  "queue_dist q r w = ring_dist (unat (q_max_size q)) (unat r) (unat w)"

definition prod_inv :: "queue \<Rightarrow> producer \<Rightarrow> bool" where
  "prod_inv q p \<longleftrightarrow> (case p of
       PIdle \<Rightarrow> True
     | PLoaded x r \<Rightarrow> unat r < unat (q_max_size q) \<and>
         length (queue_list q) \<le> queue_dist q r (q_write q)
     | PStore x w \<Rightarrow> w = q_write q \<and> length (queue_list q) < queue_capacity q
     | PPublish x w \<Rightarrow> w = queue_incr q (q_write q) \<and>
         q_entry q ! unat (q_write q) = x \<and> length (queue_list q) < queue_capacity q)"

definition cons_inv :: "queue \<Rightarrow> consumer \<Rightarrow> bool" where
  "cons_inv q c \<longleftrightarrow> (case c of
       CIdle \<Rightarrow> True
     | CLoaded w \<Rightarrow> unat w < unat (q_max_size q) \<and>
         queue_dist q (q_read q) w \<le> length (queue_list q)
     | CRead r \<Rightarrow> r = q_read q \<and> queue_list q \<noteq> []
     | CPublish v r \<Rightarrow> r = queue_incr q (q_read q) \<and>
         queue_list q \<noteq> [] \<and> v = hd (queue_list q))"

definition spsc_inv :: "spsc \<Rightarrow> bool" where
  "spsc_inv s \<longleftrightarrow> queue_inv (shared s) \<and> prod_inv (shared s) (prod s) \<and>
     cons_inv (shared s) (cons s) \<and> accepted s = delivered s @ queue_list (shared s)"

lemma queue_dist_list: "queue_dist q (q_read q) (q_write q) = length (queue_list q)"
  by (simp add: queue_dist_def length_queue_list)

text \<open>Each side's knowledge survives the other side's steps.\<close>

lemma prod_inv_dequeue_done:
  assumes "queue_inv q" and "queue_list q \<noteq> []" and "prod_inv q p"
  shows "prod_inv (queue_dequeue_done q (queue_incr q (q_read q))) p"
proof -
  let ?q' = "queue_dequeue_done q (queue_incr q (q_read q))"
  have len: "length (queue_list q) = Suc (length (queue_list ?q'))"
    using queue_dequeue_done_list [OF assms(1,2)] by (metis length_Cons)
  have same: "q_max_size ?q' = q_max_size q" "q_write ?q' = q_write q" "q_entry ?q' = q_entry q"
    "q_size ?q' = q_size q" by (simp_all add: queue_dequeue_done_def)
  then have "queue_capacity ?q' = queue_capacity q" "queue_incr ?q' = queue_incr q"
    "queue_dist ?q' = queue_dist q"
    by (simp_all add: queue_capacity_def queue_incr_def queue_dist_def fun_eq_iff)
  with assms(3) len same show ?thesis by (auto simp: prod_inv_def split: producer.splits)
qed

lemma cons_inv_enqueue_done:
  assumes "queue_inv q" and "length (queue_list q) < queue_capacity q"
    and "q_entry q ! unat (q_write q) = x" and "cons_inv q c"
  shows "cons_inv (queue_enqueue_done q (queue_incr q (q_write q))) c"
proof -
  let ?q' = "queue_enqueue_done q (queue_incr q (q_write q))"
  have lst: "queue_list ?q' = queue_list q @ [x]"
    by (rule queue_enqueue_done_list) (use assms in simp_all)
  have "q_max_size ?q' = q_max_size q" "q_read ?q' = q_read q"
    by (simp_all add: queue_enqueue_done_def)
  moreover from this have "queue_incr ?q' = queue_incr q" "queue_dist ?q' = queue_dist q"
    by (simp_all add: queue_incr_def queue_dist_def fun_eq_iff)
  ultimately show ?thesis
    using assms(4) lst by (auto simp: cons_inv_def split: consumer.splits)
qed

lemma cons_inv_store:
  assumes "queue_inv q" and "cons_inv q c"
  shows "cons_inv (q\<lparr>q_entry := (q_entry q)[unat (q_write q) := x]\<rparr>) c"
  using assms(2) queue_list_store [OF assms(1), of x]
  by (auto simp: cons_inv_def queue_dist_def queue_incr_def split: consumer.splits)

text \<open>A stale \<open>read\<close> only makes the producer see less room than there is.\<close>

lemma stale_room:
  assumes inv: "queue_inv q" and p: "prod_inv q (PLoaded x r)"
    and room: "queue_available_at q (queue_pending_at q r (q_write q)) \<noteq> 0"
  shows "length (queue_list q) < queue_capacity q"
proof -
  let ?p = "queue_pending_at q r (q_write q)"
  have d: "unat ?p = queue_dist q r (q_write q)"
    using inv p by (simp add: queue_pending_at_unat queue_dist_def prod_inv_def queue_inv_def)
  then have "unat ?p < unat (q_max_size q)"
    using inv p by (simp add: queue_dist_def ring_dist_less prod_inv_def queue_inv_def)
  with inv have "unat (queue_available_at q ?p) = queue_capacity q - unat ?p"
    by (rule queue_available_at_unat)
  moreover have "unat (queue_available_at q ?p) \<noteq> 0"
    using room by (simp add: unat_eq_zero)
  ultimately show ?thesis using p d by (simp add: prod_inv_def)
qed

text \<open>A stale \<open>write\<close> only makes the consumer see fewer entries than there are.\<close>

lemma stale_some:
  assumes inv: "queue_inv q" and c: "cons_inv q (CLoaded w)"
    and some: "queue_pending_at q (q_read q) w \<noteq> 0"
  shows "queue_list q \<noteq> []"
proof -
  have "unat (queue_pending_at q (q_read q) w) = queue_dist q (q_read q) w"
    using inv c by (simp add: queue_pending_at_unat queue_dist_def cons_inv_def queue_inv_def)
  then have "0 < queue_dist q (q_read q) w"
    using some by (metis gr0I unat_eq_zero)
  with c show ?thesis by (auto simp: cons_inv_def)
qed

lemma spsc_inv_step: "spsc_step s t \<Longrightarrow> spsc_inv s \<Longrightarrow> spsc_inv t"
proof (induction rule: spsc_step.induct)
  case (p_load s x)
  then show ?case
    by (auto simp: spsc_inv_def prod_inv_def queue_dist_list queue_inv_def)
next
  case (p_full s x r)
  then show ?case by (auto simp: spsc_inv_def prod_inv_def)
next
  case (p_room s x r)
  then have "length (queue_list (shared s)) < queue_capacity (shared s)"
    by (auto simp: spsc_inv_def intro: stale_room)
  with p_room show ?case by (auto simp: spsc_inv_def prod_inv_def)
next
  case (p_store s x w q' w')
  let ?q = "shared s"
  from p_store have inv: "queue_inv ?q" and w: "w = q_write ?q"
    and room: "length (queue_list ?q) < queue_capacity ?q"
    by (auto simp: spsc_inv_def prod_inv_def)
  from p_store(2) w have q': "q' = ?q\<lparr>q_entry := (q_entry ?q)[unat (q_write ?q) := x]\<rparr>"
    and w': "w' = queue_incr ?q (q_write ?q)"
    by (auto simp: queue_enqueue_next_def split: if_splits)
  have "unat (q_write ?q) < length (q_entry ?q)" using inv by (simp add: queue_inv_def)
  then have "prod_inv q' (PPublish x w')"
    using q' w' room queue_list_store [OF inv, of x]
    by (simp add: prod_inv_def queue_incr_def queue_capacity_def)
  with p_store q' inv show ?case
    by (simp add: spsc_inv_def queue_inv_store queue_list_store cons_inv_store)
next
  case (p_publish s x w)
  let ?q = "shared s"
  from p_publish have inv: "queue_inv ?q" and w: "w = queue_incr ?q (q_write ?q)"
    and x: "q_entry ?q ! unat (q_write ?q) = x"
    and room: "length (queue_list ?q) < queue_capacity ?q"
    by (auto simp: spsc_inv_def prod_inv_def)
  from p_publish inv w room x show ?case
    by (simp add: spsc_inv_def queue_inv_enqueue_done queue_enqueue_done_list
        cons_inv_enqueue_done [OF inv room x] prod_inv_def)
next
  case (c_load s)
  then show ?case
    by (auto simp: spsc_inv_def cons_inv_def queue_dist_list queue_inv_def)
next
  case (c_empty s w)
  then show ?case by (auto simp: spsc_inv_def cons_inv_def)
next
  case (c_some s w)
  then have "queue_list (shared s) \<noteq> []"
    using stale_some [of "shared s" w] by (simp add: spsc_inv_def)
  with c_some show ?case by (auto simp: spsc_inv_def cons_inv_def)
next
  case (c_read s r v r')
  let ?q = "shared s"
  from c_read have inv: "queue_inv ?q" and ne: "queue_list ?q \<noteq> []" and r: "r = q_read ?q"
    by (auto simp: spsc_inv_def cons_inv_def)
  from queue_dequeue_done_list [OF inv ne]
  have "hd (queue_list ?q) = q_entry ?q ! unat (q_read ?q)" by (metis list.sel(1))
  with c_read r ne show ?case
    by (auto simp: spsc_inv_def cons_inv_def queue_dequeue_next_def split: if_splits)
next
  case (c_publish s v r)
  let ?q = "shared s"
  from c_publish have inv: "queue_inv ?q" and ne: "queue_list ?q \<noteq> []"
    and r: "r = queue_incr ?q (q_read ?q)" and v: "v = hd (queue_list ?q)"
    and p: "prod_inv ?q (prod s)" and acc: "accepted s = delivered s @ queue_list ?q"
    by (auto simp: spsc_inv_def cons_inv_def)
  have "queue_list ?q = v # queue_list (queue_dequeue_done ?q r)"
    using queue_dequeue_done_list [OF inv ne] v r by (metis list.sel(1))
  with inv r acc show ?case
    by (simp add: spsc_inv_def queue_inv_dequeue_done prod_inv_dequeue_done [OF inv ne p]
        cons_inv_def)
qed

lemma spsc_reachable_inv: "spsc_reachable q0 s \<Longrightarrow> queue_inv q0 \<Longrightarrow> spsc_inv s"
proof (induction rule: spsc_reachable.induct)
  case spsc_start
  then show ?case by (simp add: spsc_inv_def prod_inv_def cons_inv_def)
next
  case (spsc_next s t)
  then show ?case by (blast intro: spsc_inv_step)
qed

lemma queue_flush_all:
  "queue_inv q \<Longrightarrow> length (queue_list q) \<le> fuel \<Longrightarrow>
   \<exists>q'. queue_flush fuel q = Some (queue_list q, q') \<and> queue_inv q' \<and> queue_list q' = []"
proof (induction fuel arbitrary: q)
  case 0
  then show ?case by (simp add: queue_empty_iff)
next
  case (Suc fuel)
  show ?case
  proof (cases "queue_list q")
    case Nil
    with Suc.prems show ?thesis by (simp add: queue_empty_iff)
  next
    case (Cons x xs)
    with ring.dequeue_spec Suc.prems(1) obtain q1
      where q1: "queue_dequeue q = Some (x, q1)" "queue_inv q1" "queue_list q1 = xs" by blast
    with Suc.IH [of q1] Suc.prems Cons show ?thesis by (auto simp: queue_empty_iff)
  qed
qed

subsection \<open>Properties\<close>

text \<open>An initialised ring of \<open>n\<close> entries, for the witnesses.\<close>

lemma queue_inv_init:
  assumes "0 < unat (em + extra)" and "unat (em + extra) < 2 ^ 31"
    and "length mem = unat (em + extra)"
  shows "queue_inv (queue_init em mem extra)" and "queue_list (queue_init em mem extra) = []"
  using assms by (simp_all add: queue_inv_def queue_init_def queue_list_def ring_dist_def ring_slice_def)

definition ring4 :: queue where
  "ring4 = queue_init 4 [0, 0, 0, 0] 0"

lemma ring4_inv: "queue_inv ring4"
  by (simp add: ring4_def queue_inv_init)

lemma ring4_list: "queue_list ring4 = []"
  by (simp add: ring4_def queue_inv_init)

text \<open>A run of enqueues, stopping at the first that is not accepted.\<close>

fun enqueue_seq :: "queue \<Rightarrow> u64 list \<Rightarrow> queue option" where
  "enqueue_seq q [] = Some q"
| "enqueue_seq q (x # xs) =
     (case queue_enqueue q x of
        Some (rc, q') \<Rightarrow> if rc = 0 then enqueue_seq q' xs else None
      | None \<Rightarrow> None)"

text \<open>
  C11: With one writer and one reader and no lock, whatever the interleaving of their loads and
  stores and however stale the index each side loaded, the entries delivered so far followed by
  the pending ones are exactly the entries accepted so far, in order (none lost, duplicated or
  reordered), and neither side ever accesses \<open>entry[]\<close> outside its bounds.
\<close>

theorem spsc_no_loss_no_reorder:
  assumes "queue_inv q0" and "spsc_reachable q0 s"
  shows "accepted s = delivered s @ queue_list (shared s) \<and>
    (\<forall>x w. prod s = PStore x w \<longrightarrow> queue_enqueue_next (shared s) w x \<noteq> None) \<and>
    (\<forall>r. cons s = CRead r \<longrightarrow> queue_dequeue_next (shared s) r \<noteq> None)"
proof -
  from assms(2,1) have "spsc_inv s" by (rule spsc_reachable_inv)
  then show ?thesis
    by (auto simp: spsc_inv_def prod_inv_def cons_inv_def queue_inv_def
        queue_enqueue_next_def queue_dequeue_next_def)
qed

theorem spsc_no_loss_no_reorder_witness:
  "\<exists>s. spsc_reachable ring4 s \<and> prod s = PLoaded 7 0 \<and>
     accepted s = delivered s @ queue_list (shared s)"
proof -
  let ?s0 = "\<lparr>shared = ring4, prod = PIdle, cons = CIdle,
     accepted = queue_list ring4, delivered = []\<rparr>"
  let ?s1 = "?s0\<lparr>prod := PLoaded 7 (q_read (shared ?s0))\<rparr>"
  have r: "spsc_reachable ring4 ?s1"
    by (rule spsc_next [OF spsc_start]) (rule p_load, simp)
  have "prod ?s1 = PLoaded 7 0" by (simp add: ring4_def queue_init_def)
  with r spsc_no_loss_no_reorder [OF ring4_inv r] show ?thesis by blast
qed

text \<open>
  C27: The ring refines a bounded list: an enqueue appends and reports 0 while fewer than
  \<open>size - 1\<close> entries are pending and otherwise reports -1 and changes nothing; a dequeue returns
  the oldest entry and removes it, or reports -1 on an empty queue. The invariant and the
  capacity are kept, and no access is out of bounds.
\<close>

theorem queue_refines_bounded_list:
  assumes "queue_inv q"
  shows "(\<exists>rc q'. queue_enqueue q x = Some (rc, q') \<and> queue_inv q' \<and>
      queue_capacity q' = queue_capacity q \<and>
      (if length (queue_list q) < queue_capacity q
       then rc = 0 \<and> queue_list q' = queue_list q @ [x] else rc = -1 \<and> q' = q)) \<and>
    (\<exists>v q'. queue_dequeue q = Some (v, q') \<and> queue_inv q' \<and>
      queue_capacity q' = queue_capacity q \<and>
      (case queue_list q of [] \<Rightarrow> v = -1 \<and> q' = q | y # ys \<Rightarrow> v = y \<and> queue_list q' = ys))"
  using queue_enqueue_refines [OF assms] queue_dequeue_refines [OF assms] by blast

theorem queue_refines_bounded_list_witness:
  "\<exists>rc q'. queue_enqueue ring4 5 = Some (rc, q') \<and> rc = 0 \<and> queue_list q' = [5]"
proof -
  have "queue_capacity ring4 = 3"
    by (simp add: queue_capacity_def ring4_def queue_init_def)
  then show ?thesis
    using queue_refines_bounded_list [OF ring4_inv, of 5] by (auto simp: ring4_list)
qed

text \<open>
  Flushing a queue terminates after as many iterations as there are pending entries,
  passes every pending entry to \<open>entry_free\<close> exactly once and in order, and leaves the queue
  empty.
\<close>

theorem queue_flush_frees_all:
  assumes "queue_inv q"
  shows "\<exists>q'. queue_flush (unat (queue_pending q)) q = Some (queue_list q, q') \<and>
    queue_inv q' \<and> queue_list q' = []"
  using queue_flush_all [OF assms, of "unat (queue_pending q)"] queue_pending_unat [OF assms]
  by simp

theorem queue_flush_frees_all_witness:
  "\<exists>q'. queue_flush (unat (queue_pending ring4)) ring4 = Some ([], q') \<and> queue_list q' = []"
  using queue_flush_frees_all [OF ring4_inv] by (auto simp: ring4_list)

text \<open>
  \<open>queue_set_size\<close> tests the current size of the queue instead of the requested one: on a
  well-formed queue it accepts every value, 0 and values above \<open>max_size\<close> included. A ring of
  four entries given size 5 then accepts a fourth entry, which makes the write index meet the
  read index, and the four pending entries are lost: the queue reads as empty.
\<close>

theorem queue_set_size_unchecked:
  "(\<forall>q n. queue_inv q \<longrightarrow> queue_set_size q n = (0, q\<lparr>q_size := n\<rparr>)) \<and>
   (\<exists>q. enqueue_seq (snd (queue_set_size ring4 5)) [1, 2, 3, 4] = Some q \<and> queue_empty q)"
proof
  show "\<forall>q n. queue_inv q \<longrightarrow> queue_set_size q n = (0, q\<lparr>q_size := n\<rparr>)"
    by (auto simp: queue_inv_def queue_set_size_def word_less_nat_alt)
  have "map_option queue_empty (enqueue_seq (snd (queue_set_size ring4 5)) [1, 2, 3, 4])
      = Some True" by code_simp
  then show "\<exists>q. enqueue_seq (snd (queue_set_size ring4 5)) [1, 2, 3, 4] = Some q \<and> queue_empty q"
    by auto
qed

theorem queue_set_size_unchecked_witness:
  "queue_inv ring4 \<and> queue_set_size ring4 0 = (0, ring4\<lparr>q_size := 0\<rparr>)"
  using queue_set_size_unchecked ring4_inv by blast

end
