(* ===== verification/Linked_List.thy ===== *)
theory Linked_List
  imports Prelude
begin

section \<open>The intrusive doubly linked list (\<open>src/common/list.h\<close>)\<close>

text \<open>
  Every list of the stack (timers of a system timer, attributes of an MRP application, ranges of
  a MAAP port, VLANs of an MVRP map) is a circular doubly linked list of \<open>struct list_head\<close>
  nodes embedded in the objects. Here the nodes live in a store (address to \<open>prev\<close>/\<open>next\<close>) and
  the operations are the pointer updates of the source, in the source's order. The abstraction
  relation \<open>list_rep\<close> says which HOL list of addresses a head represents; the operations are
  then the list operations. The other theories use HOL lists for these structures on the
  strength of the interpretation at the end.
\<close>

type_synonym addr = nat

abbreviation NULL :: addr where "NULL \<equiv> 0"

record list_head =
  prev :: addr
  "next" :: addr

type_synonym lstore = "addr \<Rightarrow> list_head"

definition set_next :: "lstore \<Rightarrow> addr \<Rightarrow> addr \<Rightarrow> lstore" where
  "set_next st a b = st(a := (st a)\<lparr>next := b\<rparr>)"

definition set_prev :: "lstore \<Rightarrow> addr \<Rightarrow> addr \<Rightarrow> lstore" where
  "set_prev st a b = st(a := (st a)\<lparr>prev := b\<rparr>)"

definition list_head_init :: "lstore \<Rightarrow> addr \<Rightarrow> lstore" where
  "list_head_init st head = set_next (set_prev st head head) head head"

definition list_add :: "lstore \<Rightarrow> addr \<Rightarrow> addr \<Rightarrow> lstore" where
  "list_add st head entry =
     (let st1 = set_next st entry (next (st head));
          st2 = set_prev st1 (next (st1 entry)) entry;
          st3 = set_next st2 head entry
      in set_prev st3 entry head)"

definition list_add_tail :: "lstore \<Rightarrow> addr \<Rightarrow> addr \<Rightarrow> lstore" where
  "list_add_tail st head entry =
     (let st1 = set_prev st entry (prev (st head));
          st2 = set_next st1 (prev (st1 entry)) entry;
          st3 = set_prev st2 head entry
      in set_next st3 entry head)"

definition list_del :: "lstore \<Rightarrow> addr \<Rightarrow> lstore" where
  "list_del st entry =
     (let st1 = set_next st (prev (st entry)) (next (st entry));
          st2 = set_prev st1 (next (st1 entry)) (prev (st1 entry));
          st3 = set_prev st2 entry NULL
      in set_next st3 entry NULL)"

definition list_empty :: "lstore \<Rightarrow> addr \<Rightarrow> bool" where
  "list_empty st head \<longleftrightarrow> next (st head) = head"

definition list_first :: "lstore \<Rightarrow> addr \<Rightarrow> addr" where
  "list_first st head = next (st head)"

definition list_last :: "lstore \<Rightarrow> addr \<Rightarrow> addr" where
  "list_last st head = prev (st head)"

definition list_next :: "lstore \<Rightarrow> addr \<Rightarrow> addr" where
  "list_next st entry = next (st entry)"

subsection \<open>Representation\<close>

fun linked :: "lstore \<Rightarrow> addr list \<Rightarrow> bool" where
  "linked st (a # b # as) \<longleftrightarrow> next (st a) = b \<and> prev (st b) = a \<and> linked st (b # as)"
| "linked st _ \<longleftrightarrow> True"

definition list_rep :: "lstore \<Rightarrow> addr \<Rightarrow> addr list \<Rightarrow> bool" where
  "list_rep st head xs \<longleftrightarrow> distinct (head # xs) \<and> NULL \<notin> set (head # xs) \<and>
     linked st (head # xs @ [head])"

lemma linked_append:
  "linked st (as @ x # bs) \<longleftrightarrow> linked st (as @ [x]) \<and> linked st (x # bs)"
  by (induction as rule: induct_list012) auto

lemma linked_cong:
  assumes "\<And>a. a \<in> set (butlast xs) \<Longrightarrow> next (st' a) = next (st a)"
    and "\<And>a. a \<in> set (tl xs) \<Longrightarrow> prev (st' a) = prev (st a)"
  shows "linked st' xs = linked st xs"
  using assms by (induction st xs rule: linked.induct) auto

lemmas list_upd_defs = set_next_def set_prev_def Let_def

lemma list_head_init_rep: "head \<noteq> NULL \<Longrightarrow> list_rep (list_head_init st head) head []"
  by (simp add: list_rep_def list_head_init_def list_upd_defs)

lemma list_add_rep:
  assumes rep: "list_rep st head xs" and new: "entry \<notin> set (head # xs)" "entry \<noteq> NULL"
  shows "list_rep (list_add st head entry) head (entry # xs)"
proof (cases xs)
  case Nil
  with assms show ?thesis by (auto simp: list_rep_def list_add_def list_upd_defs)
next
  case (Cons y ys)
  have "linked (list_add st head entry) (y # ys @ [head]) = linked st (y # ys @ [head])"
    by (rule linked_cong)
      (use assms Cons in \<open>auto simp: list_rep_def list_add_def list_upd_defs butlast_append\<close>)
  with assms Cons show ?thesis by (auto simp: list_rep_def list_add_def list_upd_defs)
qed

lemma list_add_tail_rep:
  assumes rep: "list_rep st head xs" and new: "entry \<notin> set (head # xs)" "entry \<noteq> NULL"
  shows "list_rep (list_add_tail st head entry) head (xs @ [entry])"
proof (cases xs rule: rev_cases)
  case Nil
  with assms show ?thesis by (auto simp: list_rep_def list_add_tail_def list_upd_defs)
next
  case (snoc ys y)
  have lnk: "linked st ((head # ys) @ [y])" "linked st (y # [head])"
    using rep snoc linked_append [of st "head # ys" y "[head]"] by (auto simp: list_rep_def)
  have "linked (list_add_tail st head entry) ((head # ys) @ [y]) = linked st ((head # ys) @ [y])"
    by (rule linked_cong)
      (use assms snoc lnk(2) in \<open>auto simp: list_rep_def list_add_tail_def list_upd_defs\<close>)
  moreover have "linked (list_add_tail st head entry) [y, entry, head]"
    using assms snoc lnk(2) by (auto simp: list_rep_def list_add_tail_def list_upd_defs)
  ultimately show ?thesis
    using lnk assms snoc
      linked_append [of "list_add_tail st head entry" "head # ys" y "[entry, head]"]
    by (auto simp: list_rep_def)
qed

lemma list_del_eq:
  assumes "prev (st entry) = p" and "next (st entry) = n" and "p \<noteq> entry" and "n \<noteq> entry"
  shows "next (list_del st entry a) = (if a = entry then NULL else if a = p then n else next (st a))"
    and "prev (list_del st entry a) = (if a = entry then NULL else if a = n then p else prev (st a))"
  using assms by (auto simp: list_del_def list_upd_defs)

lemma list_del_rep:
  assumes rep: "list_rep st head (xs @ entry # ys)"
  shows "list_rep (list_del st entry) head (xs @ ys)"
proof -
  obtain p ps where p: "head # xs = ps @ [p]" by (metis append_butlast_last_id list.distinct(1))
  obtain n ns where n: "ys @ [head] = n # ns" by (cases ys) auto
  have dist: "distinct (head # xs @ entry # ys)" and nn: "NULL \<notin> set (head # xs @ entry # ys)"
    using rep by (simp_all add: list_rep_def)
  have all: "head # xs @ entry # ys @ [head] = ps @ p # entry # n # ns"
    using p n by (metis append.assoc append_Cons append_Nil)
  have lnk: "linked st (ps @ [p])" "next (st p) = entry" "prev (st entry) = p"
    "next (st entry) = n" "prev (st n) = entry" "linked st (n # ns)"
    using rep all linked_append [of st ps p "entry # n # ns"] by (auto simp: list_rep_def)
  have pin: "p \<in> set (head # xs)" using p by (metis in_set_conv_decomp)
  have nin: "n \<in> set (ys @ [head])" using n by (metis list.set_intros(1))
  have bl: "butlast (n # ns) = ys" "butlast (ps @ [p]) = ps" using n by (metis butlast_snoc)+
  have pps: "p \<notin> set ps" using dist p by (metis distinct.simps(2) distinct_append not_distinct_conv_prefix append_Cons)
  have "distinct (n # ns)" using dist by (simp add: n [symmetric])
  then have nns: "n \<notin> set ns" by simp
  have tps: "tl (ps @ [p]) = xs" using p by (metis list.sel(3))
  have e: "p \<noteq> entry" "n \<noteq> entry" using pin nin dist by auto
  let ?st = "list_del st entry"
  note del = list_del_eq [of st entry p n, OF lnk(3,4) e]
  have "set ps \<subseteq> set (head # xs)" using p by (metis set_append Un_upper1)
  then have eps: "entry \<notin> set ps" using dist by auto
  have "n \<notin> set xs" "entry \<notin> set xs" using nin dist by auto
  then have "linked ?st (ps @ [p]) = linked st (ps @ [p])"
    using pps eps by (intro linked_cong) (auto simp: del bl tps)
  then have l1: "linked ?st (ps @ [p])" using lnk(1) by simp
  have "set ns \<subseteq> set (ys @ [head])" using n by (metis set_subset_Cons)
  then have ens: "entry \<notin> set ns" using dist by auto
  have "p \<notin> set ys" "entry \<notin> set ys" using pin dist by auto
  then have "linked ?st (n # ns) = linked st (n # ns)"
    using nns ens by (intro linked_cong) (auto simp: del bl(1) simp del: butlast.simps)
  then have l2: "linked ?st (n # ns)" using lnk(6) by simp
  have "linked ?st (ps @ p # n # ns)"
    using l1 l2 e linked_append [of ?st ps p "n # ns"] by (simp add: del)
  moreover have "ps @ p # n # ns = head # (xs @ ys) @ [head]"
    using p n by (metis append.assoc append_Cons append_Nil)
  ultimately show ?thesis using dist nn by (simp add: list_rep_def)
qed

text \<open>
  The loop \<open>for (entry = list_first(head); entry != head; entry = list_next(entry))\<close>: the
  entries it visits. \<open>None\<close> is a loop that has not come back to the head when the fuel ends.
\<close>

fun list_walk :: "nat \<Rightarrow> lstore \<Rightarrow> addr \<Rightarrow> addr \<Rightarrow> addr list option" where
  "list_walk 0 st head entry = (if entry = head then Some [] else None)"
| "list_walk (Suc fuel) st head entry =
     (if entry = head then Some []
      else map_option ((#) entry) (list_walk fuel st head (list_next st entry)))"

lemma list_walk_linked:
  "linked st (entry # ys @ [head]) \<Longrightarrow> head \<notin> set (entry # ys) \<Longrightarrow> length ys < fuel \<Longrightarrow>
   list_walk fuel st head entry = Some (entry # ys)"
proof (induction fuel arbitrary: entry ys)
  case 0
  then show ?case by simp
next
  case (Suc fuel)
  show ?case
  proof (cases ys)
    case Nil
    with Suc.prems show ?thesis by (cases fuel) (auto simp: list_next_def)
  next
    case (Cons z zs)
    with Suc.prems have "next (st entry) = z" "list_walk fuel st head z = Some (z # zs)"
      by (auto intro!: Suc.IH)
    with Suc.prems Cons show ?thesis by (auto simp: list_next_def)
  qed
qed

lemma list_walk_rep:
  assumes "list_rep st head xs" and "length xs \<le> fuel"
  shows "list_walk fuel st head (list_first st head) = Some xs"
proof (cases xs)
  case Nil
  with assms show ?thesis by (cases fuel) (auto simp: list_rep_def list_first_def)
next
  case (Cons y ys)
  with assms have "list_first st head = y" "linked st (y # ys @ [head])" "head \<notin> set (y # ys)"
    by (auto simp: list_rep_def list_first_def)
  with assms Cons show ?thesis by (auto intro!: list_walk_linked)
qed

lemma list_empty_rep: "list_rep st head xs \<Longrightarrow> list_empty st head \<longleftrightarrow> xs = []"
  by (cases xs) (auto simp: list_rep_def list_empty_def)

lemma list_last_rep: "list_rep st head xs \<Longrightarrow> list_last st head = last (head # xs)"
proof (cases xs rule: rev_cases)
  case Nil
  then show "list_rep st head xs \<Longrightarrow> ?thesis" by (auto simp: list_rep_def list_last_def)
next
  case (snoc ys y)
  assume "list_rep st head xs"
  then have "linked st ((head # ys) @ y # [head])" using snoc by (simp add: list_rep_def)
  then show ?thesis using snoc linked_append [of st "head # ys" y "[head]"]
    by (simp add: list_last_def)
qed

subsection \<open>The interface the rest of the stack relies on\<close>

text \<open>
  What a user of the list header needs: which abstract sequence a head stands for, and what
  each operation does to it. The only derived operation of the stack, removing an entry and
  putting it at the tail (\<open>mrp_applicant_sm\<close> reorders \<open>attributes_ordered\<close> that way), is
  proved once from the laws.
\<close>

locale intrusive_list =
  fixes rep :: "'s \<Rightarrow> 'a \<Rightarrow> 'a list \<Rightarrow> bool"
    and add_front add_back :: "'s \<Rightarrow> 'a \<Rightarrow> 'a \<Rightarrow> 's"
    and del :: "'s \<Rightarrow> 'a \<Rightarrow> 's"
    and valid :: "'a \<Rightarrow> bool"
  assumes rep_distinct: "rep s h xs \<Longrightarrow> distinct (h # xs) \<and> (\<forall>x \<in> set xs. valid x)"
    and add_front_rep: "rep s h xs \<Longrightarrow> e \<notin> set (h # xs) \<Longrightarrow> valid e \<Longrightarrow>
      rep (add_front s h e) h (e # xs)"
    and add_back_rep: "rep s h xs \<Longrightarrow> e \<notin> set (h # xs) \<Longrightarrow> valid e \<Longrightarrow>
      rep (add_back s h e) h (xs @ [e])"
    and del_rep: "rep s h (xs @ e # ys) \<Longrightarrow> rep (del s e) h (xs @ ys)"
begin

lemma del_remove1:
  assumes "rep s h xs" and "e \<in> set xs"
  shows "rep (del s e) h (remove1 e xs)"
proof -
  from assms(2) obtain ys zs where "xs = ys @ e # zs" "e \<notin> set ys"
    by (meson split_list_first)
  with assms(1) del_rep show ?thesis by (simp add: remove1_append)
qed

lemma move_to_tail:
  assumes "rep s h xs" and "e \<in> set xs"
  shows "rep (add_back (del s e) h e) h (remove1 e xs @ [e])"
proof -
  from rep_distinct [OF assms(1)] assms(2) have "e \<notin> set (h # remove1 e xs)" "valid e"
    by (auto simp: set_remove1_eq)
  with del_remove1 [OF assms] add_back_rep show ?thesis by blast
qed

end

interpretation dll: intrusive_list list_rep list_add list_add_tail list_del "\<lambda>a. a \<noteq> NULL"
proof unfold_locales
  fix st h xs assume "list_rep st h xs"
  then show "distinct (h # xs) \<and> (\<forall>x \<in> set xs. x \<noteq> NULL)"
    by (auto simp: list_rep_def intro: gr0I)
qed (simp_all add: list_add_rep list_add_tail_rep list_del_rep)

subsection \<open>Properties\<close>

text \<open>
  C28: The pointer updates of \<open>list_add\<close>, \<open>list_add_tail\<close> and \<open>list_del\<close> implement insertion
  at the front, at the back and removal on the sequence a head represents, \<open>list_empty\<close> tests
  for the empty sequence, and the traversal loop terminates having visited exactly that sequence
  in order.
\<close>

theorem list_ops_refine_sequence:
  assumes "list_rep st head xs" and "entry \<notin> set (head # xs)" and "entry \<noteq> NULL"
  shows "list_rep (list_add st head entry) head (entry # xs) \<and>
    list_rep (list_add_tail st head entry) head (xs @ [entry]) \<and>
    (list_empty st head \<longleftrightarrow> xs = []) \<and>
    list_walk (length xs) st head (list_first st head) = Some xs \<and>
    (\<forall>x \<in> set xs. list_rep (list_del st x) head (remove1 x xs) \<and>
       list_rep (list_add_tail (list_del st x) head x) head (remove1 x xs @ [x]))"
  using assms
  by (auto simp: list_empty_rep list_walk_rep intro: list_add_rep list_add_tail_rep
      dll.del_remove1 dll.move_to_tail)

theorem list_ops_refine_sequence_witness:
  "list_walk 1 (list_add (list_head_init (\<lambda>_. \<lparr>prev = 0, next = 0\<rparr>) 1) 1 2) 1 2 = Some [2]
   \<and> list_rep (list_add (list_head_init (\<lambda>_. \<lparr>prev = 0, next = 0\<rparr>) 1) 1 2) 1 [2]"
proof -
  have "list_rep (list_head_init (\<lambda>_. \<lparr>prev = 0, next = 0\<rparr>) 1) 1 []"
    by (rule list_head_init_rep) simp
  from list_ops_refine_sequence [OF this, of 2] show ?thesis
    by (simp add: list_head_init_def list_add_def list_upd_defs list_next_def)
qed

end
