(* ===== verification/Timer.thy ===== *)
theory Timer
  imports Linked_List "HOL-Library.Sublist"
begin

section \<open>The software timer service (\<open>src/common/timer.c\<close>)\<close>

text \<open>
  Soft timers (\<open>struct timer\<close>) are multiplexed on a table of system timers (\<open>struct timer_sys\<close>):
  a dedicated one (\<open>TIMER_TYPE_SYS\<close>) or one shared by all the soft timers of the same
  granularity. The record \<open>timer_ctx\<close> holds the table and, as a store indexed by the timer's
  address, the \<open>struct timer\<close> objects of its users; a \<open>list_head\<close> chain is the HOL list of the
  addresses on it (theory \<open>Linked_List\<close>). The calls of the OS timer service are parameters
  (\<open>os_ok\<close>: the call returned 0); what a running OS timer was programmed with is kept in
  \<open>ts_os\<close>. The last section gives the view of one timer that the protocol components use and
  shows that the service implements it.
\<close>

subsection \<open>State\<close>

abbreviation TIMER_TYPE_SYS :: nat where "TIMER_TYPE_SYS \<equiv> 0"
abbreviation TIMER_STATE_CREATED :: nat where "TIMER_STATE_CREATED \<equiv> 1"
abbreviation TIMER_STATE_STARTED :: nat where "TIMER_STATE_STARTED \<equiv> 2"

record timer_sys =
  ts_list :: "addr list"
  ts_next :: "addr option"
  ts_ms :: u32
  ts_flags :: u32
  ts_users :: u32
  ts_os :: "(u64 \<times> u64) option"

record timer =
  t_ms :: u32
  t_flags :: u32
  t_sys :: "nat option"

record timer_ctx =
  max_sys_timers :: u16
  num_soft_timers :: u16
  num_sys_timers :: u16
  sys_table :: "timer_sys list"
  timers :: "addr \<Rightarrow> timer"

definition upd_sys :: "timer_ctx \<Rightarrow> nat \<Rightarrow> (timer_sys \<Rightarrow> timer_sys) \<Rightarrow> timer_ctx" where
  "upd_sys c i f = c\<lparr>sys_table := (sys_table c)[i := f (sys_table c ! i)]\<rparr>"

definition upd_timer :: "timer_ctx \<Rightarrow> addr \<Rightarrow> (timer \<Rightarrow> timer) \<Rightarrow> timer_ctx" where
  "upd_timer c t f = c\<lparr>timers := (timers c)(t := f (timers c t))\<rparr>"

text \<open>\<open>list_next\<close> of an entry of a chain: \<open>None\<close> is the head.\<close>

fun succ_in :: "addr list \<Rightarrow> addr \<Rightarrow> addr option" where
  "succ_in (x # xs) a = (if x = a then (case xs of [] \<Rightarrow> None | y # _ \<Rightarrow> Some y) else succ_in xs a)"
| "succ_in [] a = None"

definition first_in :: "addr list \<Rightarrow> addr option" where
  "first_in xs = (case xs of [] \<Rightarrow> None | x # _ \<Rightarrow> Some x)"

subsection \<open>System timers\<close>

definition timer_match_timeout :: "u32 \<Rightarrow> u32 \<Rightarrow> bool" where
  "timer_match_timeout sys_ms ms \<longleftrightarrow> sys_ms = ms"

definition timer_sys_find :: "timer_ctx \<Rightarrow> u32 \<Rightarrow> nat option" where
  "timer_sys_find c ms =
     find (\<lambda>i. let ts = sys_table c ! i in
            bit_test (ts_flags ts) TIMER_STATE_CREATED \<and>
            \<not> bit_test (ts_flags ts) TIMER_TYPE_SYS \<and> timer_match_timeout (ts_ms ts) ms)
       [0..<unat (max_sys_timers c)]"

definition timer_sys_free :: "timer_ctx \<Rightarrow> nat option" where
  "timer_sys_free c =
     find (\<lambda>i. \<not> bit_test (ts_flags (sys_table c ! i)) TIMER_STATE_CREATED)
       [0..<unat (max_sys_timers c)]"

definition timer_sys_create :: "bool \<Rightarrow> timer_ctx \<Rightarrow> u32 \<Rightarrow> u32 \<Rightarrow> timer_ctx \<times> nat option" where
  "timer_sys_create os_ok c flags ms0 =
     (let ms = (if \<not> bit_test flags TIMER_TYPE_SYS \<and> ms0 > 100 then 100 else ms0);
          found = (if \<not> bit_test flags TIMER_TYPE_SYS then timer_sys_find c ms else None)
      in case found of
           Some i \<Rightarrow> (upd_sys c i (\<lambda>ts. ts\<lparr>ts_users := ts_users ts + 1\<rparr>), Some i)
         | None \<Rightarrow>
             if num_sys_timers c = max_sys_timers c then (c, None)
             else case timer_sys_free c of
                 None \<Rightarrow> (c, None)
               | Some i \<Rightarrow>
                   if \<not> os_ok then (c, None)
                   else ((upd_sys c i (\<lambda>ts. ts\<lparr>
                            ts_flags := push_bit TIMER_STATE_CREATED 1 OR
                              (flags AND push_bit TIMER_TYPE_SYS 1),
                            ts_ms := ms, ts_users := ts_users ts + 1\<rparr>))
                          \<lparr>num_sys_timers := num_sys_timers c + 1\<rparr>, Some i))"

definition timer_sys_destroy :: "timer_ctx \<Rightarrow> nat \<Rightarrow> timer_ctx" where
  "timer_sys_destroy c i =
     (let c1 = upd_sys c i (\<lambda>ts. ts\<lparr>ts_users := ts_users ts - 1\<rparr>)
      in if ts_users (sys_table c1 ! i) = 0
         then (upd_sys c1 i (\<lambda>ts. ts\<lparr>ts_os := None,
                 ts_flags := bit_clear (ts_flags ts) TIMER_STATE_CREATED\<rparr>))
               \<lparr>num_sys_timers := num_sys_timers c1 - 1\<rparr>
         else c1)"

definition NSECS_PER_MS :: u64 where "NSECS_PER_MS = 1000000"

definition timer_sys_start :: "bool \<Rightarrow> timer_ctx \<Rightarrow> nat \<Rightarrow> int \<times> timer_ctx" where
  "timer_sys_start os_ok c i =
     (let ts = sys_table c ! i; ns = (ucast (ts_ms ts) :: u64) * NSECS_PER_MS
      in if \<not> bit_test (ts_flags ts) TIMER_STATE_STARTED
         then if \<not> os_ok then (-1, c)
              else (0, upd_sys c i (\<lambda>ts. ts\<lparr>
                     ts_os := Some (if bit_test (ts_flags ts) TIMER_TYPE_SYS then (ns, 0) else (0, ns)),
                     ts_flags := bit_set (ts_flags ts) TIMER_STATE_STARTED\<rparr>))
         else (0, c))"

definition timer_sys_stop :: "timer_ctx \<Rightarrow> nat \<Rightarrow> timer_ctx" where
  "timer_sys_stop c i =
     (if bit_test (ts_flags (sys_table c ! i)) TIMER_STATE_STARTED \<and> ts_list (sys_table c ! i) = []
      then upd_sys c i (\<lambda>ts. ts\<lparr>ts_os := None,
             ts_flags := bit_clear (ts_flags ts) TIMER_STATE_STARTED\<rparr>)
      else c)"

subsection \<open>Soft timers\<close>

definition timer_init :: "bool \<Rightarrow> timer_ctx \<Rightarrow> addr \<Rightarrow> u32 \<Rightarrow> u32 \<Rightarrow> int \<times> timer_ctx" where
  "timer_init os_ok c t flags ms =
     (case timer_sys_create os_ok c flags ms of
        (c1, None) \<Rightarrow> (-1, c1)
      | (c1, Some i) \<Rightarrow>
          (0, (upd_timer c1 t (\<lambda>tm. tm\<lparr>t_sys := Some i,
                 t_flags := push_bit TIMER_STATE_CREATED 1\<rparr>))
               \<lparr>num_soft_timers := num_soft_timers c1 + 1\<rparr>))"

definition timer_start :: "bool \<Rightarrow> timer_ctx \<Rightarrow> addr \<Rightarrow> u32 \<Rightarrow> int \<times> timer_ctx" where
  "timer_start os_ok c t ms =
     (case t_sys (timers c t) of
        None \<Rightarrow> (-1, c)
      | Some i \<Rightarrow>
          if bit_test (t_flags (timers c t)) TIMER_STATE_STARTED then (-1, c)
          else if ms = 0 then (-1, c)
          else
            let is_sys = bit_test (ts_flags (sys_table c ! i)) TIMER_TYPE_SYS;
                c1 = (if is_sys then upd_sys c i (\<lambda>ts. ts\<lparr>ts_ms := ms\<rparr>) else c);
                c2 = upd_timer c1 t (\<lambda>tm. tm\<lparr>
                       t_ms := (if is_sys then ms else ms + ts_ms (sys_table c ! i)),
                       t_flags := bit_set (t_flags tm) TIMER_STATE_STARTED\<rparr>);
                c3 = upd_sys c2 i (\<lambda>ts. ts\<lparr>ts_list := t # ts_list ts\<rparr>)
            in timer_sys_start os_ok c3 i)"

definition timer_stop :: "timer_ctx \<Rightarrow> addr \<Rightarrow> timer_ctx" where
  "timer_stop c t =
     (if \<not> bit_test (t_flags (timers c t)) TIMER_STATE_STARTED then c
      else case t_sys (timers c t) of
        None \<Rightarrow> c
      | Some i \<Rightarrow>
          let c1 = upd_sys c i (\<lambda>ts. ts\<lparr>
                     ts_next := (if ts_next ts = Some t then succ_in (ts_list ts) t else ts_next ts),
                     ts_list := remove1 t (ts_list ts)\<rparr>);
              c2 = upd_timer c1 t (\<lambda>tm. tm\<lparr>t_flags := bit_clear (t_flags tm) TIMER_STATE_STARTED\<rparr>)
          in timer_sys_stop c2 i)"

definition timer_is_running :: "timer_ctx \<Rightarrow> addr \<Rightarrow> int" where
  "timer_is_running c t =
     (if t_sys (timers c t) = None then -1
      else if bit_test (t_flags (timers c t)) TIMER_STATE_STARTED then 1 else 0)"

definition timer_restart :: "bool \<Rightarrow> timer_ctx \<Rightarrow> addr \<Rightarrow> u32 \<Rightarrow> int \<times> timer_ctx" where
  "timer_restart os_ok c t ms =
     (let rc = timer_is_running c t
      in if rc < 0 then (rc, c)
         else let c1 = (if rc \<noteq> 0 then timer_stop c t else c)
              in (rc, snd (timer_start os_ok c1 t ms)))"

definition timer_destroy :: "timer_ctx \<Rightarrow> addr \<Rightarrow> int \<times> timer_ctx" where
  "timer_destroy c t =
     (let sys = t_sys (timers c t); c1 = timer_stop c t
      in case sys of
           None \<Rightarrow> (-1, c1)
         | Some i \<Rightarrow>
             let c2 = upd_timer c1 t (\<lambda>tm. tm\<lparr>t_sys := None,
                        t_flags := bit_clear (t_flags tm) TIMER_STATE_CREATED\<rparr>);
                 c3 = timer_sys_destroy c2 i
             in (0, c3\<lparr>num_soft_timers := num_soft_timers c3 - 1\<rparr>))"

definition timer_pool_init :: "(addr \<Rightarrow> timer) \<Rightarrow> u16 \<Rightarrow> timer_ctx" where
  "timer_pool_init objs n =
     \<lparr>max_sys_timers = n, num_soft_timers = 0, num_sys_timers = 0,
      sys_table = replicate (unat n)
        \<lparr>ts_list = [], ts_next = None, ts_ms = 0, ts_flags = 0, ts_users = 0, ts_os = None\<rparr>,
      timers = objs\<rparr>"

text \<open>
  \<open>timer_process\<close>, called when the system timer \<open>i\<close> expired \<open>count\<close> times. \<open>cb t\<close> is the
  callback of timer \<open>t\<close> (\<open>t->func(t->data)\<close>), \<open>None\<close> when \<open>t->func\<close> is NULL; it may start and
  stop timers of the same list. The result also lists the timers that expired, in order.
\<close>

fun timer_process_loop :: "nat \<Rightarrow> (addr \<Rightarrow> (timer_ctx \<Rightarrow> timer_ctx) option) \<Rightarrow> nat \<Rightarrow> u32 \<Rightarrow>
    addr option \<Rightarrow> timer_ctx \<Rightarrow> (addr list \<times> timer_ctx) option" where
  "timer_process_loop fuel cb i count None c =
     Some ([], upd_sys c i (\<lambda>ts. ts\<lparr>ts_next := first_in (ts_list ts)\<rparr>))"
| "timer_process_loop 0 cb i count (Some t) c = None"
| "timer_process_loop (Suc fuel) cb i count (Some t) c =
     (let c1 = upd_sys c i (\<lambda>ts. ts\<lparr>ts_next := succ_in (ts_list ts) t\<rparr>);
          c2 = upd_timer c1 t (\<lambda>tm. tm\<lparr>t_ms := t_ms tm - ts_ms (sys_table c1 ! i) * count\<rparr>);
          expired = (sint (t_ms (timers c2 t)) \<le> 0);
          c3 = (if expired
                then (let c4 = timer_stop c2 t in case cb t of None \<Rightarrow> c4 | Some f \<Rightarrow> f c4)
                else c2)
      in map_option (\<lambda>(fired, c'). (if expired then t # fired else fired, c'))
           (timer_process_loop fuel cb i count (ts_next (sys_table c3 ! i)) c3))"

definition timer_process :: "nat \<Rightarrow> (addr \<Rightarrow> (timer_ctx \<Rightarrow> timer_ctx) option) \<Rightarrow> nat \<Rightarrow> u32 \<Rightarrow>
    timer_ctx \<Rightarrow> (addr list \<times> timer_ctx) option" where
  "timer_process fuel cb i count c =
     timer_process_loop fuel cb i count (first_in (ts_list (sys_table c ! i))) c"

subsection \<open>Invariant\<close>

named_theorems timer_simps \<open>reading the context after an update\<close>

lemma sys_table_upd_sys [timer_simps]:
  "sys_table (upd_sys c i f) ! j
    = (if i = j \<and> i < length (sys_table c) then f (sys_table c ! i) else sys_table c ! j)"
  by (cases "i = j") (auto simp: upd_sys_def list_update_beyond)

lemma upd_sys_other [timer_simps]:
  "length (sys_table (upd_sys c i f)) = length (sys_table c)"
  "timers (upd_sys c i f) = timers c"
  "max_sys_timers (upd_sys c i f) = max_sys_timers c"
  "num_soft_timers (upd_sys c i f) = num_soft_timers c"
  "num_sys_timers (upd_sys c i f) = num_sys_timers c"
  by (simp_all add: upd_sys_def)

lemma upd_timer_other [timer_simps]:
  "timers (upd_timer c t f) u = (if u = t then f (timers c t) else timers c u)"
  "sys_table (upd_timer c t f) = sys_table c"
  "max_sys_timers (upd_timer c t f) = max_sys_timers c"
  "num_soft_timers (upd_timer c t f) = num_soft_timers c"
  "num_sys_timers (upd_timer c t f) = num_sys_timers c"
  by (simp_all add: upd_timer_def)

definition started :: "timer_ctx \<Rightarrow> addr \<Rightarrow> bool" where
  "started c t \<longleftrightarrow> bit (t_flags (timers c t)) TIMER_STATE_STARTED"

definition sys_users :: "timer_ctx \<Rightarrow> nat \<Rightarrow> addr set" where
  "sys_users c i = {t. t_sys (timers c t) = Some i}"

definition sys_created :: "timer_ctx \<Rightarrow> nat \<Rightarrow> bool" where
  "sys_created c i \<longleftrightarrow> bit (ts_flags (sys_table c ! i)) TIMER_STATE_CREATED"

text \<open>
  The chain of a system timer holds exactly its started users, \<open>users\<close> counts the attached soft
  timers, a slot is created while it has users, a dedicated system timer has one user, and an OS
  timer only runs while some timer is on the chain.
\<close>

definition sys_ok :: "timer_ctx \<Rightarrow> nat \<Rightarrow> bool" where
  "sys_ok c i \<longleftrightarrow> (let ts = sys_table c ! i in
     distinct (ts_list ts) \<and>
     set (ts_list ts) = {t \<in> sys_users c i. started c t} \<and>
     unat (ts_users ts) = card (sys_users c i) \<and>
     (sys_created c i \<longleftrightarrow> sys_users c i \<noteq> {}) \<and>
     (bit (ts_flags ts) TIMER_TYPE_SYS \<longrightarrow> card (sys_users c i) \<le> 1) \<and>
     (bit (ts_flags ts) TIMER_STATE_STARTED \<longrightarrow> ts_list ts \<noteq> []))"

definition timer_inv :: "timer_ctx \<Rightarrow> bool" where
  "timer_inv c \<longleftrightarrow>
     length (sys_table c) = unat (max_sys_timers c) \<and>
     (\<forall>i. finite (sys_users c i)) \<and>
     (\<forall>t i. t_sys (timers c t) = Some i \<longrightarrow> i < length (sys_table c)) \<and>
     (\<forall>t. started c t \<longrightarrow> t_sys (timers c t) \<noteq> None) \<and>
     (\<forall>i < length (sys_table c). sys_ok c i) \<and>
     unat (num_sys_timers c) = card {i. i < length (sys_table c) \<and> sys_created c i}"

lemma timer_invD:
  assumes "timer_inv c"
  shows "length (sys_table c) = unat (max_sys_timers c)"
    and "finite (sys_users c i)"
    and "t_sys (timers c t) = Some i \<Longrightarrow> i < length (sys_table c)"
    and "started c t \<Longrightarrow> \<exists>i. t_sys (timers c t) = Some i"
    and "i < length (sys_table c) \<Longrightarrow> sys_ok c i"
    and "unat (num_sys_timers c) = card {i. i < length (sys_table c) \<and> sys_created c i}"
  using assms by (auto simp: timer_inv_def)

text \<open>
  An operation that keeps every attachment and changes one slot and one timer is judged on the
  chain of that slot.
\<close>

lemma timer_inv_one_slot:
  assumes inv: "timer_inv c" and i: "t_sys (timers c t) = Some i"
    and tab: "sys_table c' = (sys_table c)[i := ts]"
    and oth: "max_sys_timers c' = max_sys_timers c" "num_sys_timers c' = num_sys_timers c"
    and tm: "timers c' = (timers c)(t := tm)" "t_sys tm = Some i"
    and fl: "bit (ts_flags ts) TIMER_STATE_CREATED = bit (ts_flags (sys_table c ! i)) TIMER_STATE_CREATED"
      "bit (ts_flags ts) TIMER_TYPE_SYS = bit (ts_flags (sys_table c ! i)) TIMER_TYPE_SYS"
      "bit (ts_flags ts) TIMER_STATE_STARTED \<Longrightarrow> ts_list ts \<noteq> []"
    and us: "ts_users ts = ts_users (sys_table c ! i)"
    and lst: "distinct (ts_list ts)"
      "set (ts_list ts) = (if bit (t_flags tm) TIMER_STATE_STARTED
         then insert t (set (ts_list (sys_table c ! i)))
         else set (ts_list (sys_table c ! i)) - {t})"
  shows "timer_inv c'"
proof -
  have il: "i < length (sys_table c)" using timer_invD(3) [OF inv i] .
  have users: "sys_users c' = sys_users c"
    using tm i by (auto simp: sys_users_def fun_eq_iff)
  have st: "started c' u = (if u = t then bit (t_flags tm) TIMER_STATE_STARTED else started c u)"
    for u using tm by (simp add: started_def)
  have cre: "sys_created c' j = sys_created c j" for j
    using fl(1) il tab by (cases "j = i") (simp_all add: sys_created_def)
  have ok: "sys_ok c' j" if j: "j < length (sys_table c)" for j
  proof (cases "j = i")
    case True
    have "sys_ok c i" using timer_invD(5) [OF inv il] .
    moreover have "t \<in> sys_users c i" using i by (simp add: sys_users_def)
    ultimately have "set (ts_list ts) = {u \<in> sys_users c i. started c' u}"
      using lst(2) st by (auto simp: sys_ok_def Let_def)
    then show ?thesis
      using \<open>sys_ok c i\<close> True il tab lst(1) fl us cre
      by (simp add: sys_ok_def Let_def users)
  next
    case False
    have "sys_ok c j" using timer_invD(5) [OF inv j] .
    moreover have "t \<notin> sys_users c j" using False i by (simp add: sys_users_def)
    ultimately show ?thesis
      using False tab st cre by (auto simp: sys_ok_def Let_def users)
  qed
  have "t_sys (timers c' u) = t_sys (timers c u)" for u using tm i by simp
  moreover have "started c' u \<Longrightarrow> t_sys (timers c u) \<noteq> None" for u
    using st i timer_invD(4) [OF inv] by (auto split: if_splits)
  ultimately show ?thesis
    using inv oth ok cre tab users timer_invD(3) [OF inv] by (auto simp: timer_inv_def)
qed

lemma timer_start_effect:
  assumes "t_sys (timers c t) = Some i" and "\<not> started c t" and "ms \<noteq> 0"
    and i: "i < length (sys_table c)"
  shows "\<exists>ts tm. snd (timer_start os_ok c t ms)
      = c\<lparr>sys_table := (sys_table c)[i := ts], timers := (timers c)(t := tm)\<rparr> \<and>
    ts_list ts = t # ts_list (sys_table c ! i) \<and> ts_users ts = ts_users (sys_table c ! i) \<and>
    ts_next ts = ts_next (sys_table c ! i) \<and>
    bit (ts_flags ts) TIMER_TYPE_SYS = bit (ts_flags (sys_table c ! i)) TIMER_TYPE_SYS \<and>
    bit (ts_flags ts) TIMER_STATE_CREATED = bit (ts_flags (sys_table c ! i)) TIMER_STATE_CREATED \<and>
    ts_ms ts = (if bit (ts_flags (sys_table c ! i)) TIMER_TYPE_SYS then ms else ts_ms (sys_table c ! i)) \<and>
    t_sys tm = Some i \<and> bit (t_flags tm) TIMER_STATE_STARTED \<and>
    t_ms tm = (if bit (ts_flags (sys_table c ! i)) TIMER_TYPE_SYS then ms
               else ms + ts_ms (sys_table c ! i))"
  by (rule exI [where x = "sys_table (snd (timer_start os_ok c t ms)) ! i"],
      rule exI [where x = "timers (snd (timer_start os_ok c t ms)) t"])
    (use assms in \<open>auto simp: timer_start_def timer_sys_start_def started_def flag_simps Let_def
      upd_sys_def upd_timer_def\<close>)

lemma timer_stop_effect:
  assumes "t_sys (timers c t) = Some i" and "started c t"
    and i: "i < length (sys_table c)"
  shows "\<exists>ts. timer_stop c t
      = c\<lparr>sys_table := (sys_table c)[i := ts],
          timers := (timers c)(t := (timers c t)\<lparr>t_flags :=
            bit_clear (t_flags (timers c t)) TIMER_STATE_STARTED\<rparr>)\<rparr> \<and>
    ts_list ts = remove1 t (ts_list (sys_table c ! i)) \<and>
    ts_users ts = ts_users (sys_table c ! i) \<and> ts_ms ts = ts_ms (sys_table c ! i) \<and>
    ts_next ts = (if ts_next (sys_table c ! i) = Some t
      then succ_in (ts_list (sys_table c ! i)) t else ts_next (sys_table c ! i)) \<and>
    bit (ts_flags ts) TIMER_TYPE_SYS = bit (ts_flags (sys_table c ! i)) TIMER_TYPE_SYS \<and>
    bit (ts_flags ts) TIMER_STATE_CREATED = bit (ts_flags (sys_table c ! i)) TIMER_STATE_CREATED \<and>
    (bit (ts_flags ts) TIMER_STATE_STARTED \<longrightarrow> ts_list ts \<noteq> [])"
  by (rule exI [where x = "sys_table (timer_stop c t) ! i"])
    (use assms in \<open>auto simp: timer_stop_def timer_sys_stop_def started_def flag_simps Let_def
      upd_sys_def upd_timer_def\<close>)

lemma timer_stop_idle: "\<not> started c t \<Longrightarrow> timer_stop c t = c"
  by (simp add: timer_stop_def started_def flag_simps)

lemma timer_start_refused:
  "t_sys (timers c t) = None \<or> started c t \<or> ms = 0 \<Longrightarrow> snd (timer_start os_ok c t ms) = c"
  by (auto simp: timer_start_def started_def flag_simps split: option.splits)

lemma timer_inv_start:
  assumes inv: "timer_inv c"
  shows "timer_inv (snd (timer_start os_ok c t ms))"
proof (cases "t_sys (timers c t) = None \<or> started c t \<or> ms = 0")
  case True
  then show ?thesis using inv by (simp add: timer_start_refused)
next
  case False
  then obtain i where i: "t_sys (timers c t) = Some i" by auto
  have il: "i < length (sys_table c)" using timer_invD(3) [OF inv i] .
  have "sys_ok c i" using timer_invD(5) [OF inv il] .
  with False have d: "distinct (t # ts_list (sys_table c ! i))" by (auto simp: sys_ok_def Let_def)
  from timer_start_effect [OF i _ _ il, of ms os_ok] False obtain ts tm where
    "snd (timer_start os_ok c t ms)
      = c\<lparr>sys_table := (sys_table c)[i := ts], timers := (timers c)(t := tm)\<rparr>"
    "ts_list ts = t # ts_list (sys_table c ! i)" "ts_users ts = ts_users (sys_table c ! i)"
    "bit (ts_flags ts) TIMER_TYPE_SYS = bit (ts_flags (sys_table c ! i)) TIMER_TYPE_SYS"
    "bit (ts_flags ts) TIMER_STATE_CREATED = bit (ts_flags (sys_table c ! i)) TIMER_STATE_CREATED"
    "t_sys tm = Some i" "bit (t_flags tm) TIMER_STATE_STARTED" by blast
  with d show ?thesis by (intro timer_inv_one_slot [OF inv i, where ts = ts and tm = tm]) simp_all
qed

lemma timer_inv_stop:
  assumes inv: "timer_inv c"
  shows "timer_inv (timer_stop c t)"
proof (cases "started c t")
  case False
  then show ?thesis using inv by (simp add: timer_stop_idle)
next
  case True
  then obtain i where i: "t_sys (timers c t) = Some i" using timer_invD(4) [OF inv] by blast
  have il: "i < length (sys_table c)" using timer_invD(3) [OF inv i] .
  have d: "distinct (ts_list (sys_table c ! i))"
    using timer_invD(5) [OF inv il] by (simp add: sys_ok_def Let_def)
  from timer_stop_effect [OF i True il] obtain ts where ts:
    "timer_stop c t = c\<lparr>sys_table := (sys_table c)[i := ts],
          timers := (timers c)(t := (timers c t)\<lparr>t_flags :=
            bit_clear (t_flags (timers c t)) TIMER_STATE_STARTED\<rparr>)\<rparr>"
    "ts_list ts = remove1 t (ts_list (sys_table c ! i))"
    "ts_users ts = ts_users (sys_table c ! i)"
    "bit (ts_flags ts) TIMER_TYPE_SYS = bit (ts_flags (sys_table c ! i)) TIMER_TYPE_SYS"
    "bit (ts_flags ts) TIMER_STATE_CREATED = bit (ts_flags (sys_table c ! i)) TIMER_STATE_CREATED"
    "bit (ts_flags ts) TIMER_STATE_STARTED \<longrightarrow> ts_list ts \<noteq> []" by blast
  show ?thesis
    by (rule timer_inv_one_slot [OF inv i, where ts = ts and tm = "(timers c t)\<lparr>t_flags :=
            bit_clear (t_flags (timers c t)) TIMER_STATE_STARTED\<rparr>"])
      (use ts d i in \<open>simp_all add: flag_simps set_remove1_eq\<close>)
qed

lemma card_created_bound:
  "timer_inv c \<Longrightarrow> card {i. i < length (sys_table c) \<and> sys_created c i} \<le> unat (max_sys_timers c)"
  using card_mono [of "{..<length (sys_table c)}" "{i. i < length (sys_table c) \<and> sys_created c i}"]
  by (auto simp: timer_inv_def)

text \<open>
  Attaching a timer to slot \<open>i\<close>: the slot gains one user. The slot was either in use and shared,
  or free; in the second case it becomes created.
\<close>

lemma timer_inv_attach:
  assumes inv: "timer_inv c" and fresh: "t_sys (timers c t) = None"
    and i: "i < length (sys_table c)" and cap: "card (sys_users c i) < 2 ^ 32 - 1"
    and tab: "sys_table c' = (sys_table c)[i := (sys_table c ! i)\<lparr>ts_flags := fl, ts_ms := ms,
               ts_users := ts_users (sys_table c ! i) + 1\<rparr>]"
    and mx: "max_sys_timers c' = max_sys_timers c"
    and tm: "timers c' = (timers c)(t := tm)" "t_sys tm = Some i"
      "\<not> bit (t_flags tm) TIMER_STATE_STARTED"
    and fl: "bit fl TIMER_STATE_CREATED"
    and slot: "(sys_created c i \<and> fl = ts_flags (sys_table c ! i) \<and> \<not> bit fl TIMER_TYPE_SYS \<and>
                num_sys_timers c' = num_sys_timers c) \<or>
               (\<not> sys_created c i \<and> \<not> bit fl TIMER_STATE_STARTED \<and>
                num_sys_timers c' = num_sys_timers c + 1)"
  shows "timer_inv c'"
proof -
  have oki: "sys_ok c i" using timer_invD(5) [OF inv i] .
  have users: "sys_users c' j = (if j = i then insert t (sys_users c i) else sys_users c j)" for j
    using tm fresh by (auto simp: sys_users_def)
  have tn: "t \<notin> sys_users c j" "\<not> started c t" for j
    using fresh timer_invD(4) [OF inv, of t] by (auto simp: sys_users_def)
  have st: "started c' u = started c u" for u using tm tn(2) by (simp add: started_def)
  have fin: "finite (sys_users c j)" for j using timer_invD(2) [OF inv] .
  have cre: "sys_created c' j \<longleftrightarrow> j = i \<or> sys_created c j" for j
    using fl i tab by (cases "j = i") (simp_all add: sys_created_def)
  have ok: "sys_ok c' j" if j: "j < length (sys_table c)" for j
  proof (cases "j = i")
    case True
    have "unat (ts_users (sys_table c ! i) + 1) = Suc (card (sys_users c i))"
      using oki cap by (simp add: sys_ok_def Let_def unat_word_ariths)
    moreover have "\<not> sys_created c i \<Longrightarrow> sys_users c i = {}" using oki by (simp add: sys_ok_def Let_def)
    ultimately show ?thesis
      using oki True i tab slot tn st fin users cre
      by (auto simp: sys_ok_def Let_def)
  next
    case False
    have "sys_ok c j" using timer_invD(5) [OF inv j] .
    then show ?thesis using False tab st cre users by (auto simp: sys_ok_def Let_def)
  qed
  let ?C = "{j. j < length (sys_table c) \<and> sys_created c j}"
  have "{j. j < length (sys_table c) \<and> sys_created c' j} = insert i ?C" using cre i by auto
  moreover have "unat (num_sys_timers c') = card (insert i ?C)"
  proof (cases "sys_created c i")
    case True
    then have "insert i ?C = ?C" using i by auto
    with True slot timer_invD(6) [OF inv] show ?thesis by simp
  next
    case False
    then have "card (insert i ?C) = Suc (card ?C)" by simp
    moreover have "card (insert i ?C) \<le> card {..<length (sys_table c)}"
      using i by (intro card_mono) auto
    then have "Suc (card ?C) \<le> unat (max_sys_timers c)"
      using calculation timer_invD(1) [OF inv] by simp
    then have "Suc (unat (num_sys_timers c)) < 2 ^ 16"
      using timer_invD(6) [OF inv] unat_u16_less [of "max_sys_timers c"] by simp
    then have "unat (num_sys_timers c + 1) = Suc (unat (num_sys_timers c))"
      by (simp add: unat_word_ariths)
    ultimately show ?thesis using False slot timer_invD(6) [OF inv] by simp
  qed
  moreover have "t_sys (timers c' u) = Some j \<Longrightarrow> j < length (sys_table c)" for u j
    using tm i timer_invD(3) [OF inv, of u j] by (auto split: if_splits)
  moreover have "started c' u \<Longrightarrow> t_sys (timers c' u) \<noteq> None" for u
    using st tm timer_invD(4) [OF inv, of u] by auto
  moreover have "finite (sys_users c' j)" for j using users fin by simp
  ultimately show ?thesis
    using ok tab mx timer_invD(1) [OF inv] by (simp add: timer_inv_def)
qed

lemma timer_sys_find_Some:
  "timer_sys_find c ms = Some i \<Longrightarrow> i < unat (max_sys_timers c) \<and>
     sys_created c i \<and> \<not> bit (ts_flags (sys_table c ! i)) TIMER_TYPE_SYS \<and>
     ts_ms (sys_table c ! i) = ms"
  unfolding timer_sys_find_def
  by (drule find_Some_in) (auto simp: Let_def flag_simps sys_created_def timer_match_timeout_def)

lemma timer_sys_free_Some:
  "timer_sys_free c = Some i \<Longrightarrow> i < unat (max_sys_timers c) \<and> \<not> sys_created c i"
  unfolding timer_sys_free_def
  by (drule find_Some_in) (auto simp: flag_simps sys_created_def)

lemma create_flags:
  "bit (push_bit TIMER_STATE_CREATED 1 OR (flags AND push_bit TIMER_TYPE_SYS 1) :: u32) n
    \<longleftrightarrow> n = TIMER_STATE_CREATED \<or> n = TIMER_TYPE_SYS \<and> bit flags TIMER_TYPE_SYS"
  unfolding bit_or_iff bit_and_iff bit_push_bit_iff bit_1_iff by auto

lemma create_flags_norm:
  "bit (2 OR flags AND 1 :: u32) n \<longleftrightarrow> n = 1 \<or> n = 0 \<and> bit flags 0"
  using create_flags [of flags n] by simp

lemma same_ms_flags:
  "r\<lparr>ts_flags := ts_flags r, ts_ms := ts_ms r, ts_users := u\<rparr> = r\<lparr>ts_users := u\<rparr>"
  for r :: timer_sys by (cases r) simp

lemma timer_inv_init:
  assumes inv: "timer_inv c" and fresh: "t_sys (timers c t) = None"
    and cap: "\<And>i. card (sys_users c i) < 2 ^ 32 - 1"
  shows "timer_inv (snd (timer_init os_ok c t flags ms))"
proof (cases "timer_sys_create os_ok c flags ms")
  case (Pair c1 r)
  show ?thesis
  proof (cases r)
    case None
    then have "c1 = c"
      using Pair by (auto simp: timer_sys_create_def Let_def split: option.splits if_splits)
    then show ?thesis using Pair None inv by (simp add: timer_init_def)
  next
    case (Some i)
    let ?c' = "snd (timer_init os_ok c t flags ms)"
    let ?tm = "(timers c t)\<lparr>t_sys := Some i, t_flags := push_bit TIMER_STATE_CREATED 1\<rparr>"
    have len: "length (sys_table c) = unat (max_sys_timers c)" using timer_invD(1) [OF inv] .
    have t1: "timers c1 = timers c" "max_sys_timers c1 = max_sys_timers c"
      using Pair Some
      by (auto simp: timer_sys_create_def Let_def timer_simps split: option.splits if_splits)
    have c': "?c' = (upd_timer c1 t (\<lambda>tm. tm\<lparr>t_sys := Some i,
                 t_flags := push_bit TIMER_STATE_CREATED 1\<rparr>))
               \<lparr>num_soft_timers := num_soft_timers c1 + 1\<rparr>"
      using Pair Some by (simp add: timer_init_def)
    have nf: "\<not> bit (push_bit TIMER_STATE_CREATED 1 :: u32) TIMER_STATE_STARTED"
      by (simp add: bit_push_bit_iff bit_1_iff)
    consider (share) ms' where "timer_sys_find c ms' = Some i"
        "c1 = upd_sys c i (\<lambda>ts. ts\<lparr>ts_users := ts_users ts + 1\<rparr>)"
      | (own) ms' where "timer_sys_free c = Some i"
        "c1 = (upd_sys c i (\<lambda>ts. ts\<lparr>ts_flags := push_bit TIMER_STATE_CREATED 1 OR
                              (flags AND push_bit TIMER_TYPE_SYS 1),
                            ts_ms := ms', ts_users := ts_users ts + 1\<rparr>))
                          \<lparr>num_sys_timers := num_sys_timers c + 1\<rparr>"
      using Pair Some
      by (auto simp: timer_sys_create_def Let_def split: option.splits if_splits)
    then show ?thesis
    proof cases
      case share
      have tab: "sys_table ?c' = (sys_table c)[i := (sys_table c ! i)
          \<lparr>ts_flags := ts_flags (sys_table c ! i), ts_ms := ts_ms (sys_table c ! i),
           ts_users := ts_users (sys_table c ! i) + 1\<rparr>]"
        using share(2) by (simp add: c' upd_timer_def upd_sys_def same_ms_flags)
      from timer_sys_find_Some [OF share(1)] len show ?thesis
        by (intro timer_inv_attach [OF inv fresh _ _ tab, where tm = ?tm])
          (use cap share(2) t1 nf in \<open>simp_all add: c' upd_timer_def upd_sys_def sys_created_def\<close>)
    next
      case own
      from timer_sys_free_Some [OF own(1)] len show ?thesis
        by (intro timer_inv_attach [OF inv fresh, where i = i and tm = ?tm and
              fl = "push_bit TIMER_STATE_CREATED 1 OR (flags AND push_bit TIMER_TYPE_SYS 1)"
              and ms = ms'])
          (use cap own(2) t1 nf in \<open>simp_all add: c' upd_timer_def upd_sys_def create_flags_norm\<close>)
    qed
  qed
qed

lemma timer_stop_not_started: "timer_inv c \<Longrightarrow> \<not> started (timer_stop c t) t"
proof (cases "started c t")
  case True
  assume inv: "timer_inv c"
  with True obtain i where i: "t_sys (timers c t) = Some i" using timer_invD(4) by blast
  from timer_stop_effect [OF i True timer_invD(3) [OF inv i]] obtain ts where
    "timer_stop c t = c\<lparr>sys_table := (sys_table c)[i := ts],
          timers := (timers c)(t := (timers c t)\<lparr>t_flags :=
            bit_clear (t_flags (timers c t)) TIMER_STATE_STARTED\<rparr>)\<rparr>" by blast
  then show ?thesis by (simp add: started_def flag_simps)
qed (simp add: timer_stop_idle)

lemma timer_stop_sys: "t_sys (timers (timer_stop c t) u) = t_sys (timers c u)"
  by (auto simp: timer_stop_def timer_sys_stop_def Let_def timer_simps split: option.splits)

text \<open>Detaching a stopped timer from its slot, and freeing the slot with its last user.\<close>

lemma timer_inv_detach:
  assumes inv: "timer_inv c" and ti: "t_sys (timers c t) = Some i" and ns: "\<not> started c t"
    and tm: "t_sys tm = None" "\<not> bit (t_flags tm) TIMER_STATE_STARTED"
  shows "timer_inv (timer_sys_destroy (upd_timer c t (\<lambda>_. tm)) i)"
    (is "timer_inv ?c'")
proof -
  have i: "i < length (sys_table c)" using timer_invD(3) [OF inv ti] .
  have oki: "sys_ok c i" using timer_invD(5) [OF inv i] .
  have fin: "finite (sys_users c j)" for j using timer_invD(2) [OF inv] .
  have tin: "t \<in> sys_users c i" using ti by (simp add: sys_users_def)
  have tms: "timers ?c' = (timers c)(t := tm)"
    by (auto simp: timer_sys_destroy_def Let_def timer_simps fun_eq_iff)
  have users: "sys_users ?c' j = (if j = i then sys_users c i - {t} else sys_users c j)" for j
    using tm ti by (auto simp: sys_users_def tms)
  have st: "started ?c' u = started c u" for u using ns tm by (simp add: started_def tms)
  let ?last = "sys_users c i = {t}"
  have un: "unat (ts_users (sys_table c ! i)) = card (sys_users c i)"
    using oki by (simp add: sys_ok_def Let_def)
  have cpos: "0 < card (sys_users c i)" using tin fin by (auto simp: card_gt_0_iff)
  have u1: "unat (ts_users (sys_table c ! i) - 1) = card (sys_users c i - {t})"
    using un cpos tin fin by (simp add: unat_sub word_le_nat_alt Suc_leI)
  have zero: "ts_users (sys_table c ! i) - 1 = 0 \<longleftrightarrow> ?last"
  proof -
    have "ts_users (sys_table c ! i) - 1 = 0 \<longleftrightarrow> card (sys_users c i - {t}) = 0"
      using u1 by (metis unat_eq_zero)
    also have "\<dots> \<longleftrightarrow> sys_users c i - {t} = {}"
      by (rule card_0_eq) (simp add: fin)
    also have "\<dots> \<longleftrightarrow> ?last" using tin by blast
    finally show ?thesis .
  qed
  have tab: "sys_table ?c' = (sys_table c)[i := (sys_table c ! i)\<lparr>
      ts_users := ts_users (sys_table c ! i) - 1,
      ts_os := (if ?last then None else ts_os (sys_table c ! i)),
      ts_flags := (if ?last then bit_clear (ts_flags (sys_table c ! i)) TIMER_STATE_CREATED
                   else ts_flags (sys_table c ! i))\<rparr>]"
    using i zero by (simp add: timer_sys_destroy_def Let_def upd_sys_def upd_timer_def)
  have cre: "sys_created ?c' j \<longleftrightarrow> sys_created c j \<and> \<not> (j = i \<and> ?last)" for j
    using i tab by (cases "j = i") (auto simp: sys_created_def flag_simps)
  have ok: "sys_ok ?c' j" if j: "j < length (sys_table c)" for j
  proof (cases "j = i")
    case True
    have "card (sys_users c i - {t}) \<le> card (sys_users c i)" using fin by (intro card_mono) auto
    then show ?thesis
      using True i tab oki st users cre u1 ns tin
      by (auto simp: sys_ok_def Let_def flag_simps)
  next
    case False
    have "sys_ok c j" using timer_invD(5) [OF inv j] .
    then show ?thesis using False tab st cre users by (auto simp: sys_ok_def Let_def)
  qed
  let ?C = "{j. j < length (sys_table c) \<and> sys_created c j}"
  have ic: "i \<in> ?C" using i oki tin by (auto simp: sys_ok_def Let_def)
  have cset: "{j. j < length (sys_table c) \<and> sys_created ?c' j} = (if ?last then ?C - {i} else ?C)"
    using cre by auto
  have "num_sys_timers ?c' = (if ?last then num_sys_timers c - 1 else num_sys_timers c)"
    using i zero by (simp add: timer_sys_destroy_def Let_def timer_simps)
  moreover have "unat (num_sys_timers c - 1) = card (?C - {i})"
  proof -
    have "0 < card ?C" using ic by (auto simp: card_gt_0_iff)
    then show ?thesis
      using ic timer_invD(6) [OF inv] by (simp add: unat_sub word_le_nat_alt Suc_leI)
  qed
  ultimately have num: "unat (num_sys_timers ?c')
      = card {j. j < length (sys_table c) \<and> sys_created ?c' j}"
    using timer_invD(6) [OF inv] cset by simp
  have mx: "max_sys_timers ?c' = max_sys_timers c"
    by (simp add: timer_sys_destroy_def Let_def timer_simps)
  have at: "t_sys (timers ?c' u) = Some j \<Longrightarrow> j < length (sys_table c)"
    "started ?c' u \<Longrightarrow> t_sys (timers ?c' u) \<noteq> None" for u j
    using st tm ns timer_invD(3) [OF inv, of u j] timer_invD(4) [OF inv, of u]
    by (auto simp: tms split: if_splits)
  have "length (sys_table ?c') = length (sys_table c)" using tab by simp
  then show ?thesis
    unfolding timer_inv_def using ok num mx at timer_invD(1) [OF inv] fin users by simp
qed

lemma timer_inv_num_soft: "timer_inv (c\<lparr>num_soft_timers := n\<rparr>) = timer_inv c"
  by (simp add: timer_inv_def sys_ok_def sys_users_def started_def sys_created_def)

lemma timer_inv_destroy:
  assumes inv: "timer_inv c"
  shows "timer_inv (snd (timer_destroy c t))"
proof (cases "t_sys (timers c t)")
  case None
  then show ?thesis using timer_inv_stop [OF inv] by (simp add: timer_destroy_def)
next
  case (Some i)
  let ?c1 = "timer_stop c t"
  let ?tm = "(timers ?c1 t)\<lparr>t_sys := None,
    t_flags := bit_clear (t_flags (timers ?c1 t)) TIMER_STATE_CREATED\<rparr>"
  have ns: "\<not> started ?c1 t" using timer_stop_not_started [OF inv] .
  have "timer_inv (timer_sys_destroy (upd_timer ?c1 t (\<lambda>_. ?tm)) i)"
    by (rule timer_inv_detach [OF timer_inv_stop [OF inv]])
      (use ns Some in \<open>auto simp: timer_stop_sys started_def flag_simps\<close>)
  moreover have "upd_timer ?c1 t (\<lambda>_. ?tm) = upd_timer ?c1 t (\<lambda>tm. tm\<lparr>t_sys := None,
      t_flags := bit_clear (t_flags tm) TIMER_STATE_CREATED\<rparr>)" by (simp add: upd_timer_def)
  ultimately show ?thesis
    using Some by (simp add: timer_destroy_def Let_def timer_inv_num_soft)
qed

lemma timer_inv_restart:
  "timer_inv c \<Longrightarrow> timer_inv (snd (timer_restart os_ok c t ms))"
  by (simp add: timer_restart_def Let_def timer_inv_start timer_inv_stop)

lemma timer_inv_pool_init:
  assumes "\<And>t. t_sys (objs t) = None" and "\<And>t. \<not> bit (t_flags (objs t)) TIMER_STATE_STARTED"
  shows "timer_inv (timer_pool_init objs n)"
  using assms
  by (auto simp: timer_inv_def timer_pool_init_def sys_ok_def sys_users_def started_def
      sys_created_def Let_def)

subsection \<open>Expiry processing under callbacks\<close>

text \<open>
  A callback is a sequence of calls on any timers, the one that expires and the ones of the same
  chain included. \<open>chain c i suf\<close>: the chain of slot \<open>i\<close> ends with \<open>suf\<close>, which is what remains to
  be processed.
\<close>

datatype timer_cmd =
  CStart bool addr u32
| CStop addr
| CRestart bool addr u32
| CDestroy addr

primrec cmd_timer :: "timer_cmd \<Rightarrow> addr" where
  "cmd_timer (CStart _ t _) = t"
| "cmd_timer (CStop t) = t"
| "cmd_timer (CRestart _ t _) = t"
| "cmd_timer (CDestroy t) = t"

primrec exec_cmd :: "timer_cmd \<Rightarrow> timer_ctx \<Rightarrow> timer_ctx" where
  "exec_cmd (CStart ok t ms) c = snd (timer_start ok c t ms)"
| "exec_cmd (CStop t) c = timer_stop c t"
| "exec_cmd (CRestart ok t ms) c = snd (timer_restart ok c t ms)"
| "exec_cmd (CDestroy t) c = snd (timer_destroy c t)"

definition exec_cmds :: "timer_cmd list \<Rightarrow> timer_ctx \<Rightarrow> timer_ctx" where
  "exec_cmds cmds c = foldl (\<lambda>c cmd. exec_cmd cmd c) c cmds"

definition chain :: "timer_ctx \<Rightarrow> nat \<Rightarrow> addr list \<Rightarrow> bool" where
  "chain c i suf \<longleftrightarrow> timer_inv c \<and> i < length (sys_table c) \<and>
     (\<exists>pre. ts_list (sys_table c ! i) = pre @ suf) \<and> ts_next (sys_table c ! i) = first_in suf"

lemma succ_in_append:
  "t \<notin> set pre \<Longrightarrow> succ_in (pre @ t # suf) t = first_in suf"
  by (induction pre) (auto simp: first_in_def)

lemma chain_distinct: "chain c i suf \<Longrightarrow> distinct suf"
  by (auto simp: chain_def dest!: timer_invD(5) simp: sys_ok_def Let_def)

lemma chain_start:
  assumes "chain c i suf"
  shows "chain (snd (timer_start os_ok c t ms)) i suf"
proof (cases "t_sys (timers c t) = None \<or> started c t \<or> ms = 0")
  case True
  then show ?thesis using assms by (simp add: timer_start_refused)
next
  case False
  from assms have inv: "timer_inv c" by (simp add: chain_def)
  from False obtain j where j: "t_sys (timers c t) = Some j" by auto
  have jl: "j < length (sys_table c)" using timer_invD(3) [OF inv j] .
  from timer_start_effect [OF j _ _ jl, of ms os_ok] False obtain ts tm where
    "snd (timer_start os_ok c t ms)
      = c\<lparr>sys_table := (sys_table c)[j := ts], timers := (timers c)(t := tm)\<rparr>"
    "ts_list ts = t # ts_list (sys_table c ! j)" "ts_next ts = ts_next (sys_table c ! j)"
    by blast
  moreover have "timer_inv (snd (timer_start os_ok c t ms))" using timer_inv_start [OF inv] .
  ultimately show ?thesis
    using assms jl by (cases "i = j") (auto simp: chain_def intro: exI [where x = "t # _"])
qed

lemma chain_stop:
  assumes "chain c i suf"
  shows "chain (timer_stop c t) i (remove1 t suf)"
proof -
  from assms have inv: "timer_inv c" and i: "i < length (sys_table c)" by (auto simp: chain_def)
  from assms obtain pre where pre: "ts_list (sys_table c ! i) = pre @ suf"
    and nx: "ts_next (sys_table c ! i) = first_in suf" by (auto simp: chain_def)
  have ok: "sys_ok c i" using timer_invD(5) [OF inv i] .
  have inv': "timer_inv (timer_stop c t)" using timer_inv_stop [OF inv] .
  show ?thesis
  proof (cases "t \<in> set (pre @ suf)")
    case False
    have "sys_table (timer_stop c t) ! i = sys_table c ! i \<and>
      length (sys_table (timer_stop c t)) = length (sys_table c)"
    proof (cases "started c t")
      case True
      with inv obtain j where j: "t_sys (timers c t) = Some j" using timer_invD(4) by blast
      have "j \<noteq> i" using False True ok j pre by (auto simp: sys_ok_def Let_def sys_users_def)
      with timer_stop_effect [OF j True timer_invD(3) [OF inv j]] show ?thesis by auto
    qed (simp add: timer_stop_idle)
    with False assms inv' show ?thesis by (simp add: chain_def remove1_idem)
  next
    case True
    with ok pre have t: "t_sys (timers c t) = Some i" "started c t" and d: "distinct (pre @ suf)"
      by (auto simp: sys_ok_def Let_def sys_users_def)
    from timer_stop_effect [OF t i] pre obtain ts where ts: "timer_stop c t
        = c\<lparr>sys_table := (sys_table c)[i := ts],
          timers := (timers c)(t := (timers c t)\<lparr>t_flags :=
            bit_clear (t_flags (timers c t)) TIMER_STATE_STARTED\<rparr>)\<rparr>"
      "ts_list ts = remove1 t (pre @ suf)"
      "ts_next ts = (if ts_next (sys_table c ! i) = Some t
        then succ_in (pre @ suf) t else ts_next (sys_table c ! i))" by metis
    have "\<exists>pre'. remove1 t (pre @ suf) = pre' @ remove1 t suf"
      using d True by (cases "t \<in> set pre") (auto simp: remove1_append remove1_idem disjoint_iff)
    moreover have "ts_next ts = first_in (remove1 t suf)"
    proof (cases suf)
      case (Cons u us)
      then show ?thesis using ts nx d succ_in_append [of t pre us] by (auto simp: first_in_def)
    qed (use ts nx in \<open>simp add: first_in_def\<close>)
    ultimately show ?thesis using inv' ts i by (simp add: chain_def)
  qed
qed

lemma timer_destroy_slot:
  "ts_list (sys_table (snd (timer_destroy c t)) ! i) = ts_list (sys_table (timer_stop c t) ! i)"
  "ts_next (sys_table (snd (timer_destroy c t)) ! i) = ts_next (sys_table (timer_stop c t) ! i)"
  "ts_ms (sys_table (snd (timer_destroy c t)) ! i) = ts_ms (sys_table (timer_stop c t) ! i)"
  "bit (ts_flags (sys_table (snd (timer_destroy c t)) ! i)) TIMER_TYPE_SYS
    = bit (ts_flags (sys_table (timer_stop c t) ! i)) TIMER_TYPE_SYS"
  "length (sys_table (snd (timer_destroy c t))) = length (sys_table (timer_stop c t))"
  by (auto simp: timer_destroy_def timer_sys_destroy_def Let_def timer_simps flag_simps
      split: option.splits)

lemma chain_destroy:
  assumes "chain c i suf"
  shows "chain (snd (timer_destroy c t)) i (remove1 t suf)"
proof -
  have "timer_inv (snd (timer_destroy c t))"
    using assms timer_inv_destroy by (simp add: chain_def)
  with chain_stop [OF assms, of t] show ?thesis by (simp add: chain_def timer_destroy_slot)
qed

lemma subseq_remove1: "subseq (remove1 x xs) xs"
  by (induction xs) (auto intro: list_emb_Cons)

lemma chain_cmd:
  assumes "chain c i suf"
  shows "\<exists>suf'. chain (exec_cmd cmd c) i suf' \<and> subseq suf' suf \<and> set suf - {cmd_timer cmd} \<subseteq> set suf'"
proof -
  have r: "subseq (remove1 t suf) suf \<and> set suf - {t} \<subseteq> set (remove1 t suf)" for t
    using chain_distinct [OF assms] by (simp add: subseq_remove1 set_remove1_eq)
  have s: "subseq suf suf \<and> set suf - {t} \<subseteq> set suf" for t by auto
  from assms show ?thesis
  proof (cases cmd)
    case (CRestart ok t ms)
    then show ?thesis using r [of t] s [of t] assms
      by (simp add: timer_restart_def Let_def) (blast intro: chain_start chain_stop)
  qed (use r s assms in \<open>auto intro: chain_start chain_stop chain_destroy\<close>)
qed

lemma chain_cmds:
  "chain c i suf \<Longrightarrow> \<exists>suf'. chain (exec_cmds cmds c) i suf' \<and> subseq suf' suf \<and>
     set suf - cmd_timer ` set cmds \<subseteq> set suf'"
proof (induction cmds arbitrary: c suf)
  case (Cons cmd cmds)
  obtain suf1 where 1: "chain (exec_cmd cmd c) i suf1" "subseq suf1 suf"
    "set suf - {cmd_timer cmd} \<subseteq> set suf1"
    using chain_cmd [OF Cons.prems] by blast
  from Cons.IH [OF 1(1)] obtain suf2 where
    2: "chain (exec_cmds cmds (exec_cmd cmd c)) i suf2" "subseq suf2 suf1"
    "set suf1 - cmd_timer ` set cmds \<subseteq> set suf2" by blast
  moreover have "subseq suf2 suf" using 1 2 by auto
  moreover have "set suf - cmd_timer ` set (cmd # cmds) \<subseteq> set suf2" using 1(3) 2(3) by auto
  ultimately show ?case by (auto simp: exec_cmds_def)
qed (auto simp: exec_cmds_def)

text \<open>One iteration of the loop, with the callback given by a table of command sequences.\<close>

definition run_cb :: "(addr \<Rightarrow> timer_cmd list option) \<Rightarrow> addr \<Rightarrow> (timer_ctx \<Rightarrow> timer_ctx) option" where
  "run_cb cbs t = map_option exec_cmds (cbs t)"

text \<open>Callbacks that leave timer \<open>t\<close> alone.\<close>

definition spares :: "(addr \<Rightarrow> timer_cmd list option) \<Rightarrow> addr \<Rightarrow> bool" where
  "spares cbs t \<longleftrightarrow> (\<forall>u cmds. cbs u = Some cmds \<longrightarrow> t \<notin> cmd_timer ` set cmds)"

definition visit :: "(addr \<Rightarrow> timer_cmd list option) \<Rightarrow> nat \<Rightarrow> u32 \<Rightarrow> addr \<Rightarrow> timer_ctx \<Rightarrow> bool \<times> timer_ctx" where
  "visit cbs i count t c =
     (let c1 = upd_sys c i (\<lambda>ts. ts\<lparr>ts_next := succ_in (ts_list ts) t\<rparr>);
          c2 = upd_timer c1 t (\<lambda>tm. tm\<lparr>t_ms := t_ms tm - ts_ms (sys_table c1 ! i) * count\<rparr>)
      in if sint (t_ms (timers c2 t)) \<le> 0
         then (True, case cbs t of None \<Rightarrow> timer_stop c2 t
                                 | Some cmds \<Rightarrow> exec_cmds cmds (timer_stop c2 t))
         else (False, c2))"

lemma timer_process_loop_visit:
  "timer_process_loop (Suc fuel) (run_cb cbs) i count (Some t) c =
     (case visit cbs i count t c of (expired, c') \<Rightarrow>
        map_option (\<lambda>(fired, c''). (if expired then t # fired else fired, c''))
          (timer_process_loop fuel (run_cb cbs) i count (ts_next (sys_table c' ! i)) c'))"
  by (auto simp: visit_def run_cb_def Let_def split: option.splits)

lemma timer_inv_next: "timer_inv (upd_sys c i (\<lambda>ts. ts\<lparr>ts_next := f ts\<rparr>)) = timer_inv c"
proof -
  let ?c = "upd_sys c i (\<lambda>ts. ts\<lparr>ts_next := f ts\<rparr>)"
  have "sys_users ?c = sys_users c" "started ?c = started c"
    by (auto simp: fun_eq_iff sys_users_def started_def timer_simps)
  moreover have "sys_created ?c = sys_created c"
    by (auto simp: fun_eq_iff sys_created_def timer_simps)
  moreover have "sys_ok ?c = sys_ok c"
    using calculation by (auto simp: fun_eq_iff sys_ok_def Let_def timer_simps)
  ultimately show ?thesis by (simp add: timer_inv_def timer_simps)
qed

lemma timer_inv_ms: "timer_inv (upd_timer c t (\<lambda>tm. tm\<lparr>t_ms := f tm\<rparr>)) = timer_inv c"
proof -
  let ?c = "upd_timer c t (\<lambda>tm. tm\<lparr>t_ms := f tm\<rparr>)"
  have "sys_users ?c = sys_users c" "started ?c = started c" "sys_created ?c = sys_created c"
    by (auto simp: fun_eq_iff sys_users_def started_def sys_created_def timer_simps)
  moreover have "sys_ok ?c = sys_ok c"
    using calculation by (auto simp: fun_eq_iff sys_ok_def Let_def timer_simps)
  moreover have "t_sys (timers ?c u) = t_sys (timers c u)" for u by (simp add: timer_simps)
  ultimately show ?thesis by (simp add: timer_inv_def upd_timer_other(2-))
qed

lemma subseq_distinct: "subseq xs ys \<Longrightarrow> distinct ys \<Longrightarrow> distinct xs"
  by (induction rule: list_emb.induct) (auto dest: list_emb_set)

definition pending :: "timer_ctx \<Rightarrow> nat \<Rightarrow> addr list \<Rightarrow> bool" where
  "pending c i suf \<longleftrightarrow> timer_inv c \<and> i < length (sys_table c) \<and>
     (\<exists>pre. ts_list (sys_table c ! i) = pre @ suf)"

lemma chain_pending: "chain c i suf \<longleftrightarrow> pending c i suf \<and> ts_next (sys_table c ! i) = first_in suf"
  by (auto simp: chain_def pending_def)

lemma visit_chain:
  assumes "pending c i (t # suf)"
  shows "\<exists>suf'. chain (snd (visit cbs i count t c)) i suf' \<and> subseq suf' suf \<and>
    (\<forall>x\<in>set suf. spares cbs x \<longrightarrow> x \<in> set suf')"
proof -
  from assms obtain pre where inv: "timer_inv c" and i: "i < length (sys_table c)"
    and pre: "ts_list (sys_table c ! i) = pre @ t # suf" by (auto simp: pending_def)
  have d: "distinct (pre @ t # suf)" using timer_invD(5) [OF inv i] pre by (simp add: sys_ok_def Let_def)
  let ?c1 = "upd_sys c i (\<lambda>ts. ts\<lparr>ts_next := succ_in (ts_list ts) t\<rparr>)"
  let ?c2 = "upd_timer ?c1 t (\<lambda>tm. tm\<lparr>t_ms := t_ms tm - ts_ms (sys_table ?c1 ! i) * count\<rparr>)"
  have c2: "chain ?c2 i suf"
    using inv i pre d succ_in_append [of t pre suf]
    by (auto simp: chain_def timer_inv_ms timer_inv_next timer_simps intro: exI [where x = "pre @ [t]"])
  have "remove1 t suf = suf" using d by (simp add: remove1_idem)
  with chain_stop [OF c2, of t] have c3: "chain (timer_stop ?c2 t) i suf" by simp
  show ?thesis
  proof (cases "cbs t")
    case (Some cmds)
    from chain_cmds [OF c3, of cmds] obtain suf' where "chain (exec_cmds cmds (timer_stop ?c2 t)) i suf'"
      "subseq suf' suf" "set suf - cmd_timer ` set cmds \<subseteq> set suf'" by blast
    moreover from this(3) Some have "\<forall>x\<in>set suf. spares cbs x \<longrightarrow> x \<in> set suf'"
      unfolding spares_def by blast
    ultimately show ?thesis using c2 Some by (auto simp: visit_def Let_def)
  qed (use c2 c3 in \<open>auto simp: visit_def Let_def\<close>)
qed

lemma process_loop_chain:
  assumes "pending c i suf" and "length suf \<le> fuel"
  shows "\<exists>fired c'. timer_process_loop fuel (run_cb cbs) i count (first_in suf) c = Some (fired, c') \<and>
           timer_inv c' \<and> subseq fired suf \<and> i < length (sys_table c')"
  using assms
proof (induction fuel arbitrary: c suf)
  case 0
  then show ?case by (auto simp: first_in_def pending_def timer_inv_next timer_simps)
next
  case (Suc fuel)
  show ?case
  proof (cases suf)
    case Nil
    then show ?thesis using Suc.prems by (auto simp: first_in_def pending_def timer_inv_next timer_simps)
  next
    case (Cons t rest)
    obtain expired c1 where v: "visit cbs i count t c = (expired, c1)" by force
    obtain suf' where suf': "chain c1 i suf'" "subseq suf' rest"
      using visit_chain [of c i t rest cbs count] Suc.prems Cons v by auto
    moreover have "length suf' \<le> fuel"
      using Suc.prems Cons list_emb_length [OF suf'(2)] by simp
    ultimately obtain fired c' where
      "timer_process_loop fuel (run_cb cbs) i count (first_in suf') c1 = Some (fired, c')"
      "timer_inv c'" "subseq fired suf'" "i < length (sys_table c')"
      using Suc.IH [of c1 suf'] by (auto simp: chain_pending)
    moreover have "ts_next (sys_table c1 ! i) = first_in suf'" using suf' by (simp add: chain_pending)
    moreover have "subseq fired rest" using calculation suf' by auto
    moreover have "first_in suf = Some t" using Cons by (simp add: first_in_def)
    ultimately show ?thesis using v Cons by (cases expired) (auto simp: timer_process_loop_visit
      simp del: timer_process_loop.simps(3))
  qed
qed

text \<open>
  C12: Whatever the callbacks do to the timers (start, stop, restart, destroy, of the same chain or of
  another), \<open>timer_process\<close> ends within one iteration per timer that was on the chain, leaves the
  timer context consistent, and each timer expires at most once and in the order of the chain: a
  timer restarted by a callback is not processed again in the same run, and the entry that a
  callback removes \<open>from under our nose\<close> never breaks the walk.
\<close>

theorem timer_process_safe:
  assumes "timer_inv c" and "i < length (sys_table c)"
    and "length (ts_list (sys_table c ! i)) \<le> fuel"
  shows "\<exists>fired c'. timer_process fuel (run_cb cbs) i count c = Some (fired, c') \<and>
           timer_inv c' \<and> subseq fired (ts_list (sys_table c ! i)) \<and> distinct fired"
proof -
  have "pending c i (ts_list (sys_table c ! i))" using assms by (simp add: pending_def)
  from process_loop_chain [OF this assms(3), of cbs count] obtain fired c' where
    "timer_process fuel (run_cb cbs) i count c = Some (fired, c')" "timer_inv c'"
    "subseq fired (ts_list (sys_table c ! i))" by (auto simp: timer_process_def)
  moreover have "distinct (ts_list (sys_table c ! i))"
    using timer_invD(5) [OF assms(1,2)] by (simp add: sys_ok_def Let_def)
  ultimately show ?thesis by (metis subseq_distinct)
qed

subsection \<open>Expiry time\<close>

text \<open>
  The frame of the calls: a call on another timer leaves \<open>t\<close> alone and keeps the period of a
  shared system timer.
\<close>

definition shared_period :: "timer_ctx \<Rightarrow> nat \<Rightarrow> u32 \<Rightarrow> bool" where
  "shared_period c i g \<longleftrightarrow> ts_ms (sys_table c ! i) = g \<and> \<not> bit (ts_flags (sys_table c ! i)) TIMER_TYPE_SYS"

lemma timers_stop_other: "u \<noteq> t \<Longrightarrow> timers (timer_stop c u) t = timers c t"
  by (simp add: timer_stop_def timer_sys_stop_def Let_def timer_simps split: option.splits)

lemma timers_start_other: "u \<noteq> t \<Longrightarrow> timers (snd (timer_start ok c u ms)) t = timers c t"
  by (simp add: timer_start_def timer_sys_start_def Let_def timer_simps split: option.splits)

lemma timers_destroy_other: "u \<noteq> t \<Longrightarrow> timers (snd (timer_destroy c u)) t = timers c t"
  by (simp add: timer_destroy_def timer_sys_destroy_def Let_def timer_simps timers_stop_other
      split: option.splits)

lemma timers_cmd_other: "cmd_timer cmd \<noteq> t \<Longrightarrow> timers (exec_cmd cmd c) t = timers c t"
  by (cases cmd)
    (simp_all add: timers_stop_other timers_start_other timers_destroy_other timer_restart_def Let_def)

lemma timers_cmds_other:
  "t \<notin> cmd_timer ` set cmds \<Longrightarrow> timers (exec_cmds cmds c) t = timers c t"
  unfolding exec_cmds_def by (induction cmds arbitrary: c) (auto simp: timers_cmd_other)

lemma period_stop: "shared_period c i g \<Longrightarrow> shared_period (timer_stop c t) i g"
  by (simp add: shared_period_def timer_stop_def timer_sys_stop_def Let_def timer_simps flag_simps
      split: option.splits)

lemma period_start: "shared_period c i g \<Longrightarrow> shared_period (snd (timer_start ok c t ms)) i g"
  by (auto simp: shared_period_def timer_start_def timer_sys_start_def Let_def timer_simps flag_simps
      split: option.splits)

lemma period_destroy: "shared_period c i g \<Longrightarrow> shared_period (snd (timer_destroy c t)) i g"
  using period_stop [of c i g t] by (simp add: shared_period_def timer_destroy_slot)

lemma period_cmd: "shared_period c i g \<Longrightarrow> shared_period (exec_cmd cmd c) i g"
  by (cases cmd) (simp_all add: period_stop period_start period_destroy timer_restart_def Let_def)

lemma period_cmds: "shared_period c i g \<Longrightarrow> shared_period (exec_cmds cmds c) i g"
  unfolding exec_cmds_def by (induction cmds arbitrary: c) (auto simp: period_cmd)

lemma visit_period: "shared_period c i g \<Longrightarrow> shared_period (snd (visit cbs j count u c)) i g"
  by (auto simp: visit_def Let_def split: option.splits intro!: period_cmds period_stop)
    (auto simp: shared_period_def timer_simps)

lemma visit_other:
  "u \<noteq> t \<Longrightarrow> spares cbs t \<Longrightarrow> timers (snd (visit cbs i count u c)) t = timers c t"
  by (auto simp: visit_def Let_def spares_def timers_cmds_other timers_stop_other timer_simps
      split: option.splits)

lemma visit_self:
  assumes "timer_inv c" and "i < length (sys_table c)" and "shared_period c i g"
    and "started c t" and "t_sys (timers c t) = Some i" and "spares cbs t"
  shows "fst (visit cbs i count t c) \<longleftrightarrow> sint (t_ms (timers c t) - g * count) \<le> 0"
    and "fst (visit cbs i count t c) \<Longrightarrow> \<not> started (snd (visit cbs i count t c)) t"
    and "\<not> fst (visit cbs i count t c) \<Longrightarrow>
      timers (snd (visit cbs i count t c)) t = (timers c t)\<lparr>t_ms := t_ms (timers c t) - g * count\<rparr>"
proof -
  show "fst (visit cbs i count t c) \<longleftrightarrow> sint (t_ms (timers c t) - g * count) \<le> 0"
    using assms by (auto simp: visit_def Let_def timer_simps shared_period_def)
  show "\<not> fst (visit cbs i count t c) \<Longrightarrow>
      timers (snd (visit cbs i count t c)) t = (timers c t)\<lparr>t_ms := t_ms (timers c t) - g * count\<rparr>"
    using assms by (auto simp: visit_def Let_def timer_simps shared_period_def split: if_splits)
  let ?c2 = "upd_timer (upd_sys c i (\<lambda>ts. ts\<lparr>ts_next := succ_in (ts_list ts) t\<rparr>)) t
    (\<lambda>tm. tm\<lparr>t_ms := t_ms tm - ts_ms (sys_table (upd_sys c i (\<lambda>ts. ts\<lparr>ts_next := succ_in (ts_list ts) t\<rparr>)) ! i) * count\<rparr>)"
  have "timer_inv ?c2" using assms(1) by (simp add: timer_inv_ms timer_inv_next)
  then have "\<not> started (timer_stop ?c2 t) t" by (rule timer_stop_not_started)
  moreover have "timers (exec_cmds cmds (timer_stop ?c2 t)) t = timers (timer_stop ?c2 t) t"
    if "cbs t = Some cmds" for cmds
    using assms(6) that by (intro timers_cmds_other) (auto simp: spares_def)
  ultimately show "\<not> started (snd (visit cbs i count t c)) t" if "fst (visit cbs i count t c)"
    using that by (auto simp: visit_def Let_def started_def split: option.splits if_splits)
qed

lemma loop_other:
  "timer_process_loop fuel (run_cb cbs) i count (first_in suf) c = Some (fired, c') \<Longrightarrow>
   pending c i suf \<Longrightarrow> t \<notin> set suf \<Longrightarrow> spares cbs t \<Longrightarrow>
     timers c' t = timers c t \<and> (shared_period c i g \<longrightarrow> shared_period c' i g) \<and> t \<notin> set fired"
proof (induction fuel arbitrary: c suf fired c')
  case 0
  then show ?case
    by (cases suf) (auto simp: first_in_def timer_simps shared_period_def split: if_splits)
next
  case (Suc fuel)
  show ?case
  proof (cases suf)
    case Nil
    then show ?thesis
      using Suc.prems by (auto simp: first_in_def timer_simps shared_period_def split: if_splits)
  next
    case (Cons u rest)
    then have fi: "first_in suf = Some u" by (simp add: first_in_def)
    obtain expired c1 where v: "visit cbs i count u c = (expired, c1)" by force
    obtain suf' where suf': "chain c1 i suf'" "subseq suf' rest"
      using visit_chain [of c i u rest cbs count] Suc.prems Cons v by auto
    then have nx: "ts_next (sys_table c1 ! i) = first_in suf'" "pending c1 i suf'"
      by (auto simp: chain_pending)
    obtain fired' where f: "timer_process_loop fuel (run_cb cbs) i count (first_in suf') c1
        = Some (fired', c')" "fired = (if expired then u # fired' else fired')"
      using Suc.prems(1) unfolding fi timer_process_loop_visit v
      by (auto simp: nx split: if_splits)
    have "t \<notin> set suf'" "u \<noteq> t" using suf'(2) Suc.prems(3) Cons by (auto dest: list_emb_set)
    with Suc.IH [OF f(1) nx(2)] Suc.prems(4) visit_other [of u t cbs i count c]
      visit_period [of c i g cbs i count u] v f(2)
    show ?thesis by auto
  qed
qed

lemma loop_self:
  "timer_process_loop fuel (run_cb cbs) i count (first_in suf) c = Some (fired, c') \<Longrightarrow>
   pending c i suf \<Longrightarrow> t \<in> set suf \<Longrightarrow> spares cbs t \<Longrightarrow> shared_period c i g \<Longrightarrow>
   let w = t_ms (timers c t) - g * count in
     shared_period c' i g \<and>
     (if sint w \<le> 0 then t \<in> set fired \<and> \<not> started c' t
      else t \<notin> set fired \<and> timers c' t = (timers c t)\<lparr>t_ms := w\<rparr>)"
proof (induction fuel arbitrary: c suf fired c')
  case 0
  then show ?case by (cases suf) (auto simp: first_in_def)
next
  case (Suc fuel)
  from Suc.prems(3) obtain u rest where suf: "suf = u # rest" by (cases suf) auto
  then have fi: "first_in suf = Some u" by (simp add: first_in_def)
  obtain expired c1 where v: "visit cbs i count u c = (expired, c1)" by force
  obtain suf' where suf': "chain c1 i suf'" "subseq suf' rest"
    "\<forall>x\<in>set rest. spares cbs x \<longrightarrow> x \<in> set suf'"
    using visit_chain [of c i u rest cbs count] Suc.prems suf v by auto
  then have nx: "ts_next (sys_table c1 ! i) = first_in suf'" "pending c1 i suf'"
    by (auto simp: chain_pending)
  obtain fired' where f: "timer_process_loop fuel (run_cb cbs) i count (first_in suf') c1
      = Some (fired', c')" "fired = (if expired then u # fired' else fired')"
    using Suc.prems(1) unfolding fi timer_process_loop_visit v
    by (auto simp: nx split: if_splits)
  have per: "shared_period c1 i g" using visit_period [OF Suc.prems(5), of cbs i count u] v by simp
  show ?case
  proof (cases "u = t")
    case False
    then have "t \<in> set suf'" using Suc.prems suf suf'(3) by auto
    note ih = Suc.IH [OF f(1) nx(2) this Suc.prems(4) per]
    have "timers c1 t = timers c t" using visit_other [OF False Suc.prems(4), of i count c] v by simp
    moreover have "t \<in> set fired \<longleftrightarrow> t \<in> set fired'" using False f(2) by simp
    ultimately show ?thesis using ih by (simp add: Let_def)
  next
    case True
    from Suc.prems(2) suf True obtain pre where inv: "timer_inv c" "i < length (sys_table c)"
      and pre: "ts_list (sys_table c ! i) = pre @ t # rest" by (auto simp: pending_def)
    have "sys_ok c i" using timer_invD(5) [OF inv] .
    with pre have d: "distinct (t # rest)" and t: "started c t" "t_sys (timers c t) = Some i"
      by (auto simp: sys_ok_def Let_def sys_users_def)
    have "t \<notin> set suf'" using d suf'(2) by (auto dest: list_emb_set)
    from loop_other [OF f(1) nx(2) this Suc.prems(4)] per
    have "timers c' t = timers c1 t" "shared_period c' i g" "t \<notin> set fired'" by auto
    note fr = this
    note vs = visit_self [OF inv Suc.prems(5) t Suc.prems(4), of count, unfolded v [unfolded True] fst_conv snd_conv]
    show ?thesis
    proof (cases expired)
      case exp: True
      then show ?thesis using fr vs(1,2) f(2) True by (simp add: Let_def started_def)
    next
      case False
      then show ?thesis using fr vs(1,3) f(2) by (simp add: Let_def)
    qed
  qed
qed

text \<open>
  A run of the service seen by the system timer \<open>i\<close>: calls of the application, then an expiry of
  \<open>n\<close> periods, and so on.
\<close>

fun run_ticks :: "(addr \<Rightarrow> timer_cmd list option) \<Rightarrow> nat \<Rightarrow> (timer_cmd list \<times> u32) list \<Rightarrow> timer_ctx \<Rightarrow>
    (addr list list \<times> timer_ctx) option" where
  "run_ticks cbs i [] c = Some ([], c)"
| "run_ticks cbs i ((cmds, n) # evs) c =
     (let c1 = exec_cmds cmds c
      in case timer_process (length (ts_list (sys_table c1 ! i))) (run_cb cbs) i n c1 of
           None \<Rightarrow> None
         | Some (fired, c2) \<Rightarrow> map_option (\<lambda>(fs, c'). (fired # fs, c')) (run_ticks cbs i evs c2))"

definition periods :: "(timer_cmd list \<times> u32) list \<Rightarrow> nat" where
  "periods evs = (\<Sum>(cmds, n) \<leftarrow> evs. unat n)"

lemma timer_inv_cmd: "timer_inv c \<Longrightarrow> timer_inv (exec_cmd cmd c)"
  by (cases cmd) (simp_all add: timer_inv_start timer_inv_stop timer_inv_restart timer_inv_destroy)

lemma timer_inv_cmds: "timer_inv c \<Longrightarrow> timer_inv (exec_cmds cmds c)"
  unfolding exec_cmds_def by (induction cmds arbitrary: c) (auto simp: timer_inv_cmd)

lemma exec_cmd_length: "length (sys_table (exec_cmd cmd c)) = length (sys_table c)"
  by (cases cmd)
    (simp_all add: timer_restart_def timer_start_def timer_sys_start_def timer_stop_def timer_sys_stop_def
      timer_destroy_def timer_sys_destroy_def Let_def timer_simps split: option.splits)

lemma exec_cmds_length: "length (sys_table (exec_cmds cmds c)) = length (sys_table c)"
  unfolding exec_cmds_def by (induction cmds arbitrary: c) (auto simp: exec_cmd_length)

lemma process_pending:
  assumes "timer_inv c" and "i < length (sys_table c)"
  obtains fired c' where
    "timer_process (length (ts_list (sys_table c ! i))) (run_cb cbs) i n c = Some (fired, c')"
    "timer_process_loop (length (ts_list (sys_table c ! i))) (run_cb cbs) i n
       (first_in (ts_list (sys_table c ! i))) c = Some (fired, c')"
    "pending c i (ts_list (sys_table c ! i))" "timer_inv c'" "i < length (sys_table c')"
proof -
  have "pending c i (ts_list (sys_table c ! i))" using assms by (simp add: pending_def)
  from process_loop_chain [OF this order_refl, of cbs n] this that show ?thesis
    by (auto simp: timer_process_def)
qed

lemma in_list_iff:
  assumes "timer_inv c" and "t_sys (timers c t) = Some i"
  shows "t \<in> set (ts_list (sys_table c ! i)) \<longleftrightarrow> started c t"
  using timer_invD(5) [OF assms(1) timer_invD(3) [OF assms]] assms(2)
  by (auto simp: sys_ok_def Let_def sys_users_def)

lemma ms_countdown:
  fixes v g n :: u32
  assumes "unat v < 2 ^ 31" and "unat g * unat n < 2 ^ 31"
  shows "sint (v - g * n) \<le> 0 \<longleftrightarrow> unat v \<le> unat g * unat n"
    and "unat g * unat n < unat v \<Longrightarrow> unat (v - g * n) = unat v - unat g * unat n"
proof -
  have m: "unat (g * n) = unat g * unat n" using assms(2) by (simp add: unat_word_ariths)
  show 1: "unat (v - g * n) = unat v - unat g * unat n" if "unat g * unat n < unat v"
    using that m by (metis unat_sub_if' less_imp_le)
  have "sint v = int (unat v)" "sint (g * n) = int (unat (g * n))"
    using assms m by (simp_all only: sint_eq_unat)
  moreover define N where "N = unat g * unat n"
  ultimately have e: "sint v - sint (g * n) = int (unat v) - int N" and N: "N < 2 ^ 31"
    using m assms(2) by simp_all
  have "signed_take_bit 31 (int a - int b) = int a - int b"
    if "a < 2147483648" "b < 2147483648" for a b
    by (rule signed_take_bit_int_eq_self; use that in simp; linarith)
  from this [of "unat v" N] e N assms(1) have "sint (v - g * n) = int (unat v) - int N"
    by (simp add: sint_word_ariths(2))
  then have "sint (v - g * n) \<le> 0 \<longleftrightarrow> unat v \<le> N" by linarith
  then show "sint (v - g * n) \<le> 0 \<longleftrightarrow> unat v \<le> unat g * unat n" by (simp only: N_def)
qed

lemma tick_idle:
  assumes "timer_inv c" and "i < length (sys_table c)" and "\<not> started c t" and "spares cbs t"
  obtains fired c' where
    "timer_process (length (ts_list (sys_table c ! i))) (run_cb cbs) i n c = Some (fired, c')"
    "timer_inv c'" "t \<notin> set fired" "timers c' t = timers c t" "i < length (sys_table c')"
proof -
  obtain fired c' where r:
    "timer_process (length (ts_list (sys_table c ! i))) (run_cb cbs) i n c = Some (fired, c')"
    "timer_process_loop (length (ts_list (sys_table c ! i))) (run_cb cbs) i n
       (first_in (ts_list (sys_table c ! i))) c = Some (fired, c')"
    "pending c i (ts_list (sys_table c ! i))" "timer_inv c'" "i < length (sys_table c')"
    using process_pending [OF assms(1,2)] by metis
  have "t \<notin> set (ts_list (sys_table c ! i))"
    using timer_invD(5) [OF assms(1,2)] assms(3) by (simp add: sys_ok_def Let_def)
  from loop_other [OF r(2,3) this assms(4)] that r show ?thesis by simp
qed

lemma tick_running:
  assumes "timer_inv c" and "i < length (sys_table c)" and "t_sys (timers c t) = Some i"
    and "started c t" and "spares cbs t" and "shared_period c i g"
    and "unat (t_ms (timers c t)) < 2 ^ 31" and "unat g * unat n < 2 ^ 31"
  obtains fired c' where
    "timer_process (length (ts_list (sys_table c ! i))) (run_cb cbs) i n c = Some (fired, c')"
    "timer_inv c'" "i < length (sys_table c')" "shared_period c' i g"
    "unat (t_ms (timers c t)) \<le> unat g * unat n \<Longrightarrow> t \<in> set fired \<and> \<not> started c' t"
    "unat g * unat n < unat (t_ms (timers c t)) \<Longrightarrow> t \<notin> set fired \<and> started c' t \<and>
       t_sys (timers c' t) = Some i \<and>
       unat (t_ms (timers c' t)) = unat (t_ms (timers c t)) - unat g * unat n"
proof -
  obtain fired c' where r:
    "timer_process (length (ts_list (sys_table c ! i))) (run_cb cbs) i n c = Some (fired, c')"
    "timer_process_loop (length (ts_list (sys_table c ! i))) (run_cb cbs) i n
       (first_in (ts_list (sys_table c ! i))) c = Some (fired, c')"
    "pending c i (ts_list (sys_table c ! i))" "timer_inv c'" "i < length (sys_table c')"
    using process_pending [OF assms(1,2)] by metis
  have "t \<in> set (ts_list (sys_table c ! i))" using in_list_iff [OF assms(1,3)] assms(4) by simp
  note s = loop_self [OF r(2,3) this assms(5,6)]
  note cd = ms_countdown [OF assms(7,8)]
  show ?thesis
  proof (rule that [OF r(1,4,5)])
    show "shared_period c' i g" using s by (simp add: Let_def)
    show "t \<in> set fired \<and> \<not> started c' t" if "unat (t_ms (timers c t)) \<le> unat g * unat n"
      using s cd(1) that by (simp add: Let_def)
    show "t \<notin> set fired \<and> started c' t \<and> t_sys (timers c' t) = Some i \<and>
       unat (t_ms (timers c' t)) = unat (t_ms (timers c t)) - unat g * unat n"
      if "unat g * unat n < unat (t_ms (timers c t))"
      using s cd(1) cd(2) [OF that] that assms(3,4) by (simp add: Let_def started_def)
  qed
qed

lemma run_ticks_idle:
  assumes "timer_inv c" and "i < length (sys_table c)" and "\<not> started c t" and "spares cbs t"
    and "\<forall>(cmds, n) \<in> set evs. t \<notin> cmd_timer ` set cmds"
  shows "\<exists>fs c'. run_ticks cbs i evs c = Some (fs, c') \<and> \<not> started c' t \<and> (\<forall>f\<in>set fs. t \<notin> set f)"
  using assms
proof (induction evs arbitrary: c)
  case (Cons ev evs)
  obtain cmds n where ev: "ev = (cmds, n)" by force
  let ?c = "exec_cmds cmds c"
  have "timers ?c t = timers c t" using Cons.prems ev by (intro timers_cmds_other) auto
  then have ns: "\<not> started ?c t" using Cons.prems by (simp add: started_def)
  have inv: "timer_inv ?c" using Cons.prems timer_inv_cmds by simp
  have il: "i < length (sys_table ?c)" using Cons.prems exec_cmds_length by simp
  obtain fired c2 where p: "timer_process (length (ts_list (sys_table ?c ! i))) (run_cb cbs) i n ?c
      = Some (fired, c2)" "timer_inv c2" "t \<notin> set fired" "timers c2 t = timers ?c t"
      "i < length (sys_table c2)"
    using tick_idle [OF inv il ns Cons.prems(4)] by metis
  then have "\<not> started c2 t" using ns by (simp add: started_def)
  from Cons.IH [OF p(2,5) this Cons.prems(4)] Cons.prems(5) p ev show ?case by auto
qed simp

lemma run_ticks_running:
  assumes "timer_inv c" and "i < length (sys_table c)" and "t_sys (timers c t) = Some i"
    and "started c t" and "spares cbs t" and "shared_period c i g"
    and "\<forall>(cmds, n) \<in> set evs. t \<notin> cmd_timer ` set cmds"
    and "unat (t_ms (timers c t)) < 2 ^ 31" "0 < unat (t_ms (timers c t))"
    and "unat g * periods evs < 2 ^ 31"
  shows "\<exists>fs c'. run_ticks cbs i evs c = Some (fs, c') \<and>
    ((\<exists>f\<in>set fs. t \<in> set f) \<longleftrightarrow> unat (t_ms (timers c t)) \<le> unat g * periods evs) \<and>
    (started c' t \<longleftrightarrow> unat g * periods evs < unat (t_ms (timers c t)))"
  using assms
proof (induction evs arbitrary: c)
  case (Cons ev evs)
  obtain cmds n where ev: "ev = (cmds, n)" by force
  let ?c = "exec_cmds cmds c"
  have tt: "timers ?c t = timers c t" using Cons.prems ev by (intro timers_cmds_other) auto
  then have ts: "t_sys (timers ?c t) = Some i" "started ?c t"
    using Cons.prems by (simp_all add: started_def)
  have inv: "timer_inv ?c" using Cons.prems timer_inv_cmds by simp
  have il: "i < length (sys_table ?c)" using Cons.prems exec_cmds_length by simp
  have per: "shared_period ?c i g" using Cons.prems period_cmds by simp
  have pe: "unat g * periods (ev # evs) = unat g * unat n + unat g * periods evs"
    by (simp add: periods_def ev distrib_left)
  have v31: "unat (t_ms (timers ?c t)) < 2 ^ 31" using tt Cons.prems by simp
  have n31: "unat g * unat n < 2 ^ 31" using Cons.prems(10) pe by simp
  obtain fired c2 where p: "timer_process (length (ts_list (sys_table ?c ! i))) (run_cb cbs) i n ?c
      = Some (fired, c2)" "timer_inv c2" "i < length (sys_table c2)" "shared_period c2 i g"
    "unat (t_ms (timers ?c t)) \<le> unat g * unat n \<Longrightarrow> t \<in> set fired \<and> \<not> started c2 t"
    "unat g * unat n < unat (t_ms (timers ?c t)) \<Longrightarrow> t \<notin> set fired \<and> started c2 t \<and>
       t_sys (timers c2 t) = Some i \<and>
       unat (t_ms (timers c2 t)) = unat (t_ms (timers ?c t)) - unat g * unat n"
    using tick_running [OF inv il ts Cons.prems(5) per v31 n31] by metis
  have evs: "\<forall>(cmds, n) \<in> set evs. t \<notin> cmd_timer ` set cmds" using Cons.prems(7) by simp
  show ?case
  proof (cases "unat (t_ms (timers c t)) \<le> unat g * unat n")
    case True
    from p(5) True tt have f: "t \<in> set fired" "\<not> started c2 t" by auto
    from run_ticks_idle [OF p(2,3) f(2) Cons.prems(5) evs] p(1) f(1) True ev pe
    show ?thesis by auto
  next
    case False
    with p(6) tt have f: "t \<notin> set fired" "started c2 t" "t_sys (timers c2 t) = Some i"
      "unat (t_ms (timers c2 t)) = unat (t_ms (timers c t)) - unat g * unat n" by auto
    have "unat (t_ms (timers c2 t)) < 2 ^ 31" "0 < unat (t_ms (timers c2 t))"
      "unat g * periods evs < 2 ^ 31"
      using Cons.prems(8-10) f(4) False pe by linarith+
    from Cons.IH [OF p(2,3) f(3,2) Cons.prems(5) p(4) evs this]
    obtain fs c' where "run_ticks cbs i evs c2 = Some (fs, c')"
      "(\<exists>f\<in>set fs. t \<in> set f) \<longleftrightarrow> unat (t_ms (timers c2 t)) \<le> unat g * periods evs"
      "started c' t \<longleftrightarrow> unat g * periods evs < unat (t_ms (timers c2 t))"
      by blast
    with p(1) f(1,4) False ev pe show ?thesis by auto
  qed
qed (simp add: periods_def)

text \<open>
  A soft timer on a shared system timer of period \<open>g\<close>, started with \<open>ms\<close>, expires at the first
  expiry of the system timer where the periods counted since the start cover \<open>ms + g\<close>, and not before:
  as the first counted period may have begun before the start, at least \<open>ms\<close> have elapsed. This holds
  whatever the other timers and their callbacks do, the timer expires once, and it stays stopped
  afterwards.
\<close>

theorem timer_expiry_time:
  assumes "timer_inv c" and "t_sys (timers c t) = Some i" and "\<not> started c t"
    and "shared_period c i g" and "0 < unat ms" and "unat ms + unat g < 2 ^ 31"
    and "spares cbs t" and "\<forall>(cmds, n) \<in> set evs. t \<notin> cmd_timer ` set cmds"
    and "unat g * periods evs < 2 ^ 31"
  shows "\<exists>fs c'. run_ticks cbs i evs (snd (timer_start os_ok c t ms)) = Some (fs, c') \<and>
    ((\<exists>f\<in>set fs. t \<in> set f) \<longleftrightarrow> unat ms + unat g \<le> unat g * periods evs) \<and>
    (started c' t \<longleftrightarrow> unat g * periods evs < unat ms + unat g)"
proof -
  let ?c = "snd (timer_start os_ok c t ms)"
  have i: "i < length (sys_table c)" using timer_invD(3) [OF assms(1,2)] .
  have "ms \<noteq> 0" using assms(5) by auto
  from timer_start_effect [OF assms(2,3) this i, of os_ok] assms(4) i
  have st: "t_sys (timers ?c t) = Some i" "started ?c t" "t_ms (timers ?c t) = ms + g"
    "i < length (sys_table ?c)"
    by (auto simp: shared_period_def started_def)
  have u: "unat (ms + g) = unat ms + unat g" using assms(6) by (simp add: unat_word_ariths)
  have "unat (t_ms (timers ?c t)) < 2 ^ 31" "0 < unat (t_ms (timers ?c t))"
    using assms(5,6) st(3) u by simp_all
  from run_ticks_running [OF timer_inv_start [OF assms(1)] st(4,1,2) assms(7) period_start [OF assms(4)]
      assms(8) this assms(9)] st(3) u
  show ?thesis by simp
qed

subsection \<open>The view of the clients\<close>

text \<open>
  The protocol components keep a timer in each of their objects and only use whether it was created
  and whether it is running. \<open>soft_timer\<close> is that view; the locale states it as the contract of a
  timer service, and \<open>timer.c\<close> implements it.
\<close>

record soft_timer =
  tm_created :: bool
  tm_started :: bool

definition tm_start :: "soft_timer \<Rightarrow> u32 \<Rightarrow> soft_timer" where
  "tm_start tm ms = (if tm_created tm \<and> ms \<noteq> 0 then tm\<lparr>tm_started := True\<rparr> else tm)"

definition tm_stop :: "soft_timer \<Rightarrow> soft_timer" where
  "tm_stop tm = tm\<lparr>tm_started := False\<rparr>"

definition tm_restart :: "soft_timer \<Rightarrow> u32 \<Rightarrow> soft_timer" where
  "tm_restart tm ms = (if tm_created tm then tm_start (tm_stop tm) ms else tm)"

definition tm_destroy :: "soft_timer \<Rightarrow> soft_timer" where
  "tm_destroy tm = tm\<lparr>tm_created := False, tm_started := False\<rparr>"

primrec tm_cmd :: "timer_cmd \<Rightarrow> soft_timer \<Rightarrow> soft_timer" where
  "tm_cmd (CStart _ _ ms) tm = tm_start tm ms"
| "tm_cmd (CStop _) tm = tm_stop tm"
| "tm_cmd (CRestart _ _ ms) tm = tm_restart tm ms"
| "tm_cmd (CDestroy _) tm = tm_destroy tm"

definition soft_view :: "timer_ctx \<Rightarrow> addr \<Rightarrow> soft_timer" where
  "soft_view c t = \<lparr>tm_created = (t_sys (timers c t) \<noteq> None), tm_started = started c t\<rparr>"

locale timer_service =
  fixes inv :: "'c \<Rightarrow> bool"
    and view :: "'c \<Rightarrow> addr \<Rightarrow> soft_timer"
    and exec :: "timer_cmd \<Rightarrow> 'c \<Rightarrow> 'c"
  assumes inv_exec: "inv c \<Longrightarrow> inv (exec cmd c)"
    and view_exec: "inv c \<Longrightarrow> view (exec cmd c) t =
          (if t = cmd_timer cmd then tm_cmd cmd (view c t) else view c t)"
begin

lemma view_run:
  assumes "inv c"
  shows "view (foldl (\<lambda>c cmd. exec cmd c) c cmds) t =
    foldl (\<lambda>tm cmd. tm_cmd cmd tm) (view c t) [cmd \<leftarrow> cmds. cmd_timer cmd = t]"
  using assms by (induction cmds arbitrary: c) (auto simp: inv_exec view_exec)

end

lemma soft_view_stop:
  "timer_inv c \<Longrightarrow> soft_view (timer_stop c t) u = (if u = t then tm_stop (soft_view c u) else soft_view c u)"
  using timer_stop_not_started [of c t]
  by (auto simp: soft_view_def tm_stop_def timer_stop_sys started_def timers_stop_other)

lemma soft_view_start:
  assumes "timer_inv c"
  shows "soft_view (snd (timer_start ok c t ms)) u
    = (if u = t then tm_start (soft_view c u) ms else soft_view c u)"
proof (cases "u \<noteq> t \<or> t_sys (timers c t) = None \<or> started c t \<or> ms = 0")
  case True
  then show ?thesis
    by (auto simp: soft_view_def tm_start_def started_def timers_start_other timer_start_refused)
next
  case False
  then obtain i where i: "t_sys (timers c t) = Some i" by auto
  from timer_start_effect [OF i _ _ timer_invD(3) [OF assms i], of ms ok] False
  show ?thesis by (auto simp: soft_view_def tm_start_def started_def i)
qed

lemma soft_view_destroy:
  assumes "timer_inv c"
  shows "soft_view (snd (timer_destroy c t)) u
    = (if u = t then tm_destroy (soft_view c u) else soft_view c u)"
proof -
  have "\<not> started (timer_stop c t) t" using timer_stop_not_started [OF assms] .
  then show ?thesis
    by (auto simp: soft_view_def tm_destroy_def started_def timers_destroy_other timer_destroy_def
        timer_sys_destroy_def Let_def timer_simps flag_simps timer_stop_sys timers_stop_other
        split: option.splits)
qed

lemma soft_view_restart:
  assumes "timer_inv c"
  shows "soft_view (snd (timer_restart ok c t ms)) u
    = (if u = t then tm_restart (soft_view c u) ms else soft_view c u)"
proof -
  have "tm_stop (soft_view c t) = soft_view c t" if "\<not> started c t"
    using that by (simp add: tm_stop_def soft_view_def)
  then show ?thesis
    using assms soft_view_start [OF assms] soft_view_start [OF timer_inv_stop [OF assms]]
      soft_view_stop [OF assms]
    by (auto simp: timer_restart_def timer_is_running_def Let_def tm_restart_def flag_simps
        started_def [symmetric]) (auto simp: soft_view_def)
qed

interpretation soft: timer_service timer_inv soft_view exec_cmd
proof
  show "soft_view (exec_cmd cmd c) t = (if t = cmd_timer cmd then tm_cmd cmd (soft_view c t) else soft_view c t)"
    if "timer_inv c" for c cmd t
    using that by (cases cmd)
      (simp_all add: soft_view_start soft_view_stop soft_view_restart soft_view_destroy)
qed (rule timer_inv_cmd)

text \<open>
  Any sequence of start, stop, restart and destroy calls keeps the timer context consistent
  (each chain holds exactly the started timers of its system timer, the user counts are exact, a
  system timer slot is allocated while it has users) and acts on each timer exactly as the calls that
  name it act on its created/running view, whatever is multiplexed on the same system timer.
\<close>

theorem timer_calls_refine_view:
  assumes "timer_inv c"
  shows "timer_inv (exec_cmds cmds c) \<and>
    soft_view (exec_cmds cmds c) t =
      foldl (\<lambda>tm cmd. tm_cmd cmd tm) (soft_view c t) [cmd \<leftarrow> cmds. cmd_timer cmd = t]"
  using timer_inv_cmds [OF assms] soft.view_run [OF assms] by (simp add: exec_cmds_def)

subsection \<open>Concrete runs\<close>

text \<open>Two timers created on one shared system timer of 10 ms, the second one started.\<close>

definition timer_ex0 :: timer_ctx where
  "timer_ex0 = timer_pool_init (\<lambda>_. \<lparr>t_ms = 0, t_flags = 0, t_sys = None\<rparr>) 4"

definition timer_ex1 :: timer_ctx where
  "timer_ex1 = snd (timer_init True timer_ex0 1 0 10)"

definition timer_ex2 :: timer_ctx where
  "timer_ex2 = snd (timer_init True timer_ex1 2 0 10)"

definition timer_ex :: timer_ctx where
  "timer_ex = snd (timer_start True timer_ex2 2 15)"

lemma timer_ex1_eq: "timer_ex1 = timer_ex0\<lparr>num_soft_timers := 1, num_sys_timers := 1,
    sys_table := (sys_table timer_ex0)[0 := \<lparr>ts_list = [], ts_next = None, ts_ms = 10, ts_flags = 2,
      ts_users = 1, ts_os = None\<rparr>],
    timers := (timers timer_ex0)(1 := \<lparr>t_ms = 0, t_flags = 2, t_sys = Some 0\<rparr>)\<rparr>"
  by (simp add: timer_ex1_def timer_ex0_def timer_pool_init_def timer_init_def timer_sys_create_def
      timer_sys_find_def timer_sys_free_def Let_def upd_sys_def upd_timer_def upt_rec flag_simps)

lemma timer_ex2_eq: "timer_ex2 = timer_ex1\<lparr>num_soft_timers := 2,
    sys_table := (sys_table timer_ex1)[0 := \<lparr>ts_list = [], ts_next = None, ts_ms = 10, ts_flags = 2,
      ts_users = 2, ts_os = None\<rparr>],
    timers := (timers timer_ex1)(2 := \<lparr>t_ms = 0, t_flags = 2, t_sys = Some 0\<rparr>)\<rparr>"
  by (simp add: timer_ex2_def timer_ex1_eq timer_ex0_def timer_pool_init_def timer_init_def
      timer_sys_create_def timer_sys_find_def Let_def upd_sys_def upd_timer_def upt_rec flag_simps
      timer_match_timeout_def)

lemma timer_ex_inv: "timer_inv timer_ex0" "timer_inv timer_ex1" "timer_inv timer_ex2" "timer_inv timer_ex"
proof -
  show 0: "timer_inv timer_ex0" unfolding timer_ex0_def by (rule timer_inv_pool_init) simp_all
  have "sys_users timer_ex0 i = {}" for i
    by (simp add: timer_ex0_def timer_pool_init_def sys_users_def)
  then show 1: "timer_inv timer_ex1"
    unfolding timer_ex1_def by (intro timer_inv_init [OF 0])
      (simp_all add: timer_ex0_def timer_pool_init_def)
  have "sys_users timer_ex1 i \<subseteq> {1}" for i
    by (auto simp: timer_ex1_eq timer_ex0_def timer_pool_init_def sys_users_def split: if_splits)
  then have "card (sys_users timer_ex1 i) \<le> 1" for i
    using card_mono [of "{1::addr}" "sys_users timer_ex1 i"] by simp
  then have "card (sys_users timer_ex1 i) < 2 ^ 32 - 1" for i
    by (rule le_less_trans) simp
  then show 2: "timer_inv timer_ex2"
    unfolding timer_ex2_def by (intro timer_inv_init [OF 1])
      (simp_all add: timer_ex1_eq timer_ex0_def timer_pool_init_def)
  show "timer_inv timer_ex" unfolding timer_ex_def by (rule timer_inv_start [OF 2])
qed

lemma timer_ex_list: "ts_list (sys_table timer_ex ! 0) = [2]" "length (sys_table timer_ex) = 4"
  by (simp_all add: timer_ex_def timer_ex2_eq timer_ex1_eq timer_ex0_def timer_pool_init_def
      timer_start_def timer_sys_start_def Let_def upd_sys_def upd_timer_def flag_simps)

text \<open>The callback of timer 2 restarts it and starts timer 1, both on the chain being processed.\<close>

theorem timer_process_safe_witness:
  "\<exists>fired c'. timer_process 1 (run_cb [2 \<mapsto> [CStart True 2 5, CStart True 1 5]]) 0 3 timer_ex
       = Some (fired, c') \<and>
     timer_inv c' \<and> subseq fired (ts_list (sys_table timer_ex ! 0)) \<and> distinct fired"
  by (rule timer_process_safe) (simp_all add: timer_ex_inv timer_ex_list)

theorem timer_expiry_time_witness:
  "\<exists>fs c'. run_ticks Map.empty 0 [([], 1), ([CStop 2], 1), ([], 1)]
        (snd (timer_start True timer_ex 1 15)) = Some (fs, c') \<and>
    ((\<exists>f\<in>set fs. 1 \<in> set f) \<longleftrightarrow> unat (15::u32) + unat (10::u32)
       \<le> unat (10::u32) * periods [([], 1), ([CStop 2], 1), ([], 1)]) \<and>
    (started c' 1 \<longleftrightarrow> unat (10::u32) * periods [([], 1), ([CStop 2], 1), ([], 1)]
       < unat (15::u32) + unat (10::u32))"
  by (rule timer_expiry_time [OF timer_ex_inv(4)])
    (simp_all add: timer_ex_def timer_ex2_eq timer_ex1_eq timer_ex0_def timer_pool_init_def
      timer_start_def timer_sys_start_def Let_def upd_sys_def upd_timer_def flag_simps started_def
      shared_period_def spares_def periods_def)

theorem timer_calls_refine_view_witness:
  "timer_inv (exec_cmds [CStop 2, CStart True 1 7, CRestart True 2 1] timer_ex) \<and>
    soft_view (exec_cmds [CStop 2, CStart True 1 7, CRestart True 2 1] timer_ex) 2 =
      foldl (\<lambda>tm cmd. tm_cmd cmd tm) (soft_view timer_ex 2)
        [cmd \<leftarrow> [CStop 2, CStart True 1 7, CRestart True 2 1]. cmd_timer cmd = 2]"
  by (rule timer_calls_refine_view) (rule timer_ex_inv)

end
