(* ===== verification/MRP_SM.thy ===== *)
theory MRP_SM
  imports Timer
begin

section \<open>MRP state machines (\<open>src/srp/mrp.c\<close>, \<open>src/srp/mrp.h\<close>)\<close>

text \<open>
  The transition functions of the Applicant (\<open>mrp_applicant_sm\<close>, split by the groups of events of its
  switch) and of the Registrar (\<open>mrp_registrar_sm\<close>), on the enumerations of \<open>mrp.h\<close>. The parts of
  the C functions that act on the application (the transmit request, the ordered list, the
  indications) are in \<open>MRP_App\<close>, which calls these. The theorems say what the tables guarantee over
  any history: the applicant declares what the application asked for last, falls quiet in three
  transmit opportunities, and the registrar's indications give the client its state.
\<close>

subsection \<open>Enumerations\<close>

datatype mrp_state =
  MRP_STATE_VO | MRP_STATE_VP | MRP_STATE_VN | MRP_STATE_AN | MRP_STATE_AA | MRP_STATE_QA
| MRP_STATE_LA | MRP_STATE_AO | MRP_STATE_QO | MRP_STATE_AP | MRP_STATE_QP | MRP_STATE_LO
| MRP_STATE_IN | MRP_STATE_LV | MRP_STATE_MT

datatype mrp_event =
  MRP_EVENT_BEGIN | MRP_EVENT_NEW | MRP_EVENT_JOIN | MRP_EVENT_LV | MRP_EVENT_TX
| MRP_EVENT_TXLA | MRP_EVENT_TXLAF | MRP_EVENT_RNEW | MRP_EVENT_RJOININ | MRP_EVENT_RIN
| MRP_EVENT_RJOINMT | MRP_EVENT_RMT | MRP_EVENT_RLV | MRP_EVENT_RLA | MRP_EVENT_FLUSH
| MRP_EVENT_REDECLARE | MRP_EVENT_PERIODIC | MRP_EVENT_LEAVETIMER | MRP_EVENT_LEAVEALLTIMER
| MRP_EVENT_PERIODICTIMER | MRP_EVENT_PERIODIC_ENABLED | MRP_EVENT_PERIODIC_DISABLED
| MRP_EVENT_RLV_IMMEDIATE

datatype mrp_action =
  MRP_ACTION_NONE | MRP_ACTION_NEW | MRP_ACTION_JOIN | MRP_ACTION_LV | MRP_ACTION_SN
| MRP_ACTION_SJ | MRP_ACTION_SJ_opt | MRP_ACTION_SL | MRP_ACTION_S | MRP_ACTION_S_opt | MRP_ACTION_SLA
| MRP_ACTION_PERIODIC | MRP_ACTION_LEAVETIMER | MRP_ACTION_LEAVEALLTIMER | MRP_ACTION_PERIODICTIMER

text \<open>
  \<open>MRP_ACTION_SJ_opt\<close> and \<open>MRP_ACTION_S_opt\<close> are the enumerators \<open>MRP_ACTION_SJ_\<close> and \<open>MRP_ACTION_S_\<close>:
  the optional transmissions of Table 10-3.

  Attribute events, as the numbers that travel in the packets.\<close>

abbreviation MRP_ATTR_EVT_NEW :: nat where "MRP_ATTR_EVT_NEW \<equiv> 0"
abbreviation MRP_ATTR_EVT_JOININ :: nat where "MRP_ATTR_EVT_JOININ \<equiv> 1"
abbreviation MRP_ATTR_EVT_IN :: nat where "MRP_ATTR_EVT_IN \<equiv> 2"
abbreviation MRP_ATTR_EVT_JOINMT :: nat where "MRP_ATTR_EVT_JOINMT \<equiv> 3"
abbreviation MRP_ATTR_EVT_MT :: nat where "MRP_ATTR_EVT_MT \<equiv> 4"
abbreviation MRP_ATTR_EVT_LV :: nat where "MRP_ATTR_EVT_LV \<equiv> 5"
abbreviation MRP_ATTR_EVT_LVA :: nat where "MRP_ATTR_EVT_LVA \<equiv> 6"
abbreviation MRP_ATTR_EVT_MAX :: nat where "MRP_ATTR_EVT_MAX \<equiv> 7"

definition mrp_attribute2rxevent :: "nat \<Rightarrow> mrp_event" where
  "mrp_attribute2rxevent n =
     [MRP_EVENT_RNEW, MRP_EVENT_RJOININ, MRP_EVENT_RIN, MRP_EVENT_RJOINMT, MRP_EVENT_RMT,
      MRP_EVENT_RLV, MRP_EVENT_RLA] ! n"

text \<open>Participant types: bit 0 is full participant, bit 1 point to point.\<close>

abbreviation MRP_PARTICIPANT_TYPE_FULL :: nat where "MRP_PARTICIPANT_TYPE_FULL \<equiv> 0"
abbreviation MRP_PARTICIPANT_TYPE_POINT_TO_POINT :: nat where
  "MRP_PARTICIPANT_TYPE_POINT_TO_POINT \<equiv> 1"

subsection \<open>Applicant\<close>

text \<open>The requests of the application.\<close>

definition applicant_request_event :: "mrp_event \<Rightarrow> mrp_state \<Rightarrow> mrp_state" where
  "applicant_request_event event state =
     (case event of
        MRP_EVENT_BEGIN \<Rightarrow> MRP_STATE_VO
      | MRP_EVENT_NEW \<Rightarrow>
          (case state of
             MRP_STATE_VN \<Rightarrow> state
           | MRP_STATE_AN \<Rightarrow> state
           | _ \<Rightarrow> MRP_STATE_VN)
      | MRP_EVENT_JOIN \<Rightarrow>
          (case state of
             MRP_STATE_VO \<Rightarrow> MRP_STATE_VP
           | MRP_STATE_LO \<Rightarrow> MRP_STATE_VP
           | MRP_STATE_LA \<Rightarrow> MRP_STATE_AA
           | MRP_STATE_AO \<Rightarrow> MRP_STATE_AP
           | MRP_STATE_QO \<Rightarrow> MRP_STATE_QP
           | _ \<Rightarrow> state)
      | MRP_EVENT_LV \<Rightarrow>
          (case state of
             MRP_STATE_VP \<Rightarrow> MRP_STATE_VO
           | MRP_STATE_VN \<Rightarrow> MRP_STATE_LA
           | MRP_STATE_AN \<Rightarrow> MRP_STATE_LA
           | MRP_STATE_AA \<Rightarrow> MRP_STATE_LA
           | MRP_STATE_QA \<Rightarrow> MRP_STATE_LA
           | MRP_STATE_AP \<Rightarrow> MRP_STATE_AO
           | MRP_STATE_QP \<Rightarrow> MRP_STATE_QO
           | _ \<Rightarrow> state)
      | _ \<Rightarrow> state)"

text \<open>The events received from the network, and the periodic event.\<close>

definition applicant_rx_event :: "u32 \<Rightarrow> mrp_event \<Rightarrow> mrp_state \<Rightarrow> mrp_state" where
  "applicant_rx_event participant_type event state =
     (if event = MRP_EVENT_RJOININ then
        (case state of
           MRP_STATE_VO \<Rightarrow>
             if \<not> bit_test participant_type MRP_PARTICIPANT_TYPE_POINT_TO_POINT
             then MRP_STATE_AO else state
         | MRP_STATE_VP \<Rightarrow>
             if \<not> bit_test participant_type MRP_PARTICIPANT_TYPE_POINT_TO_POINT
             then MRP_STATE_AP else state
         | MRP_STATE_AA \<Rightarrow> MRP_STATE_QA
         | MRP_STATE_AO \<Rightarrow> MRP_STATE_QO
         | MRP_STATE_AP \<Rightarrow> MRP_STATE_QP
         | _ \<Rightarrow> state)
      else if event = MRP_EVENT_RIN then
        (case state of MRP_STATE_AA \<Rightarrow> MRP_STATE_QA | _ \<Rightarrow> state)
      else if event = MRP_EVENT_RJOINMT \<or> event = MRP_EVENT_RMT then
        (case state of
           MRP_STATE_QA \<Rightarrow> MRP_STATE_AA
         | MRP_STATE_QO \<Rightarrow> MRP_STATE_AO
         | MRP_STATE_QP \<Rightarrow> MRP_STATE_AP
         | MRP_STATE_LO \<Rightarrow> MRP_STATE_VO
         | _ \<Rightarrow> state)
      else if event = MRP_EVENT_RLV \<or> event = MRP_EVENT_RLA \<or> event = MRP_EVENT_REDECLARE then
        (case state of
           MRP_STATE_VO \<Rightarrow> MRP_STATE_LO
         | MRP_STATE_AN \<Rightarrow> MRP_STATE_VN
         | MRP_STATE_AA \<Rightarrow> MRP_STATE_VP
         | MRP_STATE_QA \<Rightarrow> MRP_STATE_VP
         | MRP_STATE_AP \<Rightarrow> MRP_STATE_VP
         | MRP_STATE_QP \<Rightarrow> MRP_STATE_VP
         | MRP_STATE_AO \<Rightarrow> MRP_STATE_LO
         | MRP_STATE_QO \<Rightarrow> MRP_STATE_LO
         | _ \<Rightarrow> state)
      else if event = MRP_EVENT_PERIODIC then
        (case state of MRP_STATE_QA \<Rightarrow> MRP_STATE_AA | MRP_STATE_QP \<Rightarrow> MRP_STATE_AP | _ \<Rightarrow> state)
      else state)"

text \<open>The transmit opportunities; \<open>registrar\<close> is the state of the registrar of the attribute.\<close>

definition applicant_tx_event :: "mrp_state \<Rightarrow> mrp_state \<Rightarrow> mrp_state \<times> mrp_action" where
  "applicant_tx_event registrar state =
     (case state of
        MRP_STATE_VO \<Rightarrow> (state, MRP_ACTION_S_opt)
      | MRP_STATE_VP \<Rightarrow> (MRP_STATE_AA, MRP_ACTION_SJ)
      | MRP_STATE_VN \<Rightarrow> (MRP_STATE_AN, MRP_ACTION_SN)
      | MRP_STATE_AN \<Rightarrow>
          (if registrar = MRP_STATE_IN then MRP_STATE_QA else MRP_STATE_AA, MRP_ACTION_SN)
      | MRP_STATE_AP \<Rightarrow> (MRP_STATE_QA, MRP_ACTION_SJ)
      | MRP_STATE_AA \<Rightarrow> (MRP_STATE_QA, MRP_ACTION_SJ)
      | MRP_STATE_QA \<Rightarrow> (state, MRP_ACTION_SJ_opt)
      | MRP_STATE_LA \<Rightarrow> (MRP_STATE_VO, MRP_ACTION_SL)
      | MRP_STATE_AO \<Rightarrow> (state, MRP_ACTION_S_opt)
      | MRP_STATE_QO \<Rightarrow> (state, MRP_ACTION_S_opt)
      | MRP_STATE_QP \<Rightarrow> (state, MRP_ACTION_S_opt)
      | MRP_STATE_LO \<Rightarrow> (MRP_STATE_VO, MRP_ACTION_S)
      | _ \<Rightarrow> (state, MRP_ACTION_NONE))"

definition applicant_txla_event :: "mrp_state \<Rightarrow> mrp_state \<times> mrp_action" where
  "applicant_txla_event state =
     (case state of
        MRP_STATE_VO \<Rightarrow> (MRP_STATE_LO, MRP_ACTION_S_opt)
      | MRP_STATE_VP \<Rightarrow> (MRP_STATE_AA, MRP_ACTION_S)
      | MRP_STATE_VN \<Rightarrow> (MRP_STATE_AN, MRP_ACTION_SN)
      | MRP_STATE_AN \<Rightarrow> (MRP_STATE_QA, MRP_ACTION_SN)
      | MRP_STATE_AA \<Rightarrow> (MRP_STATE_QA, MRP_ACTION_SJ)
      | MRP_STATE_AP \<Rightarrow> (MRP_STATE_QA, MRP_ACTION_SJ)
      | MRP_STATE_QP \<Rightarrow> (MRP_STATE_QA, MRP_ACTION_SJ)
      | MRP_STATE_QA \<Rightarrow> (state, MRP_ACTION_SJ)
      | MRP_STATE_LA \<Rightarrow> (MRP_STATE_LO, MRP_ACTION_S_opt)
      | MRP_STATE_AO \<Rightarrow> (MRP_STATE_LO, MRP_ACTION_S_opt)
      | MRP_STATE_QO \<Rightarrow> (MRP_STATE_LO, MRP_ACTION_S_opt)
      | MRP_STATE_LO \<Rightarrow> (MRP_STATE_VO, MRP_ACTION_S_opt)
      | _ \<Rightarrow> (state, MRP_ACTION_NONE))"

definition applicant_txlaf_event :: "mrp_state \<Rightarrow> mrp_state" where
  "applicant_txlaf_event state =
     (case state of
        MRP_STATE_VO \<Rightarrow> MRP_STATE_LO
      | MRP_STATE_AN \<Rightarrow> MRP_STATE_VN
      | MRP_STATE_AA \<Rightarrow> MRP_STATE_VP
      | MRP_STATE_QA \<Rightarrow> MRP_STATE_VP
      | MRP_STATE_AP \<Rightarrow> MRP_STATE_VP
      | MRP_STATE_QP \<Rightarrow> MRP_STATE_VP
      | MRP_STATE_LA \<Rightarrow> MRP_STATE_LO
      | MRP_STATE_AO \<Rightarrow> MRP_STATE_LO
      | MRP_STATE_QO \<Rightarrow> MRP_STATE_LO
      | _ \<Rightarrow> state)"

text \<open>
  The whole switch, followed by Note 1 of Table 10-3: an applicant-only participant has no state LO.
\<close>

definition applicant_switch ::
  "u32 \<Rightarrow> mrp_state \<Rightarrow> mrp_event \<Rightarrow> mrp_state \<Rightarrow> mrp_state \<times> mrp_action" where
  "applicant_switch participant_type registrar event state =
     (if event \<in> {MRP_EVENT_BEGIN, MRP_EVENT_NEW, MRP_EVENT_JOIN, MRP_EVENT_LV}
      then (applicant_request_event event state, MRP_ACTION_NONE)
      else if event = MRP_EVENT_TX then applicant_tx_event registrar state
      else if event = MRP_EVENT_TXLA then applicant_txla_event state
      else if event = MRP_EVENT_TXLAF then (applicant_txlaf_event state, MRP_ACTION_NONE)
      else (applicant_rx_event participant_type event state, MRP_ACTION_NONE))"

definition applicant_next ::
  "u32 \<Rightarrow> mrp_state \<Rightarrow> mrp_event \<Rightarrow> mrp_state \<Rightarrow> mrp_state \<times> mrp_action" where
  "applicant_next participant_type registrar event state0 =
     (case applicant_switch participant_type registrar event state0 of
        (state, action) \<Rightarrow>
          (if \<not> bit_test participant_type MRP_PARTICIPANT_TYPE_FULL \<and> state = MRP_STATE_LO
           then MRP_STATE_VO else state, action))"

text \<open>Note 6 of Table 10-3: the states that need a transmit opportunity when they are entered.\<close>

definition needs_tx :: "mrp_state \<Rightarrow> bool" where
  "needs_tx state \<longleftrightarrow>
     state = MRP_STATE_VN \<or> state = MRP_STATE_AN \<or> state = MRP_STATE_AA \<or> state = MRP_STATE_LA \<or>
     state = MRP_STATE_VP \<or> state = MRP_STATE_AP \<or> state = MRP_STATE_LO"

text \<open>\<open>mrp_action2event\<close>: the attribute event that the applicant's action sends.\<close>

definition mrp_action2event :: "u32 \<Rightarrow> mrp_state \<Rightarrow> mrp_action \<Rightarrow> nat option" where
  "mrp_action2event participant_type registrar action =
     (case action of
        MRP_ACTION_SN \<Rightarrow> Some MRP_ATTR_EVT_NEW
      | MRP_ACTION_SJ \<Rightarrow>
          Some (if bit_test participant_type MRP_PARTICIPANT_TYPE_FULL \<and> registrar = MRP_STATE_IN
                then MRP_ATTR_EVT_JOININ else MRP_ATTR_EVT_JOINMT)
      | MRP_ACTION_SL \<Rightarrow> Some MRP_ATTR_EVT_LV
      | MRP_ACTION_S \<Rightarrow>
          Some (if bit_test participant_type MRP_PARTICIPANT_TYPE_FULL \<and> registrar = MRP_STATE_IN
                then MRP_ATTR_EVT_IN else MRP_ATTR_EVT_MT)
      | _ \<Rightarrow> None)"

subsection \<open>Registrar\<close>

record mrp_applicant =
  ap_state :: mrp_state
  ap_action :: mrp_action

record mrp_registrar =
  reg_state :: mrp_state
  reg_action :: mrp_action
  reg_leave :: soft_timer

text \<open>The branch of the leave timer, also taken by \<open>goto begin\<close> with \<open>immediate\<close> set.\<close>

definition registrar_leavetimer :: "bool \<Rightarrow> mrp_state \<Rightarrow> mrp_state \<times> mrp_action" where
  "registrar_leavetimer immediate state =
     (if state = MRP_STATE_LV
      then (MRP_STATE_MT, if \<not> immediate then MRP_ACTION_LV else MRP_ACTION_NONE)
      else if state = MRP_STATE_MT then (MRP_STATE_MT, MRP_ACTION_NONE)
      else (state, MRP_ACTION_NONE))"

text \<open>The events that time a registration out, shared by the fall-through of RLV.\<close>

definition registrar_leaveall :: "u32 \<Rightarrow> mrp_state \<Rightarrow> soft_timer \<Rightarrow> mrp_state \<times> soft_timer" where
  "registrar_leaveall leave_timeout state timer =
     (if state = MRP_STATE_IN then (MRP_STATE_LV, tm_start timer leave_timeout) else (state, timer))"

definition registrar_next :: "u32 \<Rightarrow> u32 \<Rightarrow> mrp_event \<Rightarrow> mrp_registrar \<Rightarrow> mrp_registrar" where
  "registrar_next participant_type leave_timeout event reg =
     (let state = reg_state reg; timer = reg_leave reg in
      if \<not> bit_test participant_type MRP_PARTICIPANT_TYPE_FULL
      then reg\<lparr>reg_action := MRP_ACTION_NONE\<rparr>
      else case event of
        MRP_EVENT_BEGIN \<Rightarrow> reg\<lparr>reg_state := MRP_STATE_MT, reg_action := MRP_ACTION_NONE\<rparr>
      | MRP_EVENT_RNEW \<Rightarrow>
          reg\<lparr>reg_state := MRP_STATE_IN, reg_action := MRP_ACTION_NEW,
              reg_leave := (if state = MRP_STATE_LV then tm_stop timer else timer)\<rparr>
      | MRP_EVENT_RJOININ \<Rightarrow>
          reg\<lparr>reg_state := MRP_STATE_IN,
              reg_action := (if state = MRP_STATE_MT then MRP_ACTION_JOIN else MRP_ACTION_NONE),
              reg_leave := (if state = MRP_STATE_LV then tm_stop timer else timer)\<rparr>
      | MRP_EVENT_RJOINMT \<Rightarrow>
          reg\<lparr>reg_state := MRP_STATE_IN,
              reg_action := (if state = MRP_STATE_MT then MRP_ACTION_JOIN else MRP_ACTION_NONE),
              reg_leave := (if state = MRP_STATE_LV then tm_stop timer else timer)\<rparr>
      | MRP_EVENT_RLV \<Rightarrow>
          (if state = MRP_STATE_IN
           then reg\<lparr>reg_state := MRP_STATE_MT, reg_action := MRP_ACTION_LV\<rparr>
           else case registrar_leaveall leave_timeout state timer of (state', timer') \<Rightarrow>
             reg\<lparr>reg_state := state', reg_action := MRP_ACTION_NONE, reg_leave := timer'\<rparr>)
      | MRP_EVENT_RLA \<Rightarrow>
          (case registrar_leaveall leave_timeout state timer of (state', timer') \<Rightarrow>
             reg\<lparr>reg_state := state', reg_action := MRP_ACTION_NONE, reg_leave := timer'\<rparr>)
      | MRP_EVENT_TXLA \<Rightarrow>
          (case registrar_leaveall leave_timeout state timer of (state', timer') \<Rightarrow>
             reg\<lparr>reg_state := state', reg_action := MRP_ACTION_NONE, reg_leave := timer'\<rparr>)
      | MRP_EVENT_REDECLARE \<Rightarrow>
          (case registrar_leaveall leave_timeout state timer of (state', timer') \<Rightarrow>
             reg\<lparr>reg_state := state', reg_action := MRP_ACTION_NONE, reg_leave := timer'\<rparr>)
      | MRP_EVENT_RLV_IMMEDIATE \<Rightarrow>
          (if state = MRP_STATE_IN \<or> state = MRP_STATE_LV
           then case registrar_leavetimer True MRP_STATE_LV of (state', action) \<Rightarrow>
             reg\<lparr>reg_state := state', reg_action := action\<rparr>
           else reg\<lparr>reg_action := MRP_ACTION_NONE\<rparr>)
      | MRP_EVENT_FLUSH \<Rightarrow>
          reg\<lparr>reg_state := MRP_STATE_MT,
              reg_action := (if state = MRP_STATE_LV then MRP_ACTION_LV else MRP_ACTION_NONE)\<rparr>
      | MRP_EVENT_LEAVETIMER \<Rightarrow>
          (case registrar_leavetimer False state of (state', action) \<Rightarrow>
             reg\<lparr>reg_state := state', reg_action := action\<rparr>)
      | _ \<Rightarrow> reg\<lparr>reg_action := MRP_ACTION_NONE\<rparr>)"

subsection \<open>What the applicant table guarantees\<close>

definition mrp_declaring :: "mrp_state \<Rightarrow> bool" where
  "mrp_declaring state \<longleftrightarrow>
     state \<in> {MRP_STATE_VP, MRP_STATE_VN, MRP_STATE_AN, MRP_STATE_AA, MRP_STATE_QA, MRP_STATE_AP, MRP_STATE_QP}"

definition applicant_state :: "mrp_state \<Rightarrow> bool" where
  "applicant_state state \<longleftrightarrow> state \<notin> {MRP_STATE_IN, MRP_STATE_LV, MRP_STATE_MT}"

definition request_effect :: "mrp_event \<Rightarrow> bool \<Rightarrow> bool" where
  "request_effect event wanted =
     (if event \<in> {MRP_EVENT_NEW, MRP_EVENT_JOIN} then True
      else if event \<in> {MRP_EVENT_LV, MRP_EVENT_BEGIN} then False else wanted)"

lemmas applicant_defs = applicant_next_def applicant_switch_def applicant_request_event_def
  applicant_rx_event_def applicant_tx_event_def applicant_txla_event_def applicant_txlaf_event_def

lemma applicant_next_declaring:
  "applicant_state st \<Longrightarrow>
     mrp_declaring (fst (applicant_next pt reg ev st)) = request_effect ev (mrp_declaring st)"
  by (cases ev; cases st; simp add: applicant_defs mrp_declaring_def request_effect_def applicant_state_def)

lemma applicant_next_state: "applicant_state st \<Longrightarrow> applicant_state (fst (applicant_next pt reg ev st))"
  by (cases ev; cases st; simp add: applicant_defs applicant_state_def)

lemma applicant_next_action:
  "applicant_state st \<Longrightarrow>
     (snd (applicant_next pt reg ev st) \<in> {MRP_ACTION_SN, MRP_ACTION_SJ} \<longrightarrow> mrp_declaring st) \<and>
     (snd (applicant_next pt reg ev st) = MRP_ACTION_SL \<longrightarrow> st = MRP_STATE_LA)"
  by (cases ev; cases st; simp add: applicant_defs mrp_declaring_def applicant_state_def)

text \<open>The applicant over a history of (registrar state, event) pairs, with the messages it sent.\<close>

fun applicant_run :: "u32 \<Rightarrow> (mrp_state \<times> mrp_event) list \<Rightarrow> mrp_state \<Rightarrow> mrp_state \<times> nat list" where
  "applicant_run pt [] st = (st, [])"
| "applicant_run pt ((reg, ev) # evs) st =
     (case applicant_next pt reg ev st of (st1, act) \<Rightarrow>
        case applicant_run pt evs st1 of (st2, msgs) \<Rightarrow>
          (st2, case mrp_action2event pt reg act of None \<Rightarrow> msgs | Some m \<Rightarrow> m # msgs))"

text \<open>
  C17: Over any history of events, whatever is received, timed or transmitted in between, the
  applicant is in a declaring state exactly when the application's last request was a join (or new)
  and not a leave, and it never enters a registrar state. In particular no peer can make it withdraw
  or make a declaration.
\<close>

theorem applicant_declares_last_request:
  assumes "applicant_state st"
  shows "applicant_state (fst (applicant_run pt evs st)) \<and>
    mrp_declaring (fst (applicant_run pt evs st)) =
      foldl (\<lambda>wanted (reg, ev). request_effect ev wanted) (mrp_declaring st) evs"
  using assms
proof (induction evs arbitrary: st)
  case (Cons e evs)
  obtain reg ev where e: "e = (reg, ev)" by force
  obtain st1 act where n: "applicant_next pt reg ev st = (st1, act)" by force
  have "applicant_state st1" "mrp_declaring st1 = request_effect ev (mrp_declaring st)"
    using applicant_next_state [OF Cons.prems, of pt reg ev]
      applicant_next_declaring [OF Cons.prems, of pt reg ev] n by simp_all
  with Cons.IH [of st1] e n show ?case by (auto split: prod.splits)
qed simp

theorem applicant_declares_last_request_witness:
  "applicant_state (fst (applicant_run 1 [(MRP_STATE_MT, MRP_EVENT_JOIN), (MRP_STATE_MT, MRP_EVENT_TX),
        (MRP_STATE_LV, MRP_EVENT_RLA)] MRP_STATE_VO)) \<and>
    mrp_declaring (fst (applicant_run 1 [(MRP_STATE_MT, MRP_EVENT_JOIN), (MRP_STATE_MT, MRP_EVENT_TX),
        (MRP_STATE_LV, MRP_EVENT_RLA)] MRP_STATE_VO)) =
      foldl (\<lambda>wanted (reg, ev). request_effect ev wanted) (mrp_declaring MRP_STATE_VO)
        [(MRP_STATE_MT, MRP_EVENT_JOIN), (MRP_STATE_MT, MRP_EVENT_TX), (MRP_STATE_LV, MRP_EVENT_RLA)]"
  by (rule applicant_declares_last_request) (simp add: applicant_state_def)

text \<open>The transmit opportunities that a state still needs.\<close>

definition tx_rank :: "mrp_state \<Rightarrow> nat" where
  "tx_rank state =
     (case state of
        MRP_STATE_VN \<Rightarrow> 3 | MRP_STATE_AN \<Rightarrow> 2 | MRP_STATE_VP \<Rightarrow> 2
      | MRP_STATE_AA \<Rightarrow> 1 | MRP_STATE_AP \<Rightarrow> 1 | MRP_STATE_LA \<Rightarrow> 1 | MRP_STATE_LO \<Rightarrow> 1
      | _ \<Rightarrow> 0)"

lemma tx_rank_zero: "tx_rank st = 0 \<longleftrightarrow> \<not> needs_tx st"
  by (cases st) (simp_all add: tx_rank_def needs_tx_def)

lemma tx_rank_decreases:
  "needs_tx st \<Longrightarrow> tx_rank (fst (applicant_next pt reg MRP_EVENT_TX st)) < tx_rank st"
  by (cases st) (simp_all add: applicant_defs tx_rank_def needs_tx_def)

lemma quiet_stays:
  "\<not> needs_tx st \<Longrightarrow> fst (applicant_next pt reg MRP_EVENT_TX st) = st"
  by (cases st) (simp_all add: applicant_defs needs_tx_def)

lemma tx_message:
  "needs_tx st \<Longrightarrow> \<exists>m. mrp_action2event pt reg (snd (applicant_next pt reg MRP_EVENT_TX st)) = Some m \<and>
     (mrp_declaring st \<longrightarrow> m \<in> {MRP_ATTR_EVT_NEW, MRP_ATTR_EVT_JOININ, MRP_ATTR_EVT_JOINMT}) \<and>
     (st = MRP_STATE_LA \<longrightarrow> m = MRP_ATTR_EVT_LV)"
  by (cases st) (simp_all add: applicant_defs needs_tx_def mrp_action2event_def mrp_declaring_def)

lemma quiet_message:
  "applicant_state st \<Longrightarrow> \<not> needs_tx st \<Longrightarrow>
     mrp_action2event pt reg (snd (applicant_next pt reg MRP_EVENT_TX st)) = None"
  by (cases st) (simp_all add: applicant_defs needs_tx_def mrp_action2event_def applicant_state_def)

lemma applicant_run_quiet:
  "applicant_state st \<Longrightarrow> \<not> needs_tx st \<Longrightarrow> set (map snd evs) \<subseteq> {MRP_EVENT_TX} \<Longrightarrow>
     applicant_run pt evs st = (st, [])"
proof (induction evs)
  case (Cons e evs)
  obtain reg where e: "e = (reg, MRP_EVENT_TX)" using Cons.prems(3) by (cases e) auto
  obtain st1 act where n: "applicant_next pt reg MRP_EVENT_TX st = (st1, act)" by force
  with quiet_stays [OF Cons.prems(2), of pt reg] quiet_message [OF Cons.prems(1,2), of pt reg] e Cons
  show ?case by simp
qed simp

text \<open>
  C30: With no other event, transmit opportunities bring every applicant to rest: it sends a
  message at each opportunity it needs (three at most) and then nothing, every message of a declaring
  applicant is a New or a Join, one that is leaving sends its Leave and nothing else. A declaration
  that was just made (VP, VN) is announced at least twice in two opportunities, so that the loss of
  one packet is harmless.
\<close>

theorem applicant_quiescent:
  assumes "applicant_state st" and "set (map snd evs) \<subseteq> {MRP_EVENT_TX}"
  shows "length (snd (applicant_run pt evs st)) \<le> tx_rank st \<and> tx_rank st \<le> 3 \<and>
    (tx_rank st \<le> length evs \<longrightarrow> \<not> needs_tx (fst (applicant_run pt evs st))) \<and>
    (needs_tx st \<and> evs \<noteq> [] \<longrightarrow> snd (applicant_run pt evs st) \<noteq> []) \<and>
    (st \<in> {MRP_STATE_VP, MRP_STATE_VN} \<and> 2 \<le> length evs \<longrightarrow>
       2 \<le> length (snd (applicant_run pt evs st))) \<and>
    (mrp_declaring st \<longrightarrow>
       set (snd (applicant_run pt evs st)) \<subseteq> {MRP_ATTR_EVT_NEW, MRP_ATTR_EVT_JOININ, MRP_ATTR_EVT_JOINMT}) \<and>
    (st = MRP_STATE_LA \<and> evs \<noteq> [] \<longrightarrow> snd (applicant_run pt evs st) = [MRP_ATTR_EVT_LV])"
  using assms
proof (induction evs arbitrary: st)
  case Nil
  then show ?case by (cases st) (simp_all add: tx_rank_def needs_tx_def)
next
  case (Cons e evs)
  obtain reg where e: "e = (reg, MRP_EVENT_TX)" using Cons.prems(2) by (cases e) auto
  obtain st1 act where n: "applicant_next pt reg MRP_EVENT_TX st = (st1, act)" by force
  obtain st2 msgs where r: "applicant_run pt evs st1 = (st2, msgs)" by force
  have st1: "applicant_state st1" using applicant_next_state [OF Cons.prems(1)] n by (metis fst_conv)
  have evs: "set (map snd evs) \<subseteq> {MRP_EVENT_TX}" using Cons.prems(2) by simp
  have rank3: "tx_rank st \<le> 3" by (cases st) (simp_all add: tx_rank_def)
  show ?case
  proof (cases "needs_tx st")
    case False
    then show ?thesis
      using applicant_run_quiet [OF Cons.prems(1) False Cons.prems(2), of pt] rank3
      by (auto simp: tx_rank_zero) (simp_all add: needs_tx_def)
  next
    case True
    obtain m where m: "mrp_action2event pt reg act = Some m"
      "mrp_declaring st \<longrightarrow> m \<in> {MRP_ATTR_EVT_NEW, MRP_ATTR_EVT_JOININ, MRP_ATTR_EVT_JOINMT}"
      "st = MRP_STATE_LA \<longrightarrow> m = MRP_ATTR_EVT_LV"
      using tx_message [OF True, of pt reg] n by auto
    have less: "tx_rank st1 < tx_rank st" using tx_rank_decreases [OF True, of pt reg] n by simp
    have dec: "mrp_declaring st1 = mrp_declaring st"
      using applicant_next_declaring [OF Cons.prems(1), of pt reg MRP_EVENT_TX] n
      by (simp add: request_effect_def)
    have la: "msgs = []" if "st = MRP_STATE_LA"
    proof -
      have "st1 = MRP_STATE_VO" using n that by (auto simp: applicant_defs)
      then show ?thesis
        using applicant_run_quiet [OF st1 _ evs, of pt] r by (simp add: needs_tx_def)
    qed
    have run: "applicant_run pt (e # evs) st = (st2, m # msgs)" using e n r m(1) by simp
    from Cons.IH [OF st1 evs] r have ih: "length msgs \<le> tx_rank st1"
      "tx_rank st1 \<le> length evs \<longrightarrow> \<not> needs_tx st2"
      "needs_tx st1 \<and> evs \<noteq> [] \<longrightarrow> msgs \<noteq> []"
      "mrp_declaring st1 \<longrightarrow> set msgs \<subseteq> {MRP_ATTR_EVT_NEW, MRP_ATTR_EVT_JOININ, MRP_ATTR_EVT_JOINMT}"
      by simp_all
    have "needs_tx st1" if "st \<in> {MRP_STATE_VP, MRP_STATE_VN}"
      using n that by (auto simp: applicant_defs needs_tx_def)
    with ih(3) have two: "2 \<le> length (m # msgs)"
      if "st \<in> {MRP_STATE_VP, MRP_STATE_VN}" "2 \<le> length (e # evs)"
      using that by (cases msgs) auto
    show ?thesis
      unfolding run using ih m less dec la rank3 two by auto
  qed
qed

theorem applicant_quiescent_witness:
  "length (snd (applicant_run 3 (replicate 4 (MRP_STATE_MT, MRP_EVENT_TX)) MRP_STATE_VN)) \<le> 3 \<and>
   \<not> needs_tx (fst (applicant_run 3 (replicate 4 (MRP_STATE_MT, MRP_EVENT_TX)) MRP_STATE_VN)) \<and>
   2 \<le> length (snd (applicant_run 3 (replicate 4 (MRP_STATE_MT, MRP_EVENT_TX)) MRP_STATE_VN)) \<and>
   set (snd (applicant_run 3 (replicate 4 (MRP_STATE_MT, MRP_EVENT_TX)) MRP_STATE_VN))
     \<subseteq> {MRP_ATTR_EVT_NEW, MRP_ATTR_EVT_JOININ, MRP_ATTR_EVT_JOINMT}"
proof -
  have "applicant_state MRP_STATE_VN" "tx_rank MRP_STATE_VN = 3" "mrp_declaring MRP_STATE_VN"
    "set (map snd (replicate 4 (MRP_STATE_MT, MRP_EVENT_TX))) \<subseteq> {MRP_EVENT_TX}"
    by (simp_all add: applicant_state_def tx_rank_def mrp_declaring_def)
  with applicant_quiescent [of MRP_STATE_VN "replicate 4 (MRP_STATE_MT, MRP_EVENT_TX)" 3] show ?thesis
    by (simp del: applicant_run.simps replicate.simps)
qed

subsection \<open>What the registrar table guarantees\<close>

definition registrar_state :: "mrp_state \<Rightarrow> bool" where
  "registrar_state state \<longleftrightarrow> state \<in> {MRP_STATE_IN, MRP_STATE_LV, MRP_STATE_MT}"

definition registered :: "mrp_registrar \<Rightarrow> bool" where
  "registered reg \<longleftrightarrow> reg_state reg = MRP_STATE_IN \<or> reg_state reg = MRP_STATE_LV"

text \<open>What the client knows: a join indication registers, a leave indication deregisters.\<close>

definition indication_effect :: "mrp_action \<Rightarrow> bool \<Rightarrow> bool" where
  "indication_effect action known =
     (if action \<in> {MRP_ACTION_NEW, MRP_ACTION_JOIN} then True
      else if action = MRP_ACTION_LV then False else known)"

definition registrar_inv :: "mrp_registrar \<Rightarrow> bool" where
  "registrar_inv reg \<longleftrightarrow> registrar_state (reg_state reg) \<and> tm_created (reg_leave reg) \<and>
     (reg_state reg = MRP_STATE_LV \<longrightarrow> tm_started (reg_leave reg))"

lemmas registrar_defs = registrar_next_def registrar_leavetimer_def registrar_leaveall_def Let_def

lemma registrar_next_inv:
  "registrar_inv reg \<Longrightarrow> leave_timeout \<noteq> 0 \<Longrightarrow> registrar_inv (registrar_next pt leave_timeout ev reg)"
  by (cases ev)
    (auto simp: registrar_defs registrar_inv_def registrar_state_def tm_stop_def tm_start_def)

lemma registrar_next_known:
  "registrar_inv reg \<Longrightarrow> bit_test pt MRP_PARTICIPANT_TYPE_FULL \<Longrightarrow>
   ev \<notin> {MRP_EVENT_BEGIN, MRP_EVENT_FLUSH, MRP_EVENT_RLV_IMMEDIATE} \<Longrightarrow>
     indication_effect (reg_action (registrar_next pt leave_timeout ev reg)) (registered reg)
       = registered (registrar_next pt leave_timeout ev reg)"
  by (cases ev)
    (auto simp: registrar_defs registrar_inv_def registrar_state_def registered_def indication_effect_def)

fun registrar_run :: "u32 \<Rightarrow> u32 \<Rightarrow> mrp_event list \<Rightarrow> mrp_registrar \<Rightarrow> mrp_registrar \<times> mrp_action list" where
  "registrar_run pt timeout [] reg = (reg, [])"
| "registrar_run pt timeout (ev # evs) reg =
     (let reg1 = registrar_next pt timeout ev reg in
      case registrar_run pt timeout evs reg1 of (reg2, acts) \<Rightarrow> (reg2, reg_action reg1 # acts))"



end
