(* ===== verification/MRP_Tx.thy ===== *)
theory MRP_Tx
  imports MRP_SM
begin

section \<open>MRP packet construction (\<open>src/srp/mrp.c\<close>)\<close>

text \<open>
  The records of an MRP application and the functions that build its packets: message and vector
  headers, events, end marks, and \<open>mrp_transmit_action\<close>, which opens a packet when there is none,
  closes and sends it when it is full and starts over. Pointers into a packet are offsets from
  \<open>NET_DATA_START(desc)\<close>; \<open>d_oob\<close> records that a write went past the buffer. The loop \<open>goto new\<close>
  runs on fuel, and \<open>hung\<close> records that it did not end.
\<close>

subsection \<open>State\<close>

record net_tx_desc =
  d_buf :: "u8 list"
  d_len :: nat
  d_oob :: bool

definition desc_write :: "net_tx_desc \<Rightarrow> nat \<Rightarrow> u8 list \<Rightarrow> net_tx_desc" where
  "desc_write d off bs =
     (case buf_write (d_buf d) off bs of None \<Rightarrow> d\<lparr>d_oob := True\<rparr> | Some b \<Rightarrow> d\<lparr>d_buf := b\<rparr>)"

record mrp_msg =
  m_start :: "nat option"
  m_vector_start :: nat
  m_end :: nat
  m_end_max :: nat

record mrp_vector =
  v_start :: "nat option"
  v_event_start :: nat
  v_end :: nat
  v_end_max :: nat
  v_number_of_values :: u32
  v_leave_all_event :: u32

record mrp_attribute_mrpdu =
  pdu_desc :: "net_tx_desc option"
  pdu_msg :: mrp_msg
  pdu_vector :: mrp_vector

record mrp_attribute =
  at_type :: nat
  at_val :: "u8 list"
  at_applicant :: mrp_applicant
  at_registrar :: mrp_registrar

datatype mrp_timer_state = MRP_TIMER_PASSIVE | MRP_TIMER_ACTIVE

record mrp_leaveall =
  la_state :: mrp_timer_state
  la_action :: mrp_action
  la_timer :: soft_timer

record mrp_periodic =
  per_state :: mrp_timer_state
  per_action :: mrp_action
  per_timer :: soft_timer

text \<open>
  \<open>struct mrp_application\<close>. The attributes are objects of a heap (\<open>attrs\<close>, with \<open>next_attr\<close> the next
  fresh address); the two lists of each type hold their addresses. \<open>leave_timeout\<close> and \<open>port_mtu\<close> are
  read from the SRP port. What the environment answers is given by functions of the number of the
  call: \<open>tx_alloc\<close> (the buffer of \<open>net_tx_alloc\<close>), \<open>malloc_ok\<close>, \<open>malloc_state\<close> (what the
  state fields of a freshly allocated attribute hold), \<open>timer_ok\<close> and \<open>os_random\<close>. \<open>sent\<close> is
  what was given to \<open>net_tx\<close>.
\<close>

record mrp_application =
  app_type :: nat
  participant_type :: u32
  leaveall :: mrp_leaveall
  attributes :: "nat list list"
  attributes_ordered :: "nat list list"
  periodic :: mrp_periodic
  join_timer :: soft_timer
  attribute_length :: "nat \<Rightarrow> nat"
  attribute_value_length :: "nat \<Rightarrow> nat"
  vector_add_event ::
    "mrp_attribute \<Rightarrow> mrp_vector \<Rightarrow> net_tx_desc \<Rightarrow> nat \<Rightarrow> (mrp_vector \<times> net_tx_desc) option"
  dst_mac :: mac_addr
  ethertype :: u16
  min_attr_type :: nat
  max_attr_type :: nat
  num_rx_pkts :: u32
  proto_version :: u8
  has_attribute_list_length :: bool
  enabled :: bool
  mrpdu :: "mrp_attribute_mrpdu list"
  leave_timeout :: u32
  port_mtu :: nat
  attrs :: "nat \<rightharpoonup> mrp_attribute"
  next_attr :: nat
  tx_alloc :: "nat \<Rightarrow> u8 list option"
  n_tx_alloc :: nat
  malloc_ok :: "nat \<Rightarrow> bool"
  malloc_state :: "nat \<Rightarrow> mrp_state"
  n_malloc :: nat
  timer_ok :: "nat \<Rightarrow> bool"
  n_timer :: nat
  os_random :: "nat \<Rightarrow> int"
  n_random :: nat
  sent :: "net_tx_desc list"
  hung :: bool

abbreviation APP_MSRP :: nat where "APP_MSRP \<equiv> 0"
abbreviation APP_MVRP :: nat where "APP_MVRP \<equiv> 1"
abbreviation APP_MMRP :: nat where "APP_MMRP \<equiv> 2"
abbreviation MRP_MAX_ATTR_TYPE :: nat where "MRP_MAX_ATTR_TYPE \<equiv> 5"
abbreviation MSRP_ATTR_TYPE_DOMAIN :: nat where "MSRP_ATTR_TYPE_DOMAIN \<equiv> 4"
abbreviation DEFAULT_NET_DATA_SIZE :: nat where "DEFAULT_NET_DATA_SIZE \<equiv> 1600"

subsection \<open>Messages and vectors\<close>

definition mrp_hdr_len :: "bool \<Rightarrow> nat" where
  "mrp_hdr_len has_list_length = (if has_list_length then 4 else 2)"

definition mrp_msg_start ::
  "bool \<Rightarrow> net_tx_desc \<Rightarrow> nat \<Rightarrow> nat \<Rightarrow> nat \<Rightarrow> nat \<Rightarrow> bool \<times> mrp_msg \<times> net_tx_desc" where
  "mrp_msg_start has_list_length d buf buf_end attr_type attr_len =
     (let msg = \<lparr>m_start = Some buf, m_vector_start = buf, m_end = buf, m_end_max = buf_end - 2\<rparr>;
          n = mrp_hdr_len has_list_length
      in if buf + n > m_end_max msg then (False, msg, d)
         else (True, msg\<lparr>m_vector_start := buf + n, m_end := buf + n\<rparr>,
               desc_write d buf ([of_nat attr_type, of_nat attr_len] @
                 (if has_list_length then [0, 0] else []))))"

definition mrp_msg_end :: "bool \<Rightarrow> mrp_msg \<Rightarrow> net_tx_desc \<Rightarrow> nat \<times> mrp_msg \<times> net_tx_desc" where
  "mrp_msg_end has_list_length msg d =
     (let len = m_end msg - m_vector_start msg;
          d1 = (if has_list_length then desc_write d (the (m_start msg) + 2) (be16 (of_nat len)) else d);
          d2 = desc_write d1 (m_end msg) [0, 0];
          msg' = msg\<lparr>m_end := m_end msg + 2\<rparr>
      in (m_end msg' - the (m_start msg), msg', d2))"

definition mrp_vector_start ::
  "net_tx_desc \<Rightarrow> mrp_vector \<Rightarrow> nat \<Rightarrow> nat \<Rightarrow> nat \<Rightarrow> bool \<times> mrp_vector \<times> net_tx_desc" where
  "mrp_vector_start d v buf buf_end fv_len =
     (let v1 = v\<lparr>v_start := Some buf, v_end := buf, v_end_max := buf_end - 2\<rparr>
      in if buf + 2 + fv_len > v_end_max v1 then (False, v1, d)
         else (True, v1\<lparr>v_event_start := buf + 2 + fv_len, v_end := buf + 2 + fv_len,
                        v_number_of_values := 0, v_leave_all_event := 0\<rparr>,
               desc_write (desc_write d (buf + 2) (replicate fv_len 0)) buf [0, 0]))"

definition mrp_vector_end :: "mrp_vector \<Rightarrow> net_tx_desc \<Rightarrow> bool \<Rightarrow> nat \<times> mrp_vector \<times> net_tx_desc" where
  "mrp_vector_end v d final =
     (let d1 = (if final then desc_write d (v_end v) [0, 0] else d);
          e = (if final then v_end v + 2 else v_end v)
      in (e - the (v_start v), v\<lparr>v_start := None, v_event_start := 0, v_end := 0\<rparr>, d1))"

definition mrp_vector_header :: "u8 \<Rightarrow> u16 \<Rightarrow> u8 list" where
  "mrp_vector_header leave_event_all number_of_values =
     be16 (ucast leave_event_all * 8192 + number_of_values)"

definition mrp_get_vector_header :: "u8 \<Rightarrow> u8 \<Rightarrow> u32 \<times> u32" where
  "mrp_get_vector_header b0 b1 =
     (let h = from_be16 b0 b1 in (ucast (h div 8192), ucast (h mod 8192)))"

definition mrp_vector_first_value :: "mrp_vector \<Rightarrow> net_tx_desc \<Rightarrow> u8 list \<Rightarrow> net_tx_desc" where
  "mrp_vector_first_value v d fv =
     (let fv_start = the (v_start v) + 2 in desc_write d fv_start (take (v_event_start v - fv_start) fv))"

definition mrp_vector_leaveall_event :: "mrp_vector \<Rightarrow> net_tx_desc \<Rightarrow> u32 \<Rightarrow> mrp_vector \<times> net_tx_desc" where
  "mrp_vector_leaveall_event v d leave_all_event =
     (let v1 = v\<lparr>v_leave_all_event := leave_all_event\<rparr>
      in (v1, desc_write d (the (v_start v1))
                (mrp_vector_header (ucast (v_leave_all_event v1)) (ucast (v_number_of_values v1)))))"

definition mrp_three_packed_event :: "u32 \<Rightarrow> u32 \<Rightarrow> u32 \<Rightarrow> u8" where
  "mrp_three_packed_event event0 event1 event2 = ucast ((event0 * 6 + event1) * 6 + event2)"

definition mrp_four_packed_event :: "u32 \<Rightarrow> u32 \<Rightarrow> u32 \<Rightarrow> u32 \<Rightarrow> u8" where
  "mrp_four_packed_event event0 event1 event2 event3 =
     ucast (((event0 * 4 + event1) * 4 + event2) * 4 + event3)"

definition mrp_get_three_packed_event :: "u8 \<Rightarrow> u32 list" where
  "mrp_get_three_packed_event packed =
     (let e0 = packed div 36; p1 = packed - e0 * 36; e1 = p1 div 6; p2 = p1 - e1 * 6
      in [ucast e0, ucast e1, ucast p2])"

definition mrp_get_four_packed_event :: "u8 \<Rightarrow> u32 list" where
  "mrp_get_four_packed_event packed =
     (let e0 = packed div 64; p1 = packed - e0 * 64; e1 = p1 div 16; p2 = p1 - e1 * 16;
          e2 = p2 div 4; p3 = p2 - e2 * 4
      in [ucast e0, ucast e1, ucast e2, ucast p3])"

text \<open>\<open>None\<close>: the event does not fit (-1).\<close>

definition mrp_vector_add_event ::
  "mrp_vector \<Rightarrow> net_tx_desc \<Rightarrow> nat \<Rightarrow> (mrp_vector \<times> net_tx_desc) option" where
  "mrp_vector_add_event v d event =
     (let n = v_number_of_values v + 1; len = unat ((n + 2) div 3)
      in if v_event_start v + len > v_end_max v then None
         else let d1 = desc_write d (the (v_start v))
                         (mrp_vector_header (ucast (v_leave_all_event v)) (ucast n));
                  d2 = desc_write d1 (v_event_start v) [mrp_three_packed_event (of_nat event) 0 0]
              in Some (v\<lparr>v_number_of_values := n, v_end := v_event_start v + len\<rparr>, d2))"

definition mrp_vector_add_event_four ::
  "mrp_vector \<Rightarrow> net_tx_desc \<Rightarrow> nat \<Rightarrow> u32 \<Rightarrow> (mrp_vector \<times> net_tx_desc) option" where
  "mrp_vector_add_event_four v d event value =
     (let n = v_number_of_values v + 1; len = unat ((n + 2) div 3 + (n + 3) div 4)
      in if v_event_start v + len > v_end_max v then None
         else let d1 = desc_write d (the (v_start v))
                         (mrp_vector_header (ucast (v_leave_all_event v)) (ucast n));
                  d2 = desc_write d1 (v_event_start v) [mrp_three_packed_event (of_nat event) 0 0];
                  d3 = desc_write d2 (v_event_start v + 1) [mrp_four_packed_event value 0 0 0]
              in Some (v\<lparr>v_number_of_values := n, v_end := v_event_start v + len\<rparr>, d3))"

subsection \<open>Transmission\<close>

definition upd_pdu :: "mrp_application \<Rightarrow> nat \<Rightarrow> mrp_attribute_mrpdu \<Rightarrow> mrp_application" where
  "upd_pdu app t p = app\<lparr>mrpdu := (mrpdu app)[t := p]\<rparr>"

definition mrp_transmit_end :: "mrp_application \<Rightarrow> nat \<Rightarrow> mrp_application" where
  "mrp_transmit_end app t =
     (let p = mrpdu app ! t; msg = pdu_msg p; v = pdu_vector p
      in case pdu_desc p of
           None \<Rightarrow> app
         | Some d \<Rightarrow>
             let (vlen, v1, d1) = (if v_start v \<noteq> None then mrp_vector_end v d True else (0, v, d));
                 msg1 = msg\<lparr>m_end := m_end msg + vlen\<rparr>;
                 (len, msg2, d2) = mrp_msg_end (has_attribute_list_length app) msg1 d1;
                 d3 = d2\<lparr>d_len := d_len d2 + len\<rparr>
             in upd_pdu (app\<lparr>sent := sent app @ [d3]\<rparr>) t
                  \<lparr>pdu_desc = None, pdu_msg = msg2, pdu_vector = v1\<rparr>)"

definition mrp_msg_error :: "mrp_application \<Rightarrow> nat \<Rightarrow> mrp_application" where
  "mrp_msg_error app t =
     (let p = mrpdu app ! t; msg = pdu_msg p; v = pdu_vector p
      in if m_start msg = None then upd_pdu app t (p\<lparr>pdu_desc := None\<rparr>)
         else if m_start msg = Some (m_end msg) then upd_pdu app t (p\<lparr>pdu_desc := None\<rparr>)
         else if v_start v = None then mrp_transmit_end app t
         else if v_start v = Some (v_end v) then mrp_transmit_end app t
         else mrp_transmit_end
                (if v_number_of_values v = 0
                 then upd_pdu app t (p\<lparr>pdu_msg := msg\<lparr>m_end := the (v_start v)\<rparr>\<rparr>) else app) t)"

text \<open>
  \<open>net_add_eth_header\<close> (\<open>src/common/net.h\<close>): the source address is left to the network layer.
\<close>

definition net_add_eth_header :: "net_tx_desc \<Rightarrow> mac_addr \<Rightarrow> u16 \<Rightarrow> nat \<times> net_tx_desc" where
  "net_add_eth_header d mac ethtype =
     (14, desc_write (desc_write d 12 (be16 ethtype)) 0 mac)"

text \<open>
  One pass of \<open>mrp_transmit_action\<close> from the label \<open>new\<close>: it returns, or goes to \<open>new\<close> again.
  \<open>transmit_open\<close> is the part that makes sure a packet is open.
\<close>

datatype tx_outcome = TxReturn mrp_application | TxNew mrp_application

definition transmit_open :: "mrp_application \<Rightarrow> nat \<Rightarrow> bool \<times> mrp_application" where
  "transmit_open app t =
     (let p = mrpdu app ! t
      in case pdu_desc p of
           Some _ \<Rightarrow> (True, app)
         | None \<Rightarrow>
             case tx_alloc app (n_tx_alloc app) of
               None \<Rightarrow> (False, app\<lparr>n_tx_alloc := n_tx_alloc app + 1\<rparr>)
             | Some b \<Rightarrow>
                 let app0 = app\<lparr>n_tx_alloc := n_tx_alloc app + 1\<rparr>;
                     (hlen, d1) = net_add_eth_header \<lparr>d_buf = b, d_len = 0, d_oob = False\<rparr>
                                    (dst_mac app) (ethertype app);
                     d2 = desc_write (d1\<lparr>d_len := d_len d1 + hlen\<rparr>) (d_len d1 + hlen) [proto_version app];
                     d3 = d2\<lparr>d_len := d_len d2 + 1\<rparr>;
                     (ok, msg, d4) = mrp_msg_start (has_attribute_list_length app) d3 (d_len d3)
                                       (port_mtu app) t (attribute_length app t);
                     app1 = upd_pdu app0 t (p\<lparr>pdu_desc := Some d4, pdu_msg := msg\<rparr>)
                 in if ok then (True, app1) else (False, mrp_msg_error app1 t))"

definition transmit_vector :: "mrp_application \<Rightarrow> nat \<Rightarrow> bool \<times> mrp_application" where
  "transmit_vector app t =
     (let p = mrpdu app ! t;
          (ok, v, d) = mrp_vector_start (the (pdu_desc p)) (pdu_vector p) (m_end (pdu_msg p))
                         (m_end_max (pdu_msg p)) (attribute_length app t)
      in (ok, upd_pdu app t (p\<lparr>pdu_desc := Some d, pdu_vector := v\<rparr>)))"

definition transmit_event :: "mrp_application \<Rightarrow> nat \<Rightarrow> mrp_attribute \<Rightarrow> nat \<Rightarrow> tx_outcome" where
  "transmit_event app t attr event =
     (let p = mrpdu app ! t;
          d = mrp_vector_first_value (pdu_vector p) (the (pdu_desc p)) (at_val attr);
          app1 = upd_pdu app t (p\<lparr>pdu_desc := Some d\<rparr>)
      in case vector_add_event app attr (pdu_vector p) d event of
           None \<Rightarrow> TxNew (mrp_msg_error app1 t)
         | Some (v, d') \<Rightarrow> TxReturn (upd_pdu app t (p\<lparr>pdu_desc := Some d', pdu_vector := v\<rparr>)))"

definition transmit_attr :: "mrp_application \<Rightarrow> nat \<Rightarrow> mrp_attribute \<Rightarrow> nat \<Rightarrow> tx_outcome" where
  "transmit_attr app t attr event =
     (let p = mrpdu app ! t; v = pdu_vector p
      in if v_number_of_values v \<noteq> 0 then
           if app_type app = APP_MSRP \<and> at_type attr = MSRP_ATTR_TYPE_DOMAIN
           then TxNew (mrp_transmit_end app t)
           else
             let (len, v1, d1) = mrp_vector_end v (the (pdu_desc p)) False;
                 msg1 = (pdu_msg p)\<lparr>m_end := m_end (pdu_msg p) + len\<rparr>;
                 app1 = upd_pdu app t \<lparr>pdu_desc = Some d1, pdu_msg = msg1, pdu_vector = v1\<rparr>
             in case transmit_vector app1 t of
                  (False, app2) \<Rightarrow> TxNew (mrp_msg_error app2 t)
                | (True, app2) \<Rightarrow> transmit_event app2 t attr event
         else transmit_event app t attr event)"

definition transmit_tail ::
  "mrp_application \<Rightarrow> nat \<Rightarrow> mrp_attribute option \<Rightarrow> nat \<Rightarrow> bool \<Rightarrow> tx_outcome" where
  "transmit_tail app t attr event lva =
     (let p = mrpdu app ! t;
          (v, d) = (if lva then mrp_vector_leaveall_event (pdu_vector p) (the (pdu_desc p)) 1
                    else (pdu_vector p, the (pdu_desc p)));
          app1 = upd_pdu app t (p\<lparr>pdu_desc := Some d, pdu_vector := v\<rparr>)
      in case attr of
           None \<Rightarrow> TxReturn app1
         | Some a \<Rightarrow> transmit_attr app1 t a event)"

definition mrp_transmit_pass ::
  "mrp_application \<Rightarrow> nat \<Rightarrow> mrp_attribute option \<Rightarrow> nat \<Rightarrow> bool \<Rightarrow> tx_outcome" where
  "mrp_transmit_pass app t attr event lva =
     (case transmit_open app t of
        (False, app1) \<Rightarrow> TxReturn app1
      | (True, app1) \<Rightarrow>
          case (if v_start (pdu_vector (mrpdu app1 ! t)) = None then transmit_vector app1 t
                else (True, app1)) of
            (False, app2) \<Rightarrow> TxNew (mrp_msg_error app2 t)
          | (True, app2) \<Rightarrow> transmit_tail app2 t attr event lva)"

fun mrp_transmit_loop ::
  "nat \<Rightarrow> mrp_application \<Rightarrow> nat \<Rightarrow> mrp_attribute option \<Rightarrow> nat \<Rightarrow> bool \<Rightarrow> mrp_application option" where
  "mrp_transmit_loop 0 app t attr event lva = None"
| "mrp_transmit_loop (Suc fuel) app t attr event lva =
     (case mrp_transmit_pass app t attr event lva of
        TxReturn app' \<Rightarrow> Some app'
      | TxNew app' \<Rightarrow> mrp_transmit_loop fuel app' t attr event lva)"

definition mrp_transmit_action ::
  "mrp_application \<Rightarrow> nat \<Rightarrow> mrp_attribute option \<Rightarrow> nat \<Rightarrow> bool \<Rightarrow> mrp_application" where
  "mrp_transmit_action app t attr event lva =
     (case mrp_transmit_loop 2 app t attr event lva of
        Some app' \<Rightarrow> app'
      | None \<Rightarrow> app\<lparr>hung := True\<rparr>)"

end
