(* ===== verification/MRP_Tx_Proofs.thy ===== *)
theory MRP_Tx_Proofs
  imports MRP_Tx
begin

section \<open>Correctness of the MRP packet construction\<close>

text \<open>
  The abstract content of a packet is a list of vectors. Every packet the code gives to the network
  is the encoding of such a list, within the port's MTU and within the buffer, and one call of
  \<open>mrp_transmit_action\<close> ends in at most two passes. The contract that the code relies on for the
  application's \<open>vector_add_event\<close> is the locale \<open>event_encoder\<close>, interpreted on the two encoders
  of \<open>mrp.c\<close>.
\<close>

subsection \<open>Writes\<close>

lemma desc_write_ok:
  "off + length bs \<le> length (d_buf d) \<Longrightarrow>
     desc_write d off bs = d\<lparr>d_buf := take off (d_buf d) @ bs @ drop (off + length bs) (d_buf d)\<rparr>"
  by (simp add: desc_write_def buf_write_def)

lemma desc_write_fields [simp]:
  "d_len (desc_write d off bs) = d_len d" "length (d_buf (desc_write d off bs)) = length (d_buf d)"
  by (auto simp: desc_write_def buf_write_def split: option.splits if_splits)

lemma desc_write_len [simp]: "desc_write (d\<lparr>d_len := n\<rparr>) off bs = (desc_write d off bs)\<lparr>d_len := n\<rparr>"
  by (simp add: desc_write_def split: option.splits)

definition filled :: "net_tx_desc \<Rightarrow> u8 list \<Rightarrow> bool" where
  "filled d bs \<longleftrightarrow> \<not> d_oob d \<and> length (d_buf d) = DEFAULT_NET_DATA_SIZE \<and>
     length bs \<le> DEFAULT_NET_DATA_SIZE \<and> take (length bs) (d_buf d) = bs"

lemma filled_len [simp]: "filled (d\<lparr>d_len := n\<rparr>) bs = filled d bs"
  by (simp add: filled_def)

lemma filled_append:
  "filled d bs \<Longrightarrow> length bs + length xs \<le> DEFAULT_NET_DATA_SIZE \<Longrightarrow> n = length bs \<Longrightarrow>
     filled (desc_write d n xs) (bs @ xs)"
  by (simp add: filled_def desc_write_ok)

lemma filled_over:
  assumes "filled d (a @ b @ c)" and "length b' = length b" and "n = length a"
  shows "filled (desc_write d n b') (a @ b' @ c)"
proof -
  let ?n = "length (a @ b @ c)"
  have 1: "take ?n (d_buf d) = a @ b @ c" "?n \<le> length (d_buf d)" using assms by (auto simp: filled_def)
  then have "d_buf d = (a @ b @ c) @ drop ?n (d_buf d)" by (metis append_take_drop_id)
  then obtain r where r: "d_buf d = a @ b @ c @ r" by auto
  have "desc_write d n b' = d\<lparr>d_buf := a @ b' @ c @ r\<rparr>"
    using assms r by (subst desc_write_ok) simp_all
  then show ?thesis using assms r by (simp add: filled_def)
qed

lemma filled_prefix: "filled d (a @ b) \<Longrightarrow> filled d a"
  unfolding filled_def by (metis append_eq_append_conv_if append_take_drop_id length_append trans_le_add1 le_add1 take_append take_all_iff order_refl append_Nil2 take_0 diff_self_eq_0)

lemma desc_write_prepend:
  "off + length a + length b \<le> length (d_buf d) \<Longrightarrow> n = off + length a \<Longrightarrow>
     desc_write (desc_write d n b) off a = desc_write d off (a @ b)"
  by (simp add: desc_write_ok ac_simps)

lemma desc_write_twice:
  "off + length a + length b \<le> length (d_buf d) \<Longrightarrow> n = off + length a \<Longrightarrow>
     desc_write (desc_write d off a) n b = desc_write d off (a @ b)"
  by (simp add: desc_write_ok ac_simps)

subsection \<open>Packets as lists of vectors\<close>

record tx_vec =
  tv_lva :: bool
  tv_fv :: "u8 list"
  tv_evs :: "u8 list"

definition tv_count :: "tx_vec \<Rightarrow> nat" where
  "tv_count v = (if tv_evs v = [] then 0 else 1)"

definition enc_vec :: "tx_vec \<Rightarrow> u8 list" where
  "enc_vec v = mrp_vector_header (if tv_lva v then 1 else 0) (of_nat (tv_count v)) @ tv_fv v @ tv_evs v"

definition enc_vecs :: "tx_vec list \<Rightarrow> u8 list" where
  "enc_vecs vs = concat (map enc_vec vs)"

text \<open>The bytes before the vectors; the length field holds \<open>ll\<close>.\<close>

definition frame_pre :: "mrp_application \<Rightarrow> nat \<Rightarrow> u8 list \<Rightarrow> u8 list \<Rightarrow> u8 list" where
  "frame_pre app t src ll =
     dst_mac app @ src @ be16 (ethertype app) @ [proto_version app, of_nat t, of_nat (attribute_length app t)] @
     (if has_attribute_list_length app then ll else [])"

definition frame_bytes :: "mrp_application \<Rightarrow> nat \<Rightarrow> u8 list \<Rightarrow> tx_vec list \<Rightarrow> u8 list" where
  "frame_bytes app t src vs =
     frame_pre app t src (be16 (of_nat (length (enc_vecs vs) + 2))) @ enc_vecs vs @ [0, 0] @ [0, 0]"

lemma length_vector_header [simp]: "length (mrp_vector_header a b) = 2"
  by (simp add: mrp_vector_header_def)

lemma length_enc_vec: "length (enc_vec v) = 2 + length (tv_fv v) + length (tv_evs v)"
  by (simp add: enc_vec_def)

lemma enc_vecs_simps [simp]: "enc_vecs [] = []" "enc_vecs (vs @ [v]) = enc_vecs vs @ enc_vec v"
  by (simp_all add: enc_vecs_def)

definition hdr_len :: "mrp_application \<Rightarrow> nat" where
  "hdr_len app = 15 + mrp_hdr_len (has_attribute_list_length app)"

lemma length_frame_pre:
  "length (dst_mac app) = 6 \<Longrightarrow> length src = 6 \<Longrightarrow> length ll = 2 \<Longrightarrow> length (frame_pre app t src ll) = hdr_len app"
  by (simp add: frame_pre_def hdr_len_def mrp_hdr_len_def)

text \<open>
  A packet being built: \<open>closed_pdu\<close> with no vector open, \<open>open_pdu\<close> with \<open>v\<close> the vector being built.
\<close>

definition msg_ok :: "mrp_application \<Rightarrow> mrp_msg \<Rightarrow> nat \<Rightarrow> bool" where
  "msg_ok app m e \<longleftrightarrow> m_start m = Some 15 \<and> m_vector_start m = hdr_len app \<and> m_end m = e \<and>
     m_end_max m = port_mtu app - 2"

definition body_ok :: "mrp_application \<Rightarrow> nat \<Rightarrow> net_tx_desc \<Rightarrow> u8 list \<Rightarrow> u8 list \<Rightarrow> bool" where
  "body_ok app t d src body \<longleftrightarrow> length (dst_mac app) = 6 \<and> length src = 6 \<and> d_len d = 15 \<and>
     filled d (frame_pre app t src [0, 0] @ body)"

definition vec_ok :: "mrp_application \<Rightarrow> nat \<Rightarrow> mrp_vector \<Rightarrow> tx_vec \<Rightarrow> nat \<Rightarrow> bool" where
  "vec_ok app t w v s \<longleftrightarrow> v_start w = Some s \<and> v_event_start w = s + 2 + attribute_length app t \<and>
     v_end w = s + length (enc_vec v) \<and> v_end_max w = port_mtu app - 4 \<and> v_end w \<le> v_end_max w \<and>
     v_number_of_values w = of_nat (tv_count v) \<and> v_leave_all_event w = (if tv_lva v then 1 else 0) \<and>
     length (tv_fv v) = attribute_length app t"

definition closed_pdu :: "mrp_application \<Rightarrow> nat \<Rightarrow> u8 list \<Rightarrow> tx_vec list \<Rightarrow> mrp_attribute_mrpdu \<Rightarrow> bool" where
  "closed_pdu app t src vs p \<longleftrightarrow> (\<exists>d. pdu_desc p = Some d \<and> body_ok app t d src (enc_vecs vs) \<and>
     msg_ok app (pdu_msg p) (hdr_len app + length (enc_vecs vs)) \<and> v_start (pdu_vector p) = None)"

definition open_pdu ::
  "mrp_application \<Rightarrow> nat \<Rightarrow> u8 list \<Rightarrow> tx_vec list \<Rightarrow> tx_vec \<Rightarrow> mrp_attribute_mrpdu \<Rightarrow> bool" where
  "open_pdu app t src vs v p \<longleftrightarrow> (\<exists>d. pdu_desc p = Some d \<and>
     body_ok app t d src (enc_vecs vs @ enc_vec v) \<and>
     msg_ok app (pdu_msg p) (hdr_len app + length (enc_vecs vs)) \<and>
     vec_ok app t (pdu_vector p) v (hdr_len app + length (enc_vecs vs)))"

lemma cfg_upd_pdu [simp]:
  "frame_pre (upd_pdu app u q) = frame_pre app" "hdr_len (upd_pdu app u q) = hdr_len app"
  "frame_bytes (upd_pdu app u q) = frame_bytes app"
  "closed_pdu (upd_pdu app u q) = closed_pdu app" "open_pdu (upd_pdu app u q) = open_pdu app"
  by (auto simp: fun_eq_iff frame_pre_def frame_bytes_def hdr_len_def closed_pdu_def open_pdu_def
      body_ok_def msg_ok_def vec_ok_def upd_pdu_def)

lemma cfg_sent [simp]:
  "frame_pre (app\<lparr>sent := fs\<rparr>) = frame_pre app" "hdr_len (app\<lparr>sent := fs\<rparr>) = hdr_len app"
  "frame_bytes (app\<lparr>sent := fs\<rparr>) = frame_bytes app"
  "closed_pdu (app\<lparr>sent := fs\<rparr>) = closed_pdu app" "open_pdu (app\<lparr>sent := fs\<rparr>) = open_pdu app"
  by (auto simp: fun_eq_iff frame_pre_def frame_bytes_def hdr_len_def closed_pdu_def open_pdu_def
      body_ok_def msg_ok_def vec_ok_def)

lemma cfg_n_tx [simp]:
  "frame_pre (app\<lparr>n_tx_alloc := n\<rparr>) = frame_pre app" "hdr_len (app\<lparr>n_tx_alloc := n\<rparr>) = hdr_len app"
  "frame_bytes (app\<lparr>n_tx_alloc := n\<rparr>) = frame_bytes app"
  "closed_pdu (app\<lparr>n_tx_alloc := n\<rparr>) = closed_pdu app" "open_pdu (app\<lparr>n_tx_alloc := n\<rparr>) = open_pdu app"
  by (auto simp: fun_eq_iff frame_pre_def frame_bytes_def hdr_len_def closed_pdu_def open_pdu_def
      body_ok_def msg_ok_def vec_ok_def)

lemma upd_pdu_nth [simp]: "t < length (mrpdu app) \<Longrightarrow> mrpdu (upd_pdu app t p) ! t = p"
  by (simp add: upd_pdu_def)

lemma upd_pdu_fields [simp]:
  "length (mrpdu (upd_pdu app t p)) = length (mrpdu app)" "sent (upd_pdu app t p) = sent app"
  "attribute_length (upd_pdu app t p) = attribute_length app" "app_type (upd_pdu app t p) = app_type app"
  "port_mtu (upd_pdu app t p) = port_mtu app" "vector_add_event (upd_pdu app t p) = vector_add_event app"
  "has_attribute_list_length (upd_pdu app t p) = has_attribute_list_length app"
  "dst_mac (upd_pdu app t p) = dst_mac app"
  "tx_alloc (upd_pdu app t p) = tx_alloc app" "n_tx_alloc (upd_pdu app t p) = n_tx_alloc app"
  by (simp_all add: upd_pdu_def)

lemma upd_pdu_twice [simp]: "upd_pdu (upd_pdu app t p) t q = upd_pdu app t q"
  by (simp add: upd_pdu_def)

lemma upd_pdu_id: "mrpdu app ! t = p \<Longrightarrow> upd_pdu app t p = app"
  unfolding upd_pdu_def by (drule sym) simp

lemma upd_pdu_sent [simp]: "(upd_pdu app t p)\<lparr>sent := fs\<rparr> = upd_pdu (app\<lparr>sent := fs\<rparr>) t p"
  by (simp add: upd_pdu_def)

lemma body_append:
  assumes "body_ok app t d src body" and "n = hdr_len app + length body"
    and "n + length xs \<le> DEFAULT_NET_DATA_SIZE"
  shows "body_ok app t (desc_write d n xs) src (body @ xs)"
proof -
  from assms(1) have b: "length (dst_mac app) = 6" "length src = 6" "d_len d = 15"
    "filled d (frame_pre app t src [0, 0] @ body)" by (simp_all add: body_ok_def)
  have L: "length (frame_pre app t src [0, 0] @ body) = n" using b assms(2) by (simp add: length_frame_pre)
  from filled_append [OF b(4), of xs n] assms(3) L b show ?thesis by (simp add: body_ok_def)
qed

lemma body_over:
  assumes "body_ok app t d src (a @ b @ c)" and "n = hdr_len app + length a" and "length b' = length b"
  shows "body_ok app t (desc_write d n b') src (a @ b' @ c)"
proof -
  from assms(1) have b: "length (dst_mac app) = 6" "length src = 6" "d_len d = 15"
    "filled d ((frame_pre app t src [0, 0] @ a) @ b @ c)" by (simp_all add: body_ok_def)
  have L: "n = length (frame_pre app t src [0, 0] @ a)" using b assms(2) by (simp add: length_frame_pre)
  from filled_over [OF b(4) assms(3) L] b show ?thesis by (simp add: body_ok_def)
qed

lemma body_prefix: "body_ok app t d src (a @ b) \<Longrightarrow> body_ok app t d src a"
  using filled_prefix [of d "frame_pre app t src [0, 0] @ a" b] by (simp add: body_ok_def)

subsection \<open>Closing a packet\<close>

lemma frame_pre_split:
  "frame_pre app t src ll = frame_pre (app\<lparr>has_attribute_list_length := False\<rparr>) t src [] @
     (if has_attribute_list_length app then ll else [])"
  by (simp add: frame_pre_def)

lemma msg_end_body:
  assumes b: "body_ok app t d src body" and e: "m_start m = Some 15" "m_vector_start m = hdr_len app"
    "m_end m = hdr_len app + length body" and fit: "hdr_len app + length body + 2 \<le> DEFAULT_NET_DATA_SIZE"
  obtains d' where "mrp_msg_end (has_attribute_list_length app) m d
      = (hdr_len app + length body + 2 - 15, m\<lparr>m_end := hdr_len app + length body + 2\<rparr>, d')"
    "filled d' (frame_pre app t src (be16 (of_nat (length body))) @ body @ [0, 0])" "d_len d' = 15"
proof -
  let ?ll = "be16 (of_nat (length body)) :: u8 list"
  let ?P = "frame_pre (app\<lparr>has_attribute_list_length := False\<rparr>) t src []"
  from b have len: "length (dst_mac app) = 6" "length src = 6" and d15: "d_len d = 15"
    and f: "filled d (frame_pre app t src [0, 0] @ body)" by (auto simp: body_ok_def)
  have P: "length ?P = 17" using len by (simp add: frame_pre_def)
  define d1 where "d1 = (if has_attribute_list_length app then desc_write d 17 ?ll else d)"
  have f1: "filled d1 (frame_pre app t src ?ll @ body)"
  proof (cases "has_attribute_list_length app")
    case True
    with f have "filled d (?P @ [0, 0] @ body)" by (subst (asm) frame_pre_split) simp
    then have "filled (desc_write d 17 ?ll) (?P @ ?ll @ body)" by (rule filled_over) (simp_all add: P)
    with True show ?thesis by (subst frame_pre_split) (simp add: d1_def)
  next
    case False
    with f show ?thesis by (simp add: d1_def frame_pre_def)
  qed
  have L: "length (frame_pre app t src ?ll) = hdr_len app" using len by (simp add: length_frame_pre)
  let ?d = "desc_write d1 (hdr_len app + length body) [0, 0]"
  have "filled ?d ((frame_pre app t src ?ll @ body) @ [0, 0])"
    using f1 fit L by (intro filled_append) simp_all
  moreover have "d_len ?d = 15" using d15 by (simp add: d1_def)
  moreover have "mrp_msg_end (has_attribute_list_length app) m d
      = (hdr_len app + length body + 2 - 15, m\<lparr>m_end := hdr_len app + length body + 2\<rparr>, ?d)"
    using e by (simp add: mrp_msg_end_def d1_def Let_def)
  ultimately show ?thesis using that by simp
qed

definition frame_sent :: "mrp_application \<Rightarrow> nat \<Rightarrow> tx_vec list \<Rightarrow> net_tx_desc \<Rightarrow> bool" where
  "frame_sent app t vs d \<longleftrightarrow> (\<exists>src. length src = 6 \<and> filled d (frame_bytes app t src vs) \<and>
     d_len d = length (frame_bytes app t src vs) \<and> d_len d \<le> port_mtu app)"

definition idle_pdu :: "mrp_attribute_mrpdu \<Rightarrow> bool" where
  "idle_pdu p \<longleftrightarrow> pdu_desc p = None \<and> v_start (pdu_vector p) = None"

text \<open>
  Both ways of closing: with \<open>v\<close> open, or after \<open>mrp_vector_start\<close> refused a vector at the end
  of the message (\<open>vector->start == vector->end\<close>).
\<close>

lemma transmit_end_body:
  assumes p: "mrpdu app ! t = p" "pdu_desc p = Some d" and t: "t < length (mrpdu app)"
    and b: "body_ok app t d src (enc_vecs vs)"
    and m: "msg_ok app (pdu_msg p) s" and v: "v_start (pdu_vector p) = Some s"
      "v_end (pdu_vector p) = hdr_len app + length (enc_vecs vs)" "s \<le> v_end (pdu_vector p)"
    and fit: "v_end (pdu_vector p) + 4 \<le> port_mtu app" "port_mtu app \<le> DEFAULT_NET_DATA_SIZE"
  shows "\<exists>d' p'. mrp_transmit_end app t = upd_pdu (app\<lparr>sent := sent app @ [d']\<rparr>) t p' \<and>
    idle_pdu p' \<and> frame_sent app t vs d'"
proof -
  let ?e = "hdr_len app + length (enc_vecs vs)"
  let ?d1 = "desc_write d ?e [0, 0]"
  have b1: "body_ok app t ?d1 src (enc_vecs vs @ [0, 0])"
    using b fit v(2) by (intro body_append) simp_all
  let ?m = "(pdu_msg p)\<lparr>m_end := ?e + 2\<rparr>"
  have m1: "m_start ?m = Some 15" "m_vector_start ?m = hdr_len app"
    "m_end ?m = hdr_len app + length (enc_vecs vs @ [0, 0])"
    "hdr_len app + length (enc_vecs vs @ [0, 0]) + 2 \<le> DEFAULT_NET_DATA_SIZE"
    using m fit v(2) by (simp_all add: msg_ok_def)
  obtain d2 where r: "mrp_msg_end (has_attribute_list_length app) ?m ?d1
      = (hdr_len app + length (enc_vecs vs @ [0, 0]) + 2 - 15,
         ?m\<lparr>m_end := hdr_len app + length (enc_vecs vs @ [0, 0]) + 2\<rparr>, d2)"
    "filled d2 (frame_pre app t src (be16 (of_nat (length (enc_vecs vs @ [0, 0])))) @
       (enc_vecs vs @ [0, 0]) @ [0, 0])" "d_len d2 = 15"
    by (rule msg_end_body [OF b1 m1])
  then have d2: "mrp_msg_end (has_attribute_list_length app) ?m ?d1
      = (?e + 4 - 15, ?m\<lparr>m_end := ?e + 4\<rparr>, d2)"
    "filled d2 (frame_bytes app t src vs)" "d_len d2 = 15"
    by (simp_all add: frame_bytes_def)
  have "mrp_vector_end (pdu_vector p) d True
      = (?e + 2 - s, (pdu_vector p)\<lparr>v_start := None, v_event_start := 0, v_end := 0\<rparr>, ?d1)"
    using v by (simp add: mrp_vector_end_def Let_def)
  moreover have "m_end (pdu_msg p) + (?e + 2 - s) = ?e + 2" using m v by (simp add: msg_ok_def)
  moreover define p' where "p' = \<lparr>pdu_desc = None, pdu_msg = ?m\<lparr>m_end := ?e + 4\<rparr>,
           pdu_vector = (pdu_vector p)\<lparr>v_start := None, v_event_start := 0, v_end := 0\<rparr>\<rparr>"
  ultimately have eq: "mrp_transmit_end app t
      = upd_pdu (app\<lparr>sent := sent app @ [d2\<lparr>d_len := 15 + (?e + 4 - 15)\<rparr>]\<rparr>) t p'"
    using p v(1) d2 by (simp add: mrp_transmit_end_def Let_def)
  have "length src = 6" "length (frame_bytes app t src vs) = ?e + 4" "15 \<le> ?e"
    using b by (simp_all add: body_ok_def frame_bytes_def length_frame_pre hdr_len_def)
  then have "frame_sent app t vs (d2\<lparr>d_len := 15 + (?e + 4 - 15)\<rparr>)"
    using d2 fit v(2) by (auto simp: frame_sent_def)
  moreover have "idle_pdu p'" by (simp add: idle_pdu_def p'_def)
  ultimately show ?thesis using eq by blast
qed

lemma transmit_end_open:
  assumes p: "mrpdu app ! t = p" and t: "t < length (mrpdu app)" and o: "open_pdu app t src vs v p"
    and fit: "port_mtu app \<le> DEFAULT_NET_DATA_SIZE" "4 \<le> port_mtu app"
  shows "\<exists>d' p'. mrp_transmit_end app t = upd_pdu (app\<lparr>sent := sent app @ [d']\<rparr>) t p' \<and>
    idle_pdu p' \<and> frame_sent app t (vs @ [v]) d'"
proof -
  from o obtain d where "pdu_desc p = Some d" "body_ok app t d src (enc_vecs (vs @ [v]))"
    "msg_ok app (pdu_msg p) (hdr_len app + length (enc_vecs vs))"
    "vec_ok app t (pdu_vector p) v (hdr_len app + length (enc_vecs vs))"
    by (auto simp: open_pdu_def)
  with p t fit show ?thesis by (intro transmit_end_body) (auto simp: vec_ok_def)
qed

subsection \<open>Starting a packet and a vector\<close>

lemma fresh_header:
  assumes "length b = DEFAULT_NET_DATA_SIZE" and "length mac = 6"
  shows "filled (desc_write (desc_write (desc_write \<lparr>d_buf = b, d_len = n, d_oob = False\<rparr> 12 (be16 et)) 0 mac) 14 [pv])
    (mac @ take 6 (drop 6 b) @ be16 et @ [pv])"
proof -
  let ?d = "\<lparr>d_buf = b, d_len = n, d_oob = False\<rparr>"
  have "filled ?d (take 12 b)" using assms by (simp add: filled_def)
  then have 1: "filled (desc_write ?d 12 (be16 et)) (take 6 b @ take 6 (drop 6 b) @ be16 et)"
    using assms filled_append [of ?d "take 12 b" "be16 et" 12] take_add [of 6 6 b] by simp
  have "filled (desc_write (desc_write ?d 12 (be16 et)) 0 mac) ([] @ mac @ take 6 (drop 6 b) @ be16 et)"
    by (rule filled_over [of _ _ "take 6 b"]) (use 1 assms in simp_all)
  then have "filled (desc_write (desc_write (desc_write ?d 12 (be16 et)) 0 mac) 14 [pv])
      (([] @ mac @ take 6 (drop 6 b) @ be16 et) @ [pv])"
    by (rule filled_append) (simp_all add: assms)
  then show ?thesis by (simp only: append_assoc append_Nil)
qed

lemma msg_start_body:
  assumes b: "filled d (dst_mac app @ src @ be16 (ethertype app) @ [proto_version app])" "d_len d = 15"
    and len: "length (dst_mac app) = 6" "length src = 6"
    and fit: "hdr_len app + 2 \<le> port_mtu app" "port_mtu app \<le> DEFAULT_NET_DATA_SIZE"
  obtains m d' where "mrp_msg_start (has_attribute_list_length app) d 15 (port_mtu app) t (attribute_length app t)
      = (True, m, d')" "body_ok app t d' src []" "msg_ok app m (hdr_len app)"
proof -
  let ?h = "[of_nat t, of_nat (attribute_length app t)] @
    (if has_attribute_list_length app then [0, 0] else []) :: u8 list"
  have f: "filled (desc_write d 15 ?h) ((dst_mac app @ src @ be16 (ethertype app) @ [proto_version app]) @ ?h)"
    using b len fit by (intro filled_append) (simp_all add: hdr_len_def mrp_hdr_len_def)
  let ?m = "\<lparr>m_start = Some 15, m_vector_start = hdr_len app, m_end = hdr_len app, m_end_max = port_mtu app - 2\<rparr>"
  have "mrp_msg_start (has_attribute_list_length app) d 15 (port_mtu app) t (attribute_length app t)
      = (True, ?m, desc_write d 15 ?h)"
    using fit by (simp add: mrp_msg_start_def Let_def hdr_len_def)
  moreover have "body_ok app t (desc_write d 15 ?h) src []"
    using f len b by (simp add: body_ok_def frame_pre_def)
  moreover have "msg_ok app ?m (hdr_len app)" by (simp add: msg_ok_def)
  ultimately show ?thesis using that by blast
qed

lemma vector_start_body:
  assumes b: "body_ok app t d src (enc_vecs vs)"
    and s: "s = hdr_len app + length (enc_vecs vs)"
    and fit: "s + 2 + attribute_length app t + 4 \<le> port_mtu app" "port_mtu app \<le> DEFAULT_NET_DATA_SIZE"
  obtains w' d' v where "mrp_vector_start d w s (port_mtu app - 2) (attribute_length app t) = (True, w', d')"
    "body_ok app t d' src (enc_vecs vs @ enc_vec v)" "vec_ok app t w' v s" "tv_evs v = []" "\<not> tv_lva v"
proof -
  let ?v = "\<lparr>tv_lva = False, tv_fv = replicate (attribute_length app t) 0, tv_evs = []\<rparr>"
  let ?z = "replicate (attribute_length app t) 0 :: u8 list"
  have e: "enc_vec ?v = [0, 0] @ ?z"
    by (simp add: enc_vec_def tv_count_def mrp_vector_header_def be16_def)
  have dl: "length (d_buf d) = DEFAULT_NET_DATA_SIZE" using b by (simp add: body_ok_def filled_def)
  have "desc_write (desc_write d (s + 2) ?z) s [0, 0] = desc_write d s (enc_vec ?v)"
    using fit dl unfolding e by (intro desc_write_prepend) simp_all
  moreover have "body_ok app t (desc_write d s (enc_vec ?v)) src (enc_vecs vs @ enc_vec ?v)"
    using fit by (intro body_append [OF b s]) (simp add: e)
  moreover define w' where "w' = w\<lparr>v_start := Some s, v_event_start := s + 2 + attribute_length app t,
      v_end := s + 2 + attribute_length app t, v_end_max := port_mtu app - 4,
      v_number_of_values := 0, v_leave_all_event := 0\<rparr>"
  moreover have "mrp_vector_start d w s (port_mtu app - 2) (attribute_length app t)
      = (True, w', desc_write (desc_write d (s + 2) ?z) s [0, 0])"
    using fit by (simp add: mrp_vector_start_def Let_def w'_def)
  moreover have "vec_ok app t w' ?v s"
    using fit by (simp add: vec_ok_def w'_def e tv_count_def)
  ultimately show ?thesis using that [of w' "desc_write d s (enc_vec ?v)" ?v] by simp
qed

subsection \<open>Adding an event\<close>

locale event_encoder =
  fixes add :: "mrp_attribute \<Rightarrow> mrp_vector \<Rightarrow> net_tx_desc \<Rightarrow> nat \<Rightarrow> (mrp_vector \<times> net_tx_desc) option"
    and bytes :: "mrp_attribute \<Rightarrow> nat \<Rightarrow> u8 list"
  assumes bytes_len: "1 \<le> length (bytes a ev)" "length (bytes a ev) \<le> 2"
    and add_fits: "v_number_of_values w = 0 \<Longrightarrow> the (v_start w) + 2 \<le> v_event_start w \<Longrightarrow>
      v_event_start w + length (bytes a ev) \<le> v_end_max w \<Longrightarrow> v_end_max w \<le> length (d_buf d) \<Longrightarrow>
      add a w d ev = Some (w\<lparr>v_number_of_values := 1, v_end := v_event_start w + length (bytes a ev)\<rparr>,
        desc_write (desc_write d (the (v_start w)) (mrp_vector_header (ucast (v_leave_all_event w)) 1))
          (v_event_start w) (bytes a ev))"
    and add_full: "v_number_of_values w = 0 \<Longrightarrow> v_end_max w < v_event_start w + length (bytes a ev) \<Longrightarrow>
      add a w d ev = None"
begin

lemma event_body:
  assumes o: "open_pdu app t src vs v p" and ev: "tv_evs v = []"
    and val: "length fv = attribute_length app t" and mtu: "port_mtu app \<le> DEFAULT_NET_DATA_SIZE"
    and fit: "hdr_len app + length (enc_vecs vs) + 2 + attribute_length app t + length (bytes a e) + 4
      \<le> port_mtu app"
    and d0: "pdu_desc p = Some d0"
    and d: "d = desc_write d0 (hdr_len app + length (enc_vecs vs) + 2) fv"
  shows "\<exists>w' d'. add a (pdu_vector p) d e = Some (w', d') \<and>
    open_pdu app t src vs (v\<lparr>tv_fv := fv, tv_evs := bytes a e\<rparr>) (p\<lparr>pdu_desc := Some d', pdu_vector := w'\<rparr>)"
proof -
  let ?s = "hdr_len app + length (enc_vecs vs)"
  let ?w = "pdu_vector p"
  let ?v = "v\<lparr>tv_fv := fv, tv_evs := bytes a e\<rparr>"
  let ?lva = "if tv_lva v then 1 else 0 :: u8"
  from o d0 have b: "body_ok app t d0 src (enc_vecs vs @ enc_vec v)" and m: "msg_ok app (pdu_msg p) ?s"
    and w: "vec_ok app t ?w v ?s" by (auto simp: open_pdu_def)
  have evs: "enc_vec v = mrp_vector_header ?lva 0 @ tv_fv v"
    and ev': "enc_vec ?v = mrp_vector_header ?lva 1 @ fv @ bytes a e"
    using ev bytes_len(1) [of a e] by (auto simp: enc_vec_def tv_count_def)
  have b1: "body_ok app t d src ((enc_vecs vs @ mrp_vector_header ?lva 0) @ fv @ [])"
    unfolding d by (rule body_over [of _ _ _ _ _ "tv_fv v"]) (use b w val evs in \<open>simp_all add: vec_ok_def\<close>)
  let ?d1 = "desc_write d ?s (mrp_vector_header ?lva 1)"
  have b2: "body_ok app t ?d1 src (enc_vecs vs @ mrp_vector_header ?lva 1 @ fv)"
    by (rule body_over [of _ _ _ _ _ "mrp_vector_header ?lva 0"]) (use b1 in simp_all)
  let ?d2 = "desc_write ?d1 (?s + 2 + attribute_length app t) (bytes a e)"
  have b3: "body_ok app t ?d2 src ((enc_vecs vs @ mrp_vector_header ?lva 1 @ fv) @ bytes a e)"
    using fit mtu val by (intro body_append [OF b2]) simp_all
  let ?w' = "?w\<lparr>v_number_of_values := 1, v_end := ?s + 2 + attribute_length app t + length (bytes a e)\<rparr>"
  have dl: "length (d_buf d) = DEFAULT_NET_DATA_SIZE" using b1 by (simp add: body_ok_def filled_def)
  have lv: "ucast (v_leave_all_event ?w) = ?lva" using w by (simp add: vec_ok_def)
  have "add a ?w d e = Some (?w', ?d2)"
    using add_fits [of ?w a e d] w fit mtu dl ev lv by (simp add: vec_ok_def tv_count_def)
  moreover have "vec_ok app t ?w' ?v ?s"
    using w fit val ev' bytes_len(1) [of a e] by (auto simp: vec_ok_def tv_count_def)
  ultimately show ?thesis
    using b3 m ev' by (auto simp: open_pdu_def)
qed

end

interpretation three: event_encoder "\<lambda>a. mrp_vector_add_event" "\<lambda>a ev. [mrp_three_packed_event (of_nat ev) 0 0]"
proof
  show "mrp_vector_add_event w d ev = Some (w\<lparr>v_number_of_values := 1,
      v_end := v_event_start w + length [mrp_three_packed_event (of_nat ev) 0 0]\<rparr>,
      desc_write (desc_write d (the (v_start w)) (mrp_vector_header (ucast (v_leave_all_event w)) 1))
        (v_event_start w) [mrp_three_packed_event (of_nat ev) 0 0])"
    if "v_number_of_values w = 0" "v_event_start w + length [mrp_three_packed_event (of_nat ev) 0 0] \<le> v_end_max w"
    for w d ev using that by (simp add: mrp_vector_add_event_def Let_def)
qed (simp_all add: mrp_vector_add_event_def Let_def)

interpretation four: event_encoder "\<lambda>a w d ev. mrp_vector_add_event_four w d ev (value a)"
  "\<lambda>a ev. [mrp_three_packed_event (of_nat ev) 0 0, mrp_four_packed_event (value a) 0 0 0]" for "value"
proof
  show "mrp_vector_add_event_four w d ev (value a) = Some (w\<lparr>v_number_of_values := 1,
      v_end := v_event_start w + length [mrp_three_packed_event (of_nat ev) 0 0, mrp_four_packed_event (value a) 0 0 0]\<rparr>,
      desc_write (desc_write d (the (v_start w)) (mrp_vector_header (ucast (v_leave_all_event w)) 1))
        (v_event_start w) [mrp_three_packed_event (of_nat ev) 0 0, mrp_four_packed_event (value a) 0 0 0])"
    if "v_number_of_values w = 0" "v_end_max w \<le> length (d_buf d)"
      "v_event_start w + length [mrp_three_packed_event (of_nat ev) 0 0, mrp_four_packed_event (value a) 0 0 0] \<le> v_end_max w"
    for w d ev a
    using that desc_write_twice [of "v_event_start w" "[mrp_three_packed_event (of_nat ev) 0 0]"
        "[mrp_four_packed_event (value a) 0 0 0]"
        "desc_write d (the (v_start w)) (mrp_vector_header (ucast (v_leave_all_event w)) 1)"]
    by (simp add: mrp_vector_add_event_four_def Let_def)
qed (simp_all add: mrp_vector_add_event_four_def Let_def)

subsection \<open>One pass\<close>

text \<open>
  The configuration the code relies on: a packet with one vector and one event fits in the MTU, the
  MTU fits in the buffer, and \<open>net_tx_alloc\<close> returns buffers of the size that was asked for.
\<close>

definition tx_cfg :: "mrp_application \<Rightarrow> nat \<Rightarrow> bool" where
  "tx_cfg app t \<longleftrightarrow> length (dst_mac app) = 6 \<and> t < length (mrpdu app) \<and>
     port_mtu app \<le> DEFAULT_NET_DATA_SIZE \<and> hdr_len app + attribute_length app t + 8 \<le> port_mtu app \<and>
     (\<forall>n b. tx_alloc app n = Some b \<longrightarrow> length b = DEFAULT_NET_DATA_SIZE)"

lemma tx_cfg_frame [simp]:
  "tx_cfg (upd_pdu app u q) = tx_cfg app" "tx_cfg (app\<lparr>sent := fs\<rparr>) = tx_cfg app"
  "tx_cfg (app\<lparr>n_tx_alloc := n\<rparr>) = tx_cfg app"
  by (auto simp: fun_eq_iff tx_cfg_def)

lemma frame_sent_frame [simp]:
  "frame_sent (upd_pdu app u q) = frame_sent app" "frame_sent (app\<lparr>sent := fs\<rparr>) = frame_sent app"
  "frame_sent (app\<lparr>n_tx_alloc := n\<rparr>) = frame_sent app"
  by (auto simp: fun_eq_iff frame_sent_def)

lemma transmit_open_idle:
  assumes p: "mrpdu app ! t = p" "idle_pdu p" and cfg: "tx_cfg app t"
    and al: "tx_alloc app (n_tx_alloc app) = Some b"
  obtains src p' where "transmit_open app t = (True, upd_pdu (app\<lparr>n_tx_alloc := n_tx_alloc app + 1\<rparr>) t p')"
    "closed_pdu app t src [] p'"
proof -
  from cfg al have c: "length b = DEFAULT_NET_DATA_SIZE" "length (dst_mac app) = 6"
    "hdr_len app + 2 \<le> port_mtu app" "port_mtu app \<le> DEFAULT_NET_DATA_SIZE"
    by (auto simp: tx_cfg_def)
  define d where "d = desc_write (desc_write (desc_write \<lparr>d_buf = b, d_len = 0, d_oob = False\<rparr> 12
    (be16 (ethertype app))) 0 (dst_mac app)) 14 [proto_version app]"
  have f: "filled (d\<lparr>d_len := 15\<rparr>) (dst_mac app @ take 6 (drop 6 b) @ be16 (ethertype app) @ [proto_version app])"
    unfolding d_def filled_len by (rule fresh_header [OF c(1,2)])
  have s6: "length (take 6 (drop 6 b)) = 6" using c(1) by simp
  have l15: "d_len (d\<lparr>d_len := 15\<rparr>) = 15" by simp
  obtain m d' where m: "mrp_msg_start (has_attribute_list_length app) (d\<lparr>d_len := 15\<rparr>) 15 (port_mtu app) t
      (attribute_length app t) = (True, m, d')" "body_ok app t d' (take 6 (drop 6 b)) []"
    "msg_ok app m (hdr_len app)"
    by (rule msg_start_body [OF f l15 c(2) s6 c(3,4)])
  have pd: "pdu_desc p = None" "v_start (pdu_vector p) = None" using p(2) by (simp_all add: idle_pdu_def)
  have "transmit_open app t = (True, upd_pdu (app\<lparr>n_tx_alloc := n_tx_alloc app + 1\<rparr>) t
      (p\<lparr>pdu_desc := Some d', pdu_msg := m\<rparr>))"
    using p(1) pd al m(1) [unfolded d_def] by (simp add: transmit_open_def net_add_eth_header_def Let_def)
  moreover have "closed_pdu app t (take 6 (drop 6 b)) [] (p\<lparr>pdu_desc := Some d', pdu_msg := m\<rparr>)"
    using m(2,3) pd by (simp add: closed_pdu_def)
  ultimately show ?thesis using that by blast
qed

lemma transmit_vector_fits:
  assumes p: "mrpdu app ! t = p" and c: "closed_pdu app t src vs p" and cfg: "tx_cfg app t"
    and fit: "hdr_len app + length (enc_vecs vs) + 2 + attribute_length app t + 4 \<le> port_mtu app"
  obtains p' v where "transmit_vector app t = (True, upd_pdu app t p')" "open_pdu app t src vs v p'"
    "tv_evs v = []" "\<not> tv_lva v"
proof -
  let ?s = "hdr_len app + length (enc_vecs vs)"
  from c obtain d where d: "pdu_desc p = Some d" "body_ok app t d src (enc_vecs vs)"
    "msg_ok app (pdu_msg p) ?s" by (auto simp: closed_pdu_def)
  have mtu: "port_mtu app \<le> DEFAULT_NET_DATA_SIZE" using cfg by (simp add: tx_cfg_def)
  obtain w' d' v where w: "mrp_vector_start d (pdu_vector p) ?s (port_mtu app - 2) (attribute_length app t)
      = (True, w', d')" "body_ok app t d' src (enc_vecs vs @ enc_vec v)" "vec_ok app t w' v ?s"
    "tv_evs v = []" "\<not> tv_lva v"
    by (rule vector_start_body [OF d(2) refl fit mtu])
  have "transmit_vector app t = (True, upd_pdu app t (p\<lparr>pdu_desc := Some d', pdu_vector := w'\<rparr>))"
    using p d w(1) by (simp add: transmit_vector_def Let_def msg_ok_def)
  moreover have "open_pdu app t src vs v (p\<lparr>pdu_desc := Some d', pdu_vector := w'\<rparr>)"
    using w(2,3) d(3) by (simp add: open_pdu_def)
  ultimately show ?thesis using that w(4,5) by blast
qed

lemma transmit_vector_full:
  assumes p: "mrpdu app ! t = p" and c: "closed_pdu app t src vs p" and cfg: "tx_cfg app t"
    and full: "port_mtu app < hdr_len app + length (enc_vecs vs) + 2 + attribute_length app t + 4"
    and room: "hdr_len app + length (enc_vecs vs) + 4 \<le> port_mtu app"
  obtains app' d' p' where "transmit_vector app t = (False, app')"
    "mrp_msg_error app' t = upd_pdu (app\<lparr>sent := sent app @ [d']\<rparr>) t p'" "idle_pdu p'"
    "frame_sent app t vs d'"
proof -
  let ?s = "hdr_len app + length (enc_vecs vs)"
  from c obtain d where d: "pdu_desc p = Some d" "body_ok app t d src (enc_vecs vs)"
    "msg_ok app (pdu_msg p) ?s" by (auto simp: closed_pdu_def)
  have t: "t < length (mrpdu app)" and mtu: "port_mtu app \<le> DEFAULT_NET_DATA_SIZE"
    using cfg by (simp_all add: tx_cfg_def)
  define w where "w = (pdu_vector p)\<lparr>v_start := Some ?s, v_end := ?s, v_end_max := port_mtu app - 4\<rparr>"
  define p1 where "p1 = p\<lparr>pdu_desc := Some d, pdu_vector := w\<rparr>"
  have "mrp_vector_start d (pdu_vector p) ?s (port_mtu app - 2) (attribute_length app t) = (False, w, d)"
    using full by (simp add: mrp_vector_start_def Let_def w_def)
  then have tv: "transmit_vector app t = (False, upd_pdu app t p1)"
    using p d by (simp add: transmit_vector_def Let_def msg_ok_def p1_def)
  have m1: "msg_ok (upd_pdu app t p1) (pdu_msg p1) ?s" "body_ok (upd_pdu app t p1) t d src (enc_vecs vs)"
    using d by (simp_all add: p1_def msg_ok_def body_ok_def)
  have "\<exists>d' p'. mrp_transmit_end (upd_pdu app t p1) t
      = upd_pdu ((upd_pdu app t p1)\<lparr>sent := sent (upd_pdu app t p1) @ [d']\<rparr>) t p' \<and>
      idle_pdu p' \<and> frame_sent (upd_pdu app t p1) t vs d'"
    by (rule transmit_end_body [where p = p1 and d = d and src = src and s = ?s])
      (use t m1 room mtu in \<open>simp_all add: p1_def w_def\<close>)
  then obtain d' p' where e: "mrp_transmit_end (upd_pdu app t p1) t = upd_pdu (app\<lparr>sent := sent app @ [d']\<rparr>) t p'"
    "idle_pdu p'" "frame_sent app t vs d'" by auto
  have "mrp_msg_error (upd_pdu app t p1) t = mrp_transmit_end (upd_pdu app t p1) t"
    using t d(3) by (auto simp: mrp_msg_error_def Let_def p1_def w_def msg_ok_def hdr_len_def
        mrp_hdr_len_def split: if_splits)
  with tv e that show ?thesis by simp
qed

lemma leaveall_open:
  assumes o: "open_pdu app t src vs v p" and d0: "pdu_desc p = Some d0"
  obtains w d where "mrp_vector_leaveall_event (pdu_vector p) d0 1 = (w, d)"
    "open_pdu app t src vs (v\<lparr>tv_lva := True\<rparr>) (p\<lparr>pdu_desc := Some d, pdu_vector := w\<rparr>)"
proof -
  let ?s = "hdr_len app + length (enc_vecs vs)"
  let ?w = "pdu_vector p"
  from o d0 have b: "body_ok app t d0 src (enc_vecs vs @ enc_vec v)" and m: "msg_ok app (pdu_msg p) ?s"
    and w: "vec_ok app t ?w v ?s" by (auto simp: open_pdu_def)
  let ?h = "mrp_vector_header 1 (of_nat (tv_count v))"
  have "body_ok app t (desc_write d0 ?s ?h) src (enc_vecs vs @ ?h @ (tv_fv v @ tv_evs v))"
    by (rule body_over [where b = "mrp_vector_header (if tv_lva v then 1 else 0) (of_nat (tv_count v))"])
      (use b in \<open>simp_all add: enc_vec_def\<close>)
  then have "body_ok app t (desc_write d0 ?s ?h) src (enc_vecs vs @ enc_vec (v\<lparr>tv_lva := True\<rparr>))"
    by (simp add: enc_vec_def tv_count_def)
  moreover have "vec_ok app t (?w\<lparr>v_leave_all_event := 1\<rparr>) (v\<lparr>tv_lva := True\<rparr>) ?s"
    using w by (simp add: vec_ok_def tv_count_def enc_vec_def)
  ultimately have "open_pdu app t src vs (v\<lparr>tv_lva := True\<rparr>)
      (p\<lparr>pdu_desc := Some (desc_write d0 ?s ?h), pdu_vector := ?w\<lparr>v_leave_all_event := 1\<rparr>\<rparr>)"
    using m by (simp add: open_pdu_def)
  moreover have "mrp_vector_leaveall_event ?w d0 1 = (?w\<lparr>v_leave_all_event := 1\<rparr>, desc_write d0 ?s ?h)"
    using w by (auto simp: mrp_vector_leaveall_event_def Let_def vec_ok_def tv_count_def)
  ultimately show ?thesis using that by blast
qed

lemma vector_close:
  assumes o: "open_pdu app t src vs v p"
  obtains len w d where "mrp_vector_end (pdu_vector p) (the (pdu_desc p)) False = (len, w, d)"
    "closed_pdu app t src (vs @ [v]) \<lparr>pdu_desc = Some d,
       pdu_msg = (pdu_msg p)\<lparr>m_end := m_end (pdu_msg p) + len\<rparr>, pdu_vector = w\<rparr>"
proof -
  let ?s = "hdr_len app + length (enc_vecs vs)"
  from o obtain d where d: "pdu_desc p = Some d" "body_ok app t d src (enc_vecs vs @ enc_vec v)"
    "msg_ok app (pdu_msg p) ?s" "vec_ok app t (pdu_vector p) v ?s" by (auto simp: open_pdu_def)
  have "mrp_vector_end (pdu_vector p) (the (pdu_desc p)) False
      = (length (enc_vec v), (pdu_vector p)\<lparr>v_start := None, v_event_start := 0, v_end := 0\<rparr>, d)"
    using d by (simp add: mrp_vector_end_def Let_def vec_ok_def)
  moreover have "closed_pdu app t src (vs @ [v]) \<lparr>pdu_desc = Some d,
       pdu_msg = (pdu_msg p)\<lparr>m_end := m_end (pdu_msg p) + length (enc_vec v)\<rparr>,
       pdu_vector = (pdu_vector p)\<lparr>v_start := None, v_event_start := 0, v_end := 0\<rparr>\<rparr>"
    using d by (simp add: closed_pdu_def msg_ok_def)
  ultimately show ?thesis using that by blast
qed

lemma open_pdu_room:
  assumes "open_pdu app t src vs v p" and "tx_cfg app t"
  shows "hdr_len app + length (enc_vecs (vs @ [v])) + 4 \<le> port_mtu app"
  using assms by (auto simp: open_pdu_def vec_ok_def tx_cfg_def)

lemma open_pdu_count:
  "open_pdu app t src vs v p \<Longrightarrow> v_number_of_values (pdu_vector p) = 0 \<longleftrightarrow> tv_evs v = []"
  by (auto simp: open_pdu_def vec_ok_def tv_count_def split: if_splits)

lemma error_open:
  assumes p: "mrpdu app ! t = p" and o: "open_pdu app t src vs v p" and cfg: "tx_cfg app t"
  obtains d' p' where "mrp_msg_error app t = upd_pdu (app\<lparr>sent := sent app @ [d']\<rparr>) t p'" "idle_pdu p'"
    "frame_sent app t (vs @ [v]) d'"
proof -
  from o obtain d where d: "pdu_desc p = Some d"
    "msg_ok app (pdu_msg p) (hdr_len app + length (enc_vecs vs))"
    "vec_ok app t (pdu_vector p) v (hdr_len app + length (enc_vecs vs))"
    by (auto simp: open_pdu_def)
  have t: "t < length (mrpdu app)" "port_mtu app \<le> DEFAULT_NET_DATA_SIZE" "4 \<le> port_mtu app"
    using cfg by (auto simp: tx_cfg_def)
  have "p\<lparr>pdu_msg := (pdu_msg p)\<lparr>m_end := the (v_start (pdu_vector p))\<rparr>\<rparr> = p"
    using d(2,3) by (cases p, cases "pdu_msg p") (simp add: msg_ok_def vec_ok_def)
  then have "upd_pdu app t (p\<lparr>pdu_msg := (pdu_msg p)\<lparr>m_end := the (v_start (pdu_vector p))\<rparr>\<rparr>) = app"
    using upd_pdu_id [OF p] by simp
  then have "mrp_msg_error app t = mrp_transmit_end app t"
    using d(2,3) by (simp add: mrp_msg_error_def p Let_def msg_ok_def vec_ok_def hdr_len_def
        mrp_hdr_len_def enc_vec_def)
  with transmit_end_open [OF p t(1) o t(2,3)] that show ?thesis by auto
qed

text \<open>
  A vector is good when a receiver can interpret it: it has an event, or it carries a LeaveAll.
  \<open>frame_ok\<close>: the packet is well formed, its last vector possibly excepted (the case of
  \<open>mrp_msg_error\<close> where an event does not fit after its first value).
\<close>

definition good_vec :: "tx_vec \<Rightarrow> bool" where
  "good_vec v \<longleftrightarrow> tv_evs v \<noteq> [] \<or> tv_lva v"

definition wf_vec ::
  "(mrp_attribute \<Rightarrow> nat \<Rightarrow> u8 list) \<Rightarrow> mrp_application \<Rightarrow> nat \<Rightarrow> tx_vec \<Rightarrow> bool" where
  "wf_vec bytes app t v \<longleftrightarrow> length (tv_fv v) = attribute_length app t \<and>
     (tv_evs v = [] \<or> (\<exists>a e. tv_evs v = bytes a e))"

definition pdu_inv ::
  "(mrp_attribute \<Rightarrow> nat \<Rightarrow> u8 list) \<Rightarrow> mrp_application \<Rightarrow> nat \<Rightarrow> mrp_attribute_mrpdu \<Rightarrow> bool" where
  "pdu_inv bytes app t p \<longleftrightarrow> idle_pdu p \<or>
     (\<exists>src vs v. open_pdu app t src vs v p \<and> (\<forall>u\<in>set (vs @ [v]). good_vec u \<and> wf_vec bytes app t u))"

definition frame_ok ::
  "(mrp_attribute \<Rightarrow> nat \<Rightarrow> u8 list) \<Rightarrow> mrp_application \<Rightarrow> nat \<Rightarrow> net_tx_desc \<Rightarrow> bool" where
  "frame_ok bytes app t d \<longleftrightarrow> (\<exists>vs v. frame_sent app t (vs @ [v]) d \<and> (\<forall>u\<in>set vs. good_vec u) \<and>
     (\<forall>u\<in>set (vs @ [v]). wf_vec bytes app t u))"

lemma tx_inv_frame [simp]:
  "wf_vec bytes (upd_pdu app u q) = wf_vec bytes app" "wf_vec bytes (app\<lparr>sent := fs\<rparr>) = wf_vec bytes app"
  "wf_vec bytes (app\<lparr>n_tx_alloc := n\<rparr>) = wf_vec bytes app"
  "pdu_inv bytes (upd_pdu app u q) = pdu_inv bytes app" "pdu_inv bytes (app\<lparr>sent := fs\<rparr>) = pdu_inv bytes app"
  "pdu_inv bytes (app\<lparr>n_tx_alloc := n\<rparr>) = pdu_inv bytes app"
  "frame_ok bytes (upd_pdu app u q) = frame_ok bytes app" "frame_ok bytes (app\<lparr>sent := fs\<rparr>) = frame_ok bytes app"
  "frame_ok bytes (app\<lparr>n_tx_alloc := n\<rparr>) = frame_ok bytes app"
  by (auto simp: fun_eq_iff wf_vec_def pdu_inv_def frame_ok_def)

text \<open>What one call leaves: the packets it sent, the next buffer number and the packet left open.\<close>

definition tx_step ::
  "mrp_application \<Rightarrow> nat \<Rightarrow> nat \<Rightarrow> net_tx_desc list \<Rightarrow> mrp_attribute_mrpdu \<Rightarrow> mrp_application" where
  "tx_step app t n fs p = upd_pdu (app\<lparr>n_tx_alloc := n, sent := sent app @ fs\<rparr>) t p"

lemma upd_pdu_step: "upd_pdu app t p = tx_step app t (n_tx_alloc app) [] p"
  "upd_pdu (app\<lparr>sent := sent app @ fs\<rparr>) t p = tx_step app t (n_tx_alloc app) fs p"
  "upd_pdu (app\<lparr>n_tx_alloc := n\<rparr>) t p = tx_step app t n [] p"
  by (simp_all add: tx_step_def upd_pdu_def)

lemma tx_step_step: "tx_step (tx_step app t n fs p) t n' fs' p' = tx_step app t n' (fs @ fs') p'"
  by (simp add: tx_step_def upd_pdu_def)

context event_encoder
begin

lemma transmit_event_fits:
  assumes p: "mrpdu app ! t = p" and o: "open_pdu app t src vs v p" "tv_evs v = []" and cfg: "tx_cfg app t"
    and ae: "vector_add_event app = add" and val: "attribute_length app t \<le> length (at_val a)"
    and fit: "hdr_len app + length (enc_vecs vs) + 2 + attribute_length app t + length (bytes a e) + 4
      \<le> port_mtu app"
  obtains p' where "transmit_event app t a e = TxReturn (upd_pdu app t p')"
    "open_pdu app t src vs (v\<lparr>tv_fv := take (attribute_length app t) (at_val a), tv_evs := bytes a e\<rparr>) p'"
proof -
  let ?s = "hdr_len app + length (enc_vecs vs)"
  let ?fv = "take (attribute_length app t) (at_val a)"
  from o obtain d where d: "pdu_desc p = Some d" "vec_ok app t (pdu_vector p) v ?s" by (auto simp: open_pdu_def)
  have fv: "length ?fv = attribute_length app t" using val by simp
  have mtu: "port_mtu app \<le> DEFAULT_NET_DATA_SIZE" using cfg by (simp add: tx_cfg_def)
  have w: "mrp_vector_first_value (pdu_vector p) d (at_val a) = desc_write d (?s + 2) ?fv"
    using d by (simp add: mrp_vector_first_value_def Let_def vec_ok_def)
  from event_body [OF o fv mtu fit d(1) refl] obtain w' d' where
    "add a (pdu_vector p) (desc_write d (?s + 2) ?fv) e = Some (w', d')"
    "open_pdu app t src vs (v\<lparr>tv_fv := ?fv, tv_evs := bytes a e\<rparr>) (p\<lparr>pdu_desc := Some d', pdu_vector := w'\<rparr>)"
    by blast
  with that p d w ae show ?thesis by (simp add: transmit_event_def Let_def)
qed

lemma transmit_event_full:
  assumes p: "mrpdu app ! t = p" and o: "open_pdu app t src vs v p" "tv_evs v = []" and cfg: "tx_cfg app t"
    and ae: "vector_add_event app = add" and val: "attribute_length app t \<le> length (at_val a)"
    and full: "port_mtu app < hdr_len app + length (enc_vecs vs) + 2 + attribute_length app t + length (bytes a e) + 4"
  obtains d' p' where "transmit_event app t a e = TxNew (upd_pdu (app\<lparr>sent := sent app @ [d']\<rparr>) t p')"
    "idle_pdu p'" "frame_sent app t (vs @ [v\<lparr>tv_fv := take (attribute_length app t) (at_val a)\<rparr>]) d'"
proof -
  let ?s = "hdr_len app + length (enc_vecs vs)"
  let ?fv = "take (attribute_length app t) (at_val a)"
  from o obtain d where d: "pdu_desc p = Some d" "body_ok app t d src (enc_vecs vs @ enc_vec v)"
    "msg_ok app (pdu_msg p) ?s" "vec_ok app t (pdu_vector p) v ?s" by (auto simp: open_pdu_def)
  have w: "mrp_vector_first_value (pdu_vector p) d (at_val a) = desc_write d (?s + 2) ?fv"
    using d by (simp add: mrp_vector_first_value_def Let_def vec_ok_def)
  let ?h = "mrp_vector_header (if tv_lva v then 1 else 0) 0"
  have "body_ok app t (desc_write d (?s + 2) ?fv) src ((enc_vecs vs @ ?h) @ ?fv @ [])"
    by (rule body_over [of _ _ _ _ _ "tv_fv v"])
      (use d val o(2) in \<open>simp_all add: enc_vec_def tv_count_def vec_ok_def\<close>)
  then have o1: "open_pdu app t src vs (v\<lparr>tv_fv := ?fv\<rparr>) (p\<lparr>pdu_desc := Some (desc_write d (?s + 2) ?fv)\<rparr>)"
    using d o(2) val by (simp add: open_pdu_def enc_vec_def tv_count_def vec_ok_def)
  have "add a (pdu_vector p) (desc_write d (?s + 2) ?fv) e = None"
    by (rule add_full) (use d(4) o(2) full cfg in \<open>auto simp: vec_ok_def tv_count_def tx_cfg_def\<close>)
  then have ev: "transmit_event app t a e
      = TxNew (mrp_msg_error (upd_pdu app t (p\<lparr>pdu_desc := Some (desc_write d (?s + 2) ?fv)\<rparr>)) t)"
    using p d w ae by (simp add: transmit_event_def Let_def)
  let ?app = "upd_pdu app t (p\<lparr>pdu_desc := Some (desc_write d (?s + 2) ?fv)\<rparr>)"
  have nth: "mrpdu ?app ! t = p\<lparr>pdu_desc := Some (desc_write d (?s + 2) ?fv)\<rparr>" and cfg1: "tx_cfg ?app t"
    using cfg by (simp_all add: tx_cfg_def)
  obtain d' p' where "mrp_msg_error ?app t = upd_pdu (?app\<lparr>sent := sent ?app @ [d']\<rparr>) t p'" "idle_pdu p'"
    "frame_sent ?app t (vs @ [v\<lparr>tv_fv := ?fv\<rparr>]) d'"
    by (rule error_open [OF nth _ cfg1]) (use o1 in simp)
  with ev that show ?thesis by simp
qed

end

text \<open>
  The outcomes of a pass: \<open>tx_done\<close>, the event is in the vector that is open; \<open>tx_retry\<close>, the packet
  was full, it was sent and no packet is open.
\<close>

definition tx_done :: "(mrp_attribute \<Rightarrow> nat \<Rightarrow> u8 list) \<Rightarrow> mrp_application \<Rightarrow> nat \<Rightarrow> mrp_attribute option \<Rightarrow>
    nat \<Rightarrow> bool \<Rightarrow> mrp_application \<Rightarrow> bool" where
  "tx_done bytes app t attr e lva app' \<longleftrightarrow> (\<exists>n p' src vs v. app' = tx_step app t n [] p' \<and>
     open_pdu app t src vs v p' \<and> (\<forall>u\<in>set (vs @ [v]). good_vec u \<and> wf_vec bytes app t u) \<and>
     (case attr of None \<Rightarrow> lva \<longrightarrow> tv_lva v
      | Some a \<Rightarrow> tv_fv v = take (attribute_length app t) (at_val a) \<and> tv_evs v = bytes a e))"

definition tx_retry :: "(mrp_attribute \<Rightarrow> nat \<Rightarrow> u8 list) \<Rightarrow> mrp_application \<Rightarrow> nat \<Rightarrow> mrp_application \<Rightarrow> bool" where
  "tx_retry bytes app t app' \<longleftrightarrow> (\<exists>n p' f. app' = tx_step app t n [f] p' \<and> idle_pdu p' \<and> frame_ok bytes app t f)"

lemma tx_step_cfg [simp]:
  "tx_cfg (tx_step app t n fs p) = tx_cfg app" "vector_add_event (tx_step app t n fs p) = vector_add_event app"
  "attribute_length (tx_step app t n fs p) = attribute_length app" "hdr_len (tx_step app t n fs p) = hdr_len app"
  "port_mtu (tx_step app t n fs p) = port_mtu app" "open_pdu (tx_step app t n fs p) = open_pdu app"
  "closed_pdu (tx_step app t n fs p) = closed_pdu app" "wf_vec bytes (tx_step app t n fs p) = wf_vec bytes app"
  "pdu_inv bytes (tx_step app t n fs p) = pdu_inv bytes app" "app_type (tx_step app t n fs p) = app_type app"
  "frame_ok bytes (tx_step app t n fs p) = frame_ok bytes app"
  by (simp_all add: tx_step_def)

lemma tx_doneI:
  "app' = tx_step app t n [] p' \<Longrightarrow> open_pdu app t src vs v p' \<Longrightarrow>
   \<forall>u\<in>set vs. good_vec u \<and> wf_vec bytes app t u \<Longrightarrow> good_vec v \<Longrightarrow> wf_vec bytes app t v \<Longrightarrow>
   (case attr of None \<Rightarrow> lva \<longrightarrow> tv_lva v
      | Some a \<Rightarrow> tv_fv v = take (attribute_length app t) (at_val a) \<and> tv_evs v = bytes a e) \<Longrightarrow>
   tx_done bytes app t attr e lva app'"
  unfolding tx_done_def set_append by fastforce

lemma tx_done_trans:
  "tx_done bytes (tx_step app t n [] p) t attr e lva app' \<Longrightarrow> tx_done bytes app t attr e lva app'"
  unfolding tx_done_def tx_step_step tx_step_cfg append_Nil by blast

lemma tx_retry_trans:
  "tx_retry bytes (tx_step app t n [] p) t app' \<Longrightarrow> tx_retry bytes app t app'"
  unfolding tx_retry_def tx_step_step tx_step_cfg append_Nil by blast

lemma tx_step_nth [simp]: "tx_cfg app t \<Longrightarrow> mrpdu (tx_step app t n fs p) ! t = p"
  by (simp add: tx_step_def tx_cfg_def)

context event_encoder
begin

lemma transmit_event_outcome:
  assumes p: "mrpdu app ! t = p" and o: "open_pdu app t src vs v p" "tv_evs v = []" and cfg: "tx_cfg app t"
    and ae: "vector_add_event app = add" and val: "attribute_length app t \<le> length (at_val a)"
    and vs: "\<forall>u\<in>set vs. good_vec u \<and> wf_vec bytes app t u"
  shows "(\<exists>app'. transmit_event app t a e = TxReturn app' \<and> tx_done bytes app t (Some a) e lva app') \<or>
    (vs \<noteq> [] \<and> (\<exists>app'. transmit_event app t a e = TxNew app' \<and> tx_retry bytes app t app'))"
proof (cases "hdr_len app + length (enc_vecs vs) + 2 + attribute_length app t + length (bytes a e) + 4
      \<le> port_mtu app")
  case True
  let ?v = "v\<lparr>tv_fv := take (attribute_length app t) (at_val a), tv_evs := bytes a e\<rparr>"
  obtain p' where p': "transmit_event app t a e = TxReturn (upd_pdu app t p')" "open_pdu app t src vs ?v p'"
    by (rule transmit_event_fits [OF p o cfg ae val True])
  have "good_vec ?v" "wf_vec bytes app t ?v"
    using bytes_len(1) [of a e] val by (auto simp: good_vec_def wf_vec_def)
  with p'(2) vs have "tx_done bytes app t (Some a) e lva (upd_pdu app t p')"
    unfolding upd_pdu_step by (intro tx_doneI [OF refl p'(2)]) simp_all
  with p'(1) show ?thesis by blast
next
  case False
  let ?v = "v\<lparr>tv_fv := take (attribute_length app t) (at_val a)\<rparr>"
  from False have full: "port_mtu app < hdr_len app + length (enc_vecs vs) + 2 + attribute_length app t +
      length (bytes a e) + 4" by linarith
  obtain d' p' where d': "transmit_event app t a e = TxNew (upd_pdu (app\<lparr>sent := sent app @ [d']\<rparr>) t p')"
    "idle_pdu p'" "frame_sent app t (vs @ [?v]) d'"
    by (rule transmit_event_full [OF p o cfg ae val full])
  have "wf_vec bytes app t ?v" using val o(2) by (simp add: wf_vec_def)
  then have "frame_ok bytes app t d'" using d'(3) vs unfolding frame_ok_def by auto
  with d'(2) have "tx_retry bytes app t (upd_pdu (app\<lparr>sent := sent app @ [d']\<rparr>) t p')"
    unfolding tx_retry_def upd_pdu_step(2) by blast
  moreover have "vs \<noteq> []"
    using False cfg bytes_len(2) [of a e] by (auto simp: tx_cfg_def)
  ultimately show ?thesis using d'(1) by blast
qed

lemma transmit_attr_outcome:
  assumes p: "mrpdu app ! t = p" and o: "open_pdu app t src vs v p" and cfg: "tx_cfg app t"
    and ae: "vector_add_event app = add" and val: "attribute_length app t \<le> length (at_val a)"
    and vs: "\<forall>u\<in>set vs. good_vec u \<and> wf_vec bytes app t u" and v: "wf_vec bytes app t v"
  shows "(\<exists>app'. transmit_attr app t a e = TxReturn app' \<and> tx_done bytes app t (Some a) e lva app') \<or>
    ((vs \<noteq> [] \<or> tv_evs v \<noteq> []) \<and> (\<exists>app'. transmit_attr app t a e = TxNew app' \<and> tx_retry bytes app t app'))"
proof (cases "tv_evs v = []")
  case True
  then have "transmit_attr app t a e = transmit_event app t a e"
    using p open_pdu_count [OF o] by (simp add: transmit_attr_def Let_def)
  with transmit_event_outcome [OF p o True cfg ae val vs, of e lva] show ?thesis by auto
next
  case False
  have n0: "v_number_of_values (pdu_vector p) \<noteq> 0" using open_pdu_count [OF o] False by simp
  have gv: "good_vec v" using False by (simp add: good_vec_def)
  have t: "t < length (mrpdu app)" "port_mtu app \<le> DEFAULT_NET_DATA_SIZE" "4 \<le> port_mtu app"
    using cfg by (auto simp: tx_cfg_def)
  have all: "\<forall>u\<in>set (vs @ [v]). good_vec u \<and> wf_vec bytes app t u" using vs v gv by auto
  then have ok: "frame_ok bytes app t d" if "frame_sent app t (vs @ [v]) d" for d
    using that unfolding frame_ok_def by auto
  show ?thesis
  proof (cases "app_type app = APP_MSRP \<and> at_type a = MSRP_ATTR_TYPE_DOMAIN")
    case True
    from transmit_end_open [OF p t(1) o t(2,3)] obtain d' p' where
      "mrp_transmit_end app t = upd_pdu (app\<lparr>sent := sent app @ [d']\<rparr>) t p'" "idle_pdu p'"
      "frame_sent app t (vs @ [v]) d'" by blast
    with ok have "tx_retry bytes app t (mrp_transmit_end app t)"
      unfolding tx_retry_def upd_pdu_step(2) by metis
    with True False n0 p show ?thesis by (simp add: transmit_attr_def Let_def)
  next
    case nodom: False
    obtain len w d where c: "mrp_vector_end (pdu_vector p) (the (pdu_desc p)) False = (len, w, d)"
      "closed_pdu app t src (vs @ [v]) \<lparr>pdu_desc = Some d,
         pdu_msg = (pdu_msg p)\<lparr>m_end := m_end (pdu_msg p) + len\<rparr>, pdu_vector = w\<rparr>"
      by (rule vector_close [OF o])
    define pc where "pc = \<lparr>pdu_desc = Some d, pdu_msg = (pdu_msg p)\<lparr>m_end := m_end (pdu_msg p) + len\<rparr>,
      pdu_vector = w\<rparr>"
    define app1 where "app1 = upd_pdu app t pc"
    have a1: "app1 = tx_step app t (n_tx_alloc app) [] pc" unfolding app1_def by (rule upd_pdu_step(1))
    have eq: "transmit_attr app t a e = (case transmit_vector app1 t of
        (False, app2) \<Rightarrow> TxNew (mrp_msg_error app2 t)
      | (True, app2) \<Rightarrow> transmit_event app2 t a e)"
      using n0 nodom p c(1) unfolding transmit_attr_def app1_def pc_def by (auto simp: Let_def)
    have nth: "mrpdu app1 ! t = pc" and cfg1: "tx_cfg app1 t" and cl: "closed_pdu app1 t src (vs @ [v]) pc"
      using cfg c(2) t by (simp_all add: app1_def pc_def)
    have room: "hdr_len app1 + length (enc_vecs (vs @ [v])) + 4 \<le> port_mtu app1"
      using open_pdu_room [OF o cfg] by (simp add: app1_def)
    show ?thesis
    proof (cases "hdr_len app1 + length (enc_vecs (vs @ [v])) + 2 + attribute_length app1 t + 4 \<le> port_mtu app1")
      case True
      obtain p2 v2 where 2: "transmit_vector app1 t = (True, upd_pdu app1 t p2)"
        "open_pdu app1 t src (vs @ [v]) v2 p2" "tv_evs v2 = []" "\<not> tv_lva v2"
        by (rule transmit_vector_fits [OF nth cl cfg1 True])
      let ?app2 = "upd_pdu app1 t p2"
      have a2: "?app2 = tx_step app t (n_tx_alloc app) [] p2"
        unfolding app1_def upd_pdu_twice by (rule upd_pdu_step(1))
      have "(\<exists>app'. transmit_event ?app2 t a e = TxReturn app' \<and> tx_done bytes ?app2 t (Some a) e lva app') \<or>
        (vs @ [v] \<noteq> [] \<and> (\<exists>app'. transmit_event ?app2 t a e = TxNew app' \<and> tx_retry bytes ?app2 t app'))"
        by (rule transmit_event_outcome [where p = p2 and src = src and v = v2])
          (use 2 cfg1 t ae val all in \<open>simp_all add: app1_def\<close>)
      then show ?thesis
        unfolding eq 2(1) a2 using False tx_done_trans tx_retry_trans by auto
    next
      case f: False
      then have full: "port_mtu app1 < hdr_len app1 + length (enc_vecs (vs @ [v])) + 2 +
          attribute_length app1 t + 4" by linarith
      obtain app' d' p' where 2: "transmit_vector app1 t = (False, app')"
        "mrp_msg_error app' t = upd_pdu (app1\<lparr>sent := sent app1 @ [d']\<rparr>) t p'" "idle_pdu p'"
        "frame_sent app1 t (vs @ [v]) d'"
        by (rule transmit_vector_full [OF nth cl cfg1 full room])
      have "upd_pdu (app1\<lparr>sent := sent app1 @ [d']\<rparr>) t p' = tx_step app t (n_tx_alloc app) [d'] p'"
        by (simp add: app1_def tx_step_def upd_pdu_def)
      moreover have "frame_ok bytes app t d'" using ok 2(4) by (simp add: app1_def)
      ultimately have "tx_retry bytes app t (mrp_msg_error app' t)"
        unfolding 2(2) tx_retry_def using 2(3) by blast
      then show ?thesis unfolding eq 2(1) using False by auto
    qed
  qed
qed

lemma transmit_tail_outcome:
  assumes p: "mrpdu app ! t = p" and o: "open_pdu app t src vs v p" and cfg: "tx_cfg app t"
    and ae: "vector_add_event app = add"
    and val: "\<And>a. attr = Some a \<Longrightarrow> attribute_length app t \<le> length (at_val a)"
    and vs: "\<forall>u\<in>set vs. good_vec u \<and> wf_vec bytes app t u" and v: "wf_vec bytes app t v"
    and lva: "attr = None \<Longrightarrow> lva"
  shows "(\<exists>app'. transmit_tail app t attr e lva = TxReturn app' \<and> tx_done bytes app t attr e lva app') \<or>
    ((vs \<noteq> [] \<or> tv_evs v \<noteq> []) \<and> (\<exists>app'. transmit_tail app t attr e lva = TxNew app' \<and> tx_retry bytes app t app'))"
proof -
  from o obtain d where d: "pdu_desc p = Some d" by (auto simp: open_pdu_def)
  define v1 where "v1 = (if lva then v\<lparr>tv_lva := True\<rparr> else v)"
  obtain w1 d1 where 1: "(if lva then mrp_vector_leaveall_event (pdu_vector p) (the (pdu_desc p)) 1
      else (pdu_vector p, the (pdu_desc p))) = (w1, d1)"
    "open_pdu app t src vs v1 (p\<lparr>pdu_desc := Some d1, pdu_vector := w1\<rparr>)"
  proof (cases lva)
    case True
    obtain w d' where "mrp_vector_leaveall_event (pdu_vector p) d 1 = (w, d')"
      "open_pdu app t src vs (v\<lparr>tv_lva := True\<rparr>) (p\<lparr>pdu_desc := Some d', pdu_vector := w\<rparr>)"
      by (rule leaveall_open [OF o d])
    with True d that show ?thesis by (simp add: v1_def)
  next
    case False
    have "p\<lparr>pdu_desc := Some d, pdu_vector := pdu_vector p\<rparr> = p" using d by (cases p) simp
    with False d o that [of "pdu_vector p" d] show ?thesis by (simp add: v1_def)
  qed
  define p1 where "p1 = p\<lparr>pdu_desc := Some d1, pdu_vector := w1\<rparr>"
  define app1 where "app1 = upd_pdu app t p1"
  have a1: "app1 = tx_step app t (n_tx_alloc app) [] p1" unfolding app1_def by (rule upd_pdu_step(1))
  have v1: "wf_vec bytes app t v1" "tv_evs v1 = tv_evs v" using v by (simp_all add: v1_def wf_vec_def)
  have t: "t < length (mrpdu app)" using cfg by (simp add: tx_cfg_def)
  have eq: "transmit_tail app t attr e lva
      = (case attr of None \<Rightarrow> TxReturn app1 | Some a \<Rightarrow> transmit_attr app1 t a e)"
    using p 1(1) unfolding transmit_tail_def app1_def p1_def by (auto simp: Let_def)
  show ?thesis
  proof (cases attr)
    case None
    with lva have "tv_lva v1" "good_vec v1" by (auto simp: v1_def good_vec_def)
    with None 1(2) vs v1 have "tx_done bytes app t attr e lva app1"
      by (intro tx_doneI [OF a1]) (auto simp: p1_def)
    then show ?thesis unfolding eq using None by simp
  next
    case (Some a)
    have "(\<exists>app'. transmit_attr app1 t a e = TxReturn app' \<and> tx_done bytes app1 t (Some a) e lva app') \<or>
      ((vs \<noteq> [] \<or> tv_evs v1 \<noteq> []) \<and> (\<exists>app'. transmit_attr app1 t a e = TxNew app' \<and> tx_retry bytes app1 t app'))"
      by (rule transmit_attr_outcome [where p = p1 and src = src])
        (use 1(2) cfg ae val Some vs v1(1) t in \<open>simp_all add: app1_def p1_def\<close>)
    then show ?thesis unfolding eq using Some v1(2) tx_done_trans tx_retry_trans unfolding a1 by auto
  qed
qed

lemma transmit_pass_open:
  assumes p: "mrpdu app ! t = p" and o: "open_pdu app t src vs v p" and cfg: "tx_cfg app t"
    and ae: "vector_add_event app = add"
    and val: "\<And>a. attr = Some a \<Longrightarrow> attribute_length app t \<le> length (at_val a)"
    and vs: "\<forall>u\<in>set (vs @ [v]). good_vec u \<and> wf_vec bytes app t u"
    and lva: "attr = None \<Longrightarrow> lva"
  shows "(\<exists>app'. mrp_transmit_pass app t attr e lva = TxReturn app' \<and> tx_done bytes app t attr e lva app') \<or>
    (\<exists>app'. mrp_transmit_pass app t attr e lva = TxNew app' \<and> tx_retry bytes app t app')"
proof -
  have "transmit_open app t = (True, app)" "v_start (pdu_vector p) \<noteq> None"
    using o p by (auto simp: open_pdu_def vec_ok_def transmit_open_def Let_def)
  then have "mrp_transmit_pass app t attr e lva = transmit_tail app t attr e lva"
    using p by (auto simp: mrp_transmit_pass_def)
  moreover have "\<forall>u\<in>set vs. good_vec u \<and> wf_vec bytes app t u" "wf_vec bytes app t v" using vs by auto
  ultimately show ?thesis
    using transmit_tail_outcome [where attr = attr and lva = lva and e = e, OF p o cfg ae val _ _ lva]
    by auto
qed

lemma transmit_pass_idle:
  assumes p: "mrpdu app ! t = p" "idle_pdu p" and cfg: "tx_cfg app t"
    and ae: "vector_add_event app = add"
    and val: "\<And>a. attr = Some a \<Longrightarrow> attribute_length app t \<le> length (at_val a)"
    and lva: "attr = None \<Longrightarrow> lva"
  shows "\<exists>app'. mrp_transmit_pass app t attr e lva = TxReturn app' \<and>
    (app' = app\<lparr>n_tx_alloc := n_tx_alloc app + 1\<rparr> \<and> tx_alloc app (n_tx_alloc app) = None \<or>
     tx_done bytes app t attr e lva app')"
proof (cases "tx_alloc app (n_tx_alloc app)")
  case None
  then show ?thesis using p by (simp add: mrp_transmit_pass_def transmit_open_def idle_pdu_def Let_def)
next
  case (Some b)
  let ?app0 = "app\<lparr>n_tx_alloc := n_tx_alloc app + 1\<rparr>"
  obtain src p1 where 1: "transmit_open app t = (True, upd_pdu ?app0 t p1)" "closed_pdu app t src [] p1"
    by (rule transmit_open_idle [OF p cfg Some])
  let ?app1 = "upd_pdu ?app0 t p1"
  have t: "t < length (mrpdu app)" using cfg by (simp add: tx_cfg_def)
  have nth: "mrpdu ?app1 ! t = p1" and cfg1: "tx_cfg ?app1 t" and c1: "closed_pdu ?app1 t src [] p1"
    using t cfg 1(2) by simp_all
  have fit: "hdr_len ?app1 + length (enc_vecs []) + 2 + attribute_length ?app1 t + 4 \<le> port_mtu ?app1"
    using cfg by (simp add: tx_cfg_def)
  obtain p2 v where 2: "transmit_vector ?app1 t = (True, upd_pdu ?app1 t p2)" "open_pdu ?app1 t src [] v p2"
    "tv_evs v = []" "\<not> tv_lva v"
    by (rule transmit_vector_fits [OF nth c1 cfg1 fit])
  let ?app2 = "upd_pdu ?app1 t p2"
  have a2: "?app2 = tx_step app t (n_tx_alloc app + 1) [] p2"
    unfolding upd_pdu_twice by (rule upd_pdu_step(3))
  have "v_start (pdu_vector p1) = None" using 1(2) by (auto simp: closed_pdu_def)
  then have eq: "mrp_transmit_pass app t attr e lva = transmit_tail ?app2 t attr e lva"
    using 1(1) 2(1) nth by (simp add: mrp_transmit_pass_def del: upd_pdu_twice)
  have wf: "wf_vec bytes app t v"
    using 2(2,3) by (auto simp: wf_vec_def open_pdu_def vec_ok_def)
  have "(\<exists>app'. transmit_tail ?app2 t attr e lva = TxReturn app' \<and> tx_done bytes ?app2 t attr e lva app') \<or>
    (([] :: tx_vec list) \<noteq> [] \<or> tv_evs v \<noteq> []) \<and>
      (\<exists>app'. transmit_tail ?app2 t attr e lva = TxNew app' \<and> tx_retry bytes ?app2 t app')"
    by (rule transmit_tail_outcome [where p = p2 and src = src])
      (use 2 t cfg ae val lva wf in \<open>simp_all\<close>)
  with 2(3) obtain app' where "transmit_tail ?app2 t attr e lva = TxReturn app'"
    "tx_done bytes ?app2 t attr e lva app'" by auto
  with tx_done_trans show ?thesis unfolding eq a2 by auto
qed

lemma transmit_first:
  assumes p: "mrpdu app ! t = p" "idle_pdu p" and cfg: "tx_cfg app t" and ae: "vector_add_event app = add"
    and val: "attribute_length app t \<le> length (at_val a)" and al: "tx_alloc app (n_tx_alloc app) = Some b"
  shows "\<exists>p' src v. mrp_transmit_action app t (Some a) e False = tx_step app t (n_tx_alloc app + 1) [] p' \<and>
    open_pdu app t src [] v p' \<and> tv_evs v = bytes a e"
proof -
  let ?app0 = "app\<lparr>n_tx_alloc := n_tx_alloc app + 1\<rparr>"
  obtain src p1 where 1: "transmit_open app t = (True, upd_pdu ?app0 t p1)" "closed_pdu app t src [] p1"
    by (rule transmit_open_idle [OF p cfg al])
  let ?app1 = "upd_pdu ?app0 t p1"
  have t: "t < length (mrpdu app)" using cfg by (simp add: tx_cfg_def)
  have nth: "mrpdu ?app1 ! t = p1" and cfg1: "tx_cfg ?app1 t" and c1: "closed_pdu ?app1 t src [] p1"
    using t cfg 1(2) by simp_all
  have fit: "hdr_len ?app1 + length (enc_vecs []) + 2 + attribute_length ?app1 t + 4 \<le> port_mtu ?app1"
    using cfg by (simp add: tx_cfg_def)
  obtain p2 v where 2: "transmit_vector ?app1 t = (True, upd_pdu ?app1 t p2)" "open_pdu ?app1 t src [] v p2"
    "tv_evs v = []" "\<not> tv_lva v"
    by (rule transmit_vector_fits [OF nth c1 cfg1 fit])
  let ?app2 = "upd_pdu ?app1 t p2"
  have 3: "mrpdu ?app2 ! t = p2" "open_pdu ?app2 t src [] v p2" "tx_cfg ?app2 t" "vector_add_event ?app2 = add"
    "attribute_length ?app2 t \<le> length (at_val a)"
    "hdr_len ?app2 + length (enc_vecs []) + 2 + attribute_length ?app2 t + length (bytes a e) + 4 \<le> port_mtu ?app2"
    using 2(2) t cfg ae val bytes_len(2) [of a e] by (simp_all add: tx_cfg_def)
  obtain p3 where 4: "transmit_event ?app2 t a e = TxReturn (upd_pdu ?app2 t p3)"
    "open_pdu ?app2 t src [] (v\<lparr>tv_fv := take (attribute_length ?app2 t) (at_val a), tv_evs := bytes a e\<rparr>) p3"
    by (rule transmit_event_fits [OF 3(1,2) 2(3) 3(3-6)])
  have n0: "v_number_of_values (pdu_vector p2) = 0" using open_pdu_count [OF 2(2)] 2(3) by simp
  obtain d2 where d2: "pdu_desc p2 = Some d2" using 2(2) by (auto simp: open_pdu_def)
  have "p2\<lparr>pdu_desc := Some d2\<rparr> = p2" using d2 by (cases p2) simp
  then have "upd_pdu ?app2 t (p2\<lparr>pdu_desc := Some d2\<rparr>) = ?app2" by (simp only: upd_pdu_id [OF 3(1)])
  moreover have "v_start (pdu_vector p1) = None" using 1(2) by (auto simp: closed_pdu_def)
  ultimately have "mrp_transmit_pass app t (Some a) e False = transmit_event ?app2 t a e"
    using 1(1) 2(1) nth 3(1) n0 d2
    by (simp add: mrp_transmit_pass_def transmit_tail_def transmit_attr_def Let_def del: upd_pdu_twice)
  then have "mrp_transmit_action app t (Some a) e False = upd_pdu ?app2 t p3"
    using 4(1) by (simp add: mrp_transmit_action_def numeral_2_eq_2)
  moreover have "upd_pdu ?app2 t p3 = tx_step app t (n_tx_alloc app + 1) [] p3"
    unfolding upd_pdu_twice by (rule upd_pdu_step(3))
  ultimately show ?thesis
    using 4(2) by (intro exI conjI) auto
qed

text \<open>The loop, and what a call leaves.\<close>

lemma transmit_loop_outcome:
  assumes p: "mrpdu app ! t = p" "pdu_inv bytes app t p" and cfg: "tx_cfg app t"
    and ae: "vector_add_event app = add"
    and val: "\<And>a. attr = Some a \<Longrightarrow> attribute_length app t \<le> length (at_val a)"
    and lva: "attr = None \<Longrightarrow> lva"
  shows "\<exists>n fs p'. mrp_transmit_loop 2 app t attr e lva = Some (tx_step app t n fs p') \<and>
    (\<forall>f\<in>set fs. frame_ok bytes app t f) \<and> length fs \<le> 1 \<and>
    (idle_pdu p' \<and> (\<exists>m. tx_alloc app m = None) \<or>
     (\<exists>q. tx_done bytes (tx_step app t n fs q) t attr e lva (tx_step app t n fs p')))"
proof -
  have idle: "\<exists>n p'. mrp_transmit_pass app' t attr e lva = TxReturn (tx_step app t n fs p') \<and>
      (idle_pdu p' \<and> (\<exists>m. tx_alloc app m = None) \<or>
       (\<exists>q. tx_done bytes (tx_step app t n fs q) t attr e lva (tx_step app t n fs p')))"
    if a': "app' = tx_step app t n0 fs q" and q: "idle_pdu q" for app' n0 fs q
  proof -
    have nth: "mrpdu app' ! t = q" and c: "tx_cfg app' t" "vector_add_event app' = add"
      "\<And>a. attr = Some a \<Longrightarrow> attribute_length app' t \<le> length (at_val a)"
      using cfg ae val by (simp_all add: a')
    from transmit_pass_idle [where attr = attr and lva = lva and e = e, OF nth q c lva] obtain app'' where
      "mrp_transmit_pass app' t attr e lva = TxReturn app''"
      "app'' = app'\<lparr>n_tx_alloc := n_tx_alloc app' + 1\<rparr> \<and> tx_alloc app' (n_tx_alloc app') = None \<or>
       tx_done bytes app' t attr e lva app''" by blast
    moreover have "app'\<lparr>n_tx_alloc := n\<rparr> = tx_step app t n fs q" for n
      by (simp add: a' tx_step_def upd_pdu_def)
    moreover have "tx_alloc app' = tx_alloc app" by (simp add: a' tx_step_def upd_pdu_def)
    moreover have "\<exists>n p'. app'' = tx_step app t n fs p' \<and>
        tx_done bytes (tx_step app t n fs q) t attr e lva (tx_step app t n fs p')"
      if d: "tx_done bytes app' t attr e lva app''"
    proof -
      from d obtain n p' where a2: "app'' = tx_step app t n fs p'"
        unfolding tx_done_def a' tx_step_step by auto
      have "tx_done bytes (tx_step app t n fs q) t attr e lva (tx_step app t n fs p')"
        using d unfolding a2 a' tx_done_def tx_step_cfg tx_step_step by blast
      with a2 show ?thesis by blast
    qed
    ultimately show ?thesis using q by metis
  qed
  consider (i) "idle_pdu p" | (o) src vs v where "open_pdu app t src vs v p"
    "\<forall>u\<in>set (vs @ [v]). good_vec u \<and> wf_vec bytes app t u"
    using p(2) by (auto simp: pdu_inv_def)
  then show ?thesis
  proof cases
    case i
    have "app = tx_step app t (n_tx_alloc app) [] p"
      using p(1) upd_pdu_id [of app t p] by (simp add: upd_pdu_step(1) [symmetric])
    from idle [OF this i] obtain n p' where r: "mrp_transmit_pass app t attr e lva = TxReturn (tx_step app t n [] p')"
      "idle_pdu p' \<and> (\<exists>m. tx_alloc app m = None) \<or>
       (\<exists>q. tx_done bytes (tx_step app t n [] q) t attr e lva (tx_step app t n [] p'))" by blast
    show ?thesis
      by (rule exI [where x = n], rule exI [where x = "[]"], rule exI [where x = p'])
        (use r in \<open>simp add: numeral_2_eq_2\<close>)
  next
    case o
    have "(\<exists>app'. mrp_transmit_pass app t attr e lva = TxReturn app' \<and> tx_done bytes app t attr e lva app') \<or>
      (\<exists>app'. mrp_transmit_pass app t attr e lva = TxNew app' \<and> tx_retry bytes app t app')"
      by (rule transmit_pass_open [OF p(1) o(1) cfg ae _ o(2)]) (use val lva in auto)
    then show ?thesis
    proof (elim disjE exE conjE)
      fix app' assume "mrp_transmit_pass app t attr e lva = TxReturn app'" "tx_done bytes app t attr e lva app'"
      moreover from this(2) obtain n p' where a': "app' = tx_step app t n [] p'" by (auto simp: tx_done_def)
      moreover have "tx_done bytes (tx_step app t n [] p) t attr e lva (tx_step app t n [] p')"
        using calculation(2) unfolding a' tx_done_def tx_step_cfg tx_step_step append_Nil by blast
      ultimately show ?thesis
        by (intro exI [where x = n] exI [where x = "[]"] exI [where x = p']) (auto simp: numeral_2_eq_2)
    next
      fix app' assume r: "mrp_transmit_pass app t attr e lva = TxNew app'" "tx_retry bytes app t app'"
      then obtain n p' f where a': "app' = tx_step app t n [f] p'" "idle_pdu p'" "frame_ok bytes app t f"
        by (auto simp: tx_retry_def)
      from idle [OF a'(1,2)] obtain n2 p2 where r2:
        "mrp_transmit_pass app' t attr e lva = TxReturn (tx_step app t n2 [f] p2)"
        "idle_pdu p2 \<and> (\<exists>m. tx_alloc app m = None) \<or>
         (\<exists>q. tx_done bytes (tx_step app t n2 [f] q) t attr e lva (tx_step app t n2 [f] p2))" by blast
      show ?thesis
        by (rule exI [where x = n2], rule exI [where x = "[f]"], rule exI [where x = p2])
          (use r(1) r2 a'(3) in \<open>simp add: numeral_2_eq_2\<close>)
    qed
  qed
qed

lemma transmit_action_outcome:
  assumes p: "pdu_inv bytes app t (mrpdu app ! t)" and cfg: "tx_cfg app t"
    and ae: "vector_add_event app = add"
    and val: "\<And>a. attr = Some a \<Longrightarrow> attribute_length app t \<le> length (at_val a)"
    and lva: "attr = None \<Longrightarrow> lva"
  shows "\<exists>n fs p'. mrp_transmit_action app t attr e lva = tx_step app t n fs p' \<and>
    (\<forall>f\<in>set fs. frame_ok bytes app t f) \<and> length fs \<le> 1 \<and> pdu_inv bytes app t p' \<and>
    ((\<forall>m. tx_alloc app m \<noteq> None) \<longrightarrow> (\<exists>src vs v. open_pdu app t src vs v p' \<and>
      (case attr of None \<Rightarrow> tv_lva v
       | Some a \<Rightarrow> tv_fv v = take (attribute_length app t) (at_val a) \<and> tv_evs v = bytes a e)))"
proof -
  from transmit_loop_outcome [where attr = attr and lva = lva and e = e, OF refl p cfg ae val lva] obtain n fs p' where
    r: "mrp_transmit_loop 2 app t attr e lva = Some (tx_step app t n fs p')"
    "\<forall>f\<in>set fs. frame_ok bytes app t f" "length fs \<le> 1"
    "idle_pdu p' \<and> (\<exists>m. tx_alloc app m = None) \<or>
     (\<exists>q. tx_done bytes (tx_step app t n fs q) t attr e lva (tx_step app t n fs p'))" by blast
  have a: "mrp_transmit_action app t attr e lva = tx_step app t n fs p'"
    using r(1) by (simp add: mrp_transmit_action_def)
  have "pdu_inv bytes app t p'" if "idle_pdu p'" using that by (simp add: pdu_inv_def)
  moreover have "pdu_inv bytes app t p' \<and> (\<exists>src vs v. open_pdu app t src vs v p' \<and>
      (case attr of None \<Rightarrow> tv_lva v
       | Some a \<Rightarrow> tv_fv v = take (attribute_length app t) (at_val a) \<and> tv_evs v = bytes a e))"
    if "tx_done bytes (tx_step app t n fs q) t attr e lva (tx_step app t n fs p')" for q
  proof -
    from that obtain n' p2 src vs v where 1: "tx_step app t n fs p' = tx_step app t n' fs p2"
      "open_pdu app t src vs v p2" "\<forall>u\<in>set (vs @ [v]). good_vec u \<and> wf_vec bytes app t u"
      "case attr of None \<Rightarrow> lva \<longrightarrow> tv_lva v
       | Some a \<Rightarrow> tv_fv v = take (attribute_length app t) (at_val a) \<and> tv_evs v = bytes a e"
      unfolding tx_done_def tx_step_cfg tx_step_step append_Nil2 by blast
    have "p2 = p'" using 1(1) tx_step_nth [OF cfg] by metis
    with 1 lva show ?thesis by (cases attr) (auto simp: pdu_inv_def)
  qed
  ultimately show ?thesis using a r(2-4) by blast
qed

end

subsection \<open>Packed fields\<close>

lemma unat_ucast_u8_u16: "unat (ucast (l::u8) :: u16) = unat l"
  using unat_u8_less [of l] by (simp add: unsigned_ucast_eq take_bit_nat_eq_self)

lemma unat_header:
  assumes "unat l < 8" and "unat n < 8192"
  shows "unat (ucast (l::u8) * 8192 + n :: u16) = unat l * 8192 + unat n"
proof -
  have "unat (ucast l :: u16) = unat l" by (rule unat_ucast_u8_u16)
  then show ?thesis using assms by (simp add: unat_word_ariths)
qed

lemma vector_header_roundtrip:
  assumes "unat l < 8" and "unat n < 8192"
  shows "mrp_get_vector_header (mrp_vector_header l n ! 0) (mrp_vector_header l n ! 1) = (ucast l, ucast n)"
proof -
  let ?h = "ucast l * 8192 + n :: u16"
  have u: "unat ?h = unat l * 8192 + unat n" using unat_header [OF assms] .
  have "unat (?h div 8192) = unat l" "unat (?h mod 8192) = unat n"
    using assms u by (simp_all add: unat_div unat_mod)
  moreover have "unat (ucast l :: u16) = unat l" by (rule unat_ucast_u8_u16)
  ultimately have "?h div 8192 = ucast l" "?h mod 8192 = n" by (simp_all add: word_unat_eq_iff)
  moreover have "ucast (ucast l :: u16) = (ucast l :: u32)" by (rule bit_word_eqI) (auto simp: bit_simps dest: bit_imp_le_length)
  ultimately show ?thesis by (simp add: mrp_get_vector_header_def mrp_vector_header_def Let_def)
qed

lemma u32_small: "e < 6 \<Longrightarrow> e = 0 \<or> e = 1 \<or> e = 2 \<or> e = 3 \<or> e = 4 \<or> e = (5::u32)"
  unfolding word_less_nat_alt word_unat_eq_iff by simp linarith

lemma three_packed_roundtrip:
  assumes "e0 < 6" and "e1 < 6" and "e2 < 6"
  shows "mrp_get_three_packed_event (mrp_three_packed_event e0 e1 e2) = [e0, e1, e2]"
  using u32_small [OF assms(1)] u32_small [OF assms(2)] u32_small [OF assms(3)]
  by (elim disjE; simp add: mrp_get_three_packed_event_def mrp_three_packed_event_def Let_def)

lemma u32_small4: "e < 4 \<Longrightarrow> e = 0 \<or> e = 1 \<or> e = 2 \<or> e = (3::u32)"
  unfolding word_less_nat_alt word_unat_eq_iff by simp linarith

lemma four_packed_roundtrip:
  assumes "e0 < 4" and "e1 < 4" and "e2 < 4" and "e3 < 4"
  shows "mrp_get_four_packed_event (mrp_four_packed_event e0 e1 e2 e3) = [e0, e1, e2, e3]"
  using u32_small4 [OF assms(1)] u32_small4 [OF assms(2)] u32_small4 [OF assms(3)] u32_small4 [OF assms(4)]
  by (elim disjE; simp add: mrp_get_four_packed_event_def mrp_four_packed_event_def Let_def)

subsection \<open>Properties\<close>


text \<open>An MVRP-like application with idle packets.\<close>

definition idle_ex :: mrp_attribute_mrpdu where
  "idle_ex = \<lparr>pdu_desc = None, pdu_msg = \<lparr>m_start = None, m_vector_start = 0, m_end = 0, m_end_max = 0\<rparr>,
     pdu_vector = \<lparr>v_start = None, v_event_start = 0, v_end = 0, v_end_max = 0, v_number_of_values = 0,
       v_leave_all_event = 0\<rparr>\<rparr>"

definition timer_ex0 :: soft_timer where "timer_ex0 = \<lparr>tm_created = True, tm_started = False\<rparr>"

definition mrp_ex :: "nat \<Rightarrow> mrp_application" where
  "mrp_ex mtu = \<lparr>app_type = APP_MVRP, participant_type = 3,
     leaveall = \<lparr>la_state = MRP_TIMER_PASSIVE, la_action = MRP_ACTION_NONE, la_timer = timer_ex0\<rparr>,
     attributes = replicate 5 [], attributes_ordered = replicate 5 [],
     periodic = \<lparr>per_state = MRP_TIMER_ACTIVE, per_action = MRP_ACTION_NONE, per_timer = timer_ex0\<rparr>,
     join_timer = timer_ex0, attribute_length = (\<lambda>_. 2), attribute_value_length = (\<lambda>_. 2),
     vector_add_event = (\<lambda>a. mrp_vector_add_event),
     dst_mac = [1, 128, 194, 0, 0, 33], ethertype = 35061, min_attr_type = 1, max_attr_type = 1,
     num_rx_pkts = 0, proto_version = 0, has_attribute_list_length = False, enabled = True,
     mrpdu = replicate 5 idle_ex, leave_timeout = 600, port_mtu = mtu, attrs = Map.empty, next_attr = 0,
     tx_alloc = (\<lambda>_. Some (replicate DEFAULT_NET_DATA_SIZE 0)), n_tx_alloc = 0,
     malloc_ok = (\<lambda>_. True), malloc_state = (\<lambda>_. MRP_STATE_VO), n_malloc = 0, timer_ok = (\<lambda>_. True), n_timer = 0,
     os_random = (\<lambda>_. 0), n_random = 0, sent = [], hung = False\<rparr>"

definition attr_ex :: "u8 \<Rightarrow> mrp_attribute" where
  "attr_ex vid = \<lparr>at_type = 1, at_val = [0, vid],
     at_applicant = \<lparr>ap_state = MRP_STATE_VP, ap_action = MRP_ACTION_SJ\<rparr>,
     at_registrar = \<lparr>reg_state = MRP_STATE_MT, reg_action = MRP_ACTION_NONE, reg_leave = timer_ex0\<rparr>\<rparr>"

abbreviation three_bytes :: "mrp_attribute \<Rightarrow> nat \<Rightarrow> u8 list" where
  "three_bytes \<equiv> \<lambda>a ev. [mrp_three_packed_event (of_nat ev) 0 0]"

lemma mrp_ex_ok:
  "27 \<le> mtu \<Longrightarrow> mtu \<le> DEFAULT_NET_DATA_SIZE \<Longrightarrow> t < 5 \<Longrightarrow> tx_cfg (mrp_ex mtu) t"
  "t < 5 \<Longrightarrow> idle_pdu (mrpdu (mrp_ex mtu) ! t)"
  "event_encoder (vector_add_event (mrp_ex mtu)) three_bytes"
  using three.event_encoder_axioms
  by (simp_all add: tx_cfg_def mrp_ex_def hdr_len_def mrp_hdr_len_def idle_ex_def idle_pdu_def)


text \<open>
  When the room left in a packet is enough for the header and first value of one more vector but
  not for its event, the vector that was started is sent without any event: \<open>mrp_msg_error\<close> means to
  drop it, but it sets \<open>msg->end\<close> to the value it already has and then closes the vector. The header
  of that vector is 0, the end mark of a message. With the MTU of 1500 this happens to the 296th VLAN
  of an MVRP packet.
\<close>

theorem mrp_msg_error_sends_empty_vector:
  assumes "event_encoder (vector_add_event app) bytes" and "tx_cfg app t"
    and "open_pdu app t src vs v (mrpdu app ! t)" and "\<forall>u\<in>set (vs @ [v]). tv_evs u \<noteq> []"
    and "attribute_length app t \<le> length (at_val a)" and "app_type app \<noteq> APP_MSRP"
    and "hdr_len app + length (enc_vecs (vs @ [v])) + 2 + attribute_length app t + 4 \<le> port_mtu app"
    and "port_mtu app < hdr_len app + length (enc_vecs (vs @ [v])) + 2 + attribute_length app t +
           length (bytes a e) + 4"
  shows "\<exists>app' f bad. mrp_transmit_pass app t (Some a) e False = TxNew app' \<and> sent app' = sent app @ [f] \<and>
    frame_sent app t (vs @ [v, bad]) f \<and> tv_evs bad = [] \<and> take 2 (enc_vec bad) = [0, 0]"
proof -
  let ?p = "mrpdu app ! t"
  from assms(3) obtain d where d: "pdu_desc ?p = Some d" by (auto simp: open_pdu_def)
  have t: "t < length (mrpdu app)" using assms(2) by (simp add: tx_cfg_def)
  obtain len w d1 where c: "mrp_vector_end (pdu_vector ?p) (the (pdu_desc ?p)) False = (len, w, d1)"
    "closed_pdu app t src (vs @ [v]) \<lparr>pdu_desc = Some d1,
       pdu_msg = (pdu_msg ?p)\<lparr>m_end := m_end (pdu_msg ?p) + len\<rparr>, pdu_vector = w\<rparr>"
    by (rule vector_close [OF assms(3)])
  define pc where "pc = \<lparr>pdu_desc = Some d1, pdu_msg = (pdu_msg ?p)\<lparr>m_end := m_end (pdu_msg ?p) + len\<rparr>,
    pdu_vector = w\<rparr>"
  define app1 where "app1 = upd_pdu app t pc"
  have 1: "mrpdu app1 ! t = pc" "closed_pdu app1 t src (vs @ [v]) pc" "tx_cfg app1 t"
    "hdr_len app1 + length (enc_vecs (vs @ [v])) + 2 + attribute_length app1 t + 4 \<le> port_mtu app1"
    using c(2) t assms(2,7) by (simp_all add: app1_def pc_def)
  obtain p2 v2 where 2: "transmit_vector app1 t = (True, upd_pdu app1 t p2)"
    "open_pdu app1 t src (vs @ [v]) v2 p2" "tv_evs v2 = []" "\<not> tv_lva v2"
    by (rule transmit_vector_fits [OF 1])
  let ?app2 = "upd_pdu app1 t p2"
  have 3: "mrpdu ?app2 ! t = p2" "open_pdu ?app2 t src (vs @ [v]) v2 p2" "tx_cfg ?app2 t"
    "event_encoder (vector_add_event ?app2) bytes" "attribute_length ?app2 t \<le> length (at_val a)"
    "port_mtu ?app2 < hdr_len ?app2 + length (enc_vecs (vs @ [v])) + 2 + attribute_length ?app2 t +
       length (bytes a e) + 4"
    using 2(2) t assms by (simp_all add: app1_def)
  let ?bad = "v2\<lparr>tv_fv := take (attribute_length ?app2 t) (at_val a)\<rparr>"
  obtain f p3 where 4: "transmit_event ?app2 t a e = TxNew (upd_pdu (?app2\<lparr>sent := sent ?app2 @ [f]\<rparr>) t p3)"
    "idle_pdu p3" "frame_sent ?app2 t ((vs @ [v]) @ [?bad]) f"
    by (rule event_encoder.transmit_event_full [OF 3(4,1,2) 2(3) 3(3) refl 3(5,6)])
  have n0: "v_number_of_values (pdu_vector ?p) \<noteq> 0" using open_pdu_count [OF assms(3)] assms(4) by simp
  have "mrp_transmit_pass app t (Some a) e False = transmit_attr app t a e"
  proof -
    have "?p\<lparr>pdu_desc := Some d\<rparr> = ?p" using d by (cases ?p) simp
    then have "upd_pdu app t (?p\<lparr>pdu_desc := Some d\<rparr>) = app" by (simp only: upd_pdu_id)
    moreover have "v_start (pdu_vector ?p) \<noteq> None" using assms(3) by (auto simp: open_pdu_def vec_ok_def)
    ultimately show ?thesis
      using d by (auto simp: mrp_transmit_pass_def transmit_open_def transmit_tail_def Let_def)
  qed
  also have "\<dots> = transmit_event ?app2 t a e"
    using n0 assms(6) c(1) 2(1) unfolding transmit_attr_def app1_def pc_def by (simp add: Let_def)
  finally have "mrp_transmit_pass app t (Some a) e False = transmit_event ?app2 t a e" .
  moreover have "take 2 (enc_vec ?bad) = [0, 0]" "tv_evs ?bad = []"
    using 2(3,4) by (simp_all add: enc_vec_def tv_count_def mrp_vector_header_def be16_def)
  moreover have "frame_sent app t (vs @ [v, ?bad]) f" using 4(3) by (simp add: app1_def)
  ultimately show ?thesis using 4(1) by (auto simp: app1_def)
qed

theorem mrp_msg_error_sends_empty_vector_witness:
  "\<exists>app src v app' f bad. open_pdu app 1 src [] v (mrpdu app ! 1) \<and> app_type app = APP_MVRP \<and>
     mrp_transmit_pass app 1 (Some (attr_ex 6)) MRP_ATTR_EVT_JOINMT False = TxNew app' \<and>
     sent app' = sent app @ [f] \<and> frame_sent app 1 ([] @ [v, bad]) f \<and> tv_evs bad = [] \<and>
     take 2 (enc_vec bad) = [0, 0]"
proof -
  have ae: "event_encoder (vector_add_event (mrp_ex 30)) three_bytes" by (rule mrp_ex_ok)
  have "\<exists>p' src v. mrp_transmit_action (mrp_ex 30) 1 (Some (attr_ex 5)) MRP_ATTR_EVT_JOINMT False
      = tx_step (mrp_ex 30) 1 (n_tx_alloc (mrp_ex 30) + 1) [] p' \<and>
    open_pdu (mrp_ex 30) 1 src [] v p' \<and> tv_evs v = three_bytes (attr_ex 5) MRP_ATTR_EVT_JOINMT"
    by (rule event_encoder.transmit_first [OF ae refl mrp_ex_ok(2) mrp_ex_ok(1) refl,
          where b = "replicate DEFAULT_NET_DATA_SIZE 0"])
      (simp_all add: mrp_ex_def attr_ex_def)
  then obtain p src v where 1: "open_pdu (mrp_ex 30) 1 src [] v p" "length (tv_evs v) = 1" by auto
  let ?app = "upd_pdu (mrp_ex 30) 1 p"
  have "length (tv_fv v) = 2" using 1(1) by (auto simp: open_pdu_def vec_ok_def mrp_ex_def)
  then have len: "length (enc_vec v) = 5" using 1(2) by (simp add: length_enc_vec)
  have nth: "mrpdu ?app ! 1 = p" by (simp add: mrp_ex_def)
  have h: "event_encoder (vector_add_event ?app) three_bytes" "tx_cfg ?app 1"
    "open_pdu ?app 1 src [] v (mrpdu ?app ! 1)" "\<forall>u\<in>set ([] @ [v]). tv_evs u \<noteq> []"
    using ae nth 1 mrp_ex_ok(1) [of 30 1] by auto
  have c: "hdr_len ?app = 17" "attribute_length ?app 1 = 2" "port_mtu ?app = 30" "app_type ?app \<noteq> APP_MSRP"
    "length (at_val (attr_ex 6)) = 2"
    by (simp_all add: hdr_len_def mrp_hdr_len_def mrp_ex_def attr_ex_def)
  have "\<exists>app' f bad. mrp_transmit_pass ?app 1 (Some (attr_ex 6)) MRP_ATTR_EVT_JOINMT False = TxNew app' \<and>
     sent app' = sent ?app @ [f] \<and> frame_sent ?app 1 ([] @ [v, bad]) f \<and> tv_evs bad = [] \<and>
     take 2 (enc_vec bad) = [0, 0]"
    by (rule mrp_msg_error_sends_empty_vector [OF h _ c(4)]; simp only: c; simp add: enc_vecs_def len)
  moreover have "app_type ?app = APP_MVRP" by (simp add: mrp_ex_def)
  moreover have "open_pdu ?app 1 src [] v (mrpdu ?app ! 1)" using 1(1) nth by simp
  ultimately show ?thesis by blast
qed

text \<open>
  C31: The packed fields of a vector read back as they were written: the LeaveAll event and the number of
  values share a 16-bit header, three events share an octet in base 6 and four declaration types
  share an octet in base 4. The encoders never leave the octet.
\<close>

theorem mrp_packed_fields_roundtrip:
  "(unat l < 8 \<and> unat n < 8192 \<longrightarrow>
      mrp_get_vector_header (mrp_vector_header l n ! 0) (mrp_vector_header l n ! 1) = (ucast l, ucast n)) \<and>
   (e0 < 6 \<and> e1 < 6 \<and> e2 < 6 \<longrightarrow>
      mrp_get_three_packed_event (mrp_three_packed_event e0 e1 e2) = [e0, e1, e2]) \<and>
   (f0 < 4 \<and> f1 < 4 \<and> f2 < 4 \<and> f3 < 4 \<longrightarrow>
      mrp_get_four_packed_event (mrp_four_packed_event f0 f1 f2 f3) = [f0, f1, f2, f3])"
  using vector_header_roundtrip [of l n] three_packed_roundtrip [of e0 e1 e2]
    four_packed_roundtrip [of f0 f1 f2 f3] by blast

theorem mrp_packed_fields_roundtrip_witness:
  "mrp_get_vector_header (mrp_vector_header 1 8191 ! 0) (mrp_vector_header 1 8191 ! 1) = (1, 8191) \<and>
   mrp_get_three_packed_event (mrp_three_packed_event 5 3 1) = [5, 3, 1] \<and>
   mrp_get_four_packed_event (mrp_four_packed_event 3 0 2 1) = [3, 0, 2, 1]"
  using mrp_packed_fields_roundtrip [of 1 8191 5 3 1 3 0 2 1] by simp

end
