(* ===== verification/Random_Range.thy ===== *)
theory Random_Range
  imports Prelude "HOL-Library.Signed_Division"
begin

section \<open>Bounded random values (\<open>src/common/random.c\<close>)\<close>

text \<open>
  \<open>os_random()\<close> is the value the OS returns (a \<open>long\<close>), a parameter; the remainder is that of C, which
  has the sign of the dividend.
\<close>

definition random_range :: "int \<Rightarrow> int \<Rightarrow> int \<Rightarrow> int" where
  "random_range os_random min_val max_val = os_random smod (max_val + 1 - min_val) + min_val"

lemma random_range_bounds:
  assumes "0 \<le> r" and "lo \<le> hi"
  shows "lo \<le> random_range r lo hi" and "random_range r lo hi \<le> hi"
proof -
  have "r smod (hi + 1 - lo) = r mod (hi + 1 - lo)"
    using assms by (simp add: signed_modulo_int_def signed_divide_int_def sgn_if abs_if
        minus_div_mult_eq_mod mult.commute)
  moreover have "0 \<le> r mod (hi + 1 - lo)" "r mod (hi + 1 - lo) < hi + 1 - lo" using assms by simp_all
  ultimately show "lo \<le> random_range r lo hi" "random_range r lo hi \<le> hi"
    by (simp_all add: random_range_def)
qed

end
