(* ===== verification/MRP_App.thy ===== *)
theory MRP_App
  imports MRP_Tx_Proofs Random_Range
begin

section \<open>MRP applications (\<open>src/srp/mrp.c\<close>)\<close>

text \<open>
  The operations of an MRP application: the attribute store, the state machines with their effects
  on it, the timers, the declaration requests and the reception of attribute events. An operation
  that cannot reach the application's indications is a function on the application; one that can
  takes the record \<open>mrp_ops\<close> of the client (\<open>mad_join_indication\<close> and \<open>mad_leave_indication\<close>) and acts on
  the client's whole state, in which \<open>op_app\<close> and \<open>op_set_app\<close> give the application of a port: an
  indication on one port acts on the applications of the other ones.
\<close>

subsection \<open>Attribute store\<close>

definition get_attr :: "mrp_application \<Rightarrow> nat \<Rightarrow> mrp_attribute" where
  "get_attr app i = the (attrs app i)"

definition upd_attr :: "mrp_application \<Rightarrow> nat \<Rightarrow> (mrp_attribute \<Rightarrow> mrp_attribute) \<Rightarrow> mrp_application" where
  "upd_attr app i f = app\<lparr>attrs := (attrs app)(i \<mapsto> f (get_attr app i))\<rparr>"

definition mrp_transmit_request :: "mrp_application \<Rightarrow> mrp_application" where
  "mrp_transmit_request app =
     (if \<not> tm_started (join_timer app) then app\<lparr>join_timer := tm_start (join_timer app) 100\<rparr> else app)"

definition mrp_free_attribute :: "mrp_application \<Rightarrow> nat \<Rightarrow> mrp_application" where
  "mrp_free_attribute app i =
     (let t = at_type (get_attr app i)
      in app\<lparr>attributes := (attributes app)[t := remove1 i (attributes app ! t)],
             attributes_ordered := (attributes_ordered app)[t := remove1 i (attributes_ordered app ! t)],
             attrs := (attrs app)(i := None)\<rparr>)"

definition mrp_free_attribute_check :: "mrp_application \<Rightarrow> nat \<Rightarrow> mrp_application" where
  "mrp_free_attribute_check app i =
     (let a = get_attr app i; st = ap_state (at_applicant a)
      in if (st = MRP_STATE_VO \<or> st = MRP_STATE_AO \<or> st = MRP_STATE_QO) \<and>
            (\<not> bit_test (participant_type app) MRP_PARTICIPANT_TYPE_FULL \<or>
             reg_state (at_registrar a) = MRP_STATE_MT)
         then mrp_free_attribute app i else app)"

definition mrp_find_attribute :: "mrp_application \<Rightarrow> nat \<Rightarrow> u8 list \<Rightarrow> nat option" where
  "mrp_find_attribute app t val =
     (let len = attribute_value_length app t
      in find (\<lambda>i. take len (at_val (get_attr app i)) = take len val) (attributes app ! t))"

subsection \<open>State machines\<close>

definition mrp_applicant_action_handler :: "mrp_application \<Rightarrow> nat \<Rightarrow> mrp_application" where
  "mrp_applicant_action_handler app i =
     (let a = get_attr app i
      in case mrp_action2event (participant_type app) (reg_state (at_registrar a)) (ap_action (at_applicant a)) of
           None \<Rightarrow> app
         | Some event \<Rightarrow> mrp_transmit_action app (at_type a) (Some a) event False)"

definition mrp_applicant_sm :: "mrp_application \<Rightarrow> nat \<Rightarrow> mrp_event \<Rightarrow> mrp_application" where
  "mrp_applicant_sm app i event =
     (let a = get_attr app i; t = at_type a; old = ap_state (at_applicant a);
          (state, action) = applicant_next (participant_type app) (reg_state (at_registrar a)) event old;
          app1 = (if state \<noteq> old \<and> needs_tx state then mrp_transmit_request app else app);
          app2 = (if state \<noteq> old
                  then (upd_attr app1 i (\<lambda>a. a\<lparr>at_applicant := (at_applicant a)\<lparr>ap_state := state\<rparr>\<rparr>))
                         \<lparr>attributes_ordered := (attributes_ordered app1)
                            [t := remove1 i (attributes_ordered app1 ! t) @ [i]]\<rparr>
                  else app1);
          app3 = upd_attr app2 i (\<lambda>a. a\<lparr>at_applicant := (at_applicant a)\<lparr>ap_action := action\<rparr>\<rparr>)
      in mrp_applicant_action_handler app3 i)"

text \<open>
  \<open>mrp_registrar_sm\<close> up to its call of \<open>mrp_registrar_action_handler\<close>.
\<close>

definition mrp_registrar_step :: "mrp_application \<Rightarrow> nat \<Rightarrow> mrp_event \<Rightarrow> mrp_application" where
  "mrp_registrar_step app i event =
     upd_attr app i (\<lambda>a. a\<lparr>at_registrar :=
       registrar_next (participant_type app) (leave_timeout app) event (at_registrar a)\<rparr>)"

text \<open>
  The registrar's BEGIN sets no action, so that the allocation reaches no indication
  (\<open>mrp_registrar_begin_silent\<close> below) and needs no client. On a failure of \<open>timer_create\<close> the
  attribute is freed while it is still chained: \<open>attributes\<close> and \<open>attributes_ordered\<close> keep its address.
\<close>

definition mrp_alloc_attribute :: "mrp_application \<Rightarrow> nat \<Rightarrow> u8 list \<Rightarrow> nat option \<times> mrp_application" where
  "mrp_alloc_attribute app t val =
     (let len = attribute_value_length app t; k = n_malloc app; app0 = app\<lparr>n_malloc := k + 1\<rparr>
      in if \<not> malloc_ok app k then (None, app0)
         else
           let i = next_attr app;
               a = \<lparr>at_type = t, at_val = take len val,
                    at_applicant = \<lparr>ap_state = malloc_state app k, ap_action = MRP_ACTION_NONE\<rparr>,
                    at_registrar = \<lparr>reg_state = malloc_state app k, reg_action = MRP_ACTION_NONE,
                      reg_leave = \<lparr>tm_created = True, tm_started = False\<rparr>\<rparr>\<rparr>;
               app1 = app0\<lparr>next_attr := i + 1, attrs := (attrs app)(i \<mapsto> a),
                        attributes := (attributes app)[t := i # (attributes app ! t)],
                        attributes_ordered := (attributes_ordered app)[t := i # (attributes_ordered app ! t)],
                        n_timer := n_timer app + 1\<rparr>
           in if \<not> timer_ok app (n_timer app) then (None, app1\<lparr>attrs := attrs app\<rparr>)
              else (Some i, mrp_registrar_step (mrp_applicant_sm app1 i MRP_EVENT_BEGIN) i MRP_EVENT_BEGIN))"

definition mrp_get_attribute :: "mrp_application \<Rightarrow> nat \<Rightarrow> u8 list \<Rightarrow> nat option \<times> mrp_application" where
  "mrp_get_attribute app t val =
     (case mrp_find_attribute app t val of
        Some i \<Rightarrow> (Some i, app)
      | None \<Rightarrow> mrp_alloc_attribute app t val)"

definition mrp_periodic_sm :: "mrp_application \<Rightarrow> mrp_event \<Rightarrow> mrp_application" where
  "mrp_periodic_sm app event =
     (let p = periodic app; start = tm_start (per_timer p) 1000
      in app\<lparr>periodic :=
           (if event = MRP_EVENT_BEGIN
            then \<lparr>per_state = MRP_TIMER_ACTIVE, per_action = MRP_ACTION_NONE, per_timer = start\<rparr>
            else if event = MRP_EVENT_PERIODIC_ENABLED \<and> per_state p = MRP_TIMER_PASSIVE
            then \<lparr>per_state = MRP_TIMER_ACTIVE, per_action = MRP_ACTION_NONE, per_timer = start\<rparr>
            else if event = MRP_EVENT_PERIODIC_DISABLED \<and> per_state p = MRP_TIMER_ACTIVE
            then \<lparr>per_state = MRP_TIMER_PASSIVE, per_action = MRP_ACTION_NONE, per_timer = tm_stop (per_timer p)\<rparr>
            else if event = MRP_EVENT_PERIODICTIMER \<and> per_state p = MRP_TIMER_ACTIVE
            then p\<lparr>per_action := MRP_ACTION_PERIODIC, per_timer := start\<rparr>
            else p\<lparr>per_action := MRP_ACTION_NONE\<rparr>)\<rparr>)"

subsection \<open>Requests of the application\<close>

definition mrp_mad_join_request ::
  "mrp_application \<Rightarrow> nat \<Rightarrow> u8 list \<Rightarrow> bool \<Rightarrow> nat option \<times> mrp_application" where
  "mrp_mad_join_request app t val new =
     (if \<not> enabled app then (None, app)
      else case mrp_get_attribute app t val of
             (None, app1) \<Rightarrow> (None, app1)
           | (Some i, app1) \<Rightarrow>
               (Some i, mrp_applicant_sm app1 i (if new then MRP_EVENT_NEW else MRP_EVENT_JOIN)))"

definition mrp_mad_join_immediate ::
  "mrp_application \<Rightarrow> nat \<Rightarrow> u8 list \<Rightarrow> nat option \<times> mrp_application" where
  "mrp_mad_join_immediate app t val =
     (if \<not> enabled app then (None, app)
      else case mrp_find_attribute app t val of
             Some _ \<Rightarrow> (None, app)
           | None \<Rightarrow>
               case mrp_alloc_attribute app t val of
                 (None, app1) \<Rightarrow> (None, app1)
               | (Some i, app1) \<Rightarrow>
                   (Some i, mrp_applicant_sm (mrp_applicant_sm app1 i MRP_EVENT_JOIN) i MRP_EVENT_TX))"

definition mrp_mad_leave_request :: "mrp_application \<Rightarrow> nat \<Rightarrow> u8 list \<Rightarrow> mrp_application" where
  "mrp_mad_leave_request app t val =
     (if \<not> enabled app then app
      else case mrp_find_attribute app t val of
             None \<Rightarrow> app
           | Some i \<Rightarrow> mrp_free_attribute_check (mrp_applicant_sm app i MRP_EVENT_LV) i)"

definition mrp_process_attribute_free_immediate :: "mrp_application \<Rightarrow> nat \<Rightarrow> mrp_application" where
  "mrp_process_attribute_free_immediate app i = mrp_free_attribute app i"

subsection \<open>The client, and the operations that reach its indications\<close>

record 's mrp_ops =
  op_app :: "'s \<Rightarrow> nat \<Rightarrow> mrp_application"
  op_set_app :: "'s \<Rightarrow> nat \<Rightarrow> mrp_application \<Rightarrow> 's"
  mad_join_indication :: "'s \<Rightarrow> nat \<Rightarrow> nat \<Rightarrow> bool \<Rightarrow> 's"
  mad_leave_indication :: "'s \<Rightarrow> nat \<Rightarrow> nat \<Rightarrow> 's"

definition on_app :: "'s mrp_ops \<Rightarrow> nat \<Rightarrow> (mrp_application \<Rightarrow> mrp_application) \<Rightarrow> 's \<Rightarrow> 's" where
  "on_app ops p f s = op_set_app ops s p (f (op_app ops s p))"

definition mrp_registrar_action_handler :: "'s mrp_ops \<Rightarrow> nat \<Rightarrow> nat \<Rightarrow> 's \<Rightarrow> 's" where
  "mrp_registrar_action_handler ops p i s =
     (case reg_action (at_registrar (get_attr (op_app ops s p) i)) of
        MRP_ACTION_NEW \<Rightarrow> mad_join_indication ops s p i True
      | MRP_ACTION_JOIN \<Rightarrow> mad_join_indication ops s p i False
      | MRP_ACTION_LV \<Rightarrow> mad_leave_indication ops s p i
      | _ \<Rightarrow> s)"

definition mrp_registrar_sm :: "'s mrp_ops \<Rightarrow> nat \<Rightarrow> nat \<Rightarrow> mrp_event \<Rightarrow> 's \<Rightarrow> 's" where
  "mrp_registrar_sm ops p i event s =
     mrp_registrar_action_handler ops p i (on_app ops p (\<lambda>app. mrp_registrar_step app i event) s)"

text \<open>
  The handler of the leave timer; the timer service has stopped the timer before the call.
\<close>

definition mrp_leave_timer_handler :: "'s mrp_ops \<Rightarrow> nat \<Rightarrow> nat \<Rightarrow> 's \<Rightarrow> 's" where
  "mrp_leave_timer_handler ops p i s =
     on_app ops p (\<lambda>app. mrp_free_attribute_check app i) (mrp_registrar_sm ops p i MRP_EVENT_LEAVETIMER s)"

definition mrp_process_attribute1 :: "'s mrp_ops \<Rightarrow> nat \<Rightarrow> nat \<Rightarrow> nat \<Rightarrow> 's \<Rightarrow> int \<times> 's" where
  "mrp_process_attribute1 ops p i event s =
     (if event \<ge> MRP_ATTR_EVT_MAX then (-1, s)
      else
        let ev = mrp_attribute2rxevent event
        in (0, on_app ops p (\<lambda>app. mrp_free_attribute_check app i)
                 (on_app ops p (\<lambda>app. mrp_applicant_sm app i ev) (mrp_registrar_sm ops p i ev s))))"

definition mrp_process_attribute :: "'s mrp_ops \<Rightarrow> nat \<Rightarrow> nat \<Rightarrow> u8 list \<Rightarrow> nat \<Rightarrow> 's \<Rightarrow> int \<times> 's" where
  "mrp_process_attribute ops p t val event s =
     (if \<not> enabled (op_app ops s p) then (-1, s)
      else case mrp_get_attribute (op_app ops s p) t val of
             (None, app) \<Rightarrow> (-1, op_set_app ops s p app)
           | (Some i, app) \<Rightarrow> mrp_process_attribute1 ops p i event (op_set_app ops s p app))"

definition mrp_process_attribute_leave_immediate :: "'s mrp_ops \<Rightarrow> nat \<Rightarrow> nat \<Rightarrow> 's \<Rightarrow> 's" where
  "mrp_process_attribute_leave_immediate ops p i s =
     on_app ops p (\<lambda>app. mrp_free_attribute_check app i)
       (on_app ops p (\<lambda>app. mrp_applicant_sm app i MRP_EVENT_RLV)
         (mrp_registrar_sm ops p i MRP_EVENT_RLV_IMMEDIATE s))"

subsection \<open>LeaveAll\<close>

definition leaveall_random :: "mrp_application \<Rightarrow> u32 \<times> mrp_application" where
  "leaveall_random app =
     (of_int (random_range (os_random app (n_random app)) 10000 15000), app\<lparr>n_random := n_random app + 1\<rparr>)"

text \<open>The types \<open>min_attr_type \<le> type \<le> max_attr_type\<close>, and an iteration over the entries of a list.\<close>

definition attr_types :: "mrp_application \<Rightarrow> nat list" where
  "attr_types app = [min_attr_type app ..< max_attr_type app + 1]"

definition mrp_leaveall_action_handler :: "'s mrp_ops \<Rightarrow> nat \<Rightarrow> 's \<Rightarrow> 's" where
  "mrp_leaveall_action_handler ops p s =
     (if la_action (leaveall (op_app ops s p)) = MRP_ACTION_SLA
      then
        let types = attr_types (op_app ops s p);
            s1 = fold (\<lambda>t s. fold (\<lambda>i s. snd (mrp_process_attribute1 ops p i MRP_ATTR_EVT_LVA s))
                   (attributes (op_app ops s p) ! t) s) types s
        in fold (\<lambda>t. on_app ops p (\<lambda>app. mrp_transmit_action app t None 0 True)) types s1
      else s)"

text \<open>The switch of \<open>mrp_leaveall_sm\<close>, with its timer calls.\<close>

definition leaveall_step :: "mrp_event \<Rightarrow> mrp_application \<Rightarrow> mrp_application" where
  "leaveall_step event app =
     (let lva = leaveall app
      in if \<not> bit_test (participant_type app) MRP_PARTICIPANT_TYPE_FULL
         then app\<lparr>leaveall := lva\<lparr>la_action := MRP_ACTION_NONE\<rparr>\<rparr>
         else if event = MRP_EVENT_BEGIN then
           (case leaveall_random app of (ms, app1) \<Rightarrow>
              app1\<lparr>leaveall := \<lparr>la_state = MRP_TIMER_PASSIVE, la_action = MRP_ACTION_NONE,
                la_timer = tm_start (la_timer lva) ms\<rparr>\<rparr>)
         else if event = MRP_EVENT_TX then
           (if la_state lva = MRP_TIMER_ACTIVE
            then app\<lparr>leaveall := lva\<lparr>la_state := MRP_TIMER_PASSIVE, la_action := MRP_ACTION_SLA\<rparr>\<rparr>
            else app\<lparr>leaveall := lva\<lparr>la_action := MRP_ACTION_NONE\<rparr>\<rparr>)
         else if event = MRP_EVENT_RLA then
           (case leaveall_random app of (ms, app1) \<Rightarrow>
              app1\<lparr>leaveall := \<lparr>la_state = MRP_TIMER_PASSIVE, la_action = MRP_ACTION_NONE,
                la_timer = tm_restart (la_timer lva) ms\<rparr>\<rparr>)
         else if event = MRP_EVENT_LEAVEALLTIMER then
           (case leaveall_random (mrp_transmit_request app) of (ms, app1) \<Rightarrow>
              app1\<lparr>leaveall := \<lparr>la_state = MRP_TIMER_ACTIVE, la_action = MRP_ACTION_NONE,
                la_timer = tm_start (la_timer lva) ms\<rparr>\<rparr>)
         else app\<lparr>leaveall := lva\<lparr>la_action := MRP_ACTION_NONE\<rparr>\<rparr>)"

definition mrp_leaveall_sm :: "'s mrp_ops \<Rightarrow> nat \<Rightarrow> mrp_event \<Rightarrow> 's \<Rightarrow> 's" where
  "mrp_leaveall_sm ops p event s = mrp_leaveall_action_handler ops p (on_app ops p (leaveall_step event) s)"

definition mrp_leaveall_timer_handler :: "'s mrp_ops \<Rightarrow> nat \<Rightarrow> 's \<Rightarrow> 's" where
  "mrp_leaveall_timer_handler ops p s = mrp_leaveall_sm ops p MRP_EVENT_LEAVEALLTIMER s"

subsection \<open>Timer handlers\<close>

text \<open>
  The \<open>do ... while (entry != last)\<close> loop of the join timer over \<open>attributes_ordered[type]\<close>, which
  \<open>mrp_applicant_sm\<close> reorders on the way. \<open>next\<close> is read before the call; \<open>None\<close> is the list head,
  which the code would take for an attribute, and the loop is then undefined, as it is when the fuel
  runs out.
\<close>

fun join_loop :: "nat \<Rightarrow> mrp_event \<Rightarrow> nat \<Rightarrow> nat option \<Rightarrow> nat \<Rightarrow> mrp_application \<Rightarrow> mrp_application option" where
  "join_loop 0 event t next_i last_i app = None"
| "join_loop (Suc fuel) event t None last_i app = None"
| "join_loop (Suc fuel) event t (Some i) last_i app =
     (let next_i = succ_in (attributes_ordered app ! t) i;
          app1 = mrp_free_attribute_check (mrp_applicant_sm app i event) i
      in if i \<noteq> last_i then join_loop fuel event t next_i last_i app1 else Some app1)"

definition join_type :: "mrp_event \<Rightarrow> nat \<Rightarrow> mrp_application \<Rightarrow> mrp_application" where
  "join_type event t app =
     (let l = attributes_ordered app ! t
      in if l = [] then app
         else case join_loop (length l) event t (Some (hd l)) (last l) app of
                Some app' \<Rightarrow> app'
              | None \<Rightarrow> app\<lparr>hung := True\<rparr>)"

definition join_transmit :: "mrp_application \<Rightarrow> mrp_application" where
  "join_transmit app =
     (let event = (if la_action (leaveall app) = MRP_ACTION_SLA then MRP_EVENT_TXLA else MRP_EVENT_TX);
          app1 = fold (join_type event) (attr_types app) app
      in fold (\<lambda>t app. mrp_transmit_end app t) (attr_types app) app1)"

definition mrp_join_timer_handler :: "'s mrp_ops \<Rightarrow> nat \<Rightarrow> 's \<Rightarrow> 's" where
  "mrp_join_timer_handler ops p s =
     on_app ops p join_transmit (mrp_leaveall_sm ops p MRP_EVENT_TX s)"

definition mrp_periodic_timer_handler :: "mrp_application \<Rightarrow> mrp_application" where
  "mrp_periodic_timer_handler app =
     mrp_periodic_sm
       (fold (\<lambda>t app. fold (\<lambda>i app. mrp_applicant_sm app i MRP_EVENT_PERIODIC) (attributes app ! t) app)
          (attr_types app) app) MRP_EVENT_PERIODICTIMER"

text \<open>
  A timer that expires is stopped by \<open>timer_process\<close> (\<open>src/common/timer.c\<close>), which then calls its
  handler.
\<close>

definition join_timer_expired :: "'s mrp_ops \<Rightarrow> nat \<Rightarrow> 's \<Rightarrow> 's" where
  "join_timer_expired ops p s =
     mrp_join_timer_handler ops p (on_app ops p (\<lambda>app. app\<lparr>join_timer := tm_stop (join_timer app)\<rparr>) s)"

definition leaveall_timer_expired :: "'s mrp_ops \<Rightarrow> nat \<Rightarrow> 's \<Rightarrow> 's" where
  "leaveall_timer_expired ops p s =
     mrp_leaveall_timer_handler ops p (on_app ops p
       (\<lambda>app. app\<lparr>leaveall := (leaveall app)\<lparr>la_timer := tm_stop (la_timer (leaveall app))\<rparr>\<rparr>) s)"

definition leave_timer_expired :: "'s mrp_ops \<Rightarrow> nat \<Rightarrow> nat \<Rightarrow> 's \<Rightarrow> 's" where
  "leave_timer_expired ops p i s =
     mrp_leave_timer_handler ops p i (on_app ops p
       (\<lambda>app. upd_attr app i (\<lambda>a. a\<lparr>at_registrar := (at_registrar a)\<lparr>reg_leave :=
          tm_stop (reg_leave (at_registrar a))\<rparr>\<rparr>)) s)"

definition periodic_timer_expired :: "mrp_application \<Rightarrow> mrp_application" where
  "periodic_timer_expired app =
     mrp_periodic_timer_handler (app\<lparr>periodic := (periodic app)\<lparr>per_timer := tm_stop (per_timer (periodic app))\<rparr>\<rparr>)"

subsection \<open>Enabling, disabling, initialization\<close>

definition mrp_exit_attributes :: "mrp_application \<Rightarrow> mrp_application" where
  "mrp_exit_attributes app =
     fold (\<lambda>t app. fold (\<lambda>i app. mrp_free_attribute app i) (attributes app ! t) app) [0..<MRP_MAX_ATTR_TYPE] app"

text \<open>\<open>mrp_leaveall_sm\<close> with BEGIN sends nothing: its action is NONE.\<close>

definition mrp_enable :: "mrp_application \<Rightarrow> mrp_application" where
  "mrp_enable app =
     (if enabled app then app
      else
        let app1 = (if bit_test (participant_type app) MRP_PARTICIPANT_TYPE_FULL
                    then leaveall_step MRP_EVENT_BEGIN app else app);
            app2 = (if app_type app1 \<noteq> APP_MSRP then mrp_periodic_sm app1 MRP_EVENT_BEGIN else app1)
        in app2\<lparr>enabled := True\<rparr>)"

definition mrp_disable :: "mrp_application \<Rightarrow> mrp_application" where
  "mrp_disable app =
     (if \<not> enabled app then app
      else
        let app1 = (if app_type app \<noteq> APP_MSRP
                    then app\<lparr>periodic := (periodic app)\<lparr>per_timer := tm_stop (per_timer (periodic app))\<rparr>\<rparr>
                    else app);
            app2 = app1\<lparr>join_timer := tm_stop (join_timer app1),
                        leaveall := (leaveall app1)\<lparr>la_timer := tm_stop (la_timer (leaveall app1))\<rparr>\<rparr>
        in (mrp_exit_attributes app2)\<lparr>enabled := False\<rparr>)"

definition tm_init :: "bool \<Rightarrow> soft_timer \<Rightarrow> soft_timer" where
  "tm_init ok tm = (if ok then \<lparr>tm_created = True, tm_started = False\<rparr> else tm)"

definition mrp_init_timers :: "mrp_application \<Rightarrow> int \<times> mrp_application" where
  "mrp_init_timers app =
     (let n = n_timer app; ok1 = timer_ok app n; ok2 = timer_ok app (n + 1); ok3 = timer_ok app (n + 2);
          app1 = app\<lparr>n_timer := n + 1, leaveall := (leaveall app)\<lparr>la_timer := tm_init ok1 (la_timer (leaveall app))\<rparr>\<rparr>;
          app2 = app1\<lparr>n_timer := n + 2, join_timer := tm_init ok2 (join_timer app1)\<rparr>;
          app3 = app2\<lparr>n_timer := n + 3, periodic := (periodic app2)\<lparr>per_timer := tm_init ok3 (per_timer (periodic app2))\<rparr>\<rparr>;
          undo_leaveall = (\<lambda>a. a\<lparr>leaveall := (leaveall a)\<lparr>la_timer := tm_destroy (la_timer (leaveall a))\<rparr>\<rparr>);
          undo_join = (\<lambda>a. a\<lparr>join_timer := tm_destroy (join_timer a)\<rparr>)
      in if \<not> ok1 then (-1, app1)
         else if \<not> ok2 then (-1, undo_leaveall app2)
         else if app_type app = APP_MSRP then (0, app2)
         else if \<not> ok3 then (-1, undo_leaveall (undo_join app3))
         else (0, app3))"

definition mrp_exit_timers :: "mrp_application \<Rightarrow> mrp_application" where
  "mrp_exit_timers app =
     (let app1 = (if app_type app \<noteq> APP_MSRP
                  then app\<lparr>periodic := (periodic app)\<lparr>per_timer := tm_destroy (per_timer (periodic app))\<rparr>\<rparr>
                  else app)
      in app1\<lparr>join_timer := tm_destroy (join_timer app1),
              leaveall := (leaveall app1)\<lparr>la_timer := tm_destroy (la_timer (leaveall app1))\<rparr>\<rparr>)"

definition empty_mrpdu :: mrp_attribute_mrpdu where
  "empty_mrpdu = \<lparr>pdu_desc = None, pdu_msg = \<lparr>m_start = None, m_vector_start = 0, m_end = 0, m_end_max = 0\<rparr>,
     pdu_vector = \<lparr>v_start = None, v_event_start = 0, v_end = 0, v_end_max = 0, v_number_of_values = 0,
       v_leave_all_event = 0\<rparr>\<rparr>"

definition mrp_init :: "mrp_application \<Rightarrow> nat \<Rightarrow> u32 \<Rightarrow> int \<times> mrp_application" where
  "mrp_init app type ptype =
     (let app1 = app\<lparr>app_type := type, participant_type := ptype, enabled := False,
                     mrpdu := replicate MRP_MAX_ATTR_TYPE empty_mrpdu\<rparr>
      in case mrp_init_timers app1 of
           (rc, app2) \<Rightarrow>
             if rc < 0 then (-1, app2)
             else (0, mrp_enable (app2\<lparr>attributes := replicate MRP_MAX_ATTR_TYPE [],
                                      attributes_ordered := replicate MRP_MAX_ATTR_TYPE []\<rparr>)))"

definition mrp_exit :: "mrp_application \<Rightarrow> mrp_application" where
  "mrp_exit app = mrp_exit_timers (mrp_disable app)"

end
