(* ===== verification/MRP_App_Proofs.thy ===== *)
theory MRP_App_Proofs
  imports MRP_App
begin

section \<open>Invariants of MRP applications\<close>

text \<open>
  Three invariants of \<open>struct mrp_application\<close>: the attribute store is consistent (\<open>store_ok\<close>), no
  transmission is forgotten (\<open>live_ok\<close>: an applicant that needs a transmit opportunity, or a pending
  LeaveAll, has the join timer running), and the packets are well formed (\<open>tx_ok\<close>). Every operation
  keeps them; the operations that reach the client's indications do so for any client that
  meets the contract \<open>mrp_client\<close>.
\<close>

subsection \<open>Invariants\<close>

definition is_full :: "mrp_application \<Rightarrow> bool" where
  "is_full app \<longleftrightarrow> bit_test (participant_type app) MRP_PARTICIPANT_TYPE_FULL"

definition attr_ids :: "mrp_application \<Rightarrow> nat \<Rightarrow> nat set" where
  "attr_ids app t = {i. \<exists>a. attrs app i = Some a \<and> at_type a = t}"

definition attr_ok :: "mrp_application \<Rightarrow> mrp_attribute \<Rightarrow> bool" where
  "attr_ok app a \<longleftrightarrow> at_type a \<in> set (attr_types app) \<and>
     length (at_val a) = attribute_value_length app (at_type a) \<and>
     applicant_state (ap_state (at_applicant a)) \<and> (is_full app \<longrightarrow> registrar_inv (at_registrar a))"

definition lists_ok :: "mrp_application \<Rightarrow> nat list list \<Rightarrow> bool" where
  "lists_ok app ls \<longleftrightarrow> length ls = MRP_MAX_ATTR_TYPE \<and>
     (\<forall>t < MRP_MAX_ATTR_TYPE. distinct (ls ! t) \<and> set (ls ! t) = attr_ids app t)"

definition store_ok :: "mrp_application \<Rightarrow> bool" where
  "store_ok app \<longleftrightarrow> max_attr_type app < MRP_MAX_ATTR_TYPE \<and> leave_timeout app \<noteq> 0 \<and>
     (\<forall>i a. attrs app i = Some a \<longrightarrow> i < next_attr app \<and> attr_ok app a) \<and>
     lists_ok app (attributes app) \<and> lists_ok app (attributes_ordered app) \<and>
     (\<forall>i j a b. attrs app i = Some a \<longrightarrow> attrs app j = Some b \<longrightarrow> at_type a = at_type b \<longrightarrow>
        at_val a = at_val b \<longrightarrow> i = j)"

definition anxious :: "mrp_application \<Rightarrow> nat \<Rightarrow> bool" where
  "anxious app i \<longleftrightarrow> (\<exists>a. attrs app i = Some a \<and> needs_tx (ap_state (at_applicant a)))"

definition live_ok :: "mrp_application \<Rightarrow> bool" where
  "live_ok app \<longleftrightarrow> tm_created (join_timer app) \<and>
     ((\<exists>i. anxious app i) \<or> la_state (leaveall app) = MRP_TIMER_ACTIVE \<longrightarrow> tm_started (join_timer app))"

definition tx_ok :: "(mrp_attribute \<Rightarrow> nat \<Rightarrow> u8 list) \<Rightarrow> mrp_application \<Rightarrow> bool" where
  "tx_ok bytes app \<longleftrightarrow> event_encoder (vector_add_event app) bytes \<and> \<not> hung app \<and>
     length (mrpdu app) = MRP_MAX_ATTR_TYPE \<and>
     (\<forall>t\<in>set (attr_types app). tx_cfg app t \<and> pdu_inv bytes app t (mrpdu app ! t) \<and>
        attribute_length app t \<le> attribute_value_length app t) \<and>
     (\<forall>f\<in>set (sent app). \<exists>t\<in>set (attr_types app). frame_ok bytes app t f)"

lemma attr_types_set [simp]: "t \<in> set (attr_types app) \<longleftrightarrow> min_attr_type app \<le> t \<and> t \<le> max_attr_type app"
  by (auto simp: attr_types_def)

lemma store_okD:
  assumes "store_ok app"
  shows "max_attr_type app < MRP_MAX_ATTR_TYPE" "leave_timeout app \<noteq> 0"
    "attrs app i = Some a \<Longrightarrow> i < next_attr app" "attrs app i = Some a \<Longrightarrow> attr_ok app a"
    "lists_ok app (attributes app)" "lists_ok app (attributes_ordered app)"
    "attrs app i = Some a \<Longrightarrow> attrs app j = Some b \<Longrightarrow> at_type a = at_type b \<Longrightarrow> at_val a = at_val b \<Longrightarrow> i = j"
  using assms unfolding store_ok_def by blast+

lemma attr_type_lt: "store_ok app \<Longrightarrow> attrs app i = Some a \<Longrightarrow> at_type a < MRP_MAX_ATTR_TYPE"
  using store_okD(1) [of app] store_okD(4) [of app i a] by (auto simp: attr_ok_def)

text \<open>The invariants read few fields.\<close>

lemma store_tx_step [simp]:
  "store_ok (tx_step app t n fs p) = store_ok app" "live_ok (tx_step app t n fs p) = live_ok app"
  "get_attr (tx_step app t n fs p) = get_attr app" "attrs (tx_step app t n fs p) = attrs app"
  "join_timer (tx_step app t n fs p) = join_timer app" "is_full (tx_step app t n fs p) = is_full app"
  by (auto simp: tx_step_def upd_pdu_def store_ok_def live_ok_def attr_ok_def lists_ok_def attr_ids_def
      anxious_def is_full_def get_attr_def fun_eq_iff attr_types_def)

subsection \<open>The applicant\<close>

text \<open>\<open>mrp_applicant_sm\<close> up to its call of \<open>mrp_applicant_action_handler\<close>.\<close>

definition applicant_core :: "mrp_application \<Rightarrow> nat \<Rightarrow> mrp_event \<Rightarrow> mrp_application" where
  "applicant_core app i event =
     (let a = get_attr app i; t = at_type a; old = ap_state (at_applicant a);
          (state, action) = applicant_next (participant_type app) (reg_state (at_registrar a)) event old
      in app\<lparr>join_timer := (if state \<noteq> old \<and> needs_tx state \<and> \<not> tm_started (join_timer app)
               then tm_start (join_timer app) 100 else join_timer app),
             attrs := (attrs app)(i \<mapsto> a\<lparr>at_applicant := \<lparr>ap_state = state, ap_action = action\<rparr>\<rparr>),
             attributes_ordered := (if state \<noteq> old
               then (attributes_ordered app)[t := remove1 i (attributes_ordered app ! t) @ [i]]
               else attributes_ordered app)\<rparr>)"

lemma applicant_surj: "x\<lparr>ap_action := act\<rparr> = \<lparr>ap_state = ap_state x, ap_action = act\<rparr>"
  "x\<lparr>ap_state := st, ap_action := act\<rparr> = \<lparr>ap_state = st, ap_action = act\<rparr>"
  by (cases x; simp)+

lemma get_upd_attr [simp]:
  "get_attr (upd_attr app i f) i = f (get_attr app i)" "get_attr (app\<lparr>join_timer := jt\<rparr>) = get_attr app"
  "get_attr (app\<lparr>attributes_ordered := ls\<rparr>) = get_attr app"
  by (auto simp: upd_attr_def get_attr_def fun_eq_iff)

lemma applicant_sm_core:
  "mrp_applicant_sm app i event = mrp_applicant_action_handler (applicant_core app i event) i"
proof -
  obtain st act where n: "applicant_next (participant_type app) (reg_state (at_registrar (get_attr app i)))
      event (ap_state (at_applicant (get_attr app i))) = (st, act)" by force
  have "applicant_core app i event = (let a = get_attr app i; t = at_type a; old = ap_state (at_applicant a);
      app1 = (if st \<noteq> old \<and> needs_tx st then mrp_transmit_request app else app);
      app2 = (if st \<noteq> old
                  then (upd_attr app1 i (\<lambda>a. a\<lparr>at_applicant := (at_applicant a)\<lparr>ap_state := st\<rparr>\<rparr>))
                         \<lparr>attributes_ordered := (attributes_ordered app1)
                            [t := remove1 i (attributes_ordered app1 ! t) @ [i]]\<rparr>
                  else app1)
      in upd_attr app2 i (\<lambda>a. a\<lparr>at_applicant := (at_applicant a)\<lparr>ap_action := act\<rparr>\<rparr>))"
    by (simp add: applicant_core_def n [unfolded get_attr_def] Let_def upd_attr_def get_attr_def
        mrp_transmit_request_def applicant_surj)
  then show ?thesis by (simp add: mrp_applicant_sm_def n Let_def)
qed

lemma applicant_core_fields [simp]:
  "get_attr (applicant_core app i event) i = (get_attr app i)\<lparr>at_applicant :=
     (let x = applicant_next (participant_type app) (reg_state (at_registrar (get_attr app i))) event
        (ap_state (at_applicant (get_attr app i))) in \<lparr>ap_state = fst x, ap_action = snd x\<rparr>)\<rparr>"
  "attributes (applicant_core app i event) = attributes app" "next_attr (applicant_core app i event) = next_attr app"
  "participant_type (applicant_core app i event) = participant_type app"
  "max_attr_type (applicant_core app i event) = max_attr_type app"
  "min_attr_type (applicant_core app i event) = min_attr_type app"
  "leave_timeout (applicant_core app i event) = leave_timeout app"
  "attribute_value_length (applicant_core app i event) = attribute_value_length app"
  "attribute_length (applicant_core app i event) = attribute_length app"
  "vector_add_event (applicant_core app i event) = vector_add_event app"
  "mrpdu (applicant_core app i event) = mrpdu app" "sent (applicant_core app i event) = sent app"
  "hung (applicant_core app i event) = hung app" "leaveall (applicant_core app i event) = leaveall app"
  "is_full (applicant_core app i event) = is_full app" "enabled (applicant_core app i event) = enabled app"
  by (simp_all add: applicant_core_def Let_def get_attr_def is_full_def split: prod.splits)

text \<open>The fields that each invariant depends on.\<close>

definition tx_fields where
  "tx_fields app = ((vector_add_event app, hung app, mrpdu app, min_attr_type app, max_attr_type app),
     (dst_mac app, port_mtu app, attribute_length app, attribute_value_length app),
     (has_attribute_list_length app, ethertype app, proto_version app, tx_alloc app, sent app))"

lemma frame_cong:
  "dst_mac app = dst_mac app' \<Longrightarrow> ethertype app = ethertype app' \<Longrightarrow> proto_version app = proto_version app' \<Longrightarrow>
   attribute_length app = attribute_length app' \<Longrightarrow> port_mtu app = port_mtu app' \<Longrightarrow>
   has_attribute_list_length app = has_attribute_list_length app' \<Longrightarrow>
   frame_ok bytes app = frame_ok bytes app' \<and> pdu_inv bytes app = pdu_inv bytes app'"
  by (simp add: fun_eq_iff frame_ok_def pdu_inv_def frame_sent_def frame_bytes_def frame_pre_def wf_vec_def
      open_pdu_def body_ok_def msg_ok_def vec_ok_def hdr_len_def)

lemma tx_ok_cong:
  assumes "tx_fields app = tx_fields app'"
  shows "tx_ok bytes app = tx_ok bytes app'"
proof -
  have f: "frame_ok bytes app = frame_ok bytes app'" "pdu_inv bytes app = pdu_inv bytes app'"
    using frame_cong [of app app' bytes] assms by (simp_all add: tx_fields_def)
  have "tx_cfg app = tx_cfg app'"
    using assms by (simp add: fun_eq_iff tx_fields_def tx_cfg_def hdr_len_def)
  with f assms show ?thesis by (simp add: tx_ok_def tx_fields_def attr_types_def)
qed

definition store_fields where
  "store_fields app = ((min_attr_type app, max_attr_type app, leave_timeout app, participant_type app),
     (attrs app, next_attr app, attributes app, attributes_ordered app, attribute_value_length app))"

lemma store_ok_cong: "store_fields app = store_fields app' \<Longrightarrow> store_ok app = store_ok app'"
  by (simp add: store_fields_def store_ok_def attr_ok_def lists_ok_def attr_ids_def is_full_def attr_types_def)

text \<open>Liveness except for the attributes of \<open>X\<close>, which a handler has still to process.\<close>

definition live_part :: "nat set \<Rightarrow> mrp_application \<Rightarrow> bool" where
  "live_part X app \<longleftrightarrow> tm_created (join_timer app) \<and>
     ((\<exists>i. i \<notin> X \<and> anxious app i) \<or> la_state (leaveall app) = MRP_TIMER_ACTIVE \<longrightarrow>
      tm_started (join_timer app))"

lemma live_ok_part: "live_ok app = live_part {} app"
  by (simp add: live_ok_def live_part_def)

lemma live_part_cong:
  "join_timer app = join_timer app' \<Longrightarrow> attrs app = attrs app' \<Longrightarrow>
   la_state (leaveall app) = la_state (leaveall app') \<Longrightarrow> live_part X app = live_part X app'"
  by (simp add: live_part_def anxious_def)

lemma live_part_tx_step [simp]: "live_part X (tx_step app t n fs p) = live_part X app"
  by (rule live_part_cong) (simp_all add: tx_step_def upd_pdu_def)

lemma tx_core [simp]: "tx_ok bytes (applicant_core app i ev) = tx_ok bytes app"
  by (rule tx_ok_cong) (simp add: tx_fields_def applicant_core_def Let_def split: prod.splits)

lemma attrs_core:
  "attrs (applicant_core app i ev) = (attrs app)(i \<mapsto> get_attr (applicant_core app i ev) i)"
  by (simp add: applicant_core_def Let_def get_attr_def split: prod.splits)

lemma store_core:
  assumes s: "store_ok app" and a: "attrs app i = Some a"
  shows "store_ok (applicant_core app i ev)"
proof -
  let ?app = "applicant_core app i ev"
  let ?a = "get_attr ?app i"
  have ga: "get_attr app i = a" using a by (simp add: get_attr_def)
  have ok: "attr_ok app a" using store_okD(4) [OF s a] .
  have t5: "at_type a < MRP_MAX_ATTR_TYPE" using attr_type_lt [OF s a] .
  have ty: "at_type ?a = at_type a" "at_val ?a = at_val a" by (simp_all add: ga)
  have ids: "attr_ids ?app = attr_ids app"
    using a ty by (auto simp: fun_eq_iff attr_ids_def attrs_core [of app])
  have types: "attr_types ?app = attr_types app" by (simp add: attr_types_def)
  have oka: "attr_ok ?app ?a"
    using ok applicant_next_state [of "ap_state (at_applicant a)"]
    by (auto simp: attr_ok_def ga Let_def)
  have lo: "lists_ok ?app (attributes ?app)"
    using store_okD(5) [OF s] by (simp add: lists_ok_def ids)
  have "lists_ok app (attributes_ordered app)" using store_okD(6) [OF s] .
  moreover have "i \<in> attr_ids app (at_type a)" using a by (auto simp: attr_ids_def)
  ultimately have "lists_ok app ((attributes_ordered app)
      [at_type a := remove1 i (attributes_ordered app ! at_type a) @ [i]])"
    using t5 unfolding lists_ok_def by (auto simp: nth_list_update set_remove1_eq)
  then have oo: "lists_ok ?app (attributes_ordered ?app)"
    using store_okD(6) [OF s] unfolding lists_ok_def ids
    by (auto simp: applicant_core_def Let_def ga split: prod.splits)
  have all: "j < next_attr ?app \<and> attr_ok ?app b" if "attrs ?app j = Some b" for j b
  proof (cases "j = i")
    case True
    then have "b = ?a" using that by (simp add: attrs_core [of app])
    with oka True store_okD(3) [OF s a] show ?thesis by simp
  next
    case False
    then have "attrs app j = Some b" using that by (simp add: attrs_core [of app])
    with store_okD(3,4) [OF s] show ?thesis by (auto simp: attr_ok_def)
  qed
  have orig: "\<exists>b'. attrs app j = Some b' \<and> at_type b' = at_type b \<and> at_val b' = at_val b"
    if "attrs ?app j = Some b" for j b
    using that a ty by (cases "j = i") (auto simp: attrs_core [of app])
  have inj: "j = k" if "attrs ?app j = Some b" "attrs ?app k = Some c" "at_type b = at_type c" "at_val b = at_val c"
    for j k b c
    using orig [OF that(1)] orig [OF that(2)] that(3,4) store_okD(7) [OF s, of j _ k] by metis
  show ?thesis
    unfolding store_ok_def using all inj lo oo store_okD(1,2) [OF s] by auto
qed

lemma core_state: "ap_state (at_applicant (get_attr (applicant_core app i ev) i)) =
    fst (applicant_next (participant_type app) (reg_state (at_registrar (get_attr app i))) ev
      (ap_state (at_applicant (get_attr app i))))"
  by (simp add: Let_def)

lemma core_join:
  "join_timer (applicant_core app i ev) =
     (let st = ap_state (at_applicant (get_attr (applicant_core app i ev) i))
      in if st \<noteq> ap_state (at_applicant (get_attr app i)) \<and> needs_tx st \<and> \<not> tm_started (join_timer app)
         then tm_start (join_timer app) 100 else join_timer app)"
  unfolding core_state by (simp add: applicant_core_def Let_def split: prod.splits)

lemma live_core:
  assumes l: "live_part X app" and a: "attrs app i = Some a"
  shows "live_part X (applicant_core app i ev)"
proof -
  let ?app = "applicant_core app i ev"
  have ga: "get_attr app i = a" using a by (simp add: get_attr_def)
  have j: "tm_created (join_timer ?app)" "tm_started (join_timer app) \<Longrightarrow> tm_started (join_timer ?app)"
    using l by (auto simp: core_join Let_def tm_start_def live_part_def)
  have old: "anxious ?app k \<Longrightarrow> k \<noteq> i \<Longrightarrow> anxious app k" for k
    by (auto simp: anxious_def attrs_core [of app])
  have new: "tm_started (join_timer ?app)" if "anxious ?app i" "i \<notin> X"
  proof (cases "ap_state (at_applicant (get_attr ?app i)) = ap_state (at_applicant a)")
    case True
    then have "anxious app i" using that a by (auto simp: anxious_def attrs_core [of app])
    with that l j show ?thesis by (auto simp: live_part_def)
  next
    case False
    then show ?thesis
      using that l unfolding core_join Let_def ga
      by (auto simp: anxious_def attrs_core [of app] tm_start_def live_part_def)
  qed
  show ?thesis
    unfolding live_part_def using l j old new by (auto simp: live_part_def)
qed

lemma tx_changes:
  "ev = MRP_EVENT_TX \<or> ev = MRP_EVENT_TXLA \<Longrightarrow> applicant_state st \<Longrightarrow>
     needs_tx (fst (applicant_next pt reg ev st)) \<Longrightarrow> fst (applicant_next pt reg ev st) \<noteq> st"
  by (cases st) (auto simp: applicant_defs needs_tx_def applicant_state_def split: if_splits)

lemma live_core_tx:
  assumes l: "live_part X app" and a: "attrs app i = Some a" and st: "applicant_state (ap_state (at_applicant a))"
    and ev: "ev = MRP_EVENT_TX \<or> ev = MRP_EVENT_TXLA"
  shows "live_part (X - {i}) (applicant_core app i ev)"
proof -
  let ?app = "applicant_core app i ev"
  have ga: "get_attr app i = a" using a by (simp add: get_attr_def)
  have "tm_started (join_timer ?app)" if "anxious ?app i"
    using that l tx_changes [OF ev st] unfolding core_join Let_def core_state ga
    by (auto simp: anxious_def attrs_core [of app] ga tm_start_def live_part_def Let_def)
  with live_core [OF l a, of ev] show ?thesis by (auto simp: live_part_def)
qed

lemma tx_ok_step:
  assumes "tx_ok bytes app" and "t \<in> set (attr_types app)" and "pdu_inv bytes app t p"
    and "\<forall>f\<in>set fs. frame_ok bytes app t f"
  shows "tx_ok bytes (tx_step app t n fs p)"
proof -
  have 1: "attr_types (tx_step app t n fs p) = attr_types app" "hung (tx_step app t n fs p) = hung app"
    "sent (tx_step app t n fs p) = sent app @ fs" "mrpdu (tx_step app t n fs p) = (mrpdu app)[t := p]"
    "attribute_value_length (tx_step app t n fs p) = attribute_value_length app"
    by (simp_all add: tx_step_def upd_pdu_def attr_types_def)
  have "pdu_inv bytes app u ((mrpdu app)[t := p] ! u)" if "u \<in> set (attr_types app)" for u
    using assms that by (cases "u = t") (auto simp: tx_ok_def tx_cfg_def)
  then show ?thesis
    using assms(1,2,4) unfolding tx_ok_def 1 tx_step_cfg
    by (auto simp del: attr_types_set)
qed

lemma handler_effect:
  assumes tx: "tx_ok bytes app" and a: "attrs app i = Some a" and ok: "attr_ok app a"
  shows "\<exists>n fs p. mrp_applicant_action_handler app i = tx_step app (at_type a) n fs p \<and>
    tx_ok bytes (tx_step app (at_type a) n fs p)"
proof -
  let ?t = "at_type a"
  have ga: "get_attr app i = a" using a by (simp add: get_attr_def)
  have t: "?t \<in> set (attr_types app)" using ok by (simp add: attr_ok_def)
  have cfg: "tx_cfg app ?t" and pdu: "pdu_inv bytes app ?t (mrpdu app ! ?t)" and len: "attribute_length app ?t \<le> length (at_val a)"
    and enc: "event_encoder (vector_add_event app) bytes"
    using tx t ok by (auto simp: tx_ok_def attr_ok_def)
  show ?thesis
  proof (cases "mrp_action2event (participant_type app) (reg_state (at_registrar a)) (ap_action (at_applicant a))")
    case None
    then have "mrp_applicant_action_handler app i = app"
      by (simp add: mrp_applicant_action_handler_def ga Let_def)
    moreover have "app = tx_step app ?t (n_tx_alloc app) [] (mrpdu app ! ?t)"
      by (simp add: tx_step_def upd_pdu_def)
    ultimately show ?thesis using tx by metis
  next
    case (Some e)
    have "\<exists>n fs p'. mrp_transmit_action app ?t (Some a) e False = tx_step app ?t n fs p' \<and>
        (\<forall>f\<in>set fs. frame_ok bytes app ?t f) \<and> length fs \<le> 1 \<and> pdu_inv bytes app ?t p' \<and>
        ((\<forall>m. tx_alloc app m \<noteq> None) \<longrightarrow> (\<exists>src vs v. open_pdu app ?t src vs v p' \<and>
          (case Some a of None \<Rightarrow> tv_lva v
           | Some a \<Rightarrow> tv_fv v = take (attribute_length app ?t) (at_val a) \<and> tv_evs v = bytes a e)))"
      by (rule event_encoder.transmit_action_outcome [OF enc pdu cfg refl]) (use len in auto)
    then obtain n fs p where r: "mrp_transmit_action app ?t (Some a) e False = tx_step app ?t n fs p"
      "\<forall>f\<in>set fs. frame_ok bytes app ?t f" "pdu_inv bytes app ?t p" by blast
    have "mrp_applicant_action_handler app i = tx_step app ?t n fs p"
      using Some r(1) by (simp add: mrp_applicant_action_handler_def ga Let_def)
    with tx_ok_step [OF tx t r(3,2)] show ?thesis by blast
  qed
qed

lemma applicant_sm_effect:
  assumes s: "store_ok app" and tx: "tx_ok bytes app" and a: "attrs app i = Some a"
  obtains n fs p where "mrp_applicant_sm app i ev = tx_step (applicant_core app i ev) (at_type a) n fs p"
    "tx_ok bytes (mrp_applicant_sm app i ev)"
proof -
  let ?app = "applicant_core app i ev"
  let ?a = "get_attr ?app i"
  have at: "attrs ?app i = Some ?a" unfolding attrs_core by simp
  have "\<exists>n fs p. mrp_applicant_action_handler ?app i = tx_step ?app (at_type ?a) n fs p \<and>
    tx_ok bytes (tx_step ?app (at_type ?a) n fs p)"
    by (rule handler_effect [OF _ at]) (use tx store_okD(4) [OF store_core [OF s a] at] in simp_all)
  moreover have "get_attr app i = a" using a by (simp add: get_attr_def)
  then have "at_type ?a = at_type a" by simp
  ultimately show ?thesis using that by (auto simp: applicant_sm_core)
qed

text \<open>What the callers of the applicant need: the invariants, and what it leaves alone.\<close>

lemma applicant_sm_inv:
  assumes s: "store_ok app" and tx: "tx_ok bytes app" and a: "attrs app i = Some a"
  shows "store_ok (mrp_applicant_sm app i ev)" and "tx_ok bytes (mrp_applicant_sm app i ev)"
    and "live_part X app \<Longrightarrow> live_part X (mrp_applicant_sm app i ev)"
    and "live_part X app \<Longrightarrow> ev = MRP_EVENT_TX \<or> ev = MRP_EVENT_TXLA \<Longrightarrow>
      live_part (X - {i}) (mrp_applicant_sm app i ev)"
proof -
  obtain n fs p where e: "mrp_applicant_sm app i ev = tx_step (applicant_core app i ev) (at_type a) n fs p"
    "tx_ok bytes (mrp_applicant_sm app i ev)" by (rule applicant_sm_effect [OF s tx a])
  show "tx_ok bytes (mrp_applicant_sm app i ev)" by (rule e(2))
  show "store_ok (mrp_applicant_sm app i ev)" unfolding e(1) using store_core [OF s a] by simp
  show "live_part X app \<Longrightarrow> live_part X (mrp_applicant_sm app i ev)"
    unfolding e(1) using live_core [OF _ a] by simp
  show "live_part X app \<Longrightarrow> ev = MRP_EVENT_TX \<or> ev = MRP_EVENT_TXLA \<Longrightarrow>
      live_part (X - {i}) (mrp_applicant_sm app i ev)"
    unfolding e(1) using live_core_tx [OF _ a] store_okD(4) [OF s a] by (simp add: attr_ok_def)
qed

lemma applicant_sm_frame:
  assumes s: "store_ok app" and tx: "tx_ok bytes app" and a: "attrs app i = Some a"
  shows "attributes (mrp_applicant_sm app i ev) = attributes app"
    "enabled (mrp_applicant_sm app i ev) = enabled app" "leaveall (mrp_applicant_sm app i ev) = leaveall app"
    "participant_type (mrp_applicant_sm app i ev) = participant_type app"
    "timer_ok (mrp_applicant_sm app i ev) = timer_ok app"
    "attr_types (mrp_applicant_sm app i ev) = attr_types app"
    "attribute_value_length (mrp_applicant_sm app i ev) = attribute_value_length app"
    "attrs (mrp_applicant_sm app i ev) = (attrs app)(i \<mapsto> a\<lparr>at_applicant :=
       (let x = applicant_next (participant_type app) (reg_state (at_registrar a)) ev (ap_state (at_applicant a))
        in \<lparr>ap_state = fst x, ap_action = snd x\<rparr>)\<rparr>)"
    "attributes_ordered (mrp_applicant_sm app i ev) =
       (if fst (applicant_next (participant_type app) (reg_state (at_registrar a)) ev (ap_state (at_applicant a)))
          = ap_state (at_applicant a) then attributes_ordered app
        else (attributes_ordered app)[at_type a := remove1 i (attributes_ordered app ! at_type a) @ [i]])"
    "malloc_ok (mrp_applicant_sm app i ev) = malloc_ok app"
proof -
  obtain n fs p where e: "mrp_applicant_sm app i ev = tx_step (applicant_core app i ev) (at_type a) n fs p"
    by (rule applicant_sm_effect [OF s tx a])
  have ga: "get_attr app i = a" using a by (simp add: get_attr_def)
  show "attributes (mrp_applicant_sm app i ev) = attributes app"
    "enabled (mrp_applicant_sm app i ev) = enabled app" "leaveall (mrp_applicant_sm app i ev) = leaveall app"
    "participant_type (mrp_applicant_sm app i ev) = participant_type app"
    "timer_ok (mrp_applicant_sm app i ev) = timer_ok app"
    "attr_types (mrp_applicant_sm app i ev) = attr_types app"
    "attribute_value_length (mrp_applicant_sm app i ev) = attribute_value_length app"
    "attrs (mrp_applicant_sm app i ev) = (attrs app)(i \<mapsto> a\<lparr>at_applicant :=
       (let x = applicant_next (participant_type app) (reg_state (at_registrar a)) ev (ap_state (at_applicant a))
        in \<lparr>ap_state = fst x, ap_action = snd x\<rparr>)\<rparr>)"
    "attributes_ordered (mrp_applicant_sm app i ev) =
       (if fst (applicant_next (participant_type app) (reg_state (at_registrar a)) ev (ap_state (at_applicant a)))
          = ap_state (at_applicant a) then attributes_ordered app
        else (attributes_ordered app)[at_type a := remove1 i (attributes_ordered app ! at_type a) @ [i]])"
    "malloc_ok (mrp_applicant_sm app i ev) = malloc_ok app"
    unfolding e
    by (auto simp: tx_step_def upd_pdu_def applicant_core_def Let_def attr_types_def ga split: prod.splits)
qed

subsection \<open>The store\<close>

lemma free_attribute_inv:
  assumes s: "store_ok app" and a: "attrs app i = Some a"
  shows "store_ok (mrp_free_attribute app i)" and "tx_ok bytes (mrp_free_attribute app i) = tx_ok bytes app"
    and "live_part X app \<Longrightarrow> live_part X (mrp_free_attribute app i)"
proof -
  let ?app = "mrp_free_attribute app i"
  have ga: "get_attr app i = a" using a by (simp add: get_attr_def)
  have at: "attrs ?app = (attrs app)(i := None)" by (simp add: mrp_free_attribute_def Let_def)
  have t5: "at_type a < MRP_MAX_ATTR_TYPE" using attr_type_lt [OF s a] .
  have ids: "attr_ids ?app t = attr_ids app t - {i}" for t by (auto simp: attr_ids_def at)
  have lists: "lists_ok ?app (ls[at_type a := remove1 i (ls ! at_type a)])" if "lists_ok app ls" for ls
  proof -
    have "i \<notin> attr_ids app u" if "u \<noteq> at_type a" for u using a that by (auto simp: attr_ids_def)
    with that t5 show ?thesis
      unfolding lists_ok_def ids by (auto simp: nth_list_update set_remove1_eq)
  qed
  have ok: "attr_ok ?app b = attr_ok app b" for b
    by (simp add: attr_ok_def mrp_free_attribute_def Let_def attr_types_def is_full_def)
  have "store_ok ?app" if lo: "lists_ok ?app (attributes ?app)" "lists_ok ?app (attributes_ordered ?app)"
    unfolding store_ok_def
    using lo s ok unfolding store_ok_def
    by (auto simp: at split: if_splits) (auto simp: mrp_free_attribute_def Let_def)
  moreover have "lists_ok ?app (attributes ?app)" "lists_ok ?app (attributes_ordered ?app)"
    using lists [OF store_okD(5) [OF s]] lists [OF store_okD(6) [OF s]]
    by (simp_all add: mrp_free_attribute_def Let_def ga)
  ultimately show "store_ok ?app" by blast
  show "tx_ok bytes ?app = tx_ok bytes app"
    by (rule tx_ok_cong) (simp add: tx_fields_def mrp_free_attribute_def Let_def)
  have "anxious ?app k \<Longrightarrow> anxious app k" for k by (auto simp: anxious_def at split: if_splits)
  moreover have "join_timer ?app = join_timer app" "leaveall ?app = leaveall app"
    by (simp_all add: mrp_free_attribute_def Let_def)
  ultimately show "live_part X app \<Longrightarrow> live_part X ?app" by (auto simp: live_part_def)
qed

lemma free_check_cases: "mrp_free_attribute_check app i = app \<or> mrp_free_attribute_check app i = mrp_free_attribute app i"
  by (simp add: mrp_free_attribute_check_def Let_def)

lemma free_check_inv:
  assumes s: "store_ok app" and a: "attrs app i = Some a"
  shows "store_ok (mrp_free_attribute_check app i)"
    and "tx_ok bytes (mrp_free_attribute_check app i) = tx_ok bytes app"
    and "live_part X app \<Longrightarrow> live_part X (mrp_free_attribute_check app i)"
  using free_check_cases [of app i] free_attribute_inv [OF s a] s by metis+

text \<open>A registrar is replaced: by a step of its state machine, or by the expiry of its leave timer.\<close>

definition set_reg :: "mrp_application \<Rightarrow> nat \<Rightarrow> mrp_registrar \<Rightarrow> mrp_application" where
  "set_reg app i r = app\<lparr>attrs := (attrs app)(i \<mapsto> (get_attr app i)\<lparr>at_registrar := r\<rparr>)\<rparr>"

lemma set_reg_inv:
  assumes s: "store_ok app" and a: "attrs app i = Some a" and r: "is_full app \<longrightarrow> registrar_inv r"
  shows "store_ok (set_reg app i r)" and "tx_ok bytes (set_reg app i r) = tx_ok bytes app"
    and "live_part X (set_reg app i r) = live_part X app"
proof -
  let ?app = "set_reg app i r"
  let ?a = "a\<lparr>at_registrar := r\<rparr>"
  have at: "attrs ?app = (attrs app)(i \<mapsto> ?a)"
    using a by (simp add: set_reg_def get_attr_def)
  have ids: "attr_ids ?app = attr_ids app" using a by (auto simp: fun_eq_iff attr_ids_def at)
  have fld: "attributes ?app = attributes app" "attributes_ordered ?app = attributes_ordered app"
    "next_attr ?app = next_attr app" "max_attr_type ?app = max_attr_type app" "leave_timeout ?app = leave_timeout app"
    by (simp_all add: set_reg_def)
  have okeq: "attr_ok ?app b = attr_ok app b" for b
    by (simp add: attr_ok_def set_reg_def attr_types_def is_full_def)
  have "attr_ok app ?a"
    using store_okD(4) [OF s a] r by (auto simp: attr_ok_def)
  then have all: "j < next_attr ?app \<and> attr_ok ?app b" if "attrs ?app j = Some b" for j b
    using that store_okD(3,4) [OF s] a unfolding okeq fld at by (auto split: if_splits)
  have orig: "\<exists>b'. attrs app j = Some b' \<and> at_type b' = at_type b \<and> at_val b' = at_val b"
    if "attrs ?app j = Some b" for j b
    using that a by (cases "j = i") (auto simp: at)
  have inj: "j = k" if "attrs ?app j = Some b" "attrs ?app k = Some c" "at_type b = at_type c" "at_val b = at_val c"
    for j k b c
    using orig [OF that(1)] orig [OF that(2)] that(3,4) store_okD(7) [OF s, of j _ k] by metis
  have "lists_ok ?app (attributes ?app)" "lists_ok ?app (attributes_ordered ?app)"
    using store_okD(5,6) [OF s] by (simp_all add: lists_ok_def ids fld)
  then show "store_ok ?app"
    unfolding store_ok_def using all inj store_okD(1,2) [OF s] fld by auto
  show "tx_ok bytes ?app = tx_ok bytes app"
    by (rule tx_ok_cong) (simp add: tx_fields_def set_reg_def)
  have "anxious ?app k = anxious app k" for k using a by (auto simp: anxious_def at)
  moreover have "join_timer ?app = join_timer app" "leaveall ?app = leaveall app"
    by (simp_all add: set_reg_def)
  ultimately show "live_part X ?app = live_part X app" by (simp add: live_part_def)
qed

lemma registrar_step_set:
  "mrp_registrar_step app i ev = set_reg app i
     (registrar_next (participant_type app) (leave_timeout app) ev (at_registrar (get_attr app i)))"
  by (simp add: mrp_registrar_step_def upd_attr_def set_reg_def)

lemma registrar_step_inv:
  assumes s: "store_ok app" and a: "attrs app i = Some a"
  shows "store_ok (mrp_registrar_step app i ev)" and "tx_ok bytes (mrp_registrar_step app i ev) = tx_ok bytes app"
    and "live_part X (mrp_registrar_step app i ev) = live_part X app"
proof -
  have "get_attr app i = a" using a by (simp add: get_attr_def)
  then have "is_full app \<longrightarrow> registrar_inv (registrar_next (participant_type app) (leave_timeout app) ev (at_registrar (get_attr app i)))"
    using store_okD(2) [OF s] store_okD(4) [OF s a] registrar_next_inv [of "at_registrar a" "leave_timeout app"]
    by (auto simp: attr_ok_def)
  from set_reg_inv [OF s a this]
  show "store_ok (mrp_registrar_step app i ev)" and "tx_ok bytes (mrp_registrar_step app i ev) = tx_ok bytes app"
    and "live_part X (mrp_registrar_step app i ev) = live_part X app"
    unfolding registrar_step_set by auto
qed

text \<open>
  Allocation. BEGIN brings the applicant to VO whatever the fresh memory held, sends nothing and
  needs no transmission; what the memory held decides whether the attribute ends up first or last in
  \<open>attributes_ordered\<close>.
\<close>

definition fresh_attr :: "mrp_application \<Rightarrow> nat \<Rightarrow> u8 list \<Rightarrow> mrp_attribute" where
  "fresh_attr app t val =
     \<lparr>at_type = t, at_val = take (attribute_value_length app t) val,
      at_applicant = \<lparr>ap_state = MRP_STATE_VO, ap_action = MRP_ACTION_NONE\<rparr>,
      at_registrar = \<lparr>reg_state = (if is_full app then MRP_STATE_MT else malloc_state app (n_malloc app)),
        reg_action = MRP_ACTION_NONE, reg_leave = \<lparr>tm_created = True, tm_started = False\<rparr>\<rparr>\<rparr>"

lemma applicant_begin:
  assumes "attrs app i = Some a"
  shows "mrp_applicant_sm app i MRP_EVENT_BEGIN =
    app\<lparr>attrs := (attrs app)(i \<mapsto> a\<lparr>at_applicant := \<lparr>ap_state = MRP_STATE_VO, ap_action = MRP_ACTION_NONE\<rparr>\<rparr>),
      attributes_ordered := (if ap_state (at_applicant a) = MRP_STATE_VO then attributes_ordered app
        else (attributes_ordered app)[at_type a := remove1 i (attributes_ordered app ! at_type a) @ [i]])\<rparr>"
proof -
  have ga: "get_attr app i = a" using assms by (simp add: get_attr_def)
  have n: "applicant_next pt reg MRP_EVENT_BEGIN st = (MRP_STATE_VO, MRP_ACTION_NONE)" for pt reg st
    by (simp add: applicant_defs)
  have none: "mrp_action2event pt reg MRP_ACTION_NONE = None" for pt reg by (simp add: mrp_action2event_def)
  have "mrp_applicant_sm app i MRP_EVENT_BEGIN = applicant_core app i MRP_EVENT_BEGIN"
    by (simp add: applicant_sm_core mrp_applicant_action_handler_def ga n none)
  then show ?thesis
    by (auto simp: applicant_core_def ga n Let_def needs_tx_def)
qed

lemma alloc_effect:
  assumes "malloc_ok app (n_malloc app)" and "timer_ok app (n_timer app)"
    and "length (attributes_ordered app) = MRP_MAX_ATTR_TYPE" and "t < MRP_MAX_ATTR_TYPE"
  shows "mrp_alloc_attribute app t val = (Some (next_attr app),
    app\<lparr>n_malloc := n_malloc app + 1, next_attr := next_attr app + 1, n_timer := n_timer app + 1,
        attrs := (attrs app)(next_attr app \<mapsto> fresh_attr app t val),
        attributes := (attributes app)[t := next_attr app # (attributes app ! t)],
        attributes_ordered := (attributes_ordered app)[t :=
          (if malloc_state app (n_malloc app) = MRP_STATE_VO then next_attr app # (attributes_ordered app ! t)
           else (attributes_ordered app ! t) @ [next_attr app])]\<rparr>)"
proof -
  have b: "registrar_next pt timeout MRP_EVENT_BEGIN reg
      = reg\<lparr>reg_state := (if bit_test pt MRP_PARTICIPANT_TYPE_FULL then MRP_STATE_MT else reg_state reg),
            reg_action := MRP_ACTION_NONE\<rparr>" for pt timeout reg
    by (simp add: registrar_next_def Let_def)
  show ?thesis
    using assms
    by (simp add: mrp_alloc_attribute_def Let_def applicant_begin mrp_registrar_step_def upd_attr_def
        get_attr_def b fresh_attr_def is_full_def)
qed

lemma find_attribute_None:
  assumes "store_ok app" and "t < MRP_MAX_ATTR_TYPE" and "mrp_find_attribute app t val = None"
    and "attrs app j = Some b" and "at_type b = t"
  shows "at_val b \<noteq> take (attribute_value_length app t) val"
proof
  assume eq: "at_val b = take (attribute_value_length app t) val"
  have "j \<in> set (attributes app ! t)"
    using store_okD(5) [OF assms(1)] assms(2,4,5) by (auto simp: lists_ok_def attr_ids_def)
  moreover have "get_attr app j = b" using assms(4) by (simp add: get_attr_def)
  ultimately show False
    using assms(3) eq by (auto simp: mrp_find_attribute_def Let_def find_None_iff)
qed

lemma find_attribute_Some:
  assumes "store_ok app" and "t < MRP_MAX_ATTR_TYPE" and "mrp_find_attribute app t val = Some i"
  obtains a where "attrs app i = Some a" "at_type a = t" "at_val a = take (attribute_value_length app t) val"
proof -
  from assms(3) have i: "i \<in> set (attributes app ! t)"
    and v: "take (attribute_value_length app t) (at_val (get_attr app i)) = take (attribute_value_length app t) val"
    unfolding mrp_find_attribute_def Let_def by (auto dest!: find_Some_in)
  from i obtain a where a: "attrs app i = Some a" "at_type a = t"
    using store_okD(5) [OF assms(1)] assms(2) by (auto simp: lists_ok_def attr_ids_def)
  have "length (at_val a) = attribute_value_length app t"
    using store_okD(4) [OF assms(1) a(1)] a(2) by (simp add: attr_ok_def)
  with v a that show ?thesis by (simp add: get_attr_def)
qed

lemma alloc_inv:
  assumes s: "store_ok app" and tm: "timer_ok app (n_timer app)" and t: "t \<in> set (attr_types app)"
    and val: "attribute_value_length app t \<le> length val"
    and fresh: "mrp_find_attribute app t val = None"
    and r: "mrp_alloc_attribute app t val = (r, app')"
  shows "store_ok app'" "tx_ok bytes app' = tx_ok bytes app" "live_part X app' = live_part X app"
    "r = Some i \<Longrightarrow> attrs app' i = Some (fresh_attr app t val) \<and> attrs app' = (attrs app)(i \<mapsto> fresh_attr app t val) \<and>
       attrs app i = None"
    "enabled app' = enabled app" "leaveall app' = leaveall app" "participant_type app' = participant_type app"
    "timer_ok app' = timer_ok app" "attr_types app' = attr_types app"
    "attribute_value_length app' = attribute_value_length app"
    "r = None \<Longrightarrow> attrs app' = attrs app" "malloc_ok app' = malloc_ok app"
proof -
  have t5: "t < MRP_MAX_ATTR_TYPE" using t store_okD(1) [OF s] by simp
  have lo: "length (attributes_ordered app) = MRP_MAX_ATTR_TYPE" using store_okD(6) [OF s] by (simp add: lists_ok_def)
  have bad: "app' = app\<lparr>n_malloc := n_malloc app + 1\<rparr>" "r = None" if "\<not> malloc_ok app (n_malloc app)"
    using r that by (auto simp: mrp_alloc_attribute_def Let_def)
  let ?i = "next_attr app" and ?f = "fresh_attr app t val"
  let ?o = "(if malloc_state app (n_malloc app) = MRP_STATE_VO then ?i # (attributes_ordered app ! t)
           else (attributes_ordered app ! t) @ [?i])"
  have good: "r = Some ?i" "app' = app\<lparr>n_malloc := n_malloc app + 1, next_attr := ?i + 1, n_timer := n_timer app + 1,
        attrs := (attrs app)(?i \<mapsto> ?f), attributes := (attributes app)[t := ?i # (attributes app ! t)],
        attributes_ordered := (attributes_ordered app)[t := ?o]\<rparr>" if "malloc_ok app (n_malloc app)"
    using r alloc_effect [OF that tm lo t5, of val] by simp_all
  have fi: "attrs app ?i = None" using store_okD(3) [OF s, of ?i] by (cases "attrs app ?i") auto
  have fok: "attr_ok app ?f"
    using t val by (auto simp: attr_ok_def fresh_attr_def applicant_state_def registrar_inv_def registrar_state_def)
  show "tx_ok bytes app' = tx_ok bytes app"
    using good bad by (cases "malloc_ok app (n_malloc app)") (auto intro!: tx_ok_cong simp: tx_fields_def)
  show "live_part X app' = live_part X app"
  proof (cases "malloc_ok app (n_malloc app)")
    case True
    have "anxious app' k = anxious app k" for k
      using good [OF True] fi by (auto simp: anxious_def fresh_attr_def needs_tx_def)
    then show ?thesis using good [OF True] by (simp add: live_part_def)
  next
    case False
    show ?thesis unfolding bad(1) [OF False] by (rule live_part_cong) simp_all
  qed
  show "enabled app' = enabled app" "leaveall app' = leaveall app" "participant_type app' = participant_type app"
    "timer_ok app' = timer_ok app" "attr_types app' = attr_types app"
    "attribute_value_length app' = attribute_value_length app" "malloc_ok app' = malloc_ok app"
    using good bad by (cases "malloc_ok app (n_malloc app)"; simp add: attr_types_def)+
  show "r = Some i \<Longrightarrow> attrs app' i = Some ?f \<and> attrs app' = (attrs app)(i \<mapsto> ?f) \<and> attrs app i = None"
    using good bad fi by (cases "malloc_ok app (n_malloc app)") auto
  show "r = None \<Longrightarrow> attrs app' = attrs app"
    using good bad by (cases "malloc_ok app (n_malloc app)") auto
  show "store_ok app'"
  proof (cases "malloc_ok app (n_malloc app)")
    case False
    show ?thesis using s store_ok_cong [of app' app] bad [OF False] by (simp add: store_fields_def)
  next
    case True
    note g = good [OF True]
    have ids: "attr_ids app' u = (if u = t then insert ?i (attr_ids app t) else attr_ids app u)" for u
      using g fi by (auto simp: attr_ids_def fresh_attr_def)
    have ni: "?i \<notin> attr_ids app u" for u using fi by (simp add: attr_ids_def)
    have okeq: "attr_ok app' b = attr_ok app b" for b using g by (simp add: attr_ok_def attr_types_def is_full_def)
    have "lists_ok app' (attributes app')" "lists_ok app' (attributes_ordered app')"
      using store_okD(5,6) [OF s] t5 ni g unfolding lists_ok_def ids by (auto simp: nth_list_update)
    moreover have "j < next_attr app' \<and> attr_ok app' b" if "attrs app' j = Some b" for j b
      using that g fok store_okD(3,4) [OF s, of j b] unfolding okeq by (auto split: if_splits)
    moreover have "j = k" if jk: "attrs app' j = Some b" "attrs app' k = Some c" "at_type b = at_type c" "at_val b = at_val c"
      for j k b c
    proof -
      have at: "attrs app' = (attrs app)(?i \<mapsto> ?f)" using g by simp
      have new: "at_type b' \<noteq> at_type ?f \<or> at_val b' \<noteq> at_val ?f" if "attrs app m = Some b'" for m b'
        using find_attribute_None [OF s t5 fresh that] by (auto simp: fresh_attr_def)
      show ?thesis
      proof (cases "j = ?i \<or> k = ?i")
        case True
        then show ?thesis using jk new [of j b] new [of k c] unfolding at by (auto split: if_splits)
      next
        case False
        then show ?thesis using jk store_okD(7) [OF s, of j b k c] unfolding at by simp
      qed
    qed
    moreover have "max_attr_type app' = max_attr_type app" "leave_timeout app' = leave_timeout app" using g by simp_all
    ultimately show ?thesis unfolding store_ok_def using store_okD(1,2) [OF s] by metis
  qed
qed

end
