(* ===== verification/MRP_Inv.thy ===== *)
theory MRP_Inv
  imports MRP_App_Proofs
begin

section \<open>The operations of an MRP application keep its invariant\<close>

text \<open>
  \<open>mrp_inv\<close> is the invariant of one application between two calls. The requests, the reception of
  LeaveAll, the timers and the transmission keep it; the join timer's loop processes each attribute
  exactly once although the applicant reorders the list it runs on.
\<close>

definition mrp_inv :: "(mrp_attribute \<Rightarrow> nat \<Rightarrow> u8 list) \<Rightarrow> mrp_application \<Rightarrow> bool" where
  "mrp_inv bytes app \<longleftrightarrow> store_ok app \<and> tx_ok bytes app \<and> live_ok app \<and> (\<forall>n. timer_ok app n) \<and>
     (la_state (leaveall app) = MRP_TIMER_ACTIVE \<longrightarrow> is_full app)"

text \<open>The configuration, which no operation changes.\<close>

definition mrp_frame :: "mrp_application \<Rightarrow> mrp_application \<Rightarrow> bool" where
  "mrp_frame app app' \<longleftrightarrow> participant_type app' = participant_type app \<and> timer_ok app' = timer_ok app \<and>
     attr_types app' = attr_types app \<and> attribute_value_length app' = attribute_value_length app \<and>
     enabled app' = enabled app \<and> malloc_ok app' = malloc_ok app"

lemma mrp_frame_refl [simp]: "mrp_frame app app"
  by (simp add: mrp_frame_def)

lemma mrp_frame_trans: "mrp_frame a b \<Longrightarrow> mrp_frame b c \<Longrightarrow> mrp_frame a c"
  by (simp add: mrp_frame_def)

text \<open>
  The values that the applicants declare. Nothing but a request changes them.
\<close>

definition declares :: "mrp_application \<Rightarrow> (nat \<times> u8 list) set" where
  "declares app = {(at_type a, at_val a) | i a. attrs app i = Some a \<and> mrp_declaring (ap_state (at_applicant a))}"

definition mrp_keep :: "mrp_application \<Rightarrow> mrp_application \<Rightarrow> bool" where
  "mrp_keep app app' \<longleftrightarrow> mrp_frame app app' \<and> declares app' = declares app"

lemmas mrp_keep_defs = mrp_keep_def mrp_frame_def declares_def

lemma mrp_keep_refl [simp]: "mrp_keep app app"
  by (simp add: mrp_keep_def)

lemma mrp_keep_trans: "mrp_keep a b \<Longrightarrow> mrp_keep b c \<Longrightarrow> mrp_keep a c"
  by (auto simp: mrp_keep_def intro: mrp_frame_trans)

lemma keep_frame: "mrp_keep app app' \<Longrightarrow> mrp_frame app app'"
  by (simp add: mrp_keep_def)

lemma declares_iff:
  "(t, v) \<in> declares app \<longleftrightarrow>
     (\<exists>i a. attrs app i = Some a \<and> at_type a = t \<and> at_val a = v \<and> mrp_declaring (ap_state (at_applicant a)))"
  by (auto simp: declares_def)

lemma declares_upd:
  assumes "attrs app i = Some a" and "attrs app' = (attrs app)(i := r)"
    and "case r of None \<Rightarrow> \<not> mrp_declaring (ap_state (at_applicant a))
      | Some b \<Rightarrow> at_type b = at_type a \<and> at_val b = at_val a \<and>
          mrp_declaring (ap_state (at_applicant b)) = mrp_declaring (ap_state (at_applicant a))"
  shows "declares app' = declares app"
proof -
  have "(t, v) \<in> declares app' \<longleftrightarrow> (t, v) \<in> declares app" for t v
    unfolding declares_iff
  proof
    assume "\<exists>i a. attrs app' i = Some a \<and> at_type a = t \<and> at_val a = v \<and> mrp_declaring (ap_state (at_applicant a))"
    then obtain j b where "attrs app' j = Some b" "at_type b = t" "at_val b = v" "mrp_declaring (ap_state (at_applicant b))"
      by blast
    then show "\<exists>i a. attrs app i = Some a \<and> at_type a = t \<and> at_val a = v \<and> mrp_declaring (ap_state (at_applicant a))"
      using assms by (cases "j = i") (auto split: option.splits)
  next
    assume "\<exists>i a. attrs app i = Some a \<and> at_type a = t \<and> at_val a = v \<and> mrp_declaring (ap_state (at_applicant a))"
    then obtain j b where "attrs app j = Some b" "at_type b = t" "at_val b = v" "mrp_declaring (ap_state (at_applicant b))"
      by blast
    then show "\<exists>i a. attrs app' i = Some a \<and> at_type a = t \<and> at_val a = v \<and> mrp_declaring (ap_state (at_applicant a))"
      using assms
      by (cases "j = i") (auto split: option.splits intro!: exI [where x = j])
  qed
  then show ?thesis by auto
qed

lemma declares_new:
  assumes "attrs app i = None" and "attrs app' = (attrs app)(i \<mapsto> b)" and "\<not> mrp_declaring (ap_state (at_applicant b))"
  shows "declares app' = declares app"
proof -
  have "(t, v) \<in> declares app' \<longleftrightarrow> (t, v) \<in> declares app" for t v
    unfolding declares_iff assms(2) using assms(1,3) by (metis fun_upd_apply option.distinct(1) option.inject)
  then show ?thesis by auto
qed

lemma frame_is_full: "mrp_frame app app' \<Longrightarrow> is_full app' = is_full app"
  by (simp add: mrp_frame_def is_full_def)

text \<open>The invariant while some attributes \<open>X\<close> are still to be processed.\<close>

definition mrp_part :: "(mrp_attribute \<Rightarrow> nat \<Rightarrow> u8 list) \<Rightarrow> nat set \<Rightarrow> mrp_application \<Rightarrow> bool" where
  "mrp_part bytes X app \<longleftrightarrow> store_ok app \<and> tx_ok bytes app \<and> live_part X app \<and> (\<forall>n. timer_ok app n) \<and>
     (la_state (leaveall app) = MRP_TIMER_ACTIVE \<longrightarrow> is_full app)"

lemma mrp_inv_part: "mrp_inv bytes app = mrp_part bytes {} app"
  by (simp add: mrp_inv_def mrp_part_def live_ok_part)

lemma mrp_partD:
  assumes "mrp_part bytes X app"
  shows "store_ok app" "tx_ok bytes app" "live_part X app" "timer_ok app n"
  using assms by (simp_all add: mrp_part_def)

subsection \<open>One attribute\<close>

text \<open>
  The attribute after its applicant took the event, and whether \<open>mrp_free_attribute_check\<close> frees it.
\<close>

definition applicant_result :: "u32 \<Rightarrow> mrp_event \<Rightarrow> mrp_attribute \<Rightarrow> mrp_attribute" where
  "applicant_result pt ev a = a\<lparr>at_applicant :=
     (let x = applicant_next pt (reg_state (at_registrar a)) ev (ap_state (at_applicant a))
      in \<lparr>ap_state = fst x, ap_action = snd x\<rparr>)\<rparr>"

definition unused_attr :: "u32 \<Rightarrow> mrp_attribute \<Rightarrow> bool" where
  "unused_attr pt a \<longleftrightarrow> ap_state (at_applicant a) \<in> {MRP_STATE_VO, MRP_STATE_AO, MRP_STATE_QO} \<and>
     (\<not> bit_test pt MRP_PARTICIPANT_TYPE_FULL \<or> reg_state (at_registrar a) = MRP_STATE_MT)"

lemma applicant_result_type [simp]: "at_type (applicant_result pt ev a) = at_type a" "at_val (applicant_result pt ev a) = at_val a"
  "at_registrar (applicant_result pt ev a) = at_registrar a"
  by (simp_all add: applicant_result_def)

lemma applicant_result_state:
  "ap_state (at_applicant (applicant_result pt ev a)) =
     fst (applicant_next pt (reg_state (at_registrar a)) ev (ap_state (at_applicant a)))"
  by (simp add: applicant_result_def Let_def)

lemma applicant_result_declaring:
  assumes "applicant_state (ap_state (at_applicant a))"
  shows "mrp_declaring (ap_state (at_applicant (applicant_result pt ev a))) =
    request_effect ev (mrp_declaring (ap_state (at_applicant a)))"
  unfolding applicant_result_state by (rule applicant_next_declaring [OF assms])

definition quiet_event :: "mrp_event \<Rightarrow> bool" where
  "quiet_event ev \<longleftrightarrow> ev \<notin> {MRP_EVENT_NEW, MRP_EVENT_JOIN, MRP_EVENT_LV, MRP_EVENT_BEGIN}"

lemma unused_not_declaring: "unused_attr pt a \<Longrightarrow> \<not> mrp_declaring (ap_state (at_applicant a))"
  by (auto simp: unused_attr_def mrp_declaring_def)

lemma applicant_sm_part:
  assumes p: "mrp_part bytes X app" and a: "attrs app i = Some a"
  shows "mrp_part bytes X (mrp_applicant_sm app i ev)" "mrp_frame app (mrp_applicant_sm app i ev)"
    "attrs (mrp_applicant_sm app i ev) = (attrs app)(i \<mapsto> applicant_result (participant_type app) ev a)"
    "attributes (mrp_applicant_sm app i ev) = attributes app"
    "leaveall (mrp_applicant_sm app i ev) = leaveall app"
    "attributes_ordered (mrp_applicant_sm app i ev) = attributes_ordered app \<or>
     attributes_ordered (mrp_applicant_sm app i ev) =
       (attributes_ordered app)[at_type a := remove1 i (attributes_ordered app ! at_type a) @ [i]]"
    "ev = MRP_EVENT_TX \<or> ev = MRP_EVENT_TXLA \<Longrightarrow> mrp_part bytes (X - {i}) (mrp_applicant_sm app i ev)"
    "quiet_event ev \<Longrightarrow> mrp_keep app (mrp_applicant_sm app i ev)"
proof -
  note d = mrp_partD [OF p]
  note f = applicant_sm_frame [OF d(1,2) a, where ev = ev]
  show fr: "mrp_frame app (mrp_applicant_sm app i ev)" using f by (simp add: mrp_frame_def)
  show at: "attrs (mrp_applicant_sm app i ev) = (attrs app)(i \<mapsto> applicant_result (participant_type app) ev a)"
    using f(8) by (simp add: applicant_result_def)
  have st: "applicant_state (ap_state (at_applicant a))" using store_okD(4) [OF d(1) a] by (simp add: attr_ok_def)
  show "quiet_event ev \<Longrightarrow> mrp_keep app (mrp_applicant_sm app i ev)"
    unfolding mrp_keep_def using fr
    by (intro conjI declares_upd [OF a at])
      (simp_all add: applicant_result_declaring [OF st] request_effect_def quiet_event_def)
  show "attributes (mrp_applicant_sm app i ev) = attributes app"
    "leaveall (mrp_applicant_sm app i ev) = leaveall app" by (rule f)+
  show "attributes_ordered (mrp_applicant_sm app i ev) = attributes_ordered app \<or>
     attributes_ordered (mrp_applicant_sm app i ev) =
       (attributes_ordered app)[at_type a := remove1 i (attributes_ordered app ! at_type a) @ [i]]"
    unfolding f(9) by simp
  note inv = applicant_sm_inv [OF d(1,2) a, where ev = ev]
  have t: "timer_ok (mrp_applicant_sm app i ev) n" for n using d(4) f(5) by simp
  show "mrp_part bytes X (mrp_applicant_sm app i ev)"
    using p inv(1,2) inv(3) [OF d(3)] t frame_is_full [OF fr] f(3) by (simp add: mrp_part_def)
  show "ev = MRP_EVENT_TX \<or> ev = MRP_EVENT_TXLA \<Longrightarrow> mrp_part bytes (X - {i}) (mrp_applicant_sm app i ev)"
    using p inv(1,2) inv(4) [OF d(3)] t frame_is_full [OF fr] f(3) by (simp add: mrp_part_def)
qed

lemma free_part:
  assumes p: "mrp_part bytes X app" and a: "attrs app i = Some a"
  shows "mrp_part bytes X (mrp_free_attribute app i)" "mrp_frame app (mrp_free_attribute app i)"
    "attrs (mrp_free_attribute app i) = (attrs app)(i := None)"
    "leaveall (mrp_free_attribute app i) = leaveall app"
    "attributes_ordered (mrp_free_attribute app i) =
       (attributes_ordered app)[at_type a := remove1 i (attributes_ordered app ! at_type a)]"
proof -
  note d = mrp_partD [OF p]
  have ga: "get_attr app i = a" using a by (simp add: get_attr_def)
  show fr: "mrp_frame app (mrp_free_attribute app i)"
    by (simp add: mrp_frame_def mrp_free_attribute_def Let_def attr_types_def)
  show la: "leaveall (mrp_free_attribute app i) = leaveall app"
    by (simp add: mrp_free_attribute_def Let_def)
  show "attrs (mrp_free_attribute app i) = (attrs app)(i := None)"
    by (simp add: mrp_free_attribute_def Let_def)
  show "attributes_ordered (mrp_free_attribute app i) =
       (attributes_ordered app)[at_type a := remove1 i (attributes_ordered app ! at_type a)]"
    by (simp add: mrp_free_attribute_def Let_def ga)
  note inv = free_attribute_inv [OF d(1) a]
  have t: "timer_ok (mrp_free_attribute app i) n" for n using d(4) fr by (simp add: mrp_frame_def)
  show "mrp_part bytes X (mrp_free_attribute app i)"
    using p inv(1,2) inv(3) [OF d(3)] t frame_is_full [OF fr] la by (simp add: mrp_part_def)
qed

lemma free_check_eq:
  assumes "attrs app i = Some a"
  shows "mrp_free_attribute_check app i = (if unused_attr (participant_type app) a then mrp_free_attribute app i else app)"
  using assms by (auto simp: mrp_free_attribute_check_def get_attr_def Let_def unused_attr_def)

lemma free_check_part:
  assumes p: "mrp_part bytes X app" and a: "attrs app i = Some a"
  shows "mrp_part bytes X (mrp_free_attribute_check app i)" "mrp_keep app (mrp_free_attribute_check app i)"
    "attrs (mrp_free_attribute_check app i) = (attrs app)(i := if unused_attr (participant_type app) a then None else Some a)"
    "leaveall (mrp_free_attribute_check app i) = leaveall app"
    "attributes_ordered (mrp_free_attribute_check app i) = attributes_ordered app \<or>
     attributes_ordered (mrp_free_attribute_check app i) =
       (attributes_ordered app)[at_type a := remove1 i (attributes_ordered app ! at_type a)]"
proof -
  note f = free_part [OF p a]
  show "mrp_part bytes X (mrp_free_attribute_check app i)" "leaveall (mrp_free_attribute_check app i) = leaveall app"
    "attributes_ordered (mrp_free_attribute_check app i) = attributes_ordered app \<or>
     attributes_ordered (mrp_free_attribute_check app i) =
       (attributes_ordered app)[at_type a := remove1 i (attributes_ordered app ! at_type a)]"
    using f p by (simp_all add: free_check_eq [OF a])
  show at: "attrs (mrp_free_attribute_check app i) = (attrs app)(i := if unused_attr (participant_type app) a then None else Some a)"
    using f(3) a by (simp add: free_check_eq [OF a] fun_upd_idem)
  have "declares (mrp_free_attribute_check app i) = declares app"
    by (rule declares_upd [OF a at]) (use unused_not_declaring in auto)
  with f(2) show "mrp_keep app (mrp_free_attribute_check app i)"
    by (simp add: free_check_eq [OF a] mrp_keep_def)
qed

subsection \<open>The join timer's loop\<close>

definition join_one :: "mrp_event \<Rightarrow> nat \<Rightarrow> mrp_application \<Rightarrow> mrp_application" where
  "join_one ev i app = mrp_free_attribute_check (mrp_applicant_sm app i ev) i"

definition join_result :: "u32 \<Rightarrow> mrp_event \<Rightarrow> mrp_attribute \<Rightarrow> mrp_attribute option" where
  "join_result pt ev a = (let b = applicant_result pt ev a in if unused_attr pt b then None else Some b)"

lemma join_one_part:
  assumes p: "mrp_part bytes X app" and a: "attrs app i = Some a"
    and ev: "ev = MRP_EVENT_TX \<or> ev = MRP_EVENT_TXLA"
  shows "mrp_part bytes (X - {i}) (join_one ev i app)" "mrp_keep app (join_one ev i app)"
    "attrs (join_one ev i app) = (attrs app)(i := join_result (participant_type app) ev a)"
    "leaveall (join_one ev i app) = leaveall app"
    "attributes_ordered (join_one ev i app) \<in> {attributes_ordered app,
       (attributes_ordered app)[at_type a := remove1 i (attributes_ordered app ! at_type a) @ [i]],
       (attributes_ordered app)[at_type a := remove1 i (attributes_ordered app ! at_type a)]}"
proof -
  let ?a = "applicant_result (participant_type app) ev a"
  let ?app = "mrp_applicant_sm app i ev"
  note s = applicant_sm_part [OF p a, where ev = ev]
  have p1: "mrp_part bytes (X - {i}) ?app" using s(7) [OF ev] .
  have a1: "attrs ?app i = Some ?a" using s(3) by simp
  note c = free_check_part [OF p1 a1]
  have pt: "participant_type ?app = participant_type app" using s(2) by (simp add: mrp_frame_def)
  show "mrp_part bytes (X - {i}) (join_one ev i app)" using c(1) by (simp add: join_one_def)
  show "mrp_keep app (join_one ev i app)" using mrp_keep_trans [OF s(8) c(2)] ev by (auto simp: join_one_def quiet_event_def)
  show "attrs (join_one ev i app) = (attrs app)(i := join_result (participant_type app) ev a)"
    using c(3) s(3) pt by (simp add: join_one_def join_result_def Let_def)
  show "leaveall (join_one ev i app) = leaveall app" using c(4) s(5) by (simp add: join_one_def)
  have d: "distinct (attributes_ordered app ! at_type a)" "at_type a < length (attributes_ordered app)"
    using store_okD(6) [OF mrp_partD(1) [OF p]] attr_type_lt [OF mrp_partD(1) [OF p] a]
    by (simp_all add: lists_ok_def)
  have "remove1 i (remove1 i (attributes_ordered app ! at_type a) @ [i]) = remove1 i (attributes_ordered app ! at_type a)"
    using d(1) by (simp add: remove1_append)
  then show "attributes_ordered (join_one ev i app) \<in> {attributes_ordered app,
       (attributes_ordered app)[at_type a := remove1 i (attributes_ordered app ! at_type a) @ [i]],
       (attributes_ordered app)[at_type a := remove1 i (attributes_ordered app ! at_type a)]}"
    using c(5) s(6) d(2) by (auto simp: join_one_def)
qed

lemma fold_join:
  assumes "mrp_part bytes X app" and "distinct l" and "\<forall>i\<in>set l. attrs app i \<noteq> None"
    and ev: "ev = MRP_EVENT_TX \<or> ev = MRP_EVENT_TXLA"
  shows "mrp_part bytes (X - set l) (fold (join_one ev) l app) \<and> mrp_keep app (fold (join_one ev) l app) \<and>
    leaveall (fold (join_one ev) l app) = leaveall app \<and>
    attrs (fold (join_one ev) l app) =
      (\<lambda>j. if j \<in> set l then Option.bind (attrs app j) (join_result (participant_type app) ev) else attrs app j)"
  using assms(1-3)
proof (induction l arbitrary: app X)
  case (Cons i l)
  then obtain a where a: "attrs app i = Some a" by auto
  note o = join_one_part [OF Cons.prems(1) a ev]
  have pt: "participant_type (join_one ev i app) = participant_type app" using o(2) by (simp add: mrp_keep_defs)
  have nd: "i \<notin> set l" "distinct l" using Cons.prems(2) by simp_all
  have d: "\<forall>j\<in>set l. attrs (join_one ev i app) j \<noteq> None"
    using Cons.prems(3) nd(1) unfolding o(3) by auto
  note ih = Cons.IH [OF o(1) nd(2) d]
  have s: "X - {i} - set l = X - set (i # l)" by auto
  show ?case
    using ih mrp_keep_trans [OF o(2)] nd(1) a unfolding s pt o(3,4) by (auto simp: fun_eq_iff)
qed simp

lemma ordered_list:
  assumes "mrp_part bytes X app" and "t < MRP_MAX_ATTR_TYPE" and "attributes_ordered app ! t = l"
  shows "distinct l" "set l = attr_ids app t" "t < length (attributes_ordered app)"
  using store_okD(6) [OF mrp_partD(1) [OF assms(1)]] assms(2,3) unfolding lists_ok_def by auto

lemma join_one_order:
  assumes p: "mrp_part bytes X app" and l: "attributes_ordered app ! t = pre @ i # xs @ post"
    and t: "t < MRP_MAX_ATTR_TYPE" and ev: "ev = MRP_EVENT_TX \<or> ev = MRP_EVENT_TXLA"
  obtains pre' post' where "attributes_ordered (join_one ev i app) ! t = pre' @ xs @ post'"
proof -
  note ol = ordered_list [OF p t l]
  have dist: "distinct (pre @ i # xs @ post)" and len: "t < length (attributes_ordered app)" by (rule ol)+
  have "i \<in> attr_ids app t" using ol(2) by auto
  then obtain a where a: "attrs app i = Some a" "at_type a = t" by (auto simp: attr_ids_def)
  have r: "remove1 i (pre @ i # xs @ post) = pre @ xs @ post" using dist by (simp add: remove1_append)
  note o = join_one_part(5) [OF p a(1) ev, unfolded a(2) l r]
  consider "attributes_ordered (join_one ev i app) = attributes_ordered app"
    | "attributes_ordered (join_one ev i app) = (attributes_ordered app)[t := (pre @ xs @ post) @ [i]]"
    | "attributes_ordered (join_one ev i app) = (attributes_ordered app)[t := pre @ xs @ post]"
    using o by blast
  then show ?thesis
  proof cases
    case 1 then show ?thesis using l that [of "pre @ [i]" post] by simp
  next
    case 2 then show ?thesis using len that [of pre "post @ [i]"] by simp
  next
    case 3 then show ?thesis using len that [of pre post] by simp
  qed
qed

text \<open>
  The loop is a traversal of the list as it was on entry: the successor of an entry is read before the
  applicant moves or frees that entry, and entries only leave for the tail, after \<open>last\<close>.
\<close>

lemma join_loop_fold:
  assumes "mrp_part bytes X app" and "attributes_ordered app ! t = pre @ (i # xs) @ post"
    and t: "t < MRP_MAX_ATTR_TYPE" and ev: "ev = MRP_EVENT_TX \<or> ev = MRP_EVENT_TXLA"
    and "length (i # xs) \<le> fuel"
  shows "join_loop fuel ev t (Some i) (last (i # xs)) app = Some (fold (join_one ev) (i # xs) app)"
  using assms(1,2,5)
proof (induction xs arbitrary: i pre post app X fuel)
  case Nil
  then obtain f where "fuel = Suc f" by (cases fuel) auto
  then show ?case by (simp add: Let_def join_one_def)
next
  case (Cons y ys)
  then obtain f where f: "fuel = Suc f" "length (y # ys) \<le> f" by (cases fuel) auto
  have l: "attributes_ordered app ! t = pre @ i # (y # ys) @ post" using Cons.prems(2) by simp
  note ol = ordered_list [OF Cons.prems(1) t l]
  have dist: "distinct (pre @ i # (y # ys) @ post)" by (rule ol)
  have i: "i \<in> attr_ids app t" using ol(2) by auto
  then obtain a where a: "attrs app i = Some a" by (auto simp: attr_ids_def)
  have nx: "succ_in (attributes_ordered app ! t) i = Some y"
    unfolding l using dist by (simp add: succ_in_append first_in_def)
  obtain pre' post' where l': "attributes_ordered (join_one ev i app) ! t = pre' @ (y # ys) @ post'"
    by (rule join_one_order [OF Cons.prems(1) l t ev])
  have ne: "i \<noteq> last (i # y # ys)" using dist last_in_set [of "y # ys"] by auto
  have "join_loop f ev t (Some y) (last (y # ys)) (join_one ev i app) = Some (fold (join_one ev) (y # ys) (join_one ev i app))"
    by (rule Cons.IH [OF join_one_part(1) [OF Cons.prems(1) a ev] l' f(2)])
  then show ?case using ne nx by (simp add: f(1) Let_def join_one_def [symmetric])
qed

lemma join_type_fold:
  assumes "mrp_part bytes X app" and "t < MRP_MAX_ATTR_TYPE" and "ev = MRP_EVENT_TX \<or> ev = MRP_EVENT_TXLA"
  shows "join_type ev t app = fold (join_one ev) (attributes_ordered app ! t) app"
proof (cases "attributes_ordered app ! t")
  case (Cons i xs)
  have "join_loop (length (i # xs)) ev t (Some i) (last (i # xs)) app = Some (fold (join_one ev) (i # xs) app)"
    by (rule join_loop_fold [OF assms(1) _ assms(2,3), where pre = "[]" and post = "[]"]) (use Cons in simp_all)
  then show ?thesis using Cons by (simp add: join_type_def Let_def)
qed (simp add: join_type_def)

definition ids_of_types :: "mrp_application \<Rightarrow> nat set \<Rightarrow> nat set" where
  "ids_of_types app T = {i. \<exists>a. attrs app i = Some a \<and> at_type a \<in> T}"

lemma join_type_part:
  assumes p: "mrp_part bytes X app" and t: "t < MRP_MAX_ATTR_TYPE" and ev: "ev = MRP_EVENT_TX \<or> ev = MRP_EVENT_TXLA"
  shows "mrp_part bytes (X - attr_ids app t) (join_type ev t app) \<and> mrp_keep app (join_type ev t app) \<and>
    leaveall (join_type ev t app) = leaveall app \<and>
    attrs (join_type ev t app) = (\<lambda>j. if j \<in> attr_ids app t
      then Option.bind (attrs app j) (join_result (participant_type app) ev) else attrs app j)"
proof -
  note l = ordered_list [OF p t refl]
  have "\<forall>i\<in>set (attributes_ordered app ! t). attrs app i \<noteq> None" unfolding l(2) by (auto simp: attr_ids_def)
  from fold_join [OF p l(1) this ev] show ?thesis unfolding join_type_fold [OF p t ev] l(2) .
qed

lemma join_result_type: "join_result pt ev a = Some b \<Longrightarrow> at_type b = at_type a"
  by (auto simp: join_result_def Let_def split: if_splits)

lemma fold_join_type:
  assumes "mrp_part bytes X app" and "distinct ts" and "\<forall>t\<in>set ts. t < MRP_MAX_ATTR_TYPE"
    and ev: "ev = MRP_EVENT_TX \<or> ev = MRP_EVENT_TXLA"
  shows "mrp_part bytes (X - ids_of_types app (set ts)) (fold (join_type ev) ts app) \<and>
    mrp_keep app (fold (join_type ev) ts app) \<and> leaveall (fold (join_type ev) ts app) = leaveall app \<and>
    attrs (fold (join_type ev) ts app) = (\<lambda>j. if j \<in> ids_of_types app (set ts)
      then Option.bind (attrs app j) (join_result (participant_type app) ev) else attrs app j)"
  using assms(1-3)
proof (induction ts arbitrary: app X)
  case Nil
  then show ?case by (simp add: ids_of_types_def)
next
  case (Cons t ts)
  let ?app = "join_type ev t app"
  have t: "t < MRP_MAX_ATTR_TYPE" "t \<notin> set ts" "distinct ts" "\<forall>t\<in>set ts. t < MRP_MAX_ATTR_TYPE"
    using Cons.prems(2,3) by simp_all
  have j: "mrp_part bytes (X - attr_ids app t) ?app" "mrp_keep app ?app" "leaveall ?app = leaveall app"
    "attrs ?app = (\<lambda>j. if j \<in> attr_ids app t
      then Option.bind (attrs app j) (join_result (participant_type app) ev) else attrs app j)"
    using join_type_part [OF Cons.prems(1) t(1) ev] by blast+
  have pt: "participant_type ?app = participant_type app" using j(2) by (simp add: mrp_keep_defs)
  have ids: "ids_of_types ?app (set ts) = ids_of_types app (set ts)"
    unfolding ids_of_types_def j(4) using t(2)
    by (auto simp: attr_ids_def bind_eq_Some_conv dest: join_result_type)
  have u: "ids_of_types app (set (t # ts)) = attr_ids app t \<union> ids_of_types app (set ts)"
    by (auto simp: ids_of_types_def attr_ids_def)
  have dj: "j \<notin> attr_ids app t" if "j \<in> ids_of_types app (set ts)" for j
    using that t(2) by (auto simp: ids_of_types_def attr_ids_def)
  have x: "X - attr_ids app t - ids_of_types app (set ts) = X - ids_of_types app (set (t # ts))"
    unfolding u by auto
  note ih = Cons.IH [OF j(1) t(3,4), unfolded ids pt x]
  have at: "attrs (fold (join_type ev) ts ?app) = (\<lambda>j. if j \<in> ids_of_types app (set (t # ts))
      then Option.bind (attrs app j) (join_result (participant_type app) ev) else attrs app j)"
    using ih dj unfolding u j(4) by (auto simp: fun_eq_iff)
  show ?case using ih j(3) mrp_keep_trans [OF j(2)] at by simp
qed

subsection \<open>Closing the packets\<close>

lemma tx_step_part:
  assumes p: "mrp_part bytes X app" and tx: "tx_ok bytes (tx_step app t n fs q)"
  shows "mrp_part bytes X (tx_step app t n fs q)" "mrp_keep app (tx_step app t n fs q)"
    "attrs (tx_step app t n fs q) = attrs app" "leaveall (tx_step app t n fs q) = leaveall app"
    "attributes (tx_step app t n fs q) = attributes app"
    "mrpdu (tx_step app t n fs q) = (mrpdu app)[t := q]"
proof -
  show "attrs (tx_step app t n fs q) = attrs app" "mrpdu (tx_step app t n fs q) = (mrpdu app)[t := q]"
    "attributes (tx_step app t n fs q) = attributes app"
    and la: "leaveall (tx_step app t n fs q) = leaveall app"
    by (simp_all add: tx_step_def upd_pdu_def)
  show fr: "mrp_keep app (tx_step app t n fs q)"
    by (simp add: mrp_keep_defs tx_step_def upd_pdu_def attr_types_def)
  have "timer_ok (tx_step app t n fs q) = timer_ok app" using fr by (simp add: mrp_keep_defs)
  with p tx la show "mrp_part bytes X (tx_step app t n fs q)" by (simp add: mrp_part_def)
qed

lemma transmit_end_part:
  assumes p: "mrp_part bytes X app" and t: "t \<in> set (attr_types app)"
  shows "mrp_part bytes X (mrp_transmit_end app t) \<and> mrp_keep app (mrp_transmit_end app t) \<and>
    attrs (mrp_transmit_end app t) = attrs app \<and> leaveall (mrp_transmit_end app t) = leaveall app \<and>
    (\<forall>u. idle_pdu (mrpdu app ! u) \<or> u = t \<longrightarrow> idle_pdu (mrpdu (mrp_transmit_end app t) ! u))"
proof -
  have tx: "tx_ok bytes app" using mrp_partD(2) [OF p] .
  have cfg: "tx_cfg app t" and pdu: "pdu_inv bytes app t (mrpdu app ! t)"
    using tx t unfolding tx_ok_def by auto
  have len: "t < length (mrpdu app)" "port_mtu app \<le> DEFAULT_NET_DATA_SIZE" "4 \<le> port_mtu app"
    using cfg by (auto simp: tx_cfg_def)
  consider (i) "idle_pdu (mrpdu app ! t)" | (o) src vs v where "open_pdu app t src vs v (mrpdu app ! t)"
    "\<forall>u\<in>set (vs @ [v]). good_vec u \<and> wf_vec bytes app t u" using pdu by (auto simp: pdu_inv_def)
  then show ?thesis
  proof cases
    case i
    then have "mrp_transmit_end app t = app" by (simp add: mrp_transmit_end_def Let_def idle_pdu_def)
    with i p show ?thesis by auto
  next
    case o
    from transmit_end_open [OF refl len(1) o(1) len(2,3)] obtain d q where
      e: "mrp_transmit_end app t = upd_pdu (app\<lparr>sent := sent app @ [d]\<rparr>) t q" "idle_pdu q"
        "frame_sent app t (vs @ [v]) d" by blast
    have f: "frame_ok bytes app t d" using e(3) o(2) unfolding frame_ok_def by auto
    have e1: "mrp_transmit_end app t = tx_step app t (n_tx_alloc app) [d] q" using e(1) by (simp add: upd_pdu_step(2))
    have "tx_ok bytes (tx_step app t (n_tx_alloc app) [d] q)"
      by (rule tx_ok_step [OF tx t]) (use f e(2) in \<open>simp_all add: pdu_inv_def\<close>)
    note s = tx_step_part [OF p this]
    show ?thesis unfolding e1 using s e(2) len(1) by (auto simp: nth_list_update)
  qed
qed

lemma fold_transmit_end:
  assumes "mrp_part bytes X app" and "set ts \<subseteq> set (attr_types app)"
  shows "mrp_part bytes X (fold (\<lambda>t app. mrp_transmit_end app t) ts app) \<and>
    mrp_keep app (fold (\<lambda>t app. mrp_transmit_end app t) ts app) \<and>
    attrs (fold (\<lambda>t app. mrp_transmit_end app t) ts app) = attrs app \<and>
    leaveall (fold (\<lambda>t app. mrp_transmit_end app t) ts app) = leaveall app \<and>
    (\<forall>u. idle_pdu (mrpdu app ! u) \<or> u \<in> set ts \<longrightarrow>
       idle_pdu (mrpdu (fold (\<lambda>t app. mrp_transmit_end app t) ts app) ! u))"
  using assms
proof (induction ts arbitrary: app)
  case (Cons t ts)
  have t: "t \<in> set (attr_types app)" using Cons.prems(2) by auto
  note e = transmit_end_part [OF Cons.prems(1) t]
  then have "attr_types (mrp_transmit_end app t) = attr_types app" by (simp add: mrp_keep_defs)
  then have sub: "set ts \<subseteq> set (attr_types (mrp_transmit_end app t))" using Cons.prems(2) by auto
  note ih = Cons.IH [OF conjunct1 [OF e] sub]
  have "mrp_keep app (mrp_transmit_end app t)" using e by blast
  with e ih show ?case by (auto intro: mrp_keep_trans)
qed simp

text \<open>The transmission of one LeaveAll.\<close>

lemma transmit_lva_part:
  assumes p: "mrp_part bytes X app" and t: "t \<in> set (attr_types app)"
  shows "mrp_part bytes X (mrp_transmit_action app t None 0 True) \<and>
    mrp_keep app (mrp_transmit_action app t None 0 True) \<and>
    attrs (mrp_transmit_action app t None 0 True) = attrs app \<and>
    leaveall (mrp_transmit_action app t None 0 True) = leaveall app"
proof -
  have tx: "tx_ok bytes app" using mrp_partD(2) [OF p] .
  have cfg: "tx_cfg app t" and pdu: "pdu_inv bytes app t (mrpdu app ! t)"
    and enc: "event_encoder (vector_add_event app) bytes"
    using tx t unfolding tx_ok_def by auto
  have "\<exists>n fs q. mrp_transmit_action app t None 0 True = tx_step app t n fs q \<and>
      (\<forall>f\<in>set fs. frame_ok bytes app t f) \<and> length fs \<le> 1 \<and> pdu_inv bytes app t q \<and>
      ((\<forall>m. tx_alloc app m \<noteq> None) \<longrightarrow> (\<exists>src vs v. open_pdu app t src vs v q \<and>
        (case None of None \<Rightarrow> tv_lva v
         | Some a \<Rightarrow> tv_fv v = take (attribute_length app t) (at_val a) \<and> tv_evs v = bytes a 0)))"
    by (rule event_encoder.transmit_action_outcome [OF enc pdu cfg refl]) auto
  then obtain n fs q where e: "mrp_transmit_action app t None 0 True = tx_step app t n fs q"
    "\<forall>f\<in>set fs. frame_ok bytes app t f" "pdu_inv bytes app t q" by blast
  show ?thesis unfolding e(1) using tx_step_part [OF p tx_ok_step [OF tx t e(3,2)]] by blast
qed

lemma fold_transmit_lva:
  assumes "mrp_part bytes X app" and "set ts \<subseteq> set (attr_types app)"
  shows "mrp_part bytes X (fold (\<lambda>t app. mrp_transmit_action app t None 0 True) ts app) \<and>
    mrp_keep app (fold (\<lambda>t app. mrp_transmit_action app t None 0 True) ts app) \<and>
    attrs (fold (\<lambda>t app. mrp_transmit_action app t None 0 True) ts app) = attrs app \<and>
    leaveall (fold (\<lambda>t app. mrp_transmit_action app t None 0 True) ts app) = leaveall app"
  using assms
proof (induction ts arbitrary: app)
  case (Cons t ts)
  have t: "t \<in> set (attr_types app)" using Cons.prems(2) by auto
  note e = transmit_lva_part [OF Cons.prems(1) t]
  then have "attr_types (mrp_transmit_action app t None 0 True) = attr_types app" by (simp add: mrp_keep_defs)
  then have sub: "set ts \<subseteq> set (attr_types (mrp_transmit_action app t None 0 True))" using Cons.prems(2) by auto
  note ih = Cons.IH [OF conjunct1 [OF e] sub]
  have "mrp_keep app (mrp_transmit_action app t None 0 True)" using e by blast
  with e ih show ?case by (auto intro: mrp_keep_trans)
qed simp

subsection \<open>LeaveAll events\<close>

text \<open>
  \<open>__mrp_process_attribute\<close> with a LeaveAll event: the registrar gives no indication, so that it acts
  on the application alone.
\<close>

definition lva_one :: "nat \<Rightarrow> mrp_application \<Rightarrow> mrp_application" where
  "lva_one i app = mrp_free_attribute_check
     (mrp_applicant_sm (mrp_registrar_step app i MRP_EVENT_RLA) i MRP_EVENT_RLA) i"

lemma set_reg_part:
  assumes p: "mrp_part bytes X app" and a: "attrs app i = Some a" and r: "is_full app \<longrightarrow> registrar_inv r"
  shows "mrp_part bytes X (set_reg app i r)" "mrp_keep app (set_reg app i r)"
    "attrs (set_reg app i r) = (attrs app)(i \<mapsto> a\<lparr>at_registrar := r\<rparr>)"
    "leaveall (set_reg app i r) = leaveall app" "attributes (set_reg app i r) = attributes app"
proof -
  note inv = set_reg_inv [OF mrp_partD(1) [OF p] a r]
  show at: "attrs (set_reg app i r) = (attrs app)(i \<mapsto> a\<lparr>at_registrar := r\<rparr>)"
    using a by (simp add: set_reg_def get_attr_def)
  have "declares (set_reg app i r) = declares app" by (rule declares_upd [OF a at]) simp
  then show fr: "mrp_keep app (set_reg app i r)"
    by (simp add: mrp_keep_def mrp_frame_def set_reg_def attr_types_def)
  show la: "leaveall (set_reg app i r) = leaveall app" "attributes (set_reg app i r) = attributes app"
    by (simp_all add: set_reg_def)
  have "timer_ok (set_reg app i r) = timer_ok app" using fr by (simp add: mrp_keep_defs)
  then show "mrp_part bytes X (set_reg app i r)"
    using p inv la frame_is_full [OF keep_frame [OF fr]] by (simp add: mrp_part_def)
qed

lemma registrar_step_part:
  assumes p: "mrp_part bytes X app" and a: "attrs app i = Some a"
  shows "mrp_part bytes X (mrp_registrar_step app i ev)" "mrp_keep app (mrp_registrar_step app i ev)"
    "attrs (mrp_registrar_step app i ev) = (attrs app)(i \<mapsto> a\<lparr>at_registrar :=
       registrar_next (participant_type app) (leave_timeout app) ev (at_registrar a)\<rparr>)"
    "leaveall (mrp_registrar_step app i ev) = leaveall app"
    "attributes (mrp_registrar_step app i ev) = attributes app"
proof -
  have ga: "get_attr app i = a" using a by (simp add: get_attr_def)
  have "is_full app \<longrightarrow> registrar_inv (registrar_next (participant_type app) (leave_timeout app) ev (at_registrar a))"
    using store_okD(2) [OF mrp_partD(1) [OF p]] store_okD(4) [OF mrp_partD(1) [OF p] a]
      registrar_next_inv [of "at_registrar a" "leave_timeout app"] by (auto simp: attr_ok_def)
  from set_reg_part [OF p a this]
  show "mrp_part bytes X (mrp_registrar_step app i ev)" "mrp_keep app (mrp_registrar_step app i ev)"
    "attrs (mrp_registrar_step app i ev) = (attrs app)(i \<mapsto> a\<lparr>at_registrar :=
       registrar_next (participant_type app) (leave_timeout app) ev (at_registrar a)\<rparr>)"
    "leaveall (mrp_registrar_step app i ev) = leaveall app"
    "attributes (mrp_registrar_step app i ev) = attributes app"
    unfolding registrar_step_set ga by auto
qed

text \<open>The expiry of the leave timer: \<open>timer_process\<close> has stopped it when the registrar takes the event.\<close>

definition leave_expire :: "nat \<Rightarrow> mrp_application \<Rightarrow> mrp_application" where
  "leave_expire i app = mrp_registrar_step (upd_attr app i (\<lambda>a. a\<lparr>at_registrar := (at_registrar a)\<lparr>reg_leave :=
          tm_stop (reg_leave (at_registrar a))\<rparr>\<rparr>)) i MRP_EVENT_LEAVETIMER"

lemma leave_expire_part:
  assumes p: "mrp_part bytes X app" and a: "attrs app i = Some a"
  shows "mrp_part bytes X (leave_expire i app)" "mrp_keep app (leave_expire i app)"
    "attrs (leave_expire i app) i \<noteq> None"
proof -
  have ga: "get_attr app i = a" using a by (simp add: get_attr_def)
  let ?r = "registrar_next (participant_type app) (leave_timeout app) MRP_EVENT_LEAVETIMER
    ((at_registrar a)\<lparr>reg_leave := tm_stop (reg_leave (at_registrar a))\<rparr>)"
  have e: "leave_expire i app = set_reg app i ?r"
    unfolding leave_expire_def registrar_step_set by (simp add: set_reg_def upd_attr_def get_attr_def [symmetric] ga)
      (simp add: get_attr_def ga)
  have "is_full app \<longrightarrow> registrar_inv ?r"
    using store_okD(4) [OF mrp_partD(1) [OF p] a]
    by (auto simp: attr_ok_def registrar_inv_def registrar_state_def registrar_defs tm_stop_def is_full_def)
  note s = set_reg_part [OF p a this]
  show "mrp_part bytes X (leave_expire i app)" "mrp_keep app (leave_expire i app)"
    "attrs (leave_expire i app) i \<noteq> None" unfolding e using s(1-3) by simp_all
qed

text \<open>The three steps that every reception of an attribute event takes, around its indication.\<close>

lemma applicant_check_part:
  assumes p: "mrp_part bytes X app" and a: "attrs app i = Some a"
  shows "mrp_part bytes X (mrp_free_attribute_check (mrp_applicant_sm app i ev) i)"
    "mrp_frame app (mrp_free_attribute_check (mrp_applicant_sm app i ev) i)"
    "attrs (mrp_free_attribute_check (mrp_applicant_sm app i ev) i) =
       (attrs app)(i := join_result (participant_type app) ev a)"
    "leaveall (mrp_free_attribute_check (mrp_applicant_sm app i ev) i) = leaveall app"
    "quiet_event ev \<Longrightarrow> mrp_keep app (mrp_free_attribute_check (mrp_applicant_sm app i ev) i)"
proof -
  let ?b = "applicant_result (participant_type app) ev a"
  note s = applicant_sm_part [OF p a, where ev = ev]
  have b: "attrs (mrp_applicant_sm app i ev) i = Some ?b" using s(3) by simp
  note c = free_check_part [OF s(1) b]
  show "mrp_part bytes X (mrp_free_attribute_check (mrp_applicant_sm app i ev) i)" by (rule c)
  show "mrp_frame app (mrp_free_attribute_check (mrp_applicant_sm app i ev) i)"
    by (rule mrp_frame_trans [OF s(2) keep_frame [OF c(2)]])
  show "quiet_event ev \<Longrightarrow> mrp_keep app (mrp_free_attribute_check (mrp_applicant_sm app i ev) i)"
    by (rule mrp_keep_trans [OF s(8) c(2)])
  show "leaveall (mrp_free_attribute_check (mrp_applicant_sm app i ev) i) = leaveall app" using c(4) s(5) by simp
  have "participant_type (mrp_applicant_sm app i ev) = participant_type app" using s(2) by (simp add: mrp_frame_def)
  then show "attrs (mrp_free_attribute_check (mrp_applicant_sm app i ev) i) =
       (attrs app)(i := join_result (participant_type app) ev a)"
    using c(3) s(3) by (simp add: join_result_def Let_def)
qed

lemma lva_one_part:
  assumes p: "mrp_part bytes X app" and a: "attrs app i = Some a"
  shows "mrp_part bytes X (lva_one i app)" "mrp_keep app (lva_one i app)" "leaveall (lva_one i app) = leaveall app"
    "attrs (lva_one i app) = (attrs app)(i := join_result (participant_type app) MRP_EVENT_RLA
       (a\<lparr>at_registrar := registrar_next (participant_type app) (leave_timeout app) MRP_EVENT_RLA (at_registrar a)\<rparr>))"
proof -
  note r = registrar_step_part [OF p a, where ev = MRP_EVENT_RLA]
  let ?a = "a\<lparr>at_registrar := registrar_next (participant_type app) (leave_timeout app) MRP_EVENT_RLA (at_registrar a)\<rparr>"
  have "attrs (mrp_registrar_step app i MRP_EVENT_RLA) i = Some ?a" using r(3) by simp
  note c = applicant_check_part [OF r(1) this, where ev = MRP_EVENT_RLA]
  have "participant_type (mrp_registrar_step app i MRP_EVENT_RLA) = participant_type app" using r(2) by (simp add: mrp_keep_defs)
  with r c c(5) show "mrp_part bytes X (lva_one i app)" "mrp_keep app (lva_one i app)" "leaveall (lva_one i app) = leaveall app"
    "attrs (lva_one i app) = (attrs app)(i := join_result (participant_type app) MRP_EVENT_RLA
       (a\<lparr>at_registrar := registrar_next (participant_type app) (leave_timeout app) MRP_EVENT_RLA (at_registrar a)\<rparr>))"
    by (auto simp: lva_one_def quiet_event_def intro: mrp_keep_trans)
qed

lemma fold_lva_part:
  assumes "mrp_part bytes X app" and "distinct l" and "\<forall>i\<in>set l. attrs app i \<noteq> None"
  shows "mrp_part bytes X (fold lva_one l app) \<and> mrp_keep app (fold lva_one l app) \<and>
    leaveall (fold lva_one l app) = leaveall app"
  using assms
proof (induction l arbitrary: app)
  case (Cons i l)
  then obtain a where a: "attrs app i = Some a" by auto
  note o = lva_one_part [OF Cons.prems(1) a]
  have "\<forall>j\<in>set l. attrs (lva_one i app) j \<noteq> None" using Cons.prems(2,3) unfolding o(4) by auto
  with Cons.IH [OF o(1)] Cons.prems(2) o show ?case by (auto intro: mrp_keep_trans)
qed simp

lemma attributes_list:
  assumes "mrp_part bytes X app" and "t < MRP_MAX_ATTR_TYPE"
  shows "distinct (attributes app ! t)" "set (attributes app ! t) = attr_ids app t"
    "\<forall>i\<in>set (attributes app ! t). attrs app i \<noteq> None"
proof -
  show "distinct (attributes app ! t)" and s: "set (attributes app ! t) = attr_ids app t"
    using store_okD(5) [OF mrp_partD(1) [OF assms(1)]] assms(2) unfolding lists_ok_def by auto
  show "\<forall>i\<in>set (attributes app ! t). attrs app i \<noteq> None" unfolding s by (auto simp: attr_ids_def)
qed

lemma fold_lva_types:
  assumes "mrp_part bytes X app" and "set ts \<subseteq> set (attr_types app)"
  shows "mrp_part bytes X (fold (\<lambda>t app. fold lva_one (attributes app ! t) app) ts app) \<and>
    mrp_keep app (fold (\<lambda>t app. fold lva_one (attributes app ! t) app) ts app) \<and>
    leaveall (fold (\<lambda>t app. fold lva_one (attributes app ! t) app) ts app) = leaveall app"
  using assms
proof (induction ts arbitrary: app)
  case (Cons t ts)
  have "t < MRP_MAX_ATTR_TYPE" using Cons.prems store_okD(1) [OF mrp_partD(1) [OF Cons.prems(1)]] by auto
  note l = attributes_list [OF Cons.prems(1) this]
  note e = fold_lva_part [OF Cons.prems(1) l(1,3)]
  then have "attr_types (fold lva_one (attributes app ! t) app) = attr_types app" by (simp add: mrp_keep_defs)
  then have sub: "set ts \<subseteq> set (attr_types (fold lva_one (attributes app ! t) app))" using Cons.prems(2) by auto
  note ih = Cons.IH [OF conjunct1 [OF e] sub]
  have "mrp_keep app (fold lva_one (attributes app ! t) app)" using e by blast
  with e ih show ?case by (auto intro: mrp_keep_trans)
qed simp

text \<open>\<open>mrp_leaveall_action_handler\<close> on the application.\<close>

definition leaveall_act :: "mrp_application \<Rightarrow> mrp_application" where
  "leaveall_act app =
     (if la_action (leaveall app) = MRP_ACTION_SLA
      then fold (\<lambda>t app. mrp_transmit_action app t None 0 True) (attr_types app)
             (fold (\<lambda>t app. fold lva_one (attributes app ! t) app) (attr_types app) app)
      else app)"

lemma leaveall_act_part:
  assumes p: "mrp_part bytes X app"
  shows "mrp_part bytes X (leaveall_act app) \<and> mrp_keep app (leaveall_act app) \<and> leaveall (leaveall_act app) = leaveall app"
proof (cases "la_action (leaveall app) = MRP_ACTION_SLA")
  case True
  let ?app = "fold (\<lambda>t app. fold lva_one (attributes app ! t) app) (attr_types app) app"
  note l = fold_lva_types [OF p subset_refl]
  then have ty: "attr_types ?app = attr_types app" by (simp add: mrp_keep_defs)
  have p1: "mrp_part bytes X ?app" using l by blast
  note t = fold_transmit_lva [OF p1 subset_refl, unfolded ty]
  show ?thesis using True l t by (auto simp: leaveall_act_def intro: mrp_keep_trans)
qed (simp add: leaveall_act_def p)

lemma part_cong:
  assumes "store_fields app' = store_fields app" and "tx_fields app' = tx_fields app"
    and "timer_ok app' = timer_ok app" and "live_part X app'"
    and "la_state (leaveall app') = MRP_TIMER_ACTIVE \<longrightarrow> is_full app"
    and "mrp_part bytes Y app"
  shows "mrp_part bytes X app'"
  using assms store_ok_cong [OF assms(1)] tx_ok_cong [OF assms(2), of bytes]
  by (auto simp: mrp_part_def is_full_def store_fields_def)

lemma live_part_mono: "live_part X app \<Longrightarrow> X \<subseteq> Y \<Longrightarrow> live_part Y app"
  by (auto simp: live_part_def)

lemma leaveall_step_fields:
  "store_fields (leaveall_step ev app) = store_fields app" "tx_fields (leaveall_step ev app) = tx_fields app"
  "timer_ok (leaveall_step ev app) = timer_ok app" "attrs (leaveall_step ev app) = attrs app"
  "mrp_keep app (leaveall_step ev app)" "attributes (leaveall_step ev app) = attributes app"
  by (auto simp: leaveall_step_def Let_def store_fields_def tx_fields_def leaveall_random_def
      mrp_transmit_request_def mrp_keep_defs attr_types_def)

lemma leaveall_step_full:
  "la_state (leaveall (leaveall_step ev app)) = MRP_TIMER_ACTIVE \<Longrightarrow>
    is_full app \<or> la_state (leaveall app) = MRP_TIMER_ACTIVE"
  by (auto simp: leaveall_step_def Let_def is_full_def leaveall_random_def split: if_splits)

lemma leaveall_step_part:
  assumes p: "mrp_part bytes X app"
  shows "mrp_part bytes X (leaveall_step ev app)"
proof (rule part_cong [OF leaveall_step_fields(1-3) _ _ p])
  show "la_state (leaveall (leaveall_step ev app)) = MRP_TIMER_ACTIVE \<longrightarrow> is_full app"
    using leaveall_step_full [of ev app] p by (auto simp: mrp_part_def)
  have "live_part X app" using mrp_partD(3) [OF p] .
  then show "live_part X (leaveall_step ev app)"
    by (auto simp: live_part_def anxious_def leaveall_step_def Let_def leaveall_random_def mrp_transmit_request_def
        tm_start_def split: if_splits)
qed

subsection \<open>The join timer\<close>

text \<open>The expiry of the join timer on the application, up to the loop over the attributes.\<close>

definition join_expire0 :: "mrp_application \<Rightarrow> mrp_application" where
  "join_expire0 app =
     leaveall_act (leaveall_step MRP_EVENT_TX (app\<lparr>join_timer := tm_stop (join_timer app)\<rparr>))"

definition join_expire :: "mrp_application \<Rightarrow> mrp_application" where
  "join_expire app = join_transmit (join_expire0 app)"

lemma join_expire0_part:
  assumes p: "mrp_inv bytes app"
  shows "mrp_part bytes UNIV (join_expire0 app) \<and> mrp_keep app (join_expire0 app) \<and>
    la_state (leaveall (join_expire0 app)) = MRP_TIMER_PASSIVE"
proof -
  let ?a0 = "app\<lparr>join_timer := tm_stop (join_timer app)\<rparr>"
  let ?a1 = "leaveall_step MRP_EVENT_TX ?a0"
  have pa: "mrp_part bytes {} app" using p by (simp add: mrp_inv_part)
  have act: "is_full app" if "la_state (leaveall app) = MRP_TIMER_ACTIVE" using that p by (simp add: mrp_inv_def)
  have pas: "la_state (leaveall ?a1) = MRP_TIMER_PASSIVE"
    using act by (cases "la_state (leaveall app)") (auto simp: leaveall_step_def Let_def is_full_def)
  have "tm_created (join_timer app)" using p by (simp add: mrp_inv_def live_ok_def)
  then have lv: "live_part UNIV ?a1"
    using pas by (simp add: live_part_def leaveall_step_def Let_def tm_stop_def)
  have sf: "store_fields ?a1 = store_fields app" "tx_fields ?a1 = tx_fields app" "timer_ok ?a1 = timer_ok app"
    using leaveall_step_fields(1-3) [of MRP_EVENT_TX ?a0] by (simp_all add: store_fields_def tx_fields_def)
  have p1: "mrp_part bytes UNIV ?a1" by (rule part_cong [OF sf lv _ pa]) (use pas in simp)
  have "mrp_keep app ?a1"
    using leaveall_step_fields(5) [of ?a0 MRP_EVENT_TX] by (simp add: mrp_keep_defs attr_types_def)
  with leaveall_act_part [OF p1] pas show ?thesis unfolding join_expire0_def by (auto intro: mrp_keep_trans)
qed

lemma join_transmit_part:
  assumes p: "mrp_part bytes UNIV app"
  defines "ev \<equiv> (if la_action (leaveall app) = MRP_ACTION_SLA then MRP_EVENT_TXLA else MRP_EVENT_TX)"
  shows "mrp_inv bytes (join_transmit app) \<and> mrp_keep app (join_transmit app) \<and>
    leaveall (join_transmit app) = leaveall app \<and>
    attrs (join_transmit app) = (\<lambda>j. Option.bind (attrs app j) (join_result (participant_type app) ev)) \<and>
    (\<forall>t\<in>set (attr_types app). idle_pdu (mrpdu (join_transmit app) ! t))"
proof -
  have ev: "ev = MRP_EVENT_TX \<or> ev = MRP_EVENT_TXLA" by (simp add: ev_def)
  let ?ts = "attr_types app"
  let ?a1 = "fold (join_type ev) ?ts app"
  have max: "\<forall>t\<in>set ?ts. t < MRP_MAX_ATTR_TYPE" using store_okD(1) [OF mrp_partD(1) [OF p]] by auto
  have dist: "distinct ?ts" by (simp add: attr_types_def)
  note f = fold_join_type [OF p dist max ev]
  have all: "j \<in> ids_of_types app (set ?ts)" if "attrs app j = Some a" for j a
    using store_okD(4) [OF mrp_partD(1) [OF p] that] that by (auto simp: ids_of_types_def attr_ok_def)
  have at: "attrs ?a1 = (\<lambda>j. Option.bind (attrs app j) (join_result (participant_type app) ev))"
  proof
    fix j
    show "attrs ?a1 j = Option.bind (attrs app j) (join_result (participant_type app) ev)"
      using f all [of j] by (cases "attrs app j") auto
  qed
  have "j \<in> ids_of_types app (set ?ts)" if "anxious ?a1 j" for j
    using all [of j] that unfolding anxious_def at by (cases "attrs app j") auto
  then have "live_part {} ?a1 = live_part (UNIV - ids_of_types app (set ?ts)) ?a1"
    unfolding live_part_def by blast
  then have p1: "mrp_part bytes {} ?a1" using f by (simp add: mrp_part_def)
  have ty: "attr_types ?a1 = ?ts" using f by (simp add: mrp_keep_defs)
  note e = fold_transmit_end [OF p1, of ?ts, unfolded ty, OF subset_refl]
  have jt: "join_transmit app = fold (\<lambda>t app. mrp_transmit_end app t) ?ts ?a1"
    by (simp add: join_transmit_def Let_def ev_def)
  have i: "mrp_inv bytes (join_transmit app)" and fr: "mrp_keep ?a1 (join_transmit app)"
    and at2: "attrs (join_transmit app) = attrs ?a1" and la: "leaveall (join_transmit app) = leaveall ?a1"
    and idle: "\<forall>t\<in>set ?ts. idle_pdu (mrpdu (join_transmit app) ! t)"
    unfolding jt mrp_inv_part using e by blast+
  have fr0: "mrp_keep app ?a1" and la0: "leaveall ?a1 = leaveall app" using f by blast+
  show ?thesis
    using i mrp_keep_trans [OF fr0 fr] at2 at la la0 idle by simp
qed

lemma join_expire_inv:
  assumes "mrp_inv bytes app"
  shows "mrp_inv bytes (join_expire app) \<and> mrp_keep app (join_expire app)"
proof -
  have 1: "mrp_part bytes UNIV (join_expire0 app)" "mrp_keep app (join_expire0 app)"
    using join_expire0_part [OF assms] by blast+
  have "mrp_inv bytes (join_expire app)" "mrp_keep (join_expire0 app) (join_expire app)"
    unfolding join_expire_def using join_transmit_part [OF 1(1)] by blast+
  with 1(2) show ?thesis by (blast intro: mrp_keep_trans)
qed

subsection \<open>Requests\<close>

lemma get_attribute_part:
  assumes p: "mrp_part bytes X app" and t: "t \<in> set (attr_types app)"
    and val: "attribute_value_length app t \<le> length val" and r: "mrp_get_attribute app t val = (r, app')"
  shows "mrp_part bytes X app'" "mrp_keep app app'"
    "r = None \<Longrightarrow> attrs app' = attrs app \<and> \<not> malloc_ok app (n_malloc app)"
    "r = Some i \<Longrightarrow> attrs app' = (attrs app)(i := attrs app' i) \<and> (attrs app i = None \<or> attrs app' i = attrs app i) \<and>
       (\<exists>a. attrs app' i = Some a \<and> at_type a = t \<and> at_val a = take (attribute_value_length app t) val)"
    "leaveall app' = leaveall app"
proof -
  note s = mrp_partD(1) [OF p] and tm = mrp_partD(4) [OF p]
  have t5: "t < MRP_MAX_ATTR_TYPE" using t store_okD(1) [OF s] by simp
  have lo: "length (attributes_ordered app) = MRP_MAX_ATTR_TYPE" using store_okD(6) [OF s] by (simp add: lists_ok_def)
  have "mrp_part bytes X app' \<and> mrp_keep app app' \<and> leaveall app' = leaveall app \<and>
    (r = None \<longrightarrow> attrs app' = attrs app \<and> \<not> malloc_ok app (n_malloc app)) \<and>
    (r = Some i \<longrightarrow> attrs app' = (attrs app)(i := attrs app' i) \<and> (attrs app i = None \<or> attrs app' i = attrs app i) \<and>
       (\<exists>a. attrs app' i = Some a \<and> at_type a = t \<and> at_val a = take (attribute_value_length app t) val))" for i
  proof (cases "mrp_find_attribute app t val")
    case (Some k)
    then have e: "r = Some k" "app' = app" using r by (auto simp: mrp_get_attribute_def)
    obtain a where "attrs app k = Some a" "at_type a = t" "at_val a = take (attribute_value_length app t) val"
      by (rule find_attribute_Some [OF s t5 Some])
    then show ?thesis using p unfolding e by (auto simp: fun_upd_idem)
  next
    case None
    then have al: "mrp_alloc_attribute app t val = (r, app')" using r by (simp add: mrp_get_attribute_def)
    note i = alloc_inv [OF s tm t val None al]
    have "is_full app' = is_full app" using i(7) by (simp add: is_full_def)
    then have p': "mrp_part bytes X app'"
      using p i(1,2,3,6,8) by (simp add: mrp_part_def)
    have "declares app' = declares app"
    proof (cases r)
      case (Some k)
      then show ?thesis using i(4) [of k] declares_new [of app k app' "fresh_attr app t val"]
        by (simp add: fresh_attr_def mrp_declaring_def)
    qed (use i(11) in \<open>simp add: declares_def\<close>)
    then have fr: "mrp_keep app app'" using i(5,7-10,12) by (simp add: mrp_keep_def mrp_frame_def)
    have "\<not> malloc_ok app (n_malloc app)" if "r = None"
      using al that alloc_effect [OF _ tm lo t5, of val] by auto
    with i(4) [of i] i(11) p' fr i(6) show ?thesis by (auto simp: fresh_attr_def)
  qed
  then show "mrp_part bytes X app'" "mrp_keep app app'"
    "r = None \<Longrightarrow> attrs app' = attrs app \<and> \<not> malloc_ok app (n_malloc app)"
    "r = Some i \<Longrightarrow> attrs app' = (attrs app)(i := attrs app' i) \<and> (attrs app i = None \<or> attrs app' i = attrs app i) \<and>
       (\<exists>a. attrs app' i = Some a \<and> at_type a = t \<and> at_val a = take (attribute_value_length app t) val)"
    "leaveall app' = leaveall app" by blast+
qed

lemma declares_ins:
  assumes "attrs app i = Some a" and "attrs app' = (attrs app)(i \<mapsto> b)" and "at_type b = at_type a" and "at_val b = at_val a"
    and "mrp_declaring (ap_state (at_applicant b))"
  shows "declares app' = insert (at_type a, at_val a) (declares app)"
proof -
  have "(t, v) \<in> declares app' \<longleftrightarrow> (t, v) = (at_type a, at_val a) \<or> (t, v) \<in> declares app" for t v
  proof
    assume "(t, v) \<in> declares app'"
    then show "(t, v) = (at_type a, at_val a) \<or> (t, v) \<in> declares app"
      unfolding declares_iff assms(2) using assms(3,4) by (auto split: if_splits)
  next
    assume "(t, v) = (at_type a, at_val a) \<or> (t, v) \<in> declares app"
    then consider "(t, v) = (at_type a, at_val a)" | j c where "attrs app j = Some c" "at_type c = t" "at_val c = v"
      "mrp_declaring (ap_state (at_applicant c))" "j \<noteq> i" using assms(1) unfolding declares_iff by (metis option.inject)
    then show "(t, v) \<in> declares app'"
    proof cases
      case 1 then show ?thesis using assms unfolding declares_iff by (intro exI [where x = i] exI [where x = b]) simp
    next
      case 2 then show ?thesis using assms(2) unfolding declares_iff by (intro exI [where x = j] exI [where x = c]) simp
    qed
  qed
  then show ?thesis by auto
qed

lemma declares_del:
  assumes s: "store_ok app" and a: "attrs app i = Some a" and at: "attrs app' = (attrs app)(i := r)"
    and r: "\<And>b. r = Some b \<Longrightarrow> \<not> mrp_declaring (ap_state (at_applicant b))"
  shows "declares app' = declares app - {(at_type a, at_val a)}"
proof -
  have "(t, v) \<in> declares app' \<longleftrightarrow> (t, v) \<noteq> (at_type a, at_val a) \<and> (t, v) \<in> declares app" for t v
  proof
    assume "(t, v) \<in> declares app'"
    then obtain j b where b: "attrs app' j = Some b" "at_type b = t" "at_val b = v" "mrp_declaring (ap_state (at_applicant b))"
      by (auto simp: declares_iff)
    then have j: "j \<noteq> i" using at r by auto
    then have "attrs app j = Some b" using b(1) at by simp
    with b j store_okD(7) [OF s this a] show "(t, v) \<noteq> (at_type a, at_val a) \<and> (t, v) \<in> declares app"
      by (auto simp: declares_iff)
  next
    assume "(t, v) \<noteq> (at_type a, at_val a) \<and> (t, v) \<in> declares app"
    then obtain j b where b: "attrs app j = Some b" "at_type b = t" "at_val b = v" "mrp_declaring (ap_state (at_applicant b))"
      "(t, v) \<noteq> (at_type a, at_val a)" by (auto simp: declares_iff)
    then have "j \<noteq> i" using a by auto
    with b show "(t, v) \<in> declares app'" using at unfolding declares_iff by (intro exI [where x = j] exI [where x = b]) simp
  qed
  then show ?thesis by auto
qed

text \<open>
  A join request has the value declared unless there is no memory for it; a leave request withdraws it.
\<close>

lemma join_request_inv:
  assumes p: "mrp_inv bytes app" and t: "t \<in> set (attr_types app)"
    and val: "attribute_value_length app t \<le> length val" and r: "mrp_mad_join_request app t val new = (r, app')"
  shows "mrp_inv bytes app'" "mrp_frame app app'"
    "declares app' = (if r = None then declares app else insert (t, take (attribute_value_length app t) val) (declares app))"
    "enabled app \<Longrightarrow> malloc_ok app (n_malloc app) \<Longrightarrow> r \<noteq> None" "\<not> enabled app \<Longrightarrow> app' = app \<and> r = None"
    "\<And>j. attrs app j \<noteq> None \<Longrightarrow> attrs app' j \<noteq> None" "leaveall app' = leaveall app"
proof -
  have p0: "mrp_part bytes {} app" using p by (simp add: mrp_inv_part)
  obtain r1 app1 where g: "mrp_get_attribute app t val = (r1, app1)" by force
  note gp = get_attribute_part [OF p0 t val g]
  have d1: "declares app1 = declares app" using gp(2) by (simp add: mrp_keep_def)
  let ?ev = "if new then MRP_EVENT_NEW else MRP_EVENT_JOIN"
  have "mrp_inv bytes app' \<and> mrp_frame app app' \<and>
    declares app' = (if r = None then declares app else insert (t, take (attribute_value_length app t) val) (declares app)) \<and>
    (enabled app \<longrightarrow> malloc_ok app (n_malloc app) \<longrightarrow> r \<noteq> None) \<and> (\<not> enabled app \<longrightarrow> app' = app \<and> r = None) \<and>
    (\<forall>j. attrs app j \<noteq> None \<longrightarrow> attrs app' j \<noteq> None) \<and> leaveall app' = leaveall app"
  proof (cases "enabled app")
    case False
    then show ?thesis using r p by (auto simp: mrp_mad_join_request_def)
  next
    case True
    show ?thesis
    proof (cases r1)
      case None
      then have "app' = app1" "r = None" using r g True by (auto simp: mrp_mad_join_request_def)
      then show ?thesis using gp keep_frame [OF gp(2)] None True d1 by (simp add: mrp_inv_part)
    next
      case (Some i)
      then have e: "app' = mrp_applicant_sm app1 i ?ev" "r = Some i"
        using r g True by (auto simp: mrp_mad_join_request_def)
      obtain a where a: "attrs app1 i = Some a" "at_type a = t" "at_val a = take (attribute_value_length app t) val"
        using gp(4) [OF Some] by blast
      note s = applicant_sm_part [OF gp(1) a(1), where ev = ?ev]
      have st: "applicant_state (ap_state (at_applicant a))"
        using store_okD(4) [OF mrp_partD(1) [OF gp(1)] a(1)] by (simp add: attr_ok_def)
      have "declares app' = insert (at_type a, at_val a) (declares app1)"
        unfolding e(1) by (rule declares_ins [OF a(1) s(3)])
          (simp_all add: applicant_result_declaring [OF st] request_effect_def)
      moreover have "attrs app' j \<noteq> None" if "attrs app j \<noteq> None" for j
      proof -
        have "attrs app1 j = ((attrs app)(i := attrs app1 i)) j" using gp(4) [OF Some] by metis
        then show ?thesis using that s(3) e by auto
      qed
      ultimately show ?thesis
        using s(1,2,5) gp(5) mrp_frame_trans [OF keep_frame [OF gp(2)] s(2)] e a(2,3) True d1 by (simp add: mrp_inv_part)
    qed
  qed
  then show "mrp_inv bytes app'" "mrp_frame app app'"
    "declares app' = (if r = None then declares app else insert (t, take (attribute_value_length app t) val) (declares app))"
    "enabled app \<Longrightarrow> malloc_ok app (n_malloc app) \<Longrightarrow> r \<noteq> None" "\<not> enabled app \<Longrightarrow> app' = app \<and> r = None"
    "\<And>j. attrs app j \<noteq> None \<Longrightarrow> attrs app' j \<noteq> None" "leaveall app' = leaveall app" by blast+
qed

lemma leave_request_inv:
  assumes p: "mrp_inv bytes app" and t: "t < MRP_MAX_ATTR_TYPE"
  shows "mrp_inv bytes (mrp_mad_leave_request app t val)" "mrp_frame app (mrp_mad_leave_request app t val)"
    "enabled app \<Longrightarrow> declares (mrp_mad_leave_request app t val) =
       declares app - {(t, take (attribute_value_length app t) val)}"
    "(t, take (attribute_value_length app t) val) \<notin> {(at_type a, at_val a) | a. attrs app j = Some a} \<Longrightarrow>
       attrs (mrp_mad_leave_request app t val) j = attrs app j"
proof -
  have p0: "mrp_part bytes {} app" using p by (simp add: mrp_inv_part)
  note s = mrp_partD(1) [OF p0]
  let ?app = "mrp_mad_leave_request app t val" and ?v = "(t, take (attribute_value_length app t) val)"
  have "mrp_inv bytes ?app \<and> mrp_frame app ?app \<and> (enabled app \<longrightarrow> declares ?app = declares app - {?v}) \<and>
    (\<forall>j. ?v \<notin> {(at_type a, at_val a) | a. attrs app j = Some a} \<longrightarrow> attrs ?app j = attrs app j)"
  proof (cases "enabled app")
    case True
    show ?thesis
    proof (cases "mrp_find_attribute app t val")
      case None
      then have e: "?app = app" by (simp add: mrp_mad_leave_request_def)
      have "?v \<notin> declares app" using find_attribute_None [OF s t None] by (auto simp: declares_iff)
      then show ?thesis unfolding e using p by simp
    next
      case (Some i)
      then have e: "?app = mrp_free_attribute_check (mrp_applicant_sm app i MRP_EVENT_LV) i"
        using True by (simp add: mrp_mad_leave_request_def)
      obtain a where a: "attrs app i = Some a" "at_type a = t" "at_val a = take (attribute_value_length app t) val"
        by (rule find_attribute_Some [OF s t Some])
      note c = applicant_check_part [OF p0 a(1), where ev = MRP_EVENT_LV]
      have st: "applicant_state (ap_state (at_applicant a))"
        using store_okD(4) [OF s a(1)] by (simp add: attr_ok_def)
      have "declares ?app = declares app - {(at_type a, at_val a)}" unfolding e
      proof (rule declares_del [OF s a(1) c(3)])
        fix b assume "join_result (participant_type app) MRP_EVENT_LV a = Some b"
        then have "b = applicant_result (participant_type app) MRP_EVENT_LV a"
          by (auto simp: join_result_def Let_def split: if_splits)
        then show "\<not> mrp_declaring (ap_state (at_applicant b))"
          using applicant_result_declaring [OF st] by (simp add: request_effect_def)
      qed
      moreover have "attrs ?app j = attrs app j" if "?v \<notin> {(at_type a, at_val a) | a. attrs app j = Some a}" for j
      proof -
        have "?v \<in> {(at_type a, at_val a) | a. attrs app i = Some a}" using a by (intro CollectI exI [where x = a]) simp
        then have "j \<noteq> i" using that by blast
        then show ?thesis using c(3) unfolding e by simp
      qed
      ultimately show ?thesis
        using c(1,2) a(2,3) unfolding mrp_inv_part e [symmetric] by simp
    qed
  qed (use p in \<open>simp add: mrp_mad_leave_request_def\<close>)
  then show "mrp_inv bytes ?app" "mrp_frame app ?app" "enabled app \<Longrightarrow> declares ?app = declares app - {?v}"
    "?v \<notin> {(at_type a, at_val a) | a. attrs app j = Some a} \<Longrightarrow> attrs ?app j = attrs app j" by blast+
qed

lemma join_immediate_inv:
  assumes p: "mrp_inv bytes app" and t: "t \<in> set (attr_types app)"
    and val: "attribute_value_length app t \<le> length val" and r: "mrp_mad_join_immediate app t val = (r, app')"
  shows "mrp_inv bytes app'" "mrp_frame app app'"
proof -
  have p0: "mrp_part bytes {} app" using p by (simp add: mrp_inv_part)
  have "mrp_inv bytes app' \<and> mrp_frame app app'"
  proof (cases "enabled app \<and> mrp_find_attribute app t val = None")
    case False
    then have "app' = app" using r by (auto simp: mrp_mad_join_immediate_def split: if_splits option.splits)
    then show ?thesis using p by simp
  next
    case True
    obtain r1 app1 where al: "mrp_alloc_attribute app t val = (r1, app1)" by force
    then have g: "mrp_get_attribute app t val = (r1, app1)" using True by (simp add: mrp_get_attribute_def)
    note gp = get_attribute_part [OF p0 t val g]
    show ?thesis
    proof (cases r1)
      case None
      then have "app' = app1" using r al True by (simp add: mrp_mad_join_immediate_def)
      then show ?thesis using gp(1) keep_frame [OF gp(2)] by (simp add: mrp_inv_part)
    next
      case (Some i)
      obtain a where a: "attrs app1 i = Some a" using gp(4) [OF Some] by blast
      note s1 = applicant_sm_part [OF gp(1) a, where ev = MRP_EVENT_JOIN]
      have "attrs (mrp_applicant_sm app1 i MRP_EVENT_JOIN) i =
          Some (applicant_result (participant_type app1) MRP_EVENT_JOIN a)" using s1(3) by simp
      note s2 = applicant_sm_part [OF s1(1) this, where ev = MRP_EVENT_TX]
      have "app' = mrp_applicant_sm (mrp_applicant_sm app1 i MRP_EVENT_JOIN) i MRP_EVENT_TX"
        using r al True Some by (simp add: mrp_mad_join_immediate_def)
      then show ?thesis
        using s2(1) mrp_frame_trans [OF keep_frame [OF gp(2)] mrp_frame_trans [OF s1(2) s2(2)]] by (simp add: mrp_inv_part)
    qed
  qed
  then show "mrp_inv bytes app'" "mrp_frame app app'" by blast+
qed

subsection \<open>Periodic and LeaveAll timers\<close>

lemma fold_applicant:
  assumes "mrp_part bytes X app" and ev: "quiet_event ev" and "\<forall>i\<in>set l. attrs app i \<noteq> None"
  shows "mrp_part bytes X (fold (\<lambda>i app. mrp_applicant_sm app i ev) l app) \<and>
    mrp_keep app (fold (\<lambda>i app. mrp_applicant_sm app i ev) l app) \<and>
    attributes (fold (\<lambda>i app. mrp_applicant_sm app i ev) l app) = attributes app"
  using assms(1,3)
proof (induction l arbitrary: app)
  case (Cons i l)
  then obtain a where a: "attrs app i = Some a" by auto
  note o = applicant_sm_part [OF Cons.prems(1) a, where ev = ev]
  have "\<forall>j\<in>set l. attrs (mrp_applicant_sm app i ev) j \<noteq> None" using Cons.prems(2) unfolding o(3) by auto
  with Cons.IH [OF o(1)] o(4) o(8) [OF ev] show ?case by (auto intro: mrp_keep_trans)
qed simp

lemma fold_applicant_types:
  assumes "mrp_part bytes X app" and ev: "quiet_event ev" and "set ts \<subseteq> set (attr_types app)"
  shows "mrp_part bytes X (fold (\<lambda>t app. fold (\<lambda>i app. mrp_applicant_sm app i ev) (attributes app ! t) app) ts app) \<and>
    mrp_keep app (fold (\<lambda>t app. fold (\<lambda>i app. mrp_applicant_sm app i ev) (attributes app ! t) app) ts app)"
  using assms(1,3)
proof (induction ts arbitrary: app)
  case (Cons t ts)
  let ?app = "fold (\<lambda>i app. mrp_applicant_sm app i ev) (attributes app ! t) app"
  have "t < MRP_MAX_ATTR_TYPE" using Cons.prems store_okD(1) [OF mrp_partD(1) [OF Cons.prems(1)]] by auto
  note e = fold_applicant [OF Cons.prems(1) ev attributes_list(3) [OF Cons.prems(1) this]]
  then have "attr_types ?app = attr_types app" by (simp add: mrp_keep_defs)
  then have sub: "set ts \<subseteq> set (attr_types ?app)" using Cons.prems(2) by auto
  note ih = Cons.IH [OF conjunct1 [OF e] sub]
  have "mrp_keep app ?app" using e by blast
  with e ih show ?case by (auto intro: mrp_keep_trans)
qed simp

lemma part_field_cong:
  assumes "mrp_part bytes X app" and "store_fields app' = store_fields app" and "tx_fields app' = tx_fields app"
    and "timer_ok app' = timer_ok app" and "join_timer app' = join_timer app" and "attrs app' = attrs app"
    and "la_state (leaveall app') = la_state (leaveall app)"
  shows "mrp_part bytes X app'"
  by (rule part_cong [OF assms(2-4) _ _ assms(1)])
    (use live_part_cong [OF assms(5,6,7), of X] assms in \<open>simp_all add: mrp_part_def\<close>)

lemma periodic_expired_inv:
  assumes p: "mrp_inv bytes app"
  shows "mrp_inv bytes (periodic_timer_expired app)" "mrp_keep app (periodic_timer_expired app)"
proof -
  let ?a0 = "app\<lparr>periodic := (periodic app)\<lparr>per_timer := tm_stop (per_timer (periodic app))\<rparr>\<rparr>"
  have p0: "mrp_part bytes {} ?a0"
    by (rule part_field_cong [of bytes "{}" app]) (use p in \<open>simp_all add: mrp_inv_part store_fields_def tx_fields_def\<close>)
  let ?a1 = "fold (\<lambda>t app. fold (\<lambda>i app. mrp_applicant_sm app i MRP_EVENT_PERIODIC) (attributes app ! t) app)
          (attr_types ?a0) ?a0"
  have p1: "mrp_part bytes {} ?a1" and f1: "mrp_keep ?a0 ?a1"
    using fold_applicant_types [OF p0 _ subset_refl, where ev = MRP_EVENT_PERIODIC] by (auto simp: quiet_event_def)
  have e: "periodic_timer_expired app = mrp_periodic_sm ?a1 MRP_EVENT_PERIODICTIMER"
    by (simp add: periodic_timer_expired_def mrp_periodic_timer_handler_def)
  show "mrp_inv bytes (periodic_timer_expired app)" unfolding mrp_inv_part e
    by (rule part_field_cong [OF p1]) (simp_all add: mrp_periodic_sm_def Let_def store_fields_def tx_fields_def)
  have "mrp_keep app ?a0" by (simp add: mrp_keep_defs attr_types_def)
  moreover have "mrp_keep ?a1 (mrp_periodic_sm ?a1 MRP_EVENT_PERIODICTIMER)"
    by (simp add: mrp_keep_defs mrp_periodic_sm_def Let_def attr_types_def)
  ultimately show "mrp_keep app (periodic_timer_expired app)" unfolding e using f1 by (blast intro: mrp_keep_trans)
qed

definition leaveall_expire :: "mrp_application \<Rightarrow> mrp_application" where
  "leaveall_expire app = leaveall_act (leaveall_step MRP_EVENT_LEAVEALLTIMER
     (app\<lparr>leaveall := (leaveall app)\<lparr>la_timer := tm_stop (la_timer (leaveall app))\<rparr>\<rparr>))"

lemma leaveall_sm_inv:
  assumes "mrp_inv bytes app"
  shows "mrp_inv bytes (leaveall_act (leaveall_step ev app))" "mrp_keep app (leaveall_act (leaveall_step ev app))"
proof -
  have p: "mrp_part bytes {} (leaveall_step ev app)"
    by (rule leaveall_step_part) (use assms in \<open>simp add: mrp_inv_part\<close>)
  show "mrp_inv bytes (leaveall_act (leaveall_step ev app))" using leaveall_act_part [OF p] by (simp add: mrp_inv_part)
  show "mrp_keep app (leaveall_act (leaveall_step ev app))"
    using leaveall_act_part [OF p] leaveall_step_fields(5) [of app ev] by (blast intro: mrp_keep_trans)
qed

lemma leaveall_expire_inv:
  assumes "mrp_inv bytes app"
  shows "mrp_inv bytes (leaveall_expire app)" "mrp_keep app (leaveall_expire app)"
proof -
  let ?a0 = "app\<lparr>leaveall := (leaveall app)\<lparr>la_timer := tm_stop (la_timer (leaveall app))\<rparr>\<rparr>"
  have p0: "mrp_inv bytes ?a0" unfolding mrp_inv_part
    by (rule part_field_cong [of bytes "{}" app]) (use assms in \<open>simp_all add: mrp_inv_part store_fields_def tx_fields_def\<close>)
  show "mrp_inv bytes (leaveall_expire app)" unfolding leaveall_expire_def by (rule leaveall_sm_inv [OF p0])
  have "mrp_keep app ?a0" by (simp add: mrp_keep_defs attr_types_def)
  then show "mrp_keep app (leaveall_expire app)" unfolding leaveall_expire_def
    using leaveall_sm_inv(2) [OF p0] by (blast intro: mrp_keep_trans)
qed

subsection \<open>Disabling and enabling\<close>

lemma fold_free:
  assumes "mrp_part bytes X app" and "distinct l" and "\<forall>i\<in>set l. attrs app i \<noteq> None"
  shows "mrp_part bytes X (fold (\<lambda>i app. mrp_free_attribute app i) l app) \<and>
    mrp_frame app (fold (\<lambda>i app. mrp_free_attribute app i) l app) \<and>
    attrs (fold (\<lambda>i app. mrp_free_attribute app i) l app) = (\<lambda>j. if j \<in> set l then None else attrs app j) \<and>
    leaveall (fold (\<lambda>i app. mrp_free_attribute app i) l app) = leaveall app"
  using assms
proof (induction l arbitrary: app)
  case (Cons i l)
  then obtain a where a: "attrs app i = Some a" by auto
  note o = free_part [OF Cons.prems(1) a]
  have "\<forall>j\<in>set l. attrs (mrp_free_attribute app i) j \<noteq> None" using Cons.prems(2,3) unfolding o(3) by auto
  from Cons.IH [OF o(1) _ this] Cons.prems(2) o show ?case by (auto intro: mrp_frame_trans)
qed simp

lemma fold_free_types:
  assumes "mrp_part bytes X app" and "\<forall>t\<in>set ts. t < MRP_MAX_ATTR_TYPE"
  shows "mrp_part bytes X (fold (\<lambda>t app. fold (\<lambda>i app. mrp_free_attribute app i) (attributes app ! t) app) ts app) \<and>
    mrp_frame app (fold (\<lambda>t app. fold (\<lambda>i app. mrp_free_attribute app i) (attributes app ! t) app) ts app) \<and>
    (\<forall>j b. attrs (fold (\<lambda>t app. fold (\<lambda>i app. mrp_free_attribute app i) (attributes app ! t) app) ts app) j = Some b \<longrightarrow>
       attrs app j = Some b \<and> at_type b \<notin> set ts) \<and>
    leaveall (fold (\<lambda>t app. fold (\<lambda>i app. mrp_free_attribute app i) (attributes app ! t) app) ts app) = leaveall app"
  using assms
proof (induction ts arbitrary: app)
  case (Cons t ts)
  let ?app = "fold (\<lambda>i app. mrp_free_attribute app i) (attributes app ! t) app"
  have t: "t < MRP_MAX_ATTR_TYPE" "\<forall>t\<in>set ts. t < MRP_MAX_ATTR_TYPE" using Cons.prems(2) by simp_all
  note l = attributes_list [OF Cons.prems(1) t(1)]
  note e = fold_free [OF Cons.prems(1) l(1,3)]
  have "attrs app j = Some b \<and> at_type b \<noteq> t" if "attrs ?app j = Some b" for j b
    using e that l(2) by (auto simp: attr_ids_def split: if_splits)
  moreover have "mrp_frame app ?app" using e by blast
  ultimately show ?case using e Cons.IH [OF conjunct1 [OF e] t(2)] by (auto intro: mrp_frame_trans)
qed simp

text \<open>
  Between \<open>mrp_disable\<close> and \<open>mrp_enable\<close>: no attribute, no timer running. A LeaveAll that was pending
  stays recorded, and \<open>mrp_enable\<close> drops it.
\<close>

definition mrp_off :: "(mrp_attribute \<Rightarrow> nat \<Rightarrow> u8 list) \<Rightarrow> mrp_application \<Rightarrow> bool" where
  "mrp_off bytes app \<longleftrightarrow> store_ok app \<and> tx_ok bytes app \<and> attrs app = Map.empty \<and> \<not> enabled app \<and>
     tm_created (join_timer app) \<and> \<not> tm_started (join_timer app) \<and> \<not> tm_started (la_timer (leaveall app)) \<and>
     (app_type app \<noteq> APP_MSRP \<longrightarrow> \<not> tm_started (per_timer (periodic app))) \<and>
     (\<forall>n. timer_ok app n) \<and> (la_state (leaveall app) = MRP_TIMER_ACTIVE \<longrightarrow> is_full app)"

definition set_timers :: "soft_timer \<Rightarrow> mrp_leaveall \<Rightarrow> mrp_periodic \<Rightarrow> mrp_application \<Rightarrow> mrp_application" where
  "set_timers j l p app = app\<lparr>periodic := p, join_timer := j, leaveall := l\<rparr>"

lemma free_set_timers: "mrp_free_attribute (set_timers j l p app) i = set_timers j l p (mrp_free_attribute app i)"
  "attributes (set_timers j l p app) = attributes app"
  by (simp_all add: mrp_free_attribute_def set_timers_def Let_def get_attr_def)

lemma fold_free_set_timers:
  "fold (\<lambda>i app. mrp_free_attribute app i) is (set_timers j l p app) =
     set_timers j l p (fold (\<lambda>i app. mrp_free_attribute app i) is app)"
  by (induction "is" arbitrary: app) (simp_all add: free_set_timers)

lemma exit_attributes_set_timers:
  "mrp_exit_attributes (set_timers j l p app) = set_timers j l p (mrp_exit_attributes app)"
proof -
  have "fold (\<lambda>t app. fold (\<lambda>i app. mrp_free_attribute app i) (attributes app ! t) app) ts (set_timers j l p app) =
    set_timers j l p (fold (\<lambda>t app. fold (\<lambda>i app. mrp_free_attribute app i) (attributes app ! t) app) ts app)" for ts
    by (induction ts arbitrary: app) (simp_all add: fold_free_set_timers free_set_timers(2))
  then show ?thesis by (simp add: mrp_exit_attributes_def)
qed

lemma exit_attributes_part:
  assumes p: "mrp_part bytes X app"
  shows "mrp_part bytes X (mrp_exit_attributes app)" "mrp_frame app (mrp_exit_attributes app)"
    "attrs (mrp_exit_attributes app) = Map.empty" "leaveall (mrp_exit_attributes app) = leaveall app"
proof -
  have e: "mrp_part bytes X (mrp_exit_attributes app) \<and> mrp_frame app (mrp_exit_attributes app) \<and>
    (\<forall>j b. attrs (mrp_exit_attributes app) j = Some b \<longrightarrow> attrs app j = Some b \<and> at_type b \<notin> set [0..<MRP_MAX_ATTR_TYPE]) \<and>
    leaveall (mrp_exit_attributes app) = leaveall app"
    unfolding mrp_exit_attributes_def by (rule fold_free_types [OF p]) auto
  have "attrs (mrp_exit_attributes app) j = None" for j
  proof (cases "attrs (mrp_exit_attributes app) j")
    case (Some b)
    then have b: "attrs app j = Some b" "at_type b \<notin> set [0..<MRP_MAX_ATTR_TYPE]" using e by blast+
    then show ?thesis using attr_type_lt [OF mrp_partD(1) [OF p] b(1)] by auto
  qed
  then show "attrs (mrp_exit_attributes app) = Map.empty" by blast
  show "mrp_part bytes X (mrp_exit_attributes app)" "mrp_frame app (mrp_exit_attributes app)"
    "leaveall (mrp_exit_attributes app) = leaveall app" using e by blast+
qed

lemma exit_attributes_type: "app_type (mrp_exit_attributes app) = app_type app"
proof -
  have 1: "app_type (fold (\<lambda>i app. mrp_free_attribute app i) is a) = app_type a" for "is" a
    by (induction "is" arbitrary: a) (simp_all add: mrp_free_attribute_def Let_def)
  have "app_type (fold (\<lambda>t app. fold (\<lambda>i app. mrp_free_attribute app i) (attributes app ! t) app) ts a) = app_type a" for ts a
    by (induction ts arbitrary: a) (simp_all add: 1)
  then show ?thesis by (simp add: mrp_exit_attributes_def)
qed

lemma disable_off:
  assumes p: "mrp_inv bytes app" and en: "enabled app"
  shows "mrp_off bytes (mrp_disable app)"
proof -
  let ?p = "if app_type app \<noteq> APP_MSRP then (periodic app)\<lparr>per_timer := tm_stop (per_timer (periodic app))\<rparr> else periodic app"
  let ?l = "(leaveall app)\<lparr>la_timer := tm_stop (la_timer (leaveall app))\<rparr>"
  let ?x = "mrp_exit_attributes app"
  have e: "mrp_disable app = (set_timers (tm_stop (join_timer app)) ?l ?p ?x)\<lparr>enabled := False\<rparr>"
    unfolding exit_attributes_set_timers [symmetric] using en
    by (auto simp: mrp_disable_def set_timers_def Let_def)
  note x = exit_attributes_part [OF p [unfolded mrp_inv_part]]
  have s: "store_ok (mrp_disable app) = store_ok ?x"
    by (rule store_ok_cong) (simp add: e set_timers_def store_fields_def)
  have t: "tx_ok bytes (mrp_disable app) = tx_ok bytes ?x"
    by (rule tx_ok_cong) (simp add: e set_timers_def tx_fields_def)
  have "app_type (mrp_disable app) = app_type app" by (simp add: e set_timers_def exit_attributes_type)
  moreover have "timer_ok (mrp_disable app) = timer_ok app" "is_full (mrp_disable app) = is_full app"
    using x(2) by (simp_all add: e set_timers_def mrp_frame_def is_full_def)
  ultimately show ?thesis
    unfolding mrp_off_def s t using mrp_partD(1,2) [OF x(1)] x(3) p
    by (auto simp: e set_timers_def tm_stop_def mrp_inv_def live_ok_def)
qed

lemma enable_inv:
  assumes o: "mrp_off bytes app"
  shows "mrp_inv bytes (mrp_enable app)" "enabled (mrp_enable app)"
proof -
  let ?a1 = "if is_full app then leaveall_step MRP_EVENT_BEGIN app else app"
  have e: "mrp_enable app = (if app_type ?a1 \<noteq> APP_MSRP then mrp_periodic_sm ?a1 MRP_EVENT_BEGIN else ?a1)\<lparr>enabled := True\<rparr>"
    using o by (simp add: mrp_enable_def mrp_off_def is_full_def Let_def)
  show "enabled (mrp_enable app)" unfolding e by simp
  have sf: "store_fields ?a1 = store_fields app" "tx_fields ?a1 = tx_fields app" "timer_ok ?a1 = timer_ok app" "attrs ?a1 = attrs app"
    using leaveall_step_fields [where ev = MRP_EVENT_BEGIN and app = app] by simp_all
  have pas: "la_state (leaveall ?a1) = MRP_TIMER_PASSIVE"
    using o by (cases "la_state (leaveall app)")
      (auto simp: mrp_off_def leaveall_step_def leaveall_random_def is_full_def Let_def)
  have "live_part {} ?a1"
    using o pas sf(4) by (auto simp: live_part_def anxious_def mrp_off_def leaveall_step_def leaveall_random_def Let_def)
  then have p1: "mrp_part bytes {} ?a1"
    using o pas sf(3) store_ok_cong [OF sf(1)] tx_ok_cong [OF sf(2), of bytes] by (simp add: mrp_part_def mrp_off_def)
  show "mrp_inv bytes (mrp_enable app)" unfolding mrp_inv_part
    by (rule part_field_cong [OF p1])
      (simp_all add: e mrp_periodic_sm_def Let_def store_fields_def tx_fields_def)
qed

lemma tx_idle:
  assumes "event_encoder (vector_add_event app) bytes" and "\<not> hung app" and "sent app = []"
    and "mrpdu app = replicate MRP_MAX_ATTR_TYPE empty_mrpdu"
    and "\<And>t. t \<in> set (attr_types app) \<Longrightarrow> tx_cfg app t \<and> attribute_length app t \<le> attribute_value_length app t"
    and "max_attr_type app < MRP_MAX_ATTR_TYPE"
  shows "tx_ok bytes app"
proof -
  have "idle_pdu empty_mrpdu" by (simp add: idle_pdu_def empty_mrpdu_def)
  then have "pdu_inv bytes app t (mrpdu app ! t)" if "t \<in> set (attr_types app)" for t
    using that assms(4,6) by (simp add: pdu_inv_def)
  then show ?thesis using assms(1-5) unfolding tx_ok_def by simp
qed

subsection \<open>Properties\<close>

lemma mrp_ex_inv: "mrp_inv three_bytes (mrp_ex 1500)"
proof -
  have "tx_ok three_bytes (mrp_ex 1500)"
    by (rule tx_idle) (use mrp_ex_ok(1) [of 1500] mrp_ex_ok(3) [of 1500] in \<open>simp_all add: mrp_ex_def idle_ex_def empty_mrpdu_def\<close>)
  moreover have "store_ok (mrp_ex 1500)"
    by (auto simp: store_ok_def lists_ok_def attr_ids_def mrp_ex_def nth_replicate)
  ultimately show ?thesis by (simp add: mrp_inv_def mrp_ex_def live_ok_def anxious_def timer_ex0_def)
qed

abbreviation mrp_ex1 :: mrp_application where
  "mrp_ex1 \<equiv> snd (mrp_mad_join_request (mrp_ex 1500) 1 [0, 5] False)"

lemma mrp_ex1_inv: "mrp_inv three_bytes mrp_ex1" "leaveall mrp_ex1 = leaveall (mrp_ex 1500)"
    "mrp_frame (mrp_ex 1500) mrp_ex1" "declares mrp_ex1 = {(1, [0, 5])}"
proof -
  obtain r app where j: "mrp_mad_join_request (mrp_ex 1500) 1 [0, 5] False = (r, app)" by force
  have "attribute_value_length (mrp_ex 1500) 1 = 2" "1 \<in> set (attr_types (mrp_ex 1500))" by (simp_all add: mrp_ex_def)
  note i = join_request_inv [OF mrp_ex_inv _ _ j, unfolded this]
  have "r \<noteq> None" by (rule i) (simp_all add: mrp_ex_def)
  then show "mrp_inv three_bytes mrp_ex1" "leaveall mrp_ex1 = leaveall (mrp_ex 1500)" "mrp_frame (mrp_ex 1500) mrp_ex1"
    "declares mrp_ex1 = {(1, [0, 5])}"
    using i(1,2,3,7) j by (simp_all add: declares_def mrp_ex_def)
qed





text \<open>
  Disabling an application frees every attribute and leaves no timer running, and enabling it again
  brings it back to its invariant, with no declaration.
\<close>

theorem mrp_disable_enable:
  assumes "mrp_inv bytes app" and "enabled app"
  shows "attrs (mrp_disable app) = Map.empty \<and> \<not> tm_started (join_timer (mrp_disable app)) \<and>
    \<not> tm_started (la_timer (leaveall (mrp_disable app))) \<and>
    (app_type app \<noteq> APP_MSRP \<longrightarrow> \<not> tm_started (per_timer (periodic (mrp_disable app)))) \<and>
    mrp_inv bytes (mrp_enable (mrp_disable app)) \<and> enabled (mrp_enable (mrp_disable app))"
proof -
  note o = disable_off [OF assms]
  have "app_type (mrp_disable app) = app_type app"
    using assms(2) exit_attributes_type by (auto simp: mrp_disable_def Let_def)
  with o enable_inv [OF o] show ?thesis by (simp add: mrp_off_def)
qed

theorem mrp_disable_enable_witness:
  "attrs (mrp_disable mrp_ex1) = Map.empty \<and> \<not> tm_started (join_timer (mrp_disable mrp_ex1)) \<and>
    \<not> tm_started (la_timer (leaveall (mrp_disable mrp_ex1))) \<and>
    mrp_inv three_bytes (mrp_enable (mrp_disable mrp_ex1)) \<and> enabled (mrp_enable (mrp_disable mrp_ex1))"
proof -
  have "enabled mrp_ex1" using mrp_ex1_inv(3) by (simp add: mrp_frame_def) (simp add: mrp_ex_def)
  with mrp_disable_enable [OF mrp_ex1_inv(1)] show ?thesis by simp
qed

text \<open>
  When the creation of the leave timer fails, \<open>mrp_alloc_attribute\<close> frees the attribute and
  reports the failure, but the freed attribute stays chained in both lists of its type.
\<close>

theorem mrp_alloc_attribute_dangling:
  assumes "malloc_ok app (n_malloc app)" and "\<not> timer_ok app (n_timer app)"
    and "t < length (attributes app)" and "t < length (attributes_ordered app)"
    and "attrs app (next_attr app) = None"
  shows "fst (mrp_alloc_attribute app t val) = None \<and>
    next_attr app \<in> set (attributes (snd (mrp_alloc_attribute app t val)) ! t) \<and>
    next_attr app \<in> set (attributes_ordered (snd (mrp_alloc_attribute app t val)) ! t) \<and>
    attrs (snd (mrp_alloc_attribute app t val)) (next_attr app) = None"
  using assms by (simp add: mrp_alloc_attribute_def Let_def)

theorem mrp_alloc_attribute_dangling_witness:
  "let app = (mrp_ex 1500)\<lparr>timer_ok := (\<lambda>_. False)\<rparr> in
    fst (mrp_alloc_attribute app 1 [0, 5]) = None \<and>
    next_attr app \<in> set (attributes (snd (mrp_alloc_attribute app 1 [0, 5])) ! 1) \<and>
    next_attr app \<in> set (attributes_ordered (snd (mrp_alloc_attribute app 1 [0, 5])) ! 1) \<and>
    attrs (snd (mrp_alloc_attribute app 1 [0, 5])) (next_attr app) = None"
  unfolding Let_def by (rule mrp_alloc_attribute_dangling) (simp_all add: mrp_ex_def)

end
