(* ===== verification/MRP_Client.thy ===== *)
theory MRP_Client
  imports MRP_Inv
begin

section \<open>The contract between MRP and its clients\<close>

text \<open>
  What \<open>mrp.c\<close> relies on when it calls the indications of a client (MVRP, MSRP), as locales over
  the record \<open>mrp_ops\<close>, and what it guarantees in return. \<open>mrp_lens\<close> says that the application of a
  port is a component of the client's state. \<open>mrp_client\<close> adds the client's invariant: it holds after
  an indication, it does not depend on what MRP changes on its own (anything but the declared
  values), and an indication never frees the attribute it is about, which \<open>mrp.c\<close> goes on using.
\<close>

definition mrp_port_ok :: "(mrp_attribute \<Rightarrow> nat \<Rightarrow> u8 list) \<Rightarrow> mrp_application \<Rightarrow> bool" where
  "mrp_port_ok bytes app \<longleftrightarrow> (if enabled app then mrp_inv bytes app else mrp_off bytes app)"

lemma port_ok_keep: "mrp_inv bytes app' \<Longrightarrow> mrp_keep app app' \<Longrightarrow> enabled app \<Longrightarrow> mrp_port_ok bytes app'"
  by (simp add: mrp_port_ok_def mrp_keep_defs)

locale mrp_lens =
  fixes ops :: "'s mrp_ops"
  assumes get_set: "op_app ops (op_set_app ops s p app) p = app"
    and set_set: "op_set_app ops (op_set_app ops s p app) p app' = op_set_app ops s p app'"
    and set_get: "op_set_app ops s p (op_app ops s p) = s"
begin

lemma on_app_on_app: "on_app ops p f (on_app ops p g s) = on_app ops p (\<lambda>app. f (g app)) s"
  by (simp add: on_app_def get_set set_set)

lemma on_app_get: "op_app ops (on_app ops p f s) p = f (op_app ops s p)"
  by (simp add: on_app_def get_set)

lemma on_app_id: "on_app ops p (\<lambda>app. app) s = s"
  by (simp add: on_app_def set_get)

lemma fold_on_app: "fold (\<lambda>x. on_app ops p (f x)) xs s = on_app ops p (fold f xs) s"
  by (induction xs arbitrary: s) (simp_all add: on_app_id on_app_on_app id_def comp_def)

text \<open>A LeaveAll event reaches no indication.\<close>

lemma process_lva:
  "mrp_process_attribute1 ops p i MRP_ATTR_EVT_LVA s = (0, on_app ops p (lva_one i) s)"
proof -
  have "reg_action (registrar_next pt to MRP_EVENT_RLA reg) = MRP_ACTION_NONE" for pt to reg
    by (auto simp: registrar_defs split: prod.splits)
  then have "mrp_registrar_sm ops p i MRP_EVENT_RLA s = on_app ops p (\<lambda>app. mrp_registrar_step app i MRP_EVENT_RLA) s"
    by (simp add: mrp_registrar_sm_def mrp_registrar_action_handler_def on_app_get mrp_registrar_step_def)
  then show ?thesis
    by (simp add: mrp_process_attribute1_def mrp_attribute2rxevent_def on_app_on_app Let_def lva_one_def [abs_def])
qed

lemma leaveall_sm_app: "mrp_leaveall_sm ops p ev s = on_app ops p (\<lambda>app. leaveall_act (leaveall_step ev app)) s"
proof -
  have "mrp_leaveall_action_handler ops p s = on_app ops p leaveall_act s" for s
  proof (cases "la_action (leaveall (op_app ops s p)) = MRP_ACTION_SLA")
    case True
    have "fold (\<lambda>i s. snd (mrp_process_attribute1 ops p i MRP_ATTR_EVT_LVA s)) (attributes (op_app ops s p) ! t) s =
      on_app ops p (\<lambda>app. fold lva_one (attributes app ! t) app) s" for t s
      by (simp add: process_lva fold_on_app) (simp add: on_app_def)
    then have "mrp_leaveall_action_handler ops p s =
      on_app ops p (fold (\<lambda>t app. mrp_transmit_action app t None 0 True) (attr_types (op_app ops s p)))
        (on_app ops p (fold (\<lambda>t app. fold lva_one (attributes app ! t) app) (attr_types (op_app ops s p))) s)"
      using True by (simp add: mrp_leaveall_action_handler_def fold_on_app Let_def)
    also have "\<dots> = on_app ops p leaveall_act s"
      using True unfolding on_app_on_app by (simp add: on_app_def leaveall_act_def)
    finally show ?thesis .
  next
    case False
    then show ?thesis by (simp add: mrp_leaveall_action_handler_def on_app_def leaveall_act_def set_get)
  qed
  then show ?thesis by (simp add: mrp_leaveall_sm_def on_app_on_app)
qed

lemma join_expired_app: "join_timer_expired ops p s = on_app ops p join_expire s"
  by (simp add: join_timer_expired_def mrp_join_timer_handler_def leaveall_sm_app on_app_on_app
      join_expire_def [abs_def] join_expire0_def)

lemma leaveall_expired_app: "leaveall_timer_expired ops p s = on_app ops p leaveall_expire s"
  by (simp add: leaveall_timer_expired_def mrp_leaveall_timer_handler_def leaveall_sm_app on_app_on_app
      leaveall_expire_def [abs_def])

end

locale mrp_client = mrp_lens ops for ops :: "'s mrp_ops" +
  fixes bytes :: "mrp_attribute \<Rightarrow> nat \<Rightarrow> u8 list" and sinv :: "'s \<Rightarrow> bool" and valid :: "'s \<Rightarrow> nat \<Rightarrow> bool"
  assumes port_inv: "sinv s \<Longrightarrow> valid s p \<Longrightarrow> mrp_port_ok bytes (op_app ops s p)"
    and keep_inv: "sinv s \<Longrightarrow> valid s p \<Longrightarrow> mrp_port_ok bytes app \<Longrightarrow> mrp_keep (op_app ops s p) app \<Longrightarrow>
      sinv (op_set_app ops s p app) \<and> valid (op_set_app ops s p app) = valid s"
    and join_indication: "sinv s \<Longrightarrow> valid s p \<Longrightarrow> enabled (op_app ops s p) \<Longrightarrow> attrs (op_app ops s p) i \<noteq> None \<Longrightarrow>
      sinv (mad_join_indication ops s p i new) \<and> valid (mad_join_indication ops s p i new) = valid s \<and>
      enabled (op_app ops (mad_join_indication ops s p i new) p) \<and>
      attrs (op_app ops (mad_join_indication ops s p i new) p) i \<noteq> None"
    and leave_indication: "sinv s \<Longrightarrow> valid s p \<Longrightarrow> enabled (op_app ops s p) \<Longrightarrow> attrs (op_app ops s p) i \<noteq> None \<Longrightarrow>
      sinv (mad_leave_indication ops s p i) \<and> valid (mad_leave_indication ops s p i) = valid s \<and>
      enabled (op_app ops (mad_leave_indication ops s p i) p) \<and>
      attrs (op_app ops (mad_leave_indication ops s p i) p) i \<noteq> None"
begin

lemma app_inv: "sinv s \<Longrightarrow> valid s p \<Longrightarrow> enabled (op_app ops s p) \<Longrightarrow> mrp_inv bytes (op_app ops s p)"
  using port_inv [of s p] by (simp add: mrp_port_ok_def)

definition good :: "'s \<Rightarrow> nat \<Rightarrow> 's \<Rightarrow> bool" where
  "good s p s' \<longleftrightarrow> sinv s' \<and> valid s' = valid s \<and> enabled (op_app ops s' p) = enabled (op_app ops s p)"

lemma goodD: "good s p s' \<Longrightarrow> valid s p \<Longrightarrow> sinv s' \<and> valid s' p \<and> enabled (op_app ops s' p) = enabled (op_app ops s p)"
  by (simp add: good_def)

lemma good_trans: "good s p s' \<Longrightarrow> good s' p s'' \<Longrightarrow> good s p s''"
  by (simp add: good_def)

lemma good_refl: "sinv s \<Longrightarrow> good s p s"
  by (simp add: good_def)

lemma on_app_sinv:
  assumes "sinv s" and "valid s p" and "enabled (op_app ops s p)"
    and "mrp_inv bytes (f (op_app ops s p))" and "mrp_keep (op_app ops s p) (f (op_app ops s p))"
  shows "good s p (on_app ops p f s)"
proof -
  have "sinv (on_app ops p f s) \<and> valid (on_app ops p f s) = valid s" unfolding on_app_def
    by (rule keep_inv [OF assms(1,2) port_ok_keep [OF assms(4,5,3)] assms(5)])
  moreover have "enabled (f (op_app ops s p))" using assms(3,5) by (simp add: mrp_keep_defs)
  ultimately show ?thesis using assms(3) by (simp add: on_app_get good_def)
qed

text \<open>The registrar with its indications: whatever the client does, the attribute survives.\<close>

definition step_ok :: "'s \<Rightarrow> nat \<Rightarrow> nat \<Rightarrow> 's \<Rightarrow> bool" where
  "step_ok s p i s' \<longleftrightarrow> good s p s' \<and> attrs (op_app ops s' p) i \<noteq> None"

lemma action_handler_ok:
  assumes "sinv s" and "valid s p" and "enabled (op_app ops s p)" and "attrs (op_app ops s p) i \<noteq> None"
  shows "step_ok s p i (mrp_registrar_action_handler ops p i s)"
  using assms join_indication [OF assms] leave_indication [OF assms]
  by (cases "reg_action (at_registrar (get_attr (op_app ops s p) i))")
    (simp_all add: mrp_registrar_action_handler_def step_ok_def good_def)

lemma registrar_sm_ok:
  assumes "sinv s" and "valid s p" and "enabled (op_app ops s p)" and "attrs (op_app ops s p) i \<noteq> None"
  shows "step_ok s p i (mrp_registrar_sm ops p i ev s)"
proof -
  obtain a where a: "attrs (op_app ops s p) i = Some a" using assms(4) by auto
  note r = registrar_step_part [OF app_inv [OF assms(1-3), unfolded mrp_inv_part] a, where ev = ev]
  let ?s = "on_app ops p (\<lambda>app. mrp_registrar_step app i ev) s"
  have 1: "sinv ?s" "valid ?s = valid s" "enabled (op_app ops ?s p)"
    using on_app_sinv [OF assms(1-3), of "\<lambda>app. mrp_registrar_step app i ev"] assms(3) r(1,2) by (simp_all add: mrp_inv_part good_def)
  moreover have "attrs (op_app ops ?s p) i \<noteq> None" using r(3) by (simp add: on_app_get)
  ultimately show ?thesis
    using action_handler_ok [of ?s p i] assms(2,3) by (simp add: mrp_registrar_sm_def step_ok_def good_def)
qed

lemma applicant_check_ok:
  assumes "sinv s" and "valid s p" and "enabled (op_app ops s p)" and "attrs (op_app ops s p) i \<noteq> None"
    and "quiet_event ev"
  shows "good s p (on_app ops p (\<lambda>app. mrp_free_attribute_check app i) (on_app ops p (\<lambda>app. mrp_applicant_sm app i ev) s))"
proof -
  obtain a where a: "attrs (op_app ops s p) i = Some a" using assms(4) by auto
  note c = applicant_check_part [OF app_inv [OF assms(1-3), unfolded mrp_inv_part] a, where ev = ev]
  show ?thesis unfolding on_app_on_app
    using on_app_sinv [OF assms(1-3), of "\<lambda>app. mrp_free_attribute_check (mrp_applicant_sm app i ev) i"] c(1) c(5) [OF assms(5)]
    by (simp add: mrp_inv_part)
qed

lemma rxevent_quiet: "event < MRP_ATTR_EVT_MAX \<Longrightarrow> quiet_event (mrp_attribute2rxevent event)"
  by (simp add: mrp_attribute2rxevent_def quiet_event_def nth_Cons split: nat.split)

lemma process_attribute1_sinv:
  assumes "sinv s" and "valid s p" and "enabled (op_app ops s p)" and "attrs (op_app ops s p) i \<noteq> None"
  shows "good s p (snd (mrp_process_attribute1 ops p i event s))"
proof (cases "event < MRP_ATTR_EVT_MAX")
  case True
  let ?ev = "mrp_attribute2rxevent event" and ?s = "mrp_registrar_sm ops p i (mrp_attribute2rxevent event) s"
  have r: "good s p ?s" "attrs (op_app ops ?s p) i \<noteq> None"
    using registrar_sm_ok [OF assms, of ?ev] by (simp_all add: step_ok_def)
  have "good ?s p (on_app ops p (\<lambda>app. mrp_free_attribute_check app i) (on_app ops p (\<lambda>app. mrp_applicant_sm app i ?ev) ?s))"
    by (rule applicant_check_ok) (use goodD [OF r(1) assms(2)] r(2) assms(3) rxevent_quiet [OF True] in auto)
  with True good_trans [OF r(1)] show ?thesis by (simp add: mrp_process_attribute1_def Let_def)
next
  case False
  then show ?thesis using assms(1) by (simp add: mrp_process_attribute1_def good_refl)
qed

lemma process_attribute_sinv:
  assumes s: "sinv s" "valid s p" and t: "t \<in> set (attr_types (op_app ops s p))"
    and val: "attribute_value_length (op_app ops s p) t \<le> length val"
  shows "good s p (snd (mrp_process_attribute ops p t val event s))"
proof (cases "enabled (op_app ops s p)")
  case True
  obtain r app where g: "mrp_get_attribute (op_app ops s p) t val = (r, app)" by force
  note gp = get_attribute_part [OF app_inv [OF s True, unfolded mrp_inv_part] t val g]
  have i: "mrp_inv bytes app" using gp(1) by (simp add: mrp_inv_part)
  let ?s = "op_set_app ops s p app"
  have en: "enabled (op_app ops ?s p)" using gp(2) True by (simp add: get_set mrp_keep_defs)
  have k: "good s p ?s" using keep_inv [OF s port_ok_keep [OF i gp(2) True] gp(2)] en True by (simp add: good_def)
  show ?thesis
  proof (cases r)
    case None
    then show ?thesis using g k True by (simp add: mrp_process_attribute_def)
  next
    case (Some j)
    have "attrs (op_app ops ?s p) j \<noteq> None" using gp(4) [OF Some] by (auto simp: get_set)
    then have "good ?s p (snd (mrp_process_attribute1 ops p j event ?s))"
      using process_attribute1_sinv [of ?s p j event] goodD [OF k s(2)] en by blast
    with good_trans [OF k] g True Some show ?thesis by (simp add: mrp_process_attribute_def)
  qed
qed (use s in \<open>simp add: mrp_process_attribute_def good_refl\<close>)

lemma leave_timer_sinv:
  assumes "sinv s" and "valid s p" and "enabled (op_app ops s p)" and "attrs (op_app ops s p) i \<noteq> None"
  shows "good s p (leave_timer_expired ops p i s)"
proof -
  obtain a where a: "attrs (op_app ops s p) i = Some a" using assms(4) by auto
  note r = leave_expire_part [OF app_inv [OF assms(1-3), unfolded mrp_inv_part] a]
  let ?s = "on_app ops p (leave_expire i) s" and ?s2 = "mrp_registrar_action_handler ops p i (on_app ops p (leave_expire i) s)"
  have 1: "good s p ?s" using on_app_sinv [OF assms(1-3), of "leave_expire i"] r(1,2) by (simp add: mrp_inv_part)
  have at: "attrs (op_app ops ?s p) i \<noteq> None" using r(3) by (simp add: on_app_get)
  have g1: "sinv ?s" "valid ?s p" "enabled (op_app ops ?s p)" using goodD [OF 1 assms(2)] assms(3) by simp_all
  have 2: "good s p ?s2" "attrs (op_app ops ?s2 p) i \<noteq> None"
    using action_handler_ok [OF g1 at] good_trans [OF 1] by (simp_all add: step_ok_def)
  obtain b where b: "attrs (op_app ops ?s2 p) i = Some b" using 2(2) by auto
  have g2: "sinv ?s2" "valid ?s2 p" "enabled (op_app ops ?s2 p)" using goodD [OF 2(1) assms(2)] assms(3) by simp_all
  note c = free_check_part [OF app_inv [OF g2, unfolded mrp_inv_part] b]
  have "leave_timer_expired ops p i s = on_app ops p (\<lambda>app. mrp_free_attribute_check app i) ?s2"
    by (simp add: leave_timer_expired_def mrp_leave_timer_handler_def mrp_registrar_sm_def on_app_on_app
        leave_expire_def [abs_def])
  with on_app_sinv [OF g2, of "\<lambda>app. mrp_free_attribute_check app i"] c(1,2) good_trans [OF 2(1)] show ?thesis
    by (simp add: mrp_inv_part)
qed

lemma timers_sinv:
  assumes "sinv s" and "valid s p" and "enabled (op_app ops s p)"
  shows "good s p (join_timer_expired ops p s)" "good s p (leaveall_timer_expired ops p s)"
    "good s p (on_app ops p periodic_timer_expired s)" "good s p (mrp_leaveall_sm ops p ev s)"
proof -
  note i = app_inv [OF assms]
  show "good s p (join_timer_expired ops p s)"
    using on_app_sinv [OF assms] join_expire_inv [OF i] by (simp add: join_expired_app)
  show "good s p (leaveall_timer_expired ops p s)"
    using on_app_sinv [OF assms] leaveall_expire_inv [OF i] by (simp add: leaveall_expired_app)
  show "good s p (on_app ops p periodic_timer_expired s)"
    using on_app_sinv [OF assms] periodic_expired_inv [OF i] by simp
  show "good s p (mrp_leaveall_sm ops p ev s)"
    using on_app_sinv [OF assms, of "\<lambda>app. leaveall_act (leaveall_step ev app)"] leaveall_sm_inv [OF i, of ev]
    by (simp add: leaveall_sm_app)
qed

end

end
