(* ===== verification/MRP_Rx.thy ===== *)
theory MRP_Rx
  imports MRP_Client "HOL-Library.Monad_Syntax"
begin

section \<open>MRP packet reception (\<open>src/srp/mrp.c\<close>)\<close>

text \<open>
  \<open>mrp_process_packet\<close> on the bytes of a received packet. Pointers are offsets from
  \<open>NET_DATA_START(desc)\<close>; \<open>rx_buf\<close> is the memory of the buffer and \<open>rx_len\<close> the length of the packet
  in it. The result is \<open>None\<close> when the code reads past that memory, uses an attribute that was freed, or
  does not end; otherwise it is the return code with the state. The client's part
  (\<open>attribute_check\<close>, \<open>event_length\<close>, \<open>vector_handler\<close>) is the record \<open>mrp_rx_ops\<close>.
\<close>

record net_rx_desc =
  rx_buf :: "u8 list"
  rx_len :: nat
  rx_l2 :: nat
  rx_l3 :: nat

record 's mrp_rx_ops =
  attribute_check :: "u8 \<Rightarrow> u8 \<Rightarrow> bool"
  event_length :: "u8 \<Rightarrow> nat \<Rightarrow> nat"
  vector_handler :: "'s \<Rightarrow> nat \<Rightarrow> u8 \<Rightarrow> u8 list \<Rightarrow> nat \<Rightarrow> nat \<Rightarrow> 's option"

definition rd :: "u8 list \<Rightarrow> nat \<Rightarrow> u8 option" where
  "rd buf i = (if i < length buf then Some (buf ! i) else None)"

subsection \<open>Messages and vectors\<close>

definition mrp_get_first_message :: "mrp_application \<Rightarrow> nat \<Rightarrow> nat \<Rightarrow> nat option" where
  "mrp_get_first_message app data end_p =
     (let data1 = data + 1
      in if has_attribute_list_length app
         then if data1 + 4 > end_p then None else Some data1
         else if data1 + 2 > end_p then None else Some data1)"

definition mrp_get_next_message :: "u8 list \<Rightarrow> nat \<Rightarrow> nat \<Rightarrow> nat option option" where
  "mrp_get_next_message buf vector_end_mark end_p =
     (let hdr = vector_end_mark + 2
      in if hdr + 2 > end_p then Some None
         else do {
           b0 \<leftarrow> rd buf hdr;
           b1 \<leftarrow> rd buf (hdr + 1);
           Some (if b0 = 0 \<and> b1 = 0 then None else if hdr + 4 > end_p then None else Some hdr)
         })"

definition mrp_get_first_vector :: "mrp_application \<Rightarrow> nat \<Rightarrow> nat" where
  "mrp_get_first_vector app hdr = (if has_attribute_list_length app then hdr + 4 else hdr + 2)"

text \<open>
  The loop over the attributes of a type on a received LeaveAll. It reads the list entry of the
  attribute after \<open>__mrp_process_attribute\<close>, which may have freed it.
\<close>

fun rx_lva_loop :: "nat \<Rightarrow> 's mrp_ops \<Rightarrow> nat \<Rightarrow> nat \<Rightarrow> nat option \<Rightarrow> 's \<Rightarrow> 's option" where
  "rx_lva_loop 0 ops p t entry s = None"
| "rx_lva_loop (Suc fuel) ops p t None s = Some s"
| "rx_lva_loop (Suc fuel) ops p t (Some i) s =
     (let s1 = snd (mrp_process_attribute1 ops p i MRP_ATTR_EVT_LVA s); app = op_app ops s1 p
      in if attrs app i = None then None
         else rx_lva_loop fuel ops p t (succ_in (attributes app ! t) i) s1)"

definition rx_leaveall :: "'s mrp_ops \<Rightarrow> nat \<Rightarrow> nat \<Rightarrow> 's \<Rightarrow> 's option" where
  "rx_leaveall ops p t s =
     (let l = attributes (op_app ops s p) ! t
      in do {
        s1 \<leftarrow> rx_lva_loop (length l + 1) ops p t (first_in l) s;
        Some (mrp_leaveall_sm ops p MRP_EVENT_RLA s1)
      })"

text \<open>
  One iteration of the \<open>do ... while (*vector_header)\<close> loop: \<open>VecErr\<close> is the jump to \<open>err\<close>, \<open>VecEnd\<close> gives
  the position of the end mark, \<open>VecNext\<close> that of the next vector.
\<close>

datatype 's vec_result = VecErr 's | VecEnd nat 's | VecNext nat 's

definition rx_vector ::
  "'s mrp_ops \<Rightarrow> 's mrp_rx_ops \<Rightarrow> nat \<Rightarrow> u8 list \<Rightarrow> nat \<Rightarrow> bool \<Rightarrow> nat \<Rightarrow> nat \<Rightarrow> 's \<Rightarrow> 's vec_result option" where
  "rx_vector ops rx p buf hdr skip vector_end vh s =
     (if vh + 2 > vector_end then Some (VecErr s)
      else do {
        b0 \<leftarrow> rd buf vh;
        b1 \<leftarrow> rd buf (vh + 1);
        type \<leftarrow> rd buf hdr;
        len \<leftarrow> rd buf (hdr + 1);
        let (leave_all_event, number_of_values) = mrp_get_vector_header b0 b1;
        let n = unat number_of_values;
        let vector_length = 2 + unat len + event_length rx type n;
        if vh + vector_length > vector_end then Some (VecErr s)
        else if \<not> skip \<and> leave_all_event \<noteq> 0 \<and> leave_all_event \<noteq> 1 then Some (VecErr s)
        else if \<not> skip \<and> number_of_values = 0 \<and> leave_all_event = 0 then Some (VecErr s)
        else do {
          s1 \<leftarrow> (if \<not> skip \<and> leave_all_event \<noteq> 0 then rx_leaveall ops p (unat type) s else Some s);
          s2 \<leftarrow> (if \<not> skip then vector_handler rx s1 p type buf (vh + 2) n else Some s1);
          let vh1 = vh + vector_length;
          m0 \<leftarrow> rd buf vh1;
          m1 \<leftarrow> rd buf (vh1 + 1);
          Some (if m0 = 0 \<and> m1 = 0 then VecEnd vh1 s2 else VecNext vh1 s2)
        }
      })"

fun rx_vectors ::
  "nat \<Rightarrow> 's mrp_ops \<Rightarrow> 's mrp_rx_ops \<Rightarrow> nat \<Rightarrow> u8 list \<Rightarrow> nat \<Rightarrow> bool \<Rightarrow> nat \<Rightarrow> nat \<Rightarrow> 's \<Rightarrow> (nat option \<times> 's) option" where
  "rx_vectors 0 ops rx p buf hdr skip vector_end vh s = None"
| "rx_vectors (Suc fuel) ops rx p buf hdr skip vector_end vh s =
     (case rx_vector ops rx p buf hdr skip vector_end vh s of
        None \<Rightarrow> None
      | Some (VecErr s1) \<Rightarrow> Some (None, s1)
      | Some (VecEnd mark s1) \<Rightarrow> Some (Some mark, s1)
      | Some (VecNext vh1 s1) \<Rightarrow> rx_vectors fuel ops rx p buf hdr skip vector_end vh1 s1)"

text \<open>
  One iteration of the loop over the messages: the next message (\<open>None\<close> after the last one) or the jump
  to \<open>err\<close>.
\<close>

datatype 's msg_result = MsgErr 's | MsgNext "nat option" 's

definition rx_message ::
  "'s mrp_ops \<Rightarrow> 's mrp_rx_ops \<Rightarrow> nat \<Rightarrow> net_rx_desc \<Rightarrow> bool \<Rightarrow> nat \<Rightarrow> 's \<Rightarrow> 's msg_result option" where
  "rx_message ops rx p desc newer_version hdr s =
     (let buf = rx_buf desc; end_p = rx_len desc; app = op_app ops s p; vh = mrp_get_first_vector app hdr
      in do {
        type \<leftarrow> rd buf hdr;
        len \<leftarrow> rd buf (hdr + 1);
        let skip = (\<not> attribute_check rx type len);
        if skip \<and> \<not> newer_version then Some (MsgErr s)
        else do {
          vector_end \<leftarrow>
            (if has_attribute_list_length app
             then do { l0 \<leftarrow> rd buf (hdr + 2); l1 \<leftarrow> rd buf (hdr + 3); Some (vh + unat (from_be16 l0 l1)) }
             else Some end_p);
          if has_attribute_list_length app \<and> skip
          then do { next_hdr \<leftarrow> mrp_get_next_message buf (vector_end - 2) end_p; Some (MsgNext next_hdr s) }
          else if has_attribute_list_length app \<and> vector_end > end_p then Some (MsgErr s)
          else do {
            (mark, s1) \<leftarrow> rx_vectors (end_p + 1) ops rx p buf hdr skip vector_end vh s;
            case mark of
              None \<Rightarrow> Some (MsgErr s1)
            | Some m \<Rightarrow> do { next_hdr \<leftarrow> mrp_get_next_message buf m end_p; Some (MsgNext next_hdr s1) }
          }
        }
      })"

fun rx_messages ::
  "nat \<Rightarrow> 's mrp_ops \<Rightarrow> 's mrp_rx_ops \<Rightarrow> nat \<Rightarrow> net_rx_desc \<Rightarrow> bool \<Rightarrow> nat option \<Rightarrow> 's \<Rightarrow> (int \<times> 's) option" where
  "rx_messages 0 ops rx p desc newer_version hdr s = None"
| "rx_messages (Suc fuel) ops rx p desc newer_version None s = Some (0, s)"
| "rx_messages (Suc fuel) ops rx p desc newer_version (Some hdr) s =
     (case rx_message ops rx p desc newer_version hdr s of
        None \<Rightarrow> None
      | Some (MsgErr s1) \<Rightarrow> Some (-1, s1)
      | Some (MsgNext next_hdr s1) \<Rightarrow> rx_messages fuel ops rx p desc newer_version next_hdr s1)"

definition mrp_process_packet ::
  "'s mrp_ops \<Rightarrow> 's mrp_rx_ops \<Rightarrow> nat \<Rightarrow> net_rx_desc \<Rightarrow> 's \<Rightarrow> (int \<times> 's) option" where
  "mrp_process_packet ops rx p desc s =
     (let buf = rx_buf desc; app = op_app ops s p
      in if \<not> enabled app then Some (-1, s)
         else if rx_l2 desc + 6 > length buf then None
         else if take 6 (drop (rx_l2 desc) buf) \<noteq> dst_mac app then Some (-1, s)
         else
           let s1 = on_app ops p (\<lambda>app. app\<lparr>num_rx_pkts := num_rx_pkts app + 1\<rparr>) s
           in do {
             version \<leftarrow> rd buf (rx_l3 desc);
             if version < proto_version app then Some (-1, s1)
             else rx_messages (rx_len desc + 1) ops rx p desc (version > proto_version app)
                    (mrp_get_first_message app (rx_l3 desc) (rx_len desc)) s1
           })"

subsection \<open>Reception is safe for every packet\<close>

lemma rd_Some: "i < length buf \<Longrightarrow> rd buf i = Some (buf ! i)"
  by (simp add: rd_def)

text \<open>A received LeaveAll frees no attribute of a full participant.\<close>

lemma rla_not_unused:
  assumes "bit_test pt MRP_PARTICIPANT_TYPE_FULL" and "applicant_state st"
  shows "fst (applicant_next pt reg MRP_EVENT_RLA st) \<notin> {MRP_STATE_VO, MRP_STATE_AO, MRP_STATE_QO}"
  using assms by (cases st) (auto simp: applicant_defs applicant_state_def)

lemma lva_one_full:
  assumes p: "mrp_part bytes X app" and a: "attrs app i = Some a" and full: "is_full app"
  shows "attrs (lva_one i app) i \<noteq> None" "attributes (lva_one i app) = attributes app"
    "j \<noteq> i \<Longrightarrow> attrs (lva_one i app) j = attrs app j"
proof -
  let ?pt = "participant_type app"
  let ?a = "a\<lparr>at_registrar := registrar_next ?pt (leave_timeout app) MRP_EVENT_RLA (at_registrar a)\<rparr>"
  have pt: "bit_test ?pt MRP_PARTICIPANT_TYPE_FULL" using full by (simp add: is_full_def)
  have st: "applicant_state (ap_state (at_applicant a))"
    using store_okD(4) [OF mrp_partD(1) [OF p] a] by (simp add: attr_ok_def)
  have nu: "\<not> unused_attr ?pt (applicant_result ?pt MRP_EVENT_RLA ?a)"
    using rla_not_unused [OF pt st] by (simp add: unused_attr_def applicant_result_state)
  then show "attrs (lva_one i app) i \<noteq> None"
    using lva_one_part(4) [OF p a] by (simp add: join_result_def Let_def)
  show "j \<noteq> i \<Longrightarrow> attrs (lva_one i app) j = attrs app j" using lva_one_part(4) [OF p a] by simp
  note r = registrar_step_part [OF p a, where ev = MRP_EVENT_RLA]
  have "attrs (mrp_registrar_step app i MRP_EVENT_RLA) i = Some ?a" using r(3) by simp
  note s = applicant_sm_part [OF r(1) this, where ev = MRP_EVENT_RLA]
  have pe: "participant_type (mrp_registrar_step app i MRP_EVENT_RLA) = ?pt"
    "participant_type (mrp_applicant_sm (mrp_registrar_step app i MRP_EVENT_RLA) i MRP_EVENT_RLA) = ?pt"
    using r(2) s(2) by (simp_all add: mrp_keep_def mrp_frame_def)
  have "attrs (mrp_applicant_sm (mrp_registrar_step app i MRP_EVENT_RLA) i MRP_EVENT_RLA) i =
      Some (applicant_result ?pt MRP_EVENT_RLA ?a)" using s(3) pe by simp
  from free_check_eq [OF this] nu pe have "lva_one i app =
      mrp_applicant_sm (mrp_registrar_step app i MRP_EVENT_RLA) i MRP_EVENT_RLA" by (simp add: lva_one_def)
  then show "attributes (lva_one i app) = attributes app" using s(4) r(5) by simp
qed

lemma next_message_ok:
  assumes "rx_len desc \<le> length (rx_buf desc)"
  shows "\<exists>h. mrp_get_next_message (rx_buf desc) m (rx_len desc) = Some h \<and>
    (\<forall>k. h = Some k \<longrightarrow> k = m + 2 \<and> k + 4 \<le> rx_len desc)"
  using assms by (auto simp: mrp_get_next_message_def Let_def rd_Some)

locale mrp_receiver = mrp_client ops bytes sinv valid
  for ops :: "'s mrp_ops" and bytes :: "mrp_attribute \<Rightarrow> nat \<Rightarrow> u8 list" and sinv :: "'s \<Rightarrow> bool"
    and valid :: "'s \<Rightarrow> nat \<Rightarrow> bool" +
  fixes rx :: "'s mrp_rx_ops"
  assumes full: "sinv s \<Longrightarrow> valid s p \<Longrightarrow> is_full (op_app ops s p)"
    and check_type: "sinv s \<Longrightarrow> valid s p \<Longrightarrow> attribute_check rx type len \<Longrightarrow>
      unat type \<in> set (attr_types (op_app ops s p))"
    and handler_ok: "sinv s \<Longrightarrow> valid s p \<Longrightarrow> attribute_check rx type len \<Longrightarrow>
      off + unat len + event_length rx type n \<le> length buf \<Longrightarrow> \<exists>s'. vector_handler rx s p type buf off n = Some s' \<and>
        sinv s' \<and> valid s' = valid s \<and> enabled (op_app ops s' p) = enabled (op_app ops s p)"
begin

lemma lva_loop_ok:
  assumes "sinv s" and "valid s p" and "enabled (op_app ops s p)" and "t < MRP_MAX_ATTR_TYPE"
    and "attributes (op_app ops s p) ! t = pre @ l" and "length l < fuel"
  shows "\<exists>s'. rx_lva_loop fuel ops p t (first_in l) s = Some s' \<and> good s p s'"
  using assms
proof (induction l arbitrary: s pre fuel)
  case Nil
  then obtain f where "fuel = Suc f" by (cases fuel) auto
  then show ?case using Nil by (simp add: first_in_def good_refl)
next
  case (Cons i l)
  obtain f where f: "fuel = Suc f" "length l < f" using Cons.prems(6) by (cases fuel) auto
  let ?app = "op_app ops s p" and ?s = "on_app ops p (lva_one i) s"
  note inv = app_inv [OF Cons.prems(1-3), unfolded mrp_inv_part]
  note al = attributes_list [OF inv Cons.prems(4)]
  have "i \<in> attr_ids ?app t" using al(2) Cons.prems(5) by auto
  then obtain a where a: "attrs ?app i = Some a" by (auto simp: attr_ids_def)
  note lf = lva_one_full [OF inv a full [OF Cons.prems(1,2)]]
  have g: "good s p ?s"
    using on_app_sinv [OF Cons.prems(1-3), of "lva_one i"] lva_one_part(1,2) [OF inv a] by (simp add: mrp_inv_part)
  have get: "op_app ops ?s p = lva_one i ?app" by (simp add: on_app_get)
  have gd: "sinv ?s" "valid ?s p" "enabled (op_app ops ?s p)" using goodD [OF g Cons.prems(2)] Cons.prems(3) by simp_all
  have "distinct (pre @ i # l)" using al(1) Cons.prems(5) by simp
  then have nx: "succ_in (attributes (op_app ops ?s p) ! t) i = first_in l"
    using Cons.prems(5) lf(2) by (simp add: get succ_in_append)
  have "attributes (op_app ops ?s p) ! t = (pre @ [i]) @ l" using Cons.prems(5) lf(2) by (simp add: get)
  from Cons.IH [OF gd Cons.prems(4) this f(2)] obtain s' where
    "rx_lva_loop f ops p t (first_in l) ?s = Some s'" "good ?s p s'" by blast
  then show ?case
    using good_trans [OF g] nx lf(1) by (simp add: f(1) first_in_def Let_def process_lva get)
qed

lemma rx_leaveall_ok:
  assumes "sinv s" and "valid s p" and "enabled (op_app ops s p)" and "t < MRP_MAX_ATTR_TYPE"
  shows "\<exists>s'. rx_leaveall ops p t s = Some s' \<and> good s p s'"
proof -
  obtain s1 where 1: "rx_lva_loop (length (attributes (op_app ops s p) ! t) + 1) ops p t
      (first_in (attributes (op_app ops s p) ! t)) s = Some s1" "good s p s1"
    using lva_loop_ok [OF assms, of "[]" "attributes (op_app ops s p) ! t"] by auto
  have "good s1 p (mrp_leaveall_sm ops p MRP_EVENT_RLA s1)"
    using timers_sinv(4) goodD [OF 1(2) assms(2)] assms(3) by simp
  with 1 good_trans [OF 1(2)] show ?thesis by (simp add: rx_leaveall_def Let_def)
qed

lemma type_lt: "sinv s \<Longrightarrow> valid s p \<Longrightarrow> enabled (op_app ops s p) \<Longrightarrow> attribute_check rx type len \<Longrightarrow> unat type < MRP_MAX_ATTR_TYPE"
  using check_type [of s p type len] store_okD(1) [OF mrp_partD(1) [OF app_inv [unfolded mrp_inv_part]]]
  by (fastforce simp: attr_types_def)

lemma rx_vector_ok:
  assumes s: "sinv s" "valid s p" "enabled (op_app ops s p)" and hdr: "hdr + 1 < length buf"
    and ve: "vector_end + 2 \<le> length buf" and chk: "skip \<or> attribute_check rx (buf ! hdr) (buf ! (hdr + 1))"
  shows "(\<exists>s1. rx_vector ops rx p buf hdr skip vector_end vh s = Some (VecErr s1) \<and> good s p s1) \<or>
    (\<exists>vh1 s1. rx_vector ops rx p buf hdr skip vector_end vh s \<in> {Some (VecEnd vh1 s1), Some (VecNext vh1 s1)} \<and>
       good s p s1 \<and> vh + 2 \<le> vh1 \<and> vh1 \<le> vector_end)"
proof (cases "vh + 2 > vector_end")
  case True
  then show ?thesis using s(1) by (simp add: rx_vector_def good_refl)
next
  case False
  obtain lva n where h: "mrp_get_vector_header (buf ! vh) (buf ! (vh + 1)) = (lva, n)" by force
  let ?len = "2 + unat (buf ! (hdr + 1)) + event_length rx (buf ! hdr) (unat n)"
  have rds: "rd buf vh = Some (buf ! vh)" "rd buf (vh + 1) = Some (buf ! (vh + 1))" "rd buf hdr = Some (buf ! hdr)"
    "rd buf (hdr + 1) = Some (buf ! (hdr + 1))"
    using False ve hdr by (simp_all add: rd_Some)
  show ?thesis
  proof (cases "vh + ?len > vector_end \<or> \<not> skip \<and> (lva \<noteq> 0 \<and> lva \<noteq> 1 \<or> n = 0 \<and> lva = 0)")
    case True
    then have "rx_vector ops rx p buf hdr skip vector_end vh s = Some (VecErr s)"
      using False unfolding rx_vector_def
      by (simp only: rds h Let_def bind.bind_lunit prod.case if_False simp_thms not_less split: if_split) auto
    then show ?thesis using s(1) by (simp add: good_refl)
  next
    case ok: False
    have "\<exists>s1. (if \<not> skip \<and> lva \<noteq> 0 then rx_leaveall ops p (unat (buf ! hdr)) s else Some s) = Some s1 \<and> good s p s1"
      using rx_leaveall_ok [OF s type_lt [OF s]] chk s(1) by (cases "\<not> skip \<and> lva \<noteq> 0") (auto simp: good_refl)
    then obtain s1 where 1: "(if \<not> skip \<and> lva \<noteq> 0 then rx_leaveall ops p (unat (buf ! hdr)) s else Some s) = Some s1"
      "good s p s1" by blast
    have g1: "sinv s1" "valid s1 p" "enabled (op_app ops s1 p)" using goodD [OF 1(2) s(2)] s(3) by simp_all
    have fit: "vh + 2 + unat (buf ! (hdr + 1)) + event_length rx (buf ! hdr) (unat n) \<le> length buf" using ok ve by auto
    have "\<exists>s2. (if \<not> skip then vector_handler rx s1 p (buf ! hdr) buf (vh + 2) (unat n) else Some s1) = Some s2 \<and> good s1 p s2"
      using handler_ok [OF g1(1,2) _ fit] chk g1(1) by (cases skip) (auto simp: good_def)
    then obtain s2 where 2: "(if \<not> skip then vector_handler rx s1 p (buf ! hdr) buf (vh + 2) (unat n) else Some s1) = Some s2"
      "good s1 p s2" by blast
    have m: "rd buf (vh + ?len) = Some (buf ! (vh + ?len))" "rd buf (vh + ?len + 1) = Some (buf ! (vh + ?len + 1))"
      using ok ve by (auto simp: rd_Some)
    have "rx_vector ops rx p buf hdr skip vector_end vh s =
      Some (if buf ! (vh + ?len) = 0 \<and> buf ! (vh + ?len + 1) = 0 then VecEnd (vh + ?len) s2 else VecNext (vh + ?len) s2)"
      using False ok unfolding rx_vector_def
      by (simp only: rds h Let_def bind.bind_lunit prod.case 1(1) 2(1) m if_False if_True simp_thms not_less split: if_split) auto
    then show ?thesis using good_trans [OF 1(2) 2(2)] ok by (intro disjI2 exI [where x = "vh + ?len"] exI [where x = s2]) auto
  qed
qed

lemma rx_vectors_ok:
  assumes "sinv s" "valid s p" "enabled (op_app ops s p)" and hdr: "hdr + 1 < length buf"
    and ve: "vector_end + 2 \<le> length buf" and chk: "skip \<or> attribute_check rx (buf ! hdr) (buf ! (hdr + 1))"
    and "0 < fuel" and "vector_end < vh + fuel"
  shows "\<exists>r s1. rx_vectors fuel ops rx p buf hdr skip vector_end vh s = Some (r, s1) \<and> good s p s1 \<and>
    (\<forall>m. r = Some m \<longrightarrow> vh + 2 \<le> m \<and> m \<le> vector_end)"
  using assms(1-3,7,8)
proof (induction fuel arbitrary: s vh)
  case (Suc fuel)
  from rx_vector_ok [OF Suc.prems(1-3) hdr ve chk, of vh] consider
      (err) s1 where "rx_vector ops rx p buf hdr skip vector_end vh s = Some (VecErr s1)" "good s p s1"
    | (stop) m s1 where "rx_vector ops rx p buf hdr skip vector_end vh s = Some (VecEnd m s1)" "good s p s1"
        "vh + 2 \<le> m" "m \<le> vector_end"
    | (more) vh1 s1 where "rx_vector ops rx p buf hdr skip vector_end vh s = Some (VecNext vh1 s1)" "good s p s1"
        "vh + 2 \<le> vh1" "vh1 \<le> vector_end" by auto
  then show ?case
  proof cases
    case more
    have g: "sinv s1" "valid s1 p" "enabled (op_app ops s1 p)" using goodD [OF more(2) Suc.prems(2)] Suc.prems(3) by simp_all
    have "0 < fuel" "vector_end < vh1 + fuel" using Suc.prems(5) more(3,4) by simp_all
    from Suc.IH [OF g this] obtain r s2 where
      "rx_vectors fuel ops rx p buf hdr skip vector_end vh1 s1 = Some (r, s2)" "good s1 p s2"
      "\<forall>m. r = Some m \<longrightarrow> vh1 + 2 \<le> m \<and> m \<le> vector_end" by blast
    then show ?thesis using more good_trans [OF more(2)] by auto
  qed auto
qed simp

lemma rx_message_ok:
  assumes s: "sinv s" "valid s p" "enabled (op_app ops s p)" and len: "rx_len desc + 2 \<le> length (rx_buf desc)"
    and hdr: "hdr + 2 \<le> rx_len desc" "has_attribute_list_length (op_app ops s p) \<longrightarrow> hdr + 4 \<le> rx_len desc"
  shows "\<exists>s1. good s p s1 \<and> (rx_message ops rx p desc newer hdr s = Some (MsgErr s1) \<or>
    (\<exists>h. rx_message ops rx p desc newer hdr s = Some (MsgNext h s1) \<and> (\<forall>k. h = Some k \<longrightarrow> hdr < k \<and> k + 4 \<le> rx_len desc)))"
proof -
  let ?buf = "rx_buf desc" and ?app = "op_app ops s p" and ?ep = "rx_len desc"
  let ?skip = "\<not> attribute_check rx (?buf ! hdr) (?buf ! (hdr + 1))" and ?vh = "mrp_get_first_vector ?app hdr"
  have vh: "hdr + 2 \<le> ?vh" by (simp add: mrp_get_first_vector_def)
  have rds: "rd ?buf hdr = Some (?buf ! hdr)" "rd ?buf (hdr + 1) = Some (?buf ! (hdr + 1))"
    using hdr len by (simp_all add: rd_Some)
  obtain ve where ve: "(if has_attribute_list_length ?app
      then do { l0 \<leftarrow> rd ?buf (hdr + 2); l1 \<leftarrow> rd ?buf (hdr + 3); Some (?vh + unat (from_be16 l0 l1)) }
      else Some ?ep) = Some ve" "has_attribute_list_length ?app \<longrightarrow> ?vh \<le> ve" "\<not> has_attribute_list_length ?app \<longrightarrow> ve = ?ep"
    using hdr len by (cases "has_attribute_list_length ?app") (auto simp: rd_Some)
  have vs: "\<exists>r s1. rx_vectors (?ep + 1) ops rx p ?buf hdr ?skip ve ?vh s = Some (r, s1) \<and> good s p s1 \<and>
    (\<forall>m. r = Some m \<longrightarrow> ?vh + 2 \<le> m \<and> m \<le> ve)" if "ve \<le> ?ep"
    by (rule rx_vectors_ok [OF s]) (use that hdr len in auto)
  have nm: "\<exists>h. mrp_get_next_message ?buf m ?ep = Some h \<and> (\<forall>k. h = Some k \<longrightarrow> k = m + 2 \<and> k + 4 \<le> ?ep)" for m
    by (rule next_message_ok) (use len in simp)
  note eq = rx_message_def [of ops rx p desc newer hdr s, unfolded Let_def, unfolded rds bind.bind_lunit, unfolded ve(1) bind.bind_lunit]
  consider (inv) "?skip \<and> \<not> newer" | (skip) "\<not> (?skip \<and> \<not> newer)" "has_attribute_list_length ?app \<and> ?skip"
    | (long) "\<not> (?skip \<and> \<not> newer)" "\<not> (has_attribute_list_length ?app \<and> ?skip)" "has_attribute_list_length ?app \<and> ve > ?ep"
    | (go) "\<not> (?skip \<and> \<not> newer)" "\<not> (has_attribute_list_length ?app \<and> ?skip)" "\<not> (has_attribute_list_length ?app \<and> ve > ?ep)"
    by blast
  then show ?thesis
  proof cases
    case inv
    then show ?thesis using good_refl [OF s(1), of p] unfolding eq by (intro exI [where x = s]) simp
  next
    case skip
    obtain h where "mrp_get_next_message ?buf (ve - 2) ?ep = Some h" "\<forall>k. h = Some k \<longrightarrow> k = ve - 2 + 2 \<and> k + 4 \<le> ?ep"
      using nm by blast
    then show ?thesis using skip good_refl [OF s(1), of p] ve(2) vh unfolding eq by (intro exI [where x = s]) auto
  next
    case long
    then show ?thesis using good_refl [OF s(1), of p] unfolding eq by (intro exI [where x = s]) simp
  next
    case go
    then have "ve \<le> ?ep" using ve(3) by auto
    from vs [OF this] obtain r s1 where r: "rx_vectors (?ep + 1) ops rx p ?buf hdr ?skip ve ?vh s = Some (r, s1)"
      "good s p s1" "\<forall>m. r = Some m \<longrightarrow> ?vh + 2 \<le> m \<and> m \<le> ve" by blast
    note e = eq [unfolded if_not_P [OF go(1)] if_not_P [OF go(2)] if_not_P [OF go(3)] r(1) bind.bind_lunit prod.case]
    show ?thesis
    proof (cases r)
      case None
      then show ?thesis using r(2) unfolding e by (intro exI [where x = s1]) simp
    next
      case (Some m)
      obtain h where "mrp_get_next_message ?buf m ?ep = Some h" "\<forall>k. h = Some k \<longrightarrow> k = m + 2 \<and> k + 4 \<le> ?ep"
        using nm by blast
      then show ?thesis using r(2,3) Some vh unfolding e by (intro exI [where x = s1]) auto
    qed
  qed
qed

lemma rx_messages_ok:
  assumes "sinv s" "valid s p" "enabled (op_app ops s p)" and len: "rx_len desc + 2 \<le> length (rx_buf desc)"
    and "\<forall>k. h = Some k \<longrightarrow> k + 2 \<le> rx_len desc \<and> (has_attribute_list_length (op_app ops s p) \<longrightarrow> k + 4 \<le> rx_len desc) \<and>
      rx_len desc < k + fuel" and "0 < fuel"
  shows "\<exists>rc s1. rx_messages fuel ops rx p desc newer h s = Some (rc, s1) \<and> good s p s1 \<and> rc \<in> {0, -1}"
  using assms(1-3,5,6)
proof (induction fuel arbitrary: s h)
  case (Suc fuel)
  show ?case
  proof (cases h)
    case None
    then show ?thesis using Suc.prems(1) by (simp add: good_refl)
  next
    case (Some hdr)
    then have hd: "hdr + 2 \<le> rx_len desc" "has_attribute_list_length (op_app ops s p) \<longrightarrow> hdr + 4 \<le> rx_len desc"
      "rx_len desc < hdr + Suc fuel" using Suc.prems(4) by simp_all
    obtain s1 where g: "good s p s1" and m: "rx_message ops rx p desc newer hdr s = Some (MsgErr s1) \<or>
      (\<exists>h. rx_message ops rx p desc newer hdr s = Some (MsgNext h s1) \<and> (\<forall>k. h = Some k \<longrightarrow> hdr < k \<and> k + 4 \<le> rx_len desc))"
      using rx_message_ok [OF Suc.prems(1-3) len hd(1,2), of newer] by blast
    from m show ?thesis
    proof (elim disjE exE conjE)
      fix h1 assume h1: "rx_message ops rx p desc newer hdr s = Some (MsgNext h1 s1)"
        "\<forall>k. h1 = Some k \<longrightarrow> hdr < k \<and> k + 4 \<le> rx_len desc"
      have "sinv s1" "valid s1 p" "enabled (op_app ops s1 p)" using goodD [OF g Suc.prems(2)] Suc.prems(3) by simp_all
      moreover have "\<forall>k. h1 = Some k \<longrightarrow> k + 2 \<le> rx_len desc \<and>
          (has_attribute_list_length (op_app ops s1 p) \<longrightarrow> k + 4 \<le> rx_len desc) \<and> rx_len desc < k + fuel"
        using h1(2) hd by auto
      moreover have "0 < fuel" using hd by simp
      ultimately have "\<exists>rc s2. rx_messages fuel ops rx p desc newer h1 s1 = Some (rc, s2) \<and> good s1 p s2 \<and> rc \<in> {0, -1}"
        by (rule Suc.IH)
      then show ?thesis using h1(1) Some good_trans [OF g] by auto
    qed (use g Some in auto)
  qed
qed simp

lemma process_packet_ok:
  assumes s: "sinv s" "valid s p" and len: "rx_len desc + 2 \<le> length (rx_buf desc)"
    and hdrs: "rx_l2 desc + 6 \<le> length (rx_buf desc)" "rx_l3 desc < length (rx_buf desc)"
  shows "\<exists>rc s1. mrp_process_packet ops rx p desc s = Some (rc, s1) \<and> good s p s1 \<and> rc \<in> {0, -1}"
proof (cases "enabled (op_app ops s p) \<and> take 6 (drop (rx_l2 desc) (rx_buf desc)) = dst_mac (op_app ops s p)")
  case False
  then show ?thesis using s hdrs good_refl [OF s(1), of p] by (auto simp: mrp_process_packet_def Let_def)
next
  case True
  let ?f = "\<lambda>app. app\<lparr>num_rx_pkts := num_rx_pkts app + 1\<rparr>"
  let ?s = "on_app ops p ?f s" and ?app = "op_app ops s p"
  have inv: "mrp_part bytes {} ?app" using app_inv [OF s] True by (simp add: mrp_inv_part)
  have "mrp_part bytes {} (?f ?app)"
    by (rule part_field_cong [OF inv]) (simp_all add: store_fields_def tx_fields_def)
  moreover have "mrp_keep ?app (?f ?app)" by (simp add: mrp_keep_defs attr_types_def)
  ultimately have g: "good s p ?s" using on_app_sinv [OF s, of ?f] True by (simp add: mrp_inv_part)
  have gd: "sinv ?s" "valid ?s p" "enabled (op_app ops ?s p)" using goodD [OF g s(2)] True by simp_all
  have ver: "rd (rx_buf desc) (rx_l3 desc) = Some (rx_buf desc ! rx_l3 desc)" using hdrs by (simp add: rd_Some)
  let ?h = "mrp_get_first_message ?app (rx_l3 desc) (rx_len desc)"
  have h: "\<forall>k. ?h = Some k \<longrightarrow> k + 2 \<le> rx_len desc \<and> (has_attribute_list_length (op_app ops ?s p) \<longrightarrow> k + 4 \<le> rx_len desc) \<and>
      rx_len desc < k + (rx_len desc + 1)"
    by (auto simp: mrp_get_first_message_def Let_def on_app_get split: if_splits)
  from rx_messages_ok [OF gd len h] obtain rc s1 where
    "rx_messages (rx_len desc + 1) ops rx p desc (rx_buf desc ! rx_l3 desc > proto_version ?app) ?h ?s = Some (rc, s1)"
    "good ?s p s1" "rc \<in> {0, -1}" by fastforce
  then show ?thesis using True hdrs(1) ver g good_trans [OF g] by (auto simp: mrp_process_packet_def Let_def)
qed

end

end
