(* ===== verification/MVRP.thy ===== *)
theory MVRP
  imports MRP_Rx
begin

section \<open>MVRP and its MAP (\<open>src/srp/mvrp.c\<close>, \<open>src/srp/mvrp_map.c\<close>)\<close>

text \<open>
  The VLAN registration protocol: the VLAN instances of the MAP context, the propagation of
  registrations between ports (\<open>mvrp_map_update_vlan\<close>), the indications that MRP calls, the requests of
  the applications and of the media stack, reception, initialization. The VLAN instances are objects of
  a heap (\<open>vheap\<close>); \<open>vlans\<close> is the list of the single MAP context (\<open>MVRP_MAX_MAP_CONTEXT\<close> is 1). A VLAN
  identifier, which the code keeps in network byte order, is the number it stands for, and \<open>be16\<close> gives
  its bytes. The calls to the bridge's VLAN table and the IPC messages are logged in \<open>fdb_calls\<close> and
  \<open>ipc_sent\<close>; \<open>use_after_free\<close> records a read of a freed VLAN instance.
\<close>

subsection \<open>State\<close>

record mvrp_vlan =
  registered_state :: u16
  declared_state :: u16
  vlan_id :: u16
  user_declared :: u16
  ref_count :: "nat \<Rightarrow> u32"

datatype vlan_call = VlanDelete u16 | VlanUpdate u16 u32 bool

datatype genavb_rc = GENAVB_SUCCESS | GENAVB_ERR_CTRL_LEN | GENAVB_ERR_CTRL_INVALID | GENAVB_ERR_CTRL_FAILED

datatype mvrp_ipc_type = GENAVB_MSG_VLAN_REGISTER | GENAVB_MSG_VLAN_DEREGISTER | GENAVB_MSG_OTHER nat

record mvrp_ipc_desc =
  ipc_type :: mvrp_ipc_type
  ipc_sync :: bool
  ipc_src :: nat
  ipc_len :: nat
  ipc_port :: u16
  ipc_vlan_id :: u16

datatype mvrp_ipc_out =
    VlanResponse bool nat u16 u16 genavb_rc
  | ErrorResponse bool nat mvrp_ipc_type nat genavb_rc

record mvrp_ctx =
  vheap :: "nat \<rightharpoonup> mvrp_vlan"
  next_vlan :: nat
  vlans :: "nat list"
  num_vlans :: u32
  forwarding_state :: u16
  operational_state :: u16
  port_max :: nat
  is_bridge :: bool
  port_app :: "nat \<Rightarrow> mrp_application"
  logical_port :: "nat \<Rightarrow> u32"
  srp_initialized :: "nat \<Rightarrow> bool"
  vlan_malloc :: "nat \<Rightarrow> bool"
  n_vlan_malloc :: nat
  fdb_calls :: "vlan_call list"
  ipc_rx_open :: bool
  ipc_tx_open :: bool
  ipc_tx_sync_open :: bool
  ipc_ok :: "nat \<Rightarrow> bool"
  n_ipc :: nat
  ipc_sent :: "mvrp_ipc_out list"
  use_after_free :: bool

abbreviation CFG_MVRP_MAX_VLANS :: u32 where "CFG_MVRP_MAX_VLANS \<equiv> 32"
abbreviation CFG_MVRP_VID_MIN :: u16 where "CFG_MVRP_VID_MIN \<equiv> 1"
abbreviation CFG_MVRP_VID_MAX :: u16 where "CFG_MVRP_VID_MAX \<equiv> 4094"
abbreviation MVRP_ATTR_TYPE_VID :: nat where "MVRP_ATTR_TYPE_VID \<equiv> 1"
abbreviation MVRP_ATTR_LEN :: nat where "MVRP_ATTR_LEN \<equiv> 2"
abbreviation MRP_PARTICIPANT_TYPE_FULL_POINT_TO_POINT :: u32 where
  "MRP_PARTICIPANT_TYPE_FULL_POINT_TO_POINT \<equiv> 3"

definition get_vlan :: "mvrp_ctx \<Rightarrow> nat \<Rightarrow> mvrp_vlan" where
  "get_vlan s v = the (vheap s v)"

definition upd_vlan :: "mvrp_ctx \<Rightarrow> nat \<Rightarrow> (mvrp_vlan \<Rightarrow> mvrp_vlan) \<Rightarrow> mvrp_ctx" where
  "upd_vlan s v f = s\<lparr>vheap := (vheap s)(v \<mapsto> f (get_vlan s v))\<rparr>"

definition set_port :: "mvrp_ctx \<Rightarrow> nat \<Rightarrow> mrp_application \<Rightarrow> mvrp_ctx" where
  "set_port s p app = s\<lparr>port_app := (port_app s)(p := app)\<rparr>"

subsection \<open>Ports and port masks\<close>

definition logical_to_mvrp_port :: "mvrp_ctx \<Rightarrow> u32 \<Rightarrow> nat option" where
  "logical_to_mvrp_port s l =
     (case find (\<lambda>i. logical_port s i = l) [0..<port_max s] of
        None \<Rightarrow> None
      | Some i \<Rightarrow> if srp_initialized s i then Some i else None)"

definition mvrp_is_operational :: "mvrp_ctx \<Rightarrow> nat \<Rightarrow> bool" where
  "mvrp_is_operational s p = bit (operational_state s) p"

definition mask_update :: "u16 \<Rightarrow> nat \<Rightarrow> bool \<Rightarrow> u16" where
  "mask_update m p state = (if state then set_bit p m else unset_bit p m)"

definition mvrp_update_operational_state :: "mvrp_ctx \<Rightarrow> nat \<Rightarrow> bool \<Rightarrow> mvrp_ctx" where
  "mvrp_update_operational_state s p state = s\<lparr>operational_state := mask_update (operational_state s) p state\<rparr>"

definition is_vlan_declared :: "mvrp_vlan \<Rightarrow> nat \<Rightarrow> bool" where
  "is_vlan_declared vlan p = bit (declared_state vlan) p"

definition is_vlan_registered_any :: "mvrp_vlan \<Rightarrow> bool" where
  "is_vlan_registered_any vlan \<longleftrightarrow> registered_state vlan \<noteq> 0"

definition is_vlan_user_declared :: "mvrp_vlan \<Rightarrow> nat \<Rightarrow> bool" where
  "is_vlan_user_declared vlan p = bit (user_declared vlan) p"

definition is_vlan_user_declared_any :: "mvrp_vlan \<Rightarrow> bool" where
  "is_vlan_user_declared_any vlan \<longleftrightarrow> user_declared vlan \<noteq> 0"

definition is_vlan_registered_other_forwarding :: "mvrp_ctx \<Rightarrow> mvrp_vlan \<Rightarrow> nat \<Rightarrow> bool" where
  "is_vlan_registered_other_forwarding s vlan p \<longleftrightarrow>
     unset_bit p (and (registered_state vlan) (forwarding_state s)) \<noteq> 0"

definition is_mvrp_port_forwarding :: "mvrp_ctx \<Rightarrow> nat \<Rightarrow> bool" where
  "is_mvrp_port_forwarding s p = bit (forwarding_state s) p"

definition vlan_user_declaration_clear :: "nat \<Rightarrow> mvrp_vlan \<Rightarrow> mvrp_vlan" where
  "vlan_user_declaration_clear p vlan = vlan\<lparr>user_declared := unset_bit p (user_declared vlan)\<rparr>"

definition vlan_user_declaration_set :: "nat \<Rightarrow> mvrp_vlan \<Rightarrow> mvrp_vlan" where
  "vlan_user_declaration_set p vlan = vlan\<lparr>user_declared := set_bit p (user_declared vlan)\<rparr>"

definition vlan_registered_clear :: "nat \<Rightarrow> mvrp_vlan \<Rightarrow> mvrp_vlan" where
  "vlan_registered_clear p vlan = vlan\<lparr>registered_state := unset_bit p (registered_state vlan)\<rparr>"

definition vlan_registered_set :: "nat \<Rightarrow> mvrp_vlan \<Rightarrow> mvrp_vlan" where
  "vlan_registered_set p vlan = vlan\<lparr>registered_state := set_bit p (registered_state vlan)\<rparr>"

definition vlan_declared_clear :: "nat \<Rightarrow> mvrp_vlan \<Rightarrow> mvrp_vlan" where
  "vlan_declared_clear p vlan = vlan\<lparr>declared_state := unset_bit p (declared_state vlan)\<rparr>"

definition vlan_declared_set :: "nat \<Rightarrow> mvrp_vlan \<Rightarrow> mvrp_vlan" where
  "vlan_declared_set p vlan = vlan\<lparr>declared_state := set_bit p (declared_state vlan)\<rparr>"

subsection \<open>VLAN instances\<close>

definition mvrp_find_vlan :: "mvrp_ctx \<Rightarrow> u16 \<Rightarrow> nat option" where
  "mvrp_find_vlan s vid = find (\<lambda>v. vlan_id (get_vlan s v) = vid) (vlans s)"

definition mvrp_create_vlan :: "mvrp_ctx \<Rightarrow> u16 \<Rightarrow> nat option \<times> mvrp_ctx" where
  "mvrp_create_vlan s vid =
     (case mvrp_find_vlan s vid of
        Some v \<Rightarrow> (Some v, s)
      | None \<Rightarrow>
          if \<not> num_vlans s < CFG_MVRP_MAX_VLANS then (None, s)
          else if vid < CFG_MVRP_VID_MIN \<or> vid > CFG_MVRP_VID_MAX then (None, s)
          else
            let s0 = s\<lparr>n_vlan_malloc := n_vlan_malloc s + 1\<rparr>; v = next_vlan s
            in if \<not> vlan_malloc s (n_vlan_malloc s) then (None, s0)
               else (Some v, s0\<lparr>vheap := (vheap s)(v \<mapsto> \<lparr>registered_state = 0, declared_state = 0, vlan_id = vid,
                       user_declared = 0, ref_count = (\<lambda>_. 0)\<rparr>),
                     next_vlan := v + 1, vlans := v # vlans s, num_vlans := num_vlans s + 1\<rparr>))"

definition mvrp_free_vlan :: "mvrp_ctx \<Rightarrow> nat \<Rightarrow> mvrp_ctx" where
  "mvrp_free_vlan s v =
     s\<lparr>vlans := remove1 v (vlans s), num_vlans := num_vlans s - 1,
       fdb_calls := (if is_bridge s then fdb_calls s @ [VlanDelete (vlan_id (get_vlan s v))] else fdb_calls s),
       vheap := (vheap s)(v := None)\<rparr>"

subsection \<open>MAP\<close>

definition map_leave :: "nat \<Rightarrow> nat \<Rightarrow> mvrp_ctx \<Rightarrow> mvrp_ctx" where
  "map_leave v i s =
     upd_vlan (set_port s i (mrp_mad_leave_request (port_app s i) MVRP_ATTR_TYPE_VID (be16 (vlan_id (get_vlan s v))))) v
       (vlan_declared_clear i)"

definition map_join :: "nat \<Rightarrow> bool \<Rightarrow> nat \<Rightarrow> mvrp_ctx \<Rightarrow> mvrp_ctx" where
  "map_join v new i s =
     (case mrp_mad_join_request (port_app s i) MVRP_ATTR_TYPE_VID (be16 (vlan_id (get_vlan s v))) new of
        (None, app) \<Rightarrow> set_port s i app
      | (Some _, app) \<Rightarrow> upd_vlan (set_port s i app) v (vlan_declared_set i))"

definition map_update_port :: "nat \<Rightarrow> bool \<Rightarrow> nat \<Rightarrow> mvrp_ctx \<Rightarrow> mvrp_ctx" where
  "map_update_port v new i s =
     (let vlan = get_vlan s v
      in if \<not> is_mvrp_port_forwarding s i then
           if is_vlan_declared vlan i then map_leave v i s else s
         else if is_vlan_registered_other_forwarding s vlan i \<or> is_vlan_user_declared vlan i then
           if \<not> is_vlan_declared vlan i then map_join v new i s else s
         else if is_vlan_declared vlan i then map_leave v i s else s)"

definition mvrp_map_update_vlan :: "mvrp_ctx \<Rightarrow> nat \<Rightarrow> bool \<Rightarrow> mvrp_ctx" where
  "mvrp_map_update_vlan s v new =
     (let s1 = fold (map_update_port v new) [0..<port_max s] s; vlan = get_vlan s1 v
      in if \<not> is_vlan_registered_any vlan \<and> \<not> is_vlan_user_declared_any vlan then mvrp_free_vlan s1 v else s1)"

definition mvrp_map_update :: "mvrp_ctx \<Rightarrow> mvrp_ctx" where
  "mvrp_map_update s = fold (\<lambda>v s. mvrp_map_update_vlan s v False) (vlans s) s"

definition mvrp_update_forwarding_state :: "mvrp_ctx \<Rightarrow> nat \<Rightarrow> bool \<Rightarrow> mvrp_ctx" where
  "mvrp_update_forwarding_state s p state =
     mvrp_map_update (s\<lparr>forwarding_state := mask_update (forwarding_state s) p state\<rparr>)"

definition mvrp_port_status :: "mvrp_ctx \<Rightarrow> u32 \<Rightarrow> bool \<Rightarrow> mvrp_ctx" where
  "mvrp_port_status s l operational =
     (case logical_to_mvrp_port s l of
        None \<Rightarrow> s
      | Some p \<Rightarrow> mvrp_update_forwarding_state (mvrp_update_operational_state s p operational) p operational)"

definition mvrp_map_init :: "mvrp_ctx \<Rightarrow> mvrp_ctx" where
  "mvrp_map_init s = s\<lparr>vlans := [], num_vlans := 0, forwarding_state := 0\<rparr>"

definition mvrp_map_exit :: "mvrp_ctx \<Rightarrow> mvrp_ctx" where
  "mvrp_map_exit s =
     fold (\<lambda>v s. mvrp_free_vlan
       (fold (\<lambda>j s. if is_vlan_declared (get_vlan s v) j then map_leave v j s else s) [0..<port_max s] s) v) (vlans s) s"

subsection \<open>Requests\<close>

definition mvrp_register_vlan_member :: "mvrp_ctx \<Rightarrow> u32 \<Rightarrow> u16 \<Rightarrow> genavb_rc \<times> mvrp_ctx" where
  "mvrp_register_vlan_member s l vid =
     (case logical_to_mvrp_port s l of
        None \<Rightarrow> (GENAVB_ERR_CTRL_INVALID, s)
      | Some p \<Rightarrow>
          let (r, s1, new) = (case mvrp_find_vlan s vid of
                                Some v \<Rightarrow> (Some v, s, False)
                              | None \<Rightarrow> case mvrp_create_vlan s vid of (r, s1) \<Rightarrow> (r, s1, True))
          in case r of
               None \<Rightarrow> (GENAVB_ERR_CTRL_FAILED, s1)
             | Some v \<Rightarrow>
                 let s2 = (if ref_count (get_vlan s1 v) p = 0
                           then mvrp_map_update_vlan (upd_vlan s1 v (vlan_user_declaration_set p)) v new else s1)
                 in (GENAVB_SUCCESS, upd_vlan s2 v
                       (\<lambda>vlan. vlan\<lparr>ref_count := (ref_count vlan)(p := ref_count vlan p + 1)\<rparr>)))"

definition mvrp_deregister_vlan_member :: "mvrp_ctx \<Rightarrow> u32 \<Rightarrow> u16 \<Rightarrow> genavb_rc \<times> mvrp_ctx" where
  "mvrp_deregister_vlan_member s l vid =
     (case logical_to_mvrp_port s l of
        None \<Rightarrow> (GENAVB_ERR_CTRL_INVALID, s)
      | Some p \<Rightarrow>
          (case mvrp_find_vlan s vid of
             None \<Rightarrow> (GENAVB_SUCCESS, s)
           | Some v \<Rightarrow>
               let s1 = (if ref_count (get_vlan s v) p \<noteq> 0
                         then upd_vlan s v (\<lambda>vlan. vlan\<lparr>ref_count := (ref_count vlan)(p := ref_count vlan p - 1)\<rparr>) else s)
               in (GENAVB_SUCCESS,
                   if ref_count (get_vlan s1 v) p = 0
                   then mvrp_map_update_vlan (upd_vlan s1 v (vlan_user_declaration_clear p)) v False else s1)))"

subsection \<open>Indications\<close>

definition attr_vid :: "mrp_attribute \<Rightarrow> u16" where
  "attr_vid a = from_be16 (at_val a ! 0) (at_val a ! 1)"

definition mvrp_join_indication :: "mvrp_ctx \<Rightarrow> nat \<Rightarrow> nat \<Rightarrow> bool \<Rightarrow> mvrp_ctx" where
  "mvrp_join_indication s p i new =
     (let vid = attr_vid (get_attr (port_app s p) i)
      in case (case mvrp_find_vlan s vid of Some v \<Rightarrow> (Some v, s) | None \<Rightarrow> mvrp_create_vlan s vid) of
           (None, s1) \<Rightarrow> s1
         | (Some v, s1) \<Rightarrow>
             let s2 = mvrp_map_update_vlan (upd_vlan s1 v (vlan_registered_set p)) v new
             in if is_bridge s2
                then s2\<lparr>fdb_calls := fdb_calls s2 @ [VlanUpdate (vlan_id (get_vlan s2 v)) (logical_port s2 p) True]\<rparr>
                else s2)"

text \<open>
  The bridge reads \<open>vlan->vlan_id\<close> after \<open>mvrp_map_update_vlan\<close>, which may have freed \<open>vlan\<close>.
\<close>

definition mvrp_leave_indication :: "mvrp_ctx \<Rightarrow> nat \<Rightarrow> nat \<Rightarrow> mvrp_ctx" where
  "mvrp_leave_indication s p i =
     (case mvrp_find_vlan s (attr_vid (get_attr (port_app s p) i)) of
        None \<Rightarrow> s
      | Some v \<Rightarrow>
          let s1 = mvrp_map_update_vlan (upd_vlan s v (vlan_registered_clear p)) v False
          in if is_bridge s1
             then (case vheap s1 v of
                     None \<Rightarrow> s1\<lparr>use_after_free := True\<rparr>
                   | Some vlan \<Rightarrow> s1\<lparr>fdb_calls := fdb_calls s1 @ [VlanUpdate (vlan_id vlan) (logical_port s1 p) False]\<rparr>)
             else s1)"

definition mvrp_ops :: "mvrp_ctx mrp_ops" where
  "mvrp_ops = \<lparr>op_app = port_app, op_set_app = set_port,
     mad_join_indication = mvrp_join_indication, mad_leave_indication = mvrp_leave_indication\<rparr>"

subsection \<open>Reception\<close>

definition mvrp_attribute_check :: "u8 \<Rightarrow> u8 \<Rightarrow> bool" where
  "mvrp_attribute_check type len \<longleftrightarrow> type = 1 \<and> len = 2"

definition mvrp_event_length :: "u8 \<Rightarrow> nat \<Rightarrow> nat" where
  "mvrp_event_length type number_of_values = (number_of_values + 2) div 3"

definition mvrp_increment :: "u16 \<Rightarrow> u16" where
  "mvrp_increment vid = vid + 1"

text \<open>
  The loop of \<open>mvrp_vector_handler\<close> from value \<open>i\<close> on: \<open>vid\<close> is the first value, which the code increments in
  the packet, \<open>event\<close> the last three unpacked events.
\<close>

fun vector_values :: "nat \<Rightarrow> nat \<Rightarrow> u8 list \<Rightarrow> nat \<Rightarrow> nat \<Rightarrow> u16 \<Rightarrow> u32 list \<Rightarrow> mvrp_ctx \<Rightarrow> mvrp_ctx option" where
  "vector_values 0 p buf events i vid event s = Some s"
| "vector_values (Suc n) p buf events i vid event s =
     (case (if i mod 3 = 0 then map_option mrp_get_three_packed_event (rd buf (events + i div 3)) else Some event) of
        None \<Rightarrow> None
      | Some event1 \<Rightarrow>
          vector_values n p buf events (i + 1) (mvrp_increment vid) event1
            (snd (mrp_process_attribute mvrp_ops p MVRP_ATTR_TYPE_VID (be16 vid) (unat (event1 ! (i mod 3))) s)))"

definition mvrp_vector_handler :: "mvrp_ctx \<Rightarrow> nat \<Rightarrow> u8 \<Rightarrow> u8 list \<Rightarrow> nat \<Rightarrow> nat \<Rightarrow> mvrp_ctx option" where
  "mvrp_vector_handler s p type buf off n =
     (if n = 0 then Some s
      else do {
        b0 \<leftarrow> rd buf off;
        b1 \<leftarrow> rd buf (off + 1);
        vector_values n p buf (off + MVRP_ATTR_LEN) 0 (from_be16 b0 b1) [] s
      })"

definition mvrp_rx_ops :: "mvrp_ctx mrp_rx_ops" where
  "mvrp_rx_ops = \<lparr>attribute_check = mvrp_attribute_check, event_length = mvrp_event_length,
     vector_handler = mvrp_vector_handler\<rparr>"

definition mvrp_process_packet :: "mvrp_ctx \<Rightarrow> nat \<Rightarrow> net_rx_desc \<Rightarrow> (int \<times> mvrp_ctx) option" where
  "mvrp_process_packet s p desc =
     (if p \<ge> port_max s then Some (-1, s)
      else if \<not> mvrp_is_operational s p then Some (-1, s)
      else mrp_process_packet mvrp_ops mvrp_rx_ops p desc s)"

subsection \<open>Media stack requests\<close>

text \<open>\<open>ipc_ok\<close> tells whether \<open>ipc_alloc\<close> and \<open>ipc_tx\<close> succeed.\<close>

definition ipc_send :: "mvrp_ipc_out \<Rightarrow> mvrp_ctx \<Rightarrow> mvrp_ctx" where
  "ipc_send m s = s\<lparr>n_ipc := n_ipc s + 1, ipc_sent := (if ipc_ok s (n_ipc s) then ipc_sent s @ [m] else ipc_sent s)\<rparr>"

definition mvrp_ipc_vlan_response :: "mvrp_ctx \<Rightarrow> bool \<Rightarrow> nat \<Rightarrow> u16 \<Rightarrow> u16 \<Rightarrow> genavb_rc \<Rightarrow> mvrp_ctx" where
  "mvrp_ipc_vlan_response s sync dst port vid status = ipc_send (VlanResponse sync dst port vid status) s"

definition mvrp_ipc_error_response :: "mvrp_ctx \<Rightarrow> bool \<Rightarrow> nat \<Rightarrow> mvrp_ipc_type \<Rightarrow> nat \<Rightarrow> genavb_rc \<Rightarrow> mvrp_ctx" where
  "mvrp_ipc_error_response s sync dst type len status = ipc_send (ErrorResponse sync dst type len status) s"

definition mvrp_ipc_rx :: "mvrp_ctx \<Rightarrow> mvrp_ipc_desc \<Rightarrow> mvrp_ctx" where
  "mvrp_ipc_rx s desc =
     (let err = (\<lambda>status. mvrp_ipc_error_response s (ipc_sync desc) (ipc_src desc) (ipc_type desc) (ipc_len desc) status)
      in case ipc_type desc of
           GENAVB_MSG_VLAN_REGISTER \<Rightarrow>
             if ipc_len desc \<noteq> 4 then err GENAVB_ERR_CTRL_LEN
             else (case mvrp_register_vlan_member s (ucast (ipc_port desc)) (ipc_vlan_id desc) of (status, s1) \<Rightarrow>
                     mvrp_ipc_vlan_response s1 (ipc_sync desc) (ipc_src desc) (ipc_port desc) (ipc_vlan_id desc) status)
         | GENAVB_MSG_VLAN_DEREGISTER \<Rightarrow>
             if ipc_len desc \<noteq> 4 then err GENAVB_ERR_CTRL_LEN
             else (case mvrp_deregister_vlan_member s (ucast (ipc_port desc)) (ipc_vlan_id desc) of (status, s1) \<Rightarrow>
                     mvrp_ipc_vlan_response s1 (ipc_sync desc) (ipc_src desc) (ipc_port desc) (ipc_vlan_id desc) status)
         | GENAVB_MSG_OTHER _ \<Rightarrow> err GENAVB_ERR_CTRL_INVALID)"

subsection \<open>Initialization\<close>

text \<open>
  \<open>net_multi\<close> tells whether \<open>net_add_multi\<close> succeeds on a port; \<open>ipc_init\<close> whether each of the three IPC
  channels opens.
\<close>

record mvrp_config =
  cfg_is_bridge :: bool
  cfg_port_max :: nat
  cfg_logical_port_list :: "nat \<Rightarrow> u32"
  net_multi :: "nat \<Rightarrow> bool"
  ipc_init :: "nat \<Rightarrow> bool"

definition mvrp_port_config :: "mrp_application \<Rightarrow> mrp_application" where
  "mvrp_port_config app =
     app\<lparr>attribute_length := (\<lambda>_. MVRP_ATTR_LEN), attribute_value_length := (\<lambda>_. 2),
         vector_add_event := (\<lambda>a. mrp_vector_add_event), dst_mac := [0x01, 0x80, 0xC2, 0, 0, 0x21],
         ethertype := 0x88F5, min_attr_type := MVRP_ATTR_TYPE_VID, max_attr_type := MVRP_ATTR_TYPE_VID,
         proto_version := 0, has_attribute_list_length := False\<rparr>"

definition mvrp_port_init :: "mvrp_ctx \<Rightarrow> nat \<Rightarrow> mvrp_config \<Rightarrow> int \<times> mvrp_ctx" where
  "mvrp_port_init s p cfg =
     (let s1 = set_port (s\<lparr>logical_port := (logical_port s)(p := cfg_logical_port_list cfg p)\<rparr>) p
                 (mvrp_port_config (port_app s p))
      in if \<not> srp_initialized s1 p then (0, s1)
         else case mrp_init (port_app s1 p) APP_MVRP MRP_PARTICIPANT_TYPE_FULL_POINT_TO_POINT of
                (rc, app) \<Rightarrow>
                  if rc < 0 then (-1, set_port s1 p app)
                  else if \<not> net_multi cfg p then (-1, set_port s1 p (mrp_exit app))
                  else (0, set_port s1 p app))"

definition mvrp_port_exit :: "nat \<Rightarrow> mvrp_ctx \<Rightarrow> mvrp_ctx" where
  "mvrp_port_exit p s = (if \<not> srp_initialized s p then s else set_port s p (mrp_exit (port_app s p)))"

fun init_ports :: "mvrp_config \<Rightarrow> nat list \<Rightarrow> mvrp_ctx \<Rightarrow> nat option \<times> mvrp_ctx" where
  "init_ports cfg [] s = (None, s)"
| "init_ports cfg (p # ps) s =
     (case mvrp_port_init s p cfg of (rc, s1) \<Rightarrow> if rc < 0 then (Some p, s1) else init_ports cfg ps s1)"

definition mvrp_init :: "mvrp_ctx \<Rightarrow> mvrp_config \<Rightarrow> int \<times> mvrp_ctx" where
  "mvrp_init s cfg =
     (let s1 = s\<lparr>port_max := cfg_port_max cfg, is_bridge := cfg_is_bridge cfg\<rparr>
      in if \<not> ipc_init cfg 0 then (-1, s1)
         else if \<not> ipc_init cfg 1 then (-1, s1\<lparr>ipc_rx_open := False\<rparr>)
         else if \<not> ipc_init cfg 2 then (-1, s1\<lparr>ipc_rx_open := False, ipc_tx_open := False\<rparr>)
         else
           let s2 = mvrp_map_init (s1\<lparr>ipc_rx_open := True, ipc_tx_open := True, ipc_tx_sync_open := True\<rparr>)
           in case init_ports cfg [0..<port_max s2] s2 of
                (None, s3) \<Rightarrow> (0, s3)
              | (Some i, s3) \<Rightarrow> (-1, (fold mvrp_port_exit [0..<i] s3)\<lparr>ipc_tx_open := False, ipc_rx_open := False\<rparr>))"

definition mvrp_exit :: "mvrp_ctx \<Rightarrow> mvrp_ctx" where
  "mvrp_exit s =
     (mvrp_map_exit (fold mvrp_port_exit [0..<port_max s] s))
       \<lparr>ipc_tx_sync_open := False, ipc_tx_open := False, ipc_rx_open := False\<rparr>"

end
