(* ===== verification/MVRP_Proofs.thy ===== *)
theory MVRP_Proofs
  imports MVRP
begin

section \<open>MVRP propagates registrations as 802.1Q prescribes\<close>

text \<open>
  The invariant of the MVRP context ties the MAP to MRP: the declared mask of a VLAN instance has a
  bit exactly where the port's MRP application declares that VLAN, and it never has a bit where 802.1Q
  10.3 forbids a declaration (\<open>vlan_want\<close>). It is kept by every operation, MRP's indications
  included, which makes MVRP an \<open>mrp_receiver\<close> client of MRP.
\<close>

subsection \<open>Invariant\<close>

definition vlan_want :: "mvrp_ctx \<Rightarrow> mvrp_vlan \<Rightarrow> nat \<Rightarrow> bool" where
  "vlan_want s vlan p \<longleftrightarrow> is_mvrp_port_forwarding s p \<and>
     (is_vlan_registered_other_forwarding s vlan p \<or> is_vlan_user_declared vlan p)"

definition mvrp_cfg :: "mrp_application \<Rightarrow> bool" where
  "mvrp_cfg app \<longleftrightarrow> attr_types app = [MVRP_ATTR_TYPE_VID] \<and> attribute_value_length app = (\<lambda>_. 2) \<and> is_full app"

definition port_good :: "mvrp_ctx \<Rightarrow> nat \<Rightarrow> mrp_application \<Rightarrow> bool" where
  "port_good s p app \<longleftrightarrow>
     (if srp_initialized s p then mrp_inv three_bytes app \<and> enabled app \<and> mvrp_cfg app
      else \<not> enabled app \<and> attrs app = Map.empty)"

definition mem_ok :: "mvrp_ctx \<Rightarrow> bool" where
  "mem_ok s \<longleftrightarrow> (\<forall>p < port_max s. \<forall>n. malloc_ok (port_app s p) n)"

definition heap_ok :: "mvrp_ctx \<Rightarrow> bool" where
  "heap_ok s \<longleftrightarrow> distinct (vlans s) \<and> set (vlans s) = dom (vheap s) \<and> (\<forall>v\<in>dom (vheap s). v < next_vlan s) \<and>
     (\<forall>v w a b. vheap s v = Some a \<longrightarrow> vheap s w = Some b \<longrightarrow> vlan_id a = vlan_id b \<longrightarrow> v = w) \<and>
     (\<forall>v a. vheap s v = Some a \<longrightarrow> CFG_MVRP_VID_MIN \<le> vlan_id a \<and> vlan_id a \<le> CFG_MVRP_VID_MAX \<and>
        (\<forall>p. ref_count a p \<noteq> 0 \<longrightarrow> is_vlan_user_declared a p)) \<and>
     num_vlans s = of_nat (length (vlans s)) \<and> length (vlans s) \<le> 32"

definition vlan_ok :: "mvrp_ctx \<Rightarrow> mvrp_vlan \<Rightarrow> bool" where
  "vlan_ok s a \<longleftrightarrow> (\<forall>p. is_vlan_declared a p \<longrightarrow> vlan_want s a p) \<and>
     (mem_ok s \<longrightarrow> (\<forall>p < port_max s. vlan_want s a p \<and> enabled (port_app s p) \<longrightarrow> is_vlan_declared a p)) \<and>
     (is_vlan_registered_any a \<or> is_vlan_user_declared_any a)"

definition sync_ok :: "mvrp_ctx \<Rightarrow> bool" where
  "sync_ok s \<longleftrightarrow> (\<forall>v a p. vheap s v = Some a \<longrightarrow> is_vlan_declared a p \<longrightarrow> p < port_max s) \<and>
     (\<forall>p < port_max s. declares (port_app s p) =
       {(MVRP_ATTR_TYPE_VID, be16 (vlan_id a)) | v a. vheap s v = Some a \<and> is_vlan_declared a p})"

definition ports_ok :: "mvrp_ctx \<Rightarrow> bool" where
  "ports_ok s \<longleftrightarrow> port_max s \<le> 16 \<and> (\<forall>p < port_max s. port_good s p (port_app s p))"

text \<open>While the MAP is being updated, the VLANs of \<open>V\<close> are those not yet done.\<close>

definition mvrp_mid :: "mvrp_ctx \<Rightarrow> nat set \<Rightarrow> bool" where
  "mvrp_mid s V \<longleftrightarrow> heap_ok s \<and> ports_ok s \<and> sync_ok s \<and> (\<forall>w a. w \<notin> V \<longrightarrow> vheap s w = Some a \<longrightarrow> vlan_ok s a)"

definition mvrp_inv :: "mvrp_ctx \<Rightarrow> bool" where
  "mvrp_inv s \<longleftrightarrow> mvrp_mid s {}"

lemma be16_inj: "be16 a = be16 b \<Longrightarrow> a = b"
  by (metis from_be16_be16)

lemma heap_okD:
  assumes "heap_ok s"
  shows "distinct (vlans s)" "set (vlans s) = dom (vheap s)" "vheap s v = Some a \<Longrightarrow> v < next_vlan s"
    "vheap s v = Some a \<Longrightarrow> vheap s w = Some b \<Longrightarrow> vlan_id a = vlan_id b \<Longrightarrow> v = w"
    "vheap s v = Some a \<Longrightarrow> CFG_MVRP_VID_MIN \<le> vlan_id a \<and> vlan_id a \<le> CFG_MVRP_VID_MAX \<and>
      (\<forall>p. ref_count a p \<noteq> 0 \<longrightarrow> is_vlan_user_declared a p)"
    "num_vlans s = of_nat (length (vlans s))" "length (vlans s) \<le> 32"
  using assms unfolding heap_ok_def by blast+

lemma heap_okI:
  assumes "distinct (vlans s)" "set (vlans s) = dom (vheap s)" "\<And>v a. vheap s v = Some a \<Longrightarrow> v < next_vlan s"
    "\<And>v w a b. vheap s v = Some a \<Longrightarrow> vheap s w = Some b \<Longrightarrow> vlan_id a = vlan_id b \<Longrightarrow> v = w"
    "\<And>v a. vheap s v = Some a \<Longrightarrow> CFG_MVRP_VID_MIN \<le> vlan_id a \<and> vlan_id a \<le> CFG_MVRP_VID_MAX"
    "\<And>v a p. vheap s v = Some a \<Longrightarrow> ref_count a p \<noteq> 0 \<Longrightarrow> is_vlan_user_declared a p"
    "num_vlans s = of_nat (length (vlans s))" "length (vlans s) \<le> 32"
  shows "heap_ok s"
  using assms unfolding heap_ok_def dom_def by blast

lemma cfg_frame: "mrp_frame app app' \<Longrightarrow> mvrp_cfg app' = mvrp_cfg app"
  by (simp add: mvrp_cfg_def mrp_frame_def is_full_def)

lemma off_declares: "attrs app = Map.empty \<Longrightarrow> declares app = {}"
  by (simp add: declares_def)

lemma port_good_off: "port_good s p app \<Longrightarrow> \<not> enabled app \<Longrightarrow> attrs app = Map.empty"
  by (auto simp: port_good_def split: if_splits)

lemma port_good_on:
  "port_good s p app \<Longrightarrow> enabled app \<Longrightarrow> srp_initialized s p \<and> mrp_inv three_bytes app \<and> mvrp_cfg app"
  by (auto simp: port_good_def split: if_splits)

subsection \<open>One port\<close>

text \<open>
  What the MAP leaves for port \<open>p\<close> of a VLAN: its bit, and the port's application, which declares the VLAN
  exactly when the bit is set, with the other declarations unchanged.
\<close>

definition port_done :: "mvrp_ctx \<Rightarrow> mvrp_vlan \<Rightarrow> nat \<Rightarrow> u16 \<Rightarrow> mrp_application \<Rightarrow> bool" where
  "port_done s a p d app \<longleftrightarrow> port_good s p app \<and> mrp_frame (port_app s p) app \<and>
     (bit d p \<longrightarrow> vlan_want s a p) \<and>
     ((\<forall>n. malloc_ok (port_app s p) n) \<and> vlan_want s a p \<and> enabled app \<longrightarrow> bit d p) \<and>
     declares app = (declares (port_app s p) - {(MVRP_ATTR_TYPE_VID, be16 (vlan_id a))}) \<union>
       (if bit d p then {(MVRP_ATTR_TYPE_VID, be16 (vlan_id a))} else {}) \<and>
     ((is_vlan_declared a p \<longrightarrow> vlan_want s a p) \<longrightarrow> (\<forall>j. attrs (port_app s p) j \<noteq> None \<longrightarrow> attrs app j \<noteq> None))"

lemma map_join_done:
  assumes v: "vheap s v = Some a" and g: "port_good s p (port_app s p)" and p: "p < 16"
    and want: "vlan_want s a p" and nd: "\<not> is_vlan_declared a p"
    and sy: "(MVRP_ATTR_TYPE_VID, be16 (vlan_id a)) \<notin> declares (port_app s p)"
  shows "\<exists>d app. map_join v new p s = s\<lparr>vheap := (vheap s)(v \<mapsto> a\<lparr>declared_state := d\<rparr>), port_app := (port_app s)(p := app)\<rparr> \<and>
    (\<forall>q. q \<noteq> p \<longrightarrow> bit d q = bit (declared_state a) q) \<and> port_done s a p d app"
proof -
  have gv: "get_vlan s v = a" using v by (simp add: get_vlan_def)
  obtain r app where j: "mrp_mad_join_request (port_app s p) MVRP_ATTR_TYPE_VID (be16 (vlan_id a)) new = (r, app)" by force
  have nb: "\<not> bit (declared_state a) p" using nd by (simp add: is_vlan_declared_def)
  have same: "map_join v new p s = s\<lparr>vheap := (vheap s)(v \<mapsto> a\<lparr>declared_state := declared_state a\<rparr>), port_app := (port_app s)(p := app)\<rparr>"
    if "r = None" using that j v by (simp add: map_join_def gv set_port_def fun_upd_idem)
  show ?thesis
  proof (cases "enabled (port_app s p)")
    case False
    then have e: "app = port_app s p" "r = None" using j by (auto simp: mrp_mad_join_request_def)
    have "port_done s a p (declared_state a) app"
      unfolding port_done_def e using g False nb sy by auto
    with same [OF e(2)] show ?thesis by blast
  next
    case True
    note on = port_good_on [OF g True]
    then have inv: "mrp_inv three_bytes (port_app s p)" and cfg: "mvrp_cfg (port_app s p)" by simp_all
    then have t: "MVRP_ATTR_TYPE_VID \<in> set (attr_types (port_app s p))"
      and l: "attribute_value_length (port_app s p) MVRP_ATTR_TYPE_VID \<le> length (be16 (vlan_id a))"
      and tk: "take (attribute_value_length (port_app s p) MVRP_ATTR_TYPE_VID) (be16 (vlan_id a)) = be16 (vlan_id a)"
      by (simp_all add: mvrp_cfg_def del: attr_types_set)
    note i = join_request_inv [OF inv t l j, unfolded tk]
    have en: "enabled app" using i(2) True by (simp add: mrp_frame_def)
    have ga: "port_good s p app" using i(1,2) on en cfg_frame [OF i(2)] by (simp add: port_good_def)
    show ?thesis
    proof (cases r)
      case None
      have "port_done s a p (declared_state a) app"
        unfolding port_done_def using ga i None nb sy True by auto
      with same [OF None] show ?thesis by blast
    next
      case (Some k)
      let ?d = "set_bit p (declared_state a)"
      have "map_join v new p s = s\<lparr>vheap := (vheap s)(v \<mapsto> a\<lparr>declared_state := ?d\<rparr>), port_app := (port_app s)(p := app)\<rparr>"
        using j Some v by (simp add: map_join_def gv set_port_def upd_vlan_def vlan_declared_set_def get_vlan_def)
      moreover have "bit ?d p" using p by (simp add: bit_set_bit_iff)
      then have "port_done s a p ?d app" unfolding port_done_def using ga i Some want by auto
      moreover have "\<forall>q. q \<noteq> p \<longrightarrow> bit ?d q = bit (declared_state a) q" by (auto simp: bit_set_bit_iff dest: bit_imp_le_length)
      ultimately show ?thesis by blast
    qed
  qed
qed

lemma map_leave_done:
  assumes v: "vheap s v = Some a" and g: "port_good s p (port_app s p)"
    and want: "\<not> vlan_want s a p" and de: "is_vlan_declared a p"
    and sy: "(MVRP_ATTR_TYPE_VID, be16 (vlan_id a)) \<in> declares (port_app s p)"
  shows "\<exists>d app. map_leave v p s = s\<lparr>vheap := (vheap s)(v \<mapsto> a\<lparr>declared_state := d\<rparr>), port_app := (port_app s)(p := app)\<rparr> \<and>
    (\<forall>q. q \<noteq> p \<longrightarrow> bit d q = bit (declared_state a) q) \<and> port_done s a p d app"
proof -
  have gv: "get_vlan s v = a" using v by (simp add: get_vlan_def)
  let ?d = "unset_bit p (declared_state a)"
  let ?app = "mrp_mad_leave_request (port_app s p) MVRP_ATTR_TYPE_VID (be16 (vlan_id a))"
  have en: "enabled (port_app s p)"
    using port_good_off [OF g] off_declares [of "port_app s p"] sy by auto
  note on = port_good_on [OF g en]
  then have inv: "mrp_inv three_bytes (port_app s p)" and cfg: "mvrp_cfg (port_app s p)" by simp_all
  then have tk: "take (attribute_value_length (port_app s p) MVRP_ATTR_TYPE_VID) (be16 (vlan_id a)) = be16 (vlan_id a)"
    by (simp add: mvrp_cfg_def)
  have t5: "MVRP_ATTR_TYPE_VID < MRP_MAX_ATTR_TYPE" by simp
  note i = leave_request_inv [OF inv t5, of "be16 (vlan_id a)", unfolded tk]
  have en': "enabled ?app" using i(2) en by (simp add: mrp_frame_def)
  have ga: "port_good s p ?app" using i(1,2) on en' cfg_frame [OF i(2)] by (simp add: port_good_def)
  have "map_leave v p s = s\<lparr>vheap := (vheap s)(v \<mapsto> a\<lparr>declared_state := ?d\<rparr>), port_app := (port_app s)(p := ?app)\<rparr>"
    using v by (simp add: map_leave_def gv set_port_def upd_vlan_def vlan_declared_clear_def get_vlan_def)
  moreover have "\<forall>q. q \<noteq> p \<longrightarrow> bit ?d q = bit (declared_state a) q" "\<not> bit ?d p" by (simp_all add: bit_unset_bit_iff)
  moreover have "port_done s a p ?d ?app"
    unfolding port_done_def using ga i(2) i(3) [OF en] want de \<open>\<not> bit ?d p\<close> by auto
  ultimately show ?thesis by blast
qed

abbreviation vid_attr :: "mvrp_vlan \<Rightarrow> nat \<times> u8 list" where
  "vid_attr a \<equiv> (MVRP_ATTR_TYPE_VID, be16 (vlan_id a))"

definition map_set :: "mvrp_ctx \<Rightarrow> nat \<Rightarrow> mvrp_vlan \<Rightarrow> u16 \<Rightarrow> (nat \<Rightarrow> mrp_application) \<Rightarrow> mvrp_ctx" where
  "map_set s v a d apps = s\<lparr>vheap := (vheap s)(v \<mapsto> a\<lparr>declared_state := d\<rparr>), port_app := apps\<rparr>"

lemma map_set_fields [simp]:
  "vheap (map_set s v a d apps) = (vheap s)(v \<mapsto> a\<lparr>declared_state := d\<rparr>)" "port_app (map_set s v a d apps) = apps"
  "port_max (map_set s v a d apps) = port_max s" "srp_initialized (map_set s v a d apps) = srp_initialized s"
  "vlans (map_set s v a d apps) = vlans s" "next_vlan (map_set s v a d apps) = next_vlan s"
  "num_vlans (map_set s v a d apps) = num_vlans s" "forwarding_state (map_set s v a d apps) = forwarding_state s"
  "map_set (map_set s v a d apps) v (a\<lparr>declared_state := d'\<rparr>) e apps' = map_set s v a e apps'"
  by (simp_all add: map_set_def)

lemma want_map_set [simp]:
  "vlan_want (map_set s v a d apps) b p = vlan_want s b p" "vlan_want s (b\<lparr>declared_state := e\<rparr>) p = vlan_want s b p"
  "port_good (map_set s v a d apps) p = port_good s p" "is_vlan_declared (b\<lparr>declared_state := e\<rparr>) p = bit e p"
  "is_vlan_user_declared (b\<lparr>declared_state := e\<rparr>) p = is_vlan_user_declared b p"
  by (simp_all add: vlan_want_def is_mvrp_port_forwarding_def is_vlan_registered_other_forwarding_def
      is_vlan_user_declared_def port_good_def fun_eq_iff is_vlan_declared_def)

lemma map_update_port_done:
  assumes v: "vheap s v = Some a" and g: "port_good s p (port_app s p)" and p: "p < 16"
    and sy: "vid_attr a \<in> declares (port_app s p) \<longleftrightarrow> is_vlan_declared a p"
  shows "\<exists>d app. map_update_port v new p s = map_set s v a d ((port_app s)(p := app)) \<and>
    (\<forall>q. q \<noteq> p \<longrightarrow> bit d q = bit (declared_state a) q) \<and> port_done s a p d app"
proof -
  have gv: "get_vlan s v = a" using v by (simp add: get_vlan_def)
  have same: "s = map_set s v a (declared_state a) ((port_app s)(p := port_app s p))"
    using v by (simp add: map_set_def fun_upd_idem)
  show ?thesis
  proof (cases "vlan_want s a p \<longleftrightarrow> is_vlan_declared a p")
    case True
    then have "map_update_port v new p s = s"
      by (auto simp: map_update_port_def gv Let_def vlan_want_def)
    moreover have "port_done s a p (declared_state a) (port_app s p)"
      unfolding port_done_def using g True sy by (auto simp: is_vlan_declared_def)
    ultimately show ?thesis using same by metis
  next
    case False
    show ?thesis
    proof (cases "vlan_want s a p")
      case True
      then have "\<not> is_vlan_declared a p" using False by simp
      moreover from this True have "map_update_port v new p s = map_join v new p s"
        by (auto simp: map_update_port_def gv Let_def vlan_want_def)
      ultimately show ?thesis using map_join_done [OF v g p True] sy by (simp add: map_set_def)
    next
      case nw: False
      then have "is_vlan_declared a p" using False by simp
      moreover from this nw have "map_update_port v new p s = map_leave v p s"
        by (auto simp: map_update_port_def gv Let_def vlan_want_def)
      ultimately show ?thesis using map_leave_done [OF v g nw] sy by (simp add: map_set_def)
    qed
  qed
qed

lemma map_fold_done:
  assumes "vheap s v = Some a" and "distinct ps"
    and "\<forall>p\<in>set ps. p < 16 \<and> port_good s p (port_app s p) \<and>
      (vid_attr a \<in> declares (port_app s p) \<longleftrightarrow> is_vlan_declared a p)"
  shows "\<exists>d apps. fold (map_update_port v new) ps s = map_set s v a d apps \<and>
    (\<forall>p\<in>set ps. port_done s a p d (apps p)) \<and>
    (\<forall>p. p \<notin> set ps \<longrightarrow> bit d p = bit (declared_state a) p \<and> apps p = port_app s p)"
  using assms
proof (induction ps arbitrary: s a)
  case Nil
  have "s = map_set s v a (declared_state a) (port_app s)" using Nil.prems(1) by (simp add: map_set_def fun_upd_idem)
  then show ?case by (intro exI [where x = "declared_state a"] exI [where x = "port_app s"]) simp
next
  case (Cons p ps)
  then have p: "p < 16" "port_good s p (port_app s p)" "vid_attr a \<in> declares (port_app s p) \<longleftrightarrow> is_vlan_declared a p"
    "p \<notin> set ps" "distinct ps" by simp_all
  from map_update_port_done [OF Cons.prems(1) p(2,1,3), of new] obtain d1 app where 1:
    "map_update_port v new p s = map_set s v a d1 ((port_app s)(p := app))"
    "\<forall>q. q \<noteq> p \<longrightarrow> bit d1 q = bit (declared_state a) q" "port_done s a p d1 app" by blast
  let ?s = "map_set s v a d1 ((port_app s)(p := app))" and ?a = "a\<lparr>declared_state := d1\<rparr>"
  have h: "\<forall>q\<in>set ps. q < 16 \<and> port_good ?s q (port_app ?s q) \<and>
      (vid_attr ?a \<in> declares (port_app ?s q) \<longleftrightarrow> is_vlan_declared ?a q)"
    using Cons.prems(3) p(4) 1(2) by (auto simp: is_vlan_declared_def)
  have "vheap ?s v = Some ?a" by simp
  from Cons.IH [OF this p(5) h] obtain d apps where 2: "fold (map_update_port v new) ps ?s = map_set ?s v ?a d apps"
    "\<forall>q\<in>set ps. port_done ?s ?a q d (apps q)"
    "\<forall>q. q \<notin> set ps \<longrightarrow> bit d q = bit (declared_state ?a) q \<and> apps q = port_app ?s q" by blast
  have tr: "port_done s a q d (apps q)" if "q \<in> set ps" for q
  proof -
    have q: "q \<noteq> p" using that p(4) by auto
    then have "bit d1 q = is_vlan_declared a q" using 1(2) by (simp add: is_vlan_declared_def)
    moreover have "port_done ?s ?a q d (apps q)" using 2(2) that by blast
    ultimately show ?thesis using q by (simp add: port_done_def)
  qed
  have dp: "bit d p = bit d1 p" "apps p = app" using 2(3) p(4) by simp_all
  have "port_done s a p d (apps p)" using 1(3) dp by (simp add: port_done_def)
  moreover have "bit d q = bit (declared_state a) q \<and> apps q = port_app s q" if "q \<notin> set (p # ps)" for q
    using 2(3) 1(2) that by auto
  ultimately show ?case
    using 1(1) 2(1) tr by (intro exI [where x = d] exI [where x = apps]) auto
qed

subsection \<open>One VLAN\<close>

lemma vlan_ok_cong:
  assumes "\<And>p. vlan_want s' b p = vlan_want s b p" and "port_max s' = port_max s"
    and "\<And>p. p < port_max s \<Longrightarrow> mrp_frame (port_app s p) (port_app s' p)"
  shows "vlan_ok s' b = vlan_ok s b"
proof -
  have "mem_ok s' = mem_ok s" using assms(2,3) by (simp add: mem_ok_def mrp_frame_def)
  moreover have "enabled (port_app s' p) = enabled (port_app s p)" if "p < port_max s" for p
    using assms(3) [OF that] by (simp add: mrp_frame_def)
  ultimately show ?thesis using assms(1,2) by (auto simp: vlan_ok_def)
qed

text \<open>
  \<open>mvrp_map_update_vlan\<close> brings the VLAN back to its invariant or frees it, and leaves every other one
  alone. It takes no attribute of a port whose declaration of the VLAN stays as it is.
\<close>

lemma pair_set_eq: "(\<And>t x. (t, x) \<in> A \<longleftrightarrow> t = c \<and> (\<exists>w b. P w b \<and> Q b \<and> x = f b)) \<Longrightarrow> A = {(c, f b) | w b. P w b \<and> Q b}"
  by (auto; blast)

definition loop_done :: "mvrp_ctx \<Rightarrow> nat set \<Rightarrow> nat \<Rightarrow> mvrp_vlan \<Rightarrow> u16 \<Rightarrow> (nat \<Rightarrow> mrp_application) \<Rightarrow> bool" where
  "loop_done s V v a d apps \<longleftrightarrow> heap_ok (map_set s v a d apps) \<and> ports_ok (map_set s v a d apps) \<and>
     sync_ok (map_set s v a d apps) \<and> (\<forall>w b. w \<notin> V \<longrightarrow> w \<noteq> v \<longrightarrow> vheap s w = Some b \<longrightarrow> vlan_ok (map_set s v a d apps) b) \<and>
     (\<forall>p. bit d p \<longrightarrow> vlan_want s a p) \<and>
     (\<forall>p. mem_ok s \<longrightarrow> p < port_max s \<longrightarrow> vlan_want s a p \<longrightarrow> enabled (apps p) \<longrightarrow> bit d p) \<and>
     (\<forall>p < port_max s. mrp_frame (port_app s p) (apps p)) \<and>
     (\<forall>p j. p < port_max s \<longrightarrow> (is_vlan_declared a p \<longrightarrow> vlan_want s a p) \<longrightarrow> attrs (port_app s p) j \<noteq> None \<longrightarrow>
        attrs (apps p) j \<noteq> None)"

lemma map_loop_inv:
  assumes m: "mvrp_mid s V" and v: "vheap s v = Some a"
  shows "\<exists>d apps. fold (map_update_port v new) [0..<port_max s] s = map_set s v a d apps \<and> loop_done s V v a d apps"
proof -
  let ?ps = "[0..<port_max s]"
  have ho: "heap_ok s" and po: "ports_ok s" and so: "sync_ok s" using m by (simp_all add: mvrp_mid_def)
  have dec: "(t, x) \<in> declares (port_app s p) \<longleftrightarrow> t = MVRP_ATTR_TYPE_VID \<and>
      (\<exists>w b. vheap s w = Some b \<and> is_vlan_declared b p \<and> x = be16 (vlan_id b))" if "p < port_max s" for p t x
    using so that by (auto simp: sync_ok_def)
  have sy: "vid_attr a \<in> declares (port_app s p) \<longleftrightarrow> is_vlan_declared a p" if "p < port_max s" for p
    using dec [OF that, of MVRP_ATTR_TYPE_VID "be16 (vlan_id a)"] v heap_okD(4) [OF ho v] by (metis be16_inj option.inject)
  have "\<forall>p\<in>set ?ps. p < 16 \<and> port_good s p (port_app s p) \<and> (vid_attr a \<in> declares (port_app s p) \<longleftrightarrow> is_vlan_declared a p)"
    using po sy by (auto simp: ports_ok_def)
  from map_fold_done [OF v _ this, of new] obtain d apps where f:
    "fold (map_update_port v new) ?ps s = map_set s v a d apps" "\<forall>p<port_max s. port_done s a p d (apps p)"
    "\<forall>p. p \<ge> port_max s \<longrightarrow> bit d p = bit (declared_state a) p \<and> apps p = port_app s p"
    by (auto simp: not_less)
  let ?s = "map_set s v a d apps"
  have fr: "mrp_frame (port_app s p) (apps p)" if "p < port_max s" for p using f(2) that by (simp add: port_done_def)
  have hi: "\<not> bit d p" if "p \<ge> port_max s" for p
  proof -
    have "is_vlan_declared a p \<Longrightarrow> p < port_max s" using so v unfolding sync_ok_def by blast
    then have "\<not> is_vlan_declared a p" using that by auto
    then show ?thesis using f(3) that by (simp add: is_vlan_declared_def)
  qed
  have r1: "heap_ok ?s"
    using ho v unfolding heap_ok_def by (auto split: if_splits)
  have r2: "ports_ok ?s" using po f(2) by (simp add: ports_ok_def port_done_def)
  have r3: "sync_ok ?s"
  proof -
    have "declares (apps p) = {(MVRP_ATTR_TYPE_VID, be16 (vlan_id b)) | w b. vheap ?s w = Some b \<and> is_vlan_declared b p}"
      if p: "p < port_max s" for p
    proof -
      have d: "declares (apps p) = (declares (port_app s p) - {vid_attr a}) \<union> (if bit d p then {vid_attr a} else {})"
        using f(2) p by (simp add: port_done_def)
      have "(t, x) \<in> declares (apps p) \<longleftrightarrow> t = MVRP_ATTR_TYPE_VID \<and>
          (\<exists>w b. vheap ?s w = Some b \<and> is_vlan_declared b p \<and> x = be16 (vlan_id b))" for t x
      proof
        assume "(t, x) \<in> declares (apps p)"
        then consider "(t, x) = vid_attr a" "bit d p" | w b where "vheap s w = Some b" "is_vlan_declared b p"
          "t = MVRP_ATTR_TYPE_VID" "x = be16 (vlan_id b)" "(t, x) \<noteq> vid_attr a"
          unfolding d using dec [OF p, of t x] by (auto split: if_splits)
        then show "t = MVRP_ATTR_TYPE_VID \<and> (\<exists>w b. vheap ?s w = Some b \<and> is_vlan_declared b p \<and> x = be16 (vlan_id b))"
        proof cases
          case 1 then show ?thesis by (auto intro!: exI [where x = v])
        next
          case 2
          then have "w \<noteq> v" using v by auto
          with 2 show ?thesis by (auto intro!: exI [where x = w])
        qed
      next
        assume "t = MVRP_ATTR_TYPE_VID \<and> (\<exists>w b. vheap ?s w = Some b \<and> is_vlan_declared b p \<and> x = be16 (vlan_id b))"
        then obtain w b where b: "vheap ?s w = Some b" "is_vlan_declared b p" "x = be16 (vlan_id b)" "t = MVRP_ATTR_TYPE_VID"
          by blast
        show "(t, x) \<in> declares (apps p)"
        proof (cases "w = v")
          case True then show ?thesis using b unfolding d by auto
        next
          case False
          then have w: "vheap s w = Some b" using b(1) by simp
          then have "vlan_id b \<noteq> vlan_id a" using heap_okD(4) [OF ho w v] False by blast
          then have "x \<noteq> be16 (vlan_id a)" using b(3) be16_inj [of "vlan_id b" "vlan_id a"] by auto
          moreover have "(t, x) \<in> declares (port_app s p)" using dec [OF p, of t x] b w by blast
          ultimately show ?thesis unfolding d by simp
        qed
      qed
      then show ?thesis by (rule pair_set_eq)
    qed
    moreover have "p < port_max s" if "vheap ?s w = Some b" "is_vlan_declared b p" for w b p
    proof (cases "w = v")
      case True
      then have "bit d p" using that by auto
      then show ?thesis using hi [of p] not_le by blast
    next
      case False
      then have "vheap s w = Some b" using that(1) by simp
      then show ?thesis using so that(2) unfolding sync_ok_def by blast
    qed
    ultimately show ?thesis unfolding sync_ok_def map_set_fields(2,3) by blast
  qed
  have r4: "vlan_ok ?s b" if "w \<notin> V" "w \<noteq> v" "vheap s w = Some b" for w b
  proof -
    have "vlan_ok ?s b = vlan_ok s b" by (rule vlan_ok_cong) (simp_all add: fr)
    then show ?thesis using m that by (simp add: mvrp_mid_def)
  qed
  have r5: "vlan_want s a p" if "bit d p" for p
  proof -
    have "p < port_max s" using hi [of p] that not_le by blast
    then have "port_done s a p d (apps p)" using f(2) by blast
    then show ?thesis using that by (simp add: port_done_def)
  qed
  have r6: "bit d p" if "mem_ok s" "p < port_max s" "vlan_want s a p" "enabled (apps p)" for p
  proof -
    have "port_done s a p d (apps p)" using f(2) that(2) by blast
    moreover have "\<forall>n. malloc_ok (port_app s p) n" using that(1,2) by (simp add: mem_ok_def)
    ultimately show ?thesis using that(3,4) unfolding port_done_def by blast
  qed
  have r7: "attrs (apps p) j \<noteq> None"
    if "p < port_max s" "is_vlan_declared a p \<longrightarrow> vlan_want s a p" "attrs (port_app s p) j \<noteq> None" for p j
  proof -
    have "port_done s a p d (apps p)" using f(2) that(1) by blast
    then show ?thesis using that(2,3) unfolding port_done_def by blast
  qed
  have "loop_done s V v a d apps" unfolding loop_done_def using r1 r2 r3 r4 r5 r6 fr r7 by blast
  with f(1) show ?thesis by blast
qed

text \<open>An instance with no user and no registration is freed; it declares nothing then.\<close>

lemma free_vlan_inv:
  assumes h: "heap_ok s" "ports_ok s" "sync_ok s" and ok: "\<And>w b. w \<notin> V \<Longrightarrow> w \<noteq> v \<Longrightarrow> vheap s w = Some b \<Longrightarrow> vlan_ok s b"
    and v: "vheap s v = Some a" and nd: "\<And>p. \<not> is_vlan_declared a p"
  shows "mvrp_mid (mvrp_free_vlan s v) (V - {v})"
proof -
  let ?s = "mvrp_free_vlan s v"
  have vh: "vheap ?s = (vheap s)(v := None)" and pm: "port_max ?s = port_max s" and pa: "port_app ?s = port_app s"
    and pg: "port_good ?s = port_good s"
    by (simp_all add: mvrp_free_vlan_def port_good_def fun_eq_iff)
  have vin: "v \<in> set (vlans s)" using heap_okD(2) [OF h(1)] v by auto
  then obtain n where n: "length (vlans s) = Suc n" by (cases "vlans s") auto
  with vin have rl: "length (remove1 v (vlans s)) = n" by (simp add: length_remove1)
  have num: "num_vlans ?s = of_nat (length (vlans ?s))" "length (vlans ?s) \<le> 32"
    using heap_okD(6,7) [OF h(1)] n rl by (simp_all add: mvrp_free_vlan_def)
  have vl: "distinct (vlans ?s)" "set (vlans ?s) = dom (vheap ?s)"
    using heap_okD(1,2) [OF h(1)] by (auto simp: vh) (auto simp: mvrp_free_vlan_def)
  have nx: "next_vlan ?s = next_vlan s" by (simp add: mvrp_free_vlan_def)
  have old: "vheap s w = Some b \<and> w \<noteq> v" if "vheap ?s w = Some b" for w b
    using that by (auto simp: vh split: if_splits)
  have "heap_ok ?s"
  proof (rule heap_okI)
    show "w < next_vlan ?s" if "vheap ?s w = Some b" for w b using old [OF that] heap_okD(3) [OF h(1)] nx by simp
    show "w = w'" if "vheap ?s w = Some b" "vheap ?s w' = Some c" "vlan_id b = vlan_id c" for w w' b c
      using old [OF that(1)] old [OF that(2)] that(3) heap_okD(4) [OF h(1), of w b w' c] by simp
  qed (use vl num old heap_okD(5) [OF h(1)] in blast)+
  moreover have "ports_ok ?s" using h(2) by (simp add: ports_ok_def pm pa pg)
  moreover have "sync_ok ?s"
  proof -
    have "(vheap ?s w = Some b \<and> is_vlan_declared b p) = (vheap s w = Some b \<and> is_vlan_declared b p)" for w b p
      using nd v by (auto simp: vh)
    with h(3) show ?thesis unfolding sync_ok_def pm pa by (simp only:) blast
  qed
  moreover have "vlan_ok ?s b" if "w \<notin> V - {v}" "vheap ?s w = Some b" for w b
  proof -
    have "vlan_ok ?s b = vlan_ok s b"
      by (rule vlan_ok_cong) (simp_all add: pm pa vlan_want_def mvrp_free_vlan_def is_mvrp_port_forwarding_def
          is_vlan_registered_other_forwarding_def)
    then show ?thesis using ok old [OF that(2)] that(1) by blast
  qed
  ultimately show ?thesis unfolding mvrp_mid_def by blast
qed

lemma unused_not_wanted: "\<not> is_vlan_registered_any a \<Longrightarrow> \<not> is_vlan_user_declared_any a \<Longrightarrow> \<not> vlan_want s a p"
  by (simp add: vlan_want_def is_vlan_registered_any_def is_vlan_user_declared_any_def
      is_vlan_registered_other_forwarding_def is_vlan_user_declared_def)

lemma mask_invs [simp]:
  "is_vlan_registered_any (a\<lparr>declared_state := d\<rparr>) = is_vlan_registered_any a"
  "is_vlan_user_declared_any (a\<lparr>declared_state := d\<rparr>) = is_vlan_user_declared_any a"
  by (simp_all add: is_vlan_registered_any_def is_vlan_user_declared_any_def)

text \<open>What the callers see of the update.\<close>

definition ctx_same :: "mvrp_ctx \<Rightarrow> mvrp_ctx \<Rightarrow> bool" where
  "ctx_same s s' \<longleftrightarrow> port_max s' = port_max s \<and> srp_initialized s' = srp_initialized s \<and>
     is_bridge s' = is_bridge s \<and> logical_port s' = logical_port s \<and> forwarding_state s' = forwarding_state s \<and>
     operational_state s' = operational_state s \<and> (\<forall>p < port_max s. mrp_frame (port_app s p) (port_app s' p))"

definition map_post :: "mvrp_ctx \<Rightarrow> nat set \<Rightarrow> nat \<Rightarrow> mvrp_vlan \<Rightarrow> mvrp_ctx \<Rightarrow> bool" where
  "map_post s V v a s' \<longleftrightarrow> mvrp_mid s' (V - {v}) \<and> ctx_same s s' \<and> use_after_free s' = use_after_free s \<and>
     (\<forall>p j. p < port_max s \<longrightarrow> (is_vlan_declared a p \<longrightarrow> vlan_want s a p) \<longrightarrow> attrs (port_app s p) j \<noteq> None \<longrightarrow>
        attrs (port_app s' p) j \<noteq> None) \<and>
     (\<forall>w. w \<noteq> v \<longrightarrow> vheap s' w = vheap s w) \<and>
     (if is_vlan_registered_any a \<or> is_vlan_user_declared_any a
      then (\<exists>d. vheap s' v = Some (a\<lparr>declared_state := d\<rparr>)) \<and> vlans s' = vlans s
      else vheap s' v = None \<and> vlans s' = remove1 v (vlans s))"

lemma map_update_vlan_inv:
  assumes m: "mvrp_mid s V" and v: "vheap s v = Some a"
  shows "map_post s V v a (mvrp_map_update_vlan s v new)"
proof -
  from map_loop_inv [OF m v, of new] obtain d apps where
    f: "fold (map_update_port v new) [0..<port_max s] s = map_set s v a d apps" and l: "loop_done s V v a d apps" by blast
  let ?s = "map_set s v a d apps" and ?a = "a\<lparr>declared_state := d\<rparr>"
  have inv: "heap_ok ?s" "ports_ok ?s" "sync_ok ?s" "\<And>w b. w \<notin> V \<Longrightarrow> w \<noteq> v \<Longrightarrow> vheap s w = Some b \<Longrightarrow> vlan_ok ?s b"
    and want: "\<And>p. bit d p \<Longrightarrow> vlan_want s a p"
    and compl: "\<And>p. mem_ok s \<Longrightarrow> p < port_max s \<Longrightarrow> vlan_want s a p \<Longrightarrow> enabled (apps p) \<Longrightarrow> bit d p"
    and fr: "\<forall>p < port_max s. mrp_frame (port_app s p) (apps p)"
    and att: "\<forall>p j. p < port_max s \<longrightarrow> (is_vlan_declared a p \<longrightarrow> vlan_want s a p) \<longrightarrow> attrs (port_app s p) j \<noteq> None \<longrightarrow>
        attrs (apps p) j \<noteq> None"
    using l unfolding loop_done_def by blast+
  have gv: "get_vlan ?s v = ?a" by (simp add: get_vlan_def)
  show ?thesis
  proof (cases "is_vlan_registered_any a \<or> is_vlan_user_declared_any a")
    case True
    then have e: "mvrp_map_update_vlan s v new = ?s"
      by (auto simp: mvrp_map_update_vlan_def f gv Let_def)
    have "mem_ok ?s = mem_ok s" using fr by (simp add: mem_ok_def mrp_frame_def)
    then have "vlan_ok ?s ?a" using True want compl by (simp add: vlan_ok_def)
    then have "mvrp_mid ?s (V - {v})" using inv by (auto simp: mvrp_mid_def split: if_splits)
    then show ?thesis unfolding e map_post_def using True fr att by (auto simp: map_set_def ctx_same_def)
  next
    case False
    then have e: "mvrp_map_update_vlan s v new = mvrp_free_vlan ?s v"
      by (auto simp: mvrp_map_update_vlan_def f gv Let_def)
    have "mvrp_mid (mvrp_free_vlan ?s v) (V - {v})"
    proof (rule free_vlan_inv [OF inv(1-3)])
      show "vheap ?s v = Some ?a" by simp
      show "\<not> is_vlan_declared ?a p" for p using want unused_not_wanted False by auto
      show "vlan_ok ?s b" if "w \<notin> V" "w \<noteq> v" "vheap ?s w = Some b" for w b using inv(4) that by simp
    qed
    then show ?thesis unfolding e map_post_def using False fr att by (auto simp: map_set_def mvrp_free_vlan_def ctx_same_def)
  qed
qed

end
