(* ===== verification/MVRP_Inv.thy ===== *)
theory MVRP_Inv
  imports MVRP_Proofs
begin

section \<open>Every MVRP operation keeps the invariant\<close>

text \<open>
  The operations of \<open>mvrp.c\<close> on top of the MAP update: VLAN instances found and created, the
  indications of MRP, the requests, the port status, reception. The interpretation of the
  \<open>mrp_receiver\<close> contract makes everything MRP does on its own (timers, received packets) keep the
  MVRP invariant; the step relation at the end composes it all.
\<close>

subsection \<open>VLAN instances\<close>

lemma find_vlan_Some:
  assumes "heap_ok s" and "mvrp_find_vlan s vid = Some v"
  shows "\<exists>a. vheap s v = Some a \<and> vlan_id a = vid"
  using assms(2) heap_okD(2) [OF assms(1)]
  by (fastforce simp: mvrp_find_vlan_def find_Some_iff get_vlan_def dest: nth_mem)

lemma find_vlan_None:
  assumes "heap_ok s" and "mvrp_find_vlan s vid = None" and "vheap s v = Some a"
  shows "vlan_id a \<noteq> vid"
proof -
  have "v \<in> set (vlans s)" using assms(3) heap_okD(2) [OF assms(1)] by auto
  then show ?thesis using assms(2,3) by (auto simp: mvrp_find_vlan_def find_None_iff get_vlan_def)
qed

lemma find_vlan_eq:
  assumes "heap_ok s" and "vheap s v = Some a"
  shows "mvrp_find_vlan s (vlan_id a) = Some v"
proof (cases "mvrp_find_vlan s (vlan_id a)")
  case None
  then show ?thesis using find_vlan_None [OF assms(1) _ assms(2)] by blast
next
  case (Some w)
  then show ?thesis using find_vlan_Some [OF assms(1) Some] heap_okD(4) [OF assms(1) _ assms(2), of w] by auto
qed

text \<open>What an operation must not touch for the invariant to carry over.\<close>

lemma mid_cong:
  assumes "mvrp_mid s V" and "vheap s' = vheap s" "vlans s' = vlans s" "next_vlan s' = next_vlan s" "num_vlans s' = num_vlans s"
    "forwarding_state s' = forwarding_state s" "port_max s' = port_max s" "srp_initialized s' = srp_initialized s"
    "port_app s' = port_app s"
  shows "mvrp_mid s' V"
proof -
  have "vlan_want s' = vlan_want s" using assms(6)
    by (simp add: fun_eq_iff vlan_want_def is_mvrp_port_forwarding_def is_vlan_registered_other_forwarding_def)
  moreover have "port_good s' = port_good s" using assms(8) by (simp add: fun_eq_iff port_good_def)
  ultimately have "mvrp_mid s' V = mvrp_mid s V"
    by (simp only: mvrp_mid_def heap_ok_def ports_ok_def sync_ok_def vlan_ok_def mem_ok_def assms(2-9))
  with assms(1) show ?thesis by (simp only:)
qed

lemma mid_mono: "mvrp_mid s V \<Longrightarrow> V \<subseteq> W \<Longrightarrow> mvrp_mid s W"
  unfolding mvrp_mid_def by blast

lemma upd_vlan_mid:
  assumes m: "mvrp_mid s V" and vV: "v \<in> V" and v: "vheap s v = Some a"
    and f: "vlan_id (f a) = vlan_id a" "declared_state (f a) = declared_state a"
    and r: "\<And>p. ref_count (f a) p \<noteq> 0 \<Longrightarrow> is_vlan_user_declared (f a) p"
  shows "mvrp_mid (upd_vlan s v f) V" and "vheap (upd_vlan s v f) v = Some (f a)"
proof -
  let ?s = "upd_vlan s v f"
  have e: "vheap ?s = (vheap s)(v \<mapsto> f a)" "port_app ?s = port_app s" "port_max ?s = port_max s"
      "vlans ?s = vlans s" "num_vlans ?s = num_vlans s" "next_vlan ?s = next_vlan s" "port_good ?s = port_good s"
    using v by (simp_all add: upd_vlan_def get_vlan_def port_good_def fun_eq_iff)
  have ho: "heap_ok s" and po: "ports_ok s" and so: "sync_ok s" using m by (simp_all add: mvrp_mid_def)
  have old: "\<exists>c. vheap s w = Some c \<and> vlan_id c = vlan_id b \<and> (\<forall>p. ref_count b p \<noteq> 0 \<longrightarrow> is_vlan_user_declared b p)"
    if "vheap ?s w = Some b" for w b
  proof (cases "w = v")
    case True
    then have "b = f a" using that by (simp add: e(1))
    then show ?thesis using True v f r by (intro exI [where x = a]) auto
  next
    case False
    then have "vheap s w = Some b" using that by (simp add: e(1))
    then show ?thesis using heap_okD(5) [OF ho] by blast
  qed
  have "heap_ok ?s"
  proof (rule heap_okI)
    fix w b assume wb: "vheap ?s w = Some b"
    then obtain c where c: "vheap s w = Some c" "vlan_id c = vlan_id b" using old by blast
    show "w = w'" if w': "vheap ?s w' = Some b'" "vlan_id b = vlan_id b'" for w' b'
    proof -
      obtain c' where "vheap s w' = Some c'" "vlan_id c' = vlan_id b'" using old [OF w'(1)] by blast
      with c w'(2) show ?thesis using heap_okD(4) [OF ho, of w c w' c'] by simp
    qed
    show "CFG_MVRP_VID_MIN \<le> vlan_id b \<and> vlan_id b \<le> CFG_MVRP_VID_MAX"
      using heap_okD(5) [OF ho c(1)] unfolding c(2) by blast
    show "is_vlan_user_declared b p" if "ref_count b p \<noteq> 0" for p using old [OF wb] that by blast
    show "w < next_vlan ?s" using heap_okD(3) [OF ho c(1)] by (simp add: e)
  next
    show "set (vlans ?s) = dom (vheap ?s)" using heap_okD(2) [OF ho] v by (auto simp: e)
  qed (simp_all add: e heap_okD(1,6,7) [OF ho])
  moreover have "ports_ok ?s" using po unfolding ports_ok_def e by simp
  moreover have "sync_ok ?s"
  proof -
    have di: "is_vlan_declared (f a) p = is_vlan_declared a p" for p using f by (simp add: is_vlan_declared_def)
    have ex: "(\<exists>w b. y = (MVRP_ATTR_TYPE_VID, be16 (vlan_id b)) \<and> ((vheap s)(v \<mapsto> f a)) w = Some b \<and> is_vlan_declared b p) \<longleftrightarrow>
      (\<exists>w b. y = (MVRP_ATTR_TYPE_VID, be16 (vlan_id b)) \<and> vheap s w = Some b \<and> is_vlan_declared b p)" (is "?l \<longleftrightarrow> ?r") for p y
    proof
      assume ?l
      then obtain w b where "((vheap s)(v \<mapsto> f a)) w = Some b" "is_vlan_declared b p" "y = (MVRP_ATTR_TYPE_VID, be16 (vlan_id b))" by blast
      then show ?r using v di f
        by (intro exI [where x = w] exI [where x = "if w = v then a else b"]) (auto split: if_splits)
    next
      assume ?r
      then obtain w b where wb: "vheap s w = Some b" "is_vlan_declared b p" "y = (MVRP_ATTR_TYPE_VID, be16 (vlan_id b))" by blast
      show ?l
      proof (cases "w = v")
        case True
        then have "b = a" using v wb(1) by simp
        then show ?thesis using wb(2,3) by (intro exI [where x = v] exI [where x = "f a"]) (simp add: di f)
      next
        case False
        then show ?thesis using wb by (intro exI [where x = w] exI [where x = b]) simp
      qed
    qed
    have lt: "p < port_max s" if "((vheap s)(v \<mapsto> f a)) w = Some b" "is_vlan_declared b p" for w b p
    proof -
      have "\<exists>b'. vheap s w = Some b' \<and> is_vlan_declared b' p" using that v di
        by (intro exI [where x = "if w = v then a else b"]) (auto split: if_splits)
      then show ?thesis using so unfolding sync_ok_def by blast
    qed
    have "\<forall>p<port_max s. declares (port_app s p) =
      {(MVRP_ATTR_TYPE_VID, be16 (vlan_id b)) | w b. vheap s w = Some b \<and> is_vlan_declared b p}"
      using so unfolding sync_ok_def by (rule conjunct2)
    then show ?thesis unfolding sync_ok_def e ex using lt by blast
  qed
  moreover have "vlan_ok ?s b" if "w \<notin> V" "vheap ?s w = Some b" for w b
  proof -
    have "vlan_ok ?s b = vlan_ok s b"
      by (rule vlan_ok_cong) (simp_all add: e vlan_want_def is_mvrp_port_forwarding_def
          is_vlan_registered_other_forwarding_def upd_vlan_def)
    moreover have "vheap s w = Some b" using that vV by (auto simp: e(1) split: if_splits)
    ultimately show ?thesis using m that(1) unfolding mvrp_mid_def by blast
  qed
  ultimately show "mvrp_mid ?s V" unfolding mvrp_mid_def by blast
  show "vheap ?s v = Some (f a)" by (simp add: e)
qed

text \<open>What a find-or-create step gives its caller.\<close>

definition found :: "mvrp_ctx \<Rightarrow> u16 \<Rightarrow> nat option \<Rightarrow> mvrp_ctx \<Rightarrow> bool" where
  "found s vid r s1 \<longleftrightarrow> ctx_same s s1 \<and> port_app s1 = port_app s \<and>
     (case r of
        None \<Rightarrow> mvrp_inv s1
      | Some v \<Rightarrow> mvrp_mid s1 {v} \<and> (\<exists>a. vheap s1 v = Some a \<and> vlan_id a = vid \<and>
          (\<forall>p. is_vlan_declared a p \<longrightarrow> vlan_want s1 a p) \<and> ((\<exists>p. ref_count a p \<noteq> 0) \<longrightarrow> vlan_ok s1 a)))"

lemma find_found:
  assumes "mvrp_inv s" and "mvrp_find_vlan s vid = Some v"
  shows "found s vid (Some v) s"
proof -
  have m: "mvrp_mid s {}" using assms(1) by (simp add: mvrp_inv_def)
  then have "heap_ok s" by (simp add: mvrp_mid_def)
  then obtain a where a: "vheap s v = Some a" "vlan_id a = vid" using find_vlan_Some [OF _ assms(2)] by blast
  then have "vlan_ok s a" using m unfolding mvrp_mid_def by blast
  then show ?thesis using a mid_mono [OF m, of "{v}"] by (simp add: found_def vlan_ok_def ctx_same_def)
qed

lemma create_found:
  assumes i: "mvrp_inv s" and nf: "mvrp_find_vlan s vid = None" and c: "mvrp_create_vlan s vid = (r, s1)"
  shows "found s vid r s1"
proof -
  have m: "mvrp_mid s {}" and ho: "heap_ok s" using i by (simp_all add: mvrp_inv_def mvrp_mid_def)
  define s0 where "s0 = s\<lparr>n_vlan_malloc := n_vlan_malloc s + 1\<rparr>"
  have m0: "mvrp_mid s0 {}" by (rule mid_cong [OF m]) (simp_all add: s0_def)
  have same: "found s vid None s" "found s vid None s0"
    using m m0 by (simp_all add: found_def mvrp_inv_def ctx_same_def) (simp_all add: s0_def)
  let ?a = "\<lparr>registered_state = 0, declared_state = 0, vlan_id = vid, user_declared = 0, ref_count = (\<lambda>_. 0)\<rparr>"
  let ?s1 = "s0\<lparr>vheap := (vheap s)(next_vlan s \<mapsto> ?a), next_vlan := next_vlan s + 1,
    vlans := next_vlan s # vlans s, num_vlans := num_vlans s + 1\<rparr>"
  have new: "found s vid (Some (next_vlan s)) ?s1"
    if n: "num_vlans s < CFG_MVRP_MAX_VLANS" and v: "\<not> (vid < CFG_MVRP_VID_MIN \<or> vid > CFG_MVRP_VID_MAX)"
  proof -
    let ?v = "next_vlan s"
    have vr: "CFG_MVRP_VID_MIN \<le> vid \<and> vid \<le> CFG_MVRP_VID_MAX" using v by (simp only: not_less de_Morgan_disj)
    have fresh: "vheap s ?v = None"
    proof (cases "vheap s ?v")
      case (Some b)
      then show ?thesis using heap_okD(3) [OF ho Some] by simp
    qed
    have len: "length (vlans s) < 32"
      using n heap_okD(6,7) [OF ho] by (simp add: word_less_nat_alt unat_of_nat)
    have old: "w = ?v \<and> b = ?a \<or> w \<noteq> ?v \<and> vheap s w = Some b \<and> vlan_id b \<noteq> vid" if "vheap ?s1 w = Some b" for w b
      using that find_vlan_None [OF ho nf, of w b] by (cases "w = ?v") auto
    have fr: "port_app ?s1 = port_app s" "port_max ?s1 = port_max s" "port_good ?s1 = port_good s"
      by (simp_all add: s0_def port_good_def fun_eq_iff)
    have "heap_ok ?s1"
    proof (rule heap_okI)
      show "w < next_vlan ?s1" if "vheap ?s1 w = Some b" for w b using old [OF that] heap_okD(3) [OF ho, of w b] by auto
      show "w = w'" if "vheap ?s1 w = Some b" "vheap ?s1 w' = Some b'" "vlan_id b = vlan_id b'" for w w' b b'
        using old [OF that(1)] old [OF that(2)] that(3) heap_okD(4) [OF ho, of w b w' b'] by auto
      show "CFG_MVRP_VID_MIN \<le> vlan_id b \<and> vlan_id b \<le> CFG_MVRP_VID_MAX" if "vheap ?s1 w = Some b" for w b
        using old [OF that] heap_okD(5) [OF ho, of w b] vr by (elim disjE) simp_all
      show "is_vlan_user_declared b p" if "vheap ?s1 w = Some b" "ref_count b p \<noteq> 0" for w b p
        using old [OF that(1)] heap_okD(5) [OF ho, of w b] that(2) by auto
    qed (use heap_okD [OF ho] fresh len in \<open>auto simp: s0_def\<close>)
    moreover have "ports_ok ?s1" using m unfolding mvrp_mid_def ports_ok_def fr by blast
    moreover have "sync_ok ?s1"
    proof -
      have "(vheap ?s1 w = Some b \<and> is_vlan_declared b p) = (vheap s w = Some b \<and> is_vlan_declared b p)" for w b p
        using old [of w b] fresh by (auto simp: is_vlan_declared_def)
      moreover have "sync_ok s" using m by (simp add: mvrp_mid_def)
      ultimately show ?thesis unfolding sync_ok_def fr by (simp only:) blast
    qed
    moreover have "vlan_ok ?s1 b" if "w \<notin> {?v}" "vheap ?s1 w = Some b" for w b
    proof -
      have "vlan_ok ?s1 b = vlan_ok s b"
        by (rule vlan_ok_cong) (simp_all add: s0_def vlan_want_def is_mvrp_port_forwarding_def
            is_vlan_registered_other_forwarding_def)
      then show ?thesis using m old [OF that(2)] that(1) unfolding mvrp_mid_def by blast
    qed
    ultimately have "mvrp_mid ?s1 {?v}" unfolding mvrp_mid_def by blast
    then show ?thesis by (simp add: found_def ctx_same_def is_vlan_declared_def s0_def)
  qed
  show ?thesis
    using c same new unfolding mvrp_create_vlan_def Let_def s0_def [symmetric] by (auto simp: nf split: if_splits)
qed

lemma find_create_found:
  assumes "mvrp_inv s" and "(case mvrp_find_vlan s vid of Some v \<Rightarrow> (Some v, s) | None \<Rightarrow> mvrp_create_vlan s vid) = (r, s1)"
  shows "found s vid r s1"
  using assms find_found [of s vid] create_found [of s vid r s1] by (auto split: option.splits)

subsection \<open>Indications\<close>

lemma ctx_same_trans: "ctx_same a b \<Longrightarrow> ctx_same b c \<Longrightarrow> ctx_same a c"
  unfolding ctx_same_def using mrp_frame_trans by metis

lemma ctx_same_upd [simp]:
  "ctx_same s (upd_vlan s v f)" "ctx_same s (s\<lparr>fdb_calls := l\<rparr>)" "ctx_same s (s\<lparr>use_after_free := b\<rparr>)"
  by (simp_all add: ctx_same_def upd_vlan_def)

lemma want_own_registration:
  assumes "ctx_same s s'"
  shows "vlan_want s' (vlan_registered_set p a) p = vlan_want s a p" "vlan_want s' (vlan_registered_clear p a) p = vlan_want s a p"
proof -
  have "unset_bit p (and (set_bit p r) f) = unset_bit p (and r f)" "unset_bit p (and (unset_bit p r) f) = unset_bit p (and r f)"
    for r f :: u16 by (auto intro!: bit_eqI simp: bit_unset_bit_iff bit_set_bit_iff bit_and_iff)
  then show "vlan_want s' (vlan_registered_set p a) p = vlan_want s a p" "vlan_want s' (vlan_registered_clear p a) p = vlan_want s a p"
    using assms by (simp_all add: vlan_want_def is_mvrp_port_forwarding_def is_vlan_registered_other_forwarding_def
        is_vlan_user_declared_def vlan_registered_set_def vlan_registered_clear_def ctx_same_def)
qed

text \<open>
  A VLAN whose registration by port \<open>p\<close> changes: the MAP update restores the invariant, and it takes no attribute
  of \<open>p\<close> itself, since what \<open>p\<close> declares does not depend on its own registrations.
\<close>

definition ind_ok :: "mvrp_ctx \<Rightarrow> nat \<Rightarrow> mvrp_ctx \<Rightarrow> bool" where
  "ind_ok s p s' \<longleftrightarrow> mvrp_inv s' \<and> ctx_same s s' \<and> (\<forall>j. attrs (port_app s p) j \<noteq> None \<longrightarrow> attrs (port_app s' p) j \<noteq> None)"

lemma registration_ok:
  assumes f: "found s vid (Some v) s1" and p: "p < port_max s"
    and g: "g = vlan_registered_set p \<or> g = vlan_registered_clear p"
  shows "ind_ok s p (mvrp_map_update_vlan (upd_vlan s1 v g) v new)"
    and "\<exists>a. map_post (upd_vlan s1 v g) {v} v (g a) (mvrp_map_update_vlan (upd_vlan s1 v g) v new) \<and>
      vheap s1 v = Some a \<and> vlan_id a = vid"
proof -
  obtain a where m: "mvrp_mid s1 {v}" and a: "vheap s1 v = Some a" "vlan_id a = vid"
    "\<forall>p. is_vlan_declared a p \<longrightarrow> vlan_want s1 a p" and c: "ctx_same s s1" "port_app s1 = port_app s"
    using f by (auto simp: found_def)
  have ho: "heap_ok s1" using m by (simp add: mvrp_mid_def)
  have ga: "vlan_id (g a) = vlan_id a" "declared_state (g a) = declared_state a" "ref_count (g a) = ref_count a"
    "is_vlan_user_declared (g a) = is_vlan_user_declared a"
    using g by (auto simp: vlan_registered_set_def vlan_registered_clear_def is_vlan_user_declared_def fun_eq_iff)
  let ?s = "upd_vlan s1 v g"
  have r: "is_vlan_user_declared (g a) q" if "ref_count (g a) q \<noteq> 0" for q
    using heap_okD(5) [OF ho a(1)] that by (simp add: ga)
  note u = upd_vlan_mid [where f = g, OF m _ a(1) ga(1,2) r]
  have post: "map_post ?s {v} v (g a) (mvrp_map_update_vlan ?s v new)" using map_update_vlan_inv u by simp
  have "is_vlan_declared (g a) p \<longrightarrow> vlan_want ?s (g a) p"
    using a(3) want_own_registration [of s1 ?s p a] g ga(2) by (auto simp: is_vlan_declared_def)
  moreover have "port_app ?s = port_app s" "port_max ?s = port_max s" using c by (simp_all add: upd_vlan_def ctx_same_def)
  ultimately have "\<forall>j. attrs (port_app s p) j \<noteq> None \<longrightarrow> attrs (port_app (mvrp_map_update_vlan ?s v new) p) j \<noteq> None"
    using post p unfolding map_post_def by metis
  then show "ind_ok s p (mvrp_map_update_vlan ?s v new)"
    using post ctx_same_trans [OF c(1) ctx_same_trans [of s1 ?s]] by (simp add: map_post_def ind_ok_def mvrp_inv_def)
  show "\<exists>a. map_post ?s {v} v (g a) (mvrp_map_update_vlan ?s v new) \<and> vheap s1 v = Some a \<and> vlan_id a = vid"
    using post a by blast
qed

lemma ind_ok_log: "ind_ok s p s' \<Longrightarrow> ind_ok s p (s'\<lparr>fdb_calls := l\<rparr>)" "ind_ok s p s' \<Longrightarrow> ind_ok s p (s'\<lparr>use_after_free := b\<rparr>)"
  by (auto simp: ind_ok_def mvrp_inv_def elim!: mid_cong ctx_same_trans)

lemma join_indication_ok:
  assumes i: "mvrp_inv s" and p: "p < port_max s"
  shows "ind_ok s p (mvrp_join_indication s p i new)"
proof -
  let ?vid = "attr_vid (get_attr (port_app s p) i)"
  obtain r s1 where e: "(case mvrp_find_vlan s ?vid of Some v \<Rightarrow> (Some v, s) | None \<Rightarrow> mvrp_create_vlan s ?vid) = (r, s1)" by force
  note f = find_create_found [OF i e]
  show ?thesis
  proof (cases r)
    case None
    then show ?thesis using e f by (simp add: mvrp_join_indication_def Let_def found_def ind_ok_def)
  next
    case (Some v)
    note ok = registration_ok(1) [OF f [unfolded Some] p, of "vlan_registered_set p" new]
    then show ?thesis using e Some ind_ok_log(1) [OF ok] by (simp add: mvrp_join_indication_def Let_def)
  qed
qed

lemma leave_indication_ok:
  assumes i: "mvrp_inv s" and p: "p < port_max s"
  shows "ind_ok s p (mvrp_leave_indication s p i)"
proof (cases "mvrp_find_vlan s (attr_vid (get_attr (port_app s p) i))")
  case None
  then show ?thesis using i by (simp add: mvrp_leave_indication_def ind_ok_def ctx_same_def)
next
  case (Some v)
  note ok = registration_ok(1) [OF find_found [OF i Some] p, of "vlan_registered_clear p" False]
  then show ?thesis
    using Some ind_ok_log [OF ok] by (simp add: mvrp_leave_indication_def Let_def split: option.split)
qed

text \<open>The invariant does not look at what MRP changes on its own.\<close>

lemma set_port_inv:
  assumes i: "mvrp_inv s" and p: "p < port_max s" and init: "srp_initialized s p" and ok: "mrp_port_ok three_bytes app"
    and k: "mrp_keep (port_app s p) app"
  shows "mvrp_inv (set_port s p app)"
proof -
  let ?s = "set_port s p app"
  have m: "mvrp_mid s {}" using i by (simp add: mvrp_inv_def)
  have fr: "mrp_frame (port_app s q) (port_app ?s q)" "declares (port_app ?s q) = declares (port_app s q)" for q
    using k by (simp_all add: set_port_def mrp_keep_def)
  have e: "vheap ?s = vheap s" "port_max ?s = port_max s" "port_good ?s = port_good s" "srp_initialized ?s = srp_initialized s"
    by (simp_all add: set_port_def port_good_def fun_eq_iff)
  have "mvrp_cfg (port_app s p)" using m init p by (auto simp: mvrp_mid_def ports_ok_def port_good_def)
  moreover have "enabled (port_app s p)" using m init p by (auto simp: mvrp_mid_def ports_ok_def port_good_def)
  ultimately have pg: "port_good s p app" using init ok cfg_frame [of "port_app s p" app] k by (simp add: port_good_def mrp_keep_def mrp_port_ok_def mrp_frame_def)
  have "heap_ok ?s = heap_ok s" by (simp only: heap_ok_def set_port_def) simp
  moreover have "ports_ok ?s" using m pg unfolding mvrp_mid_def ports_ok_def e by (simp add: set_port_def)
  moreover have "sync_ok ?s = sync_ok s" by (simp only: sync_ok_def e fr(2))
  moreover have "vlan_ok ?s b = vlan_ok s b" for b
    by (rule vlan_ok_cong) (simp_all add: fr e(2), simp add: set_port_def vlan_want_def is_mvrp_port_forwarding_def
        is_vlan_registered_other_forwarding_def)
  ultimately show ?thesis using m unfolding mvrp_inv_def mvrp_mid_def e(1) by blast
qed

subsection \<open>MVRP is a client of MRP\<close>

definition mvrp_valid :: "mvrp_ctx \<Rightarrow> nat \<Rightarrow> bool" where
  "mvrp_valid s p \<longleftrightarrow> p < port_max s \<and> srp_initialized s p"

lemma mvrp_ops_simps [simp]:
  "op_app mvrp_ops = port_app" "op_set_app mvrp_ops = set_port" "mad_join_indication mvrp_ops = mvrp_join_indication"
  "mad_leave_indication mvrp_ops = mvrp_leave_indication" "attribute_check mvrp_rx_ops = mvrp_attribute_check"
  "event_length mvrp_rx_ops = mvrp_event_length" "vector_handler mvrp_rx_ops = mvrp_vector_handler"
  by (simp_all add: mvrp_ops_def mvrp_rx_ops_def)

lemma ctx_same_valid: "ctx_same s s' \<Longrightarrow> mvrp_valid s' = mvrp_valid s"
  by (simp add: ctx_same_def mvrp_valid_def fun_eq_iff)

lemma ind_ok_client:
  assumes "ind_ok s p s'" and "mvrp_valid s p" and "enabled (port_app s p)" and "attrs (port_app s p) i \<noteq> None"
  shows "mvrp_inv s' \<and> mvrp_valid s' = mvrp_valid s \<and> enabled (port_app s' p) \<and> attrs (port_app s' p) i \<noteq> None"
  using assms ctx_same_valid [of s s'] by (simp add: ind_ok_def) (simp add: ctx_same_def mvrp_valid_def mrp_frame_def)

lemma inv_port_good: "mvrp_inv s \<Longrightarrow> mvrp_valid s p \<Longrightarrow> mrp_port_ok three_bytes (port_app s p) \<and> mvrp_cfg (port_app s p) \<and>
    enabled (port_app s p)"
  by (auto simp: mvrp_inv_def mvrp_mid_def ports_ok_def mvrp_valid_def port_good_def mrp_port_ok_def)

interpretation mvrp_lens: mrp_lens mvrp_ops
  by unfold_locales (simp_all add: set_port_def)

interpretation mvrp_cl: mrp_client mvrp_ops three_bytes mvrp_inv mvrp_valid
proof unfold_locales
  fix s p i new app assume s: "mvrp_inv s" "mvrp_valid s p"
  then show "mrp_port_ok three_bytes (op_app mvrp_ops s p)" using inv_port_good by simp
  show "mvrp_inv (op_set_app mvrp_ops s p app) \<and> mvrp_valid (op_set_app mvrp_ops s p app) = mvrp_valid s"
    if "mrp_port_ok three_bytes app" "mrp_keep (op_app mvrp_ops s p) app"
    using set_port_inv [OF s(1)] s(2) that by (simp add: mvrp_valid_def) (simp add: set_port_def mvrp_valid_def fun_eq_iff)
  assume a: "enabled (op_app mvrp_ops s p)" "attrs (op_app mvrp_ops s p) i \<noteq> None"
  have p: "p < port_max s" using s(2) by (simp add: mvrp_valid_def)
  show "mvrp_inv (mad_join_indication mvrp_ops s p i new) \<and> mvrp_valid (mad_join_indication mvrp_ops s p i new) = mvrp_valid s \<and>
      enabled (op_app mvrp_ops (mad_join_indication mvrp_ops s p i new) p) \<and>
      attrs (op_app mvrp_ops (mad_join_indication mvrp_ops s p i new) p) i \<noteq> None"
    using ind_ok_client [OF join_indication_ok [OF s(1) p] s(2)] a by simp
  show "mvrp_inv (mad_leave_indication mvrp_ops s p i) \<and> mvrp_valid (mad_leave_indication mvrp_ops s p i) = mvrp_valid s \<and>
      enabled (op_app mvrp_ops (mad_leave_indication mvrp_ops s p i) p) \<and>
      attrs (op_app mvrp_ops (mad_leave_indication mvrp_ops s p i) p) i \<noteq> None"
    using ind_ok_client [OF leave_indication_ok [OF s(1) p] s(2)] a by simp
qed

subsection \<open>Reception\<close>

lemma vector_values_ok:
  assumes "mvrp_inv s" and "mvrp_valid s p" and "events + (i + n + 2) div 3 \<le> length buf"
  shows "\<exists>s'. vector_values n p buf events i vid event s = Some s' \<and> mvrp_cl.good s p s'"
  using assms
proof (induction n arbitrary: i vid event s)
  case 0
  then show ?case by (simp add: mvrp_cl.good_refl)
next
  case (Suc n)
  have "events + i div 3 < length buf" using Suc.prems(3) by linarith
  then have "rd buf (events + i div 3) = Some (buf ! (events + i div 3))" by (simp add: rd_Some)
  then obtain event1 where ev: "(if i mod 3 = 0 then map_option mrp_get_three_packed_event (rd buf (events + i div 3)) else Some event) =
      Some event1" by (cases "i mod 3 = 0") simp_all
  let ?s = "snd (mrp_process_attribute mvrp_ops p MVRP_ATTR_TYPE_VID (be16 vid) (unat (event1 ! (i mod 3))) s)"
  have "mvrp_cfg (port_app s p)" using inv_port_good [OF Suc.prems(1,2)] by simp
  then have g: "mvrp_cl.good s p ?s"
    by (intro mvrp_cl.process_attribute_sinv [OF Suc.prems(1,2)]) (simp_all add: mvrp_cfg_def del: attr_types_set)
  then have "mvrp_inv ?s" "mvrp_valid ?s p" using mvrp_cl.goodD [OF g Suc.prems(2)] by simp_all
  from Suc.IH [OF this, of "i + 1" "mvrp_increment vid" event1] Suc.prems(3) obtain s' where
    "vector_values n p buf events (i + 1) (mvrp_increment vid) event1 ?s = Some s'" "mvrp_cl.good ?s p s'" by auto
  then show ?case using ev mvrp_cl.good_trans [OF g] by auto
qed

interpretation mvrp_rx: mrp_receiver mvrp_ops three_bytes mvrp_inv mvrp_valid mvrp_rx_ops
proof unfold_locales
  fix s p type len buf off n assume s: "mvrp_inv s" "mvrp_valid s p"
  have cfg: "mvrp_cfg (port_app s p)" using inv_port_good [OF s] by simp
  then show "is_full (op_app mvrp_ops s p)" by (simp add: mvrp_cfg_def)
  assume chk: "attribute_check mvrp_rx_ops type len"
  show "unat type \<in> set (attr_types (op_app mvrp_ops s p))"
    using chk cfg by (simp add: mvrp_attribute_check_def mvrp_cfg_def del: attr_types_set)
  show "\<exists>s'. vector_handler mvrp_rx_ops s p type buf off n = Some s' \<and> mvrp_inv s' \<and> mvrp_valid s' = mvrp_valid s \<and>
      enabled (op_app mvrp_ops s' p) = enabled (op_app mvrp_ops s p)"
    if len: "off + unat len + event_length mvrp_rx_ops type n \<le> length buf"
  proof (cases "n = 0")
    case False
    have "off + 2 + (0 + n + 2) div 3 \<le> length buf" using len chk by (simp add: mvrp_event_length_def mvrp_attribute_check_def)
    note v = vector_values_ok [OF s this]
    have "rd buf off = Some (buf ! off)" "rd buf (off + 1) = Some (buf ! (off + 1))"
      using len chk False by (simp_all add: mvrp_attribute_check_def rd_Some)
    then show ?thesis using v [of "from_be16 (buf ! off) (buf ! (off + 1))" "[]"] False
      by (simp add: mvrp_vector_handler_def) (auto simp: mvrp_cl.good_def)
  qed (use s in \<open>simp add: mvrp_vector_handler_def\<close>)
qed

subsection \<open>Requests\<close>

lemma mid_inv: "mvrp_mid s {v} \<Longrightarrow> vheap s v = Some a \<Longrightarrow> vlan_ok s a \<Longrightarrow> mvrp_inv s"
  unfolding mvrp_inv_def mvrp_mid_def by (metis empty_iff insert_iff option.inject)

lemma inv_mid: "mvrp_inv s \<Longrightarrow> mvrp_mid s V"
  unfolding mvrp_inv_def by (erule mid_mono) simp

lemma inv_heap_ok: "mvrp_inv s \<Longrightarrow> heap_ok s"
  by (simp add: mvrp_inv_def mvrp_mid_def)

lemma inv_vlan_ok: "mvrp_inv s \<Longrightarrow> vheap s v = Some a \<Longrightarrow> vlan_ok s a"
  unfolding mvrp_inv_def mvrp_mid_def by blast

lemma upd_ref_inv:
  assumes m: "mvrp_mid s {v}" and v: "vheap s v = Some a" and ok: "vlan_ok s a"
    and r: "\<And>q. c q \<noteq> 0 \<Longrightarrow> is_vlan_user_declared a q" and that: "g a = c"
  shows "mvrp_inv (upd_vlan s v (\<lambda>a. a\<lparr>ref_count := g a\<rparr>))"
proof -
  let ?f = "\<lambda>a. a\<lparr>ref_count := g a\<rparr>" and ?s = "upd_vlan s v (\<lambda>a. a\<lparr>ref_count := g a\<rparr>)"
  have u: "mvrp_mid ?s {v}" "vheap ?s v = Some (?f a)"
    by (rule upd_vlan_mid [OF m _ v]; use r that in \<open>simp add: is_vlan_user_declared_def\<close>)+
  have "vlan_ok ?s b = vlan_ok s b" for b
    by (rule vlan_ok_cong) (simp_all add: upd_vlan_def vlan_want_def is_mvrp_port_forwarding_def
        is_vlan_registered_other_forwarding_def)
  moreover have "vlan_ok s (?f a) = vlan_ok s a"
    by (simp add: vlan_ok_def vlan_want_def is_vlan_declared_def is_vlan_registered_other_forwarding_def
        is_vlan_user_declared_def is_vlan_registered_any_def is_vlan_user_declared_any_def)
  ultimately show ?thesis using mid_inv [OF u] ok by simp
qed

lemma register_ok:
  assumes i: "mvrp_inv s" and r: "mvrp_register_vlan_member s l vid = (rc, s')"
  shows "mvrp_inv s' \<and> ctx_same s s' \<and> (rc = GENAVB_SUCCESS \<longrightarrow> (\<exists>p v a. logical_to_mvrp_port s l = Some p \<and>
    mvrp_find_vlan s' vid = Some v \<and> vheap s' v = Some a \<and> is_vlan_user_declared a p))"
proof (cases "logical_to_mvrp_port s l")
  case None
  then show ?thesis using i r by (auto simp: mvrp_register_vlan_member_def ctx_same_def)
next
  case (Some p)
  then have p: "p < port_max s"
    by (auto simp: logical_to_mvrp_port_def find_Some_iff split: option.splits if_splits)
  have "port_max s \<le> 16" using i by (simp add: mvrp_inv_def mvrp_mid_def ports_ok_def)
  with p have p16: "p < 16" by simp
  obtain w s1 new where e: "(case mvrp_find_vlan s vid of Some v \<Rightarrow> (Some v, s, False)
      | None \<Rightarrow> case mvrp_create_vlan s vid of (r, s1) \<Rightarrow> (r, s1, True)) = (w, s1, new)" by (metis prod_cases3)
  then have "(case mvrp_find_vlan s vid of Some v \<Rightarrow> (Some v, s) | None \<Rightarrow> mvrp_create_vlan s vid) = (w, s1)"
    by (auto split: option.splits prod.splits)
  note f = find_create_found [OF i this]
  show ?thesis
  proof (cases w)
    case None
    then show ?thesis using f r e Some by (auto simp: mvrp_register_vlan_member_def Let_def found_def)
  next
    case (Some v)
    obtain a where m: "mvrp_mid s1 {v}" and a: "vheap s1 v = Some a" "vlan_id a = vid"
      "(\<exists>p. ref_count a p \<noteq> 0) \<longrightarrow> vlan_ok s1 a" and c: "ctx_same s s1"
      using f Some by (auto simp: found_def)
    have ho: "heap_ok s1" using m by (simp add: mvrp_mid_def)
    let ?inc = "\<lambda>a. a\<lparr>ref_count := (ref_count a)(p := ref_count a p + 1)\<rparr>"
    define s2 where "s2 = (if ref_count (get_vlan s1 v) p = 0
      then mvrp_map_update_vlan (upd_vlan s1 v (vlan_user_declaration_set p)) v new else s1)"
    have s': "rc = GENAVB_SUCCESS" "s' = upd_vlan s2 v ?inc"
      using r e Some \<open>logical_to_mvrp_port s l = Some p\<close> by (auto simp: mvrp_register_vlan_member_def Let_def s2_def)
    have "\<exists>b. mvrp_mid s2 {v} \<and> ctx_same s1 s2 \<and> vheap s2 v = Some b \<and> vlan_id b = vid \<and> is_vlan_user_declared b p \<and>
      (\<forall>q. ref_count b q \<noteq> 0 \<longrightarrow> is_vlan_user_declared b q) \<and> vlan_ok s2 b"
    proof (cases "ref_count a p = 0")
      case False
      then show ?thesis using a m heap_okD(5) [OF ho a(1)] by (auto simp: s2_def get_vlan_def ctx_same_def)
    next
      case True
      let ?b = "vlan_user_declaration_set p a" and ?s = "upd_vlan s1 v (vlan_user_declaration_set p)"
      have b: "is_vlan_user_declared ?b q \<longleftrightarrow> q = p \<or> is_vlan_user_declared a q" "ref_count ?b q = ref_count a q" "vlan_id ?b = vid"
          "declared_state ?b = declared_state a" for q
        using p16 a(2) by (auto simp: vlan_user_declaration_set_def is_vlan_user_declared_def bit_set_bit_iff dest: bit_imp_le_length)
      have u: "mvrp_mid ?s {v}" "vheap ?s v = Some ?b"
        by (rule upd_vlan_mid [OF m _ a(1)]; use b heap_okD(5) [OF ho a(1)] a(2) in simp)+
      have any: "is_vlan_user_declared_any ?b" using b(1) [of p]
        by (auto simp: is_vlan_user_declared_any_def is_vlan_user_declared_def)
      have post: "map_post ?s {v} v ?b s2"
        using map_update_vlan_inv [OF u, of new] True a(1) by (simp add: s2_def get_vlan_def)
      then obtain d where d: "vheap s2 v = Some (?b\<lparr>declared_state := d\<rparr>)" and i2: "mvrp_inv s2" and cs: "ctx_same ?s s2"
        using any by (auto simp: map_post_def mvrp_inv_def)
      have "ctx_same s1 s2" using ctx_same_trans [OF _ cs, of s1] by simp
      then show ?thesis using d i2 inv_mid [OF i2] inv_vlan_ok [OF i2 d] b heap_okD(5) [OF ho a(1)] by simp
    qed
    then obtain b where b: "mvrp_mid s2 {v}" "ctx_same s1 s2" "vheap s2 v = Some b" "vlan_id b = vid" "is_vlan_user_declared b p"
      "\<forall>q. ref_count b q \<noteq> 0 \<longrightarrow> is_vlan_user_declared b q" "vlan_ok s2 b" by blast
    have inv: "mvrp_inv s'" unfolding s'
      by (rule upd_ref_inv [OF b(1,3,7), where c = "(ref_count b)(p := ref_count b p + 1)"]) (use b in \<open>auto split: if_splits\<close>)
    have vb: "vheap s' v = Some (?inc b)" using b(3) by (simp add: s' upd_vlan_def get_vlan_def)
    have "mvrp_find_vlan s' vid = Some v" using find_vlan_eq [OF inv_heap_ok [OF inv] vb] b(4) by simp
    moreover have "ctx_same s s'" using ctx_same_trans [OF c ctx_same_trans [OF b(2)]] by (simp add: s')
    ultimately show ?thesis using inv vb b(5) \<open>logical_to_mvrp_port s l = Some p\<close> by (simp add: is_vlan_user_declared_def)
  qed
qed

text \<open>The last reference of a port withdraws its request; the others only decrement the count.\<close>

lemma deregister_step:
  assumes i: "mvrp_inv s" and p: "logical_to_mvrp_port s l = Some p" and v: "mvrp_find_vlan s vid = Some v"
    and a: "vheap s v = Some a" and r: "mvrp_deregister_vlan_member s l vid = (rc, s')"
  shows "rc = GENAVB_SUCCESS"
    and "if ref_count a p > 1 then s' = upd_vlan s v (\<lambda>a. a\<lparr>ref_count := (ref_count a)(p := ref_count a p - 1)\<rparr>)
      else \<exists>t c. map_post t {v} v c s' \<and> ctx_same s t \<and> \<not> is_vlan_user_declared c p \<and> ref_count c p = 0"
proof -
  show "rc = GENAVB_SUCCESS" using r p v by (simp add: mvrp_deregister_vlan_member_def Let_def)
  have nz: "ref_count a p - 1 \<noteq> 0" if "ref_count a p > 1" using that by (metis eq_iff_diff_eq_0 less_irrefl)
  have z: "ref_count a p - 1 = 0" if "\<not> ref_count a p > 1" "ref_count a p \<noteq> 0"
    using that by (metis eq_iff_diff_eq_0 word_gt_0 linorder_neqE word_less_1)
  let ?f = "\<lambda>a. a\<lparr>ref_count := (ref_count a)(p := ref_count a p - 1)\<rparr>"
  let ?s1 = "if ref_count a p \<noteq> 0 then upd_vlan s v ?f else s" and ?b = "if ref_count a p \<noteq> 0 then ?f a else a"
  let ?s = "upd_vlan ?s1 v (vlan_user_declaration_clear p)" and ?c = "vlan_user_declaration_clear p ?b"
  have ref: "ref_count a q \<noteq> 0 \<Longrightarrow> is_vlan_user_declared a q" for q using heap_okD(5) [OF inv_heap_ok [OF i] a] by blast
  have last: "\<exists>t c. map_post t {v} v c s' \<and> ctx_same s t \<and> \<not> is_vlan_user_declared c p \<and> ref_count c p = 0" if l: "\<not> ref_count a p > 1"
  proof -
    have b: "ref_count ?b p = 0" using z [OF l] by auto
    have b1: "vheap ?s1 v = Some ?b" using a by (simp add: upd_vlan_def get_vlan_def)
    have s': "s' = mvrp_map_update_vlan ?s v False"
      using r p v a z [OF l] by (auto simp: mvrp_deregister_vlan_member_def Let_def get_vlan_def upd_vlan_def split: if_splits)
    have "mvrp_mid (upd_vlan s v ?f) {v}" if "ref_count a p \<noteq> 0"
      by (rule upd_vlan_mid [OF inv_mid [OF i, of "{v}"] _ a]) (use ref that in \<open>auto simp: is_vlan_user_declared_def split: if_splits\<close>)
    then have m1: "mvrp_mid ?s1 {v}" using inv_mid [OF i] by simp
    have "is_vlan_user_declared ?c q" if "ref_count ?c q \<noteq> 0" for q
      using that b ref [of q] by (cases "q = p")
        (auto simp: vlan_user_declaration_clear_def is_vlan_user_declared_def bit_unset_bit_iff split: if_splits)
    then have "mvrp_mid ?s {v}" "vheap ?s v = Some ?c"
      by (atomize (full), intro conjI) (rule upd_vlan_mid [OF m1 _ b1]; simp add: vlan_user_declaration_clear_def)+
    from map_update_vlan_inv [OF this, of False] have "map_post ?s {v} v ?c s'" by (simp only: s')
    moreover have "ctx_same s ?s1" by (simp add: ctx_same_def upd_vlan_def)
    then have "ctx_same s ?s" using ctx_same_trans [of s ?s1 ?s] by simp
    moreover have "\<not> is_vlan_user_declared ?c p" "ref_count ?c p = 0"
      using b by (simp_all add: is_vlan_user_declared_def vlan_user_declaration_clear_def bit_unset_bit_iff)
    ultimately show ?thesis by blast
  qed
  have "s' = upd_vlan s v ?f" if "ref_count a p > 1"
    using r p v a nz [OF that] that by (auto simp: mvrp_deregister_vlan_member_def Let_def get_vlan_def upd_vlan_def)
  then show "if ref_count a p > 1 then s' = upd_vlan s v ?f
      else \<exists>t c. map_post t {v} v c s' \<and> ctx_same s t \<and> \<not> is_vlan_user_declared c p \<and> ref_count c p = 0"
    using last by simp
qed

lemma deregister_ok:
  assumes i: "mvrp_inv s" and r: "mvrp_deregister_vlan_member s l vid = (rc, s')"
  shows "mvrp_inv s' \<and> ctx_same s s' \<and> (rc = GENAVB_SUCCESS \<longleftrightarrow> logical_to_mvrp_port s l \<noteq> None)"
proof (cases "logical_to_mvrp_port s l")
  case None
  then show ?thesis using i r by (auto simp: mvrp_deregister_vlan_member_def ctx_same_def)
next
  case p: (Some p)
  show ?thesis
  proof (cases "mvrp_find_vlan s vid")
    case None
    then show ?thesis using i r p by (auto simp: mvrp_deregister_vlan_member_def ctx_same_def)
  next
    case (Some v)
    obtain a where a: "vheap s v = Some a" using find_vlan_Some [OF inv_heap_ok [OF i] Some] by blast
    note d = deregister_step [OF i p Some a r]
    have "is_vlan_user_declared a q" if "ref_count a q \<noteq> 0" for q using heap_okD(5) [OF inv_heap_ok [OF i] a] that by blast
    then have "mvrp_inv s' \<and> ctx_same s s'" if "ref_count a p > 1"
      using d(2) that upd_ref_inv [OF inv_mid [OF i] a inv_vlan_ok [OF i a],
          where c = "(ref_count a)(p := ref_count a p - 1)" and g = "\<lambda>a. (ref_count a)(p := ref_count a p - 1)"]
      by (force split: if_splits)
    moreover have "mvrp_inv s' \<and> ctx_same s s'" if h: "\<not> ref_count a p > 1"
    proof -
      obtain t c where "map_post t {v} v c s'" "ctx_same s t" using d(2) h by auto
      then show ?thesis using ctx_same_trans [of s t s'] by (simp add: map_post_def mvrp_inv_def)
    qed
    ultimately show ?thesis using d(1) p by blast
  qed
qed

end
