(* ===== verification/MVRP_Run.thy ===== *)
theory MVRP_Run
  imports MVRP_Inv
begin

section \<open>MVRP from initialization on\<close>

text \<open>
  The port status, \<open>mvrp_init\<close>, and the step relation of the MVRP component: packets, timers, link
  changes, requests. Every reachable state satisfies \<open>mvrp_inv\<close>; the properties of the component follow.
\<close>

subsection \<open>Port status\<close>

lemma map_update_vlans_ok:
  assumes "mvrp_mid s (set vs)" and "distinct vs" and "\<And>v. v \<in> set vs \<Longrightarrow> vheap s v \<noteq> None"
  shows "mvrp_inv (fold (\<lambda>v s. mvrp_map_update_vlan s v False) vs s) \<and>
    ctx_same s (fold (\<lambda>v s. mvrp_map_update_vlan s v False) vs s)"
  using assms
proof (induction vs arbitrary: s)
  case Nil
  then show ?case by (simp add: mvrp_inv_def ctx_same_def)
next
  case (Cons v vs)
  obtain a where a: "vheap s v = Some a" using Cons.prems(3) [of v] by auto
  let ?s = "mvrp_map_update_vlan s v False"
  have post: "map_post s (set (v # vs)) v a ?s" by (rule map_update_vlan_inv [OF Cons.prems(1) a])
  have "set (v # vs) - {v} = set vs" using Cons.prems(2) by auto
  then have m: "mvrp_mid ?s (set vs)" using post unfolding map_post_def by argo
  have c: "ctx_same s ?s" using post unfolding map_post_def by blast
  have "vheap ?s w \<noteq> None" if "w \<in> set vs" for w
  proof -
    have "w \<noteq> v" using that Cons.prems(2) by auto
    then have "vheap ?s w = vheap s w" using post unfolding map_post_def by blast
    then show ?thesis using Cons.prems(3) [of w] that by simp
  qed
  from Cons.IH [OF m _ this] Cons.prems(2) show ?case using ctx_same_trans [OF c] by simp
qed

lemma forwarding_mid:
  assumes i: "mvrp_inv s"
  shows "mvrp_mid (s\<lparr>forwarding_state := f\<rparr>) (set (vlans s))"
proof -
  have m: "heap_ok s" "ports_ok s" "sync_ok s" using i by (simp_all add: mvrp_inv_def mvrp_mid_def)
  let ?s = "s\<lparr>forwarding_state := f\<rparr>"
  have "port_good ?s = port_good s" by (simp add: fun_eq_iff port_good_def)
  then have "heap_ok ?s = heap_ok s" "ports_ok ?s = ports_ok s" "sync_ok ?s = sync_ok s"
    by (simp_all add: heap_ok_def ports_ok_def sync_ok_def)
  then show ?thesis using m heap_okD(2) [OF m(1)] by (auto simp: mvrp_mid_def)
qed

lemma port_status_ok:
  assumes i: "mvrp_inv s"
  shows "mvrp_inv (mvrp_port_status s l up)" and "mvrp_valid (mvrp_port_status s l up) = mvrp_valid s"
    and "logical_to_mvrp_port s l = Some p \<Longrightarrow> is_mvrp_port_forwarding (mvrp_port_status s l up) p = up \<and>
      mvrp_is_operational (mvrp_port_status s l up) p = up"
proof -
  have st: "mvrp_inv (mvrp_port_status s l up) \<and> port_max (mvrp_port_status s l up) = port_max s \<and>
      srp_initialized (mvrp_port_status s l up) = srp_initialized s \<and>
      forwarding_state (mvrp_port_status s l up) = mask_update (forwarding_state s) q up \<and>
      operational_state (mvrp_port_status s l up) = mask_update (operational_state s) q up"
    if q: "logical_to_mvrp_port s l = Some q" for q
  proof -
    define s1 where "s1 = mvrp_update_operational_state s q up"
    define s2 where "s2 = s1\<lparr>forwarding_state := mask_update (forwarding_state s1) q up\<rparr>"
    have "mvrp_inv s1" unfolding mvrp_inv_def
      by (rule mid_cong [OF i [unfolded mvrp_inv_def]]) (simp_all add: s1_def mvrp_update_operational_state_def)
    from forwarding_mid [OF this] inv_heap_ok [OF this]
    have m: "mvrp_mid s2 (set (vlans s2))" and h: "distinct (vlans s2)" "\<And>v. v \<in> set (vlans s2) \<Longrightarrow> vheap s2 v \<noteq> None"
      by (auto simp: s2_def heap_ok_def)
    have "mvrp_port_status s l up = fold (\<lambda>v s. mvrp_map_update_vlan s v False) (vlans s2) s2"
      by (simp add: mvrp_port_status_def q mvrp_update_forwarding_state_def mvrp_map_update_def s2_def s1_def)
    with map_update_vlans_ok [OF m h] show ?thesis
      by (auto simp: ctx_same_def s2_def s1_def mvrp_update_operational_state_def)
  qed
  have none: "mvrp_port_status s l up = s" if "logical_to_mvrp_port s l = None" using that by (simp add: mvrp_port_status_def)
  show "mvrp_inv (mvrp_port_status s l up)" "mvrp_valid (mvrp_port_status s l up) = mvrp_valid s"
    using st none i by (cases "logical_to_mvrp_port s l"; simp add: mvrp_valid_def fun_eq_iff)+
  have "p < port_max s" if "logical_to_mvrp_port s l = Some p"
    using that by (auto simp: logical_to_mvrp_port_def find_Some_iff split: option.splits if_splits)
  moreover have "port_max s \<le> 16" using i by (simp add: mvrp_inv_def mvrp_mid_def ports_ok_def)
  ultimately show "logical_to_mvrp_port s l = Some p \<Longrightarrow> is_mvrp_port_forwarding (mvrp_port_status s l up) p = up \<and>
      mvrp_is_operational (mvrp_port_status s l up) p = up"
    using st [of p] by (simp add: is_mvrp_port_forwarding_def mvrp_is_operational_def mask_update_def bit_set_bit_iff bit_unset_bit_iff)
qed

subsection \<open>Initialization\<close>

text \<open>
  What \<open>mvrp_init\<close> finds: the memory of the MRP applications is as the SRP component allocated it, no attribute and no
  frame yet, and the transmit buffers of the port can hold a frame.
\<close>

definition port_blank :: "mrp_application \<Rightarrow> bool" where
  "port_blank app \<longleftrightarrow> attrs app = Map.empty \<and> \<not> hung app \<and> sent app = [] \<and> leave_timeout app \<noteq> 0 \<and> \<not> enabled app \<and>
     64 \<le> port_mtu app \<and> port_mtu app \<le> DEFAULT_NET_DATA_SIZE \<and>
     (\<forall>n b. tx_alloc app n = Some b \<longrightarrow> length b = DEFAULT_NET_DATA_SIZE) \<and> (\<forall>n. timer_ok app n)"

definition mvrp_fresh :: "mvrp_config \<Rightarrow> mvrp_ctx \<Rightarrow> bool" where
  "mvrp_fresh cfg s \<longleftrightarrow> vheap s = Map.empty \<and> cfg_port_max cfg \<le> 16 \<and> (\<forall>p < cfg_port_max cfg. port_blank (port_app s p))"

lemma init_timers_off:
  assumes b: "port_blank app" and t: "mrp_init_timers ((mvrp_port_config app)\<lparr>app_type := APP_MVRP,
      participant_type := MRP_PARTICIPANT_TYPE_FULL_POINT_TO_POINT, enabled := False,
      mrpdu := replicate MRP_MAX_ATTR_TYPE empty_mrpdu\<rparr>) = (rc, app2)"
    and e: "app3 = app2\<lparr>attributes := replicate MRP_MAX_ATTR_TYPE [], attributes_ordered := replicate MRP_MAX_ATTR_TYPE []\<rparr>"
  shows "rc = 0" "mrp_off three_bytes app3" "mvrp_cfg app3" "malloc_ok app3 = malloc_ok app"
proof -
  let ?tm = "\<lparr>tm_created = True, tm_started = False\<rparr>"
  let ?a = "(mvrp_port_config app)\<lparr>app_type := APP_MVRP, participant_type := MRP_PARTICIPANT_TYPE_FULL_POINT_TO_POINT,
    enabled := False, mrpdu := replicate MRP_MAX_ATTR_TYPE empty_mrpdu\<rparr>"
  have tk: "timer_ok app n" for n using b by (simp add: port_blank_def)
  have rc: "rc = 0" and a3: "app3 = ?a\<lparr>n_timer := n_timer app + 3, leaveall := (leaveall app)\<lparr>la_timer := ?tm\<rparr>, join_timer := ?tm,
      periodic := (periodic app)\<lparr>per_timer := ?tm\<rparr>, attributes := replicate MRP_MAX_ATTR_TYPE [],
      attributes_ordered := replicate MRP_MAX_ATTR_TYPE []\<rparr>"
    using t tk by (simp_all add: e mrp_init_timers_def Let_def mvrp_port_config_def tm_init_def split: if_splits) auto
  have types: "attr_types app3 = [MVRP_ATTR_TYPE_VID]" by (simp add: a3 attr_types_def mvrp_port_config_def)
  have "tx_ok three_bytes app3"
  proof (rule tx_idle)
    show "event_encoder (vector_add_event app3) three_bytes"
      using three.event_encoder_axioms by (simp add: a3 mvrp_port_config_def)
    show "tx_cfg app3 t \<and> attribute_length app3 t \<le> attribute_value_length app3 t" if "t \<in> set (attr_types app3)" for t
      using that b by (simp add: types del: attr_types_set) (simp add: a3 tx_cfg_def mvrp_port_config_def hdr_len_def mrp_hdr_len_def port_blank_def)
  qed (use b in \<open>simp_all add: a3 mvrp_port_config_def port_blank_def\<close>)
  moreover have "store_ok app3"
    using b by (auto simp: store_ok_def lists_ok_def attr_ids_def a3 mvrp_port_config_def port_blank_def nth_replicate)
  ultimately show "mrp_off three_bytes app3"
    using tk b by (simp add: mrp_off_def) (auto simp: a3 mvrp_port_config_def port_blank_def is_full_def bit_test_def)
  show "rc = 0" by (rule rc)
  show "malloc_ok app3 = malloc_ok app" by (simp add: a3 mvrp_port_config_def)
  show "mvrp_cfg app3" using types by (simp add: mvrp_cfg_def a3 mvrp_port_config_def is_full_def bit_test_def)
qed

text \<open>Setting up a port, and what it leaves alone.\<close>

definition init_frame :: "mvrp_ctx \<Rightarrow> mvrp_ctx \<Rightarrow> bool" where
  "init_frame s s' \<longleftrightarrow> vheap s' = vheap s \<and> vlans s' = vlans s \<and> num_vlans s' = num_vlans s \<and> port_max s' = port_max s \<and>
     srp_initialized s' = srp_initialized s \<and> is_bridge s' = is_bridge s \<and> forwarding_state s' = forwarding_state s \<and>
     use_after_free s' = use_after_free s \<and> vlan_malloc s' = vlan_malloc s"

lemma port_init_ok:
  assumes b: "port_blank (port_app s p)" and e: "mvrp_port_init s p cfg = (rc, s')" and rc: "\<not> rc < 0"
  shows "port_good s' p (port_app s' p)" "attrs (port_app s' p) = Map.empty" "init_frame s s'"
    "\<forall>q. q \<noteq> p \<longrightarrow> port_app s' q = port_app s q" "logical_port s' = (logical_port s)(p := cfg_logical_port_list cfg p)" "malloc_ok (port_app s' p) = malloc_ok (port_app s p)"
proof -
  let ?s = "s\<lparr>logical_port := (logical_port s)(p := cfg_logical_port_list cfg p)\<rparr>"
  let ?c = "mvrp_port_config (port_app s p)"
  have "port_good s' p (port_app s' p) \<and> attrs (port_app s' p) = Map.empty \<and> init_frame s s' \<and>
    (\<forall>q. q \<noteq> p \<longrightarrow> port_app s' q = port_app s q) \<and> logical_port s' = (logical_port s)(p := cfg_logical_port_list cfg p) \<and>
    malloc_ok (port_app s' p) = malloc_ok (port_app s p)"
  proof (cases "srp_initialized s p")
    case False
    then show ?thesis using b e
      by (auto simp: mvrp_port_init_def Let_def set_port_def port_good_def port_blank_def mvrp_port_config_def init_frame_def)
  next
    case True
    let ?i = "?c\<lparr>app_type := APP_MVRP, participant_type := MRP_PARTICIPANT_TYPE_FULL_POINT_TO_POINT, enabled := False,
      mrpdu := replicate MRP_MAX_ATTR_TYPE empty_mrpdu\<rparr>"
    obtain r app2 where t: "mrp_init_timers ?i = (r, app2)" by force
    define app3 where "app3 = app2\<lparr>attributes := replicate MRP_MAX_ATTR_TYPE [], attributes_ordered := replicate MRP_MAX_ATTR_TYPE []\<rparr>"
    note o = init_timers_off [OF b t app3_def]
    have "mrp_init ?c APP_MVRP MRP_PARTICIPANT_TYPE_FULL_POINT_TO_POINT = (0, mrp_enable app3)"
      using t o(1) by (simp only: mrp_init_def Let_def prod.case app3_def) simp
    then have s': "s' = set_port (set_port ?s p ?c) p (mrp_enable app3)"
      using e rc True by (auto simp: mvrp_port_init_def Let_def set_port_def split: if_splits)
    have "mrp_frame (app3\<lparr>enabled := True\<rparr>) (mrp_enable app3) \<and> attrs (mrp_enable app3) = attrs app3"
      using o(2) leaveall_step_fields [where ev = MRP_EVENT_BEGIN and app = app3]
      by (auto simp: mrp_enable_def mrp_off_def Let_def mrp_frame_def mrp_periodic_sm_def leaveall_step_def leaveall_random_def attr_types_def)
    then have "mvrp_cfg (mrp_enable app3)" "attrs (mrp_enable app3) = Map.empty" "malloc_ok (mrp_enable app3) = malloc_ok (port_app s p)"
      using o(2-4) cfg_frame [of "app3\<lparr>enabled := True\<rparr>" "mrp_enable app3"]
      by (simp_all add: mvrp_cfg_def mrp_off_def is_full_def attr_types_def mrp_frame_def)
    then show ?thesis using True enable_inv [OF o(2)]
      by (simp add: s' port_good_def mrp_port_ok_def set_port_def init_frame_def)
  qed
  then show "port_good s' p (port_app s' p)" "attrs (port_app s' p) = Map.empty" "init_frame s s'"
    "\<forall>q. q \<noteq> p \<longrightarrow> port_app s' q = port_app s q" "logical_port s' = (logical_port s)(p := cfg_logical_port_list cfg p)" "malloc_ok (port_app s' p) = malloc_ok (port_app s p)" by blast+
qed

lemma init_ports_ok:
  assumes "init_ports cfg ps s = (None, s')" and "distinct ps" and "\<And>p. p \<in> set ps \<Longrightarrow> port_blank (port_app s p)"
  shows "init_frame s s' \<and> (\<forall>q. q \<notin> set ps \<longrightarrow> port_app s' q = port_app s q) \<and>
    (\<forall>q. logical_port s' q = (if q \<in> set ps then cfg_logical_port_list cfg q else logical_port s q)) \<and>
    (\<forall>p \<in> set ps. port_good s' p (port_app s' p) \<and> attrs (port_app s' p) = Map.empty \<and>
       malloc_ok (port_app s' p) = malloc_ok (port_app s p))"
  using assms
proof (induction ps arbitrary: s)
  case Nil
  then show ?case by (simp add: init_frame_def)
next
  case (Cons p ps)
  obtain rc s1 where e: "mvrp_port_init s p cfg = (rc, s1)" by force
  then have rc: "\<not> rc < 0" and e2: "init_ports cfg ps s1 = (None, s')" using Cons.prems(1) by (auto split: if_splits)
  note p = port_init_ok [OF _ e rc]
  have b: "port_blank (port_app s p)" using Cons.prems(3) by simp
  have "port_blank (port_app s1 q)" if "q \<in> set ps" for q
  proof -
    have "q \<noteq> p" using that Cons.prems(2) by auto
    then show ?thesis using that Cons.prems(3) [of q] p(4) [OF b] by simp
  qed
  note i = Cons.IH [OF e2 _ this]
  have "port_good s' p (port_app s1 p)" using p(1) [OF b] i Cons.prems(2)
    by (simp add: port_good_def init_frame_def)
  moreover have "q \<in> set ps \<Longrightarrow> malloc_ok (port_app s' q) = malloc_ok (port_app s q)" for q
    using i p(4) [OF b] Cons.prems(2) by (cases "q = p") auto
  ultimately show ?case using i p(2-6) [OF b] Cons.prems(2) by (auto simp: init_frame_def)
qed

lemma mvrp_init_ok:
  assumes f: "mvrp_fresh cfg s" and e: "mvrp_init s cfg = (0, s')"
  shows "mvrp_inv s'" "port_max s' = cfg_port_max cfg" "srp_initialized s' = srp_initialized s"
    "p < cfg_port_max cfg \<Longrightarrow> logical_port s' p = cfg_logical_port_list cfg p" "is_bridge s' = cfg_is_bridge cfg"
    "vlans s' = []" "vlan_malloc s' = vlan_malloc s" "p < cfg_port_max cfg \<Longrightarrow> malloc_ok (port_app s' p) = malloc_ok (port_app s p)"
proof -
  let ?s1 = "s\<lparr>port_max := cfg_port_max cfg, is_bridge := cfg_is_bridge cfg\<rparr>"
  let ?s2 = "mvrp_map_init (?s1\<lparr>ipc_rx_open := True, ipc_tx_open := True, ipc_tx_sync_open := True\<rparr>)"
  have i: "init_ports cfg [0..<cfg_port_max cfg] ?s2 = (None, s')"
    using e by (auto simp: mvrp_init_def Let_def mvrp_map_init_def split: if_splits option.splits prod.splits)
  have b: "port_blank (port_app ?s2 p)" if "p \<in> set [0..<cfg_port_max cfg]" for p
    using f that by (simp add: mvrp_fresh_def mvrp_map_init_def)
  note p = init_ports_ok [OF i distinct_upt b]
  then have fr: "vheap s' = Map.empty" "vlans s' = []" "num_vlans s' = 0" "port_max s' = cfg_port_max cfg"
    using f by (simp_all add: init_frame_def mvrp_map_init_def mvrp_fresh_def)
  show "port_max s' = cfg_port_max cfg" "vlans s' = []" by (rule fr)+
  show "vlan_malloc s' = vlan_malloc s" using p by (simp add: init_frame_def mvrp_map_init_def)
  show "p < cfg_port_max cfg \<Longrightarrow> malloc_ok (port_app s' p) = malloc_ok (port_app s p)" using p by (simp add: mvrp_map_init_def)
  show "srp_initialized s' = srp_initialized s" "is_bridge s' = cfg_is_bridge cfg"
    using p by (simp_all add: init_frame_def mvrp_map_init_def)
  show "p < cfg_port_max cfg \<Longrightarrow> logical_port s' p = cfg_logical_port_list cfg p" using p by simp
  show "mvrp_inv s'" using p f fr
    by (simp add: mvrp_inv_def mvrp_mid_def heap_ok_def ports_ok_def sync_ok_def mvrp_fresh_def off_declares)
qed

lemma init_ports_total:
  assumes "distinct ps" and "\<And>p. p \<in> set ps \<Longrightarrow> port_blank (port_app s p)" and "\<And>p. net_multi cfg p"
  shows "\<exists>s'. init_ports cfg ps s = (None, s')"
  using assms(1,2)
proof (induction ps arbitrary: s)
  case (Cons p ps)
  have b: "port_blank (port_app s p)" using Cons.prems(2) by simp
  let ?i = "(mvrp_port_config (port_app s p))\<lparr>app_type := APP_MVRP, participant_type := MRP_PARTICIPANT_TYPE_FULL_POINT_TO_POINT,
    enabled := False, mrpdu := replicate MRP_MAX_ATTR_TYPE empty_mrpdu\<rparr>"
  obtain r app2 where t: "mrp_init_timers ?i = (r, app2)" by force
  have "r = 0" by (rule init_timers_off(1) [OF b t refl])
  then have "fst (mrp_init (mvrp_port_config (port_app s p)) APP_MVRP MRP_PARTICIPANT_TYPE_FULL_POINT_TO_POINT) = 0"
    using t by (simp only: mrp_init_def Let_def prod.case) simp
  then have "fst (mvrp_port_init s p cfg) = 0" using assms(3)
    by (auto simp: mvrp_port_init_def Let_def set_port_def split: prod.splits)
  then obtain s1 where e: "mvrp_port_init s p cfg = (0, s1)" by (metis prod.collapse)
  have "port_blank (port_app s1 q)" if "q \<in> set ps" for q
  proof -
    have "q \<noteq> p" using that Cons.prems(1) by auto
    then show ?thesis using that Cons.prems(2) [of q] port_init_ok(4) [OF b e] by simp
  qed
  from Cons.IH [OF _ this] e Cons.prems(1) show ?case by simp
qed simp

lemma mvrp_init_total:
  assumes "mvrp_fresh cfg s" and "\<And>p. net_multi cfg p" and "\<And>i. ipc_init cfg i"
  shows "\<exists>s'. mvrp_init s cfg = (0, s')"
proof -
  let ?s = "mvrp_map_init (s\<lparr>port_max := cfg_port_max cfg, is_bridge := cfg_is_bridge cfg, ipc_rx_open := True,
    ipc_tx_open := True, ipc_tx_sync_open := True\<rparr>)"
  obtain s' where "init_ports cfg [0..<cfg_port_max cfg] ?s = (None, s')"
    using init_ports_total [OF distinct_upt _ assms(2), of 0 "cfg_port_max cfg" ?s] assms(1)
    by (auto simp: mvrp_fresh_def mvrp_map_init_def)
  then show ?thesis using assms(3) by (simp add: mvrp_init_def Let_def mvrp_map_init_def)
qed

subsection \<open>Steps\<close>

text \<open>
  What can happen to the MVRP component: a packet arrives (the driver's buffer is larger than the
  packet), a running timer of a port expires, a link changes, an application or the media stack makes a
  request.
\<close>

inductive mvrp_step :: "mvrp_ctx \<Rightarrow> mvrp_ctx \<Rightarrow> bool" where
  packet: "srp_initialized s p \<Longrightarrow> rx_len desc + 2 \<le> length (rx_buf desc) \<Longrightarrow> rx_l2 desc + 6 \<le> length (rx_buf desc) \<Longrightarrow>
    rx_l3 desc < length (rx_buf desc) \<Longrightarrow> mvrp_process_packet s p desc = Some (rc, s') \<Longrightarrow> mvrp_step s s'"
| join_timer: "mvrp_valid s p \<Longrightarrow> enabled (port_app s p) \<Longrightarrow> mvrp_step s (join_timer_expired mvrp_ops p s)"
| leaveall_timer: "mvrp_valid s p \<Longrightarrow> enabled (port_app s p) \<Longrightarrow> mvrp_step s (leaveall_timer_expired mvrp_ops p s)"
| periodic_timer: "mvrp_valid s p \<Longrightarrow> enabled (port_app s p) \<Longrightarrow> mvrp_step s (on_app mvrp_ops p periodic_timer_expired s)"
| leave_timer: "mvrp_valid s p \<Longrightarrow> enabled (port_app s p) \<Longrightarrow> attrs (port_app s p) i \<noteq> None \<Longrightarrow>
    mvrp_step s (leave_timer_expired mvrp_ops p i s)"
| port_status: "mvrp_step s (mvrp_port_status s l up)"
| register: "mvrp_step s (snd (mvrp_register_vlan_member s l vid))"
| deregister: "mvrp_step s (snd (mvrp_deregister_vlan_member s l vid))"
| ipc: "mvrp_step s (mvrp_ipc_rx s desc)"

inductive mvrp_reachable :: "mvrp_config \<Rightarrow> mvrp_ctx \<Rightarrow> bool" for cfg where
  init: "mvrp_fresh cfg s \<Longrightarrow> mvrp_init s cfg = (0, s') \<Longrightarrow> mvrp_reachable cfg s'"
| step: "mvrp_reachable cfg s \<Longrightarrow> mvrp_step s s' \<Longrightarrow> mvrp_reachable cfg s'"

inductive_cases mvrp_stepE: "mvrp_step s s'"

lemma ipc_send_inv: "mvrp_inv s \<Longrightarrow> mvrp_inv (ipc_send m s)"
  unfolding mvrp_inv_def by (erule mid_cong) (simp_all add: ipc_send_def)

lemma ipc_rx_ok:
  assumes "mvrp_inv s"
  shows "mvrp_inv (mvrp_ipc_rx s desc)"
  using assms register_ok [OF assms] deregister_ok [OF assms]
  by (cases "ipc_type desc")
    (auto simp: mvrp_ipc_rx_def Let_def mvrp_ipc_error_response_def mvrp_ipc_vlan_response_def
      split: prod.splits intro!: ipc_send_inv)

lemma process_packet_inv:
  assumes "mvrp_inv s" and "srp_initialized s p" and "rx_len desc + 2 \<le> length (rx_buf desc)"
    and "rx_l2 desc + 6 \<le> length (rx_buf desc)" and "rx_l3 desc < length (rx_buf desc)"
  shows "\<exists>rc s'. mvrp_process_packet s p desc = Some (rc, s') \<and> rc \<in> {0, -1} \<and> mvrp_inv s' \<and> mvrp_valid s' = mvrp_valid s"
proof (cases "p < port_max s")
  case True
  then have "mvrp_valid s p" using assms(2) by (simp add: mvrp_valid_def)
  from mvrp_rx.process_packet_ok [OF assms(1) this assms(3-5)] show ?thesis
    using True assms(1) by (auto simp: mvrp_process_packet_def mvrp_cl.good_def)
qed (use assms in \<open>simp add: mvrp_process_packet_def\<close>)

lemma step_inv: "mvrp_step s s' \<Longrightarrow> mvrp_inv s \<Longrightarrow> mvrp_inv s'"
proof (induction rule: mvrp_step.induct)
  case (packet s p desc rc s')
  then show ?case using process_packet_inv [of s p desc] by auto
next
  case (join_timer s p)
  then show ?case using mvrp_cl.timers_sinv(1) [of s p] by (simp add: mvrp_cl.good_def)
next
  case (leaveall_timer s p)
  then show ?case using mvrp_cl.timers_sinv(2) [of s p] by (simp add: mvrp_cl.good_def)
next
  case (periodic_timer s p)
  then show ?case using mvrp_cl.timers_sinv(3) [of s p] by (simp add: mvrp_cl.good_def)
next
  case (leave_timer s p i)
  then show ?case using mvrp_cl.leave_timer_sinv [of s p i] by (simp add: mvrp_cl.good_def)
next
  case (port_status s l up)
  then show ?case by (rule port_status_ok)
next
  case (register s l vid)
  then show ?case using register_ok [of s l vid] by (metis prod.collapse)
next
  case (deregister s l vid)
  then show ?case using deregister_ok [of s l vid] by (metis prod.collapse)
next
  case (ipc s desc)
  then show ?case by (rule ipc_rx_ok)
qed

lemma reachable_inv: "mvrp_reachable cfg s \<Longrightarrow> mvrp_inv s"
  by (induction rule: mvrp_reachable.induct) (simp_all add: mvrp_init_ok step_inv)

subsection \<open>Properties\<close>

text \<open>What 802.1Q 10.3 asks for, on the bits of the masks.\<close>

definition vlan_propagated :: "mvrp_ctx \<Rightarrow> mvrp_vlan \<Rightarrow> nat \<Rightarrow> bool" where
  "vlan_propagated s a p \<longleftrightarrow> bit (forwarding_state s) p \<and>
     (bit (user_declared a) p \<or> (\<exists>q. q \<noteq> p \<and> bit (registered_state a) q \<and> bit (forwarding_state s) q))"

lemma want_propagated: "vlan_want s a p = vlan_propagated s a p"
proof -
  have "unset_bit p (and x y) \<noteq> 0 \<longleftrightarrow> (\<exists>q. q \<noteq> p \<and> bit x q \<and> bit y q)" for x y :: u16
    by (auto simp: word_nonzero_bit bit_unset_bit_iff bit_and_iff)
  then show ?thesis
    by (auto simp: vlan_want_def vlan_propagated_def is_mvrp_port_forwarding_def is_vlan_registered_other_forwarding_def
        is_vlan_user_declared_def)
qed

lemma declares_eq:
  assumes i: "mvrp_inv s" and p: "mvrp_valid s p"
  shows "declares (port_app s p) \<subseteq> {(MVRP_ATTR_TYPE_VID, be16 (vlan_id a)) | v a. vheap s v = Some a \<and> vlan_propagated s a p}"
    and "mem_ok s \<Longrightarrow> declares (port_app s p) =
      {(MVRP_ATTR_TYPE_VID, be16 (vlan_id a)) | v a. vheap s v = Some a \<and> vlan_propagated s a p}"
proof -
  have pm: "p < port_max s" using p by (simp add: mvrp_valid_def)
  have "sync_ok s" using i by (simp add: mvrp_inv_def mvrp_mid_def)
  then have d: "declares (port_app s p) = {(MVRP_ATTR_TYPE_VID, be16 (vlan_id a)) | v a. vheap s v = Some a \<and> is_vlan_declared a p}"
    using pm unfolding sync_ok_def by blast
  have en: "enabled (port_app s p)" using inv_port_good [OF i p] by simp
  have 1: "is_vlan_declared a p \<Longrightarrow> vlan_propagated s a p" if "vheap s v = Some a" for v a
    using inv_vlan_ok [OF i that] by (simp add: vlan_ok_def want_propagated)
  have 2: "mem_ok s \<Longrightarrow> vlan_propagated s a p \<Longrightarrow> is_vlan_declared a p" if "vheap s v = Some a" for v a
    using inv_vlan_ok [OF i that] pm en by (simp add: vlan_ok_def want_propagated)
  show "declares (port_app s p) \<subseteq> {(MVRP_ATTR_TYPE_VID, be16 (vlan_id a)) | v a. vheap s v = Some a \<and> vlan_propagated s a p}"
    unfolding d using 1 by blast
  assume m: "mem_ok s"
  have "(vheap s v = Some a \<and> is_vlan_declared a p) = (vheap s v = Some a \<and> vlan_propagated s a p)" for v a
    using 1 [of v a] 2 [OF _ m, of v a] by blast
  then show "declares (port_app s p) =
      {(MVRP_ATTR_TYPE_VID, be16 (vlan_id a)) | v a. vheap s v = Some a \<and> vlan_propagated s a p}"
    unfolding d by simp
qed

text \<open>A bridge with two ports, just started.\<close>

definition mvrp_ex0 :: mvrp_ctx where
  "mvrp_ex0 = \<lparr>vheap = Map.empty, next_vlan = 0, vlans = [], num_vlans = 0, forwarding_state = 0, operational_state = 0,
     port_max = 0, is_bridge = False, port_app = (\<lambda>_. (mrp_ex 1500)\<lparr>enabled := False\<rparr>), logical_port = (\<lambda>_. 0),
     srp_initialized = (\<lambda>_. True), vlan_malloc = (\<lambda>_. True), n_vlan_malloc = 0, fdb_calls = [], ipc_rx_open = False,
     ipc_tx_open = False, ipc_tx_sync_open = False, ipc_ok = (\<lambda>_. True), n_ipc = 0, ipc_sent = [], use_after_free = False\<rparr>"

definition mvrp_ex_cfg :: mvrp_config where
  "mvrp_ex_cfg = \<lparr>cfg_is_bridge = True, cfg_port_max = 2, cfg_logical_port_list = (\<lambda>p. of_nat p + 7),
     net_multi = (\<lambda>_. True), ipc_init = (\<lambda>_. True)\<rparr>"

lemma mvrp_ex_started:
  "\<exists>s. mvrp_reachable mvrp_ex_cfg s \<and> port_max s = 2 \<and> mvrp_valid s 0 \<and> mvrp_valid s 1 \<and> logical_to_mvrp_port s 7 = Some 0 \<and>
    logical_to_mvrp_port s 8 = Some 1 \<and> vlans s = [] \<and> vlan_malloc s = (\<lambda>_. True) \<and> mem_ok s \<and> is_bridge s"
proof -
  have f: "mvrp_fresh mvrp_ex_cfg mvrp_ex0" by (auto simp: mvrp_fresh_def port_blank_def mvrp_ex0_def mvrp_ex_cfg_def mrp_ex_def)
  obtain s where s: "mvrp_init mvrp_ex0 mvrp_ex_cfg = (0, s)"
    using mvrp_init_total [OF f] by (auto simp: mvrp_ex_cfg_def)
  note i = mvrp_init_ok [OF f s]
  have "port_max s = 2" "srp_initialized s = (\<lambda>_. True)" "logical_port s 0 = 7" "logical_port s 1 = 8"
    using i(2,3) i(4) [of 0] i(4) [of 1] by (simp_all add: mvrp_ex_cfg_def mvrp_ex0_def)
  moreover have "mem_ok s" "vlans s = []" "vlan_malloc s = (\<lambda>_. True)" "is_bridge s"
    using i(2,5,6,7,8) by (auto simp: mem_ok_def mvrp_ex_cfg_def mvrp_ex0_def mrp_ex_def)
  moreover have "[0..<2] = [0, 1::nat]" by (simp add: numeral_2_eq_2)
  ultimately show ?thesis using mvrp_reachable.init [OF f s]
    by (intro exI [where x = s]) (simp add: mvrp_valid_def logical_to_mvrp_port_def)
qed



text \<open>
  The VLAN table in every reachable state: at most 32 instances, the count is exact, one instance per
  identifier, identifiers from 1 to 4094, every instance registered or requested somewhere, and a
  reference count that is not zero belongs to a requested VLAN.
\<close>

theorem mvrp_vlan_table:
  assumes "mvrp_reachable cfg s"
  shows "distinct (map (\<lambda>v. vlan_id (get_vlan s v)) (vlans s)) \<and> length (vlans s) \<le> 32 \<and> unat (num_vlans s) = length (vlans s) \<and>
    list_all (\<lambda>v. case vheap s v of None \<Rightarrow> False
       | Some a \<Rightarrow> 1 \<le> vlan_id a \<and> vlan_id a \<le> 4094 \<and> (registered_state a \<noteq> 0 \<or> user_declared a \<noteq> 0) \<and>
           {p. ref_count a p \<noteq> 0} \<subseteq> {p. bit (user_declared a) p}) (vlans s)"
proof -
  note i = reachable_inv [OF assms]
  note h = heap_okD [OF inv_heap_ok [OF i]]
  have a: "\<exists>a. vheap s v = Some a" if "v \<in> set (vlans s)" for v using h(2) that by auto
  have "inj_on (\<lambda>v. vlan_id (get_vlan s v)) (set (vlans s))"
  proof (rule inj_onI)
    fix v w assume vw: "v \<in> set (vlans s)" "w \<in> set (vlans s)" "vlan_id (get_vlan s v) = vlan_id (get_vlan s w)"
    obtain a b where ab: "vheap s v = Some a" "vheap s w = Some b" using a [OF vw(1)] a [OF vw(2)] by blast
    then have "vlan_id a = vlan_id b" using vw(3) by (simp add: get_vlan_def)
    then show "v = w" by (rule h(4) [OF ab])
  qed
  moreover have "unat (num_vlans s) = length (vlans s)" using h(6,7) by (simp add: unat_of_nat)
  moreover have "case vheap s v of None \<Rightarrow> False
       | Some a \<Rightarrow> 1 \<le> vlan_id a \<and> vlan_id a \<le> 4094 \<and> (registered_state a \<noteq> 0 \<or> user_declared a \<noteq> 0) \<and>
           {p. ref_count a p \<noteq> 0} \<subseteq> {p. bit (user_declared a) p}" if "v \<in> set (vlans s)" for v
  proof -
    from a [OF that] obtain b where b: "vheap s v = Some b" by blast
    show ?thesis using h(5) [OF b] inv_vlan_ok [OF i b] unfolding b option.case
      by (auto simp: vlan_ok_def is_vlan_registered_any_def is_vlan_user_declared_any_def is_vlan_user_declared_def)
  qed
  ultimately show ?thesis using h(1,7) by (simp add: distinct_map list_all_iff)
qed

theorem mvrp_vlan_table_witness:
  "\<exists>s. mvrp_reachable mvrp_ex_cfg s \<and> distinct (map (\<lambda>v. vlan_id (get_vlan s v)) (vlans s)) \<and> length (vlans s) \<le> 32"
  using mvrp_ex_started mvrp_vlan_table by blast


definition rx_ex :: "u8 list \<Rightarrow> net_rx_desc" where
  "rx_ex tail = \<lparr>rx_buf = [0x01, 0x80, 0xC2, 0, 0, 0x21, 2, 0, 0, 0, 0, 1, 0x88, 0xF5, 1, 7, 2, 0, 0, 0, 0] @ tail,
     rx_len = 21, rx_l2 = 0, rx_l3 = 14\<rparr>"



definition mvrp_ex1 :: mvrp_ctx where
  "mvrp_ex1 = mvrp_ex0\<lparr>port_max := 1, operational_state := 1, port_app := (\<lambda>_. mrp_ex 1500)\<rparr>"


lemma ctx_same_mem: "ctx_same s s' \<Longrightarrow> mem_ok s' = mem_ok s"
  by (simp add: ctx_same_def mem_ok_def mrp_frame_def)

lemma ctx_same_logical: "ctx_same s s' \<Longrightarrow> logical_to_mvrp_port s' = logical_to_mvrp_port s"
  by (simp add: ctx_same_def logical_to_mvrp_port_def fun_eq_iff split: option.split)

lemma logical_valid: "logical_to_mvrp_port s l = Some p \<Longrightarrow> mvrp_valid s p"
  by (auto simp: logical_to_mvrp_port_def mvrp_valid_def find_Some_iff split: option.splits if_splits)

text \<open>
  A VLAN request fails exactly when the port is unknown, or the VLAN has no instance yet and the
  table of 32 is full, the identifier is not from 1 to 4094, or there is no memory. When it succeeds and
  the port forwards, the port declares the VLAN from then on, memory permitting.
\<close>

theorem mvrp_register_declares:
  assumes "mvrp_reachable cfg s" and "mvrp_register_vlan_member s l vid = (rc, s')"
  shows "rc = (if logical_to_mvrp_port s l = None then GENAVB_ERR_CTRL_INVALID
      else if mvrp_find_vlan s vid = None \<and>
        (length (vlans s) = 32 \<or> vid < 1 \<or> vid > 4094 \<or> \<not> vlan_malloc s (n_vlan_malloc s)) then GENAVB_ERR_CTRL_FAILED
      else GENAVB_SUCCESS) \<and>
    (rc = GENAVB_SUCCESS \<and> logical_to_mvrp_port s l = Some p \<and> is_mvrp_port_forwarding s p \<and> mem_ok s \<longrightarrow>
       (MVRP_ATTR_TYPE_VID, be16 vid) \<in> declares (port_app s' p))"
proof -
  note i = reachable_inv [OF assms(1)]
  note ok = register_ok [OF i assms(2)]
  have "num_vlans s < CFG_MVRP_MAX_VLANS \<longleftrightarrow> length (vlans s) \<noteq> 32"
    using heap_okD(6,7) [OF inv_heap_ok [OF i]] by (auto simp: word_less_nat_alt unat_of_nat)
  then have "rc = (if logical_to_mvrp_port s l = None then GENAVB_ERR_CTRL_INVALID
      else if mvrp_find_vlan s vid = None \<and>
        (length (vlans s) = 32 \<or> vid < 1 \<or> vid > 4094 \<or> \<not> vlan_malloc s (n_vlan_malloc s)) then GENAVB_ERR_CTRL_FAILED
      else GENAVB_SUCCESS)"
    using assms(2) by (cases "logical_to_mvrp_port s l"; cases "mvrp_find_vlan s vid")
      (auto simp: mvrp_register_vlan_member_def mvrp_create_vlan_def Let_def split: if_splits)
  moreover have "(MVRP_ATTR_TYPE_VID, be16 vid) \<in> declares (port_app s' p)"
    if h: "rc = GENAVB_SUCCESS" "logical_to_mvrp_port s l = Some p" "is_mvrp_port_forwarding s p" "mem_ok s"
  proof -
    have i': "mvrp_inv s'" and c: "ctx_same s s'" using ok by blast+
    obtain v a where a: "mvrp_find_vlan s' vid = Some v" "vheap s' v = Some a" "is_vlan_user_declared a p" using ok h(1,2) by auto
    have "vlan_id a = vid" using find_vlan_Some [OF inv_heap_ok [OF i'] a(1)] a(2) by auto
    moreover have "vlan_propagated s' a p"
      using c h(3) a(3) by (simp add: vlan_propagated_def is_mvrp_port_forwarding_def is_vlan_user_declared_def ctx_same_def)
    moreover have "mvrp_valid s' p" using logical_valid [OF h(2)] ctx_same_valid [OF c] by simp
    moreover have "mem_ok s'" using ctx_same_mem [OF c] h(4) by simp
    ultimately show ?thesis using declares_eq(2) [OF i'] a(2) by blast
  qed
  ultimately show ?thesis by blast
qed

text \<open>Port 0 of the example is up and VLAN 5 is requested on it.\<close>

lemma mvrp_ex_registered:
  "\<exists>s s'. mvrp_reachable mvrp_ex_cfg s \<and> mvrp_reachable mvrp_ex_cfg s' \<and> mvrp_register_vlan_member s 7 5 = (GENAVB_SUCCESS, s') \<and>
    logical_to_mvrp_port s 7 = Some 0 \<and> is_mvrp_port_forwarding s 0 \<and> mem_ok s \<and>
    logical_to_mvrp_port s' 7 = Some 0 \<and> (\<exists>v. mvrp_find_vlan s' 5 = Some v)"
proof -
  obtain s0 where s0: "mvrp_reachable mvrp_ex_cfg s0" "logical_to_mvrp_port s0 7 = Some 0" "vlans s0 = []"
    "vlan_malloc s0 = (\<lambda>_. True)" "mem_ok s0" using mvrp_ex_started by blast
  define s where "s = mvrp_port_status s0 7 True"
  have s: "s = s0\<lparr>operational_state := set_bit 0 (operational_state s0), forwarding_state := set_bit 0 (forwarding_state s0)\<rparr>"
    using s0(2,3) by (simp add: s_def mvrp_port_status_def mvrp_update_operational_state_def mvrp_update_forwarding_state_def
        mvrp_map_update_def mask_update_def)
  have re: "mvrp_reachable mvrp_ex_cfg s" using mvrp_reachable.step [OF s0(1) mvrp_step.port_status] by (simp add: s_def)
  have l: "logical_to_mvrp_port s = logical_to_mvrp_port s0" "mem_ok s = mem_ok s0"
    by (simp_all add: s logical_to_mvrp_port_def fun_eq_iff mem_ok_def split: option.split)
  obtain rc s' where r: "mvrp_register_vlan_member s 7 5 = (rc, s')" by force
  have "num_vlans s = 0" using heap_okD(6) [OF inv_heap_ok [OF reachable_inv [OF re]]] s0(3) by (simp add: s)
  then have "rc = GENAVB_SUCCESS" using r s0 l
    by (auto simp: mvrp_register_vlan_member_def mvrp_create_vlan_def mvrp_find_vlan_def Let_def s split: if_splits)
  moreover have "mvrp_reachable mvrp_ex_cfg s'" using mvrp_reachable.step [OF re mvrp_step.register, of 7 5] r by simp
  moreover have "is_mvrp_port_forwarding s 0" by (simp add: s is_mvrp_port_forwarding_def bit_set_bit_iff)
  moreover note ok = register_ok [OF reachable_inv [OF re] r]
  have "logical_to_mvrp_port s' 7 = Some 0" using ok s0(2) l ctx_same_logical [of s s'] by simp
  moreover have "\<exists>v. mvrp_find_vlan s' 5 = Some v" using ok \<open>rc = GENAVB_SUCCESS\<close> by blast
  ultimately show ?thesis using re r s0(2,5) l by auto
qed

theorem mvrp_register_declares_witness:
  "\<exists>s s'. mvrp_register_vlan_member s 7 5 = (GENAVB_SUCCESS, s') \<and> (MVRP_ATTR_TYPE_VID, be16 5) \<in> declares (port_app s' 0)"
  using mvrp_ex_registered mvrp_register_declares [of mvrp_ex_cfg _ 7 5 GENAVB_SUCCESS _ 0] by blast

text \<open>
  References to a VLAN are counted per port: a deregistration that is not the last one only
  decrements the count; the last one withdraws the port's request (the instance may be freed with it).
\<close>

theorem mvrp_deregister_counts:
  assumes "mvrp_reachable cfg s" and "logical_to_mvrp_port s l = Some p" and "mvrp_find_vlan s vid = Some v"
    and "mvrp_deregister_vlan_member s l vid = (rc, s')"
  shows "rc = GENAVB_SUCCESS \<and>
    (if ref_count (get_vlan s v) p > 1
     then s' = s\<lparr>vheap := (vheap s)(v \<mapsto> (get_vlan s v)\<lparr>ref_count := (ref_count (get_vlan s v))(p := ref_count (get_vlan s v) p - 1)\<rparr>)\<rparr>
     else case vheap s' v of None \<Rightarrow> True | Some a \<Rightarrow> \<not> is_vlan_user_declared a p \<and> ref_count a p = 0)"
proof -
  note i = reachable_inv [OF assms(1)]
  obtain a where a: "vheap s v = Some a" using find_vlan_Some [OF inv_heap_ok [OF i] assms(3)] by blast
  note d = deregister_step [OF i assms(2,3) a assms(4)]
  have "case vheap s' v of None \<Rightarrow> True | Some a \<Rightarrow> \<not> is_vlan_user_declared a p \<and> ref_count a p = 0" if h: "\<not> ref_count a p > 1"
  proof -
    obtain t c where t: "map_post t {v} v c s'" "\<not> is_vlan_user_declared c p" "ref_count c p = 0" using d(2) h by auto
    then have "vheap s' v = None \<or> (\<exists>e. vheap s' v = Some (c\<lparr>declared_state := e\<rparr>))" unfolding map_post_def by presburger
    then show ?thesis using t(2,3) by auto
  qed
  then show ?thesis using d a by (simp add: get_vlan_def upd_vlan_def split: if_splits)
qed

theorem mvrp_deregister_counts_witness:
  "\<exists>s v rc s'. mvrp_reachable mvrp_ex_cfg s \<and> mvrp_find_vlan s 5 = Some v \<and> mvrp_deregister_vlan_member s 7 5 = (rc, s') \<and>
    rc = GENAVB_SUCCESS"
proof -
  obtain s v where s: "mvrp_reachable mvrp_ex_cfg s" "logical_to_mvrp_port s 7 = Some 0" "mvrp_find_vlan s 5 = Some v"
    using mvrp_ex_registered by blast
  obtain rc s' where "mvrp_deregister_vlan_member s 7 5 = (rc, s')" by force
  with s mvrp_deregister_counts [OF s] show ?thesis by blast
qed

text \<open>
  When a port goes down it withdraws every VLAN it declares, whatever is registered elsewhere.
\<close>

theorem mvrp_port_down_withdraws:
  assumes "mvrp_reachable cfg s" and "logical_to_mvrp_port s l = Some p"
  shows "declares (port_app (mvrp_port_status s l False) p) = {} \<and> \<not> mvrp_is_operational (mvrp_port_status s l False) p"
proof -
  note i = reachable_inv [OF assms(1)]
  note ok = port_status_ok [OF i, where l = l and up = False]
  have "mvrp_valid (mvrp_port_status s l False) p" using logical_valid [OF assms(2)] ok(2) by simp
  note d = declares_eq(1) [OF ok(1) this]
  have nf: "\<not> vlan_propagated (mvrp_port_status s l False) a p" for a
    using ok(3) [OF assms(2)] by (simp add: vlan_propagated_def is_mvrp_port_forwarding_def)
  have "declares (port_app (mvrp_port_status s l False) p) = {}" using d nf by blast
  then show ?thesis using ok(3) [OF assms(2)] by simp
qed

theorem mvrp_port_down_withdraws_witness:
  "\<exists>s. mvrp_reachable mvrp_ex_cfg s \<and> declares (port_app (mvrp_port_status s 7 False) 0) = {}"
  using mvrp_ex_registered mvrp_port_down_withdraws [of mvrp_ex_cfg _ 7 0] by blast

text \<open>
  The indications never free the MRP attribute they are called for, nor any other attribute of that
  port, although they update the MAP, which withdraws declarations and frees attributes: MRP goes on
  using the attribute after the indication returns.
\<close>

theorem mvrp_indications_keep_attributes:
  assumes "mvrp_reachable cfg s" and "p < port_max s" and "attrs (port_app s p) i \<noteq> None"
  shows "attrs (port_app (mvrp_join_indication s p i new) p) i \<noteq> None \<and> attrs (port_app (mvrp_leave_indication s p i) p) i \<noteq> None \<and>
    mvrp_inv (mvrp_join_indication s p i new) \<and> mvrp_inv (mvrp_leave_indication s p i)"
  using join_indication_ok [OF reachable_inv [OF assms(1)] assms(2), of i new]
    leave_indication_ok [OF reachable_inv [OF assms(1)] assms(2), of i] assms(3) by (simp add: ind_ok_def)

theorem mvrp_indications_keep_attributes_witness:
  "\<exists>s i. mvrp_reachable mvrp_ex_cfg s \<and> attrs (port_app s 0) i \<noteq> None \<and> attrs (port_app (mvrp_leave_indication s 0 i) 0) i \<noteq> None"
proof -
  obtain s s' where s: "mvrp_reachable mvrp_ex_cfg s" "mvrp_reachable mvrp_ex_cfg s'" "mvrp_register_vlan_member s 7 5 = (GENAVB_SUCCESS, s')"
    "logical_to_mvrp_port s 7 = Some 0" "is_mvrp_port_forwarding s 0" "mem_ok s" using mvrp_ex_registered by blast
  note ok = register_ok [OF reachable_inv [OF s(1)] s(3)]
  obtain v a where a: "mvrp_find_vlan s' 5 = Some v" "vheap s' v = Some a" "is_vlan_user_declared a 0" using ok s(4) by auto
  have c: "ctx_same s s'" and "mvrp_inv s'" using ok by blast+
  have val: "mvrp_valid s' 0" using logical_valid [OF s(4)] ctx_same_valid [OF c] by simp
  have "vlan_propagated s' a 0"
    using c s(5) a(3) by (simp add: vlan_propagated_def is_mvrp_port_forwarding_def is_vlan_user_declared_def ctx_same_def)
  then have "declares (port_app s' 0) \<noteq> {}"
    using declares_eq(2) [OF \<open>mvrp_inv s'\<close> val] ctx_same_mem [OF c] s(6) a(2) by blast
  then obtain i where i: "attrs (port_app s' 0) i \<noteq> None" by (auto simp: declares_def)
  have "0 < port_max s'" using val by (simp add: mvrp_valid_def)
  from mvrp_indications_keep_attributes [OF s(2) this i] i s(2) show ?thesis by blast
qed

text \<open>
  C33: On a bridge, a leave indication for a VLAN that no other port registers and nobody requests reads
  the VLAN instance after the MAP update has freed it (\<open>vlan_update\<close> is passed \<open>vlan->vlan_id\<close>);
  it does not when the VLAN is still registered or requested. The join indication never does.
\<close>

theorem mvrp_leave_indication_use_after_free:
  assumes "mvrp_inv s" and "p < port_max s" and "is_bridge s" and "\<not> use_after_free s"
    and "mvrp_find_vlan s (attr_vid (get_attr (port_app s p) i)) = Some v"
  shows "use_after_free (mvrp_leave_indication s p i) \<longleftrightarrow>
    unset_bit p (registered_state (get_vlan s v)) = 0 \<and> user_declared (get_vlan s v) = 0"
proof -
  let ?g = "vlan_registered_clear p"
  let ?s = "upd_vlan s v ?g" and ?t = "mvrp_map_update_vlan (upd_vlan s v ?g) v False"
  obtain a where post: "map_post ?s {v} v (?g a) ?t" and a: "vheap s v = Some a"
    using registration_ok(2) [OF find_found [OF assms(1,5)] assms(2), of ?g False] by blast
  have br: "is_bridge ?t" "use_after_free ?t = use_after_free s"
    using post assms(3) by (simp_all add: map_post_def ctx_same_def upd_vlan_def)
  have "use_after_free (mvrp_leave_indication s p i) \<longleftrightarrow> vheap ?t v = None"
    using br assms(4,5) by (simp add: mvrp_leave_indication_def Let_def split: option.split)
  also have "\<dots> \<longleftrightarrow> \<not> (is_vlan_registered_any (?g a) \<or> is_vlan_user_declared_any (?g a))"
    using post unfolding map_post_def by (metis option.distinct(1))
  finally show ?thesis
    using a by (simp add: get_vlan_def is_vlan_registered_any_def is_vlan_user_declared_any_def vlan_registered_clear_def)
qed

text \<open>VLAN 5 is registered on the only port, by an attribute that nobody declares.\<close>

definition mvrp_ex2 :: mvrp_ctx where
  "mvrp_ex2 = mvrp_ex0\<lparr>vheap := [0 \<mapsto> \<lparr>registered_state = 1, declared_state = 0, vlan_id = 5, user_declared = 0, ref_count = (\<lambda>_. 0)\<rparr>],
     next_vlan := 1, vlans := [0], num_vlans := 1, forwarding_state := 1, operational_state := 1, port_max := 1, is_bridge := True,
     port_app := (\<lambda>_. snd (mrp_get_attribute (mrp_ex 1500) 1 [0, 5]))\<rparr>"

lemma mvrp_ex2_inv: "mvrp_inv mvrp_ex2" "\<exists>i. mvrp_find_vlan mvrp_ex2 (attr_vid (get_attr (port_app mvrp_ex2 0) i)) = Some 0"
proof -
  obtain r app where g: "mrp_get_attribute (mrp_ex 1500) 1 [0, 5] = (r, app)" by force
  have t: "1 \<in> set (attr_types (mrp_ex 1500))" "attribute_value_length (mrp_ex 1500) 1 \<le> length [0, 5 :: u8]"
    by (simp_all add: mrp_ex_def)
  note gp = get_attribute_part [OF mrp_ex_inv [unfolded mrp_inv_part] t g]
  have "declares (mrp_ex 1500) = {}" by (simp add: declares_def mrp_ex_def)
  then have d: "declares app = {}" using gp(2) by (simp add: mrp_keep_def)
  have cfg: "mvrp_cfg app" using gp(2) cfg_frame [of "mrp_ex 1500" app]
    by (simp add: mrp_keep_def mvrp_cfg_def mrp_ex_def attr_types_def is_full_def bit_test_def)
  have "enabled app" using gp(2) by (simp add: mrp_keep_defs mrp_ex_def)
  then have good: "port_good mvrp_ex2 p app" for p
    using gp(1) cfg by (simp add: port_good_def mvrp_ex2_def mvrp_ex0_def mrp_inv_part)
  show "mvrp_inv mvrp_ex2" using good d g
    by (simp add: mvrp_inv_def mvrp_mid_def heap_ok_def ports_ok_def sync_ok_def vlan_ok_def)
      (simp add: mvrp_ex2_def mvrp_ex0_def is_vlan_declared_def is_vlan_registered_any_def vlan_want_def
        is_vlan_registered_other_forwarding_def is_vlan_user_declared_def unset_bit_0)
  have "r \<noteq> None" using gp(3) by (auto simp: mrp_ex_def)
  then obtain i b where "attrs app i = Some b" "at_val b = take (attribute_value_length (mrp_ex 1500) 1) [0, 5]" using gp(4) by blast
  then have "attrs app i = Some b" "at_val b = [0, 5]" by (simp_all add: mrp_ex_def)
  then have "attr_vid (get_attr (port_app mvrp_ex2 0) i) = 5" using g
    by (simp add: mvrp_ex2_def attr_vid_def get_attr_def from_be16_def)
  then show "\<exists>i. mvrp_find_vlan mvrp_ex2 (attr_vid (get_attr (port_app mvrp_ex2 0) i)) = Some 0"
    by (intro exI [where x = i]) (simp add: mvrp_find_vlan_def, simp add: mvrp_ex2_def get_vlan_def)
qed

theorem mvrp_leave_indication_use_after_free_witness: "\<exists>i. use_after_free (mvrp_leave_indication mvrp_ex2 0 i)"
proof -
  obtain i where i: "mvrp_find_vlan mvrp_ex2 (attr_vid (get_attr (port_app mvrp_ex2 0) i)) = Some 0" using mvrp_ex2_inv(2) by blast
  have "unset_bit 0 (registered_state (get_vlan mvrp_ex2 0)) = 0" "user_declared (get_vlan mvrp_ex2 0) = 0"
    by (simp_all add: mvrp_ex2_def get_vlan_def unset_bit_0)
  moreover have "0 < port_max mvrp_ex2" "is_bridge mvrp_ex2" "\<not> use_after_free mvrp_ex2" by (simp_all add: mvrp_ex2_def mvrp_ex0_def)
  ultimately show ?thesis using mvrp_leave_indication_use_after_free [OF mvrp_ex2_inv(1) _ _ _ i] by blast
qed

text \<open>
  When a port cannot be set up, \<open>mvrp_init\<close> fails and closes two of the three IPC channels it opened;
  the synchronous one stays open.
\<close>

theorem mvrp_init_failure_leaks_ipc:
  assumes "mvrp_init s cfg = (rc, s')" and "rc \<noteq> 0" and "ipc_init cfg 0" and "ipc_init cfg 1" and "ipc_init cfg 2"
  shows "rc = -1 \<and> \<not> ipc_rx_open s' \<and> \<not> ipc_tx_open s' \<and> ipc_tx_sync_open s'"
proof -
  have 1: "ipc_tx_sync_open (snd (mvrp_port_init s p cfg)) = ipc_tx_sync_open s" for s p
    by (auto simp: mvrp_port_init_def Let_def set_port_def split: prod.splits)
  have 2: "ipc_tx_sync_open (snd (init_ports cfg ps s)) = ipc_tx_sync_open s" for ps s
  proof (induction ps arbitrary: s)
    case (Cons p ps)
    obtain rc s1 where "mvrp_port_init s p cfg = (rc, s1)" by force
    then show ?case using 1 [of s p] Cons.IH [of s1] by simp
  qed simp
  have 3: "ipc_tx_sync_open (fold mvrp_port_exit ps s) = ipc_tx_sync_open s" for ps s
    by (induction ps arbitrary: s) (simp_all add: mvrp_port_exit_def set_port_def)
  let ?s = "mvrp_map_init (s\<lparr>port_max := cfg_port_max cfg, is_bridge := cfg_is_bridge cfg, ipc_rx_open := True,
    ipc_tx_open := True, ipc_tx_sync_open := True\<rparr>)"
  have "ipc_tx_sync_open ?s" by (simp add: mvrp_map_init_def)
  then show ?thesis
    using assms 2 [of "[0..<cfg_port_max cfg]" ?s] 3
    by (auto simp: mvrp_init_def Let_def mvrp_map_init_def split: prod.splits option.splits)
qed

theorem mvrp_init_failure_leaks_ipc_witness:
  "\<exists>s'. mvrp_init mvrp_ex0 (mvrp_ex_cfg\<lparr>net_multi := \<lambda>_. False\<rparr>) = (-1, s') \<and> ipc_tx_sync_open s'"
proof -
  let ?cfg = "mvrp_ex_cfg\<lparr>net_multi := \<lambda>_. False\<rparr>"
  obtain rc s' where e: "mvrp_init mvrp_ex0 ?cfg = (rc, s')" by force
  have "[0..<2] = [0, 1::nat]" by (simp add: numeral_2_eq_2)
  then have "rc \<noteq> 0" using e
    by (auto simp: mvrp_init_def Let_def mvrp_map_init_def mvrp_ex_cfg_def mvrp_ex0_def mvrp_port_init_def set_port_def
        split: prod.splits option.splits if_splits)
  with mvrp_init_failure_leaks_ipc [OF e] e show ?thesis by (auto simp: mvrp_ex_cfg_def)
qed

end
