(* ===== verification/SR_Class.thy ===== *)
theory SR_Class
  imports Prelude
begin

section \<open>SR classes and traffic specifications (\<open>src/public/sr_class.c\<close>, \<open>src/common/srp.c\<close>)\<close>

text \<open>
  The table of the stream reservation classes with its configuration, which enables two of the five
  classes, and the idle slope that a traffic specification asks for. A class is the number of its
  enumerator; the static arrays of \<open>sr_class.c\<close> are functions of the index.
\<close>

subsection \<open>The table\<close>

type_synonym sr_class_t = nat

abbreviation SR_CLASS_A :: sr_class_t where "SR_CLASS_A \<equiv> 0"
abbreviation SR_CLASS_B :: sr_class_t where "SR_CLASS_B \<equiv> 1"
abbreviation SR_CLASS_C :: sr_class_t where "SR_CLASS_C \<equiv> 2"
abbreviation SR_CLASS_D :: sr_class_t where "SR_CLASS_D \<equiv> 3"
abbreviation SR_CLASS_E :: sr_class_t where "SR_CLASS_E \<equiv> 4"
abbreviation SR_CLASS_MAX :: nat where "SR_CLASS_MAX \<equiv> 5"
abbreviation SR_CLASS_NONE :: sr_class_t where "SR_CLASS_NONE \<equiv> SR_CLASS_MAX"

abbreviation SR_PRIO_HIGH :: nat where "SR_PRIO_HIGH \<equiv> 0"
abbreviation SR_PRIO_LOW :: nat where "SR_PRIO_LOW \<equiv> 1"
abbreviation SR_CLASS_HIGH_PCP :: u32 where "SR_CLASS_HIGH_PCP \<equiv> 3"
abbreviation SR_CLASS_LOW_PCP :: u32 where "SR_CLASS_LOW_PCP \<equiv> 2"
abbreviation SR_CLASS_HIGH_ID :: u32 where "SR_CLASS_HIGH_ID \<equiv> 6"
abbreviation SR_CLASS_LOW_ID :: u32 where "SR_CLASS_LOW_ID \<equiv> 5"

record sr_class_struct =
  sc_enabled :: bool
  sc_prio :: nat
  sc_pcp :: u32
  sc_id :: u32

record sr_class_state =
  sr_class_tab :: "nat \<Rightarrow> sr_class_struct"
  sr_high :: sr_class_t
  sr_low :: sr_class_t
  prio_to_class :: "nat \<Rightarrow> sr_class_t"
  pcp_to_class :: "nat \<Rightarrow> sr_class_t"

definition sr_class_init :: sr_class_state where
  "sr_class_init =
     \<lparr>sr_class_tab = (\<lambda>i.
        if i = SR_CLASS_A then \<lparr>sc_enabled = True, sc_prio = SR_PRIO_HIGH, sc_pcp = SR_CLASS_HIGH_PCP, sc_id = SR_CLASS_HIGH_ID\<rparr>
        else if i = SR_CLASS_B then \<lparr>sc_enabled = True, sc_prio = SR_PRIO_LOW, sc_pcp = SR_CLASS_LOW_PCP, sc_id = SR_CLASS_LOW_ID\<rparr>
        else \<lparr>sc_enabled = False, sc_prio = SR_PRIO_HIGH, sc_pcp = SR_CLASS_LOW_PCP, sc_id = SR_CLASS_LOW_ID\<rparr>),
      sr_high = SR_CLASS_A, sr_low = SR_CLASS_B,
      prio_to_class = (\<lambda>p. if p = SR_PRIO_HIGH then SR_CLASS_A else SR_CLASS_B),
      pcp_to_class = (\<lambda>p. if p = 2 then SR_CLASS_B else if p = 3 then SR_CLASS_A else SR_CLASS_NONE)\<rparr>"

definition sr_class_enabled :: "sr_class_state \<Rightarrow> sr_class_t \<Rightarrow> bool" where
  "sr_class_enabled st c = (if c \<ge> SR_CLASS_MAX then False else sc_enabled (sr_class_tab st c))"

definition sr_class_pcp :: "sr_class_state \<Rightarrow> sr_class_t \<Rightarrow> u32" where
  "sr_class_pcp st c = sc_pcp (sr_class_tab st c)"

definition sr_class_id :: "sr_class_state \<Rightarrow> sr_class_t \<Rightarrow> u32" where
  "sr_class_id st c = sc_id (sr_class_tab st c)"

definition sr_prio_class :: "sr_class_state \<Rightarrow> nat \<Rightarrow> sr_class_t" where
  "sr_prio_class st p = prio_to_class st p"

definition sr_pcp_class :: "sr_class_state \<Rightarrow> nat \<Rightarrow> sr_class_t" where
  "sr_pcp_class st p = pcp_to_class st p"

definition sr_class_interval_p :: "sr_class_t \<Rightarrow> u32" where
  "sr_class_interval_p c = [125000, 250000, 4000000, 640000000, 1000000] ! c"

definition sr_class_interval_q :: "sr_class_t \<Rightarrow> u32" where
  "sr_class_interval_q c = [1, 1, 3, 441, 1] ! c"

subsection \<open>Configuration\<close>

text \<open>The loop that disables every class, and the block that enables one.\<close>

definition sr_class_clear :: "sr_class_state \<Rightarrow> sr_class_state" where
  "sr_class_clear st =
     st\<lparr>sr_class_tab := fold (\<lambda>i tab. tab(i := \<lparr>sc_enabled = False, sc_prio = SR_PRIO_HIGH,
          sc_pcp = SR_CLASS_LOW_PCP, sc_id = SR_CLASS_LOW_ID\<rparr>)) [0..<SR_CLASS_MAX] (sr_class_tab st),
        sr_high := SR_CLASS_NONE, sr_low := SR_CLASS_NONE,
        prio_to_class := (prio_to_class st)(SR_PRIO_HIGH := SR_CLASS_NONE, SR_PRIO_LOW := SR_CLASS_NONE),
        pcp_to_class := (pcp_to_class st)(2 := SR_CLASS_NONE, 3 := SR_CLASS_NONE)\<rparr>"

definition sr_class_set_high :: "sr_class_t \<Rightarrow> sr_class_state \<Rightarrow> sr_class_state" where
  "sr_class_set_high c st =
     st\<lparr>sr_class_tab := (sr_class_tab st)(c := \<lparr>sc_enabled = True, sc_prio = SR_PRIO_HIGH,
          sc_pcp = SR_CLASS_HIGH_PCP, sc_id = SR_CLASS_HIGH_ID\<rparr>),
        sr_high := c, prio_to_class := (prio_to_class st)(SR_PRIO_HIGH := c), pcp_to_class := (pcp_to_class st)(3 := c)\<rparr>"

definition sr_class_set_low :: "sr_class_t \<Rightarrow> sr_class_state \<Rightarrow> sr_class_state" where
  "sr_class_set_low c st =
     st\<lparr>sr_class_tab := (sr_class_tab st)(c := \<lparr>sc_enabled = True, sc_prio = SR_PRIO_LOW,
          sc_pcp = SR_CLASS_LOW_PCP, sc_id = SR_CLASS_LOW_ID\<rparr>),
        sr_low := c, prio_to_class := (prio_to_class st)(SR_PRIO_LOW := c), pcp_to_class := (pcp_to_class st)(2 := c)\<rparr>"

text \<open>\<open>sr_class_config\<close> on the two bytes that the caller gives, which it swaps in place when they are not in order.\<close>

definition sr_class_config :: "sr_class_state \<Rightarrow> u8 \<Rightarrow> u8 \<Rightarrow> int \<times> sr_class_state" where
  "sr_class_config st a b =
     (if a \<ge> 5 \<or> b \<ge> 5 \<or> a = b then (-1, st)
      else
        let st1 = sr_class_clear st;
            (x, y) = (if a > b then (unat b, unat a) else (unat a, unat b));
            st2 = (if x \<noteq> SR_CLASS_NONE
                   then let st3 = sr_class_set_high x st1 in if y \<noteq> SR_CLASS_NONE then sr_class_set_low y st3 else st3
                   else st1)
        in (0, st2))"

subsection \<open>Idle slope of a traffic specification\<close>

abbreviation ETHER_MIN_FRAME_SIZE :: u32 where "ETHER_MIN_FRAME_SIZE \<equiv> 64"

text \<open>
  Framing for Ethernet: 14 bytes of header and 4 of checksum, at least 64 bytes, then the preamble (8) and
  the inter-frame gap (12).
\<close>

definition mac_frame_size :: "u32 \<Rightarrow> u32" where
  "mac_frame_size frame_size =
     (let n = 14 + frame_size + 4 in 12 + 8 + (if n < ETHER_MIN_FRAME_SIZE then ETHER_MIN_FRAME_SIZE else n))"

definition srp_tspec_to_idle_slope :: "sr_class_t \<Rightarrow> u32 \<Rightarrow> u32 \<Rightarrow> u64" where
  "srp_tspec_to_idle_slope c max_frame_size max_interval_frames =
     (let max_frame_rate = (ucast max_interval_frames * ucast (sr_class_interval_q c) * 1000000000) div ucast (sr_class_interval_p c)
      in scast (mac_frame_size (max_frame_size + 4 + 1) * 8) * max_frame_rate)"

subsection \<open>Properties\<close>

text \<open>
  What a configuration leaves: exactly the two classes asked for are enabled, in the order of their letters,
  and the lookup by priority code point is the inverse of the code points of the classes.
\<close>

lemma fold_fun_upd: "fold (\<lambda>i f. f(i := x)) is f c = (if c \<in> set is then x else f c)"
  by (induction "is" arbitrary: f) auto

lemma clear_tab: "sr_class_tab (sr_class_clear st) c =
  (if c < SR_CLASS_MAX then \<lparr>sc_enabled = False, sc_prio = SR_PRIO_HIGH, sc_pcp = SR_CLASS_LOW_PCP, sc_id = SR_CLASS_LOW_ID\<rparr>
   else sr_class_tab st c)"
  unfolding sr_class_clear_def sr_class_state.simps by (simp add: fold_fun_upd del: upt_rec_numeral)

text \<open>
  C39: \<open>sr_class_config\<close> accepts exactly two distinct valid classes. It then enables these two and no other one, gives
  the earlier letter the high priority code point and class id and the other one the low ones, and
  \<open>sr_pcp_class\<close> maps these two code points back to the two classes; a refused call changes nothing.
\<close>

theorem sr_class_config_table:
  "(if a < 5 \<and> b < 5 \<and> a \<noteq> b
    then fst (sr_class_config st a b) = 0 \<and>
      (let s = snd (sr_class_config st a b); hi = min (unat a) (unat b); lo = max (unat a) (unat b)
       in (\<forall>c. sr_class_enabled s c \<longleftrightarrow> c = hi \<or> c = lo) \<and>
          sr_class_pcp s hi = SR_CLASS_HIGH_PCP \<and> sr_class_pcp s lo = SR_CLASS_LOW_PCP \<and>
          sr_class_id s hi = SR_CLASS_HIGH_ID \<and> sr_class_id s lo = SR_CLASS_LOW_ID \<and>
          sr_pcp_class s 3 = hi \<and> sr_pcp_class s 2 = lo \<and> sr_prio_class s SR_PRIO_HIGH = hi \<and> sr_prio_class s SR_PRIO_LOW = lo)
    else sr_class_config st a b = (-1, st))"
proof (cases "a < 5 \<and> b < 5 \<and> a \<noteq> b")
  case True
  then have n: "unat a < 5" "unat b < 5" "unat a \<noteq> unat b" by (auto simp: word_less_nat_alt word_unat_eq_iff)
  define x y where "x = min (unat a) (unat b)" and "y = max (unat a) (unat b)"
  have xy: "x < 5" "y < 5" "x \<noteq> y" using n by (auto simp: x_def y_def)
  have "(if a > b then (unat b, unat a) else (unat a, unat b)) = (x, y)"
    using n by (auto simp: x_def y_def word_less_nat_alt)
  then have e: "sr_class_config st a b = (0, sr_class_set_low y (sr_class_set_high x (sr_class_clear st)))"
    using True xy unfolding sr_class_config_def by (simp add: Let_def not_le del: split_paired_All)
  have en: "sr_class_enabled (sr_class_set_low y (sr_class_set_high x (sr_class_clear st))) c \<longleftrightarrow> c = x \<or> c = y" for c
    using xy by (auto simp: sr_class_enabled_def sr_class_set_low_def sr_class_set_high_def clear_tab)
  show ?thesis
    unfolding if_P [OF True] e fst_conv snd_conv Let_def x_def [symmetric] y_def [symmetric]
    using en xy by (simp add: sr_class_pcp_def sr_class_id_def sr_pcp_class_def sr_prio_class_def
        sr_class_set_low_def sr_class_set_high_def sr_class_clear_def)
next
  case False
  then have "a \<ge> 5 \<or> b \<ge> 5 \<or> a = b" by (auto simp: not_less)
  then show ?thesis unfolding if_not_P [OF False] by (simp add: sr_class_config_def)
qed

text \<open>The slope as an exact product: none of the machine multiplications wraps for 16-bit parameters.\<close>

lemma unat_ucast_wider: "LENGTH('a) \<le> LENGTH('b) \<Longrightarrow> unat (ucast (x :: 'a::len word) :: 'b::len word) = unat x"
  using order.strict_trans2 [OF unsigned_less [of x, where ?'a = nat], of "2 ^ LENGTH('b)"]
  by (simp add: unsigned_ucast_eq take_bit_nat_eq_self)

lemma unat_add_exact: "unat x + unat y < 2 ^ LENGTH('a) \<Longrightarrow> unat (x + y :: 'a::len word) = unat x + unat y"
  by (rule unat_add_lem [THEN iffD1])

lemma unat_mult_exact: "unat x * unat y < 2 ^ LENGTH('a) \<Longrightarrow> unat (x * y :: 'a::len word) = unat x * unat y"
  by (rule unat_mult_lem [THEN iffD1])

lemma mac_frame_size_nat:
  assumes "unat n < 70000"
  shows "unat (mac_frame_size n) = 20 + max 64 (18 + unat n)"
proof -
  have "unat (14 + n) = 14 + unat n" using assms by (subst unat_add_exact) simp_all
  then have k: "unat (14 + n + 4) = 18 + unat n" using assms by (subst unat_add_exact) simp_all
  then have l: "14 + n + 4 < ETHER_MIN_FRAME_SIZE \<longleftrightarrow> 18 + unat n < 64" by (simp add: word_less_nat_alt)
  have "unat (12 + 8 + (14 + n + 4)) = 38 + unat n"
    by (subst unat_add_exact) (use assms in \<open>simp_all only: k, simp_all\<close>)
  then show ?thesis using l by (simp add: mac_frame_size_def Let_def max_def)
qed

lemma scast_small:
  assumes "unat (x::u32) < 2 ^ 31"
  shows "unat (scast x :: u64) = unat x"
proof -
  have "(scast x :: u64) = word_of_int (int (unat x))" by (simp only: scast_eq sint_eq_unat [OF assms])
  then have "(scast x :: u64) = of_nat (unat x)" by (simp only: of_int_of_nat_eq)
  then show ?thesis using assms by (simp add: unat_ucast_wider)
qed

text \<open>
  C40: The idle slope of a stream is exact: for every 16-bit frame size and number of frames and every class it is the
  number of bits per frame on the wire (with the tag, the framing, the minimal frame size and one spare byte) times
  the number of frames per second, rounded down, as numbers; no multiplication wraps.
\<close>

theorem idle_slope_exact:
  assumes "c < SR_CLASS_MAX"
  shows "unat (srp_tspec_to_idle_slope c (ucast (fsize :: u16)) (ucast (frames :: u16))) =
    8 * (20 + max 64 (23 + unat fsize)) *
      (unat frames * unat (sr_class_interval_q c) * 1000000000 div unat (sr_class_interval_p c))"
proof -
  have sz: "unat fsize < 65536" and fr: "unat frames < 65536" by (rule unat_u16_less)+
  define q p where "q = unat (sr_class_interval_q c)" and "p = unat (sr_class_interval_p c)"
  have "c \<in> {0, 1, 2, 3, 4}" using assms by auto
  then have qp: "q * 1000000000 \<le> p * 8000" "q \<le> 441" "p \<ge> 125000"
    by (auto simp: q_def p_def sr_class_interval_q_def sr_class_interval_p_def)
  define rate where "rate = unat frames * q * 1000000000 div p"
  have rate_le: "rate \<le> 65535 * 8000"
  proof -
    have "unat frames * q * 1000000000 \<le> 65535 * (p * 8000)"
      using mult_mono [of "unat frames" 65535 "q * 1000000000" "p * 8000"] fr qp(1) by simp
    then have "rate \<le> 65535 * (p * 8000) div p" unfolding rate_def by (rule div_le_mono)
    also have "\<dots> = 65535 * 8000" using qp(3) by simp
    finally show ?thesis .
  qed
  have fq: "unat frames * q \<le> 65535 * 441" using mult_mono [of "unat frames" 65535 q 441] fr qp(2) by simp
  have qu: "unat (ucast (sr_class_interval_q c) :: u64) = q" "unat (ucast (sr_class_interval_p c) :: u64) = p"
    by (simp_all add: q_def p_def unat_ucast_wider)
  have fu: "unat (ucast (ucast frames :: u32) :: u64) = unat frames" by (simp add: unat_ucast_wider)
  have m1: "unat ((ucast (ucast frames :: u32) :: u64) * ucast (sr_class_interval_q c)) = unat frames * q"
    by (subst unat_mult_exact) (use fq in \<open>simp_all add: fu qu\<close>)
  have m2: "unat ((ucast (ucast frames :: u32) :: u64) * ucast (sr_class_interval_q c) * 1000000000) = unat frames * q * 1000000000"
    by (subst unat_mult_exact) (use mult_le_mono1 [OF fq, of 1000000000] in \<open>simp_all add: m1\<close>)
  have r: "unat ((ucast (ucast frames :: u32) :: u64) * ucast (sr_class_interval_q c) * 1000000000 div ucast (sr_class_interval_p c)) = rate"
    by (simp only: unat_div m2 qu rate_def)
  have s5: "unat (ucast fsize + 4 + 1 :: u32) = unat fsize + 5"
  proof -
    have "unat (ucast fsize + 4 :: u32) = unat fsize + 4"
      by (subst unat_add_exact) (use sz in \<open>simp_all add: unat_ucast_wider\<close>)
    then show ?thesis by (subst unat_add_exact) (use sz in simp_all)
  qed
  have mf: "unat (mac_frame_size (ucast fsize + 4 + 1)) = 20 + max 64 (23 + unat fsize)"
    using mac_frame_size_nat [of "ucast fsize + 4 + 1"] sz by (simp only: s5)
  have m8: "unat (mac_frame_size (ucast fsize + 4 + 1) * 8) = (20 + max 64 (23 + unat fsize)) * 8"
    by (subst unat_mult_exact) (use sz in \<open>simp_all only: mf, simp_all\<close>)
  have ms: "unat (scast (mac_frame_size (ucast fsize + 4 + 1) * 8) :: u64) = (20 + max 64 (23 + unat fsize)) * 8"
    by (subst scast_small) (use sz in \<open>simp_all only: m8, simp_all\<close>)
  have bits: "(20 + max 64 (23 + unat fsize)) * 8 \<le> 524624" using sz by simp
  have "(20 + max 64 (23 + unat fsize)) * 8 * rate \<le> 524624 * (65535 * 8000)"
    by (rule mult_mono [OF bits rate_le]) simp_all
  then have "unat (srp_tspec_to_idle_slope c (ucast fsize) (ucast frames)) = (20 + max 64 (23 + unat fsize)) * 8 * rate"
    unfolding srp_tspec_to_idle_slope_def Let_def
    by (subst unat_mult_exact) (simp_all only: ms r, simp_all)
  then show ?thesis by (simp add: rate_def q_def p_def)
qed

theorem idle_slope_exact_witness:
  "unat (srp_tspec_to_idle_slope SR_CLASS_A (ucast (224 :: u16)) (ucast (1 :: u16))) = 17088000"
  using idle_slope_exact [of SR_CLASS_A 224 1] by (simp add: sr_class_interval_q_def sr_class_interval_p_def)

end
