(* ===== verification/FQTSS.thy ===== *)
theory FQTSS
  imports SR_Class
begin

section \<open>Bandwidth accounting (\<open>src/common/fqtss.c\<close>)\<close>

text \<open>
  The FQTSS layer: how much of each port's bandwidth the streams of each traffic class hold, and the
  admission check. The static array \<open>fqtss_port_params\<close> is the component \<open>fq_port\<close> of the state. The
  operating system's part is a parameter: \<open>fq_prio_tc\<close> is \<open>net_port_priority_to_traffic_class\<close>, and \<open>fq_os_ok\<close> tells
  whether the n-th call of the credit based shaper (\<open>fqtss_set_oper_idle_slope\<close>, \<open>fqtss_stream_add\<close>,
  \<open>fqtss_stream_remove\<close>) succeeds; the calls are logged in \<open>fq_calls\<close>.
\<close>

subsection \<open>State\<close>

abbreviation FQTSS_MAX_TRAFFIC_CLASS :: nat where "FQTSS_MAX_TRAFFIC_CLASS \<equiv> 8"
abbreviation CFG_MAX_LOGICAL_PORTS :: nat where "CFG_MAX_LOGICAL_PORTS \<equiv> 7"

record bandwidth_availability_params =
  delta_bandwidth :: u32
  oper_idle_slope :: u64
  lock_class_bandwidth :: bool

record fqtss_port_params =
  bandwidth_availability :: "nat \<Rightarrow> bandwidth_availability_params"
  total_oper_idle_slope :: u64
  port_transmit_rate :: u64

datatype fqtss_call =
    SetOperIdleSlope nat nat u64
  | StreamAdd nat "u8 list" u16 u8 u64
  | StreamRemove nat "u8 list" u16 u8 u64

record fqtss_state =
  fq_port :: "nat \<Rightarrow> fqtss_port_params"
  fq_prio_tc :: "nat \<Rightarrow> u8 \<Rightarrow> u32"
  fq_os_ok :: "nat \<Rightarrow> bool"
  fq_n :: nat
  fq_calls :: "fqtss_call list"

subsection \<open>The admission check\<close>

text \<open>The loop runs from the highest traffic class down to \<open>traffic_class\<close>.\<close>

definition common_fqtss_get_total_delta_bandwidth :: "fqtss_port_params \<Rightarrow> nat \<Rightarrow> u32" where
  "common_fqtss_get_total_delta_bandwidth fp traffic_class =
     fold (\<lambda>i tot. if \<not> lock_class_bandwidth (bandwidth_availability fp i)
                     then tot + delta_bandwidth (bandwidth_availability fp i) else tot)
       (rev [(if traffic_class < FQTSS_MAX_TRAFFIC_CLASS then traffic_class else 0)..<FQTSS_MAX_TRAFFIC_CLASS]) 0"

definition new_total :: "fqtss_port_params \<Rightarrow> u64 \<Rightarrow> u64 \<Rightarrow> u64" where
  "new_total fp oper new_idle_slope =
     (if oper > new_idle_slope \<and> oper - new_idle_slope > total_oper_idle_slope fp then 0
      else total_oper_idle_slope fp + (new_idle_slope - oper))"

definition common_fqtss_check_valid_oper_idle_slope :: "fqtss_port_params \<Rightarrow> nat \<Rightarrow> u64 \<Rightarrow> int" where
  "common_fqtss_check_valid_oper_idle_slope fp traffic_class new_idle_slope =
     (let ba = bandwidth_availability fp traffic_class
      in if lock_class_bandwidth ba
         then if new_idle_slope > (port_transmit_rate fp div 100) * ucast (delta_bandwidth ba) then -1 else 0
         else if new_total fp (oper_idle_slope ba) new_idle_slope >
                (port_transmit_rate fp div 100) * ucast (common_fqtss_get_total_delta_bandwidth fp traffic_class)
              then -1 else 0)"

subsection \<open>Streams\<close>

definition os_call :: "fqtss_call \<Rightarrow> fqtss_state \<Rightarrow> bool \<times> fqtss_state" where
  "os_call c st = (fq_os_ok st (fq_n st), st\<lparr>fq_n := fq_n st + 1, fq_calls := fq_calls st @ [c]\<rparr>)"

definition set_slopes :: "fqtss_state \<Rightarrow> nat \<Rightarrow> nat \<Rightarrow> u64 \<Rightarrow> u64 \<Rightarrow> fqtss_state" where
  "set_slopes st port_id tc oper tot =
     (let fp = fq_port st port_id; ba = bandwidth_availability fp
      in st\<lparr>fq_port := (fq_port st)(port_id :=
           fp\<lparr>bandwidth_availability := ba(tc := (ba tc)\<lparr>oper_idle_slope := oper\<rparr>), total_oper_idle_slope := tot\<rparr>)\<rparr>)"

definition common_fqtss_stream_add ::
  "fqtss_state \<Rightarrow> nat \<Rightarrow> u8 list \<Rightarrow> u16 \<Rightarrow> u8 \<Rightarrow> u64 \<Rightarrow> bool \<Rightarrow> int \<times> fqtss_state" where
  "common_fqtss_stream_add st port_id stream_id vlan_id priority idle_slope is_bridge =
     (if port_id \<ge> CFG_MAX_LOGICAL_PORTS then (-1, st)
      else
        let tc = unat (ucast (fq_prio_tc st port_id priority) :: u8)
        in if tc \<ge> FQTSS_MAX_TRAFFIC_CLASS then (-1, st)
           else
             let fp = fq_port st port_id; ba = bandwidth_availability fp tc; new_idle_slope = oper_idle_slope ba + idle_slope
             in if common_fqtss_check_valid_oper_idle_slope fp tc new_idle_slope < 0 then (-1, st)
                else
                  let (ok, st1) = os_call (if is_bridge then SetOperIdleSlope port_id tc new_idle_slope
                                           else StreamAdd port_id stream_id vlan_id priority idle_slope) st
                  in if \<not> ok then (-1, st1)
                     else (0, set_slopes st1 port_id tc new_idle_slope (total_oper_idle_slope fp + idle_slope)))"

definition common_fqtss_stream_remove ::
  "fqtss_state \<Rightarrow> nat \<Rightarrow> u8 list \<Rightarrow> u16 \<Rightarrow> u8 \<Rightarrow> u64 \<Rightarrow> bool \<Rightarrow> int \<times> fqtss_state" where
  "common_fqtss_stream_remove st port_id stream_id vlan_id priority idle_slope is_bridge =
     (if port_id \<ge> CFG_MAX_LOGICAL_PORTS then (-1, st)
      else
        let tc = unat (ucast (fq_prio_tc st port_id priority) :: u8)
        in if tc \<ge> FQTSS_MAX_TRAFFIC_CLASS then (-1, st)
           else
             let fp = fq_port st port_id; ba = bandwidth_availability fp tc;
                 new_idle_slope = (if oper_idle_slope ba < idle_slope then 0 else oper_idle_slope ba - idle_slope);
                 (ok, st1) = os_call (if is_bridge then SetOperIdleSlope port_id tc new_idle_slope
                                      else StreamRemove port_id stream_id vlan_id priority idle_slope) st
             in if \<not> ok then (-1, st1)
                else (0, set_slopes st1 port_id tc new_idle_slope (new_total fp (oper_idle_slope ba) new_idle_slope)))"

definition common_fqtss_set_port_transmit_rate :: "fqtss_state \<Rightarrow> nat \<Rightarrow> u64 \<Rightarrow> int \<times> fqtss_state" where
  "common_fqtss_set_port_transmit_rate st port_id rate =
     (if port_id \<ge> CFG_MAX_LOGICAL_PORTS then (-1, st)
      else (0, st\<lparr>fq_port := (fq_port st)(port_id := (fq_port st port_id)\<lparr>port_transmit_rate := rate\<rparr>)\<rparr>))"

definition common_fqtss_init :: "fqtss_state \<Rightarrow> int \<times> fqtss_state" where
  "common_fqtss_init st =
     (0, st\<lparr>fq_port := fold (\<lambda>i f. f(i := (f i)\<lparr>bandwidth_availability := (bandwidth_availability (f i))
                (FQTSS_MAX_TRAFFIC_CLASS - 1 := (bandwidth_availability (f i) (FQTSS_MAX_TRAFFIC_CLASS - 1))\<lparr>delta_bandwidth := 75\<rparr>)\<rparr>))
              [0..<CFG_MAX_LOGICAL_PORTS]
              (\<lambda>i. if i < CFG_MAX_LOGICAL_PORTS
                   then \<lparr>bandwidth_availability = (\<lambda>_. \<lparr>delta_bandwidth = 0, oper_idle_slope = 0, lock_class_bandwidth = False\<rparr>),
                         total_oper_idle_slope = 0, port_transmit_rate = 0\<rparr>
                   else fq_port st i)\<rparr>)"

subsection \<open>Sequences of calls\<close>

datatype fqtss_op =
    OpAdd nat "u8 list" u16 u8 u64 bool
  | OpRemove nat "u8 list" u16 u8 u64 bool
  | OpRate nat u64

fun fqtss_apply :: "fqtss_op \<Rightarrow> fqtss_state \<Rightarrow> fqtss_state" where
  "fqtss_apply (OpAdd port sid vid prio slope bridge) st = snd (common_fqtss_stream_add st port sid vid prio slope bridge)"
| "fqtss_apply (OpRemove port sid vid prio slope bridge) st = snd (common_fqtss_stream_remove st port sid vid prio slope bridge)"
| "fqtss_apply (OpRate port rate) st = snd (common_fqtss_set_port_transmit_rate st port rate)"

text \<open>Every slope that MSRP computes is below \<open>2^49\<close> (\<open>idle_slope_exact\<close>); a port of \<open>2^63\<close> bits per second is out of reach.\<close>

fun op_sane :: "fqtss_op \<Rightarrow> bool" where
  "op_sane (OpAdd port sid vid prio slope bridge) \<longleftrightarrow> slope < 2 ^ 62"
| "op_sane (OpRemove port sid vid prio slope bridge) \<longleftrightarrow> True"
| "op_sane (OpRate port rate) \<longleftrightarrow> rate < 2 ^ 63"

subsection \<open>The invariant\<close>

definition fq_default :: "fqtss_port_params \<Rightarrow> bool" where
  "fq_default fp \<longleftrightarrow> (\<forall>i<FQTSS_MAX_TRAFFIC_CLASS. \<not> lock_class_bandwidth (bandwidth_availability fp i) \<and>
     delta_bandwidth (bandwidth_availability fp i) = (if i = 7 then 75 else 0))"

definition fq_sum :: "fqtss_port_params \<Rightarrow> nat" where
  "fq_sum fp = (\<Sum>i<FQTSS_MAX_TRAFFIC_CLASS. unat (oper_idle_slope (bandwidth_availability fp i)))"

definition fq_ok :: "fqtss_port_params \<Rightarrow> bool" where
  "fq_ok fp \<longleftrightarrow> fq_default fp \<and> unat (total_oper_idle_slope fp) = fq_sum fp \<and>
     unat (total_oper_idle_slope fp) < 2 ^ 63 \<and> unat (port_transmit_rate fp) < 2 ^ 63"

definition fq_inv :: "fqtss_state \<Rightarrow> bool" where
  "fq_inv st \<longleftrightarrow> (\<forall>p<CFG_MAX_LOGICAL_PORTS. fq_ok (fq_port st p))"

lemma total_delta:
  assumes "fq_default fp" and "tc < FQTSS_MAX_TRAFFIC_CLASS"
  shows "common_fqtss_get_total_delta_bandwidth fp tc = 75"
proof -
  have "tc \<in> {0, 1, 2, 3, 4, 5, 6, 7}" using assms(2) by auto
  then show ?thesis using assms(1)
    by (auto simp: common_fqtss_get_total_delta_bandwidth_def fq_default_def upt_rec [of _ "8 :: nat"])
qed

lemma limit_nat:
  assumes "unat (rate :: u64) < 2 ^ 63"
  shows "unat (rate div 100 * 75) = unat rate div 100 * 75"
proof -
  have "unat rate div 100 * 75 < 2 ^ 64" using assms by simp
  then show ?thesis by (subst unat_mult_exact) (simp_all add: unat_div)
qed

lemma sum_slopes_upd:
  assumes "tc < FQTSS_MAX_TRAFFIC_CLASS"
  shows "(\<Sum>i<FQTSS_MAX_TRAFFIC_CLASS. unat (oper_idle_slope ((ba(tc := (ba tc)\<lparr>oper_idle_slope := v\<rparr>)) i))) + unat (oper_idle_slope (ba tc)) =
    (\<Sum>i<FQTSS_MAX_TRAFFIC_CLASS. unat (oper_idle_slope (ba i))) + unat v"
proof -
  let ?f = "\<lambda>i. unat (oper_idle_slope (ba i))" and ?g = "\<lambda>i. unat (oper_idle_slope ((ba(tc := (ba tc)\<lparr>oper_idle_slope := v\<rparr>)) i))"
  have "sum ?g ({..<FQTSS_MAX_TRAFFIC_CLASS} - {tc}) = sum ?f ({..<FQTSS_MAX_TRAFFIC_CLASS} - {tc})"
    by (rule sum.cong) auto
  then show ?thesis
    using sum.remove [of "{..<FQTSS_MAX_TRAFFIC_CLASS}" tc ?f] sum.remove [of "{..<FQTSS_MAX_TRAFFIC_CLASS}" tc ?g] assms by simp
qed

lemma slope_le_total:
  assumes "fq_ok fp" and "tc < FQTSS_MAX_TRAFFIC_CLASS"
  shows "unat (oper_idle_slope (bandwidth_availability fp tc)) \<le> unat (total_oper_idle_slope fp)"
proof -
  have "unat (oper_idle_slope (bandwidth_availability fp tc)) \<le> fq_sum fp"
    unfolding fq_sum_def using assms(2) by (intro member_le_sum) auto
  then show ?thesis using assms(1) by (simp add: fq_ok_def)
qed

text \<open>The new total, as a number: the old one with the slope of the class exchanged.\<close>

lemma new_total_nat:
  assumes ok: "fq_ok fp" and tc: "tc < FQTSS_MAX_TRAFFIC_CLASS" and new: "unat new < 2 ^ 63 + 2 ^ 62"
    and sum: "unat (total_oper_idle_slope fp) + unat new < 2 ^ 64 + unat (oper_idle_slope (bandwidth_availability fp tc))"
  shows "unat (new_total fp (oper_idle_slope (bandwidth_availability fp tc)) new) + unat (oper_idle_slope (bandwidth_availability fp tc)) =
    unat (total_oper_idle_slope fp) + unat new"
proof -
  let ?o = "oper_idle_slope (bandwidth_availability fp tc)" and ?t = "total_oper_idle_slope fp"
  have le: "unat ?o \<le> unat ?t" by (rule slope_le_total [OF ok tc])
  have ol: "?o \<le> ?t" using le by (simp add: word_le_nat_alt)
  have b: "\<not> (?o > new \<and> ?o - new > ?t)"
  proof
    assume a: "?o > new \<and> ?o - new > ?t"
    then have "unat (?o - new) = unat ?o - unat new" by (simp add: unat_sub less_imp_le)
    then show False using a le by (auto simp: word_less_nat_alt)
  qed
  have e: "?t + (new - ?o) = (?t - ?o) + new" by simp
  have s: "unat (?t - ?o) = unat ?t - unat ?o" using ol by (simp add: unat_sub)
  have "unat (?t - ?o + new) = unat (?t - ?o) + unat new"
    by (rule unat_add_exact) (use s le sum in simp)
  then show ?thesis unfolding new_total_def if_not_P [OF b] e using s le by simp
qed

lemma set_slopes_ok:
  assumes ok: "fq_ok (fq_port st p)" and tc: "tc < FQTSS_MAX_TRAFFIC_CLASS"
    and t: "unat tot + unat (oper_idle_slope (bandwidth_availability (fq_port st p) tc)) =
      unat (total_oper_idle_slope (fq_port st p)) + unat oper" and lt: "unat tot < 2 ^ 63"
  shows "fq_ok (fq_port (set_slopes st p tc oper tot) p)"
proof -
  let ?fp = "fq_port st p" and ?fp' = "fq_port (set_slopes st p tc oper tot) p"
  have e: "?fp' = ?fp\<lparr>bandwidth_availability := (bandwidth_availability ?fp)(tc := (bandwidth_availability ?fp tc)\<lparr>oper_idle_slope := oper\<rparr>),
      total_oper_idle_slope := tot\<rparr>" by (simp add: set_slopes_def Let_def)
  have "fq_default ?fp'" using ok unfolding e by (simp add: fq_ok_def fq_default_def)
  moreover have "unat tot = fq_sum ?fp'"
    using sum_slopes_upd [OF tc, of "bandwidth_availability ?fp" oper] ok t
    unfolding e by (simp add: fq_sum_def fq_ok_def)
  ultimately show ?thesis using ok lt unfolding e by (simp add: fq_ok_def)
qed

lemma set_slopes_other [simp]: "q \<noteq> p \<Longrightarrow> fq_port (set_slopes st p tc oper tot) q = fq_port st q"
  by (simp add: set_slopes_def Let_def)

lemma os_call_port [simp]: "os_call c st = (ok, st1) \<Longrightarrow> fq_port st1 = fq_port st \<and> fq_prio_tc st1 = fq_prio_tc st"
  by (auto simp: os_call_def)

text \<open>What a successful reservation did.\<close>

lemma add_success:
  assumes inv: "fq_inv st" and slope: "unat idle_slope < 2 ^ 62"
    and a: "common_fqtss_stream_add st p sid vid prio idle_slope br = (0, st')"
  obtains tc where "p < CFG_MAX_LOGICAL_PORTS" and "tc < FQTSS_MAX_TRAFFIC_CLASS" and "tc = unat (ucast (fq_prio_tc st p prio) :: u8)"
    and "fq_prio_tc st' = fq_prio_tc st" and "fq_ok (fq_port st' p)" and "\<forall>q. q \<noteq> p \<longrightarrow> fq_port st' q = fq_port st q"
    and "fq_port st' p = fq_port (set_slopes st p tc (oper_idle_slope (bandwidth_availability (fq_port st p) tc) + idle_slope)
           (total_oper_idle_slope (fq_port st p) + idle_slope)) p"
    and "unat (total_oper_idle_slope (fq_port st' p)) = unat (total_oper_idle_slope (fq_port st p)) + unat idle_slope"
    and "unat (oper_idle_slope (bandwidth_availability (fq_port st p) tc) + idle_slope) =
      unat (oper_idle_slope (bandwidth_availability (fq_port st p) tc)) + unat idle_slope"
    and "unat (total_oper_idle_slope (fq_port st' p)) \<le> unat (port_transmit_rate (fq_port st' p)) div 100 * 75"
proof -
  define tc where "tc = unat (ucast (fq_prio_tc st p prio) :: u8)"
  define fp where "fp = fq_port st p"
  define oper where "oper = oper_idle_slope (bandwidth_availability fp tc)"
  define c where "c = (if br then SetOperIdleSlope p tc (oper + idle_slope) else StreamAdd p sid vid prio idle_slope)"
  obtain ok st1 where os: "os_call c st = (ok, st1)" by force
  have e: "common_fqtss_stream_add st p sid vid prio idle_slope br =
    (if p \<ge> CFG_MAX_LOGICAL_PORTS \<or> tc \<ge> FQTSS_MAX_TRAFFIC_CLASS \<or> common_fqtss_check_valid_oper_idle_slope fp tc (oper + idle_slope) < 0
     then (-1, st) else if \<not> ok then (-1, st1) else (0, set_slopes st1 p tc (oper + idle_slope) (total_oper_idle_slope fp + idle_slope)))"
    unfolding common_fqtss_stream_add_def Let_def tc_def [symmetric] fp_def [symmetric] oper_def [symmetric] c_def [symmetric] os prod.case
    by (simp only: de_Morgan_disj if_cancel split: if_split) simp
  have p: "p < CFG_MAX_LOGICAL_PORTS" and tc: "tc < FQTSS_MAX_TRAFFIC_CLASS"
    and chk: "\<not> common_fqtss_check_valid_oper_idle_slope fp tc (oper + idle_slope) < 0"
    and st': "st' = set_slopes st1 p tc (oper + idle_slope) (total_oper_idle_slope fp + idle_slope)"
    using a unfolding e by (auto split: if_splits)
  have fpok: "fq_ok fp" using inv p by (simp add: fq_inv_def fp_def)
  have tot: "unat (total_oper_idle_slope fp) < 2 ^ 63" using fpok by (simp add: fq_ok_def)
  have ole: "unat oper \<le> unat (total_oper_idle_slope fp)" unfolding oper_def by (rule slope_le_total [OF fpok tc])
  have no: "unat (oper + idle_slope) = unat oper + unat idle_slope"
    by (rule unat_add_exact) (use ole tot slope in simp)
  have nt: "unat (total_oper_idle_slope fp + idle_slope) = unat (total_oper_idle_slope fp) + unat idle_slope"
    by (rule unat_add_exact) (use tot slope in simp)
  have nn: "unat (new_total fp oper (oper + idle_slope)) = unat (total_oper_idle_slope fp) + unat idle_slope"
    using new_total_nat [OF fpok tc, of "oper + idle_slope"] ole tot slope no by (simp add: oper_def [symmetric])
  have lock: "\<not> lock_class_bandwidth (bandwidth_availability fp tc)" using fpok tc by (simp add: fq_ok_def fq_default_def)
  have rate: "unat (port_transmit_rate fp) < 2 ^ 63" using fpok by (simp add: fq_ok_def)
  have "\<not> new_total fp oper (oper + idle_slope) > port_transmit_rate fp div 100 * 75"
    using chk lock total_delta [of fp tc] fpok tc
    by (auto simp: common_fqtss_check_valid_oper_idle_slope_def Let_def oper_def [symmetric] fq_ok_def split: if_splits)
  then have lim: "unat (total_oper_idle_slope fp) + unat idle_slope \<le> unat (port_transmit_rate fp) div 100 * 75"
    using nn by (simp add: word_less_nat_alt not_less limit_nat [OF rate])
  have e1: "fq_port st1 = fq_port st" "fq_prio_tc st1 = fq_prio_tc st" using os_call_port [OF os] by simp_all
  have fields: "total_oper_idle_slope (fq_port st' p) = total_oper_idle_slope fp + idle_slope"
    "port_transmit_rate (fq_port st' p) = port_transmit_rate fp" "fq_prio_tc st' = fq_prio_tc st"
    by (simp_all add: st' set_slopes_def Let_def e1 fp_def)
  have ok': "fq_ok (fq_port st' p)" unfolding st'
  proof (rule set_slopes_ok [OF _ tc])
    show "fq_ok (fq_port st1 p)" using fpok by (simp add: e1 fp_def)
    show "unat (total_oper_idle_slope fp + idle_slope) + unat (oper_idle_slope (bandwidth_availability (fq_port st1 p) tc)) =
      unat (total_oper_idle_slope (fq_port st1 p)) + unat (oper + idle_slope)"
      unfolding e1 fp_def [symmetric] oper_def [symmetric] nt no by simp
    have "unat (port_transmit_rate fp) div 100 * 75 < 2 ^ 63" using rate by simp
    then show "unat (total_oper_idle_slope fp + idle_slope) < 2 ^ 63" unfolding nt using lim by linarith
  qed
  show ?thesis
  proof (rule that [OF p tc tc_def fields(3) ok'])
    show "\<forall>q. q \<noteq> p \<longrightarrow> fq_port st' q = fq_port st q" by (simp add: st' e1)
    show "fq_port st' p = fq_port (set_slopes st p tc (oper_idle_slope (bandwidth_availability (fq_port st p) tc) + idle_slope)
           (total_oper_idle_slope (fq_port st p) + idle_slope)) p"
      by (simp add: st' set_slopes_def Let_def e1 fp_def oper_def)
    show "unat (total_oper_idle_slope (fq_port st' p)) = unat (total_oper_idle_slope (fq_port st p)) + unat idle_slope"
      using nt by (simp add: fields(1) fp_def)
    show "unat (oper_idle_slope (bandwidth_availability (fq_port st p) tc) + idle_slope) =
      unat (oper_idle_slope (bandwidth_availability (fq_port st p) tc)) + unat idle_slope"
      using no by (simp add: oper_def fp_def)
    show "unat (total_oper_idle_slope (fq_port st' p)) \<le> unat (port_transmit_rate (fq_port st' p)) div 100 * 75"
      using lim nt by (simp add: fields)
  qed
qed

lemma remove_success:
  assumes inv: "fq_inv st" and a: "common_fqtss_stream_remove st p sid vid prio idle_slope br = (0, st')"
  obtains tc new tot where "p < CFG_MAX_LOGICAL_PORTS" and "tc < FQTSS_MAX_TRAFFIC_CLASS" and "tc = unat (ucast (fq_prio_tc st p prio) :: u8)"
    and "fq_ok (fq_port st' p)" and "\<forall>q. q \<noteq> p \<longrightarrow> fq_port st' q = fq_port st q"
    and "fq_port st' p = fq_port (set_slopes st p tc new tot) p"
    and "unat new = unat (oper_idle_slope (bandwidth_availability (fq_port st p) tc)) - unat idle_slope"
    and "unat tot + unat (oper_idle_slope (bandwidth_availability (fq_port st p) tc)) = unat (total_oper_idle_slope (fq_port st p)) + unat new"
proof -
  define tc where "tc = unat (ucast (fq_prio_tc st p prio) :: u8)"
  define fp where "fp = fq_port st p"
  define oper where "oper = oper_idle_slope (bandwidth_availability fp tc)"
  define new where "new = (if oper < idle_slope then 0 else oper - idle_slope)"
  define tot where "tot = new_total fp oper new"
  define c where "c = (if br then SetOperIdleSlope p tc new else StreamRemove p sid vid prio idle_slope)"
  obtain ok st1 where os: "os_call c st = (ok, st1)" by force
  have e: "common_fqtss_stream_remove st p sid vid prio idle_slope br =
    (if p \<ge> CFG_MAX_LOGICAL_PORTS \<or> tc \<ge> FQTSS_MAX_TRAFFIC_CLASS then (-1, st)
     else if \<not> ok then (-1, st1) else (0, set_slopes st1 p tc new tot))"
    unfolding common_fqtss_stream_remove_def Let_def tc_def [symmetric] fp_def [symmetric] oper_def [symmetric]
      new_def [symmetric] tot_def [symmetric] c_def [symmetric] os prod.case
    by (simp only: de_Morgan_disj if_cancel split: if_split) simp
  have p: "p < CFG_MAX_LOGICAL_PORTS" and tc: "tc < FQTSS_MAX_TRAFFIC_CLASS" and st': "st' = set_slopes st1 p tc new tot"
    using a unfolding e by (auto split: if_splits)
  have fpok: "fq_ok fp" using inv p by (simp add: fq_inv_def fp_def)
  have tb: "unat (total_oper_idle_slope fp) < 2 ^ 63" using fpok by (simp add: fq_ok_def)
  have ole: "unat oper \<le> unat (total_oper_idle_slope fp)" unfolding oper_def by (rule slope_le_total [OF fpok tc])
  have n: "unat new = unat oper - unat idle_slope"
    by (auto simp: new_def word_less_nat_alt unat_sub word_le_nat_alt not_less)
  have t: "unat tot + unat oper = unat (total_oper_idle_slope fp) + unat new"
    using new_total_nat [OF fpok tc, of new] n ole tb by (simp add: oper_def [symmetric] tot_def)
  have e1: "fq_port st1 = fq_port st" using os_call_port [OF os] by simp
  have ok': "fq_ok (fq_port st' p)" unfolding st'
  proof (rule set_slopes_ok [OF _ tc])
    show "fq_ok (fq_port st1 p)" using fpok by (simp add: e1 fp_def)
    show "unat tot + unat (oper_idle_slope (bandwidth_availability (fq_port st1 p) tc)) = unat (total_oper_idle_slope (fq_port st1 p)) + unat new"
      using t by (simp add: e1 fp_def oper_def)
    show "unat tot < 2 ^ 63" using t n tb ole by linarith
  qed
  show ?thesis
  proof (rule that [OF p tc tc_def ok'])
    show "\<forall>q. q \<noteq> p \<longrightarrow> fq_port st' q = fq_port st q" by (simp add: st' e1)
    show "fq_port st' p = fq_port (set_slopes st p tc new tot) p" by (simp add: st' set_slopes_def Let_def e1)
    show "unat new = unat (oper_idle_slope (bandwidth_availability (fq_port st p) tc)) - unat idle_slope"
      using n by (simp add: oper_def fp_def)
    show "unat tot + unat (oper_idle_slope (bandwidth_availability (fq_port st p) tc)) = unat (total_oper_idle_slope (fq_port st p)) + unat new"
      using t by (simp add: oper_def fp_def)
  qed
qed

text \<open>A refused call leaves the accounts alone.\<close>

lemma add_refused: "fst (common_fqtss_stream_add st p sid vid prio slope br) \<noteq> 0 \<Longrightarrow>
  fq_port (snd (common_fqtss_stream_add st p sid vid prio slope br)) = fq_port st"
  unfolding common_fqtss_stream_add_def Let_def os_call_def prod.case by (simp only: if_distrib [of fst] if_distrib [of snd] if_distrib [of fq_port]
      fst_conv snd_conv fqtss_state.simps simp_thms split: if_splits) simp

lemma remove_refused: "fst (common_fqtss_stream_remove st p sid vid prio slope br) \<noteq> 0 \<Longrightarrow>
  fq_port (snd (common_fqtss_stream_remove st p sid vid prio slope br)) = fq_port st"
  unfolding common_fqtss_stream_remove_def Let_def os_call_def prod.case by (simp only: if_distrib [of fst] if_distrib [of snd] if_distrib [of fq_port]
      fst_conv snd_conv fqtss_state.simps simp_thms split: if_splits) simp

lemma same_accounts_inv: "fq_inv st \<Longrightarrow> fq_port st' = fq_port st \<Longrightarrow> fq_inv st'"
  by (simp add: fq_inv_def)

lemma inv_one_port:
  "fq_inv st \<Longrightarrow> fq_ok (fq_port st' p) \<Longrightarrow> \<forall>q. q \<noteq> p \<longrightarrow> fq_port st' q = fq_port st q \<Longrightarrow> fq_inv st'"
  unfolding fq_inv_def by metis

lemma apply_inv:
  assumes "fq_inv st" and "op_sane op"
  shows "fq_inv (fqtss_apply op st)"
proof (cases op)
  case (OpAdd p sid vid prio slope br)
  then have sl: "unat slope < 2 ^ 62" using assms(2) by (simp add: word_less_nat_alt)
  let ?r = "common_fqtss_stream_add st p sid vid prio slope br"
  show ?thesis
  proof (cases "fst ?r = 0")
    case True
    then have "?r = (0, snd ?r)" by (metis prod.collapse)
    then have "fq_inv (snd ?r)" by (rule add_success [OF assms(1) sl]) (rule inv_one_port [OF assms(1)])
    then show ?thesis by (simp add: OpAdd)
  next
    case False
    then show ?thesis using same_accounts_inv [OF assms(1) add_refused] by (simp add: OpAdd)
  qed
next
  case (OpRemove p sid vid prio slope br)
  let ?r = "common_fqtss_stream_remove st p sid vid prio slope br"
  show ?thesis
  proof (cases "fst ?r = 0")
    case True
    then have "?r = (0, snd ?r)" by (metis prod.collapse)
    then have "fq_inv (snd ?r)" by (rule remove_success [OF assms(1)]) (rule inv_one_port [OF assms(1)])
    then show ?thesis by (simp add: OpRemove)
  next
    case False
    then show ?thesis using same_accounts_inv [OF assms(1) remove_refused] by (simp add: OpRemove)
  qed
next
  case (OpRate p rate)
  then have "unat rate < 2 ^ 63" using assms(2) by (simp add: word_less_nat_alt)
  then have "fq_ok (fp\<lparr>port_transmit_rate := rate\<rparr>)" if "fq_ok fp" for fp
    using that by (simp add: fq_ok_def fq_default_def fq_sum_def)
  then show ?thesis using assms(1) by (auto simp: OpRate common_fqtss_set_port_transmit_rate_def fq_inv_def)
qed

lemma run_inv: "fq_inv st \<Longrightarrow> (\<forall>op \<in> set ops. op_sane op) \<Longrightarrow> fq_inv (fold fqtss_apply ops st)"
  by (induction ops arbitrary: st) (simp_all add: apply_inv)

lemma fold_upd_each: "fold (\<lambda>i f. f(i := g (f i))) [0..<n] f j = (if j < n then g (f j) else f j)"
  by (induction n arbitrary: f) auto

lemma init_port:
  "p < CFG_MAX_LOGICAL_PORTS \<Longrightarrow> fq_port (snd (common_fqtss_init st)) p =
     \<lparr>bandwidth_availability = (\<lambda>i. \<lparr>delta_bandwidth = (if i = 7 then 75 else 0), oper_idle_slope = 0, lock_class_bandwidth = False\<rparr>),
      total_oper_idle_slope = 0, port_transmit_rate = 0\<rparr>"
  unfolding common_fqtss_init_def snd_conv fqtss_state.simps
    fold_upd_each [where g = "\<lambda>fp. fp\<lparr>bandwidth_availability := (bandwidth_availability fp)
      (FQTSS_MAX_TRAFFIC_CLASS - 1 := (bandwidth_availability fp (FQTSS_MAX_TRAFFIC_CLASS - 1))\<lparr>delta_bandwidth := 75\<rparr>)\<rparr>"]
  by (simp add: fun_eq_iff)

lemma init_code [code]:
  "common_fqtss_init st = (0, st\<lparr>fq_port := (\<lambda>p. if p < CFG_MAX_LOGICAL_PORTS then
     \<lparr>bandwidth_availability = (\<lambda>i. \<lparr>delta_bandwidth = (if i = 7 then 75 else 0), oper_idle_slope = 0, lock_class_bandwidth = False\<rparr>),
      total_oper_idle_slope = 0, port_transmit_rate = 0\<rparr> else fq_port st p)\<rparr>)"
  unfolding common_fqtss_init_def
    fold_upd_each [where g = "\<lambda>fp. fp\<lparr>bandwidth_availability := (bandwidth_availability fp)
      (FQTSS_MAX_TRAFFIC_CLASS - 1 := (bandwidth_availability fp (FQTSS_MAX_TRAFFIC_CLASS - 1))\<lparr>delta_bandwidth := 75\<rparr>)\<rparr>", abs_def]
  by (rule arg_cong [where f = "Pair 0"]) (simp add: fun_eq_iff)

lemma init_prio_tc [simp]: "fq_prio_tc (snd (common_fqtss_init st)) = fq_prio_tc st" "fq_os_ok (snd (common_fqtss_init st)) = fq_os_ok st"
  by (simp_all add: common_fqtss_init_def)

lemma init_inv: "fq_inv (snd (common_fqtss_init st))"
  by (simp add: fq_inv_def init_port fq_ok_def fq_default_def fq_sum_def)

subsection \<open>Properties\<close>

text \<open>
  C8: The accounts are exact. After any sequence of stream additions, removals and rate changes from
  \<open>common_fqtss_init\<close> on, whatever the calls of the operating system return, \<open>total_oper_idle_slope\<close> of every port is the
  sum, as numbers, of the slopes of its eight traffic classes: neither the wrap-around of the 64-bit additions
  nor the clamping at zero ever loses or invents bandwidth.
\<close>

theorem fqtss_accounts_exact:
  assumes "\<forall>op \<in> set ops. op_sane op" and "p < CFG_MAX_LOGICAL_PORTS"
  shows "unat (total_oper_idle_slope (fq_port (fold fqtss_apply ops (snd (common_fqtss_init st))) p)) =
    (\<Sum>i<FQTSS_MAX_TRAFFIC_CLASS. unat (oper_idle_slope (bandwidth_availability (fq_port (fold fqtss_apply ops (snd (common_fqtss_init st))) p) i)))"
  using run_inv [OF init_inv assms(1), of st] assms(2) by (simp add: fq_inv_def fq_ok_def fq_sum_def)

definition example_fqtss :: fqtss_state where
  "example_fqtss = \<lparr>fq_port = (\<lambda>_. \<lparr>bandwidth_availability = (\<lambda>_. \<lparr>delta_bandwidth = 0, oper_idle_slope = 0, lock_class_bandwidth = False\<rparr>),
     total_oper_idle_slope = 0, port_transmit_rate = 0\<rparr>), fq_prio_tc = (\<lambda>_ prio. if prio = 3 then 4 else 3), fq_os_ok = (\<lambda>_. True), fq_n = 0, fq_calls = []\<rparr>"

theorem fqtss_accounts_exact_witness:
  "(\<Sum>i<FQTSS_MAX_TRAFFIC_CLASS. unat (oper_idle_slope (bandwidth_availability (fq_port (fold fqtss_apply
      [OpRate 0 1000000000, OpAdd 0 [1] 2 3 17088000 True, OpAdd 0 [2] 2 2 5000 True] (snd (common_fqtss_init example_fqtss))) 0) i))) = 17093000"
proof -
  let ?ops = "[OpRate 0 1000000000, OpAdd 0 [1] 2 3 17088000 True, OpAdd 0 [2] 2 2 5000 True]"
  have "\<forall>op \<in> set ?ops. op_sane op" by simp
  note e = fqtss_accounts_exact [OF this, of 0 example_fqtss]
  have "total_oper_idle_slope (fq_port (fold fqtss_apply ?ops (snd (common_fqtss_init example_fqtss))) 0) = 17093000"
    by code_simp
  with e show ?thesis by simp
qed

text \<open>
  C6: Admission control. A stream that \<open>common_fqtss_stream_add\<close> accepts leaves the bandwidth reserved on the port, over all its
  traffic classes, at no more than 75 percent of the port's current transmit rate, and above it by exactly the slope
  of the stream; the other ports keep their accounts.
\<close>

theorem fqtss_admission:
  assumes "\<forall>op \<in> set ops. op_sane op" and "idle_slope < 2 ^ 62"
    and "common_fqtss_stream_add (fold fqtss_apply ops (snd (common_fqtss_init st0))) p sid vid prio idle_slope br = (0, st')"
  shows "100 * unat (total_oper_idle_slope (fq_port st' p)) \<le> 75 * unat (port_transmit_rate (fq_port st' p)) \<and>
    unat (total_oper_idle_slope (fq_port st' p)) =
      unat (total_oper_idle_slope (fq_port (fold fqtss_apply ops (snd (common_fqtss_init st0))) p)) + unat idle_slope \<and>
    (\<forall>q. q \<noteq> p \<longrightarrow> fq_port st' q = fq_port (fold fqtss_apply ops (snd (common_fqtss_init st0))) q)"
proof -
  have sl: "unat idle_slope < 2 ^ 62" using assms(2) by (simp add: word_less_nat_alt)
  show ?thesis
    by (rule add_success [OF run_inv [OF init_inv assms(1)] sl assms(3)]) simp
qed

theorem fqtss_admission_witness:
  "100 * unat (total_oper_idle_slope (fq_port (snd (common_fqtss_stream_add (fold fqtss_apply [OpRate 0 1000000000]
      (snd (common_fqtss_init example_fqtss))) 0 [1] 2 3 750000000 True)) 0)) \<le> 75 * (1000000000 :: nat)"
proof -
  let ?st = "fold fqtss_apply [OpRate 0 1000000000] (snd (common_fqtss_init example_fqtss))"
  let ?r = "common_fqtss_stream_add ?st 0 [1] 2 3 750000000 True"
  have "fst ?r = 0" by code_simp
  then have "?r = (0, snd ?r)" by (metis prod.collapse)
  from fqtss_admission [OF _ _ this] have "100 * unat (total_oper_idle_slope (fq_port (snd ?r) 0)) \<le> 75 * unat (port_transmit_rate (fq_port (snd ?r) 0))"
    by simp
  moreover have "port_transmit_rate (fq_port (snd ?r) 0) = 1000000000" by code_simp
  ultimately show ?thesis by simp
qed

text \<open>
  C38: Removing a stream takes back exactly what adding it took: when both calls succeed, the accounts of every port are what
  they were before.
\<close>

theorem fqtss_add_remove:
  assumes ops: "\<forall>op \<in> set ops. op_sane op" and slope: "idle_slope < 2 ^ 62"
    and st: "st = fold fqtss_apply ops (snd (common_fqtss_init st0))"
    and a: "common_fqtss_stream_add st p sid vid prio idle_slope br = (0, st1)"
    and r: "common_fqtss_stream_remove st1 p sid vid prio idle_slope br = (0, st2)"
  shows "fq_port st2 = fq_port st"
proof -
  have inv: "fq_inv st" unfolding st by (rule run_inv [OF init_inv ops])
  have inv1: "fq_inv st1" using apply_inv [OF inv, of "OpAdd p sid vid prio idle_slope br"] slope a by simp
  have sl: "unat idle_slope < 2 ^ 62" using slope by (simp add: word_less_nat_alt)
  obtain tc where tc: "tc = unat (ucast (fq_prio_tc st p prio) :: u8)" "fq_prio_tc st1 = fq_prio_tc st"
    and o1: "\<forall>q. q \<noteq> p \<longrightarrow> fq_port st1 q = fq_port st q"
    and p1: "fq_port st1 p = fq_port (set_slopes st p tc (oper_idle_slope (bandwidth_availability (fq_port st p) tc) + idle_slope)
           (total_oper_idle_slope (fq_port st p) + idle_slope)) p"
    and t1: "unat (total_oper_idle_slope (fq_port st1 p)) = unat (total_oper_idle_slope (fq_port st p)) + unat idle_slope"
    and n1: "unat (oper_idle_slope (bandwidth_availability (fq_port st p) tc) + idle_slope) =
      unat (oper_idle_slope (bandwidth_availability (fq_port st p) tc)) + unat idle_slope"
    by (rule add_success [OF inv sl a]) blast
  obtain tc2 new tot where tc2: "tc2 = unat (ucast (fq_prio_tc st1 p prio) :: u8)"
    and o2: "\<forall>q. q \<noteq> p \<longrightarrow> fq_port st2 q = fq_port st1 q" and p2: "fq_port st2 p = fq_port (set_slopes st1 p tc2 new tot) p"
    and n2: "unat new = unat (oper_idle_slope (bandwidth_availability (fq_port st1 p) tc2)) - unat idle_slope"
    and t2: "unat tot + unat (oper_idle_slope (bandwidth_availability (fq_port st1 p) tc2)) = unat (total_oper_idle_slope (fq_port st1 p)) + unat new"
    by (rule remove_success [OF inv1 r]) blast
  have tt: "tc2 = tc" by (simp add: tc tc2)
  have os: "oper_idle_slope (bandwidth_availability (fq_port st1 p) tc) = oper_idle_slope (bandwidth_availability (fq_port st p) tc) + idle_slope"
    by (simp add: p1 set_slopes_def Let_def)
  have new: "new = oper_idle_slope (bandwidth_availability (fq_port st p) tc)"
    using n1 n2 by (simp add: tt os word_unat_eq_iff)
  have tot: "tot = total_oper_idle_slope (fq_port st p)"
    using t1 t2 n1 by (simp add: tt os new word_unat_eq_iff)
  have "fq_port st2 p = fq_port st p"
    unfolding p2 tt new tot by (simp add: set_slopes_def Let_def p1)
  then show ?thesis using o1 o2 by (metis ext)
qed

theorem fqtss_add_remove_witness:
  "fq_port (snd (common_fqtss_stream_remove (snd (common_fqtss_stream_add (fold fqtss_apply [OpRate 0 1000000000] (snd (common_fqtss_init example_fqtss)))
      0 [1] 2 3 5000 True)) 0 [1] 2 3 5000 True)) = fq_port (fold fqtss_apply [OpRate 0 1000000000] (snd (common_fqtss_init example_fqtss)))"
proof -
  let ?st = "fold fqtss_apply [OpRate 0 1000000000] (snd (common_fqtss_init example_fqtss))"
  let ?r = "common_fqtss_stream_add ?st 0 [1] 2 3 5000 True"
  let ?q = "common_fqtss_stream_remove (snd ?r) 0 [1] 2 3 5000 True"
  have "fst ?r = 0" by code_simp
  then have r: "?r = (0, snd ?r)" by (metis prod.collapse)
  have "fst ?q = 0" by code_simp
  then have q: "?q = (0, snd ?q)" by (metis prod.collapse)
  show ?thesis by (rule fqtss_add_remove [OF _ _ refl r q]) simp_all
qed

end
