(* ===== verification/MSRP_Map.thy ===== *)
theory MSRP_Map
  imports MVRP FQTSS
begin

section \<open>MSRP streams and their MAP (\<open>src/srp/msrp_map.c\<close>, \<open>src/srp/msrp.h\<close>)\<close>

text \<open>
  The state of the stream reservation protocol and the propagation of talker and listener declarations
  between ports, with the resources they hold: bandwidth (FQTSS), forwarding entries (FDB) and VLAN
  memberships (MVRP). A first value is the 34 bytes of \<open>struct msrp_pdu_fv_talker_failed\<close> in network order,
  a stream identifier its first 8 bytes. Streams and domains are objects of heaps (\<open>sheap\<close>, \<open>dheap\<close>), an
  attribute is its address in the MRP application of the port. \<open>ub\<close> records that the code has done
  something undefined: the use of a freed stream or attribute, a null pointer, an index past an
  array. Calls to the bridge's forwarding database and IPC messages are logged; \<open>fdb_ok\<close>, \<open>ms_ipc_ok\<close> and
  \<open>stream_malloc\<close> give the answers of the environment by the number of the call.
\<close>

subsection \<open>Constants\<close>

abbreviation MSRP_ATTR_TYPE_TALKER_ADVERTISE :: nat where "MSRP_ATTR_TYPE_TALKER_ADVERTISE \<equiv> 1"
abbreviation MSRP_ATTR_TYPE_TALKER_FAILED :: nat where "MSRP_ATTR_TYPE_TALKER_FAILED \<equiv> 2"
abbreviation MSRP_ATTR_TYPE_LISTENER :: nat where "MSRP_ATTR_TYPE_LISTENER \<equiv> 3"

abbreviation MSRP_TALKER_DECLARATION_TYPE_ADVERTISE :: u32 where "MSRP_TALKER_DECLARATION_TYPE_ADVERTISE \<equiv> 0"
abbreviation MSRP_TALKER_DECLARATION_TYPE_FAILED :: u32 where "MSRP_TALKER_DECLARATION_TYPE_FAILED \<equiv> 1"
abbreviation MSRP_TALKER_DECLARATION_TYPE_NONE :: u32 where "MSRP_TALKER_DECLARATION_TYPE_NONE \<equiv> 0xffff"

abbreviation MSRP_LISTENER_DECLARATION_TYPE_ASKING_FAILED :: u32 where "MSRP_LISTENER_DECLARATION_TYPE_ASKING_FAILED \<equiv> 1"
abbreviation MSRP_LISTENER_DECLARATION_TYPE_READY :: u32 where "MSRP_LISTENER_DECLARATION_TYPE_READY \<equiv> 2"
abbreviation MSRP_LISTENER_DECLARATION_TYPE_READY_FAILED :: u32 where "MSRP_LISTENER_DECLARATION_TYPE_READY_FAILED \<equiv> 3"
abbreviation MSRP_LISTENER_DECLARATION_TYPE_NONE :: u32 where "MSRP_LISTENER_DECLARATION_TYPE_NONE \<equiv> 0xffff"

abbreviation INSUFFICIENT_BANDWIDTH_FOR_TRAFFIC_CLASS :: u8 where "INSUFFICIENT_BANDWIDTH_FOR_TRAFFIC_CLASS \<equiv> 3"
abbreviation STREAM_ID_ALREADY_IN_USE :: u8 where "STREAM_ID_ALREADY_IN_USE \<equiv> 4"
abbreviation EGRESS_PORT_IS_NOT_AVB_CAPABLE :: u8 where "EGRESS_PORT_IS_NOT_AVB_CAPABLE \<equiv> 8"
abbreviation REQUESTED_PRIORITY_IS_NOT_AN_SR_CLASS_PRIORITY :: u8 where
  "REQUESTED_PRIORITY_IS_NOT_AN_SR_CLASS_PRIORITY \<equiv> 13"

abbreviation MSRP_DIRECTION_TALKER :: nat where "MSRP_DIRECTION_TALKER \<equiv> 0"
abbreviation MSRP_DIRECTION_LISTENER :: nat where "MSRP_DIRECTION_LISTENER \<equiv> 1"

abbreviation MRP_FLAG_DECLARED :: nat where "MRP_FLAG_DECLARED \<equiv> 0"
abbreviation MRP_FLAG_REGISTERED :: nat where "MRP_FLAG_REGISTERED \<equiv> 1"

subsection \<open>First values\<close>

definition fv_stream_id :: "u8 list \<Rightarrow> u8 list" where "fv_stream_id fv = take 8 fv"
definition fv_destination_address :: "u8 list \<Rightarrow> mac_addr" where "fv_destination_address fv = take 6 (drop 8 fv)"
definition fv_vlan_identifier :: "u8 list \<Rightarrow> u16" where "fv_vlan_identifier fv = from_be16 (fv ! 14) (fv ! 15)"
definition fv_max_frame_size :: "u8 list \<Rightarrow> u16" where "fv_max_frame_size fv = from_be16 (fv ! 16) (fv ! 17)"
definition fv_max_interval_frames :: "u8 list \<Rightarrow> u16" where "fv_max_interval_frames fv = from_be16 (fv ! 18) (fv ! 19)"
definition fv_priority :: "u8 list \<Rightarrow> u8" where "fv_priority fv = drop_bit 5 (fv ! 20)"
definition fv_rank :: "u8 list \<Rightarrow> bool" where "fv_rank fv = bit (fv ! 20) 4"
definition fv_accumulated_latency :: "u8 list \<Rightarrow> u8 list" where "fv_accumulated_latency fv = take 4 (drop 21 fv)"
definition fv_failure_info :: "u8 list \<Rightarrow> u8 list" where "fv_failure_info fv = take 9 (drop 25 fv)"
definition fv_bridge_id :: "u8 list \<Rightarrow> u8 list" where "fv_bridge_id fv = take 8 (drop 25 fv)"
definition fv_failure_code :: "u8 list \<Rightarrow> u8" where "fv_failure_code fv = fv ! 33"

subsection \<open>State\<close>

record msrp_reservation =
  rv_valid :: bool
  rv_port_id :: nat
  rv_direction :: nat
  rv_declaration_type :: u32
  rv_accumulated_latency :: "u8 list"
  rv_failed_bridge_id :: "u8 list"
  rv_failure_code :: u8

record msrp_stream_port =
  listener_declaration_type :: u32
  talker_declaration_type :: u32
  registered_talker_attributes :: "nat list"
  registered_listener_attributes :: "nat list"
  declared_talker_attribute :: "nat option"
  declared_listener_attribute :: "nat option"
  reservations :: "nat \<Rightarrow> msrp_reservation"

record msrp_stream =
  sr_class :: sr_class_t
  fv :: "u8 list"
  listener_registered_state :: u16
  listener_declared_state :: u16
  listener_user_declared_state :: u16
  talker_registered_state :: u16
  talker_declared_state :: u16
  talker_user_declared_state :: u16
  fdb_state :: u16
  fqtss_state :: u16
  vlan_state :: u32
  stream_port :: "nat \<Rightarrow> msrp_stream_port"

record msrp_domain =
  dom_fv :: "u8 list"
  dom_state :: u32

record msrp_port =
  ms_logical_port :: u32
  msrp_send_leave :: bool
  port_tc_max_latency :: u32
  msrp_port_enabled_status :: bool
  srp_domain_boundary_port :: "nat \<Rightarrow> bool"
  sr_pvid :: u16
  domain :: "nat \<Rightarrow> nat option"
  dheap :: "nat \<rightharpoonup> msrp_domain"
  next_domain :: nat
  domains :: "nat list"
  num_domains :: u32
  mrp_app :: mrp_application
  ms_initialized :: bool

datatype fdb_call = FdbUpdate u32 mac_addr u16 bool | FdbDelete mac_addr u16

datatype talker_stream_declaration = NO_TALKER_DECLARATION | TALKER_ADVERTISE | TALKER_FAILED
datatype listener_stream_declaration = NO_LISTENER_DECLARATION | LISTENER_READY | LISTENER_READY_FAILED | LISTENER_FAILED
datatype listener_stream_status = NO_TALKER | ACTIVE | FAILED
datatype talker_stream_status = NO_LISTENER | FAILED_LISTENER | ACTIVE_AND_FAILED_LISTENERS | ACTIVE_LISTENER

datatype msrp_ipc_out =
    TalkerDeclarationStatus u32 "u8 list" talker_stream_declaration "u8 list"
  | ListenerDeclarationStatus u32 "u8 list" listener_stream_declaration
  | ListenerStatus u32 "u8 list" listener_stream_status "u8 list" "u8 list"
  | TalkerStatus u32 "u8 list" talker_stream_status
  | ListenerResponse bool nat u32 "u8 list" genavb_rc
  | TalkerResponse bool nat u32 "u8 list" genavb_rc
  | MsrpErrorResponse bool nat nat nat genavb_rc

record msrp_ctx =
  sheap :: "nat \<rightharpoonup> msrp_stream"
  next_stream :: nat
  streams :: "nat list"
  num_streams :: u32
  map_forwarding_state :: u16
  ms_operational_state :: u16
  enabled_state :: u16
  ms_port_max :: nat
  ms_is_bridge :: bool
  msrp_enabled_status :: bool
  ms_port :: "nat \<Rightarrow> msrp_port"
  mvrp :: mvrp_ctx
  fqtss :: fqtss_state
  sr_classes :: sr_class_state
  stream_malloc :: "nat \<Rightarrow> bool"
  n_stream_malloc :: nat
  fdb_ok :: "nat \<Rightarrow> bool"
  n_fdb :: nat
  fdb_log :: "fdb_call list"
  ms_ipc_ok :: "nat \<Rightarrow> bool"
  ms_n_ipc :: nat
  ms_ipc_sent :: "msrp_ipc_out list"
  ub :: bool

definition get_stream :: "msrp_ctx \<Rightarrow> nat \<Rightarrow> msrp_stream" where
  "get_stream s v = the (sheap s v)"

definition upd_stream :: "nat \<Rightarrow> (msrp_stream \<Rightarrow> msrp_stream) \<Rightarrow> msrp_ctx \<Rightarrow> msrp_ctx" where
  "upd_stream v f s = s\<lparr>sheap := (sheap s)(v \<mapsto> f (get_stream s v))\<rparr>"

definition upd_sport :: "nat \<Rightarrow> nat \<Rightarrow> (msrp_stream_port \<Rightarrow> msrp_stream_port) \<Rightarrow> msrp_ctx \<Rightarrow> msrp_ctx" where
  "upd_sport v p f = upd_stream v (\<lambda>st. st\<lparr>stream_port := (stream_port st)(p := f (stream_port st p))\<rparr>)"

definition upd_port :: "nat \<Rightarrow> (msrp_port \<Rightarrow> msrp_port) \<Rightarrow> msrp_ctx \<Rightarrow> msrp_ctx" where
  "upd_port p f s = s\<lparr>ms_port := (ms_port s)(p := f (ms_port s p))\<rparr>"

definition ms_app :: "msrp_ctx \<Rightarrow> nat \<Rightarrow> mrp_application" where
  "ms_app s p = mrp_app (ms_port s p)"

definition ms_set_app :: "msrp_ctx \<Rightarrow> nat \<Rightarrow> mrp_application \<Rightarrow> msrp_ctx" where
  "ms_set_app s p app = upd_port p (\<lambda>port. port\<lparr>mrp_app := app\<rparr>) s"

definition undefined_behaviour :: "msrp_ctx \<Rightarrow> msrp_ctx" where
  "undefined_behaviour s = s\<lparr>ub := True\<rparr>"

definition msrp_to_logical_port :: "msrp_ctx \<Rightarrow> nat \<Rightarrow> u32" where
  "msrp_to_logical_port s p = ms_logical_port (ms_port s p)"

subsection \<open>Port masks\<close>

definition is_talker_stream_declared :: "msrp_stream \<Rightarrow> nat \<Rightarrow> bool" where
  "is_talker_stream_declared st p = bit (talker_declared_state st) p"
definition is_talker_stream_declared_any :: "msrp_stream \<Rightarrow> bool" where
  "is_talker_stream_declared_any st \<longleftrightarrow> talker_declared_state st \<noteq> 0"
definition is_talker_stream_registered :: "msrp_stream \<Rightarrow> nat \<Rightarrow> bool" where
  "is_talker_stream_registered st p = bit (talker_registered_state st) p"
definition is_talker_stream_registered_any :: "msrp_stream \<Rightarrow> bool" where
  "is_talker_stream_registered_any st \<longleftrightarrow> talker_registered_state st \<noteq> 0"
definition is_talker_stream_registered_any_forwarding :: "msrp_ctx \<Rightarrow> msrp_stream \<Rightarrow> bool" where
  "is_talker_stream_registered_any_forwarding s st \<longleftrightarrow> and (talker_registered_state st) (map_forwarding_state s) \<noteq> 0"
definition is_talker_stream_user_declared :: "msrp_stream \<Rightarrow> nat \<Rightarrow> bool" where
  "is_talker_stream_user_declared st p = bit (talker_user_declared_state st) p"
definition is_talker_stream_user_declared_any :: "msrp_stream \<Rightarrow> bool" where
  "is_talker_stream_user_declared_any st \<longleftrightarrow> talker_user_declared_state st \<noteq> 0"
definition is_listener_stream_declared :: "msrp_stream \<Rightarrow> nat \<Rightarrow> bool" where
  "is_listener_stream_declared st p = bit (listener_declared_state st) p"
definition is_listener_stream_declared_any :: "msrp_stream \<Rightarrow> bool" where
  "is_listener_stream_declared_any st \<longleftrightarrow> listener_declared_state st \<noteq> 0"
definition is_listener_stream_registered :: "msrp_stream \<Rightarrow> nat \<Rightarrow> bool" where
  "is_listener_stream_registered st p = bit (listener_registered_state st) p"
definition is_listener_stream_registered_other :: "msrp_stream \<Rightarrow> nat \<Rightarrow> bool" where
  "is_listener_stream_registered_other st p \<longleftrightarrow> unset_bit p (listener_registered_state st) \<noteq> 0"
definition is_listener_stream_registered_any :: "msrp_stream \<Rightarrow> bool" where
  "is_listener_stream_registered_any st \<longleftrightarrow> listener_registered_state st \<noteq> 0"
definition is_listener_stream_registered_any_forwarding :: "msrp_ctx \<Rightarrow> msrp_stream \<Rightarrow> bool" where
  "is_listener_stream_registered_any_forwarding s st \<longleftrightarrow> and (listener_registered_state st) (map_forwarding_state s) \<noteq> 0"
definition is_listener_stream_user_declared :: "msrp_stream \<Rightarrow> nat \<Rightarrow> bool" where
  "is_listener_stream_user_declared st p = bit (listener_user_declared_state st) p"
definition is_listener_stream_user_declared_any :: "msrp_stream \<Rightarrow> bool" where
  "is_listener_stream_user_declared_any st \<longleftrightarrow> listener_user_declared_state st \<noteq> 0"
definition is_msrp_port_forwarding :: "msrp_ctx \<Rightarrow> nat \<Rightarrow> bool" where
  "is_msrp_port_forwarding s p = bit (map_forwarding_state s) p"

definition listener_registered_clear :: "nat \<Rightarrow> msrp_stream \<Rightarrow> msrp_stream" where
  "listener_registered_clear p st = st\<lparr>listener_registered_state := unset_bit p (listener_registered_state st)\<rparr>"
definition listener_registered_set :: "nat \<Rightarrow> msrp_stream \<Rightarrow> msrp_stream" where
  "listener_registered_set p st = st\<lparr>listener_registered_state := set_bit p (listener_registered_state st)\<rparr>"
definition listener_declared_clear :: "nat \<Rightarrow> msrp_stream \<Rightarrow> msrp_stream" where
  "listener_declared_clear p st = st\<lparr>listener_declared_state := unset_bit p (listener_declared_state st)\<rparr>"
definition listener_declared_set :: "nat \<Rightarrow> msrp_stream \<Rightarrow> msrp_stream" where
  "listener_declared_set p st = st\<lparr>listener_declared_state := set_bit p (listener_declared_state st)\<rparr>"
definition listener_user_declared_clear :: "nat \<Rightarrow> msrp_stream \<Rightarrow> msrp_stream" where
  "listener_user_declared_clear p st = st\<lparr>listener_user_declared_state := unset_bit p (listener_user_declared_state st)\<rparr>"
definition listener_user_declared_set :: "nat \<Rightarrow> msrp_stream \<Rightarrow> msrp_stream" where
  "listener_user_declared_set p st = st\<lparr>listener_user_declared_state := set_bit p (listener_user_declared_state st)\<rparr>"
definition talker_registered_clear :: "nat \<Rightarrow> msrp_stream \<Rightarrow> msrp_stream" where
  "talker_registered_clear p st = st\<lparr>talker_registered_state := unset_bit p (talker_registered_state st)\<rparr>"
definition talker_registered_set :: "nat \<Rightarrow> msrp_stream \<Rightarrow> msrp_stream" where
  "talker_registered_set p st = st\<lparr>talker_registered_state := set_bit p (talker_registered_state st)\<rparr>"
definition talker_declared_clear :: "nat \<Rightarrow> msrp_stream \<Rightarrow> msrp_stream" where
  "talker_declared_clear p st = st\<lparr>talker_declared_state := unset_bit p (talker_declared_state st)\<rparr>"
definition talker_declared_set :: "nat \<Rightarrow> msrp_stream \<Rightarrow> msrp_stream" where
  "talker_declared_set p st = st\<lparr>talker_declared_state := set_bit p (talker_declared_state st)\<rparr>"
definition talker_user_declared_clear :: "nat \<Rightarrow> msrp_stream \<Rightarrow> msrp_stream" where
  "talker_user_declared_clear p st = st\<lparr>talker_user_declared_state := unset_bit p (talker_user_declared_state st)\<rparr>"
definition talker_user_declared_set :: "nat \<Rightarrow> msrp_stream \<Rightarrow> msrp_stream" where
  "talker_user_declared_set p st = st\<lparr>talker_user_declared_state := set_bit p (talker_user_declared_state st)\<rparr>"

subsection \<open>Forwarding entries and bandwidth\<close>

definition fdb_set_state :: "nat \<Rightarrow> bool \<Rightarrow> msrp_stream \<Rightarrow> msrp_stream" where
  "fdb_set_state p state st = st\<lparr>fdb_state := mask_update (fdb_state st) p state\<rparr>"

definition fdb_state_cmp :: "msrp_stream \<Rightarrow> nat \<Rightarrow> bool \<Rightarrow> bool" where
  "fdb_state_cmp st p state \<longleftrightarrow> bit (fdb_state st) p = state"

definition msrp_fdb_update :: "nat \<Rightarrow> nat \<Rightarrow> mac_addr \<Rightarrow> u16 \<Rightarrow> bool \<Rightarrow> msrp_ctx \<Rightarrow> int \<times> msrp_ctx" where
  "msrp_fdb_update v p mac vid forward s =
     (if fdb_state_cmp (get_stream s v) p forward then (0, s)
      else
        let s1 = s\<lparr>n_fdb := n_fdb s + 1, fdb_log := fdb_log s @ [FdbUpdate (msrp_to_logical_port s p) mac vid forward]\<rparr>
        in if \<not> fdb_ok s (n_fdb s) then (-1, s1) else (0, upd_stream v (fdb_set_state p forward) s1))"

definition fqtss_set_state :: "nat \<Rightarrow> bool \<Rightarrow> msrp_stream \<Rightarrow> msrp_stream" where
  "fqtss_set_state p state st = st\<lparr>fqtss_state := mask_update (fqtss_state st) p state\<rparr>"

definition fqtss_state_cmp :: "msrp_stream \<Rightarrow> nat \<Rightarrow> bool \<Rightarrow> bool" where
  "fqtss_state_cmp st p state \<longleftrightarrow> bit (fqtss_state st) p = state"

text \<open>
  The slope is that of the class of the stream; \<open>SR_CLASS_NONE\<close> indexes past the end of the table of the
  classes.
\<close>

definition msrp_update_fqtss :: "nat \<Rightarrow> nat \<Rightarrow> u8 list \<Rightarrow> bool \<Rightarrow> msrp_ctx \<Rightarrow> int \<times> msrp_ctx" where
  "msrp_update_fqtss p v val add s =
     (let st = get_stream s v
      in if fqtss_state_cmp st p add then (0, s)
         else if sr_class st \<ge> SR_CLASS_MAX then (-1, undefined_behaviour s)
         else
           let slope = srp_tspec_to_idle_slope (sr_class st) (ucast (fv_max_frame_size val)) (ucast (fv_max_interval_frames val));
               (rc, fq) = (if add then common_fqtss_stream_add else common_fqtss_stream_remove) (fqtss s)
                  (unat (msrp_to_logical_port s p)) (fv_stream_id val) (fv_vlan_identifier val) (fv_priority val) slope (ms_is_bridge s);
               s1 = s\<lparr>fqtss := fq\<rparr>
           in if rc < 0 then (rc, s1) else (rc, upd_stream v (fqtss_set_state p add) s1))"

subsection \<open>Declaration types\<close>

definition map_talker_declaration_type :: "msrp_stream \<Rightarrow> nat \<Rightarrow> u32 \<times> u8" where
  "map_talker_declaration_type st n =
     (let (type, count) = fold (\<lambda>i (type, count). if is_talker_stream_registered st i
            then (talker_declaration_type (stream_port st i), count + 1) else (type, count))
            [0..<n] (MSRP_TALKER_DECLARATION_TYPE_NONE, 0 :: nat)
      in if count \<ge> 2 then (MSRP_TALKER_DECLARATION_TYPE_FAILED, STREAM_ID_ALREADY_IN_USE)
         else if sr_class st = SR_CLASS_NONE
         then (MSRP_TALKER_DECLARATION_TYPE_FAILED, REQUESTED_PRIORITY_IS_NOT_AN_SR_CLASS_PRIORITY)
         else if count = 0 then (MSRP_TALKER_DECLARATION_TYPE_ADVERTISE, 0)
         else (type, 0))"

text \<open>The loop of \<open>map_listener_registration_merge\<close> over the ports that are left, \<open>type\<close> the result so far.\<close>

fun listener_merge_loop :: "msrp_stream \<Rightarrow> nat \<Rightarrow> nat list \<Rightarrow> u32 \<Rightarrow> u32" where
  "listener_merge_loop st p [] type = type"
| "listener_merge_loop st p (i # is) type =
     (if p = i then listener_merge_loop st p is type
      else if is_listener_stream_registered st i then
        (let t = listener_declaration_type (stream_port st i)
         in if type = MSRP_LISTENER_DECLARATION_TYPE_NONE then listener_merge_loop st p is t
            else if type = MSRP_LISTENER_DECLARATION_TYPE_READY_FAILED then type
            else if type = MSRP_LISTENER_DECLARATION_TYPE_ASKING_FAILED then
              if t = MSRP_LISTENER_DECLARATION_TYPE_READY \<or> t = MSRP_LISTENER_DECLARATION_TYPE_READY_FAILED
              then MSRP_LISTENER_DECLARATION_TYPE_READY_FAILED else listener_merge_loop st p is type
            else
              if t = MSRP_LISTENER_DECLARATION_TYPE_READY_FAILED \<or> t = MSRP_LISTENER_DECLARATION_TYPE_ASKING_FAILED
              then MSRP_LISTENER_DECLARATION_TYPE_READY_FAILED else listener_merge_loop st p is type)
      else listener_merge_loop st p is type)"

definition map_listener_registration_merge :: "msrp_stream \<Rightarrow> nat \<Rightarrow> nat \<Rightarrow> u32" where
  "map_listener_registration_merge st p n =
     listener_merge_loop st p [0..<n]
       (if is_listener_stream_user_declared_any st then MSRP_LISTENER_DECLARATION_TYPE_READY
        else MSRP_LISTENER_DECLARATION_TYPE_NONE)"

subsection \<open>Reservation table and status messages\<close>

definition empty_reservation :: msrp_reservation where
  "empty_reservation = \<lparr>rv_valid = False, rv_port_id = 0, rv_direction = 0, rv_declaration_type = 0,
     rv_accumulated_latency = replicate 4 0, rv_failed_bridge_id = replicate 8 0, rv_failure_code = 0\<rparr>"

definition msrp_reservation_destroy :: "nat \<Rightarrow> nat \<Rightarrow> nat \<Rightarrow> msrp_ctx \<Rightarrow> msrp_ctx" where
  "msrp_reservation_destroy v p dir =
     upd_sport v p (\<lambda>sp. sp\<lparr>reservations := (reservations sp)(dir := empty_reservation)\<rparr>)"

definition msrp_reservation_create :: "nat \<Rightarrow> nat \<Rightarrow> nat \<Rightarrow> u32 \<Rightarrow> msrp_ctx \<Rightarrow> msrp_ctx" where
  "msrp_reservation_create v p dir type s =
     (let f = fv (get_stream s v)
      in upd_sport v p (\<lambda>sp.
           let r = (reservations sp dir)\<lparr>rv_port_id := p, rv_declaration_type := type, rv_direction := dir\<rparr>;
               r1 = (if dir = MSRP_DIRECTION_TALKER
                     then r\<lparr>rv_accumulated_latency := fv_accumulated_latency f, rv_failed_bridge_id := fv_bridge_id f,
                            rv_failure_code := fv_failure_code f\<rparr> else r)
           in sp\<lparr>reservations := (reservations sp)(dir := r1\<lparr>rv_valid := True\<rparr>)\<rparr>) s)"

definition ms_ipc_send :: "msrp_ipc_out \<Rightarrow> msrp_ctx \<Rightarrow> msrp_ctx" where
  "ms_ipc_send m s =
     s\<lparr>ms_n_ipc := ms_n_ipc s + 1, ms_ipc_sent := (if ms_ipc_ok s (ms_n_ipc s) then ms_ipc_sent s @ [m] else ms_ipc_sent s)\<rparr>"

text \<open>
  The declared attribute is read through its pointer; a declared stream without one would leave the
  fields of the message unset.
\<close>

definition msrp_ipc_talker_declaration_status :: "nat \<Rightarrow> nat \<Rightarrow> msrp_ctx \<Rightarrow> msrp_ctx" where
  "msrp_ipc_talker_declaration_status p v s =
     (let st = get_stream s v; port = msrp_to_logical_port s p; sid = fv_stream_id (fv st)
      in if \<not> is_talker_stream_declared st p
         then ms_ipc_send (TalkerDeclarationStatus port sid NO_TALKER_DECLARATION (replicate 9 0)) s
         else case declared_talker_attribute (stream_port st p) of
                None \<Rightarrow> undefined_behaviour s
              | Some i \<Rightarrow>
                  (case attrs (ms_app s p) i of
                     None \<Rightarrow> undefined_behaviour s
                   | Some a \<Rightarrow>
                       if at_type a = MSRP_ATTR_TYPE_TALKER_ADVERTISE
                       then ms_ipc_send (TalkerDeclarationStatus port sid TALKER_ADVERTISE (replicate 9 0)) s
                       else if at_type a = MSRP_ATTR_TYPE_TALKER_FAILED
                       then ms_ipc_send (TalkerDeclarationStatus port sid TALKER_FAILED (fv_failure_info (at_val a))) s
                       else undefined_behaviour s))"

definition msrp_ipc_listener_declaration_status :: "nat \<Rightarrow> nat \<Rightarrow> msrp_ctx \<Rightarrow> msrp_ctx" where
  "msrp_ipc_listener_declaration_status p v s =
     (let st = get_stream s v; port = msrp_to_logical_port s p; sid = fv_stream_id (fv st)
      in if \<not> is_listener_stream_declared st p
         then ms_ipc_send (ListenerDeclarationStatus port sid NO_LISTENER_DECLARATION) s
         else case declared_listener_attribute (stream_port st p) of
                None \<Rightarrow> undefined_behaviour s
              | Some i \<Rightarrow>
                  (case attrs (ms_app s p) i of
                     None \<Rightarrow> undefined_behaviour s
                   | Some a \<Rightarrow>
                       let t = ucast (at_val a ! 8) :: u32
                       in if t = MSRP_LISTENER_DECLARATION_TYPE_ASKING_FAILED
                          then ms_ipc_send (ListenerDeclarationStatus port sid LISTENER_FAILED) s
                          else if t = MSRP_LISTENER_DECLARATION_TYPE_READY
                          then ms_ipc_send (ListenerDeclarationStatus port sid LISTENER_READY) s
                          else if t = MSRP_LISTENER_DECLARATION_TYPE_READY_FAILED
                          then ms_ipc_send (ListenerDeclarationStatus port sid LISTENER_READY_FAILED) s
                          else undefined_behaviour s))"

subsection \<open>Talker declarations\<close>

definition msrp_talker_attribute_cmp :: "nat \<Rightarrow> u8 list \<Rightarrow> nat \<Rightarrow> u8 list \<Rightarrow> bool" where
  "msrp_talker_attribute_cmp type val new_type new_val \<longleftrightarrow>
     type \<noteq> new_type \<or>
     (let n = (if type = MSRP_ATTR_TYPE_TALKER_ADVERTISE then 25 else 34) in take n val \<noteq> take n new_val)"

definition talker_remove_declaration :: "nat \<Rightarrow> nat \<Rightarrow> msrp_ctx \<Rightarrow> msrp_ctx" where
  "talker_remove_declaration v p s =
     (case declared_talker_attribute (stream_port (get_stream s v) p) of
        None \<Rightarrow> undefined_behaviour s
      | Some i \<Rightarrow>
          (case attrs (ms_app s p) i of
             None \<Rightarrow> undefined_behaviour s
           | Some a \<Rightarrow>
               let val = at_val a;
                   s1 = (if ms_is_bridge s
                         then snd (msrp_fdb_update v p (fv_destination_address val) (fv_vlan_identifier val) False s) else s);
                   s2 = snd (msrp_update_fqtss p v val False s1);
                   s3 = ms_set_app s2 p (mrp_mad_leave_request (ms_app s2 p) (at_type a) val);
                   s4 = upd_stream v (talker_declared_clear p) s3
               in msrp_reservation_destroy v p MSRP_DIRECTION_TALKER (msrp_ipc_talker_declaration_status p v s4)))"

text \<open>
  The resources of a declaration, from the label \<open>start\<close> of \<open>talker_update_declaration\<close>: with a listener attached an
  advertise needs the bandwidth and, in a bridge, the forwarding entry; when one of them fails the second
  pass takes the other branch. \<open>val\<close> is the local copy of the first value. The result is the declaration type and
  failure code to declare.
\<close>

definition talker_release :: "nat \<Rightarrow> nat \<Rightarrow> msrp_ctx \<Rightarrow> msrp_ctx" where
  "talker_release v p s =
     (let st = get_stream s v
      in if \<not> is_talker_stream_declared st p then s
         else case declared_talker_attribute (stream_port st p) of
                None \<Rightarrow> undefined_behaviour s
              | Some i \<Rightarrow>
                  (case attrs (ms_app s p) i of
                     None \<Rightarrow> undefined_behaviour s
                   | Some a \<Rightarrow>
                       let val = at_val a;
                           s1 = (if ms_is_bridge s
                                 then snd (msrp_fdb_update v p (fv_destination_address val) (fv_vlan_identifier val) False s) else s)
                       in snd (msrp_update_fqtss p v val False s1)))"

definition listener_attached :: "msrp_stream \<Rightarrow> nat \<Rightarrow> bool" where
  "listener_attached st p \<longleftrightarrow> is_listener_stream_registered st p \<and>
     listener_declaration_type (stream_port st p) \<noteq> MSRP_LISTENER_DECLARATION_TYPE_ASKING_FAILED"

definition talker_resources :: "nat \<Rightarrow> nat \<Rightarrow> u8 list \<Rightarrow> u32 \<Rightarrow> u8 \<Rightarrow> msrp_ctx \<Rightarrow> u32 \<times> u8 \<times> msrp_ctx" where
  "talker_resources v p val type code s =
     (if type = MSRP_TALKER_DECLARATION_TYPE_ADVERTISE \<and> listener_attached (get_stream s v) p
      then
        (case msrp_update_fqtss p v val True s of (rc, s1) \<Rightarrow>
           if rc < 0
           then (MSRP_TALKER_DECLARATION_TYPE_FAILED, INSUFFICIENT_BANDWIDTH_FOR_TRAFFIC_CLASS, talker_release v p s1)
           else if \<not> ms_is_bridge s1 then (type, code, s1)
           else case msrp_fdb_update v p (fv_destination_address val) (fv_vlan_identifier val) True s1 of (rc, s2) \<Rightarrow>
                  if rc < 0 then (MSRP_TALKER_DECLARATION_TYPE_FAILED, code, talker_release v p s2) else (type, code, s2))
      else (type, code, talker_release v p s))"

definition talker_withdraw :: "nat \<Rightarrow> nat \<Rightarrow> nat \<Rightarrow> u8 list \<Rightarrow> msrp_ctx \<Rightarrow> bool \<times> bool \<times> msrp_ctx" where
  "talker_withdraw v p t val s =
     (let st = get_stream s v
      in if \<not> is_talker_stream_declared st p then (False, False, s)
         else case declared_talker_attribute (stream_port st p) of
                None \<Rightarrow> (False, False, undefined_behaviour s)
              | Some i \<Rightarrow>
                  (case attrs (ms_app s p) i of
                     None \<Rightarrow> (False, False, undefined_behaviour s)
                   | Some a \<Rightarrow>
                       if \<not> msrp_talker_attribute_cmp (at_type a) (at_val a) t val then (False, False, s)
                       else
                         let leave = msrp_send_leave (ms_port s p);
                             s1 = ms_set_app s p (if leave then mrp_mad_leave_request (ms_app s p) (at_type a) (at_val a)
                                                  else mrp_process_attribute_free_immediate (ms_app s p) i);
                             s2 = upd_stream v (talker_declared_clear p) s1
                         in (\<not> leave, True, msrp_reservation_destroy v p MSRP_DIRECTION_TALKER s2)))"

definition talker_declare :: "nat \<Rightarrow> nat \<Rightarrow> nat \<Rightarrow> u8 list \<Rightarrow> u32 \<Rightarrow> bool \<Rightarrow> bool \<Rightarrow> msrp_ctx \<Rightarrow> bool \<times> msrp_ctx" where
  "talker_declare v p t val type immediate new s =
     (if is_talker_stream_declared (get_stream s v) p then (False, s)
      else case (if immediate then mrp_mad_join_immediate (ms_app s p) t val else mrp_mad_join_request (ms_app s p) t val new) of
             (r, app) \<Rightarrow>
               let s1 = upd_sport v p (\<lambda>sp. sp\<lparr>declared_talker_attribute := r\<rparr>) (ms_set_app s p app)
               in if r = None then (False, s1)
                  else (True, msrp_reservation_create v p MSRP_DIRECTION_TALKER type (upd_stream v (talker_declared_set p) s1)))"

definition talker_update_declaration :: "nat \<Rightarrow> nat \<Rightarrow> u32 \<Rightarrow> u8 \<Rightarrow> bool \<Rightarrow> msrp_ctx \<Rightarrow> msrp_ctx" where
  "talker_update_declaration v p new_type new_code new s =
     (let st = get_stream s v; val = fv st;
          (type0, code0) = (if new_type = MSRP_TALKER_DECLARATION_TYPE_ADVERTISE \<and>
                               srp_domain_boundary_port (ms_port s p) (sr_class st)
                            then (MSRP_TALKER_DECLARATION_TYPE_FAILED, EGRESS_PORT_IS_NOT_AVB_CAPABLE)
                            else (new_type, new_code));
          (type, code, s1) = talker_resources v p val type0 code0 s;
          t = (if type = MSRP_TALKER_DECLARATION_TYPE_ADVERTISE then MSRP_ATTR_TYPE_TALKER_ADVERTISE
               else MSRP_ATTR_TYPE_TALKER_FAILED);
          val1 = (if type = MSRP_TALKER_DECLARATION_TYPE_FAILED \<and> code \<noteq> 0 then val[33 := code] else val);
          (immediate, changed, s2) = talker_withdraw v p t val1 s1;
          (declared, s3) = talker_declare v p t val1 type immediate new s2
      in if changed \<or> declared then msrp_ipc_talker_declaration_status p v s3 else s3)"

subsection \<open>Listener declarations\<close>

definition msrp_register_vlan :: "nat \<Rightarrow> nat \<Rightarrow> msrp_ctx \<Rightarrow> msrp_ctx" where
  "msrp_register_vlan p v s =
     (let st = get_stream s v
      in if bit (vlan_state st) MRP_FLAG_DECLARED then s
         else case mvrp_register_vlan_member (mvrp s) (msrp_to_logical_port s p) (fv_vlan_identifier (fv st)) of (rc, m) \<Rightarrow>
                let s1 = s\<lparr>mvrp := m\<rparr>
                in if rc = GENAVB_SUCCESS
                   then upd_stream v (\<lambda>st. st\<lparr>vlan_state := set_bit MRP_FLAG_DECLARED (vlan_state st)\<rparr>) s1 else s1)"

definition msrp_deregister_vlan :: "nat \<Rightarrow> nat \<Rightarrow> msrp_ctx \<Rightarrow> msrp_ctx" where
  "msrp_deregister_vlan p v s =
     (let st = get_stream s v
      in if \<not> bit (vlan_state st) MRP_FLAG_DECLARED then s
         else case mvrp_deregister_vlan_member (mvrp s) (msrp_to_logical_port s p) (fv_vlan_identifier (fv st)) of (rc, m) \<Rightarrow>
                let s1 = s\<lparr>mvrp := m\<rparr>
                in if rc = GENAVB_SUCCESS
                   then upd_stream v (\<lambda>st. st\<lparr>vlan_state := unset_bit MRP_FLAG_DECLARED (vlan_state st)\<rparr>) s1 else s1)"

definition listener_remove_declaration :: "nat \<Rightarrow> nat \<Rightarrow> msrp_ctx \<Rightarrow> msrp_ctx" where
  "listener_remove_declaration v p s =
     (let s1 = (if \<not> ms_is_bridge s then msrp_deregister_vlan p v s else s)
      in case declared_listener_attribute (stream_port (get_stream s v) p) of
           None \<Rightarrow> undefined_behaviour s1
         | Some i \<Rightarrow>
             (case attrs (ms_app s1 p) i of
                None \<Rightarrow> undefined_behaviour s1
              | Some a \<Rightarrow>
                  let s2 = ms_set_app s1 p (mrp_mad_leave_request (ms_app s1 p) (at_type a) (at_val a));
                      s3 = upd_stream v (listener_declared_clear p) s2
                  in msrp_reservation_destroy v p MSRP_DIRECTION_LISTENER (msrp_ipc_listener_declaration_status p v s3)))"

definition listener_withdraw :: "nat \<Rightarrow> nat \<Rightarrow> u32 \<Rightarrow> msrp_ctx \<Rightarrow> bool \<times> bool \<times> msrp_ctx" where
  "listener_withdraw v p type s =
     (let st = get_stream s v
      in if \<not> is_listener_stream_declared st p then (False, False, s)
         else case declared_listener_attribute (stream_port st p) of
                None \<Rightarrow> (False, False, undefined_behaviour s)
              | Some i \<Rightarrow>
                  (case attrs (ms_app s p) i of
                     None \<Rightarrow> (False, False, undefined_behaviour s)
                   | Some a \<Rightarrow>
                       if type = ucast (at_val a ! 8) then (False, False, s)
                       else
                         let leave = msrp_send_leave (ms_port s p);
                             s1 = ms_set_app s p (if leave then mrp_mad_leave_request (ms_app s p) (at_type a) (at_val a)
                                                  else mrp_process_attribute_free_immediate (ms_app s p) i);
                             s2 = upd_stream v (listener_declared_clear p) s1
                         in (\<not> leave, True, msrp_reservation_destroy v p MSRP_DIRECTION_LISTENER s2)))"

definition listener_declare :: "nat \<Rightarrow> nat \<Rightarrow> u32 \<Rightarrow> bool \<Rightarrow> bool \<Rightarrow> msrp_ctx \<Rightarrow> bool \<times> msrp_ctx" where
  "listener_declare v p type immediate new s =
     (let val = fv_stream_id (fv (get_stream s v)) @ [ucast type]
      in if is_listener_stream_declared (get_stream s v) p then (False, s)
         else case (if immediate then mrp_mad_join_immediate (ms_app s p) MSRP_ATTR_TYPE_LISTENER val
                    else mrp_mad_join_request (ms_app s p) MSRP_ATTR_TYPE_LISTENER val new) of
                (r, app) \<Rightarrow>
                  let s1 = upd_sport v p (\<lambda>sp. sp\<lparr>declared_listener_attribute := r\<rparr>) (ms_set_app s p app)
                  in if r = None then (False, s1)
                     else (True, msrp_reservation_create v p MSRP_DIRECTION_LISTENER type (upd_stream v (listener_declared_set p) s1)))"

definition listener_update_declaration :: "nat \<Rightarrow> nat \<Rightarrow> u32 \<Rightarrow> bool \<Rightarrow> msrp_ctx \<Rightarrow> msrp_ctx" where
  "listener_update_declaration v p new_type new s =
     (let st = get_stream s v;
          type = (if \<not> is_talker_stream_registered st p \<or>
                     talker_declaration_type (stream_port st p) \<noteq> MSRP_TALKER_DECLARATION_TYPE_ADVERTISE
                  then MSRP_LISTENER_DECLARATION_TYPE_ASKING_FAILED else new_type);
          s1 = (if ms_is_bridge s then s
                else if type = MSRP_LISTENER_DECLARATION_TYPE_ASKING_FAILED then msrp_deregister_vlan p v s
                else msrp_register_vlan p v s);
          (immediate, changed, s2) = listener_withdraw v p type s1;
          (declared, s3) = listener_declare v p type immediate new s2
      in if changed \<or> declared then msrp_ipc_listener_declaration_status p v s3 else s3)"

subsection \<open>MAP update\<close>

definition msrp_stream_free :: "nat \<Rightarrow> msrp_ctx \<Rightarrow> msrp_ctx" where
  "msrp_stream_free v s =
     (let f = fv (get_stream s v)
      in s\<lparr>fdb_log := (if ms_is_bridge s then fdb_log s @ [FdbDelete (fv_destination_address f) (fv_vlan_identifier f)] else fdb_log s),
           streams := remove1 v (streams s), num_streams := num_streams s - 1, sheap := (sheap s)(v := None)\<rparr>)"

definition talker_remove_if_declared :: "nat \<Rightarrow> nat \<Rightarrow> msrp_ctx \<Rightarrow> msrp_ctx" where
  "talker_remove_if_declared v i s =
     (if is_talker_stream_declared (get_stream s v) i then talker_remove_declaration v i s else s)"

definition listener_remove_if_declared :: "nat \<Rightarrow> nat \<Rightarrow> msrp_ctx \<Rightarrow> msrp_ctx" where
  "listener_remove_if_declared v i s =
     (if is_listener_stream_declared (get_stream s v) i then listener_remove_declaration v i s else s)"

definition map_update_talker_port :: "nat \<Rightarrow> u32 \<Rightarrow> u8 \<Rightarrow> bool \<Rightarrow> nat \<Rightarrow> msrp_ctx \<Rightarrow> msrp_ctx" where
  "map_update_talker_port v type code new i s =
     (if \<not> is_talker_stream_registered (get_stream s v) i \<and> is_msrp_port_forwarding s i
      then talker_update_declaration v i type code new s
      else talker_remove_if_declared v i s)"

definition msrp_map_update_talker_stream :: "nat \<Rightarrow> bool \<Rightarrow> msrp_ctx \<Rightarrow> msrp_ctx" where
  "msrp_map_update_talker_stream v new s =
     (let st = get_stream s v; n = ms_port_max s
      in if \<not> is_talker_stream_registered_any_forwarding s st \<and> \<not> is_talker_stream_user_declared_any st
         then fold (talker_remove_if_declared v) [0..<n] s
         else case map_talker_declaration_type st n of (type, code) \<Rightarrow>
                fold (map_update_talker_port v type code new) [0..<n] s)"

definition map_update_listener_port :: "nat \<Rightarrow> bool \<Rightarrow> nat \<Rightarrow> msrp_ctx \<Rightarrow> msrp_ctx" where
  "map_update_listener_port v new i s =
     (let st = get_stream s v
      in if ((is_talker_stream_registered st i \<and> is_listener_stream_registered_other st i) \<or> is_listener_stream_user_declared st i) \<and>
            is_msrp_port_forwarding s i
         then listener_update_declaration v i (map_listener_registration_merge st i (ms_port_max s)) new s
         else listener_remove_if_declared v i s)"

definition msrp_map_update_listener_stream :: "nat \<Rightarrow> bool \<Rightarrow> msrp_ctx \<Rightarrow> msrp_ctx" where
  "msrp_map_update_listener_stream v new s =
     (let st = get_stream s v; n = ms_port_max s
      in if \<not> is_listener_stream_registered_any_forwarding s st \<and> \<not> is_listener_stream_user_declared_any st
         then fold (listener_remove_if_declared v) [0..<n] s
         else fold (map_update_listener_port v new) [0..<n] s)"

definition stream_unused :: "msrp_stream \<Rightarrow> bool" where
  "stream_unused st \<longleftrightarrow> \<not> is_listener_stream_registered_any st \<and> \<not> is_listener_stream_declared_any st \<and>
     \<not> is_talker_stream_registered_any st \<and> \<not> is_talker_stream_declared_any st \<and>
     \<not> is_listener_stream_user_declared_any st \<and> \<not> is_talker_stream_user_declared_any st"

definition msrp_map_update_stream :: "nat \<Rightarrow> bool \<Rightarrow> msrp_ctx \<Rightarrow> msrp_ctx" where
  "msrp_map_update_stream v new s =
     (let s1 = msrp_map_update_listener_stream v new (msrp_map_update_talker_stream v new s)
      in if stream_unused (get_stream s1 v) then msrp_stream_free v s1 else s1)"

definition msrp_map_update :: "msrp_ctx \<Rightarrow> msrp_ctx" where
  "msrp_map_update s = fold (\<lambda>v. msrp_map_update_stream v False) (streams s) s"

definition msrp_map_stream_exit :: "nat \<Rightarrow> msrp_ctx \<Rightarrow> msrp_ctx" where
  "msrp_map_stream_exit v s =
     msrp_stream_free v (fold (\<lambda>i s. listener_remove_if_declared v i (talker_remove_if_declared v i s)) [0..<ms_port_max s] s)"

definition msrp_map_init :: "msrp_ctx \<Rightarrow> msrp_ctx" where
  "msrp_map_init s = s\<lparr>streams := [], num_streams := 0, map_forwarding_state := 0\<rparr>"

definition msrp_map_exit :: "msrp_ctx \<Rightarrow> msrp_ctx" where
  "msrp_map_exit s = fold msrp_map_stream_exit (streams s) s"

end
