(* ===== verification/MSRP.thy ===== *)
theory MSRP
  imports MSRP_Map
begin

section \<open>MSRP (\<open>src/srp/msrp.c\<close>)\<close>

text \<open>
  The rest of the stream reservation protocol: stream instances, the attributes registered by each
  port and their merge, domains and boundary ports, the indications that MRP calls, the requests of the
  applications, reception, enabling and initialization. \<open>msrp_ops\<close> and \<open>msrp_rx_ops\<close> make MSRP a client of the MRP
  model, as \<open>mvrp_ops\<close> does for MVRP.
\<close>

abbreviation CFG_MSRP_MAX_STREAMS :: u32 where "CFG_MSRP_MAX_STREAMS \<equiv> 150"
abbreviation CFG_MSRP_MAX_DOMAINS :: u32 where "CFG_MSRP_MAX_DOMAINS \<equiv> 8"
abbreviation CFG_MSRP_MAX_CLASSES :: nat where "CFG_MSRP_MAX_CLASSES \<equiv> 8"
abbreviation CFG_PORT_TC_MAX_LATENCY :: u32 where "CFG_PORT_TC_MAX_LATENCY \<equiv> 500"
abbreviation VLAN_VID_DEFAULT :: u16 where "VLAN_VID_DEFAULT \<equiv> 0xfffe"
abbreviation CFG_MVRP_VID :: u16 where "CFG_MVRP_VID \<equiv> 2"

subsection \<open>Ports\<close>

definition logical_to_msrp_port :: "msrp_ctx \<Rightarrow> u32 \<Rightarrow> nat option" where
  "logical_to_msrp_port s l =
     (case find (\<lambda>i. ms_logical_port (ms_port s i) = l) [0..<ms_port_max s] of
        None \<Rightarrow> None
      | Some i \<Rightarrow> if ms_initialized (ms_port s i) then Some i else None)"

definition msrp_is_operational :: "msrp_ctx \<Rightarrow> nat \<Rightarrow> bool" where
  "msrp_is_operational s p = bit (ms_operational_state s) p"

definition msrp_update_operational_state :: "nat \<Rightarrow> bool \<Rightarrow> u64 \<Rightarrow> msrp_ctx \<Rightarrow> msrp_ctx" where
  "msrp_update_operational_state p state rate s =
     s\<lparr>ms_operational_state := mask_update (ms_operational_state s) p state,
       fqtss := snd (common_fqtss_set_port_transmit_rate (fqtss s) (unat (msrp_to_logical_port s p)) (if state then rate else 0))\<rparr>"

definition msrp_update_forwarding_state :: "nat \<Rightarrow> bool \<Rightarrow> msrp_ctx \<Rightarrow> msrp_ctx" where
  "msrp_update_forwarding_state p state s =
     msrp_map_update (s\<lparr>map_forwarding_state := mask_update (map_forwarding_state s) p state\<rparr>)"

definition msrp_is_enabled :: "msrp_ctx \<Rightarrow> nat \<Rightarrow> bool" where
  "msrp_is_enabled s p = bit (enabled_state s) p"

definition msrp_update_enabled_state :: "nat \<Rightarrow> bool \<Rightarrow> msrp_ctx \<Rightarrow> msrp_ctx" where
  "msrp_update_enabled_state p state s = msrp_map_update (s\<lparr>enabled_state := mask_update (enabled_state s) p state\<rparr>)"

definition msrp_port_status :: "u32 \<Rightarrow> bool \<Rightarrow> u32 \<Rightarrow> msrp_ctx \<Rightarrow> msrp_ctx" where
  "msrp_port_status l operational rate s =
     (case logical_to_msrp_port s l of
        None \<Rightarrow> s
      | Some p \<Rightarrow> msrp_update_forwarding_state p operational
                  (msrp_update_operational_state p operational (if operational then ucast rate else 0) s))"

subsection \<open>Attribute formats\<close>

definition msrp_attribute_value_length :: "nat \<Rightarrow> nat" where
  "msrp_attribute_value_length t =
     (if t = MSRP_ATTR_TYPE_TALKER_ADVERTISE then 25 else if t = MSRP_ATTR_TYPE_TALKER_FAILED then 34
      else if t = MSRP_ATTR_TYPE_LISTENER then 9 else if t = MSRP_ATTR_TYPE_DOMAIN then 4 else 0)"

definition msrp_attribute_length :: "nat \<Rightarrow> nat" where
  "msrp_attribute_length t =
     (if t = MSRP_ATTR_TYPE_TALKER_ADVERTISE then 25 else if t = MSRP_ATTR_TYPE_TALKER_FAILED then 34
      else if t = MSRP_ATTR_TYPE_LISTENER then 8 else if t = MSRP_ATTR_TYPE_DOMAIN then 4 else 0)"

definition msrp_vector_add_event ::
  "mrp_attribute \<Rightarrow> mrp_vector \<Rightarrow> net_tx_desc \<Rightarrow> nat \<Rightarrow> (mrp_vector \<times> net_tx_desc) option" where
  "msrp_vector_add_event a v d event =
     (if at_type a = MSRP_ATTR_TYPE_DOMAIN \<or> at_type a = MSRP_ATTR_TYPE_TALKER_ADVERTISE \<or> at_type a = MSRP_ATTR_TYPE_TALKER_FAILED
      then mrp_vector_add_event v d event
      else if at_type a = MSRP_ATTR_TYPE_LISTENER then mrp_vector_add_event_four v d event (ucast (at_val a ! 8))
      else Some (v, d))"

subsection \<open>Streams\<close>

definition msrp_find_stream :: "msrp_ctx \<Rightarrow> u8 list \<Rightarrow> nat option" where
  "msrp_find_stream s sid = find (\<lambda>v. fv_stream_id (fv (get_stream s v)) = sid) (streams s)"

definition empty_stream_port :: msrp_stream_port where
  "empty_stream_port = \<lparr>listener_declaration_type = MSRP_LISTENER_DECLARATION_TYPE_NONE,
     talker_declaration_type = MSRP_TALKER_DECLARATION_TYPE_NONE, registered_talker_attributes = [],
     registered_listener_attributes = [], declared_talker_attribute = None, declared_listener_attribute = None,
     reservations = (\<lambda>_. empty_reservation)\<rparr>"

definition empty_stream :: "u8 list \<Rightarrow> msrp_stream" where
  "empty_stream sid = \<lparr>sr_class = SR_CLASS_NONE, fv = sid @ replicate 26 0, listener_registered_state = 0,
     listener_declared_state = 0, listener_user_declared_state = 0, talker_registered_state = 0, talker_declared_state = 0,
     talker_user_declared_state = 0, fdb_state = 0, fqtss_state = 0, vlan_state = 0, stream_port = (\<lambda>_. empty_stream_port)\<rparr>"

definition msrp_create_stream :: "u8 list \<Rightarrow> msrp_ctx \<Rightarrow> nat option \<times> msrp_ctx" where
  "msrp_create_stream sid s =
     (if sid = replicate 8 0 then (None, s)
      else case msrp_find_stream s sid of
             Some v \<Rightarrow> (Some v, s)
           | None \<Rightarrow>
               if \<not> num_streams s < CFG_MSRP_MAX_STREAMS then (None, s)
               else
                 let s0 = s\<lparr>n_stream_malloc := n_stream_malloc s + 1\<rparr>; v = next_stream s
                 in if \<not> stream_malloc s (n_stream_malloc s) then (None, s0)
                    else (Some v, s0\<lparr>sheap := (sheap s)(v \<mapsto> empty_stream sid), next_stream := v + 1,
                                     streams := v # streams s, num_streams := num_streams s + 1\<rparr>))"

subsection \<open>Domains\<close>

definition get_domain :: "msrp_port \<Rightarrow> nat \<Rightarrow> msrp_domain" where
  "get_domain port d = the (dheap port d)"

definition upd_domain :: "nat \<Rightarrow> (msrp_domain \<Rightarrow> msrp_domain) \<Rightarrow> msrp_port \<Rightarrow> msrp_port" where
  "upd_domain d f port = port\<lparr>dheap := (dheap port)(d \<mapsto> f (get_domain port d))\<rparr>"

definition msrp_find_domain :: "msrp_port \<Rightarrow> u8 list \<Rightarrow> nat option" where
  "msrp_find_domain port val = find (\<lambda>d. take 4 (dom_fv (get_domain port d)) = take 4 val) (domains port)"

definition dom_class_id :: "msrp_domain \<Rightarrow> u8" where "dom_class_id d = dom_fv d ! 0"
definition dom_priority :: "msrp_domain \<Rightarrow> u8" where "dom_priority d = dom_fv d ! 1"
definition dom_vid :: "msrp_domain \<Rightarrow> u16" where "dom_vid d = from_be16 (dom_fv d ! 2) (dom_fv d ! 3)"

definition msrp_get_sr_class :: "msrp_port \<Rightarrow> u8 \<Rightarrow> sr_class_t" where
  "msrp_get_sr_class port priority =
     (case find (\<lambda>i. case domain port i of None \<Rightarrow> False | Some d \<Rightarrow> dom_priority (get_domain port d) = priority)
             [0..<CFG_MSRP_MAX_CLASSES] of
        None \<Rightarrow> SR_CLASS_NONE
      | Some i \<Rightarrow> i)"

text \<open>\<open>ok\<close> tells whether \<open>os_malloc\<close> succeeds.\<close>

definition msrp_create_domain :: "bool \<Rightarrow> u8 list \<Rightarrow> msrp_port \<Rightarrow> nat option \<times> msrp_port" where
  "msrp_create_domain ok val port =
     (case msrp_find_domain port val of
        Some d \<Rightarrow> (Some d, port)
      | None \<Rightarrow>
          if \<not> num_domains port < CFG_MSRP_MAX_DOMAINS \<or> \<not> ok then (None, port)
          else let d = next_domain port
               in (Some d, port\<lparr>dheap := (dheap port)(d \<mapsto> \<lparr>dom_fv = take 4 val, dom_state = 0\<rparr>), next_domain := d + 1,
                                domains := d # domains port, num_domains := num_domains port + 1\<rparr>))"

definition create_domain :: "nat \<Rightarrow> u8 list \<Rightarrow> msrp_ctx \<Rightarrow> nat option \<times> msrp_ctx" where
  "create_domain p val s =
     (let attempt = (msrp_find_domain (ms_port s p) val = None \<and> num_domains (ms_port s p) < CFG_MSRP_MAX_DOMAINS);
          (r, port) = msrp_create_domain (stream_malloc s (n_stream_malloc s)) val (ms_port s p)
      in (r, (upd_port p (\<lambda>_. port) s)\<lparr>n_stream_malloc := (if attempt then n_stream_malloc s + 1 else n_stream_malloc s)\<rparr>))"

definition msrp_free_domain :: "nat \<Rightarrow> msrp_port \<Rightarrow> msrp_port" where
  "msrp_free_domain d port =
     port\<lparr>domains := remove1 d (domains port), num_domains := num_domains port - 1, dheap := (dheap port)(d := None)\<rparr>"

definition msrp_declare_domain :: "nat \<Rightarrow> u8 \<Rightarrow> u8 \<Rightarrow> u16 \<Rightarrow> msrp_ctx \<Rightarrow> nat option \<times> msrp_ctx" where
  "msrp_declare_domain p class_id prio vid s =
     (let val = [class_id, prio] @ be16 vid
      in case create_domain p val s of
           (None, s1) \<Rightarrow> (None, s1)
         | (Some d, s1) \<Rightarrow> (Some d, ms_set_app s1 p (snd (mrp_mad_join_request (ms_app s1 p) MSRP_ATTR_TYPE_DOMAIN val True))))"

text \<open>
  The inner loop of \<open>msrp_domain_update_boundary_port\<close>: whether a domain of the class is registered, whether one with another
  priority is, and the VLAN of the last one with another VLAN.
\<close>

definition boundary_scan :: "sr_class_state \<Rightarrow> msrp_port \<Rightarrow> nat \<Rightarrow> bool \<times> bool \<times> u16 option" where
  "boundary_scan sc port c =
     fold (\<lambda>d (existing, mismatch, vlan).
         let dm = get_domain port d
         in if bit (dom_state dm) MRP_FLAG_REGISTERED \<and> (ucast (dom_class_id dm) :: u32) = sr_class_id sc c
            then (case domain port c of
                    None \<Rightarrow> (True, mismatch, vlan)
                  | Some own \<Rightarrow>
                      if (ucast (dom_priority dm) :: u32) \<noteq> sr_class_pcp sc c then (True, True, vlan)
                      else if dom_vid dm \<noteq> dom_vid (get_domain port own) then (True, mismatch, Some (dom_vid dm))
                      else (True, mismatch, vlan))
            else (existing, mismatch, vlan))
       (domains port) (False, False, None)"

definition boundary_class :: "nat \<Rightarrow> nat \<Rightarrow> bool \<times> msrp_ctx \<Rightarrow> bool \<times> msrp_ctx" where
  "boundary_class p c us =
     (case us of (update, s) \<Rightarrow>
        if \<not> sr_class_enabled (sr_classes s) c then (update, s)
        else
          let port = ms_port s p; (existing, mismatch, vlan) = boundary_scan (sr_classes s) port c;
              own = domain port c;
              boundary = (if own \<noteq> None then \<not> existing \<or> mismatch else existing);
              s1 = (case (own, vlan) of
                      (Some d, Some vid) \<Rightarrow>
                        let s0 = ms_set_app s p (mrp_mad_leave_request (ms_app s p) MSRP_ATTR_TYPE_DOMAIN (dom_fv (get_domain port d)));
                            (r, s2) = msrp_declare_domain p (ucast (sr_class_id (sr_classes s) c)) (ucast (sr_class_pcp (sr_classes s) c)) vid s0
                        in upd_port p (\<lambda>port. port\<lparr>domain := (domain port)(c := r)\<rparr>) s2
                    | _ \<Rightarrow> s)
          in if srp_domain_boundary_port (ms_port s1 p) c \<noteq> boundary
             then (True, upd_port p (\<lambda>port. port\<lparr>srp_domain_boundary_port := (srp_domain_boundary_port port)(c := boundary)\<rparr>) s1)
             else (update, s1))"

definition msrp_domain_update_boundary_port :: "nat \<Rightarrow> msrp_ctx \<Rightarrow> msrp_ctx" where
  "msrp_domain_update_boundary_port p s =
     (case fold (boundary_class p) [0..<CFG_MSRP_MAX_CLASSES] (False, s) of (update, s1) \<Rightarrow>
        if update then msrp_map_update s1 else s1)"

subsection \<open>Status messages\<close>

definition msrp_ipc_listener_status :: "nat \<Rightarrow> nat \<Rightarrow> msrp_ctx \<Rightarrow> msrp_ctx" where
  "msrp_ipc_listener_status p v s =
     (let st = get_stream s v
      in if \<not> ms_is_bridge s \<and> \<not> is_listener_stream_user_declared st p then s
         else
           let status = (if is_talker_stream_registered st p
                         then if talker_declaration_type (stream_port st p) = MSRP_TALKER_DECLARATION_TYPE_ADVERTISE then ACTIVE else FAILED
                         else NO_TALKER)
           in ms_ipc_send (ListenerStatus (msrp_to_logical_port s p) (fv_stream_id (fv st)) status
                (if status = NO_TALKER then [] else take 25 (fv st))
                (if status = FAILED then fv_failure_info (fv st) else if status = ACTIVE then replicate 9 0 else [])) s)"

definition msrp_ipc_talker_status :: "nat \<Rightarrow> nat \<Rightarrow> msrp_ctx \<Rightarrow> msrp_ctx" where
  "msrp_ipc_talker_status p v s =
     (let st = get_stream s v; t = listener_declaration_type (stream_port st p)
      in if \<not> ms_is_bridge s \<and> \<not> is_talker_stream_user_declared st p then s
         else ms_ipc_send (TalkerStatus (msrp_to_logical_port s p) (fv_stream_id (fv st))
                (if is_listener_stream_registered st p
                 then if t = MSRP_LISTENER_DECLARATION_TYPE_READY then ACTIVE_LISTENER
                      else if t = MSRP_LISTENER_DECLARATION_TYPE_READY_FAILED then ACTIVE_AND_FAILED_LISTENERS
                      else FAILED_LISTENER
                 else NO_LISTENER)) s)"

definition msrp_register_attach_indication :: "nat \<Rightarrow> nat \<Rightarrow> msrp_ctx \<Rightarrow> msrp_ctx" where
  "msrp_register_attach_indication p v s = msrp_ipc_talker_status p v s"

definition msrp_deregister_attach_indication :: "nat \<Rightarrow> nat \<Rightarrow> msrp_ctx \<Rightarrow> msrp_ctx" where
  "msrp_deregister_attach_indication p v s = msrp_ipc_talker_status p v s"

definition msrp_register_stream_indication :: "nat \<Rightarrow> nat \<Rightarrow> msrp_ctx \<Rightarrow> msrp_ctx" where
  "msrp_register_stream_indication p v s = msrp_ipc_listener_status p v s"

definition msrp_deregister_stream_indication :: "nat \<Rightarrow> nat \<Rightarrow> msrp_ctx \<Rightarrow> msrp_ctx" where
  "msrp_deregister_stream_indication p v s = msrp_ipc_listener_status p v s"

subsection \<open>Registered attributes\<close>

definition msrp_stream_add_talker_attribute :: "nat \<Rightarrow> nat \<Rightarrow> nat \<Rightarrow> msrp_ctx \<Rightarrow> msrp_ctx" where
  "msrp_stream_add_talker_attribute v p i =
     upd_sport v p (\<lambda>sp. if i \<in> set (registered_talker_attributes sp) then sp
       else sp\<lparr>registered_talker_attributes := i # registered_talker_attributes sp\<rparr>)"

definition msrp_stream_remove_talker_attribute :: "nat \<Rightarrow> nat \<Rightarrow> nat \<Rightarrow> msrp_ctx \<Rightarrow> msrp_ctx" where
  "msrp_stream_remove_talker_attribute v p i =
     upd_sport v p (\<lambda>sp. sp\<lparr>registered_talker_attributes := remove1 i (registered_talker_attributes sp)\<rparr>)"

definition msrp_stream_remove_all_talker_attributes :: "nat \<Rightarrow> nat \<Rightarrow> msrp_ctx \<Rightarrow> msrp_ctx" where
  "msrp_stream_remove_all_talker_attributes v p = upd_sport v p (\<lambda>sp. sp\<lparr>registered_talker_attributes := []\<rparr>)"

definition msrp_stream_add_listener_attribute :: "nat \<Rightarrow> nat \<Rightarrow> nat \<Rightarrow> msrp_ctx \<Rightarrow> msrp_ctx" where
  "msrp_stream_add_listener_attribute v p i =
     upd_sport v p (\<lambda>sp. if i \<in> set (registered_listener_attributes sp) then sp
       else sp\<lparr>registered_listener_attributes := i # registered_listener_attributes sp\<rparr>)"

definition msrp_stream_remove_listener_attribute :: "nat \<Rightarrow> nat \<Rightarrow> nat \<Rightarrow> msrp_ctx \<Rightarrow> msrp_ctx" where
  "msrp_stream_remove_listener_attribute v p i =
     upd_sport v p (\<lambda>sp. sp\<lparr>registered_listener_attributes := remove1 i (registered_listener_attributes sp)\<rparr>)"

definition msrp_stream_remove_all_listener_attributes :: "nat \<Rightarrow> nat \<Rightarrow> msrp_ctx \<Rightarrow> msrp_ctx" where
  "msrp_stream_remove_all_listener_attributes v p = upd_sport v p (\<lambda>sp. sp\<lparr>registered_listener_attributes := []\<rparr>)"

text \<open>
  \<open>mrp_process_attribute_leave_immediate\<close>: the registrar's immediate leave sets no action, so that no indication is reached
  (\<open>leave_immediate_silent\<close> in \<open>MSRP_Run\<close>) and the call only acts on the MRP application.
\<close>

definition app_leave_immediate :: "nat \<Rightarrow> mrp_application \<Rightarrow> mrp_application" where
  "app_leave_immediate i app =
     mrp_free_attribute_check (mrp_applicant_sm (mrp_registrar_step app i MRP_EVENT_RLV_IMMEDIATE) i MRP_EVENT_RLV) i"

definition leave_immediate_one :: "nat \<Rightarrow> nat \<Rightarrow> bool \<Rightarrow> (mrp_attribute \<Rightarrow> bool) \<Rightarrow> nat \<Rightarrow> msrp_ctx \<Rightarrow> msrp_ctx" where
  "leave_immediate_one v p listener other i s =
     (case attrs (ms_app s p) i of
        None \<Rightarrow> undefined_behaviour s
      | Some a \<Rightarrow>
          if other a
          then ms_set_app ((if listener then msrp_stream_remove_listener_attribute v p i else msrp_stream_remove_talker_attribute v p i) s)
                 p (app_leave_immediate i (ms_app s p))
          else s)"

definition msrp_stream_leave_immediate :: "nat \<Rightarrow> nat \<Rightarrow> nat \<Rightarrow> u32 \<Rightarrow> msrp_ctx \<Rightarrow> msrp_ctx" where
  "msrp_stream_leave_immediate v p t type s =
     (let sp = stream_port (get_stream s v) p
      in if t = MSRP_ATTR_TYPE_LISTENER
         then fold (leave_immediate_one v p True (\<lambda>a. ucast (at_val a ! 8) \<noteq> type)) (registered_listener_attributes sp) s
         else fold (leave_immediate_one v p False (\<lambda>a. at_type a \<noteq> t)) (registered_talker_attributes sp) s)"

text \<open>
  \<open>msrp_stream_get_registered_attribute\<close>, which the callers use as a condition only: the walk of a list up to the first attribute that
  matches; \<open>None\<close> is the read of a freed attribute.
\<close>

fun scan_attrs :: "mrp_application \<Rightarrow> (mrp_attribute \<Rightarrow> bool) \<Rightarrow> nat list \<Rightarrow> bool option" where
  "scan_attrs app P [] = Some False"
| "scan_attrs app P (i # is) =
     (case attrs app i of None \<Rightarrow> None | Some a \<Rightarrow> if P a then Some True else scan_attrs app P is)"

definition msrp_stream_get_registered_attribute :: "mrp_application \<Rightarrow> msrp_stream_port \<Rightarrow> nat \<Rightarrow> u32 \<Rightarrow> bool option" where
  "msrp_stream_get_registered_attribute app sp t type =
     (if t = MSRP_ATTR_TYPE_LISTENER then scan_attrs app (\<lambda>a. ucast (at_val a ! 8) = type) (registered_listener_attributes sp)
      else scan_attrs app (\<lambda>a. at_type a = t) (registered_talker_attributes sp))"

definition msrp_stream_update :: "nat \<Rightarrow> nat \<Rightarrow> mrp_attribute \<Rightarrow> msrp_ctx \<Rightarrow> msrp_ctx" where
  "msrp_stream_update p v a s =
     (let st = get_stream s v; len = msrp_attribute_value_length (at_type a)
      in if is_talker_stream_user_declared st p then s
         else if is_talker_stream_registered st p then s
         else
           let f = take len (at_val a) @ drop len (fv st)
           in upd_stream v (\<lambda>st. st\<lparr>fv := f, sr_class := msrp_get_sr_class (ms_port s p) (fv_priority f)\<rparr>) s)"

definition listener_registration_type :: "mrp_application \<Rightarrow> msrp_stream_port \<Rightarrow> u32 option" where
  "listener_registration_type app sp =
     (let get = msrp_stream_get_registered_attribute app sp MSRP_ATTR_TYPE_LISTENER
      in do {
        rf \<leftarrow> get MSRP_LISTENER_DECLARATION_TYPE_READY_FAILED;
        if rf then Some MSRP_LISTENER_DECLARATION_TYPE_READY_FAILED
        else do {
          af \<leftarrow> get MSRP_LISTENER_DECLARATION_TYPE_ASKING_FAILED;
          r \<leftarrow> get MSRP_LISTENER_DECLARATION_TYPE_READY;
          Some (if af then if r then MSRP_LISTENER_DECLARATION_TYPE_READY_FAILED else MSRP_LISTENER_DECLARATION_TYPE_ASKING_FAILED
                else if r then MSRP_LISTENER_DECLARATION_TYPE_READY else MSRP_LISTENER_DECLARATION_TYPE_NONE)
        }
      })"

definition msrp_listener_registration_merge :: "nat \<Rightarrow> nat \<Rightarrow> msrp_ctx \<Rightarrow> msrp_ctx" where
  "msrp_listener_registration_merge p v s =
     (let sp = stream_port (get_stream s v) p
      in case listener_registration_type (ms_app s p) sp of
           None \<Rightarrow> undefined_behaviour s
         | Some type \<Rightarrow>
             if type = MSRP_LISTENER_DECLARATION_TYPE_NONE
             then msrp_deregister_attach_indication p v
                    (upd_sport v p (\<lambda>sp. sp\<lparr>listener_declaration_type := type\<rparr>) (upd_stream v (listener_registered_clear p) s))
             else if type \<noteq> listener_declaration_type sp
             then msrp_register_attach_indication p v (upd_sport v p (\<lambda>sp. sp\<lparr>listener_declaration_type := type\<rparr>) s)
             else s)"

definition talker_registration_type :: "mrp_application \<Rightarrow> msrp_stream_port \<Rightarrow> u32 option" where
  "talker_registration_type app sp =
     do {
       failed \<leftarrow> msrp_stream_get_registered_attribute app sp MSRP_ATTR_TYPE_TALKER_FAILED 0;
       if failed then Some MSRP_TALKER_DECLARATION_TYPE_FAILED
       else do {
         adv \<leftarrow> msrp_stream_get_registered_attribute app sp MSRP_ATTR_TYPE_TALKER_ADVERTISE 0;
         Some (if adv then MSRP_TALKER_DECLARATION_TYPE_ADVERTISE else MSRP_TALKER_DECLARATION_TYPE_NONE)
       }
     }"

definition msrp_talker_registration_merge :: "nat \<Rightarrow> nat \<Rightarrow> mrp_attribute option \<Rightarrow> msrp_ctx \<Rightarrow> msrp_ctx" where
  "msrp_talker_registration_merge p v new_attr s =
     (let sp = stream_port (get_stream s v) p
      in case talker_registration_type (ms_app s p) sp of
           None \<Rightarrow> undefined_behaviour s
         | Some type \<Rightarrow>
             if type = MSRP_TALKER_DECLARATION_TYPE_NONE
             then msrp_deregister_stream_indication p v
                    (upd_sport v p (\<lambda>sp. sp\<lparr>talker_declaration_type := type\<rparr>) (upd_stream v (talker_registered_clear p) s))
             else
               let s1 = (case new_attr of
                           Some a \<Rightarrow>
                             if type = MSRP_TALKER_DECLARATION_TYPE_FAILED \<and> at_type a = MSRP_ATTR_TYPE_TALKER_FAILED
                             then upd_stream v (\<lambda>st. st\<lparr>fv := take 25 (fv st) @ fv_failure_info (at_val a)\<rparr>) s else s
                         | None \<Rightarrow> s)
               in if type \<noteq> talker_declaration_type sp
                  then msrp_register_stream_indication p v (upd_sport v p (\<lambda>sp. sp\<lparr>talker_declaration_type := type\<rparr>) s1)
                  else s1)"

subsection \<open>Indications\<close>

text \<open>The join indications of the two talker attributes have the same body, as have their leave indications.\<close>

definition msrp_talker_join_indication :: "nat \<Rightarrow> nat \<Rightarrow> mrp_attribute \<Rightarrow> bool \<Rightarrow> msrp_ctx \<Rightarrow> msrp_ctx" where
  "msrp_talker_join_indication p i a new s =
     (case msrp_create_stream (fv_stream_id (at_val a)) s of
        (None, s1) \<Rightarrow> s1
      | (Some v, s1) \<Rightarrow>
          let s2 = (if new then s1 else msrp_stream_leave_immediate v p (at_type a) 0 s1);
              s3 = msrp_stream_update p v a s2;
              s4 = msrp_stream_add_talker_attribute v p i s3;
              s5 = upd_stream v (talker_registered_set p) s4;
              s6 = msrp_talker_registration_merge p v (Some a) s5
          in msrp_map_update_stream v new s6)"

definition msrp_talker_leave_indication :: "nat \<Rightarrow> nat \<Rightarrow> mrp_attribute \<Rightarrow> msrp_ctx \<Rightarrow> msrp_ctx" where
  "msrp_talker_leave_indication p i a s =
     (case msrp_find_stream s (fv_stream_id (at_val a)) of
        None \<Rightarrow> s
      | Some v \<Rightarrow>
          msrp_map_update_stream v False
            (msrp_talker_registration_merge p v None (msrp_stream_remove_talker_attribute v p i s)))"

definition msrp_listener_join_indication :: "nat \<Rightarrow> nat \<Rightarrow> mrp_attribute \<Rightarrow> bool \<Rightarrow> msrp_ctx \<Rightarrow> msrp_ctx" where
  "msrp_listener_join_indication p i a new s =
     (case msrp_create_stream (fv_stream_id (at_val a)) s of
        (None, s1) \<Rightarrow> s1
      | (Some v, s1) \<Rightarrow>
          let s2 = (if new then s1 else msrp_stream_leave_immediate v p (at_type a) (ucast (at_val a ! 8)) s1);
              s3 = msrp_stream_add_listener_attribute v p i s2;
              s4 = upd_stream v (listener_registered_set p) s3
          in msrp_map_update_stream v new (msrp_listener_registration_merge p v s4))"

definition msrp_listener_leave_indication :: "nat \<Rightarrow> nat \<Rightarrow> mrp_attribute \<Rightarrow> msrp_ctx \<Rightarrow> msrp_ctx" where
  "msrp_listener_leave_indication p i a s =
     (case msrp_find_stream s (fv_stream_id (at_val a)) of
        None \<Rightarrow> s
      | Some v \<Rightarrow>
          msrp_map_update_stream v False
            (msrp_listener_registration_merge p v (msrp_stream_remove_listener_attribute v p i s)))"

definition msrp_domain_join_indication :: "nat \<Rightarrow> mrp_attribute \<Rightarrow> msrp_ctx \<Rightarrow> msrp_ctx" where
  "msrp_domain_join_indication p a s =
     (case create_domain p (at_val a) s of
        (None, s1) \<Rightarrow> s1
      | (Some d, s1) \<Rightarrow>
          msrp_domain_update_boundary_port p
            (upd_port p (upd_domain d (\<lambda>dm. dm\<lparr>dom_state := set_bit MRP_FLAG_REGISTERED (dom_state dm)\<rparr>)) s1))"

definition msrp_domain_leave_indication :: "nat \<Rightarrow> mrp_attribute \<Rightarrow> msrp_ctx \<Rightarrow> msrp_ctx" where
  "msrp_domain_leave_indication p a s =
     (case msrp_find_domain (ms_port s p) (at_val a) of
        None \<Rightarrow> s
      | Some d \<Rightarrow>
          msrp_domain_update_boundary_port p
            (upd_port p (upd_domain d (\<lambda>dm. dm\<lparr>dom_state := unset_bit MRP_FLAG_REGISTERED (dom_state dm)\<rparr>)) s))"

definition msrp_mad_join_indication :: "msrp_ctx \<Rightarrow> nat \<Rightarrow> nat \<Rightarrow> bool \<Rightarrow> msrp_ctx" where
  "msrp_mad_join_indication s p i new =
     (let a = get_attr (ms_app s p) i
      in if at_type a = MSRP_ATTR_TYPE_LISTENER then msrp_listener_join_indication p i a new s
         else if at_type a = MSRP_ATTR_TYPE_TALKER_ADVERTISE \<or> at_type a = MSRP_ATTR_TYPE_TALKER_FAILED
         then msrp_talker_join_indication p i a new s
         else if at_type a = MSRP_ATTR_TYPE_DOMAIN then msrp_domain_join_indication p a s
         else s)"

definition msrp_mad_leave_indication :: "msrp_ctx \<Rightarrow> nat \<Rightarrow> nat \<Rightarrow> msrp_ctx" where
  "msrp_mad_leave_indication s p i =
     (let a = get_attr (ms_app s p) i
      in if at_type a = MSRP_ATTR_TYPE_LISTENER then msrp_listener_leave_indication p i a s
         else if at_type a = MSRP_ATTR_TYPE_TALKER_ADVERTISE \<or> at_type a = MSRP_ATTR_TYPE_TALKER_FAILED
         then msrp_talker_leave_indication p i a s
         else if at_type a = MSRP_ATTR_TYPE_DOMAIN then msrp_domain_leave_indication p a s
         else s)"

definition msrp_ops :: "msrp_ctx mrp_ops" where
  "msrp_ops = \<lparr>op_app = ms_app, op_set_app = ms_set_app,
     mad_join_indication = msrp_mad_join_indication, mad_leave_indication = msrp_mad_leave_indication\<rparr>"

subsection \<open>Requests of the applications\<close>

definition be32 :: "u32 \<Rightarrow> u8 list" where
  "be32 x = [ucast (drop_bit 24 x), ucast (drop_bit 16 x), ucast (drop_bit 8 x), ucast x]"

record talker_register =
  tr_stream_id :: "u8 list"
  tr_stream_class :: u32
  tr_destination_address :: mac_addr
  tr_vlan_id :: u16
  tr_max_frame_size :: u16
  tr_max_interval_frames :: u16
  tr_accumulated_latency :: u32
  tr_rank :: u32

definition talker_first_value :: "msrp_port \<Rightarrow> msrp_domain \<Rightarrow> talker_register \<Rightarrow> u8 list" where
  "talker_first_value port dm cmd =
     tr_stream_id cmd @ tr_destination_address cmd @
     be16 (if tr_vlan_id cmd = VLAN_VID_DEFAULT then dom_vid dm else tr_vlan_id cmd) @
     be16 (tr_max_frame_size cmd) @ be16 (tr_max_interval_frames cmd) @
     [or (push_bit 5 (dom_priority dm)) (push_bit 4 (and 1 (ucast (tr_rank cmd))))] @
     be32 (tr_accumulated_latency cmd + port_tc_max_latency port) @ replicate 9 0"

definition msrp_register_stream_request :: "nat \<Rightarrow> talker_register \<Rightarrow> msrp_ctx \<Rightarrow> nat option \<times> msrp_ctx" where
  "msrp_register_stream_request p cmd s =
     (let c = unat (tr_stream_class cmd); port = ms_port s p
      in if \<not> sr_class_enabled (sr_classes s) c \<or> c = SR_CLASS_NONE then (None, s)
         else case domain port c of
                None \<Rightarrow> (None, undefined_behaviour s)
              | Some d \<Rightarrow>
                  let val = talker_first_value port (get_domain port d) cmd
                  in case msrp_create_stream (tr_stream_id cmd) s of
                       (None, s1) \<Rightarrow> (None, s1)
                     | (Some v, s1) \<Rightarrow>
                         let st = get_stream s1 v
                         in if is_listener_stream_user_declared st p then (None, s1)
                            else if (is_talker_stream_registered_any st \<or> is_talker_stream_user_declared_any st) \<and>
                                    take 25 (fv st) \<noteq> take 25 val then (None, s1)
                            else
                              let s2 = (if is_talker_stream_registered_any st \<or> is_talker_stream_user_declared_any st then s1
                                        else upd_stream v (\<lambda>st. st\<lparr>sr_class := c, fv := val\<rparr>) s1);
                                  s3 = msrp_map_update_stream v True (upd_stream v (talker_user_declared_set p) s2);
                                  s4 = (if ms_is_bridge s3 then s3 else msrp_register_vlan p v s3);
                                  st4 = get_stream s4 v
                              in (Some v, if listener_attached st4 p then msrp_register_attach_indication p v s4 else s4))"

definition msrp_deregister_talker_stream :: "nat \<Rightarrow> nat \<Rightarrow> msrp_ctx \<Rightarrow> msrp_ctx" where
  "msrp_deregister_talker_stream p v s =
     (let s1 = upd_stream v (talker_user_declared_clear p) s;
          s2 = (if ms_is_bridge s1 then s1 else msrp_deregister_vlan p v s1)
      in msrp_map_update_stream v False s2)"

definition msrp_deregister_stream_request :: "nat \<Rightarrow> u8 list \<Rightarrow> msrp_ctx \<Rightarrow> int \<times> msrp_ctx" where
  "msrp_deregister_stream_request p sid s =
     (case msrp_find_stream s sid of
        None \<Rightarrow> (-1, s)
      | Some v \<Rightarrow> if \<not> is_talker_stream_user_declared (get_stream s v) p then (-1, s)
                  else (0, msrp_deregister_talker_stream p v s))"

definition msrp_register_attach_request :: "nat \<Rightarrow> u8 list \<Rightarrow> msrp_ctx \<Rightarrow> nat option \<times> msrp_ctx" where
  "msrp_register_attach_request p sid s =
     (case msrp_create_stream sid s of
        (None, s1) \<Rightarrow> (None, s1)
      | (Some v, s1) \<Rightarrow>
          if is_talker_stream_user_declared (get_stream s1 v) p then (None, s1)
          else (Some v, msrp_map_update_stream v True (upd_stream v (listener_user_declared_set p) s1)))"

definition msrp_deregister_listener_stream :: "nat \<Rightarrow> nat \<Rightarrow> msrp_ctx \<Rightarrow> msrp_ctx" where
  "msrp_deregister_listener_stream p v s = msrp_map_update_stream v False (upd_stream v (listener_user_declared_clear p) s)"

definition msrp_deregister_attach_request :: "nat \<Rightarrow> u8 list \<Rightarrow> msrp_ctx \<Rightarrow> int \<times> msrp_ctx" where
  "msrp_deregister_attach_request p sid s =
     (case msrp_find_stream s sid of
        None \<Rightarrow> (-1, s)
      | Some v \<Rightarrow> if \<not> is_listener_stream_user_declared (get_stream s v) p then (-1, s)
                  else (0, msrp_deregister_listener_stream p v s))"

text \<open>The loop over the ports reads the stream again after a deregistration, which may have freed it.\<close>

definition deregister_port :: "nat \<Rightarrow> nat \<Rightarrow> msrp_ctx \<Rightarrow> msrp_ctx" where
  "deregister_port v i s =
     (case sheap s v of
        None \<Rightarrow> undefined_behaviour s
      | Some st \<Rightarrow>
          if is_talker_stream_user_declared st i then msrp_deregister_talker_stream i v s
          else if is_listener_stream_user_declared st i then msrp_deregister_listener_stream i v s
          else s)"

definition msrp_stream_deregister_all :: "msrp_ctx \<Rightarrow> msrp_ctx" where
  "msrp_stream_deregister_all s = fold (\<lambda>v s. fold (deregister_port v) [0..<ms_port_max s] s) (streams s) s"

subsection \<open>IPC\<close>

text \<open>
  The messages of the media stack with their length checked against the expected one (\<open>good\<close>). The managed object messages,
  which go to \<open>srp_managed_objects.c\<close>, are not modelled.
\<close>

datatype msrp_msg =
    LISTENER_REGISTER u32 "u8 list"
  | LISTENER_DEREGISTER u32 "u8 list"
  | TALKER_REGISTER u32 talker_register
  | TALKER_DEREGISTER u32 "u8 list"
  | DEREGISTER_ALL
  | OTHER_MSG

record msrp_ipc_desc =
  md_msg :: msrp_msg
  md_good :: bool
  md_type :: nat
  md_len :: nat
  md_src :: nat
  md_sync :: bool

definition msrp_ipc_error_response :: "msrp_ipc_desc \<Rightarrow> genavb_rc \<Rightarrow> msrp_ctx \<Rightarrow> msrp_ctx" where
  "msrp_ipc_error_response d status = ms_ipc_send (MsrpErrorResponse (md_sync d) (md_src d) (md_type d) (md_len d) status)"

definition msrp_ipc_listener_response :: "msrp_ipc_desc \<Rightarrow> nat \<Rightarrow> u8 list \<Rightarrow> genavb_rc \<Rightarrow> msrp_ctx \<Rightarrow> msrp_ctx" where
  "msrp_ipc_listener_response d p sid status s =
     ms_ipc_send (ListenerResponse (md_sync d) (md_src d) (msrp_to_logical_port s p) sid status) s"

definition msrp_ipc_talker_response :: "msrp_ipc_desc \<Rightarrow> nat \<Rightarrow> u8 list \<Rightarrow> genavb_rc \<Rightarrow> msrp_ctx \<Rightarrow> msrp_ctx" where
  "msrp_ipc_talker_response d p sid status s =
     ms_ipc_send (TalkerResponse (md_sync d) (md_src d) (msrp_to_logical_port s p) sid status) s"

definition msrp_ipc_rx :: "msrp_ipc_desc \<Rightarrow> msrp_ctx \<Rightarrow> msrp_ctx" where
  "msrp_ipc_rx d s =
     (let on_port = (\<lambda>l f. if \<not> md_good d then msrp_ipc_error_response d GENAVB_ERR_CTRL_LEN s
                          else case logical_to_msrp_port s l of
                                 None \<Rightarrow> msrp_ipc_error_response d GENAVB_ERR_CTRL_INVALID s
                               | Some p \<Rightarrow> f p)
      in case md_msg d of
           LISTENER_REGISTER l sid \<Rightarrow> on_port l (\<lambda>p.
             case msrp_register_attach_request p sid s of
               (None, s1) \<Rightarrow> msrp_ipc_listener_response d p sid GENAVB_ERR_CTRL_FAILED s1
             | (Some v, s1) \<Rightarrow> msrp_ipc_listener_status p v (msrp_ipc_listener_response d p sid GENAVB_SUCCESS s1))
         | LISTENER_DEREGISTER l sid \<Rightarrow> on_port l (\<lambda>p.
             case msrp_deregister_attach_request p sid s of (rc, s1) \<Rightarrow>
               msrp_ipc_listener_response d p sid (if rc < 0 then GENAVB_ERR_CTRL_FAILED else GENAVB_SUCCESS) s1)
         | TALKER_REGISTER l cmd \<Rightarrow> on_port l (\<lambda>p.
             case msrp_register_stream_request p cmd s of
               (None, s1) \<Rightarrow> msrp_ipc_talker_response d p (tr_stream_id cmd) GENAVB_ERR_CTRL_FAILED s1
             | (Some v, s1) \<Rightarrow> msrp_ipc_talker_status p v (msrp_ipc_talker_response d p (tr_stream_id cmd) GENAVB_SUCCESS s1))
         | TALKER_DEREGISTER l sid \<Rightarrow> on_port l (\<lambda>p.
             case msrp_deregister_stream_request p sid s of (rc, s1) \<Rightarrow>
               msrp_ipc_talker_response d p sid (if rc < 0 then GENAVB_ERR_CTRL_FAILED else GENAVB_SUCCESS) s1)
         | DEREGISTER_ALL \<Rightarrow> if \<not> md_good d then msrp_ipc_error_response d GENAVB_ERR_CTRL_LEN s else msrp_stream_deregister_all s
         | OTHER_MSG \<Rightarrow> msrp_ipc_error_response d GENAVB_ERR_CTRL_INVALID s)"

subsection \<open>Reception\<close>

definition msrp_attribute_check :: "u8 \<Rightarrow> u8 \<Rightarrow> bool" where
  "msrp_attribute_check type len \<longleftrightarrow> type \<noteq> 0 \<and> type < 5 \<and> len = of_nat (msrp_attribute_length (unat type))"

definition msrp_event_length :: "u8 \<Rightarrow> nat \<Rightarrow> nat" where
  "msrp_event_length type n = (n + 2) div 3 + (if type = 3 then (n + 3) div 4 else 0)"

definition msrp_increment_stream :: "nat \<Rightarrow> u8 list \<Rightarrow> u8 list" where
  "msrp_increment_stream t val =
     (let uid = be16 (from_be16 (val ! 6) (val ! 7) + 1); v1 = take 6 val @ uid @ drop 8 val
      in if t = MSRP_ATTR_TYPE_TALKER_ADVERTISE \<or> t = MSRP_ATTR_TYPE_TALKER_FAILED then v1[13 := v1 ! 13 + 1] else v1)"

definition msrp_increment_domain :: "u8 list \<Rightarrow> u8 list" where
  "msrp_increment_domain val = (val[0 := val ! 0 + 1])[1 := val ! 1 + 1]"

text \<open>
  The two loops of \<open>msrp_vector_handler\<close> from value \<open>i\<close> on: \<open>val\<close> is the first value, which the code increments in the
  packet, \<open>three\<close> and \<open>four\<close> are the positions of the packed events, \<open>event\<close> and \<open>decl\<close> the last unpacked ones.
\<close>

definition rd_event :: "u8 list \<Rightarrow> nat \<Rightarrow> nat \<Rightarrow> u32 list \<Rightarrow> u32 list option" where
  "rd_event buf three i event =
     (if i mod 3 = 0 then map_option mrp_get_three_packed_event (rd buf (three + i div 3)) else Some event)"

fun stream_values :: "nat \<Rightarrow> nat \<Rightarrow> nat \<Rightarrow> u8 list \<Rightarrow> nat \<Rightarrow> nat \<Rightarrow> nat \<Rightarrow> u8 list \<Rightarrow> u32 list \<Rightarrow> u32 list \<Rightarrow> msrp_ctx \<Rightarrow> msrp_ctx option" where
  "stream_values 0 p t buf three four i val event decl s = Some s"
| "stream_values (Suc n) p t buf three four i val event decl s =
     do {
       event1 \<leftarrow> rd_event buf three i event;
       if t = MSRP_ATTR_TYPE_LISTENER then do {
         decl1 \<leftarrow> (if i mod 4 = 0 then map_option mrp_get_four_packed_event (rd buf (four + i div 4)) else Some decl);
         let s1 = (if decl1 ! (i mod 4) = 0 then s
                   else snd (mrp_process_attribute msrp_ops p t (take 8 val @ [ucast (decl1 ! (i mod 4))]) (unat (event1 ! (i mod 3))) s));
         stream_values n p t buf three four (i + 1) (msrp_increment_stream t val) event1 decl1 s1
       } else
         stream_values n p t buf three four (i + 1) (msrp_increment_stream t val) event1 decl
           (snd (mrp_process_attribute msrp_ops p t val (unat (event1 ! (i mod 3))) s))
     }"

fun domain_values :: "nat \<Rightarrow> nat \<Rightarrow> u8 list \<Rightarrow> nat \<Rightarrow> nat \<Rightarrow> u8 list \<Rightarrow> u32 list \<Rightarrow> msrp_ctx \<Rightarrow> msrp_ctx option" where
  "domain_values 0 p buf three i val event s = Some s"
| "domain_values (Suc n) p buf three i val event s =
     do {
       event1 \<leftarrow> rd_event buf three i event;
       domain_values n p buf three (i + 1) (msrp_increment_domain val) event1
         (snd (mrp_process_attribute msrp_ops p MSRP_ATTR_TYPE_DOMAIN val (unat (event1 ! (i mod 3))) s))
     }"

definition msrp_vector_handler :: "msrp_ctx \<Rightarrow> nat \<Rightarrow> u8 \<Rightarrow> u8 list \<Rightarrow> nat \<Rightarrow> nat \<Rightarrow> msrp_ctx option" where
  "msrp_vector_handler s p type buf off n =
     (let t = unat type; len = msrp_attribute_length t; val = take len (drop off buf); three = off + len
      in if n = 0 then Some s
         else if off + len > length buf then None
         else if t = MSRP_ATTR_TYPE_TALKER_ADVERTISE \<or> t = MSRP_ATTR_TYPE_TALKER_FAILED \<or> t = MSRP_ATTR_TYPE_LISTENER
         then stream_values n p t buf three (three + (n + 2) div 3) 0 val [] [0, 0, 0, 0] s
         else if t = MSRP_ATTR_TYPE_DOMAIN then domain_values n p buf three 0 val [] s
         else Some s)"

definition msrp_rx_ops :: "msrp_ctx mrp_rx_ops" where
  "msrp_rx_ops = \<lparr>attribute_check = msrp_attribute_check, event_length = msrp_event_length, vector_handler = msrp_vector_handler\<rparr>"

definition msrp_process_packet :: "msrp_ctx \<Rightarrow> nat \<Rightarrow> net_rx_desc \<Rightarrow> (int \<times> msrp_ctx) option" where
  "msrp_process_packet s p desc =
     (if p \<ge> ms_port_max s then Some (-1, s)
      else if \<not> msrp_is_operational s p then Some (-1, s)
      else mrp_process_packet msrp_ops msrp_rx_ops p desc s)"

subsection \<open>Enabling and disabling\<close>

definition msrp_exit_domains :: "nat \<Rightarrow> msrp_ctx \<Rightarrow> msrp_ctx" where
  "msrp_exit_domains p s =
     upd_port p (\<lambda>port. port\<lparr>domain := (\<lambda>c. if c < CFG_MSRP_MAX_CLASSES then None else domain port c)\<rparr>)
       (fold (\<lambda>d s. upd_port p (msrp_free_domain d)
          (ms_set_app s p (mrp_mad_leave_request (ms_app s p) MSRP_ATTR_TYPE_DOMAIN (dom_fv (get_domain (ms_port s p) d)))))
        (domains (ms_port s p)) s)"

fun declare_domains :: "nat \<Rightarrow> nat list \<Rightarrow> msrp_ctx \<Rightarrow> bool \<times> msrp_ctx" where
  "declare_domains p [] s = (True, s)"
| "declare_domains p (c # cs) s =
     (if \<not> sr_class_enabled (sr_classes s) c then declare_domains p cs s
      else case msrp_declare_domain p (ucast (sr_class_id (sr_classes s) c)) (ucast (sr_class_pcp (sr_classes s) c)) (sr_pvid (ms_port s p)) s of
             (r, s1) \<Rightarrow>
               let s2 = upd_port p (\<lambda>port. port\<lparr>domain := (domain port)(c := r)\<rparr>) s1
               in if r = None then (False, s2) else declare_domains p cs s2)"

text \<open>\<open>multi\<close> tells whether \<open>net_add_multi\<close> succeeds.\<close>

definition msrp_port_enable :: "bool \<Rightarrow> nat \<Rightarrow> msrp_ctx \<Rightarrow> int \<times> msrp_ctx" where
  "msrp_port_enable multi p s =
     (if msrp_is_enabled s p \<or> \<not> ms_initialized (ms_port s p) then (0, s)
      else
        case declare_domains p [0..<CFG_MSRP_MAX_CLASSES] (ms_set_app s p (mrp_enable (ms_app s p))) of
          (False, s1) \<Rightarrow> (-1, ms_set_app s1 p (mrp_disable (ms_app s1 p)))
        | (True, s1) \<Rightarrow>
            let s2 = msrp_domain_update_boundary_port p s1
            in if \<not> multi then (let s3 = msrp_exit_domains p s2 in (-1, ms_set_app s3 p (mrp_disable (ms_app s3 p))))
               else (0, msrp_update_enabled_state p True s2))"

definition disable_stream :: "nat \<Rightarrow> nat \<Rightarrow> msrp_ctx \<Rightarrow> msrp_ctx" where
  "disable_stream p v s =
     msrp_talker_registration_merge p v None (msrp_listener_registration_merge p v
       (msrp_stream_remove_all_talker_attributes v p (msrp_stream_remove_all_listener_attributes v p s)))"

definition msrp_port_disable :: "nat \<Rightarrow> msrp_ctx \<Rightarrow> msrp_ctx" where
  "msrp_port_disable p s =
     (if \<not> msrp_is_enabled s p \<or> \<not> ms_initialized (ms_port s p) then s
      else
        let s1 = msrp_exit_domains p s;
            s2 = fold (disable_stream p) (streams s1) s1;
            s3 = msrp_update_enabled_state p False s2
        in ms_set_app s3 p (mrp_disable (ms_app s3 p)))"

definition msrp_enable :: "(nat \<Rightarrow> bool) \<Rightarrow> msrp_ctx \<Rightarrow> msrp_ctx" where
  "msrp_enable multi s =
     (if msrp_enabled_status s then s
      else (fold (\<lambda>i s. if msrp_port_enabled_status (ms_port s i) then snd (msrp_port_enable (multi i) i s) else s) [0..<ms_port_max s] s)
             \<lparr>msrp_enabled_status := True\<rparr>)"

definition msrp_disable :: "msrp_ctx \<Rightarrow> msrp_ctx" where
  "msrp_disable s =
     (if \<not> msrp_enabled_status s then s
      else (fold (\<lambda>i s. if msrp_port_enabled_status (ms_port s i) then msrp_port_disable i s else s) [0..<ms_port_max s] s)
             \<lparr>msrp_enabled_status := False\<rparr>)"

subsection \<open>Initialization\<close>

record msrp_config =
  mc_enabled :: bool
  mc_is_bridge :: bool
  mc_port_max :: nat
  mc_logical_port_list :: "nat \<Rightarrow> u32"
  mc_send_leave :: bool
  mc_net_multi :: "nat \<Rightarrow> bool"
  mc_ipc_init :: "nat \<Rightarrow> bool"

definition msrp_port_config :: "mrp_application \<Rightarrow> mrp_application" where
  "msrp_port_config app =
     app\<lparr>attribute_length := msrp_attribute_length, attribute_value_length := msrp_attribute_value_length,
         vector_add_event := msrp_vector_add_event, dst_mac := [0x01, 0x80, 0xC2, 0, 0, 0x0E],
         ethertype := 0x22EA, min_attr_type := MSRP_ATTR_TYPE_TALKER_ADVERTISE, max_attr_type := MSRP_ATTR_TYPE_DOMAIN,
         proto_version := 0, has_attribute_list_length := True\<rparr>"

definition msrp_port_init :: "msrp_config \<Rightarrow> nat \<Rightarrow> msrp_ctx \<Rightarrow> int \<times> msrp_ctx" where
  "msrp_port_init cfg p s =
     (let s1 = upd_port p (\<lambda>port. port\<lparr>ms_logical_port := mc_logical_port_list cfg p, msrp_send_leave := mc_send_leave cfg,
                 port_tc_max_latency := CFG_PORT_TC_MAX_LATENCY, mrp_app := msrp_port_config (mrp_app port)\<rparr>) s
      in case mrp_init (ms_app s1 p) APP_MSRP MRP_PARTICIPANT_TYPE_FULL_POINT_TO_POINT of
           (rc, app) \<Rightarrow>
             if rc < 0 then (-1, ms_set_app s1 p app)
             else (0, upd_port p (\<lambda>port. port\<lparr>domains := [], sr_pvid := CFG_MVRP_VID, msrp_port_enabled_status := True\<rparr>)
                        (ms_set_app s1 p (mrp_disable app))))"

definition msrp_port_exit :: "nat \<Rightarrow> msrp_ctx \<Rightarrow> msrp_ctx" where
  "msrp_port_exit p s = (let s1 = msrp_port_disable p s in ms_set_app s1 p (mrp_exit (ms_app s1 p)))"

fun msrp_init_ports :: "msrp_config \<Rightarrow> nat list \<Rightarrow> msrp_ctx \<Rightarrow> nat option \<times> msrp_ctx" where
  "msrp_init_ports cfg [] s = (None, s)"
| "msrp_init_ports cfg (p # ps) s =
     (case msrp_port_init cfg p s of (rc, s1) \<Rightarrow> if rc < 0 then (Some p, s1) else msrp_init_ports cfg ps s1)"

definition msrp_init :: "msrp_config \<Rightarrow> msrp_ctx \<Rightarrow> int \<times> msrp_ctx" where
  "msrp_init cfg s =
     (let s1 = s\<lparr>ms_port_max := mc_port_max cfg, ms_is_bridge := mc_is_bridge cfg\<rparr>
      in if \<not> mc_ipc_init cfg 0 \<or> \<not> mc_ipc_init cfg 1 \<or> \<not> mc_ipc_init cfg 2 then (-1, s1)
         else case msrp_init_ports cfg [0..<mc_port_max cfg] (msrp_map_init s1) of
                (Some i, s2) \<Rightarrow> (-1, fold msrp_port_exit [0..<i] s2)
              | (None, s2) \<Rightarrow> (0, if mc_enabled cfg then msrp_enable (mc_net_multi cfg) s2 else s2))"

definition msrp_exit :: "msrp_ctx \<Rightarrow> msrp_ctx" where
  "msrp_exit s =
     (let s1 = msrp_disable s in msrp_map_exit (fold msrp_port_exit [0..<ms_port_max s1] s1))"

end
