(* ===== verification/MSRP_Frame.thy ===== *)
theory MSRP_Frame
  imports MSRP
begin

section \<open>What the MSRP MAP leaves alone\<close>

text \<open>
  Frame lemmas of the operations of \<open>msrp_map.c\<close>. \<open>st_frame T L\<close> relates a stream before and after: the
  registrations and the requests of the applications are the same, the talker declaration may differ on the ports of
  \<open>T\<close> only and the listener declaration on those of \<open>L\<close>, and a port whose declarations agree with its
  reservation table still does (\<open>decl_wf\<close>). \<open>eff v T L\<close> lifts it to the whole context: one stream changes, the list of the
  streams and the forwarding mask do not, and \<open>ub\<close>, once set, stays set.
\<close>

definition decl_wf :: "msrp_stream \<Rightarrow> nat \<Rightarrow> bool" where
  "decl_wf st p \<longleftrightarrow>
     (is_talker_stream_declared st p \<longrightarrow> declared_talker_attribute (stream_port st p) \<noteq> None) \<and>
     (is_listener_stream_declared st p \<longrightarrow> declared_listener_attribute (stream_port st p) \<noteq> None) \<and>
     rv_valid (reservations (stream_port st p) MSRP_DIRECTION_TALKER) = is_talker_stream_declared st p \<and>
     rv_valid (reservations (stream_port st p) MSRP_DIRECTION_LISTENER) = is_listener_stream_declared st p"

definition st_frame :: "nat set \<Rightarrow> nat set \<Rightarrow> msrp_stream \<Rightarrow> msrp_stream \<Rightarrow> bool" where
  "st_frame T L st st' \<longleftrightarrow>
     listener_registered_state st' = listener_registered_state st \<and>
     listener_user_declared_state st' = listener_user_declared_state st \<and>
     talker_registered_state st' = talker_registered_state st \<and>
     talker_user_declared_state st' = talker_user_declared_state st \<and>
     (\<forall>p. listener_declaration_type (stream_port st' p) = listener_declaration_type (stream_port st p) \<and>
          talker_declaration_type (stream_port st' p) = talker_declaration_type (stream_port st p)) \<and>
     (\<forall>p. p \<notin> T \<longrightarrow> bit (talker_declared_state st') p = bit (talker_declared_state st) p \<and>
          declared_talker_attribute (stream_port st' p) = declared_talker_attribute (stream_port st p)) \<and>
     (\<forall>p. p \<notin> L \<longrightarrow> bit (listener_declared_state st') p = bit (listener_declared_state st) p \<and>
          declared_listener_attribute (stream_port st' p) = declared_listener_attribute (stream_port st p)) \<and>
     (\<forall>p < 16. decl_wf st p \<longrightarrow> decl_wf st' p)"

definition eff :: "nat \<Rightarrow> nat set \<Rightarrow> nat set \<Rightarrow> msrp_ctx \<Rightarrow> msrp_ctx \<Rightarrow> bool" where
  "eff v T L s s' \<longleftrightarrow>
     streams s' = streams s \<and> num_streams s' = num_streams s \<and> next_stream s' = next_stream s \<and>
     map_forwarding_state s' = map_forwarding_state s \<and> ms_port_max s' = ms_port_max s \<and>
     (\<forall>w. w \<noteq> v \<longrightarrow> sheap s' w = sheap s w) \<and> (ub s \<longrightarrow> ub s') \<and>
     (\<forall>st. sheap s v = Some st \<longrightarrow> (\<exists>st'. sheap s' v = Some st' \<and> st_frame T L st st'))"

lemmas mask_defs = is_talker_stream_declared_def is_listener_stream_declared_def is_talker_stream_registered_def
  is_listener_stream_registered_def is_talker_stream_user_declared_def is_listener_stream_user_declared_def

lemma st_frame_refl [simp]: "st_frame T L st st"
  by (simp add: st_frame_def)

lemma st_frame_trans: "st_frame T L a b \<Longrightarrow> st_frame T' L' b c \<Longrightarrow> st_frame (T \<union> T') (L \<union> L') a c"
  by (simp add: st_frame_def)

lemma eff_refl [simp]: "eff v T L s s"
  by (auto simp: eff_def)

lemma eff_trans:
  assumes "eff v T L a b" and "eff v T' L' b c"
  shows "eff v (T \<union> T') (L \<union> L') a c"
proof -
  have "\<exists>st'. sheap c v = Some st' \<and> st_frame (T \<union> T') (L \<union> L') st st'" if h: "sheap a v = Some st" for st
  proof -
    obtain st1 where 1: "sheap b v = Some st1" "st_frame T L st st1" using assms(1) h unfolding eff_def by blast
    then obtain st2 where "sheap c v = Some st2" "st_frame T' L' st1 st2" using assms(2) unfolding eff_def by blast
    with st_frame_trans [OF 1(2)] show ?thesis by blast
  qed
  with assms show ?thesis by (simp add: eff_def)
qed

lemma st_frame_mono: "st_frame T L a b \<Longrightarrow> T \<subseteq> T' \<Longrightarrow> L \<subseteq> L' \<Longrightarrow> st_frame T' L' a b"
  unfolding st_frame_def by blast

lemma eff_mono: "eff v T L s s' \<Longrightarrow> T \<subseteq> T' \<Longrightarrow> L \<subseteq> L' \<Longrightarrow> eff v T' L' s s'"
  unfolding eff_def using st_frame_mono by meson

lemma eff_then: "eff v T L a b \<Longrightarrow> eff v T L b c \<Longrightarrow> eff v T L a c"
  using eff_trans [of v T L a b T L c] by simp

lemma eff_ub: "eff v T L s s' \<Longrightarrow> ub s \<Longrightarrow> ub s'"
  by (simp add: eff_def)

lemma eff_get:
  "eff v T L s s' \<Longrightarrow> sheap s v \<noteq> None \<Longrightarrow> sheap s' v \<noteq> None \<and> st_frame T L (get_stream s v) (get_stream s' v)"
  by (auto simp: eff_def get_stream_def)

text \<open>The steps that change no stream, and the update of one.\<close>

lemma eff_other:
  assumes "streams s' = streams s" "num_streams s' = num_streams s" "next_stream s' = next_stream s"
    "map_forwarding_state s' = map_forwarding_state s" "ms_port_max s' = ms_port_max s" "sheap s' = sheap s" "ub s \<longrightarrow> ub s'"
  shows "eff v T L s s'"
  using assms by (simp add: eff_def)

lemma eff_upd_stream: "(\<And>st. st_frame T L st (f st)) \<Longrightarrow> eff v T L s (upd_stream v f s)"
  by (auto simp: eff_def upd_stream_def get_stream_def)

lemma get_upd_stream [simp]: "get_stream (upd_stream v f s) w = (if w = v then f (get_stream s v) else get_stream s w)"
  by (simp add: upd_stream_def get_stream_def)

lemma logical_upd_stream [simp]: "msrp_to_logical_port (upd_stream v f s) p = msrp_to_logical_port s p"
  by (simp add: upd_stream_def msrp_to_logical_port_def)

lemma eff_ms_set_app [simp]: "eff v T L s (ms_set_app s p app)"
  by (rule eff_other) (simp_all add: ms_set_app_def upd_port_def)

lemma eff_undefined [simp]: "eff v T L s (undefined_behaviour s)"
  by (rule eff_other) (simp_all add: undefined_behaviour_def)

lemma ub_undefined [simp]: "ub (undefined_behaviour s)"
  by (simp add: undefined_behaviour_def)

lemma eff_ipc_send [simp]: "eff v T L s (ms_ipc_send m s)"
  by (rule eff_other) (simp_all add: ms_ipc_send_def)

lemma get_ms_set_app [simp]: "get_stream (ms_set_app s p app) v = get_stream s v"
  by (simp add: ms_set_app_def upd_port_def get_stream_def)

lemma get_ipc_send [simp]: "get_stream (ms_ipc_send m s) v = get_stream s v"
  by (simp add: ms_ipc_send_def get_stream_def)

lemma get_undefined [simp]: "get_stream (undefined_behaviour s) v = get_stream s v"
  by (simp add: undefined_behaviour_def get_stream_def)

text \<open>The stream updates that touch neither a declaration nor a registration.\<close>

lemma st_frame_resources [simp]:
  "st_frame T L st (fdb_set_state p b st)" "st_frame T L st (fqtss_set_state p b st)"
  "st_frame T L st (st\<lparr>vlan_state := x\<rparr>)"
  by (simp_all add: st_frame_def fdb_set_state_def fqtss_set_state_def decl_wf_def mask_defs)

lemma eff_fdb_update [simp]: "eff v T L s (snd (msrp_fdb_update v p mac vid b s))"
proof -
  have 1: "eff v T L s (s\<lparr>n_fdb := x, fdb_log := y\<rparr>)" for x y by (rule eff_other) simp_all
  have 2: "eff v T L s (upd_stream v (fdb_set_state p b) (s\<lparr>n_fdb := x, fdb_log := y\<rparr>))" for x y
    by (rule eff_then [OF 1 eff_upd_stream]) simp
  show ?thesis by (simp add: msrp_fdb_update_def Let_def 1 2)
qed

lemma eff_update_fqtss [simp]: "eff v T L s (snd (msrp_update_fqtss p v val b s))"
proof -
  have 1: "eff v T L s (s\<lparr>fqtss := x\<rparr>)" for x by (rule eff_other) simp_all
  have 2: "eff v T L s (upd_stream v (fqtss_set_state p c) (s\<lparr>fqtss := x\<rparr>))" for x c
    by (rule eff_then [OF 1 eff_upd_stream]) simp
  show ?thesis by (simp add: msrp_update_fqtss_def Let_def 1 2 split: prod.split)
qed

lemma eff_vlan [simp]:
  "eff v T L s (msrp_register_vlan p v s)" "eff v T L s (msrp_deregister_vlan p v s)"
proof -
  have 1: "eff v T L s (s\<lparr>mvrp := x\<rparr>)" for x by (rule eff_other) simp_all
  have 2: "eff v T L s (upd_stream v (\<lambda>st. st\<lparr>vlan_state := f st\<rparr>) (s\<lparr>mvrp := x\<rparr>))" for x f
    by (rule eff_then [OF 1 eff_upd_stream]) simp
  show "eff v T L s (msrp_register_vlan p v s)" "eff v T L s (msrp_deregister_vlan p v s)"
    by (simp_all add: msrp_register_vlan_def msrp_deregister_vlan_def Let_def 1 2 split: prod.split)
qed

lemma eff_declaration_status [simp]:
  "eff v T L s (msrp_ipc_talker_declaration_status p w s)" "eff v T L s (msrp_ipc_listener_declaration_status p w s)"
  by (simp_all add: msrp_ipc_talker_declaration_status_def msrp_ipc_listener_declaration_status_def Let_def split: option.split)

lemma get_declaration_status [simp]:
  "get_stream (msrp_ipc_talker_declaration_status p w s) v = get_stream s v"
  "get_stream (msrp_ipc_listener_declaration_status p w s) v = get_stream s v"
  by (simp_all add: msrp_ipc_talker_declaration_status_def msrp_ipc_listener_declaration_status_def Let_def split: option.split)

subsection \<open>Talker declarations\<close>

lemma bit_masks:
  "bit (set_bit p (m::u16)) q \<longleftrightarrow> bit m q \<or> q = p \<and> p < 16"
  "bit (unset_bit p (m::u16)) q \<longleftrightarrow> bit m q \<and> q \<noteq> p"
  by (auto simp: bit_set_bit_iff bit_unset_bit_iff)

lemma upd_stream_upd: "upd_stream v f (upd_stream v g s) = upd_stream v (\<lambda>st. f (g st)) s"
  by (simp add: upd_stream_def get_stream_def)

lemma upd_stream_set_app: "ms_set_app (upd_stream v f s) p app = upd_stream v f (ms_set_app s p app)"
  by (simp add: upd_stream_def get_stream_def ms_set_app_def upd_port_def)

lemma eff_talker_undeclare:
  "eff v {p} {} s (msrp_reservation_destroy v p MSRP_DIRECTION_TALKER (upd_stream v (talker_declared_clear p) s))"
  unfolding msrp_reservation_destroy_def upd_sport_def upd_stream_upd
  by (rule eff_upd_stream)
    (simp add: st_frame_def talker_declared_clear_def decl_wf_def mask_defs bit_masks empty_reservation_def)

lemma eff_listener_undeclare:
  "eff v {} {p} s (msrp_reservation_destroy v p MSRP_DIRECTION_LISTENER (upd_stream v (listener_declared_clear p) s))"
  unfolding msrp_reservation_destroy_def upd_sport_def upd_stream_upd
  by (rule eff_upd_stream)
    (simp add: st_frame_def listener_declared_clear_def decl_wf_def mask_defs bit_masks empty_reservation_def)

lemma status_commute:
  "msrp_ipc_talker_declaration_status p v (upd_stream v (talker_declared_clear p) s) =
     ms_ipc_send (TalkerDeclarationStatus (msrp_to_logical_port s p) (fv_stream_id (fv (get_stream s v))) NO_TALKER_DECLARATION (replicate 9 0))
       (upd_stream v (talker_declared_clear p) s)"
  "msrp_ipc_listener_declaration_status p v (upd_stream v (listener_declared_clear p) s) =
     ms_ipc_send (ListenerDeclarationStatus (msrp_to_logical_port s p) (fv_stream_id (fv (get_stream s v))) NO_LISTENER_DECLARATION)
       (upd_stream v (listener_declared_clear p) s)"
  by (simp_all add: msrp_ipc_talker_declaration_status_def msrp_ipc_listener_declaration_status_def Let_def
      talker_declared_clear_def listener_declared_clear_def mask_defs bit_masks)

lemma ipc_upd_stream: "ms_ipc_send m (upd_stream v f s) = upd_stream v f (ms_ipc_send m s)"
  by (simp add: ms_ipc_send_def upd_stream_def get_stream_def)

lemma talker_remove_declaration_eff [simp]: "eff v {p} {} s (talker_remove_declaration v p s)"
proof -
  have "eff v {p} {} s (msrp_reservation_destroy v p MSRP_DIRECTION_TALKER (msrp_ipc_talker_declaration_status p v
      (upd_stream v (talker_declared_clear p) s3)))" if "eff v {p} {} s s3" for s3
    unfolding status_commute ipc_upd_stream
    by (rule eff_then [OF eff_then [OF that eff_ipc_send] eff_talker_undeclare])
  then show ?thesis
    by (simp add: talker_remove_declaration_def Let_def eff_then [OF eff_fdb_update eff_then [OF eff_update_fqtss eff_ms_set_app]]
        eff_then [OF eff_update_fqtss eff_ms_set_app] split: option.split)
qed

lemma reservation_destroy_masks [simp]:
  "talker_declared_state (get_stream (msrp_reservation_destroy v p d s) v) = talker_declared_state (get_stream s v)"
  "listener_declared_state (get_stream (msrp_reservation_destroy v p d s) v) = listener_declared_state (get_stream s v)"
  by (simp_all add: msrp_reservation_destroy_def upd_sport_def)

lemma talker_remove_declaration_off:
  "ub (talker_remove_declaration v p s) \<or> \<not> is_talker_stream_declared (get_stream (talker_remove_declaration v p s) v) p"
  by (simp add: talker_remove_declaration_def Let_def mask_defs talker_declared_clear_def bit_masks split: option.split)

lemma talker_release_eff [simp]: "eff v T L s (talker_release v p s)"
  by (simp add: talker_release_def Let_def eff_then [OF eff_fdb_update eff_update_fqtss] split: option.split)

lemma talker_resources_eff [simp]: "eff v T L s (snd (snd (talker_resources v p val type code s)))"
proof -
  obtain rc s1 where f: "msrp_update_fqtss p v val True s = (rc, s1)" by force
  obtain rc2 s2 where d: "msrp_fdb_update v p (fv_destination_address val) (fv_vlan_identifier val) True s1 = (rc2, s2)" by force
  have 1: "eff v T L s s1" using eff_update_fqtss [of v T L s p val True] f by simp
  have 2: "eff v T L s s2" using eff_then [OF 1] eff_fdb_update [of v T L s1 p] d by (metis snd_conv)
  show ?thesis using f d 1 2
    by (simp add: talker_resources_def Let_def eff_then [OF 1] eff_then [OF 2])
qed

lemma talker_withdraw_eff [simp]: "eff v {p} {} s (snd (snd (talker_withdraw v p t val s)))"
  by (simp add: talker_withdraw_def Let_def eff_then [OF eff_ms_set_app eff_talker_undeclare] split: option.split)

lemma talker_withdraw_res:
  assumes "talker_withdraw v p t val s = (imm, changed, s')" and "\<not> ub s'"
  shows "is_talker_stream_declared (get_stream s' v) p \<longrightarrow> is_talker_stream_declared (get_stream s v) p"
  using assms by (auto simp: talker_withdraw_def Let_def mask_defs talker_declared_clear_def bit_masks split: option.splits if_splits)

lemma eff_talker_declared:
  "eff v {p} {} s (msrp_reservation_create v p MSRP_DIRECTION_TALKER type (upd_stream v (talker_declared_set p)
     (upd_sport v p (\<lambda>sp. sp\<lparr>declared_talker_attribute := Some i\<rparr>) s)))"
  unfolding msrp_reservation_create_def upd_sport_def upd_stream_upd Let_def
  by (rule eff_upd_stream) (simp add: st_frame_def talker_declared_set_def decl_wf_def mask_defs bit_masks)

lemma talker_declare_eff [simp]: "eff v {p} {} s (snd (talker_declare v p t val type imm new s))"
proof -
  have 1: "eff v {p} {} s (upd_sport v p (\<lambda>sp. sp\<lparr>declared_talker_attribute := None\<rparr>) (ms_set_app s p app))"
    if "\<not> is_talker_stream_declared (get_stream s v) p" for app
    using that unfolding upd_sport_def
    by (auto simp: eff_def upd_stream_def get_stream_def ms_set_app_def upd_port_def st_frame_def decl_wf_def mask_defs)
  show ?thesis
    by (auto simp: talker_declare_def Let_def 1 eff_then [OF eff_ms_set_app eff_talker_declared] split: prod.split)
qed

lemma reservation_create_stream [simp]:
  "talker_declared_state (get_stream (msrp_reservation_create v p d type s) v) = talker_declared_state (get_stream s v)"
  "listener_declared_state (get_stream (msrp_reservation_create v p d type s) v) = listener_declared_state (get_stream s v)"
  by (simp_all add: msrp_reservation_create_def upd_sport_def Let_def)

lemma talker_declare_res:
  "p < 16 \<Longrightarrow> is_talker_stream_declared (get_stream (snd (talker_declare v p t val type imm new s)) v) p \<or>
     declared_talker_attribute (stream_port (get_stream (snd (talker_declare v p t val type imm new s)) v) p) = None"
  by (auto simp: talker_declare_def Let_def mask_defs bit_masks talker_declared_set_def upd_sport_def split: prod.split)

lemma talker_update_declaration_eff:
  "eff v {p} {} s (talker_update_declaration v p type code new s)"
  and talker_update_declaration_res:
  "p < 16 \<Longrightarrow> is_talker_stream_declared (get_stream (talker_update_declaration v p type code new s) v) p \<or>
     declared_talker_attribute (stream_port (get_stream (talker_update_declaration v p type code new s) v) p) = None"
proof -
  let ?val = "fv (get_stream s v)"
  obtain ty0 co0 where 0: "(if type = MSRP_TALKER_DECLARATION_TYPE_ADVERTISE \<and> srp_domain_boundary_port (ms_port s p) (sr_class (get_stream s v))
    then (MSRP_TALKER_DECLARATION_TYPE_FAILED, EGRESS_PORT_IS_NOT_AVB_CAPABLE) else (type, code)) = (ty0, co0)" by force
  obtain ty co s1 where 1: "talker_resources v p ?val ty0 co0 s = (ty, co, s1)" by (metis prod_cases3)
  define t where "t = (if ty = MSRP_TALKER_DECLARATION_TYPE_ADVERTISE then MSRP_ATTR_TYPE_TALKER_ADVERTISE else MSRP_ATTR_TYPE_TALKER_FAILED)"
  define val1 where "val1 = (if ty = MSRP_TALKER_DECLARATION_TYPE_FAILED \<and> co \<noteq> 0 then ?val[33 := co] else ?val)"
  obtain imm ch s2 where 2: "talker_withdraw v p t val1 s1 = (imm, ch, s2)" by (metis prod_cases3)
  obtain de s3 where 3: "talker_declare v p t val1 ty imm new s2 = (de, s3)" by force
  have e: "talker_update_declaration v p type code new s =
    (if ch \<or> de then msrp_ipc_talker_declaration_status p v s3 else s3)"
    unfolding talker_update_declaration_def Let_def 0 1 2 3 prod.case t_def [symmetric] val1_def [symmetric] ..
  have "eff v {p} {} s s1" using talker_resources_eff [of v "{p}" "{}" s p ?val ty0 co0] 1 by simp
  moreover have "eff v {p} {} s1 s2" using talker_withdraw_eff [of v p s1 t val1] 2 by simp
  moreover have "eff v {p} {} s2 s3" using talker_declare_eff [of v p s2] 3 by (metis snd_conv)
  ultimately have "eff v {p} {} s s3" using eff_then by blast
  then show "eff v {p} {} s (talker_update_declaration v p type code new s)"
    unfolding e by (simp add: eff_then [OF _ eff_declaration_status(1)])
  show "p < 16 \<Longrightarrow> is_talker_stream_declared (get_stream (talker_update_declaration v p type code new s) v) p \<or>
     declared_talker_attribute (stream_port (get_stream (talker_update_declaration v p type code new s) v) p) = None"
    using talker_declare_res [of p v t val1 ty imm new s2] 3 unfolding e by simp
qed

subsection \<open>Listener declarations\<close>

lemma listener_remove_declaration_eff [simp]: "eff v {} {p} s (listener_remove_declaration v p s)"
proof -
  have "eff v {} {p} s (msrp_reservation_destroy v p MSRP_DIRECTION_LISTENER (msrp_ipc_listener_declaration_status p v
      (upd_stream v (listener_declared_clear p) s3)))" if "eff v {} {p} s s3" for s3
    unfolding status_commute ipc_upd_stream
    by (rule eff_then [OF eff_then [OF that eff_ipc_send] eff_listener_undeclare])
  then show ?thesis
    by (simp add: listener_remove_declaration_def Let_def eff_then [OF eff_vlan(2) eff_ms_set_app]
        eff_then [OF eff_vlan(2) eff_undefined] del: One_nat_def split: option.split)
qed

lemma listener_remove_declaration_off:
  "ub (listener_remove_declaration v p s) \<or> \<not> is_listener_stream_declared (get_stream (listener_remove_declaration v p s) v) p"
  by (simp add: listener_remove_declaration_def Let_def mask_defs listener_declared_clear_def bit_masks split: option.split)

lemma listener_withdraw_eff [simp]: "eff v {} {p} s (snd (snd (listener_withdraw v p type s)))"
  by (simp add: listener_withdraw_def Let_def eff_then [OF eff_ms_set_app eff_listener_undeclare] del: One_nat_def split: option.split)

lemma eff_listener_declared:
  "eff v {} {p} s (msrp_reservation_create v p MSRP_DIRECTION_LISTENER type (upd_stream v (listener_declared_set p)
     (upd_sport v p (\<lambda>sp. sp\<lparr>declared_listener_attribute := Some i\<rparr>) s)))"
  unfolding msrp_reservation_create_def upd_sport_def upd_stream_upd Let_def
  by (rule eff_upd_stream) (simp add: st_frame_def listener_declared_set_def decl_wf_def mask_defs bit_masks)

lemma listener_declare_eff [simp]: "eff v {} {p} s (snd (listener_declare v p type imm new s))"
proof -
  have 1: "eff v {} {p} s (upd_sport v p (\<lambda>sp. sp\<lparr>declared_listener_attribute := None\<rparr>) (ms_set_app s p app))"
    if "\<not> is_listener_stream_declared (get_stream s v) p" for app
    using that unfolding upd_sport_def
    by (auto simp: eff_def upd_stream_def get_stream_def ms_set_app_def upd_port_def st_frame_def decl_wf_def mask_defs)
  show ?thesis
    by (auto simp: listener_declare_def Let_def 1 eff_then [OF eff_ms_set_app eff_listener_declared] simp del: One_nat_def split: prod.split)
qed

lemma listener_declare_res:
  "p < 16 \<Longrightarrow> is_listener_stream_declared (get_stream (snd (listener_declare v p type imm new s)) v) p \<or>
     declared_listener_attribute (stream_port (get_stream (snd (listener_declare v p type imm new s)) v) p) = None"
  by (auto simp: listener_declare_def Let_def mask_defs bit_masks listener_declared_set_def upd_sport_def split: prod.split)

lemma listener_update_declaration_eff:
  "eff v {} {p} s (listener_update_declaration v p new_type new s)"
  and listener_update_declaration_res:
  "p < 16 \<Longrightarrow> is_listener_stream_declared (get_stream (listener_update_declaration v p new_type new s) v) p \<or>
     declared_listener_attribute (stream_port (get_stream (listener_update_declaration v p new_type new s) v) p) = None"
proof -
  let ?st = "get_stream s v"
  define ty where "ty = (if \<not> is_talker_stream_registered ?st p \<or>
     talker_declaration_type (stream_port ?st p) \<noteq> MSRP_TALKER_DECLARATION_TYPE_ADVERTISE
     then MSRP_LISTENER_DECLARATION_TYPE_ASKING_FAILED else new_type)"
  define s1 where "s1 = (if ms_is_bridge s then s
     else if ty = MSRP_LISTENER_DECLARATION_TYPE_ASKING_FAILED then msrp_deregister_vlan p v s else msrp_register_vlan p v s)"
  obtain imm ch s2 where 2: "listener_withdraw v p ty s1 = (imm, ch, s2)" by (metis prod_cases3)
  obtain de s3 where 3: "listener_declare v p ty imm new s2 = (de, s3)" by force
  have e: "listener_update_declaration v p new_type new s =
    (if ch \<or> de then msrp_ipc_listener_declaration_status p v s3 else s3)"
    unfolding listener_update_declaration_def Let_def ty_def [symmetric] s1_def [symmetric] 2 3 prod.case ..
  have "eff v {} {p} s s1" by (simp add: s1_def)
  moreover have "eff v {} {p} s1 s2" using listener_withdraw_eff [of v p s1 ty] 2 by simp
  moreover have "eff v {} {p} s2 s3" using listener_declare_eff [of v p s2] 3 by (metis snd_conv)
  ultimately have "eff v {} {p} s s3" using eff_then by blast
  then show "eff v {} {p} s (listener_update_declaration v p new_type new s)"
    unfolding e by (simp add: eff_then [OF _ eff_declaration_status(2)])
  show "p < 16 \<Longrightarrow> is_listener_stream_declared (get_stream (listener_update_declaration v p new_type new s) v) p \<or>
     declared_listener_attribute (stream_port (get_stream (listener_update_declaration v p new_type new s) v) p) = None"
    using listener_declare_res [of p v ty imm new s2] 3 unfolding e by simp
qed

subsection \<open>The MAP of a stream\<close>

text \<open>
  Where MAP wants a declaration, as a function of the forwarding mask and of what is registered and requested.
  A port is settled when it declares exactly where wanted; MRP may refuse a join request, and the pointer to
  the declared attribute is then null.
\<close>

definition talker_wanted :: "u16 \<Rightarrow> msrp_stream \<Rightarrow> nat \<Rightarrow> bool" where
  "talker_wanted fwd st p \<longleftrightarrow>
     (and (talker_registered_state st) fwd \<noteq> 0 \<or> is_talker_stream_user_declared_any st) \<and>
     \<not> is_talker_stream_registered st p \<and> bit fwd p"

definition listener_wanted :: "u16 \<Rightarrow> msrp_stream \<Rightarrow> nat \<Rightarrow> bool" where
  "listener_wanted fwd st p \<longleftrightarrow>
     (and (listener_registered_state st) fwd \<noteq> 0 \<or> is_listener_stream_user_declared_any st) \<and>
     ((is_talker_stream_registered st p \<and> is_listener_stream_registered_other st p) \<or> is_listener_stream_user_declared st p) \<and>
     bit fwd p"

definition talker_settled :: "u16 \<Rightarrow> msrp_stream \<Rightarrow> nat \<Rightarrow> bool" where
  "talker_settled fwd st p \<longleftrightarrow>
     (is_talker_stream_declared st p \<longrightarrow> talker_wanted fwd st p) \<and>
     (talker_wanted fwd st p \<longrightarrow> is_talker_stream_declared st p \<or> declared_talker_attribute (stream_port st p) = None)"

definition listener_settled :: "u16 \<Rightarrow> msrp_stream \<Rightarrow> nat \<Rightarrow> bool" where
  "listener_settled fwd st p \<longleftrightarrow>
     (is_listener_stream_declared st p \<longrightarrow> listener_wanted fwd st p) \<and>
     (listener_wanted fwd st p \<longrightarrow> is_listener_stream_declared st p \<or> declared_listener_attribute (stream_port st p) = None)"

lemmas any_defs = is_talker_stream_user_declared_any_def is_listener_stream_user_declared_any_def
  is_listener_stream_registered_other_def is_talker_stream_registered_any_forwarding_def
  is_listener_stream_registered_any_forwarding_def is_msrp_port_forwarding_def

lemma wanted_frame:
  assumes "st_frame T L st st'"
  shows "talker_wanted fwd st' p = talker_wanted fwd st p" "listener_wanted fwd st' p = listener_wanted fwd st p"
  using assms by (simp_all add: st_frame_def talker_wanted_def listener_wanted_def mask_defs any_defs)

lemma talker_settled_frame: "st_frame T L st st' \<Longrightarrow> p \<notin> T \<Longrightarrow> talker_settled fwd st' p = talker_settled fwd st p"
  by (simp add: talker_settled_def wanted_frame) (simp add: st_frame_def mask_defs)

lemma listener_settled_frame: "st_frame T L st st' \<Longrightarrow> p \<notin> L \<Longrightarrow> listener_settled fwd st' p = listener_settled fwd st p"
  by (simp add: listener_settled_def wanted_frame) (simp add: st_frame_def mask_defs)

text \<open>A pass over the ports, each step of which acts on its own port.\<close>

lemma fold_ports:
  assumes "\<And>i s. eff v (A i) (B i) s (f i s)"
    and "\<And>i s. i < n \<Longrightarrow> eff v UNIV UNIV s0 s \<Longrightarrow> sheap s v \<noteq> None \<Longrightarrow> ub (f i s) \<or> Q (get_stream (f i s) v) i"
    and "\<And>i j st st'. Q st i \<Longrightarrow> i \<noteq> j \<Longrightarrow> st_frame (A j) (B j) st st' \<Longrightarrow> Q st' i"
    and "sheap s0 v \<noteq> None"
  shows "eff v (\<Union>i<n. A i) (\<Union>i<n. B i) s0 (fold f [0..<n] s0) \<and>
    (ub (fold f [0..<n] s0) \<or> (\<forall>i<n. Q (get_stream (fold f [0..<n] s0) v) i))"
  using assms(2)
proof (induction n)
  case (Suc n)
  let ?s = "fold f [0..<n] s0"
  have IH: "eff v (\<Union>i<n. A i) (\<Union>i<n. B i) s0 ?s" "ub ?s \<or> (\<forall>i<n. Q (get_stream ?s v) i)" using Suc by auto
  have h: "sheap ?s v \<noteq> None" using eff_get [OF IH(1) assms(4)] by simp
  have "eff v UNIV UNIV s0 ?s" by (rule eff_mono [OF IH(1)]) simp_all
  then have q: "ub (f n ?s) \<or> Q (get_stream (f n ?s) v) n" using Suc.prems [of n ?s] h by simp
  have "\<forall>i<n. Q (get_stream (f n ?s) v) i" if "\<forall>i<n. Q (get_stream ?s v) i"
    using that assms(3) [OF _ _ conjunct2 [OF eff_get [OF assms(1) [of n ?s] h]]] by blast
  then have "ub (f n ?s) \<or> (\<forall>i<Suc n. Q (get_stream (f n ?s) v) i)"
    using q IH(2) eff_ub [OF assms(1) [of n ?s]] by (auto simp: less_Suc_eq)
  moreover have "eff v (\<Union>i<Suc n. A i) (\<Union>i<Suc n. B i) s0 (f n ?s)"
    using eff_trans [OF IH(1) assms(1) [of n ?s]] by (simp add: lessThan_Suc Un_commute)
  ultimately show ?case by simp
qed simp

lemma talker_remove_if_declared_eff: "eff v {p} {} s (talker_remove_if_declared v p s)"
  by (simp add: talker_remove_if_declared_def)

lemma talker_remove_if_declared_off:
  "ub (talker_remove_if_declared v p s) \<or> \<not> is_talker_stream_declared (get_stream (talker_remove_if_declared v p s) v) p"
  using talker_remove_declaration_off [of v p s] by (simp add: talker_remove_if_declared_def)

lemma listener_remove_if_declared_eff: "eff v {} {p} s (listener_remove_if_declared v p s)"
  by (simp add: listener_remove_if_declared_def)

lemma listener_remove_if_declared_off:
  "ub (listener_remove_if_declared v p s) \<or> \<not> is_listener_stream_declared (get_stream (listener_remove_if_declared v p s) v) p"
  using listener_remove_declaration_off [of v p s] by (simp add: listener_remove_if_declared_def)

lemma settled_off:
  "\<not> is_talker_stream_declared st p \<Longrightarrow> \<not> talker_wanted fwd st p \<Longrightarrow> talker_settled fwd st p"
  "\<not> is_listener_stream_declared st p \<Longrightarrow> \<not> listener_wanted fwd st p \<Longrightarrow> listener_settled fwd st p"
  by (simp_all add: talker_settled_def listener_settled_def)

lemma eff_wanted:
  assumes "eff v T L s s'" and "sheap s v \<noteq> None"
  shows "talker_wanted fwd (get_stream s' v) p = talker_wanted fwd (get_stream s v) p"
    "listener_wanted fwd (get_stream s' v) p = listener_wanted fwd (get_stream s v) p"
  using wanted_frame [OF conjunct2 [OF eff_get [OF assms]]] by simp_all

end
