(* ===== verification/MSRP_Settle.thy ===== *)
theory MSRP_Settle
  imports MSRP_Frame
begin

section \<open>The MSRP MAP settles every stream\<close>

text \<open>
  After \<open>msrp_map_update_stream\<close> every port of the stream is settled (\<open>talker_settled\<close>, \<open>listener_settled\<close>), or the stream has no
  registration, declaration or request left and is freed; the other streams are untouched. \<open>msrp_map_update\<close>
  does so for every stream. \<open>msrp_ok\<close> is the invariant of MSRP, \<open>msrp_nearly\<close> is what is left of it while some
  streams wait for their MAP update.
\<close>

lemma map_update_talker_stream_ok:
  fixes new :: bool
  assumes "sheap s v \<noteq> None" and "ms_port_max s \<le> 16"
  defines "s' \<equiv> msrp_map_update_talker_stream v new s"
  shows "eff v {..<ms_port_max s} {} s s'"
    and "ub s' \<or> (\<forall>i<ms_port_max s. talker_settled (map_forwarding_state s) (get_stream s' v) i)"
proof -
  let ?n = "ms_port_max s" and ?fwd = "map_forwarding_state s" and ?st = "get_stream s v"
  have U: "(\<Union>i<?n. {i}) = {..<?n}" by auto
  have "eff v {..<?n} {} s s' \<and> (ub s' \<or> (\<forall>i<?n. talker_settled ?fwd (get_stream s' v) i))"
  proof (cases "\<not> is_talker_stream_registered_any_forwarding s ?st \<and> \<not> is_talker_stream_user_declared_any ?st")
    case True
    have post: "ub (talker_remove_if_declared v i s1) \<or> talker_settled ?fwd (get_stream (talker_remove_if_declared v i s1) v) i"
      if e: "eff v UNIV UNIV s s1" for i s1
    proof -
      have "eff v UNIV UNIV s (talker_remove_if_declared v i s1)"
        by (rule eff_then [OF e eff_mono [OF talker_remove_if_declared_eff]]) simp_all
      from eff_wanted(1) [OF this assms(1)] have "\<not> talker_wanted ?fwd (get_stream (talker_remove_if_declared v i s1) v) i"
        using True by (simp add: talker_wanted_def any_defs)
      then show ?thesis using talker_remove_if_declared_off [of v i s1] settled_off(1) by blast
    qed
    have "s' = fold (talker_remove_if_declared v) [0..<?n] s"
      using True by (simp add: s'_def msrp_map_update_talker_stream_def)
    with fold_ports [of v "\<lambda>i. {i}" "\<lambda>_. {}" "talker_remove_if_declared v" ?n s "talker_settled ?fwd"]
      talker_remove_if_declared_eff post talker_settled_frame assms(1) U show ?thesis by simp
  next
    case False
    obtain type code where tc: "map_talker_declaration_type ?st ?n = (type, code)" by force
    let ?f = "map_update_talker_port v type code new"
    have ef: "eff v {i} {} s (?f i s)" for i s
      by (simp add: map_update_talker_port_def talker_update_declaration_eff talker_remove_if_declared_eff)
    have post: "ub (?f i s1) \<or> talker_settled ?fwd (get_stream (?f i s1) v) i"
      if i: "i < ?n" and e: "eff v UNIV UNIV s s1" for i s1
    proof -
      have e1: "eff v UNIV UNIV s (?f i s1)" by (rule eff_then [OF e eff_mono [OF ef]]) simp_all
      have r: "is_talker_stream_registered (get_stream s1 v) i = is_talker_stream_registered ?st i"
        "is_msrp_port_forwarding s1 i = bit ?fwd i"
        using conjunct2 [OF eff_get [OF e assms(1)]] e by (simp_all add: st_frame_def mask_defs any_defs eff_def)
      have w: "talker_wanted ?fwd (get_stream (?f i s1) v) i = (\<not> is_talker_stream_registered ?st i \<and> bit ?fwd i)"
        unfolding eff_wanted(1) [OF e1 assms(1)] using False by (simp add: talker_wanted_def any_defs)
      show ?thesis
      proof (cases "\<not> is_talker_stream_registered ?st i \<and> bit ?fwd i")
        case True
        then show ?thesis using w r talker_update_declaration_res [of i v type code new s1] i assms(2)
          by (simp add: talker_settled_def map_update_talker_port_def)
      next
        case False
        then have "?f i s1 = talker_remove_if_declared v i s1" using r by (auto simp: map_update_talker_port_def)
        with False w talker_remove_if_declared_off [of v i s1] settled_off(1) show ?thesis by auto
      qed
    qed
    have "s' = fold ?f [0..<?n] s"
      using False tc by (auto simp: s'_def msrp_map_update_talker_stream_def Let_def)
    with fold_ports [of v "\<lambda>i. {i}" "\<lambda>_. {}" ?f ?n s "talker_settled ?fwd"]
      ef post talker_settled_frame assms(1) U show ?thesis by simp
  qed
  then show "eff v {..<?n} {} s s'" "ub s' \<or> (\<forall>i<?n. talker_settled ?fwd (get_stream s' v) i)" by simp_all
qed

lemma map_update_listener_stream_ok:
  fixes new :: bool
  assumes "sheap s v \<noteq> None" and "ms_port_max s \<le> 16"
  defines "s' \<equiv> msrp_map_update_listener_stream v new s"
  shows "eff v {} {..<ms_port_max s} s s'"
    and "ub s' \<or> (\<forall>i<ms_port_max s. listener_settled (map_forwarding_state s) (get_stream s' v) i)"
proof -
  let ?n = "ms_port_max s" and ?fwd = "map_forwarding_state s" and ?st = "get_stream s v"
  have U: "(\<Union>i<?n. {i}) = {..<?n}" by auto
  have "eff v {} {..<?n} s s' \<and> (ub s' \<or> (\<forall>i<?n. listener_settled ?fwd (get_stream s' v) i))"
  proof (cases "\<not> is_listener_stream_registered_any_forwarding s ?st \<and> \<not> is_listener_stream_user_declared_any ?st")
    case True
    have post: "ub (listener_remove_if_declared v i s1) \<or> listener_settled ?fwd (get_stream (listener_remove_if_declared v i s1) v) i"
      if e: "eff v UNIV UNIV s s1" for i s1
    proof -
      have "eff v UNIV UNIV s (listener_remove_if_declared v i s1)"
        by (rule eff_then [OF e eff_mono [OF listener_remove_if_declared_eff]]) simp_all
      from eff_wanted(2) [OF this assms(1)] have "\<not> listener_wanted ?fwd (get_stream (listener_remove_if_declared v i s1) v) i"
        using True by (simp add: listener_wanted_def any_defs)
      then show ?thesis using listener_remove_if_declared_off [of v i s1] settled_off(2) by blast
    qed
    have "s' = fold (listener_remove_if_declared v) [0..<?n] s"
      using True by (simp add: s'_def msrp_map_update_listener_stream_def)
    with fold_ports [of v "\<lambda>_. {}" "\<lambda>i. {i}" "listener_remove_if_declared v" ?n s "listener_settled ?fwd"]
      listener_remove_if_declared_eff post listener_settled_frame assms(1) U show ?thesis by simp
  next
    case False
    let ?f = "map_update_listener_port v new"
    have ef: "eff v {} {i} s (?f i s)" for i s
      by (simp add: map_update_listener_port_def Let_def listener_update_declaration_eff listener_remove_if_declared_eff)
    have post: "ub (?f i s1) \<or> listener_settled ?fwd (get_stream (?f i s1) v) i"
      if i: "i < ?n" and e: "eff v UNIV UNIV s s1" for i s1
    proof -
      have e1: "eff v UNIV UNIV s (?f i s1)" by (rule eff_then [OF e eff_mono [OF ef]]) simp_all
      let ?c = "\<lambda>st. (is_talker_stream_registered st i \<and> is_listener_stream_registered_other st i) \<or> is_listener_stream_user_declared st i"
      have r: "?c (get_stream s1 v) = ?c ?st" "is_msrp_port_forwarding s1 i = bit ?fwd i"
        using conjunct2 [OF eff_get [OF e assms(1)]] e by (simp_all add: st_frame_def mask_defs any_defs eff_def)
      have w: "listener_wanted ?fwd (get_stream (?f i s1) v) i = (?c ?st \<and> bit ?fwd i)"
        unfolding eff_wanted(2) [OF e1 assms(1)] using False by (simp add: listener_wanted_def any_defs)
      show ?thesis
      proof (cases "?c ?st \<and> bit ?fwd i")
        case True
        then show ?thesis using w r listener_update_declaration_res [of i v _ new s1] i assms(2)
          by (simp add: listener_settled_def map_update_listener_port_def Let_def)
      next
        case False
        then have "?f i s1 = listener_remove_if_declared v i s1"
          unfolding map_update_listener_port_def Let_def r by (simp only: if_False)
        with False w listener_remove_if_declared_off [of v i s1] settled_off(2) show ?thesis by auto
      qed
    qed
    have "s' = fold ?f [0..<?n] s"
      using False by (auto simp: s'_def msrp_map_update_listener_stream_def Let_def)
    with fold_ports [of v "\<lambda>_. {}" "\<lambda>i. {i}" ?f ?n s "listener_settled ?fwd"]
      ef post listener_settled_frame assms(1) U show ?thesis by simp
  qed
  then show "eff v {} {..<?n} s s'" "ub s' \<or> (\<forall>i<?n. listener_settled ?fwd (get_stream s' v) i)" by simp_all
qed

subsection \<open>The invariant\<close>

definition reg_wf :: "msrp_stream \<Rightarrow> nat \<Rightarrow> bool" where
  "reg_wf st p \<longleftrightarrow>
     (is_talker_stream_registered st p \<longrightarrow> talker_declaration_type (stream_port st p) \<in>
        {MSRP_TALKER_DECLARATION_TYPE_ADVERTISE, MSRP_TALKER_DECLARATION_TYPE_FAILED}) \<and>
     (is_listener_stream_registered st p \<longrightarrow> listener_declaration_type (stream_port st p) \<in>
        {MSRP_LISTENER_DECLARATION_TYPE_ASKING_FAILED, MSRP_LISTENER_DECLARATION_TYPE_READY,
         MSRP_LISTENER_DECLARATION_TYPE_READY_FAILED})"

definition masks_within :: "nat \<Rightarrow> msrp_stream \<Rightarrow> bool" where
  "masks_within n st \<longleftrightarrow>
     (\<forall>p. n \<le> p \<longrightarrow> \<not> is_talker_stream_registered st p \<and> \<not> is_listener_stream_registered st p \<and>
        \<not> is_talker_stream_declared st p \<and> \<not> is_listener_stream_declared st p \<and>
        \<not> is_talker_stream_user_declared st p \<and> \<not> is_listener_stream_user_declared st p)"

definition stream_wf :: "nat \<Rightarrow> msrp_stream \<Rightarrow> bool" where
  "stream_wf n st \<longleftrightarrow> masks_within n st \<and> (\<forall>p<n. decl_wf st p \<and> reg_wf st p)"

definition stream_settled :: "nat \<Rightarrow> u16 \<Rightarrow> msrp_stream \<Rightarrow> bool" where
  "stream_settled n fwd st \<longleftrightarrow> (\<forall>p<n. talker_settled fwd st p \<and> listener_settled fwd st p) \<and> \<not> stream_unused st"

definition heap_ok :: "msrp_ctx \<Rightarrow> bool" where
  "heap_ok s \<longleftrightarrow> distinct (streams s) \<and> set (streams s) = dom (sheap s) \<and> (\<forall>v \<in> dom (sheap s). v < next_stream s) \<and>
     num_streams s = of_nat (length (streams s)) \<and> length (streams s) \<le> unat CFG_MSRP_MAX_STREAMS"

definition msrp_nearly :: "nat \<Rightarrow> nat set \<Rightarrow> msrp_ctx \<Rightarrow> bool" where
  "msrp_nearly n W s \<longleftrightarrow> n \<le> 16 \<and> ms_port_max s = n \<and> heap_ok s \<and>
     (\<forall>v st. sheap s v = Some st \<longrightarrow> stream_wf n st \<and> (v \<notin> W \<longrightarrow> stream_settled n (map_forwarding_state s) st))"

definition msrp_ok :: "nat \<Rightarrow> msrp_ctx \<Rightarrow> bool" where
  "msrp_ok n s \<longleftrightarrow> msrp_nearly n {} s"

definition msrp_safe :: "nat \<Rightarrow> nat set \<Rightarrow> msrp_ctx \<Rightarrow> bool" where
  "msrp_safe n W s \<longleftrightarrow> ub s \<or> msrp_nearly n W s"

lemma nearly_mono: "msrp_nearly n W s \<Longrightarrow> W \<subseteq> W' \<Longrightarrow> msrp_nearly n W' s"
  unfolding msrp_nearly_def by blast

lemma stream_wf_frame: "stream_wf n st \<Longrightarrow> st_frame T L st st' \<Longrightarrow> T \<union> L \<subseteq> {..<n} \<Longrightarrow> n \<le> 16 \<Longrightarrow> stream_wf n st'"
proof -
  assume wf: "stream_wf n st" and fr: "st_frame T L st st'" and TL: "T \<union> L \<subseteq> {..<n}" and n: "n \<le> 16"
  have "decl_wf st' p" if "p < n" for p using wf fr that n by (simp add: stream_wf_def st_frame_def)
  moreover have "reg_wf st' p" if "p < n" for p using wf fr that by (simp add: stream_wf_def st_frame_def reg_wf_def mask_defs)
  moreover have "masks_within n st'"
  proof -
    have "p \<notin> T \<and> p \<notin> L" if "n \<le> p" for p using TL that by auto
    then show ?thesis using wf fr by (simp add: stream_wf_def st_frame_def masks_within_def mask_defs)
  qed
  ultimately show ?thesis by (simp add: stream_wf_def)
qed

lemma nearly_eff:
  assumes "msrp_nearly n W s" and "eff v T L s s'" and "T \<union> L \<subseteq> {..<n}" and "v \<in> W" and "sheap s v \<noteq> None"
  shows "msrp_nearly n W s'"
proof -
  have "stream_wf n st' \<and> (w \<notin> W \<longrightarrow> stream_settled n (map_forwarding_state s') st')" if "sheap s' w = Some st'" for w st'
  proof (cases "w = v")
    case True
    obtain st where st: "sheap s v = Some st" using assms(5) by auto
    then have "st_frame T L st st'" using assms(2) that True unfolding eff_def by auto
    moreover have "stream_wf n st" using assms(1) st by (auto simp: msrp_nearly_def)
    ultimately show ?thesis using stream_wf_frame assms(1,3,4) True by (auto simp: msrp_nearly_def)
  next
    case False
    then show ?thesis using assms(1,2) that by (auto simp: msrp_nearly_def eff_def)
  qed
  moreover have "dom (sheap s') = dom (sheap s)"
  proof -
    have "sheap s' w = None \<longleftrightarrow> sheap s w = None" for w
      using assms(2,5) by (cases "w = v") (auto simp: eff_def)
    then show ?thesis by (auto simp: dom_def)
  qed
  ultimately show ?thesis using assms(1,2) by (auto simp: msrp_nearly_def heap_ok_def eff_def)
qed

lemma nearly_upd_stream:
  assumes "msrp_nearly n W s" and "sheap s v \<noteq> None" and "v \<in> W" and "\<And>st. stream_wf n st \<Longrightarrow> stream_wf n (f st)"
  shows "msrp_nearly n W (upd_stream v f s)"
proof -
  have "dom (sheap (upd_stream v f s)) = dom (sheap s)" using assms(2) by (auto simp: upd_stream_def)
  then show ?thesis using assms by (auto simp: msrp_nearly_def heap_ok_def upd_stream_def get_stream_def)
qed

text \<open>Streams are created and freed within the bound of the table.\<close>

lemma stream_free_nearly:
  assumes "msrp_nearly n W s" and "sheap s v \<noteq> None"
  shows "msrp_nearly n (W - {v}) (msrp_stream_free v s)"
proof -
  let ?s = "msrp_stream_free v s"
  have h: "heap_ok s" using assms(1) by (simp add: msrp_nearly_def)
  have m: "v \<in> set (streams s)" using h assms(2) by (auto simp: heap_ok_def)
  then have l: "length (streams s) = Suc (length (remove1 v (streams s)))" using length_remove1 [of v "streams s"] length_pos_if_in_set [OF m] by simp
  have "num_streams ?s = of_nat (length (streams ?s))"
    using h l by (simp add: heap_ok_def msrp_stream_free_def Let_def)
  moreover have "set (streams ?s) = dom (sheap ?s)" "distinct (streams ?s)"
    using h by (auto simp: heap_ok_def msrp_stream_free_def Let_def)
  ultimately have "heap_ok ?s" using h l by (auto simp: heap_ok_def msrp_stream_free_def Let_def)
  then show ?thesis using assms(1) by (auto simp: msrp_nearly_def msrp_stream_free_def Let_def split: if_splits)
qed

lemma nearly_settle:
  assumes "msrp_nearly n (insert v W) s" and "sheap s v \<noteq> None" and "stream_settled n (map_forwarding_state s) (get_stream s v)"
  shows "msrp_nearly n (W - {v}) s"
proof -
  have "stream_settled n (map_forwarding_state s) st" if "sheap s w = Some st" "w \<notin> W - {v}" for w st
    using assms that by (cases "w = v") (auto simp: msrp_nearly_def get_stream_def)
  then show ?thesis using assms(1) by (simp add: msrp_nearly_def)
qed

lemma map_update_stream_nearly:
  fixes new :: bool
  assumes "msrp_nearly n W s" and "sheap s v \<noteq> None"
  defines "s' \<equiv> msrp_map_update_stream v new s"
  shows "ub s' \<or> msrp_nearly n (W - {v}) s'"
    and "(\<forall>w. w \<noteq> v \<longrightarrow> sheap s' w = sheap s w) \<and> map_forwarding_state s' = map_forwarding_state s \<and> (ub s \<longrightarrow> ub s')"
proof -
  let ?fwd = "map_forwarding_state s"
  have n: "ms_port_max s = n" "n \<le> 16" using assms(1) by (simp_all add: msrp_nearly_def)
  define s1 where "s1 = msrp_map_update_talker_stream v new s"
  define s2 where "s2 = msrp_map_update_listener_stream v new s1"
  note t = map_update_talker_stream_ok [of s v new, OF assms(2), folded s1_def, unfolded n, OF n(2)]
  have h1: "sheap s1 v \<noteq> None" and n1: "ms_port_max s1 = n" and f1: "map_forwarding_state s1 = ?fwd"
    using eff_get [OF t(1) assms(2)] t(1) n by (simp_all add: eff_def)
  note l = map_update_listener_stream_ok [of s1 v new, OF h1, folded s2_def, unfolded n1 f1, OF n(2)]
  have e: "eff v {..<n} {..<n} s s2" using eff_trans [OF t(1) l(1)] by simp
  have h2: "sheap s2 v \<noteq> None" using eff_get [OF e assms(2)] by simp
  have "msrp_nearly n (insert v W) s" by (rule nearly_mono [OF assms(1)]) auto
  then have near: "msrp_nearly n (insert v W) s2" by (rule nearly_eff [OF _ e]) (use assms(2) in simp_all)
  have set: "ub s2 \<or> (\<forall>i<n. talker_settled ?fwd (get_stream s2 v) i \<and> listener_settled ?fwd (get_stream s2 v) i)"
    using t(2) l(2) eff_ub [OF l(1)] talker_settled_frame [OF conjunct2 [OF eff_get [OF l(1) h1]], of _ ?fwd] by auto
  have s': "s' = (if stream_unused (get_stream s2 v) then msrp_stream_free v s2 else s2)"
    by (simp add: s'_def msrp_map_update_stream_def Let_def s1_def s2_def)
  show "(\<forall>w. w \<noteq> v \<longrightarrow> sheap s' w = sheap s w) \<and> map_forwarding_state s' = ?fwd \<and> (ub s \<longrightarrow> ub s')"
    using e by (simp add: s' eff_def msrp_stream_free_def Let_def)
  show "ub s' \<or> msrp_nearly n (W - {v}) s'"
  proof (cases "ub s2")
    case True
    then show ?thesis by (simp add: s' msrp_stream_free_def Let_def)
  next
    case False
    show ?thesis
    proof (cases "stream_unused (get_stream s2 v)")
      case True
      then show ?thesis using stream_free_nearly [OF near h2] by (simp add: s')
    next
      case used: False
      have "map_forwarding_state s2 = ?fwd" using e by (simp add: eff_def)
      then have "stream_settled n (map_forwarding_state s2) (get_stream s2 v)" using set False used by (simp add: stream_settled_def)
      then have "msrp_nearly n (W - {v}) s2" by (rule nearly_settle [OF near h2])
      then show ?thesis using used by (simp add: s')
    qed
  qed
qed

end
