(* ===== verification/MSRP_Inv.thy ===== *)
theory MSRP_Inv
  imports MSRP_Settle
begin

section \<open>The invariant of MSRP through its operations\<close>

text \<open>
  Every indication, request and port event keeps \<open>msrp_safe\<close>: as long as the code does nothing undefined, the invariant \<open>msrp_ok\<close>
  holds between two operations. \<open>sticky\<close> collects that undefined behaviour, once reached, is remembered.
\<close>

named_theorems sticky \<open>undefined behaviour is remembered\<close>

subsection \<open>Undefined behaviour is remembered\<close>

lemma fold_sticky:
  assumes "\<And>x s. x \<in> set xs \<Longrightarrow> ub s \<Longrightarrow> ub (f x s)" and "ub s"
  shows "ub (fold f xs s)"
  using assms by (induction xs arbitrary: s) simp_all

lemma ub_upd_stream [simp]: "ub (upd_stream v f s) = ub s"
  by (simp add: upd_stream_def)

lemma ub_upd_sport [simp]: "ub (upd_sport v p f s) = ub s"
  by (simp add: upd_sport_def)

lemma ub_set_app [simp]: "ub (ms_set_app s p app) = ub s"
  by (simp add: ms_set_app_def upd_port_def)

lemma ub_upd_port [simp]: "ub (upd_port p f s) = ub s"
  by (simp add: upd_port_def)

lemma ub_ipc [simp]: "ub (ms_ipc_send m s) = ub s"
  by (simp add: ms_ipc_send_def)

lemma sticky_map [sticky]:
  "ub s \<Longrightarrow> ub (talker_remove_if_declared v p s)" "ub s \<Longrightarrow> ub (listener_remove_if_declared v p s)"
  "ub s \<Longrightarrow> ub (map_update_talker_port v type code new p s)" "ub s \<Longrightarrow> ub (map_update_listener_port v new p s)"
  using eff_ub [OF talker_remove_if_declared_eff] eff_ub [OF listener_remove_if_declared_eff]
    eff_ub [OF talker_update_declaration_eff] eff_ub [OF listener_update_declaration_eff]
  by (simp_all add: map_update_talker_port_def map_update_listener_port_def Let_def)

lemma sticky_map_update [sticky]:
  "ub s \<Longrightarrow> ub (msrp_map_update_stream v new s)"
  by (auto simp: msrp_map_update_stream_def Let_def msrp_stream_free_def msrp_map_update_talker_stream_def
      msrp_map_update_listener_stream_def intro!: fold_sticky sticky split: prod.split)

lemma sticky_map_update_all [sticky]: "ub s \<Longrightarrow> ub (msrp_map_update s)"
  by (simp add: msrp_map_update_def fold_sticky sticky)

lemma sticky_vlan [sticky]: "ub s \<Longrightarrow> ub (msrp_register_vlan p v s)" "ub s \<Longrightarrow> ub (msrp_deregister_vlan p v s)"
  using eff_ub [OF eff_vlan(1)] eff_ub [OF eff_vlan(2)] by blast+

lemma sticky_status [sticky]:
  "ub s \<Longrightarrow> ub (msrp_ipc_listener_status p v s)" "ub s \<Longrightarrow> ub (msrp_ipc_talker_status p v s)"
  by (simp_all add: msrp_ipc_listener_status_def msrp_ipc_talker_status_def Let_def)

lemmas indication_defs = msrp_register_attach_indication_def msrp_deregister_attach_indication_def
  msrp_register_stream_indication_def msrp_deregister_stream_indication_def

lemma sticky_merge [sticky]:
  "ub s \<Longrightarrow> ub (msrp_listener_registration_merge p v s)" "ub s \<Longrightarrow> ub (msrp_talker_registration_merge p v a s)"
  by (auto simp: msrp_listener_registration_merge_def msrp_talker_registration_merge_def Let_def indication_defs
      intro!: sticky split: option.split)

lemma sticky_create [sticky]: "ub s \<Longrightarrow> ub (snd (msrp_create_stream sid s))"
  by (simp add: msrp_create_stream_def Let_def split: option.split)

lemma sticky_create' [sticky]: "msrp_create_stream sid s = (r, s') \<Longrightarrow> ub s \<Longrightarrow> ub s'"
  using sticky_create [of s sid] by simp

subsection \<open>Updates of all the streams\<close>

lemma safe_map_update_stream:
  "msrp_safe n W s \<Longrightarrow> ub s \<or> sheap s v \<noteq> None \<Longrightarrow> msrp_safe n (W - {v}) (msrp_map_update_stream v new s)"
  using map_update_stream_nearly(1) [of n W s v new] sticky by (auto simp: msrp_safe_def)

lemma fold_map_update:
  assumes "msrp_safe n W s" and "distinct vs" and "ub s \<or> set vs \<subseteq> dom (sheap s)"
  shows "msrp_safe n (W - set vs) (fold (\<lambda>v. msrp_map_update_stream v False) vs s)"
  using assms
proof (induction vs arbitrary: W s)
  case (Cons v vs)
  let ?s = "msrp_map_update_stream v False s"
  have "msrp_safe n (W - {v}) ?s" using safe_map_update_stream Cons.prems by auto
  moreover have "ub ?s \<or> set vs \<subseteq> dom (sheap ?s)"
  proof (cases "ub s")
    case False
    then have "msrp_nearly n W s" "sheap s v \<noteq> None" using Cons.prems by (auto simp: msrp_safe_def)
    from map_update_stream_nearly(2) [OF this, of False] have "\<forall>w. w \<noteq> v \<longrightarrow> sheap ?s w = sheap s w" by simp
    then have "\<forall>w \<in> set vs. sheap ?s w = sheap s w" using Cons.prems(2) by auto
    then show ?thesis using Cons.prems(3) False by (auto simp: subset_iff domIff)
  qed (simp add: sticky)
  ultimately have "msrp_safe n ((W - {v}) - set vs) (fold (\<lambda>v. msrp_map_update_stream v False) vs ?s)"
    using Cons.IH Cons.prems(2) by simp
  moreover have "(W - {v}) - set vs = W - set (v # vs)" by auto
  ultimately show ?case by simp
qed simp

lemma safe_map_update: "msrp_safe n W s \<Longrightarrow> msrp_safe n {} (msrp_map_update s)"
proof -
  assume s: "msrp_safe n W s"
  have "msrp_safe n (dom (sheap s)) s" if "msrp_nearly n W s"
    using that unfolding msrp_safe_def msrp_nearly_def by auto
  then have "msrp_safe n (set (streams s)) s" using s by (auto simp: msrp_safe_def msrp_nearly_def heap_ok_def)
  moreover have "ub s \<or> distinct (streams s) \<and> set (streams s) \<subseteq> dom (sheap s)"
    using s by (auto simp: msrp_safe_def msrp_nearly_def heap_ok_def)
  ultimately show ?thesis
    using fold_map_update [of n "set (streams s)" s "streams s"] sticky
    by (auto simp: msrp_map_update_def msrp_safe_def fold_sticky)
qed

subsection \<open>Work on one stream\<close>

text \<open>\<open>live n v s\<close>: the stream \<open>v\<close> exists and is the only one that may wait for its MAP update.\<close>

definition live :: "nat \<Rightarrow> nat \<Rightarrow> msrp_ctx \<Rightarrow> bool" where
  "live n v s \<longleftrightarrow> ub s \<or> msrp_nearly n {v} s \<and> sheap s v \<noteq> None"

lemma live_ub: "ub s \<Longrightarrow> live n v s"
  by (simp add: live_def)

lemma live_eff:
  assumes "live n v s" and "eff v T L s s'" and "T \<union> L \<subseteq> {..<n}"
  shows "live n v s'"
  using assms nearly_eff [of n "{v}" s v T L s'] eff_get [OF assms(2)] eff_ub [OF assms(2)] by (auto simp: live_def)

lemma live_eff0: "live n v s \<Longrightarrow> eff v {} {} s s' \<Longrightarrow> live n v s'"
  using live_eff [of n v s "{}" "{}" s'] by simp

lemma live_upd_stream:
  assumes "live n v s" and "\<And>st. stream_wf n st \<Longrightarrow> n \<le> 16 \<Longrightarrow> stream_wf n (f st)"
  shows "live n v (upd_stream v f s)"
proof (cases "ub s")
  case False
  then have s: "msrp_nearly n {v} s" "sheap s v \<noteq> None" using assms(1) by (simp_all add: live_def)
  then have "n \<le> 16" by (simp add: msrp_nearly_def)
  then have "msrp_nearly n {v} (upd_stream v f s)" using nearly_upd_stream [OF s] assms(2) by simp
  then show ?thesis using s(2) by (simp add: live_def upd_stream_def)
qed (simp add: live_def)

lemma live_map_update: "live n v s \<Longrightarrow> msrp_safe n {} (msrp_map_update_stream v new s)"
  using safe_map_update_stream [of n "{v}" s v new] by (auto simp: live_def msrp_safe_def)

lemma live_of_safe: "msrp_safe n {} s \<Longrightarrow> ub s \<or> sheap s v \<noteq> None \<Longrightarrow> live n v s"
  using nearly_mono [of n "{}" s "{v}"] by (auto simp: live_def msrp_safe_def)

lemma nearly_other:
  assumes "streams s' = streams s" "num_streams s' = num_streams s" "next_stream s' = next_stream s"
    "map_forwarding_state s' = map_forwarding_state s" "ms_port_max s' = ms_port_max s" "sheap s' = sheap s"
  shows "msrp_nearly n W s' = msrp_nearly n W s"
  using assms by (simp add: msrp_nearly_def heap_ok_def)

lemma nearly_simps [simp]:
  "msrp_nearly n W (ms_ipc_send m s) = msrp_nearly n W s" "msrp_nearly n W (ms_set_app s p app) = msrp_nearly n W s"
  "msrp_nearly n W (upd_port p f s) = msrp_nearly n W s" "msrp_nearly n W (undefined_behaviour s) = msrp_nearly n W s"
  by (rule nearly_other; simp add: ms_ipc_send_def ms_set_app_def upd_port_def undefined_behaviour_def)+

lemma safe_simps [simp]:
  "msrp_safe n W (ms_ipc_send m s) = msrp_safe n W s" "msrp_safe n W (ms_set_app s p app) = msrp_safe n W s"
  "msrp_safe n W (upd_port p f s) = msrp_safe n W s" "msrp_safe n W (undefined_behaviour s)"
  by (simp_all add: msrp_safe_def)

lemma safe_other:
  assumes "streams s' = streams s" "num_streams s' = num_streams s" "next_stream s' = next_stream s"
    "map_forwarding_state s' = map_forwarding_state s" "ms_port_max s' = ms_port_max s" "sheap s' = sheap s" "ub s' = ub s"
  shows "msrp_safe n W s' = msrp_safe n W s"
  using nearly_other [OF assms(1-6)] assms(7) by (simp add: msrp_safe_def)

text \<open>Stream creation.\<close>

lemma empty_stream_wf: "stream_wf n (empty_stream sid)"
  by (simp add: stream_wf_def masks_within_def decl_wf_def reg_wf_def mask_defs empty_stream_def empty_stream_port_def empty_reservation_def)

lemma create_stream_nearly:
  assumes "msrp_nearly n W s" and "msrp_create_stream sid s = (Some v, s')"
  shows "msrp_nearly n (insert v W) s'" "sheap s' v \<noteq> None"
proof -
  have h: "heap_ok s" using assms(1) by (simp add: msrp_nearly_def)
  have "msrp_nearly n (insert v W) s' \<and> sheap s' v \<noteq> None"
  proof (cases "msrp_find_stream s sid")
    case (Some w)
    then have "w \<in> set (streams s)" by (auto simp: msrp_find_stream_def find_Some_iff)
    moreover have "v = w" "s' = s" using assms(2) Some by (auto simp: msrp_create_stream_def split: if_splits)
    ultimately show ?thesis using h nearly_mono [OF assms(1), of "insert v W"] by (auto simp: heap_ok_def)
  next
    case None
    have l: "num_streams s < CFG_MSRP_MAX_STREAMS" and v: "v = next_stream s"
      and s': "s' = s\<lparr>n_stream_malloc := n_stream_malloc s + 1, sheap := (sheap s)(v \<mapsto> empty_stream sid), next_stream := v + 1,
        streams := v # streams s, num_streams := num_streams s + 1\<rparr>"
      using assms(2) None by (auto simp: msrp_create_stream_def Let_def split: if_splits)
    have new: "v \<notin> dom (sheap s)" using h v by (auto simp: heap_ok_def)
    have "length (streams s) < 150"
    proof -
      have "length (streams s) \<le> 150" "num_streams s = of_nat (length (streams s))" using h by (simp_all add: heap_ok_def)
      then have "unat (num_streams s) = length (streams s)" by (simp add: unat_of_nat)
      then show ?thesis using l by (simp add: word_less_nat_alt)
    qed
    then have "length (streams s') \<le> unat CFG_MSRP_MAX_STREAMS" "num_streams s' = of_nat (length (streams s'))"
      using h by (simp_all add: s' heap_ok_def)
    moreover have "distinct (streams s')" "set (streams s') = dom (sheap s')" using h new by (simp_all add: s' heap_ok_def)
    moreover have "\<forall>w \<in> dom (sheap s'). w < next_stream s'" using h by (auto simp: s' heap_ok_def v less_Suc_eq)
    ultimately have "heap_ok s'" unfolding heap_ok_def by blast
    moreover have "stream_wf n st \<and> (w \<notin> insert v W \<longrightarrow> stream_settled n (map_forwarding_state s') st)" if "sheap s' w = Some st" for w st
      using assms(1) that empty_stream_wf [of n sid] by (cases "w = v") (auto simp: s' msrp_nearly_def)
    moreover have "n \<le> 16" "ms_port_max s' = n" using assms(1) by (simp_all add: s' msrp_nearly_def)
    ultimately show ?thesis by (simp add: msrp_nearly_def) (simp add: s')
  qed
  then show "msrp_nearly n (insert v W) s'" "sheap s' v \<noteq> None" by simp_all
qed

lemma create_stream_none: "msrp_create_stream sid s = (None, s') \<Longrightarrow> msrp_safe n W s \<Longrightarrow> msrp_safe n W s'"
proof -
  assume "msrp_create_stream sid s = (None, s')" and s: "msrp_safe n W s"
  then have "s' = s \<or> s' = s\<lparr>n_stream_malloc := n_stream_malloc s + 1\<rparr>"
    by (auto simp: msrp_create_stream_def Let_def split: if_splits option.splits)
  moreover have "msrp_safe n W (s\<lparr>n_stream_malloc := k\<rparr>) = msrp_safe n W s" for k by (rule safe_other) simp_all
  ultimately show ?thesis using s by auto
qed

lemma create_stream_live: "msrp_create_stream sid s = (Some v, s') \<Longrightarrow> msrp_safe n {} s \<Longrightarrow> live n v s'"
  using create_stream_nearly [of n "{}" s sid v s'] sticky_create' [of sid s "Some v" s'] by (auto simp: live_def msrp_safe_def)

lemma find_stream_live: "msrp_find_stream s sid = Some v \<Longrightarrow> msrp_safe n {} s \<Longrightarrow> live n v s"
  by (rule live_of_safe) (auto simp: msrp_find_stream_def find_Some_iff msrp_safe_def msrp_nearly_def heap_ok_def)

subsection \<open>Registrations\<close>

lemma eff_upd_sport:
  assumes "\<And>sp. listener_declaration_type (f sp) = listener_declaration_type sp \<and> talker_declaration_type (f sp) = talker_declaration_type sp \<and>
    declared_talker_attribute (f sp) = declared_talker_attribute sp \<and> declared_listener_attribute (f sp) = declared_listener_attribute sp \<and>
    reservations (f sp) = reservations sp"
  shows "eff v {} {} s (upd_sport v p f s)"
  unfolding upd_sport_def by (rule eff_upd_stream) (simp add: st_frame_def decl_wf_def mask_defs assms)

lemma eff_attributes:
  "eff v {} {} s (msrp_stream_add_talker_attribute v p i s)" "eff v {} {} s (msrp_stream_remove_talker_attribute v p i s)"
  "eff v {} {} s (msrp_stream_remove_all_talker_attributes v p s)"
  "eff v {} {} s (msrp_stream_add_listener_attribute v p i s)" "eff v {} {} s (msrp_stream_remove_listener_attribute v p i s)"
  "eff v {} {} s (msrp_stream_remove_all_listener_attributes v p s)"
  unfolding msrp_stream_add_talker_attribute_def msrp_stream_remove_talker_attribute_def
    msrp_stream_remove_all_talker_attributes_def msrp_stream_add_listener_attribute_def
    msrp_stream_remove_listener_attribute_def msrp_stream_remove_all_listener_attributes_def
  by (rule eff_upd_sport; simp)+

lemma eff_leave_immediate_one: "eff v {} {} s (leave_immediate_one v p l other i s)"
  by (simp add: leave_immediate_one_def eff_then [OF eff_attributes(2) eff_ms_set_app]
      eff_then [OF eff_attributes(5) eff_ms_set_app] split: option.split)

lemma fold_eff: "(\<And>x s. eff v T L s (f x s)) \<Longrightarrow> eff v T L s (fold f xs s)"
proof (induction xs arbitrary: s)
  case (Cons x xs)
  show ?case using eff_then [OF Cons.prems [of s x] Cons.IH [OF Cons.prems]] by simp
qed simp

lemma eff_leave_immediate: "eff v {} {} s (msrp_stream_leave_immediate v p t type s)"
  by (simp add: msrp_stream_leave_immediate_def Let_def fold_eff eff_leave_immediate_one)

lemma eff_stream_update: "eff v {} {} s (msrp_stream_update p v a s)"
proof -
  have "eff v {} {} s (upd_stream v (\<lambda>st. st\<lparr>fv := x, sr_class := y\<rparr>) s)" for x y
    by (rule eff_upd_stream) (simp add: st_frame_def decl_wf_def mask_defs)
  then show ?thesis by (simp add: msrp_stream_update_def Let_def)
qed

lemma eff_status: "eff v T L s (msrp_ipc_listener_status p w s)" "eff v T L s (msrp_ipc_talker_status p w s)"
  by (simp_all add: msrp_ipc_listener_status_def msrp_ipc_talker_status_def Let_def)

text \<open>
  The merge of the talker attributes of a port, as an update of the stream: with no attribute left the
  port is no longer registered, else it gets the merged type.
\<close>

definition talker_merged :: "nat \<Rightarrow> u32 \<Rightarrow> (msrp_stream \<Rightarrow> u8 list) \<Rightarrow> msrp_stream \<Rightarrow> msrp_stream" where
  "talker_merged p type f st =
     (let st1 = (if type = MSRP_TALKER_DECLARATION_TYPE_NONE then talker_registered_clear p st else st\<lparr>fv := f st\<rparr>)
      in st1\<lparr>stream_port := (stream_port st1)(p := (stream_port st1 p)\<lparr>talker_declaration_type := type\<rparr>)\<rparr>)"

definition listener_merged :: "nat \<Rightarrow> u32 \<Rightarrow> msrp_stream \<Rightarrow> msrp_stream" where
  "listener_merged p type st =
     (let st1 = (if type = MSRP_LISTENER_DECLARATION_TYPE_NONE then listener_registered_clear p st else st)
      in st1\<lparr>stream_port := (stream_port st1)(p := (stream_port st1 p)\<lparr>listener_declaration_type := type\<rparr>)\<rparr>)"

lemma talker_registration_type_range:
  "talker_registration_type app sp = Some type \<Longrightarrow> type \<in> {MSRP_TALKER_DECLARATION_TYPE_ADVERTISE,
     MSRP_TALKER_DECLARATION_TYPE_FAILED, MSRP_TALKER_DECLARATION_TYPE_NONE}"
  by (auto simp: talker_registration_type_def split: Option.bind_splits if_splits)

lemma listener_registration_type_range:
  "listener_registration_type app sp = Some type \<Longrightarrow> type \<in> {MSRP_LISTENER_DECLARATION_TYPE_ASKING_FAILED,
     MSRP_LISTENER_DECLARATION_TYPE_READY, MSRP_LISTENER_DECLARATION_TYPE_READY_FAILED, MSRP_LISTENER_DECLARATION_TYPE_NONE}"
  by (auto simp: listener_registration_type_def Let_def split: Option.bind_splits if_splits)

lemma upd_stream_id: "sheap s v \<noteq> None \<Longrightarrow> f (get_stream s v) = g (get_stream s v) \<Longrightarrow> upd_stream v f s = upd_stream v g s"
  by (simp add: upd_stream_def)

lemma upd_stream_same: "sheap s v \<noteq> None \<Longrightarrow> f (get_stream s v) = get_stream s v \<Longrightarrow> upd_stream v f s = s"
  by (auto simp: upd_stream_def get_stream_def fun_upd_idem)

lemma talker_merge_form:
  assumes "sheap s v \<noteq> None"
  shows "ub (msrp_talker_registration_merge p v a s) \<or>
    (\<exists>type f. type \<in> {MSRP_TALKER_DECLARATION_TYPE_ADVERTISE, MSRP_TALKER_DECLARATION_TYPE_FAILED, MSRP_TALKER_DECLARATION_TYPE_NONE} \<and>
       eff v {} {} (upd_stream v (talker_merged p type f) s) (msrp_talker_registration_merge p v a s))"
proof (cases "talker_registration_type (ms_app s p) (stream_port (get_stream s v) p)")
  case None
  then show ?thesis by (simp add: msrp_talker_registration_merge_def Let_def)
next
  case (Some type)
  define f :: "msrp_stream \<Rightarrow> u8 list" where "f = (case a of Some a \<Rightarrow> if type = MSRP_TALKER_DECLARATION_TYPE_FAILED \<and> at_type a = MSRP_ATTR_TYPE_TALKER_FAILED
    then (\<lambda>st. take 25 (fv st) @ fv_failure_info (at_val a)) else fv | None \<Rightarrow> fv)"
  define s1 where "s1 = (case a of
       Some a \<Rightarrow> if type = MSRP_TALKER_DECLARATION_TYPE_FAILED \<and> at_type a = MSRP_ATTR_TYPE_TALKER_FAILED
         then upd_stream v (\<lambda>st. st\<lparr>fv := take 25 (fv st) @ fv_failure_info (at_val a)\<rparr>) s else s
     | None \<Rightarrow> s)"
  have s1: "s1 = upd_stream v (\<lambda>st. st\<lparr>fv := f st\<rparr>) s"
    using assms by (simp add: s1_def f_def upd_stream_same split: option.split)
  have "eff v {} {} (upd_stream v (talker_merged p type f) s) (msrp_talker_registration_merge p v a s)"
  proof (cases "type = MSRP_TALKER_DECLARATION_TYPE_NONE")
    case True
    then show ?thesis using Some
      by (simp add: msrp_talker_registration_merge_def Let_def indication_defs eff_status upd_sport_def upd_stream_upd
          talker_merged_def [abs_def])
  next
    case False
    then have m: "msrp_talker_registration_merge p v a s =
      (if type \<noteq> talker_declaration_type (stream_port (get_stream s v) p)
       then msrp_register_stream_indication p v (upd_sport v p (\<lambda>sp. sp\<lparr>talker_declaration_type := type\<rparr>) s1) else s1)"
      using Some by (simp add: msrp_talker_registration_merge_def Let_def s1_def)
    have g: "upd_sport v p (\<lambda>sp. sp\<lparr>talker_declaration_type := type\<rparr>) s1 = upd_stream v (talker_merged p type f) s"
      using False by (simp add: s1 upd_sport_def upd_stream_upd talker_merged_def [abs_def])
    have "s1 = upd_stream v (talker_merged p type f) s" if "type = talker_declaration_type (stream_port (get_stream s v) p)"
      using False that unfolding s1 by (intro upd_stream_id [OF assms]) (simp add: talker_merged_def)
    then show ?thesis unfolding m g by (simp add: indication_defs eff_status)
  qed
  then show ?thesis using talker_registration_type_range [OF Some] by blast
qed

lemma listener_merge_form:
  assumes "sheap s v \<noteq> None"
  shows "ub (msrp_listener_registration_merge p v s) \<or>
    (\<exists>type. type \<in> {MSRP_LISTENER_DECLARATION_TYPE_ASKING_FAILED, MSRP_LISTENER_DECLARATION_TYPE_READY,
       MSRP_LISTENER_DECLARATION_TYPE_READY_FAILED, MSRP_LISTENER_DECLARATION_TYPE_NONE} \<and>
       eff v {} {} (upd_stream v (listener_merged p type) s) (msrp_listener_registration_merge p v s))"
proof (cases "listener_registration_type (ms_app s p) (stream_port (get_stream s v) p)")
  case None
  then show ?thesis by (simp add: msrp_listener_registration_merge_def Let_def)
next
  case (Some type)
  have "eff v {} {} (upd_stream v (listener_merged p type) s) (msrp_listener_registration_merge p v s)"
  proof (cases "type = MSRP_LISTENER_DECLARATION_TYPE_NONE")
    case True
    then show ?thesis using Some
      by (simp add: msrp_listener_registration_merge_def Let_def indication_defs eff_status upd_sport_def upd_stream_upd
          listener_merged_def [abs_def])
  next
    case False
    have g: "upd_sport v p (\<lambda>sp. sp\<lparr>listener_declaration_type := type\<rparr>) s = upd_stream v (listener_merged p type) s"
      using False by (simp add: upd_sport_def listener_merged_def [abs_def])
    have "upd_stream v (listener_merged p type) s = s" if "type = listener_declaration_type (stream_port (get_stream s v) p)"
      using False that by (intro upd_stream_same [OF assms]) (simp add: listener_merged_def)
    then show ?thesis using False Some g
      by (simp add: msrp_listener_registration_merge_def Let_def indication_defs eff_status)
  qed
  then show ?thesis using listener_registration_type_range [OF Some] by blast
qed

lemma merged_wf:
  assumes "stream_wf n st" and "p < n" and "n \<le> 16"
  shows "type \<in> {MSRP_TALKER_DECLARATION_TYPE_ADVERTISE, MSRP_TALKER_DECLARATION_TYPE_FAILED, MSRP_TALKER_DECLARATION_TYPE_NONE} \<Longrightarrow>
      stream_wf n (talker_merged p type f st) \<and> stream_wf n (talker_merged p type f (talker_registered_set p st))"
    and "type' \<in> {MSRP_LISTENER_DECLARATION_TYPE_ASKING_FAILED, MSRP_LISTENER_DECLARATION_TYPE_READY,
       MSRP_LISTENER_DECLARATION_TYPE_READY_FAILED, MSRP_LISTENER_DECLARATION_TYPE_NONE} \<Longrightarrow>
      stream_wf n (listener_merged p type' st) \<and> stream_wf n (listener_merged p type' (listener_registered_set p st))"
  using assms
  by (auto simp: stream_wf_def masks_within_def decl_wf_def reg_wf_def mask_defs talker_merged_def listener_merged_def Let_def
      talker_registered_set_def talker_registered_clear_def listener_registered_set_def listener_registered_clear_def bit_masks)

lemma live_merge:
  assumes "live n v s" and "p < n"
  shows "live n v (msrp_talker_registration_merge p v a s)" "live n v (msrp_listener_registration_merge p v s)"
    and "live n v (msrp_talker_registration_merge p v a (upd_stream v (talker_registered_set p) s))"
    and "live n v (msrp_listener_registration_merge p v (upd_stream v (listener_registered_set p) s))"
proof -
  have t: "live n v (msrp_talker_registration_merge p v a (upd_stream v g s))"
    if "\<And>type f st. type \<in> {MSRP_TALKER_DECLARATION_TYPE_ADVERTISE, MSRP_TALKER_DECLARATION_TYPE_FAILED, MSRP_TALKER_DECLARATION_TYPE_NONE} \<Longrightarrow>
      stream_wf n st \<Longrightarrow> n \<le> 16 \<Longrightarrow> stream_wf n (talker_merged p type f (g st))" for g
  proof -
    let ?s = "upd_stream v g s" and ?m = "msrp_talker_registration_merge p v a (upd_stream v g s)"
    have "sheap ?s v \<noteq> None" by (simp add: upd_stream_def)
    from talker_merge_form [OF this, of p a] consider "ub ?m" | type f where "type \<in> {MSRP_TALKER_DECLARATION_TYPE_ADVERTISE,
        MSRP_TALKER_DECLARATION_TYPE_FAILED, MSRP_TALKER_DECLARATION_TYPE_NONE}" "eff v {} {} (upd_stream v (talker_merged p type f) ?s) ?m"
      by blast
    then show ?thesis
    proof cases
      case 2
      have "live n v (upd_stream v (talker_merged p type f) ?s)"
        unfolding upd_stream_upd by (rule live_upd_stream [OF assms(1)]) (rule that [OF 2(1)])
      then show ?thesis using 2(2) live_eff0 by blast
    qed (rule live_ub)
  qed
  have l: "live n v (msrp_listener_registration_merge p v (upd_stream v g s))"
    if "\<And>type st. type \<in> {MSRP_LISTENER_DECLARATION_TYPE_ASKING_FAILED, MSRP_LISTENER_DECLARATION_TYPE_READY,
       MSRP_LISTENER_DECLARATION_TYPE_READY_FAILED, MSRP_LISTENER_DECLARATION_TYPE_NONE} \<Longrightarrow>
      stream_wf n st \<Longrightarrow> n \<le> 16 \<Longrightarrow> stream_wf n (listener_merged p type (g st))" for g
  proof -
    let ?s = "upd_stream v g s" and ?m = "msrp_listener_registration_merge p v (upd_stream v g s)"
    have "sheap ?s v \<noteq> None" by (simp add: upd_stream_def)
    from listener_merge_form [OF this, of p] consider "ub ?m" | type where "type \<in> {MSRP_LISTENER_DECLARATION_TYPE_ASKING_FAILED,
        MSRP_LISTENER_DECLARATION_TYPE_READY, MSRP_LISTENER_DECLARATION_TYPE_READY_FAILED, MSRP_LISTENER_DECLARATION_TYPE_NONE}"
        "eff v {} {} (upd_stream v (listener_merged p type) ?s) ?m"
      by blast
    then show ?thesis
    proof cases
      case 2
      have "live n v (upd_stream v (listener_merged p type) ?s)"
        unfolding upd_stream_upd by (rule live_upd_stream [OF assms(1)]) (rule that [OF 2(1)])
      then show ?thesis using 2(2) live_eff0 by blast
    qed (rule live_ub)
  qed
  show "live n v (msrp_talker_registration_merge p v a (upd_stream v (talker_registered_set p) s))"
    by (rule t) (simp add: merged_wf(1) assms(2))
  show "live n v (msrp_listener_registration_merge p v (upd_stream v (listener_registered_set p) s))"
    by (rule l) (simp add: merged_wf(2) assms(2))
  show "live n v (msrp_talker_registration_merge p v a s)"
  proof (cases "ub s")
    case False
    then have "upd_stream v (\<lambda>st. st) s = s" using assms(1) by (intro upd_stream_same) (auto simp: live_def)
    with t [of "\<lambda>st. st"] merged_wf(1) assms(2) show ?thesis by simp
  qed (simp add: live_ub sticky)
  show "live n v (msrp_listener_registration_merge p v s)"
  proof (cases "ub s")
    case False
    then have "upd_stream v (\<lambda>st. st) s = s" using assms(1) by (intro upd_stream_same) (auto simp: live_def)
    with l [of "\<lambda>st. st"] merged_wf(2) assms(2) show ?thesis by simp
  qed (simp add: live_ub sticky)
qed

subsection \<open>Indications\<close>

lemma talker_indications_safe:
  assumes "msrp_safe n {} s" and "p < n"
  shows "msrp_safe n {} (msrp_talker_join_indication p i a new s)" "msrp_safe n {} (msrp_talker_leave_indication p i a s)"
proof -
  show "msrp_safe n {} (msrp_talker_join_indication p i a new s)"
  proof (cases "msrp_create_stream (fv_stream_id (at_val a)) s")
    case (Pair r s1)
    show ?thesis
    proof (cases r)
      case (Some v)
      have 1: "live n v s1" using create_stream_live Pair Some assms(1) by blast
      define s2 where "s2 = (if new then s1 else msrp_stream_leave_immediate v p (at_type a) 0 s1)"
      have "live n v s2" using 1 live_eff0 [OF 1 eff_leave_immediate] by (simp add: s2_def)
      then have "live n v (msrp_stream_add_talker_attribute v p i (msrp_stream_update p v a s2))"
        using live_eff0 eff_stream_update eff_attributes(1) by blast
      from live_map_update [OF live_merge(3) [OF this assms(2)]] show ?thesis
        using Pair Some by (simp add: msrp_talker_join_indication_def Let_def s2_def)
    qed (use Pair create_stream_none assms(1) in \<open>simp add: msrp_talker_join_indication_def\<close>)
  qed
  show "msrp_safe n {} (msrp_talker_leave_indication p i a s)"
  proof (cases "msrp_find_stream s (fv_stream_id (at_val a))")
    case (Some v)
    have "live n v (msrp_stream_remove_talker_attribute v p i s)"
      using live_eff0 [OF find_stream_live [OF Some assms(1)] eff_attributes(2)] .
    from live_map_update [OF live_merge(1) [OF this assms(2)]] show ?thesis
      using Some by (simp add: msrp_talker_leave_indication_def)
  qed (simp add: msrp_talker_leave_indication_def assms(1))
qed

lemma listener_indications_safe:
  assumes "msrp_safe n {} s" and "p < n"
  shows "msrp_safe n {} (msrp_listener_join_indication p i a new s)" "msrp_safe n {} (msrp_listener_leave_indication p i a s)"
proof -
  show "msrp_safe n {} (msrp_listener_join_indication p i a new s)"
  proof (cases "msrp_create_stream (fv_stream_id (at_val a)) s")
    case (Pair r s1)
    show ?thesis
    proof (cases r)
      case (Some v)
      have 1: "live n v s1" using create_stream_live Pair Some assms(1) by blast
      define s2 where "s2 = (if new then s1 else msrp_stream_leave_immediate v p (at_type a) (ucast (at_val a ! 8)) s1)"
      have "live n v s2" using 1 live_eff0 [OF 1 eff_leave_immediate] by (simp add: s2_def)
      then have "live n v (msrp_stream_add_listener_attribute v p i s2)" using live_eff0 eff_attributes(4) by blast
      from live_map_update [OF live_merge(4) [OF this assms(2)]] show ?thesis
        using Pair Some by (simp add: msrp_listener_join_indication_def Let_def s2_def)
    qed (use Pair create_stream_none assms(1) in \<open>simp add: msrp_listener_join_indication_def\<close>)
  qed
  show "msrp_safe n {} (msrp_listener_leave_indication p i a s)"
  proof (cases "msrp_find_stream s (fv_stream_id (at_val a))")
    case (Some v)
    have "live n v (msrp_stream_remove_listener_attribute v p i s)"
      using live_eff0 [OF find_stream_live [OF Some assms(1)] eff_attributes(5)] .
    from live_map_update [OF live_merge(2) [OF this assms(2)]] show ?thesis
      using Some by (simp add: msrp_listener_leave_indication_def)
  qed (simp add: msrp_listener_leave_indication_def assms(1))
qed

text \<open>Domains live in their port; only the update of the boundary may reach the streams.\<close>

lemma create_domain_safe [simp]: "msrp_safe n W (snd (create_domain p val s)) = msrp_safe n W s"
proof -
  have "msrp_safe n W (s\<lparr>n_stream_malloc := k\<rparr>) = msrp_safe n W s" for s k by (rule safe_other) simp_all
  then show ?thesis by (simp add: create_domain_def Let_def split: prod.split)
qed

lemma create_domain_safe': "create_domain p val s = (r, s') \<Longrightarrow> msrp_safe n W s' = msrp_safe n W s"
  using create_domain_safe [of n W p val s] by simp

lemma declare_domain_safe [simp]: "msrp_safe n W (snd (msrp_declare_domain p c prio vid s)) = msrp_safe n W s"
  by (auto simp: msrp_declare_domain_def Let_def create_domain_safe' split: prod.split option.split)

lemma declare_domain_safe': "msrp_declare_domain p c prio vid s = (r, s') \<Longrightarrow> msrp_safe n W s' = msrp_safe n W s"
  using declare_domain_safe [of n W p c prio vid s] by simp

lemma boundary_class_safe: "msrp_safe n W (snd (boundary_class p c us)) = msrp_safe n W (snd us)"
proof -
  obtain u s where us: "us = (u, s)" by force
  show ?thesis
  proof (cases "sr_class_enabled (sr_classes s) c")
    case True
    let ?port = "ms_port s p"
    obtain ex mi vl where b: "boundary_scan (sr_classes s) ?port c = (ex, mi, vl)" by (metis prod_cases3)
    show ?thesis using True b unfolding us boundary_class_def
      by (cases "domain ?port c"; cases vl) (auto simp: Let_def declare_domain_safe' split: prod.split)
  qed (simp add: us boundary_class_def)
qed

lemma boundary_update_safe: "msrp_safe n {} s \<Longrightarrow> msrp_safe n {} (msrp_domain_update_boundary_port p s)"
proof -
  assume s: "msrp_safe n {} s"
  have "msrp_safe n {} (snd (fold (boundary_class p) cs (u, s)))" for cs u
    using s by (induction cs arbitrary: u s) (auto simp: boundary_class_safe, metis boundary_class_safe prod.collapse snd_conv)
  then show ?thesis using safe_map_update [of n "{}"]
    by (auto simp: msrp_domain_update_boundary_port_def split: prod.split) (metis snd_conv)+
qed

end
