(* ===== verification/MRP_Stable.thy ===== *)
theory MRP_Stable
  imports MRP_Rx
begin

section \<open>Predicates that MRP cannot break\<close>

text \<open>
  A second contract for the clients of MRP, with fewer duties than \<open>mrp_client\<close>: \<open>J\<close> is a predicate on the client's
  state that does not depend on the MRP applications and that the indications on a valid port keep. Then
  every operation of \<open>mrp.c\<close> on that port keeps it: the reception of a packet and the four timers.
\<close>

locale mrp_stable =
  fixes ops :: "'s mrp_ops" and J :: "'s \<Rightarrow> bool" and valid :: "nat \<Rightarrow> bool"
  assumes set_app: "J s \<Longrightarrow> valid p \<Longrightarrow> J (op_set_app ops s p app)"
    and join: "J s \<Longrightarrow> valid p \<Longrightarrow> J (mad_join_indication ops s p i new)"
    and leave: "J s \<Longrightarrow> valid p \<Longrightarrow> J (mad_leave_indication ops s p i)"
begin

lemma on_app_J: "J s \<Longrightarrow> valid p \<Longrightarrow> J (on_app ops p f s)"
  by (simp add: on_app_def set_app)

lemma registrar_J: "J s \<Longrightarrow> valid p \<Longrightarrow> J (mrp_registrar_sm ops p i ev s)"
  by (simp add: mrp_registrar_sm_def mrp_registrar_action_handler_def on_app_J join leave split: mrp_action.split)

lemma process_attribute1_J: "J s \<Longrightarrow> valid p \<Longrightarrow> J (snd (mrp_process_attribute1 ops p i event s))"
  by (simp add: mrp_process_attribute1_def Let_def on_app_J registrar_J)

lemma process_attribute_J: "J s \<Longrightarrow> valid p \<Longrightarrow> J (snd (mrp_process_attribute ops p t val event s))"
  by (auto simp: mrp_process_attribute_def set_app process_attribute1_J split: prod.split option.split)

lemma fold_J: "(\<And>x s. J s \<Longrightarrow> J (f x s)) \<Longrightarrow> J s \<Longrightarrow> J (fold f xs s)"
  by (induction xs arbitrary: s) simp_all

lemma leaveall_J: "J s \<Longrightarrow> valid p \<Longrightarrow> J (mrp_leaveall_sm ops p ev s)"
  unfolding mrp_leaveall_sm_def mrp_leaveall_action_handler_def Let_def
  by (auto intro!: fold_J on_app_J process_attribute1_J)

lemma timers_J:
  assumes "J s" and "valid p"
  shows "J (join_timer_expired ops p s)" "J (leaveall_timer_expired ops p s)" "J (leave_timer_expired ops p i s)"
    "J (on_app ops p periodic_timer_expired s)"
  using assms by (simp_all add: join_timer_expired_def mrp_join_timer_handler_def leaveall_timer_expired_def
      mrp_leaveall_timer_handler_def leave_timer_expired_def mrp_leave_timer_handler_def on_app_J leaveall_J registrar_J)

lemma lva_loop_J: "rx_lva_loop fuel ops p t entry s = Some s' \<Longrightarrow> J s \<Longrightarrow> valid p \<Longrightarrow> J s'"
proof (induction fuel arbitrary: entry s)
  case (Suc fuel)
  then show ?case by (cases entry) (auto simp: Let_def process_attribute1_J split: if_splits)
qed simp

lemma rx_leaveall_J: "rx_leaveall ops p t s = Some s' \<Longrightarrow> J s \<Longrightarrow> valid p \<Longrightarrow> J s'"
  by (auto simp: rx_leaveall_def Let_def dest: lva_loop_J intro: leaveall_J split: Option.bind_splits)

end

locale mrp_stable_receiver = mrp_stable ops J valid for ops :: "'s mrp_ops" and J valid +
  fixes rx :: "'s mrp_rx_ops"
  assumes handler: "vector_handler rx s p type buf off n = Some s' \<Longrightarrow> J s \<Longrightarrow> valid p \<Longrightarrow> J s'"
begin

definition vec_J :: "'s vec_result \<Rightarrow> bool" where
  "vec_J r \<longleftrightarrow> (case r of VecErr s \<Rightarrow> J s | VecEnd m s \<Rightarrow> J s | VecNext m s \<Rightarrow> J s)"

lemma rx_vector_J:
  "rx_vector ops rx p buf hdr skip ve vh s = Some r \<Longrightarrow> J s \<Longrightarrow> valid p \<Longrightarrow> vec_J r"
  by (auto simp: rx_vector_def vec_J_def Let_def dest: rx_leaveall_J handler split: if_splits Option.bind_splits prod.splits)

lemma rx_vectors_J:
  "rx_vectors fuel ops rx p buf hdr skip ve vh s = Some r \<Longrightarrow> J s \<Longrightarrow> valid p \<Longrightarrow> J (snd r)"
proof (induction fuel arbitrary: vh s)
  case (Suc fuel)
  then show ?case
    by (auto split: option.splits vec_result.splits dest!: rx_vector_J simp: vec_J_def)
qed simp

lemma rx_vectors_J':
  "rx_vectors fuel ops rx p buf hdr skip ve vh s = Some (m, s') \<Longrightarrow> J s \<Longrightarrow> valid p \<Longrightarrow> J s'"
  using rx_vectors_J by fastforce

definition msg_J :: "'s msg_result \<Rightarrow> bool" where
  "msg_J r \<longleftrightarrow> (case r of MsgErr s \<Rightarrow> J s | MsgNext h s \<Rightarrow> J s)"

lemma rx_message_J: "rx_message ops rx p desc nv hdr s = Some r \<Longrightarrow> J s \<Longrightarrow> valid p \<Longrightarrow> msg_J r"
  by (auto simp: rx_message_def msg_J_def Let_def simp del: rx_vectors.simps dest!: rx_vectors_J' split: if_splits Option.bind_splits option.splits)

lemma rx_messages_J: "rx_messages fuel ops rx p desc nv hdr s = Some r \<Longrightarrow> J s \<Longrightarrow> valid p \<Longrightarrow> J (snd r)"
proof (induction fuel arbitrary: hdr s)
  case (Suc fuel)
  then show ?case
    by (cases hdr) (auto split: option.splits msg_result.splits dest!: rx_message_J simp: msg_J_def)
qed simp

lemma process_packet_J: "mrp_process_packet ops rx p desc s = Some r \<Longrightarrow> J s \<Longrightarrow> valid p \<Longrightarrow> J (snd r)"
  by (auto simp: mrp_process_packet_def Let_def simp del: rx_messages.simps dest: rx_messages_J intro: on_app_J split: if_splits Option.bind_splits)

end

end
