(* ===== verification/MSRP_Run.thy ===== *)
theory MSRP_Run
  imports MSRP_Inv MRP_Stable
begin

section \<open>MSRP as a whole\<close>

text \<open>
  The requests, the port events and the reception keep the invariant, and so does every sequence of
  operations after the initialization (\<open>msrp_reach\<close>).
\<close>

subsection \<open>MRP and MSRP\<close>

lemma ops_simps [simp]:
  "op_app msrp_ops = ms_app" "op_set_app msrp_ops = ms_set_app"
  "mad_join_indication msrp_ops = msrp_mad_join_indication" "mad_leave_indication msrp_ops = msrp_mad_leave_indication"
  by (simp_all add: msrp_ops_def)

interpretation msrp_lens: mrp_lens msrp_ops
  by unfold_locales (simp_all add: ms_app_def ms_set_app_def upd_port_def)

text \<open>The immediate leave of the registrar reaches no indication, so \<open>app_leave_immediate\<close> is the whole call.\<close>

lemma leave_immediate_silent:
  "mrp_process_attribute_leave_immediate msrp_ops p i s = ms_set_app s p (app_leave_immediate i (ms_app s p))"
proof -
  have "reg_action (registrar_next pt to MRP_EVENT_RLV_IMMEDIATE reg) = MRP_ACTION_NONE" for pt to reg
    by (auto simp: registrar_defs split: prod.splits)
  then have "mrp_registrar_sm msrp_ops p i MRP_EVENT_RLV_IMMEDIATE s =
    on_app msrp_ops p (\<lambda>app. mrp_registrar_step app i MRP_EVENT_RLV_IMMEDIATE) s"
    using msrp_lens.on_app_get [of p "\<lambda>app. mrp_registrar_step app i MRP_EVENT_RLV_IMMEDIATE" s]
    by (simp add: mrp_registrar_sm_def mrp_registrar_action_handler_def mrp_registrar_step_def upd_attr_def get_attr_def)
  then show ?thesis
    by (simp add: mrp_process_attribute_leave_immediate_def msrp_lens.on_app_on_app app_leave_immediate_def) (simp add: on_app_def)
qed

lemma domain_indications_safe:
  assumes "msrp_safe n {} s"
  shows "msrp_safe n {} (msrp_domain_join_indication p a s)" "msrp_safe n {} (msrp_domain_leave_indication p a s)"
  using assms boundary_update_safe
  by (auto simp: msrp_domain_join_indication_def msrp_domain_leave_indication_def create_domain_safe' split: prod.split option.split)

interpretation msrp_mrp: mrp_stable msrp_ops "msrp_safe n {}" "\<lambda>p. p < n" for n
  by unfold_locales
    (simp_all add: msrp_mad_join_indication_def msrp_mad_leave_indication_def Let_def talker_indications_safe
      listener_indications_safe domain_indications_safe)

lemma stream_values_safe:
  "stream_values k p t buf three four i val event decl s = Some s' \<Longrightarrow> msrp_safe n {} s \<Longrightarrow> p < n \<Longrightarrow> msrp_safe n {} s'"
proof (induction k arbitrary: i val event decl s)
  case (Suc k)
  have "msrp_safe n {} (snd (mrp_process_attribute msrp_ops p t x e s))" for x e
    using msrp_mrp.process_attribute_J Suc.prems(2,3) by blast
  then show ?case using Suc by (auto simp: Let_def split: if_splits Option.bind_splits)
qed simp

lemma domain_values_safe:
  "domain_values k p buf three i val event s = Some s' \<Longrightarrow> msrp_safe n {} s \<Longrightarrow> p < n \<Longrightarrow> msrp_safe n {} s'"
proof (induction k arbitrary: i val event s)
  case (Suc k)
  have "msrp_safe n {} (snd (mrp_process_attribute msrp_ops p MSRP_ATTR_TYPE_DOMAIN x e s))" for x e
    using msrp_mrp.process_attribute_J Suc.prems(2,3) by blast
  then show ?case using Suc by (auto split: Option.bind_splits)
qed simp

interpretation msrp_rx: mrp_stable_receiver msrp_ops "msrp_safe n {}" "\<lambda>p. p < n" msrp_rx_ops for n
  by unfold_locales
    (auto simp: msrp_rx_ops_def msrp_vector_handler_def Let_def dest: stream_values_safe domain_values_safe split: if_splits)

text \<open>
  After undefined behaviour the state says nothing about the number of ports; an operation that is safe for
  every number of ports above its own remembers the undefined behaviour.
\<close>

lemma safe_port:
  assumes "\<And>m. p < m \<Longrightarrow> msrp_safe m {} s \<Longrightarrow> msrp_safe m {} s'" and "msrp_safe n {} s" and "\<not> ub s \<Longrightarrow> p < ms_port_max s"
  shows "msrp_safe n {} s'"
proof (cases "ub s")
  case True
  then have "msrp_safe m {} s'" if "p < m" for m using assms(1) that by (simp add: msrp_safe_def)
  from this [of "Suc p"] this [of "Suc (Suc p)"] have "ub s'" by (auto simp: msrp_safe_def msrp_nearly_def)
  then show ?thesis by (simp add: msrp_safe_def)
next
  case False
  then have "p < n" using assms(2,3) by (simp add: msrp_safe_def msrp_nearly_def)
  then show ?thesis using assms(1,2) by blast
qed

lemma process_packet_safe:
  assumes "msrp_safe n {} s" and "msrp_process_packet s p desc = Some (rc, s')"
  shows "msrp_safe n {} s'"
proof (cases "p < ms_port_max s \<and> msrp_is_operational s p")
  case True
  then have "mrp_process_packet msrp_ops msrp_rx_ops p desc s = Some (rc, s')" using assms(2) by (simp add: msrp_process_packet_def)
  from msrp_rx.process_packet_J [OF this] True show ?thesis by (auto intro!: safe_port [OF _ assms(1)])
qed (use assms in \<open>auto simp: msrp_process_packet_def split: if_splits\<close>)

subsection \<open>Requests\<close>

lemma safe_eff0:
  assumes "msrp_safe n W s" and "eff v {} {} s s'" and "ub s \<or> sheap s v \<noteq> None"
  shows "msrp_safe n W s'"
proof (cases "ub s")
  case False
  then have near: "msrp_nearly n W s" and h: "sheap s v \<noteq> None" using assms(1,3) by (simp_all add: msrp_safe_def)
  have fr: "st_frame {} {} (get_stream s v) (get_stream s' v)" and h': "sheap s' v \<noteq> None" using eff_get [OF assms(2) h] by simp_all
  have near': "msrp_nearly n (insert v W) s'" using nearly_mono [OF near] by (intro nearly_eff [OF _ assms(2)]) (auto simp: h)
  show ?thesis
  proof (cases "v \<in> W")
    case False
    then have set: "stream_settled n (map_forwarding_state s) (get_stream s v)" using near h by (auto simp: msrp_nearly_def get_stream_def)
    have "talker_declared_state (get_stream s' v) = talker_declared_state (get_stream s v)"
      "listener_declared_state (get_stream s' v) = listener_declared_state (get_stream s v)"
      using fr by (auto simp: st_frame_def intro: bit_word_eqI)
    then have "stream_unused (get_stream s' v) = stream_unused (get_stream s v)"
      using fr by (simp add: stream_unused_def st_frame_def is_listener_stream_registered_any_def is_listener_stream_declared_any_def
          is_talker_stream_registered_any_def is_talker_stream_declared_any_def any_defs)
    then have "stream_settled n (map_forwarding_state s') (get_stream s' v)"
      using set talker_settled_frame [OF fr] listener_settled_frame [OF fr] assms(2) by (simp add: stream_settled_def eff_def)
    from nearly_settle [OF near' h' this] False show ?thesis by (simp add: msrp_safe_def)
  qed (use near' in \<open>simp add: msrp_safe_def insert_absorb\<close>)
qed (use eff_ub [OF assms(2)] in \<open>simp add: msrp_safe_def\<close>)

lemma map_update_kept:
  assumes "live n v s" and "talker_user_declared_state (get_stream s v) \<noteq> 0 \<or> listener_user_declared_state (get_stream s v) \<noteq> 0"
  shows "ub (msrp_map_update_stream v new s) \<or> sheap (msrp_map_update_stream v new s) v \<noteq> None"
proof (cases "ub s")
  case False
  then have h: "sheap s v \<noteq> None" and n: "ms_port_max s \<le> 16" using assms(1) by (auto simp: live_def msrp_nearly_def)
  let ?s1 = "msrp_map_update_talker_stream v new s" and ?s2 = "msrp_map_update_listener_stream v new (msrp_map_update_talker_stream v new s)"
  have 1: "eff v {..<ms_port_max s} {} s ?s1" by (rule map_update_talker_stream_ok(1) [OF h n])
  then have h1: "sheap ?s1 v \<noteq> None" and n1: "ms_port_max ?s1 \<le> 16" using eff_get [OF 1 h] n by (simp_all add: eff_def)
  have 2: "eff v ({..<ms_port_max s} \<union> {}) ({} \<union> {..<ms_port_max ?s1}) s ?s2"
    by (rule eff_trans [OF 1 map_update_listener_stream_ok(1) [OF h1 n1]])
  have "\<not> stream_unused (get_stream ?s2 v)"
    using eff_get [OF 2 h] assms(2) by (auto simp: stream_unused_def st_frame_def any_defs)
  then show ?thesis using eff_get [OF 2 h] by (simp add: msrp_map_update_stream_def Let_def)
qed (simp add: sticky)

lemma user_masks_wf:
  assumes "stream_wf n st" and "p < n"
  shows "stream_wf n (talker_user_declared_set p st)" "stream_wf n (listener_user_declared_set p st)"
    "stream_wf n (talker_user_declared_clear p st)" "stream_wf n (listener_user_declared_clear p st)"
  using assms by (auto simp: stream_wf_def masks_within_def decl_wf_def reg_wf_def mask_defs bit_masks talker_user_declared_set_def
      listener_user_declared_set_def talker_user_declared_clear_def listener_user_declared_clear_def)

lemma status_safe [simp]:
  "msrp_safe n W (msrp_ipc_listener_status p v s) = msrp_safe n W s" "msrp_safe n W (msrp_ipc_talker_status p v s) = msrp_safe n W s"
  by (simp_all add: msrp_ipc_listener_status_def msrp_ipc_talker_status_def Let_def)

lemma set_user_nonzero: "p < 16 \<Longrightarrow> set_bit p (m::u16) \<noteq> 0"
  using bit_masks(1) [of p m p] by auto

lemma deregister_safe:
  assumes "live n v s" and "p < n"
  shows "msrp_safe n {} (msrp_deregister_talker_stream p v s)" "msrp_safe n {} (msrp_deregister_listener_stream p v s)"
proof -
  have "live n v (upd_stream v (talker_user_declared_clear p) s)"
    using live_upd_stream [OF assms(1)] user_masks_wf(3) assms(2) by blast
  then show "msrp_safe n {} (msrp_deregister_talker_stream p v s)"
    by (auto simp: msrp_deregister_talker_stream_def Let_def intro!: live_map_update live_eff0 [OF _ eff_vlan(2)])
  have "live n v (upd_stream v (listener_user_declared_clear p) s)"
    using live_upd_stream [OF assms(1)] user_masks_wf(4) assms(2) by blast
  then show "msrp_safe n {} (msrp_deregister_listener_stream p v s)"
    by (simp add: msrp_deregister_listener_stream_def live_map_update)
qed

lemma deregister_requests_safe:
  assumes "msrp_safe n {} s" and "p < n"
  shows "msrp_safe n {} (snd (msrp_deregister_stream_request p sid s))" "msrp_safe n {} (snd (msrp_deregister_attach_request p sid s))"
  using assms deregister_safe [OF find_stream_live [OF _ assms(1)] assms(2)]
  by (auto simp: msrp_deregister_stream_request_def msrp_deregister_attach_request_def split: option.split)

lemma attach_request_safe:
  assumes "msrp_safe n {} s" and "p < n"
  shows "msrp_safe n {} (snd (msrp_register_attach_request p sid s))"
proof (cases "msrp_create_stream sid s")
  case (Pair r s1)
  show ?thesis
  proof (cases r)
    case (Some v)
    have 1: "live n v s1" using create_stream_live Pair Some assms(1) by blast
    then have 2: "live n v (upd_stream v (listener_user_declared_set p) s1)"
      using live_upd_stream user_masks_wf(2) assms(2) by blast
    have 3: "msrp_safe n {} s1" if "is_talker_stream_user_declared (get_stream s1 v) p"
    proof -
      have "s1 = s \<or> get_stream s1 v = empty_stream sid"
        using Pair Some by (auto simp: msrp_create_stream_def Let_def get_stream_def split: if_splits option.splits)
      then show ?thesis using that assms(1) by (auto simp: empty_stream_def mask_defs)
    qed
    show ?thesis using Pair Some live_map_update [OF 2] 3 by (simp add: msrp_register_attach_request_def)
  qed (use Pair create_stream_none assms(1) in \<open>simp add: msrp_register_attach_request_def\<close>)
qed

lemma create_stream_fresh:
  "msrp_create_stream sid s = (Some v, s') \<Longrightarrow> s' = s \<or> get_stream s' v = empty_stream sid"
  by (auto simp: msrp_create_stream_def Let_def get_stream_def split: if_splits option.splits)

lemma register_user_safe:
  assumes "live n v s" and "p < n"
  defines "s3 \<equiv> msrp_map_update_stream v True (upd_stream v (talker_user_declared_set p) s)"
  shows "msrp_safe n {} s3" "ub s3 \<or> sheap s3 v \<noteq> None"
proof -
  have 1: "live n v (upd_stream v (talker_user_declared_set p) s)"
    using live_upd_stream [OF assms(1)] user_masks_wf(1) assms(2) by blast
  then show "msrp_safe n {} s3" unfolding s3_def by (rule live_map_update)
  show "ub s3 \<or> sheap s3 v \<noteq> None"
  proof (cases "ub s")
    case False
    then have "p < 16" using assms(1,2) by (simp add: live_def msrp_nearly_def)
    then show ?thesis unfolding s3_def
      by (intro map_update_kept [OF 1]) (simp add: talker_user_declared_set_def set_user_nonzero)
  qed (simp add: s3_def sticky)
qed

lemma stream_request_safe:
  assumes "msrp_safe n {} s" and "p < n"
  shows "msrp_safe n {} (snd (msrp_register_stream_request p cmd s))"
proof -
  let ?c = "unat (tr_stream_class cmd)"
  consider "\<not> sr_class_enabled (sr_classes s) ?c \<or> ?c = SR_CLASS_NONE" | "domain (ms_port s p) ?c = None"
    | d where "sr_class_enabled (sr_classes s) ?c" "?c \<noteq> SR_CLASS_NONE" "domain (ms_port s p) ?c = Some d" by (cases "domain (ms_port s p) ?c") auto
  then show ?thesis
  proof cases
    case 3
    define val where "val = talker_first_value (ms_port s p) (get_domain (ms_port s p) d) cmd"
    obtain r s1 where c: "msrp_create_stream (tr_stream_id cmd) s = (r, s1)" by force
    show ?thesis
    proof (cases r)
      case None
      then show ?thesis using c create_stream_none assms(1) 3 by (simp add: msrp_register_stream_request_def Let_def)
    next
      case (Some v)
      let ?st = "get_stream s1 v"
      let ?taken = "is_talker_stream_registered_any ?st \<or> is_talker_stream_user_declared_any ?st"
      let ?refuse = "is_listener_stream_user_declared ?st p \<or> ?taken \<and> take 25 (fv ?st) \<noteq> take 25 val"
      define s2 where "s2 = (if ?taken then s1 else upd_stream v (\<lambda>st. st\<lparr>sr_class := ?c, fv := val\<rparr>) s1)"
      define s3 where "s3 = msrp_map_update_stream v True (upd_stream v (talker_user_declared_set p) s2)"
      define s4 where "s4 = (if ms_is_bridge s3 then s3 else msrp_register_vlan p v s3)"
      have e: "snd (msrp_register_stream_request p cmd s) = (if ?refuse then s1 else
        if listener_attached (get_stream s4 v) p then msrp_register_attach_indication p v s4 else s4)"
        unfolding msrp_register_stream_request_def Let_def 3(3) option.case c Some prod.case val_def [symmetric]
          s2_def [symmetric] s3_def [symmetric] s4_def [symmetric] using 3(1,2) by auto
      have "live n v s1" using create_stream_live c Some assms(1) by blast
      moreover have "eff v {} {} s1 (upd_stream v (\<lambda>st. st\<lparr>sr_class := ?c, fv := val\<rparr>) s1)"
        by (rule eff_upd_stream) (simp add: st_frame_def decl_wf_def mask_defs)
      ultimately have "live n v s2" using live_eff0 by (simp add: s2_def)
      from register_user_safe [OF this assms(2), folded s3_def] have 4: "msrp_safe n {} s4"
        by (simp add: s4_def safe_eff0 [OF _ eff_vlan(1)])
      have "msrp_safe n {} s1" if ?refuse
        using create_stream_fresh [of "tr_stream_id cmd" s v s1] c Some that assms(1)
        by (auto simp: empty_stream_def mask_defs is_talker_stream_registered_any_def any_defs)
      with 4 show ?thesis unfolding e by (simp add: indication_defs)
    qed
  qed (use assms(1) in \<open>auto simp: msrp_register_stream_request_def Let_def\<close>)
qed

lemma deregister_port_safe:
  assumes "msrp_safe n {} s" and "i < n"
  shows "msrp_safe n {} (deregister_port v i s)"
proof (cases "sheap s v")
  case (Some st)
  then have "live n v s" using live_of_safe [OF assms(1)] by simp
  then show ?thesis using Some assms deregister_safe by (simp add: deregister_port_def)
qed (simp add: deregister_port_def)

lemma fold_safe: "(\<And>x s. x \<in> set xs \<Longrightarrow> msrp_safe n {} s \<Longrightarrow> msrp_safe n {} (f x s)) \<Longrightarrow> msrp_safe n {} s \<Longrightarrow> msrp_safe n {} (fold f xs s)"
  by (induction xs arbitrary: s) simp_all

lemma sticky_safe: "(\<And>n s. msrp_safe n {} s \<Longrightarrow> p < n \<Longrightarrow> msrp_safe n {} (f s)) \<Longrightarrow> ub s \<Longrightarrow> ub (f s)"
proof -
  assume f: "\<And>n s. msrp_safe n {} s \<Longrightarrow> p < n \<Longrightarrow> msrp_safe n {} (f s)" and "ub s"
  then have "msrp_safe m {} s" for m by (simp add: msrp_safe_def)
  then have "msrp_safe (Suc p) {} (f s)" "msrp_safe (Suc (Suc p)) {} (f s)" using f by simp_all
  then show "ub (f s)" by (auto simp: msrp_safe_def msrp_nearly_def)
qed

lemma over_ports:
  assumes "msrp_safe n {} s" and "\<And>i m s. i < m \<Longrightarrow> msrp_safe m {} s \<Longrightarrow> msrp_safe m {} (f i s)"
  shows "msrp_safe n {} (fold f [0..<ms_port_max s] s)"
proof (cases "ub s")
  case True
  have "ub (fold f xs s)" for xs by (rule fold_sticky [OF _ True]) (rule sticky_safe [OF assms(2)])
  then show ?thesis by (simp add: msrp_safe_def)
next
  case False
  then have "ms_port_max s = n" using assms(1) by (simp add: msrp_safe_def msrp_nearly_def)
  then show ?thesis using assms by (intro fold_safe) simp_all
qed

lemma deregister_all_safe: "msrp_safe n {} s \<Longrightarrow> msrp_safe n {} (msrp_stream_deregister_all s)"
  unfolding msrp_stream_deregister_all_def
  by (rule fold_safe) (simp_all add: over_ports deregister_port_safe)

lemma logical_port_bound: "logical_to_msrp_port s l = Some p \<Longrightarrow> p < ms_port_max s"
  by (auto simp: logical_to_msrp_port_def find_Some_iff split: option.splits if_splits)

lemma ipc_rx_safe: "msrp_safe n {} s \<Longrightarrow> msrp_safe n {} (msrp_ipc_rx d s)"
proof -
  assume s: "msrp_safe n {} s"
  have p: "msrp_safe n {} (f s)"
    if "logical_to_msrp_port s l = Some p" "\<And>m s. msrp_safe m {} s \<Longrightarrow> p < m \<Longrightarrow> msrp_safe m {} (f s)" for f l p
    using safe_port [of p s "f s" n] that(2) s logical_port_bound [OF that(1)] by blast
  note r = attach_request_safe stream_request_safe deregister_requests_safe
  have 1: "msrp_safe n {} s'" if "logical_to_msrp_port s l = Some p" "msrp_register_attach_request p sid s = (r, s')" for l p sid r s'
    using p [OF that(1), of "\<lambda>s. snd (msrp_register_attach_request p sid s)"] r(1) that(2) by simp
  have 2: "msrp_safe n {} s'" if "logical_to_msrp_port s l = Some p" "msrp_register_stream_request p cmd s = (r, s')" for l p cmd r s'
    using p [OF that(1), of "\<lambda>s. snd (msrp_register_stream_request p cmd s)"] r(2) that(2) by simp
  have 3: "msrp_safe n {} s'" if "logical_to_msrp_port s l = Some p" "msrp_deregister_stream_request p sid s = (r, s')" for l p sid r s'
    using p [OF that(1), of "\<lambda>s. snd (msrp_deregister_stream_request p sid s)"] r(3) that(2) by simp
  have 4: "msrp_safe n {} s'" if "logical_to_msrp_port s l = Some p" "msrp_deregister_attach_request p sid s = (r, s')" for l p sid r s'
    using p [OF that(1), of "\<lambda>s. snd (msrp_deregister_attach_request p sid s)"] r(4) that(2) by simp
  show ?thesis using s deregister_all_safe
    by (auto simp: msrp_ipc_rx_def Let_def msrp_ipc_error_response_def msrp_ipc_listener_response_def msrp_ipc_talker_response_def
        dest: 1 2 3 4 split: msrp_msg.split option.split prod.split)
qed

subsection \<open>Port events, enabling and disabling\<close>

lemma masks_safe:
  "msrp_safe n W s \<Longrightarrow> msrp_safe n UNIV (s\<lparr>map_forwarding_state := m\<rparr>)"
  by (auto simp: msrp_safe_def msrp_nearly_def heap_ok_def)

lemma operational_safe: "msrp_safe n W (msrp_update_operational_state p state rate s) = msrp_safe n W s"
  by (rule safe_other) (simp_all add: msrp_update_operational_state_def)

lemma port_status_safe: "msrp_safe n {} s \<Longrightarrow> msrp_safe n {} (msrp_port_status l up rate s)"
  by (auto simp: msrp_port_status_def msrp_update_forwarding_state_def operational_safe intro!: safe_map_update masks_safe
      split: option.split)

lemma enabled_state_safe: "msrp_safe n W s \<Longrightarrow> msrp_safe n {} (msrp_update_enabled_state p state s)"
proof -
  assume s: "msrp_safe n W s"
  have "msrp_safe n W (s\<lparr>enabled_state := m\<rparr>) = msrp_safe n W s" for m by (rule safe_other) simp_all
  then show ?thesis unfolding msrp_update_enabled_state_def using s by (intro safe_map_update) simp
qed

lemma exit_domains_safe: "msrp_safe n {} s \<Longrightarrow> msrp_safe n {} (msrp_exit_domains p s)"
  unfolding msrp_exit_domains_def by (simp add: fold_safe)

lemma declare_domains_safe: "declare_domains p cs s = (r, s') \<Longrightarrow> msrp_safe n {} s \<Longrightarrow> msrp_safe n {} s'"
proof (induction cs arbitrary: s)
  case (Cons c cs)
  obtain x s1 where d: "msrp_declare_domain p (ucast (sr_class_id (sr_classes s) c)) (ucast (sr_class_pcp (sr_classes s) c))
    (sr_pvid (ms_port s p)) s = (x, s1)" by force
  have "msrp_safe n {} s1" using declare_domain_safe' [OF d] Cons.prems(2) by simp
  then show ?case using Cons d by (auto simp: Let_def split: if_splits)
qed simp

lemma port_enable_safe:
  assumes "msrp_safe n {} s"
  shows "msrp_safe n {} (snd (msrp_port_enable multi p s))"
proof (cases "msrp_is_enabled s p \<or> \<not> ms_initialized (ms_port s p)")
  case False
  obtain b s1 where d: "declare_domains p [0..<CFG_MSRP_MAX_CLASSES] (ms_set_app s p (mrp_enable (ms_app s p))) = (b, s1)" by force
  have 1: "msrp_safe n {} s1" using declare_domains_safe [OF d] assms by simp
  then have 2: "msrp_safe n {} (msrp_domain_update_boundary_port p s1)" by (rule boundary_update_safe)
  have "snd (msrp_port_enable multi p s) = (if b then if multi then msrp_update_enabled_state p True (msrp_domain_update_boundary_port p s1)
      else let s3 = msrp_exit_domains p (msrp_domain_update_boundary_port p s1) in ms_set_app s3 p (mrp_disable (ms_app s3 p))
    else ms_set_app s1 p (mrp_disable (ms_app s1 p)))"
    using False unfolding msrp_port_enable_def d by (cases b) (simp_all add: Let_def)
  then show ?thesis using 1 enabled_state_safe [OF 2] exit_domains_safe [OF 2] by (simp add: Let_def)
qed (use assms in \<open>simp add: msrp_port_enable_def\<close>)

text \<open>
  Disabling a port goes through all the streams before it updates the MAP, so that the streams seen so far wait
  for the update.
\<close>

lemma disable_stream_nearly:
  assumes "msrp_nearly n UNIV s" and "sheap s v \<noteq> None" and "p < n"
  shows "ub (disable_stream p v s) \<or> msrp_nearly n UNIV (disable_stream p v s) \<and> (\<forall>w. sheap s w \<noteq> None \<longrightarrow> sheap (disable_stream p v s) w \<noteq> None)"
proof -
  let ?s0 = "msrp_stream_remove_all_talker_attributes v p (msrp_stream_remove_all_listener_attributes v p s)"
  let ?s1 = "msrp_listener_registration_merge p v ?s0" and ?s2 = "disable_stream p v s"
  let ?ok = "\<lambda>s s'. ub s' \<or> msrp_nearly n UNIV s' \<and> (\<forall>w. sheap s w \<noteq> None \<longrightarrow> sheap s' w \<noteq> None)"
  have n: "n \<le> 16" using assms(1) by (simp add: msrp_nearly_def)
  have eff_ok: "?ok a b" if "msrp_nearly n UNIV a" "sheap a v \<noteq> None" "eff v {} {} a b" for a b
  proof -
    have "sheap b w \<noteq> None" if "sheap a w \<noteq> None" for w
      using that eff_get [OF \<open>eff v {} {} a b\<close> \<open>sheap a v \<noteq> None\<close>] \<open>eff v {} {} a b\<close> by (cases "w = v") (auto simp: eff_def)
    then show ?thesis using nearly_eff [OF that(1,3)] that(2) by auto
  qed
  have merge_ok: "?ok a b" if "msrp_nearly n UNIV a" "sheap a v \<noteq> None" "\<And>st. stream_wf n st \<Longrightarrow> stream_wf n (f st)"
    "eff v {} {} (upd_stream v f a) b" for a b f
  proof -
    have "msrp_nearly n UNIV (upd_stream v f a)" by (rule nearly_upd_stream [OF that(1,2) UNIV_I]) (rule that(3))
    moreover have "sheap (upd_stream v f a) v \<noteq> None" by (simp add: upd_stream_def)
    ultimately have "?ok (upd_stream v f a) b" using eff_ok that(4) by blast
    moreover have "sheap (upd_stream v f a) w \<noteq> None" if "sheap a w \<noteq> None" for w using that by (simp add: upd_stream_def)
    ultimately show ?thesis by blast
  qed
  have 0: "ub ?s0 \<or> msrp_nearly n UNIV ?s0 \<and> (\<forall>w. sheap s w \<noteq> None \<longrightarrow> sheap ?s0 w \<noteq> None)"
    by (rule eff_ok [OF assms(1,2) eff_then [OF eff_attributes(6) eff_attributes(3)]])
  have 1: "?ok ?s0 ?s1" if "msrp_nearly n UNIV ?s0" "sheap ?s0 v \<noteq> None"
    using listener_merge_form [OF that(2), of p] merge_ok [OF that] merged_wf(2) [OF _ assms(3) n] by blast
  have 2: "?ok ?s1 ?s2" if "msrp_nearly n UNIV ?s1" "sheap ?s1 v \<noteq> None"
    unfolding disable_stream_def
    using talker_merge_form [OF that(2), of p None] merge_ok [OF that] merged_wf(1) [OF _ assms(3) n] by blast
  have u: "ub ?s0 \<Longrightarrow> ub ?s2" "ub ?s1 \<Longrightarrow> ub ?s2" by (simp_all add: disable_stream_def sticky_merge)
  show ?thesis
  proof (cases "ub ?s0 \<or> ub ?s1")
    case False
    with 0 1 2 assms(2) show ?thesis by meson
  qed (use u in blast)
qed

lemma sticky_disable [sticky]: "ub s \<Longrightarrow> ub (disable_stream p v s)"
  unfolding disable_stream_def
  by (simp add: sticky_merge eff_ub [OF eff_attributes(3)] eff_ub [OF eff_attributes(6)])

lemma fold_disable:
  assumes "ub s \<or> msrp_nearly n UNIV s \<and> (\<forall>v \<in> set vs. sheap s v \<noteq> None)" and "p < n"
  shows "ub (fold (disable_stream p) vs s) \<or> msrp_nearly n UNIV (fold (disable_stream p) vs s)"
  using assms(1)
proof (induction vs arbitrary: s)
  case (Cons v vs)
  have "ub (disable_stream p v s) \<or> msrp_nearly n UNIV (disable_stream p v s) \<and> (\<forall>w \<in> set vs. sheap (disable_stream p v s) w \<noteq> None)"
  proof (cases "ub s")
    case False
    then show ?thesis using Cons.prems disable_stream_nearly [of n s v p] assms(2) by auto
  qed (simp add: sticky)
  from Cons.IH [OF this] show ?case by simp
qed auto

lemma port_disable_safe:
  assumes "msrp_safe n {} s" and "p < n"
  shows "msrp_safe n {} (msrp_port_disable p s)"
proof (cases "\<not> msrp_is_enabled s p \<or> \<not> ms_initialized (ms_port s p)")
  case False
  let ?s1 = "msrp_exit_domains p s"
  have "msrp_safe n {} ?s1" by (rule exit_domains_safe [OF assms(1)])
  then have "ub ?s1 \<or> msrp_nearly n UNIV ?s1 \<and> (\<forall>v \<in> set (streams ?s1). sheap ?s1 v \<noteq> None)"
    using nearly_mono [of n "{}" ?s1 UNIV] by (auto simp: msrp_safe_def msrp_nearly_def heap_ok_def)
  from fold_disable [OF this assms(2)] have "msrp_safe n UNIV (fold (disable_stream p) (streams ?s1) ?s1)" by (simp add: msrp_safe_def)
  from enabled_state_safe [OF this] show ?thesis using False by (simp add: msrp_port_disable_def Let_def)
qed (use assms(1) in \<open>auto simp: msrp_port_disable_def\<close>)

lemma enabled_status_safe: "msrp_safe n W (s\<lparr>msrp_enabled_status := b\<rparr>) = msrp_safe n W s"
  by (rule safe_other) simp_all

lemma msrp_enable_safe: "msrp_safe n {} s \<Longrightarrow> msrp_safe n {} (msrp_enable multi s)"
  by (auto simp: msrp_enable_def enabled_status_safe intro!: fold_safe port_enable_safe)

lemma msrp_disable_safe: "msrp_safe n {} s \<Longrightarrow> msrp_safe n {} (msrp_disable s)"
  by (auto simp: msrp_disable_def enabled_status_safe intro!: over_ports port_disable_safe)

subsection \<open>Initialization and reachable states\<close>

lemma port_init_safe: "msrp_port_init cfg p s = (rc, s') \<Longrightarrow> msrp_safe n W s' = msrp_safe n W s"
  by (auto simp: msrp_port_init_def Let_def split: prod.splits if_splits)

lemma init_ports_safe: "msrp_init_ports cfg ps s = (r, s') \<Longrightarrow> msrp_safe n W s' = msrp_safe n W s"
proof (induction ps arbitrary: s)
  case (Cons p ps)
  obtain rc s1 where 1: "msrp_port_init cfg p s = (rc, s1)" by force
  then show ?case using Cons port_init_safe [OF 1, of n W] by (auto split: if_splits)
qed simp

lemma msrp_init_safe:
  assumes "msrp_init cfg s0 = (0, s)" and "sheap s0 = Map.empty" and "mc_port_max cfg \<le> 16"
  shows "msrp_safe (mc_port_max cfg) {} s"
proof -
  let ?s1 = "msrp_map_init (s0\<lparr>ms_port_max := mc_port_max cfg, ms_is_bridge := mc_is_bridge cfg\<rparr>)"
  have "msrp_safe (mc_port_max cfg) {} ?s1"
    using assms(2,3) by (simp add: msrp_safe_def msrp_nearly_def heap_ok_def msrp_map_init_def)
  moreover obtain r s2 where i: "msrp_init_ports cfg [0..<mc_port_max cfg] ?s1 = (r, s2)" by force
  ultimately have "msrp_safe (mc_port_max cfg) {} s2" using init_ports_safe [OF i] by simp
  moreover have "s = s2 \<or> s = msrp_enable (mc_net_multi cfg) s2"
    using assms(1) i by (auto simp: msrp_init_def Let_def split: if_splits option.splits)
  ultimately show ?thesis using msrp_enable_safe by auto
qed

text \<open>One operation of MSRP: a packet, a timer, a message of an application, a link event or a management action.\<close>

inductive msrp_step :: "msrp_ctx \<Rightarrow> msrp_ctx \<Rightarrow> bool" where
  packet: "msrp_process_packet s p desc = Some (rc, s') \<Longrightarrow> msrp_step s s'"
| join_timer: "p < ms_port_max s \<Longrightarrow> msrp_step s (join_timer_expired msrp_ops p s)"
| leaveall_timer: "p < ms_port_max s \<Longrightarrow> msrp_step s (leaveall_timer_expired msrp_ops p s)"
| leave_timer: "p < ms_port_max s \<Longrightarrow> msrp_step s (leave_timer_expired msrp_ops p i s)"
| ipc: "msrp_step s (msrp_ipc_rx d s)"
| port_event: "msrp_step s (msrp_port_status l up rate s)"
| enable: "msrp_step s (msrp_enable multi s)"
| disable: "msrp_step s (msrp_disable s)"
| port_enable: "p < ms_port_max s \<Longrightarrow> msrp_step s (snd (msrp_port_enable mc p s))"
| port_disable: "p < ms_port_max s \<Longrightarrow> msrp_step s (msrp_port_disable p s)"

lemma step_safe: "msrp_step s s' \<Longrightarrow> msrp_safe n {} s \<Longrightarrow> msrp_safe n {} s'"
proof (induction rule: msrp_step.induct)
  case (packet s p desc rc s')
  then show ?case using process_packet_safe by blast
next
  case (join_timer p s)
  then show ?case using msrp_mrp.timers_J(1) by (auto intro!: safe_port [OF _ join_timer(2)])
next
  case (leaveall_timer p s)
  then show ?case using msrp_mrp.timers_J(2) by (auto intro!: safe_port [OF _ leaveall_timer(2)])
next
  case (leave_timer p s i)
  then show ?case using msrp_mrp.timers_J(3) by (auto intro!: safe_port [OF _ leave_timer(2)])
next
  case (port_disable p s)
  then show ?case using port_disable_safe by (auto intro!: safe_port [OF _ port_disable(2)])
qed (simp_all add: ipc_rx_safe port_status_safe msrp_enable_safe msrp_disable_safe port_enable_safe)

lemma steps_safe: "msrp_step\<^sup>*\<^sup>* s s' \<Longrightarrow> msrp_safe n {} s \<Longrightarrow> msrp_safe n {} s'"
  by (induction rule: rtranclp_induct) (auto dest: step_safe)

end
