(* ===== verification/MSRP_Props.thy ===== *)
theory MSRP_Props
  imports MSRP_Run
begin

section \<open>Properties of MSRP\<close>

text \<open>
  The invariant over all runs; the merge of the listener declarations against its specification; no advertise without
  its resources; the reception of a vector stays inside the packet; stream creation and lookup.
\<close>

subsection \<open>The invariant\<close>


subsection \<open>Merge of the listener declarations\<close>

text \<open>The merge of a set of listener declaration types as IEEE 802.1Q defines it: one type alone stays, a mix is READY FAILED.\<close>

definition listener_merge :: "u32 set \<Rightarrow> u32" where
  "listener_merge S =
     (if S = {} then MSRP_LISTENER_DECLARATION_TYPE_NONE
      else if S = {MSRP_LISTENER_DECLARATION_TYPE_READY} then MSRP_LISTENER_DECLARATION_TYPE_READY
      else if S = {MSRP_LISTENER_DECLARATION_TYPE_ASKING_FAILED} then MSRP_LISTENER_DECLARATION_TYPE_ASKING_FAILED
      else MSRP_LISTENER_DECLARATION_TYPE_READY_FAILED)"

abbreviation listener_types :: "u32 set" where
  "listener_types \<equiv> {MSRP_LISTENER_DECLARATION_TYPE_ASKING_FAILED, MSRP_LISTENER_DECLARATION_TYPE_READY,
     MSRP_LISTENER_DECLARATION_TYPE_READY_FAILED}"

definition other_listener_types :: "msrp_stream \<Rightarrow> nat \<Rightarrow> nat set \<Rightarrow> u32 set" where
  "other_listener_types st p ports = (\<lambda>i. listener_declaration_type (stream_port st i)) ` {i \<in> ports. i \<noteq> p \<and> is_listener_stream_registered st i}"

lemma listener_merge_insert:
  assumes "S \<subseteq> listener_types" and "t \<in> listener_types"
  shows "listener_merge (insert t S) =
    (if S = {} then t else if listener_merge S = t then t else MSRP_LISTENER_DECLARATION_TYPE_READY_FAILED)"
proof -
  have "S \<in> Pow listener_types" using assms(1) by blast
  then show ?thesis using assms(2) unfolding Pow_insert Pow_empty
    by (elim UnE imageE insertE emptyE; simp add: listener_merge_def insert_commute doubleton_eq_iff)
qed

lemma merge_top:
  assumes "listener_merge S = MSRP_LISTENER_DECLARATION_TYPE_READY_FAILED"
  shows "listener_merge (S \<union> S') = MSRP_LISTENER_DECLARATION_TYPE_READY_FAILED"
proof -
  have "S \<noteq> {}" "S \<noteq> {MSRP_LISTENER_DECLARATION_TYPE_READY}" "S \<noteq> {MSRP_LISTENER_DECLARATION_TYPE_ASKING_FAILED}"
    using assms by (auto simp: listener_merge_def)
  moreover have "S \<union> S' \<noteq> {x}" if "S \<noteq> {}" "S \<noteq> {x}" for x using that by (metis Un_upper1 subset_singletonD)
  ultimately show ?thesis by (simp add: listener_merge_def)
qed

lemma merge_loop_spec:
  assumes "S \<subseteq> listener_types" and "\<forall>i \<in> set ports. is_listener_stream_registered st i \<longrightarrow> listener_declaration_type (stream_port st i) \<in> listener_types"
  shows "listener_merge_loop st p ports (listener_merge S) = listener_merge (S \<union> other_listener_types st p (set ports))"
  using assms
proof (induction ports arbitrary: S)
  case Nil
  then show ?case by (simp add: other_listener_types_def)
next
  case (Cons i ports)
  show ?case
  proof (cases "i \<noteq> p \<and> is_listener_stream_registered st i")
    case False
    then have "other_listener_types st p (set (i # ports)) = other_listener_types st p (set ports)"
      by (auto simp: other_listener_types_def)
    with False Cons show ?thesis by auto
  next
    case True
    define t where "t = listener_declaration_type (stream_port st i)"
    have t: "t \<in> listener_types" using Cons.prems(2) True by (simp add: t_def)
    have o: "S \<union> other_listener_types st p (set (i # ports)) = insert t S \<union> other_listener_types st p (set ports)"
      using True by (auto simp: other_listener_types_def t_def)
    have m: "listener_merge (insert t S) = (if S = {} then t else if listener_merge S = t then t else MSRP_LISTENER_DECLARATION_TYPE_READY_FAILED)"
      by (rule listener_merge_insert [OF Cons.prems(1) t])
    have IH: "listener_merge_loop st p ports (listener_merge (insert t S)) = listener_merge (insert t S \<union> other_listener_types st p (set ports))"
      using Cons.IH [of "insert t S"] Cons.prems t by simp
    have none: "listener_merge S = MSRP_LISTENER_DECLARATION_TYPE_NONE \<longleftrightarrow> S = {}" by (simp add: listener_merge_def)
    have cases: "S = {} \<or> listener_merge S \<in> listener_types" by (simp add: listener_merge_def)
    show ?thesis
    proof (cases "listener_merge (insert t S) = MSRP_LISTENER_DECLARATION_TYPE_READY_FAILED")
      case rf: True
      from merge_top [OF this] have r: "listener_merge (S \<union> other_listener_types st p (set (i # ports))) = MSRP_LISTENER_DECLARATION_TYPE_READY_FAILED"
        unfolding o .
      have "listener_merge_loop st p (i # ports) (listener_merge S) \<in>
        {MSRP_LISTENER_DECLARATION_TYPE_READY_FAILED, listener_merge_loop st p ports MSRP_LISTENER_DECLARATION_TYPE_READY_FAILED}"
        using True t cases none m rf by (auto simp: t_def [symmetric] Let_def split: if_splits)
      then show ?thesis using r IH rf o by auto
    next
      case False
      then have "listener_merge_loop st p (i # ports) (listener_merge S) = listener_merge_loop st p ports (listener_merge (insert t S))"
        using True t cases none m by (auto simp: t_def [symmetric] Let_def split: if_splits)
      then show ?thesis using IH o by simp
    qed
  qed
qed

text \<open>
  C7: The listener declaration that MAP propagates to a port is the merge of the declarations registered on all the other
  ports, together with READY when an application of this station has asked for the stream: nothing gives
  NONE, READY alone and ASKING FAILED alone stay, every mix is READY FAILED. The loop with its early exits computes
  this specification for every stream whose registered ports have valid types, which the invariant ensures.
\<close>

theorem listener_merge_refines:
  assumes "stream_wf n st"
  shows "map_listener_registration_merge st p n =
    listener_merge (other_listener_types st p {..<n} \<union>
      (if is_listener_stream_user_declared_any st then {MSRP_LISTENER_DECLARATION_TYPE_READY} else {}))"
proof -
  let ?S = "if is_listener_stream_user_declared_any st then {MSRP_LISTENER_DECLARATION_TYPE_READY} else {}"
  have r: "\<forall>i \<in> set [0..<n]. is_listener_stream_registered st i \<longrightarrow> listener_declaration_type (stream_port st i) \<in> listener_types"
    using assms by (simp add: stream_wf_def reg_wf_def)
  have i: "(if is_listener_stream_user_declared_any st then MSRP_LISTENER_DECLARATION_TYPE_READY else MSRP_LISTENER_DECLARATION_TYPE_NONE) =
    listener_merge ?S" by (simp add: listener_merge_def)
  show ?thesis unfolding map_listener_registration_merge_def i
    using merge_loop_spec [of ?S "[0..<n]" st p, OF _ r] by (simp add: Un_commute atLeast0LessThan)
qed

definition mixed_stream :: msrp_stream where
  "mixed_stream = (empty_stream [0, 1, 2, 3, 4, 5, 0, 1])\<lparr>listener_registered_state := set_bit 1 (set_bit 2 0),
     stream_port := (\<lambda>p. empty_stream_port\<lparr>listener_declaration_type := (if p = 1 then MSRP_LISTENER_DECLARATION_TYPE_READY
       else MSRP_LISTENER_DECLARATION_TYPE_ASKING_FAILED)\<rparr>)\<rparr>"

lemma mixed_stream_wf: "stream_wf 3 mixed_stream"
proof -
  have l: "listener_registered_state mixed_stream = set_bit 1 (set_bit 2 0)" by (simp add: mixed_stream_def)
  have "is_listener_stream_registered mixed_stream p \<longleftrightarrow> p = 1 \<or> p = 2" for p
    unfolding is_listener_stream_registered_def l bit_masks by auto
  moreover have "\<not> is_talker_stream_registered mixed_stream p" "\<not> is_talker_stream_declared mixed_stream p"
    "\<not> is_listener_stream_declared mixed_stream p" "\<not> is_talker_stream_user_declared mixed_stream p"
    "\<not> is_listener_stream_user_declared mixed_stream p" "\<not> rv_valid (reservations (stream_port mixed_stream p) d)"
    "listener_declaration_type (stream_port mixed_stream p) = (if p = 1 then 2 else 1)" for p d
    by (simp_all add: mask_defs mixed_stream_def empty_stream_def empty_stream_port_def empty_reservation_def)
  ultimately show ?thesis by (auto simp: stream_wf_def masks_within_def decl_wf_def reg_wf_def)
qed

theorem listener_merge_refines_witness:
  "map_listener_registration_merge mixed_stream 0 3 = listener_merge (other_listener_types mixed_stream 0 {..<3} \<union>
     (if is_listener_stream_user_declared_any mixed_stream then {MSRP_LISTENER_DECLARATION_TYPE_READY} else {}))
   \<and> map_listener_registration_merge mixed_stream 0 3 = MSRP_LISTENER_DECLARATION_TYPE_READY_FAILED"
  using listener_merge_refines [OF mixed_stream_wf, of 0] by (simp, code_simp)

subsection \<open>No advertise without its resources\<close>

lemma mask_update_bit: "p < 16 \<Longrightarrow> bit (mask_update m p b) p = b"
  by (simp add: mask_update_def bit_masks)

lemma update_fqtss_true:
  assumes "msrp_update_fqtss p v val True s = (rc, s')" and "\<not> rc < 0" and "p < 16"
  shows "bit (fqtss_state (get_stream s' v)) p \<and> ms_is_bridge s' = ms_is_bridge s \<and> listener_attached (get_stream s' v) p = listener_attached (get_stream s v) p"
  using assms by (auto simp: msrp_update_fqtss_def Let_def fqtss_state_cmp_def fqtss_set_state_def mask_update_bit
      listener_attached_def mask_defs upd_stream_def get_stream_def split: if_splits prod.splits)

lemma fdb_update_true:
  assumes "msrp_fdb_update v p mac vid True s = (rc, s')" and "\<not> rc < 0" and "p < 16"
  shows "bit (fdb_state (get_stream s' v)) p \<and> fqtss_state (get_stream s' v) = fqtss_state (get_stream s v)"
  using assms by (auto simp: msrp_fdb_update_def Let_def fdb_state_cmp_def fdb_set_state_def mask_update_bit
      upd_stream_def get_stream_def split: if_splits)

definition resources_held :: "bool \<Rightarrow> msrp_stream \<Rightarrow> nat \<Rightarrow> bool" where
  "resources_held bridge st p \<longleftrightarrow> bit (fqtss_state st) p \<and> (bridge \<longrightarrow> bit (fdb_state st) p)"

lemma talker_resources_held:
  assumes "talker_resources v p val type code s = (MSRP_TALKER_DECLARATION_TYPE_ADVERTISE, code', s')"
    and "listener_attached (get_stream s v) p" and "p < 16"
  shows "resources_held (ms_is_bridge s) (get_stream s' v) p"
proof -
  obtain rc s1 where f: "msrp_update_fqtss p v val True s = (rc, s1)" by force
  obtain rc2 s2 where d: "msrp_fdb_update v p (fv_destination_address val) (fv_vlan_identifier val) True s1 = (rc2, s2)" by force
  have t: "type = MSRP_TALKER_DECLARATION_TYPE_ADVERTISE" and rc: "\<not> rc < 0"
    using assms(1,2) f by (auto simp: talker_resources_def split: if_splits prod.splits)
  note F = update_fqtss_true [OF f rc assms(3)]
  show ?thesis
  proof (cases "ms_is_bridge s")
    case True
    then have "\<not> rc2 < 0" "s' = s2" using assms(1,2) f d rc t F by (auto simp: talker_resources_def split: if_splits)
    with fdb_update_true [OF d _ assms(3)] F show ?thesis by (simp add: resources_held_def)
  next
    case False
    then have "s' = s1" using assms(1,2) f rc t F by (simp add: talker_resources_def)
    with F False show ?thesis by (simp add: resources_held_def)
  qed
qed

text \<open>Reserving and releasing change neither the MRP applications nor the declarations.\<close>

definition res_keep :: "nat \<Rightarrow> msrp_ctx \<Rightarrow> msrp_ctx \<Rightarrow> bool" where
  "res_keep v s s' \<longleftrightarrow> ms_port s' = ms_port s \<and> stream_port (get_stream s' v) = stream_port (get_stream s v) \<and>
     talker_declared_state (get_stream s' v) = talker_declared_state (get_stream s v) \<and>
     listener_registered_state (get_stream s' v) = listener_registered_state (get_stream s v)"

lemma res_keep_trans: "res_keep v a b \<Longrightarrow> res_keep v b c \<Longrightarrow> res_keep v a c"
  by (simp add: res_keep_def)

lemma res_keep_steps:
  "res_keep v s (undefined_behaviour s)" "res_keep v s (snd (msrp_fdb_update v p mac vid b s))"
  "res_keep v s (snd (msrp_update_fqtss p v val b s))"
  by (auto simp: res_keep_def undefined_behaviour_def msrp_fdb_update_def msrp_update_fqtss_def fdb_set_state_def fqtss_set_state_def
      upd_stream_def get_stream_def Let_def split: prod.split)

lemma res_keep_release: "res_keep v s (talker_release v p s)"
  using res_keep_steps res_keep_trans [OF res_keep_steps(2) res_keep_steps(3)]
  by (auto simp: talker_release_def Let_def res_keep_def split: option.split)

lemma res_keep_resources: "talker_resources v p val type code s = (t, c, s') \<Longrightarrow> res_keep v s s'"
proof -
  assume r: "talker_resources v p val type code s = (t, c, s')"
  obtain rc s1 where f: "msrp_update_fqtss p v val True s = (rc, s1)" by force
  obtain rc2 s2 where d: "msrp_fdb_update v p (fv_destination_address val) (fv_vlan_identifier val) True s1 = (rc2, s2)" by force
  have 1: "res_keep v s s1" using res_keep_steps(3) [of v s p val True] f by simp
  have 2: "res_keep v s s2" using res_keep_trans [OF 1] res_keep_steps(2) [of v s1 p] d by (metis snd_conv)
  have "s' \<in> {talker_release v p s1, s1, talker_release v p s2, s2, talker_release v p s}"
    using r f d by (auto simp: talker_resources_def split: if_splits)
  then show ?thesis using 1 2 res_keep_release res_keep_trans by blast
qed

text \<open>The declared attribute of a port is alive and its type is the one of the reservation table.\<close>

definition decl_agrees :: "msrp_ctx \<Rightarrow> nat \<Rightarrow> nat \<Rightarrow> bool" where
  "decl_agrees s v p \<longleftrightarrow> (is_talker_stream_declared (get_stream s v) p \<longrightarrow>
     (case declared_talker_attribute (stream_port (get_stream s v) p) of
        None \<Rightarrow> False
      | Some i \<Rightarrow> (case attrs (ms_app s p) i of
          None \<Rightarrow> False
        | Some a \<Rightarrow> (rv_declaration_type (reservations (stream_port (get_stream s v) p) MSRP_DIRECTION_TALKER) = MSRP_TALKER_DECLARATION_TYPE_ADVERTISE)
            = (at_type a = MSRP_ATTR_TYPE_TALKER_ADVERTISE))))"

lemma agrees_keep: "res_keep v s s' \<Longrightarrow> decl_agrees s v p \<Longrightarrow> decl_agrees s' v p"
proof -
  assume k: "res_keep v s s'" and a: "decl_agrees s v p"
  have "ms_app s' p = ms_app s p" "stream_port (get_stream s' v) = stream_port (get_stream s v)"
    "is_talker_stream_declared (get_stream s' v) p = is_talker_stream_declared (get_stream s v) p"
    using k by (simp_all add: res_keep_def ms_app_def mask_defs)
  then show ?thesis using a unfolding decl_agrees_def by (simp only:)
qed

lemma withdraw_agrees:
  assumes "talker_withdraw v p t val s = (imm, ch, s')" and "decl_agrees s v p"
    and "is_talker_stream_declared (get_stream s' v) p"
    and "rv_declaration_type (reservations (stream_port (get_stream s' v) p) MSRP_DIRECTION_TALKER) = MSRP_TALKER_DECLARATION_TYPE_ADVERTISE"
  shows "t = MSRP_ATTR_TYPE_TALKER_ADVERTISE"
  using assms by (auto simp: talker_withdraw_def Let_def decl_agrees_def msrp_talker_attribute_cmp_def mask_defs talker_declared_clear_def
      bit_masks split: if_splits option.splits)

definition same_resources :: "nat \<Rightarrow> msrp_ctx \<Rightarrow> msrp_ctx \<Rightarrow> bool" where
  "same_resources v s s' \<longleftrightarrow> fqtss_state (get_stream s' v) = fqtss_state (get_stream s v) \<and> fdb_state (get_stream s' v) = fdb_state (get_stream s v)"

lemma withdraw_same: "same_resources v s (snd (snd (talker_withdraw v p t val s)))"
  by (simp add: same_resources_def talker_withdraw_def Let_def msrp_reservation_destroy_def upd_sport_def talker_declared_clear_def split: option.split)

lemma declare_same: "same_resources v s (snd (talker_declare v p t val type imm new s))"
  by (auto simp: same_resources_def talker_declare_def Let_def msrp_reservation_create_def upd_sport_def talker_declared_set_def
      split: prod.split)

lemma declare_type:
  assumes "talker_declare v p t val type imm new s = (de, s')" and "is_talker_stream_declared (get_stream s' v) p"
    and "\<not> is_talker_stream_declared (get_stream s v) p"
  shows "rv_declaration_type (reservations (stream_port (get_stream s' v) p) MSRP_DIRECTION_TALKER) = type"
  using assms by (auto simp: talker_declare_def Let_def msrp_reservation_create_def upd_sport_def talker_declared_set_def mask_defs bit_masks
      split: prod.splits if_splits)

lemma declare_keeps: "is_talker_stream_declared (get_stream s v) p \<Longrightarrow> talker_declare v p t val type imm new s = (False, s)"
  by (simp add: talker_declare_def)


subsection \<open>The talker declaration of MAP\<close>

definition talker_ports :: "msrp_stream \<Rightarrow> nat \<Rightarrow> nat set" where
  "talker_ports st n = {i. i < n \<and> is_talker_stream_registered st i}"

lemma talker_ports_Suc: "talker_ports st (Suc n) = (if is_talker_stream_registered st n then insert n (talker_ports st n) else talker_ports st n)"
  by (auto simp: talker_ports_def less_Suc_eq)

lemma talker_ports_finite: "finite (talker_ports st n)" "n \<notin> talker_ports st n"
  by (simp_all add: talker_ports_def)

lemma talker_ports_Max: "Max (insert n (talker_ports st n)) = n"
  by (rule Max_eqI) (auto simp: talker_ports_def)

lemma talker_type_fold:
  defines "g \<equiv> \<lambda>st i (type, count). if is_talker_stream_registered st i then (talker_declaration_type (stream_port st i), count + 1) else (type, count)"
  shows "fold (g st) [0..<n] (t0, 0 :: nat) =
    (if talker_ports st n = {} then t0 else talker_declaration_type (stream_port st (Max (talker_ports st n))), card (talker_ports st n))"
proof (induction n)
  case (Suc n)
  have "fold (g st) [0..<Suc n] (t0, 0 :: nat) = g st n (fold (g st) [0..<n] (t0, 0))" by simp
  then show ?case unfolding Suc.IH
    by (simp add: g_def talker_ports_Suc talker_ports_finite talker_ports_Max)
qed (simp add: talker_ports_def)

text \<open>
  C9: The talker declaration that MAP propagates: with talkers on two or more ports the stream identifier is in use
  (Talker Failed, code 4); a priority that is no SR class gives Talker Failed with code 13; with a talker on one
  port that port's type is passed on, and with none (a talker application of this station) Talker Advertise.
\<close>

theorem talker_type_refines:
  "map_talker_declaration_type st n =
    (if 2 \<le> card (talker_ports st n) then (MSRP_TALKER_DECLARATION_TYPE_FAILED, STREAM_ID_ALREADY_IN_USE)
     else if sr_class st = SR_CLASS_NONE then (MSRP_TALKER_DECLARATION_TYPE_FAILED, REQUESTED_PRIORITY_IS_NOT_AN_SR_CLASS_PRIORITY)
     else if talker_ports st n = {} then (MSRP_TALKER_DECLARATION_TYPE_ADVERTISE, 0)
     else (talker_declaration_type (stream_port st (Max (talker_ports st n))), 0))"
  using talker_ports_finite(1) [of st n] by (simp add: map_talker_declaration_type_def talker_type_fold)

subsection \<open>Reception\<close>

lemma packed_index: "i < N \<Longrightarrow> i div 3 < (N + 2) div (3::nat)" "i < N \<Longrightarrow> i div 4 < (N + 3) div (4::nat)"
  by presburger+

lemma rd_event_some: "i < N \<Longrightarrow> three + (N + 2) div 3 \<le> length buf \<Longrightarrow> \<exists>ev. rd_event buf three i event = Some ev"
  using packed_index(1) [of i N] by (simp add: rd_event_def rd_Some)

lemma stream_values_some:
  assumes "three + (N + 2) div 3 \<le> length buf" and "t = MSRP_ATTR_TYPE_LISTENER \<Longrightarrow> four + (N + 3) div 4 \<le> length buf" and "i + k = N"
  shows "\<exists>s'. stream_values k p t buf three four i val event decl s = Some s'"
  using assms(3)
proof (induction k arbitrary: i val event decl s)
  case (Suc k)
  then have i: "i < N" and k: "(i + 1) + k = N" by simp_all
  obtain ev where ev: "rd_event buf three i event = Some ev" using rd_event_some [OF i assms(1)] by blast
  show ?case
  proof (cases "t = MSRP_ATTR_TYPE_LISTENER")
    case True
    have "four + i div 4 < length buf" using packed_index(2) [OF i] assms(2) [OF True] by linarith
    then have "\<exists>d. (if i mod 4 = 0 then map_option mrp_get_four_packed_event (rd buf (four + i div 4)) else Some decl) = Some d"
      by (simp add: rd_Some)
    then obtain d where d: "(if i mod 4 = 0 then map_option mrp_get_four_packed_event (rd buf (four + i div 4)) else Some decl) = Some d" ..
    show ?thesis using True d by (simp only: stream_values.simps ev d bind.simps Let_def if_True simp_thms) (rule Suc.IH [OF k, unfolded True])
  next
    case False
    then show ?thesis by (simp only: stream_values.simps ev bind.simps if_False simp_thms) (rule Suc.IH [OF k])
  qed
qed simp

lemma domain_values_some:
  assumes "three + (N + 2) div 3 \<le> length buf" and "i + k = N"
  shows "\<exists>s'. domain_values k p buf three i val event s = Some s'"
  using assms(2)
proof (induction k arbitrary: i val event s)
  case (Suc k)
  then have i: "i < N" and k: "(i + 1) + k = N" by simp_all
  obtain ev where ev: "rd_event buf three i event = Some ev" using rd_event_some [OF i assms(1)] by blast
  show ?case by (simp only: domain_values.simps ev bind.simps) (rule Suc.IH [OF k])
qed simp

text \<open>
  C10: A vector is read inside the packet. When the attribute passes \<open>msrp_attribute_check\<close> and the bytes of the first value and of
  the packed events (whose number \<open>mrp.c\<close> asks from \<open>msrp_event_length\<close>) are inside the packet, \<open>msrp_vector_handler\<close> reads nothing outside of
  it, for any number of values, and returns.
\<close>

theorem msrp_vector_in_bounds:
  assumes "msrp_attribute_check type len" and "off + unat len + msrp_event_length type n \<le> length buf"
  shows "\<exists>s'. msrp_vector_handler s p type buf off n = Some s'"
proof -
  let ?t = "unat type"
  have "?t < 5" "?t \<noteq> 0" using assms(1) by (simp_all add: msrp_attribute_check_def word_less_nat_alt unat_eq_0)
  then have t: "?t = 1 \<or> ?t = 2 \<or> ?t = 3 \<or> ?t = 4" by linarith
  have len: "unat len = msrp_attribute_length ?t" using assms(1) t
    by (auto simp: msrp_attribute_check_def msrp_attribute_length_def)
  have l3: "?t = 3 \<Longrightarrow> type = 3" by (simp add: word_unat_eq_iff)
  have ev: "off + msrp_attribute_length ?t + (n + 2) div 3 + (if ?t = 3 then (n + 3) div 4 else 0) \<le> length buf"
    using assms(2) len l3 by (auto simp: msrp_event_length_def)
  have s: "\<exists>s'. stream_values n p ?t buf (off + msrp_attribute_length ?t) (off + msrp_attribute_length ?t + (n + 2) div 3) 0 val [] [0, 0, 0, 0] s = Some s'" for val
    by (rule stream_values_some [where N = n]) (use ev in \<open>auto split: if_splits\<close>)
  have d: "\<exists>s'. domain_values n p buf (off + msrp_attribute_length ?t) 0 val [] s = Some s'" for val
    by (rule domain_values_some [where N = n]) (use ev in \<open>auto split: if_splits\<close>)
  show ?thesis unfolding msrp_vector_handler_def Let_def using s d t ev by auto
qed

theorem msrp_vector_in_bounds_witness:
  "\<forall>s. \<exists>s'. msrp_vector_handler s 0 3 [0, 1, 2, 3, 4, 5, 0, 1, 36, 128] 0 1 = Some s'"
  using msrp_vector_in_bounds [of 3 8 0 1 "[0, 1, 2, 3, 4, 5, 0, 1, 36, 128]" _ 0]
  by (simp add: msrp_attribute_check_def msrp_attribute_length_def msrp_event_length_def)

subsection \<open>Creation and lookup of streams\<close>

text \<open>
  After a stream has been created for an identifier, looking the identifier up finds that stream, creating it again gives the
  same stream and changes nothing, and every other identifier still leads to what it led to before.
\<close>

theorem msrp_create_find:
  assumes "msrp_ok n s" and "length sid = 8" and "msrp_create_stream sid s = (Some v, s')"
  shows "msrp_find_stream s' sid = Some v \<and> msrp_create_stream sid s' = (Some v, s') \<and>
    (\<forall>other. other \<noteq> sid \<longrightarrow> msrp_find_stream s' other = msrp_find_stream s other)"
proof -
  have h: "heap_ok s" using assms(1) by (simp add: msrp_ok_def msrp_nearly_def)
  have nz: "sid \<noteq> replicate 8 0" using assms(3) by (auto simp: msrp_create_stream_def)
  show ?thesis
  proof (cases "msrp_find_stream s sid")
    case (Some w)
    then show ?thesis using assms(3) nz by (simp add: msrp_create_stream_def)
  next
    case None
    then have v: "v = next_stream s" and st: "streams s' = v # streams s" and sh: "sheap s' = (sheap s)(v \<mapsto> empty_stream sid)"
      using assms(3) nz by (auto simp: msrp_create_stream_def Let_def split: if_splits)
    have id: "fv_stream_id (fv (get_stream s' v)) = sid" using assms(2) by (simp add: sh get_stream_def empty_stream_def fv_stream_id_def)
    have same: "get_stream s' w = get_stream s w" if "w \<in> set (streams s)" for w
      using that h v by (auto simp: heap_ok_def sh get_stream_def)
    have "find (\<lambda>w. fv_stream_id (fv (get_stream s' w)) = other) (streams s) = find (\<lambda>w. fv_stream_id (fv (get_stream s w)) = other) (streams s)" for other
      using same by (intro find_cong) auto
    then show ?thesis using id nz by (auto simp: msrp_find_stream_def msrp_create_stream_def st)
  qed
qed

end
