(* ===== verification/MSRP_Witness.thy ===== *)
theory MSRP_Witness
  imports MSRP_Props
begin

section \<open>Concrete runs of MSRP\<close>

text \<open>
  An end station with two ports: it is initialized, the link of a port comes up and an application asks for a
  stream. A second state has a stream advertised on a port where a listener has just become ready. They show that the hypotheses of the
  properties of MSRP hold of runs of the code.
\<close>

declare fun_upd_apply [code]

definition demo_mvrp :: mvrp_ctx where
  "demo_mvrp = \<lparr>vheap = Map.empty, next_vlan = 0, vlans = [], num_vlans = 0, forwarding_state = 0, operational_state = 0,
     port_max = 0, is_bridge = False, port_app = (\<lambda>_. mrp_ex 1500), logical_port = (\<lambda>_. 0),
     srp_initialized = (\<lambda>_. True), vlan_malloc = (\<lambda>_. True), n_vlan_malloc = 0, fdb_calls = [], ipc_rx_open = False,
     ipc_tx_open = False, ipc_tx_sync_open = False, ipc_ok = (\<lambda>_. True), n_ipc = 0, ipc_sent = [], use_after_free = False\<rparr>"

definition demo_port :: msrp_port where
  "demo_port = \<lparr>ms_logical_port = 0, msrp_send_leave = False, port_tc_max_latency = 0, msrp_port_enabled_status = False,
    srp_domain_boundary_port = (\<lambda>_. False), sr_pvid = 0, domain = (\<lambda>_. None), dheap = Map.empty, next_domain = 0, domains = [],
    num_domains = 0, mrp_app = (mrp_ex 1500)\<lparr>tx_alloc := (\<lambda>_. None)\<rparr>, ms_initialized = True\<rparr>"

definition demo_blank :: msrp_ctx where
  "demo_blank = \<lparr>sheap = Map.empty, next_stream = 0, streams = [], num_streams = 0, map_forwarding_state = 0, ms_operational_state = 0,
   enabled_state = 0, ms_port_max = 0, ms_is_bridge = False, msrp_enabled_status = False, ms_port = (\<lambda>_. demo_port), mvrp = demo_mvrp,
   fqtss = snd (common_fqtss_init example_fqtss), sr_classes = sr_class_init, stream_malloc = (\<lambda>_. True), n_stream_malloc = 0,
   fdb_ok = (\<lambda>_. True), n_fdb = 0, fdb_log = [], ms_ipc_ok = (\<lambda>_. True), ms_n_ipc = 0, ms_ipc_sent = [], ub = False\<rparr>"

definition demo_cfg :: msrp_config where
  "demo_cfg = \<lparr>mc_enabled = False, mc_is_bridge = False, mc_port_max = 2, mc_logical_port_list = (\<lambda>p. of_nat p + 2), mc_send_leave = False,
     mc_net_multi = (\<lambda>_. True), mc_ipc_init = (\<lambda>_. True)\<rparr>"

definition demo_sid :: "u8 list" where
  "demo_sid = [0, 1, 2, 3, 4, 5, 0, 1]"

definition demo_request :: msrp_ipc_desc where
  "demo_request = \<lparr>md_msg = LISTENER_REGISTER 2 demo_sid, md_good = True, md_type = 1, md_len = 12, md_src = 0, md_sync = False\<rparr>"

definition demo_init :: msrp_ctx where
  "demo_init = snd (msrp_init demo_cfg demo_blank)"

definition demo_run :: msrp_ctx where
  "demo_run = msrp_ipc_rx demo_request (msrp_port_status 2 True 1000000000 demo_init)"

lemma demo_init_ok: "msrp_init demo_cfg demo_blank = (0, demo_init)"
proof -
  have "fst (msrp_init demo_cfg demo_blank) = 0" by code_simp
  then show ?thesis unfolding demo_init_def by (metis prod.collapse)
qed

lemma demo_run_steps: "msrp_step\<^sup>*\<^sup>* demo_init demo_run"
  unfolding demo_run_def by (rule rtranclp.rtrancl_into_rtrancl [OF r_into_rtranclp [of msrp_step, OF port_event] ipc])

lemma demo_run_result: "\<not> ub demo_run"
  by code_simp


lemma demo_sid_nz: "demo_sid \<noteq> replicate 8 0"
  by code_simp

theorem msrp_create_find_witness:
  "msrp_find_stream (snd (msrp_create_stream demo_sid demo_blank)) demo_sid = Some 0"
proof -
  have "msrp_ok 0 demo_blank" by (simp add: msrp_ok_def msrp_nearly_def heap_ok_def demo_blank_def)
  moreover have "msrp_create_stream demo_sid demo_blank = (Some 0, snd (msrp_create_stream demo_sid demo_blank))"
    using demo_sid_nz by (simp add: msrp_create_stream_def msrp_find_stream_def demo_blank_def)
  ultimately show ?thesis using msrp_create_find [of 0 demo_blank demo_sid 0] by (simp add: demo_sid_def)
qed

text \<open>A stream of class A, advertised on port 0, with a ready listener that has just been registered there.\<close>

definition demo_value :: "u8 list" where
  "demo_value = demo_sid @ [1, 2, 3, 4, 5, 6, 0, 2, 0, 224, 0, 1, 112, 0, 0, 0, 1] @ replicate 9 0"

definition demo_fqtss :: fqtss_state where
  "demo_fqtss = snd (common_fqtss_set_port_transmit_rate (snd (common_fqtss_init example_fqtss)) 0 1000000000)"

definition demo_attached :: msrp_ctx where
  "demo_attached = demo_blank\<lparr>ms_is_bridge := True, fqtss := demo_fqtss,
     ms_port := (\<lambda>_. demo_port\<lparr>mrp_app := (mrp_ex 1500)\<lparr>attrs := [0 \<mapsto>
       \<lparr>at_type = MSRP_ATTR_TYPE_TALKER_ADVERTISE, at_val = take 25 demo_value, at_applicant = \<lparr>ap_state = MRP_STATE_VP, ap_action = MRP_ACTION_NONE\<rparr>,
        at_registrar = \<lparr>reg_state = MRP_STATE_MT, reg_action = MRP_ACTION_NONE, reg_leave = \<lparr>tm_created = True, tm_started = False\<rparr>\<rparr>\<rparr>]\<rparr>\<rparr>),
     streams := [0], num_streams := 1, sheap := [0 \<mapsto> (empty_stream demo_sid)\<lparr>fv := demo_value, sr_class := SR_CLASS_A,
       talker_declared_state := 1, talker_registered_state := 2, listener_registered_state := 1,
       stream_port := (\<lambda>_. empty_stream_port\<lparr>declared_talker_attribute := Some 0, listener_declaration_type := MSRP_LISTENER_DECLARATION_TYPE_READY,
         reservations := (\<lambda>_. empty_reservation\<lparr>rv_valid := True\<rparr>)\<rparr>)\<rparr>]\<rparr>"

definition demo_stream :: msrp_stream where
  "demo_stream = get_stream demo_attached 0"

lemma demo_bandwidth:
  "fst (common_fqtss_stream_add demo_fqtss 0 (fv_stream_id demo_value)
     (fv_vlan_identifier demo_value) (fv_priority demo_value)
     (srp_tspec_to_idle_slope SR_CLASS_A (ucast (fv_max_frame_size demo_value)) (ucast (fv_max_interval_frames demo_value))) True) = 0"
  by code_simp

lemma demo_bandwidth':
  "\<exists>fq. common_fqtss_stream_add (fqtss demo_attached) 0 (fv_stream_id demo_value) (fv_vlan_identifier demo_value) (fv_priority demo_value)
     (srp_tspec_to_idle_slope SR_CLASS_A (ucast (fv_max_frame_size demo_value)) (ucast (fv_max_interval_frames demo_value))) True = (0, fq)"
proof -
  have "fqtss demo_attached = demo_fqtss"
    by (simp add: demo_attached_def)
  then show ?thesis using demo_bandwidth by (metis prod.collapse)
qed

lemma demo_attached_stream:
  "get_stream demo_attached 0 = demo_stream" "sheap demo_attached 0 = Some demo_stream" "fv demo_stream = demo_value" "sr_class demo_stream = SR_CLASS_A"
  "fqtss_state demo_stream = 0" "fdb_state demo_stream = 0" "msrp_to_logical_port demo_attached 0 = 0" "ms_is_bridge demo_attached"
  "listener_attached demo_stream 0" "is_talker_stream_declared demo_stream 0" "\<not> srp_domain_boundary_port (ms_port demo_attached 0) c"
  by (simp_all add: demo_attached_def demo_stream_def get_stream_def msrp_to_logical_port_def demo_port_def empty_stream_def listener_attached_def mask_defs)

lemma demo_resources:
  "\<exists>s'. talker_resources 0 0 demo_value MSRP_TALKER_DECLARATION_TYPE_ADVERTISE 0 demo_attached = (MSRP_TALKER_DECLARATION_TYPE_ADVERTISE, 0, s')"
  using demo_bandwidth'
  by (auto simp: talker_resources_def msrp_update_fqtss_def msrp_fdb_update_def demo_attached_stream fqtss_state_cmp_def fdb_state_cmp_def Let_def)
  (simp add: demo_attached_def demo_blank_def upd_stream_def)

lemma demo_update:
  "\<exists>s'. talker_update_declaration 0 0 MSRP_TALKER_DECLARATION_TYPE_ADVERTISE 0 False demo_attached = s' \<and> res_keep 0 demo_attached s'"
proof -
  obtain s1 where 1: "talker_resources 0 0 demo_value MSRP_TALKER_DECLARATION_TYPE_ADVERTISE 0 demo_attached = (MSRP_TALKER_DECLARATION_TYPE_ADVERTISE, 0, s1)"
    using demo_resources by blast
  have k: "res_keep 0 demo_attached s1" by (rule res_keep_resources [OF 1])
  have p: "declared_talker_attribute (stream_port (get_stream s1 0) 0) = Some 0" "is_talker_stream_declared (get_stream s1 0) 0"
    and a: "\<exists>a. attrs (ms_app s1 0) 0 = Some a \<and> at_type a = MSRP_ATTR_TYPE_TALKER_ADVERTISE \<and> at_val a = take 25 demo_value"
    using k demo_attached_stream(10)
    by (simp_all add: res_keep_def mask_defs ms_app_def demo_attached_stream(1)) (simp_all add: demo_attached_def demo_stream_def get_stream_def)
  have "talker_withdraw 0 0 MSRP_ATTR_TYPE_TALKER_ADVERTISE demo_value s1 = (False, False, s1)"
    using p a by (auto simp: talker_withdraw_def Let_def msrp_talker_attribute_cmp_def)
  then have "talker_update_declaration 0 0 MSRP_TALKER_DECLARATION_TYPE_ADVERTISE 0 False demo_attached = s1"
    using 1 p(2) by (simp add: talker_update_declaration_def demo_attached_stream talker_declare_def)
  with k show ?thesis by blast
qed


end
