(* ===== verification/MAAP.thy ===== *)
theory MAAP
  imports Random_Range
begin

unbundle bit_operations_syntax

section \<open>MAAP (\<open>src/maap/maap.c\<close>, \<open>src/maap/maap.h\<close>)\<close>

text \<open>
  The MAC address acquisition protocol of 1722 Annex B: ranges of multicast addresses that a port
  probes, announces and defends. A range is an object of the heap \<open>rheap\<close>, a port keeps the list of
  its ranges (\<open>None\<close> for a list head that was never initialized: following its null pointer crashes, which
  is the result \<open>None\<close> of the operations that do). A timer is \<open>None\<close> when stopped, otherwise the interval
  it was started with. The environment is a parameter of the state: \<open>os_random\<close> the random numbers,
  \<open>malloc_ok\<close>, \<open>timer_ok\<close>, \<open>tx_ok\<close>, \<open>ipc_ok\<close> whether the successive allocations, timer creations,
  transmissions and IPC messages succeed. Frames sent and IPC messages are logged in \<open>sent\<close> and \<open>ipc_sent\<close>.
\<close>

subsection \<open>State\<close>

datatype maap_event =
    MAAP_EVENT_BEGIN | MAAP_EVENT_RELEASE | MAAP_EVENT_RESTART | MAAP_EVENT_RESERVE_ADDRESS | MAAP_EVENT_RPROBE
  | MAAP_EVENT_RDEFEND | MAAP_EVENT_RANNOUNCE | MAAP_EVENT_PROBE_COUNT | MAAP_EVENT_ANNOUNCE_TIMER
  | MAAP_EVENT_PROBE_TIMER | MAAP_EVENT_PORT_OPERATIONAL | MAAP_EVENT_ERR

datatype maap_state = MAAP_STATE_INITIAL | MAAP_STATE_PROBE | MAAP_STATE_DEFEND

datatype maap_status = MAAP_STATUS_SUCCESS | MAAP_STATUS_FREE | MAAP_STATUS_CONFLICT | MAAP_STATUS_ERROR

datatype maap_response = MAAP_RESPONSE_SUCCESS | MAAP_RESPONSE_ERROR

record maap_range =
  range_id :: u32
  mac_count :: u32
  start_mac_addr :: mac_addr
  sm_state :: maap_state
  announce_timer :: "u32 option"
  probe_timer :: "u32 option"
  maap_probe_count :: u32
  send_conflict_indication :: bool

record maap_port =
  port_id :: u32
  logical_port :: u32
  local_physical_mac :: mac_addr
  initialized :: bool
  net_rx_open :: bool
  net_tx_open :: bool
  multi_added :: bool
  ipc_tx_mac_open :: bool
  ipc_rx_mac_open :: bool
  allocated_ranges_count :: u32
  range_list :: "nat list option"

record maap_conflict_info =
  conflict_start_addr :: mac_addr
  conflict_count :: u32

record maap_range_info =
  src_physical_mac :: mac_addr
  info_local_mac :: mac_addr
  requested_start_addr :: mac_addr
  requested_count :: u32
  conflict :: maap_conflict_info

record maap_frame =
  fr_port :: nat
  fr_dst :: mac_addr
  fr_pdu :: "u8 list"

datatype maap_ipc_dst = IPC_DST_ALL | IPC_DST nat

datatype maap_ipc_out =
    CreateResponse bool maap_ipc_dst maap_response u16 u32 u16 mac_addr
  | DeleteResponse bool maap_ipc_dst maap_response u16 u32
  | MaapStatus bool maap_ipc_dst maap_status u16 u32 u16 mac_addr

record maap_ctx =
  rheap :: "nat \<rightharpoonup> maap_range"
  next_range :: nat
  mport :: "nat \<Rightarrow> maap_port"
  port_max :: nat
  management_enabled :: bool
  timer_pool_open :: bool
  ipc_rx_open :: bool
  ipc_tx_open :: bool
  ipc_tx_sync_open :: bool
  os_random :: "nat \<Rightarrow> int"
  n_random :: nat
  malloc_ok :: "nat \<Rightarrow> bool"
  n_malloc :: nat
  timer_ok :: "nat \<Rightarrow> bool"
  n_timer :: nat
  tx_ok :: "nat \<Rightarrow> bool"
  n_tx :: nat
  ipc_ok :: "nat \<Rightarrow> bool"
  n_ipc :: nat
  sent :: "maap_frame list"
  ipc_sent :: "maap_ipc_out list"

abbreviation MAAP_MULTICAST_ADDR :: mac_addr where "MAAP_MULTICAST_ADDR \<equiv> [0x91, 0xE0, 0xF0, 0x00, 0xFF, 0x00]"
abbreviation MAAP_DYNAMIC_POOL_MIN :: mac_addr where "MAAP_DYNAMIC_POOL_MIN \<equiv> [0x91, 0xE0, 0xF0, 0x00, 0x00, 0x00]"
abbreviation MAAP_DYNAMIC_POOL_MAX :: mac_addr where "MAAP_DYNAMIC_POOL_MAX \<equiv> [0x91, 0xE0, 0xF0, 0x00, 0xFD, 0xFF]"
abbreviation MAAP_DYNAMIC_POOL_SIZE :: u32 where "MAAP_DYNAMIC_POOL_SIZE \<equiv> 0xFE00"
abbreviation MAAP_PORT_MAX_RANGES_ALLOCATION :: u32 where "MAAP_PORT_MAX_RANGES_ALLOCATION \<equiv> 128"
abbreviation MAAP_PROBE_RETRANSMITS_VAL :: u32 where "MAAP_PROBE_RETRANSMITS_VAL \<equiv> 3"
abbreviation MAAP_PROBE_INTERVAL_MIN :: int where "MAAP_PROBE_INTERVAL_MIN \<equiv> 500"
abbreviation MAAP_PROBE_INTERVAL_MAX :: int where "MAAP_PROBE_INTERVAL_MAX \<equiv> 570"
abbreviation MAAP_ANNOUNCE_INTERVAL_MIN :: int where "MAAP_ANNOUNCE_INTERVAL_MIN \<equiv> 30000"
abbreviation MAAP_ANNOUNCE_INTERVAL_MAX :: int where "MAAP_ANNOUNCE_INTERVAL_MAX \<equiv> 31890"
abbreviation MAAP_PROBE :: u8 where "MAAP_PROBE \<equiv> 1"
abbreviation MAAP_DEFEND :: u8 where "MAAP_DEFEND \<equiv> 2"
abbreviation MAAP_ANNOUNCE :: u8 where "MAAP_ANNOUNCE \<equiv> 3"
abbreviation AVTP_SUBTYPE_MAAP :: u8 where "AVTP_SUBTYPE_MAAP \<equiv> 0xFE"
abbreviation ETHERTYPE_AVTP :: u16 where "ETHERTYPE_AVTP \<equiv> 0x22F0"

definition get_range :: "maap_ctx \<Rightarrow> nat \<Rightarrow> maap_range" where
  "get_range s r = the (rheap s r)"

definition upd_range :: "nat \<Rightarrow> (maap_range \<Rightarrow> maap_range) \<Rightarrow> maap_ctx \<Rightarrow> maap_ctx" where
  "upd_range r f s = s\<lparr>rheap := (rheap s)(r \<mapsto> f (get_range s r))\<rparr>"

definition upd_port :: "nat \<Rightarrow> (maap_port \<Rightarrow> maap_port) \<Rightarrow> maap_ctx \<Rightarrow> maap_ctx" where
  "upd_port p f s = s\<lparr>mport := (mport s)(p := f (mport s p))\<rparr>"

subsection \<open>Addresses\<close>

definition mac_value :: "mac_addr \<Rightarrow> u64" where
  "mac_value a = ucast (a ! 5) OR push_bit 8 (ucast (a ! 4)) OR push_bit 16 (ucast (a ! 3)) OR push_bit 24 (ucast (a ! 2)) OR
     push_bit 32 (ucast (a ! 1)) OR push_bit 40 (ucast (a ! 0))"

definition reverse_mac_value :: "mac_addr \<Rightarrow> u64" where
  "reverse_mac_value a = ucast (a ! 0) OR push_bit 8 (ucast (a ! 1)) OR push_bit 16 (ucast (a ! 2)) OR push_bit 24 (ucast (a ! 3)) OR
     push_bit 32 (ucast (a ! 4)) OR push_bit 40 (ucast (a ! 5))"

definition maap_is_in_dynamic_pool :: "mac_addr \<Rightarrow> u32 \<Rightarrow> bool" where
  "maap_is_in_dynamic_pool start_address count =
     (let start_addr = mac_value start_address; end_addr = start_addr + ucast count - 1;
          check_start = (start_addr \<ge> mac_value MAAP_DYNAMIC_POOL_MIN \<and> start_addr \<le> mac_value MAAP_DYNAMIC_POOL_MAX);
          check_end = (end_addr \<le> mac_value MAAP_DYNAMIC_POOL_MAX)
      in check_start \<and> check_end)"

text \<open>The first argument is the next value of \<open>os_random\<close>.\<close>

definition maap_generate_address :: "int \<Rightarrow> u32 \<Rightarrow> mac_addr" where
  "maap_generate_address r count0 =
     (let count = (if count0 > MAAP_DYNAMIC_POOL_SIZE then MAAP_DYNAMIC_POOL_SIZE else count0);
          max = MAAP_DYNAMIC_POOL_SIZE - count;
          rand_bytes = (word_of_int (random_range r 0 (uint max)) :: u16)
      in [0x91, 0xE0, 0xF0, 0x00, ucast (drop_bit 8 rand_bytes AND 0xFF), ucast (rand_bytes AND 0xFF)])"

definition are_ranges_in_conflict :: "mac_addr \<Rightarrow> u32 \<Rightarrow> mac_addr \<Rightarrow> u32 \<Rightarrow> maap_conflict_info option" where
  "are_ranges_in_conflict addr_local count_local addr_pdu count_pdu =
     (let loc = mac_value addr_local; pdu = mac_value addr_pdu;
          loc_end = loc + ucast (count_local - 1); pdu_end = pdu + ucast (count_pdu - 1);
          result = (\<lambda>ptr conflict conflict_end.
            Some \<lparr>conflict_start_addr = take 6 ptr, conflict_count = ucast (conflict_end - conflict) + 1\<rparr>)
      in if pdu < loc \<and> pdu_end \<ge> loc then
           result addr_local loc (if pdu_end < loc_end then pdu_end else loc_end)
         else if pdu \<ge> loc \<and> pdu \<le> loc_end then
           result addr_pdu pdu (if pdu_end < loc_end then pdu_end else loc_end)
         else None)"

definition maap_compare_MAC :: "mac_addr \<Rightarrow> mac_addr \<Rightarrow> bool" where
  "maap_compare_MAC local_mac_address received_mac_address \<longleftrightarrow>
     reverse_mac_value local_mac_address < reverse_mac_value received_mac_address"

subsection \<open>Ranges of a port\<close>

definition check_internal_conflict :: "maap_ctx \<Rightarrow> nat list \<Rightarrow> maap_range \<Rightarrow> bool" where
  "check_internal_conflict s l new_range \<longleftrightarrow>
     list_ex (\<lambda>r. are_ranges_in_conflict (start_mac_addr (get_range s r)) (mac_count (get_range s r))
       (start_mac_addr new_range) (mac_count new_range) \<noteq> None) l"

definition get_range_by_id :: "maap_ctx \<Rightarrow> nat list \<Rightarrow> u32 \<Rightarrow> nat option" where
  "get_range_by_id s l rid = find (\<lambda>r. range_id (get_range s r) = rid) l"

definition is_range_id_used :: "maap_ctx \<Rightarrow> nat list \<Rightarrow> u32 \<Rightarrow> bool" where
  "is_range_id_used s l rid \<longleftrightarrow> get_range_by_id s l rid \<noteq> None"

definition logical_to_maap_port :: "maap_ctx \<Rightarrow> u32 \<Rightarrow> nat option" where
  "logical_to_maap_port s l = find (\<lambda>i. logical_port (mport s i) = l) [0..<port_max s]"

definition maap_port_to_logical :: "maap_ctx \<Rightarrow> nat \<Rightarrow> u32" where
  "maap_port_to_logical s p = logical_port (mport s p)"

subsection \<open>Messages to the applications\<close>

definition ipc_send :: "maap_ipc_out \<Rightarrow> maap_ctx \<Rightarrow> maap_ctx" where
  "ipc_send m s = s\<lparr>n_ipc := n_ipc s + 1, ipc_sent := (if ipc_ok s (n_ipc s) then ipc_sent s @ [m] else ipc_sent s)\<rparr>"

definition maap_ipc_create_response ::
  "bool \<Rightarrow> maap_ipc_dst \<Rightarrow> u32 \<Rightarrow> u32 \<Rightarrow> mac_addr \<Rightarrow> u16 \<Rightarrow> maap_response \<Rightarrow> maap_ctx \<Rightarrow> maap_ctx" where
  "maap_ipc_create_response sync dst lport rid base_addr count status =
     ipc_send (CreateResponse sync dst status (ucast lport) rid count (take 6 base_addr))"

definition maap_ipc_delete_response :: "bool \<Rightarrow> maap_ipc_dst \<Rightarrow> u32 \<Rightarrow> u32 \<Rightarrow> maap_response \<Rightarrow> maap_ctx \<Rightarrow> maap_ctx" where
  "maap_ipc_delete_response sync dst lport rid status = ipc_send (DeleteResponse sync dst status (ucast lport) rid)"

definition maap_ipc_indication ::
  "bool \<Rightarrow> maap_ipc_dst \<Rightarrow> u32 \<Rightarrow> u32 \<Rightarrow> mac_addr \<Rightarrow> u16 \<Rightarrow> maap_status \<Rightarrow> maap_ctx \<Rightarrow> maap_ctx" where
  "maap_ipc_indication sync dst lport rid base_addr count status =
     ipc_send (MaapStatus sync dst status (ucast lport) rid count (take 6 base_addr))"

subsection \<open>Frames\<close>

text \<open>The 28 bytes of \<open>struct maap_pdu\<close>.\<close>

definition maap_pdu_bytes :: "u8 \<Rightarrow> mac_addr \<Rightarrow> u16 \<Rightarrow> mac_addr \<Rightarrow> u16 \<Rightarrow> u8 list" where
  "maap_pdu_bytes msg_type req_addr req_count conf_addr conf_count =
     [AVTP_SUBTYPE_MAAP, msg_type AND 0xF, push_bit 3 1, 16] @ replicate 8 0 @ take 6 req_addr @ be16 req_count @
     take 6 conf_addr @ be16 conf_count"

definition maap_net_transmit :: "nat \<Rightarrow> nat \<Rightarrow> u8 \<Rightarrow> maap_range_info option \<Rightarrow> maap_ctx \<Rightarrow> maap_ctx" where
  "maap_net_transmit p r msg_type info s =
     (let range = get_range s r;
          frame = (case info of
             Some i \<Rightarrow> if msg_type = MAAP_DEFEND
               then \<lparr>fr_port = p, fr_dst = src_physical_mac i,
                     fr_pdu = maap_pdu_bytes msg_type (requested_start_addr i) (ucast (requested_count i))
                       (conflict_start_addr (conflict i)) (ucast (conflict_count (conflict i)))\<rparr>
               else \<lparr>fr_port = p, fr_dst = MAAP_MULTICAST_ADDR,
                     fr_pdu = maap_pdu_bytes msg_type (start_mac_addr range) (ucast (mac_count range)) (replicate 6 0) 0\<rparr>
           | None \<Rightarrow> \<lparr>fr_port = p, fr_dst = MAAP_MULTICAST_ADDR,
                     fr_pdu = maap_pdu_bytes msg_type (start_mac_addr range) (ucast (mac_count range)) (replicate 6 0) 0\<rparr>)
      in s\<lparr>n_tx := n_tx s + 1, sent := (if tx_ok s (n_tx s) then sent s @ [frame] else sent s)\<rparr>)"

definition rand_interval :: "maap_ctx \<Rightarrow> int \<Rightarrow> int \<Rightarrow> u32" where
  "rand_interval s min_val max_val = word_of_int (abs (random_range (os_random s (n_random s)) min_val max_val))"

definition maap_sprobe :: "nat \<Rightarrow> nat \<Rightarrow> maap_ctx \<Rightarrow> maap_ctx" where
  "maap_sprobe p r s =
     (let s1 = maap_net_transmit p r MAAP_PROBE None s;
          interval = rand_interval s1 MAAP_PROBE_INTERVAL_MIN MAAP_PROBE_INTERVAL_MAX
      in upd_range r (\<lambda>range. range\<lparr>probe_timer := Some interval\<rparr>) (s1\<lparr>n_random := n_random s1 + 1\<rparr>))"

definition maap_sannounce :: "nat \<Rightarrow> nat \<Rightarrow> maap_ctx \<Rightarrow> maap_ctx" where
  "maap_sannounce p r s =
     (let s1 = maap_net_transmit p r MAAP_ANNOUNCE None s;
          interval = rand_interval s1 MAAP_ANNOUNCE_INTERVAL_MIN MAAP_ANNOUNCE_INTERVAL_MAX
      in upd_range r (\<lambda>range. range\<lparr>announce_timer := Some interval\<rparr>) (s1\<lparr>n_random := n_random s1 + 1\<rparr>))"

subsection \<open>Removal\<close>

definition maap_range_free :: "nat \<Rightarrow> nat \<Rightarrow> maap_ctx \<Rightarrow> maap_ctx" where
  "maap_range_free p r s =
     (upd_port p (\<lambda>port. port\<lparr>allocated_ranges_count := allocated_ranges_count port - 1\<rparr>) s)\<lparr>rheap := (rheap s)(r := None)\<rparr>"

definition del_range :: "nat \<Rightarrow> nat \<Rightarrow> maap_ctx \<Rightarrow> maap_ctx" where
  "del_range p r s =
     maap_range_free p r (upd_port p (\<lambda>port. port\<lparr>range_list := map_option (remove1 r) (range_list port)\<rparr>) s)"

text \<open>The result holds the return value and, on success, the address and the count of the range.\<close>

definition maap_remove_range_on_port :: "maap_ctx \<Rightarrow> nat \<Rightarrow> u32 \<Rightarrow> ((mac_addr \<times> u32) option \<times> maap_ctx) option" where
  "maap_remove_range_on_port s p rid =
     (case range_list (mport s p) of
        None \<Rightarrow> None
      | Some l \<Rightarrow>
          (case get_range_by_id s l rid of
             None \<Rightarrow> Some (None, s)
           | Some r \<Rightarrow> Some (Some (start_mac_addr (get_range s r), mac_count (get_range s r)), del_range p r s)))"

definition maap_remove_all_range_on_port :: "nat \<Rightarrow> maap_ctx \<Rightarrow> maap_ctx option" where
  "maap_remove_all_range_on_port p s =
     (case range_list (mport s p) of
        None \<Rightarrow> None
      | Some l \<Rightarrow> Some (fold (del_range p) l s))"

text \<open>\<open>maap_release\<close> is called for a range of the port's list, which is initialized then.\<close>

definition maap_release :: "nat \<Rightarrow> nat \<Rightarrow> maap_ctx \<Rightarrow> maap_ctx" where
  "maap_release p r s =
     (let rid = range_id (get_range s r)
      in case maap_remove_range_on_port s p rid of
           None \<Rightarrow> s
         | Some (None, s1) \<Rightarrow>
             maap_ipc_indication False IPC_DST_ALL (port_id (mport s1 p)) rid (replicate 6 0) 0 MAAP_STATUS_ERROR s1
         | Some (Some (addr, count), s1) \<Rightarrow>
             maap_ipc_indication False IPC_DST_ALL (port_id (mport s1 p)) rid addr (ucast count) MAAP_STATUS_FREE s1)"

subsection \<open>State machine\<close>

definition set_sm_state :: "maap_state \<Rightarrow> nat \<Rightarrow> maap_ctx \<Rightarrow> maap_ctx" where
  "set_sm_state st r = upd_range r (\<lambda>range. range\<lparr>sm_state := st\<rparr>)"

definition probe_timer_stop :: "nat \<Rightarrow> maap_ctx \<Rightarrow> maap_ctx" where
  "probe_timer_stop r = upd_range r (\<lambda>range. range\<lparr>probe_timer := None\<rparr>)"

definition announce_timer_stop :: "nat \<Rightarrow> maap_ctx \<Rightarrow> maap_ctx" where
  "announce_timer_stop r = upd_range r (\<lambda>range. range\<lparr>announce_timer := None\<rparr>)"

definition sm_indication :: "maap_status \<Rightarrow> nat \<Rightarrow> nat \<Rightarrow> maap_ctx \<Rightarrow> maap_ctx" where
  "sm_indication status p r s =
     (let range = get_range s r
      in maap_ipc_indication False IPC_DST_ALL (port_id (mport s p)) (range_id range) (start_mac_addr range)
           (ucast (mac_count range)) status s)"

text \<open>The transitions that start another event (\<open>goto start\<close>) give it with the state.\<close>

definition maap_sm_step ::
  "maap_event \<Rightarrow> nat \<Rightarrow> nat \<Rightarrow> maap_range_info option \<Rightarrow> maap_ctx \<Rightarrow> maap_event option \<times> maap_ctx" where
  "maap_sm_step event p r info s =
     (let range = get_range s r; state = sm_state range;
          yields = \<not> maap_compare_MAC (info_local_mac (the info)) (src_physical_mac (the info))
      in case event of
           MAAP_EVENT_BEGIN \<Rightarrow>
             if state = MAAP_STATE_INITIAL then (Some MAAP_EVENT_RESERVE_ADDRESS, s) else (None, s)
         | MAAP_EVENT_RELEASE \<Rightarrow>
             (case state of
                MAAP_STATE_PROBE \<Rightarrow> (None, maap_release p r (probe_timer_stop r s))
              | MAAP_STATE_DEFEND \<Rightarrow> (None, maap_release p r (announce_timer_stop r s))
              | MAAP_STATE_INITIAL \<Rightarrow> (None, s))
         | MAAP_EVENT_RESTART \<Rightarrow>
             if state = MAAP_STATE_INITIAL then
               let s1 = (if send_conflict_indication range
                         then upd_range r (\<lambda>range. range\<lparr>send_conflict_indication := False\<rparr>)
                                (sm_indication MAAP_STATUS_CONFLICT p r s)
                         else s);
                   s2 = upd_range r (\<lambda>range. range\<lparr>start_mac_addr :=
                          maap_generate_address (os_random s1 (n_random s1)) (mac_count range)\<rparr>)
                          (s1\<lparr>n_random := n_random s1 + 1\<rparr>)
               in (Some MAAP_EVENT_RESERVE_ADDRESS, s2)
             else (None, s)
         | MAAP_EVENT_RESERVE_ADDRESS \<Rightarrow>
             if state = MAAP_STATE_INITIAL then
               (None, set_sm_state MAAP_STATE_PROBE r (maap_sprobe p r
                  (upd_range r (\<lambda>range. range\<lparr>maap_probe_count := MAAP_PROBE_RETRANSMITS_VAL\<rparr>) s)))
             else (None, s)
         | MAAP_EVENT_RPROBE \<Rightarrow>
             (case state of
                MAAP_STATE_PROBE \<Rightarrow>
                  if yields then (Some MAAP_EVENT_RESTART, set_sm_state MAAP_STATE_INITIAL r (probe_timer_stop r s)) else (None, s)
              | MAAP_STATE_DEFEND \<Rightarrow> (None, maap_net_transmit p r MAAP_DEFEND info s)
              | MAAP_STATE_INITIAL \<Rightarrow> (None, s))
         | MAAP_EVENT_RDEFEND \<Rightarrow>
             (case state of
                MAAP_STATE_PROBE \<Rightarrow> (Some MAAP_EVENT_RESTART, set_sm_state MAAP_STATE_INITIAL r (probe_timer_stop r s))
              | MAAP_STATE_DEFEND \<Rightarrow>
                  if yields then (Some MAAP_EVENT_RESTART, set_sm_state MAAP_STATE_INITIAL r (announce_timer_stop r s)) else (None, s)
              | MAAP_STATE_INITIAL \<Rightarrow> (None, s))
         | MAAP_EVENT_RANNOUNCE \<Rightarrow>
             (case state of
                MAAP_STATE_PROBE \<Rightarrow> (Some MAAP_EVENT_RESTART, set_sm_state MAAP_STATE_INITIAL r (probe_timer_stop r s))
              | MAAP_STATE_DEFEND \<Rightarrow>
                  if yields then (Some MAAP_EVENT_RESTART, set_sm_state MAAP_STATE_INITIAL r (announce_timer_stop r s)) else (None, s)
              | MAAP_STATE_INITIAL \<Rightarrow> (None, s))
         | MAAP_EVENT_PROBE_COUNT \<Rightarrow>
             if state = MAAP_STATE_PROBE then
               (None, set_sm_state MAAP_STATE_DEFEND r (maap_sannounce p r
                  (upd_range r (\<lambda>range. range\<lparr>send_conflict_indication := True\<rparr>)
                    (sm_indication MAAP_STATUS_SUCCESS p r (probe_timer_stop r s)))))
             else (None, s)
         | MAAP_EVENT_ANNOUNCE_TIMER \<Rightarrow>
             if state = MAAP_STATE_DEFEND then (None, maap_sannounce p r s) else (None, s)
         | MAAP_EVENT_PROBE_TIMER \<Rightarrow>
             if state = MAAP_STATE_PROBE then
               let s1 = upd_range r (\<lambda>range. range\<lparr>maap_probe_count := maap_probe_count range - 1\<rparr>) (maap_sprobe p r s)
               in (if maap_probe_count (get_range s1 r) \<le> 0 then Some MAAP_EVENT_PROBE_COUNT else None, s1)
             else (None, s)
         | MAAP_EVENT_PORT_OPERATIONAL \<Rightarrow>
             (case state of
                MAAP_STATE_INITIAL \<Rightarrow> (Some MAAP_EVENT_RESERVE_ADDRESS, s)
              | MAAP_STATE_PROBE \<Rightarrow> (Some MAAP_EVENT_RESERVE_ADDRESS, set_sm_state MAAP_STATE_INITIAL r (probe_timer_stop r s))
              | MAAP_STATE_DEFEND \<Rightarrow> (Some MAAP_EVENT_RESERVE_ADDRESS, set_sm_state MAAP_STATE_INITIAL r (announce_timer_stop r s)))
         | MAAP_EVENT_ERR \<Rightarrow> (None, s))"

fun event_rank :: "maap_event \<Rightarrow> nat" where
  "event_rank MAAP_EVENT_RPROBE = 2"
| "event_rank MAAP_EVENT_RDEFEND = 2"
| "event_rank MAAP_EVENT_RANNOUNCE = 2"
| "event_rank MAAP_EVENT_BEGIN = 1"
| "event_rank MAAP_EVENT_RESTART = 1"
| "event_rank MAAP_EVENT_PROBE_TIMER = 1"
| "event_rank MAAP_EVENT_PORT_OPERATIONAL = 1"
| "event_rank _ = 0"

lemma sm_step_rank:
  "maap_sm_step event p r info s = (Some event1, s1) \<Longrightarrow> event_rank event1 < event_rank event"
  by (cases event) (auto simp: maap_sm_step_def Let_def split: maap_state.splits if_splits)

function maap_sm :: "nat \<Rightarrow> nat \<Rightarrow> maap_event \<Rightarrow> maap_range_info option \<Rightarrow> maap_ctx \<Rightarrow> maap_ctx" where
  "maap_sm r p event info s =
     (case maap_sm_step event p r info s of
        (None, s1) \<Rightarrow> s1
      | (Some event1, s1) \<Rightarrow> maap_sm r p event1 info s1)"
  by auto
termination
  by (relation "measure (\<lambda>(r, p, event, info, s). event_rank event)") (auto dest: sm_step_rank [OF sym])

declare maap_sm.simps [simp del]

subsection \<open>Reception\<close>

record maap_rx_desc =
  rx_ethertype :: u16
  rx_buf :: "u8 list"
  rx_l2 :: nat
  rx_l3 :: nat

record maap_pdu =
  pdu_subtype :: u8
  pdu_message_type :: u8
  pdu_requested_start_address :: mac_addr
  pdu_requested_count :: u16
  pdu_conflict_start_address :: mac_addr
  pdu_conflict_count :: u16

text \<open>The fields of the PDU at \<open>l3_offset\<close>; \<open>None\<close> when the PDU runs past the buffer.\<close>

definition maap_pdu_fields :: "u8 list \<Rightarrow> nat \<Rightarrow> maap_pdu option" where
  "maap_pdu_fields buf off =
     (if off + 28 \<le> length buf
      then let b = drop off buf
           in Some \<lparr>pdu_subtype = b ! 0, pdu_message_type = (b ! 1) AND 0xF,
                    pdu_requested_start_address = take 6 (drop 12 b), pdu_requested_count = from_be16 (b ! 18) (b ! 19),
                    pdu_conflict_start_address = take 6 (drop 20 b), pdu_conflict_count = from_be16 (b ! 26) (b ! 27)\<rparr>
      else None)"

definition eth_src :: "maap_rx_desc \<Rightarrow> mac_addr" where
  "eth_src desc = take 6 (drop (rx_l2 desc + 6) (rx_buf desc))"

text \<open>
  The handlers run over the list of ranges; the next entry is read before the state machine is
  called, which leaves the list as it is for these events.
\<close>

definition handle_conflict :: "maap_event \<Rightarrow> nat \<Rightarrow> maap_pdu \<Rightarrow> mac_addr \<Rightarrow> nat \<Rightarrow> maap_ctx \<Rightarrow> maap_ctx" where
  "handle_conflict event p pdu src r s =
     (let range = get_range s r
      in case are_ranges_in_conflict (start_mac_addr range) (mac_count range) (pdu_requested_start_address pdu)
                (ucast (pdu_requested_count pdu)) of
           None \<Rightarrow> s
         | Some c \<Rightarrow> maap_sm r p event
             (Some \<lparr>src_physical_mac = src, info_local_mac = local_physical_mac (mport s p),
                    requested_start_addr = pdu_requested_start_address pdu, requested_count = ucast (pdu_requested_count pdu),
                    conflict = c\<rparr>) s)"

definition maap_handle_probe :: "nat \<Rightarrow> maap_pdu \<Rightarrow> mac_addr \<Rightarrow> nat list \<Rightarrow> maap_ctx \<Rightarrow> maap_ctx" where
  "maap_handle_probe p pdu src = fold (handle_conflict MAAP_EVENT_RPROBE p pdu src)"

definition maap_handle_announce :: "nat \<Rightarrow> maap_pdu \<Rightarrow> mac_addr \<Rightarrow> nat list \<Rightarrow> maap_ctx \<Rightarrow> maap_ctx" where
  "maap_handle_announce p pdu src = fold (handle_conflict MAAP_EVENT_RANNOUNCE p pdu src)"

definition handle_defend1 :: "nat \<Rightarrow> maap_pdu \<Rightarrow> mac_addr \<Rightarrow> nat \<Rightarrow> maap_ctx \<Rightarrow> maap_ctx" where
  "handle_defend1 p pdu src r s =
     (let range = get_range s r
      in if start_mac_addr range = pdu_requested_start_address pdu \<and> mac_count range = ucast (pdu_requested_count pdu)
         then maap_sm r p MAAP_EVENT_RDEFEND
           (Some \<lparr>src_physical_mac = src, info_local_mac = local_physical_mac (mport s p),
                  requested_start_addr = pdu_requested_start_address pdu, requested_count = ucast (pdu_requested_count pdu),
                  conflict = \<lparr>conflict_start_addr = pdu_conflict_start_address pdu,
                              conflict_count = ucast (pdu_conflict_count pdu)\<rparr>\<rparr>) s
         else s)"

definition maap_handle_defend :: "nat \<Rightarrow> maap_pdu \<Rightarrow> mac_addr \<Rightarrow> nat list \<Rightarrow> maap_ctx \<Rightarrow> maap_ctx" where
  "maap_handle_defend p pdu src = fold (handle_defend1 p pdu src)"

text \<open>Only an initialized port receives: \<open>the\<close> is applied to the list of such a port.\<close>

definition maap_net_receive :: "nat \<Rightarrow> maap_rx_desc \<Rightarrow> maap_ctx \<Rightarrow> maap_ctx option" where
  "maap_net_receive p desc s =
     (if rx_ethertype desc \<noteq> ETHERTYPE_AVTP then Some s
      else case maap_pdu_fields (rx_buf desc) (rx_l3 desc) of
        None \<Rightarrow> None
      | Some pdu \<Rightarrow>
          let l = the (range_list (mport s p)); src = eth_src desc
          in Some (if pdu_subtype pdu \<noteq> AVTP_SUBTYPE_MAAP then s
                   else if pdu_message_type pdu = MAAP_PROBE then maap_handle_probe p pdu src l s
                   else if pdu_message_type pdu = MAAP_ANNOUNCE then maap_handle_announce p pdu src l s
                   else if pdu_message_type pdu = MAAP_DEFEND then maap_handle_defend p pdu src l s
                   else s))"

subsection \<open>Timers and port status\<close>

text \<open>The timer service clears the timer before it calls the handler.\<close>

definition maap_probe_timer_handler :: "nat \<Rightarrow> nat \<Rightarrow> maap_ctx \<Rightarrow> maap_ctx" where
  "maap_probe_timer_handler p r s = maap_sm r p MAAP_EVENT_PROBE_TIMER None s"

definition maap_announce_timer_handler :: "nat \<Rightarrow> nat \<Rightarrow> maap_ctx \<Rightarrow> maap_ctx" where
  "maap_announce_timer_handler p r s = maap_sm r p MAAP_EVENT_ANNOUNCE_TIMER None s"

definition probe_timer_expired :: "nat \<Rightarrow> nat \<Rightarrow> maap_ctx \<Rightarrow> maap_ctx" where
  "probe_timer_expired p r s = maap_probe_timer_handler p r (probe_timer_stop r s)"

definition announce_timer_expired :: "nat \<Rightarrow> nat \<Rightarrow> maap_ctx \<Rightarrow> maap_ctx" where
  "announce_timer_expired p r s = maap_announce_timer_handler p r (announce_timer_stop r s)"

definition maap_ipc_rx_mac_service :: "nat \<Rightarrow> bool \<Rightarrow> maap_ctx \<Rightarrow> maap_ctx" where
  "maap_ipc_rx_mac_service p operational s =
     (if operational
      then fold (\<lambda>r. maap_sm r p MAAP_EVENT_PORT_OPERATIONAL None) (the (range_list (mport s p))) s
      else s)"

subsection \<open>Creation\<close>

definition maap_timers_init :: "maap_ctx \<Rightarrow> int \<times> maap_ctx" where
  "maap_timers_init s =
     (if \<not> timer_ok s (n_timer s) then (-1, s\<lparr>n_timer := n_timer s + 1\<rparr>)
      else if \<not> timer_ok s (n_timer s + 1) then (-1, s\<lparr>n_timer := n_timer s + 2\<rparr>)
      else (0, s\<lparr>n_timer := n_timer s + 2\<rparr>))"

definition maap_range_alloc :: "maap_ctx \<Rightarrow> nat \<Rightarrow> u32 \<Rightarrow> mac_addr option \<Rightarrow> u32 \<Rightarrow> (nat option \<times> maap_ctx) option" where
  "maap_range_alloc s p rid addr n_addr =
     (if n_addr > MAAP_DYNAMIC_POOL_SIZE \<or> n_addr \<le> 0 then Some (None, s)
      else if addr \<noteq> None \<and> \<not> maap_is_in_dynamic_pool (the addr) n_addr then Some (None, s)
      else if allocated_ranges_count (mport s p) \<ge> MAAP_PORT_MAX_RANGES_ALLOCATION then Some (None, s)
      else case range_list (mport s p) of
        None \<Rightarrow> None
      | Some l \<Rightarrow>
          if is_range_id_used s l rid then Some (None, s)
          else
            let s1 = s\<lparr>n_malloc := n_malloc s + 1\<rparr>; r = next_range s
            in if \<not> malloc_ok s (n_malloc s) then Some (None, s1)
               else
                 let (start, s2) = (case addr of
                        None \<Rightarrow> (maap_generate_address (os_random s1 (n_random s1)) n_addr, s1\<lparr>n_random := n_random s1 + 1\<rparr>)
                      | Some a \<Rightarrow> (take 6 a, s1));
                     range = \<lparr>range_id = rid, mac_count = n_addr, start_mac_addr = start, sm_state = MAAP_STATE_INITIAL,
                              announce_timer = None, probe_timer = None, maap_probe_count = MAAP_PROBE_RETRANSMITS_VAL,
                              send_conflict_indication = False\<rparr>
                 in if check_internal_conflict s2 l range then Some (None, s2)
                    else (case maap_timers_init s2 of (rc, s3) \<Rightarrow>
                            if rc < 0 then Some (None, s3)
                            else Some (Some r, upd_port p (\<lambda>port. port\<lparr>allocated_ranges_count := allocated_ranges_count port + 1\<rparr>)
                                   (s3\<lparr>rheap := (rheap s3)(r \<mapsto> range), next_range := r + 1\<rparr>))))"

definition maap_new_range_on_port :: "maap_ctx \<Rightarrow> nat \<Rightarrow> u32 \<Rightarrow> mac_addr option \<Rightarrow> u32 \<Rightarrow> (nat option \<times> maap_ctx) option" where
  "maap_new_range_on_port s p rid addr n_addr =
     (case maap_range_alloc s p rid addr n_addr of
        None \<Rightarrow> None
      | Some (None, s1) \<Rightarrow> Some (None, s1)
      | Some (Some r, s1) \<Rightarrow>
          Some (Some r, maap_sm r p MAAP_EVENT_BEGIN None
            (upd_port p (\<lambda>port. port\<lparr>range_list := map_option ((#) r) (range_list port)\<rparr>) s1)))"

subsection \<open>Requests of the applications\<close>

datatype maap_ipc_msg =
    GENAVB_MSG_MAAP_CREATE_RANGE (create_flag: u8) (create_port_id: u16) (create_range_id: u32) (create_count: u16)
      (create_base_address: mac_addr)
  | GENAVB_MSG_MAAP_DELETE_RANGE (delete_port_id: u16) (delete_range_id: u32)
  | GENAVB_MSG_MAAP_OTHER

definition maap_ipc_receive :: "bool \<Rightarrow> nat \<Rightarrow> maap_ipc_msg \<Rightarrow> maap_ctx \<Rightarrow> maap_ctx option" where
  "maap_ipc_receive sync src msg s =
     (case msg of
        GENAVB_MSG_MAAP_CREATE_RANGE flag pid rid count base \<Rightarrow>
          let err = maap_ipc_create_response sync (IPC_DST src) (ucast pid) rid base count MAAP_RESPONSE_ERROR
          in (case logical_to_maap_port s (ucast pid) of
                None \<Rightarrow> Some (err s)
              | Some p \<Rightarrow>
                  (case maap_new_range_on_port s p rid (if flag = 1 then Some base else None) (ucast count) of
                     None \<Rightarrow> None
                   | Some (None, s1) \<Rightarrow> Some (err s1)
                   | Some (Some r, s1) \<Rightarrow>
                       let range = get_range s1 r
                       in Some (maap_ipc_create_response sync (IPC_DST src) (logical_port (mport s1 p)) (range_id range)
                            (start_mac_addr range) (ucast (mac_count range)) MAAP_RESPONSE_SUCCESS s1)))
      | GENAVB_MSG_MAAP_DELETE_RANGE pid rid \<Rightarrow>
          let err = maap_ipc_delete_response sync (IPC_DST src) (ucast pid) rid MAAP_RESPONSE_ERROR
          in (case logical_to_maap_port s (ucast pid) of
                None \<Rightarrow> Some (err s)
              | Some p \<Rightarrow>
                  (case maap_remove_range_on_port s p rid of
                     None \<Rightarrow> None
                   | Some (None, s1) \<Rightarrow> Some (err s1)
                   | Some (Some (addr, count), s1) \<Rightarrow>
                       Some (maap_ipc_indication sync IPC_DST_ALL (logical_port (mport s1 p)) rid addr (ucast count) MAAP_STATUS_FREE
                         (maap_ipc_delete_response sync (IPC_DST src) (logical_port (mport s1 p)) rid MAAP_RESPONSE_SUCCESS s1))))
      | GENAVB_MSG_MAAP_OTHER \<Rightarrow> Some s)"

subsection \<open>Initialization\<close>

text \<open>
  What the network, IPC and memory calls of the initialization return; \<open>cfg_local_addr\<close> is
  \<open>net_get_local_addr\<close>, by the port number it is passed.
\<close>

record maap_port_env =
  e_net_rx :: bool
  e_net_tx :: bool
  e_multi :: bool
  e_ipc_rx_mac :: bool
  e_ipc_tx_mac :: bool
  e_ipc_connect :: bool

record maap_config =
  cfg_port_max :: nat
  cfg_logical_port_list :: "nat \<Rightarrow> u32"
  cfg_management_enabled :: bool
  cfg_local_addr :: "u32 \<Rightarrow> mac_addr option"
  cfg_port_env :: "nat \<Rightarrow> maap_port_env"
  cfg_malloc :: bool
  cfg_timer_pool :: bool
  cfg_ipc :: "nat \<Rightarrow> bool"

definition maap_port_zero :: maap_port where
  "maap_port_zero = \<lparr>port_id = 0, logical_port = 0, local_physical_mac = replicate 6 0, initialized = False, net_rx_open = False,
     net_tx_open = False, multi_added = False, ipc_tx_mac_open = False, ipc_rx_mac_open = False, allocated_ranges_count = 0,
     range_list = None\<rparr>"

definition maap_alloc :: "nat \<Rightarrow> maap_ctx \<Rightarrow> maap_ctx" where
  "maap_alloc n_ports s =
     s\<lparr>rheap := Map.empty, mport := (\<lambda>_. maap_port_zero), port_max := n_ports, management_enabled := False, timer_pool_open := False,
       ipc_rx_open := False, ipc_tx_open := False, ipc_tx_sync_open := False\<rparr>"

definition maap_port_ipc_init :: "bool \<Rightarrow> maap_port_env \<Rightarrow> maap_port \<Rightarrow> int \<times> maap_port" where
  "maap_port_ipc_init management env port =
     (if \<not> management then (0, port)
      else if \<not> e_ipc_rx_mac env then (-1, port)
      else if \<not> e_ipc_tx_mac env then (-1, port\<lparr>ipc_rx_mac_open := False\<rparr>)
      else if \<not> e_ipc_connect env then (-1, port\<lparr>ipc_tx_mac_open := False, ipc_rx_mac_open := False\<rparr>)
      else (0, port\<lparr>ipc_rx_mac_open := True, ipc_tx_mac_open := True\<rparr>))"

definition maap_port_init :: "maap_config \<Rightarrow> nat \<Rightarrow> maap_ctx \<Rightarrow> maap_ctx" where
  "maap_port_init cfg i s =
     upd_port i (\<lambda>port0.
       let env = cfg_port_env cfg i;
           port = port0\<lparr>port_id := of_nat i, logical_port := cfg_logical_port_list cfg i, initialized := False,
                        allocated_ranges_count := 0\<rparr>
       in case cfg_local_addr cfg (of_nat i) of
            None \<Rightarrow> port
          | Some mac \<Rightarrow>
              let port1 = port\<lparr>local_physical_mac := take 6 mac\<rparr>
              in if \<not> e_net_rx env then port1
                 else if \<not> e_net_tx env then port1\<lparr>net_rx_open := False\<rparr>
                 else if \<not> e_multi env then port1\<lparr>net_tx_open := False, net_rx_open := False\<rparr>
                 else (case maap_port_ipc_init (management_enabled s) env
                              (port1\<lparr>net_rx_open := True, net_tx_open := True, multi_added := True\<rparr>) of
                         (rc, port2) \<Rightarrow>
                           if rc < 0 then port2\<lparr>multi_added := False, net_tx_open := False, net_rx_open := False\<rparr>
                           else port2\<lparr>range_list := Some [], initialized := True\<rparr>)) s"

definition maap_ports_init :: "maap_config \<Rightarrow> maap_ctx \<Rightarrow> maap_ctx" where
  "maap_ports_init cfg s = fold (maap_port_init cfg) [0..<port_max s] s"

definition maap_ipc_init :: "maap_config \<Rightarrow> maap_ctx \<Rightarrow> int \<times> maap_ctx" where
  "maap_ipc_init cfg s =
     (if \<not> cfg_ipc cfg 0 then (-1, s)
      else if \<not> cfg_ipc cfg 1 then (-1, s\<lparr>ipc_rx_open := False\<rparr>)
      else if \<not> cfg_ipc cfg 2 then (-1, s\<lparr>ipc_tx_open := False, ipc_rx_open := False\<rparr>)
      else (0, s\<lparr>ipc_rx_open := True, ipc_tx_open := True, ipc_tx_sync_open := True\<rparr>))"

definition maap_port_ipc_exit :: "bool \<Rightarrow> maap_port \<Rightarrow> maap_port" where
  "maap_port_ipc_exit management port =
     (if management then port\<lparr>ipc_tx_mac_open := False, ipc_rx_mac_open := False\<rparr> else port)"

definition maap_port_exit :: "nat \<Rightarrow> maap_ctx \<Rightarrow> maap_ctx" where
  "maap_port_exit i s =
     (if \<not> initialized (mport s i) then s
      else
        let s1 = upd_port i (\<lambda>port. (maap_port_ipc_exit (management_enabled s) port)
                   \<lparr>multi_added := False, net_tx_open := False, net_rx_open := False\<rparr>) s;
            s2 = the (maap_remove_all_range_on_port i s1)
        in upd_port i (\<lambda>port. port\<lparr>initialized := False\<rparr>) s2)"

definition maap_ports_exit :: "maap_ctx \<Rightarrow> maap_ctx" where
  "maap_ports_exit s = fold maap_port_exit [0..<port_max s] s"

definition maap_ipc_exit :: "maap_ctx \<Rightarrow> maap_ctx" where
  "maap_ipc_exit s = s\<lparr>ipc_tx_open := False, ipc_rx_open := False, ipc_tx_sync_open := False\<rparr>"

text \<open>The first component tells whether the context is returned; the second is the state it is left in.\<close>

definition maap_init :: "maap_config \<Rightarrow> maap_ctx \<Rightarrow> bool \<times> maap_ctx" where
  "maap_init cfg s0 =
     (if \<not> cfg_malloc cfg then (False, s0)
      else
        let s1 = (maap_alloc (cfg_port_max cfg) s0)\<lparr>management_enabled := cfg_management_enabled cfg\<rparr>
        in if \<not> cfg_timer_pool cfg then (False, s1)
           else
             let s2 = maap_ports_init cfg (s1\<lparr>timer_pool_open := True\<rparr>)
             in case maap_ipc_init cfg s2 of
                  (rc, s3) \<Rightarrow> if rc < 0 then (False, (maap_ports_exit s3)\<lparr>timer_pool_open := False\<rparr>) else (True, s3))"

definition maap_exit :: "maap_ctx \<Rightarrow> maap_ctx" where
  "maap_exit s = (maap_ports_exit (maap_ipc_exit s))\<lparr>timer_pool_open := False\<rparr>"

end
