(* ===== verification/MAAP_Proofs.thy ===== *)
theory MAAP_Proofs
  imports MAAP
begin

section \<open>MAAP: addresses, ranges and the state machine\<close>

text \<open>
  The arithmetic of address ranges (conflicts are intersections of intervals, generated addresses stay
  in the dynamic pool, exactly one of two stations yields), the invariant of the ranges of a port, kept
  by every operation, and the properties of the protocol.
\<close>

subsection \<open>MAC values\<close>

definition mac_nat :: "mac_addr \<Rightarrow> nat" where
  "mac_nat a = unat (mac_value a)"

lemma bit_bytes6:
  fixes x0 x1 x2 x3 x4 x5 :: u8
  shows "bit (ucast x0 OR push_bit 8 (ucast x1) OR push_bit 16 (ucast x2) OR push_bit 24 (ucast x3) OR
     push_bit 32 (ucast x4) OR push_bit 40 (ucast x5) :: u64) n \<longleftrightarrow>
    n < 48 \<and> bit ([x0, x1, x2, x3, x4, x5] ! (n div 8)) (n mod 8)"
proof -
  have b: "\<not> bit (x :: u8) m" if "8 \<le> m" for x m using bit_imp_le_length [of x m] that by auto
  define k m where "k = n div 8" and "m = n mod 8"
  then have n: "n = 8 * k + m" "m < 8" by simp_all
  have d: "n div 8 = k" "n mod 8 = m" by (simp_all add: k_def m_def)
  consider "k = 0" | "k = 1" | "k = 2" | "k = 3" | "k = 4" | "k = 5" | "6 \<le> k" by linarith
  then show ?thesis
    unfolding d by cases (use n in \<open>auto simp: bit_simps b\<close>)
qed

lemma mac_value_less: "mac_nat a < 2 ^ 48"
proof -
  have "bit (mac_value a) n \<Longrightarrow> n < 48" for n unfolding mac_value_def bit_bytes6 by blast
  then have "take_bit 48 (mac_value a) = mac_value a" by (intro bit_eqI) (auto simp: bit_take_bit_iff)
  then have "unat (mac_value a) = take_bit 48 (unat (mac_value a))" by (metis unsigned_take_bit_eq)
  then show ?thesis unfolding mac_nat_def by (metis take_bit_nat_less_exp)
qed

lemma bytes6_eqI:
  assumes "\<And>n. n < 48 \<Longrightarrow> bit (xs ! (n div 8)) (n mod 8) = bit (ys ! (n div 8)) (n mod 8)"
    and "length xs = 6" and "length ys = 6"
  shows "xs = (ys :: u8 list)"
proof (rule nth_equalityI)
  show "length xs = length ys" using assms by simp
  show "xs ! i = ys ! i" if "i < length xs" for i
  proof (rule bit_word_eqI)
    fix m assume "m < LENGTH(8)"
    then show "bit (xs ! i) m = bit (ys ! i) m" using assms(1) [of "8 * i + m"] assms(2) that by simp
  qed
qed

lemma list6: "length xs = 6 \<Longrightarrow> xs = [xs ! 0, xs ! 1, xs ! 2, xs ! 3, xs ! 4, xs ! 5]"
  by (auto simp: numeral_eq_Suc length_Suc_conv)

lemma reverse_mac_value_inj:
  assumes "length a = 6" and "length b = 6" and "reverse_mac_value a = reverse_mac_value b"
  shows "a = b"
proof (rule bytes6_eqI [OF _ assms(1,2)])
  fix n :: nat assume "n < 48"
  then show "bit (a ! (n div 8)) (n mod 8) = bit (b ! (n div 8)) (n mod 8)"
    using arg_cong [OF assms(3), of "\<lambda>w. bit w n"]
    unfolding reverse_mac_value_def bit_bytes6 list6 [OF assms(1), symmetric] list6 [OF assms(2), symmetric] by simp
qed

lemma mac_value_take [simp]: "6 \<le> length a \<Longrightarrow> mac_nat (take 6 a) = mac_nat a"
  by (simp add: mac_nat_def mac_value_def)

text \<open>Of two stations with different addresses exactly one yields.\<close>

lemma compare_MAC_total:
  assumes "length a = 6" and "length b = 6" and "a \<noteq> b"
  shows "maap_compare_MAC a b \<longleftrightarrow> \<not> maap_compare_MAC b a"
  using reverse_mac_value_inj [OF assms(1,2)] assms(3) by (auto simp: maap_compare_MAC_def not_less order_less_le)

subsection \<open>Intervals of addresses\<close>

definition addr_set :: "mac_addr \<Rightarrow> u32 \<Rightarrow> nat set" where
  "addr_set a c = {mac_nat a ..< mac_nat a + unat c}"

lemma range_end:
  "unat (mac_value a + ucast (c - 1 :: u32)) = mac_nat a + unat (c - 1)"
proof -
  have u: "unat (ucast (c - 1) :: u64) = unat (c - 1)"
    using unat_u32_less [of "c - 1"] by (simp add: unsigned_ucast_eq take_bit_nat_eq_self)
  have "unat (c - 1) < 2 ^ 32" using unat_u32_less [of "c - 1"] by simp
  then have "unat (mac_value a) + unat (ucast (c - 1) :: u64) < 2 ^ LENGTH(64)"
    using mac_value_less [of a] unfolding u mac_nat_def by simp
  then show ?thesis using u by (simp add: unat_plus_simple mac_nat_def unat_add_lem [THEN iffD1])
qed

lemma count_pred: "c \<noteq> 0 \<Longrightarrow> unat (c - 1 :: u32) = unat c - 1"
  by (simp add: unat_minus_one)

text \<open>\<open>are_ranges_in_conflict\<close> finds exactly the addresses that both ranges hold.\<close>

lemma conflict_exact:
  assumes c: "cl \<noteq> 0" "cp \<noteq> 0" and len: "6 \<le> length al" "6 \<le> length ap"
  shows "case are_ranges_in_conflict al cl ap cp of
      None \<Rightarrow> addr_set al cl \<inter> addr_set ap cp = {}
    | Some i \<Rightarrow> addr_set al cl \<inter> addr_set ap cp = addr_set (conflict_start_addr i) (conflict_count i) \<and> conflict_count i \<noteq> 0"
proof -
  let ?L = "mac_nat al" and ?P = "mac_nat ap"
  let ?le = "mac_value al + ucast (cl - 1)" and ?pe = "mac_value ap + ucast (cp - 1)"
  have le: "unat ?le = ?L + unat cl - 1" "unat ?pe = ?P + unat cp - 1"
    using c by (simp_all add: range_end count_pred unat_gt_0 Suc_leI)
  have pos: "0 < unat cl" "0 < unat cp" "unat cl < 2 ^ 32" "unat cp < 2 ^ 32"
    using c unat_u32_less [of cl] unat_u32_less [of cp] by (simp_all add: unat_gt_0)
  let ?m = "if ?pe < ?le then ?pe else ?le"
  have m: "unat ?m = min (?L + unat cl) (?P + unat cp) - 1" using le pos by (auto simp: word_less_nat_alt)
  have cnt: "unat (ucast (?m - x) + 1 :: u32) = unat ?m - unat x + 1"
    if "unat x \<le> unat ?m" "unat ?m - unat x + 1 < 2 ^ 32" for x
  proof -
    have "unat (?m - x) = unat ?m - unat x" using that(1) by (simp add: unat_sub word_le_nat_alt)
    then have "unat (ucast (?m - x) :: u32) = unat ?m - unat x" using that(2) by (simp add: unsigned_ucast_eq take_bit_nat_eq_self)
    then show ?thesis using that(2) by (simp add: unat_word_ariths)
  qed
  let ?top = "min (?L + unat cl) (?P + unat cp)"
  have int: "addr_set al cl \<inter> addr_set ap cp = {max ?L ?P ..< ?top}" by (auto simp: addr_set_def)
  have cmp: "mac_value ap < mac_value al \<longleftrightarrow> ?P < ?L" "?pe \<ge> mac_value al \<longleftrightarrow> ?P + unat cp - 1 \<ge> ?L"
    "mac_value ap \<ge> mac_value al \<longleftrightarrow> ?P \<ge> ?L" "mac_value ap \<le> ?le \<longleftrightarrow> ?P \<le> ?L + unat cl - 1"
    using le by (simp_all add: word_less_nat_alt word_le_nat_alt mac_nat_def)
  have some: "addr_set al cl \<inter> addr_set ap cp = addr_set (take 6 x) (ucast (?m - mac_value x) + 1) \<and> ucast (?m - mac_value x) + (1 :: u32) \<noteq> 0"
    if x: "6 \<le> length x" "mac_nat x = max ?L ?P" "max ?L ?P < ?top" for x
  proof -
    have "unat (mac_value x) \<le> unat ?m" "unat ?m - unat (mac_value x) + 1 < 2 ^ 32"
      using x(2,3) pos unfolding m mac_nat_def [symmetric] by (auto simp: min_def max_def split: if_splits)
    from cnt [OF this] have "unat (ucast (?m - mac_value x) + 1 :: u32) = ?top - 1 - max ?L ?P + 1"
      unfolding m mac_nat_def [symmetric] x(2) .
    moreover have "?top - 1 - max ?L ?P + 1 = ?top - max ?L ?P" using x(3) by arith
    ultimately have "unat (ucast (?m - mac_value x) + 1 :: u32) = ?top - max ?L ?P" by (rule trans)
    then show ?thesis using x int by (auto simp: addr_set_def unat_eq_zero)
  qed
  consider "?P < ?L \<and> ?P + unat cp - 1 \<ge> ?L" | "\<not> (?P < ?L \<and> ?P + unat cp - 1 \<ge> ?L)" "?P \<ge> ?L \<and> ?P \<le> ?L + unat cl - 1"
    | "\<not> (?P < ?L \<and> ?P + unat cp - 1 \<ge> ?L)" "\<not> (?P \<ge> ?L \<and> ?P \<le> ?L + unat cl - 1)" by blast
  then show ?thesis
  proof cases
    case 1
    then have "max ?L ?P < ?top" "mac_nat al = max ?L ?P" using pos by auto
    from some [OF len(1) this(2,1)] 1 show ?thesis by (simp add: are_ranges_in_conflict_def Let_def cmp)
  next
    case 2
    then have "max ?L ?P < ?top" "mac_nat ap = max ?L ?P" using pos by auto
    from some [OF len(2) this(2,1)] 2 show ?thesis by (simp add: are_ranges_in_conflict_def Let_def cmp)
  next
    case 3
    then have "{max ?L ?P ..< ?top} = {}" using pos by auto
    moreover have "are_ranges_in_conflict al cl ap cp = None"
      unfolding are_ranges_in_conflict_def Let_def cmp using 3 by (simp only: if_False)
    ultimately show ?thesis using int by simp
  qed
qed

text \<open>A PDU for no address at all is taken for one of \<open>2^32\<close> addresses.\<close>

lemma conflict_count_zero:
  "are_ranges_in_conflict al cl ap 0 \<noteq> None \<longleftrightarrow>
    mac_nat ap \<le> mac_nat al + unat (cl - 1) \<and> mac_nat al < mac_nat ap + 2 ^ 32"
proof -
  have pe: "unat (mac_value ap + ucast (0 - 1 :: u32)) = mac_nat ap + (2 ^ 32 - 1)"
    using range_end [of ap 0] by (simp add: unsigned_minus_1_eq_mask mask_eq_exp_minus_1)
  have le: "unat (mac_value al + ucast (cl - 1)) = mac_nat al + unat (cl - 1)" by (rule range_end)
  have "mac_value ap < mac_value al \<longleftrightarrow> mac_nat ap < mac_nat al"
    "mac_value ap + ucast (0 - 1 :: u32) \<ge> mac_value al \<longleftrightarrow> mac_nat al \<le> mac_nat ap + (2 ^ 32 - 1)"
    "mac_value ap \<ge> mac_value al \<longleftrightarrow> mac_nat ap \<ge> mac_nat al"
    "mac_value ap \<le> mac_value al + ucast (cl - 1) \<longleftrightarrow> mac_nat ap \<le> mac_nat al + unat (cl - 1)"
    unfolding word_less_nat_alt word_le_nat_alt pe le by (simp_all only: mac_nat_def)
  then show ?thesis unfolding are_ranges_in_conflict_def Let_def by (auto split: if_splits)
qed

subsection \<open>The dynamic pool\<close>

abbreviation POOL_BASE :: nat where "POOL_BASE \<equiv> 0x91E0F0000000"

lemma pool_bounds: "mac_nat MAAP_DYNAMIC_POOL_MIN = POOL_BASE" "mac_nat MAAP_DYNAMIC_POOL_MAX = POOL_BASE + 0xFDFF"
  by (simp_all add: mac_nat_def mac_value_def push_bit_eq_mult)

lemma pool_iff:
  assumes "c \<noteq> 0"
  shows "maap_is_in_dynamic_pool a c \<longleftrightarrow> addr_set a c \<subseteq> {POOL_BASE ..< POOL_BASE + 0xFE00}"
proof -
  have u: "unat (ucast c :: u64) = unat c" using unat_u32_less [of c] by (simp add: unsigned_ucast_eq take_bit_nat_eq_self)
  have p: "0 < unat c" "unat c < 2 ^ 32" using assms unat_u32_less [of c] by (simp_all add: unat_gt_0)
  have "unat (mac_value a + ucast c) = mac_nat a + unat c"
    using mac_value_less [of a] p u by (simp add: mac_nat_def unat_word_ariths)
  moreover have "mac_value a + ucast c \<noteq> 0" using calculation p by (metis add_is_0 less_numeral_extra(3) unat_eq_zero)
  ultimately have e: "unat (mac_value a + ucast c - 1) = mac_nat a + unat c - 1" by (simp add: unat_minus_one)
  show ?thesis
    unfolding maap_is_in_dynamic_pool_def Let_def word_le_nat_alt e mac_nat_def [symmetric] pool_bounds
    using p by (auto simp: addr_set_def)
qed

lemma pool_addr:
  "mac_nat [0x91, 0xE0, 0xF0, 0, ucast (drop_bit 8 w AND 0xFF), ucast (w AND 0xFF)] = POOL_BASE + unat (w :: u16)"
proof -
  have ff: "(0xFF :: u16) = mask 8" by (simp add: mask_eq_exp_minus_1)
  have lo: "ucast (ucast (w AND 0xFF) :: u8) OR push_bit 8 (ucast (ucast (drop_bit 8 w AND 0xFF) :: u8)) = (ucast w :: u64)"
    unfolding ff by (rule bit_word_eqI) (auto simp: bit_simps dest: bit_imp_le_length)
  have base: "push_bit 16 (ucast (0 :: u8)) OR push_bit 24 (ucast (0xF0 :: u8)) OR push_bit 32 (ucast (0xE0 :: u8)) OR
    push_bit 40 (ucast (0x91 :: u8)) = (push_bit 16 0x91E0F000 :: u64)" by (simp add: push_bit_eq_mult)
  have "mac_value [0x91, 0xE0, 0xF0, 0, ucast (drop_bit 8 w AND 0xFF), ucast (w AND 0xFF)] = ucast w OR push_bit 16 0x91E0F000"
    unfolding mac_value_def lo [symmetric] base [symmetric] by (simp add: or.assoc)
  also have "ucast w AND push_bit 16 x = 0" for x :: u64
    by (rule bit_eqI) (auto simp: bit_simps dest: bit_imp_le_length)
  then have "ucast w OR push_bit 16 0x91E0F000 = ucast w + (push_bit 16 0x91E0F000 :: u64)"
    by (rule disjunctive_add_eq_or [symmetric])
  finally have "mac_value [0x91, 0xE0, 0xF0, 0, ucast (drop_bit 8 w AND 0xFF), ucast (w AND 0xFF)] = ucast w + 0x91E0F0000000"
    by (simp add: push_bit_eq_mult)
  moreover have "unat (ucast w :: u64) = unat w" using unat_u16_less [of w] by (simp add: unsigned_ucast_eq take_bit_nat_eq_self)
  ultimately show ?thesis using unat_u16_less [of w] by (simp add: mac_nat_def unat_word_ariths)
qed

lemma generated_mac:
  assumes "0 \<le> r" and "c \<noteq> 0" and "c \<le> MAAP_DYNAMIC_POOL_SIZE"
  shows "length (maap_generate_address r c) = 6" "maap_is_in_dynamic_pool (maap_generate_address r c) c"
proof -
  show "length (maap_generate_address r c) = 6" by (simp add: maap_generate_address_def Let_def)
  let ?k = "random_range r 0 (uint (MAAP_DYNAMIC_POOL_SIZE - c))"
  let ?w = "word_of_int ?k :: u16"
  have c: "0 < unat c" "unat c \<le> 0xFE00" using assms(2,3) by (simp_all add: unat_gt_0 word_le_nat_alt)
  have "unat (MAAP_DYNAMIC_POOL_SIZE - c) = 0xFE00 - unat c" using unat_sub [OF assms(3)] by simp
  then have m: "uint (MAAP_DYNAMIC_POOL_SIZE - c) = int (0xFE00 - unat c)" by (simp only: uint_nat)
  have k: "0 \<le> ?k" "?k \<le> int (0xFE00 - unat c)"
    using random_range_bounds [OF assms(1), of 0 "int (0xFE00 - unat c)"] unfolding m by simp_all
  have "?k < 65536" using k(2) c by linarith
  then have "take_bit 16 ?k = ?k" using k(1) by (simp add: take_bit_int_eq_self)
  then have "int (unat ?w) = ?k" using k(1) by (simp add: unsigned_of_int)
  then have w: "unat ?w + unat c \<le> 0xFE00" using k(2) c(2) by linarith
  have a: "maap_generate_address r c = [0x91, 0xE0, 0xF0, 0, ucast (drop_bit 8 ?w AND 0xFF), ucast (?w AND 0xFF)]"
    using leD [OF assms(3)] by (simp add: maap_generate_address_def Let_def)
  have "mac_nat (maap_generate_address r c) = POOL_BASE + unat ?w" unfolding a by (rule pool_addr)
  then show "maap_is_in_dynamic_pool (maap_generate_address r c) c"
    using pool_iff [OF assms(2), of "maap_generate_address r c"] w c by (auto simp: addr_set_def)
qed

subsection \<open>Effect of the actions of the state machine\<close>

text \<open>What an action leaves alone besides the range it is about.\<close>

definition maap_same :: "maap_ctx \<Rightarrow> maap_ctx \<Rightarrow> bool" where
  "maap_same s s' \<longleftrightarrow> mport s' = mport s \<and> port_max s' = port_max s \<and> next_range s' = next_range s \<and>
     os_random s' = os_random s \<and> tx_ok s' = tx_ok s \<and> ipc_ok s' = ipc_ok s \<and> management_enabled s' = management_enabled s"

lemma maap_same_refl [simp]: "maap_same s s"
  by (simp add: maap_same_def)

lemma maap_same_trans: "maap_same a b \<Longrightarrow> maap_same b c \<Longrightarrow> maap_same a c"
  by (simp add: maap_same_def)

lemma maap_same_acts [simp]:
  "maap_same s (upd_range r f s') = maap_same s s'" "maap_same s (set_sm_state st r s') = maap_same s s'"
  "maap_same s (probe_timer_stop r s') = maap_same s s'" "maap_same s (announce_timer_stop r s') = maap_same s s'"
  "maap_same s (maap_net_transmit p r m i s') = maap_same s s'" "maap_same s (maap_sprobe p r s') = maap_same s s'"
  "maap_same s (maap_sannounce p r s') = maap_same s s'" "maap_same s (sm_indication x p r s') = maap_same s s'"
  "maap_same s (s'\<lparr>n_random := k\<rparr>) = maap_same s s'"
  by (simp_all add: maap_same_def upd_range_def set_sm_state_def probe_timer_stop_def announce_timer_stop_def maap_net_transmit_def
      maap_sprobe_def maap_sannounce_def sm_indication_def maap_ipc_indication_def ipc_send_def Let_def)

lemma rheap_acts [simp]:
  "rheap (upd_range r f s) = (rheap s)(r \<mapsto> f (get_range s r))"
  "rheap (set_sm_state st r s) = (rheap s)(r \<mapsto> (get_range s r)\<lparr>sm_state := st\<rparr>)"
  "rheap (probe_timer_stop r s) = (rheap s)(r \<mapsto> (get_range s r)\<lparr>probe_timer := None\<rparr>)"
  "rheap (announce_timer_stop r s) = (rheap s)(r \<mapsto> (get_range s r)\<lparr>announce_timer := None\<rparr>)"
  "rheap (maap_net_transmit p r m i s) = rheap s" "rheap (sm_indication x p r s) = rheap s"
  "rheap (maap_sprobe p r s) = (rheap s)(r \<mapsto> (get_range s r)\<lparr>probe_timer :=
     Some (rand_interval (maap_net_transmit p r MAAP_PROBE None s) MAAP_PROBE_INTERVAL_MIN MAAP_PROBE_INTERVAL_MAX)\<rparr>)"
  "rheap (maap_sannounce p r s) = (rheap s)(r \<mapsto> (get_range s r)\<lparr>announce_timer :=
     Some (rand_interval (maap_net_transmit p r MAAP_ANNOUNCE None s) MAAP_ANNOUNCE_INTERVAL_MIN MAAP_ANNOUNCE_INTERVAL_MAX)\<rparr>)"
  by (simp_all add: upd_range_def set_sm_state_def probe_timer_stop_def announce_timer_stop_def maap_net_transmit_def
      maap_sprobe_def maap_sannounce_def sm_indication_def maap_ipc_indication_def ipc_send_def Let_def get_range_def)

lemma rand_interval_bounds:
  assumes "\<forall>n. 0 \<le> os_random s n" and "0 \<le> lo" and "lo \<le> hi" and "hi < 2 ^ 31"
  shows "lo \<le> uint (rand_interval s lo hi)" "uint (rand_interval s lo hi) \<le> hi"
proof -
  let ?k = "random_range (os_random s (n_random s)) lo hi"
  have b: "lo \<le> ?k" "?k \<le> hi" using random_range_bounds [of "os_random s (n_random s)" lo hi] assms by simp_all
  then have "take_bit 32 (abs ?k) = ?k" using assms by (simp add: take_bit_int_eq_self)
  then have "uint (rand_interval s lo hi) = ?k" using b(1) assms(2) by (simp add: rand_interval_def unsigned_of_int)
  with b show "lo \<le> uint (rand_interval s lo hi)" "uint (rand_interval s lo hi) \<le> hi" by simp_all
qed

subsection \<open>Ranges\<close>

definition addr_ok :: "maap_range \<Rightarrow> bool" where
  "addr_ok g \<longleftrightarrow> length (start_mac_addr g) = 6 \<and> mac_count g \<noteq> 0 \<and> mac_count g \<le> MAAP_DYNAMIC_POOL_SIZE \<and>
     maap_is_in_dynamic_pool (start_mac_addr g) (mac_count g)"

definition probing :: "maap_range \<Rightarrow> bool" where
  "probing g \<longleftrightarrow> sm_state g = MAAP_STATE_PROBE \<and> announce_timer g = None \<and> maap_probe_count g \<in> {1, 2, 3}"

definition defending :: "maap_range \<Rightarrow> bool" where
  "defending g \<longleftrightarrow> sm_state g = MAAP_STATE_DEFEND \<and> probe_timer g = None \<and> send_conflict_indication g"

definition timer_in :: "u32 option \<Rightarrow> int \<Rightarrow> int \<Rightarrow> bool" where
  "timer_in t lo hi \<longleftrightarrow> (case t of None \<Rightarrow> False | Some i \<Rightarrow> lo \<le> uint i \<and> uint i \<le> hi)"

definition range_ok :: "maap_range \<Rightarrow> bool" where
  "range_ok g \<longleftrightarrow> addr_ok g \<and>
     (probing g \<and> timer_in (probe_timer g) MAAP_PROBE_INTERVAL_MIN MAAP_PROBE_INTERVAL_MAX \<or>
      defending g \<and> timer_in (announce_timer g) MAAP_ANNOUNCE_INTERVAL_MIN MAAP_ANNOUNCE_INTERVAL_MAX)"

lemmas range_defs = range_ok_def addr_ok_def probing_def defending_def timer_in_def

text \<open>What an event of the state machine does to the range, and that it touches nothing else.\<close>

definition sm_post :: "nat \<Rightarrow> maap_range \<Rightarrow> maap_ctx \<Rightarrow> maap_ctx \<Rightarrow> bool" where
  "sm_post r g s s' \<longleftrightarrow> maap_same s s' \<and> rheap s' = (rheap s)(r := rheap s' r) \<and>
     (case rheap s' r of None \<Rightarrow> False | Some g' \<Rightarrow> range_ok g' \<and> range_id g' = range_id g \<and> mac_count g' = mac_count g)"

lemma probe_interval: "\<forall>n. 0 \<le> os_random s n \<Longrightarrow> timer_in (Some (rand_interval s MAAP_PROBE_INTERVAL_MIN MAAP_PROBE_INTERVAL_MAX)) MAAP_PROBE_INTERVAL_MIN MAAP_PROBE_INTERVAL_MAX"
  using rand_interval_bounds [of s MAAP_PROBE_INTERVAL_MIN MAAP_PROBE_INTERVAL_MAX] by (simp add: timer_in_def)

lemma announce_interval: "\<forall>n. 0 \<le> os_random s n \<Longrightarrow>
    timer_in (Some (rand_interval s MAAP_ANNOUNCE_INTERVAL_MIN MAAP_ANNOUNCE_INTERVAL_MAX)) MAAP_ANNOUNCE_INTERVAL_MIN MAAP_ANNOUNCE_INTERVAL_MAX"
  using rand_interval_bounds [of s MAAP_ANNOUNCE_INTERVAL_MIN MAAP_ANNOUNCE_INTERVAL_MAX] by (simp add: timer_in_def)

lemma maap_same_random: "maap_same s s' \<Longrightarrow> os_random s' = os_random s"
  by (simp add: maap_same_def)

lemma sm_done: "maap_sm_step event p r info s = (None, s1) \<Longrightarrow> maap_sm r p event info s = s1"
  by (subst maap_sm.simps) simp

lemma sm_goto: "maap_sm_step event p r info s = (Some event1, s1) \<Longrightarrow> maap_sm r p event info s = maap_sm r p event1 info s1"
  by (subst maap_sm.simps) simp

lemma sm_post_via:
  assumes "sm_post r g1 s1 s'" and "maap_same s s1" and "rheap s1 = (rheap s)(r \<mapsto> g1)" and "range_id g1 = range_id g" and "mac_count g1 = mac_count g"
  shows "sm_post r g s s'"
proof -
  have "rheap s' = (rheap s1)(r := rheap s' r)" using assms(1) unfolding sm_post_def by blast
  then have "rheap s' = (rheap s)(r := rheap s' r)" unfolding assms(3) by (metis fun_upd_upd)
  then show ?thesis using assms(1,4,5) maap_same_trans [OF assms(2)] by (simp add: sm_post_def split: option.splits)
qed

lemma sm_reserve:
  assumes g: "rheap s r = Some g" "sm_state g = MAAP_STATE_INITIAL" "announce_timer g = None" "addr_ok g"
    and rnd: "\<forall>n. 0 \<le> os_random s n"
  shows "sm_post r g s (maap_sm r p MAAP_EVENT_RESERVE_ADDRESS info s)"
proof -
  let ?s = "upd_range r (\<lambda>range. range\<lparr>maap_probe_count := MAAP_PROBE_RETRANSMITS_VAL\<rparr>) s"
  have e: "maap_sm r p MAAP_EVENT_RESERVE_ADDRESS info s = set_sm_state MAAP_STATE_PROBE r (maap_sprobe p r ?s)"
    by (rule sm_done) (simp add: maap_sm_step_def get_range_def g)
  have "maap_same s (maap_net_transmit p r MAAP_PROBE None ?s)" by simp
  from maap_same_random [OF this] rnd have "timer_in (Some (rand_interval (maap_net_transmit p r MAAP_PROBE None ?s) MAAP_PROBE_INTERVAL_MIN MAAP_PROBE_INTERVAL_MAX))
      MAAP_PROBE_INTERVAL_MIN MAAP_PROBE_INTERVAL_MAX" by (intro probe_interval) simp
  then show ?thesis using g unfolding e by (simp add: sm_post_def get_range_def range_ok_def probing_def addr_ok_def)
qed

lemma sm_restart:
  assumes g: "rheap s r = Some g" "sm_state g = MAAP_STATE_INITIAL" "announce_timer g = None" "addr_ok g"
    and rnd: "\<forall>n. 0 \<le> os_random s n"
  shows "sm_post r g s (maap_sm r p MAAP_EVENT_RESTART info s)"
proof -
  let ?s1 = "if send_conflict_indication g then upd_range r (\<lambda>range. range\<lparr>send_conflict_indication := False\<rparr>) (sm_indication MAAP_STATUS_CONFLICT p r s)
    else s"
  let ?s2 = "upd_range r (\<lambda>range. range\<lparr>start_mac_addr := maap_generate_address (os_random ?s1 (n_random ?s1)) (mac_count range)\<rparr>)
    (?s1\<lparr>n_random := n_random ?s1 + 1\<rparr>)"
  let ?g = "(if send_conflict_indication g then g\<lparr>send_conflict_indication := False\<rparr> else g)\<lparr>start_mac_addr := maap_generate_address (os_random ?s1 (n_random ?s1)) (mac_count g)\<rparr>"
  have "maap_sm_step MAAP_EVENT_RESTART p r info s = (Some MAAP_EVENT_RESERVE_ADDRESS, ?s2)"
    by (simp add: maap_sm_step_def get_range_def g Let_def)
  note e = sm_goto [OF this]
  have c1: "maap_same s ?s1" by simp
  then have c: "maap_same s ?s2" by simp
  have h: "rheap ?s2 = (rheap s)(r \<mapsto> ?g)" using g by (cases "send_conflict_indication g") (simp_all add: get_range_def)
  then have hr: "rheap ?s2 r = Some ?g" by simp
  have "0 \<le> os_random ?s1 (n_random ?s1)" using maap_same_random [OF c1] rnd by simp
  from generated_mac [OF this] g(4) have "addr_ok ?g" by (cases "send_conflict_indication g") (simp_all add: addr_ok_def)
  moreover have "\<forall>n. 0 \<le> os_random ?s2 n" using maap_same_random [OF c] rnd by simp
  ultimately have "sm_post r ?g ?s2 (maap_sm r p MAAP_EVENT_RESERVE_ADDRESS info ?s2)"
    using sm_reserve [OF hr, of p info] g(2,3) by simp
  then show ?thesis unfolding e by (rule sm_post_via [OF _ c h]) simp_all
qed

text \<open>Back to the initial state, then another event.\<close>

lemma sm_back:
  assumes g: "rheap s r = Some g" "addr_ok g" and rnd: "\<forall>n. 0 \<le> os_random s n"
    and st: "probing g \<or> defending g"
    and stop: "s1 = set_sm_state MAAP_STATE_INITIAL r ((if probing g then probe_timer_stop r else announce_timer_stop r) s)"
    and e: "maap_sm_step event p r info s = (Some event1, s1)"
    and ev: "event1 \<in> {MAAP_EVENT_RESTART, MAAP_EVENT_RESERVE_ADDRESS}"
  shows "sm_post r g s (maap_sm r p event info s)"
proof -
  let ?g = "(if probing g then g\<lparr>probe_timer := None\<rparr> else g\<lparr>announce_timer := None\<rparr>)\<lparr>sm_state := MAAP_STATE_INITIAL\<rparr>"
  have h: "rheap s1 = (rheap s)(r \<mapsto> ?g)" using g(1) by (simp add: stop get_range_def)
  have c: "maap_same s s1" by (simp add: stop)
  have "rheap s1 r = Some ?g" "sm_state ?g = MAAP_STATE_INITIAL" "announce_timer ?g = None" "addr_ok ?g"
    using h st g(2) by (auto simp: probing_def addr_ok_def)
  moreover have "\<forall>n. 0 \<le> os_random s1 n" using maap_same_random [OF c] rnd by simp
  ultimately have "sm_post r ?g s1 (maap_sm r p event1 info s1)"
    using ev sm_restart [of s1 r ?g p info] sm_reserve [of s1 r ?g p info] by blast
  then show ?thesis unfolding sm_goto [OF e] by (rule sm_post_via [OF _ c h]) simp_all
qed

lemma sm_keep: "rheap s r = Some g \<Longrightarrow> range_ok g \<Longrightarrow> maap_same s s' \<Longrightarrow> rheap s' = rheap s \<Longrightarrow> sm_post r g s s'"
  by (simp add: sm_post_def fun_upd_idem)

lemma range_ok_state: "range_ok g \<Longrightarrow> addr_ok g \<and> (probing g \<or> defending g)"
  by (auto simp: range_ok_def)

lemma not_both: "probing g \<Longrightarrow> \<not> defending g"
  by (simp add: probing_def defending_def)

lemma sm_received:
  assumes g: "rheap s r = Some g" "range_ok g" and rnd: "\<forall>n. 0 \<le> os_random s n"
    and ev: "event \<in> {MAAP_EVENT_RPROBE, MAAP_EVENT_RDEFEND, MAAP_EVENT_RANNOUNCE, MAAP_EVENT_PORT_OPERATIONAL}"
  shows "sm_post r g s (maap_sm r p event info s)"
proof -
  have ok: "addr_ok g" "probing g \<or> defending g" using range_ok_state [OF g(2)] by simp_all
  let ?s1 = "set_sm_state MAAP_STATE_INITIAL r ((if probing g then probe_timer_stop r else announce_timer_stop r) s)"
  have "(\<exists>event1. maap_sm_step event p r info s = (Some event1, ?s1) \<and> event1 \<in> {MAAP_EVENT_RESTART, MAAP_EVENT_RESERVE_ADDRESS}) \<or>
    (\<exists>s1. maap_sm_step event p r info s = (None, s1) \<and> maap_same s s1 \<and> rheap s1 = rheap s)"
  proof (cases "probing g")
    case True
    then have "sm_state g = MAAP_STATE_PROBE" by (simp add: probing_def)
    then show ?thesis using ev True g(1) by (auto simp: maap_sm_step_def Let_def get_range_def)
  next
    case False
    then have "sm_state g = MAAP_STATE_DEFEND" using ok(2) by (simp add: defending_def)
    then show ?thesis using ev False g(1) by (auto simp: maap_sm_step_def Let_def get_range_def)
  qed
  then show ?thesis
  proof (elim disjE exE conjE)
    fix event1 assume "maap_sm_step event p r info s = (Some event1, ?s1)" "event1 \<in> {MAAP_EVENT_RESTART, MAAP_EVENT_RESERVE_ADDRESS}"
    then show ?thesis by (rule sm_back [OF g(1) ok(1) rnd ok(2) refl])
  next
    fix s1 assume "maap_sm_step event p r info s = (None, s1)" "maap_same s s1" "rheap s1 = rheap s"
    then show ?thesis using sm_keep [OF g] sm_done by simp
  qed
qed

lemma sm_probe_count:
  assumes g: "rheap s r = Some g" "addr_ok g" "sm_state g = MAAP_STATE_PROBE" and rnd: "\<forall>n. 0 \<le> os_random s n"
  shows "sm_post r g s (maap_sm r p MAAP_EVENT_PROBE_COUNT info s)"
proof -
  let ?s = "upd_range r (\<lambda>range. range\<lparr>send_conflict_indication := True\<rparr>) (sm_indication MAAP_STATUS_SUCCESS p r (probe_timer_stop r s))"
  have e: "maap_sm r p MAAP_EVENT_PROBE_COUNT info s = set_sm_state MAAP_STATE_DEFEND r (maap_sannounce p r ?s)"
    by (rule sm_done) (simp add: maap_sm_step_def get_range_def g)
  have "maap_same s (maap_net_transmit p r MAAP_ANNOUNCE None ?s)" by simp
  from maap_same_random [OF this] rnd have "timer_in (Some (rand_interval (maap_net_transmit p r MAAP_ANNOUNCE None ?s)
      MAAP_ANNOUNCE_INTERVAL_MIN MAAP_ANNOUNCE_INTERVAL_MAX)) MAAP_ANNOUNCE_INTERVAL_MIN MAAP_ANNOUNCE_INTERVAL_MAX"
    by (intro announce_interval) simp
  then show ?thesis using g unfolding e by (simp add: sm_post_def get_range_def range_ok_def defending_def addr_ok_def)
qed

lemma sm_probe_timer:
  assumes g: "rheap s r = Some g" "addr_ok g" "probing g" and rnd: "\<forall>n. 0 \<le> os_random s n"
  shows "sm_post r g s (maap_sm r p MAAP_EVENT_PROBE_TIMER info s)"
proof -
  let ?i = "Some (rand_interval (maap_net_transmit p r MAAP_PROBE None s) MAAP_PROBE_INTERVAL_MIN MAAP_PROBE_INTERVAL_MAX)"
  let ?g = "g\<lparr>probe_timer := ?i, maap_probe_count := maap_probe_count g - 1\<rparr>"
  let ?s = "upd_range r (\<lambda>range. range\<lparr>maap_probe_count := maap_probe_count range - 1\<rparr>) (maap_sprobe p r s)"
  have h: "rheap ?s = (rheap s)(r \<mapsto> ?g)" and c: "maap_same s ?s" using g(1) by (simp_all add: get_range_def)
  have step: "maap_sm_step MAAP_EVENT_PROBE_TIMER p r info s = (if maap_probe_count g = 1 then Some MAAP_EVENT_PROBE_COUNT else None, ?s)"
    using g by (auto simp: maap_sm_step_def Let_def get_range_def probing_def)
  have "maap_same s (maap_net_transmit p r MAAP_PROBE None s)" by simp
  from maap_same_random [OF this] rnd have t: "timer_in ?i MAAP_PROBE_INTERVAL_MIN MAAP_PROBE_INTERVAL_MAX" by (intro probe_interval) simp
  show ?thesis
  proof (cases "maap_probe_count g = 1")
    case True
    have "rheap ?s r = Some ?g" "addr_ok ?g" "sm_state ?g = MAAP_STATE_PROBE" using h g by (simp_all add: addr_ok_def probing_def)
    moreover have "\<forall>n. 0 \<le> os_random ?s n" using maap_same_random [OF c] rnd by simp
    ultimately have "sm_post r ?g ?s (maap_sm r p MAAP_EVENT_PROBE_COUNT info ?s)" by (rule sm_probe_count)
    moreover have "maap_sm_step MAAP_EVENT_PROBE_TIMER p r info s = (Some MAAP_EVENT_PROBE_COUNT, ?s)" using step True by simp
    ultimately show ?thesis using sm_goto sm_post_via [OF _ c h] by simp
  next
    case False
    then have "maap_sm r p MAAP_EVENT_PROBE_TIMER info s = ?s" using sm_done step by simp
    moreover have "maap_probe_count g - 1 \<in> {1, 2, 3}" using g(3) False by (auto simp: probing_def)
    then have "range_ok ?g" using g t by (simp add: range_ok_def probing_def addr_ok_def)
    ultimately show ?thesis using h c by (simp add: sm_post_def)
  qed
qed

lemma sm_announce_timer:
  assumes g: "rheap s r = Some g" "addr_ok g" "defending g" and rnd: "\<forall>n. 0 \<le> os_random s n"
  shows "sm_post r g s (maap_sm r p MAAP_EVENT_ANNOUNCE_TIMER info s)"
proof -
  have e: "maap_sm r p MAAP_EVENT_ANNOUNCE_TIMER info s = maap_sannounce p r s"
    by (rule sm_done) (use g in \<open>simp add: maap_sm_step_def get_range_def defending_def\<close>)
  have "maap_same s (maap_net_transmit p r MAAP_ANNOUNCE None s)" by simp
  from maap_same_random [OF this] rnd have "timer_in (Some (rand_interval (maap_net_transmit p r MAAP_ANNOUNCE None s)
      MAAP_ANNOUNCE_INTERVAL_MIN MAAP_ANNOUNCE_INTERVAL_MAX)) MAAP_ANNOUNCE_INTERVAL_MIN MAAP_ANNOUNCE_INTERVAL_MAX"
    by (intro announce_interval) simp
  then show ?thesis using g unfolding e by (simp add: sm_post_def get_range_def range_ok_def defending_def addr_ok_def)
qed

lemma sm_begin:
  assumes g: "rheap s r = Some g" "sm_state g = MAAP_STATE_INITIAL" "announce_timer g = None" "addr_ok g"
    and rnd: "\<forall>n. 0 \<le> os_random s n"
  shows "sm_post r g s (maap_sm r p MAAP_EVENT_BEGIN info s)"
proof -
  have "maap_sm_step MAAP_EVENT_BEGIN p r info s = (Some MAAP_EVENT_RESERVE_ADDRESS, s)"
    using g by (simp add: maap_sm_step_def get_range_def)
  then show ?thesis using sm_goto sm_reserve [OF assms] by simp
qed

end
