(* ===== verification/MAAP_Inv.thy ===== *)
theory MAAP_Inv
  imports MAAP_Proofs
begin

section \<open>MAAP: every operation keeps the ranges consistent\<close>

text \<open>
  The invariant of the MAAP context: the list of a port holds its ranges, each once, as many as the
  counter says, with different identifiers; every range lies in the dynamic pool and is either probing
  with its probe timer running or defending with its announce timer running; no other range is
  allocated.
\<close>

definition owned :: "maap_ctx \<Rightarrow> nat \<Rightarrow> nat list" where
  "owned s p = (case range_list (mport s p) of None \<Rightarrow> [] | Some l \<Rightarrow> l)"

definition port_ok :: "maap_ctx \<Rightarrow> nat \<Rightarrow> bool" where
  "port_ok s p \<longleftrightarrow> distinct (owned s p) \<and> unat (allocated_ranges_count (mport s p)) = length (owned s p) \<and> length (owned s p) \<le> 128 \<and>
     inj_on (\<lambda>r. range_id (get_range s r)) (set (owned s p)) \<and> (initialized (mport s p) \<longrightarrow> range_list (mport s p) \<noteq> None) \<and> (\<not> initialized (mport s p) \<longrightarrow> owned s p = [])"

text \<open>The ranges of \<open>X\<close> are those that an operation is about to bring into a proper state.\<close>

definition maap_inv_but :: "nat set \<Rightarrow> maap_ctx \<Rightarrow> bool" where
  "maap_inv_but X s \<longleftrightarrow> (\<forall>p < port_max s. port_ok s p) \<and>
     (\<forall>p q. p < port_max s \<longrightarrow> q < port_max s \<longrightarrow> p \<noteq> q \<longrightarrow> set (owned s p) \<inter> set (owned s q) = {}) \<and>
     dom (rheap s) = (\<Union>p < port_max s. set (owned s p)) \<and> (\<forall>r g. rheap s r = Some g \<longrightarrow> r < next_range s \<and> (r \<notin> X \<longrightarrow> range_ok g)) \<and>
     (\<forall>n. 0 \<le> os_random s n)"

abbreviation maap_inv :: "maap_ctx \<Rightarrow> bool" where "maap_inv \<equiv> maap_inv_but {}"

lemma maap_invD:
  assumes "maap_inv s"
  shows "p < port_max s \<Longrightarrow> port_ok s p" "\<forall>n. 0 \<le> os_random s n" "rheap s r = Some g \<Longrightarrow> range_ok g" "rheap s r = Some g \<Longrightarrow> r < next_range s"
    "p < port_max s \<Longrightarrow> r \<in> set (owned s p) \<Longrightarrow> \<exists>g. rheap s r = Some g" "dom (rheap s) = (\<Union>p < port_max s. set (owned s p))"
    "p < port_max s \<Longrightarrow> q < port_max s \<Longrightarrow> p \<noteq> q \<Longrightarrow> set (owned s p) \<inter> set (owned s q) = {}"
proof -
  show "\<exists>g. rheap s r = Some g" if "p < port_max s" "r \<in> set (owned s p)"
  proof -
    have "r \<in> dom (rheap s)" using assms that unfolding maap_inv_but_def by auto
    then show ?thesis by auto
  qed
qed (use assms in \<open>unfold maap_inv_but_def, blast+\<close>)

subsection \<open>Events of a range\<close>

lemma maap_inv_but_mono: "maap_inv_but X s \<Longrightarrow> X \<subseteq> Y \<Longrightarrow> maap_inv_but Y s"
  unfolding maap_inv_but_def by blast

lemma sm_post_inv:
  assumes i: "maap_inv_but {r} s" and g: "rheap s r = Some g" and post: "sm_post r g s s'"
  shows "maap_inv s'" "dom (rheap s') = dom (rheap s)" "maap_same s s'"
proof -
  have c: "maap_same s s'" and h: "rheap s' = (rheap s)(r := rheap s' r)" using post unfolding sm_post_def by blast+
  obtain g' where g': "rheap s' r = Some g'" "range_ok g'" "range_id g' = range_id g"
    using post by (auto simp: sm_post_def split: option.splits)
  show "maap_same s s'" by (rule c)
  have o: "owned s' = owned s" "mport s' = mport s" using c by (simp_all add: owned_def maap_same_def fun_eq_iff)
  have h': "rheap s' = (rheap s)(r \<mapsto> g')" using h g'(1) by simp
  show d: "dom (rheap s') = dom (rheap s)" using h' g by auto
  have rid: "range_id (get_range s' q) = range_id (get_range s q)" for q
    using h' g g'(3) by (simp add: get_range_def)
  have "port_ok s' p = port_ok s p" for p unfolding port_ok_def o rid by (rule refl)
  moreover have "q < next_range s' \<and> range_ok x" if "rheap s' q = Some x" for q x
  proof -
    have n: "\<And>q x. rheap s q = Some x \<Longrightarrow> q < next_range s \<and> (q \<notin> {r} \<longrightarrow> range_ok x)" using i unfolding maap_inv_but_def by blast
    show ?thesis using that h' g'(2) n [of q x] n [OF g] c by (cases "q = r") (auto simp: maap_same_def)
  qed
  ultimately show "maap_inv s'"
    using i d c unfolding maap_inv_but_def o by (auto simp: maap_same_def)
qed

text \<open>Running an event over a list of ranges.\<close>

lemma fold_inv:
  assumes f: "\<And>r s. maap_inv s \<Longrightarrow> rheap s r \<noteq> None \<Longrightarrow> maap_inv (f r s) \<and> dom (rheap (f r s)) = dom (rheap s) \<and> maap_same s (f r s)"
    and "maap_inv s" and "\<And>r. r \<in> set l \<Longrightarrow> rheap s r \<noteq> None"
  shows "maap_inv (fold f l s) \<and> dom (rheap (fold f l s)) = dom (rheap s) \<and> maap_same s (fold f l s)"
  using assms(2,3)
proof (induction l arbitrary: s)
  case (Cons r l)
  have 1: "maap_inv (f r s)" "dom (rheap (f r s)) = dom (rheap s)" "maap_same s (f r s)" using f Cons.prems by simp_all
  have "rheap (f r s) q \<noteq> None" if "q \<in> set l" for q using 1(2) Cons.prems(2) [of q] that by (auto simp: dom_def)
  from Cons.IH [OF 1(1) this] show ?case using 1 maap_same_trans by auto
qed simp

lemma owned_alive: "maap_inv s \<Longrightarrow> p < port_max s \<Longrightarrow> r \<in> set (owned s p) \<Longrightarrow> rheap s r \<noteq> None"
  using maap_invD(5) by blast

definition kept :: "maap_ctx \<Rightarrow> maap_ctx \<Rightarrow> bool" where
  "kept s s' \<longleftrightarrow> maap_inv s' \<and> dom (rheap s') = dom (rheap s) \<and> maap_same s s'"

lemma sm_received_kept:
  assumes "maap_inv s" and "rheap s r \<noteq> None"
    and "event \<in> {MAAP_EVENT_RPROBE, MAAP_EVENT_RDEFEND, MAAP_EVENT_RANNOUNCE, MAAP_EVENT_PORT_OPERATIONAL}"
  shows "kept s (maap_sm r p event info s)"
proof -
  obtain g where g: "rheap s r = Some g" using assms(2) by auto
  have "sm_post r g s (maap_sm r p event info s)"
    by (rule sm_received [OF g maap_invD(3) [OF assms(1) g] maap_invD(2) [OF assms(1)] assms(3)])
  from sm_post_inv [OF maap_inv_but_mono [OF assms(1)] g this] show ?thesis by (simp add: kept_def)
qed

lemma kept_refl: "maap_inv s \<Longrightarrow> kept s s"
  by (simp add: kept_def)

lemma handlers_kept:
  assumes "maap_inv s" and "rheap s r \<noteq> None"
  shows "event \<in> {MAAP_EVENT_RPROBE, MAAP_EVENT_RANNOUNCE} \<Longrightarrow> kept s (handle_conflict event p pdu src r s)"
    and "kept s (handle_defend1 p pdu src r s)"
  using sm_received_kept [OF assms] kept_refl [OF assms(1)]
  by (auto simp: handle_conflict_def handle_defend1_def Let_def split: option.split)

lemma initialized_owned: "maap_inv s \<Longrightarrow> p < port_max s \<Longrightarrow> initialized (mport s p) \<Longrightarrow> range_list (mport s p) = Some (owned s p)"
  using maap_invD(1) [of s p] by (auto simp: port_ok_def owned_def)

lemma net_receive_ok:
  assumes i: "maap_inv s" and p: "p < port_max s" "initialized (mport s p)" and len: "rx_l3 desc + 28 \<le> length (rx_buf desc)"
  shows "\<exists>s'. maap_net_receive p desc s = Some s' \<and> kept s s'"
proof -
  have l: "the (range_list (mport s p)) = owned s p" using initialized_owned [OF i p] by simp
  have al: "\<And>r. r \<in> set (owned s p) \<Longrightarrow> rheap s r \<noteq> None" using owned_alive [OF i p(1)] by blast
  have f: "kept s (fold f (owned s p) s)" if "\<And>r s. maap_inv s \<Longrightarrow> rheap s r \<noteq> None \<Longrightarrow> kept s (f r s)" for f
    using fold_inv [OF _ i al, of f] that unfolding kept_def by blast
  have "kept s (maap_handle_probe p pdu src (owned s p) s)" "kept s (maap_handle_announce p pdu src (owned s p) s)"
    "kept s (maap_handle_defend p pdu src (owned s p) s)" for pdu src
    unfolding maap_handle_probe_def maap_handle_announce_def maap_handle_defend_def by (rule f, simp add: handlers_kept)+
  then show ?thesis using len kept_refl [OF i] by (simp add: maap_net_receive_def maap_pdu_fields_def Let_def l)
qed

lemma mac_service_ok:
  assumes i: "maap_inv s" and p: "p < port_max s" "initialized (mport s p)"
  shows "kept s (maap_ipc_rx_mac_service p up s)"
proof -
  have al: "\<And>r. r \<in> set (owned s p) \<Longrightarrow> rheap s r \<noteq> None" using owned_alive [OF i p(1)] by blast
  have "kept s (fold (\<lambda>r. maap_sm r p MAAP_EVENT_PORT_OPERATIONAL None) (owned s p) s)"
    using fold_inv [OF _ i al, of "\<lambda>r. maap_sm r p MAAP_EVENT_PORT_OPERATIONAL None"] sm_received_kept unfolding kept_def by blast
  then show ?thesis using kept_refl [OF i] initialized_owned [OF i p] by (simp add: maap_ipc_rx_mac_service_def)
qed

lemma timers_ok:
  assumes i: "maap_inv s" and g: "rheap s r = Some g"
  shows "probe_timer g \<noteq> None \<Longrightarrow> kept s (probe_timer_expired p r s)"
    and "announce_timer g \<noteq> None \<Longrightarrow> kept s (announce_timer_expired p r s)"
proof -
  note ok = range_ok_state [OF maap_invD(3) [OF i g]] and rnd = maap_invD(2) [OF i]
  have kept: "kept s s'" if "sm_post r g1 s1 s'" "maap_same s s1" "rheap s1 = (rheap s)(r \<mapsto> g1)" "range_id g1 = range_id g" "mac_count g1 = mac_count g" for g1 s1 s'
    using sm_post_inv [OF maap_inv_but_mono [OF i] g sm_post_via [OF that]] by (simp add: kept_def)
  show "kept s (probe_timer_expired p r s)" if "probe_timer g \<noteq> None"
  proof -
    let ?g = "g\<lparr>probe_timer := None\<rparr>" and ?s = "probe_timer_stop r s"
    have "probing ?g" "addr_ok ?g" using ok that by (auto simp: probing_def defending_def addr_ok_def)
    moreover have "rheap ?s = (rheap s)(r \<mapsto> ?g)" using g by (simp add: get_range_def)
    moreover have "maap_same s ?s" by simp
    moreover have "\<forall>n. 0 \<le> os_random ?s n" using maap_same_random [OF \<open>maap_same s ?s\<close>] rnd by simp
    ultimately show ?thesis using sm_probe_timer [of ?s r ?g p None] kept [of ?g ?s]
      by (simp add: probe_timer_expired_def maap_probe_timer_handler_def)
  qed
  show "kept s (announce_timer_expired p r s)" if "announce_timer g \<noteq> None"
  proof -
    let ?g = "g\<lparr>announce_timer := None\<rparr>" and ?s = "announce_timer_stop r s"
    have "defending ?g" "addr_ok ?g" using ok that by (auto simp: probing_def defending_def addr_ok_def)
    moreover have "rheap ?s = (rheap s)(r \<mapsto> ?g)" using g by (simp add: get_range_def)
    moreover have "maap_same s ?s" by simp
    moreover have "\<forall>n. 0 \<le> os_random ?s n" using maap_same_random [OF \<open>maap_same s ?s\<close>] rnd by simp
    ultimately show ?thesis using sm_announce_timer [of ?s r ?g p None] kept [of ?g ?s]
      by (simp add: announce_timer_expired_def maap_announce_timer_handler_def)
  qed
qed

subsection \<open>Deletion\<close>

lemma del_range_ok:
  assumes i: "maap_inv s" and p: "p < port_max s" and l: "range_list (mport s p) = Some l" and r: "r \<in> set l"
  shows "maap_inv (del_range p r s)" "range_list (mport (del_range p r s) p) = Some (remove1 r l)"
    "rheap (del_range p r s) = (rheap s)(r := None)" "port_max (del_range p r s) = port_max s"
    "\<forall>q. q \<noteq> p \<longrightarrow> mport (del_range p r s) q = mport s q" "initialized (mport (del_range p r s) p) = initialized (mport s p)"
proof -
  let ?s = "del_range p r s"
  have o: "owned s p = l" using l by (simp add: owned_def)
  note pk = maap_invD(1) [OF i p, unfolded port_ok_def o]
  have e: "mport ?s = (mport s)(p := (mport s p)\<lparr>range_list := Some (remove1 r l), allocated_ranges_count := allocated_ranges_count (mport s p) - 1\<rparr>)"
      "rheap ?s = (rheap s)(r := None)" "port_max ?s = port_max s" "next_range ?s = next_range s" "os_random ?s = os_random s"
    using l by (simp_all add: del_range_def maap_range_free_def upd_port_def fun_eq_iff)
  have ow: "owned ?s p = remove1 r l" "\<And>q. q \<noteq> p \<Longrightarrow> owned ?s q = owned s q" by (simp_all add: owned_def e)
  have get: "get_range ?s q = get_range s q" if "q \<noteq> r" for q using that by (simp add: get_range_def e)
  have sub: "set (remove1 r l) = set l - {r}" using pk by (simp add: set_remove1_eq)
  have "0 < length l" using r by (cases l) auto
  have "0 < unat (allocated_ranges_count (mport s p))" using pk \<open>0 < length l\<close> by simp
  then have cnt: "unat (allocated_ranges_count (mport s p) - 1) = length l - 1" using pk by (metis unat_gt_0 unat_minus_one)
  have inj: "inj_on (\<lambda>q. range_id (get_range ?s q)) (set l - {r})"
    using pk get by (auto simp: inj_on_def)
  have "length l - 1 \<le> 128" using pk by linarith
  moreover have "initialized (mport s p)" using pk r by (cases l) auto
  ultimately have "port_ok ?s p" using pk cnt inj r sub by (simp add: port_ok_def ow length_remove1 e l)
  moreover have disj: "set (owned s q) \<inter> set l = {}" if "q < port_max s" "q \<noteq> p" for q
    using maap_invD(7) [OF i that(1) p that(2)] o by simp
  have "port_ok ?s q" if q: "q < port_max s" "q \<noteq> p" for q
  proof -
    have "r \<notin> set (owned s q)" using disj [OF q] r by blast
    then have "inj_on (\<lambda>x. range_id (get_range ?s x)) (set (owned s q)) = inj_on (\<lambda>x. range_id (get_range s x)) (set (owned s q))"
      using get by (intro inj_on_cong) metis
    then show ?thesis using maap_invD(1) [OF i q(1)] q(2) by (simp add: port_ok_def ow e)
  qed
  ultimately have P: "\<forall>q < port_max ?s. port_ok ?s q" using e(3) by metis
  have "set (owned ?s q) \<inter> set (owned ?s q') = {}" if "q < port_max s" "q' < port_max s" "q \<noteq> q'" for q q'
    using maap_invD(7) [OF i that] o ow sub that by (cases "q = p"; cases "q' = p") auto
  moreover have "dom (rheap ?s) = (\<Union>q < port_max s. set (owned ?s q))"
  proof -
    have "(\<Union>q < port_max s. set (owned ?s q)) = (\<Union>q < port_max s. set (owned s q)) - {r}"
    proof (intro set_eqI iffI)
      fix x assume "x \<in> (\<Union>q < port_max s. set (owned ?s q))"
      then obtain q where "q < port_max s" "x \<in> set (owned ?s q)" by blast
      then show "x \<in> (\<Union>q < port_max s. set (owned s q)) - {r}"
        using disj [of q] r sub ow o by (cases "q = p") auto
    next
      fix x assume "x \<in> (\<Union>q < port_max s. set (owned s q)) - {r}"
      then obtain q where q: "q < port_max s" "x \<in> set (owned s q)" "x \<noteq> r" by blast
      then have "x \<in> set (owned ?s q)" using sub ow o by (cases "q = p") auto
      then show "x \<in> (\<Union>q < port_max s. set (owned ?s q))" using q(1) by blast
    qed
    then show ?thesis using maap_invD(6) [OF i] by (simp add: e)
  qed
  moreover have "q < next_range ?s \<and> range_ok g" if "rheap ?s q = Some g" for q g
    using that maap_invD(3,4) [OF i, of q g] by (auto simp: e split: if_splits)
  ultimately show "maap_inv ?s" using P maap_invD(2) [OF i] unfolding maap_inv_but_def e(3,5) by blast
  show "range_list (mport ?s p) = Some (remove1 r l)" "rheap ?s = (rheap s)(r := None)" "port_max ?s = port_max s"
    "\<forall>q. q \<noteq> p \<longrightarrow> mport ?s q = mport s q" "initialized (mport ?s p) = initialized (mport s p)" by (simp_all add: e)
qed

lemma inv_cong:
  assumes "maap_inv_but X s" and "rheap s' = rheap s" "mport s' = mport s" "port_max s' = port_max s" "next_range s' = next_range s" "os_random s' = os_random s"
  shows "maap_inv_but X s'"
proof -
  have "owned s' = owned s" "get_range s' = get_range s" using assms(2,3) by (simp_all add: owned_def get_range_def fun_eq_iff)
  then have "maap_inv_but X s' = maap_inv_but X s"
    by (simp only: maap_inv_but_def port_ok_def assms(2-6))
  with assms(1) show ?thesis by (simp only:)
qed

lemma remove_range_ok:
  assumes i: "maap_inv s" and p: "p < port_max s" "initialized (mport s p)" and e: "maap_remove_range_on_port s p rid = x"
  shows "\<exists>res s'. x = Some (res, s') \<and> maap_inv s' \<and> port_max s' = port_max s \<and> (\<forall>q. q \<noteq> p \<longrightarrow> mport s' q = mport s q) \<and>
    (res = None \<longrightarrow> s' = s \<and> \<not> is_range_id_used s (owned s p) rid) \<and> \<not> is_range_id_used s' (owned s' p) rid"
proof -
  have l: "range_list (mport s p) = Some (owned s p)" by (rule initialized_owned [OF i p])
  show ?thesis
  proof (cases "get_range_by_id s (owned s p) rid")
    case None
    then show ?thesis using e l i by (auto simp: maap_remove_range_on_port_def is_range_id_used_def)
  next
    case (Some r)
    then have r: "r \<in> set (owned s p)" "range_id (get_range s r) = rid"
      by (auto simp: get_range_by_id_def dest: find_Some_in)
    note d = del_range_ok [OF i p(1) l r(1)]
    have inj: "inj_on (\<lambda>r. range_id (get_range s r)) (set (owned s p))" and di: "distinct (owned s p)"
      using maap_invD(1) [OF i p(1)] by (simp_all add: port_ok_def)
    have o: "owned (del_range p r s) p = remove1 r (owned s p)" using d(2) by (simp add: owned_def)
    have "range_id (get_range (del_range p r s) q) \<noteq> rid" if "q \<in> set (remove1 r (owned s p))" for q
    proof -
      have q: "q \<in> set (owned s p)" "q \<noteq> r" using that di by (auto simp: set_remove1_eq)
      then have "get_range (del_range p r s) q = get_range s q" using d(3) by (simp add: get_range_def)
      then show ?thesis using inj q r by (auto simp: inj_on_def)
    qed
    then have "\<not> is_range_id_used (del_range p r s) (owned (del_range p r s) p) rid"
      unfolding o by (auto simp: is_range_id_used_def get_range_by_id_def find_None_iff)
    then show ?thesis using e l Some d by (auto simp: maap_remove_range_on_port_def)
  qed
qed

subsection \<open>Creation\<close>

definition fresh_range :: "maap_range \<Rightarrow> u32 \<Rightarrow> u32 \<Rightarrow> bool" where
  "fresh_range g rid n \<longleftrightarrow> addr_ok g \<and> sm_state g = MAAP_STATE_INITIAL \<and> announce_timer g = None \<and> range_id g = rid \<and> mac_count g = n \<and>
     \<not> send_conflict_indication g"

definition alloc_post :: "maap_ctx \<Rightarrow> nat \<Rightarrow> u32 \<Rightarrow> u32 \<Rightarrow> nat option \<Rightarrow> maap_ctx \<Rightarrow> bool" where
  "alloc_post s p rid n res s' \<longleftrightarrow> port_max s' = port_max s \<and> os_random s' = os_random s \<and>
     (case res of
        None \<Rightarrow> mport s' = mport s \<and> rheap s' = rheap s \<and> next_range s' = next_range s
      | Some r \<Rightarrow> r = next_range s \<and> next_range s' = r + 1 \<and>
          mport s' = (mport s)(p := (mport s p)\<lparr>allocated_ranges_count := allocated_ranges_count (mport s p) + 1\<rparr>) \<and>
          (\<exists>g. rheap s' = (rheap s)(r \<mapsto> g) \<and> fresh_range g rid n \<and> \<not> check_internal_conflict s (owned s p) g) \<and>
          allocated_ranges_count (mport s p) < MAAP_PORT_MAX_RANGES_ALLOCATION \<and> \<not> is_range_id_used s (owned s p) rid)"

lemma check_internal_cong: "rheap s' = rheap s \<Longrightarrow> check_internal_conflict s' l g = check_internal_conflict s l g"
  by (simp add: check_internal_conflict_def get_range_def)

lemma alloc_ok:
  assumes l: "range_list (mport s p) = Some (owned s p)" and rnd: "\<forall>n. 0 \<le> os_random s n"
    and a: "\<forall>a. addr = Some a \<longrightarrow> length a = 6"
  shows "\<exists>res s'. maap_range_alloc s p rid addr n = Some (res, s') \<and> alloc_post s p rid n res s'"
proof -
  let ?bad = "(n > MAAP_DYNAMIC_POOL_SIZE \<or> n \<le> 0) \<or> addr \<noteq> None \<and> \<not> maap_is_in_dynamic_pool (the addr) n \<or>
    allocated_ranges_count (mport s p) \<ge> MAAP_PORT_MAX_RANGES_ALLOCATION \<or> is_range_id_used s (owned s p) rid"
  let ?s1 = "s\<lparr>n_malloc := n_malloc s + 1\<rparr>"
  define start s2 where "start = (case addr of None \<Rightarrow> maap_generate_address (os_random s (n_random s)) n | Some a \<Rightarrow> take 6 a)"
    and "s2 = (case addr of None \<Rightarrow> ?s1\<lparr>n_random := n_random s + 1\<rparr> | Some a \<Rightarrow> ?s1)"
  let ?g = "\<lparr>range_id = rid, mac_count = n, start_mac_addr = start, sm_state = MAAP_STATE_INITIAL, announce_timer = None, probe_timer = None,
    maap_probe_count = MAAP_PROBE_RETRANSMITS_VAL, send_conflict_indication = False\<rparr>"
  obtain rc s3 where t: "maap_timers_init s2 = (rc, s3)" by force
  have e2: "rheap s2 = rheap s" "mport s2 = mport s" "port_max s2 = port_max s" "next_range s2 = next_range s" "os_random s2 = os_random s"
    by (simp_all add: s2_def split: option.split)
  then have e3: "rheap s3 = rheap s" "mport s3 = mport s" "port_max s3 = port_max s" "next_range s3 = next_range s" "os_random s3 = os_random s"
    using t by (auto simp: maap_timers_init_def split: if_splits)
  let ?s4 = "upd_port p (\<lambda>port. port\<lparr>allocated_ranges_count := allocated_ranges_count port + 1\<rparr>)
    (s3\<lparr>rheap := (rheap s3)(next_range s \<mapsto> ?g), next_range := next_range s + 1\<rparr>)"
  have alloc: "maap_range_alloc s p rid addr n =
    (if ?bad then Some (None, s) else if \<not> malloc_ok s (n_malloc s) then Some (None, ?s1)
     else if check_internal_conflict s2 (owned s p) ?g then Some (None, s2) else if rc < 0 then Some (None, s3) else Some (Some (next_range s), ?s4))"
    using t by (cases addr) (auto simp: maap_range_alloc_def l Let_def start_def s2_def)
  have fresh: "fresh_range ?g rid n" if "\<not> ?bad"
  proof -
    have n: "n \<noteq> 0" "n \<le> MAAP_DYNAMIC_POOL_SIZE" using that by (auto simp: not_less)
    have "length start = 6 \<and> maap_is_in_dynamic_pool start n"
      using generated_mac [OF rnd [rule_format] n] a that by (cases addr) (auto simp: start_def)
    then show ?thesis using n by (simp add: fresh_range_def addr_ok_def)
  qed
  have nc: "check_internal_conflict s2 (owned s p) ?g = check_internal_conflict s (owned s p) ?g" by (rule check_internal_cong [OF e2(1)])
  show ?thesis unfolding alloc nc
    using fresh e2 e3 by (auto simp: alloc_post_def upd_port_def not_le intro!: exI [where x = ?g])
qed

text \<open>A new range enters the list of its port before its state machine runs.\<close>

lemma added_inv:
  assumes i: "maap_inv s" and p: "p < port_max s" "initialized (mport s p)" and l: "range_list (mport s p) = Some (owned s p)"
    and a: "alloc_post s p rid n (Some r) s1"
    and e: "s2 = upd_port p (\<lambda>port. port\<lparr>range_list := map_option ((#) r) (range_list port)\<rparr>) s1"
  shows "maap_inv_but {r} s2" "owned s2 p = r # owned s p" "\<forall>q. q \<noteq> p \<longrightarrow> mport s2 q = mport s q"
proof -
  from a obtain g where r: "r = next_range s" and g: "rheap s1 = (rheap s)(r \<mapsto> g)" "fresh_range g rid n"
    and m: "mport s1 = (mport s)(p := (mport s p)\<lparr>allocated_ranges_count := allocated_ranges_count (mport s p) + 1\<rparr>)"
    and x: "next_range s1 = r + 1" "port_max s1 = port_max s" "os_random s1 = os_random s"
    and lt: "allocated_ranges_count (mport s p) < MAAP_PORT_MAX_RANGES_ALLOCATION" and nu: "\<not> is_range_id_used s (owned s p) rid"
    by (auto simp: alloc_post_def)
  have e2: "rheap s2 = (rheap s)(r \<mapsto> g)" "port_max s2 = port_max s" "next_range s2 = r + 1" "os_random s2 = os_random s"
    "mport s2 = (mport s)(p := (mport s p)\<lparr>allocated_ranges_count := allocated_ranges_count (mport s p) + 1, range_list := Some (r # owned s p)\<rparr>)"
    using g x m l by (simp_all add: e upd_port_def)
  show ow: "owned s2 p = r # owned s p" and mq: "\<forall>q. q \<noteq> p \<longrightarrow> mport s2 q = mport s q" by (simp_all add: owned_def e2)
  have oq: "owned s2 q = owned s q" if "q \<noteq> p" for q using that by (simp add: owned_def e2)
  have fresh: "r \<notin> set (owned s q)" if q: "q < port_max s" for q
  proof
    assume "r \<in> set (owned s q)"
    then obtain b where "rheap s r = Some b" using maap_invD(5) [OF i q] by blast
    then show False using maap_invD(4) [OF i] r by blast
  qed
  have get: "get_range s2 q = get_range s q" if "q \<noteq> r" for q using that by (simp add: get_range_def e2)
  note pk = maap_invD(1) [OF i p(1), unfolded port_ok_def]
  have "unat (allocated_ranges_count (mport s p)) < 128" using lt by (simp add: word_less_nat_alt)
  then have cnt: "unat (allocated_ranges_count (mport s p) + 1) = length (owned s p) + 1" "length (owned s p) + 1 \<le> 128"
    using pk by (simp_all add: unat_word_ariths)
  have same: "inj_on (\<lambda>x. range_id (get_range s2 x)) (set (owned s q)) = inj_on (\<lambda>x. range_id (get_range s x)) (set (owned s q))"
    if "q < port_max s" for q
    using get fresh [OF that] by (intro inj_on_cong) metis
  have nid: "range_id (get_range s q) \<noteq> rid" if "q \<in> set (owned s p)" for q
    using nu that by (auto simp: is_range_id_used_def get_range_by_id_def find_None_iff)
  have "range_id (get_range s2 q) \<noteq> rid" if "q \<in> set (owned s p)" for q
    using nid [OF that] get [of q] that fresh [OF p(1)] by metis
  then have "rid \<notin> (\<lambda>q. range_id (get_range s2 q)) ` set (owned s p)" by (metis imageE)
  moreover have "range_id (get_range s2 r) = rid" using g(2) by (simp add: get_range_def e2 fresh_range_def)
  ultimately have "inj_on (\<lambda>q. range_id (get_range s2 q)) (insert r (set (owned s p)))"
    using pk same [OF p(1)] unfolding inj_on_insert by blast
  then have "port_ok s2 p" using pk p cnt fresh [OF p(1)] by (simp add: port_ok_def ow e2 l)
  moreover have "port_ok s2 q" if q: "q < port_max s" "q \<noteq> p" for q
  proof -
    show ?thesis using q(2) maap_invD(1) [OF i q(1)] mq same [OF q(1)] by (simp add: port_ok_def oq)
  qed
  ultimately have P: "\<forall>q < port_max s2. port_ok s2 q" using e2(2) by metis
  have "set (owned s2 q) \<inter> set (owned s2 q') = {}" if "q < port_max s" "q' < port_max s" "q \<noteq> q'" for q q'
    using maap_invD(7) [OF i that] fresh that ow oq by (cases "q = p"; cases "q' = p") auto
  moreover have "dom (rheap s2) = (\<Union>q < port_max s. set (owned s2 q))"
  proof -
    have "(\<Union>q < port_max s. set (owned s2 q)) = insert r (\<Union>q < port_max s. set (owned s q))"
    proof (intro set_eqI iffI)
      fix x assume "x \<in> (\<Union>q < port_max s. set (owned s2 q))"
      then obtain q where "q < port_max s" "x \<in> set (owned s2 q)" by blast
      then show "x \<in> insert r (\<Union>q < port_max s. set (owned s q))" using ow oq by (cases "q = p") auto
    next
      fix x assume x: "x \<in> insert r (\<Union>q < port_max s. set (owned s q))"
      have "\<exists>q < port_max s. x \<in> set (owned s2 q)"
      proof (cases "x = r")
        case True
        then show ?thesis using p ow by auto
      next
        case False
        then obtain q where "q < port_max s" "x \<in> set (owned s q)" using x by blast
        then show ?thesis using ow oq by (cases "q = p") auto
      qed
      then show "x \<in> (\<Union>q < port_max s. set (owned s2 q))" by blast
    qed
    then show ?thesis using maap_invD(6) [OF i] by (simp add: e2)
  qed
  moreover have "q < next_range s2 \<and> (q \<notin> {r} \<longrightarrow> range_ok b)" if "rheap s2 q = Some b" for q b
    using that maap_invD(3,4) [OF i, of q b] r by (cases "q = r") (auto simp: e2)
  ultimately show "maap_inv_but {r} s2" using P maap_invD(2) [OF i] unfolding maap_inv_but_def e2(2,4) by blast
qed

lemma new_range_ok:
  assumes i: "maap_inv s" and p: "p < port_max s" "initialized (mport s p)" and a: "\<forall>a. addr = Some a \<longrightarrow> length a = 6"
  shows "\<exists>res s'. maap_new_range_on_port s p rid addr n = Some (res, s') \<and> maap_inv s' \<and> port_max s' = port_max s \<and>
    (\<forall>q. q \<noteq> p \<longrightarrow> mport s' q = mport s q) \<and>
    (case res of None \<Rightarrow> mport s' = mport s \<and> rheap s' = rheap s
     | Some r \<Rightarrow> owned s' p = r # owned s p \<and> \<not> is_range_id_used s (owned s p) rid \<and>
         (\<exists>g. rheap s' r = Some g \<and> range_id g = rid \<and> mac_count g = n))"
proof -
  have l: "range_list (mport s p) = Some (owned s p)" by (rule initialized_owned [OF i p])
  obtain res s1 where al: "maap_range_alloc s p rid addr n = Some (res, s1)" "alloc_post s p rid n res s1"
    using alloc_ok [OF l maap_invD(2) [OF i] a] by blast
  show ?thesis
  proof (cases res)
    case None
    then have "maap_inv s1" using al(2) by (intro inv_cong [OF i]) (simp_all add: alloc_post_def)
    then show ?thesis using al None by (simp add: maap_new_range_on_port_def alloc_post_def)
  next
    case (Some r)
    let ?s2 = "upd_port p (\<lambda>port. port\<lparr>range_list := map_option ((#) r) (range_list port)\<rparr>) s1"
    let ?s' = "maap_sm r p MAAP_EVENT_BEGIN None ?s2"
    note ad = added_inv [OF i p l al(2) [unfolded Some] refl]
    obtain g where g: "rheap s1 = (rheap s)(r \<mapsto> g)" "fresh_range g rid n" and nu: "\<not> is_range_id_used s (owned s p) rid"
      and pm: "port_max s1 = port_max s"
      using al(2) Some by (auto simp: alloc_post_def)
    have gr: "rheap ?s2 r = Some g" using g(1) by (simp add: upd_port_def)
    have "\<forall>n. 0 \<le> os_random ?s2 n" using ad(1) unfolding maap_inv_but_def by blast
    then have post: "sm_post r g ?s2 ?s'" using sm_begin [OF gr] g(2) by (simp add: fresh_range_def)
    note si = sm_post_inv [OF ad(1) gr post]
    obtain g' where g': "rheap ?s' r = Some g'" "range_id g' = range_id g" "mac_count g' = mac_count g"
      using post by (auto simp: sm_post_def split: option.splits)
    have m: "mport ?s' = mport ?s2" "port_max ?s' = port_max ?s2" using si(3) by (simp_all add: maap_same_def)
    then have "owned ?s' p = r # owned s p" using ad(2) by (simp add: owned_def)
    then show ?thesis using al(1) Some si(1) m ad(3) nu g' g(2) pm
      by (simp add: maap_new_range_on_port_def fresh_range_def) (simp add: upd_port_def)
  qed
qed

subsection \<open>Requests\<close>

lemma maap_send_inv: "maap_inv s \<Longrightarrow> maap_inv (ipc_send m s)"
  by (erule inv_cong) (simp_all add: ipc_send_def)

lemmas ipc_defs = maap_ipc_create_response_def maap_ipc_delete_response_def maap_ipc_indication_def

lemma logical_port_lt: "logical_to_maap_port s l = Some p \<Longrightarrow> p < port_max s"
  by (auto simp: logical_to_maap_port_def dest: find_Some_in)

definition msg_ok :: "maap_ctx \<Rightarrow> maap_ipc_msg \<Rightarrow> bool" where
  "msg_ok s msg \<longleftrightarrow> (case msg of
      GENAVB_MSG_MAAP_CREATE_RANGE flag pid rid count base \<Rightarrow> length base = 6 \<and>
        (\<forall>p. logical_to_maap_port s (ucast pid) = Some p \<longrightarrow> initialized (mport s p))
    | GENAVB_MSG_MAAP_DELETE_RANGE pid rid \<Rightarrow> \<forall>p. logical_to_maap_port s (ucast pid) = Some p \<longrightarrow> initialized (mport s p)
    | GENAVB_MSG_MAAP_OTHER \<Rightarrow> True)"

lemma ipc_receive_ok:
  assumes i: "maap_inv s" and m: "msg_ok s msg"
  shows "\<exists>s'. maap_ipc_receive sync src msg s = Some s' \<and> maap_inv s' \<and> port_max s' = port_max s"
proof (cases msg)
  case (GENAVB_MSG_MAAP_CREATE_RANGE flag pid rid count base)
  show ?thesis
  proof (cases "logical_to_maap_port s (ucast pid)")
    case None
    then show ?thesis using i by (simp add: GENAVB_MSG_MAAP_CREATE_RANGE maap_ipc_receive_def Let_def ipc_defs maap_send_inv) (simp add: ipc_send_def)
  next
    case (Some p)
    let ?addr = "if flag = 1 then Some base else None"
    have "p < port_max s" "initialized (mport s p)" "\<forall>a. ?addr = Some a \<longrightarrow> length a = 6"
      using Some m logical_port_lt by (auto simp: GENAVB_MSG_MAAP_CREATE_RANGE msg_ok_def)
    from new_range_ok [OF i this, of rid "ucast count"] obtain res s1 where
      "maap_new_range_on_port s p rid ?addr (ucast count) = Some (res, s1)" "maap_inv s1" "port_max s1 = port_max s" by blast
    then show ?thesis using Some
      by (cases res; simp add: GENAVB_MSG_MAAP_CREATE_RANGE maap_ipc_receive_def Let_def ipc_defs maap_send_inv; simp add: ipc_send_def)
  qed
next
  case (GENAVB_MSG_MAAP_DELETE_RANGE pid rid)
  show ?thesis
  proof (cases "logical_to_maap_port s (ucast pid)")
    case None
    then show ?thesis using i by (simp add: GENAVB_MSG_MAAP_DELETE_RANGE maap_ipc_receive_def Let_def ipc_defs maap_send_inv) (simp add: ipc_send_def)
  next
    case (Some p)
    have "p < port_max s" "initialized (mport s p)"
      using Some m logical_port_lt by (auto simp: GENAVB_MSG_MAAP_DELETE_RANGE msg_ok_def)
    from remove_range_ok [OF i this refl, of rid] obtain res s1 where
      "maap_remove_range_on_port s p rid = Some (res, s1)" "maap_inv s1" "port_max s1 = port_max s" by blast
    then show ?thesis using Some
      by (cases res; simp add: GENAVB_MSG_MAAP_DELETE_RANGE maap_ipc_receive_def Let_def ipc_defs maap_send_inv split: prod.split; simp add: ipc_send_def)
  qed
qed (use i in \<open>simp add: maap_ipc_receive_def\<close>)

subsection \<open>Initialization and exit\<close>

lemma port_init_port:
  "q \<noteq> i \<Longrightarrow> mport (maap_port_init cfg i s) q = mport s q"
  "rheap (maap_port_init cfg i s) = rheap s" "port_max (maap_port_init cfg i s) = port_max s" "os_random (maap_port_init cfg i s) = os_random s"
  "next_range (maap_port_init cfg i s) = next_range s" "management_enabled (maap_port_init cfg i s) = management_enabled s"
  "timer_pool_open (maap_port_init cfg i s) = timer_pool_open s"
  by (simp_all add: maap_port_init_def upd_port_def)

definition closed_port :: "maap_port \<Rightarrow> bool" where
  "closed_port port \<longleftrightarrow> \<not> initialized port \<and> \<not> net_rx_open port \<and> \<not> net_tx_open port \<and> \<not> multi_added port \<and>
     \<not> ipc_tx_mac_open port \<and> \<not> ipc_rx_mac_open port"

text \<open>A port after its initialization: fully open, or closed again.\<close>

definition ready_port :: "bool \<Rightarrow> maap_port \<Rightarrow> bool" where
  "ready_port management port \<longleftrightarrow> allocated_ranges_count port = 0 \<and>
     (closed_port port \<and> range_list port = None \<or>
      initialized port \<and> net_rx_open port \<and> net_tx_open port \<and> multi_added port \<and> ipc_tx_mac_open port = management \<and>
      ipc_rx_mac_open port = management \<and> range_list port = Some [])"

lemma port_init_ready: "mport s i = maap_port_zero \<Longrightarrow> ready_port (management_enabled s) (mport (maap_port_init cfg i s) i)"
  by (auto simp: maap_port_init_def maap_port_ipc_init_def upd_port_def ready_port_def closed_port_def maap_port_zero_def Let_def
      split: option.split)

definition ports_inited :: "nat list \<Rightarrow> maap_ctx \<Rightarrow> maap_ctx \<Rightarrow> bool" where
  "ports_inited l s s' \<longleftrightarrow> (\<forall>i \<in> set l. ready_port (management_enabled s) (mport s' i)) \<and> (\<forall>i. i \<notin> set l \<longrightarrow> mport s' i = mport s i) \<and>
     rheap s' = rheap s \<and> port_max s' = port_max s \<and> os_random s' = os_random s \<and> management_enabled s' = management_enabled s"

lemma ports_init_ready:
  assumes "distinct l" and "\<And>i. i \<in> set l \<Longrightarrow> mport s i = maap_port_zero"
  shows "ports_inited l s (fold (maap_port_init cfg) l s)"
  using assms
proof (induction l arbitrary: s)
  case (Cons i l)
  let ?s = "maap_port_init cfg i s" and ?e = "fold (maap_port_init cfg) l (maap_port_init cfg i s)"
  have i: "ready_port (management_enabled s) (mport ?s i)" using Cons.prems(2) by (intro port_init_ready) simp
  have il: "i \<notin> set l" using Cons.prems(1) by simp
  have "mport ?s j = maap_port_zero" if "j \<in> set l" for j
    using port_init_port(1) [of j i cfg s] Cons.prems(2) [of j] that il by (cases "j = i") simp_all
  then have "ports_inited l ?s ?e" using Cons.prems(1) by (intro Cons.IH) simp_all
  note h = this [unfolded ports_inited_def port_init_port(2-)]
  have "ready_port (management_enabled s) (mport ?e j)" if "j \<in> set (i # l)" for j
    using that h i il by (cases "j = i") simp_all
  moreover have "mport ?e j = mport s j" if "j \<notin> set (i # l)" for j
    using that h port_init_port(1) [of j i cfg s] by simp
  ultimately show ?case using h by (simp add: ports_inited_def)
qed (simp add: ports_inited_def)

end
