(* ===== verification/MAAP_Run.thy ===== *)
theory MAAP_Run
  imports MAAP_Inv
begin

section \<open>MAAP: runs of the stack and properties of the protocol\<close>

text \<open>
  Initialization establishes the invariant and exit gives back everything; the events of a running
  stack (frames, requests, timers, port status) as a step relation; the properties of the component.
\<close>

subsection \<open>Initialization\<close>

definition links :: "maap_port \<Rightarrow> bool \<times> bool \<times> bool \<times> bool \<times> bool \<times> bool" where
  "links port = (initialized port, net_rx_open port, net_tx_open port, multi_added port, ipc_tx_mac_open port, ipc_rx_mac_open port)"

text \<open>An uninitialized port holds no resource, and no port has IPC channels it will not close.\<close>

definition links_ok :: "maap_ctx \<Rightarrow> bool" where
  "links_ok s \<longleftrightarrow> (\<forall>p < port_max s. (\<not> initialized (mport s p) \<longrightarrow> closed_port (mport s p)) \<and>
     (\<not> management_enabled s \<longrightarrow> \<not> ipc_tx_mac_open (mport s p) \<and> \<not> ipc_rx_mac_open (mport s p)))"

lemma links_cong:
  assumes "\<And>p. p < port_max s \<Longrightarrow> links (mport s' p) = links (mport s p)" and "port_max s' = port_max s"
    and "management_enabled s' = management_enabled s"
  shows "links_ok s' = links_ok s"
  using assms by (simp add: links_ok_def links_def closed_port_def)

lemma links_ok_same: "maap_same s s' \<Longrightarrow> links_ok s' = links_ok s"
  by (rule links_cong) (simp_all add: maap_same_def)

lemma ready_inv:
  assumes r: "ports_inited [0..<port_max s] s s'" and h: "rheap s = Map.empty" and rnd: "\<forall>n. 0 \<le> os_random s n"
  shows "maap_inv s'" "links_ok s'"
proof -
  have rp: "ready_port (management_enabled s) (mport s' i)" if "i < port_max s" for i
    using r that by (simp add: ports_inited_def)
  have e: "rheap s' = Map.empty" "port_max s' = port_max s" "os_random s' = os_random s" "management_enabled s' = management_enabled s"
    using r h by (simp_all add: ports_inited_def)
  have o: "owned s' i = []" if "i < port_max s" for i using rp [OF that] by (auto simp: owned_def ready_port_def)
  have "port_ok s' i" if "i < port_max s" for i
    using rp [OF that] o [OF that] by (auto simp: port_ok_def ready_port_def closed_port_def)
  then show "maap_inv s'" using e o rnd by (simp add: maap_inv_but_def)
  show "links_ok s'" unfolding links_ok_def e using rp by (auto simp: ready_port_def closed_port_def)
qed

lemma ports_init_ok:
  assumes "rheap s = Map.empty" and "\<forall>n. 0 \<le> os_random s n" and "\<And>i. mport s i = maap_port_zero"
  shows "maap_inv (maap_ports_init cfg s)" "links_ok (maap_ports_init cfg s)" "port_max (maap_ports_init cfg s) = port_max s"
proof -
  have r: "ports_inited [0..<port_max s] s (maap_ports_init cfg s)"
    unfolding maap_ports_init_def using assms(3) by (intro ports_init_ready) simp_all
  from ready_inv [OF r assms(1,2)] show "maap_inv (maap_ports_init cfg s)" "links_ok (maap_ports_init cfg s)" by simp_all
  show "port_max (maap_ports_init cfg s) = port_max s" using r by (simp add: ports_inited_def)
qed

subsection \<open>Exit\<close>

definition ipc_chan :: "maap_ctx \<Rightarrow> bool \<times> bool \<times> bool" where
  "ipc_chan s = (ipc_rx_open s, ipc_tx_open s, ipc_tx_sync_open s)"

lemma ipc_chan_ops [simp]: "ipc_chan (del_range p r s) = ipc_chan s" "ipc_chan (upd_port p f s) = ipc_chan s"
  by (simp_all add: ipc_chan_def del_range_def maap_range_free_def upd_port_def)

lemma del_all:
  assumes "maap_inv s" and "p < port_max s" and "range_list (mport s p) = Some l"
  shows "maap_inv (fold (del_range p) l s) \<and> range_list (mport (fold (del_range p) l s) p) = Some [] \<and>
    port_max (fold (del_range p) l s) = port_max s \<and> management_enabled (fold (del_range p) l s) = management_enabled s \<and>
    (\<forall>q. q \<noteq> p \<longrightarrow> mport (fold (del_range p) l s) q = mport s q) \<and> links (mport (fold (del_range p) l s) p) = links (mport s p) \<and>
    ipc_chan (fold (del_range p) l s) = ipc_chan s"
  using assms
proof (induction l arbitrary: s)
  case (Cons r l)
  note d = del_range_ok [OF Cons.prems, of r, simplified]
  have e: "management_enabled (del_range p r s) = management_enabled s" "links (mport (del_range p r s) p) = links (mport s p)"
    by (simp_all add: del_range_def maap_range_free_def upd_port_def links_def)
  have "p < port_max (del_range p r s)" using d(4) Cons.prems(2) by simp
  from Cons.IH [OF d(1) this d(2)] show ?case using d(4,5) e by simp
qed simp

lemma flags_inv:
  assumes i: "maap_inv s" and e: "s' = upd_port p f s"
    and f: "range_list (f (mport s p)) = range_list (mport s p)" "allocated_ranges_count (f (mport s p)) = allocated_ranges_count (mport s p)"
    and n: "initialized (f (mport s p)) = initialized (mport s p) \<or> \<not> initialized (f (mport s p)) \<and> owned s p = []"
  shows "maap_inv s'"
proof -
  have m: "mport s' q = (if q = p then f (mport s p) else mport s q)" "rheap s' = rheap s" "port_max s' = port_max s"
    "next_range s' = next_range s" "os_random s' = os_random s" for q by (simp_all add: e upd_port_def)
  have o: "owned s' = owned s" "get_range s' = get_range s" using f m by (simp_all add: owned_def get_range_def fun_eq_iff)
  have "port_ok s' q" if "q < port_max s" for q
    using maap_invD(1) [OF i that] n f unfolding port_ok_def o m(1) by (cases "q = p") auto
  then show ?thesis using i unfolding maap_inv_but_def o m(2-) by blast
qed

definition exited :: "maap_ctx \<Rightarrow> nat \<Rightarrow> bool" where
  "exited s p \<longleftrightarrow> closed_port (mport s p) \<and> owned s p = []"

lemma port_exit_ok:
  assumes i: "maap_inv s" and lk: "links_ok s" and p: "p < port_max s"
  shows "maap_inv (maap_port_exit p s)" "links_ok (maap_port_exit p s)" "exited (maap_port_exit p s) p"
    "port_max (maap_port_exit p s) = port_max s" "\<forall>q. q \<noteq> p \<longrightarrow> mport (maap_port_exit p s) q = mport s q"
    "ipc_chan (maap_port_exit p s) = ipc_chan s"
proof -
  let ?s' = "maap_port_exit p s"
  have "maap_inv ?s' \<and> links_ok ?s' \<and> exited ?s' p \<and> port_max ?s' = port_max s \<and> (\<forall>q. q \<noteq> p \<longrightarrow> mport ?s' q = mport s q) \<and>
    ipc_chan ?s' = ipc_chan s"
  proof (cases "initialized (mport s p)")
    case False
    then show ?thesis using assms maap_invD(1) [OF i p] by (simp add: maap_port_exit_def exited_def links_ok_def port_ok_def)
  next
    case True
    define s1 where "s1 = upd_port p (\<lambda>port. (maap_port_ipc_exit (management_enabled s) port)
                   \<lparr>multi_added := False, net_tx_open := False, net_rx_open := False\<rparr>) s"
    have i1: "maap_inv s1" by (rule flags_inv [OF i s1_def]) (simp_all add: maap_port_ipc_exit_def)
    have m1: "port_max s1 = port_max s" "management_enabled s1 = management_enabled s" "\<forall>q. q \<noteq> p \<longrightarrow> mport s1 q = mport s q"
      "initialized (mport s1 p)" "links (mport s1 p) = (True, False, False, False, False, False)"
      using True lk p by (simp_all add: s1_def upd_port_def maap_port_ipc_exit_def links_def links_ok_def)
    have l: "range_list (mport s1 p) = Some (owned s1 p)" using initialized_owned [OF i1, of p] m1 p by simp
    define s2 where "s2 = fold (del_range p) (owned s1 p) s1"
    have d: "maap_inv s2" "range_list (mport s2 p) = Some []" "port_max s2 = port_max s1" "management_enabled s2 = management_enabled s1"
      "\<forall>q. q \<noteq> p \<longrightarrow> mport s2 q = mport s1 q" "links (mport s2 p) = links (mport s1 p)" "ipc_chan s2 = ipc_chan s1"
      using del_all [OF i1 _ l] p m1(1) by (simp_all add: s2_def)
    have e: "?s' = upd_port p (\<lambda>port. port\<lparr>initialized := False\<rparr>) s2"
      using True l by (simp add: maap_port_exit_def maap_remove_all_range_on_port_def s1_def [symmetric] s2_def Let_def)
    have "maap_inv ?s'" by (rule flags_inv [OF d(1) e]) (simp_all add: owned_def d(2))
    moreover have c: "closed_port (mport ?s' p)" "owned ?s' p = []" "\<forall>q. q \<noteq> p \<longrightarrow> mport ?s' q = mport s q"
      using d(2,5,6) m1(3,5) by (simp_all add: e upd_port_def closed_port_def owned_def links_def)
    moreover have "port_max ?s' = port_max s" "management_enabled ?s' = management_enabled s" using d m1 by (simp_all add: e upd_port_def)
    moreover have "links_ok ?s'" using lk c unfolding links_ok_def calculation(5,6)
      by (metis (no_types, lifting) closed_port_def)
    moreover have "ipc_chan ?s' = ipc_chan s" using d(7) by (simp add: e s1_def)
    ultimately show ?thesis by (simp add: exited_def)
  qed
  then show "maap_inv ?s'" "links_ok ?s'" "exited ?s' p" "port_max ?s' = port_max s" "\<forall>q. q \<noteq> p \<longrightarrow> mport ?s' q = mport s q"
    "ipc_chan ?s' = ipc_chan s" by blast+
qed

lemma exited_cong: "mport s' p = mport s p \<Longrightarrow> exited s' p = exited s p"
  by (simp add: exited_def owned_def)

lemma ports_exit_fold:
  assumes "maap_inv s" and "links_ok s" and "\<forall>p \<in> set l. p < port_max s"
  shows "maap_inv (fold maap_port_exit l s) \<and> port_max (fold maap_port_exit l s) = port_max s \<and>
    (\<forall>p < port_max s. p \<in> set l \<or> exited s p \<longrightarrow> exited (fold maap_port_exit l s) p) \<and>
    ipc_chan (fold maap_port_exit l s) = ipc_chan s"
  using assms
proof (induction l arbitrary: s)
  case (Cons i l)
  have p: "i < port_max s" using Cons.prems(3) by simp
  note d = port_exit_ok [OF Cons.prems(1,2) p]
  let ?s = "maap_port_exit i s"
  have x: "exited ?s q" if "q = i \<or> exited s q" for q
    using that d(3,5) exited_cong [of ?s q s] by (cases "q = i") simp_all
  have "\<forall>p \<in> set l. p < port_max ?s" using Cons.prems(3) d(4) by simp
  from Cons.IH [OF d(1,2) this] show ?case using x d(4,6) by auto
qed simp

lemma ports_exit_ok:
  assumes i: "maap_inv s" and lk: "links_ok s"
  shows "\<forall>p < port_max s. closed_port (mport (maap_ports_exit s) p)" "rheap (maap_ports_exit s) = Map.empty" "ipc_chan (maap_ports_exit s) = ipc_chan s"
proof -
  let ?s = "maap_ports_exit s"
  have h: "maap_inv ?s" "port_max ?s = port_max s" "\<forall>p < port_max s. exited ?s p" and "ipc_chan ?s = ipc_chan s"
    using ports_exit_fold [OF i lk, of "[0..<port_max s]"] by (simp_all add: maap_ports_exit_def)
  then show "\<forall>p < port_max s. closed_port (mport ?s p)" "ipc_chan ?s = ipc_chan s" by (simp_all add: exited_def)
  have "dom (rheap ?s) = {}" using maap_invD(6) [OF h(1)] h(2,3) by (simp add: exited_def)
  then show "rheap ?s = Map.empty" by simp
qed

subsection \<open>Runs\<close>

text \<open>
  The events of the stack. A frame is at least as long as its MAAP PDU: the smallest Ethernet payload
  is. Requests name ports that were initialized (\<open>msg_ok\<close>). The timer service runs the handler of a timer
  that is started.
\<close>

inductive maap_step :: "maap_ctx \<Rightarrow> maap_ctx \<Rightarrow> bool" where
  frame: "p < port_max s \<Longrightarrow> initialized (mport s p) \<Longrightarrow> rx_l3 desc + 28 \<le> length (rx_buf desc) \<Longrightarrow>
    maap_net_receive p desc s = Some s' \<Longrightarrow> maap_step s s'"
| request: "msg_ok s msg \<Longrightarrow> maap_ipc_receive sync src msg s = Some s' \<Longrightarrow> maap_step s s'"
| probe_expiry: "p < port_max s \<Longrightarrow> r \<in> set (owned s p) \<Longrightarrow> probe_timer (get_range s r) \<noteq> None \<Longrightarrow>
    maap_step s (probe_timer_expired p r s)"
| announce_expiry: "p < port_max s \<Longrightarrow> r \<in> set (owned s p) \<Longrightarrow> announce_timer (get_range s r) \<noteq> None \<Longrightarrow>
    maap_step s (announce_timer_expired p r s)"
| port_status: "p < port_max s \<Longrightarrow> initialized (mport s p) \<Longrightarrow> maap_step s (maap_ipc_rx_mac_service p operational s)"

inductive maap_reachable :: "maap_config \<Rightarrow> maap_ctx \<Rightarrow> maap_ctx \<Rightarrow> bool" for cfg s0 where
  start: "maap_init cfg s0 = (True, s) \<Longrightarrow> maap_reachable cfg s0 s"
| step: "maap_reachable cfg s0 s \<Longrightarrow> maap_step s s' \<Longrightarrow> maap_reachable cfg s0 s'"

text \<open>Requests change the list and the counter of a port, not what it has open.\<close>

definition links_same :: "maap_ctx \<Rightarrow> maap_ctx \<Rightarrow> bool" where
  "links_same s s' \<longleftrightarrow> (\<forall>p. links (mport s' p) = links (mport s p)) \<and> management_enabled s' = management_enabled s"

lemma links_same_refl [simp]: "links_same s s"
  by (simp add: links_same_def)

lemma links_ops:
  "links (mport (del_range p r s) q) = links (mport s q)" "management_enabled (del_range p r s) = management_enabled s"
  "links (mport (upd_port p (\<lambda>port. port\<lparr>range_list := g port\<rparr>) s) q) = links (mport s q)"
  "management_enabled (upd_port p f s) = management_enabled s" "mport (ipc_send m s) = mport s" "management_enabled (ipc_send m s) = management_enabled s"
  by (simp_all add: links_def del_range_def maap_range_free_def upd_port_def ipc_send_def)

lemma links_same_ops [simp]:
  "links_same s (ipc_send m s') = links_same s s'" "links_same s (del_range p r s') = links_same s s'"
  "links_same s (upd_port p (\<lambda>port. port\<lparr>range_list := g port\<rparr>) s') = links_same s s'"
  by (simp_all add: links_same_def links_ops)

lemma links_same_same: "maap_same s1 s2 \<Longrightarrow> links_same s s1 \<Longrightarrow> links_same s s2"
  by (simp add: links_same_def maap_same_def)

lemma links_same_alloc: "alloc_post s p rid n res s' \<Longrightarrow> management_enabled s' = management_enabled s \<Longrightarrow> links_same s s'"
  by (auto simp: links_same_def alloc_post_def links_def split: option.splits)

lemma timers_init_env: "maap_timers_init s = (rc, s') \<Longrightarrow> management_enabled s' = management_enabled s"
  by (auto simp: maap_timers_init_def split: if_splits)

lemma alloc_env: "maap_range_alloc s p rid addr n = Some (res, s') \<Longrightarrow> management_enabled s' = management_enabled s"
  by (cases addr) (auto simp: maap_range_alloc_def Let_def links_ops dest: timers_init_env split: if_splits option.splits prod.splits)

lemma sm_step_same:
  "event \<noteq> MAAP_EVENT_RELEASE \<Longrightarrow> maap_sm_step event p r info s = (e, s1) \<Longrightarrow> maap_same s s1 \<and> e \<noteq> Some MAAP_EVENT_RELEASE"
  by (cases event) (auto simp: maap_sm_step_def Let_def split: maap_state.splits if_splits)

lemma sm_same: "event \<noteq> MAAP_EVENT_RELEASE \<Longrightarrow> maap_same s (maap_sm r p event info s)"
proof (induction r p event info s rule: maap_sm.induct)
  case (1 r p event info s)
  obtain e s1 where e: "maap_sm_step event p r info s = (e, s1)" by force
  note h = sm_step_same [OF 1(2) e]
  show ?case
  proof (cases e)
    case None
    then show ?thesis using h e sm_done by simp
  next
    case (Some e1)
    then have "maap_same s1 (maap_sm r p e1 info s1)" using 1(1) [of "Some e1" s1 e1] e h by simp
    then show ?thesis using sm_goto [of event p r info s e1 s1] e Some h maap_same_trans by auto
  qed
qed

lemma new_range_links:
  assumes "maap_new_range_on_port s p rid addr n = Some (res, s')" and l: "range_list (mport s p) = Some (owned s p)"
    and rnd: "\<forall>n. 0 \<le> os_random s n" and a: "\<forall>a. addr = Some a \<longrightarrow> length a = 6"
  shows "links_same s s'"
proof -
  obtain res1 s1 where al: "maap_range_alloc s p rid addr n = Some (res1, s1)" "alloc_post s p rid n res1 s1"
    using alloc_ok [OF l rnd a] by blast
  then have l1: "links_same s s1" using links_same_alloc alloc_env by blast
  show ?thesis
  proof (cases res1)
    case None
    then show ?thesis using assms(1) al l1 by (simp add: maap_new_range_on_port_def)
  next
    case (Some r)
    then show ?thesis using assms(1) al l1 links_same_same [OF sm_same [of MAAP_EVENT_BEGIN]]
      by (auto simp: maap_new_range_on_port_def)
  qed
qed

lemma request_links:
  assumes i: "maap_inv s" and m: "msg_ok s msg" and e: "maap_ipc_receive sync src msg s = Some s'"
  shows "links_same s s'"
proof (cases msg)
  case (GENAVB_MSG_MAAP_CREATE_RANGE flag pid rid count base)
  show ?thesis
  proof (cases "logical_to_maap_port s (ucast pid)")
    case None
    then show ?thesis using e by (auto simp: GENAVB_MSG_MAAP_CREATE_RANGE maap_ipc_receive_def Let_def ipc_defs)
  next
    case (Some p)
    let ?addr = "if flag = 1 then Some base else None"
    have p: "p < port_max s" "initialized (mport s p)" "\<forall>a. ?addr = Some a \<longrightarrow> length a = 6"
      using Some m logical_port_lt by (auto simp: GENAVB_MSG_MAAP_CREATE_RANGE msg_ok_def)
    obtain res s1 where n: "maap_new_range_on_port s p rid ?addr (ucast count) = Some (res, s1)"
      using new_range_ok [OF i p] by blast
    have "links_same s s1" by (rule new_range_links [OF n initialized_owned [OF i p(1,2)] maap_invD(2) [OF i] p(3)])
    then show ?thesis using e Some n
      by (cases res) (auto simp: GENAVB_MSG_MAAP_CREATE_RANGE maap_ipc_receive_def Let_def ipc_defs)
  qed
next
  case (GENAVB_MSG_MAAP_DELETE_RANGE pid rid)
  then show ?thesis using e
    by (auto simp: maap_ipc_receive_def maap_remove_range_on_port_def Let_def ipc_defs split: option.splits)
qed (use e in \<open>simp add: maap_ipc_receive_def\<close>)

lemma links_same_ok: "links_same s s' \<Longrightarrow> port_max s' = port_max s \<Longrightarrow> links_ok s \<Longrightarrow> links_ok s'"
  using links_cong [of s s'] by (simp add: links_same_def)

lemma step_ok:
  assumes "maap_step s s'" and i: "maap_inv s" and l: "links_ok s"
  shows "maap_inv s'" "links_ok s'" "port_max s' = port_max s"
proof -
  have k: "maap_inv s' \<and> links_ok s' \<and> port_max s' = port_max s" if "kept s s'"
    using that l links_ok_same [of s s'] unfolding kept_def by (auto simp: maap_same_def)
  have alive: "\<exists>g. rheap s r = Some g" if "p < port_max s" "r \<in> set (owned s p)" for p r using maap_invD(5) [OF i that] .
  from assms(1) have "maap_inv s' \<and> links_ok s' \<and> port_max s' = port_max s"
  proof cases
    case (frame p desc)
    then show ?thesis using net_receive_ok [OF i frame(1-3)] k by auto
  next
    case (request msg sync src)
    then show ?thesis using ipc_receive_ok [OF i request(1), of sync src] links_same_ok [OF request_links [OF i request] _ l] by auto
  next
    case (probe_expiry p r)
    then show ?thesis using alive [OF probe_expiry(2,3)] timers_ok(1) [OF i, of r _ p] k by (auto simp: get_range_def)
  next
    case (announce_expiry p r)
    then show ?thesis using alive [OF announce_expiry(2,3)] timers_ok(2) [OF i, of r _ p] k by (auto simp: get_range_def)
  next
    case (port_status p operational)
    then show ?thesis using mac_service_ok [OF i port_status(2,3), of operational] k by simp
  qed
  then show "maap_inv s'" "links_ok s'" "port_max s' = port_max s" by blast+
qed

lemma init_states:
  assumes e: "maap_init cfg s0 = (ok, s)" and m: "cfg_malloc cfg" "cfg_timer_pool cfg" and rnd: "\<forall>n. 0 \<le> os_random s0 n"
  obtains s3 where "maap_inv s3" "links_ok s3" "port_max s3 = cfg_port_max cfg"
    "if ok then s = s3 else s = (maap_ports_exit s3)\<lparr>timer_pool_open := False\<rparr> \<and> \<not> ipc_rx_open s3 \<and> \<not> ipc_tx_open s3 \<and> \<not> ipc_tx_sync_open s3"
proof -
  let ?s1 = "(maap_alloc (cfg_port_max cfg) s0)\<lparr>management_enabled := cfg_management_enabled cfg, timer_pool_open := True\<rparr>"
  let ?s2 = "maap_ports_init cfg ?s1"
  have h: "rheap ?s1 = Map.empty" "\<forall>n. 0 \<le> os_random ?s1 n" "\<And>i. mport ?s1 i = maap_port_zero" using rnd by (simp_all add: maap_alloc_def)
  note p = ports_init_ok [OF h]
  obtain rc s3 where s3: "maap_ipc_init cfg ?s2 = (rc, s3)" by force
  have ev: "rheap s3 = rheap ?s2" "mport s3 = mport ?s2" "port_max s3 = port_max ?s2" "next_range s3 = next_range ?s2" "os_random s3 = os_random ?s2"
    "management_enabled s3 = management_enabled ?s2"
    using s3 by (auto simp: maap_ipc_init_def split: if_splits)
  have "ipc_rx_open (fold (maap_port_init cfg) l t) = ipc_rx_open t \<and> ipc_tx_open (fold (maap_port_init cfg) l t) = ipc_tx_open t \<and>
      ipc_tx_sync_open (fold (maap_port_init cfg) l t) = ipc_tx_sync_open t" for l t
    by (induction l arbitrary: t) (simp_all add: maap_port_init_def upd_port_def)
  then have "\<not> ipc_rx_open ?s2 \<and> \<not> ipc_tx_open ?s2 \<and> \<not> ipc_tx_sync_open ?s2" by (simp add: maap_ports_init_def maap_alloc_def)
  then have io: "rc < 0 \<Longrightarrow> \<not> ipc_rx_open s3 \<and> \<not> ipc_tx_open s3 \<and> \<not> ipc_tx_sync_open s3"
    using s3 by (auto simp: maap_ipc_init_def split: if_splits)
  have "links_ok s3 = links_ok ?s2" by (rule links_cong) (simp_all add: ev)
  moreover have "maap_inv s3" by (rule inv_cong [OF p(1)]) (simp_all add: ev)
  moreover have "port_max s3 = cfg_port_max cfg" using ev(3) p(3) by (simp add: maap_alloc_def)
  moreover have "(ok \<longrightarrow> s = s3) \<and> (\<not> ok \<longrightarrow> s = (maap_ports_exit s3)\<lparr>timer_pool_open := False\<rparr> \<and> rc < 0)"
    using e m s3 by (auto simp: maap_init_def Let_def split: if_splits)
  ultimately show ?thesis using that [of s3] p(2) io by (cases ok) simp_all
qed

lemma reachable_ok:
  assumes "maap_reachable cfg s0 s" and rnd: "\<forall>n. 0 \<le> os_random s0 n"
  shows "maap_inv s" "links_ok s" "port_max s = cfg_port_max cfg"
  using assms(1)
proof (induction rule: maap_reachable.induct)
  case (start s)
  then have "cfg_malloc cfg" "cfg_timer_pool cfg" by (auto simp: maap_init_def Let_def split: if_splits)
  from init_states [OF start this rnd] show "maap_inv s" "links_ok s" "port_max s = cfg_port_max cfg" by (metis (full_types))+
next
  case (step s s')
  { case 1 then show ?case using step step_ok by blast }
  { case 2 then show ?case using step step_ok by blast }
  { case 3 then show ?case using step step_ok by metis }
qed

subsection \<open>Example configuration\<close>

definition maap_ex_port_env :: maap_port_env where
  "maap_ex_port_env = \<lparr>e_net_rx = True, e_net_tx = True, e_multi = True, e_ipc_rx_mac = True, e_ipc_tx_mac = True, e_ipc_connect = True\<rparr>"

definition maap_ex_cfg :: "bool \<Rightarrow> maap_config" where
  "maap_ex_cfg net = \<lparr>cfg_port_max = 1, cfg_logical_port_list = (\<lambda>_. 4), cfg_management_enabled = True,
     cfg_local_addr = (\<lambda>_. Some [0, 4, 0x9F, 1, 2, 3]), cfg_port_env = (\<lambda>_. maap_ex_port_env\<lparr>e_net_rx := net\<rparr>), cfg_malloc = True,
     cfg_timer_pool = True, cfg_ipc = (\<lambda>_. True)\<rparr>"

definition maap_ex0 :: maap_ctx where
  "maap_ex0 = \<lparr>rheap = Map.empty, next_range = 0, mport = (\<lambda>_. maap_port_zero), port_max = 0, management_enabled = False,
     timer_pool_open = False, ipc_rx_open = False, ipc_tx_open = False, ipc_tx_sync_open = False, os_random = (\<lambda>_. 0), n_random = 0,
     malloc_ok = (\<lambda>_. True), n_malloc = 0, timer_ok = (\<lambda>_. True), n_timer = 0, tx_ok = (\<lambda>_. True), n_tx = 0, ipc_ok = (\<lambda>_. True), n_ipc = 0,
     sent = [], ipc_sent = []\<rparr>"

definition maap_ex1 :: maap_ctx where
  "maap_ex1 = snd (maap_init (maap_ex_cfg True) maap_ex0)"

definition maap_ex2 :: maap_ctx where
  "maap_ex2 = snd (the (maap_new_range_on_port maap_ex1 0 7 None 8))"

lemma upt_1: "[0..<Suc 0] = [0]"
  by simp

lemmas maap_init_defs = maap_init_def maap_alloc_def maap_ports_init_def maap_port_init_def maap_port_ipc_init_def maap_ipc_init_def
  maap_ex_cfg_def maap_ex0_def maap_ex_port_env_def maap_port_zero_def upd_port_def Let_def

lemma maap_ex1_init: "maap_init (maap_ex_cfg True) maap_ex0 = (True, maap_ex1)"
proof -
  have "fst (maap_init (maap_ex_cfg True) maap_ex0)" by (simp add: maap_init_defs)
  then show ?thesis unfolding maap_ex1_def by (metis (full_types) prod.collapse)
qed

lemma maap_ex1_state:
  "port_max maap_ex1 = 1" "initialized (mport maap_ex1 0)" "range_list (mport maap_ex1 0) = Some []" "allocated_ranges_count (mport maap_ex1 0) = 0"
  "logical_port (mport maap_ex1 0) = 4" "os_random maap_ex1 = (\<lambda>_. 0)" "malloc_ok maap_ex1 = (\<lambda>_. True)" "timer_ok maap_ex1 = (\<lambda>_. True)"
  "tx_ok maap_ex1 = (\<lambda>_. True)" "ipc_ok maap_ex1 = (\<lambda>_. True)" "next_range maap_ex1 = 0"
  by (simp_all add: maap_ex1_def maap_init_defs)

lemma maap_ex1_reachable: "maap_reachable (maap_ex_cfg True) maap_ex0 maap_ex1"
  by (rule start [OF maap_ex1_init])

lemma ex0_random: "\<forall>n. 0 \<le> os_random maap_ex0 n"
  by (simp add: maap_ex0_def)

lemma maap_ex2_new: "maap_new_range_on_port maap_ex1 0 7 None 8 = Some (Some 0, maap_ex2)"
proof -
  have "\<exists>s. maap_new_range_on_port maap_ex1 0 7 None 8 = Some (Some 0, s)"
    by (simp add: maap_new_range_on_port_def maap_range_alloc_def maap_ex1_state is_range_id_used_def get_range_by_id_def Let_def
        check_internal_conflict_def maap_timers_init_def)
  then show ?thesis by (auto simp: maap_ex2_def)
qed

definition maap_ex3 :: maap_ctx where
  "maap_ex3 = the (maap_ipc_receive False 2 (GENAVB_MSG_MAAP_CREATE_RANGE 0 4 7 8 (replicate 6 0)) maap_ex1)"

lemma maap_ex3_reachable: "maap_reachable (maap_ex_cfg True) maap_ex0 maap_ex3" and maap_ex3_owned: "owned maap_ex3 0 = [0]" "port_max maap_ex3 = 1"
proof -
  let ?m = "GENAVB_MSG_MAAP_CREATE_RANGE 0 4 7 8 (replicate 6 0)"
  have lp: "logical_to_maap_port maap_ex1 4 = Some 0" by (simp add: logical_to_maap_port_def maap_ex1_state)
  have m: "msg_ok maap_ex1 ?m" using lp by (simp add: msg_ok_def maap_ex1_state)
  note i = reachable_ok [OF maap_ex1_reachable ex0_random]
  have o: "owned maap_ex2 0 = [0]" and pm: "port_max maap_ex2 = 1"
    using new_range_ok [OF i(1), of 0 None 7 8] maap_ex2_new by (simp_all add: maap_ex1_state owned_def)
  have r: "maap_ipc_receive False 2 ?m maap_ex1 = Some (maap_ipc_create_response False (IPC_DST 2) (logical_port (mport maap_ex2 0))
    (range_id (get_range maap_ex2 0)) (start_mac_addr (get_range maap_ex2 0)) (ucast (mac_count (get_range maap_ex2 0))) MAAP_RESPONSE_SUCCESS maap_ex2)"
    using lp maap_ex2_new by (simp add: maap_ipc_receive_def Let_def)
  then have e: "maap_ipc_receive False 2 ?m maap_ex1 = Some maap_ex3" by (simp add: maap_ex3_def)
  show "maap_reachable (maap_ex_cfg True) maap_ex0 maap_ex3" by (rule step [OF maap_ex1_reachable request [OF m e]])
  obtain m where m3: "maap_ex3 = ipc_send m maap_ex2" using r e by (auto simp: ipc_defs)
  have "mport maap_ex3 = mport maap_ex2" "port_max maap_ex3 = port_max maap_ex2" unfolding m3 by (simp_all add: ipc_send_def)
  then show "owned maap_ex3 0 = [0]" "port_max maap_ex3 = 1" using o pm by (simp_all add: owned_def)
qed

subsection \<open>Properties\<close>

text \<open>
  C13: In every reachable state of MAAP a port has at most 128 ranges, with different identifiers; every
  allocated range belongs to one port, lies entirely in the dynamic pool and is either probing (one to
  three probes left, the probe timer running with 500 to 570 ms and no announce timer) or defending (the
  announce timer running with 30000 to 31890 ms and no probe timer).
\<close>

theorem maap_ranges_invariant:
  assumes "maap_reachable cfg s0 s" and "\<forall>n. 0 \<le> os_random s0 n"
  shows "(\<forall>p < port_max s. distinct (owned s p) \<and> length (owned s p) \<le> 128 \<and> inj_on (\<lambda>r. range_id (get_range s r)) (set (owned s p))) \<and>
    dom (rheap s) = (\<Union>p < port_max s. set (owned s p)) \<and>
    (\<forall>r g. rheap s r = Some g \<longrightarrow> addr_set (start_mac_addr g) (mac_count g) \<subseteq> {POOL_BASE ..< POOL_BASE + 0xFE00} \<and> mac_count g \<noteq> 0 \<and>
       (sm_state g = MAAP_STATE_PROBE \<and> maap_probe_count g \<in> {1, 2, 3} \<and> timer_in (probe_timer g) 500 570 \<and> announce_timer g = None \<or>
        sm_state g = MAAP_STATE_DEFEND \<and> timer_in (announce_timer g) 30000 31890 \<and> probe_timer g = None))"
proof -
  note i = reachable_ok(1) [OF assms]
  have "addr_set (start_mac_addr g) (mac_count g) \<subseteq> {POOL_BASE ..< POOL_BASE + 0xFE00} \<and> mac_count g \<noteq> 0 \<and>
       (sm_state g = MAAP_STATE_PROBE \<and> maap_probe_count g \<in> {1, 2, 3} \<and> timer_in (probe_timer g) 500 570 \<and> announce_timer g = None \<or>
        sm_state g = MAAP_STATE_DEFEND \<and> timer_in (announce_timer g) 30000 31890 \<and> probe_timer g = None)"
    if "rheap s r = Some g" for r g
    using maap_invD(3) [OF i that] pool_iff [of "mac_count g" "start_mac_addr g"]
    unfolding range_ok_def addr_ok_def probing_def defending_def by blast
  then show ?thesis using maap_invD(1,6) [OF i] by (simp add: port_ok_def)
qed

theorem maap_ranges_invariant_witness:
  "\<exists>g. rheap maap_ex3 0 = Some g \<and> addr_set (start_mac_addr g) (mac_count g) \<subseteq> {POOL_BASE ..< POOL_BASE + 0xFE00}"
proof -
  note h = maap_ranges_invariant [OF maap_ex3_reachable ex0_random]
  have "dom (rheap maap_ex3) = (\<Union>p < port_max maap_ex3. set (owned maap_ex3 p))" using h by blast
  then have "0 \<in> dom (rheap maap_ex3)" by (auto simp: maap_ex3_owned)
  then obtain g where "rheap maap_ex3 0 = Some g" by blast
  then show ?thesis using h by blast
qed



subsection \<open>Acquisition\<close>

text \<open>What a range puts on the wire and tells the applications.\<close>

definition range_frame :: "u8 \<Rightarrow> nat \<Rightarrow> maap_range \<Rightarrow> maap_frame" where
  "range_frame msg_type p g = \<lparr>fr_port = p, fr_dst = MAAP_MULTICAST_ADDR,
     fr_pdu = maap_pdu_bytes msg_type (start_mac_addr g) (ucast (mac_count g)) (replicate 6 0) 0\<rparr>"

definition range_status :: "maap_status \<Rightarrow> u32 \<Rightarrow> maap_range \<Rightarrow> maap_ipc_out" where
  "range_status status lport g = MaapStatus False IPC_DST_ALL status (ucast lport) (range_id g) (ucast (mac_count g)) (take 6 (start_mac_addr g))"

definition lossless :: "maap_ctx \<Rightarrow> bool" where
  "lossless s \<longleftrightarrow> (\<forall>n. tx_ok s n) \<and> (\<forall>n. ipc_ok s n)"

lemma lossless_same: "maap_same s s' \<Longrightarrow> lossless s' = lossless s"
  by (simp add: lossless_def maap_same_def)

lemma transmit_None: "maap_net_transmit p r m None s =
    s\<lparr>n_tx := n_tx s + 1, sent := (if tx_ok s (n_tx s) then sent s @ [range_frame m p (get_range s r)] else sent s)\<rparr>"
  by (simp add: maap_net_transmit_def range_frame_def Let_def)

lemma range_frame_cong: "start_mac_addr g = start_mac_addr g' \<Longrightarrow> mac_count g = mac_count g' \<Longrightarrow> range_frame m p g = range_frame m p g'"
  by (simp add: range_frame_def)

definition acquiring :: "maap_ctx \<Rightarrow> nat \<Rightarrow> maap_range \<Rightarrow> u32 \<Rightarrow> bool" where
  "acquiring s r g k \<longleftrightarrow> lossless s \<and> (\<exists>h. rheap s r = Some h \<and> sm_state h = MAAP_STATE_PROBE \<and> maap_probe_count h = k \<and>
     range_id h = range_id g \<and> start_mac_addr h = start_mac_addr g \<and> mac_count h = mac_count g)"

lemmas sm_acts = upd_range_def set_sm_state_def probe_timer_stop_def announce_timer_stop_def maap_sprobe_def maap_sannounce_def
  sm_indication_def maap_ipc_indication_def ipc_send_def transmit_None get_range_def Let_def

lemma reserve_acquires:
  assumes g: "rheap s r = Some g" "sm_state g = MAAP_STATE_INITIAL" and ok: "lossless s"
  shows "acquiring (maap_sm r p MAAP_EVENT_RESERVE_ADDRESS info s) r g 3 \<and>
    sent (maap_sm r p MAAP_EVENT_RESERVE_ADDRESS info s) = sent s @ [range_frame MAAP_PROBE p g] \<and>
    ipc_sent (maap_sm r p MAAP_EVENT_RESERVE_ADDRESS info s) = ipc_sent s"
proof -
  have e: "maap_sm r p MAAP_EVENT_RESERVE_ADDRESS info s = set_sm_state MAAP_STATE_PROBE r (maap_sprobe p r
      (upd_range r (\<lambda>range. range\<lparr>maap_probe_count := MAAP_PROBE_RETRANSMITS_VAL\<rparr>) s))"
    by (rule sm_done) (simp add: maap_sm_step_def get_range_def g)
  show ?thesis using g ok unfolding e
    by (auto simp: sm_acts acquiring_def lossless_def intro!: range_frame_cong)
qed

lemma probe_expired:
  assumes a: "acquiring s r g k" and k: "k \<in> {2, 3}"
  shows "acquiring (probe_timer_expired p r s) r g (k - 1)" "sent (probe_timer_expired p r s) = sent s @ [range_frame MAAP_PROBE p g]"
    "ipc_sent (probe_timer_expired p r s) = ipc_sent s"
proof -
  from a obtain x where h: "rheap s r = Some x" "sm_state x = MAAP_STATE_PROBE" "maap_probe_count x = k" "range_id x = range_id g"
    "start_mac_addr x = start_mac_addr g" "mac_count x = mac_count g" and ok: "lossless s" by (auto simp: acquiring_def)
  let ?s = "probe_timer_stop r s"
  have "maap_sm_step MAAP_EVENT_PROBE_TIMER p r None ?s =
      (None, upd_range r (\<lambda>range. range\<lparr>maap_probe_count := maap_probe_count range - 1\<rparr>) (maap_sprobe p r ?s))"
    using h k by (auto simp: maap_sm_step_def sm_acts)
  from sm_done [OF this] have e: "probe_timer_expired p r s = upd_range r (\<lambda>range. range\<lparr>maap_probe_count := maap_probe_count range - 1\<rparr>) (maap_sprobe p r ?s)"
    by (simp add: probe_timer_expired_def maap_probe_timer_handler_def)
  show "acquiring (probe_timer_expired p r s) r g (k - 1)" using h ok unfolding e by (auto simp: sm_acts acquiring_def lossless_def)
  show "sent (probe_timer_expired p r s) = sent s @ [range_frame MAAP_PROBE p g]" "ipc_sent (probe_timer_expired p r s) = ipc_sent s"
    using h ok unfolding e by (auto simp: sm_acts lossless_def intro!: range_frame_cong)
qed

lemma probe_expired_last:
  assumes a: "acquiring s r g 1"
  shows "\<exists>g'. rheap (probe_timer_expired p r s) r = Some g' \<and> sm_state g' = MAAP_STATE_DEFEND \<and> range_id g' = range_id g \<and>
      start_mac_addr g' = start_mac_addr g \<and> mac_count g' = mac_count g"
    "sent (probe_timer_expired p r s) = sent s @ [range_frame MAAP_PROBE p g, range_frame MAAP_ANNOUNCE p g]"
    "ipc_sent (probe_timer_expired p r s) = ipc_sent s @ [range_status MAAP_STATUS_SUCCESS (port_id (mport s p)) g]"
proof -
  from a obtain x where h: "rheap s r = Some x" "sm_state x = MAAP_STATE_PROBE" "maap_probe_count x = 1" "range_id x = range_id g"
    "start_mac_addr x = start_mac_addr g" "mac_count x = mac_count g" and ok: "lossless s" by (auto simp: acquiring_def)
  let ?s = "probe_timer_stop r s"
  let ?s1 = "upd_range r (\<lambda>range. range\<lparr>maap_probe_count := maap_probe_count range - 1\<rparr>) (maap_sprobe p r ?s)"
  let ?s2 = "set_sm_state MAAP_STATE_DEFEND r (maap_sannounce p r
                  (upd_range r (\<lambda>range. range\<lparr>send_conflict_indication := True\<rparr>)
                    (sm_indication MAAP_STATUS_SUCCESS p r (probe_timer_stop r ?s1))))"
  have "maap_sm_step MAAP_EVENT_PROBE_TIMER p r None ?s = (Some MAAP_EVENT_PROBE_COUNT, ?s1)" using h by (auto simp: maap_sm_step_def sm_acts)
  moreover have "maap_sm_step MAAP_EVENT_PROBE_COUNT p r None ?s1 = (None, ?s2)" using h by (auto simp: maap_sm_step_def sm_acts)
  ultimately have e: "probe_timer_expired p r s = ?s2"
    using sm_goto sm_done by (simp add: probe_timer_expired_def maap_probe_timer_handler_def)
  show "\<exists>g'. rheap (probe_timer_expired p r s) r = Some g' \<and> sm_state g' = MAAP_STATE_DEFEND \<and> range_id g' = range_id g \<and>
      start_mac_addr g' = start_mac_addr g \<and> mac_count g' = mac_count g" using h unfolding e by (auto simp: sm_acts)
  show "sent (probe_timer_expired p r s) = sent s @ [range_frame MAAP_PROBE p g, range_frame MAAP_ANNOUNCE p g]"
    "ipc_sent (probe_timer_expired p r s) = ipc_sent s @ [range_status MAAP_STATUS_SUCCESS (port_id (mport s p)) g]"
    using h ok unfolding e by (auto simp: sm_acts lossless_def range_status_def intro!: range_frame_cong)
qed

lemma acquire_run:
  fixes p :: nat
  assumes a: "acquiring s r g 3"
  defines "s3 \<equiv> (probe_timer_expired p r ^^ 3) s"
  shows "(\<exists>g'. rheap s3 r = Some g' \<and> sm_state g' = MAAP_STATE_DEFEND \<and> range_id g' = range_id g \<and>
      start_mac_addr g' = start_mac_addr g \<and> mac_count g' = mac_count g) \<and>
    sent s3 = sent s @ replicate 3 (range_frame MAAP_PROBE p g) @ [range_frame MAAP_ANNOUNCE p g] \<and>
    ipc_sent s3 = ipc_sent s @ [range_status MAAP_STATUS_SUCCESS (port_id (mport s p)) g]"
proof -
  let ?s1 = "probe_timer_expired p r s"
  let ?s2 = "probe_timer_expired p r ?s1"
  have a1: "acquiring ?s1 r g 2" "sent ?s1 = sent s @ [range_frame MAAP_PROBE p g]" "ipc_sent ?s1 = ipc_sent s"
    using probe_expired [OF a, of p] by simp_all
  have a2: "acquiring ?s2 r g 1" "sent ?s2 = sent ?s1 @ [range_frame MAAP_PROBE p g]" "ipc_sent ?s2 = ipc_sent ?s1"
    using probe_expired [OF a1(1), of p] by simp_all
  have m: "mport ?s2 = mport s"
    using sm_same [of MAAP_EVENT_PROBE_TIMER] by (simp add: probe_timer_expired_def maap_probe_timer_handler_def maap_same_def) (simp add: sm_acts)
  have e: "s3 = probe_timer_expired p r ?s2" by (simp add: s3_def numeral_3_eq_3)
  show ?thesis using probe_expired_last [OF a2(1), of p] unfolding e m
    by (simp only: a1 a2) (simp add: numeral_3_eq_3)
qed

lemma timers_init_log: "maap_timers_init s = (rc, s') \<Longrightarrow> sent s' = sent s \<and> ipc_sent s' = ipc_sent s \<and> tx_ok s' = tx_ok s \<and> ipc_ok s' = ipc_ok s \<and>
    mport s' = mport s \<and> rheap s' = rheap s"
  by (auto simp: maap_timers_init_def split: if_splits)

lemma alloc_log:
  assumes "maap_range_alloc s p rid addr n = Some (Some r, s1)"
  shows "sent s1 = sent s \<and> ipc_sent s1 = ipc_sent s \<and> tx_ok s1 = tx_ok s \<and> ipc_ok s1 = ipc_ok s \<and> port_id (mport s1 p) = port_id (mport s p) \<and>
    (\<exists>g. rheap s1 r = Some g \<and> sm_state g = MAAP_STATE_INITIAL \<and> range_id g = rid \<and> mac_count g = n \<and>
      (addr \<noteq> None \<longrightarrow> start_mac_addr g = take 6 (the addr)))"
  using assms
  by (cases addr) (auto simp: maap_range_alloc_def Let_def upd_port_def dest: timers_init_log split: if_splits option.splits prod.splits)

text \<open>
  C20: A range that is created and meets no conflict is acquired: while frames and messages get through, its
  creation sends a first probe, each of the next three expirations of its probe timer another one, and the
  third announces the range, moves it to the defending state and reports success to the applications
  once, for the address and the count of the range.
\<close>

theorem maap_acquires_range:
  assumes "maap_inv s" and "p < port_max s" and "initialized (mport s p)" and "lossless s" and "\<forall>a. addr = Some a \<longrightarrow> length a = 6"
    and "maap_new_range_on_port s p rid addr n = Some (Some r, s1)"
  shows "\<exists>g. rheap ((probe_timer_expired p r ^^ 3) s1) r = Some g \<and> sm_state g = MAAP_STATE_DEFEND \<and> range_id g = rid \<and> mac_count g = n \<and>
    (addr \<noteq> None \<longrightarrow> start_mac_addr g = the addr) \<and>
    sent ((probe_timer_expired p r ^^ 3) s1) = sent s @ replicate 4 (range_frame MAAP_PROBE p g) @ [range_frame MAAP_ANNOUNCE p g] \<and>
    ipc_sent ((probe_timer_expired p r ^^ 3) s1) = ipc_sent s @ [range_status MAAP_STATUS_SUCCESS (port_id (mport s p)) g]"
proof -
  obtain s2 where al: "maap_range_alloc s p rid addr n = Some (Some r, s2)"
    and s1: "s1 = maap_sm r p MAAP_EVENT_BEGIN None (upd_port p (\<lambda>port. port\<lparr>range_list := map_option ((#) r) (range_list port)\<rparr>) s2)"
    using assms(6) by (auto simp: maap_new_range_on_port_def split: option.splits)
  let ?s = "upd_port p (\<lambda>port. port\<lparr>range_list := map_option ((#) r) (range_list port)\<rparr>) s2"
  from alloc_log [OF al] obtain g where g: "rheap ?s r = Some g" "sm_state g = MAAP_STATE_INITIAL" "range_id g = rid" "mac_count g = n"
      "addr \<noteq> None \<longrightarrow> start_mac_addr g = take 6 (the addr)"
    and l: "sent ?s = sent s" "ipc_sent ?s = ipc_sent s" "lossless ?s" "port_id (mport ?s p) = port_id (mport s p)"
    using assms(4) by (auto simp: upd_port_def lossless_def)
  have "maap_sm_step MAAP_EVENT_BEGIN p r None ?s = (Some MAAP_EVENT_RESERVE_ADDRESS, ?s)" using g by (simp add: maap_sm_step_def get_range_def)
  note b = sm_goto [OF this, folded s1]
  have a: "acquiring s1 r g 3" "sent s1 = sent s @ [range_frame MAAP_PROBE p g]" "ipc_sent s1 = ipc_sent s"
    unfolding b using reserve_acquires [OF g(1,2) l(3), of p None] l by simp_all
  have "mport s1 = mport ?s" using sm_same [of MAAP_EVENT_BEGIN ?s r p None] by (simp add: s1 maap_same_def)
  then have pid: "port_id (mport s1 p) = port_id (mport s p)" using l(4) by simp
  obtain g' where g': "rheap ((probe_timer_expired p r ^^ 3) s1) r = Some g'" "sm_state g' = MAAP_STATE_DEFEND" "range_id g' = range_id g"
      "start_mac_addr g' = start_mac_addr g" "mac_count g' = mac_count g"
    using acquire_run [OF a(1), of p] by blast
  have f: "range_frame m p g = range_frame m p g'" "range_status st lp g = range_status st lp g'" for m st lp
    using g' by (simp_all add: range_frame_def range_status_def)
  have "take 6 (the addr) = the addr" if "addr \<noteq> None" using assms(5) that by auto
  then show ?thesis using acquire_run [OF a(1), of p] g(3-) g' unfolding a(2,3) pid f
    by (intro exI [where x = g']) (simp add: numeral_eq_Suc)
qed

theorem maap_acquires_range_witness:
  "\<exists>g. rheap ((probe_timer_expired 0 0 ^^ 3) maap_ex2) 0 = Some g \<and> sm_state g = MAAP_STATE_DEFEND \<and> mac_count g = 8"
proof -
  have "lossless maap_ex1" by (simp add: lossless_def maap_ex1_state)
  then show ?thesis
    using maap_acquires_range [OF reachable_ok(1) [OF maap_ex1_reachable ex0_random], of 0 None 7 8 0 maap_ex2] maap_ex2_new
    by (auto simp: maap_ex1_state)
qed

subsection \<open>Conflicts\<close>



text \<open>A probing range that yields starts again at an address drawn without regard to any other range.\<close>

lemma restart_effect:
  assumes g: "rheap s r = Some g" "sm_state g = MAAP_STATE_PROBE"
    and st: "maap_sm_step event p r info s = (Some MAAP_EVENT_RESTART, set_sm_state MAAP_STATE_INITIAL r (probe_timer_stop r s))"
  defines "s' \<equiv> maap_sm r p event info s"
  shows "n_tx s' = n_tx s + 1" "mport s' = mport s" "\<forall>q. q \<noteq> r \<longrightarrow> rheap s' q = rheap s q"
    "\<exists>g'. rheap s' r = Some g' \<and> start_mac_addr g' = maap_generate_address (os_random s (n_random s)) (mac_count g) \<and> mac_count g' = mac_count g \<and>
       range_id g' = range_id g"
proof -
  let ?s1 = "set_sm_state MAAP_STATE_INITIAL r (probe_timer_stop r s)"
  obtain s2 where s2: "maap_sm_step MAAP_EVENT_RESTART p r info ?s1 = (Some MAAP_EVENT_RESERVE_ADDRESS, s2)"
    and h: "n_tx s2 = n_tx s" "mport s2 = mport s" "\<forall>q. q \<noteq> r \<longrightarrow> rheap s2 q = rheap s q"
      "\<exists>g'. rheap s2 r = Some g' \<and> start_mac_addr g' = maap_generate_address (os_random s (n_random s)) (mac_count g) \<and> mac_count g' = mac_count g \<and>
       range_id g' = range_id g \<and> sm_state g' = MAAP_STATE_INITIAL"
    using g by (cases "send_conflict_indication g") (auto simp: maap_sm_step_def sm_acts)
  from h(4) obtain g' where g': "rheap s2 r = Some g'" "start_mac_addr g' = maap_generate_address (os_random s (n_random s)) (mac_count g)"
    "mac_count g' = mac_count g" "range_id g' = range_id g" "sm_state g' = MAAP_STATE_INITIAL" by blast
  let ?s3 = "set_sm_state MAAP_STATE_PROBE r (maap_sprobe p r (upd_range r (\<lambda>range. range\<lparr>maap_probe_count := MAAP_PROBE_RETRANSMITS_VAL\<rparr>) s2))"
  have "maap_sm_step MAAP_EVENT_RESERVE_ADDRESS p r info s2 = (None, ?s3)" using g' by (simp add: maap_sm_step_def get_range_def)
  then have e: "s' = ?s3" using sm_goto [OF st] sm_goto [OF s2] sm_done by (simp add: s'_def)
  show "n_tx s' = n_tx s + 1" "mport s' = mport s" "\<forall>q. q \<noteq> r \<longrightarrow> rheap s' q = rheap s q"
    "\<exists>g'. rheap s' r = Some g' \<and> start_mac_addr g' = maap_generate_address (os_random s (n_random s)) (mac_count g) \<and> mac_count g' = mac_count g \<and>
       range_id g' = range_id g"
    unfolding e using h g' by (simp_all add: sm_acts)
qed


lemma maap_ex2_probe: "\<exists>g. rheap maap_ex2 0 = Some g \<and> sm_state g = MAAP_STATE_PROBE"
proof -
  have "0 \<in> dom (rheap maap_ex2)" "maap_inv maap_ex2"
    using new_range_ok [OF reachable_ok(1) [OF maap_ex1_reachable ex0_random], of 0 None 7 8] maap_ex2_new by (auto simp: maap_ex1_state)
  then obtain g where g: "rheap maap_ex2 0 = Some g" by blast
  obtain s2 where al: "maap_range_alloc maap_ex1 0 7 None 8 = Some (Some 0, s2)"
    and s1: "maap_ex2 = maap_sm 0 0 MAAP_EVENT_BEGIN None (upd_port 0 (\<lambda>port. port\<lparr>range_list := map_option ((#) 0) (range_list port)\<rparr>) s2)"
    using maap_ex2_new by (auto simp: maap_new_range_on_port_def split: option.splits)
  let ?s = "upd_port 0 (\<lambda>port. port\<lparr>range_list := map_option ((#) 0) (range_list port)\<rparr>) s2"
  from alloc_log [OF al] obtain h where h: "rheap ?s 0 = Some h" "sm_state h = MAAP_STATE_INITIAL" by (auto simp: upd_port_def)
  have "maap_sm_step MAAP_EVENT_BEGIN 0 0 None ?s = (Some MAAP_EVENT_RESERVE_ADDRESS, ?s)" using h by (simp add: maap_sm_step_def get_range_def)
  moreover have "lossless ?s" using alloc_log [OF al] by (simp add: lossless_def upd_port_def maap_ex1_state)
  ultimately have "acquiring maap_ex2 0 h 3" using reserve_acquires [OF h, of 0 None] sm_goto s1 by simp
  then show ?thesis by (auto simp: acquiring_def)
qed


text \<open>
  A restart does not look at the other ranges of the port: when another station announces or defends the
  address of a probing range, the range takes the next random address, and if that one lies in another range of
  the same port the port ends up probing an address that it already holds, which \<open>maap_range_alloc\<close> refuses
  for a new range.
\<close>

theorem maap_restart_ignores_own_ranges:
  assumes "rheap s r = Some g" and "sm_state g = MAAP_STATE_PROBE" and "event = MAAP_EVENT_RANNOUNCE \<or> event = MAAP_EVENT_RDEFEND"
    and "q \<noteq> r" and "q \<in> set (owned s p)" and "rheap s q = Some h"
    and "are_ranges_in_conflict (start_mac_addr h) (mac_count h)
      (maap_generate_address (os_random s (n_random s)) (mac_count g)) (mac_count g) \<noteq> None"
  shows "check_internal_conflict (maap_sm r p event info s) (remove1 r (owned s p)) (get_range (maap_sm r p event info s) r)"
proof -
  have "maap_sm_step event p r info s = (Some MAAP_EVENT_RESTART, set_sm_state MAAP_STATE_INITIAL r (probe_timer_stop r s))"
    using assms(1-3) by (auto simp: maap_sm_step_def get_range_def)
  note e = restart_effect [OF assms(1,2) this]
  have "q \<in> set (remove1 r (owned s p))" using assms(4,5) by simp
  moreover have "get_range (maap_sm r p event info s) q = h" using e(3) assms(4,6) by (simp add: get_range_def)
  moreover have "start_mac_addr (get_range (maap_sm r p event info s) r) = maap_generate_address (os_random s (n_random s)) (mac_count g)"
    "mac_count (get_range (maap_sm r p event info s) r) = mac_count g" using e(4) by (auto simp: get_range_def)
  ultimately show ?thesis using assms(7) unfolding check_internal_conflict_def list_ex_iff by metis
qed

definition maap_ex_two :: maap_ctx where
  "maap_ex_two = maap_ex1\<lparr>mport := (mport maap_ex1)(0 := (mport maap_ex1 0)\<lparr>range_list := Some [1, 0], allocated_ranges_count := 2\<rparr>),
     next_range := 2,
     rheap := [0 \<mapsto> \<lparr>range_id = 1, mac_count = 1, start_mac_addr = MAAP_DYNAMIC_POOL_MIN, sm_state = MAAP_STATE_PROBE,
                     announce_timer = None, probe_timer = Some 500, maap_probe_count = 3, send_conflict_indication = False\<rparr>,
               1 \<mapsto> \<lparr>range_id = 2, mac_count = 1, start_mac_addr = [0x91, 0xE0, 0xF0, 0, 0, 1], sm_state = MAAP_STATE_PROBE,
                     announce_timer = None, probe_timer = Some 500, maap_probe_count = 3, send_conflict_indication = False\<rparr>]\<rparr>"

theorem maap_restart_ignores_own_ranges_witness:
  "check_internal_conflict (maap_sm 1 0 MAAP_EVENT_RANNOUNCE None maap_ex_two) [0] (get_range (maap_sm 1 0 MAAP_EVENT_RANNOUNCE None maap_ex_two) 1)"
proof -
  let ?g = "get_range maap_ex_two 1" and ?h = "get_range maap_ex_two 0"
  have "maap_generate_address 0 1 = MAAP_DYNAMIC_POOL_MIN" by (simp add: maap_generate_address_def random_range_def signed_modulo_int_def Let_def)
  moreover have "are_ranges_in_conflict MAAP_DYNAMIC_POOL_MIN 1 MAAP_DYNAMIC_POOL_MIN 1 \<noteq> None"
    by (simp add: are_ranges_in_conflict_def Let_def)
  moreover have o: "owned maap_ex_two 0 = [1, 0]" by (simp add: owned_def maap_ex_two_def)
  moreover have "rheap maap_ex_two 1 = Some ?g" "rheap maap_ex_two 0 = Some ?h" "sm_state ?g = MAAP_STATE_PROBE" "mac_count ?g = 1" "mac_count ?h = 1"
    "start_mac_addr ?h = MAAP_DYNAMIC_POOL_MIN" "os_random maap_ex_two = (\<lambda>_. 0)"
    by (simp_all add: maap_ex_two_def get_range_def maap_ex1_state)
  ultimately have "check_internal_conflict (maap_sm 1 0 MAAP_EVENT_RANNOUNCE None maap_ex_two) (remove1 1 (owned maap_ex_two 0))
      (get_range (maap_sm 1 0 MAAP_EVENT_RANNOUNCE None maap_ex_two) 1)"
    by (intro maap_restart_ignores_own_ranges [of maap_ex_two 1 ?g _ 0 0 ?h]) simp_all
  then show ?thesis unfolding o by simp
qed

subsection \<open>Frames and addresses\<close>

text \<open>
  The PDU that MAAP sends reads back, on the receiving side, as the message type, the addresses and the counts
  it was built from, at whatever offset it lies in the frame.
\<close>

theorem maap_pdu_roundtrip:
  assumes "length req_addr = 6" and "length conf_addr = 6" and "msg_type < 16"
  shows "maap_pdu_fields (hd0 @ maap_pdu_bytes msg_type req_addr req_count conf_addr conf_count @ pad) (length hd0) =
    Some \<lparr>pdu_subtype = AVTP_SUBTYPE_MAAP, pdu_message_type = msg_type, pdu_requested_start_address = req_addr, pdu_requested_count = req_count,
      pdu_conflict_start_address = conf_addr, pdu_conflict_count = conf_count\<rparr>"
proof -
  have f: "(0xF :: u8) = mask 4" by (simp add: mask_eq_exp_minus_1)
  have t: "take_bit 4 msg_type = msg_type" using assms(3) by (simp add: take_bit_eq_mod word_mod_less_divisor unat_arith_simps)
  have m: "msg_type AND 0xF = msg_type" unfolding f by (simp add: take_bit_eq_mask [symmetric] t)
  obtain a0 a1 a2 a3 a4 a5 where a: "req_addr = [a0, a1, a2, a3, a4, a5]" using list6 [OF assms(1)] by blast
  obtain c0 c1 c2 c3 c4 c5 where c: "conf_addr = [c0, c1, c2, c3, c4, c5]" using list6 [OF assms(2)] by blast
  have be: "be16 v = [be16 v ! 0, be16 v ! Suc 0]" for v by (simp add: be16_def)
  have b: "maap_pdu_bytes msg_type req_addr req_count conf_addr conf_count =
    [AVTP_SUBTYPE_MAAP, msg_type AND 0xF, push_bit 3 1, 16, 0, 0, 0, 0, 0, 0, 0, 0, a0, a1, a2, a3, a4, a5, be16 req_count ! 0, be16 req_count ! Suc 0,
     c0, c1, c2, c3, c4, c5, be16 conf_count ! 0, be16 conf_count ! Suc 0]"
    unfolding maap_pdu_bytes_def a c by (subst be, subst be [of conf_count]) (simp add: numeral_eq_Suc)
  show ?thesis unfolding maap_pdu_fields_def b by (simp add: Let_def m a c)
qed

theorem maap_pdu_roundtrip_witness:
  "maap_pdu_fields (maap_pdu_bytes MAAP_DEFEND MAAP_DYNAMIC_POOL_MIN 3 MAAP_DYNAMIC_POOL_MAX 1) 0 =
    Some \<lparr>pdu_subtype = AVTP_SUBTYPE_MAAP, pdu_message_type = MAAP_DEFEND, pdu_requested_start_address = MAAP_DYNAMIC_POOL_MIN,
      pdu_requested_count = 3, pdu_conflict_start_address = MAAP_DYNAMIC_POOL_MAX, pdu_conflict_count = 1\<rparr>"
  using maap_pdu_roundtrip [of MAAP_DYNAMIC_POOL_MIN MAAP_DYNAMIC_POOL_MAX MAAP_DEFEND "[]" 3 1 "[]"] by simp



subsection \<open>Ports that could not be initialized\<close>

text \<open>
  A request for a port whose initialization failed crashes the stack: \<open>logical_to_maap_port\<close> finds the port, its
  list of ranges was never initialized, and both the creation of a range (with an acceptable address and count) and
  every deletion follow the null pointer of the list head.
\<close>

theorem maap_request_on_failed_port_crashes:
  assumes "logical_to_maap_port s (ucast pid) = Some p" and "range_list (mport s p) = None" and "allocated_ranges_count (mport s p) = 0"
    and "count \<noteq> 0" and "count \<le> 0xFE00"
  shows "maap_ipc_receive sync src (GENAVB_MSG_MAAP_DELETE_RANGE pid rid) s = None \<and>
    maap_ipc_receive sync src (GENAVB_MSG_MAAP_CREATE_RANGE 0 pid rid count base) s = None"
proof -
  have "unat (ucast count :: u32) = unat count" using unat_u16_less [of count] by (simp add: unsigned_ucast_eq take_bit_nat_eq_self)
  moreover have "0 < unat count" "unat count \<le> 0xFE00" using assms(4,5) by (simp_all add: unat_gt_0 word_le_nat_alt)
  ultimately have "\<not> (ucast count > MAAP_DYNAMIC_POOL_SIZE \<or> (ucast count :: u32) \<le> 0)" by (simp add: word_less_nat_alt word_le_nat_alt)
  then have "maap_range_alloc s p rid None (ucast count) = None" using assms(2,3) unfolding maap_range_alloc_def by simp
  then show ?thesis using assms(1,2)
    by (simp add: maap_ipc_receive_def maap_new_range_on_port_def maap_remove_range_on_port_def Let_def)
qed

definition maap_ex_failed :: maap_ctx where
  "maap_ex_failed = snd (maap_init (maap_ex_cfg False) maap_ex0)"

theorem maap_request_on_failed_port_crashes_witness:
  "fst (maap_init (maap_ex_cfg False) maap_ex0) \<and> maap_ipc_receive False 2 (GENAVB_MSG_MAAP_DELETE_RANGE 4 7) maap_ex_failed = None"
proof -
  have "logical_to_maap_port maap_ex_failed (ucast (4 :: u16)) = Some 0" "range_list (mport maap_ex_failed 0) = None"
    "allocated_ranges_count (mport maap_ex_failed 0) = 0" "fst (maap_init (maap_ex_cfg False) maap_ex0)"
    by (simp_all add: maap_ex_failed_def logical_to_maap_port_def maap_init_defs)
  then show ?thesis using maap_request_on_failed_port_crashes [of maap_ex_failed 4 0 1 False 2 7] by simp
qed

end
