(* ===== verification/Ptp_Time.thy ===== *)
theory Ptp_Time
  imports Prelude
begin

unbundle bit_operations_syntax

section \<open>PTP time arithmetic (\<open>src/common/ptp_time_ops.h\<close>)\<close>

text \<open>
  Times as 96-bit numbers of 2^-16 ns in three fields, timestamps in seconds and nanoseconds, and the
  conversions between them. The fields of a PDU are its bytes in network order. The conversions from
  and to \<open>double\<close> are not part of the model.
\<close>

subsection \<open>Data\<close>

record ptp_u_scaled_ns =
  u_msb :: u16
  u_ns :: u64
  u_frac :: u16

record ptp_scaled_ns =
  s_msb :: u16
  s_ns :: u64
  s_frac :: u16

record ptp_timestamp =
  ts_seconds_msb :: u16
  ts_seconds_lsb :: u32
  ts_nanoseconds :: u32

record ptp_extended_timestamp =
  ext_seconds_msb :: u16
  ext_seconds_lsb :: u32
  ext_nanoseconds :: u32
  ext_frac :: u16

abbreviation NSECS_PER_SEC :: "'a::len word" where "NSECS_PER_SEC \<equiv> 1000000000"

text \<open>Network order of 32-bit fields.\<close>

definition be32 :: "u32 \<Rightarrow> u8 list" where
  "be32 v = be16 (ucast (drop_bit 16 v)) @ be16 (ucast v)"

definition from_be32 :: "u8 list \<Rightarrow> u32" where
  "from_be32 b = push_bit 16 (ucast (from_be16 (b ! 0) (b ! 1))) OR ucast (from_be16 (b ! 2) (b ! 3))"

subsection \<open>Operations\<close>

definition ntoh_ptp_timestamp :: "u8 list \<Rightarrow> ptp_timestamp" where
  "ntoh_ptp_timestamp b = \<lparr>ts_seconds_msb = from_be16 (b ! 0) (b ! 1), ts_seconds_lsb = from_be32 (drop 2 b),
     ts_nanoseconds = from_be32 (drop 6 b)\<rparr>"

definition hton_ptp_timestamp :: "ptp_timestamp \<Rightarrow> u8 list" where
  "hton_ptp_timestamp ts = be16 (ts_seconds_msb ts) @ be32 (ts_seconds_lsb ts) @ be32 (ts_nanoseconds ts)"

definition pdu_ptp_timestamp_to_u64 :: "u8 list \<Rightarrow> u64" where
  "pdu_ptp_timestamp_to_u64 b =
     (let ts = ntoh_ptp_timestamp b
      in ucast (ts_nanoseconds ts) + (ucast (ts_seconds_lsb ts) + push_bit 32 (ucast (ts_seconds_msb ts))) * NSECS_PER_SEC)"

definition u64_to_pdu_ptp_timestamp :: "u64 \<Rightarrow> u8 list" where
  "u64_to_pdu_ptp_timestamp nanoseconds =
     (let seconds = nanoseconds div NSECS_PER_SEC
      in be16 (ucast (drop_bit 32 seconds)) @ be32 (ucast (seconds AND 0xffffffff)) @ be32 (ucast (nanoseconds mod NSECS_PER_SEC)))"

definition scaled_ns_to_u_scaled_ns :: "ptp_scaled_ns \<Rightarrow> ptp_u_scaled_ns" where
  "scaled_ns_to_u_scaled_ns s = \<lparr>u_msb = s_msb s, u_ns = s_ns s, u_frac = s_frac s\<rparr>"

definition u_scaled_ns_to_scaled_ns :: "ptp_u_scaled_ns \<Rightarrow> ptp_scaled_ns" where
  "u_scaled_ns_to_scaled_ns u = \<lparr>s_msb = u_msb u, s_ns = u_ns u, s_frac = u_frac u\<rparr>"

definition minus_u_scaled_ns :: "ptp_u_scaled_ns \<Rightarrow> ptp_u_scaled_ns" where
  "minus_u_scaled_ns a =
     (let msb = NOT (u_msb a); ns = NOT (u_ns a); frac = NOT (u_frac a) + 1
      in if frac < 1
         then let ns1 = ns + 1 in \<lparr>u_msb = (if ns1 < 1 then msb + 1 else msb), u_ns = ns1, u_frac = frac\<rparr>
         else \<lparr>u_msb = msb, u_ns = ns, u_frac = frac\<rparr>)"

definition u64_to_u_scaled_ns :: "u64 \<Rightarrow> ptp_u_scaled_ns" where
  "u64_to_u_scaled_ns n = \<lparr>u_msb = 0, u_ns = n, u_frac = 0\<rparr>"

definition ptp_extended_timestamp_to_ptp_timestamp :: "ptp_extended_timestamp \<Rightarrow> ptp_timestamp" where
  "ptp_extended_timestamp_to_ptp_timestamp e =
     \<lparr>ts_seconds_msb = ext_seconds_msb e, ts_seconds_lsb = ext_seconds_lsb e, ts_nanoseconds = ext_nanoseconds e\<rparr>"

definition ptp_timestamp_to_ptp_extended_timestamp :: "ptp_timestamp \<Rightarrow> ptp_extended_timestamp" where
  "ptp_timestamp_to_ptp_extended_timestamp t =
     \<lparr>ext_seconds_msb = ts_seconds_msb t, ext_seconds_lsb = ts_seconds_lsb t, ext_nanoseconds = ts_nanoseconds t, ext_frac = 0\<rparr>"

definition ptp_extended_timestamp_to_u_scaled_ns :: "ptp_extended_timestamp \<Rightarrow> ptp_u_scaled_ns" where
  "ptp_extended_timestamp_to_u_scaled_ns e =
     (let tmp = ucast (ext_seconds_msb e) * NSECS_PER_SEC :: u64;
          msb = ucast (drop_bit 32 tmp) :: u16;
          tmp1 = ucast (ext_nanoseconds e) + ucast (ext_seconds_lsb e) * NSECS_PER_SEC :: u64;
          msb1 = (if tmp1 < ucast (ext_nanoseconds e) then msb + 1 else msb);
          ns = tmp1 + push_bit 32 (tmp AND 0xffffffff);
          msb2 = (if ns < tmp1 then msb1 + 1 else msb1)
      in \<lparr>u_msb = msb2, u_ns = ns, u_frac = ext_frac e\<rparr>)"

definition u_scaled_ns_to_ptp_extended_timestamp :: "ptp_u_scaled_ns \<Rightarrow> ptp_extended_timestamp" where
  "u_scaled_ns_to_ptp_extended_timestamp u =
     (let seconds_msb = ucast (push_bit 32 (ucast (u_msb u) :: u64) div NSECS_PER_SEC) :: u16;
          seconds = u_ns u div NSECS_PER_SEC;
          nanoseconds = ucast (u_ns u - seconds * NSECS_PER_SEC) :: u32
      in \<lparr>ext_seconds_msb = ucast (drop_bit 32 seconds) + seconds_msb, ext_seconds_lsb = ucast (seconds AND 0xffffffff),
          ext_nanoseconds = nanoseconds, ext_frac = u_frac u\<rparr>)"

definition u64_to_ptp_extended_timestamp :: "u64 \<Rightarrow> ptp_extended_timestamp" where
  "u64_to_ptp_extended_timestamp n = u_scaled_ns_to_ptp_extended_timestamp (u64_to_u_scaled_ns n)"

definition ptp_timestamp_to_u_scaled_ns :: "ptp_timestamp \<Rightarrow> ptp_u_scaled_ns" where
  "ptp_timestamp_to_u_scaled_ns t = ptp_extended_timestamp_to_u_scaled_ns (ptp_timestamp_to_ptp_extended_timestamp t)"

text \<open>The correction field is a signed 64-bit number of 2^-16 ns, given here in host order.\<close>

definition pdu_correction_field_to_scaled_ns :: "u64 \<Rightarrow> ptp_scaled_ns" where
  "pdu_correction_field_to_scaled_ns c =
     (let negative = sint c < 0; host = (if negative then - c else c);
          u = \<lparr>u_msb = 0, u_ns = signed_drop_bit 16 host AND 0xffffffffffffffff, u_frac = ucast (host AND 0xffff)\<rparr>
      in u_scaled_ns_to_scaled_ns (if negative then minus_u_scaled_ns u else u))"

definition scaled_ns_to_pdu_correction_field :: "ptp_scaled_ns \<Rightarrow> u64" where
  "scaled_ns_to_pdu_correction_field s =
     (let u = scaled_ns_to_u_scaled_ns s; negative = s_msb s AND 0x8000 \<noteq> 0;
          u1 = (if negative then minus_u_scaled_ns u else u);
          host = ucast (u_frac u1) + push_bit 16 (u_ns u1)
      in if negative then - host else host)"

definition u_scaled_ns_add :: "ptp_u_scaled_ns \<Rightarrow> ptp_u_scaled_ns \<Rightarrow> ptp_u_scaled_ns" where
  "u_scaled_ns_add a b =
     (let frac = u_frac a + u_frac b; ns = u_ns a + u_ns b; msb = u_msb a + u_msb b;
          msb1 = (if ns < u_ns a then msb + 1 else msb)
      in if frac < u_frac a
         then let ns1 = ns + 1 in \<lparr>u_msb = (if ns1 < 1 then msb1 + 1 else msb1), u_ns = ns1, u_frac = frac\<rparr>
         else \<lparr>u_msb = msb1, u_ns = ns, u_frac = frac\<rparr>)"

definition u_scaled_ns_sub :: "ptp_u_scaled_ns \<Rightarrow> ptp_u_scaled_ns \<Rightarrow> ptp_u_scaled_ns" where
  "u_scaled_ns_sub a b = u_scaled_ns_add a (minus_u_scaled_ns b)"

definition u_scaled_ns_to_u64 :: "ptp_u_scaled_ns \<Rightarrow> u64" where
  "u_scaled_ns_to_u64 u = (if u_frac u \<ge> 32768 then u_ns u + 1 else u_ns u)"

definition u_scaled_ns_cmp :: "ptp_u_scaled_ns \<Rightarrow> ptp_u_scaled_ns \<Rightarrow> int" where
  "u_scaled_ns_cmp a b =
     (if u_msb a < u_msb b then -1 else if u_msb a > u_msb b then 1
      else if u_ns a < u_ns b then -1 else if u_ns a > u_ns b then 1
      else if u_frac a < u_frac b then -1 else if u_frac a > u_frac b then 1 else 0)"

definition scaled_ns_add :: "ptp_scaled_ns \<Rightarrow> ptp_scaled_ns \<Rightarrow> ptp_scaled_ns" where
  "scaled_ns_add a b =
     (let msb = s_msb a + s_msb b; frac = s_frac a + s_frac b; ns = s_ns a + s_ns b
      in \<lparr>s_msb = msb, s_ns = (if frac < s_frac a then ns + 1 else ns), s_frac = frac\<rparr>)"

text \<open>\<open>CFG_GPTP_MIN_LOG_INTERVAL\<close> is -5 and \<open>CFG_GPTP_MAX_LOG_INTERVAL\<close> is 22; the argument is a signed char.\<close>

definition log_to_ns :: "u8 \<Rightarrow> u64" where
  "log_to_ns log_val =
     (let l = (if sint log_val > 22 then 22 else if sint log_val < -5 then -5 else sint log_val)
      in if l < 0 then NSECS_PER_SEC div push_bit (nat (- l)) 1 else NSECS_PER_SEC * push_bit (nat l) 1)"

definition log_to_ms :: "u8 \<Rightarrow> u32" where
  "log_to_ms log_val = ucast (log_to_ns log_val div 1000000)"

subsection \<open>Values\<close>

definition u_val :: "ptp_u_scaled_ns \<Rightarrow> nat" where
  "u_val u = unat (u_msb u) * 2 ^ 80 + unat (u_ns u) * 2 ^ 16 + unat (u_frac u)"

text \<open>The signed reading: two's complement over 96 bits.\<close>

definition s_val :: "ptp_scaled_ns \<Rightarrow> int" where
  "s_val s = (let v = int (u_val (scaled_ns_to_u_scaled_ns s)) in if v < 2 ^ 95 then v else v - 2 ^ 96)"

definition ext_val :: "ptp_extended_timestamp \<Rightarrow> nat" where
  "ext_val e = ((unat (ext_seconds_msb e) * 2 ^ 32 + unat (ext_seconds_lsb e)) * 1000000000 + unat (ext_nanoseconds e)) * 2 ^ 16 + unat (ext_frac e)"

lemma unat_u64_less: "unat (x :: u64) < 18446744073709551616"
  using unsigned_less [of x, where ?'a = nat] by simp

lemma u_val_less: "u_val u < 2 ^ 96"
  using unat_u16_less [of "u_msb u"] unat_u64_less [of "u_ns u"] unat_u16_less [of "u_frac u"] by (simp add: u_val_def)

lemma add_carry: "unat (x + y) + (if x + y < x then 2 ^ LENGTH('a) else 0) = unat x + unat (y :: 'a::len word)"
proof -
  define M :: nat where "M = 2 ^ LENGTH('a)"
  have m: "unat (x + y) = (unat x + unat y) mod M" by (simp add: unat_word_ariths M_def)
  have b: "unat x < M" "unat y < M" using unsigned_less [of x, where ?'a = nat] unsigned_less [of y, where ?'a = nat] by (simp_all add: M_def)
  have lt: "x + y < x \<longleftrightarrow> (unat x + unat y) mod M < unat x" unfolding word_less_nat_alt m by (rule refl)
  have md: "(unat x + unat y) mod M = (if unat x + unat y < M then unat x + unat y else unat x + unat y - M)" using b by (simp add: mod_if)
  show ?thesis unfolding m lt md M_def [symmetric] using b by auto
qed

lemma incr_carry: "unat (x + 1) + (if x + 1 < 1 then 2 ^ LENGTH('a) else 0) = unat (x :: 'a::len word) + 1"
proof -
  have "x + 1 < 1 \<longleftrightarrow> x + 1 < x"
  proof (cases "x + 1 = 0")
    case True
    then have "x \<noteq> 0" by auto
    then show ?thesis using True by (simp add: word_neq_0_conv)
  next
    case False
    then show ?thesis using unatSuc [of x] False by (simp add: word_less_nat_alt add.commute)
  qed
  then show ?thesis using add_carry [of x 1] by simp
qed

lemma carries:
  "unat (x + y) + (if x + y < x then 65536 else 0) = unat x + unat (y :: u16)"
  "unat (p + q) + (if p + q < p then 18446744073709551616 else 0) = unat p + unat (q :: u64)"
  "unat (p + 1) + (if p + 1 < 1 then 18446744073709551616 else 0) = unat p + 1"
  "unat (x + 1) + (if x + 1 < 1 then 65536 else 0) = unat x + 1"
proof -
  show "unat (x + y) + (if x + y < x then 65536 else 0) = unat x + unat y" using add_carry [of x y] by (cases "x + y < x") simp_all
  show "unat (p + q) + (if p + q < p then 18446744073709551616 else 0) = unat p + unat q" using add_carry [of p q] by (cases "p + q < p") simp_all
  show "unat (p + 1) + (if p + 1 < 1 then 18446744073709551616 else 0) = unat p + 1" using incr_carry [of p] by (cases "p + 1 < 1") simp_all
  show "unat (x + 1) + (if x + 1 < 1 then 65536 else 0) = unat x + 1" using incr_carry [of x] by (cases "x + 1 < 1") simp_all
qed

lemma mod_glue: "(r :: nat) < 2 ^ 80 \<Longrightarrow> (t mod 2 ^ 16) * 2 ^ 80 + r = (t * 2 ^ 80 + r) mod 2 ^ 96"
proof -
  assume r: "r < 2 ^ 80"
  have e: "t * 2 ^ 80 + r = (t div 2 ^ 16) * 2 ^ 96 + ((t mod 2 ^ 16) * 2 ^ 80 + r)"
  proof -
    have "(t div 2 ^ 16) * 2 ^ 96 + (t mod 2 ^ 16) * 2 ^ 80 = ((t div 2 ^ 16) * 2 ^ 16 + t mod 2 ^ 16) * 2 ^ 80"
      by (simp only: distrib_right mult.assoc power_add [symmetric]) simp
    also have "\<dots> = t * 2 ^ 80" by (simp only: div_mult_mod_eq)
    finally show ?thesis by (simp only: add.assoc)
  qed
  have "t mod 2 ^ 16 < 2 ^ 16" by simp
  then have "(t mod 2 ^ 16) * 2 ^ 80 + r < 2 ^ 96" using r by simp
  then show ?thesis unfolding e by simp
qed

lemma low_less: "unat (n :: u64) * 2 ^ 16 + unat (f :: u16) < 2 ^ 80"
  using unat_u64_less [of n] unat_u16_less [of f] by simp

lemma unat_add_u16: "unat (x + y :: u16) = (unat x + unat y) mod 65536"
  by (simp add: unat_word_ariths)

lemma u_val_glue:
  "unat m = t mod 65536 \<Longrightarrow> u_val \<lparr>u_msb = m, u_ns = n, u_frac = f\<rparr> = (t * 2 ^ 80 + (unat n * 2 ^ 16 + unat f)) mod 2 ^ 96"
  using mod_glue [OF low_less [of n f], of t] by (simp add: u_val_def)

lemma unat_bump: "unat (if b then m + 1 else m :: u16) = (unat m + (if b then 1 else 0)) mod 65536"
  using unat_u16_less [of m] by (simp add: unat_add_u16)

lemma u_val_add: "u_val (u_scaled_ns_add a b) = (u_val a + u_val b) mod 2 ^ 96"
proof -
  define n where "n = u_ns a + u_ns b"
  define c1 :: nat where "c1 = (if n < u_ns a then 1 else 0)"
  define cf where "cf \<longleftrightarrow> u_frac a + u_frac b < u_frac a"
  define n' where "n' = (if cf then n + 1 else n)"
  define c2 :: nat where "c2 = (if cf \<and> n' < 1 then 1 else 0)"
  define m where "m = (if n < u_ns a then u_msb a + u_msb b + 1 else u_msb a + u_msb b)"
  define m' where "m' = (if cf \<and> n' < 1 then m + 1 else m)"
  have r: "u_scaled_ns_add a b = \<lparr>u_msb = m', u_ns = n', u_frac = u_frac a + u_frac b\<rparr>"
    by (simp add: u_scaled_ns_add_def Let_def n_def cf_def n'_def m_def m'_def)
  let ?t = "unat (u_msb a) + unat (u_msb b) + c1 + c2"
  have "unat m' = ?t mod 65536"
    unfolding m'_def m_def c1_def c2_def unat_bump unat_add_u16 by (simp add: mod_simps)
  note v = u_val_glue [OF this, of n' "u_frac a + u_frac b"]
  have "unat (u_frac a + u_frac b) + (if cf then 65536 else 0) = unat (u_frac a) + unat (u_frac b)"
    using carries(1) [of "u_frac a" "u_frac b"] by (simp only: cf_def)
  moreover have "unat n + c1 * 18446744073709551616 = unat (u_ns a) + unat (u_ns b)"
    using carries(2) [of "u_ns a" "u_ns b"] unfolding n_def [symmetric] c1_def by (cases "n < u_ns a") simp_all
  moreover have "unat n' + c2 * 18446744073709551616 = unat n + (if cf then 1 else 0)"
    using carries(3) [of n] unfolding n'_def c2_def by (cases cf; cases "n + 1 < 1") simp_all
  ultimately have "?t * 2 ^ 80 + (unat n' * 2 ^ 16 + unat (u_frac a + u_frac b)) = u_val a + u_val b"
    unfolding u_val_def by (cases cf) simp_all
  then show ?thesis unfolding r v by simp
qed

lemma unat_not: "unat (NOT x :: 'a::len word) + unat x = 2 ^ LENGTH('a) - 1"
proof -
  have e: "x + NOT x = - 1" by (simp add: not_eq_complement)
  have "\<not> x + NOT x < x" unfolding e by (simp add: not_less)
  then have "unat (x + NOT x) = unat x + unat (NOT x)" using add_carry [of x "NOT x"] by simp
  then show ?thesis unfolding e by (simp add: unsigned_minus_1_eq_mask mask_eq_exp_minus_1)
qed

lemma u_val_minus: "(u_val a + u_val (minus_u_scaled_ns a)) mod 2 ^ 96 = 0"
proof -
  define f where "f = NOT (u_frac a) + 1"
  define n where "n = (if f < 1 then NOT (u_ns a) + 1 else NOT (u_ns a))"
  define m where "m = (if f < 1 \<and> n < 1 then NOT (u_msb a) + 1 else NOT (u_msb a))"
  have r: "minus_u_scaled_ns a = \<lparr>u_msb = m, u_ns = n, u_frac = f\<rparr>"
    by (simp add: minus_u_scaled_ns_def Let_def f_def n_def m_def)
  have nots: "unat (NOT (u_frac a)) + unat (u_frac a) = 65535" "unat (NOT (u_ns a)) + unat (u_ns a) = 18446744073709551615"
    "unat (NOT (u_msb a)) + unat (u_msb a) = 65535"
    using unat_not [of "u_frac a"] unat_not [of "u_ns a"] unat_not [of "u_msb a"] by simp_all
  let ?t = "unat (NOT (u_msb a)) + (if f < 1 \<and> n < 1 then 1 else 0)"
  have "unat m = ?t mod 65536" unfolding m_def by (rule unat_bump)
  note v = u_val_glue [OF this, of n f]
  have "unat f + (if f < 1 then 65536 else 0) = unat (NOT (u_frac a)) + 1" using carries(4) [of "NOT (u_frac a)"] by (simp only: f_def)
  moreover have "unat n + (if f < 1 \<and> n < 1 then 18446744073709551616 else 0) = unat (NOT (u_ns a)) + (if f < 1 then 1 else 0)"
    using carries(3) [of "NOT (u_ns a)"] unfolding n_def by (cases "f < 1"; cases "NOT (u_ns a) + 1 < 1") simp_all
  ultimately have "u_val a + (?t * 2 ^ 80 + (unat n * 2 ^ 16 + unat f)) = 2 ^ 96"
    using nots unfolding u_val_def by (cases "f < 1"; cases "n < 1") simp_all
  then show ?thesis unfolding r v by (metis mod_add_right_eq mod_self)
qed

lemma u_val_minus_eq: "u_val (minus_u_scaled_ns b) = (2 ^ 96 - u_val b) mod 2 ^ 96"
proof (cases "u_val b = 0")
  case True
  then show ?thesis using u_val_minus [of b] u_val_less [of "minus_u_scaled_ns b"] by simp
next
  case False
  have b: "u_val b < 2 ^ 96" "u_val (minus_u_scaled_ns b) < 2 ^ 96" by (rule u_val_less)+
  have "u_val b + u_val (minus_u_scaled_ns b) = 2 ^ 96"
  proof (rule ccontr)
    assume "\<not> ?thesis"
    then consider "u_val b + u_val (minus_u_scaled_ns b) < 2 ^ 96" | "2 ^ 96 < u_val b + u_val (minus_u_scaled_ns b)" by linarith
    then show False
    proof cases
      case 1
      then show ?thesis using u_val_minus [of b] False by simp
    next
      case 2
      then have "(u_val b + u_val (minus_u_scaled_ns b)) mod 2 ^ 96 = u_val b + u_val (minus_u_scaled_ns b) - 2 ^ 96"
        using b by (subst le_mod_geq) simp_all
      then show ?thesis using u_val_minus [of b] 2 by simp
    qed
  qed
  then show ?thesis using False b by simp
qed

lemma u_val_sub: "u_val (u_scaled_ns_sub a b) = (u_val a + 2 ^ 96 - u_val b) mod 2 ^ 96"
  using u_val_less [of b] by (simp add: u_scaled_ns_sub_def u_val_add u_val_minus_eq mod_add_right_eq)

lemma lex_nat:
  assumes "(x :: nat) < B" and "x' < B"
  shows "a * B + x < a' * B + x' \<longleftrightarrow> a < a' \<or> a = a' \<and> x < x'"
proof -
  have *: "c * B + y < c' * B + y'" if "c < c'" "y < B" for c c' y y' :: nat
  proof -
    have "c * B + B \<le> c' * B" using mult_le_mono1 [of "Suc c" c' B] that(1) by simp
    then show ?thesis using that(2) by linarith
  qed
  show ?thesis using * [of a a' x x'] * [of a' a x' x] assms by (cases a a' rule: linorder_cases) auto
qed

lemma u_val_less_iff: "u_val a < u_val b \<longleftrightarrow> u_msb a < u_msb b \<or> u_msb a = u_msb b \<and> (u_ns a < u_ns b \<or> u_ns a = u_ns b \<and> u_frac a < u_frac b)"
proof -
  have "unat (u_frac a) < 2 ^ 16" "unat (u_frac b) < 2 ^ 16" using unat_u16_less [of "u_frac a"] unat_u16_less [of "u_frac b"] by simp_all
  then show ?thesis unfolding u_val_def add.assoc lex_nat [OF low_less low_less] word_less_nat_alt word_unat_eq_iff
    by (simp only: lex_nat)
qed

lemma cmp3:
  fixes m m' :: "'a::linorder" and n n' :: "'b::linorder" and f f' :: "'c::linorder"
  shows "(if m < m' then - 1 else if m' < m then 1 else if n < n' then - 1 else if n' < n then 1 else if f < f' then - 1 else if f' < f then 1 else 0) =
    (if m < m' \<or> m = m' \<and> (n < n' \<or> n = n' \<and> f < f') then - 1 else if m' < m \<or> m' = m \<and> (n' < n \<or> n' = n \<and> f' < f) then 1 else 0 :: int)"
  by (cases m m' rule: linorder_cases; cases n n' rule: linorder_cases; cases f f' rule: linorder_cases) simp_all

lemma u_cmp_val: "u_scaled_ns_cmp a b = (if u_val a < u_val b then -1 else if u_val a > u_val b then 1 else 0)"
  unfolding u_scaled_ns_cmp_def u_val_less_iff by (rule cmp3)

subsection \<open>Timestamps\<close>

lemma unat_ucast_up: "unat (ucast (x :: u32) :: u64) = unat x" "unat (ucast (y :: u16) :: u64) = unat y"
  using unat_u32_less [of x] unat_u16_less [of y] by (simp_all add: unsigned_ucast_eq take_bit_nat_eq_self)

lemma unat_low32: "unat (x AND 0xffffffff :: u64) = unat x mod 2 ^ 32"
proof -
  have "(0xffffffff :: u64) = mask 32" by (simp add: mask_eq_exp_minus_1)
  then have "x AND 0xffffffff = take_bit 32 x" by (simp add: take_bit_eq_mask)
  then show ?thesis by (simp add: take_bit_eq_mod unat_mod)
qed

lemma unat_drop32: "unat (drop_bit 32 x :: u64) = unat x div 2 ^ 32"
  by (simp add: drop_bit_eq_div unat_div)

lemma unat_push32: "unat (push_bit 32 x :: u64) = unat x * 2 ^ 32 mod 2 ^ 64"
  by (simp add: push_bit_eq_mult unat_word_ariths)

lemma unat_ucast16: "unat (ucast (x :: u64) :: u16) = unat x mod 2 ^ 16"
  by (simp add: unsigned_ucast_eq take_bit_eq_mod)

lemma unat_ucast32: "unat (ucast (x :: u64) :: u32) = unat x mod 2 ^ 32"
  by (simp add: unsigned_ucast_eq take_bit_eq_mod)

lemma unat_times_sec: "unat x < 2 ^ 32 \<Longrightarrow> unat (x * NSECS_PER_SEC :: u64) = unat x * 1000000000"
  by (simp add: unat_word_ariths)

lemma ext_to_u_val: "u_val (ptp_extended_timestamp_to_u_scaled_ns e) = ext_val e"
proof -
  define tmp :: u64 where "tmp = ucast (ext_seconds_msb e) * NSECS_PER_SEC"
  define tmp1 :: u64 where "tmp1 = ucast (ext_nanoseconds e) + ucast (ext_seconds_lsb e) * NSECS_PER_SEC"
  define hi :: u64 where "hi = push_bit 32 (tmp AND 0xffffffff)"
  define m :: u16 where "m = (if tmp1 + hi < tmp1 then ucast (drop_bit 32 tmp) + 1 else ucast (drop_bit 32 tmp))"
  have s: "unat (ext_seconds_msb e) < 65536" "unat (ext_seconds_lsb e) < 4294967296" "unat (ext_nanoseconds e) < 4294967296"
    by (rule unat_u16_less unat_u32_less)+
  have t: "unat tmp = unat (ext_seconds_msb e) * 1000000000"
    unfolding tmp_def using s(1) by (subst unat_times_sec) (simp_all add: unat_ucast_up)
  have "unat (ucast (ext_seconds_lsb e) * NSECS_PER_SEC :: u64) = unat (ext_seconds_lsb e) * 1000000000"
    using s(2) by (subst unat_times_sec) (simp_all add: unat_ucast_up)
  then have t1: "unat tmp1 = unat (ext_nanoseconds e) + unat (ext_seconds_lsb e) * 1000000000"
    unfolding tmp1_def using s by (subst unat_word_ariths) (simp add: unat_ucast_up)
  have nc: "\<not> tmp1 < ucast (ext_nanoseconds e)" unfolding word_less_nat_alt t1 unat_ucast_up by simp
  have h: "unat hi = (unat tmp mod 2 ^ 32) * 2 ^ 32"
  proof -
    have "(unat tmp mod 2 ^ 32) * 2 ^ 32 < 2 ^ 64" by simp
    then show ?thesis unfolding hi_def unat_push32 unat_low32 by (rule mod_less)
  qed
  have r: "ptp_extended_timestamp_to_u_scaled_ns e = \<lparr>u_msb = m, u_ns = tmp1 + hi, u_frac = ext_frac e\<rparr>"
    unfolding ptp_extended_timestamp_to_u_scaled_ns_def Let_def tmp_def [symmetric] tmp1_def [symmetric] hi_def [symmetric] m_def
    by (simp only: nc if_False)
  let ?t = "unat tmp div 2 ^ 32 + (if tmp1 + hi < tmp1 then 1 else 0)"
  have small: "unat tmp div 2 ^ 32 < 65535" using t s(1) by (simp add: less_mult_imp_div_less)
  then have um: "unat (ucast (drop_bit 32 tmp) :: u16) = unat tmp div 2 ^ 32" unfolding unat_ucast16 unat_drop32 by (intro mod_less) simp
  have m: "unat m = ?t mod 65536" unfolding m_def unat_bump um by (rule refl)
  have lt: "?t < 65536" using small by simp
  have "unat (tmp1 + hi) + (if tmp1 + hi < tmp1 then 18446744073709551616 else 0) = unat tmp1 + (unat tmp mod 2 ^ 32) * 2 ^ 32"
    using carries(2) [of tmp1 hi] unfolding h .
  moreover obtain q r where q: "unat tmp div 2 ^ 32 = q" and d: "unat tmp mod 2 ^ 32 = r" "unat tmp = q * 2 ^ 32 + r"
    by (metis div_mult_mod_eq)
  ultimately have "unat m * 2 ^ 64 + unat (tmp1 + hi) = unat tmp * 2 ^ 32 + unat tmp1"
    using m lt unfolding q d by (cases "tmp1 + hi < tmp1") simp_all
  then have "unat m * 2 ^ 80 + unat (tmp1 + hi) * 2 ^ 16 = (unat tmp * 2 ^ 32 + unat tmp1) * 2 ^ 16" by simp
  then show ?thesis unfolding r u_val_def ext_val_def t t1 by (simp add: algebra_simps)
qed

lemma ext_of_u_val: "u_msb u = 0 \<Longrightarrow> ext_val (u_scaled_ns_to_ptp_extended_timestamp u) = u_val u"
proof -
  assume z: "u_msb u = 0"
  let ?n = "unat (u_ns u)"
  have n: "?n < 18446744073709551616" by (rule unat_u64_less)
  let ?s = "u_ns u div NSECS_PER_SEC"
  have us: "unat ?s = ?n div 1000000000" by (simp add: unat_div)
  then have sb: "unat ?s < 18446744074" using n by (simp add: less_mult_imp_div_less)
  have p: "unat (?s * NSECS_PER_SEC) = ?n div 1000000000 * 1000000000"
  proof -
    have "?n div 1000000000 * 1000000000 < 2 ^ 64" using n div_times_less_eq_dividend [of ?n 1000000000] by simp
    then show ?thesis by (simp add: unat_word_ariths us)
  qed
  then have "unat (u_ns u - ?s * NSECS_PER_SEC) = ?n mod 1000000000"
    by (subst unat_sub) (simp_all add: word_le_nat_alt minus_div_mult_eq_mod)
  moreover have "?n mod 1000000000 mod 2 ^ 32 = ?n mod 1000000000" by (intro mod_less) (rule less_trans [of _ 1000000000], simp_all)
  ultimately have un: "unat (ucast (u_ns u - ?s * NSECS_PER_SEC) :: u32) = ?n mod 1000000000" unfolding unat_ucast32 by simp
  have hi: "unat (ucast (drop_bit 32 ?s) :: u16) = unat ?s div 2 ^ 32"
    unfolding unat_ucast16 unat_drop32 using sb by (intro mod_less) (simp add: less_mult_imp_div_less)
  have lo: "unat (ucast (?s AND 0xffffffff) :: u32) = unat ?s mod 2 ^ 32" unfolding unat_ucast32 unat_low32 by simp
  have "unat ?s div 2 ^ 32 * 2 ^ 32 + unat ?s mod 2 ^ 32 = unat ?s" by (rule div_mult_mod_eq)
  then have "ext_val (u_scaled_ns_to_ptp_extended_timestamp u) = (unat ?s * 1000000000 + ?n mod 1000000000) * 2 ^ 16 + unat (u_frac u)"
    unfolding u_scaled_ns_to_ptp_extended_timestamp_def Let_def ext_val_def z by (simp add: hi lo un)
  also have "unat ?s * 1000000000 + ?n mod 1000000000 = ?n" unfolding us by (rule div_mult_mod_eq)
  finally show ?thesis by (simp add: u_val_def z)
qed

subsection \<open>Fields of a PDU\<close>

lemma from_be32_be32: "from_be32 (be32 v @ rest) = v"
proof -
  have "be32 v @ rest = [be16 (ucast (drop_bit 16 v)) ! 0, be16 (ucast (drop_bit 16 v)) ! Suc 0, be16 (ucast v) ! 0, be16 (ucast v) ! Suc 0] @ rest"
    by (simp add: be32_def be16_def)
  then have "from_be32 (be32 v @ rest) = push_bit 16 (ucast (ucast (drop_bit 16 v) :: u16)) OR ucast (ucast v :: u16)"
    unfolding from_be32_def by (simp add: numeral_3_eq_3 numeral_2_eq_2)
  also have "\<dots> = v" by (rule bit_word_eqI) (auto simp: bit_simps dest: bit_imp_le_length)
  finally show ?thesis .
qed

lemma length_be32: "length (be32 v) = 4"
  by (simp add: be32_def)

lemma ntoh_hton_timestamp: "ntoh_ptp_timestamp (be16 a @ be32 b @ be32 c) = \<lparr>ts_seconds_msb = a, ts_seconds_lsb = b, ts_nanoseconds = c\<rparr>"
proof -
  have "(be16 a @ be32 b @ be32 c) ! 0 = be16 a ! 0" "(be16 a @ be32 b @ be32 c) ! 1 = be16 a ! Suc 0" by (simp_all add: nth_append)
  moreover have "drop 2 (be16 a @ be32 b @ be32 c) = be32 b @ be32 c" by simp
  moreover have "drop 6 (be16 a @ be32 b @ be32 c) = be32 c @ []" using length_be32 [of b] by simp
  ultimately show ?thesis unfolding ntoh_ptp_timestamp_def by (simp only: from_be32_be32 from_be16_be16)
qed

lemma seconds_join:
  assumes "unat (x :: u64) < 2 ^ 48"
  shows "ucast (ucast (x AND 0xffffffff) :: u32) + push_bit 32 (ucast (ucast (drop_bit 32 x) :: u16)) = x"
proof -
  have lo: "unat (ucast (ucast (x AND 0xffffffff) :: u32) :: u64) = unat x mod 2 ^ 32" unfolding unat_ucast_up unat_ucast32 unat_low32 by simp
  have "unat x div 2 ^ 32 < 65536" using assms by (simp add: less_mult_imp_div_less)
  then have "unat (ucast (ucast (drop_bit 32 x) :: u16) :: u64) = unat x div 2 ^ 32" unfolding unat_ucast_up unat_ucast16 unat_drop32 by simp
  then have hi: "unat (push_bit 32 (ucast (ucast (drop_bit 32 x) :: u16)) :: u64) = unat x div 2 ^ 32 * 2 ^ 32"
    unfolding unat_push32 using \<open>unat x div 2 ^ 32 < 65536\<close> by simp
  have "unat x mod 2 ^ 32 + unat x div 2 ^ 32 * 2 ^ 32 = unat x" by (rule mod_div_mult_eq)
  then have "unat (ucast (ucast (x AND 0xffffffff) :: u32) + push_bit 32 (ucast (ucast (drop_bit 32 x) :: u16)) :: u64) = unat x"
    using unat_u64_less [of x] unfolding unat_word_ariths(1) lo hi by simp
  then show ?thesis by (simp add: word_unat_eq_iff)
qed

lemma pdu_timestamp_roundtrip: "pdu_ptp_timestamp_to_u64 (u64_to_pdu_ptp_timestamp n) = n"
proof -
  let ?s = "n div NSECS_PER_SEC"
  have us: "unat ?s = unat n div 1000000000" by (simp add: unat_div)
  have "unat ?s < 2 ^ 48" using us unat_u64_less [of n] by (simp add: less_mult_imp_div_less)
  note j = seconds_join [OF this]
  have "unat (n mod NSECS_PER_SEC) = unat n mod 1000000000" by (simp add: unat_mod)
  then have "unat (ucast (ucast (n mod NSECS_PER_SEC) :: u32) :: u64) = unat n mod 1000000000"
    unfolding unat_ucast_up unat_ucast32 using mod_less_divisor [of 1000000000 "unat n"] by simp
  then have "ucast (ucast (n mod NSECS_PER_SEC) :: u32) = n mod NSECS_PER_SEC" by (simp add: word_unat_eq_iff unat_mod)
  moreover have "n mod NSECS_PER_SEC + n div NSECS_PER_SEC * NSECS_PER_SEC = n" by (simp add: mod_div_mult_eq)
  ultimately show ?thesis unfolding pdu_ptp_timestamp_to_u64_def u64_to_pdu_ptp_timestamp_def Let_def ntoh_hton_timestamp
    by (simp only: ptp_timestamp.select_convs j)
qed

lemma u_val_inj: "u_val a = u_val b \<Longrightarrow> a = b"
  using u_val_less_iff [of a b] u_val_less_iff [of b a] by (auto intro!: ptp_u_scaled_ns.equality)

lemma minus_minus_u: "minus_u_scaled_ns (minus_u_scaled_ns u) = u"
proof (rule u_val_inj)
  show "u_val (minus_u_scaled_ns (minus_u_scaled_ns u)) = u_val u"
    using u_val_less [of u] unfolding u_val_minus_eq by (cases "u_val u = 0") simp_all
qed

lemma word_bit_nat: "bit (w :: 'a::len word) n \<longleftrightarrow> odd (unat w div 2 ^ n)"
proof -
  have "bit (unat w) n \<longleftrightarrow> bit w n" by (simp add: bit_unsigned_iff)
  then show ?thesis unfolding bit_iff_odd [of "unat w"] by simp
qed

lemma msb_sign: "u_msb u AND 0x8000 \<noteq> 0 \<longleftrightarrow> 2 ^ 95 \<le> u_val u"
proof -
  have "u_msb u AND 0x8000 \<noteq> 0 \<longleftrightarrow> bit (u_msb u) 15"
  proof -
    have "(0x8000 :: u16) = push_bit 15 1" by (simp add: push_bit_eq_mult)
    then show ?thesis using bit_test_iff [of "u_msb u" 15] by (simp add: bit_test_def)
  qed
  also have "\<dots> \<longleftrightarrow> 32768 \<le> unat (u_msb u)"
  proof -
    have "bit (u_msb u) 15 \<longleftrightarrow> odd (unat (u_msb u) div 2 ^ 15)" by (rule word_bit_nat)
    moreover have "unat (u_msb u) div 2 ^ 15 < 2" using unat_u16_less [of "u_msb u"] by (simp add: less_mult_imp_div_less)
    ultimately show ?thesis by (cases "unat (u_msb u) < 32768") auto
  qed
  also have "\<dots> \<longleftrightarrow> 2 ^ 95 \<le> u_val u"
    using low_less [of "u_ns u" "u_frac u"] by (auto simp: u_val_def)
  finally show ?thesis .
qed

text \<open>The magnitude of a correction field as a 96-bit number.\<close>

lemma correction_magnitude:
  assumes "unat (h :: u64) < 2 ^ 63"
  shows "u_val \<lparr>u_msb = 0, u_ns = signed_drop_bit 16 h AND 0xffffffffffffffff, u_frac = ucast (h AND 0xffff)\<rparr> = unat h"
    "ucast (ucast (h AND 0xffff) :: u16) + push_bit 16 (signed_drop_bit 16 h AND 0xffffffffffffffff) = h"
proof -
  have nb: "\<not> bit h 63" using assms by (simp add: word_bit_nat)
  have all: "(0xffffffffffffffff :: u64) = mask 64" "(0xffff :: u64) = mask 16" by (simp_all add: mask_eq_exp_minus_1)
  have d: "signed_drop_bit 16 h AND 0xffffffffffffffff = drop_bit 16 h"
    unfolding all using nb by (intro bit_word_eqI) (auto simp: bit_simps min_def not_le dest: bit_imp_le_length)
  have "unat (drop_bit 16 h) = unat h div 2 ^ 16" by (simp add: drop_bit_eq_div unat_div)
  moreover have f: "unat (ucast (h AND 0xffff) :: u16) = unat h mod 2 ^ 16"
  proof -
    have "h AND 0xffff = take_bit 16 h" unfolding all by (simp add: take_bit_eq_mask)
    then show ?thesis by (simp add: unat_ucast16 take_bit_eq_mod unat_mod)
  qed
  ultimately show "u_val \<lparr>u_msb = 0, u_ns = signed_drop_bit 16 h AND 0xffffffffffffffff, u_frac = ucast (h AND 0xffff)\<rparr> = unat h"
    unfolding d u_val_def by simp
  have u: "unat (ucast (ucast (h AND 0xffff) :: u16) :: u64) = unat h mod 2 ^ 16" unfolding unat_ucast_up f ..
  have "unat (push_bit 16 (drop_bit 16 h)) = unat h div 2 ^ 16 * 2 ^ 16"
    using unat_u64_less [of h] div_times_less_eq_dividend [of "unat h" "2 ^ 16"] by (simp add: push_bit_eq_mult unat_word_ariths drop_bit_eq_div unat_div)
  then have "unat (ucast (ucast (h AND 0xffff) :: u16) + push_bit 16 (drop_bit 16 h)) = unat h"
    unfolding unat_word_ariths(1) u using unat_u64_less [of h] by (simp add: mod_div_mult_eq)
  then show "ucast (ucast (h AND 0xffff) :: u16) + push_bit 16 (signed_drop_bit 16 h AND 0xffffffffffffffff) = h"
    unfolding d by (simp add: word_unat_eq_iff)
qed

lemma sint_sign: "sint (c :: u64) < 0 \<longleftrightarrow> 2 ^ 63 \<le> unat c"
proof -
  have "sint c < 0 \<longleftrightarrow> bit c 63" by (simp add: sint_uint bit_unsigned_iff)
  moreover have "unat c div 2 ^ 63 < 2" using unat_u64_less [of c] by (simp add: less_mult_imp_div_less)
  then have "odd (unat c div 2 ^ 63) \<longleftrightarrow> 2 ^ 63 \<le> unat c" by (cases "unat c < 2 ^ 63") auto
  ultimately show ?thesis unfolding word_bit_nat by simp
qed

lemma shift_mod: "k < 2 ^ 64 \<Longrightarrow> (int k + 2 ^ 63) mod 2 ^ 64 = (if k < 2 ^ 63 then int k + 2 ^ 63 else int k - 2 ^ 63)"
proof (cases "k < 2 ^ 63")
  case True
  then show ?thesis by simp
next
  case False
  assume k: "k < 2 ^ 64"
  have "(int k + 2 ^ 63) mod 2 ^ 64 = (int k + 2 ^ 63 - 2 ^ 64) mod 2 ^ 64" using False k by (subst mod_pos_geq) simp_all
  also have "\<dots> = int k + 2 ^ 63 - 2 ^ 64" using False k by (intro mod_pos_pos_trivial) simp_all
  finally show ?thesis using False by simp
qed

lemma sint_val: "sint (c :: u64) = (if unat c < 2 ^ 63 then int (unat c) else int (unat c) - 2 ^ 64)"
proof -
  have "sint c = (int (unat c) + 2 ^ 63) mod 2 ^ 64 - 2 ^ 63" by (simp add: sint_uint signed_take_bit_eq_take_bit_shift take_bit_eq_mod)
  also have "\<dots> = (if unat c < 2 ^ 63 then int (unat c) + 2 ^ 63 else int (unat c) - 2 ^ 63) - 2 ^ 63"
    using unat_u64_less [of c] by (subst shift_mod) simp_all
  finally show ?thesis by simp
qed

lemma neg_magnitude:
  assumes "2 ^ 63 < unat (c :: u64)"
  shows "unat (- c) = 2 ^ 64 - unat c" "unat (- c) < 2 ^ 63"
proof -
  have "0 < c" using assms by (auto simp: word_less_nat_alt)
  then have "18446744073709551616 = unat c + unat (- c)" using carries(2) [of c "- c"] by simp
  then show "unat (- c) = 2 ^ 64 - unat c" "unat (- c) < 2 ^ 63" using assms by simp_all
qed

lemma correction_value:
  assumes "c \<noteq> 0x8000000000000000"
  shows "s_val (pdu_correction_field_to_scaled_ns c) = sint c" "scaled_ns_to_pdu_correction_field (pdu_correction_field_to_scaled_ns c) = c"
proof -
  define h where "h = (if sint c < 0 then - c else c)"
  define u where "u = \<lparr>u_msb = 0, u_ns = signed_drop_bit 16 h AND 0xffffffffffffffff, u_frac = ucast (h AND 0xffff)\<rparr>"
  have ne: "unat c \<noteq> 2 ^ 63" using assms by (auto simp: word_unat_eq_iff)
  have h: "unat h < 2 ^ 63" "unat h = (if sint c < 0 then 2 ^ 64 - unat c else unat c)"
    using ne neg_magnitude [of c] unfolding h_def sint_sign by (cases "unat c < 2 ^ 63"; simp)+
  note m = correction_magnitude [OF h(1), folded u_def]
  have mh: "ucast (u_frac u) + push_bit 16 (u_ns u) = h" unfolding u_def ptp_u_scaled_ns.select_convs by (rule correction_magnitude(2) [OF h(1)])
  let ?u = "if sint c < 0 then minus_u_scaled_ns u else u"
  have e: "pdu_correction_field_to_scaled_ns c = u_scaled_ns_to_scaled_ns ?u"
    by (simp add: pdu_correction_field_to_scaled_ns_def Let_def h_def u_def)
  have cast: "scaled_ns_to_u_scaled_ns (u_scaled_ns_to_scaled_ns x) = x" for x
    by (simp add: scaled_ns_to_u_scaled_ns_def u_scaled_ns_to_scaled_ns_def)
  have mv: "u_val (minus_u_scaled_ns u) = 2 ^ 96 - unat h" if "sint c < 0"
    using that h m(1) u_val_minus_eq [of u] unat_u64_less [of c] by simp
  have v: "u_val ?u = (if sint c < 0 then 2 ^ 96 - unat h else unat h)" using mv m(1) by simp
  have sg: "2 ^ 95 \<le> u_val ?u \<longleftrightarrow> sint c < 0" using v h(1) by (cases "sint c < 0") simp_all
  show "s_val (pdu_correction_field_to_scaled_ns c) = sint c"
  proof (cases "sint c < 0")
    case True
    then have "unat h = 2 ^ 64 - unat c" "2 ^ 63 \<le> unat c" using h(2) sint_sign by simp_all
    moreover have "int (u_val ?u) = 2 ^ 96 - int (unat h)" using True v h(1) by (simp add: of_nat_diff)
    ultimately show ?thesis using True unat_u64_less [of c] sint_val [of c] h(1) unfolding e s_val_def cast Let_def
      by (simp add: of_nat_diff, use unsigned_greater_eq [of c, where ?'a = int] in linarith)
  next
    case False
    then have "u_val ?u = unat c" "unat c < 2 ^ 63" "sint c = int (unat c)" using v h sint_val [of c] sint_sign [of c] by simp_all
    moreover from this have "u_val ?u < 2 ^ 95" by simp
    then have "int (u_val ?u) < 2 ^ 95" by (metis of_nat_less_iff of_nat_numeral of_nat_power)
    ultimately show ?thesis unfolding e s_val_def cast Let_def by (simp only: if_True)
  qed
  have neg: "s_msb (u_scaled_ns_to_scaled_ns ?u) AND 0x8000 \<noteq> 0 \<longleftrightarrow> sint c < 0"
    using msb_sign [of ?u] sg by (simp add: u_scaled_ns_to_scaled_ns_def)
  show "scaled_ns_to_pdu_correction_field (pdu_correction_field_to_scaled_ns c) = c"
  proof (cases "sint c < 0")
    case True
    then have "scaled_ns_to_pdu_correction_field (pdu_correction_field_to_scaled_ns c) = - (ucast (u_frac u) + push_bit 16 (u_ns u))"
      using neg unfolding e scaled_ns_to_pdu_correction_field_def cast Let_def by (simp add: minus_minus_u)
    then show ?thesis unfolding mh using True by (simp add: h_def)
  next
    case False
    then have "scaled_ns_to_pdu_correction_field (pdu_correction_field_to_scaled_ns c) = ucast (u_frac u) + push_bit 16 (u_ns u)"
      using neg unfolding e scaled_ns_to_pdu_correction_field_def cast Let_def by simp
    then show ?thesis unfolding mh using False by (simp add: h_def)
  qed
qed

subsection \<open>Properties\<close>

text \<open>
  C26: The three-field arithmetic is arithmetic on 96-bit numbers: \<open>u_scaled_ns_add\<close> and \<open>u_scaled_ns_sub\<close>
  add and subtract modulo 2^96, carries across the fields included, and \<open>u_scaled_ns_cmp\<close> compares the numbers.
\<close>

theorem u_scaled_ns_is_96_bit:
  "u_val (u_scaled_ns_add a b) = (u_val a + u_val b) mod 2 ^ 96 \<and>
   u_val (u_scaled_ns_sub a b) = (u_val a + 2 ^ 96 - u_val b) mod 2 ^ 96 \<and>
   u_scaled_ns_cmp a b = (if u_val a < u_val b then -1 else if u_val a > u_val b then 1 else 0)"
  using u_val_add u_val_sub u_cmp_val by simp

text \<open>
  C37: Timestamps convert exactly: every extended timestamp gives the number of 2^-16 ns it denotes, without
  overflow; a time below 2^64 ns converts to a timestamp that denotes it; and the timestamp of a PDU reads
  back as the 64-bit time it was written from.
\<close>

theorem ptp_timestamps_exact:
  "u_val (ptp_extended_timestamp_to_u_scaled_ns e) = ext_val e \<and>
   ext_val (u64_to_ptp_extended_timestamp n) = unat n * 2 ^ 16 \<and>
   pdu_ptp_timestamp_to_u64 (u64_to_pdu_ptp_timestamp n) = n"
  using ext_to_u_val [of e] ext_of_u_val [of "u64_to_u_scaled_ns n"] pdu_timestamp_roundtrip [of n]
  by (simp add: u64_to_ptp_extended_timestamp_def u64_to_u_scaled_ns_def u_val_def)

text \<open>
  The correction field of a PDU, a signed number of 2^-16 ns, becomes the same number in the 96-bit
  format, and is written back unchanged; the one exception is the most negative value, whose negation overflows.
\<close>

theorem ptp_correction_roundtrip:
  assumes "c \<noteq> 0x8000000000000000"
  shows "s_val (pdu_correction_field_to_scaled_ns c) = sint c \<and> scaled_ns_to_pdu_correction_field (pdu_correction_field_to_scaled_ns c) = c"
  using correction_value [OF assms] by simp

theorem ptp_correction_roundtrip_witness: "s_val (pdu_correction_field_to_scaled_ns (- 98304)) = - 98304"
  using ptp_correction_roundtrip [of "- 98304"] by simp

subsection \<open>Limits\<close>

text \<open>\<open>scaled_ns_add\<close> drops the carry out of the nanoseconds: -1 ns + 1 ns gives -2^64 ns.\<close>

lemma scaled_ns_add_drops_carry:
  "s_val \<lparr>s_msb = 0xFFFF, s_ns = 0xFFFFFFFFFFFFFFFF, s_frac = 0\<rparr> = - (2 ^ 16)" "s_val \<lparr>s_msb = 0, s_ns = 1, s_frac = 0\<rparr> = 2 ^ 16"
  "s_val (scaled_ns_add \<lparr>s_msb = 0xFFFF, s_ns = 0xFFFFFFFFFFFFFFFF, s_frac = 0\<rparr> \<lparr>s_msb = 0, s_ns = 1, s_frac = 0\<rparr>) = - (2 ^ 80)"
  by (simp_all add: s_val_def scaled_ns_add_def u_val_def scaled_ns_to_u_scaled_ns_def Let_def)

text \<open>Logarithmic intervals are clamped, so neither the shift nor the product can overflow.\<close>

lemma unat_exp: "k < 64 \<Longrightarrow> unat ((2 :: u64) ^ k) = 2 ^ k"
proof -
  assume k: "k < 64"
  have "(2 :: nat) ^ k < 2 ^ 64" using k by (intro power_strict_increasing) simp_all
  moreover have "unat (of_nat (2 ^ k) :: u64) = take_bit 64 (2 ^ k)" by (simp only: unsigned_of_nat len_num0 len_num1 len_bit0 len_bit1) simp
  ultimately show ?thesis using k by (simp add: take_bit_nat_eq_self)
qed

lemma log_to_ns_value:
  "unat (log_to_ns l) = (if sint l \<ge> 22 then 1000000000 * 2 ^ 22 else if sint l \<ge> 0 then 1000000000 * 2 ^ nat (sint l)
     else if sint l > -5 then 1000000000 div 2 ^ nat (- sint l) else 31250000)"
proof -
  have pos: "unat (NSECS_PER_SEC * push_bit k 1 :: u64) = 1000000000 * 2 ^ k" if "k \<le> 22" for k
  proof -
    have "(2 :: nat) ^ k \<le> 2 ^ 22" using that by (intro power_increasing) simp_all
    moreover have "unat ((2 :: u64) ^ k) = 2 ^ k" using that by (simp add: unat_exp)
    ultimately show ?thesis by (simp add: push_bit_eq_mult unat_word_ariths)
  qed
  have neg: "unat (NSECS_PER_SEC div push_bit k 1 :: u64) = 1000000000 div 2 ^ k" if "k \<le> 5" for k
    using that by (simp add: push_bit_eq_mult unat_div unat_exp)
  consider "sint l > 22" | "0 \<le> sint l" "sint l \<le> 22" | "-5 \<le> sint l" "sint l < 0" | "sint l < -5" by linarith
  then show ?thesis
    by cases (use pos [of 22] pos [of "nat (sint l)"] neg [of 5] neg [of "nat (- sint l)"] in \<open>auto simp: log_to_ns_def Let_def\<close>)
qed

end
