(* ===== verification/GPTP_BMCA.thy ===== *)
theory GPTP_BMCA
  imports Ptp_Time
begin

unbundle bit_operations_syntax

section \<open>gPTP best master selection (\<open>src/gptp/bmca.c\<close>, \<open>site_fsm.c\<close>, \<open>port_fsm.c\<close>)\<close>

text \<open>
  Priority vectors and their comparison, the roles of the ports, and the announce state machines:
  reception, information, transmission and port state selection, which call each other. A vector is
  a record of host values; comparisons work, as in the code, on its bytes in network order. The
  state machines take fuel; \<open>None\<close> means that it was not enough. What an instance sends (Announce
  messages, indications, messages to the applications, the role given to the clock servo) is logged
  in \<open>outs\<close>. The readings of the clocks are fields of the instance.
\<close>

subsection \<open>Priority vectors\<close>

type_synonym clock_id = "u8 list"

record ptp_system_identity =
  priority_1 :: u8
  clock_class :: u8
  clock_accuracy :: u8
  offset_scaled_log_variance :: u16
  priority_2 :: u8
  clock_identity :: clock_id

record ptp_port_identity =
  pid_clock :: clock_id
  pid_port :: u16

record ptp_priority_vector =
  root_system_identity :: ptp_system_identity
  steps_removed :: u16
  source_port_identity :: ptp_port_identity
  port_number :: u16

definition system_identity_bytes :: "ptp_system_identity \<Rightarrow> u8 list" where
  "system_identity_bytes s =
     [priority_1 s, clock_class s, clock_accuracy s] @ be16 (offset_scaled_log_variance s) @ [priority_2 s] @ clock_identity s"

definition port_identity_bytes :: "ptp_port_identity \<Rightarrow> u8 list" where
  "port_identity_bytes p = pid_clock p @ be16 (pid_port p)"

definition priority_vector_bytes :: "ptp_priority_vector \<Rightarrow> u8 list" where
  "priority_vector_bytes v = system_identity_bytes (root_system_identity v) @ be16 (steps_removed v) @
     port_identity_bytes (source_port_identity v) @ be16 (port_number v)"

text \<open>The sign of \<open>os_memcmp\<close>.\<close>

fun memcmp :: "u8 list \<Rightarrow> u8 list \<Rightarrow> int" where
  "memcmp (x # xs) (y # ys) = (if x < y then -1 else if x > y then 1 else memcmp xs ys)"
| "memcmp _ _ = 0"

datatype bmca_vector_cmp = BMCA_VECTOR_OTHER | BMCA_VECTOR_A_BETTER | BMCA_VECTOR_B_BETTER | BMCA_VECTOR_A_B_SAME

definition cmp_result :: "int \<Rightarrow> bmca_vector_cmp" where
  "cmp_result cmp = (if cmp > 0 then BMCA_VECTOR_B_BETTER else if cmp < 0 then BMCA_VECTOR_A_BETTER else BMCA_VECTOR_A_B_SAME)"

definition compare_clock_identity :: "clock_id \<Rightarrow> clock_id \<Rightarrow> int" where
  "compare_clock_identity ida idb = memcmp ida idb"

definition compare_system_identity :: "ptp_priority_vector \<Rightarrow> ptp_priority_vector \<Rightarrow> bmca_vector_cmp" where
  "compare_system_identity Pa Pb =
     cmp_result (memcmp (system_identity_bytes (root_system_identity Pa)) (system_identity_bytes (root_system_identity Pb)))"

definition compare_priority_vector :: "ptp_priority_vector \<Rightarrow> ptp_priority_vector \<Rightarrow> bmca_vector_cmp" where
  "compare_priority_vector Pa Pb = cmp_result (memcmp (priority_vector_bytes Pa) (priority_vector_bytes Pb))"

definition compare_msg_priority_vector :: "ptp_priority_vector \<Rightarrow> ptp_priority_vector \<Rightarrow> bmca_vector_cmp" where
  "compare_msg_priority_vector msgP portP =
     (if memcmp (port_identity_bytes (source_port_identity msgP)) (port_identity_bytes (source_port_identity portP)) = 0
      then BMCA_VECTOR_A_BETTER else compare_priority_vector msgP portP)"

subsection \<open>Announce messages\<close>

record ptp_announce_pdu =
  an_flags :: u16
  an_source :: ptp_port_identity
  an_sequence_id :: u16
  an_log_msg_interval :: u8
  an_current_utc_offset :: u16
  an_grandmaster :: ptp_system_identity
  an_steps_removed :: u16
  an_time_source :: u8
  an_tlv_type :: u16
  an_tlv_length :: u16
  an_path_sequence :: "clock_id list"

abbreviation MAX_PTLV_ENTRIES :: nat where "MAX_PTLV_ENTRIES \<equiv> 16"
abbreviation SIZEOF_ANNOUNCE_PDU :: nat where "SIZEOF_ANNOUNCE_PDU \<equiv> 196"
abbreviation PTP_TLV_TYPE_PATH_TRACE :: u16 where "PTP_TLV_TYPE_PATH_TRACE \<equiv> 8"
abbreviation PTP_FLAG_LEAP_61 :: u16 where "PTP_FLAG_LEAP_61 \<equiv> 1"
abbreviation PTP_FLAG_LEAP_59 :: u16 where "PTP_FLAG_LEAP_59 \<equiv> 2"
abbreviation PTP_FLAG_CURRENT_UTC_OFF_VALID :: u16 where "PTP_FLAG_CURRENT_UTC_OFF_VALID \<equiv> 4"
abbreviation PTP_FLAG_PTP_TIMESCALE :: u16 where "PTP_FLAG_PTP_TIMESCALE \<equiv> 8"
abbreviation PTP_FLAG_TIME_TRACEABLE :: u16 where "PTP_FLAG_TIME_TRACEABLE \<equiv> 16"
abbreviation PTP_FLAG_FREQUENCY_TRACEABLE :: u16 where "PTP_FLAG_FREQUENCY_TRACEABLE \<equiv> 32"

text \<open>The fields of the 196 bytes of \<open>struct ptp_announce_pdu\<close>.\<close>

definition be16_at :: "u8 list \<Rightarrow> nat \<Rightarrow> u16" where
  "be16_at b i = from_be16 (b ! i) (b ! (i + 1))"

definition announce_fields :: "u8 list \<Rightarrow> ptp_announce_pdu" where
  "announce_fields b =
     \<lparr>an_flags = be16_at b 6, an_source = \<lparr>pid_clock = take 8 (drop 20 b), pid_port = be16_at b 28\<rparr>,
      an_sequence_id = be16_at b 30, an_log_msg_interval = b ! 33, an_current_utc_offset = be16_at b 44,
      an_grandmaster = \<lparr>priority_1 = b ! 47, clock_class = b ! 48, clock_accuracy = b ! 49, offset_scaled_log_variance = be16_at b 50,
                        priority_2 = b ! 52, clock_identity = take 8 (drop 53 b)\<rparr>,
      an_steps_removed = be16_at b 61, an_time_source = b ! 63, an_tlv_type = be16_at b 64, an_tlv_length = be16_at b 66,
      an_path_sequence = map (\<lambda>i. take 8 (drop (68 + 8 * i) b)) [0..<MAX_PTLV_ENTRIES]\<rparr>"

subsection \<open>State\<close>

datatype ptp_port_role = DISABLED_PORT | MASTER_PORT | PASSIVE_PORT | SLAVE_PORT

datatype ptp_spanning_tree_info = SPANNING_TREE_RECEIVED | SPANNING_TREE_MINE | SPANNING_TREE_AGED | SPANNING_TREE_DISABLED

datatype port_announce_info_sm_state =
    INFO_DISABLED | INFO_AGED | INFO_UPDATE | INFO_CURRENT | INFO_RECEIVE | INFO_SUPERIOR_MASTER_PORT | INFO_REPEATED_MASTER_PORT
  | INFO_INFERIOR_MASTER_OR_OTHER

datatype port_announce_info_sm_event = INFO_EVENT_SYNC_TIMEOUT | INFO_EVENT_ANNOUNCE_TIMEOUT | INFO_EVENT_RUN

datatype announce_priority_info = SUPERIOR_MASTER_INFO | REPEATED_MASTER_INFO | INFERIOR_MASTER_INFO | OTHER_INFO

datatype port_state_sm_state = STATE_INIT_BRIDGE | STATE_SELECTION

datatype port_announce_rcv_sm_state = RCV_DISCARD | RCV_RECEIVE

datatype port_announce_transmit_sm_state = TRANSMIT_INIT | TRANSMIT_ANNOUNCE | TRANSMIT_PERIODIC | TRANSMIT_IDLE

datatype port_announce_transmit_sm_event = TRANSMIT_EVENT_INTERVAL | TRANSMIT_EVENT_RUN

record gptp_port =
  identity_number :: u16
  identity_clock_id :: clock_id
  port_oper :: bool
  ptp_port_enabled :: bool
  as_capable :: bool
  gm_id_static :: bool
  asymmetry :: bool
  announce_receipt_timeout :: u8
  info_is :: ptp_spanning_tree_info
  updt_info :: bool
  rcvd_msg :: bool
  new_info :: bool
  port_priority :: ptp_priority_vector
  master_priority :: ptp_priority_vector
  port_steps_removed :: u16
  message_steps_removed :: u16
  ann_leap61 :: u8
  ann_leap59 :: u8
  ann_current_utc_offset_valid :: u8
  ann_time_traceable :: u8
  ann_frequency_traceable :: u8
  ann_current_utc_offset :: u16
  ann_time_source :: u8
  announce_receipt_timeout_time_interval :: ptp_u_scaled_ns
  announceReceiptTimeoutTime :: ptp_u_scaled_ns
  messagePriority :: ptp_priority_vector
  rcvdInfo :: announce_priority_info
  info_sm_state :: port_announce_info_sm_state
  announce_rx :: "u8 list"
  rcvd_announce_ptr :: bool
  rcvd_announce_par :: bool
  rcv_sm_state :: port_announce_rcv_sm_state
  timeout_timer :: "u32 option"
  announce_slow_down :: bool
  announce_interval :: ptp_u_scaled_ns
  old_announce_interval :: ptp_u_scaled_ns
  current_log_announce_interval :: u8
  interval2 :: ptp_u_scaled_ns
  number_announce_transmissions :: u8
  transmit_sm_state :: port_announce_transmit_sm_state
  transmit_timer :: "u32 option"
  announce_tx_seqnum :: u16
  num_rx_announce :: u32
  num_rx_announce_dropped :: u32
  num_rx_announce_timeout :: u32
  num_rx_sync_timeout :: u32
  num_tx_announce :: u32

datatype gptp_out =
    AnnounceTx nat ptp_announce_pdu u16
  | GmStatus clock_id u8 "clock_id list"
  | GmIndication ptp_priority_vector bool
  | ClockAdjRole bool

record gptp_instance =
  automotive :: bool
  domain_number :: u8
  begin_flag :: bool
  instance_enable :: bool
  external_port_configuration_enabled :: bool
  numberPorts :: nat
  gport :: "nat \<Rightarrow> gptp_port"
  reselect :: u16
  selected :: u16
  selected_role :: "nat \<Rightarrow> ptp_port_role"
  this_clock :: clock_id
  gmCapable :: bool
  system_priority :: ptp_priority_vector
  gm_priority :: ptp_priority_vector
  last_gm_priority :: ptp_priority_vector
  master_steps_removed :: u16
  leap61 :: u8
  leap59 :: u8
  current_utc_offset_valid :: u8
  time_traceable :: u8
  frequency_traceable :: u8
  current_utc_offset :: u16
  time_source :: u8
  sys_leap61 :: u8
  sys_leap59 :: u8
  sys_current_utc_offset_valid :: u8
  sys_time_traceable :: u8
  sys_frequency_traceable :: u8
  sys_current_utc_offset :: u16
  sys_time_source :: u8
  gm_present :: bool
  is_grandmaster :: bool
  path_trace :: "clock_id list"
  num_ptlv :: u16
  port_state_sm_state :: port_state_sm_state
  gmChangeCount :: u32
  timeOfLastGmChangeEvent :: u32
  timeOfLastGmPhaseChangeEvent :: u32
  timeOfLastGmFreqChangeEvent :: u32
  gm_info_vector :: ptp_priority_vector
  gm_info_is_grandmaster :: bool
  cfg_gm_id :: clock_id
  clock_local_ns :: u64
  clock_monotonic_ns :: "u64 option"
  outs :: "gptp_out list"

definition upd_gport :: "nat \<Rightarrow> (gptp_port \<Rightarrow> gptp_port) \<Rightarrow> gptp_instance \<Rightarrow> gptp_instance" where
  "upd_gport i f s = s\<lparr>gport := (gport s)(i := f (gport s i))\<rparr>"

definition emit :: "gptp_out \<Rightarrow> gptp_instance \<Rightarrow> gptp_instance" where
  "emit e s = s\<lparr>outs := outs s @ [e]\<rparr>"

definition role_of :: "gptp_instance \<Rightarrow> nat \<Rightarrow> ptp_port_role" where
  "role_of s i = selected_role s (unat (identity_number (gport s i)))"

definition port_flag :: "u16 \<Rightarrow> nat \<Rightarrow> gptp_instance \<Rightarrow> bool" where
  "port_flag flags i s = bit_test flags (unat (identity_number (gport s i)))"

subsection \<open>Messages to the applications and the clock servo\<close>

text \<open>A message has room for all 16 entries of the path trace.\<close>

definition gptp_ipc_gm_status :: "gptp_instance \<Rightarrow> gptp_instance" where
  "gptp_ipc_gm_status s =
     (if unat (num_ptlv s) > MAX_PTLV_ENTRIES then s
      else emit (GmStatus (cfg_gm_id s) (domain_number s) (take (unat (num_ptlv s)) (path_trace s))) s)"

definition gptp_gm_indication :: "ptp_priority_vector \<Rightarrow> gptp_instance \<Rightarrow> gptp_instance" where
  "gptp_gm_indication gm_vector s =
     (if memcmp (clock_identity (root_system_identity (gm_info_vector s))) (clock_identity (root_system_identity gm_vector)) = 0 then s
      else
        let s1 = s\<lparr>gm_info_vector := gm_vector, cfg_gm_id := clock_identity (root_system_identity gm_vector),
                   gm_info_is_grandmaster := is_grandmaster s\<rparr>
        in emit (GmIndication gm_vector (is_grandmaster s)) (gptp_ipc_gm_status s1))"

definition gptp_instance_priority_vector_update :: "gptp_instance \<Rightarrow> gptp_instance" where
  "gptp_instance_priority_vector_update s =
     (let v = system_priority s; r = root_system_identity v;
          r1 = (if gmCapable s
                then r\<lparr>priority_1 := (if priority_1 r = 255 then 254 else priority_1 r),
                       clock_class := (if clock_class r = 255 then 248 else clock_class r)\<rparr>
                else r\<lparr>priority_1 := 255, clock_class := 255\<rparr>)
      in s\<lparr>system_priority := v\<lparr>root_system_identity := r1\<lparr>clock_identity := this_clock s\<rparr>,
             source_port_identity := (source_port_identity v)\<lparr>pid_clock := this_clock s\<rparr>\<rparr>\<rparr>)"

subsection \<open>Port state selection\<close>

definition own_path :: "gptp_instance \<Rightarrow> gptp_instance" where
  "own_path s = s\<lparr>path_trace := this_clock s # replicate (MAX_PTLV_ENTRIES - 1) (replicate 8 0), num_ptlv := 1\<rparr>"

definition ones_vector :: ptp_priority_vector where
  "ones_vector = \<lparr>root_system_identity = \<lparr>priority_1 = 0xFF, clock_class = 0xFF, clock_accuracy = 0xFF, offset_scaled_log_variance = 0xFFFF,
       priority_2 = 0xFF, clock_identity = replicate 8 0xFF\<rparr>,
     steps_removed = 0xFFFF, source_port_identity = \<lparr>pid_clock = replicate 8 0xFF, pid_port = 0xFFFF\<rparr>, port_number = 0xFFFF\<rparr>"

definition updt_role_disabled_tree :: "gptp_instance \<Rightarrow> gptp_instance" where
  "updt_role_disabled_tree s =
     gptp_ipc_gm_status (own_path (s\<lparr>selected_role := (\<lambda>j. if j < numberPorts s + 1 then DISABLED_PORT else selected_role s j),
       last_gm_priority := ones_vector\<rparr>))"

definition clear_reselect_tree :: "gptp_instance \<Rightarrow> gptp_instance" where
  "clear_reselect_tree s = s\<lparr>reselect := 0\<rparr>"

text \<open>(a), (b): the vectors of the ports that received one, and the best of them and of the system's own.\<close>

definition gm_path_priority :: "gptp_instance \<Rightarrow> nat \<Rightarrow> ptp_priority_vector" where
  "gm_path_priority s i = (let v = port_priority (gport s i)
     in v\<lparr>steps_removed := steps_removed v + 1, port_number := identity_number (gport s i)\<rparr>)"

definition vector_of :: "gptp_instance \<Rightarrow> nat option \<Rightarrow> ptp_priority_vector" where
  "vector_of s b = (case b of None \<Rightarrow> system_priority s | Some i \<Rightarrow> gm_path_priority s i)"

definition better_port :: "gptp_instance \<Rightarrow> nat \<Rightarrow> nat option \<Rightarrow> nat option" where
  "better_port s i b =
     (if info_is (gport s i) = SPANNING_TREE_RECEIVED \<and>
         memcmp (clock_identity (root_system_identity (gm_path_priority s i))) (this_clock s) \<noteq> 0 \<and>
         compare_system_identity (vector_of s b) (gm_path_priority s i) = BMCA_VECTOR_B_BETTER
      then Some i else b)"

definition best_vector_port :: "gptp_instance \<Rightarrow> nat option" where
  "best_vector_port s = fold (better_port s) [0..<numberPorts s] None"

text \<open>(c), (e): the properties of the grandmaster's time.\<close>

definition updt_gm :: "nat option \<Rightarrow> gptp_instance \<Rightarrow> gptp_instance" where
  "updt_gm best s =
     (let s1 = s\<lparr>last_gm_priority := gm_priority s, gm_priority := vector_of s best\<rparr>
      in case best of
           Some i \<Rightarrow>
             let p = gport s i
             in s1\<lparr>leap61 := ann_leap61 p, leap59 := ann_leap59 p, current_utc_offset_valid := ann_current_utc_offset_valid p,
                   time_traceable := ann_time_traceable p, frequency_traceable := ann_frequency_traceable p,
                   current_utc_offset := ann_current_utc_offset p, time_source := ann_time_source p,
                   gm_priority := (gm_priority s1)\<lparr>steps_removed := steps_removed (port_priority p) + 1, port_number := identity_number p\<rparr>,
                   master_steps_removed := message_steps_removed p + 1\<rparr>
         | None \<Rightarrow>
             s1\<lparr>leap61 := sys_leap61 s, leap59 := sys_leap59 s, current_utc_offset_valid := sys_current_utc_offset_valid s,
                time_traceable := sys_time_traceable s, frequency_traceable := sys_frequency_traceable s,
                current_utc_offset := sys_current_utc_offset s, time_source := sys_time_source s,
                gm_priority := (gm_priority s1)\<lparr>steps_removed := 0, port_number := 0,
                  source_port_identity := (source_port_identity (gm_priority s1))\<lparr>pid_port := 0\<rparr>\<rparr>,
                master_steps_removed := 0\<rparr>)"

text \<open>(d): the vector a port announces.\<close>

definition master_vector :: "gptp_instance \<Rightarrow> nat \<Rightarrow> ptp_priority_vector" where
  "master_vector s i =
     (gm_priority s)\<lparr>source_port_identity := \<lparr>pid_clock = pid_clock (source_port_identity (system_priority s)), pid_port = identity_number (gport s i)\<rparr>,
       port_number := identity_number (gport s i)\<rparr>"

definition updt_master :: "gptp_instance \<Rightarrow> gptp_instance" where
  "updt_master s = fold (\<lambda>i s. upd_gport i (\<lambda>p. p\<lparr>master_priority := master_vector s i\<rparr>) s) [0..<numberPorts s] s"

text \<open>(f): the role of a port.\<close>

definition port_role :: "gptp_instance \<Rightarrow> gptp_port \<Rightarrow> ptp_port_role \<times> bool" where
  "port_role s p =
     (case info_is p of
        SPANNING_TREE_DISABLED \<Rightarrow> (DISABLED_PORT, updt_info p)
      | SPANNING_TREE_AGED \<Rightarrow> (MASTER_PORT, True)
      | SPANNING_TREE_MINE \<Rightarrow>
          (MASTER_PORT, if memcmp (priority_vector_bytes (port_priority p)) (priority_vector_bytes (master_priority p)) \<noteq> 0 \<or>
             port_steps_removed p \<noteq> master_steps_removed s then True else updt_info p)
      | SPANNING_TREE_RECEIVED \<Rightarrow>
          if compare_clock_identity (clock_identity (root_system_identity (gm_priority s))) (clock_identity (root_system_identity (port_priority p))) = 0
          then (SLAVE_PORT, False)
          else if compare_system_identity (master_priority p) (port_priority p) \<noteq> BMCA_VECTOR_A_BETTER then (PASSIVE_PORT, False)
          else (MASTER_PORT, True))"

definition updt_role :: "nat \<Rightarrow> gptp_instance \<Rightarrow> gptp_instance" where
  "updt_role i s =
     (let (role, updt) = port_role s (gport s i)
      in upd_gport i (\<lambda>p. p\<lparr>updt_info := updt\<rparr>) (s\<lparr>selected_role := (selected_role s)(unat (identity_number (gport s i)) := role)\<rparr>))"

definition updt_roles :: "gptp_instance \<Rightarrow> gptp_instance" where
  "updt_roles s = fold updt_role [0..<numberPorts s] s"

text \<open>(g), (h), (i).\<close>

definition updt_system :: "ptp_priority_vector \<Rightarrow> gptp_instance \<Rightarrow> gptp_instance" where
  "updt_system best_vector s =
     (let s1 = s\<lparr>gm_present := (priority_1 (root_system_identity (gm_priority s)) < 255),
                 selected_role := (selected_role s)(0 := if list_ex (\<lambda>j. selected_role s j = SLAVE_PORT) [1..<numberPorts s + 1]
                   then PASSIVE_PORT else SLAVE_PORT)\<rparr>;
          mine = (memcmp (clock_identity (root_system_identity (gm_priority s1))) (this_clock s1) = 0);
          s2 = s1\<lparr>is_grandmaster := mine \<and> gm_present s1\<rparr>;
          s3 = (if mine then own_path s2 else s2);
          s4 = (if is_grandmaster s3 \<noteq> is_grandmaster s then emit (ClockAdjRole (is_grandmaster s3)) s3 else s3)
      in if gm_present s4 then gptp_gm_indication best_vector s4 else s4)"

definition updt_roles_tree :: "gptp_instance \<Rightarrow> gptp_instance" where
  "updt_roles_tree s =
     (let best = best_vector_port s
      in updt_system (vector_of s best) (updt_roles (updt_master (updt_gm best s))))"


subsection \<open>Announce transmission\<close>

definition announce_flags :: "gptp_instance \<Rightarrow> u16" where
  "announce_flags s =
     (if domain_number s = 0 then PTP_FLAG_PTP_TIMESCALE else 0) OR (if leap61 s \<noteq> 0 then PTP_FLAG_LEAP_61 else 0) OR
     (if leap59 s \<noteq> 0 then PTP_FLAG_LEAP_59 else 0) OR (if current_utc_offset_valid s \<noteq> 0 then PTP_FLAG_CURRENT_UTC_OFF_VALID else 0) OR
     (if time_traceable s \<noteq> 0 then PTP_FLAG_TIME_TRACEABLE else 0) OR
     (if frequency_traceable s \<noteq> 0 then PTP_FLAG_FREQUENCY_TRACEABLE else 0)"

definition num_ptlv_entries :: "gptp_instance \<Rightarrow> nat" where
  "num_ptlv_entries s =
     (if unat (master_steps_removed s) + 1 > MAX_PTLV_ENTRIES then MAX_PTLV_ENTRIES else unat (master_steps_removed s) + 1)"

definition announce_msg :: "nat \<Rightarrow> gptp_instance \<Rightarrow> ptp_announce_pdu" where
  "announce_msg i s =
     (let p = gport s i; n = num_ptlv_entries s
      in \<lparr>an_flags = announce_flags s, an_source = \<lparr>pid_clock = identity_clock_id p, pid_port = identity_number p\<rparr>,
          an_sequence_id = announce_tx_seqnum p, an_log_msg_interval = current_log_announce_interval p,
          an_current_utc_offset = current_utc_offset s, an_grandmaster = root_system_identity (gm_priority s),
          an_steps_removed = master_steps_removed s, an_time_source = time_source s, an_tlv_type = PTP_TLV_TYPE_PATH_TRACE,
          an_tlv_length = of_nat (8 * n), an_path_sequence = take n (path_trace s)\<rparr>)"

definition md_announce_transmit :: "nat \<Rightarrow> gptp_instance \<Rightarrow> gptp_instance" where
  "md_announce_transmit i s =
     upd_gport i (\<lambda>p. p\<lparr>announce_tx_seqnum := announce_tx_seqnum p + 1, num_tx_announce := num_tx_announce p + 1\<rparr>)
       (emit (AnnounceTx i (announce_msg i s) (of_nat (SIZEOF_ANNOUNCE_PDU - (MAX_PTLV_ENTRIES - num_ptlv_entries s) * 8))) s)"

definition port_announce_transmit_sm_transmit_init :: "nat \<Rightarrow> gptp_instance \<Rightarrow> gptp_instance" where
  "port_announce_transmit_sm_transmit_init i =
     upd_gport i (\<lambda>p. p\<lparr>new_info := True, announce_slow_down := False, number_announce_transmissions := 0, transmit_sm_state := TRANSMIT_INIT\<rparr>)"

definition port_announce_transmit_sm_idle :: "nat \<Rightarrow> gptp_instance \<Rightarrow> gptp_instance" where
  "port_announce_transmit_sm_idle i =
     upd_gport i (\<lambda>p. p\<lparr>transmit_timer := Some (ucast (u_scaled_ns_to_u64 (interval2 p) div 1000000)), transmit_sm_state := TRANSMIT_IDLE\<rparr>)"

definition port_announce_transmit_sm_transmit_periodic :: "nat \<Rightarrow> gptp_instance \<Rightarrow> gptp_instance" where
  "port_announce_transmit_sm_transmit_periodic i s =
     upd_gport i (\<lambda>p. p\<lparr>new_info := new_info p \<or> role_of s i = MASTER_PORT, transmit_sm_state := TRANSMIT_PERIODIC\<rparr>) s"

definition announce_interval_update :: "gptp_port \<Rightarrow> gptp_port" where
  "announce_interval_update p =
     (if announce_slow_down p then
        if number_announce_transmissions p \<ge> announce_receipt_timeout p
        then p\<lparr>interval2 := announce_interval p, number_announce_transmissions := 0, announce_slow_down := False\<rparr>
        else p\<lparr>interval2 := old_announce_interval p, number_announce_transmissions := number_announce_transmissions p + 1\<rparr>
      else p\<lparr>number_announce_transmissions := 0, interval2 := announce_interval p\<rparr>)"

definition port_announce_transmit_sm_transmit_announce :: "nat \<Rightarrow> gptp_instance \<Rightarrow> gptp_instance" where
  "port_announce_transmit_sm_transmit_announce i s =
     upd_gport i (\<lambda>p. (announce_interval_update p)\<lparr>transmit_sm_state := TRANSMIT_ANNOUNCE\<rparr>)
       (md_announce_transmit i (upd_gport i (\<lambda>p. p\<lparr>new_info := False\<rparr>) s))"

definition transmit_allowed :: "nat \<Rightarrow> gptp_instance \<Rightarrow> bool" where
  "transmit_allowed i s \<longleftrightarrow> (port_flag (selected s) i s \<and> \<not> updt_info (gport s i)) \<or> external_port_configuration_enabled s"

definition port_announce_transmit_step :: "nat \<Rightarrow> port_announce_transmit_sm_event \<Rightarrow> gptp_instance \<Rightarrow> gptp_instance" where
  "port_announce_transmit_step i ev s =
     (case transmit_sm_state (gport s i) of
        TRANSMIT_IDLE \<Rightarrow>
          if ev = TRANSMIT_EVENT_INTERVAL \<and> transmit_allowed i s then port_announce_transmit_sm_transmit_periodic i s
          else if new_info (gport s i) \<and> role_of s i = MASTER_PORT \<and> transmit_allowed i s \<and> \<not> asymmetry (gport s i)
          then port_announce_transmit_sm_transmit_announce i s
          else s
      | _ \<Rightarrow> port_announce_transmit_sm_idle i s)"

definition transmit_measure :: "nat \<Rightarrow> port_announce_transmit_sm_event \<Rightarrow> gptp_instance \<Rightarrow> nat" where
  "transmit_measure i ev s =
     (if ev = TRANSMIT_EVENT_INTERVAL then 4 else 0) + (if new_info (gport s i) then 2 else 0) +
     (if transmit_sm_state (gport s i) \<noteq> TRANSMIT_IDLE then 1 else 0)"

lemma transmit_measure_step:
  assumes "transmit_sm_state (gport (port_announce_transmit_step i ev s) i) \<noteq> transmit_sm_state (gport s i)"
  shows "transmit_measure i TRANSMIT_EVENT_RUN (port_announce_transmit_step i ev s) < transmit_measure i ev s"
  using assms
  by (cases "transmit_sm_state (gport s i)")
    (auto simp: transmit_measure_def port_announce_transmit_step_def upd_gport_def emit_def md_announce_transmit_def
       port_announce_transmit_sm_idle_def port_announce_transmit_sm_transmit_periodic_def
       port_announce_transmit_sm_transmit_announce_def announce_interval_update_def split: if_splits)

function transmit_loop :: "nat \<Rightarrow> port_announce_transmit_sm_event \<Rightarrow> gptp_instance \<Rightarrow> gptp_instance" where
  "transmit_loop i ev s =
     (let s' = port_announce_transmit_step i ev s
      in if transmit_sm_state (gport s' i) \<noteq> transmit_sm_state (gport s i) then transmit_loop i TRANSMIT_EVENT_RUN s' else s')"
  by pat_completeness auto

termination
  by (relation "measure (\<lambda>(i, ev, s). transmit_measure i ev s)") (auto intro: transmit_measure_step)

declare transmit_loop.simps [simp del]

definition port_announce_transmit_sm :: "nat \<Rightarrow> port_announce_transmit_sm_event \<Rightarrow> gptp_instance \<Rightarrow> gptp_instance" where
  "port_announce_transmit_sm i ev s =
     (if gm_id_static (gport s i) then s
      else transmit_loop i ev
        (if begin_flag s \<or> \<not> instance_enable s then port_announce_transmit_sm_transmit_init i s else s))"

subsection \<open>Announce information and port state selection\<close>

definition copy_priority_vector_from_message :: "gptp_port \<Rightarrow> ptp_announce_pdu \<Rightarrow> ptp_priority_vector" where
  "copy_priority_vector_from_message p m =
     \<lparr>root_system_identity = an_grandmaster m, steps_removed = an_steps_removed m, source_port_identity = an_source m,
      port_number = identity_number p\<rparr>"

definition record_other_announce_info :: "ptp_announce_pdu \<Rightarrow> gptp_port \<Rightarrow> gptp_port" where
  "record_other_announce_info m p =
     p\<lparr>ann_leap61 := ucast (an_flags m AND PTP_FLAG_LEAP_61), ann_leap59 := ucast (an_flags m AND PTP_FLAG_LEAP_59),
       ann_current_utc_offset_valid := ucast (an_flags m AND PTP_FLAG_CURRENT_UTC_OFF_VALID),
       ann_time_traceable := ucast (an_flags m AND PTP_FLAG_TIME_TRACEABLE),
       ann_frequency_traceable := ucast (an_flags m AND PTP_FLAG_FREQUENCY_TRACEABLE),
       ann_current_utc_offset := an_current_utc_offset m, ann_time_source := an_time_source m\<rparr>"

definition gm_change :: "gptp_instance \<Rightarrow> gptp_instance" where
  "gm_change s =
     (let t = ucast ((case clock_monotonic_ns s of Some ns \<Rightarrow> ns | None \<Rightarrow> 0) div 10000000)
      in s\<lparr>gmChangeCount := gmChangeCount s + 1, timeOfLastGmChangeEvent := t, timeOfLastGmPhaseChangeEvent := t,
           timeOfLastGmFreqChangeEvent := t\<rparr>)"

definition request_reselect :: "nat \<Rightarrow> gptp_instance \<Rightarrow> gptp_instance" where
  "request_reselect i s =
     (let n = unat (identity_number (gport s i)) in s\<lparr>reselect := bit_set (reselect s) n, selected := bit_clear (selected s) n\<rparr>)"

definition announce_of :: "gptp_port \<Rightarrow> ptp_announce_pdu" where
  "announce_of p = announce_fields (announce_rx p)"

text \<open>
  The actions of the information machine. Those that change \<open>reselect\<close> end with a call of the
  selection machine, which is the argument \<open>sel\<close>; what they do before it is a definition of its own.
\<close>

definition info_disabled_state :: "nat \<Rightarrow> gptp_instance \<Rightarrow> gptp_instance" where
  "info_disabled_state i s =
     request_reselect i (upd_gport i (\<lambda>p. p\<lparr>rcvd_msg := False, announceReceiptTimeoutTime := u64_to_u_scaled_ns (clock_local_ns s),
       info_is := SPANNING_TREE_DISABLED, info_sm_state := INFO_DISABLED\<rparr>) s)"

definition port_announce_info_sm_disabled :: "(gptp_instance \<Rightarrow> gptp_instance option) \<Rightarrow> nat \<Rightarrow> gptp_instance \<Rightarrow> gptp_instance option" where
  "port_announce_info_sm_disabled sel i s = sel (info_disabled_state i s)"

definition port_announce_info_sm_current :: "nat \<Rightarrow> gptp_instance \<Rightarrow> gptp_instance" where
  "port_announce_info_sm_current i = upd_gport i (\<lambda>p. p\<lparr>info_sm_state := INFO_CURRENT\<rparr>)"

definition superior_port :: "gptp_port \<Rightarrow> gptp_port" where
  "superior_port p =
     (let m = announce_of p; interval = ucast (announce_receipt_timeout p) * log_to_ns (an_log_msg_interval m)
      in (record_other_announce_info m p)\<lparr>port_priority := messagePriority p,
           announce_receipt_timeout_time_interval := u64_to_u_scaled_ns interval, timeout_timer := Some (ucast (interval div 1000000)),
           info_is := SPANNING_TREE_RECEIVED, rcvd_msg := False, rcvd_announce_ptr := False,
           info_sm_state := INFO_SUPERIOR_MASTER_PORT\<rparr>)"

definition info_superior_state :: "nat \<Rightarrow> gptp_instance \<Rightarrow> gptp_instance" where
  "info_superior_state i s = gm_change (request_reselect i (upd_gport i superior_port s))"

definition port_announce_info_sm_superior :: "(gptp_instance \<Rightarrow> gptp_instance option) \<Rightarrow> nat \<Rightarrow> gptp_instance \<Rightarrow> gptp_instance option" where
  "port_announce_info_sm_superior sel i s = sel (info_superior_state i s)"

definition port_announce_info_sm_repeated :: "nat \<Rightarrow> gptp_instance \<Rightarrow> gptp_instance" where
  "port_announce_info_sm_repeated i =
     upd_gport i (\<lambda>p. p\<lparr>timeout_timer := Some (ucast (u_scaled_ns_to_u64 (announce_receipt_timeout_time_interval p) div 1000000)),
       rcvd_msg := False, rcvd_announce_ptr := False, info_sm_state := INFO_REPEATED_MASTER_PORT\<rparr>)"

definition port_announce_info_sm_inferior :: "nat \<Rightarrow> gptp_instance \<Rightarrow> gptp_instance" where
  "port_announce_info_sm_inferior i s =
     gm_change (upd_gport i (\<lambda>p. p\<lparr>rcvd_msg := False, rcvd_announce_ptr := False, info_sm_state := INFO_INFERIOR_MASTER_OR_OTHER\<rparr>) s)"

definition info_update_state :: "nat \<Rightarrow> gptp_instance \<Rightarrow> gptp_instance" where
  "info_update_state i s =
     upd_gport i (\<lambda>p. p\<lparr>port_priority := master_priority p, port_steps_removed := master_steps_removed s, updt_info := False,
       info_is := SPANNING_TREE_MINE, new_info := True, info_sm_state := INFO_UPDATE\<rparr>) s"

definition port_announce_info_sm_update :: "nat \<Rightarrow> gptp_instance \<Rightarrow> gptp_instance" where
  "port_announce_info_sm_update i s = port_announce_transmit_sm i TRANSMIT_EVENT_RUN (info_update_state i s)"

definition info_aged_state :: "nat \<Rightarrow> gptp_instance \<Rightarrow> gptp_instance" where
  "info_aged_state i s =
     request_reselect i (upd_gport i (\<lambda>p. p\<lparr>info_is := SPANNING_TREE_AGED, info_sm_state := INFO_AGED\<rparr>) s)"

definition port_announce_info_sm_aged :: "(gptp_instance \<Rightarrow> gptp_instance option) \<Rightarrow> nat \<Rightarrow> gptp_instance \<Rightarrow> gptp_instance option" where
  "port_announce_info_sm_aged sel i s = sel (info_aged_state i s)"

definition rcv_info :: "gptp_port \<Rightarrow> gptp_port" where
  "rcv_info p =
     (let m = announce_of p; v = copy_priority_vector_from_message p m
      in p\<lparr>messagePriority := v, message_steps_removed := an_steps_removed m,
           rcvdInfo := (case compare_msg_priority_vector v (port_priority p) of
               BMCA_VECTOR_A_BETTER \<Rightarrow> SUPERIOR_MASTER_INFO
             | BMCA_VECTOR_A_B_SAME \<Rightarrow> REPEATED_MASTER_INFO
             | BMCA_VECTOR_B_BETTER \<Rightarrow> INFERIOR_MASTER_INFO
             | BMCA_VECTOR_OTHER \<Rightarrow> OTHER_INFO)\<rparr>)"

definition port_announce_info_sm_receive :: "(gptp_instance \<Rightarrow> gptp_instance option) \<Rightarrow> nat \<Rightarrow> gptp_instance \<Rightarrow> gptp_instance option" where
  "port_announce_info_sm_receive sel i s =
     (let s1 = upd_gport i rcv_info s
      in case rcvdInfo (gport s1 i) of
           SUPERIOR_MASTER_INFO \<Rightarrow> port_announce_info_sm_superior sel i s1
         | REPEATED_MASTER_INFO \<Rightarrow> Some (port_announce_info_sm_repeated i s1)
         | INFERIOR_MASTER_INFO \<Rightarrow> Some (port_announce_info_sm_inferior i s1)
         | OTHER_INFO \<Rightarrow> Some s1)"

definition port_usable :: "gptp_port \<Rightarrow> bool" where
  "port_usable p \<longleftrightarrow> port_oper p \<and> ptp_port_enabled p \<and> as_capable p"

definition info_timeout :: "port_announce_info_sm_event \<Rightarrow> gptp_instance \<Rightarrow> bool" where
  "info_timeout ev s \<longleftrightarrow> ev = INFO_EVENT_ANNOUNCE_TIMEOUT \<or> (ev = INFO_EVENT_SYNC_TIMEOUT \<and> gm_present s)"

definition port_announce_info_switch ::
  "(gptp_instance \<Rightarrow> gptp_instance option) \<Rightarrow> nat \<Rightarrow> port_announce_info_sm_event \<Rightarrow> gptp_instance \<Rightarrow> gptp_instance option" where
  "port_announce_info_switch sel i ev s =
     (let p = gport s i
      in case info_sm_state p of
           INFO_DISABLED \<Rightarrow>
             if port_usable p then port_announce_info_sm_aged sel i s
             else if rcvd_msg p then port_announce_info_sm_disabled sel i s
             else Some s
         | INFO_CURRENT \<Rightarrow>
             if info_timeout ev s \<and> info_is p = SPANNING_TREE_RECEIVED \<and> \<not> updt_info p \<and> \<not> rcvd_msg p
             then port_announce_info_sm_aged sel i s
             else if rcvd_msg p \<and> \<not> updt_info p then port_announce_info_sm_receive sel i s
             else if port_flag (selected s) i s \<and> updt_info p then Some (port_announce_info_sm_update i s)
             else Some s
         | INFO_AGED \<Rightarrow>
             if port_flag (selected s) i s \<and> updt_info p then Some (port_announce_info_sm_update i s) else Some s
         | INFO_RECEIVE \<Rightarrow> Some s
         | _ \<Rightarrow> Some (port_announce_info_sm_current i s))"

definition info_body ::
  "(gptp_instance \<Rightarrow> gptp_instance option) \<Rightarrow> (nat \<Rightarrow> port_announce_info_sm_event \<Rightarrow> gptp_instance \<Rightarrow> gptp_instance option) \<Rightarrow>
   nat \<Rightarrow> port_announce_info_sm_event \<Rightarrow> gptp_instance \<Rightarrow> gptp_instance option" where
  "info_body sel again i ev s =
     (let p = gport s i
      in if gm_id_static p then Some s
         else if begin_flag s \<or> \<not> instance_enable s \<or> (\<not> port_usable p \<and> info_is p \<noteq> SPANNING_TREE_DISABLED)
         then port_announce_info_sm_disabled sel i s
         else case port_announce_info_switch sel i ev s of
             None \<Rightarrow> None
           | Some s' \<Rightarrow> if info_sm_state p \<noteq> info_sm_state (gport s' i) then again i INFO_EVENT_RUN s' else Some s')"

fun run_ports :: "(nat \<Rightarrow> gptp_instance \<Rightarrow> gptp_instance option) \<Rightarrow> nat list \<Rightarrow> gptp_instance \<Rightarrow> gptp_instance option" where
  "run_ports info [] s = Some s"
| "run_ports info (i # is) s =
     (case info i s of None \<Rightarrow> None | Some s' \<Rightarrow> run_ports info is (port_announce_transmit_sm i TRANSMIT_EVENT_RUN s'))"

definition set_selected_tree :: "(nat \<Rightarrow> gptp_instance \<Rightarrow> gptp_instance option) \<Rightarrow> gptp_instance \<Rightarrow> gptp_instance option" where
  "set_selected_tree info s = run_ports info [0..<numberPorts s] (s\<lparr>selected := 0xffff\<rparr>)"

definition port_state_selection_sm_init_bridge :: "gptp_instance \<Rightarrow> gptp_instance" where
  "port_state_selection_sm_init_bridge s = (updt_role_disabled_tree s)\<lparr>port_state_sm_state := STATE_INIT_BRIDGE\<rparr>"

definition port_state_selection_sm_selection ::
  "(nat \<Rightarrow> gptp_instance \<Rightarrow> gptp_instance option) \<Rightarrow> gptp_instance \<Rightarrow> gptp_instance option" where
  "port_state_selection_sm_selection info s =
     map_option (\<lambda>s. s\<lparr>port_state_sm_state := STATE_SELECTION\<rparr>) (set_selected_tree info (updt_roles_tree (clear_reselect_tree s)))"

definition any_reselect :: "gptp_instance \<Rightarrow> bool" where
  "any_reselect s = list_ex (\<lambda>j. bit_test (reselect s) j) [1..<numberPorts s + 1]"

definition select_body ::
  "(nat \<Rightarrow> port_announce_info_sm_event \<Rightarrow> gptp_instance \<Rightarrow> gptp_instance option) \<Rightarrow> (gptp_instance \<Rightarrow> gptp_instance option) \<Rightarrow>
   gptp_instance \<Rightarrow> gptp_instance option" where
  "select_body info again s =
     (if automotive s then Some s
      else if begin_flag s \<or> \<not> instance_enable s then Some (port_state_selection_sm_init_bridge s)
      else case port_state_sm_state s of
          STATE_SELECTION \<Rightarrow>
            if any_reselect s then port_state_selection_sm_selection (\<lambda>i. info i INFO_EVENT_RUN) s else Some s
        | STATE_INIT_BRIDGE \<Rightarrow>
            (case port_state_selection_sm_selection (\<lambda>i. info i INFO_EVENT_RUN) s of None \<Rightarrow> None | Some s' \<Rightarrow> again s'))"

text \<open>The two machines call each other and repeat until their state does not change.\<close>

fun port_announce_info_sm :: "nat \<Rightarrow> nat \<Rightarrow> port_announce_info_sm_event \<Rightarrow> gptp_instance \<Rightarrow> gptp_instance option"
  and port_state_selection_sm :: "nat \<Rightarrow> gptp_instance \<Rightarrow> gptp_instance option" where
  "port_announce_info_sm 0 = (\<lambda>i ev s. None)"
| "port_announce_info_sm (Suc n) = info_body (port_state_selection_sm n) (port_announce_info_sm n)"
| "port_state_selection_sm 0 = (\<lambda>s. None)"
| "port_state_selection_sm (Suc n) = select_body (port_announce_info_sm n) (port_state_selection_sm n)"

subsection \<open>Announce reception\<close>

definition tlv_entries :: "ptp_announce_pdu \<Rightarrow> nat" where
  "tlv_entries m = min (unat (an_tlv_length m)) ((MAX_PTLV_ENTRIES - 1) * 8) div 8"

definition announce_qualified :: "clock_id \<Rightarrow> ptp_announce_pdu \<Rightarrow> bool" where
  "announce_qualified this m \<longleftrightarrow>
     memcmp (pid_clock (an_source m)) this \<noteq> 0 \<and> an_steps_removed m < 255 \<and>
     (an_tlv_type m = PTP_TLV_TYPE_PATH_TRACE \<longrightarrow>
        unat (an_tlv_length m) mod 8 = 0 \<and> list_all (\<lambda>c. memcmp c this \<noteq> 0) (take (tlv_entries m) (an_path_sequence m)))"

definition record_path_trace :: "ptp_announce_pdu \<Rightarrow> clock_id \<Rightarrow> gptp_instance \<Rightarrow> gptp_instance" where
  "record_path_trace m this s =
     (let n = tlv_entries m
      in gptp_ipc_gm_status (s\<lparr>path_trace := take n (an_path_sequence m) @ [this] @ drop (n + 1) (path_trace s),
           num_ptlv := of_nat (n + 1)\<rparr>))"

definition qualify_announce :: "nat \<Rightarrow> gptp_instance \<Rightarrow> bool \<times> gptp_instance" where
  "qualify_announce i s =
     (let p = gport s i; m = announce_of p
      in if \<not> announce_qualified (identity_clock_id p) m then (False, s)
         else if role_of s i = SLAVE_PORT \<and> an_tlv_type m = PTP_TLV_TYPE_PATH_TRACE
         then (True, record_path_trace m (identity_clock_id p) s)
         else (True, s))"

definition port_announce_rcv_sm_discard :: "nat \<Rightarrow> gptp_instance \<Rightarrow> gptp_instance" where
  "port_announce_rcv_sm_discard i = upd_gport i (\<lambda>p. p\<lparr>rcvd_announce_par := False, rcvd_msg := False, rcv_sm_state := RCV_DISCARD\<rparr>)"

definition port_announce_rcv_sm_receive :: "nat \<Rightarrow> nat \<Rightarrow> gptp_instance \<Rightarrow> gptp_instance option" where
  "port_announce_rcv_sm_receive n i s =
     (let (q, s1) = qualify_announce i s
      in port_announce_info_sm n i INFO_EVENT_RUN
           (upd_gport i (\<lambda>p. p\<lparr>rcvd_announce_par := False, rcvd_msg := q, rcv_sm_state := RCV_RECEIVE\<rparr>) s1))"

definition port_announce_rcv_switch :: "nat \<Rightarrow> nat \<Rightarrow> gptp_instance \<Rightarrow> gptp_instance option" where
  "port_announce_rcv_switch n i s =
     (let p = gport s i
      in if rcvd_announce_par p \<and> port_usable p \<and> (rcv_sm_state p = RCV_RECEIVE \<longrightarrow> \<not> rcvd_msg p)
         then port_announce_rcv_sm_receive n i s else Some s)"

text \<open>
  Only \<open>port_announce_rcv_sm_receive\<close> changes the state, to \<open>RCV_RECEIVE\<close>: the loop runs the switch
  at most twice.
\<close>

definition port_announce_rcv_sm :: "nat \<Rightarrow> nat \<Rightarrow> gptp_instance \<Rightarrow> gptp_instance option" where
  "port_announce_rcv_sm n i s =
     (let p = gport s i
      in if gm_id_static p then Some s
         else if (begin_flag s \<or> \<not> instance_enable s \<or> (rcvd_announce_par p \<and> \<not> port_usable p)) \<and> \<not> external_port_configuration_enabled s
         then Some (port_announce_rcv_sm_discard i s)
         else case port_announce_rcv_switch n i s of
             None \<Rightarrow> None
           | Some s1 \<Rightarrow> if rcv_sm_state (gport s1 i) \<noteq> rcv_sm_state p then port_announce_rcv_switch n i s1 else Some s1)"

definition gptp_handle_announce :: "nat \<Rightarrow> nat \<Rightarrow> u8 list \<Rightarrow> gptp_instance \<Rightarrow> gptp_instance option" where
  "gptp_handle_announce n i msg s =
     (let s1 = upd_gport i (\<lambda>p. p\<lparr>num_rx_announce := num_rx_announce p + 1\<rparr>) s
      in if \<not> gm_id_static (gport s i) \<and> length msg \<le> SIZEOF_ANNOUNCE_PDU
         then port_announce_rcv_sm n i
           (upd_gport i (\<lambda>p. p\<lparr>announce_rx := msg @ drop (length msg) (announce_rx p), rcvd_announce_ptr := True, rcvd_announce_par := True\<rparr>) s1)
         else Some (upd_gport i (\<lambda>p. p\<lparr>num_rx_announce_dropped := num_rx_announce_dropped p + 1\<rparr>) s1))"

text \<open>
  The Announce case of \<open>gptp_instance_net_rx\<close>: \<open>buf\<close> is the receive buffer from the Ethernet header on and
  \<open>len\<close> the length of the frame, which counts the Ethernet header; the PDU starts after the header.
\<close>

abbreviation SIZEOF_ETH_HDR :: nat where "SIZEOF_ETH_HDR \<equiv> 14"

definition gptp_net_rx_announce :: "nat \<Rightarrow> nat \<Rightarrow> u8 list \<Rightarrow> nat \<Rightarrow> gptp_instance \<Rightarrow> gptp_instance option" where
  "gptp_net_rx_announce n i buf len s = gptp_handle_announce n i (take len (drop SIZEOF_ETH_HDR buf)) s"

definition gptp_as_capable_update_fsm :: "nat \<Rightarrow> nat \<Rightarrow> gptp_instance \<Rightarrow> gptp_instance option" where
  "gptp_as_capable_update_fsm n i s =
     (case port_announce_info_sm n i INFO_EVENT_RUN s of None \<Rightarrow> None | Some s' \<Rightarrow> port_announce_rcv_sm n i s')"

definition gptp_announce_transmit_timer_handler :: "nat \<Rightarrow> gptp_instance \<Rightarrow> gptp_instance" where
  "gptp_announce_transmit_timer_handler i s =
     port_announce_transmit_sm i TRANSMIT_EVENT_INTERVAL (upd_gport i (\<lambda>p. p\<lparr>transmit_timer := None\<rparr>) s)"

definition gptp_announce_receive_timeout_timer_handler :: "nat \<Rightarrow> nat \<Rightarrow> gptp_instance \<Rightarrow> gptp_instance option" where
  "gptp_announce_receive_timeout_timer_handler n i s =
     port_announce_info_sm n i INFO_EVENT_ANNOUNCE_TIMEOUT
       (upd_gport i (\<lambda>p. p\<lparr>timeout_timer := None, num_rx_announce_timeout := num_rx_announce_timeout p + 1\<rparr>) s)"

definition gptp_sync_receive_timeout_timer_handler :: "nat \<Rightarrow> nat \<Rightarrow> gptp_instance \<Rightarrow> gptp_instance option" where
  "gptp_sync_receive_timeout_timer_handler n i s =
     port_announce_info_sm n i INFO_EVENT_SYNC_TIMEOUT
       (upd_gport i (\<lambda>p. p\<lparr>num_rx_sync_timeout := num_rx_sync_timeout p + 1\<rparr>) s)"

end
