(* ===== verification/GPTP_BMCA_Proofs.thy ===== *)
theory GPTP_BMCA_Proofs
  imports GPTP_BMCA "HOL-Library.Product_Lexorder"
begin

section \<open>gPTP best master selection: order of the vectors, roles\<close>

text \<open>
  The byte comparisons of \<open>bmca.c\<close> against the lexicographic order of IEEE 802.1AS-2020, 10.3.5, and
  what one run of \<open>updt_roles_tree\<close> selects.
\<close>

subsection \<open>Byte strings compare as numbers\<close>

fun be_val :: "u8 list \<Rightarrow> nat" where
  "be_val [] = 0"
| "be_val (x # xs) = unat x * 256 ^ length xs + be_val xs"

definition cmpi :: "'a::linorder \<Rightarrow> 'a \<Rightarrow> int" where
  "cmpi a b = (if a < b then -1 else if b < a then 1 else 0)"

lemma cmpi_pair: "cmpi (a, x) (b, y) = (if a < b then -1 else if b < a then 1 else cmpi x y)"
  by (auto simp: cmpi_def)

lemma cmpi_eq_0 [simp]: "cmpi a b = 0 \<longleftrightarrow> a = b"
  by (auto simp: cmpi_def)

lemma cmpi_pos [simp]: "cmpi a b > 0 \<longleftrightarrow> b < a"
  by (auto simp: cmpi_def)

lemma cmpi_neg [simp]: "cmpi a b < 0 \<longleftrightarrow> a < b"
  by (auto simp: cmpi_def)

lemma digit_less:
  assumes "(a::nat) < b" "x < m" shows "a * m + x < b * m + y"
proof -
  have "a * m + x < (a + 1) * m" using assms(2) by simp
  also have "\<dots> \<le> b * m" using assms(1) by (intro mult_le_mono1) simp
  finally show ?thesis by simp
qed

lemma be_val_less: "be_val xs < 256 ^ length xs"
proof (induction xs)
  case (Cons x xs)
  have "unat x < 256" using unsigned_less [of x, where ?'a = nat] by simp
  from digit_less [OF this Cons, of 0] show ?case by simp
qed simp

lemma memcmp_be_val: "length xs = length ys \<Longrightarrow> memcmp xs ys = cmpi (be_val xs) (be_val ys)"
proof (induction xs ys rule: memcmp.induct)
  case (1 x xs y ys)
  then have IH: "x = y \<Longrightarrow> memcmp xs ys = cmpi (be_val xs) (be_val ys)" and l: "length xs = length ys" by auto
  consider "x < y" | "y < x" | "x = y" by force
  then show ?case
  proof cases
    case 1
    then have "be_val (x # xs) < be_val (y # ys)"
      using be_val_less [of xs] l by (auto simp: word_less_nat_alt intro: digit_less)
    with 1 show ?thesis by (simp only: memcmp.simps) (simp add: cmpi_def del: be_val.simps)
  next
    case 2
    then have "be_val (y # ys) < be_val (x # xs)"
      using be_val_less [of ys] l [symmetric] by (auto simp: word_less_nat_alt intro: digit_less)
    with 2 show ?thesis by (simp only: memcmp.simps) (simp add: cmpi_def del: be_val.simps)
  next
    case 3
    then show ?thesis using IH l by (simp add: cmpi_def)
  qed
qed (auto simp: cmpi_def)

lemma memcmp_append:
  "length xs = length ys \<Longrightarrow>
   memcmp (xs @ as) (ys @ bs) = (if memcmp xs ys \<noteq> 0 then memcmp xs ys else memcmp as bs)"
  by (induction xs ys rule: memcmp.induct) auto

lemma memcmp_eq_0: "length xs = length ys \<Longrightarrow> memcmp xs ys = 0 \<longleftrightarrow> xs = ys"
  by (induction xs ys rule: memcmp.induct) auto

lemma be_val_be16: "be_val (be16 v) = unat v"
proof -
  have "unat v < 2 ^ 16" using unsigned_less [of v, where ?'a = nat] by simp
  then have "unat v div 256 < 2 ^ 8" by (simp add: less_mult_imp_div_less)
  then have "unat (ucast (drop_bit 8 v) :: u8) = unat v div 256"
    by (simp add: unsigned_ucast_eq drop_bit_eq_div unat_div take_bit_nat_eq_self)
  moreover have "unat (ucast v :: u8) = unat v mod 256" by (simp add: unsigned_ucast_eq take_bit_eq_mod)
  ultimately show ?thesis by (simp add: be16_def)
qed

lemma memcmp_be16: "memcmp (be16 a @ xs) (be16 b @ ys) = (if a < b then -1 else if b < a then 1 else memcmp xs ys)"
proof -
  have "memcmp (be16 a) (be16 b) = cmpi (unat a) (unat b)"
    by (simp add: memcmp_be_val be_val_be16)
  then have "memcmp (be16 a) (be16 b) = (if a < b then -1 else if b < a then 1 else 0)"
    by (simp only: cmpi_def word_less_nat_alt)
  then show ?thesis by (auto simp: memcmp_append)
qed

lemma memcmp_clock:
  "length c = 8 \<Longrightarrow> length d = 8 \<Longrightarrow>
   memcmp (c @ xs) (d @ ys) = (if be_val c < be_val d then -1 else if be_val d < be_val c then 1 else memcmp xs ys)"
  by (simp add: memcmp_append memcmp_be_val cmpi_def)

subsection \<open>The order of the standard\<close>

type_synonym system_key = "u8 \<times> u8 \<times> u8 \<times> u16 \<times> u8 \<times> nat"

definition system_key :: "ptp_system_identity \<Rightarrow> system_key" where
  "system_key s = (priority_1 s, clock_class s, clock_accuracy s, offset_scaled_log_variance s, priority_2 s, be_val (clock_identity s))"

definition port_id_key :: "ptp_port_identity \<Rightarrow> nat \<times> u16" where
  "port_id_key p = (be_val (pid_clock p), pid_port p)"

definition vector_key :: "ptp_priority_vector \<Rightarrow> system_key \<times> u16 \<times> (nat \<times> u16) \<times> u16" where
  "vector_key v = (system_key (root_system_identity v), steps_removed v, port_id_key (source_port_identity v), port_number v)"

definition system_ok :: "ptp_system_identity \<Rightarrow> bool" where
  "system_ok s \<longleftrightarrow> length (clock_identity s) = 8"

definition vector_ok :: "ptp_priority_vector \<Rightarrow> bool" where
  "vector_ok v \<longleftrightarrow> system_ok (root_system_identity v) \<and> length (pid_clock (source_port_identity v)) = 8"

lemma memcmp_system:
  assumes "system_ok a" "system_ok b"
  shows "memcmp (system_identity_bytes a) (system_identity_bytes b) = cmpi (system_key a) (system_key b)"
  using assms memcmp_clock [of "clock_identity a" "clock_identity b" "[]" "[]"]
  by (simp add: system_identity_bytes_def system_key_def cmpi_pair memcmp_be16 system_ok_def cmpi_def [of "be_val _"])

lemma memcmp_port_id:
  assumes "length (pid_clock a) = 8" "length (pid_clock b) = 8"
  shows "memcmp (port_identity_bytes a) (port_identity_bytes b) = cmpi (port_id_key a) (port_id_key b)"
  using assms memcmp_be16 [of "pid_port a" "[]" "pid_port b" "[]"]
  by (simp add: port_identity_bytes_def port_id_key_def cmpi_pair memcmp_clock cmpi_def [of "pid_port _"])

lemma length_system_bytes: "system_ok a \<Longrightarrow> length (system_identity_bytes a) = 14"
  by (simp add: system_identity_bytes_def system_ok_def)

lemma length_port_id_bytes: "length (pid_clock a) = 8 \<Longrightarrow> length (port_identity_bytes a) = 10"
  by (simp add: port_identity_bytes_def)

lemma memcmp_vector:
  assumes "vector_ok a" "vector_ok b"
  shows "memcmp (priority_vector_bytes a) (priority_vector_bytes b) = cmpi (vector_key a) (vector_key b)"
proof -
  have l: "length (system_identity_bytes (root_system_identity a)) = length (system_identity_bytes (root_system_identity b))"
    "length (port_identity_bytes (source_port_identity a)) = length (port_identity_bytes (source_port_identity b))"
    using assms by (auto simp: vector_ok_def length_system_bytes length_port_id_bytes)
  have s: "memcmp (system_identity_bytes (root_system_identity a)) (system_identity_bytes (root_system_identity b)) =
      cmpi (system_key (root_system_identity a)) (system_key (root_system_identity b))"
    using assms by (simp add: memcmp_system vector_ok_def)
  have p: "memcmp (port_identity_bytes (source_port_identity a)) (port_identity_bytes (source_port_identity b)) =
      cmpi (port_id_key (source_port_identity a)) (port_id_key (source_port_identity b))"
    using assms by (simp add: memcmp_port_id vector_ok_def)
  have n: "memcmp (be16 (port_number a)) (be16 (port_number b)) = cmpi (port_number a) (port_number b)"
    using memcmp_be16 [of "port_number a" "[]" "port_number b" "[]"] by (simp add: cmpi_def)
  show ?thesis
    unfolding priority_vector_bytes_def vector_key_def cmpi_pair
    by (simp only: memcmp_append [OF l(1)] memcmp_append [OF l(2)] memcmp_be16 s p n)
      (simp add: cmpi_def)
qed

lemma cmp_result_cmpi: "cmp_result (cmpi a b) = (if a < b then BMCA_VECTOR_A_BETTER else if a = b then BMCA_VECTOR_A_B_SAME else BMCA_VECTOR_B_BETTER)"
  by (auto simp: cmp_result_def cmpi_def)

lemma compare_system_key:
  assumes "vector_ok a" "vector_ok b"
  shows "compare_system_identity a b =
     (if system_key (root_system_identity a) < system_key (root_system_identity b) then BMCA_VECTOR_A_BETTER
      else if system_key (root_system_identity a) = system_key (root_system_identity b) then BMCA_VECTOR_A_B_SAME else BMCA_VECTOR_B_BETTER)"
  using assms by (simp only: compare_system_identity_def vector_ok_def memcmp_system cmp_result_cmpi)

lemma be_val_inj: "length xs = length ys \<Longrightarrow> be_val xs = be_val ys \<Longrightarrow> xs = ys"
  using memcmp_be_val [of xs ys] memcmp_eq_0 [of xs ys] by simp

lemma system_key_inj: "system_ok a \<Longrightarrow> system_ok b \<Longrightarrow> system_key a = system_key b \<Longrightarrow> a = b"
  by (auto simp: system_key_def system_ok_def intro!: ptp_system_identity.equality be_val_inj)

lemma port_id_key_inj:
  "length (pid_clock a) = 8 \<Longrightarrow> length (pid_clock b) = 8 \<Longrightarrow> port_id_key a = port_id_key b \<Longrightarrow> a = b"
  by (auto simp: port_id_key_def intro!: ptp_port_identity.equality be_val_inj)

lemma vector_key_inj: "vector_ok a \<Longrightarrow> vector_ok b \<Longrightarrow> vector_key a = vector_key b \<Longrightarrow> a = b"
  by (auto simp: vector_key_def vector_ok_def intro!: ptp_priority_vector.equality system_key_inj port_id_key_inj)

text \<open>
  C22: On priority vectors with 8-byte clock identities the byte comparisons of \<open>bmca.c\<close> are the order of
  IEEE 802.1AS-2020, 10.3.5: \<open>compare_priority_vector\<close> is the lexicographic order of priority1, clock
  class, accuracy, variance, priority2, clock identity, steps removed, source port and port number (the
  smaller is better), \<open>BMCA_VECTOR_A_B_SAME\<close> means that the vectors are equal, and
  \<open>compare_system_identity\<close> is the same order on the first six components only. A message vector from
  the port's current master is better whatever it contains, so \<open>compare_msg_priority_vector\<close> never
  returns \<open>BMCA_VECTOR_A_B_SAME\<close>.
\<close>

theorem bmca_compare_is_lexicographic:
  assumes "vector_ok a" "vector_ok b"
  shows "compare_priority_vector a b =
      (if vector_key a < vector_key b then BMCA_VECTOR_A_BETTER else if a = b then BMCA_VECTOR_A_B_SAME else BMCA_VECTOR_B_BETTER) \<and>
    compare_system_identity a b =
      (if system_key (root_system_identity a) < system_key (root_system_identity b) then BMCA_VECTOR_A_BETTER
       else if root_system_identity a = root_system_identity b then BMCA_VECTOR_A_B_SAME else BMCA_VECTOR_B_BETTER) \<and>
    compare_msg_priority_vector a b =
      (if source_port_identity a = source_port_identity b \<or> vector_key a < vector_key b then BMCA_VECTOR_A_BETTER else BMCA_VECTOR_B_BETTER)"
proof -
  have eq: "vector_key a = vector_key b \<longleftrightarrow> a = b"
    using vector_key_inj assms by blast
  have c: "compare_priority_vector a b =
      (if vector_key a < vector_key b then BMCA_VECTOR_A_BETTER else if a = b then BMCA_VECTOR_A_B_SAME else BMCA_VECTOR_B_BETTER)"
    using assms by (simp only: compare_priority_vector_def memcmp_vector cmp_result_cmpi eq)
  have "system_key (root_system_identity a) = system_key (root_system_identity b) \<longleftrightarrow> root_system_identity a = root_system_identity b"
    using system_key_inj assms by (auto simp: vector_ok_def)
  then have s: "compare_system_identity a b =
      (if system_key (root_system_identity a) < system_key (root_system_identity b) then BMCA_VECTOR_A_BETTER
       else if root_system_identity a = root_system_identity b then BMCA_VECTOR_A_B_SAME else BMCA_VECTOR_B_BETTER)"
    using assms by (simp only: compare_system_key)
  have "memcmp (port_identity_bytes (source_port_identity a)) (port_identity_bytes (source_port_identity b)) = 0 \<longleftrightarrow>
      source_port_identity a = source_port_identity b"
    using assms port_id_key_inj by (auto simp: vector_ok_def memcmp_port_id)
  then have "compare_msg_priority_vector a b =
      (if source_port_identity a = source_port_identity b \<or> vector_key a < vector_key b then BMCA_VECTOR_A_BETTER else BMCA_VECTOR_B_BETTER)"
    unfolding compare_msg_priority_vector_def c by auto
  with c s show ?thesis by simp
qed


subsection \<open>Well-formed instances\<close>

text \<open>
  \<open>gptp_instance_port_init_params\<close> numbers the ports from 1 and gives them the clock identity of the
  instance. Clock identities are 8 bytes, and an instance has fewer than 16 ports.
\<close>

definition gport_ok :: "clock_id \<Rightarrow> nat \<Rightarrow> gptp_port \<Rightarrow> bool" where
  "gport_ok this i p \<longleftrightarrow> identity_number p = of_nat (i + 1) \<and> identity_clock_id p = this \<and> vector_ok (port_priority p) \<and>
     vector_ok (master_priority p) \<and> vector_ok (messagePriority p) \<and> length (announce_rx p) = SIZEOF_ANNOUNCE_PDU"

definition instance_ok :: "gptp_instance \<Rightarrow> bool" where
  "instance_ok s \<longleftrightarrow> numberPorts s < 16 \<and> length (this_clock s) = 8 \<and> vector_ok (system_priority s) \<and> vector_ok (gm_priority s) \<and>
     clock_identity (root_system_identity (system_priority s)) = this_clock s \<and>
     pid_clock (source_port_identity (system_priority s)) = this_clock s \<and>
     (\<forall>i<numberPorts s. gport_ok (this_clock s) i (gport s i)) \<and>
     length (path_trace s) = MAX_PTLV_ENTRIES \<and> list_all (\<lambda>c. length c = 8) (path_trace s) \<and> num_ptlv s \<le> 16"

lemma port_no:
  assumes "instance_ok s" "i < numberPorts s"
  shows "identity_number (gport s i) = of_nat (i + 1)" "unat (identity_number (gport s i)) = i + 1"
proof -
  show n: "identity_number (gport s i) = of_nat (i + 1)"
    using assms by (auto simp: instance_ok_def gport_ok_def)
  have "i + 1 < 2 ^ 16" using assms by (auto simp: instance_ok_def)
  then show "unat (identity_number (gport s i)) = i + 1"
    unfolding n by (subst unat_of_nat) (simp add: take_bit_nat_eq_self del: of_nat_add of_nat_Suc)
qed

subsection \<open>Closed forms of the loops over the ports\<close>

lemma updt_master_loop:
  "fold (\<lambda>i s. upd_gport i (\<lambda>p. p\<lparr>master_priority := master_vector s i\<rparr>) s) [0..<m] s =
   s\<lparr>gport := (\<lambda>i. if i < m then (gport s i)\<lparr>master_priority := master_vector s i\<rparr> else gport s i)\<rparr>"
proof (induction m)
  case (Suc m)
  show ?case
    by (simp only: upt_Suc_append [OF le0] fold_append comp_def Suc fold.simps id_apply)
      (auto simp: upd_gport_def master_vector_def fun_eq_iff less_Suc_eq)
qed simp

lemma updt_master_eq:
  "updt_master s = s\<lparr>gport := (\<lambda>i. if i < numberPorts s then (gport s i)\<lparr>master_priority := master_vector s i\<rparr> else gport s i)\<rparr>"
  by (simp only: updt_master_def updt_master_loop)

lemma port_role_cong: "gm_priority s = gm_priority t \<Longrightarrow> master_steps_removed s = master_steps_removed t \<Longrightarrow> port_role s p = port_role t p"
  by (simp only: port_role_def)

lemma updt_roles_loop:
  assumes "\<And>i. i < m \<Longrightarrow> unat (identity_number (gport s i)) = i + 1"
  shows "fold updt_role [0..<m] s =
    s\<lparr>gport := (\<lambda>i. if i < m then (gport s i)\<lparr>updt_info := snd (port_role s (gport s i))\<rparr> else gport s i),
      selected_role := (\<lambda>j. if 1 \<le> j \<and> j \<le> m then fst (port_role s (gport s (j - 1))) else selected_role s j)\<rparr>"
  using assms
proof (induction m)
  case (Suc m)
  have n: "unat (identity_number (gport s m)) = m + 1" using Suc.prems by simp
  have role: "port_role (s\<lparr>gport := g, selected_role := r\<rparr>) p = port_role s p" for g r p
    by (rule port_role_cong) simp_all
  have IH: "fold updt_role [0..<m] s =
    s\<lparr>gport := (\<lambda>i. if i < m then (gport s i)\<lparr>updt_info := snd (port_role s (gport s i))\<rparr> else gport s i),
      selected_role := (\<lambda>j. if 1 \<le> j \<and> j \<le> m then fst (port_role s (gport s (j - 1))) else selected_role s j)\<rparr>"
    using Suc by simp
  have step: "fold updt_role [0..<Suc m] s = updt_role m (fold updt_role [0..<m] s)" by simp
  show ?case unfolding step IH
    by (rule gptp_instance.equality)
      (auto simp: updt_role_def upd_gport_def fun_eq_iff less_Suc_eq le_Suc_eq n role split_beta Let_def)
qed (rule gptp_instance.equality; auto)

subsection \<open>The best vector\<close>

definition candidate :: "gptp_instance \<Rightarrow> nat \<Rightarrow> bool" where
  "candidate s i \<longleftrightarrow> info_is (gport s i) = SPANNING_TREE_RECEIVED \<and>
     clock_identity (root_system_identity (port_priority (gport s i))) \<noteq> this_clock s"

definition received_key :: "gptp_instance \<Rightarrow> nat \<Rightarrow> system_key" where
  "received_key s i = system_key (root_system_identity (port_priority (gport s i)))"

definition own_key :: "gptp_instance \<Rightarrow> system_key" where
  "own_key s = system_key (root_system_identity (system_priority s))"

definition best_key :: "gptp_instance \<Rightarrow> nat option \<Rightarrow> system_key" where
  "best_key s b = system_key (root_system_identity (vector_of s b))"

lemma gm_path_ok: "instance_ok s \<Longrightarrow> i < numberPorts s \<Longrightarrow> vector_ok (gm_path_priority s i)"
  by (auto simp: instance_ok_def gport_ok_def gm_path_priority_def vector_ok_def Let_def)

lemma better_port_eq:
  assumes "instance_ok s" "i < numberPorts s" "\<And>j. b = Some j \<Longrightarrow> j < numberPorts s"
  shows "better_port s i b = (if candidate s i \<and> received_key s i < best_key s b then Some i else b)"
proof -
  have ok: "vector_ok (vector_of s b)" "vector_ok (gm_path_priority s i)"
    using assms gm_path_ok by (auto simp: vector_of_def instance_ok_def split: option.splits)
  have r: "root_system_identity (gm_path_priority s i) = root_system_identity (port_priority (gport s i))"
    by (simp add: gm_path_priority_def Let_def)
  have l: "length (clock_identity (root_system_identity (port_priority (gport s i)))) = length (this_clock s)"
    using assms(1,2) by (auto simp: instance_ok_def gport_ok_def vector_ok_def system_ok_def)
  show ?thesis
    by (auto simp: better_port_def candidate_def r memcmp_eq_0 [OF l] compare_system_key [OF ok] best_key_def received_key_def)
qed

lemma best_loop:
  assumes "instance_ok s" "m \<le> numberPorts s"
  defines "b \<equiv> fold (better_port s) [0..<m] None"
  shows "(\<forall>j. b = Some j \<longrightarrow> j < m \<and> candidate s j) \<and> best_key s b \<le> own_key s \<and>
         (\<forall>i<m. candidate s i \<longrightarrow> best_key s b \<le> received_key s i)"
  using assms(2) unfolding b_def
proof (induction m)
  case 0
  then show ?case by (simp add: best_key_def own_key_def vector_of_def)
next
  case (Suc m)
  define b where "b = fold (better_port s) [0..<m] None"
  have IH: "\<forall>j. b = Some j \<longrightarrow> j < m \<and> candidate s j" "best_key s b \<le> own_key s"
    "\<forall>i<m. candidate s i \<longrightarrow> best_key s b \<le> received_key s i"
    using Suc by (simp_all add: b_def)
  have step: "fold (better_port s) [0..<Suc m] None = better_port s m b"
    by (simp add: b_def)
  have e: "better_port s m b = (if candidate s m \<and> received_key s m < best_key s b then Some m else b)"
    using Suc.prems IH(1) by (intro better_port_eq [OF assms(1)]) auto
  have k: "best_key s (Some m) = received_key s m"
    by (simp add: best_key_def received_key_def vector_of_def gm_path_priority_def Let_def)
  show ?case
  proof (cases "candidate s m \<and> received_key s m < best_key s b")
    case True
    then have "better_port s m b = Some m" using e by simp
    then show ?thesis unfolding step using True IH k
      by (auto simp: less_Suc_eq intro: order.trans [OF less_imp_le])
  next
    case False
    then have "better_port s m b = b" using e by auto
    then show ?thesis unfolding step using False IH
      by (auto simp: less_Suc_eq not_less)
  qed
qed

lemma best_vector_port_best:
  assumes "instance_ok s"
  shows "best_vector_port s = Some j \<Longrightarrow> j < numberPorts s \<and> candidate s j"
    and "best_key s (best_vector_port s) \<le> own_key s"
    and "i < numberPorts s \<Longrightarrow> candidate s i \<Longrightarrow> best_key s (best_vector_port s) \<le> received_key s i"
  using best_loop [OF assms order_refl] by (auto simp: best_vector_port_def)


subsection \<open>The roles of the ports\<close>

lemma updt_gm_fields [simp]:
  "numberPorts (updt_gm b s) = numberPorts s" "gport (updt_gm b s) = gport s" "selected_role (updt_gm b s) = selected_role s"
  "system_priority (updt_gm b s) = system_priority s" "this_clock (updt_gm b s) = this_clock s"
  "is_grandmaster (updt_gm b s) = is_grandmaster s" "path_trace (updt_gm b s) = path_trace s" "num_ptlv (updt_gm b s) = num_ptlv s"
  "root_system_identity (gm_priority (updt_gm b s)) = root_system_identity (vector_of s b)"
  by (simp_all add: updt_gm_def Let_def split: option.split)

lemma emit_fields [simp]:
  "gport (emit e s) = gport s" "numberPorts (emit e s) = numberPorts s" "selected_role (emit e s) = selected_role s"
  "gm_priority (emit e s) = gm_priority s" "gm_present (emit e s) = gm_present s" "is_grandmaster (emit e s) = is_grandmaster s"
  "this_clock (emit e s) = this_clock s" "system_priority (emit e s) = system_priority s" "path_trace (emit e s) = path_trace s"
  "num_ptlv (emit e s) = num_ptlv s" "selected (emit e s) = selected s" "reselect (emit e s) = reselect s"
  "begin_flag (emit e s) = begin_flag s" "instance_enable (emit e s) = instance_enable s" "automotive (emit e s) = automotive s"
  "port_state_sm_state (emit e s) = port_state_sm_state s" "master_steps_removed (emit e s) = master_steps_removed s"
  "external_port_configuration_enabled (emit e s) = external_port_configuration_enabled s"
  by (simp_all add: emit_def)

lemma own_path_fields [simp]:
  "gport (own_path s) = gport s" "numberPorts (own_path s) = numberPorts s" "selected_role (own_path s) = selected_role s"
  "gm_priority (own_path s) = gm_priority s" "gm_present (own_path s) = gm_present s" "is_grandmaster (own_path s) = is_grandmaster s"
  "this_clock (own_path s) = this_clock s" "system_priority (own_path s) = system_priority s" "selected (own_path s) = selected s"
  "reselect (own_path s) = reselect s"
  "begin_flag (own_path s) = begin_flag s" "instance_enable (own_path s) = instance_enable s" "automotive (own_path s) = automotive s"
  "port_state_sm_state (own_path s) = port_state_sm_state s" "master_steps_removed (own_path s) = master_steps_removed s"
  "external_port_configuration_enabled (own_path s) = external_port_configuration_enabled s"
  by (simp_all add: own_path_def)

lemma gm_status_fields [simp]:
  "gport (gptp_ipc_gm_status s) = gport s" "numberPorts (gptp_ipc_gm_status s) = numberPorts s"
  "selected_role (gptp_ipc_gm_status s) = selected_role s"
  "gm_priority (gptp_ipc_gm_status s) = gm_priority s" "gm_present (gptp_ipc_gm_status s) = gm_present s"
  "is_grandmaster (gptp_ipc_gm_status s) = is_grandmaster s"
  "this_clock (gptp_ipc_gm_status s) = this_clock s" "system_priority (gptp_ipc_gm_status s) = system_priority s"
  "path_trace (gptp_ipc_gm_status s) = path_trace s" "num_ptlv (gptp_ipc_gm_status s) = num_ptlv s"
  "selected (gptp_ipc_gm_status s) = selected s" "reselect (gptp_ipc_gm_status s) = reselect s"
  "begin_flag (gptp_ipc_gm_status s) = begin_flag s" "instance_enable (gptp_ipc_gm_status s) = instance_enable s"
  "automotive (gptp_ipc_gm_status s) = automotive s"
  "port_state_sm_state (gptp_ipc_gm_status s) = port_state_sm_state s" "master_steps_removed (gptp_ipc_gm_status s) = master_steps_removed s"
  "external_port_configuration_enabled (gptp_ipc_gm_status s) = external_port_configuration_enabled s"
  by (simp_all add: gptp_ipc_gm_status_def)

lemma gm_indication_fields [simp]:
  "gport (gptp_gm_indication v s) = gport s" "numberPorts (gptp_gm_indication v s) = numberPorts s"
  "selected_role (gptp_gm_indication v s) = selected_role s"
  "gm_priority (gptp_gm_indication v s) = gm_priority s" "gm_present (gptp_gm_indication v s) = gm_present s"
  "is_grandmaster (gptp_gm_indication v s) = is_grandmaster s"
  "this_clock (gptp_gm_indication v s) = this_clock s" "system_priority (gptp_gm_indication v s) = system_priority s"
  "path_trace (gptp_gm_indication v s) = path_trace s" "num_ptlv (gptp_gm_indication v s) = num_ptlv s"
  "selected (gptp_gm_indication v s) = selected s" "reselect (gptp_gm_indication v s) = reselect s"
  "begin_flag (gptp_gm_indication v s) = begin_flag s" "instance_enable (gptp_gm_indication v s) = instance_enable s"
  "automotive (gptp_gm_indication v s) = automotive s"
  "port_state_sm_state (gptp_gm_indication v s) = port_state_sm_state s" "master_steps_removed (gptp_gm_indication v s) = master_steps_removed s"
  "external_port_configuration_enabled (gptp_gm_indication v s) = external_port_configuration_enabled s"
  by (simp_all add: gptp_gm_indication_def Let_def)

lemma updt_system_fields [simp]:
  "gport (updt_system v s) = gport s" "numberPorts (updt_system v s) = numberPorts s"
  "gm_priority (updt_system v s) = gm_priority s" "this_clock (updt_system v s) = this_clock s"
  "system_priority (updt_system v s) = system_priority s" "selected (updt_system v s) = selected s" "reselect (updt_system v s) = reselect s"
  "begin_flag (updt_system v s) = begin_flag s" "instance_enable (updt_system v s) = instance_enable s"
  "automotive (updt_system v s) = automotive s" "port_state_sm_state (updt_system v s) = port_state_sm_state s"
  "master_steps_removed (updt_system v s) = master_steps_removed s"
  "external_port_configuration_enabled (updt_system v s) = external_port_configuration_enabled s"
  by (simp_all add: updt_system_def Let_def)

lemma updt_system_gm:
  "gm_present (updt_system v s) = (priority_1 (root_system_identity (gm_priority s)) < 255)"
  "is_grandmaster (updt_system v s) =
     (memcmp (clock_identity (root_system_identity (gm_priority s))) (this_clock s) = 0 \<and>
      priority_1 (root_system_identity (gm_priority s)) < 255)"
  "selected_role (updt_system v s) =
     (selected_role s)(0 := if list_ex (\<lambda>j. selected_role s j = SLAVE_PORT) [1..<numberPorts s + 1] then PASSIVE_PORT else SLAVE_PORT)"
  by (simp_all add: updt_system_def Let_def)


definition gm_root :: "gptp_instance \<Rightarrow> ptp_system_identity" where
  "gm_root s = root_system_identity (vector_of s (best_vector_port s))"

definition roles_state :: "gptp_instance \<Rightarrow> gptp_instance" where
  "roles_state s = updt_master (updt_gm (best_vector_port s) s)"

lemma roles_state_fields [simp]:
  "numberPorts (roles_state s) = numberPorts s" "this_clock (roles_state s) = this_clock s"
  "root_system_identity (gm_priority (roles_state s)) = gm_root s" "system_priority (roles_state s) = system_priority s"
  "gport (roles_state s) i = (if i < numberPorts s then (gport s i)\<lparr>master_priority := master_vector (updt_gm (best_vector_port s) s) i\<rparr>
     else gport s i)"
  by (simp_all add: roles_state_def updt_master_eq gm_root_def)

lemma roles_tree_eq:
  assumes "instance_ok s"
  shows "updt_roles_tree s = updt_system (vector_of s (best_vector_port s))
     ((roles_state s)\<lparr>gport := (\<lambda>i. if i < numberPorts s then (gport (roles_state s) i)\<lparr>updt_info := snd (port_role (roles_state s) (gport (roles_state s) i))\<rparr>
          else gport (roles_state s) i),
        selected_role := (\<lambda>j. if 1 \<le> j \<and> j \<le> numberPorts s then fst (port_role (roles_state s) (gport (roles_state s) (j - 1)))
          else selected_role (roles_state s) j)\<rparr>)"
proof -
  have "updt_roles (roles_state s) =
     (roles_state s)\<lparr>gport := (\<lambda>i. if i < numberPorts s then (gport (roles_state s) i)\<lparr>updt_info := snd (port_role (roles_state s) (gport (roles_state s) i))\<rparr>
          else gport (roles_state s) i),
        selected_role := (\<lambda>j. if 1 \<le> j \<and> j \<le> numberPorts s then fst (port_role (roles_state s) (gport (roles_state s) (j - 1)))
          else selected_role (roles_state s) j)\<rparr>"
    unfolding updt_roles_def roles_state_fields(1)
    by (rule updt_roles_loop) (use port_no(2) [OF assms] in simp)
  then show ?thesis by (simp only: updt_roles_tree_def Let_def roles_state_def)
qed

text \<open>The role of port \<open>i\<close> when the grandmaster is \<open>g\<close>.\<close>

definition role_for :: "ptp_system_identity \<Rightarrow> gptp_port \<Rightarrow> ptp_port_role" where
  "role_for g p =
     (case info_is p of
        SPANNING_TREE_DISABLED \<Rightarrow> DISABLED_PORT
      | SPANNING_TREE_AGED \<Rightarrow> MASTER_PORT
      | SPANNING_TREE_MINE \<Rightarrow> MASTER_PORT
      | SPANNING_TREE_RECEIVED \<Rightarrow>
          let r = root_system_identity (port_priority p)
          in if clock_identity r = clock_identity g then SLAVE_PORT
             else if system_key g < system_key r then MASTER_PORT else PASSIVE_PORT)"

lemma gm_root_ok: "instance_ok s \<Longrightarrow> system_ok (gm_root s)"
  using best_vector_port_best(1) gm_path_ok
  by (cases "best_vector_port s") (auto simp: gm_root_def vector_of_def instance_ok_def vector_ok_def)

lemma port_role_roles_state:
  assumes "instance_ok s" "i < numberPorts s"
  shows "fst (port_role (roles_state s) (gport (roles_state s) i)) = role_for (gm_root s) (gport s i)"
proof -
  let ?m = "master_vector (updt_gm (best_vector_port s) s) i"
  let ?v = "port_priority (gport s i)"
  have ok: "vector_ok ?m" "vector_ok ?v"
    using assms gm_root_ok [OF assms(1)]
    by (auto simp: master_vector_def vector_ok_def instance_ok_def gport_ok_def gm_root_def)
  have m: "root_system_identity ?m = gm_root s"
    by (simp add: master_vector_def gm_root_def)
  have l: "length (clock_identity (gm_root s)) = length (clock_identity (root_system_identity ?v))"
    using ok(2) gm_root_ok [OF assms(1)] by (simp add: vector_ok_def system_ok_def)
  have a: "compare_system_identity ?m ?v = BMCA_VECTOR_A_BETTER \<longleftrightarrow> system_key (gm_root s) < system_key (root_system_identity ?v)"
    by (simp add: compare_system_key [OF ok] m)
  show ?thesis
    using assms(2)
    by (cases "info_is (gport s i)")
      (simp_all add: port_role_def role_for_def Let_def compare_clock_identity_def memcmp_eq_0 [OF l] a eq_commute [of "clock_identity (gm_root s)"])
qed

lemma selected_role_tree:
  assumes "instance_ok s" "1 \<le> j" "j \<le> numberPorts s"
  shows "selected_role (updt_roles_tree s) j = role_for (gm_root s) (gport s (j - 1))"
proof -
  have "j - 1 < numberPorts s" using assms by arith
  then show ?thesis
    using assms port_role_roles_state [of s "j - 1"] by (simp add: roles_tree_eq updt_system_gm)
qed

lemma gport_tree:
  assumes "instance_ok s"
  shows "gport (updt_roles_tree s) i =
    (if i < numberPorts s
     then (gport s i)\<lparr>master_priority := master_vector (updt_gm (best_vector_port s) s) i,
        updt_info := snd (port_role (roles_state s) (gport (roles_state s) i))\<rparr>
     else gport s i)"
  using assms by (simp add: roles_tree_eq)

lemma role_of_tree:
  assumes "instance_ok s" "i < numberPorts s"
  shows "role_of (updt_roles_tree s) i = role_for (gm_root s) (gport s i)"
proof -
  have "identity_number (gport (updt_roles_tree s) i) = identity_number (gport s i)"
    using assms by (simp add: gport_tree)
  then show ?thesis
    using assms selected_role_tree [of s "i + 1"] port_no(2) [OF assms] by (simp add: role_of_def)
qed

lemma gm_root_tree: "instance_ok s \<Longrightarrow> root_system_identity (gm_priority (updt_roles_tree s)) = gm_root s"
  by (simp add: roles_tree_eq)

lemma slave_port_exists:
  assumes "instance_ok s"
  shows "list_ex (\<lambda>j. selected_role (updt_roles_tree s) j = SLAVE_PORT) [1..<numberPorts s + 1] \<longleftrightarrow>
    (\<exists>i<numberPorts s. role_of (updt_roles_tree s) i = SLAVE_PORT)"
proof -
  have "(\<exists>j. 1 \<le> j \<and> j \<le> numberPorts s \<and> P (j - 1)) \<longleftrightarrow> (\<exists>i<numberPorts s. P i)" for P :: "nat \<Rightarrow> bool"
    by (metis Suc_eq_plus1 Suc_leI Suc_le_lessD add_diff_cancel_right' le_add2 le_add_diff_inverse2)
  from this [of "\<lambda>i. role_for (gm_root s) (gport s i) = SLAVE_PORT"] show ?thesis
    using assms by (auto simp: list_ex_iff selected_role_tree role_of_tree less_Suc_eq_le)
qed

lemma port0_role:
  assumes "instance_ok s"
  shows "selected_role (updt_roles_tree s) 0 =
    (if \<exists>i<numberPorts s. role_of (updt_roles_tree s) i = SLAVE_PORT then PASSIVE_PORT else SLAVE_PORT)"
proof -
  obtain v r where tree: "updt_roles_tree s = updt_system v r" and n: "numberPorts r = numberPorts s"
    using roles_tree_eq [OF assms] by simp
  have "selected_role (updt_roles_tree s) j = selected_role r j" if "j \<noteq> 0" for j
    using that by (simp add: tree updt_system_gm)
  then have "list_ex (\<lambda>j. selected_role r j = SLAVE_PORT) [1..<numberPorts s + 1] \<longleftrightarrow>
    list_ex (\<lambda>j. selected_role (updt_roles_tree s) j = SLAVE_PORT) [1..<numberPorts s + 1]"
    by (auto simp: list_ex_iff)
  then show ?thesis
    using slave_port_exists [OF assms] by (simp add: tree updt_system_gm n)
qed

lemma gm_root_best:
  assumes "instance_ok s"
  shows "gm_root s = root_system_identity (system_priority s) \<or>
         (\<exists>i<numberPorts s. candidate s i \<and> gm_root s = root_system_identity (port_priority (gport s i)))"
    and "system_key (gm_root s) \<le> own_key s"
    and "i < numberPorts s \<Longrightarrow> candidate s i \<Longrightarrow> system_key (gm_root s) \<le> received_key s i"
  using best_vector_port_best [OF assms]
  by (cases "best_vector_port s"; force simp: gm_root_def best_key_def vector_of_def gm_path_priority_def Let_def)+

text \<open>
  C14: One run of \<open>updt_roles_tree\<close> on a well-formed instance. The grandmaster it stores in
  \<open>gm_priority\<close> is the best system of the instance's own and those received on the ports that have not
  timed out (never this clock's own identity heard back), in the order of the standard; every port gets
  the role that follows from its information and that grandmaster; port 0 is the slave exactly when no
  other port is; the instance acts as grandmaster exactly when the selected clock is its own and its
  priority1 is below 255.
\<close>

theorem bmca_selects_best_master:
  assumes "instance_ok s"
  defines "t \<equiv> updt_roles_tree s"
  defines "g \<equiv> root_system_identity (gm_priority t)"
  shows "(g = root_system_identity (system_priority s) \<or>
            (\<exists>i<numberPorts s. candidate s i \<and> g = root_system_identity (port_priority (gport s i)))) \<and>
         system_key g \<le> own_key s \<and> (\<forall>i<numberPorts s. candidate s i \<longrightarrow> system_key g \<le> received_key s i) \<and>
         (\<forall>i<numberPorts s. role_of t i = role_for g (gport s i)) \<and>
         selected_role t 0 = (if \<exists>i<numberPorts s. role_of t i = SLAVE_PORT then PASSIVE_PORT else SLAVE_PORT) \<and>
         gm_present t = (priority_1 g < 255) \<and> is_grandmaster t = (clock_identity g = this_clock s \<and> priority_1 g < 255)"
proof -
  have g: "g = gm_root s" using assms gm_root_tree by simp
  have l: "length (clock_identity (gm_root s)) = length (this_clock s)"
    using gm_root_ok [OF assms(1)] assms(1) by (simp add: system_ok_def instance_ok_def)
  have "gm_present t = (priority_1 g < 255)" "is_grandmaster t = (clock_identity g = this_clock s \<and> priority_1 g < 255)"
    unfolding t_def g roles_tree_eq [OF assms(1)] by (simp_all add: updt_system_gm memcmp_eq_0 [OF l])
  then show ?thesis
    using gm_root_best [OF assms(1)] role_of_tree [OF assms(1)] port0_role [OF assms(1)] unfolding g by (simp add: t_def)
qed

end
