(* ===== verification/GPTP_BMCA_Inv.thy ===== *)
theory GPTP_BMCA_Inv
  imports GPTP_BMCA_Proofs
begin

section \<open>gPTP best master selection: invariants and termination of the state machines\<close>

text \<open>
  The information and selection machines call each other to any depth, so what they keep is proved once,
  for any predicate that each of their actions keeps (the locale \<open>bmca_invariant\<close>), and then obtained by
  interpretation. The second part bounds the fuel the machines need.
\<close>

subsection \<open>Predicates kept by every action\<close>

definition keeps :: "('a \<Rightarrow> bool) \<Rightarrow> ('a \<Rightarrow> 'a option) \<Rightarrow> bool" where
  "keeps I f \<longleftrightarrow> (\<forall>s t. I s \<longrightarrow> f s = Some t \<longrightarrow> I t)"

lemma keepsI [intro?]: "(\<And>s t. I s \<Longrightarrow> f s = Some t \<Longrightarrow> I t) \<Longrightarrow> keeps I f"
  by (simp add: keeps_def)

lemma keepsD: "keeps I f \<Longrightarrow> f s = Some t \<Longrightarrow> I s \<Longrightarrow> I t"
  by (auto simp: keeps_def)

locale bmca_invariant =
  fixes I :: "gptp_instance \<Rightarrow> bool" and N :: nat
  assumes ports: "I s \<Longrightarrow> numberPorts s = N"
    and transmit_init: "I s \<Longrightarrow> i < N \<Longrightarrow> I (port_announce_transmit_sm_transmit_init i s)"
    and transmit_idle: "I s \<Longrightarrow> i < N \<Longrightarrow> I (port_announce_transmit_sm_idle i s)"
    and transmit_periodic: "I s \<Longrightarrow> i < N \<Longrightarrow> I (port_announce_transmit_sm_transmit_periodic i s)"
    and transmit_announce: "I s \<Longrightarrow> i < N \<Longrightarrow> I (port_announce_transmit_sm_transmit_announce i s)"
    and disabled: "I s \<Longrightarrow> i < N \<Longrightarrow> I (info_disabled_state i s)"
    and aged: "I s \<Longrightarrow> i < N \<Longrightarrow> I (info_aged_state i s)"
    and received: "I s \<Longrightarrow> i < N \<Longrightarrow> I (upd_gport i rcv_info s)"
    and superior: "I s \<Longrightarrow> i < N \<Longrightarrow> I (info_superior_state i s)"
    and repeated: "I s \<Longrightarrow> i < N \<Longrightarrow> I (port_announce_info_sm_repeated i s)"
    and inferior: "I s \<Longrightarrow> i < N \<Longrightarrow> I (port_announce_info_sm_inferior i s)"
    and update: "I s \<Longrightarrow> i < N \<Longrightarrow> I (info_update_state i s)"
    and current: "I s \<Longrightarrow> i < N \<Longrightarrow> I (port_announce_info_sm_current i s)"
    and init_bridge: "I s \<Longrightarrow> I (port_state_selection_sm_init_bridge s)"
    and roles: "I s \<Longrightarrow> I (updt_roles_tree (clear_reselect_tree s))"
    and select_all: "I s \<Longrightarrow> I (s\<lparr>selected := 0xffff\<rparr>)"
    and selection: "I s \<Longrightarrow> I (s\<lparr>port_state_sm_state := STATE_SELECTION\<rparr>)"
begin

lemma machine_step_inv: "I s \<Longrightarrow> i < N \<Longrightarrow> I (port_announce_transmit_step i ev s)"
  by (auto simp: port_announce_transmit_step_def transmit_idle transmit_periodic transmit_announce
      split: port_announce_transmit_sm_state.split)

lemma loop_inv: "I s \<Longrightarrow> i < N \<Longrightarrow> I (transmit_loop i ev s)"
proof (induction i ev s rule: transmit_loop.induct)
  case (1 i ev s)
  have "I (port_announce_transmit_step i ev s)" using 1 by (intro machine_step_inv)
  with 1 show ?case by (subst transmit_loop.simps) (simp add: Let_def)
qed

lemma transmit_inv: "I s \<Longrightarrow> i < N \<Longrightarrow> I (port_announce_transmit_sm i ev s)"
  by (auto simp: port_announce_transmit_sm_def intro: loop_inv transmit_init)

lemma receive_inv:
  assumes k: "keeps I sel" and s: "I s" "i < N" and r: "port_announce_info_sm_receive sel i s = Some t"
  shows "I t"
proof -
  have s1: "I (upd_gport i rcv_info s)" using s by (rule received)
  show ?thesis
  proof (cases "rcvdInfo (gport (upd_gport i rcv_info s) i)")
    case SUPERIOR_MASTER_INFO
    then have "sel (info_superior_state i (upd_gport i rcv_info s)) = Some t"
      using r by (simp add: port_announce_info_sm_receive_def port_announce_info_sm_superior_def)
    then show ?thesis by (rule keepsD [OF k]) (rule superior [OF s1 s(2)])
  qed (use r repeated [OF s1 s(2)] inferior [OF s1 s(2)] s1 in \<open>auto simp: port_announce_info_sm_receive_def\<close>)
qed

lemma switch_inv:
  assumes k: "keeps I sel" and s: "I s" "i < N" and r: "port_announce_info_switch sel i ev s = Some t"
  shows "I t"
proof -
  have "I t" if "port_announce_info_sm_aged sel i s = Some t"
    using that keepsD [OF k _ aged [OF s]] by (simp add: port_announce_info_sm_aged_def)
  moreover have "I t" if "port_announce_info_sm_disabled sel i s = Some t"
    using that keepsD [OF k _ disabled [OF s]] by (simp add: port_announce_info_sm_disabled_def)
  moreover have "I (port_announce_info_sm_update i s)"
    unfolding port_announce_info_sm_update_def using s by (intro transmit_inv update)
  ultimately show ?thesis
    using r s receive_inv [OF k s] current [OF s]
    by (simp add: port_announce_info_switch_def Let_def split: port_announce_info_sm_state.splits if_splits)
qed

lemma info_body_inv:
  assumes k: "keeps I sel" "keeps I (again i INFO_EVENT_RUN)" and s: "i < N"
  shows "keeps I (info_body sel again i ev)"
proof
  fix s t assume I: "I s" and r: "info_body sel again i ev s = Some t"
  have "I t" if "port_announce_info_sm_disabled sel i s = Some t"
    using that keepsD [OF k(1) _ disabled [OF I s]] by (simp add: port_announce_info_sm_disabled_def)
  moreover have "I t" if "port_announce_info_switch sel i ev s = Some t"
    using switch_inv [OF k(1) I s that] .
  moreover have "I t" if "port_announce_info_switch sel i ev s = Some s'" "again i INFO_EVENT_RUN s' = Some t" for s'
    using keepsD [OF k(2) that(2)] switch_inv [OF k(1) I s that(1)] by simp
  ultimately show "I t"
    using r I unfolding info_body_def Let_def by (simp split: if_splits option.splits)
qed

lemma run_ports_inv:
  assumes "\<And>i. i < N \<Longrightarrow> keeps I (info i)" "\<forall>i\<in>set is. i < N"
  shows "keeps I (run_ports info is)"
  using assms(2)
proof (induction "is")
  case (Cons i "is")
  show ?case
  proof
    fix s t assume I: "I s" and r: "run_ports info (i # is) s = Some t"
    obtain s' where s': "info i s = Some s'" "run_ports info is (port_announce_transmit_sm i TRANSMIT_EVENT_RUN s') = Some t"
      using r by (auto split: option.splits)
    have "I s'" using keepsD [OF assms(1) s'(1) I] Cons.prems by simp
    then have "I (port_announce_transmit_sm i TRANSMIT_EVENT_RUN s')" using transmit_inv Cons.prems by simp
    moreover have k: "keeps I (run_ports info is)" using Cons by simp
    ultimately show "I t" using keepsD [OF k s'(2)] by simp
  qed
qed (simp add: keeps_def)

lemma selection_inv:
  assumes "\<And>i. i < N \<Longrightarrow> keeps I (info i)"
  shows "keeps I (port_state_selection_sm_selection info)"
proof
  fix s t assume I: "I s" and r: "port_state_selection_sm_selection info s = Some t"
  let ?s = "updt_roles_tree (clear_reselect_tree s)"
  obtain t' where t': "run_ports info [0..<numberPorts ?s] (?s\<lparr>selected := 0xffff\<rparr>) = Some t'" "t = t'\<lparr>port_state_sm_state := STATE_SELECTION\<rparr>"
    using r by (auto simp: port_state_selection_sm_selection_def set_selected_tree_def)
  have "I ?s" using I by (rule roles)
  then have k: "keeps I (run_ports info [0..<numberPorts ?s])" and sel: "I (?s\<lparr>selected := 0xffff\<rparr>)"
    using ports [of ?s] by (auto intro: run_ports_inv assms select_all)
  have "I t'" by (rule keepsD [OF k t'(1) sel])
  then show "I t" unfolding t'(2) by (rule selection)
qed

lemma select_body_inv:
  assumes k: "\<And>i. i < N \<Longrightarrow> keeps I (info i INFO_EVENT_RUN)" "keeps I again"
  shows "keeps I (select_body info again)"
proof
  fix s t assume I: "I s" and r: "select_body info again s = Some t"
  have sel: "keeps I (port_state_selection_sm_selection (\<lambda>i. info i INFO_EVENT_RUN))"
    using k(1) by (rule selection_inv)
  have "I t" if "port_state_selection_sm_selection (\<lambda>i. info i INFO_EVENT_RUN) s = Some t"
    using keepsD [OF sel that I] .
  moreover have "I t" if "port_state_selection_sm_selection (\<lambda>i. info i INFO_EVENT_RUN) s = Some s'" "again s' = Some t" for s'
    using keepsD [OF k(2) that(2)] keepsD [OF sel that(1) I] by simp
  ultimately show "I t"
    using r I init_bridge [OF I] unfolding select_body_def
    by (simp split: if_splits port_state_sm_state.splits option.splits)
qed

lemma machines_inv: "(\<forall>i<N. \<forall>ev. keeps I (port_announce_info_sm n i ev)) \<and> keeps I (port_state_selection_sm n)"
proof (induction n)
  case (Suc n)
  then show ?case by (simp add: info_body_inv select_body_inv)
qed (simp add: keeps_def)

lemma info_inv: "port_announce_info_sm n i ev s = Some t \<Longrightarrow> I s \<Longrightarrow> i < N \<Longrightarrow> I t"
  by (rule keepsD [of I "port_announce_info_sm n i ev" s]) (simp_all add: machines_inv)

lemma select_inv: "port_state_selection_sm n s = Some t \<Longrightarrow> I s \<Longrightarrow> I t"
  by (rule keepsD [OF conjunct2 [OF machines_inv]])

end

text \<open>The reception of Announce messages and the handlers of the timers.\<close>

locale bmca_handlers = bmca_invariant +
  assumes discard: "I s \<Longrightarrow> i < N \<Longrightarrow> I (port_announce_rcv_sm_discard i s)"
    and qualifies: "I s \<Longrightarrow> i < N \<Longrightarrow> I (snd (qualify_announce i s))"
    and accepted: "I s \<Longrightarrow> i < N \<Longrightarrow> I (upd_gport i (\<lambda>p. p\<lparr>rcvd_announce_par := False, rcvd_msg := q, rcv_sm_state := RCV_RECEIVE\<rparr>) s)"
    and stored: "I s \<Longrightarrow> i < N \<Longrightarrow> length msg \<le> SIZEOF_ANNOUNCE_PDU \<Longrightarrow>
      I (upd_gport i (\<lambda>p. p\<lparr>announce_rx := msg @ drop (length msg) (announce_rx p), rcvd_announce_ptr := True, rcvd_announce_par := True\<rparr>) s)"
    and counted: "I s \<Longrightarrow> i < N \<Longrightarrow> I (upd_gport i (\<lambda>p. p\<lparr>num_rx_announce := a p\<rparr>) s)"
      "I s \<Longrightarrow> i < N \<Longrightarrow> I (upd_gport i (\<lambda>p. p\<lparr>num_rx_announce_dropped := a p\<rparr>) s)"
      "I s \<Longrightarrow> i < N \<Longrightarrow> I (upd_gport i (\<lambda>p. p\<lparr>timeout_timer := None, num_rx_announce_timeout := a p\<rparr>) s)"
      "I s \<Longrightarrow> i < N \<Longrightarrow> I (upd_gport i (\<lambda>p. p\<lparr>num_rx_sync_timeout := a p\<rparr>) s)"
      "I s \<Longrightarrow> i < N \<Longrightarrow> I (upd_gport i (\<lambda>p. p\<lparr>transmit_timer := None\<rparr>) s)"
begin

lemma rcv_switch_inv:
  assumes "port_announce_rcv_switch n i s = Some t" and s: "I s" "i < N"
  shows "I t"
proof -
  have "I t" if "port_announce_rcv_sm_receive n i s = Some t"
    using that unfolding port_announce_rcv_sm_receive_def Let_def split_beta
    by (rule info_inv) (use s in \<open>auto intro: accepted qualifies\<close>)
  then show ?thesis using assms by (simp add: port_announce_rcv_switch_def Let_def split: if_splits)
qed

lemma rcv_inv:
  assumes "port_announce_rcv_sm n i s = Some t" and s: "I s" "i < N"
  shows "I t"
  using assms discard [OF s] rcv_switch_inv [OF _ s] rcv_switch_inv [OF _ _ s(2)]
  by (simp add: port_announce_rcv_sm_def Let_def split: if_splits option.splits)

lemma handle_announce_inv:
  assumes "gptp_handle_announce n i msg s = Some t" and s: "I s" "i < N"
  shows "I t"
proof (cases "\<not> gm_id_static (gport s i) \<and> length msg \<le> SIZEOF_ANNOUNCE_PDU")
  case True
  then have "port_announce_rcv_sm n i
      (upd_gport i (\<lambda>p. p\<lparr>announce_rx := msg @ drop (length msg) (announce_rx p), rcvd_announce_ptr := True, rcvd_announce_par := True\<rparr>)
        (upd_gport i (\<lambda>p. p\<lparr>num_rx_announce := num_rx_announce p + 1\<rparr>) s)) = Some t"
    using assms(1) by (simp add: gptp_handle_announce_def Let_def)
  then show ?thesis by (rule rcv_inv) (use True s in \<open>auto intro: stored counted\<close>)
next
  case False
  then show ?thesis using assms counted(1,2) by (auto simp: gptp_handle_announce_def Let_def)
qed

lemma as_capable_inv:
  assumes "gptp_as_capable_update_fsm n i s = Some t" and s: "I s" "i < N"
  shows "I t"
  using assms(1) info_inv [OF _ s] rcv_inv [OF _ _ s(2)]
  by (simp add: gptp_as_capable_update_fsm_def split: option.splits)

lemma announce_timeout_inv: "gptp_announce_receive_timeout_timer_handler n i s = Some t \<Longrightarrow> I s \<Longrightarrow> i < N \<Longrightarrow> I t"
  unfolding gptp_announce_receive_timeout_timer_handler_def by (erule info_inv) (rule counted)

lemma sync_timeout_inv: "gptp_sync_receive_timeout_timer_handler n i s = Some t \<Longrightarrow> I s \<Longrightarrow> i < N \<Longrightarrow> I t"
  unfolding gptp_sync_receive_timeout_timer_handler_def by (erule info_inv) (rule counted)

lemma transmit_timer_inv: "I s \<Longrightarrow> i < N \<Longrightarrow> I (gptp_announce_transmit_timer_handler i s)"
  unfolding gptp_announce_transmit_timer_handler_def by (intro transmit_inv counted)

end


subsection \<open>Well-formedness and configuration\<close>

text \<open>What the machines only read.\<close>

definition port_conf :: "gptp_port \<Rightarrow> u16 \<times> clock_id \<times> bool \<times> bool \<times> bool \<times> bool" where
  "port_conf p = (identity_number p, identity_clock_id p, port_usable p, gm_id_static p, asymmetry p, port_oper p)"

type_synonym inst_conf = "nat \<times> clock_id \<times> ptp_priority_vector \<times> bool \<times> bool \<times> bool \<times> bool \<times> (nat \<Rightarrow> u16 \<times> clock_id \<times> bool \<times> bool \<times> bool \<times> bool)"

definition inst_conf :: "gptp_instance \<Rightarrow> inst_conf" where
  "inst_conf s = (numberPorts s, this_clock s, system_priority s, automotive s, begin_flag s, instance_enable s,
     external_port_configuration_enabled s, \<lambda>i. port_conf (gport s i))"

definition ok_conf :: "inst_conf \<Rightarrow> gptp_instance \<Rightarrow> bool" where
  "ok_conf c s \<longleftrightarrow> instance_ok s \<and> inst_conf s = c"

lemma ok_confD:
  assumes "ok_conf c s"
  shows "instance_ok s" "inst_conf s = c" "numberPorts s = fst c"
  using assms by (auto simp: ok_conf_def inst_conf_def)

lemma ok_conf_upd:
  assumes "ok_conf c s" "\<And>p. gport_ok (this_clock s) i p \<Longrightarrow> gport_ok (this_clock s) i (f p)" "\<And>p. port_conf (f p) = port_conf p"
  shows "ok_conf c (upd_gport i f s)"
  using assms by (auto simp: ok_conf_def instance_ok_def inst_conf_def upd_gport_def fun_eq_iff)

lemma ok_conf_cong:
  assumes "ok_conf c s" "numberPorts t = numberPorts s" "gport t = gport s" "this_clock t = this_clock s"
    "system_priority t = system_priority s" "automotive t = automotive s" "begin_flag t = begin_flag s"
    "instance_enable t = instance_enable s" "external_port_configuration_enabled t = external_port_configuration_enabled s"
    "gm_priority t = gm_priority s"
    "path_trace t = path_trace s \<and> num_ptlv t = num_ptlv s \<or> path_trace t = path_trace (own_path s) \<and> num_ptlv t = 1"
  shows "ok_conf c t"
  using assms unfolding ok_conf_def instance_ok_def inst_conf_def
  by (auto simp: own_path_def list_all_iff)

lemma vector_of_announce:
  assumes "gport_ok this i p"
  shows "vector_ok (copy_priority_vector_from_message q (announce_of p))"
  using assms by (simp add: gport_ok_def vector_ok_def system_ok_def copy_priority_vector_from_message_def announce_of_def announce_fields_def)

lemma rcv_info_ok: "gport_ok this i p \<Longrightarrow> gport_ok this i (rcv_info p)"
  using vector_of_announce [of this i p p] by (simp add: rcv_info_def Let_def gport_ok_def)

lemma record_conf: "port_conf (record_other_announce_info m p) = port_conf p"
  by (simp add: port_conf_def record_other_announce_info_def port_usable_def)

lemma path_sequence_ok:
  assumes "length b = SIZEOF_ANNOUNCE_PDU"
  shows "length (an_path_sequence (announce_fields b)) = 16" "list_all (\<lambda>c. length c = 8) (an_path_sequence (announce_fields b))"
  using assms by (auto simp: announce_fields_def list_all_iff)

lemma ok_conf_reselect: "ok_conf c s \<Longrightarrow> ok_conf c (request_reselect i s)"
  by (erule ok_conf_cong) (simp_all add: request_reselect_def Let_def)

lemma ok_conf_gm_change: "ok_conf c s \<Longrightarrow> ok_conf c (gm_change s)"
  by (erule ok_conf_cong) (simp_all add: gm_change_def Let_def)

lemma ok_conf_emit: "ok_conf c s \<Longrightarrow> ok_conf c (emit e s)"
  by (erule ok_conf_cong) simp_all

lemma ok_conf_transmit:
  "ok_conf c s \<Longrightarrow> ok_conf c (port_announce_transmit_sm_transmit_announce i s)"
  unfolding port_announce_transmit_sm_transmit_announce_def md_announce_transmit_def
  by (intro ok_conf_upd ok_conf_emit)
    (simp_all add: gport_ok_def port_conf_def port_usable_def announce_interval_update_def)

lemma updt_gm_conf [simp]:
  "automotive (updt_gm b s) = automotive s" "begin_flag (updt_gm b s) = begin_flag s" "instance_enable (updt_gm b s) = instance_enable s"
  "external_port_configuration_enabled (updt_gm b s) = external_port_configuration_enabled s"
  "port_state_sm_state (updt_gm b s) = port_state_sm_state s"
  by (simp_all add: updt_gm_def Let_def split: option.split)

lemma gm_priority_ok:
  assumes "instance_ok s" shows "vector_ok (gm_priority (updt_gm (best_vector_port s) s))"
  using assms best_vector_port_best(1) [OF assms] gm_path_ok [OF assms]
  by (cases "best_vector_port s") (auto simp: updt_gm_def Let_def vector_of_def instance_ok_def vector_ok_def)

lemma updt_system_path:
  "path_trace (updt_system v s) = path_trace s \<and> num_ptlv (updt_system v s) = num_ptlv s \<or>
   path_trace (updt_system v s) = path_trace (own_path s) \<and> num_ptlv (updt_system v s) = 1"
  by (simp add: updt_system_def Let_def) (simp add: own_path_def)

lemma ok_conf_roles:
  assumes "ok_conf c s" shows "ok_conf c (updt_roles_tree s)"
proof -
  have s: "instance_ok s" "inst_conf s = c" using assms by (simp_all add: ok_conf_def)
  let ?r = "(roles_state s)\<lparr>gport := (\<lambda>i. if i < numberPorts s then (gport (roles_state s) i)\<lparr>updt_info := snd (port_role (roles_state s) (gport (roles_state s) i))\<rparr>
          else gport (roles_state s) i),
        selected_role := (\<lambda>j. if 1 \<le> j \<and> j \<le> numberPorts s then fst (port_role (roles_state s) (gport (roles_state s) (j - 1)))
          else selected_role (roles_state s) j)\<rparr>"
  have m: "vector_ok (master_vector (updt_gm (best_vector_port s) s) i)" for i
    using gm_priority_ok [OF s(1)] s(1) by (simp add: master_vector_def vector_ok_def instance_ok_def)
  have c: "inst_conf ?r = c" unfolding s(2) [symmetric]
    by (auto simp: inst_conf_def roles_state_def updt_master_eq fun_eq_iff port_conf_def port_usable_def)
  have "vector_ok (gm_priority (roles_state s))"
    using gm_priority_ok [OF s(1)] by (simp add: roles_state_def updt_master_eq)
  moreover have "gport_ok (this_clock s) i (gport ?r i)" if "i < numberPorts s" for i
    using s(1) that m by (simp add: instance_ok_def gport_ok_def)
  ultimately have "instance_ok ?r"
    using s(1) by (simp add: instance_ok_def) (simp add: roles_state_def updt_master_eq)
  with c have "ok_conf c ?r" by (simp only: ok_conf_def)
  then show ?thesis unfolding roles_tree_eq [OF s(1)]
    by (rule ok_conf_cong) (simp_all only: updt_system_fields updt_system_path)
qed

lemma ok_conf_qualify:
  assumes "ok_conf c s" "i < fst c"
  shows "ok_conf c (snd (qualify_announce i s))"
proof -
  have s: "instance_ok s" "i < numberPorts s" using assms ok_confD by auto
  let ?m = "announce_of (gport s i)"
  have p: "length (announce_rx (gport s i)) = SIZEOF_ANNOUNCE_PDU" "length (identity_clock_id (gport s i)) = 8"
    using s by (auto simp: instance_ok_def gport_ok_def)
  have n: "tlv_entries ?m \<le> 15" by (simp add: tlv_entries_def)
  have q: "length (an_path_sequence ?m) = 16" "list_all (\<lambda>c. length c = 8) (an_path_sequence ?m)"
    unfolding announce_of_def using path_sequence_ok [OF p(1)] by auto
  let ?t = "s\<lparr>path_trace := take (tlv_entries ?m) (an_path_sequence ?m) @ [identity_clock_id (gport s i)] @ drop (tlv_entries ?m + 1) (path_trace s),
      num_ptlv := of_nat (tlv_entries ?m + 1)\<rparr>"
  have "of_nat (tlv_entries ?m + 1) \<le> (16 :: u16)"
    using n by (simp add: word_le_nat_alt unat_of_nat take_bit_nat_eq_self del: of_nat_add of_nat_Suc)
  then have "ok_conf c ?t"
    using assms(1) p(2) q n by (auto simp: ok_conf_def instance_ok_def inst_conf_def list_all_iff dest: in_set_takeD in_set_dropD)
  then have "ok_conf c (record_path_trace ?m (identity_clock_id (gport s i)) s)"
    unfolding record_path_trace_def Let_def by (rule ok_conf_cong) simp_all
  then show ?thesis using assms(1) by (simp add: qualify_announce_def Let_def)
qed

interpretation ok: bmca_handlers "ok_conf c" "fst c" for c
proof (unfold_locales, goal_cases)
  case (1 s)
  then show ?case by (simp add: ok_confD)
next
  case (5 s i)
  then show ?case by (intro ok_conf_transmit)
next
  case (8 s i)
  then show ?case by (intro ok_conf_upd rcv_info_ok) (simp_all add: rcv_info_def Let_def port_conf_def port_usable_def)
next
  case (9 s i)
  then show ?case unfolding info_superior_state_def
    by (intro ok_conf_gm_change ok_conf_reselect ok_conf_upd)
      (simp_all add: superior_port_def Let_def gport_ok_def record_other_announce_info_def port_conf_def port_usable_def)
next
  case (14 s)
  then show ?case by (rule ok_conf_cong)
    (simp_all add: port_state_selection_sm_init_bridge_def updt_role_disabled_tree_def own_path_def)
next
  case (15 s)
  then have "ok_conf c (clear_reselect_tree s)" by (rule ok_conf_cong) (simp_all add: clear_reselect_tree_def)
  then show ?case by (rule ok_conf_roles)
next
  case (16 s)
  then show ?case by (rule ok_conf_cong) simp_all
next
  case (17 s)
  then show ?case by (rule ok_conf_cong) simp_all
next
  case (19 s i)
  then show ?case by (rule ok_conf_qualify)
qed (simp_all only: port_announce_transmit_sm_transmit_init_def port_announce_transmit_sm_idle_def port_announce_transmit_sm_transmit_periodic_def
    info_disabled_state_def info_aged_state_def port_announce_info_sm_repeated_def port_announce_info_sm_inferior_def info_update_state_def
    port_announce_info_sm_current_def port_announce_rcv_sm_discard_def,
  (intro ok_conf_gm_change ok_conf_reselect ok_conf_upd; simp add: gport_ok_def port_conf_def port_usable_def)+)

end
