(* ===== verification/GPTP_BMCA_Term.thy ===== *)
theory GPTP_BMCA_Term
  imports GPTP_BMCA_Inv
begin

section \<open>gPTP best master selection: the state machines stop\<close>

text \<open>
  A call of the selection machine from the information machine uses up something of the port that made
  it: a received message, or a disabled state to leave or to enter. The weight of an instance counts
  these; the rank of a port counts the transitions that call nothing.
\<close>

subsection \<open>Fuel is monotone\<close>

definition le_opt :: "('a \<Rightarrow> 'b option) \<Rightarrow> ('a \<Rightarrow> 'b option) \<Rightarrow> bool" where
  "le_opt f g \<longleftrightarrow> (\<forall>x y. f x = Some y \<longrightarrow> g x = Some y)"

lemma le_optI [intro?]: "(\<And>x y. f x = Some y \<Longrightarrow> g x = Some y) \<Longrightarrow> le_opt f g"
  by (simp add: le_opt_def)

lemma le_optD: "le_opt f g \<Longrightarrow> f x = Some y \<Longrightarrow> g x = Some y"
  by (simp add: le_opt_def)

lemma switch_mono:
  assumes "le_opt f g" shows "le_opt (port_announce_info_switch f i ev) (port_announce_info_switch g i ev)"
proof
  fix s t assume r: "port_announce_info_switch f i ev s = Some t"
  have "port_announce_info_sm_receive g i s = Some t" if "port_announce_info_sm_receive f i s = Some t"
    using that le_optD [OF assms, of _ t]
    by (simp add: port_announce_info_sm_receive_def port_announce_info_sm_superior_def Let_def split: announce_priority_info.splits)
  then show "port_announce_info_switch g i ev s = Some t"
    using r le_optD [OF assms, of _ t] unfolding port_announce_info_switch_def Let_def
    by (cases "info_sm_state (gport s i)")
      (auto simp: port_announce_info_sm_aged_def port_announce_info_sm_disabled_def split: if_splits)
qed

lemma info_body_mono:
  assumes "le_opt f g" "le_opt (a i INFO_EVENT_RUN) (b i INFO_EVENT_RUN)"
  shows "le_opt (info_body f a i ev) (info_body g b i ev)"
proof
  fix s t assume r: "info_body f a i ev s = Some t"
  note mono = le_optD [OF assms(1), of _ t] le_optD [OF assms(2), of _ t]
  show "info_body g b i ev s = Some t"
  proof (cases "port_announce_info_switch f i ev s")
    case None
    then show ?thesis using r mono unfolding info_body_def Let_def
      by (auto simp: port_announce_info_sm_disabled_def split: if_splits)
  next
    case (Some x)
    then have "port_announce_info_switch g i ev s = Some x" by (rule le_optD [OF switch_mono [OF assms(1)]])
    then show ?thesis using r mono Some unfolding info_body_def Let_def
      by (auto simp: port_announce_info_sm_disabled_def split: if_splits)
  qed
qed

lemma run_ports_mono:
  assumes "\<And>i. le_opt (f i) (g i)" shows "le_opt (run_ports f is) (run_ports g is)"
proof
  fix s t assume "run_ports f is s = Some t"
  then show "run_ports g is s = Some t"
  proof (induction "is" arbitrary: s)
    case (Cons i "is")
    then obtain s' where s': "f i s = Some s'" "run_ports f is (port_announce_transmit_sm i TRANSMIT_EVENT_RUN s') = Some t"
      by (auto split: option.splits)
    then show ?case using le_optD [OF assms s'(1)] Cons.IH [OF s'(2)] by simp
  qed simp
qed

lemma selection_mono:
  assumes "\<And>i. le_opt (f i) (g i)"
  shows "le_opt (port_state_selection_sm_selection f) (port_state_selection_sm_selection g)"
proof
  fix s t assume "port_state_selection_sm_selection f s = Some t"
  then show "port_state_selection_sm_selection g s = Some t"
    using le_optD [OF run_ports_mono [OF assms]]
    by (fastforce simp: port_state_selection_sm_selection_def set_selected_tree_def)
qed

lemma select_body_mono:
  assumes "\<And>i. le_opt (f i INFO_EVENT_RUN) (g i INFO_EVENT_RUN)" "le_opt a b"
  shows "le_opt (select_body f a) (select_body g b)"
proof
  fix s t assume r: "select_body f a s = Some t"
  note sel = le_optD [OF selection_mono [of "\<lambda>i. f i INFO_EVENT_RUN" "\<lambda>i. g i INFO_EVENT_RUN", OF assms(1)], of s]
  show "select_body g b s = Some t"
  proof (cases "port_state_selection_sm_selection (\<lambda>i. f i INFO_EVENT_RUN) s")
    case None
    then show ?thesis using r unfolding select_body_def by (auto split: if_splits port_state_sm_state.splits)
  next
    case (Some x)
    then show ?thesis using r sel le_optD [OF assms(2), of x t] unfolding select_body_def
      by (auto split: if_splits port_state_sm_state.splits)
  qed
qed

lemma machines_mono_Suc:
  "(\<forall>i ev. le_opt (port_announce_info_sm n i ev) (port_announce_info_sm (Suc n) i ev)) \<and>
   le_opt (port_state_selection_sm n) (port_state_selection_sm (Suc n))"
proof (induction n)
  case 0
  then show ?case by (simp add: le_opt_def)
next
  case (Suc n)
  then show ?case
    by (metis info_body_mono select_body_mono port_announce_info_sm.simps(2) port_state_selection_sm.simps(2))
qed

lemma info_mono: "n \<le> m \<Longrightarrow> port_announce_info_sm n i ev s = Some t \<Longrightarrow> port_announce_info_sm m i ev s = Some t"
  by (induction m rule: dec_induct) (auto intro: le_optD machines_mono_Suc [THEN conjunct1, rule_format] simp del: port_announce_info_sm.simps)

lemma select_mono: "n \<le> m \<Longrightarrow> port_state_selection_sm n s = Some t \<Longrightarrow> port_state_selection_sm m s = Some t"
  by (induction m rule: dec_induct) (auto intro: le_optD machines_mono_Suc [THEN conjunct2] simp del: port_state_selection_sm.simps)

subsection \<open>Weight and rank\<close>

definition port_weight :: "gptp_port \<Rightarrow> nat" where
  "port_weight p =
     (if gm_id_static p then 0
      else (if rcvd_msg p then 1 else 0) +
        (if port_usable p then (if info_sm_state p = INFO_DISABLED then 1 else 0)
         else (if info_sm_state p = INFO_DISABLED \<and> info_is p = SPANNING_TREE_DISABLED then 0 else 1)))"

definition weight :: "gptp_instance \<Rightarrow> nat" where
  "weight s = (\<Sum>i<numberPorts s. port_weight (gport s i))"

definition port_rank :: "gptp_port \<Rightarrow> nat" where
  "port_rank p = (if updt_info p then 3 else 0) +
     (case info_sm_state p of INFO_UPDATE \<Rightarrow> 1 | INFO_SUPERIOR_MASTER_PORT \<Rightarrow> 1 | INFO_REPEATED_MASTER_PORT \<Rightarrow> 1
       | INFO_INFERIOR_MASTER_OR_OTHER \<Rightarrow> 1 | _ \<Rightarrow> 0)"

definition info_fuel :: "nat \<Rightarrow> port_announce_info_sm_event \<Rightarrow> gptp_instance \<Rightarrow> nat" where
  "info_fuel i ev s = 8 * (weight s + (if ev = INFO_EVENT_RUN then 0 else 1)) + port_rank (gport s i) + 2"

definition select_fuel :: "gptp_instance \<Rightarrow> nat" where
  "select_fuel s = 8 * weight s + 8 + (if port_state_sm_state s = STATE_INIT_BRIDGE then 1 else 0)"

lemma port_rank_le: "port_rank p \<le> 4"
  by (simp add: port_rank_def split: port_announce_info_sm_state.split)

lemma port_weight_le: "port_weight p \<le> 2"
  by (simp add: port_weight_def)

lemma weight_le: "weight s \<le> 2 * numberPorts s"
  unfolding weight_def using sum_mono [of "{..<numberPorts s}" "\<lambda>i. port_weight (gport s i)" "\<lambda>_. 2"]
  by (simp add: port_weight_le mult.commute)

lemma weight_cong:
  "numberPorts t = numberPorts s \<Longrightarrow> (\<And>i. i < numberPorts s \<Longrightarrow> port_weight (gport t i) = port_weight (gport s i)) \<Longrightarrow> weight t = weight s"
  by (simp add: weight_def)

lemma weight_upd:
  assumes "i < numberPorts s"
  shows "weight (upd_gport i f s) + port_weight (gport s i) = weight s + port_weight (f (gport s i))"
proof -
  have "(\<Sum>j<numberPorts s. port_weight (gport s j)) =
      port_weight (gport s i) + (\<Sum>j\<in>{..<numberPorts s} - {i}. port_weight (gport s j))"
    using assms by (intro sum.remove) auto
  moreover have "(\<Sum>j<numberPorts s. port_weight (((gport s)(i := f (gport s i))) j)) =
      port_weight (f (gport s i)) + (\<Sum>j\<in>{..<numberPorts s} - {i}. port_weight (((gport s)(i := f (gport s i))) j))"
    using assms by (subst sum.remove [of _ i]) auto
  moreover have "(\<Sum>j\<in>{..<numberPorts s} - {i}. port_weight (((gport s)(i := f (gport s i))) j)) =
      (\<Sum>j\<in>{..<numberPorts s} - {i}. port_weight (gport s j))"
    by (intro sum.cong) auto
  ultimately show ?thesis by (simp add: weight_def upd_gport_def)
qed

lemma gport_upd [simp]: "gport (upd_gport i f s) j = (if j = i then f (gport s i) else gport s j)"
  by (simp add: upd_gport_def)

lemma upd_gport_fields [simp]:
  "numberPorts (upd_gport i f s) = numberPorts s" "port_state_sm_state (upd_gport i f s) = port_state_sm_state s"
  "selected (upd_gport i f s) = selected s" "selected_role (upd_gport i f s) = selected_role s"
  "begin_flag (upd_gport i f s) = begin_flag s" "instance_enable (upd_gport i f s) = instance_enable s"
  by (simp_all add: upd_gport_def)

lemma request_reselect_fields [simp]:
  "numberPorts (request_reselect i s) = numberPorts s" "gport (request_reselect i s) = gport s"
  "port_state_sm_state (request_reselect i s) = port_state_sm_state s"
  by (simp_all add: request_reselect_def Let_def)

lemma gm_change_fields [simp]:
  "numberPorts (gm_change s) = numberPorts s" "gport (gm_change s) = gport s"
  "port_state_sm_state (gm_change s) = port_state_sm_state s"
  by (simp_all add: gm_change_def Let_def)

lemma weight_other [simp]:
  "weight (request_reselect i s) = weight s" "weight (gm_change s) = weight s" "weight (s\<lparr>selected := x\<rparr>) = weight s"
  "weight (s\<lparr>port_state_sm_state := y\<rparr>) = weight s"
  by (simp_all add: weight_def)

lemma instance_ok_upd:
  assumes "instance_ok s" "\<And>p. gport_ok (this_clock s) i p \<Longrightarrow> gport_ok (this_clock s) i (f p)"
  shows "instance_ok (upd_gport i f s)"
  using assms by (auto simp: instance_ok_def upd_gport_def)

text \<open>The weights after the actions, for port \<open>i\<close>.\<close>

lemma weight_disabled:
  assumes "i < numberPorts s" "\<not> gm_id_static (gport s i)" "\<not> port_usable (gport s i)"
    "info_is (gport s i) \<noteq> SPANNING_TREE_DISABLED \<or> rcvd_msg (gport s i)"
  shows "weight (info_disabled_state i s) < weight s"
  using assms weight_upd [OF assms(1), of "\<lambda>p. p\<lparr>rcvd_msg := False, announceReceiptTimeoutTime := u64_to_u_scaled_ns (clock_local_ns s),
       info_is := SPANNING_TREE_DISABLED, info_sm_state := INFO_DISABLED\<rparr>"]
  by (auto simp: info_disabled_state_def port_weight_def port_usable_def split: if_splits)

lemma weight_aged:
  assumes "i < numberPorts s" "\<not> gm_id_static (gport s i)" "port_usable (gport s i)"
  shows "weight (info_aged_state i s) + (if info_sm_state (gport s i) = INFO_DISABLED then 1 else 0) = weight s"
  using assms weight_upd [OF assms(1), of "\<lambda>p. p\<lparr>info_is := SPANNING_TREE_AGED, info_sm_state := INFO_AGED\<rparr>"]
  by (auto simp: info_aged_state_def port_weight_def port_usable_def split: if_splits)

lemma rcv_info_weight [simp]: "port_weight (rcv_info p) = port_weight p"
  by (simp add: rcv_info_def Let_def port_weight_def port_usable_def)

lemma weight_rcv_info [simp]: "i < numberPorts s \<Longrightarrow> weight (upd_gport i rcv_info s) = weight s"
  using weight_upd [of i s rcv_info] by simp

lemma rcv_info_fields [simp]:
  "info_sm_state (rcv_info p) = info_sm_state p" "rcvd_msg (rcv_info p) = rcvd_msg p" "gm_id_static (rcv_info p) = gm_id_static p"
  "updt_info (rcv_info p) = updt_info p"
  by (simp_all add: rcv_info_def Let_def)

lemma superior_weight:
  "rcvd_msg p \<Longrightarrow> \<not> gm_id_static p \<Longrightarrow> info_sm_state p = INFO_CURRENT \<Longrightarrow> port_weight (superior_port p) < port_weight p"
  by (simp add: superior_port_def record_other_announce_info_def Let_def port_weight_def port_usable_def)

lemma weight_superior:
  assumes "i < numberPorts s" "\<not> gm_id_static (gport s i)" "rcvd_msg (gport s i)" "info_sm_state (gport s i) = INFO_CURRENT"
  shows "weight (info_superior_state i s) < weight s"
  using weight_upd [OF assms(1), of superior_port] superior_weight [OF assms(3,2,4)] by (simp add: info_superior_state_def)

lemma weight_repeated_inferior:
  assumes "i < numberPorts s" "\<not> gm_id_static (gport s i)" "rcvd_msg (gport s i)" "info_sm_state (gport s i) = INFO_CURRENT"
  shows "weight (port_announce_info_sm_repeated i s) < weight s" "weight (port_announce_info_sm_inferior i s) < weight s"
  using assms weight_upd [OF assms(1), of "\<lambda>p. p\<lparr>timeout_timer := Some (ucast (u_scaled_ns_to_u64 (announce_receipt_timeout_time_interval p) div 1000000)),
       rcvd_msg := False, rcvd_announce_ptr := False, info_sm_state := INFO_REPEATED_MASTER_PORT\<rparr>"]
    weight_upd [OF assms(1), of "\<lambda>p. p\<lparr>rcvd_msg := False, rcvd_announce_ptr := False, info_sm_state := INFO_INFERIOR_MASTER_OR_OTHER\<rparr>"]
  by (auto simp: port_announce_info_sm_repeated_def port_announce_info_sm_inferior_def port_weight_def port_usable_def split: if_splits)

lemma weight_update:
  assumes "i < numberPorts s" "info_sm_state (gport s i) = INFO_CURRENT \<or> info_sm_state (gport s i) = INFO_AGED"
  shows "weight (info_update_state i s) = weight s"
  using assms weight_upd [OF assms(1), of "\<lambda>p. p\<lparr>port_priority := master_priority p, port_steps_removed := master_steps_removed s, updt_info := False,
       info_is := SPANNING_TREE_MINE, new_info := True, info_sm_state := INFO_UPDATE\<rparr>"]
  by (auto simp: info_update_state_def port_weight_def port_usable_def split: if_splits)

lemma weight_current:
  assumes "i < numberPorts s" "info_sm_state (gport s i) \<noteq> INFO_DISABLED"
  shows "weight (port_announce_info_sm_current i s) = weight s"
  using assms weight_upd [OF assms(1), of "\<lambda>p. p\<lparr>info_sm_state := INFO_CURRENT\<rparr>"]
  by (auto simp: port_announce_info_sm_current_def port_weight_def port_usable_def split: if_splits)


subsection \<open>The transmission machine does not touch the weights\<close>

definition info_view :: "gptp_port \<Rightarrow> bool \<times> bool \<times> bool \<times> bool \<times> port_announce_info_sm_state \<times> ptp_spanning_tree_info" where
  "info_view p = (gm_id_static p, port_usable p, rcvd_msg p, updt_info p, info_sm_state p, info_is p)"

lemma weight_view:
  "info_view p = info_view q \<Longrightarrow> port_weight p = port_weight q" "info_view p = info_view q \<Longrightarrow> port_rank p = port_rank q"
  by (auto simp: info_view_def port_weight_def port_rank_def)

lemma step_view: "info_view (gport (port_announce_transmit_step i ev s) j) = info_view (gport s j)"
  by (simp add: port_announce_transmit_step_def port_announce_transmit_sm_idle_def port_announce_transmit_sm_transmit_periodic_def
      port_announce_transmit_sm_transmit_announce_def md_announce_transmit_def announce_interval_update_def info_view_def port_usable_def
      split: port_announce_transmit_sm_state.split)

lemma step_conf:
  "numberPorts (port_announce_transmit_step i ev s) = numberPorts s"
  "port_state_sm_state (port_announce_transmit_step i ev s) = port_state_sm_state s"
  by (simp_all add: port_announce_transmit_step_def port_announce_transmit_sm_idle_def port_announce_transmit_sm_transmit_periodic_def
      port_announce_transmit_sm_transmit_announce_def md_announce_transmit_def split: port_announce_transmit_sm_state.split)

lemma loop_view:
  "info_view (gport (transmit_loop i ev s) j) = info_view (gport s j) \<and> numberPorts (transmit_loop i ev s) = numberPorts s \<and>
   port_state_sm_state (transmit_loop i ev s) = port_state_sm_state s"
proof (induction i ev s rule: transmit_loop.induct)
  case (1 i ev s)
  then show ?case
    by (subst (1 2 3) transmit_loop.simps) (simp add: Let_def step_view step_conf)
qed

lemma init_view:
  "info_view (gport (port_announce_transmit_sm_transmit_init i s) j) = info_view (gport s j)"
  "numberPorts (port_announce_transmit_sm_transmit_init i s) = numberPorts s"
  "port_state_sm_state (port_announce_transmit_sm_transmit_init i s) = port_state_sm_state s"
  by (simp_all add: port_announce_transmit_sm_transmit_init_def info_view_def port_usable_def)

lemma transmit_view:
  "info_view (gport (port_announce_transmit_sm i ev s) j) = info_view (gport s j)"
  "numberPorts (port_announce_transmit_sm i ev s) = numberPorts s"
  "port_state_sm_state (port_announce_transmit_sm i ev s) = port_state_sm_state s"
  unfolding port_announce_transmit_sm_def by (simp_all add: loop_view init_view)

lemma weight_transmit [simp]: "weight (port_announce_transmit_sm i ev s) = weight s"
  by (rule weight_cong) (rule transmit_view(2), rule weight_view(1), rule transmit_view(1))

subsection \<open>Enough fuel\<close>

text \<open>A call returns, without a larger weight.\<close>

definition returns :: "gptp_instance \<Rightarrow> gptp_instance option \<Rightarrow> bool" where
  "returns s r \<longleftrightarrow> (\<exists>t. r = Some t \<and> weight t \<le> weight s)"

lemma returnsE: "returns s r \<Longrightarrow> (\<And>t. r = Some t \<Longrightarrow> weight t \<le> weight s \<Longrightarrow> P) \<Longrightarrow> P"
  by (auto simp: returns_def)

lemma returnsI: "weight t \<le> weight s \<Longrightarrow> returns s (Some t)"
  by (simp add: returns_def)

lemma returns_trans: "returns t r \<Longrightarrow> weight t \<le> weight s \<Longrightarrow> returns s r"
  by (auto simp: returns_def)

lemma info_fuel_bound: "8 * weight s + 6 \<le> n \<Longrightarrow> info_fuel i INFO_EVENT_RUN s \<le> n"
  using port_rank_le [of "gport s i"] by (simp add: info_fuel_def)

lemma info_fuel_less: "weight t < weight s \<Longrightarrow> 8 * weight s \<le> n \<Longrightarrow> info_fuel i INFO_EVENT_RUN t \<le> n"
  by (intro info_fuel_bound) linarith

lemma select_fuel_less: "weight t < weight s \<Longrightarrow> 8 * weight s + 1 \<le> n \<Longrightarrow> select_fuel t \<le> n"
  by (simp add: select_fuel_def)

text \<open>One switch of the information machine, when the selection machine returns.\<close>

definition switch_result :: "nat \<Rightarrow> nat \<Rightarrow> gptp_instance \<Rightarrow> gptp_instance option \<Rightarrow> bool" where
  "switch_result n i s r \<longleftrightarrow>
     (\<exists>t. r = Some t \<and> weight t \<le> weight s \<and> (info_sm_state (gport t i) \<noteq> info_sm_state (gport s i) \<longrightarrow> info_fuel i INFO_EVENT_RUN t \<le> n))"

lemma switch_resultI:
  "weight t \<le> weight s \<Longrightarrow> info_sm_state (gport t i) = info_sm_state (gport s i) \<or> info_fuel i INFO_EVENT_RUN t \<le> n \<Longrightarrow> switch_result n i s (Some t)"
  by (auto simp: switch_result_def)

lemma switch_result_less: "weight t < weight s \<Longrightarrow> 8 * weight s \<le> n \<Longrightarrow> switch_result n i s (Some t)"
  by (intro switch_resultI disjI2 info_fuel_less) simp_all

lemma switch_result_select:
  assumes "returns u r" "weight u < weight s" "8 * weight s \<le> n"
  shows "switch_result n i s r"
  using assms(1) by (rule returnsE) (use assms in \<open>auto intro!: switch_result_less\<close>)

definition sel_ok :: "inst_conf \<Rightarrow> nat \<Rightarrow> (gptp_instance \<Rightarrow> gptp_instance option) \<Rightarrow> bool" where
  "sel_ok c n sel \<longleftrightarrow> (\<forall>s. ok_conf c s \<longrightarrow> select_fuel s \<le> n \<longrightarrow> returns s (sel s))"

lemma sel_less:
  assumes "sel_ok c n sel" "ok_conf c u" "weight u < weight s" "8 * weight s + 1 \<le> n"
  shows "returns u (sel u)"
  using assms select_fuel_less [OF assms(3,4)] by (simp add: sel_ok_def)

lemma aged_result:
  assumes sel: "sel_ok c n sel" and s: "ok_conf c s" "i < fst c" "\<not> gm_id_static (gport s i)" "port_usable (gport s i)"
    and n: "8 * weight s + 1 \<le> n" "info_sm_state (gport s i) = INFO_DISABLED \<or> 8 * weight s + 9 \<le> n"
  shows "switch_result n i s (port_announce_info_sm_aged sel i s)"
proof -
  have i: "i < numberPorts s" using s ok_confD by simp
  let ?u = "info_aged_state i s"
  have ok: "ok_conf c ?u" using s by (rule_tac ok.aged)
  show ?thesis
  proof (cases "info_sm_state (gport s i) = INFO_DISABLED")
    case True
    then have "weight ?u < weight s" using weight_aged [OF i s(3,4)] by simp
    then show ?thesis using sel_less [OF sel ok _ n(1)] n(1)
      by (auto simp: port_announce_info_sm_aged_def intro: switch_result_select)
  next
    case False
    then have w: "weight ?u = weight s" "8 * weight s + 9 \<le> n" using weight_aged [OF i s(3,4)] n(2) by simp_all
    then have "returns ?u (sel ?u)" using sel ok by (simp add: sel_ok_def select_fuel_def)
    then obtain t where t: "sel ?u = Some t" "weight t \<le> weight s" using w(1) by (auto simp: returns_def)
    then have "info_fuel i INFO_EVENT_RUN t \<le> n" using w by (intro info_fuel_bound) simp
    with t show ?thesis by (simp add: port_announce_info_sm_aged_def switch_resultI)
  qed
qed

lemma disabled_result:
  assumes sel: "sel_ok c n sel" and s: "ok_conf c s" "i < fst c" "\<not> gm_id_static (gport s i)" "\<not> port_usable (gport s i)"
    "info_is (gport s i) \<noteq> SPANNING_TREE_DISABLED \<or> rcvd_msg (gport s i)" and n: "8 * weight s + 1 \<le> n"
  shows "switch_result n i s (port_announce_info_sm_disabled sel i s)"
proof -
  have i: "i < numberPorts s" using s ok_confD by simp
  have w: "weight (info_disabled_state i s) < weight s" using i s(3-5) by (rule weight_disabled)
  have "ok_conf c (info_disabled_state i s)" using s by (rule_tac ok.disabled)
  from sel_less [OF sel this w n] show ?thesis
    unfolding port_announce_info_sm_disabled_def by (rule switch_result_select) (use w n in simp_all)
qed

lemma receive_result:
  assumes sel: "sel_ok c n sel" and s: "ok_conf c s" "i < fst c" "\<not> gm_id_static (gport s i)" "rcvd_msg (gport s i)"
    "info_sm_state (gport s i) = INFO_CURRENT" and n: "8 * weight s + 1 \<le> n"
  shows "switch_result n i s (port_announce_info_sm_receive sel i s)"
proof -
  let ?u = "upd_gport i rcv_info s"
  have i: "i < numberPorts s" using s ok_confD by simp
  have ok: "ok_conf c ?u" using s by (rule_tac ok.received)
  have u: "i < numberPorts ?u" "\<not> gm_id_static (gport ?u i)" "rcvd_msg (gport ?u i)" "info_sm_state (gport ?u i) = INFO_CURRENT" "weight ?u = weight s"
    using i s by simp_all
  have w: "weight (info_superior_state i ?u) < weight s" "weight (port_announce_info_sm_repeated i ?u) < weight s"
    "weight (port_announce_info_sm_inferior i ?u) < weight s"
    using weight_superior [OF u(1-4)] weight_repeated_inferior [OF u(1-4)] u(5) by simp_all
  have "ok_conf c (info_superior_state i ?u)" using ok s(2) by (rule ok.superior)
  from sel_less [OF sel this w(1) n]
  have "switch_result n i s (port_announce_info_sm_superior sel i ?u)"
    unfolding port_announce_info_sm_superior_def by (rule switch_result_select) (use w n in simp_all)
  moreover have "switch_result n i s (Some (port_announce_info_sm_repeated i ?u))" "switch_result n i s (Some (port_announce_info_sm_inferior i ?u))"
    using w n by (auto intro: switch_result_less)
  moreover have "switch_result n i s (Some ?u)" using u(4,5) s(5) by (intro switch_resultI) simp_all
  ultimately show ?thesis
    unfolding port_announce_info_sm_receive_def Let_def by (cases "rcvdInfo (gport ?u i)") simp_all
qed

lemma update_result:
  assumes "i < numberPorts s" "updt_info (gport s i)" "info_sm_state (gport s i) = INFO_CURRENT \<or> info_sm_state (gport s i) = INFO_AGED"
    "info_fuel i ev s \<le> Suc n"
  shows "switch_result n i s (Some (port_announce_info_sm_update i s))"
proof -
  let ?t = "port_announce_info_sm_update i s"
  have w: "weight ?t = weight s" using assms by (simp add: port_announce_info_sm_update_def weight_update)
  have "port_rank (gport ?t i) = port_rank (gport (info_update_state i s) i)"
    unfolding port_announce_info_sm_update_def by (rule weight_view) (rule transmit_view)
  also have "\<dots> = 1" by (simp add: info_update_state_def port_rank_def)
  finally have "info_fuel i INFO_EVENT_RUN ?t \<le> n"
    using assms(2-4) w by (auto simp: info_fuel_def port_rank_def split: if_splits)
  then show ?thesis using w by (intro switch_resultI) simp_all
qed

lemma current_result:
  assumes "i < numberPorts s" "info_sm_state (gport s i) \<in> {INFO_UPDATE, INFO_SUPERIOR_MASTER_PORT, INFO_REPEATED_MASTER_PORT, INFO_INFERIOR_MASTER_OR_OTHER}"
    "info_fuel i ev s \<le> Suc n"
  shows "switch_result n i s (Some (port_announce_info_sm_current i s))"
proof -
  let ?t = "port_announce_info_sm_current i s"
  have w: "weight ?t = weight s" using assms(1,2) by (intro weight_current) auto
  have "port_rank (gport ?t i) + 1 = port_rank (gport s i)"
    using assms(2) by (auto simp: port_announce_info_sm_current_def port_rank_def)
  then have "info_fuel i INFO_EVENT_RUN ?t \<le> n" using assms(3) w by (auto simp: info_fuel_def split: if_splits)
  then show ?thesis using w by (intro switch_resultI) simp_all
qed

lemma switch_result_switch:
  assumes sel: "sel_ok c n sel" and s: "ok_conf c s" "i < fst c" "\<not> gm_id_static (gport s i)"
    "port_usable (gport s i) \<or> info_is (gport s i) = SPANNING_TREE_DISABLED" and n: "info_fuel i ev s \<le> Suc n"
  shows "switch_result n i s (port_announce_info_switch sel i ev s)"
proof -
  have i: "i < numberPorts s" using s ok_confD by simp
  have n1: "8 * weight s + 1 \<le> n" using n by (simp add: info_fuel_def)
  have same: "switch_result n i s (Some s)" by (simp add: switch_resultI)
  show ?thesis
  proof (cases "info_sm_state (gport s i)")
    case INFO_DISABLED
    then show ?thesis using aged_result [OF sel s(1-3) _ n1] disabled_result [OF sel s(1-3) _ _ n1] same
      by (simp add: port_announce_info_switch_def Let_def)
  next
    case INFO_CURRENT
    have "8 * weight s + 9 \<le> n" if "info_timeout ev s" using n that by (auto simp: info_fuel_def info_timeout_def)
    then show ?thesis using INFO_CURRENT s(4) aged_result [OF sel s(1-3) _ n1] receive_result [OF sel s(1-3) _ _ n1] update_result [OF i _ _ n] same
      by (auto simp: port_announce_info_switch_def Let_def)
  next
    case INFO_AGED
    then show ?thesis using update_result [OF i _ _ n] same by (simp add: port_announce_info_switch_def Let_def)
  qed (use current_result [OF i _ n] same in \<open>simp_all add: port_announce_info_switch_def Let_def\<close>)
qed

definition again_ok :: "inst_conf \<Rightarrow> nat \<Rightarrow> (nat \<Rightarrow> port_announce_info_sm_event \<Rightarrow> gptp_instance \<Rightarrow> gptp_instance option) \<Rightarrow> bool" where
  "again_ok c n f \<longleftrightarrow> (\<forall>i ev s. ok_conf c s \<longrightarrow> i < fst c \<longrightarrow> info_fuel i ev s \<le> n \<longrightarrow> returns s (f i ev s))"

lemma info_body_returns:
  assumes sel: "sel_ok c n sel" "keeps (ok_conf c) sel" "again_ok c n again" and s: "ok_conf c s" "i < fst c" "\<not> begin_flag s" "instance_enable s"
    and n: "info_fuel i ev s \<le> Suc n"
  shows "returns s (info_body sel again i ev s)"
proof -
  have n1: "8 * weight s + 1 \<le> n" using n by (simp add: info_fuel_def)
  consider (static) "gm_id_static (gport s i)"
    | (dis) "\<not> gm_id_static (gport s i)" "\<not> port_usable (gport s i)" "info_is (gport s i) \<noteq> SPANNING_TREE_DISABLED"
    | (run) "\<not> gm_id_static (gport s i)" "port_usable (gport s i) \<or> info_is (gport s i) = SPANNING_TREE_DISABLED" by blast
  then show ?thesis
  proof cases
    case static
    then show ?thesis by (simp add: info_body_def returnsI)
  next
    case dis
    then show ?thesis using disabled_result [OF sel(1) s(1,2) dis(1,2) disjI1 n1] s
      by (simp add: info_body_def Let_def) (auto simp: switch_result_def returns_def)
  next
    case run
    obtain t where t: "port_announce_info_switch sel i ev s = Some t" "weight t \<le> weight s"
        "info_sm_state (gport t i) \<noteq> info_sm_state (gport s i) \<Longrightarrow> info_fuel i INFO_EVENT_RUN t \<le> n"
      using switch_result_switch [OF sel(1) s(1,2) run n] by (auto simp: switch_result_def)
    have "ok_conf c t" using ok.switch_inv [OF sel(2) s(1,2) t(1)] .
    then have "info_sm_state (gport t i) \<noteq> info_sm_state (gport s i) \<Longrightarrow> returns t (again i INFO_EVENT_RUN t)"
      using sel(3) t(3) s(2) by (simp add: again_ok_def)
    then show ?thesis using run s(3,4) t(1,2)
      by (auto simp: info_body_def Let_def intro: returnsI returns_trans)
  qed
qed


lemma run_ports_returns:
  assumes info: "again_ok c n info" "\<And>i. i < fst c \<Longrightarrow> keeps (ok_conf c) (info i INFO_EVENT_RUN)"
  shows "ok_conf c s \<Longrightarrow> \<forall>i\<in>set is. i < fst c \<Longrightarrow> 8 * weight s + 6 \<le> n \<Longrightarrow> returns s (run_ports (\<lambda>i. info i INFO_EVENT_RUN) is s)"
proof (induction "is" arbitrary: s)
  case (Cons i "is")
  have i: "i < fst c" using Cons.prems by simp
  have "returns s (info i INFO_EVENT_RUN s)"
    using info(1) Cons.prems(1) i info_fuel_bound [OF Cons.prems(3)] by (simp add: again_ok_def)
  then obtain t where t: "info i INFO_EVENT_RUN s = Some t" "weight t \<le> weight s" by (rule returnsE)
  let ?u = "port_announce_transmit_sm i TRANSMIT_EVENT_RUN t"
  have "ok_conf c t" using keepsD [OF info(2) [OF i] t(1)] Cons.prems by simp
  then have u: "ok_conf c ?u" using i by (rule ok.transmit_inv)
  have "returns ?u (run_ports (\<lambda>i. info i INFO_EVENT_RUN) is ?u)"
    using Cons.prems t(2) by (intro Cons.IH u) simp_all
  then show ?case using t returns_trans by (simp add: t(1))
qed (simp add: returnsI)

lemma weight_roles: "instance_ok s \<Longrightarrow> weight (updt_roles_tree s) = weight s"
  by (rule weight_cong) (simp_all add: roles_tree_eq port_weight_def port_usable_def)

lemma selection_returns:
  assumes info: "again_ok c n info" "\<And>i. i < fst c \<Longrightarrow> keeps (ok_conf c) (info i INFO_EVENT_RUN)"
    and s: "ok_conf c s" "8 * weight s + 6 \<le> n"
  shows "\<exists>t. port_state_selection_sm_selection (\<lambda>i. info i INFO_EVENT_RUN) s = Some t \<and> weight t \<le> weight s \<and>
    port_state_sm_state t = STATE_SELECTION"
proof -
  let ?u = "updt_roles_tree (clear_reselect_tree s)"
  have "ok_conf c (clear_reselect_tree s)" using s(1) by (rule ok_conf_cong) (simp_all add: clear_reselect_tree_def)
  then have w: "weight ?u = weight s"
    by (simp add: weight_roles ok_confD) (simp add: clear_reselect_tree_def weight_def)
  have u: "ok_conf c (?u\<lparr>selected := 0xffff\<rparr>)" using s(1) by (intro ok.select_all ok.roles)
  have "numberPorts ?u = fst c" using ok_confD(3) [OF ok.roles [OF s(1)]] .
  then have "returns (?u\<lparr>selected := 0xffff\<rparr>) (run_ports (\<lambda>i. info i INFO_EVENT_RUN) [0..<numberPorts ?u] (?u\<lparr>selected := 0xffff\<rparr>))"
    using s(2) w by (intro run_ports_returns [OF info u]) simp_all
  then obtain t where "run_ports (\<lambda>i. info i INFO_EVENT_RUN) [0..<numberPorts ?u] (?u\<lparr>selected := 0xffff\<rparr>) = Some t" "weight t \<le> weight s"
    using w by (auto simp: returns_def)
  then show ?thesis
    by (intro exI [of _ "t\<lparr>port_state_sm_state := STATE_SELECTION\<rparr>"])
      (simp add: port_state_selection_sm_selection_def set_selected_tree_def)
qed

lemma select_body_returns:
  assumes info: "again_ok c n info" "\<And>i. i < fst c \<Longrightarrow> keeps (ok_conf c) (info i INFO_EVENT_RUN)" and again: "sel_ok c n again"
    and s: "ok_conf c s" "\<not> begin_flag s" "instance_enable s" and n: "select_fuel s \<le> Suc n"
  shows "returns s (select_body info again s)"
proof -
  have "8 * weight s + 6 \<le> n" using n by (simp add: select_fuel_def)
  then obtain t where t: "port_state_selection_sm_selection (\<lambda>i. info i INFO_EVENT_RUN) s = Some t" "weight t \<le> weight s"
      "port_state_sm_state t = STATE_SELECTION"
    using selection_returns [OF info s(1)] by auto
  have ok: "ok_conf c t" using keepsD [OF ok.selection_inv t(1) s(1)] info(2) by simp
  have "returns s (again t)" if "port_state_sm_state s = STATE_INIT_BRIDGE"
  proof -
    have "select_fuel t \<le> n" using n t(2,3) that by (simp add: select_fuel_def)
    then show ?thesis using again ok returns_trans [OF _ t(2)] by (simp add: sel_ok_def)
  qed
  then show ?thesis using t s(2,3) by (auto simp: select_body_def returnsI split: port_state_sm_state.split)
qed

definition running :: "inst_conf \<Rightarrow> bool" where
  "running c \<longleftrightarrow> (\<forall>s. ok_conf c s \<longrightarrow> \<not> begin_flag s \<and> instance_enable s)"

lemma machines_return:
  assumes "running c" shows "again_ok c n (port_announce_info_sm n) \<and> sel_ok c n (port_state_selection_sm n)"
proof (induction n)
  case 0
  then show ?case by (simp add: again_ok_def sel_ok_def info_fuel_def select_fuel_def)
next
  case (Suc n)
  have k: "keeps (ok_conf c) (port_state_selection_sm n)" "\<And>i. i < fst c \<Longrightarrow> keeps (ok_conf c) (port_announce_info_sm n i INFO_EVENT_RUN)"
    using ok.machines_inv by simp_all
  have "returns s (info_body (port_state_selection_sm n) (port_announce_info_sm n) i ev s)"
    if "ok_conf c s" "i < fst c" "info_fuel i ev s \<le> Suc n" for i ev s
    using info_body_returns [OF _ k(1) _ that(1,2) _ _ that(3)] Suc assms that(1) by (simp add: running_def)
  moreover have "returns s (select_body (port_announce_info_sm n) (port_state_selection_sm n) s)"
    if "ok_conf c s" "select_fuel s \<le> Suc n" for s
    using select_body_returns [of c n "port_announce_info_sm n" "port_state_selection_sm n" s] k(2) Suc assms that by (simp add: running_def)
  ultimately show ?case by (simp add: again_ok_def sel_ok_def)
qed

subsection \<open>The fuel of an instance\<close>

definition bmca_fuel :: "gptp_instance \<Rightarrow> nat" where
  "bmca_fuel s = 16 * numberPorts s + 14"

lemma ok_conf_self: "instance_ok s \<Longrightarrow> ok_conf (inst_conf s) s"
  by (simp add: ok_conf_def)

lemma running_self: "\<not> begin_flag s \<Longrightarrow> instance_enable s \<Longrightarrow> running (inst_conf s)"
  by (auto simp: running_def ok_conf_def inst_conf_def)

lemma fuel_ge: "info_fuel i ev s \<le> bmca_fuel s" "select_fuel s \<le> bmca_fuel s"
  using weight_le [of s] port_rank_le [of "gport s i"] by (auto simp: info_fuel_def select_fuel_def bmca_fuel_def)

lemma init_bridge_returns: "begin_flag s \<or> \<not> instance_enable s \<Longrightarrow> \<exists>t. port_state_selection_sm (Suc n) s = Some t"
  by (simp add: select_body_def)

lemma info_total:
  assumes "instance_ok s" "i < numberPorts s" "n \<ge> bmca_fuel s"
  shows "\<exists>t. port_announce_info_sm n i ev s = Some t \<and> ok_conf (inst_conf s) t"
proof (cases "begin_flag s \<or> \<not> instance_enable s")
  case True
  have b: "begin_flag (info_disabled_state i s) = begin_flag s" "instance_enable (info_disabled_state i s) = instance_enable s"
    by (simp_all add: info_disabled_state_def request_reselect_def Let_def)
  obtain m where m: "n = Suc (Suc m)" using that [of "n - 2"] assms(3) by (simp add: bmca_fuel_def)
  have "\<exists>t. port_announce_info_sm n i ev s = Some t"
    using True init_bridge_returns [of "info_disabled_state i s" m] b
    by (auto simp: m info_body_def Let_def port_announce_info_sm_disabled_def simp del: port_state_selection_sm.simps)
  then show ?thesis using ok.info_inv [OF _ ok_conf_self [OF assms(1)]] assms(2) by (auto simp: inst_conf_def)
next
  case False
  then have "again_ok (inst_conf s) n (port_announce_info_sm n)" using machines_return running_self by blast
  then have "returns s (port_announce_info_sm n i ev s)"
    using ok_conf_self [OF assms(1)] assms(2,3) fuel_ge(1) [of i ev s] by (simp add: again_ok_def inst_conf_def)
  then show ?thesis using ok.info_inv [OF _ ok_conf_self [OF assms(1)]] assms(2) by (auto simp: returns_def inst_conf_def)
qed

lemma select_total:
  assumes "instance_ok s" "n \<ge> bmca_fuel s"
  shows "\<exists>t. port_state_selection_sm n s = Some t \<and> ok_conf (inst_conf s) t"
proof (cases "begin_flag s \<or> \<not> instance_enable s")
  case True
  obtain m where "n = Suc m" using assms(2) by (cases n) (simp_all add: bmca_fuel_def)
  then show ?thesis using True init_bridge_returns [of s m] ok.select_inv [OF _ ok_conf_self [OF assms(1)]] by blast
next
  case False
  then have "sel_ok (inst_conf s) n (port_state_selection_sm n)" using machines_return running_self by blast
  then have "returns s (port_state_selection_sm n s)"
    using ok_conf_self [OF assms(1)] assms(2) fuel_ge(2) [of s] by (simp add: sel_ok_def)
  then show ?thesis using ok.select_inv [OF _ ok_conf_self [OF assms(1)]] by (auto simp: returns_def)
qed

end
