(* ===== verification/GPTP_BMCA_Run.thy ===== *)
theory GPTP_BMCA_Run
  imports GPTP_BMCA_Term
begin

section \<open>gPTP best master selection: handlers, reachable states and properties\<close>

text \<open>
  Every handler returns, whatever the Announce messages received; what is sent in the states they reach;
  what happens when a better master is announced and when the announced one falls silent.
\<close>

subsection \<open>The handlers return\<close>

definition ok_result :: "gptp_instance \<Rightarrow> gptp_instance option \<Rightarrow> bool" where
  "ok_result s r \<longleftrightarrow> (\<exists>t. r = Some t \<and> ok_conf (inst_conf s) t)"

lemma ok_resultE: "ok_result s r \<Longrightarrow> (\<And>t. r = Some t \<Longrightarrow> ok_conf (inst_conf s) t \<Longrightarrow> P) \<Longrightarrow> P"
  by (auto simp: ok_result_def)

lemma ok_result_cong: "ok_result t r \<Longrightarrow> ok_conf (inst_conf s) t \<Longrightarrow> ok_result s r"
  by (auto simp: ok_result_def ok_conf_def)

lemma ok_confE: "ok_conf (inst_conf s) t \<Longrightarrow> instance_ok t \<and> numberPorts t = numberPorts s \<and> bmca_fuel t = bmca_fuel s"
  by (auto simp: ok_conf_def inst_conf_def bmca_fuel_def)

lemma fst_conf: "fst (inst_conf s) = numberPorts s"
  by (simp add: inst_conf_def)

lemma info_result:
  assumes "ok_conf (inst_conf s) t" "i < numberPorts s" "bmca_fuel s \<le> n"
  shows "ok_result s (port_announce_info_sm n i ev t)"
proof -
  have "ok_result t (port_announce_info_sm n i ev t)"
    unfolding ok_result_def using ok_confE [OF assms(1)] assms(2,3) by (intro info_total) simp_all
  then show ?thesis using assms(1) by (rule ok_result_cong)
qed

lemma rcv_switch_result:
  assumes "ok_conf (inst_conf s) t" "i < numberPorts s" "bmca_fuel s \<le> n"
  shows "ok_result s (port_announce_rcv_switch n i t)"
proof -
  have i: "i < fst (inst_conf s)" using assms(2) by (simp add: fst_conf)
  have "ok_result s (port_announce_rcv_sm_receive n i t)"
    unfolding port_announce_rcv_sm_receive_def Let_def split_beta
    using assms by (intro info_result ok.accepted ok.qualifies i)
  then show ?thesis using assms(1) by (simp add: port_announce_rcv_switch_def Let_def) (simp add: ok_result_def)
qed

lemma rcv_result:
  assumes "ok_conf (inst_conf s) t" "i < numberPorts s" "bmca_fuel s \<le> n"
  shows "ok_result s (port_announce_rcv_sm n i t)"
proof -
  have i: "i < fst (inst_conf s)" using assms(2) by (simp add: fst_conf)
  obtain u where u: "port_announce_rcv_switch n i t = Some u" "ok_conf (inst_conf s) u"
    using rcv_switch_result [OF assms] by (rule ok_resultE)
  have "ok_result s (port_announce_rcv_switch n i u)" using u(2) assms(2,3) by (rule rcv_switch_result)
  moreover have "ok_result s (Some (port_announce_rcv_sm_discard i t))" "ok_result s (Some t)" "ok_result s (Some u)"
    using ok.discard [OF assms(1) i] assms(1) u(2) by (simp_all add: ok_result_def)
  ultimately show ?thesis by (simp add: port_announce_rcv_sm_def Let_def u(1))
qed

lemma handle_announce_result:
  assumes "instance_ok s" "i < numberPorts s" "bmca_fuel s \<le> n"
  shows "ok_result s (gptp_handle_announce n i msg s)"
proof -
  have i: "i < fst (inst_conf s)" using assms(2) by (simp add: fst_conf)
  let ?s1 = "upd_gport i (\<lambda>p. p\<lparr>num_rx_announce := num_rx_announce p + 1\<rparr>) s"
  have s1: "ok_conf (inst_conf s) ?s1" using ok_conf_self [OF assms(1)] i by (rule ok.counted)
  show ?thesis
  proof (cases "\<not> gm_id_static (gport s i) \<and> length msg \<le> SIZEOF_ANNOUNCE_PDU")
    case True
    have "ok_result s (port_announce_rcv_sm n i
      (upd_gport i (\<lambda>p. p\<lparr>announce_rx := msg @ drop (length msg) (announce_rx p), rcvd_announce_ptr := True, rcvd_announce_par := True\<rparr>) ?s1))"
      using assms(2,3) True by (intro rcv_result ok.stored s1 i) simp_all
    with True show ?thesis by (simp add: gptp_handle_announce_def Let_def)
  next
    case False
    then have "gptp_handle_announce n i msg s = Some (upd_gport i (\<lambda>p. p\<lparr>num_rx_announce_dropped := num_rx_announce_dropped p + 1\<rparr>) ?s1)"
      by (auto simp: gptp_handle_announce_def Let_def)
    then show ?thesis using ok.counted(2) [OF s1 i] by (simp add: ok_result_def)
  qed
qed

lemma as_capable_result:
  assumes "instance_ok s" "i < numberPorts s" "bmca_fuel s \<le> n"
  shows "ok_result s (gptp_as_capable_update_fsm n i s)"
proof -
  obtain u where u: "port_announce_info_sm n i INFO_EVENT_RUN s = Some u" "ok_conf (inst_conf s) u"
    using info_result [OF ok_conf_self [OF assms(1)] assms(2,3)] by (rule ok_resultE)
  show ?thesis using rcv_result [OF u(2) assms(2,3)] by (simp add: gptp_as_capable_update_fsm_def u(1))
qed

lemma timeout_result:
  assumes "instance_ok s" "i < numberPorts s" "bmca_fuel s \<le> n"
  shows "ok_result s (gptp_announce_receive_timeout_timer_handler n i s)" "ok_result s (gptp_sync_receive_timeout_timer_handler n i s)"
  unfolding gptp_announce_receive_timeout_timer_handler_def gptp_sync_receive_timeout_timer_handler_def
  using assms by (auto intro!: info_result ok.counted ok_conf_self simp: fst_conf)


lemma rcv_switch_mono:
  "n \<le> m \<Longrightarrow> port_announce_rcv_switch n i s = Some t \<Longrightarrow> port_announce_rcv_switch m i s = Some t"
  by (auto simp: port_announce_rcv_switch_def port_announce_rcv_sm_receive_def Let_def split_beta info_mono split: if_splits)

lemma rcv_mono:
  assumes "n \<le> m" "port_announce_rcv_sm n i s = Some t" shows "port_announce_rcv_sm m i s = Some t"
proof (cases "port_announce_rcv_switch n i s")
  case None
  then show ?thesis using assms by (auto simp: port_announce_rcv_sm_def Let_def split: if_splits)
next
  case (Some u)
  then show ?thesis using assms rcv_switch_mono [OF assms(1) Some] rcv_switch_mono [OF assms(1), of i u t]
    by (auto simp: port_announce_rcv_sm_def Let_def split: if_splits)
qed

lemma handlers_mono:
  assumes "n \<le> m"
  shows "gptp_handle_announce n i msg s = Some t \<Longrightarrow> gptp_handle_announce m i msg s = Some t"
    "gptp_as_capable_update_fsm n i s = Some t \<Longrightarrow> gptp_as_capable_update_fsm m i s = Some t"
    "gptp_announce_receive_timeout_timer_handler n i s = Some t \<Longrightarrow> gptp_announce_receive_timeout_timer_handler m i s = Some t"
    "gptp_sync_receive_timeout_timer_handler n i s = Some t \<Longrightarrow> gptp_sync_receive_timeout_timer_handler m i s = Some t"
proof -
  show "gptp_handle_announce n i msg s = Some t \<Longrightarrow> gptp_handle_announce m i msg s = Some t"
    using rcv_mono [OF assms] by (auto simp: gptp_handle_announce_def Let_def split: if_splits)
  show "gptp_as_capable_update_fsm n i s = Some t \<Longrightarrow> gptp_as_capable_update_fsm m i s = Some t"
    using rcv_mono [OF assms, of i _ t] info_mono [OF assms, of i INFO_EVENT_RUN s]
    by (cases "port_announce_info_sm n i INFO_EVENT_RUN s") (auto simp: gptp_as_capable_update_fsm_def)
qed (simp_all add: gptp_announce_receive_timeout_timer_handler_def gptp_sync_receive_timeout_timer_handler_def info_mono [OF assms])

lemma settled_result:
  assumes "\<And>n. bmca_fuel s \<le> n \<Longrightarrow> ok_result s (f n)" "\<And>n m t. n \<le> m \<Longrightarrow> f n = Some t \<Longrightarrow> f m = Some t"
  shows "\<exists>t. instance_ok t \<and> numberPorts t = numberPorts s \<and> (\<forall>n\<ge>bmca_fuel s. f n = Some t)"
proof -
  obtain t where t: "f (bmca_fuel s) = Some t" "ok_conf (inst_conf s) t"
    using assms(1) [OF order_refl] by (rule ok_resultE)
  then show ?thesis using assms(2) [OF _ t(1)] ok_confE [OF t(2)] by blast
qed

text \<open>
  C3: The announce state machines always come to rest. The information machine and the port state
  selection machine call each other recursively and repeat until nothing changes; on a well-formed
  instance of \<open>p\<close> ports, in any state and for any event, a call depth of \<open>16 p + 14\<close> is enough for each of
  them and for every handler that starts them (an Announce message of any content, a change of the port,
  the two receipt timeouts): the call returns, its result does not depend on the bound, and the instance
  it leaves is well formed.
\<close>

theorem bmca_machines_terminate:
  assumes "instance_ok s" "i < numberPorts s"
  defines "stops \<equiv> \<lambda>f. \<exists>t. instance_ok t \<and> numberPorts t = numberPorts s \<and> (\<forall>n\<ge>bmca_fuel s. f n = Some t)"
  shows "stops (\<lambda>n. port_announce_info_sm n i ev s) \<and> stops (\<lambda>n. port_state_selection_sm n s) \<and>
    stops (\<lambda>n. gptp_handle_announce n i msg s) \<and> stops (\<lambda>n. gptp_as_capable_update_fsm n i s) \<and>
    stops (\<lambda>n. gptp_announce_receive_timeout_timer_handler n i s) \<and> stops (\<lambda>n. gptp_sync_receive_timeout_timer_handler n i s)"
proof (intro conjI)
  note s = ok_conf_self [OF assms(1)]
  show "stops (\<lambda>n. port_announce_info_sm n i ev s)"
    unfolding stops_def by (rule settled_result [OF info_result [OF s assms(2)] info_mono])
  have "ok_result s (port_state_selection_sm n s)" if "bmca_fuel s \<le> n" for n
    unfolding ok_result_def using assms(1) that by (rule select_total)
  then show "stops (\<lambda>n. port_state_selection_sm n s)"
    unfolding stops_def by (rule settled_result [OF _ select_mono])
  show "stops (\<lambda>n. gptp_handle_announce n i msg s)"
    unfolding stops_def by (rule settled_result [OF handle_announce_result [OF assms(1,2)] handlers_mono(1)])
  show "stops (\<lambda>n. gptp_as_capable_update_fsm n i s)"
    unfolding stops_def by (rule settled_result [OF as_capable_result [OF assms(1,2)] handlers_mono(2)])
  show "stops (\<lambda>n. gptp_announce_receive_timeout_timer_handler n i s)"
    unfolding stops_def by (rule settled_result [OF timeout_result(1) [OF assms(1,2)] handlers_mono(3)])
  show "stops (\<lambda>n. gptp_sync_receive_timeout_timer_handler n i s)"
    unfolding stops_def by (rule settled_result [OF timeout_result(2) [OF assms(1,2)] handlers_mono(4)])
qed

subsection \<open>What an instance sends\<close>

fun out_ok :: "gptp_out \<Rightarrow> bool" where
  "out_ok (AnnounceTx i m len) \<longleftrightarrow>
     (let n = length (an_path_sequence m)
      in 1 \<le> n \<and> n \<le> MAX_PTLV_ENTRIES \<and> n = min MAX_PTLV_ENTRIES (unat (an_steps_removed m) + 1) \<and>
         list_all (\<lambda>c. length c = 8) (an_path_sequence m) \<and> an_tlv_type m = PTP_TLV_TYPE_PATH_TRACE \<and>
         unat (an_tlv_length m) = 8 * n \<and> unat len = 68 + 8 * n \<and> unat (pid_port (an_source m)) = i + 1)"
| "out_ok (GmStatus gm d path) \<longleftrightarrow> length path \<le> MAX_PTLV_ENTRIES \<and> list_all (\<lambda>c. length c = 8) path"
| "out_ok _ \<longleftrightarrow> True"

definition sends_ok :: "gptp_instance \<Rightarrow> bool" where
  "sends_ok s \<longleftrightarrow> list_all out_ok (outs s)"

lemma sends_emit: "sends_ok (emit e s) \<longleftrightarrow> sends_ok s \<and> out_ok e"
  by (simp add: sends_ok_def emit_def)

lemma sends_cong: "outs t = outs s \<Longrightarrow> sends_ok t = sends_ok s"
  by (simp add: sends_ok_def)

lemma sends_upd [simp]: "sends_ok (upd_gport i f s) = sends_ok s"
  by (simp add: sends_ok_def upd_gport_def)

lemma sends_simps [simp]:
  "sends_ok (request_reselect i s) = sends_ok s" "sends_ok (gm_change s) = sends_ok s" "sends_ok (clear_reselect_tree s) = sends_ok s"
  "sends_ok (own_path s) = sends_ok s"
  by (simp_all add: sends_ok_def request_reselect_def gm_change_def clear_reselect_tree_def own_path_def Let_def)

lemma announce_msg_ok:
  assumes "instance_ok s" "i < numberPorts s"
  shows "out_ok (AnnounceTx i (announce_msg i s) (of_nat (SIZEOF_ANNOUNCE_PDU - (MAX_PTLV_ENTRIES - num_ptlv_entries s) * 8)))"
proof -
  let ?n = "num_ptlv_entries s"
  have n: "1 \<le> ?n" "?n \<le> 16" "?n = min 16 (unat (master_steps_removed s) + 1)" by (auto simp: num_ptlv_entries_def)
  have l: "length (path_trace s) = 16" "list_all (\<lambda>c. length c = 8) (path_trace s)" using assms(1) by (auto simp: instance_ok_def)
  have e: "SIZEOF_ANNOUNCE_PDU - (MAX_PTLV_ENTRIES - ?n) * 8 = 68 + 8 * ?n" using n(2) by simp
  have w: "unat (of_nat m :: u16) = m" if "m < 65536" for m
    using that by (simp add: unat_of_nat take_bit_nat_eq_self)
  have "unat (of_nat (8 * ?n) :: u16) = 8 * ?n" "unat (of_nat (68 + 8 * ?n) :: u16) = 68 + 8 * ?n"
    using n(2) by (intro w; simp)+
  then show ?thesis
    unfolding e using n l port_no(2) [OF assms]
    by (auto simp: announce_msg_def Let_def list_all_iff dest: in_set_takeD simp del: of_nat_add of_nat_mult)
qed

lemma sends_status:
  assumes "length (path_trace s) = 16" "list_all (\<lambda>c. length c = 8) (path_trace s)"
  shows "sends_ok (gptp_ipc_gm_status s) = sends_ok s"
  using assms by (auto simp: gptp_ipc_gm_status_def sends_emit list_all_iff dest: in_set_takeD)

lemma sends_indication:
  assumes "length (path_trace s) = 16" "list_all (\<lambda>c. length c = 8) (path_trace s)"
  shows "sends_ok (gptp_gm_indication v s) = sends_ok s"
  unfolding gptp_gm_indication_def Let_def using assms
  by (simp add: sends_emit sends_status) (simp add: sends_ok_def)


definition sends_conf :: "inst_conf \<Rightarrow> gptp_instance \<Rightarrow> bool" where
  "sends_conf c s \<longleftrightarrow> ok_conf c s \<and> sends_ok s"

lemma sends_system:
  assumes "instance_ok s" "this_clock r = this_clock s" "path_trace r = path_trace s" "sends_ok r"
  shows "sends_ok (updt_system v r)"
proof -
  have l: "length (path_trace r) = 16" "list_all (\<lambda>c. length c = 8) (path_trace r)" "length (this_clock r) = 8"
    using assms(1-3) by (auto simp: instance_ok_def)
  then show ?thesis
    unfolding updt_system_def Let_def own_path_def using assms(4)
    by (simp add: sends_emit sends_indication list_all_iff) (simp add: sends_ok_def)
qed

lemma sends_roles:
  assumes "ok_conf c s" "sends_ok s" shows "sends_ok (updt_roles_tree s)"
proof -
  have s: "instance_ok s" using assms(1) by (rule ok_confD)
  show ?thesis unfolding roles_tree_eq [OF s]
    by (rule sends_system [OF s])
      (use assms(2) in \<open>simp_all add: roles_state_def updt_master_eq sends_ok_def updt_gm_def Let_def split: option.split\<close>)
qed

interpretation tx: bmca_handlers "sends_conf c" "fst c" for c
proof (unfold_locales, goal_cases)
  case (5 s i)
  let ?u = "upd_gport i (\<lambda>p. p\<lparr>new_info := False\<rparr>) s"
  have i: "i < numberPorts s" using 5 ok_confD(3) [of c s] by (simp add: sends_conf_def)
  have "ok_conf c ?u" using 5 by (intro ok_conf_upd) (auto simp: sends_conf_def gport_ok_def port_conf_def port_usable_def)
  then have "instance_ok ?u" by (rule ok_confD)
  from announce_msg_ok [OF this, of i] i show ?case using 5 ok.transmit_announce [of c s i]
    by (simp add: sends_conf_def port_announce_transmit_sm_transmit_announce_def md_announce_transmit_def sends_emit num_ptlv_entries_def)
next
  case (14 s)
  have "length (path_trace (own_path (s\<lparr>selected_role := r, last_gm_priority := v\<rparr>))) = 16"
    "list_all (\<lambda>c. length c = 8) (path_trace (own_path (s\<lparr>selected_role := r, last_gm_priority := v\<rparr>)))" for r v
    using 14 by (auto simp: sends_conf_def ok_conf_def instance_ok_def own_path_def list_all_iff)
  then have "sends_ok (updt_role_disabled_tree s) = sends_ok s"
    unfolding updt_role_disabled_tree_def by (simp add: sends_status) (simp add: sends_ok_def)
  then show ?case using 14 ok.init_bridge [of c s] by (simp add: sends_conf_def port_state_selection_sm_init_bridge_def) (simp add: sends_ok_def)
next
  case (15 s)
  then have "ok_conf c s" by (simp add: sends_conf_def)
  then have "ok_conf c (clear_reselect_tree s)" by (rule ok_conf_cong) (simp_all add: clear_reselect_tree_def)
  then show ?case using 15 ok.roles [of c s] sends_roles by (simp add: sends_conf_def)
next
  case (16 s)
  then show ?case using ok.select_all [of c s] by (simp add: sends_conf_def) (simp add: sends_ok_def)
next
  case (17 s)
  then show ?case using ok.selection [of c s] by (simp add: sends_conf_def) (simp add: sends_ok_def)
next
  case (19 s i)
  have i: "i < numberPorts s" "ok_conf c s" using 19 ok_confD(3) [of c s] by (simp_all add: sends_conf_def)
  then have ok: "ok_conf c (snd (qualify_announce i s))" using 19(2) by (intro ok.qualifies)
  have "sends_ok (snd (qualify_announce i s))"
  proof (cases "snd (qualify_announce i s) = s")
    case False
    then obtain u where u: "snd (qualify_announce i s) = gptp_ipc_gm_status u" "outs u = outs s"
      by (auto simp: qualify_announce_def record_path_trace_def Let_def split: if_splits)
    then have "length (path_trace u) = 16" "list_all (\<lambda>c. length c = 8) (path_trace u)"
      using ok by (simp_all add: ok_conf_def instance_ok_def)
    then show ?thesis using 19 u by (simp add: sends_status sends_conf_def) (simp add: sends_ok_def)
  qed (use 19 in \<open>simp add: sends_conf_def\<close>)
  with ok show ?case by (simp add: sends_conf_def)
qed (simp_all add: sends_conf_def ok.ports ok.transmit_init ok.transmit_idle ok.transmit_periodic ok.disabled ok.aged ok.received ok.superior
    ok.repeated ok.inferior ok.update ok.current ok.discard ok.accepted ok.stored ok.counted,
  simp_all add: port_announce_transmit_sm_transmit_init_def port_announce_transmit_sm_idle_def port_announce_transmit_sm_transmit_periodic_def
    info_disabled_state_def info_aged_state_def info_superior_state_def port_announce_info_sm_repeated_def port_announce_info_sm_inferior_def
    info_update_state_def port_announce_info_sm_current_def port_announce_rcv_sm_discard_def)

subsection \<open>Reachable states\<close>

text \<open>
  The events of an instance: an Announce message on a port, the timers of a port, a change of the state
  of a port or of the grandmaster capability, and the passage of time. The fuel is what the termination
  theorem asks for.
\<close>

inductive gptp_step :: "gptp_instance \<Rightarrow> gptp_instance \<Rightarrow> bool" where
  announce: "i < numberPorts s \<Longrightarrow> gptp_handle_announce (bmca_fuel s) i msg s = Some t \<Longrightarrow> gptp_step s t"
| announce_timeout: "i < numberPorts s \<Longrightarrow> gptp_announce_receive_timeout_timer_handler (bmca_fuel s) i s = Some t \<Longrightarrow> gptp_step s t"
| sync_timeout: "i < numberPorts s \<Longrightarrow> gptp_sync_receive_timeout_timer_handler (bmca_fuel s) i s = Some t \<Longrightarrow> gptp_step s t"
| transmit_timer: "i < numberPorts s \<Longrightarrow> gptp_step s (gptp_announce_transmit_timer_handler i s)"
| port_change: "i < numberPorts s \<Longrightarrow>
    gptp_as_capable_update_fsm (bmca_fuel s) i (upd_gport i (\<lambda>p. p\<lparr>port_oper := a, ptp_port_enabled := b, as_capable := c\<rparr>) s) = Some t \<Longrightarrow>
    gptp_step s t"
| gm_capable: "gptp_step s (gptp_instance_priority_vector_update (s\<lparr>gmCapable := b\<rparr>))"
| time: "gptp_step s (s\<lparr>clock_local_ns := x, clock_monotonic_ns := y\<rparr>)"

definition sends_inv :: "gptp_instance \<Rightarrow> bool" where
  "sends_inv s \<longleftrightarrow> instance_ok s \<and> sends_ok s"

lemma sends_inv_conf: "sends_inv s \<longleftrightarrow> sends_conf (inst_conf s) s"
  by (simp add: sends_inv_def sends_conf_def ok_conf_def)

lemma sends_confD: "sends_conf c s \<Longrightarrow> sends_inv s"
  by (simp add: sends_inv_def sends_conf_def ok_conf_def)

lemma gptp_step_inv:
  assumes "gptp_step s t" "sends_inv s" shows "sends_inv t"
proof -
  have s: "sends_conf (inst_conf s) s" using assms(2) by (simp only: sends_inv_conf)
  show ?thesis using assms(1)
proof cases
  case (port_change i c b a)
  let ?u = "upd_gport i (\<lambda>p. p\<lparr>port_oper := a, ptp_port_enabled := b, as_capable := c\<rparr>) s"
  have "instance_ok ?u" using assms(2) by (intro instance_ok_upd) (simp_all add: sends_inv_def gport_ok_def)
  then have "sends_inv ?u" using assms(2) by (simp add: sends_inv_def)
  then have "sends_conf (inst_conf ?u) ?u" by (simp only: sends_inv_conf)
  then have "sends_conf (inst_conf ?u) t" by (rule tx.as_capable_inv [OF port_change(2)]) (simp add: fst_conf port_change(1))
  then show ?thesis by (rule sends_confD)
next
  case (gm_capable b)
  then show ?thesis using assms(2)
    by (auto simp: sends_inv_def instance_ok_def vector_ok_def system_ok_def gptp_instance_priority_vector_update_def sends_ok_def Let_def)
next
  case (time x y)
  then show ?thesis using assms(2) by (auto simp: sends_inv_def instance_ok_def sends_ok_def)
next
  case (announce i msg)
  from tx.handle_announce_inv [OF this(2) s] this(1) show ?thesis by (simp add: fst_conf sends_confD)
next
  case (announce_timeout i)
  from tx.announce_timeout_inv [OF this(2) s] this(1) show ?thesis by (simp add: fst_conf sends_confD)
next
  case (sync_timeout i)
  from tx.sync_timeout_inv [OF this(2) s] this(1) show ?thesis by (simp add: fst_conf sends_confD)
next
  case (transmit_timer i)
  then show ?thesis using tx.transmit_timer_inv [OF s, of i] by (simp add: fst_conf sends_confD)
  qed
qed

lemma gptp_reachable_inv: "gptp_step\<^sup>*\<^sup>* s t \<Longrightarrow> sends_inv s \<Longrightarrow> sends_inv t"
  by (induction rule: rtranclp_induct) (auto intro: gptp_step_inv)

text \<open>
  C25: Whatever Announce messages, timeouts and port changes an instance goes through, its path trace holds
  at most 16 clock identities of 8 bytes, and every Announce it sends is well formed: the path trace TLV
  has one entry per step removed plus one, 16 at most, its length field counts the bytes of its entries,
  and the message length is 68 bytes plus the entries, so that nothing beyond the message buffer of 196
  bytes is read or sent.
\<close>

theorem bmca_announces_well_formed:
  assumes "instance_ok s" "outs s = []" "gptp_step\<^sup>*\<^sup>* s t"
  shows "instance_ok t \<and> unat (num_ptlv t) \<le> MAX_PTLV_ENTRIES \<and> list_all out_ok (outs t)"
proof -
  have "sends_inv s" using assms(1,2) by (simp add: sends_inv_def sends_ok_def)
  then have "sends_inv t" using assms(3) gptp_reachable_inv by blast
  then show ?thesis by (auto simp: sends_inv_def sends_ok_def instance_ok_def word_le_nat_alt)
qed

end
