(* ===== verification/GPTP_BMCA_Live.thy ===== *)
theory GPTP_BMCA_Live
  imports GPTP_BMCA_Run "HOL-Library.Sublist"
begin

section \<open>gPTP best master selection: what a received Announce and a timeout lead to\<close>

text \<open>
  When nothing is pending on any port (weight 0), the selection machine runs once: it sets the roles and
  every port whose information has to be updated becomes a master port and announces. From this follow
  the adoption of a better master and the takeover when the master falls silent.
\<close>

declare port_announce_info_sm.simps(2) [simp del] port_state_selection_sm.simps(2) [simp del]

subsection \<open>Effects on one port\<close>

text \<open>Only port \<open>i\<close> and the messages sent change; \<open>port_core\<close> is what the transmission machine keeps.\<close>

definition inst_rest :: "gptp_instance \<Rightarrow> gptp_instance" where
  "inst_rest s = s\<lparr>gport := undefined, outs := []\<rparr>"

lemma inst_restD:
  assumes "inst_rest t = inst_rest s"
  shows "selected_role t = selected_role s" "selected t = selected s" "reselect t = reselect s" "gm_priority t = gm_priority s"
    "is_grandmaster t = is_grandmaster s" "gm_present t = gm_present s" "gmChangeCount t = gmChangeCount s" "numberPorts t = numberPorts s"
    "begin_flag t = begin_flag s" "instance_enable t = instance_enable s" "port_state_sm_state t = port_state_sm_state s"
    "external_port_configuration_enabled t = external_port_configuration_enabled s" "path_trace t = path_trace s"
    "master_steps_removed t = master_steps_removed s" "this_clock t = this_clock s" "system_priority t = system_priority s"
  using arg_cong [OF assms, of selected_role] arg_cong [OF assms, of selected] arg_cong [OF assms, of reselect]
    arg_cong [OF assms, of gm_priority] arg_cong [OF assms, of is_grandmaster] arg_cong [OF assms, of gm_present]
    arg_cong [OF assms, of gmChangeCount] arg_cong [OF assms, of numberPorts] arg_cong [OF assms, of begin_flag]
    arg_cong [OF assms, of instance_enable] arg_cong [OF assms, of port_state_sm_state]
    arg_cong [OF assms, of external_port_configuration_enabled] arg_cong [OF assms, of path_trace]
    arg_cong [OF assms, of master_steps_removed] arg_cong [OF assms, of this_clock] arg_cong [OF assms, of system_priority]
  by (simp_all add: inst_rest_def)

lemma inst_rest_simps [simp]:
  "inst_rest (upd_gport i f s) = inst_rest s" "inst_rest (emit e s) = inst_rest s"
  by (simp_all add: inst_rest_def upd_gport_def emit_def)

definition only_port :: "nat \<Rightarrow> gptp_instance \<Rightarrow> gptp_instance \<Rightarrow> bool" where
  "only_port i s t \<longleftrightarrow> inst_rest t = inst_rest s \<and> (\<forall>k. k \<noteq> i \<longrightarrow> gport t k = gport s k) \<and> prefix (outs s) (outs t)"

definition port_core :: "gptp_port \<Rightarrow> gptp_port" where
  "port_core p = p\<lparr>new_info := False, announce_slow_down := False, number_announce_transmissions := 0, transmit_sm_state := TRANSMIT_IDLE,
     transmit_timer := None, interval2 := u64_to_u_scaled_ns 0, announce_tx_seqnum := 0, num_tx_announce := 0\<rparr>"

lemma port_coreD:
  assumes "port_core p = port_core q"
  shows "info_is p = info_is q" "updt_info p = updt_info q" "port_priority p = port_priority q" "info_sm_state p = info_sm_state q"
    "rcvd_msg p = rcvd_msg q" "identity_number p = identity_number q" "gm_id_static p = gm_id_static q" "port_usable p = port_usable q"
    "asymmetry p = asymmetry q" "master_priority p = master_priority q" "timeout_timer p = timeout_timer q"
    "rcvd_announce_par p = rcvd_announce_par q" "rcv_sm_state p = rcv_sm_state q"
proof -
  have "f (port_core p) = f (port_core q)" for f :: "gptp_port \<Rightarrow> 'a" using assms by simp
  from this [of info_is] show "info_is p = info_is q" by (simp add: port_core_def)
qed (use arg_cong [OF assms, of updt_info] arg_cong [OF assms, of port_priority] arg_cong [OF assms, of info_sm_state]
  arg_cong [OF assms, of rcvd_msg] arg_cong [OF assms, of identity_number] arg_cong [OF assms, of gm_id_static]
  arg_cong [OF assms, of port_usable] arg_cong [OF assms, of asymmetry] arg_cong [OF assms, of master_priority]
  arg_cong [OF assms, of timeout_timer] arg_cong [OF assms, of rcvd_announce_par] arg_cong [OF assms, of rcv_sm_state]
  in \<open>simp_all add: port_core_def port_usable_def\<close>)

lemma only_port_refl [simp]: "only_port i s s"
  by (simp add: only_port_def)

lemma only_port_trans: "only_port i s t \<Longrightarrow> only_port i t u \<Longrightarrow> only_port i s u"
  by (auto simp: only_port_def intro: prefix_order.trans)

lemma only_port_upd [simp]: "only_port i s (upd_gport i f s)"
  by (simp add: only_port_def) (simp add: upd_gport_def)

lemma only_port_emit [simp]: "only_port i s (emit e s)"
  by (simp add: only_port_def) (simp add: emit_def)

definition keeps_core :: "nat \<Rightarrow> gptp_instance \<Rightarrow> gptp_instance \<Rightarrow> bool" where
  "keeps_core i s t \<longleftrightarrow> only_port i s t \<and> port_core (gport t i) = port_core (gport s i)"

lemma keeps_core_trans: "keeps_core i s t \<Longrightarrow> keeps_core i t u \<Longrightarrow> keeps_core i s u"
  by (auto simp: keeps_core_def intro: only_port_trans)

lemma keeps_core_upd: "port_core (f (gport s i)) = port_core (gport s i) \<Longrightarrow> keeps_core i s (upd_gport i f s)"
  by (simp add: keeps_core_def)

lemma md_transmit_core: "keeps_core i s (md_announce_transmit i s)"
proof -
  let ?e = "AnnounceTx i (announce_msg i s) (of_nat (SIZEOF_ANNOUNCE_PDU - (MAX_PTLV_ENTRIES - num_ptlv_entries s) * 8))"
  have "keeps_core i s (emit ?e s)" by (simp add: keeps_core_def)
  moreover have "keeps_core i (emit ?e s) (md_announce_transmit i s)"
    unfolding md_announce_transmit_def by (rule keeps_core_upd) (simp add: port_core_def)
  ultimately show ?thesis by (rule keeps_core_trans)
qed

lemma announce_core: "keeps_core i s (port_announce_transmit_sm_transmit_announce i s)"
  unfolding port_announce_transmit_sm_transmit_announce_def
  by (rule keeps_core_trans [OF keeps_core_trans [OF _ md_transmit_core]]; rule keeps_core_upd)
    (simp_all add: port_core_def announce_interval_update_def)

lemma step_core: "keeps_core i s (port_announce_transmit_step i ev s)"
proof -
  have "keeps_core i s (port_announce_transmit_sm_idle i s)" "keeps_core i s (port_announce_transmit_sm_transmit_periodic i s)" "keeps_core i s s"
    unfolding port_announce_transmit_sm_idle_def port_announce_transmit_sm_transmit_periodic_def
    by (auto intro!: keeps_core_upd simp: port_core_def) (simp add: keeps_core_def)
  then show ?thesis using announce_core [of i s]
    by (simp add: port_announce_transmit_step_def split: port_announce_transmit_sm_state.split)
qed

lemma loop_core: "keeps_core i s (transmit_loop i ev s)"
proof (induction i ev s rule: transmit_loop.induct)
  case (1 i ev s)
  show ?case
  proof (cases "transmit_sm_state (gport (port_announce_transmit_step i ev s) i) = transmit_sm_state (gport s i)")
    case True
    then show ?thesis using step_core by (subst transmit_loop.simps) (simp add: Let_def)
  next
    case False
    then show ?thesis using keeps_core_trans [OF step_core 1 [OF refl False]] by (subst transmit_loop.simps) (simp add: Let_def)
  qed
qed

lemma transmit_core: "keeps_core i s (port_announce_transmit_sm i ev s)"
proof -
  have "keeps_core i s (port_announce_transmit_sm_transmit_init i s)"
    unfolding port_announce_transmit_sm_transmit_init_def by (rule keeps_core_upd) (simp add: port_core_def)
  then show ?thesis unfolding port_announce_transmit_sm_def using loop_core keeps_core_trans by (simp add: keeps_core_def)
qed


subsection \<open>An announce is sent\<close>

definition sent_on :: "nat \<Rightarrow> gptp_instance \<Rightarrow> gptp_instance \<Rightarrow> bool" where
  "sent_on i s t \<longleftrightarrow> (\<exists>m len. AnnounceTx i m len \<in> set (drop (length (outs s)) (outs t)) \<and>
     an_grandmaster m = root_system_identity (gm_priority s) \<and> an_steps_removed m = master_steps_removed s)"

definition announces :: "nat \<Rightarrow> gptp_instance \<Rightarrow> bool" where
  "announces i s \<longleftrightarrow> new_info (gport s i) \<and> role_of s i = MASTER_PORT \<and> transmit_allowed i s \<and> \<not> asymmetry (gport s i)"

lemma announce_sends: "sent_on i s (port_announce_transmit_sm_transmit_announce i s)"
  by (auto simp: sent_on_def port_announce_transmit_sm_transmit_announce_def md_announce_transmit_def upd_gport_def emit_def announce_msg_def Let_def)

lemma sent_later: "sent_on i s t \<Longrightarrow> prefix (outs t) (outs u) \<Longrightarrow> prefix (outs s) (outs t) \<Longrightarrow> sent_on i s u"
  unfolding sent_on_def prefix_def by (elim exE conjE, rule exI, rule exI) auto

lemma sent_prefix: "sent_on i s t \<Longrightarrow> only_port j t u \<Longrightarrow> prefix (outs s) (outs t) \<Longrightarrow> sent_on i s u"
  by (rule sent_later) (simp_all add: only_port_def)

lemma idle_announces: "announces i s \<Longrightarrow> announces i (port_announce_transmit_sm_idle i s)"
  by (simp add: announces_def port_announce_transmit_sm_idle_def role_of_def transmit_allowed_def port_flag_def)
    (simp add: upd_gport_def)

lemma loop_sends_idle:
  assumes "announces i s" "transmit_sm_state (gport s i) = TRANSMIT_IDLE"
  shows "sent_on i s (transmit_loop i TRANSMIT_EVENT_RUN s)"
proof -
  let ?t = "port_announce_transmit_sm_transmit_announce i s"
  have e: "port_announce_transmit_step i TRANSMIT_EVENT_RUN s = ?t"
    using assms by (simp add: port_announce_transmit_step_def announces_def)
  have "transmit_sm_state (gport ?t i) \<noteq> TRANSMIT_IDLE" by (simp add: port_announce_transmit_sm_transmit_announce_def)
  then have l: "transmit_loop i TRANSMIT_EVENT_RUN s = transmit_loop i TRANSMIT_EVENT_RUN ?t"
    using assms(2) by (subst transmit_loop.simps) (simp add: e Let_def)
  have "only_port i ?t (transmit_loop i TRANSMIT_EVENT_RUN ?t)" "prefix (outs s) (outs ?t)"
    using loop_core [of i ?t TRANSMIT_EVENT_RUN] announce_core [of i s] by (auto simp: keeps_core_def only_port_def)
  then show ?thesis unfolding l using announce_sends sent_prefix by blast
qed

lemma transmit_sends:
  assumes "announces i s" "\<not> gm_id_static (gport s i)" "\<not> begin_flag s" "instance_enable s"
  shows "sent_on i s (port_announce_transmit_sm i TRANSMIT_EVENT_RUN s)"
proof (cases "transmit_sm_state (gport s i) = TRANSMIT_IDLE")
  case True
  then show ?thesis using assms loop_sends_idle by (simp add: port_announce_transmit_sm_def)
next
  case False
  let ?t = "port_announce_transmit_sm_idle i s"
  have e: "port_announce_transmit_step i TRANSMIT_EVENT_RUN s = ?t"
    using False by (cases "transmit_sm_state (gport s i)") (simp_all add: port_announce_transmit_step_def)
  have i: "transmit_sm_state (gport ?t i) = TRANSMIT_IDLE" by (simp add: port_announce_transmit_sm_idle_def)
  then have l: "transmit_loop i TRANSMIT_EVENT_RUN s = transmit_loop i TRANSMIT_EVENT_RUN ?t"
    using False by (subst transmit_loop.simps) (simp add: e Let_def)
  have "sent_on i ?t (transmit_loop i TRANSMIT_EVENT_RUN ?t)"
    using idle_announces [OF assms(1)] i by (rule loop_sends_idle)
  then have "sent_on i s (transmit_loop i TRANSMIT_EVENT_RUN ?t)"
    by (simp add: sent_on_def port_announce_transmit_sm_idle_def upd_gport_def)
  then show ?thesis using assms l by (simp add: port_announce_transmit_sm_def)
qed

subsection \<open>A port with nothing pending\<close>

definition transient :: "gptp_port \<Rightarrow> bool" where
  "transient p \<longleftrightarrow> info_sm_state p \<in> {INFO_UPDATE, INFO_SUPERIOR_MASTER_PORT, INFO_REPEATED_MASTER_PORT, INFO_INFERIOR_MASTER_OR_OTHER}"

definition wants_update :: "nat \<Rightarrow> gptp_instance \<Rightarrow> bool" where
  "wants_update i s \<longleftrightarrow> info_sm_state (gport s i) \<in> {INFO_CURRENT, INFO_AGED} \<and> port_flag (selected s) i s \<and> updt_info (gport s i)"

definition quiet :: "gptp_instance \<Rightarrow> bool" where
  "quiet s \<longleftrightarrow> instance_ok s \<and> weight s = 0 \<and> \<not> begin_flag s \<and> instance_enable s"

lemma quiet_port:
  assumes "quiet s" "i < numberPorts s" "\<not> gm_id_static (gport s i)"
  shows "\<not> rcvd_msg (gport s i)"
    "if port_usable (gport s i) then info_sm_state (gport s i) \<noteq> INFO_DISABLED
     else info_sm_state (gport s i) = INFO_DISABLED \<and> info_is (gport s i) = SPANNING_TREE_DISABLED"
proof -
  have "port_weight (gport s i) = 0" using assms(1,2) by (auto simp: quiet_def weight_def)
  then show "\<not> rcvd_msg (gport s i)"
    "if port_usable (gport s i) then info_sm_state (gport s i) \<noteq> INFO_DISABLED
     else info_sm_state (gport s i) = INFO_DISABLED \<and> info_is (gport s i) = SPANNING_TREE_DISABLED"
    using assms(3) by (auto simp: port_weight_def split: if_splits)
qed

lemma quiet_info:
  assumes "quiet s" "i < numberPorts s" "\<not> gm_id_static (gport s i)"
  shows "port_announce_info_sm (Suc n) i INFO_EVENT_RUN s =
    (if transient (gport s i) then port_announce_info_sm n i INFO_EVENT_RUN (port_announce_info_sm_current i s)
     else if wants_update i s then port_announce_info_sm n i INFO_EVENT_RUN (port_announce_info_sm_update i s) else Some s)"
proof -
  note q = quiet_port [OF assms]
  have sw: "port_announce_info_switch sel i INFO_EVENT_RUN s =
    Some (if transient (gport s i) then port_announce_info_sm_current i s
      else if wants_update i s then port_announce_info_sm_update i s else s)" for sel
    using q by (cases "info_sm_state (gport s i)")
      (auto simp: port_announce_info_switch_def transient_def wants_update_def info_timeout_def Let_def)
  have u: "info_sm_state (gport (port_announce_info_sm_update i s) i) = INFO_UPDATE"
    using port_coreD(4) [of "gport (port_announce_info_sm_update i s) i" "gport (info_update_state i s) i"]
      transmit_core [of i "info_update_state i s" TRANSMIT_EVENT_RUN]
    by (simp add: keeps_core_def port_announce_info_sm_update_def info_update_state_def)
  have c: "info_sm_state (gport (port_announce_info_sm_current i s) i) = INFO_CURRENT"
    by (simp add: port_announce_info_sm_current_def)
  have g: "\<not> (begin_flag s \<or> \<not> instance_enable s \<or> (\<not> port_usable (gport s i) \<and> info_is (gport s i) \<noteq> SPANNING_TREE_DISABLED))"
    using assms(1) q by (auto simp: quiet_def split: if_splits)
  show ?thesis
    using assms(3) g sw u c
    by (auto simp: port_announce_info_sm.simps(2) info_body_def Let_def transient_def wants_update_def)
qed

lemma quiet_current: "quiet s \<Longrightarrow> i < numberPorts s \<Longrightarrow> transient (gport s i) \<Longrightarrow> quiet (port_announce_info_sm_current i s)"
  using weight_current [of i s] ok.current [OF ok_conf_self, of s i]
  by (auto simp: quiet_def fst_conf ok_conf_def transient_def) (auto simp: port_announce_info_sm_current_def)

lemma quiet_transmit:
  assumes "quiet s" "i < numberPorts s" shows "quiet (port_announce_transmit_sm i ev s)"
proof -
  have "inst_rest (port_announce_transmit_sm i ev s) = inst_rest s"
    using transmit_core [of i s ev] by (simp add: keeps_core_def only_port_def)
  note r = inst_restD(9,10) [OF this]
  have "instance_ok (port_announce_transmit_sm i ev s)"
    using ok.transmit_inv [OF ok_conf_self, of s i ev] assms by (simp add: quiet_def fst_conf ok_conf_def)
  with r assms(1) show ?thesis by (simp add: quiet_def)
qed

lemma quiet_update: "quiet s \<Longrightarrow> i < numberPorts s \<Longrightarrow> wants_update i s \<Longrightarrow> quiet (port_announce_info_sm_update i s)"
  unfolding port_announce_info_sm_update_def
  by (rule quiet_transmit) (use weight_update [of i s] ok.update [OF ok_conf_self, of s i] in
    \<open>auto simp: quiet_def fst_conf ok_conf_def wants_update_def\<close>, auto simp: info_update_state_def)


definition settle :: "nat \<Rightarrow> gptp_instance \<Rightarrow> gptp_instance" where
  "settle i s =
     (let s1 = (if transient (gport s i) then port_announce_info_sm_current i s else s)
      in if wants_update i s1 then port_announce_info_sm_current i (port_announce_info_sm_update i s1) else s1)"

lemma current_fields:
  "gport (port_announce_info_sm_current i s) i = (gport s i)\<lparr>info_sm_state := INFO_CURRENT\<rparr>"
  "only_port i s (port_announce_info_sm_current i s)"
  by (simp_all add: port_announce_info_sm_current_def)

lemma update_core:
  "only_port i s (port_announce_info_sm_update i s)"
  "port_core (gport (port_announce_info_sm_update i s) i) = port_core (gport (info_update_state i s) i)"
proof -
  have "keeps_core i (info_update_state i s) (port_announce_info_sm_update i s)"
    unfolding port_announce_info_sm_update_def by (rule transmit_core)
  moreover have "only_port i s (info_update_state i s)" by (simp add: info_update_state_def)
  ultimately show "only_port i s (port_announce_info_sm_update i s)"
    "port_core (gport (port_announce_info_sm_update i s) i) = port_core (gport (info_update_state i s) i)"
    by (auto simp: keeps_core_def intro: only_port_trans)
qed

lemma update_port:
  "info_is (gport (port_announce_info_sm_update i s) i) = SPANNING_TREE_MINE" "\<not> updt_info (gport (port_announce_info_sm_update i s) i)"
  "port_priority (gport (port_announce_info_sm_update i s) i) = master_priority (gport s i)"
  "info_sm_state (gport (port_announce_info_sm_update i s) i) = INFO_UPDATE"
  "gm_id_static (gport (port_announce_info_sm_update i s) i) = gm_id_static (gport s i)"
  "identity_number (gport (port_announce_info_sm_update i s) i) = identity_number (gport s i)"
  "rcvd_announce_par (gport (port_announce_info_sm_update i s) i) = rcvd_announce_par (gport s i)"
  using port_coreD(1-4,6,7,12) [OF update_core(2) [of i s]] by (simp_all add: info_update_state_def)

lemma numberPorts_only: "only_port i s t \<Longrightarrow> numberPorts t = numberPorts s"
  by (rule inst_restD(8)) (simp add: only_port_def)

lemma settle_info:
  assumes "quiet s" "i < numberPorts s" "\<not> gm_id_static (gport s i)"
  shows "port_announce_info_sm (n + 4) i INFO_EVENT_RUN s = Some (settle i s)"
proof -
  have stop: "port_announce_info_sm (Suc m) i INFO_EVENT_RUN u = Some u"
    if "quiet u" "i < numberPorts u" "\<not> gm_id_static (gport u i)" "\<not> transient (gport u i)" "\<not> wants_update i u" for m u
    using quiet_info [OF that(1-3)] that(4,5) by simp
  have upd: "port_announce_info_sm (Suc (Suc (Suc m))) i INFO_EVENT_RUN u = Some (settle i u)"
    if u: "quiet u" "i < numberPorts u" "\<not> gm_id_static (gport u i)" "\<not> transient (gport u i)" for m u
  proof (cases "wants_update i u")
    case True
    let ?v = "port_announce_info_sm_update i u" and ?w = "port_announce_info_sm_current i (port_announce_info_sm_update i u)"
    have v: "quiet ?v" "i < numberPorts ?v" "\<not> gm_id_static (gport ?v i)" "transient (gport ?v i)"
      using quiet_update [OF u(1,2) True] numberPorts_only [OF update_core(1)] update_port [of i u] u by (simp_all add: transient_def)
    have w: "quiet ?w" "i < numberPorts ?w" "\<not> gm_id_static (gport ?w i)" "\<not> transient (gport ?w i)" "\<not> wants_update i ?w"
      using quiet_current [OF v(1,2,4)] numberPorts_only [OF current_fields(2)] v(2,3) update_port [of i u]
      by (simp_all add: current_fields(1) transient_def wants_update_def)
    show ?thesis
      using quiet_info [OF u(1-3)] quiet_info [OF v(1-3)] stop [OF w] u(4) True v(4) by (simp add: settle_def)
  next
    case False
    then show ?thesis using stop [OF u(1-4)] u(4) by (simp add: settle_def)
  qed
  show ?thesis
  proof (cases "transient (gport s i)")
    case True
    let ?u = "port_announce_info_sm_current i s"
    have u: "quiet ?u" "i < numberPorts ?u" "\<not> gm_id_static (gport ?u i)" "\<not> transient (gport ?u i)"
      using quiet_current [OF assms(1,2) True] numberPorts_only [OF current_fields(2)] assms by (simp_all add: current_fields(1) transient_def)
    have "settle i ?u = settle i s" using True u(4) by (simp add: settle_def)
    then show ?thesis
      using quiet_info [OF assms, of "Suc (Suc (Suc n))"] upd [OF u] True by (simp add: numeral_eq_Suc)
  next
    case False
    have "n + 4 = Suc (Suc (Suc (Suc n)))" by simp
    then show ?thesis using upd [OF assms False, of "Suc n"] by (simp only:)
  qed
qed

definition due :: "nat \<Rightarrow> gptp_instance \<Rightarrow> bool" where
  "due i s \<longleftrightarrow> port_flag (selected s) i s \<and> updt_info (gport s i) \<and> info_sm_state (gport s i) \<notin> {INFO_DISABLED, INFO_RECEIVE}"

definition port_done :: "gptp_instance \<Rightarrow> gptp_instance \<Rightarrow> nat \<Rightarrow> bool" where
  "port_done s t k \<longleftrightarrow> identity_number (gport t k) = identity_number (gport s k) \<and>
     rcvd_announce_par (gport t k) = rcvd_announce_par (gport s k) \<and>
     (if due k s
      then info_is (gport t k) = SPANNING_TREE_MINE \<and> \<not> updt_info (gport t k) \<and> port_priority (gport t k) = master_priority (gport s k) \<and>
        info_sm_state (gport t k) = INFO_CURRENT \<and> (role_of s k = MASTER_PORT \<and> \<not> asymmetry (gport s k) \<longrightarrow> sent_on k s t)
      else info_is (gport t k) = info_is (gport s k) \<and> updt_info (gport t k) = updt_info (gport s k) \<and>
        port_priority (gport t k) = port_priority (gport s k) \<and> timeout_timer (gport t k) = timeout_timer (gport s k) \<and>
        info_sm_state (gport t k) = (if transient (gport s k) then INFO_CURRENT else info_sm_state (gport s k)))"


lemma settle_only: "only_port i s (settle i s)"
proof -
  have u: "only_port i u (port_announce_info_sm_current i (port_announce_info_sm_update i u))" for u
    by (rule only_port_trans [OF update_core(1) current_fields(2)])
  then have "only_port i s (port_announce_info_sm_current i (port_announce_info_sm_update i (port_announce_info_sm_current i s)))"
    by (rule only_port_trans [OF current_fields(2)])
  with u [of s] show ?thesis by (simp add: settle_def Let_def current_fields(2))
qed

lemma only_portD:
  assumes "only_port i s t"
  shows "inst_rest t = inst_rest s" "k \<noteq> i \<Longrightarrow> gport t k = gport s k" "prefix (outs s) (outs t)"
  using assms by (auto simp: only_port_def)

lemma flag_cong:
  assumes "inst_rest t = inst_rest s" "identity_number (gport t k) = identity_number (gport s k)"
  shows "port_flag (selected t) k t = port_flag (selected s) k s" "role_of t k = role_of s k"
    "external_port_configuration_enabled t = external_port_configuration_enabled s"
  using inst_restD [OF assms(1)] assms(2) by (simp_all add: port_flag_def role_of_def)

lemma wants_due:
  "wants_update i (if transient (gport s i) then port_announce_info_sm_current i s else s) \<longleftrightarrow> due i s"
proof (cases "info_sm_state (gport s i)")
qed (auto simp: wants_update_def due_def transient_def current_fields(1) flag_cong(1) [OF only_portD(1) [OF current_fields(2)]])

lemma update_sends:
  assumes "due i s" "role_of s i = MASTER_PORT" "\<not> asymmetry (gport s i)" "\<not> gm_id_static (gport s i)" "\<not> begin_flag s" "instance_enable s"
  shows "sent_on i s (port_announce_info_sm_update i s)"
proof -
  let ?u = "info_update_state i s"
  have u: "inst_rest ?u = inst_rest s" "identity_number (gport ?u i) = identity_number (gport s i)" by (simp_all add: info_update_state_def)
  have "announces i ?u" using assms(1-3) flag_cong [OF u]
    by (simp add: announces_def transmit_allowed_def due_def) (simp add: info_update_state_def)
  then have "sent_on i ?u (port_announce_info_sm_update i s)"
    unfolding port_announce_info_sm_update_def using assms(4-6) inst_restD [OF u(1)]
    by (intro transmit_sends) (simp_all add: info_update_state_def)
  then show ?thesis using inst_restD [OF u(1)] by (simp add: sent_on_def info_update_state_def upd_gport_def)
qed


lemma sent_cong: "inst_rest u = inst_rest s \<Longrightarrow> outs u = outs s \<Longrightarrow> sent_on i u t \<Longrightarrow> sent_on i s t"
  using inst_restD(4,14) [of u s] by (simp add: sent_on_def)

lemma settle_done:
  assumes "quiet s" "\<not> gm_id_static (gport s i)" shows "port_done s (settle i s) i"
proof -
  let ?u = "if transient (gport s i) then port_announce_info_sm_current i s else s"
  have u: "inst_rest ?u = inst_rest s" "outs ?u = outs s" "identity_number (gport ?u i) = identity_number (gport s i)"
    "asymmetry (gport ?u i) = asymmetry (gport s i)" "gm_id_static (gport ?u i) = gm_id_static (gport s i)"
    "master_priority (gport ?u i) = master_priority (gport s i)" "updt_info (gport ?u i) = updt_info (gport s i)"
    "rcvd_announce_par (gport ?u i) = rcvd_announce_par (gport s i)"
    by (simp_all add: port_announce_info_sm_current_def) (simp add: upd_gport_def)
  show ?thesis
  proof (cases "due i s")
    case True
    let ?v = "port_announce_info_sm_update i ?u"
    have e: "settle i s = port_announce_info_sm_current i ?v"
      using True wants_due by (simp add: settle_def Let_def)
    have "due i ?u" using True flag_cong(1) [OF u(1,3)] u(7) by (simp add: due_def) (simp add: current_fields(1))
    moreover have "role_of ?u i = role_of s i" "begin_flag ?u = begin_flag s" "instance_enable ?u = instance_enable s"
      using flag_cong(2) [OF u(1,3)] inst_restD(9,10) [OF u(1)] by simp_all
    ultimately have "role_of s i = MASTER_PORT \<Longrightarrow> \<not> asymmetry (gport s i) \<Longrightarrow> sent_on i ?u ?v"
      using assms u(4,5) by (intro update_sends) (simp_all add: quiet_def)
    then have "role_of s i = MASTER_PORT \<Longrightarrow> \<not> asymmetry (gport s i) \<Longrightarrow> sent_on i s (port_announce_info_sm_current i ?v)"
      using sent_cong [OF u(1,2)] sent_prefix [OF _ current_fields(2)] only_portD(3) [OF update_core(1)] u(2) by metis
    then show ?thesis
      unfolding port_done_def e using True update_port [of i ?u] u(3,6,8) by (simp add: current_fields(1))
  next
    case False
    then have "settle i s = ?u" using wants_due by (simp add: settle_def Let_def)
    then show ?thesis using False by (simp add: port_done_def current_fields(1))
  qed
qed

lemma done_core:
  assumes "port_done s t i" "keeps_core i t u" "prefix (outs s) (outs t)"
  shows "port_done s u i"
  using assms(1) port_coreD [of "gport u i" "gport t i"] assms(2) sent_prefix [of i s t i u] assms(3)
  by (auto simp: port_done_def keeps_core_def)

lemma body_done:
  assumes "quiet s" "i < numberPorts s" "\<not> gm_id_static (gport s i)"
  defines "t \<equiv> port_announce_transmit_sm i TRANSMIT_EVENT_RUN (settle i s)"
  shows "only_port i s t" "port_done s t i"
proof -
  have k: "keeps_core i (settle i s) t" unfolding t_def by (rule transmit_core)
  then show "only_port i s t" using only_port_trans [OF settle_only] by (simp add: keeps_core_def)
  show "port_done s t i"
    using settle_done [OF assms(1,3)] k only_portD(3) [OF settle_only] by (rule done_core)
qed

lemma done_later:
  assumes "port_done s t k" "only_port i t u" "k \<noteq> i" "prefix (outs s) (outs t)"
  shows "port_done s u k"
  using assms(1) only_portD(2) [OF assms(2,3)] sent_prefix [OF _ assms(2,4)] by (auto simp: port_done_def)


lemma settle_quiet:
  assumes "quiet s" "i < numberPorts s" shows "quiet (settle i s)"
proof -
  let ?u = "if transient (gport s i) then port_announce_info_sm_current i s else s"
  have u: "quiet ?u" "i < numberPorts ?u"
    using quiet_current [OF assms] assms numberPorts_only [OF current_fields(2), of i s] by auto
  have "quiet (port_announce_info_sm_current i (port_announce_info_sm_update i ?u))" if "wants_update i ?u"
  proof -
    have "transient (gport (port_announce_info_sm_update i ?u) i)" by (simp only: transient_def update_port(4)) simp
    moreover have "i < numberPorts (port_announce_info_sm_update i ?u)" using numberPorts_only [OF update_core(1)] u(2) by simp
    ultimately show ?thesis using quiet_current quiet_update [OF u that] by blast
  qed
  then show ?thesis using u(1) by (simp only: settle_def Let_def) simp
qed

lemma sent_earlier:
  assumes "sent_on k u t" "inst_rest u = inst_rest s" "prefix (outs s) (outs u)"
  shows "sent_on k s t"
proof -
  have "drop (length (outs u)) (outs t) = drop (length (outs u) - length (outs s)) (drop (length (outs s)) (outs t))"
    using assms(3) by (auto simp: prefix_def add.commute)
  then have "set (drop (length (outs u)) (outs t)) \<subseteq> set (drop (length (outs s)) (outs t))"
    by (simp only: set_drop_subset)
  then show ?thesis using assms(1) inst_restD(4,14) [OF assms(2)] by (auto simp: sent_on_def)
qed

lemma done_earlier:
  assumes "port_done u t k" "only_port i s u" "k \<noteq> i" shows "port_done s t k"
proof -
  note o = only_portD [OF assms(2)]
  have "due k u = due k s" "role_of u k = role_of s k"
    using flag_cong [OF o(1), of k] o(2) [OF assms(3)] by (simp_all add: due_def)
  then show ?thesis using assms(1) o(2) [OF assms(3)] sent_earlier [OF _ o(1,3)] by (auto simp: port_done_def)
qed

lemma run_ports_done:
  assumes "4 \<le> n"
  shows "quiet s \<Longrightarrow> \<forall>i\<in>set is. i < numberPorts s \<and> \<not> gm_id_static (gport s i) \<Longrightarrow> distinct is \<Longrightarrow>
    \<exists>t. run_ports (\<lambda>i. port_announce_info_sm n i INFO_EVENT_RUN) is s = Some t \<and> inst_rest t = inst_rest s \<and> prefix (outs s) (outs t) \<and>
      (\<forall>k\<in>set is. port_done s t k) \<and> (\<forall>k. k \<notin> set is \<longrightarrow> gport t k = gport s k)"
proof (induction "is" arbitrary: s)
  case (Cons i "is")
  have i: "i < numberPorts s" "\<not> gm_id_static (gport s i)" using Cons.prems by simp_all
  obtain m where "n = m + 4" using assms by (metis le_add_diff_inverse2)
  then have info: "port_announce_info_sm n i INFO_EVENT_RUN s = Some (settle i s)" using settle_info [OF Cons.prems(1) i] by simp
  define u where "u = port_announce_transmit_sm i TRANSMIT_EVENT_RUN (settle i s)"
  note b = body_done [OF Cons.prems(1) i, folded u_def]
  note o = only_portD [OF b(1)]
  have "quiet u" unfolding u_def
    using settle_quiet [OF Cons.prems(1) i(1)] numberPorts_only [OF settle_only, of i s] i(1) by (intro quiet_transmit) simp_all
  have r: "\<forall>k\<in>set is. k < numberPorts u \<and> \<not> gm_id_static (gport u k)"
  proof
    fix k assume k: "k \<in> set is"
    then have "k \<noteq> i" using Cons.prems(3) by auto
    then show "k < numberPorts u \<and> \<not> gm_id_static (gport u k)"
      using k Cons.prems(2) o(2) numberPorts_only [OF b(1)] by simp
  qed
  obtain t where t: "run_ports (\<lambda>i. port_announce_info_sm n i INFO_EVENT_RUN) is u = Some t" "inst_rest t = inst_rest u" "prefix (outs u) (outs t)"
      "\<forall>k\<in>set is. port_done u t k" "\<forall>k. k \<notin> set is \<longrightarrow> gport t k = gport u k"
    using Cons.IH [OF \<open>quiet u\<close> r] Cons.prems(3) by auto
  have "port_done s t i"
    using b(2) t(5) sent_later [OF _ t(3) o(3)] Cons.prems(3) by (auto simp: port_done_def)
  moreover have "port_done s t k" if "k \<in> set is" for k
    using done_earlier [OF _ b(1)] t(4) that Cons.prems(3) by auto
  ultimately show ?case
    using info t o u_def by (auto intro: prefix_order.trans)
qed simp


subsection \<open>The selection machine with nothing pending\<close>

definition selected_state :: "gptp_instance \<Rightarrow> gptp_instance" where
  "selected_state s = (updt_roles_tree (clear_reselect_tree s))\<lparr>selected := 0xffff\<rparr>"

lemma clear_reselect_fields [simp]:
  "numberPorts (clear_reselect_tree s) = numberPorts s" "gport (clear_reselect_tree s) = gport s"
  "this_clock (clear_reselect_tree s) = this_clock s" "system_priority (clear_reselect_tree s) = system_priority s"
  by (simp_all add: clear_reselect_tree_def)

lemma ok_clear: "instance_ok s \<Longrightarrow> instance_ok (clear_reselect_tree s)"
  by (simp add: instance_ok_def) (simp add: clear_reselect_tree_def)

lemma roles_flags:
  assumes "instance_ok s"
  shows "begin_flag (updt_roles_tree s) = begin_flag s" "instance_enable (updt_roles_tree s) = instance_enable s"
    "port_state_sm_state (updt_roles_tree s) = port_state_sm_state s" "numberPorts (updt_roles_tree s) = numberPorts s"
    "gmChangeCount (updt_roles_tree s) = gmChangeCount s" "prefix (outs s) (outs (updt_roles_tree s))"
proof -
  have sys: "gmChangeCount (updt_system v r) = gmChangeCount r" "prefix (outs r) (outs (updt_system v r))" for v r
    by (simp_all add: updt_system_def gptp_gm_indication_def gptp_ipc_gm_status_def emit_def own_path_def Let_def)
  have gm: "gmChangeCount (updt_gm b s) = gmChangeCount s" "outs (updt_gm b s) = outs s" for b
    by (simp_all add: updt_gm_def Let_def split: option.split)
  show "gmChangeCount (updt_roles_tree s) = gmChangeCount s"
    by (simp add: roles_tree_eq [OF assms] sys(1)) (simp add: roles_state_def updt_master_eq gm)
  show "prefix (outs s) (outs (updt_roles_tree s))"
    unfolding roles_tree_eq [OF assms] by (rule prefix_order.trans [OF _ sys(2)]) (simp add: roles_state_def updt_master_eq gm)
qed (simp_all add: roles_tree_eq [OF assms], simp_all add: roles_state_def updt_master_eq)

lemma quiet_selected:
  assumes "quiet s" shows "quiet (selected_state s)"
proof -
  have "ok_conf (inst_conf s) (selected_state s)"
    unfolding selected_state_def using assms by (intro ok.select_all ok.roles ok_conf_self) (simp add: quiet_def)
  then have "instance_ok (selected_state s)" by (rule ok_confD)
  moreover have "weight (clear_reselect_tree s) = weight s" by (simp add: weight_def)
  ultimately show ?thesis
    using assms ok_clear [of s] by (simp add: quiet_def selected_state_def weight_roles roles_flags) (simp add: clear_reselect_tree_def)
qed

lemma select_quiet:
  assumes "quiet s" "\<not> automotive s" "port_state_sm_state s = STATE_SELECTION" "any_reselect s" "\<forall>k<numberPorts s. \<not> gm_id_static (gport s k)" "5 \<le> n"
  shows "\<exists>t. port_state_selection_sm n s = Some t \<and> inst_rest t = inst_rest (selected_state s) \<and>
    prefix (outs (selected_state s)) (outs t) \<and> (\<forall>k<numberPorts s. port_done (selected_state s) t k)"
proof -
  let ?u = "selected_state s"
  have ok: "instance_ok s" "instance_ok (clear_reselect_tree s)" using assms(1) ok_clear by (auto simp: quiet_def)
  have n: "numberPorts ?u = numberPorts s" by (simp add: selected_state_def roles_flags [OF ok(2)])
  have st: "\<not> gm_id_static (gport ?u k)" if "k < numberPorts s" for k
    using that assms(5) by (simp add: selected_state_def gport_tree [OF ok(2)])
  obtain m where m: "n = Suc m" "4 \<le> m" using assms(6) by (cases n) auto
  obtain t where t: "run_ports (\<lambda>i. port_announce_info_sm m i INFO_EVENT_RUN) [0..<numberPorts s] ?u = Some t" "inst_rest t = inst_rest ?u"
      "prefix (outs ?u) (outs t)" "\<forall>k<numberPorts s. port_done ?u t k"
    using run_ports_done [OF m(2) quiet_selected [OF assms(1)], of "[0..<numberPorts s]"] st n by auto
  have "port_state_sm_state t = STATE_SELECTION"
    using inst_restD(11) [OF t(2)] assms(3) by (simp add: selected_state_def roles_flags [OF ok(2)]) (simp add: clear_reselect_tree_def)
  then have "t\<lparr>port_state_sm_state := STATE_SELECTION\<rparr> = t" by simp
  then have "port_state_selection_sm n s = Some t"
    using assms(1-4) t(1) n
    by (simp add: m(1) port_state_selection_sm.simps(2) select_body_def quiet_def port_state_selection_sm_selection_def set_selected_tree_def selected_state_def)
  then show ?thesis using t by blast
qed

lemma selected_flag:
  assumes "instance_ok s" "i < numberPorts s"
  shows "port_flag (selected (selected_state s)) i (selected_state s)"
proof -
  have ok: "instance_ok (clear_reselect_tree s)" using assms(1) by (rule ok_clear)
  have "identity_number (gport (selected_state s) i) = identity_number (gport s i)"
    using assms(2) by (simp add: selected_state_def gport_tree [OF ok])
  then have "port_flag (selected (selected_state s)) i (selected_state s) = bit_test (0xffff :: u16) (i + 1)"
    using port_no(2) [OF assms] by (simp add: port_flag_def) (simp add: selected_state_def)
  moreover have "i + 1 < 16" using assms by (simp add: instance_ok_def)
  moreover have "(0xffff :: u16) = mask 16" by (simp add: mask_eq_exp_minus_1)
  ultimately show ?thesis by (simp add: bit_test_iff bit_mask_iff)
qed


lemma gm_root_cong:
  assumes "gport t = gport s" "numberPorts t = numberPorts s" "this_clock t = this_clock s" "system_priority t = system_priority s"
  shows "gm_root t = gm_root s"
proof -
  have g: "gm_path_priority t = gm_path_priority s" by (simp add: fun_eq_iff gm_path_priority_def assms(1))
  have v: "vector_of t = vector_of s" by (intro ext) (simp only: vector_of_def assms(4) g)
  have "better_port t = better_port s" by (intro ext) (simp only: better_port_def assms(1,3) g v)
  then show ?thesis using v by (simp add: gm_root_def best_vector_port_def assms(2))
qed

text \<open>What the selection machine leaves, for an instance with nothing pending.\<close>

lemma selection_result:
  assumes "quiet s" "\<not> automotive s" "port_state_sm_state s = STATE_SELECTION" "any_reselect s" "\<forall>k<numberPorts s. \<not> gm_id_static (gport s k)" "5 \<le> n"
  obtains t where "port_state_selection_sm n s = Some t" "root_system_identity (gm_priority t) = gm_root s"
    "gm_present t = (priority_1 (gm_root s) < 255)" "is_grandmaster t = (clock_identity (gm_root s) = this_clock s \<and> priority_1 (gm_root s) < 255)"
    "\<forall>k<numberPorts s. role_of t k = role_for (gm_root s) (gport s k)" "gmChangeCount t = gmChangeCount s"
    "numberPorts t = numberPorts s" "this_clock t = this_clock s"
    "\<forall>k<numberPorts s. port_done (selected_state s) t k" "prefix (outs s) (outs (selected_state s))"
proof -
  let ?u = "selected_state s" and ?c = "clear_reselect_tree s"
  obtain t where t: "port_state_selection_sm n s = Some t" "inst_rest t = inst_rest ?u" "\<forall>k<numberPorts s. port_done ?u t k"
    using select_quiet [OF assms] by auto
  have ok: "instance_ok s" "instance_ok ?c" using assms(1) ok_clear by (auto simp: quiet_def)
  have g: "gm_root ?c = gm_root s" by (rule gm_root_cong) simp_all
  have l: "length (clock_identity (gm_root s)) = length (this_clock s)"
    using gm_root_ok [OF ok(1)] ok(1) by (simp add: system_ok_def instance_ok_def)
  have gm: "gm_present (updt_roles_tree ?c) = (priority_1 (gm_root s) < 255)"
    "is_grandmaster (updt_roles_tree ?c) = (clock_identity (gm_root s) = this_clock s \<and> priority_1 (gm_root s) < 255)"
    "this_clock (updt_roles_tree ?c) = this_clock s"
    unfolding roles_tree_eq [OF ok(2)] by (simp_all add: updt_system_gm memcmp_eq_0 [OF l] g)
  show ?thesis
  proof (rule that [OF t(1)])
    show "root_system_identity (gm_priority t) = gm_root s"
      using inst_restD(4) [OF t(2)] gm_root_tree [OF ok(2)] g by (simp add: selected_state_def)
    show "gm_present t = (priority_1 (gm_root s) < 255)"
      "is_grandmaster t = (clock_identity (gm_root s) = this_clock s \<and> priority_1 (gm_root s) < 255)" "this_clock t = this_clock s"
      using inst_restD(5,6,15) [OF t(2)] gm by (simp_all add: selected_state_def)
    show "\<forall>k<numberPorts s. role_of t k = role_for (gm_root s) (gport s k)"
    proof (intro allI impI)
      fix k assume that: "k < numberPorts s"
      have "role_of t k = role_of (updt_roles_tree ?c) k"
        using inst_restD(1) [OF t(2)] t(3) that by (simp add: role_of_def port_done_def) (simp add: selected_state_def)
      then show "role_of t k = role_for (gm_root s) (gport s k)" using role_of_tree [OF ok(2), of k] that g by simp
    qed
    show "gmChangeCount t = gmChangeCount s" "numberPorts t = numberPorts s"
      using inst_restD(7,8) [OF t(2)] roles_flags [OF ok(2)] by (simp_all add: selected_state_def) (simp add: clear_reselect_tree_def)
    show "\<forall>k<numberPorts s. port_done ?u t k" by (rule t(3))
    show "prefix (outs s) (outs ?u)"
      using roles_flags(6) [OF ok(2)] by (simp add: selected_state_def clear_reselect_tree_def)
  qed
qed


subsection \<open>The master falls silent\<close>

lemma any_reselect_request:
  assumes "instance_ok s" "i < numberPorts s" "reselect t = bit_set x (i + 1)" "numberPorts t = numberPorts s"
  shows "any_reselect t"
proof -
  have "i + 1 < 16" using assms(1,2) by (simp add: instance_ok_def)
  then have "bit_test (reselect t) (i + 1)" unfolding assms(3) by (simp add: bit_test_iff bit_set_iff)
  moreover have "i + 1 \<in> set [1..<numberPorts t + 1]" unfolding set_upt using assms(2,4) by simp
  ultimately show ?thesis unfolding any_reselect_def list_ex_iff by (rule bexI)
qed

definition follows_master :: "nat \<Rightarrow> gptp_instance \<Rightarrow> bool" where
  "follows_master i s \<longleftrightarrow> i < numberPorts s \<and> port_usable (gport s i) \<and> info_sm_state (gport s i) = INFO_CURRENT \<and>
     \<not> updt_info (gport s i) \<and> info_is (gport s i) = SPANNING_TREE_RECEIVED"

definition at_rest :: "gptp_instance \<Rightarrow> bool" where
  "at_rest s \<longleftrightarrow> quiet s \<and> \<not> automotive s \<and> port_state_sm_state s = STATE_SELECTION \<and> (\<forall>k<numberPorts s. \<not> gm_id_static (gport s k))"

lemma info_aged_fields:
  "numberPorts (info_aged_state i s) = numberPorts s" "port_state_sm_state (info_aged_state i s) = port_state_sm_state s"
  "automotive (info_aged_state i s) = automotive s" "begin_flag (info_aged_state i s) = begin_flag s"
  "instance_enable (info_aged_state i s) = instance_enable s" "this_clock (info_aged_state i s) = this_clock s"
  "system_priority (info_aged_state i s) = system_priority s" "outs (info_aged_state i s) = outs s"
  "gport (info_aged_state i s) k = (if k = i then (gport s i)\<lparr>info_is := SPANNING_TREE_AGED, info_sm_state := INFO_AGED\<rparr> else gport s k)"
  by (simp_all add: info_aged_state_def request_reselect_def upd_gport_def Let_def)

lemma aged_quiet:
  assumes "at_rest s" "follows_master i s"
  shows "quiet (info_aged_state i s)" "any_reselect (info_aged_state i s)"
proof -
  have i: "i < numberPorts s" "port_usable (gport s i)" "info_sm_state (gport s i) = INFO_CURRENT" using assms(2) by (simp_all add: follows_master_def)
  have s: "instance_ok s" "\<not> gm_id_static (gport s i)" "weight s = 0" using assms(1) i(1) by (auto simp: at_rest_def quiet_def)
  have "instance_ok (info_aged_state i s)" using ok.aged [OF ok_conf_self [OF s(1)], of i] i(1) by (simp add: fst_conf ok_conf_def)
  then show "quiet (info_aged_state i s)"
    using weight_aged [OF i(1) s(2) i(2)] s(3) assms(1) by (simp add: quiet_def at_rest_def info_aged_fields)
  have "unat (identity_number ((gport s i)\<lparr>info_is := SPANNING_TREE_AGED, info_sm_state := INFO_AGED\<rparr>)) = i + 1"
    using port_no(2) [OF s(1) i(1)] by simp
  then show "any_reselect (info_aged_state i s)"
    by (intro any_reselect_request [OF s(1) i(1), of _ "reselect s"])
      (simp_all add: info_aged_fields, simp add: info_aged_state_def request_reselect_def Let_def upd_gport_def)
qed

lemma timeout_selects:
  assumes "at_rest s" "follows_master i s"
  shows "port_announce_info_switch sel i INFO_EVENT_ANNOUNCE_TIMEOUT s = sel (info_aged_state i s)"
proof -
  have "\<not> rcvd_msg (gport s i)"
    using quiet_port(1) [of s i] assms by (simp add: at_rest_def follows_master_def)
  then show ?thesis using assms(2)
    by (simp add: port_announce_info_switch_def port_announce_info_sm_aged_def follows_master_def info_timeout_def Let_def)
qed

lemma aged_takeover:
  assumes s: "at_rest s" "follows_master i s" and n: "6 \<le> n"
  defines "u \<equiv> info_aged_state i s"
  obtains t where "port_announce_info_sm n i INFO_EVENT_ANNOUNCE_TIMEOUT s = Some t" "root_system_identity (gm_priority t) = gm_root u"
    "is_grandmaster t = (clock_identity (gm_root u) = this_clock s \<and> priority_1 (gm_root u) < 255)"
    "role_of t i = MASTER_PORT" "info_is (gport t i) = SPANNING_TREE_MINE" "asymmetry (gport s i) \<or>
      (\<exists>m len. AnnounceTx i m len \<in> set (drop (length (outs s)) (outs t)) \<and> an_grandmaster m = gm_root u)"
proof -
  note q = aged_quiet [OF s, folded u_def]
  have i: "i < numberPorts s" and st: "\<forall>k<numberPorts u. \<not> gm_id_static (gport u k)" and a: "\<not> automotive u" "port_state_sm_state u = STATE_SELECTION"
    using s by (auto simp: follows_master_def at_rest_def u_def info_aged_fields)
  have ok: "instance_ok u" "instance_ok (clear_reselect_tree u)" using q(1) ok_clear by (auto simp: quiet_def)
  obtain m where m: "n = Suc m" "5 \<le> m" using n by (cases n) auto
  obtain t where t: "port_state_selection_sm m u = Some t" "root_system_identity (gm_priority t) = gm_root u"
      "is_grandmaster t = (clock_identity (gm_root u) = this_clock u \<and> priority_1 (gm_root u) < 255)"
      "\<And>k. k < numberPorts u \<Longrightarrow> role_of t k = role_for (gm_root u) (gport u k)"
      "\<And>k. k < numberPorts u \<Longrightarrow> port_done (selected_state u) t k" "prefix (outs u) (outs (selected_state u))"
    using selection_result [OF q(1) a q(2) st m(2)] by metis
  have iu: "i < numberPorts u" using i by (simp add: u_def info_aged_fields)
  have p: "info_is (gport u i) = SPANNING_TREE_AGED" "info_sm_state (gport u i) = INFO_AGED" "asymmetry (gport u i) = asymmetry (gport s i)"
    by (simp_all add: u_def info_aged_fields)
  then have role: "role_of t i = MASTER_PORT" using t(4) [OF iu] by (simp add: role_for_def)
  have "updt_info (gport (selected_state u) i)" "info_sm_state (gport (selected_state u) i) = INFO_AGED"
    and as: "asymmetry (gport (selected_state u) i) = asymmetry (gport s i)"
    and id: "identity_number (gport (selected_state u) i) = identity_number (gport u i)"
    using iu p by (simp_all add: selected_state_def gport_tree [OF ok(2)] port_role_def)
  then have due: "due i (selected_state u)" using selected_flag [OF ok(1) iu] by (simp add: due_def)
  have gr: "role_of (selected_state u) i = MASTER_PORT" "root_system_identity (gm_priority (selected_state u)) = gm_root u"
    using role_of_tree [OF ok(2), of i] iu p(1) gm_root_tree [OF ok(2)] gm_root_cong [of "clear_reselect_tree u" u]
    by (simp_all add: selected_state_def role_of_def role_for_def)
  note d = t(5) [OF iu, unfolded port_done_def, simplified due if_True]
  have "\<exists>m len. AnnounceTx i m len \<in> set (drop (length (outs s)) (outs t)) \<and> an_grandmaster m = gm_root u" if "\<not> asymmetry (gport s i)"
  proof -
    have "sent_on i (selected_state u) t" using d gr(1) as that by simp
    then obtain m len where m: "AnnounceTx i m len \<in> set (drop (length (outs (selected_state u))) (outs t))" "an_grandmaster m = gm_root u"
      using gr(2) by (auto simp: sent_on_def)
    have "outs u = outs s" by (simp add: u_def info_aged_fields)
    then have "length (outs s) \<le> length (outs (selected_state u))" using prefix_length_le [OF t(6)] by simp
    from set_drop_subset_set_drop [OF this, of "outs t"] m show ?thesis by (intro exI conjI) (rule subsetD)
  qed
  moreover have "port_announce_info_sm n i INFO_EVENT_ANNOUNCE_TIMEOUT s = Some t"
  proof -
    have "\<not> gm_id_static (gport s i)" "\<not> begin_flag s" "instance_enable s" "port_usable (gport s i)" "info_sm_state (gport s i) = INFO_CURRENT"
      using s i by (auto simp: at_rest_def quiet_def follows_master_def)
    then show ?thesis
      using d t(1) by (simp add: m(1) port_announce_info_sm.simps(2) info_body_def timeout_selects [OF s] u_def Let_def)
  qed
  ultimately show ?thesis
    using that [of t] t(2,3) role d by (auto simp: u_def info_aged_fields)
qed


text \<open>Updates of a port that the machines do not look at.\<close>

lemma at_rest_upd:
  assumes "at_rest s" "\<And>p. gport_ok (this_clock s) i p \<Longrightarrow> gport_ok (this_clock s) i (f p)" "\<And>p. info_view (f p) = info_view p"
  shows "at_rest (upd_gport i f s)"
proof -
  have w: "port_weight (f p) = port_weight p" "gm_id_static (f p) = gm_id_static p" for p
    using weight_view(1) [OF assms(3) [of p]] assms(3) [of p] by (simp_all add: info_view_def)
  have "weight (upd_gport i f s) = weight s" by (rule weight_cong) (simp_all add: w(1))
  moreover have "instance_ok (upd_gport i f s)" using assms(1,2) by (intro instance_ok_upd) (simp_all add: at_rest_def quiet_def)
  ultimately show ?thesis using assms(1) w(2) by (auto simp: at_rest_def quiet_def) (simp add: upd_gport_def)
qed

lemma aged_candidates:
  assumes "k < numberPorts s"
  shows "candidate (info_aged_state i s) k \<longleftrightarrow> k \<noteq> i \<and> candidate s k"
    "received_key (info_aged_state i s) k = received_key s k"
  by (simp_all add: candidate_def received_key_def info_aged_fields)

lemma aged_gm_root:
  assumes "instance_ok (info_aged_state i s)"
  defines "g \<equiv> gm_root (info_aged_state i s)"
  shows "system_key g \<le> own_key s \<and> (\<forall>k<numberPorts s. k \<noteq> i \<and> candidate s k \<longrightarrow> system_key g \<le> received_key s k) \<and>
    (g = root_system_identity (system_priority s) \<or>
     (\<exists>k<numberPorts s. k \<noteq> i \<and> candidate s k \<and> g = root_system_identity (port_priority (gport s k))))"
proof -
  have "own_key (info_aged_state i s) = own_key s" by (simp add: own_key_def info_aged_fields)
  then show ?thesis
    using gm_root_best [OF assms(1)] unfolding g_def by (auto simp: info_aged_fields(1,6,7,9) aged_candidates)
qed

text \<open>
  C16: When the Announce messages of the master stop, the port takes over. Let port \<open>i\<close> hold received
  information in an instance at rest (nothing pending, no static configuration). Its announce receipt
  timeout makes it a master port with information of its own, and an Announce goes out on it at once. The
  grandmaster announced is the best of the instance's own system and those still received on the other
  ports, and the instance acts as grandmaster exactly when that is its own clock with a priority1 below
  255.
\<close>

theorem bmca_takeover_on_timeout:
  assumes "at_rest s" "follows_master i s" "\<not> asymmetry (gport s i)"
  shows "\<exists>t m len. gptp_announce_receive_timeout_timer_handler (bmca_fuel s) i s = Some t \<and>
    role_of t i = MASTER_PORT \<and> info_is (gport t i) = SPANNING_TREE_MINE \<and>
    AnnounceTx i m len \<in> set (drop (length (outs s)) (outs t)) \<and> an_grandmaster m = root_system_identity (gm_priority t) \<and>
    system_key (an_grandmaster m) \<le> own_key s \<and>
    (\<forall>k<numberPorts s. k \<noteq> i \<and> candidate s k \<longrightarrow> system_key (an_grandmaster m) \<le> received_key s k) \<and>
    (an_grandmaster m = root_system_identity (system_priority s) \<or>
     (\<exists>k<numberPorts s. k \<noteq> i \<and> candidate s k \<and> an_grandmaster m = root_system_identity (port_priority (gport s k)))) \<and>
    is_grandmaster t = (clock_identity (an_grandmaster m) = this_clock s \<and> priority_1 (an_grandmaster m) < 255)"
proof -
  let ?f = "\<lambda>p. p\<lparr>timeout_timer := None, num_rx_announce_timeout := num_rx_announce_timeout p + 1\<rparr>"
  let ?s = "upd_gport i ?f s"
  have r: "at_rest ?s" by (rule at_rest_upd [OF assms(1)]) (simp_all add: gport_ok_def info_view_def port_usable_def)
  have f: "follows_master i ?s" using assms(2) by (simp add: follows_master_def port_usable_def)
  have n: "6 \<le> bmca_fuel s" by (simp add: bmca_fuel_def)
  obtain t where t: "port_announce_info_sm (bmca_fuel s) i INFO_EVENT_ANNOUNCE_TIMEOUT ?s = Some t"
      "root_system_identity (gm_priority t) = gm_root (info_aged_state i ?s)"
      "is_grandmaster t = (clock_identity (gm_root (info_aged_state i ?s)) = this_clock ?s \<and> priority_1 (gm_root (info_aged_state i ?s)) < 255)"
      "role_of t i = MASTER_PORT" "info_is (gport t i) = SPANNING_TREE_MINE" "asymmetry (gport ?s i) \<or>
      (\<exists>m len. AnnounceTx i m len \<in> set (drop (length (outs ?s)) (outs t)) \<and> an_grandmaster m = gm_root (info_aged_state i ?s))"
    by (rule aged_takeover [OF r f n])
  have o: "outs ?s = outs s" "this_clock ?s = this_clock s" "system_priority ?s = system_priority s" by (simp_all add: upd_gport_def)
  obtain m len where m: "AnnounceTx i m len \<in> set (drop (length (outs s)) (outs t))" "an_grandmaster m = gm_root (info_aged_state i ?s)"
    using t(6) assms(3) o(1) by auto
  have c: "candidate ?s k = candidate s k" "received_key ?s k = received_key s k" "own_key ?s = own_key s"
    "port_priority (gport ?s k) = port_priority (gport s k)" for k
    by (simp_all add: candidate_def received_key_def own_key_def o)
  have "instance_ok (info_aged_state i ?s)" using aged_quiet(1) [OF r f] by (simp add: quiet_def)
  note g = aged_gm_root [OF this, unfolded c o upd_gport_fields(1), folded m(2)]
  have "gptp_announce_receive_timeout_timer_handler (bmca_fuel s) i s = Some t"
    using t(1) by (simp add: gptp_announce_receive_timeout_timer_handler_def)
  then show ?thesis using t(2-5) m g unfolding o(2) by (intro exI [of _ t] exI [of _ m] exI [of _ len]) simp
qed


subsection \<open>A better master is announced\<close>

lemma slave_no_update: "fst (port_role s p) = SLAVE_PORT \<Longrightarrow> \<not> snd (port_role s p)"
  by (auto simp: port_role_def split: ptp_spanning_tree_info.splits if_splits)

text \<open>Port \<open>i\<close> has a qualified message that supersedes its information.\<close>

definition superior_pending :: "nat \<Rightarrow> ptp_announce_pdu \<Rightarrow> gptp_instance \<Rightarrow> bool" where
  "superior_pending i m s \<longleftrightarrow> instance_ok s \<and> \<not> begin_flag s \<and> instance_enable s \<and> \<not> automotive s \<and>
     port_state_sm_state s = STATE_SELECTION \<and> (\<forall>k<numberPorts s. \<not> gm_id_static (gport s k)) \<and> weight s \<le> 1 \<and>
     i < numberPorts s \<and> port_usable (gport s i) \<and> info_sm_state (gport s i) = INFO_CURRENT \<and> \<not> updt_info (gport s i) \<and>
     rcvd_msg (gport s i) \<and> m = announce_of (gport s i) \<and>
     compare_msg_priority_vector (copy_priority_vector_from_message (gport s i) m) (port_priority (gport s i)) = BMCA_VECTOR_A_BETTER"

definition best_of_all :: "nat \<Rightarrow> ptp_system_identity \<Rightarrow> gptp_instance \<Rightarrow> bool" where
  "best_of_all i g s \<longleftrightarrow> clock_identity g \<noteq> this_clock s \<and> system_key g \<le> own_key s \<and>
     (\<forall>k<numberPorts s. k \<noteq> i \<and> candidate s k \<longrightarrow> system_key g \<le> received_key s k)"

abbreviation superior_state :: "nat \<Rightarrow> gptp_instance \<Rightarrow> gptp_instance" where
  "superior_state i s \<equiv> info_superior_state i (upd_gport i rcv_info s)"

lemma superior_fields:
  "numberPorts (superior_state i s) = numberPorts s" "port_state_sm_state (superior_state i s) = port_state_sm_state s"
  "automotive (superior_state i s) = automotive s" "begin_flag (superior_state i s) = begin_flag s"
  "instance_enable (superior_state i s) = instance_enable s" "this_clock (superior_state i s) = this_clock s"
  "system_priority (superior_state i s) = system_priority s" "gmChangeCount (superior_state i s) = gmChangeCount s + 1"
  "gport (superior_state i s) k = (if k = i then superior_port (rcv_info (gport s i)) else gport s k)"
  by (simp_all add: info_superior_state_def request_reselect_def gm_change_def upd_gport_def Let_def)

lemma superior_port_fields:
  "info_is (superior_port p) = SPANNING_TREE_RECEIVED" "port_priority (superior_port p) = messagePriority p"
  "info_sm_state (superior_port p) = INFO_SUPERIOR_MASTER_PORT" "updt_info (superior_port p) = updt_info p"
  "gm_id_static (superior_port p) = gm_id_static p" "rcvd_announce_par (superior_port p) = rcvd_announce_par p"
  "identity_number (superior_port p) = identity_number p"
  "timeout_timer (superior_port p) = Some (ucast (ucast (announce_receipt_timeout p) * log_to_ns (an_log_msg_interval (announce_of p)) div 1000000))"
  by (simp_all add: superior_port_def record_other_announce_info_def Let_def)

lemma rcv_info_more [simp]:
  "messagePriority (rcv_info p) = copy_priority_vector_from_message p (announce_of p)" "announce_of (rcv_info p) = announce_of p"
  "announce_receipt_timeout (rcv_info p) = announce_receipt_timeout p" "rcvd_announce_par (rcv_info p) = rcvd_announce_par p"
  "identity_number (rcv_info p) = identity_number p"
  by (simp_all add: rcv_info_def announce_of_def Let_def)

lemma superior_quiet:
  assumes "superior_pending i m s"
  shows "quiet (superior_state i s)" "any_reselect (superior_state i s)"
proof -
  have s: "instance_ok s" "i < numberPorts s" "\<not> gm_id_static (gport s i)" "rcvd_msg (gport s i)" "info_sm_state (gport s i) = INFO_CURRENT"
    "weight s \<le> 1" using assms by (auto simp: superior_pending_def)
  have "ok_conf (inst_conf s) (superior_state i s)"
    using s(2) by (intro ok.superior ok.received ok_conf_self [OF s(1)]) (simp_all add: fst_conf)
  then have "instance_ok (superior_state i s)" by (rule ok_confD)
  moreover have "weight (superior_state i s) < weight s"
    using weight_superior [of i "upd_gport i rcv_info s"] s by simp
  ultimately show "quiet (superior_state i s)"
    using assms s(6) by (simp add: quiet_def superior_fields superior_pending_def)
  have "reselect (superior_state i s) = bit_set (reselect s) (i + 1)"
    using port_no(2) [OF s(1,2)]
    by (simp add: info_superior_state_def gm_change_def request_reselect_def Let_def superior_port_fields) (simp add: upd_gport_def)
  then show "any_reselect (superior_state i s)" by (rule any_reselect_request [OF s(1,2)]) (simp add: superior_fields)
qed

lemma superior_gm_root:
  assumes "superior_pending i m s" "best_of_all i (an_grandmaster m) s"
  shows "gm_root (superior_state i s) = an_grandmaster m"
proof -
  let ?u = "superior_state i s" and ?g = "an_grandmaster m"
  have ok: "instance_ok ?u" using superior_quiet(1) [OF assms(1)] by (simp add: quiet_def)
  have i: "i < numberPorts ?u" and m: "m = announce_of (gport s i)" using assms(1) by (simp_all add: superior_pending_def superior_fields)
  have p: "root_system_identity (port_priority (gport ?u i)) = ?g"
    by (simp add: superior_fields superior_port_fields copy_priority_vector_from_message_def m)
  have c: "candidate ?u i" "received_key ?u i = system_key ?g"
    using p assms(2) by (simp_all add: candidate_def received_key_def superior_fields(6) best_of_all_def) (simp add: superior_fields superior_port_fields)
  have g_ok: "system_ok ?g" using ok i p by (auto simp: instance_ok_def gport_ok_def vector_ok_def)
  have le: "system_key (gm_root ?u) \<le> system_key ?g" using gm_root_best(3) [OF ok i c(1)] c(2) by simp
  have "system_key ?g \<le> system_key (gm_root ?u)"
    using gm_root_best(1) [OF ok]
  proof (elim disjE exE conjE)
    assume "gm_root ?u = root_system_identity (system_priority ?u)"
    then show ?thesis using assms(2) by (simp add: best_of_all_def own_key_def superior_fields)
  next
    fix k assume k: "k < numberPorts ?u" "candidate ?u k" "gm_root ?u = root_system_identity (port_priority (gport ?u k))"
    show ?thesis
    proof (cases "k = i")
      case True
      then show ?thesis using k(3) p by simp
    next
      case False
      then have "candidate s k" "gm_root ?u = root_system_identity (port_priority (gport s k))"
        using k(2,3) by (simp_all add: candidate_def superior_fields)
      then show ?thesis using assms(2) k(1) False by (simp add: best_of_all_def received_key_def superior_fields)
    qed
  qed
  then show ?thesis using le system_key_inj [OF gm_root_ok [OF ok] g_ok] by simp
qed


lemma superior_switch:
  assumes "superior_pending i m s"
  shows "port_announce_info_switch sel i INFO_EVENT_RUN s = sel (superior_state i s)"
proof -
  have "compare_msg_priority_vector (copy_priority_vector_from_message (gport s i) (announce_of (gport s i))) (port_priority (gport s i)) =
      BMCA_VECTOR_A_BETTER"
    using assms by (auto simp: superior_pending_def)
  then have "rcvdInfo (rcv_info (gport s i)) = SUPERIOR_MASTER_INFO" by (simp add: rcv_info_def Let_def)
  then show ?thesis using assms
    by (simp add: port_announce_info_switch_def port_announce_info_sm_receive_def port_announce_info_sm_superior_def info_timeout_def
        superior_pending_def Let_def)
qed

definition adopted :: "nat \<Rightarrow> ptp_announce_pdu \<Rightarrow> gptp_instance \<Rightarrow> gptp_instance \<Rightarrow> bool" where
  "adopted i m s t \<longleftrightarrow> root_system_identity (gm_priority t) = an_grandmaster m \<and> \<not> is_grandmaster t \<and> role_of t i = SLAVE_PORT \<and>
     info_is (gport t i) = SPANNING_TREE_RECEIVED \<and>
     port_priority (gport t i) = copy_priority_vector_from_message (gport s i) m \<and>
     timeout_timer (gport t i) = Some (ucast (ucast (announce_receipt_timeout (gport s i)) * log_to_ns (an_log_msg_interval m) div 1000000)) \<and>
     gmChangeCount t = gmChangeCount s + 1"

lemma superior_adopted:
  assumes s: "superior_pending i m s" "best_of_all i (an_grandmaster m) s" and n: "6 \<le> n"
  obtains t where "port_announce_info_sm n i INFO_EVENT_RUN s = Some t" "adopted i m s t"
    "rcvd_announce_par (gport t i) = rcvd_announce_par (gport s i)"
proof -
  define u where "u = superior_state i s"
  note q = superior_quiet [OF s(1), folded u_def]
  note g = superior_gm_root [OF s, folded u_def]
  have i: "i < numberPorts u" and m: "m = announce_of (gport s i)" and st: "\<forall>k<numberPorts u. \<not> gm_id_static (gport u k)"
    and a: "\<not> automotive u" "port_state_sm_state u = STATE_SELECTION"
    using s(1) by (auto simp: superior_pending_def u_def superior_fields superior_port_fields)
  have ok: "instance_ok u" "instance_ok (clear_reselect_tree u)" using q(1) ok_clear by (auto simp: quiet_def)
  obtain k where k: "n = Suc k" "5 \<le> k" using n by (cases n) auto
  obtain t where t: "port_state_selection_sm k u = Some t" "root_system_identity (gm_priority t) = gm_root u"
      "gm_present t = (priority_1 (gm_root u) < 255)"
      "is_grandmaster t = (clock_identity (gm_root u) = this_clock u \<and> priority_1 (gm_root u) < 255)"
      "\<forall>k<numberPorts u. role_of t k = role_for (gm_root u) (gport u k)" "gmChangeCount t = gmChangeCount u"
      "numberPorts t = numberPorts u" "this_clock t = this_clock u"
      "\<forall>k<numberPorts u. port_done (selected_state u) t k" "prefix (outs u) (outs (selected_state u))"
    by (rule selection_result [OF q(1) a q(2) st k(2)])
  have p: "gport u i = superior_port (rcv_info (gport s i))" by (simp add: u_def superior_fields)
  have root: "root_system_identity (port_priority (gport u i)) = an_grandmaster m"
    by (simp add: p superior_port_fields copy_priority_vector_from_message_def m)
  have role: "role_of t i = SLAVE_PORT"
    using t(5) [rule_format, OF i] root g by (simp add: role_for_def) (simp add: p superior_port_fields)
  have "fst (port_role (roles_state (clear_reselect_tree u)) (gport (roles_state (clear_reselect_tree u)) i)) = SLAVE_PORT"
    using port_role_roles_state [OF ok(2), of i] t(5) [rule_format, OF i] role i gm_root_cong [of "clear_reselect_tree u" u] by simp
  from slave_no_update [OF this] have "\<not> updt_info (gport (selected_state u) i)"
    using i by (simp add: selected_state_def gport_tree [OF ok(2)])
  then have due: "\<not> due i (selected_state u)" by (simp add: due_def)
  have f: "info_is (gport (selected_state u) i) = info_is (gport u i)" "port_priority (gport (selected_state u) i) = port_priority (gport u i)"
    "timeout_timer (gport (selected_state u) i) = timeout_timer (gport u i)" "info_sm_state (gport (selected_state u) i) = info_sm_state (gport u i)"
    "rcvd_announce_par (gport (selected_state u) i) = rcvd_announce_par (gport u i)"
    using i by (simp_all add: selected_state_def gport_tree [OF ok(2)])
  note d = t(9) [rule_format, OF i, unfolded port_done_def f, simplified due if_False]
  have "info_sm_state (gport t i) = INFO_CURRENT"
    using d f(4) by (simp add: transient_def p superior_port_fields)
  moreover have "\<not> gm_id_static (gport s i)" "\<not> begin_flag s" "instance_enable s" "port_usable (gport s i)" "info_sm_state (gport s i) = INFO_CURRENT"
    using s(1) by (auto simp: superior_pending_def)
  ultimately have "port_announce_info_sm n i INFO_EVENT_RUN s = Some t"
    using t(1) by (simp add: k(1) port_announce_info_sm.simps(2) info_body_def superior_switch [OF s(1)] u_def Let_def)
  moreover have "adopted i m s t"
    using t(2,4,6) g role d s(2) by (simp add: adopted_def p superior_port_fields u_def superior_fields m best_of_all_def)
  moreover have "rcvd_announce_par (gport t i) = rcvd_announce_par (gport s i)"
    using d by (simp add: p superior_port_fields)
  ultimately show ?thesis by (rule that)
qed

text \<open>The state in which the information machine sees the message.\<close>

definition buffer_after :: "gptp_port \<Rightarrow> u8 list \<Rightarrow> u8 list" where
  "buffer_after p msg = msg @ drop (length msg) (announce_rx p)"

definition announce_stored :: "nat \<Rightarrow> u8 list \<Rightarrow> gptp_instance \<Rightarrow> gptp_instance" where
  "announce_stored i msg s =
     upd_gport i (\<lambda>p. p\<lparr>announce_rx := buffer_after p msg, rcvd_announce_ptr := True, rcvd_announce_par := True\<rparr>)
       (upd_gport i (\<lambda>p. p\<lparr>num_rx_announce := num_rx_announce p + 1\<rparr>) s)"

definition announce_accepted :: "nat \<Rightarrow> gptp_instance \<Rightarrow> gptp_instance" where
  "announce_accepted i s =
     upd_gport i (\<lambda>p. p\<lparr>rcvd_announce_par := False, rcvd_msg := True, rcv_sm_state := RCV_RECEIVE\<rparr>) (snd (qualify_announce i s))"

lemma qualify_rest:
  "gport (snd (qualify_announce i s)) = gport s" "numberPorts (snd (qualify_announce i s)) = numberPorts s"
  "begin_flag (snd (qualify_announce i s)) = begin_flag s" "instance_enable (snd (qualify_announce i s)) = instance_enable s"
  "automotive (snd (qualify_announce i s)) = automotive s" "port_state_sm_state (snd (qualify_announce i s)) = port_state_sm_state s"
  "this_clock (snd (qualify_announce i s)) = this_clock s" "system_priority (snd (qualify_announce i s)) = system_priority s"
  by (simp_all add: qualify_announce_def record_path_trace_def Let_def)

lemma qualify_count: "gmChangeCount (snd (qualify_announce i s)) = gmChangeCount s"
  by (simp add: qualify_announce_def record_path_trace_def gptp_ipc_gm_status_def emit_def Let_def)


definition pdu_after :: "nat \<Rightarrow> u8 list \<Rightarrow> gptp_instance \<Rightarrow> ptp_announce_pdu" where
  "pdu_after i msg s = announce_fields (buffer_after (gport s i) msg)"

definition receives_superior :: "nat \<Rightarrow> u8 list \<Rightarrow> gptp_instance \<Rightarrow> bool" where
  "receives_superior i msg s \<longleftrightarrow> i < numberPorts s \<and> port_usable (gport s i) \<and> info_sm_state (gport s i) = INFO_CURRENT \<and>
     \<not> updt_info (gport s i) \<and> length msg \<le> SIZEOF_ANNOUNCE_PDU \<and> announce_qualified (this_clock s) (pdu_after i msg s) \<and>
     compare_msg_priority_vector (copy_priority_vector_from_message (gport s i) (pdu_after i msg s)) (port_priority (gport s i)) = BMCA_VECTOR_A_BETTER"

lemma stored_port:
  "gport (announce_stored i msg s) k = (if k = i then (gport s i)\<lparr>num_rx_announce := num_rx_announce (gport s i) + 1,
     announce_rx := buffer_after (gport s i) msg, rcvd_announce_ptr := True, rcvd_announce_par := True\<rparr> else gport s k)"
  by (simp add: announce_stored_def buffer_after_def)

lemma stored_rest: "inst_rest (announce_stored i msg s) = inst_rest s"
  by (simp add: announce_stored_def)

lemma accepted_port:
  "gport (announce_accepted i s) k =
     (if k = i then (gport s i)\<lparr>rcvd_announce_par := False, rcvd_msg := True, rcv_sm_state := RCV_RECEIVE\<rparr> else gport s k)"
  by (simp add: announce_accepted_def qualify_rest)

lemma stored_at_rest:
  assumes "at_rest s" "length msg \<le> SIZEOF_ANNOUNCE_PDU"
  shows "at_rest (announce_stored i msg s)"
  unfolding announce_stored_def
  by (intro at_rest_upd assms(1)) (use assms(2) in \<open>simp_all add: gport_ok_def info_view_def port_usable_def buffer_after_def\<close>)

lemma accepted_inst:
  "numberPorts (announce_accepted i s) = numberPorts s" "begin_flag (announce_accepted i s) = begin_flag s"
  "instance_enable (announce_accepted i s) = instance_enable s" "automotive (announce_accepted i s) = automotive s"
  "port_state_sm_state (announce_accepted i s) = port_state_sm_state s" "this_clock (announce_accepted i s) = this_clock s"
  "system_priority (announce_accepted i s) = system_priority s" "gmChangeCount (announce_accepted i s) = gmChangeCount s"
  by (simp_all add: announce_accepted_def qualify_rest) (simp_all add: upd_gport_def qualify_rest qualify_count)

lemma accepted_weight:
  assumes "i < numberPorts s" shows "weight (announce_accepted i s) \<le> weight s + 1"
proof -
  let ?q = "snd (qualify_announce i s)" and ?f = "\<lambda>p. p\<lparr>rcvd_announce_par := False, rcvd_msg := True, rcv_sm_state := RCV_RECEIVE\<rparr>"
  have "port_weight (?f (gport ?q i)) \<le> port_weight (gport ?q i) + 1" by (simp add: port_weight_def port_usable_def)
  moreover have "weight ?q = weight s" by (rule weight_cong) (simp_all add: qualify_rest)
  moreover have "weight (announce_accepted i s) + port_weight (gport ?q i) = weight ?q + port_weight (?f (gport ?q i))"
    unfolding announce_accepted_def using assms by (intro weight_upd) (simp add: qualify_rest)
  ultimately show ?thesis by linarith
qed

lemma pending_after:
  assumes "at_rest s" "receives_superior i msg s"
  shows "superior_pending i (pdu_after i msg s) (announce_accepted i (announce_stored i msg s))"
proof -
  let ?s = "announce_stored i msg s"
  have r: "i < numberPorts s" "length msg \<le> SIZEOF_ANNOUNCE_PDU" "port_usable (gport s i)" "info_sm_state (gport s i) = INFO_CURRENT"
    "\<not> updt_info (gport s i)"
    "compare_msg_priority_vector (copy_priority_vector_from_message (gport s i) (pdu_after i msg s)) (port_priority (gport s i)) = BMCA_VECTOR_A_BETTER"
    using assms(2) by (simp_all add: receives_superior_def)
  have s: "at_rest ?s" using stored_at_rest [OF assms(1) r(2)] .
  note n = inst_restD(8) [OF stored_rest, of i msg s]
  have ok: "instance_ok ?s" "weight ?s = 0" using s by (simp_all add: at_rest_def quiet_def)
  have "ok_conf (inst_conf ?s) (announce_accepted i ?s)"
    unfolding announce_accepted_def using r(1) n by (intro ok.accepted ok.qualifies ok_conf_self [OF ok(1)]) (simp_all add: fst_conf)
  then have "instance_ok (announce_accepted i ?s)" by (rule ok_confD)
  moreover have "weight (announce_accepted i ?s) \<le> 1" using accepted_weight [of i ?s] r(1) n ok(2) by simp
  moreover have "\<forall>k<numberPorts s. \<not> gm_id_static (gport s k)" using assms(1) by (simp add: at_rest_def)
  ultimately show ?thesis
    using s r n unfolding superior_pending_def accepted_inst
    by (auto simp: at_rest_def quiet_def accepted_port stored_port port_usable_def announce_of_def pdu_after_def
        copy_priority_vector_from_message_def)
qed


lemma receive_reduces:
  assumes "announce_qualified (identity_clock_id (gport s i)) (announce_of (gport s i))"
  shows "port_announce_rcv_sm_receive n i s = port_announce_info_sm n i INFO_EVENT_RUN (announce_accepted i s)"
proof -
  have "fst (qualify_announce i s)" using assms by (simp add: qualify_announce_def Let_def)
  then show ?thesis by (simp add: port_announce_rcv_sm_receive_def announce_accepted_def split_beta)
qed

lemma rcv_sm_reduces:
  assumes "at_rest s" "i < numberPorts s" "port_usable (gport s i)" "rcvd_announce_par (gport s i)"
    and t: "port_announce_rcv_sm_receive n i s = Some t" "\<not> rcvd_announce_par (gport t i)"
  shows "port_announce_rcv_sm n i s = Some t"
proof -
  have "\<not> gm_id_static (gport s i)" "\<not> begin_flag s" "instance_enable s" using assms(1,2) by (auto simp: at_rest_def quiet_def)
  moreover have "\<not> rcvd_msg (gport s i)" using quiet_port(1) [of s i] assms(1,2) calculation(1) by (simp add: at_rest_def)
  moreover have "port_announce_rcv_switch n i t = Some t" using t(2) by (simp add: port_announce_rcv_switch_def)
  ultimately show ?thesis
    using assms(3-5) by (simp add: port_announce_rcv_sm_def port_announce_rcv_switch_def Let_def)
qed

text \<open>
  C21: A better master is adopted. On an instance at rest, let port \<open>i\<close> be usable and receive a qualified
  Announce whose vector supersedes the port's (it is better, or comes from the port's current master) and
  whose grandmaster is not this clock and is at least as good as the instance's own system and the systems
  received on the other ports. Then the handler returns with that system as grandmaster, port \<open>i\<close> is a slave
  port that holds the announced vector, the instance is not grandmaster, and the receipt timer is set to
  the announced interval times the timeout count. The count of grandmaster changes goes up by one even when
  the Announce repeats the one before.
\<close>

theorem bmca_adopts_better_master:
  assumes "at_rest s" "receives_superior i msg s" "best_of_all i (an_grandmaster (pdu_after i msg s)) s"
  shows "\<exists>t. gptp_handle_announce (bmca_fuel s) i msg s = Some t \<and> adopted i (pdu_after i msg s) s t"
proof -
  let ?m = "pdu_after i msg s" and ?b = "announce_stored i msg s"
  let ?a = "announce_accepted i ?b"
  have i: "i < numberPorts s" "port_usable (gport s i)" "length msg \<le> SIZEOF_ANNOUNCE_PDU" "announce_qualified (this_clock s) ?m"
    using assms(2) by (simp_all add: receives_superior_def)
  have st: "\<not> gm_id_static (gport s i)" "identity_clock_id (gport s i) = this_clock s"
    using assms(1) i(1) by (auto simp: at_rest_def quiet_def instance_ok_def gport_ok_def)
  have best: "best_of_all i (an_grandmaster ?m) ?a"
    using assms(3) inst_restD(8,15,16) [OF stored_rest, of i msg s]
    by (simp add: best_of_all_def accepted_inst own_key_def candidate_def received_key_def accepted_port stored_port)
  have n: "6 \<le> bmca_fuel s" by (simp add: bmca_fuel_def)
  obtain t where t: "port_announce_info_sm (bmca_fuel s) i INFO_EVENT_RUN ?a = Some t" "adopted i ?m ?a t"
      "rcvd_announce_par (gport t i) = rcvd_announce_par (gport ?a i)"
    by (rule superior_adopted [OF pending_after [OF assms(1,2)] best n])
  have "port_announce_rcv_sm_receive (bmca_fuel s) i ?b = Some t"
    using t(1) i(4) st(2) by (subst receive_reduces) (simp_all add: stored_port announce_of_def pdu_after_def)
  then have "port_announce_rcv_sm (bmca_fuel s) i ?b = Some t"
    using i inst_restD(8) [OF stored_rest, of i msg s] t(3)
    by (intro rcv_sm_reduces stored_at_rest [OF assms(1) i(3)]) (simp_all add: stored_port accepted_port port_usable_def)
  then have "gptp_handle_announce (bmca_fuel s) i msg s = Some t"
    using i(3) st(1) by (simp add: gptp_handle_announce_def announce_stored_def buffer_after_def Let_def)
  moreover have "adopted i ?m s t"
    using t(2) inst_restD(7) [OF stored_rest, of i msg s]
    by (simp add: adopted_def accepted_inst accepted_port stored_port copy_priority_vector_from_message_def)
  ultimately show ?thesis by blast
qed


subsection \<open>Defects\<close>

text \<open>
  C36: Every port that receives the selected grandmaster becomes a slave port, however far that
  grandmaster is through it: step (f) of \<open>updt_roles_tree\<close> compares clock identities only, where the
  standard asks whether the grandmaster's vector is derived from this port. In a ring, two ports are slaves
  at once instead of one slave and one passive port; and a port that hears this clock announced as
  grandmaster becomes a slave of a system that is grandmaster itself.
\<close>

theorem bmca_all_ports_to_grandmaster_are_slaves:
  assumes "instance_ok s" "i < numberPorts s" "info_is (gport s i) = SPANNING_TREE_RECEIVED"
    "clock_identity (root_system_identity (port_priority (gport s i))) =
     clock_identity (root_system_identity (gm_priority (updt_roles_tree s)))"
  shows "role_of (updt_roles_tree s) i = SLAVE_PORT \<and> selected_role (updt_roles_tree s) 0 = PASSIVE_PORT"
proof -
  have "role_of (updt_roles_tree s) i = SLAVE_PORT"
    using assms gm_root_tree [OF assms(1)] by (simp add: role_of_tree role_for_def)
  then show ?thesis using assms(2) port0_role [OF assms(1)] by auto
qed

text \<open>
  An Announce message that the stack itself sends cannot be received by it once the grandmaster is 14
  or more steps away. \<open>gptp_instance_net_rx\<close> passes the length of the frame, Ethernet header included, where
  \<open>gptp_handle_announce\<close> compares it with the size of the PDU, so that a PDU with 15 or 16 path trace entries
  (188 and 196 bytes) is dropped although the buffer would hold it: nothing but two counters changes.
\<close>

theorem bmca_long_announce_dropped:
  assumes "out_ok (AnnounceTx k m len)" "14 \<le> unat (an_steps_removed m)"
    "2 * SIZEOF_ETH_HDR + unat len \<le> length buf"
  shows "unat len \<le> SIZEOF_ANNOUNCE_PDU \<and>
    gptp_net_rx_announce n i buf (SIZEOF_ETH_HDR + unat len) s =
     Some (upd_gport i (\<lambda>p. p\<lparr>num_rx_announce_dropped := num_rx_announce_dropped p + 1\<rparr>)
       (upd_gport i (\<lambda>p. p\<lparr>num_rx_announce := num_rx_announce p + 1\<rparr>) s))"
proof -
  have n: "15 \<le> length (an_path_sequence m)" "length (an_path_sequence m) \<le> 16" "unat len = 68 + 8 * length (an_path_sequence m)"
    using assms(1,2) by (auto simp: Let_def)
  then have "length (take (SIZEOF_ETH_HDR + unat len) (drop SIZEOF_ETH_HDR buf)) > SIZEOF_ANNOUNCE_PDU"
    using assms(3) by simp
  then have "\<not> (\<not> gm_id_static (gport s i) \<and> length (take (SIZEOF_ETH_HDR + unat len) (drop SIZEOF_ETH_HDR buf)) \<le> SIZEOF_ANNOUNCE_PDU)" by linarith
  then have "gptp_net_rx_announce n i buf (SIZEOF_ETH_HDR + unat len) s =
     Some (upd_gport i (\<lambda>p. p\<lparr>num_rx_announce_dropped := num_rx_announce_dropped p + 1\<rparr>)
       (upd_gport i (\<lambda>p. p\<lparr>num_rx_announce := num_rx_announce p + 1\<rparr>) s))"
    unfolding gptp_net_rx_announce_def gptp_handle_announce_def Let_def by (simp only: if_False)
  then show ?thesis using n by simp
qed

end
