(* ===== verification/GPTP_BMCA_Witness.thy ===== *)
theory GPTP_BMCA_Witness
  imports GPTP_BMCA_Live
begin

section \<open>gPTP best master selection: a concrete bridge\<close>

text \<open>
  A bridge of two ports in a ring: both receive the grandmaster \<open>2\<close> of priority1 100, port 0 directly from
  it and port 1 over three more bridges. The properties are applied to it.
\<close>

definition demo_id :: "u8 \<Rightarrow> clock_id" where
  "demo_id c = [0, 0, 0, 0, 0, 0, 0, c]"

definition demo_sys :: "u8 \<Rightarrow> u8 \<Rightarrow> ptp_system_identity" where
  "demo_sys prio c = \<lparr>priority_1 = prio, clock_class = 248, clock_accuracy = 254, offset_scaled_log_variance = 17258, priority_2 = 248,
     clock_identity = demo_id c\<rparr>"

definition demo_vec :: "u8 \<Rightarrow> u8 \<Rightarrow> u16 \<Rightarrow> u8 \<Rightarrow> u16 \<Rightarrow> ptp_priority_vector" where
  "demo_vec prio c steps src port = \<lparr>root_system_identity = demo_sys prio c, steps_removed = steps,
     source_port_identity = \<lparr>pid_clock = demo_id src, pid_port = 1\<rparr>, port_number = port\<rparr>"

definition demo_port :: "u16 \<Rightarrow> u8 \<Rightarrow> ptp_priority_vector \<Rightarrow> gptp_port" where
  "demo_port num this v = \<lparr>identity_number = num, identity_clock_id = demo_id this, port_oper = True, ptp_port_enabled = True, as_capable = True,
     gm_id_static = False, asymmetry = False, announce_receipt_timeout = 3, info_is = SPANNING_TREE_RECEIVED, updt_info = False,
     rcvd_msg = False, new_info = False, port_priority = v, master_priority = v, port_steps_removed = 0,
     message_steps_removed = steps_removed v, ann_leap61 = 0, ann_leap59 = 0, ann_current_utc_offset_valid = 0, ann_time_traceable = 0,
     ann_frequency_traceable = 0, ann_current_utc_offset = 37, ann_time_source = 160,
     announce_receipt_timeout_time_interval = u64_to_u_scaled_ns 3000000000, announceReceiptTimeoutTime = u64_to_u_scaled_ns 0,
     messagePriority = v, rcvdInfo = SUPERIOR_MASTER_INFO, info_sm_state = INFO_CURRENT, announce_rx = replicate 196 0,
     rcvd_announce_ptr = False, rcvd_announce_par = False, rcv_sm_state = RCV_RECEIVE, timeout_timer = Some 3000,
     announce_slow_down = False, announce_interval = u64_to_u_scaled_ns 1000000000, old_announce_interval = u64_to_u_scaled_ns 1000000000,
     current_log_announce_interval = 0, interval2 = u64_to_u_scaled_ns 1000000000, number_announce_transmissions = 0,
     transmit_sm_state = TRANSMIT_IDLE, transmit_timer = Some 1000, announce_tx_seqnum = 0, num_rx_announce = 0,
     num_rx_announce_dropped = 0, num_rx_announce_timeout = 0, num_rx_sync_timeout = 0, num_tx_announce = 0\<rparr>"

definition demo_bridge :: gptp_instance where
  "demo_bridge = \<lparr>automotive = False, domain_number = 0, begin_flag = False, instance_enable = True,
     external_port_configuration_enabled = False, numberPorts = 2,
     gport = (\<lambda>i. if i = 0 then demo_port 1 9 (demo_vec 100 2 0 2 1) else demo_port 2 9 (demo_vec 100 2 3 5 2)),
     reselect = 0, selected = 0xffff, selected_role = (\<lambda>j. if j = 0 then PASSIVE_PORT else SLAVE_PORT), this_clock = demo_id 9, gmCapable = True,
     system_priority = demo_vec 246 9 0 9 0, gm_priority = demo_vec 100 2 1 2 1, last_gm_priority = demo_vec 246 9 0 9 0,
     master_steps_removed = 1, leap61 = 0, leap59 = 0, current_utc_offset_valid = 0, time_traceable = 0, frequency_traceable = 0,
     current_utc_offset = 37, time_source = 160, sys_leap61 = 0, sys_leap59 = 0, sys_current_utc_offset_valid = 0, sys_time_traceable = 0,
     sys_frequency_traceable = 0, sys_current_utc_offset = 37, sys_time_source = 160, gm_present = True, is_grandmaster = False,
     path_trace = demo_id 2 # demo_id 9 # replicate 14 (replicate 8 0), num_ptlv = 2, port_state_sm_state = STATE_SELECTION,
     gmChangeCount = 1, timeOfLastGmChangeEvent = 0, timeOfLastGmPhaseChangeEvent = 0, timeOfLastGmFreqChangeEvent = 0,
     gm_info_vector = demo_vec 100 2 1 2 1, gm_info_is_grandmaster = False, cfg_gm_id = demo_id 2, clock_local_ns = 0,
     clock_monotonic_ns = Some 0, outs = []\<rparr>"

lemma demo_vec_ok: "vector_ok (demo_vec p c st sr po)"
  by (simp add: vector_ok_def system_ok_def demo_vec_def demo_sys_def demo_id_def)

lemma demo_port_ok: "i < 2 \<Longrightarrow> gport_ok (demo_id 9) i (gport demo_bridge i)"
  by (cases "i = 0") (auto simp: gport_ok_def demo_bridge_def demo_port_def demo_vec_ok less_2_cases_iff)

lemma demo_ok: "instance_ok demo_bridge"
proof -
  have t: "this_clock demo_bridge = demo_id 9" "numberPorts demo_bridge = 2" by (simp_all add: demo_bridge_def)
  have p: "\<forall>i<2. gport_ok (demo_id 9) i (gport demo_bridge i)" using demo_port_ok by blast
  show ?thesis unfolding instance_ok_def t
    by (intro conjI p) (simp_all add: demo_bridge_def demo_vec_ok list_all_iff, simp_all add: demo_vec_def demo_sys_def demo_id_def)
qed

lemma demo_ports: "numberPorts demo_bridge = 2"
  by (simp add: demo_bridge_def)

lemma demo_weight: "weight demo_bridge = 0"
  by (simp add: weight_def demo_ports numeral_2_eq_2) (simp add: port_weight_def demo_bridge_def demo_port_def port_usable_def)

lemma demo_quiet: "quiet demo_bridge"
  by (simp add: quiet_def demo_ok demo_weight) (simp add: demo_bridge_def)

lemma demo_at_rest: "at_rest demo_bridge"
  by (simp add: at_rest_def demo_quiet) (simp add: demo_bridge_def demo_port_def)

lemma demo_follows: "follows_master 0 demo_bridge"
  by (simp add: follows_master_def demo_bridge_def demo_port_def port_usable_def)

subsection \<open>The properties on the bridge\<close>

theorem bmca_compare_is_lexicographic_witness:
  "vector_ok (demo_vec 100 2 0 2 1) \<and> vector_ok (demo_vec 100 2 3 5 2) \<and>
   compare_priority_vector (demo_vec 100 2 0 2 1) (demo_vec 100 2 3 5 2) = BMCA_VECTOR_A_BETTER \<and>
   compare_system_identity (demo_vec 100 2 0 2 1) (demo_vec 100 2 3 5 2) = BMCA_VECTOR_A_B_SAME"
proof -
  have "vector_key (demo_vec 100 2 0 2 1) < vector_key (demo_vec 100 2 3 5 2)"
    by (simp add: vector_key_def demo_vec_def)
  then show ?thesis
    using bmca_compare_is_lexicographic [OF demo_vec_ok [of 100 2 0 2 1] demo_vec_ok [of 100 2 3 5 2]] demo_vec_ok
    by (simp add: demo_vec_def)
qed

theorem bmca_selects_best_master_witness:
  "instance_ok demo_bridge \<and>
   system_key (root_system_identity (gm_priority (updt_roles_tree demo_bridge))) \<le> own_key demo_bridge \<and>
   role_of (updt_roles_tree demo_bridge) 1 =
     role_for (root_system_identity (gm_priority (updt_roles_tree demo_bridge))) (gport demo_bridge 1)"
  using bmca_selects_best_master [OF demo_ok] demo_ok demo_ports by simp

theorem bmca_machines_terminate_witness:
  "instance_ok demo_bridge \<and>
   (\<exists>t. instance_ok t \<and> numberPorts t = 2 \<and> gptp_handle_announce 46 1 [1, 2, 3] demo_bridge = Some t)"
proof -
  have f: "bmca_fuel demo_bridge = 46" by (simp add: bmca_fuel_def demo_ports)
  have i: "1 < numberPorts demo_bridge" by (simp add: demo_ports)
  from bmca_machines_terminate [OF demo_ok i, of INFO_EVENT_RUN "[1, 2, 3]"] show ?thesis
    unfolding f demo_ports using demo_ok by blast
qed

theorem bmca_announces_well_formed_witness:
  "instance_ok demo_bridge \<and> outs demo_bridge = [] \<and>
   list_all out_ok (outs (gptp_announce_transmit_timer_handler 1 demo_bridge))"
proof -
  have o: "outs demo_bridge = []" by (simp add: demo_bridge_def)
  have "gptp_step\<^sup>*\<^sup>* demo_bridge (gptp_announce_transmit_timer_handler 1 demo_bridge)"
    by (intro r_into_rtranclp gptp_step.transmit_timer) (simp add: demo_ports)
  from bmca_announces_well_formed [OF demo_ok o this] show ?thesis using demo_ok o by simp
qed

theorem bmca_takeover_on_timeout_witness:
  "at_rest demo_bridge \<and> follows_master 0 demo_bridge \<and>
   (\<exists>t m len. gptp_announce_receive_timeout_timer_handler 46 0 demo_bridge = Some t \<and> role_of t 0 = MASTER_PORT \<and>
      AnnounceTx 0 m len \<in> set (outs t))"
proof -
  have f: "bmca_fuel demo_bridge = 46" "outs demo_bridge = []" "\<not> asymmetry (gport demo_bridge 0)"
    by (simp_all add: bmca_fuel_def demo_bridge_def demo_port_def)
  from bmca_takeover_on_timeout [OF demo_at_rest demo_follows f(3)] show ?thesis
    unfolding f(1,2) using demo_at_rest demo_follows by (simp del: demo_id_def) blast
qed

lemma demo_roots:
  "i < 2 \<Longrightarrow> root_system_identity (port_priority (gport demo_bridge i)) = demo_sys 100 2"
  "i < 2 \<Longrightarrow> info_is (gport demo_bridge i) = SPANNING_TREE_RECEIVED"
  "root_system_identity (system_priority demo_bridge) = demo_sys 246 9" "this_clock demo_bridge = demo_id 9"
  by (simp_all add: demo_bridge_def demo_port_def demo_vec_def)

lemma demo_gm: "root_system_identity (gm_priority (updt_roles_tree demo_bridge)) = demo_sys 100 2"
proof -
  have "demo_sys 100 2 = g \<or> g = demo_sys 246 9" if "g = gm_root demo_bridge" for g
    using gm_root_best(1) [OF demo_ok] that by (auto simp: demo_ports demo_roots)
  moreover have "candidate demo_bridge 0" "received_key demo_bridge 0 = system_key (demo_sys 100 2)"
    by (simp_all add: candidate_def received_key_def demo_roots) (simp add: demo_sys_def demo_id_def)
  then have "system_key (gm_root demo_bridge) \<le> system_key (demo_sys 100 2)"
    using gm_root_best(3) [OF demo_ok, of 0] by (simp add: demo_ports)
  moreover have "\<not> system_key (demo_sys 246 9) \<le> system_key (demo_sys 100 2)"
    by (simp add: system_key_def demo_sys_def)
  ultimately show ?thesis unfolding gm_root_tree [OF demo_ok] by metis
qed

theorem bmca_all_ports_to_grandmaster_are_slaves_witness:
  "instance_ok demo_bridge \<and> steps_removed (port_priority (gport demo_bridge 0)) = 0 \<and> steps_removed (port_priority (gport demo_bridge 1)) = 3 \<and>
   role_of (updt_roles_tree demo_bridge) 0 = SLAVE_PORT \<and> role_of (updt_roles_tree demo_bridge) 1 = SLAVE_PORT"
proof -
  have "role_of (updt_roles_tree demo_bridge) i = SLAVE_PORT" if "i < 2" for i
    using bmca_all_ports_to_grandmaster_are_slaves [OF demo_ok, of i] that by (simp add: demo_ports demo_roots demo_gm)
  moreover have "steps_removed (port_priority (gport demo_bridge 0)) = 0" "steps_removed (port_priority (gport demo_bridge 1)) = 3"
    by (simp_all add: demo_bridge_def demo_port_def demo_vec_def)
  ultimately show ?thesis using demo_ok by simp
qed

text \<open>An Announce of clock \<open>3\<close> with priority1 50 and itself as the only entry of the path trace.\<close>

definition demo_msg :: "u8 list" where
  "demo_msg = replicate 20 0 @ demo_id 3 @ [0, 1, 0, 7, 5, 0] @ replicate 10 0 @ [0, 37, 0, 50, 248, 254, 67, 106, 248] @ demo_id 3 @
     [0, 0, 160, 0, 8, 0, 8] @ demo_id 3"

lemma demo_pdu:
  "an_grandmaster (pdu_after 0 demo_msg demo_bridge) = demo_sys 50 3"
  "an_source (pdu_after 0 demo_msg demo_bridge) = \<lparr>pid_clock = demo_id 3, pid_port = 1\<rparr>"
  "announce_qualified (demo_id 9) (pdu_after 0 demo_msg demo_bridge)"
  by code_simp+


lemma demo_superior: "receives_superior 0 demo_msg demo_bridge"
proof -
  have "compare_msg_priority_vector (copy_priority_vector_from_message (gport demo_bridge 0) (pdu_after 0 demo_msg demo_bridge))
      (port_priority (gport demo_bridge 0)) = BMCA_VECTOR_A_BETTER" by code_simp
  moreover have "length demo_msg \<le> SIZEOF_ANNOUNCE_PDU" by (simp add: demo_msg_def demo_id_def)
  ultimately show ?thesis using demo_pdu(3)
    by (simp add: receives_superior_def demo_roots demo_ports) (simp add: demo_bridge_def demo_port_def port_usable_def)
qed

lemma demo_best: "best_of_all 0 (an_grandmaster (pdu_after 0 demo_msg demo_bridge)) demo_bridge"
proof -
  have "system_key (demo_sys 50 3) \<le> system_key (demo_sys 246 9)" "system_key (demo_sys 50 3) \<le> system_key (demo_sys 100 2)"
    "clock_identity (demo_sys 50 3) \<noteq> demo_id 9"
    by (simp_all add: system_key_def demo_sys_def demo_id_def)
  then show ?thesis
    by (simp add: best_of_all_def demo_pdu(1) own_key_def received_key_def demo_roots demo_ports)
qed

theorem bmca_adopts_better_master_witness:
  "at_rest demo_bridge \<and> receives_superior 0 demo_msg demo_bridge \<and>
   (\<exists>t. gptp_handle_announce 46 0 demo_msg demo_bridge = Some t \<and> role_of t 0 = SLAVE_PORT \<and>
      root_system_identity (gm_priority t) = demo_sys 50 3 \<and> timeout_timer (gport t 0) = Some 3000 \<and> gmChangeCount t = 2)"
proof -
  have f: "bmca_fuel demo_bridge = 46" by (simp add: bmca_fuel_def demo_ports)
  obtain t where t: "gptp_handle_announce 46 0 demo_msg demo_bridge = Some t" "adopted 0 (pdu_after 0 demo_msg demo_bridge) demo_bridge t"
    using bmca_adopts_better_master [OF demo_at_rest demo_superior demo_best] unfolding f by blast
  have "ucast (ucast (announce_receipt_timeout (gport demo_bridge 0)) * log_to_ns (an_log_msg_interval (pdu_after 0 demo_msg demo_bridge)) div 1000000)
      = (3000 :: u32)" by code_simp
  moreover have "gmChangeCount demo_bridge + 1 = 2" by (simp add: demo_bridge_def)
  ultimately show ?thesis using t demo_at_rest demo_superior demo_pdu(1) unfolding adopted_def by simp
qed

definition demo_far :: ptp_announce_pdu where
  "demo_far = announce_msg 0 (demo_bridge\<lparr>master_steps_removed := 14\<rparr>)"

theorem bmca_long_announce_dropped_witness:
  "out_ok (AnnounceTx 0 demo_far 188) \<and> unat (an_steps_removed demo_far) = 14 \<and>
   gptp_net_rx_announce 46 1 (replicate 250 0) 202 demo_bridge =
     Some (upd_gport 1 (\<lambda>p. p\<lparr>num_rx_announce_dropped := num_rx_announce_dropped p + 1\<rparr>)
       (upd_gport 1 (\<lambda>p. p\<lparr>num_rx_announce := num_rx_announce p + 1\<rparr>) demo_bridge))"
proof -
  let ?s = "demo_bridge\<lparr>master_steps_removed := 14\<rparr>"
  have "instance_ok ?s" using demo_ok by (simp add: instance_ok_def)
  from announce_msg_ok [OF this, of 0] have o: "out_ok (AnnounceTx 0 demo_far 188)"
    by (simp add: demo_far_def demo_ports num_ptlv_entries_def del: out_ok.simps)
  have "unat (an_steps_removed demo_far) = 14" by (simp add: demo_far_def announce_msg_def Let_def)
  moreover have "unat (188 :: u16) = 188" by simp
  ultimately show ?thesis
    using bmca_long_announce_dropped [OF o, of "replicate 250 0" 46 1 demo_bridge] o by (simp del: out_ok.simps)
qed

end
