(* ===== verification/Spec2Isabelle.thy ===== *)
theory Spec2Isabelle
  imports Prelude Ring_Queue Linked_List Timer MVRP_Run MSRP_Witness MAAP_Run GPTP_BMCA_Witness
begin

text \<open>
  Verification library of the GenAVB/TSN stack (\<open>src/\<close>).

  \<^bold>\<open>The program.\<close> GenAVB/TSN is the protocol stack of an AVB/TSN endpoint or bridge. Its components run
  as event handlers: a network frame, an expired timer or a message of an application starts a handler
  that runs to the end, changes the state of its component, sends frames and messages and restarts
  timers. The library models the components that carry such logic, from the bottom up.

  \<^item> \<open>Ring_Queue\<close>: the lock-free ring queue (\<open>common/os/queue_common.h\<close>, \<open>.c\<close>) that connects contexts.
    The record \<open>queue\<close> is the C structure, one definition per operation; \<open>spsc_step\<close> interleaves the
    loads and stores of one producer and one consumer. Shown: refinement of a bounded FIFO list, no
    loss and no reordering in any interleaving, and the unchecked size of \<open>queue_set_size\<close>.
  \<^item> \<open>Linked_List\<close>: the intrusive list (\<open>common/list.h\<close>) on a store of pointers, refined to sequences.
  \<^item> \<open>Timer\<close>: the timer service (\<open>common/timer.c\<close>), soft timers that share system timers, callbacks that
    may start, stop and destroy timers during expiry. Shown: expiry processing ends and stays consistent
    whatever the callbacks do, the time of an expiry, refinement of the running/stopped view.
  \<^item> \<open>Random_Range\<close>: \<open>common/random.c\<close>.
  \<^item> \<open>MRP_SM\<close>, \<open>MRP_Tx\<close>, \<open>MRP_App\<close>, \<open>MRP_Rx\<close>: the multiple registration protocol (\<open>srp/mrp.c\<close>): applicant,
    registrar, LeaveAll and periodic machines; construction of packets in a buffer of fixed size; the
    attributes of an application and its timers; parsing of packets. \<open>MRP_Tx_Proofs\<close>,
    \<open>MRP_App_Proofs\<close>, \<open>MRP_Inv\<close> and \<open>MRP_Client\<close> hold the invariants, the locales for the events a client
    encodes and for what an application relies on, and the properties.
  \<^item> \<open>MVRP\<close>: VLAN registration (\<open>srp/mvrp.c\<close>, \<open>mvrp_map.c\<close>) as a client of MRP: the VLAN instances, the
    propagation of registrations between ports (MAP), requests of applications, initialization.
    \<open>MVRP_Proofs\<close>, \<open>MVRP_Inv\<close>, \<open>MVRP_Run\<close>: the invariant that ties the MAP to the attributes of MRP, kept by
    every handler, and what follows in reachable states.
  \<^item> \<open>SR_Class\<close>: the stream reservation classes (\<open>public/sr_class.c\<close>) and the idle slope of a traffic
    specification (\<open>common/srp.c\<close>). \<open>FQTSS\<close>: the bandwidth accounts of the ports (\<open>common/fqtss.c\<close>). Shown: the
    tables after a configuration, the exact slope, exact accounts over any sequence of calls, the 75 percent
    limit of the admission, removal as the inverse of addition.
  \<^item> \<open>MSRP_Map\<close>, \<open>MSRP\<close>: stream reservation (\<open>srp/msrp_map.c\<close>, \<open>srp/msrp.c\<close>) as a client of MRP, above MVRP and
    FQTSS: streams and their ports (\<open>msrp_stream\<close>, \<open>msrp_ctx\<close>), the talker and listener declarations of MAP with
    the bandwidth, forwarding entries and VLANs they hold, domains and boundary ports, indications, requests,
    reception, enabling and initialization. The field \<open>ub\<close> records that the code did something undefined.
    \<open>MSRP_Frame\<close>: what each operation of MAP leaves alone (\<open>eff\<close>); \<open>MSRP_Settle\<close>: a MAP update settles a stream, the
    invariant \<open>msrp_ok\<close>; \<open>MRP_Stable\<close>: a locale for predicates that MRP cannot break; \<open>MSRP_Inv\<close>, \<open>MSRP_Run\<close>:
    every operation keeps the invariant, the interpretations of the locales and the step relation \<open>msrp_step\<close>;
    \<open>MSRP_Props\<close>: the properties; \<open>MSRP_Witness\<close>: concrete runs.
  \<^item> \<open>MAAP\<close>: multicast address acquisition (\<open>maap/maap.c\<close>): ranges, the probe/defend machine, PDUs,
    requests, initialization and exit. \<open>MAAP_Proofs\<close>, \<open>MAAP_Inv\<close>, \<open>MAAP_Run\<close>: conflict detection, the
    invariant of the ranges and timers over reachable states, acquisition without conflict.
  \<^item> \<open>Ptp_Time\<close>: the time arithmetic of gPTP (\<open>common/ptp_time_ops.h\<close>) at its C widths, against integers
    modulo \<open>2 ^ 96\<close>.
  \<^item> \<open>GPTP_BMCA\<close>: best master selection of gPTP (\<open>gptp/bmca.c\<close>, \<open>site_fsm.c\<close>, the announce machines of
    \<open>port_fsm.c\<close>, the Announce message of \<open>md_fsm_802_3.c\<close>, the handlers of \<open>gptp.c\<close>). \<open>GPTP_BMCA_Proofs\<close>:
    the order of priority vectors and the roles; \<open>GPTP_BMCA_Inv\<close>: the locale \<open>bmca_invariant\<close> for what the
    mutually recursive machines keep, and its extension \<open>bmca_handlers\<close>; \<open>GPTP_BMCA_Term\<close>: the machines
    stop; \<open>GPTP_BMCA_Run\<close>: handlers, reachable states and what is sent; \<open>GPTP_BMCA_Live\<close>: adoption of a
    better master, takeover after a timeout, two defects; \<open>GPTP_BMCA_Witness\<close>: a concrete bridge.

  \<^bold>\<open>How code becomes definitions.\<close> A structure is a record, an enumeration a datatype, an integer a word of
  its width. A handler is a function on the state of its component that also returns or logs what it
  sends. Pointers that are shared and freed are indices into a heap, so that use after free and double
  free are visible. An operation that fails, or that would follow a null or freed pointer, has an error
  value. Code outside the repository and the operating system layer (network, clock, allocation, random
  numbers, timers of the system) appears as parameters or as fields that the environment sets.

  \<^bold>\<open>Loops and fuel.\<close> Loops over lists are structural; the transmission machine and the expiry loops have a
  measure. The parser of MRP packets is bounded by the length of the packet. The information and
  selection machines of gPTP take a call depth; \<open>16 p + 14\<close> is enough for \<open>p\<close> ports, and the result does
  not depend on it (\<open>bmca_machines_terminate\<close>). Reachable states use that bound.

  \<^bold>\<open>Bounds assumed.\<close> Instances of gPTP have fewer than 16 ports (the masks \<open>reselect\<close> and \<open>selected\<close> have 16
  bits) and clock identities of 8 bytes; MSRP has at most 16 ports, the width of its masks; MRP attribute values have the length their application declares.

  \<^bold>\<open>Not modelled.\<close> The synchronization, delay and clock servo machines of gPTP (their results depend on
  floating point and on hardware timestamps), the gPTP configuration and management data; the managed
  objects of SRP and MSRP; AVDECC (ADP, ACMP, AECP, AEM); AVTP and the media formats; HSR; the public
  API, the applications, the kernel modules and the ports to Linux and RTOS, which are interfaces to the
  operating system. In MVRP and MSRP, the transmission of a frame (\<open>mvrp_net_tx\<close>, \<open>msrp_net_tx\<close>) is the send
  operation of MRP. The invariant of MSRP holds until the code does something undefined: the attributes that MSRP
  frees behind the back of its own lists are defects of the code, so MSRP does not satisfy \<open>mrp_client\<close>.
\<close>

end
